(* ===== verification/Prelude.thy ===== *)
theory Prelude
  imports Main "HOL-Library.AList" "HOL-Library.Multiset"
begin

text \<open>
  What every component shares: the exceptions of the program as one datatype, computations that
  may raise (\<open>'a res\<close>), computations that also change a state (\<open>('s, 'a) prog\<close>), Python
  dictionaries as association lists in insertion order, and the automation for the three.
\<close>

subsection \<open>Exceptions and computations that may raise\<close>

text \<open>
  One constructor per exception class of the program.  \<open>NotFoundError\<close>, \<open>ConflictError\<close> and
  \<open>AttributionError\<close> are subclasses of \<open>DomainError\<close>, itself a \<open>ValueError\<close>; the handlers of
  the program name the exact class or \<open>Exception\<close>, so no subclass test is needed.
\<close>

datatype py_error =
    DomainError string
  | NotFoundError string
  | ConflictError string
  | AttributionError string
  | ValueError string
  | RuntimeError string
  | KeyError
  | ProcessingDeniedError string
  | GovernanceUnavailableError string
  | AuthorizationDeniedError bool
  | AuthenticationError string
  | DatasetValidationError string
  | OverflowError
  | ExternalError string

text \<open>\<open>type(exc).__name__\<close>; an error of a collaborator outside the program carries its own name.\<close>

fun error_name :: "py_error \<Rightarrow> string" where
  "error_name (DomainError _) = ''DomainError''"
| "error_name (NotFoundError _) = ''NotFoundError''"
| "error_name (ConflictError _) = ''ConflictError''"
| "error_name (AttributionError _) = ''AttributionError''"
| "error_name (ValueError _) = ''ValueError''"
| "error_name (RuntimeError _) = ''RuntimeError''"
| "error_name KeyError = ''KeyError''"
| "error_name (ProcessingDeniedError _) = ''ProcessingDeniedError''"
| "error_name (GovernanceUnavailableError _) = ''GovernanceUnavailableError''"
| "error_name (AuthorizationDeniedError _) = ''AuthorizationDeniedError''"
| "error_name (AuthenticationError _) = ''AuthenticationError''"
| "error_name (DatasetValidationError _) = ''DatasetValidationError''"
| "error_name OverflowError = ''OverflowError''"
| "error_name (ExternalError n) = n"

type_synonym 'a res = "py_error + 'a"

named_theorems res_simps "rewriting computations that may raise"

definition rbind :: "'a res \<Rightarrow> ('a \<Rightarrow> 'b res) \<Rightarrow> 'b res" where
  "rbind m f = (case m of Inl e \<Rightarrow> Inl e | Inr x \<Rightarrow> f x)"

text \<open>\<open>if condition: raise error\<close>\<close>

definition raise_if :: "bool \<Rightarrow> py_error \<Rightarrow> unit res" where
  "raise_if b e = (if b then Inl e else Inr ())"

text \<open>A validation applied to every element, the first failure raising.\<close>

fun rmap :: "('a \<Rightarrow> 'b res) \<Rightarrow> 'a list \<Rightarrow> 'b list res" where
  "rmap f [] = Inr []"
| "rmap f (x # xs) = rbind (f x) (\<lambda>y. rbind (rmap f xs) (\<lambda>ys. Inr (y # ys)))"

text \<open>A validation applied to an optional field.\<close>

definition ropt :: "('a \<Rightarrow> 'b res) \<Rightarrow> 'a option \<Rightarrow> 'b option res" where
  "ropt f x = (case x of None \<Rightarrow> Inr None | Some y \<Rightarrow> rbind (f y) (\<lambda>z. Inr (Some z)))"

lemma rbind_simps [simp]: "rbind (Inl e) f = Inl e" "rbind (Inr x) f = f x"
  by (simp_all add: rbind_def)

lemma rbind_Inr [res_simps]: "rbind m f = Inr y \<longleftrightarrow> (\<exists>x. m = Inr x \<and> f x = Inr y)"
  by (cases m) simp_all

lemma rbind_Inl [res_simps]:
  "rbind m f = Inl e \<longleftrightarrow> m = Inl e \<or> (\<exists>x. m = Inr x \<and> f x = Inl e)"
  by (cases m) simp_all

lemma raise_if_simps [simp]: "raise_if True e = Inl e" "raise_if False e = Inr ()"
  by (simp_all add: raise_if_def)

lemma raise_if_Inr [res_simps]: "raise_if b e = Inr u \<longleftrightarrow> \<not> b"
  by (simp add: raise_if_def)

lemma raise_if_Inl [res_simps]: "raise_if b e = Inl e' \<longleftrightarrow> b \<and> e' = e"
  by (auto simp: raise_if_def)

lemma ropt_simps [simp]:
  "ropt f None = Inr None" "ropt f (Some x) = rbind (f x) (\<lambda>z. Inr (Some z))"
  by (simp_all add: ropt_def)

lemma rmap_Inr_iff: "rmap f xs = Inr ys \<longleftrightarrow> list_all2 (\<lambda>x y. f x = Inr y) xs ys"
  by (induction xs arbitrary: ys) (auto simp: res_simps list_all2_Cons1)

lemma rmap_total: "(\<And>x. x \<in> set xs \<Longrightarrow> f x = Inr (g x)) \<Longrightarrow> rmap f xs = Inr (map g xs)"
  by (induction xs) simp_all

lemma rmap_Inl: "rmap f xs = Inl e \<Longrightarrow> \<exists>x \<in> set xs. f x = Inl e"
  by (induction xs) (auto simp: res_simps)

subsection \<open>Sorting\<close>

lemma distinct_map_sort_key [simp]:
  "distinct (map f (sort_key k xs)) \<longleftrightarrow> distinct (map f xs)"
  by (metis mset_map mset_sort mset_eq_imp_distinct_iff)

lemma distinct_map_sort [simp]: "distinct (map f (sort xs)) \<longleftrightarrow> distinct (map f xs)"
  by (metis mset_map mset_sort mset_eq_imp_distinct_iff)

lemma sort_eq_iff: "sort xs = sort ys \<longleftrightarrow> mset xs = mset ys"
  by (metis mset_sort sorted_sort properties_for_sort)

text \<open>\<open>max(xs, key=k)\<close>: the first of the elements with the greatest key; None for the default.\<close>

fun max_by_from :: "('a \<Rightarrow> 'k::linorder) \<Rightarrow> 'a \<Rightarrow> 'a list \<Rightarrow> 'a" where
  "max_by_from k best [] = best"
| "max_by_from k best (x # xs) = max_by_from k (if k best < k x then x else best) xs"

definition py_max :: "('a \<Rightarrow> 'k::linorder) \<Rightarrow> 'a list \<Rightarrow> 'a option" where
  "py_max k xs = (case xs of [] \<Rightarrow> None | x # ys \<Rightarrow> Some (max_by_from k x ys))"

text \<open>\<open>sorted(xs, key=k, reverse=True)\<close>: descending, and stable.\<close>

definition sort_desc :: "('a \<Rightarrow> 'k::linorder) \<Rightarrow> 'a list \<Rightarrow> 'a list" where
  "sort_desc k xs = rev (sort_key k (rev xs))"

lemma max_by_from_greatest:
  "max_by_from k b xs \<in> set (b # xs) \<and> (\<forall>x \<in> set (b # xs). k x \<le> k (max_by_from k b xs))"
proof (induction xs arbitrary: b)
  case (Cons x xs)
  from Cons.IH [of "if k b < k x then x else b"] show ?case by (auto split: if_splits)
qed simp

lemma py_max_Some: "py_max k xs = Some m \<Longrightarrow> m \<in> set xs \<and> (\<forall>x \<in> set xs. k x \<le> k m)"
  using max_by_from_greatest by (fastforce simp: py_max_def split: list.splits)

lemma py_max_None [simp]: "py_max k xs = None \<longleftrightarrow> xs = []"
  by (simp add: py_max_def split: list.splits)

lemma set_sort_desc [simp]: "set (sort_desc k xs) = set xs"
  by (simp add: sort_desc_def)

lemma mset_sort_desc [simp]: "mset (sort_desc k xs) = mset xs"
  by (simp add: sort_desc_def)

lemma length_sort_desc [simp]: "length (sort_desc k xs) = length xs"
  by (simp add: sort_desc_def)

lemma sort_desc_Nil [simp]: "sort_desc k xs = [] \<longleftrightarrow> xs = []"
  by (metis length_0_conv length_sort_desc)

lemma sorted_sort_desc: "sorted_wrt (\<lambda>x y. k y \<le> k x) (sort_desc k xs)"
  using sorted_sort_key [of k "rev xs"] by (simp add: sort_desc_def sorted_wrt_rev sorted_map)

lemma sort_desc_hd: "x \<in> set xs \<Longrightarrow> k x \<le> k (hd (sort_desc k xs))"
proof -
  assume "x \<in> set xs"
  then have "x \<in> set (sort_desc k xs)" by simp
  then show ?thesis using sorted_sort_desc [of k xs] by (cases "sort_desc k xs") auto
qed

lemma sort_desc_hd_in: "xs \<noteq> [] \<Longrightarrow> hd (sort_desc k xs) \<in> set xs"
  by (metis hd_in_set set_sort_desc sort_desc_Nil)

subsection \<open>Computations on a state\<close>

text \<open>
  A Python exception leaves the changes made before it in place, so a failing computation returns
  the state it reached as well.
\<close>

type_synonym ('s, 'a) prog = "'s \<Rightarrow> (py_error + 'a) \<times> 's"

definition return :: "'a \<Rightarrow> ('s, 'a) prog" where "return x = (\<lambda>s. (Inr x, s))"
definition throw :: "py_error \<Rightarrow> ('s, 'a) prog" where "throw e = (\<lambda>s. (Inl e, s))"
definition gets :: "('s \<Rightarrow> 'a) \<Rightarrow> ('s, 'a) prog" where "gets f = (\<lambda>s. (Inr (f s), s))"
definition modify :: "('s \<Rightarrow> 's) \<Rightarrow> ('s, unit) prog" where "modify f = (\<lambda>s. (Inr (), f s))"
definition lift_res :: "'a res \<Rightarrow> ('s, 'a) prog" where "lift_res r = (\<lambda>s. (r, s))"

text \<open>A read that may raise.\<close>

definition asks :: "('s \<Rightarrow> 'a res) \<Rightarrow> ('s, 'a) prog" where "asks f = (\<lambda>s. (f s, s))"

definition pbind :: "('s, 'a) prog \<Rightarrow> ('a \<Rightarrow> ('s, 'b) prog) \<Rightarrow> ('s, 'b) prog" where
  "pbind m f = (\<lambda>s. case m s of (Inl e, t) \<Rightarrow> (Inl e, t) | (Inr x, t) \<Rightarrow> f x t)"

text \<open>\<open>try: m except: h\<close>\<close>

definition catch :: "('s, 'a) prog \<Rightarrow> (py_error \<Rightarrow> ('s, 'a) prog) \<Rightarrow> ('s, 'a) prog" where
  "catch m h = (\<lambda>s. case m s of (Inl e, t) \<Rightarrow> h e t | (Inr x, t) \<Rightarrow> (Inr x, t))"

lemmas prog_defs = return_def throw_def gets_def modify_def lift_res_def asks_def

lemma prog_eval [simp]:
  "return x s = (Inr x, s)" "throw e s = (Inl e, s)" "gets f s = (Inr (f s), s)"
  "modify g s = (Inr (), g s)" "lift_res r s = (r, s)" "asks q s = (q s, s)"
  by (simp_all add: prog_defs)

lemma pbind_assoc: "pbind (pbind m f) g = pbind m (\<lambda>x. pbind (f x) g)"
  by (rule ext) (simp add: pbind_def split: prod.split sum.split)

lemma pbind_return [simp]: "pbind (return x) f s = f x s"
  by (simp add: pbind_def return_def)

lemma pbind_throw [simp]: "pbind (throw e) f s = (Inl e, s)"
  by (simp add: pbind_def throw_def)

lemma pbind_gets [simp]: "pbind (gets g) f s = f (g s) s"
  by (simp add: pbind_def gets_def)

lemma pbind_modify [simp]: "pbind (modify h) f s = f () (h s)"
  by (simp add: pbind_def modify_def)

lemma pbind_lift_res [simp]:
  "pbind (lift_res r) f s = (case r of Inl e \<Rightarrow> (Inl e, s) | Inr x \<Rightarrow> f x s)"
  by (simp add: pbind_def lift_res_def split: sum.split)

lemma pbind_asks [simp]:
  "pbind (asks q) f s = (case q s of Inl e \<Rightarrow> (Inl e, s) | Inr x \<Rightarrow> f x s)"
  by (simp add: pbind_def asks_def split: sum.split)

lemma pbind_eval:
  "m s = (Inl e, t) \<Longrightarrow> pbind m f s = (Inl e, t)"
  "m s = (Inr x, t) \<Longrightarrow> pbind m f s = f x t"
  by (simp_all add: pbind_def)

lemma catch_eval:
  "m s = (Inl e, t) \<Longrightarrow> catch m h s = h e t"
  "m s = (Inr x, t) \<Longrightarrow> catch m h s = (Inr x, t)"
  by (simp_all add: catch_def)

lemma pbind_Inr [res_simps]:
  "pbind m f s = (Inr y, u) \<longleftrightarrow> (\<exists>x t. m s = (Inr x, t) \<and> f x t = (Inr y, u))"
  by (auto simp: pbind_def split: prod.splits sum.splits)

lemma pbind_Inl [res_simps]:
  "pbind m f s = (Inl e, u) \<longleftrightarrow>
     m s = (Inl e, u) \<or> (\<exists>x t. m s = (Inr x, t) \<and> f x t = (Inl e, u))"
  by (auto simp: pbind_def split: prod.splits sum.splits)

lemma catch_Inr [res_simps]:
  "catch m h s = (Inr y, u) \<longleftrightarrow>
     m s = (Inr y, u) \<or> (\<exists>e t. m s = (Inl e, t) \<and> h e t = (Inr y, u))"
  by (auto simp: catch_def split: prod.splits sum.splits)

lemma catch_Inl [res_simps]:
  "catch m h s = (Inl e, u) \<longleftrightarrow> (\<exists>e' t. m s = (Inl e', t) \<and> h e' t = (Inl e, u))"
  by (auto simp: catch_def split: prod.splits sum.splits)

subsection \<open>A relation between the states before and after\<close>

text \<open>
  \<open>obeys R m\<close>: whatever \<open>m\<close> returns or raises, the states before and after are related.  For a
  reflexive and transitive \<open>R\<close> (an invariant kept, a history that only grows, the data of other
  users left alone) it composes along the program; the locale proves so once.
\<close>

definition obeys :: "('s \<Rightarrow> 's \<Rightarrow> bool) \<Rightarrow> ('s, 'a) prog \<Rightarrow> bool" where
  "obeys R m \<longleftrightarrow> (\<forall>s. R s (snd (m s)))"

lemma obeysD: "obeys R m \<Longrightarrow> m s = (r, t) \<Longrightarrow> R s t"
  by (metis obeys_def snd_conv)

locale state_relation =
  fixes R :: "'s \<Rightarrow> 's \<Rightarrow> bool"
  assumes R_refl: "R s s"
    and R_trans: "R s t \<Longrightarrow> R t u \<Longrightarrow> R s u"
begin

lemma obeys_return: "obeys R (return x)"
  and obeys_throw: "obeys R (throw e)"
  and obeys_gets: "obeys R (gets f)"
  and obeys_lift_res: "obeys R (lift_res r)"
  and obeys_asks: "obeys R (asks q)"
  by (simp_all add: obeys_def R_refl)

lemma obeys_modify: "(\<And>s. R s (f s)) \<Longrightarrow> obeys R (modify f)"
  by (simp add: obeys_def)

lemma obeys_pbind:
  assumes "obeys R m" and "\<And>x. obeys R (f x)"
  shows "obeys R (pbind m f)"
  unfolding obeys_def
proof
  fix s
  obtain r t where m: "m s = (r, t)" by (cases "m s")
  with assms(1) have "R s t" by (rule obeysD)
  moreover have "R t (snd (f x t))" for x using assms(2) [of x] by (simp add: obeys_def)
  ultimately show "R s (snd (pbind m f s))"
    using m by (cases r) (auto simp: pbind_eval intro: R_trans)
qed

lemma obeys_catch:
  assumes "obeys R m" and "\<And>e. obeys R (h e)"
  shows "obeys R (catch m h)"
  unfolding obeys_def
proof
  fix s
  obtain r t where m: "m s = (r, t)" by (cases "m s")
  with assms(1) have "R s t" by (rule obeysD)
  moreover have "R t (snd (h e t))" for e using assms(2) [of e] by (simp add: obeys_def)
  ultimately show "R s (snd (catch m h s))"
    using m by (cases r) (auto simp: catch_eval intro: R_trans)
qed

lemma obeys_if: "obeys R m \<Longrightarrow> obeys R n \<Longrightarrow> obeys R (if b then m else n)"
  by simp

lemma obeys_option: "obeys R m \<Longrightarrow> (\<And>x. obeys R (f x)) \<Longrightarrow> obeys R (case v of None \<Rightarrow> m | Some x \<Rightarrow> f x)"
  by (cases v) simp_all

lemmas obeys_intros = obeys_return obeys_throw obeys_gets obeys_lift_res obeys_asks obeys_if obeys_option
  obeys_modify obeys_pbind obeys_catch

end

subsection \<open>Dictionaries\<close>

text \<open>
  A Python dictionary keeps the order of first insertion, and assigning to a present key keeps its
  place: exactly \<^const>\<open>AList.update\<close>.  \<open>d.get(k)\<close> is \<^const>\<open>map_of\<close>, \<open>d.pop(k, None)\<close> is
  \<^const>\<open>AList.delete\<close>, \<open>d.values()\<close> the list of second components.
\<close>

type_synonym ('k, 'v) dict = "('k \<times> 'v) list"

abbreviation dict_set :: "'k \<Rightarrow> 'v \<Rightarrow> ('k, 'v) dict \<Rightarrow> ('k, 'v) dict" where
  "dict_set \<equiv> AList.update"

abbreviation dict_pop :: "'k \<Rightarrow> ('k, 'v) dict \<Rightarrow> ('k, 'v) dict" where
  "dict_pop \<equiv> AList.delete"

definition dict_values :: "('k, 'v) dict \<Rightarrow> 'v list" where
  "dict_values d = map snd d"

definition dict_keys :: "('k, 'v) dict \<Rightarrow> 'k list" where
  "dict_keys d = map fst d"

text \<open>\<open>d[k]\<close>\<close>

definition dict_index :: "('k, 'v) dict \<Rightarrow> 'k \<Rightarrow> 'v res" where
  "dict_index d k = (case map_of d k of None \<Rightarrow> Inl KeyError | Some v \<Rightarrow> Inr v)"

lemma dict_index_Inr [res_simps]: "dict_index d k = Inr v \<longleftrightarrow> map_of d k = Some v"
  by (simp add: dict_index_def split: option.split)

lemma dict_index_some [simp]: "map_of d k = Some v \<Longrightarrow> dict_index d k = Inr v"
  by (simp add: dict_index_def)

text \<open>\<open>{k: v for k, v in d.items() if P(k)}\<close>\<close>

definition dict_filter :: "('k \<Rightarrow> bool) \<Rightarrow> ('k, 'v) dict \<Rightarrow> ('k, 'v) dict" where
  "dict_filter P d = filter (\<lambda>(k, v). P k) d"

text \<open>\<open>for k in ks: d.pop(k, None)\<close>\<close>

definition dict_pop_all :: "'k set \<Rightarrow> ('k, 'v) dict \<Rightarrow> ('k, 'v) dict" where
  "dict_pop_all K d = dict_filter (\<lambda>k. k \<notin> K) d"

definition dict_ok :: "('k, 'v) dict \<Rightarrow> bool" where
  "dict_ok d \<longleftrightarrow> distinct (map fst d)"

text \<open>\<open>dict(pairs)\<close>: the pairs are assigned in order.\<close>

definition dict_of :: "('k \<times> 'v) list \<Rightarrow> ('k, 'v) dict" where
  "dict_of ps = foldl (\<lambda>d (k, v). dict_set k v d) [] ps"

lemma dict_get_set [simp]: "map_of (dict_set k v d) k' = (if k' = k then Some v else map_of d k')"
  by (simp add: update_conv)

lemma dict_get_filter [simp]: "map_of (dict_filter P d) k = (if P k then map_of d k else None)"
  by (induction d) (auto simp: dict_filter_def)

lemma dict_get_pop_all [simp]: "map_of (dict_pop_all K d) k = (if k \<in> K then None else map_of d k)"
  by (simp add: dict_pop_all_def)

lemma dict_ok_nil [simp]: "dict_ok []"
  by (simp add: dict_ok_def)

lemma dict_ok_set [simp]: "dict_ok d \<Longrightarrow> dict_ok (dict_set k v d)"
  by (simp add: dict_ok_def distinct_update)

lemma dict_ok_filter [simp]: "dict_ok d \<Longrightarrow> dict_ok (dict_filter P d)"
  by (simp add: dict_ok_def dict_filter_def distinct_map_filter)

lemma dict_ok_pop_all [simp]: "dict_ok d \<Longrightarrow> dict_ok (dict_pop_all K d)"
  by (simp add: dict_pop_all_def)

lemma dict_values_iff: "dict_ok d \<Longrightarrow> v \<in> set (dict_values d) \<longleftrightarrow> (\<exists>k. map_of d k = Some v)"
  by (force simp: dict_ok_def dict_values_def map_of_eq_Some_iff image_iff)

lemma dict_keys_iff: "k \<in> set (dict_keys d) \<longleftrightarrow> map_of d k \<noteq> None"
  by (simp add: dict_keys_def map_of_eq_None_iff)

lemma dict_set_new: "map_of d k = None \<Longrightarrow> dict_set k v d = d @ [(k, v)]"
  by (induction d) (auto split: if_splits)

lemma dict_of_distinct:
  assumes "distinct (map fst ps)"
  shows "dict_of ps = ps"
proof -
  have "distinct (map fst (ds @ ps)) \<Longrightarrow> foldl (\<lambda>d (k, v). dict_set k v d) ds ps = ds @ ps" for ds
  proof (induction ps arbitrary: ds)
    case (Cons p ps)
    have "map_of ds (fst p) = None" using Cons.prems by (simp add: map_of_eq_None_iff)
    then have "dict_set (fst p) (snd p) ds = ds @ [p]" by (simp add: dict_set_new)
    then show ?case using Cons.IH [of "ds @ [p]"] Cons.prems by (simp add: case_prod_beta)
  qed simp
  from this [of "[]"] show ?thesis using assms by (simp add: dict_of_def)
qed

lemma dict_keys_of: "fst ` set (dict_of ps) = fst ` set ps"
proof -
  have "fst ` set (foldl (\<lambda>d (k, v). dict_set k v d) ds ps) = fst ` set ds \<union> fst ` set ps"
    for ds :: "('a \<times> 'b) list"
    by (induction ps arbitrary: ds) (simp_all add: case_prod_beta dom_update)
  from this [of "[]"] show ?thesis by (simp add: dict_of_def)
qed

lemma dict_ok_of: "dict_ok (dict_of ps)"
proof -
  have "dict_ok ds \<Longrightarrow> dict_ok (foldl (\<lambda>d (k, v). dict_set k v d) ds ps)" for ds :: "('a \<times> 'b) list"
    by (induction ps arbitrary: ds) (simp_all add: case_prod_beta)
  then show ?thesis by (simp add: dict_of_def)
qed

lemma length_dict_of: "length (dict_of ps) = length ps \<longleftrightarrow> distinct (map fst ps)"
proof -
  have "length (dict_of ps) = card (set (map fst (dict_of ps)))"
    using dict_ok_of [of ps] by (metis dict_ok_def distinct_card length_map)
  also have "\<dots> = card (set (map fst ps))" by (simp add: dict_keys_of)
  finally show ?thesis by (metis card_distinct distinct_card length_map)
qed

text \<open>The loop of single pops and the filter agree.\<close>

lemma dict_pop_all_insert: "dict_pop_all (insert k K) d = dict_pop_all K (dict_pop k d)"
  by (auto simp: dict_pop_all_def dict_filter_def AList.delete_eq intro!: filter_cong)

end
