(* ===== verification/PyFloat.thy ===== *)
theory PyFloat
  imports Complex_Main "HOL-Library.Log_Nat"
begin

text \<open>
  Python floats.  A finite \<open>float\<close> is an IEEE-754 binary64 number, so its value is a rational
  and every arithmetic operation is the exact operation followed by one rounding to nearest,
  ties to even.  The rounding is written out here as an executable function on \<^typ>\<open>rat\<close>, in the
  way a machine integer is written with its wrap-around.  Sign of zero, infinities and NaN are not
  represented: the program compares every float it stores with finite bounds first, and no
  expression it evaluates comes near the overflow threshold \<open>2 ^ 1024\<close>.

  The theory also holds the locale \<open>rounding\<close>, the laws of correct rounding that the clients'
  bounds are proved from, and its interpretation on the concrete function.
\<close>

type_synonym pyfloat = rat

subsection \<open>Rounding to nearest, ties to even\<close>

definition ilog2 :: "rat \<Rightarrow> int" where
  "ilog2 x = (let (p, q) = quotient_of \<bar>x\<bar>; e = bitlen p - bitlen q
              in if 2 powi e \<le> \<bar>x\<bar> then e else e - 1)"

definition round_even :: "rat \<Rightarrow> int" where
  "round_even x = (let n = \<lfloor>x\<rfloor>; r = x - of_int n in
     if r < 1/2 then n else if 1/2 < r then n + 1 else if even n then n else n + 1)"

definition float_exp :: "rat \<Rightarrow> int" where
  "float_exp x = max (ilog2 x - 52) (- 1074)"

definition rnd53 :: "rat \<Rightarrow> pyfloat" where
  "rnd53 x = (if x = 0 then 0
     else of_int (round_even (x / 2 powi float_exp x)) * 2 powi float_exp x)"

definition is_double :: "rat \<Rightarrow> bool" where
  "is_double x \<longleftrightarrow> rnd53 x = x"

text \<open>The arithmetic of the interpreter.  \<open>flit\<close> is what a decimal literal denotes.\<close>

definition flit :: "rat \<Rightarrow> pyfloat" where "flit x = rnd53 x"
definition fadd :: "pyfloat \<Rightarrow> pyfloat \<Rightarrow> pyfloat" where "fadd x y = rnd53 (x + y)"
definition fsub :: "pyfloat \<Rightarrow> pyfloat \<Rightarrow> pyfloat" where "fsub x y = rnd53 (x - y)"
definition fmul :: "pyfloat \<Rightarrow> pyfloat \<Rightarrow> pyfloat" where "fmul x y = rnd53 (x * y)"
definition fdiv :: "pyfloat \<Rightarrow> pyfloat \<Rightarrow> pyfloat" where "fdiv x y = rnd53 (x / y)"

text \<open>
  \<open>sum\<close> over floats is compensated since Python 3.12, the version the project requires: the
  improved Kahan-Babuska loop of Neumaier, the compensation added once at the end.  \<open>sum([])\<close>
  is the integer 0.
\<close>

fun py_sum_loop :: "pyfloat \<Rightarrow> pyfloat \<Rightarrow> pyfloat list \<Rightarrow> pyfloat" where
  "py_sum_loop f c [] = (if c = 0 then f else fadd f c)"
| "py_sum_loop f c (x # xs) =
     (let t = fadd f x;
          d = (if \<bar>x\<bar> \<le> \<bar>f\<bar> then fadd (fsub f t) x else fadd (fsub x t) f)
      in py_sum_loop t (fadd c d) xs)"

definition py_sum :: "pyfloat list \<Rightarrow> pyfloat" where
  "py_sum xs = (case xs of [] \<Rightarrow> 0 | x # ys \<Rightarrow> py_sum_loop x 0 ys)"

text \<open>\<open>math.isclose\<close> with its default relative tolerance and the given absolute one.\<close>

definition isclose :: "pyfloat \<Rightarrow> pyfloat \<Rightarrow> pyfloat \<Rightarrow> pyfloat \<Rightarrow> bool" where
  "isclose a b rel_tol abs_tol \<longleftrightarrow> a = b \<or>
     (let diff = \<bar>fsub b a\<bar> in
        diff \<le> \<bar>fmul rel_tol b\<bar> \<or> diff \<le> \<bar>fmul rel_tol a\<bar> \<or> diff \<le> abs_tol)"

subsection \<open>The laws of correct rounding\<close>

locale rounding =
  fixes rnd :: "rat \<Rightarrow> rat" and dbl :: "rat \<Rightarrow> bool"
  assumes rnd_dbl: "dbl (rnd x)"
    and rnd_id: "dbl x \<Longrightarrow> rnd x = x"
    and rnd_mono: "x \<le> y \<Longrightarrow> rnd x \<le> rnd y"
    and dbl_int: "\<bar>n\<bar> \<le> 2 ^ 53 \<Longrightarrow> dbl (of_int n)"
begin

lemma rnd_le: "dbl b \<Longrightarrow> x \<le> b \<Longrightarrow> rnd x \<le> b"
  using rnd_mono [of x b] by (simp add: rnd_id)

lemma rnd_ge: "dbl b \<Longrightarrow> b \<le> x \<Longrightarrow> b \<le> rnd x"
  using rnd_mono [of b x] by (simp add: rnd_id)

lemma dbl_0: "dbl 0" and dbl_1: "dbl 1"
  using dbl_int [of 0] dbl_int [of 1] by simp_all

lemma rnd_0: "rnd 0 = 0" and rnd_1: "rnd 1 = 1"
  by (simp_all add: rnd_id dbl_0 dbl_1)

lemma rnd_nonneg: "0 \<le> x \<Longrightarrow> 0 \<le> rnd x"
  by (rule rnd_ge [OF dbl_0])

lemma rnd_le_1: "x \<le> 1 \<Longrightarrow> rnd x \<le> 1"
  by (rule rnd_le [OF dbl_1])

lemma unit_mul: "0 \<le> x \<Longrightarrow> x \<le> 1 \<Longrightarrow> 0 \<le> y \<Longrightarrow> y \<le> 1 \<Longrightarrow> 0 \<le> rnd (x * y) \<and> rnd (x * y) \<le> 1"
  by (simp add: rnd_nonneg rnd_le_1 mult_le_one)

lemma unit_compl: "0 \<le> x \<Longrightarrow> x \<le> 1 \<Longrightarrow> 0 \<le> rnd (1 - x) \<and> rnd (1 - x) \<le> 1"
  by (simp add: rnd_nonneg rnd_le_1)

lemma unit_div: "0 \<le> x \<Longrightarrow> x \<le> y \<Longrightarrow> 0 \<le> rnd (x / y) \<and> rnd (x / y) \<le> 1"
  by (cases "y = 0") (simp_all add: rnd_0 rnd_nonneg rnd_le_1 divide_le_eq_1)

end

subsection \<open>The concrete function obeys them\<close>

lemma powi_2_pos [simp]: "0 < (2::rat) powi e"
  by (simp add: zero_less_power_int)

lemma powi_2_nonzero [simp]: "(2::rat) powi e \<noteq> 0"
  by (simp add: power_int_eq_0_iff)

lemma powi_2_mono: "e \<le> f \<Longrightarrow> (2::rat) powi e \<le> 2 powi f"
  by (rule power_int_increasing) simp_all

lemma powi_2_less: "(2::rat) powi e < 2 powi f \<longleftrightarrow> e < f"
  by (meson linorder_not_less order_le_less powi_2_mono power_int_strict_increasing
      one_less_numeral_iff semiring_norm(76))

lemma powi_2_grid: "e \<le> f \<Longrightarrow> \<exists>k. (2::rat) powi f = of_int k * 2 powi e"
proof -
  assume "e \<le> f"
  then obtain k where "f = int k + e" by (metis add.commute zle_iff_zadd)
  then have "(2::rat) powi f = of_int (2 ^ k) * 2 powi e"
    by (simp add: power_int_add)
  then show ?thesis by blast
qed

lemma bitlen_powi:
  assumes "0 < p"
  shows "2 powi (bitlen p - 1) \<le> (of_int p :: rat)" and "(of_int p :: rat) < 2 powi bitlen p"
proof -
  have b: "2 ^ nat (bitlen p - 1) \<le> p \<and> p < 2 ^ nat (bitlen p)"
    using bitlen_bounds [OF assms] .
  have pos: "1 \<le> bitlen p"
    using assms bitlen_nonneg [of p] bitlen_eq_zero_iff [of p] by linarith
  have "(2::rat) powi (bitlen p - 1) = of_int (2 ^ nat (bitlen p - 1))"
    using pos by (simp add: power_int_def)
  also have "\<dots> \<le> of_int p" using b by (simp only: of_int_le_iff)
  finally show "2 powi (bitlen p - 1) \<le> (of_int p :: rat)" .
  have "of_int p < (of_int (2 ^ nat (bitlen p)) :: rat)" using b by (simp only: of_int_less_iff)
  also have "\<dots> = 2 powi bitlen p" using pos by (simp add: power_int_def)
  finally show "(of_int p :: rat) < 2 powi bitlen p" .
qed

lemma ilog2_bounds:
  assumes "x \<noteq> 0"
  shows "2 powi ilog2 x \<le> \<bar>x\<bar> \<and> \<bar>x\<bar> < 2 powi (ilog2 x + 1)"
proof -
  obtain p q where pq: "quotient_of \<bar>x\<bar> = (p, q)" by (cases "quotient_of \<bar>x\<bar>")
  have q: "0 < q" and x: "\<bar>x\<bar> = of_int p / of_int q"
    using quotient_of_denom_pos [OF pq] quotient_of_div [OF pq] by simp_all
  have "0 < \<bar>x\<bar>" using assms by simp
  then have p: "0 < p" using q unfolding x by (simp add: zero_less_divide_iff)
  let ?e = "bitlen p - bitlen q"
  have "(2::rat) powi (?e - 1) * of_int q \<le> 2 powi (?e - 1) * 2 powi bitlen q"
    using bitlen_powi(2) [OF q] by simp
  also have "\<dots> = 2 powi (bitlen p - 1)"
    by (subst power_int_add [symmetric]) (simp_all add: algebra_simps)
  also have "\<dots> \<le> of_int p" by (rule bitlen_powi(1) [OF p])
  finally have low: "2 powi (?e - 1) \<le> \<bar>x\<bar>" using q by (simp add: x pos_le_divide_eq)
  have "of_int p < (2::rat) powi bitlen p" by (rule bitlen_powi(2) [OF p])
  also have "\<dots> = 2 powi (?e + 1) * 2 powi (bitlen q - 1)"
    by (subst power_int_add [symmetric]) (simp_all add: algebra_simps)
  also have "\<dots> \<le> 2 powi (?e + 1) * of_int q"
    using bitlen_powi(1) [OF q] by simp
  finally have high: "\<bar>x\<bar> < 2 powi (?e + 1)" using q by (simp add: x pos_divide_less_eq)
  show ?thesis using low high by (auto simp: ilog2_def pq Let_def not_le)
qed

lemma floor_bounds: "of_int \<lfloor>x\<rfloor> \<le> (x::rat)" "(x::rat) < of_int \<lfloor>x\<rfloor> + 1"
  using floor_correct [of x] by simp_all

lemma round_even_le: "x \<le> of_int n \<Longrightarrow> round_even x \<le> n"
proof -
  assume le: "x \<le> of_int n"
  then have "\<lfloor>x\<rfloor> \<le> n" by (simp add: floor_le_iff)
  moreover have "\<lfloor>x\<rfloor> = n \<Longrightarrow> x = of_int n" using le floor_bounds(1) [of x] by simp
  ultimately show ?thesis by (cases "\<lfloor>x\<rfloor> = n") (auto simp: round_even_def Let_def)
qed

lemma round_even_ge: "of_int n \<le> x \<Longrightarrow> n \<le> round_even x"
  using le_floor_iff [of n x] by (auto simp: round_even_def Let_def)

lemma round_even_of_int [simp]: "round_even (of_int n) = n"
  by (simp add: round_even_def)

lemma round_even_near: "\<bar>of_int (round_even x) - x\<bar> \<le> 1/2"
  using floor_bounds [of x] by (simp add: round_even_def Let_def abs_le_iff)

lemma round_even_minus: "round_even (- x) = - round_even x"
proof (cases "x \<in> \<int>")
  case True
  then obtain n where "x = of_int n" by (auto elim: Ints_cases)
  then show ?thesis using round_even_of_int [of n] round_even_of_int [of "- n"] by simp
next
  case False
  then have "of_int \<lfloor>x\<rfloor> \<noteq> x" by (metis Ints_of_int)
  then have ne: "of_int \<lfloor>x\<rfloor> < x"
    using floor_bounds(1) by (rule order.not_eq_order_implies_strict)
  have fl: "\<lfloor>- x\<rfloor> = - \<lfloor>x\<rfloor> - 1"
    by (rule floor_unique) (use ne floor_bounds [of x] in simp_all)
  show ?thesis unfolding round_even_def Let_def fl by auto
qed

lemma round_even_mono: "x \<le> y \<Longrightarrow> round_even x \<le> round_even y"
proof -
  assume le: "x \<le> y"
  show ?thesis
  proof (cases "\<lfloor>x\<rfloor> = \<lfloor>y\<rfloor>")
    case True
    with le show ?thesis by (auto simp: round_even_def Let_def)
  next
    case False
    with floor_mono [OF le] have "\<lfloor>x\<rfloor> + 1 \<le> \<lfloor>y\<rfloor>" by simp
    moreover have "round_even x \<le> \<lfloor>x\<rfloor> + 1"
      using floor_bounds(2) [of x] by (intro round_even_le) simp
    moreover have "\<lfloor>y\<rfloor> \<le> round_even y"
      using floor_bounds(1) [of y] by (rule round_even_ge)
    ultimately show ?thesis by simp
  qed
qed

lemma rnd53_0 [simp]: "rnd53 0 = 0"
  by (simp add: rnd53_def)

lemma ilog2_minus [simp]: "ilog2 (- x) = ilog2 x"
  by (simp add: ilog2_def)

lemma rnd53_minus: "rnd53 (- x) = - rnd53 x"
  by (simp add: rnd53_def float_exp_def round_even_minus)

text \<open>The numbers of the format, as significand and exponent.\<close>

definition in_format :: "rat \<Rightarrow> bool" where
  "in_format x \<longleftrightarrow> (\<exists>m e. \<bar>m\<bar> \<le> 2 ^ 53 \<and> - 1074 \<le> e \<and> x = of_int m * 2 powi e)"

lemma powi_split: "(2::rat) powi e = 2 powi (e - f) * 2 powi f"
  by (simp add: power_int_add [symmetric])

lemma scaled_bound: "x \<noteq> 0 \<Longrightarrow> \<bar>x / 2 powi float_exp x\<bar> \<le> 2 ^ 53"
proof -
  assume "x \<noteq> 0"
  then have "\<bar>x\<bar> \<le> 2 powi (ilog2 x + 1)" using ilog2_bounds by (simp add: order_less_imp_le)
  also have "\<dots> = 2 powi (ilog2 x + 1 - float_exp x) * 2 powi float_exp x" by (rule powi_split)
  also have "\<dots> \<le> 2 powi 53 * 2 powi float_exp x"
    by (intro mult_right_mono powi_2_mono) (simp_all add: float_exp_def)
  finally show ?thesis by (simp add: abs_divide pos_divide_le_eq)
qed

lemma rnd53_in_format: "in_format (rnd53 x)"
proof (cases "x = 0")
  case True
  then show ?thesis by (auto simp: in_format_def intro!: exI [of _ 0])
next
  case False
  let ?y = "x / 2 powi float_exp x"
  have "?y \<le> of_int (2 ^ 53)" "of_int (- (2 ^ 53)) \<le> ?y"
    using scaled_bound [OF False] unfolding abs_le_iff by simp_all
  from round_even_le [OF this(1)] round_even_ge [OF this(2)]
  have "\<bar>round_even ?y\<bar> \<le> 2 ^ 53" by (simp add: abs_le_iff)
  moreover have "- 1074 \<le> float_exp x" by (simp add: float_exp_def)
  ultimately show ?thesis using False unfolding in_format_def rnd53_def by auto
qed

lemma in_format_grid:
  assumes "in_format x" "x \<noteq> 0"
  shows "\<exists>k. x = of_int k * 2 powi float_exp x"
proof -
  obtain m e where m: "\<bar>m\<bar> \<le> 2 ^ 53" and e: "- 1074 \<le> e" and x: "x = of_int m * 2 powi e"
    using assms(1) by (auto simp: in_format_def)
  let ?f = "float_exp x"
  show ?thesis
  proof (cases "?f \<le> e")
    case True
    then obtain k where "(2::rat) powi e = of_int k * 2 powi ?f" using powi_2_grid by blast
    then have "x = of_int (m * k) * 2 powi ?f" by (simp add: x)
    then show ?thesis by blast
  next
    case False
    with e have f: "?f = ilog2 x - 52" by (simp add: float_exp_def)
    have "\<bar>x\<bar> = of_int \<bar>m\<bar> * 2 powi e" by (simp add: x abs_mult)
    also have "\<dots> \<le> of_int (2 ^ 53) * 2 powi e"
      using m by (intro mult_right_mono) (simp_all only: of_int_le_iff powi_2_pos less_imp_le)
    also have "\<dots> = 2 powi (53 + e)" by (simp add: power_int_add)
    also have "\<dots> \<le> 2 powi ilog2 x" using False f by (intro powi_2_mono) simp
    finally have "\<bar>x\<bar> = 2 powi ilog2 x" using ilog2_bounds [OF assms(2)] by simp
    also have "\<dots> = of_int (2 ^ 52) * 2 powi ?f" by (subst powi_split [of _ ?f]) (simp add: f)
    finally have "x = of_int (2 ^ 52) * 2 powi ?f \<or> x = of_int (- (2 ^ 52)) * 2 powi ?f"
      by (simp add: abs_eq_iff')
    then show ?thesis by blast
  qed
qed

lemma rnd53_id: "in_format x \<Longrightarrow> rnd53 x = x"
proof (cases "x = 0")
  case False
  assume "in_format x"
  from in_format_grid [OF this False] obtain k where k: "x = of_int k * 2 powi float_exp x" ..
  then have "x / 2 powi float_exp x = of_int k" by (simp add: field_simps)
  with k False show ?thesis unfolding rnd53_def by (metis round_even_of_int)
qed simp

lemma is_double_iff: "is_double x \<longleftrightarrow> in_format x"
  unfolding is_double_def using rnd53_in_format [of x] rnd53_id [of x] by metis

lemma is_doubleI: "\<bar>m\<bar> \<le> 2 ^ 53 \<Longrightarrow> - 1074 \<le> e \<Longrightarrow> is_double (of_int m * 2 powi e)"
  by (auto simp: is_double_iff in_format_def)

lemma ilog2_mono: "0 < x \<Longrightarrow> x \<le> y \<Longrightarrow> ilog2 x \<le> ilog2 y"
proof -
  assume "0 < x" "x \<le> y"
  then have "2 powi ilog2 x < (2::rat) powi (ilog2 y + 1)"
    using ilog2_bounds [of x] ilog2_bounds [of y] by simp
  then show ?thesis by (simp add: powi_2_less)
qed

lemma rnd53_pos_mono:
  assumes "0 < x" "x \<le> y"
  shows "rnd53 x \<le> rnd53 y"
proof -
  let ?e = "float_exp x" and ?f = "float_exp y"
  have ef: "?e \<le> ?f" using ilog2_mono [OF assms] by (simp add: float_exp_def)
  show ?thesis
  proof (cases "?e = ?f")
    case True
    have "round_even (x / 2 powi ?e) \<le> round_even (y / 2 powi ?e)"
      using assms(2) by (intro round_even_mono divide_right_mono) (simp_all add: less_imp_le)
    then show ?thesis using assms True by (simp add: rnd53_def)
  next
    case False
    with ef have f: "?f = ilog2 y - 52" and lt: "ilog2 x + 1 \<le> ilog2 y"
      by (simp_all add: float_exp_def)
    have yb: "2 powi ilog2 y = of_int (2 ^ 52) * (2::rat) powi ?f"
      by (subst powi_split [of _ ?f]) (simp add: f)
    obtain k where k: "2 powi ilog2 y = of_int k * (2::rat) powi ?e"
      using powi_2_grid [of ?e "ilog2 y"] ef f by auto
    have "x \<le> 2 powi ilog2 y"
      using ilog2_bounds [of x] powi_2_mono [OF lt] assms by simp
    then have "x / 2 powi ?e \<le> of_int k" by (simp add: k pos_divide_le_eq)
    then have "round_even (x / 2 powi ?e) \<le> k" by (rule round_even_le)
    then have "of_int (round_even (x / 2 powi ?e)) * 2 powi ?e \<le> of_int k * (2::rat) powi ?e"
      by (intro mult_right_mono) simp_all
    then have 1: "rnd53 x \<le> 2 powi ilog2 y" using assms by (simp add: rnd53_def k)
    have "2 powi ilog2 y \<le> y" using ilog2_bounds [of y] assms by simp
    then have "of_int (2 ^ 52) \<le> y / 2 powi ?f" by (simp add: yb pos_le_divide_eq)
    then have "2 ^ 52 \<le> round_even (y / 2 powi ?f)" by (rule round_even_ge)
    then have "of_int (2 ^ 52) * 2 powi ?f \<le> of_int (round_even (y / 2 powi ?f)) * (2::rat) powi ?f"
      by (intro mult_right_mono) (simp_all only: of_int_le_iff powi_2_pos less_imp_le)
    then have "2 powi ilog2 y \<le> rnd53 y" using assms by (simp add: rnd53_def yb)
    with 1 show ?thesis by simp
  qed
qed

lemma rnd53_nonneg: "0 \<le> x \<Longrightarrow> 0 \<le> rnd53 x"
proof (cases "x = 0")
  case False
  assume "0 \<le> x"
  then have "0 \<le> round_even (x / 2 powi float_exp x)"
    by (intro round_even_ge) (simp add: less_imp_le)
  then show ?thesis using False by (simp add: rnd53_def less_imp_le)
qed simp

lemma rnd53_mono: "x \<le> y \<Longrightarrow> rnd53 x \<le> rnd53 y"
proof -
  assume le: "x \<le> y"
  consider "0 < x" | "x \<le> 0" "0 \<le> y" | "y < 0" by linarith
  then show ?thesis
  proof cases
    case 1
    then show ?thesis using le by (rule rnd53_pos_mono)
  next
    case 2
    then show ?thesis using rnd53_nonneg [of y] rnd53_nonneg [of "- x"] by (simp add: rnd53_minus)
  next
    case 3
    then have "rnd53 (- y) \<le> rnd53 (- x)" using le by (intro rnd53_pos_mono) simp_all
    then show ?thesis by (simp add: rnd53_minus)
  qed
qed

lemma is_double_of_int: "\<bar>n\<bar> \<le> 2 ^ 53 \<Longrightarrow> is_double (of_int n)"
  using is_doubleI [of n 0] by simp

lemma is_double_rnd53: "is_double (rnd53 x)"
  by (simp add: is_double_iff rnd53_in_format)

interpretation fp: rounding rnd53 is_double
  by unfold_locales
    (rule is_double_rnd53, simp add: is_double_def, erule rnd53_mono, erule is_double_of_int)

subsection \<open>Exact subtraction, and the rounding error\<close>

text \<open>
  Sterbenz's lemma: two floats within a factor of two subtract exactly.  And one rounding of a
  number of magnitude at most one moves it by at most \<open>2 ^ -54\<close>.
\<close>

lemma in_format_minus: "in_format x \<Longrightarrow> in_format (- x)"
proof -
  assume "in_format x"
  then obtain m e where "\<bar>m\<bar> \<le> 2 ^ 53" "- 1074 \<le> e" "x = of_int m * 2 powi e"
    by (auto simp: in_format_def)
  then have "\<bar>- m\<bar> \<le> 2 ^ 53 \<and> - 1074 \<le> e \<and> - x = of_int (- m) * 2 powi e" by simp
  then show ?thesis unfolding in_format_def by blast
qed

lemma sterbenz_le:
  assumes "in_format x" "in_format y" "y \<le> x" "x \<le> 2 * y"
  shows "in_format (x - y)"
proof -
  obtain m e where m: "\<bar>m\<bar> \<le> 2 ^ 53" and e: "- 1074 \<le> e" and x: "x = of_int m * 2 powi e"
    using assms(1) by (auto simp: in_format_def)
  obtain n f where n: "\<bar>n\<bar> \<le> 2 ^ 53" and f: "- 1074 \<le> f" and y: "y = of_int n * 2 powi f"
    using assms(2) by (auto simp: in_format_def)
  let ?g = "min e f"
  obtain a where "(2::rat) powi e = of_int a * 2 powi ?g" using powi_2_grid [of ?g e] by auto
  moreover obtain b where "(2::rat) powi f = of_int b * 2 powi ?g" using powi_2_grid [of ?g f] by auto
  ultimately have d: "x - y = of_int (m * a - n * b) * 2 powi ?g"
    by (simp add: x y algebra_simps)
  have nn: "0 \<le> x - y" using assms(3) by simp
  have "x - y \<le> y" "x - y \<le> x" using assms(3,4) by simp_all
  moreover have "y \<le> of_int (2 ^ 53) * 2 powi f" "x \<le> of_int (2 ^ 53) * 2 powi e"
    unfolding x y using m n
    by (intro mult_right_mono; simp only: of_int_le_iff abs_le_iff powi_2_pos less_imp_le)+
  ultimately have "x - y \<le> of_int (2 ^ 53) * 2 powi ?g" by (simp add: min_def split: if_splits)
  then have "of_int (m * a - n * b) * 2 powi ?g \<le> of_int (2 ^ 53) * (2::rat) powi ?g"
    by (simp only: d)
  then have "m * a - n * b \<le> 2 ^ 53"
    by (simp only: mult_le_cancel_right_pos powi_2_pos of_int_le_iff)
  moreover have "of_int 0 * 2 powi ?g \<le> of_int (m * a - n * b) * (2::rat) powi ?g"
    using nn unfolding d by simp
  then have "0 \<le> m * a - n * b"
    by (simp only: mult_le_cancel_right_pos powi_2_pos of_int_le_iff)
  ultimately show ?thesis using d e f unfolding in_format_def
    by (intro exI [of _ "m * a - n * b"] exI [of _ ?g]) simp
qed

lemma sterbenz:
  assumes "is_double x" "is_double y" "y \<le> 2 * x" "x \<le> 2 * y"
  shows "fsub x y = x - y"
proof (cases "y \<le> x")
  case True
  then show ?thesis using assms sterbenz_le [of x y] by (simp add: fsub_def is_double_iff rnd53_id)
next
  case False
  then have "in_format (- (y - x))"
    using assms by (intro in_format_minus sterbenz_le) (simp_all add: is_double_iff)
  then show ?thesis by (simp add: fsub_def rnd53_id)
qed

lemma rnd53_error: "\<bar>rnd53 x - x\<bar> \<le> 2 powi float_exp x / 2"
proof (cases "x = 0")
  case False
  let ?e = "float_exp x"
  have "rnd53 x - x = (of_int (round_even (x / 2 powi ?e)) - x / 2 powi ?e) * 2 powi ?e"
    using False by (simp add: rnd53_def algebra_simps)
  then have "\<bar>rnd53 x - x\<bar> = \<bar>of_int (round_even (x / 2 powi ?e)) - x / 2 powi ?e\<bar> * 2 powi ?e"
    by (simp add: abs_mult)
  also have "\<dots> \<le> (1/2) * 2 powi ?e" by (intro mult_right_mono round_even_near) simp
  finally show ?thesis by simp
qed simp

lemma rnd53_error_unit: "\<bar>x\<bar> < 2 \<Longrightarrow> \<bar>rnd53 x - x\<bar> \<le> 1 / 2 ^ 53"
proof (cases "x = 0")
  case False
  assume "\<bar>x\<bar> < 2"
  then have "(2::rat) powi ilog2 x < 2 powi 1" using ilog2_bounds [OF False] by simp
  then have "float_exp x \<le> - 52" unfolding powi_2_less by (simp add: float_exp_def)
  then have "(2::rat) powi float_exp x \<le> 2 powi (- 52)" by (rule powi_2_mono)
  moreover have "(2::rat) powi (- 52) = 1 / 2 ^ 52" by (simp add: power_int_def power_divide)
  ultimately show ?thesis using rnd53_error [of x] by simp
qed simp

subsection \<open>How far the compensated sum is from the sum\<close>

definition ulp1 :: rat where "ulp1 = 1 / 2 ^ 53"

lemma ulp1_error: "\<bar>x\<bar> < 2 \<Longrightarrow> \<bar>rnd53 x - x\<bar> \<le> ulp1"
  unfolding ulp1_def by (rule rnd53_error_unit)

lemma ulp1_small: "0 < ulp1" "1000000000000000 * ulp1 \<le> 1"
  by (simp_all add: ulp1_def)

lemma neumaier_step:
  assumes f: "0 \<le> f" and x: "0 \<le> x" and b: "f + x \<le> 3/2"
  shows "\<bar>fadd f x - (f + x)\<bar> \<le> ulp1"
    and "\<bar>if \<bar>x\<bar> \<le> \<bar>f\<bar> then fadd (fsub f (fadd f x)) x else fadd (fsub x (fadd f x)) f\<bar> \<le> 3 * ulp1"
proof -
  show t: "\<bar>fadd f x - (f + x)\<bar> \<le> ulp1"
    unfolding fadd_def using assms by (intro ulp1_error) simp
  have half: "\<bar>fadd (fsub y (fadd f x)) z\<bar> \<le> 3 * ulp1" if "y + z = f + x" "0 \<le> y" "0 \<le> z" for y z
  proof -
    let ?w = "fsub y (fadd f x)"
    have "\<bar>y - fadd f x\<bar> < 2" using t that b ulp1_small by linarith
    then have w: "\<bar>?w - (y - fadd f x)\<bar> \<le> ulp1" unfolding fsub_def by (rule ulp1_error)
    then have wz: "\<bar>?w + z\<bar> \<le> 2 * ulp1" using t that by linarith
    then have "\<bar>?w + z\<bar> < 2" using ulp1_small by linarith
    then show ?thesis unfolding fadd_def [of ?w] using ulp1_error [of "?w + z"] wz by linarith
  qed
  show "\<bar>if \<bar>x\<bar> \<le> \<bar>f\<bar> then fadd (fsub f (fadd f x)) x else fadd (fsub x (fadd f x)) f\<bar> \<le> 3 * ulp1"
    using half [of f x] half [of x f] f x by (simp add: add.commute)
qed

lemma py_sum_loop_error:
  assumes "0 \<le> f" "list_all (\<lambda>x. 0 \<le> x) xs"
    and "f + sum_list xs + of_nat (length xs) * ulp1 \<le> 5/4"
    and "\<bar>c\<bar> + 4 * of_nat (length xs) * ulp1 \<le> 1/8"
  shows "\<bar>py_sum_loop f c xs - (f + sum_list xs)\<bar> \<le> \<bar>c\<bar> + (5 * of_nat (length xs) + 1) * ulp1"
  using assms
proof (induction xs arbitrary: f c)
  case Nil
  then have "f \<le> 5/4" "\<bar>c\<bar> \<le> 1/8" by simp_all
  then have "\<bar>f + c\<bar> < 2" using Nil.prems(1) by linarith
  then have "\<bar>fadd f c - (f + c)\<bar> \<le> ulp1" unfolding fadd_def by (rule ulp1_error)
  then show ?case by (simp add: abs_if split: if_splits)
next
  case (Cons x xs)
  let ?t = "fadd f x" and ?n = "of_nat (length xs) :: rat"
  obtain d where d: "d = (if \<bar>x\<bar> \<le> \<bar>f\<bar> then fadd (fsub f ?t) x else fadd (fsub x ?t) f)" by simp
  let ?c = "fadd c d"
  have x: "0 \<le> x" and xs: "list_all (\<lambda>x. 0 \<le> x) xs" using Cons.prems by simp_all
  have s: "0 \<le> sum_list xs" using xs by (intro sum_list_nonneg) (simp add: list_all_iff)
  have n: "0 \<le> ?n * ulp1" using ulp1_small by simp
  have p3: "f + x + sum_list xs + (?n * ulp1 + ulp1) \<le> 5/4"
    using Cons.prems(3) by (simp add: algebra_simps)
  have p4: "\<bar>c\<bar> + 4 * (?n * ulp1) + 4 * ulp1 \<le> 1/8"
    using Cons.prems(4) by (simp add: algebra_simps)
  have b: "f + x \<le> 3/2" using p3 s n ulp1_small by linarith
  note st = neumaier_step [OF Cons.prems(1) x b, folded d]
  have "\<bar>c + d\<bar> < 2" using st(2) p4 n ulp1_small by linarith
  then have c: "\<bar>?c\<bar> \<le> \<bar>c\<bar> + 4 * ulp1"
    unfolding fadd_def [of c] using ulp1_error [of "c + d"] st(2) by linarith
  have "0 \<le> ?t" using Cons.prems(1) x by (simp add: fadd_def fp.rnd_nonneg)
  moreover have "?t + sum_list xs + ?n * ulp1 \<le> 5/4" using st(1) p3 by linarith
  moreover have "\<bar>?c\<bar> + 4 * ?n * ulp1 \<le> 1/8" using c p4 by linarith
  ultimately have "\<bar>py_sum_loop ?t ?c xs - (?t + sum_list xs)\<bar> \<le> \<bar>?c\<bar> + (5 * ?n + 1) * ulp1"
    using xs by (intro Cons.IH)
  moreover have "py_sum_loop f c (x # xs) = py_sum_loop ?t ?c xs" by (simp add: Let_def d)
  ultimately show ?case using st(1) c by (simp add: algebra_simps)
qed

lemma py_sum_error:
  assumes "list_all (\<lambda>x. 0 \<le> x) xs" "sum_list xs \<le> 9/8" "length xs \<le> 1000000"
  shows "\<bar>py_sum xs - sum_list xs\<bar> \<le> (5 * of_nat (length xs) + 1) * ulp1"
proof (cases xs)
  case Nil
  then show ?thesis using ulp1_small by (simp add: py_sum_def)
next
  case (Cons x ys)
  have len: "of_nat (length ys) \<le> (1000000 :: rat)" using assms(3) Cons by simp
  then have "of_nat (length ys) * ulp1 \<le> 1000000 * ulp1"
    using ulp1_small by (intro mult_right_mono) simp_all
  then have n: "of_nat (length ys) * ulp1 \<le> 1 / 1000" using ulp1_small by linarith
  have "\<bar>py_sum_loop x 0 ys - (x + sum_list ys)\<bar> \<le> \<bar>0\<bar> + (5 * of_nat (length ys) + 1) * ulp1"
    using assms Cons n by (intro py_sum_loop_error) simp_all
  then show ?thesis using Cons ulp1_small by (simp add: py_sum_def algebra_simps)
qed

text \<open>A literal is near its decimal value.\<close>

lemma flit_error: "\<bar>x\<bar> < 2 \<Longrightarrow> \<bar>flit x - x\<bar> \<le> ulp1"
  unfolding flit_def by (rule ulp1_error)

lemma is_double_flit: "is_double (flit x)"
  unfolding flit_def by (rule is_double_rnd53)

lemma is_double_fadd: "is_double (fadd x y)"
  unfolding fadd_def by (rule is_double_rnd53)

lemma is_double_fsub: "is_double (fsub x y)"
  unfolding fsub_def by (rule is_double_rnd53)

end
