(* ===== verification/PyText.thy ===== *)
theory PyText
  imports Prelude PyFloat "HOL-Library.Word" "HOL-Library.More_List" "HOL-Library.List_Lexorder"
    "HOL-Library.Product_Lexorder"
begin

text \<open>
  Python text and the library types the program prints: strings as lists of code points, \<open>UUID\<close>
  and its canonical text, timestamps and their ISO text, and \<open>json.dumps\<close> in the compact sorted
  form the digests use.  The Unicode character database is the record \<open>unidb\<close>: what it holds
  beyond ASCII is data of the interpreter, so it is an argument of the functions that read it.
\<close>

type_synonym ustr = "nat list"

definition uc :: "string \<Rightarrow> ustr" where
  "uc s = map of_char s"

lemma uc_simps [simp]: "uc [] = []" "uc (c # s) = of_char c # uc s" "length (uc s) = length s"
  by (simp_all add: uc_def)

lemma uc_append: "uc (s @ t) = uc s @ uc t"
  by (simp add: uc_def)

record unidb =
  uni_lower :: "ustr \<Rightarrow> ustr"
  uni_casefold :: "ustr \<Rightarrow> ustr"
  uni_decimal :: "nat \<Rightarrow> nat option"

subsection \<open>Strings\<close>

text \<open>\<open>str.isspace\<close> on one code point: the complete list.\<close>

definition is_space :: "nat \<Rightarrow> bool" where
  "is_space c \<longleftrightarrow> (9 \<le> c \<and> c \<le> 13) \<or> (28 \<le> c \<and> c \<le> 32) \<or> c = 0x85 \<or> c = 0xA0 \<or> c = 0x1680 \<or>
     (0x2000 \<le> c \<and> c \<le> 0x200A) \<or> c = 0x2028 \<or> c = 0x2029 \<or> c = 0x202F \<or> c = 0x205F \<or> c = 0x3000"

definition strip :: "ustr \<Rightarrow> ustr" where
  "strip s = strip_while is_space (dropWhile is_space s)"

definition stripped :: "ustr \<Rightarrow> bool" where
  "stripped s \<longleftrightarrow> s \<noteq> [] \<and> \<not> is_space (hd s) \<and> \<not> is_space (last s)"

definition is_ascii :: "ustr \<Rightarrow> bool" where
  "is_ascii s \<longleftrightarrow> list_all (\<lambda>c. c < 128) s"

definition ascii_lower :: "nat \<Rightarrow> nat" where
  "ascii_lower c = (if 65 \<le> c \<and> c \<le> 90 then c + 32 else c)"

definition lower :: "unidb \<Rightarrow> ustr \<Rightarrow> ustr" where
  "lower db s = (if is_ascii s then map ascii_lower s else uni_lower db s)"

definition casefold :: "unidb \<Rightarrow> ustr \<Rightarrow> ustr" where
  "casefold db s = (if is_ascii s then map ascii_lower s else uni_casefold db s)"

lemma strip_while_hd: "strip_while P xs \<noteq> [] \<Longrightarrow> hd (strip_while P xs) = hd xs"
  by (metis hd_append2 split_strip_while_append)

lemma strip_stripped: "strip s \<noteq> [] \<Longrightarrow> stripped (strip s)"
proof -
  assume ne: "strip s \<noteq> []"
  let ?d = "dropWhile is_space s"
  have "?d \<noteq> []" using ne by (metis strip_def strip_while_Nil)
  then have "\<not> is_space (hd ?d)" by (rule hd_dropWhile)
  then have "\<not> is_space (hd (strip s))" using ne strip_while_hd [of is_space ?d] unfolding strip_def by metis
  moreover have "\<not> is_space (last (strip s))"
    using ne hd_dropWhile [of is_space "rev ?d"]
    by (simp add: strip_def strip_while_def last_rev del: dropWhile_eq_Nil_conv)
  ultimately show ?thesis using ne by (simp add: stripped_def)
qed

lemma strip_id: "stripped s \<Longrightarrow> strip s = s"
proof -
  assume s: "stripped s"
  then have "dropWhile is_space s = s" by (cases s) (auto simp: stripped_def)
  moreover have "strip_while is_space s = s"
    using s by (cases s rule: rev_cases) (auto simp: stripped_def)
  ultimately show ?thesis by (simp add: strip_def)
qed

lemma strip_Nil [simp]: "strip [] = []"
  by (simp add: strip_def)

lemma strip_idem [simp]: "strip (strip s) = strip s"
  by (metis strip_Nil strip_id strip_stripped)

subsection \<open>\<open>int(s, 16)\<close> succeeds\<close>

text \<open>
  The grammar of the interpreter: surrounding white space, an optional sign, an optional
  \<open>0x\<close> prefix that one underscore may follow, then hexadecimal digits with single underscores
  between them.  Decimal digits of other scripts count as their ASCII digit.
\<close>

definition is_hex :: "nat \<Rightarrow> bool" where
  "is_hex c \<longleftrightarrow> (48 \<le> c \<and> c \<le> 57) \<or> (97 \<le> c \<and> c \<le> 102) \<or> (65 \<le> c \<and> c \<le> 70)"

definition to_ascii_digit :: "unidb \<Rightarrow> nat \<Rightarrow> nat" where
  "to_ascii_digit db c = (if c < 128 then c
     else if is_space c then 32
     else case uni_decimal db c of Some d \<Rightarrow> 48 + d | None \<Rightarrow> 63)"

fun hex_body :: "bool \<Rightarrow> ustr \<Rightarrow> bool" where
  "hex_body prev [] = (\<not> prev)"
| "hex_body prev (c # cs) =
     (if c = 95 then \<not> prev \<and> hex_body True cs else is_hex c \<and> hex_body False cs)"

fun drop_sign :: "ustr \<Rightarrow> ustr" where
  "drop_sign [] = []"
| "drop_sign (c # cs) = (if c = 43 \<or> c = 45 then cs else c # cs)"

fun drop_0x :: "ustr \<Rightarrow> ustr" where
  "drop_0x (c # d # cs) =
     (if c = 48 \<and> (d = 120 \<or> d = 88) then (case cs of e # es \<Rightarrow> if e = 95 then es else cs | [] \<Rightarrow> cs)
      else c # d # cs)"
| "drop_0x cs = cs"

definition py_int16_ok :: "unidb \<Rightarrow> ustr \<Rightarrow> bool" where
  "py_int16_ok db s =
     (let cs = drop_0x (drop_sign (map (to_ascii_digit db) (strip s)))
      in cs \<noteq> [] \<and> hd cs \<noteq> 95 \<and> hex_body False cs)"

lemma hex_body_hex: "list_all is_hex cs \<Longrightarrow> hex_body False cs"
  by (induction cs) (auto simp: is_hex_def)

subsection \<open>UUIDs\<close>

type_synonym uuid = "128 word"

definition hex_char :: "nat \<Rightarrow> nat" where
  "hex_char d = (if d < 10 then 48 + d else 87 + d)"

text \<open>The \<open>n\<close> low hexadecimal digits, most significant first.\<close>

fun hex_digits :: "nat \<Rightarrow> nat \<Rightarrow> ustr" where
  "hex_digits 0 x = []"
| "hex_digits (Suc n) x = hex_digits n (x div 16) @ [hex_char (x mod 16)]"

definition dashed :: "ustr \<Rightarrow> ustr" where
  "dashed h = take 8 h @ [45] @ take 4 (drop 8 h) @ [45] @ take 4 (drop 12 h) @ [45] @
     take 4 (drop 16 h) @ [45] @ drop 20 h"

definition uuid_str :: "uuid \<Rightarrow> ustr" where
  "uuid_str i = dashed (hex_digits 32 (unat i))"

lemma hex_char_inj: "d < 16 \<Longrightarrow> e < 16 \<Longrightarrow> hex_char d = hex_char e \<Longrightarrow> d = e"
  by (auto simp: hex_char_def split: if_splits)

lemma length_hex_digits [simp]: "length (hex_digits n x) = n"
  by (induction n arbitrary: x) simp_all

lemma hex_digits_inj:
  "x < 16 ^ n \<Longrightarrow> y < 16 ^ n \<Longrightarrow> hex_digits n x = hex_digits n y \<Longrightarrow> x = y"
proof (induction n arbitrary: x y)
  case (Suc n)
  then have "x div 16 < 16 ^ n" "y div 16 < 16 ^ n"
    by (simp_all add: less_mult_imp_div_less mult.commute)
  with Suc have "x div 16 = y div 16" by (intro Suc.IH) simp_all
  moreover have "x mod 16 = y mod 16" using Suc.prems by (auto intro: hex_char_inj)
  ultimately show ?case by (metis div_mult_mod_eq)
qed simp

lemma dashed_inj: "length h = 32 \<Longrightarrow> length k = 32 \<Longrightarrow> dashed h = dashed k \<Longrightarrow> h = k"
proof -
  assume len: "length h = 32" "length k = 32" and eq: "dashed h = dashed k"
  have "take 8 h = take 8 k" "take 4 (drop 8 h) = take 4 (drop 8 k)"
    "take 4 (drop 12 h) = take 4 (drop 12 k)" "take 4 (drop 16 h) = take 4 (drop 16 k)"
    "drop 20 h = drop 20 k"
    using eq len by (simp_all add: dashed_def)
  moreover have "xs = take 8 xs @ take 4 (drop 8 xs) @ take 4 (drop 12 xs) @ take 4 (drop 16 xs) @ drop 20 xs"
    for xs :: ustr
    using append_take_drop_id [of 8 xs] append_take_drop_id [of 4 "drop 8 xs"]
      append_take_drop_id [of 4 "drop 12 xs"] append_take_drop_id [of 4 "drop 16 xs"] by simp
  ultimately show ?thesis by metis
qed

lemma uuid_str_inj: "uuid_str i = uuid_str j \<Longrightarrow> i = j"
proof -
  assume "uuid_str i = uuid_str j"
  then have "hex_digits 32 (unat i) = hex_digits 32 (unat j)"
    unfolding uuid_str_def by (rule dashed_inj [rotated 2]) (rule length_hex_digits)+
  moreover have "unat i < 16 ^ 32" "unat j < 16 ^ 32"
    using unsigned_less [of i] unsigned_less [of j] by simp_all
  ultimately have "unat i = unat j" by (intro hex_digits_inj [of _ 32])
  then show ?thesis by (rule unsigned_word_eqI)
qed

subsection \<open>Timestamps\<close>

text \<open>
  A \<open>datetime\<close> has a wall-clock reading, here in microseconds from 1970-01-01T00:00, and
  possibly a UTC offset, also in microseconds.  The program stores none that is not normalised to
  UTC, and an aware UTC value is its number of microseconds, an \<open>instant\<close>.  The calendar is
  unbounded here, where Python's ends with the years 1 and 9999.
\<close>

record py_datetime =
  wall :: int
  offset :: "int option"

type_synonym instant = int

definition utc :: "instant \<Rightarrow> py_datetime" where
  "utc t = \<lparr>wall = t, offset = Some 0\<rparr>"

fun dec_digits :: "nat \<Rightarrow> ustr" where
  "dec_digits n = (if n < 10 then [48 + n] else dec_digits (n div 10) @ [48 + n mod 10])"

declare dec_digits.simps [simp del]

definition int_str :: "int \<Rightarrow> ustr" where
  "int_str i = (if i < 0 then 45 # dec_digits (nat (- i)) else dec_digits (nat i))"

definition zero_pad :: "nat \<Rightarrow> int \<Rightarrow> ustr" where
  "zero_pad n i = (let s = int_str i in replicate (n - length s) 48 @ s)"

text \<open>The proleptic Gregorian date of a day number.\<close>

definition civil_date :: "int \<Rightarrow> int \<times> int \<times> int" where
  "civil_date day =
     (let z = day + 719468;
          era = z div 146097;
          doe = z mod 146097;
          yoe = (doe - doe div 1460 + doe div 36524 - doe div 146096) div 365;
          doy = doe - (365 * yoe + yoe div 4 - yoe div 100);
          mp = (5 * doy + 2) div 153;
          d = doy - (153 * mp + 2) div 5 + 1;
          m = (if mp < 10 then mp + 3 else mp - 9)
      in (yoe + era * 400 + (if m \<le> 2 then 1 else 0), m, d))"

definition isoformat :: "instant \<Rightarrow> ustr" where
  "isoformat t =
     (let day = t div 86400000000; us = t mod 86400000000;
          (y, m, d) = civil_date day; s = us div 1000000; f = us mod 1000000
      in zero_pad 4 y @ uc ''-'' @ zero_pad 2 m @ uc ''-'' @ zero_pad 2 d @ uc ''T'' @
         zero_pad 2 (s div 3600) @ uc '':'' @ zero_pad 2 (s div 60 mod 60) @ uc '':'' @
         zero_pad 2 (s mod 60) @ (if f = 0 then [] else uc ''.'' @ zero_pad 6 f) @ uc ''+00:00'')"

subsection \<open>JSON\<close>

datatype json =
    JNull
  | JBool bool
  | JInt int
  | JFloat pyfloat
  | JStr ustr
  | JArr "json list"
  | JObj "(ustr \<times> json) list"

text \<open>The string escapes of the encoder with \<open>ensure_ascii=False\<close>.\<close>

definition json_escape :: "nat \<Rightarrow> ustr" where
  "json_escape c =
     (if c = 34 then [92, 34] else if c = 92 then [92, 92]
      else if c = 10 then [92, 110] else if c = 13 then [92, 114] else if c = 9 then [92, 116]
      else if c = 12 then [92, 102] else if c = 8 then [92, 98]
      else if c < 32 then [92, 117, 48, 48] @ hex_digits 2 c
      else [c])"

definition json_string :: "ustr \<Rightarrow> ustr" where
  "json_string s = [34] @ concat (map json_escape s) @ [34]"

fun join :: "ustr \<Rightarrow> ustr list \<Rightarrow> ustr" where
  "join sep [] = []"
| "join sep [x] = x"
| "join sep (x # y # ys) = x @ sep @ join sep (y # ys)"

text \<open>
  \<open>json.dumps(x, ensure_ascii=False, separators=(",", ":"), sort_keys=True)\<close>.  How a float is
  printed (\<open>float.__repr__\<close>) is the argument \<open>fr\<close>.
\<close>

fun json_dumps :: "(pyfloat \<Rightarrow> ustr) \<Rightarrow> json \<Rightarrow> ustr" where
  "json_dumps fr JNull = uc ''null''"
| "json_dumps fr (JBool b) = (if b then uc ''true'' else uc ''false'')"
| "json_dumps fr (JInt i) = int_str i"
| "json_dumps fr (JFloat x) = fr x"
| "json_dumps fr (JStr s) = json_string s"
| "json_dumps fr (JArr xs) = uc ''['' @ join (uc '','') (map (json_dumps fr) xs) @ uc '']''"
| "json_dumps fr (JObj kvs) = uc ''{'' @ join (uc '','')
     (map (\<lambda>(k, v). json_string k @ uc '':'' @ v)
       (sort_key fst (map (\<lambda>(k, v). (k, json_dumps fr v)) kvs))) @ uc ''}''"

section \<open>Encoding\<close>

text \<open>
  \<open>str.encode("utf-8")\<close>: a text with a lone surrogate, which the JSON decoder makes of an escape for
  U+D800, cannot be encoded.  The encoder keeps surrogates, so the text of a JSON document can be encoded
  exactly when all its strings can.
\<close>

definition surrogate :: "nat \<Rightarrow> bool" where
  "surrogate c \<longleftrightarrow> 0xd800 \<le> c \<and> c \<le> 0xdfff"

definition encodable :: "ustr \<Rightarrow> bool" where
  "encodable s \<longleftrightarrow> \<not> list_ex surrogate s"

definition unicode_encode_error :: py_error where
  "unicode_encode_error = ExternalError ''UnicodeEncodeError''"

text \<open>The text whose encoding is taken, or the error.\<close>

definition encode_utf8 :: "ustr \<Rightarrow> ustr res" where
  "encode_utf8 s = rbind (raise_if (\<not> encodable s) unicode_encode_error) (\<lambda>_. Inr s)"

lemma encode_utf8_eval [simp]:
  "encodable s \<Longrightarrow> encode_utf8 s = Inr s" "\<not> encodable s \<Longrightarrow> encode_utf8 s = Inl unicode_encode_error"
  by (simp_all add: encode_utf8_def raise_if_def)

lemma encodable_simps [simp]:
  "encodable []" "encodable (c # s) \<longleftrightarrow> \<not> surrogate c \<and> encodable s" "encodable (s @ t) \<longleftrightarrow> encodable s \<and> encodable t"
  by (simp_all add: encodable_def)

lemma encodable_concat: "encodable (concat ss) \<longleftrightarrow> list_all encodable ss"
  by (induction ss) simp_all

lemma encodable_rev [simp]: "encodable (rev s) \<longleftrightarrow> encodable s"
  by (induction s) auto

lemma encodable_uc [simp]: "encodable (uc s)"
proof -
  have "of_char c < (256 :: nat)" for c
  proof -
    have "of_char c = of_char c mod (256 :: nat)" using of_char_of [of "of_char c :: nat"] by simp
    then show ?thesis by (metis mod_less_divisor zero_less_numeral)
  qed
  then have "of_char c < (0xd800 :: nat)" for c by (rule less_trans) simp
  then have "\<not> surrogate (of_char c)" for c by (simp add: surrogate_def not_le)
  then show ?thesis by (induction s) simp_all
qed

lemma encodable_join: "encodable sep \<Longrightarrow> encodable (join sep ss) \<longleftrightarrow> list_all encodable ss"
  by (induction sep ss rule: join.induct) simp_all

subsection \<open>JSON\<close>

fun json_encodable :: "json \<Rightarrow> bool" where
  "json_encodable (JStr s) = encodable s"
| "json_encodable (JArr xs) = list_all (\<lambda>v. json_encodable v) xs"
| "json_encodable (JObj kvs) = list_all (\<lambda>(k, v). encodable k \<and> json_encodable v) kvs"
| "json_encodable _ = True"

lemma encodable_hex: "encodable (hex_digits n x)"
proof (induction n arbitrary: x)
  case (Suc n)
  have "hex_char (x mod 16) \<le> 102" by (simp add: hex_char_def) (use mod_less_divisor [of 16 x] in linarith)
  then show ?case using Suc by (simp add: surrogate_def)
qed simp

lemma encodable_escape: "encodable (json_escape c) \<longleftrightarrow> \<not> surrogate c"
  by (simp add: json_escape_def encodable_hex) (auto simp: surrogate_def)

lemma encodable_json_string [simp]: "encodable (json_string s) \<longleftrightarrow> encodable s"
proof -
  have "encodable (concat (map json_escape s)) \<longleftrightarrow> encodable s" by (induction s) (simp_all add: encodable_escape)
  then show ?thesis by (simp add: json_string_def surrogate_def)
qed

lemma encodable_dec: "encodable (dec_digits n)"
proof (induction n rule: dec_digits.induct)
  case (1 n)
  have "48 + n mod 10 < 0xd800" by (rule less_trans [of _ "48 + 10"]) simp_all
  then show ?case using 1 by (subst dec_digits.simps) (auto simp: surrogate_def)
qed

lemma encodable_int_str [simp]: "encodable (int_str i)"
  by (simp add: int_str_def encodable_dec surrogate_def)

lemma encodable_zero_pad [simp]: "encodable (zero_pad n i)"
proof -
  have "encodable (replicate k 48)" for k by (induction k) (simp_all add: surrogate_def)
  then show ?thesis by (simp add: zero_pad_def Let_def)
qed

lemma encodable_isoformat [simp]: "encodable (isoformat t)"
  by (simp add: isoformat_def Let_def case_prod_beta surrogate_def)

text \<open>\<open>float.__repr__\<close> writes digits, signs and a point.\<close>

definition reprs_encodable :: "(pyfloat \<Rightarrow> ustr) \<Rightarrow> bool" where
  "reprs_encodable fr \<longleftrightarrow> (\<forall>x. encodable (fr x))"

lemma json_dumps_encodable:
  assumes "reprs_encodable fr"
  shows "encodable (json_dumps fr v) \<longleftrightarrow> json_encodable v"
proof (induction v rule: json_encodable.induct)
  case (2 xs)
  then show ?case by (simp add: encodable_join list_all_iff surrogate_def)
next
  case (3 kvs)
  then show ?case by (simp add: encodable_join list_all_iff case_prod_beta surrogate_def) (auto simp: case_prod_beta)
qed (use assms in \<open>simp_all add: reprs_encodable_def surrogate_def\<close>)

end
