(* ===== verification/Common.thy ===== *)
theory Common
  imports PyText
begin

text \<open>
  \<open>domain/common.py\<close>: validated text and timestamps, the tenant/subject scope every object of the
  program belongs to, and the canonical context signature with its fingerprint and similarity.
  A frozen dataclass is a record; its \<open>__post_init__\<close> is the function \<open>mk_\<dots>\<close>, from the raw
  arguments to the validated record or the exception.
\<close>

definition require_text :: "ustr \<Rightarrow> string \<Rightarrow> ustr res" where
  "require_text value field =
     (let normalized = strip value in
      rbind (raise_if (normalized = []) (DomainError (field @ '' must not be blank''))) (\<lambda>_.
      Inr normalized))"

definition require_utc :: "py_datetime \<Rightarrow> string \<Rightarrow> instant res" where
  "require_utc value field =
     (case offset value of
        None \<Rightarrow> Inl (DomainError (field @ '' must be timezone-aware''))
      | Some off \<Rightarrow> Inr (wall value - off))"

lemma require_text_Inr [res_simps]:
  "require_text v f = Inr t \<longleftrightarrow> t = strip v \<and> strip v \<noteq> []"
  by (auto simp: require_text_def Let_def res_simps)

lemma require_text_stripped: "stripped v \<Longrightarrow> require_text v f = Inr v"
  using strip_id [of v] by (auto simp: res_simps stripped_def)

lemma require_text_result: "require_text v f = Inr t \<Longrightarrow> stripped t"
  by (auto simp: res_simps strip_stripped)

lemma require_utc_utc [simp]: "require_utc (utc t) f = Inr t"
  by (simp add: require_utc_def utc_def)

subsection \<open>Scope\<close>

record scope =
  tenant_id :: ustr
  subject_id :: ustr

definition mk_scope :: "ustr \<Rightarrow> ustr \<Rightarrow> scope res" where
  "mk_scope tenant subject =
     rbind (require_text tenant ''tenant_id'') (\<lambda>t.
     rbind (require_text subject ''subject_id'') (\<lambda>s.
     Inr \<lparr>tenant_id = t, subject_id = s\<rparr>))"

definition scope_ok :: "scope \<Rightarrow> bool" where
  "scope_ok s \<longleftrightarrow> stripped (tenant_id s) \<and> stripped (subject_id s)"

lemma mk_scope_ok: "mk_scope t s = Inr sc \<Longrightarrow> scope_ok sc"
  by (auto simp: mk_scope_def scope_ok_def res_simps strip_stripped)

lemma mk_scope_idem: "scope_ok sc \<Longrightarrow> mk_scope (tenant_id sc) (subject_id sc) = Inr sc"
  by (simp add: mk_scope_def scope_ok_def require_text_stripped)

subsection \<open>Context signatures\<close>

record context_sig =
  facets :: "(ustr \<times> ustr) list"

definition require_facet :: "ustr \<times> ustr \<Rightarrow> (ustr \<times> ustr) res" where
  "require_facet = (\<lambda>(key, value).
     rbind (require_text key ''context key'') (\<lambda>k.
     rbind (require_text value ''context value'') (\<lambda>v. Inr (k, v))))"

definition mk_context :: "(ustr \<times> ustr) list \<Rightarrow> context_sig res" where
  "mk_context fs =
     rbind (rmap require_facet fs) (\<lambda>pairs.
     let canonical = sort pairs in
     rbind (raise_if (length (dict_of canonical) \<noteq> length canonical)
       (DomainError ''context keys must be unique'')) (\<lambda>_.
     Inr \<lparr>facets = canonical\<rparr>))"

definition from_mapping :: "(ustr, ustr) dict option \<Rightarrow> context_sig res" where
  "from_mapping values = mk_context (case values of None \<Rightarrow> [] | Some d \<Rightarrow> d)"

definition as_dict :: "context_sig \<Rightarrow> (ustr, ustr) dict" where
  "as_dict c = dict_of (facets c)"

text \<open>The text that is hashed: fields joined by the two separator code points.\<close>

definition fingerprint_text :: "context_sig \<Rightarrow> ustr" where
  "fingerprint_text c = join [0x1f] (map (\<lambda>(key, value). key @ [0x1e] @ value) (facets c))"

definition fingerprint :: "(ustr \<Rightarrow> ustr) \<Rightarrow> context_sig \<Rightarrow> ustr" where
  "fingerprint sha c = sha (fingerprint_text c)"

definition conflicting_keys :: "context_sig \<Rightarrow> context_sig \<Rightarrow> ustr set" where
  "conflicting_keys stored query =
     set [sk. (sk, sv) \<leftarrow> facets stored, (qk, qv) \<leftarrow> facets query, sk = qk \<and> sv \<noteq> qv]"

definition similarity :: "context_sig \<Rightarrow> context_sig \<Rightarrow> pyfloat" where
  "similarity self requested =
     (if facets self = [] \<and> facets requested = [] then 1
      else if facets self = [] then flit (8/10)
      else if facets requested = [] then flit (25/100)
      else
        let stored = set (facets self); query = set (facets requested);
            matching = card (stored \<inter> query);
            conflicts = conflicting_keys self requested;
            union = card (stored \<union> query);
            score = (if union \<noteq> 0 then fdiv (of_nat matching) (of_nat union) else 0)
        in max 0 (fsub score (fmul (flit (35/100)) (of_nat (card conflicts)))))"

definition context_ok :: "context_sig \<Rightarrow> bool" where
  "context_ok c \<longleftrightarrow> sorted (facets c) \<and> distinct (map fst (facets c)) \<and>
     (\<forall>(k, v) \<in> set (facets c). stripped k \<and> stripped v)"

lemma require_facet_Inr [res_simps]:
  "require_facet p = Inr q \<longleftrightarrow> q = (strip (fst p), strip (snd p)) \<and> strip (fst p) \<noteq> [] \<and> strip (snd p) \<noteq> []"
  by (cases p) (auto simp: require_facet_def res_simps)

lemma rmap_facets:
  "rmap require_facet fs = Inr ps \<longleftrightarrow>
     ps = map (\<lambda>p. (strip (fst p), strip (snd p))) fs \<and>
     (\<forall>p \<in> set fs. strip (fst p) \<noteq> [] \<and> strip (snd p) \<noteq> [])"
  by (induction fs arbitrary: ps) (auto simp: res_simps)

lemma mk_context_Inr:
  "mk_context fs = Inr c \<longleftrightarrow>
     (\<forall>p \<in> set fs. strip (fst p) \<noteq> [] \<and> strip (snd p) \<noteq> []) \<and>
     distinct (map (strip \<circ> fst) fs) \<and>
     c = \<lparr>facets = sort (map (\<lambda>p. (strip (fst p), strip (snd p))) fs)\<rparr>"
  by (auto simp: mk_context_def res_simps rmap_facets Let_def length_dict_of comp_def)

lemma mk_context_ok: "mk_context fs = Inr c \<Longrightarrow> context_ok c"
  by (auto simp: context_ok_def mk_context_Inr strip_stripped comp_def)

lemma strip_facets: "context_ok c \<Longrightarrow> map (\<lambda>p. (strip (fst p), strip (snd p))) (facets c) = facets c"
  by (rule map_idI) (auto simp: context_ok_def strip_id)

lemma mk_context_idem: "context_ok c \<Longrightarrow> mk_context (facets c) = Inr c"
proof -
  assume ok: "context_ok c"
  have "map (strip \<circ> fst) (facets c) = map fst (facets c)"
    by (rule map_cong) (use ok in \<open>auto simp: context_ok_def strip_id\<close>)
  then have "distinct (map (strip \<circ> fst) (facets c))" using ok by (simp only: context_ok_def)
  moreover have "strip (fst p) \<noteq> [] \<and> strip (snd p) \<noteq> []" if "p \<in> set (facets c)" for p
    using ok that by (cases p) (auto simp: context_ok_def strip_id stripped_def)
  ultimately show ?thesis
    using ok strip_facets [OF ok] by (simp add: mk_context_Inr context_ok_def sorted_sort_id)
qed

lemma as_dict_facets: "context_ok c \<Longrightarrow> as_dict c = facets c"
  by (simp add: as_dict_def context_ok_def dict_of_distinct)

lemma mk_context_perm: "mset fs = mset gs \<Longrightarrow> mk_context fs = Inr c \<Longrightarrow> mk_context gs = Inr c"
proof -
  assume m: "mset fs = mset gs" and mk: "mk_context fs = Inr c"
  have "set fs = set gs" using m by (rule mset_eq_setD)
  moreover have "mset (map h fs) = mset (map h gs)" for h :: "ustr \<times> ustr \<Rightarrow> 'a" using m by simp
  then have "sort (map h fs) = sort (map h gs)" for h :: "ustr \<times> ustr \<Rightarrow> ustr \<times> ustr"
    by (simp add: sort_eq_iff)
  moreover have "distinct (map (strip \<circ> fst) fs) = distinct (map (strip \<circ> fst) gs)"
    using m by (intro mset_eq_imp_distinct_iff) simp
  ultimately show ?thesis using mk by (auto simp: mk_context_Inr)
qed

subsection \<open>Similarity\<close>

lemma finite_conflicts: "finite (conflicting_keys a b)"
  unfolding conflicting_keys_def by (rule List.finite_set)

lemma similarity_bounds: "0 \<le> similarity a b \<and> similarity a b \<le> 1"
proof -
  let ?u = "card (set (facets a) \<union> set (facets b))" and ?m = "card (set (facets a) \<inter> set (facets b))"
  let ?p = "fmul (flit (35/100)) (of_nat (card (conflicting_keys a b)))"
  have "?m \<le> ?u" by (intro card_mono) auto
  then have q: "fdiv (of_nat ?m) (of_nat ?u) \<le> 1"
    unfolding fdiv_def by (intro conjunct2 [OF fp.unit_div]) simp_all
  have p: "0 \<le> ?p" by (simp add: fmul_def flit_def fp.rnd_nonneg)
  have "fsub s ?p \<le> 1" if "s \<le> 1" for s
    unfolding fsub_def using p that by (intro fp.rnd_le_1) simp
  then have "fsub (fdiv (of_nat ?m) (of_nat ?u)) ?p \<le> 1" "fsub 0 ?p \<le> 1" using q by simp_all
  moreover have "0 \<le> flit (8/10) \<and> flit (8/10) \<le> 1" "0 \<le> flit (25/100) \<and> flit (25/100) \<le> 1"
    by (simp_all add: flit_def fp.rnd_nonneg fp.rnd_le_1)
  ultimately show ?thesis by (simp add: similarity_def Let_def)
qed

lemma conflicting_keys_self: "context_ok c \<Longrightarrow> conflicting_keys c c = {}"
  by (auto simp: conflicting_keys_def context_ok_def dest: eq_key_imp_eq_value)

lemma similarity_self: "context_ok c \<Longrightarrow> similarity c c = 1"
  by (simp add: similarity_def Let_def conflicting_keys_self fdiv_def fsub_def fmul_def fp.rnd_1 fp.rnd_0)

subsection \<open>What the fingerprint identifies\<close>

text \<open>
  Where no key or value contains one of the two separators, the hashed text determines the
  signature.  Nothing in the constructor forbids them inside a key or a value, and then two
  different signatures have the same hashed text.
\<close>

definition separator_free :: "context_sig \<Rightarrow> bool" where
  "separator_free c \<longleftrightarrow> (\<forall>(k, v) \<in> set (facets c). list_all (\<lambda>x. x \<noteq> 0x1e \<and> x \<noteq> 0x1f) (k @ v))"

lemma split_at_separator:
  "c \<notin> set a \<Longrightarrow> c \<notin> set b \<Longrightarrow> a @ c # x = b @ c # y \<longleftrightarrow> a = b \<and> x = y"
proof (induction a arbitrary: b)
  case Nil
  then show ?case by (cases b) auto
next
  case (Cons d a)
  then show ?case by (cases b) auto
qed

lemma separator_freeD:
  "separator_free c \<Longrightarrow> (k, v) \<in> set (facets c) \<Longrightarrow>
     0x1e \<notin> set k \<and> 0x1f \<notin> set k \<and> 0x1f \<notin> set v"
  by (auto simp: separator_free_def list_all_iff)

lemma join_inj:
  "\<forall>x \<in> set xs. c \<notin> set x \<and> x \<noteq> [] \<Longrightarrow> \<forall>y \<in> set ys. c \<notin> set y \<and> y \<noteq> [] \<Longrightarrow>
     join [c] xs = join [c] ys \<Longrightarrow> xs = ys"
proof (induction "[c]" xs arbitrary: ys rule: join.induct)
  case 1
  then show ?case by (cases "([c], ys)" rule: join.cases) auto
next
  case (2 x)
  then show ?case by (cases "([c], ys)" rule: join.cases) auto
next
  case (3 x y xs)
  show ?case
  proof (cases "([c], ys)" rule: join.cases)
    case (3 sep a b zs)
    then have ys: "ys = a # b # zs" by simp
    have "x = a \<and> join [c] (y # xs) = join [c] (b # zs)"
      using "3.prems" ys by (simp add: split_at_separator)
    moreover from this have "y # xs = b # zs" using "3.prems" ys by (intro "3.hyps") simp_all
    ultimately show ?thesis using ys by simp
  qed (use "3.prems" in auto)
qed

lemma fingerprint_text_inj:
  assumes "separator_free a" "separator_free b" "fingerprint_text a = fingerprint_text b"
  shows "a = b"
proof -
  let ?enc = "\<lambda>(key, value). key @ [0x1e] @ value"
  have "\<forall>x \<in> set (map ?enc (facets c)). 0x1f \<notin> set x \<and> x \<noteq> []" if "separator_free c" for c
    using that by (auto dest: separator_freeD)
  then have "map ?enc (facets a) = map ?enc (facets b)"
    using assms join_inj [of "map ?enc (facets a)" "0x1f" "map ?enc (facets b)"]
    by (simp add: fingerprint_text_def)
  moreover have "inj_on ?enc (set (facets a) \<union> set (facets b))"
  proof (rule inj_onI)
    fix p q
    assume p: "p \<in> set (facets a) \<union> set (facets b)" and q: "q \<in> set (facets a) \<union> set (facets b)"
      and eq: "?enc p = ?enc q"
    have "0x1e \<notin> set (fst p)" "0x1e \<notin> set (fst q)"
      using p q assms(1,2) by (metis UnE prod.collapse separator_freeD)+
    with eq show "p = q" by (cases p; cases q) (simp add: split_at_separator)
  qed
  ultimately have "facets a = facets b" by (rule map_inj_on)
  then show ?thesis by simp
qed

end
