(* ===== verification/Evidence.thy ===== *)
theory Evidence
  imports Common
begin

text \<open>
  \<open>domain/evidence.py\<close>: the evidence plane.  What was observed, the quoted span that supports a
  belief, and the candidate belief extracted from it, which can be accepted once.
\<close>

datatype observation_kind = MESSAGE | ACTION | TOOL_RESULT | USER_FEEDBACK | OUTCOME

datatype evidence_stance = SUPPORTS | CONTRADICTS

datatype candidate_state = CANDIDATE_PROPOSED | CANDIDATE_ACCEPTED | CANDIDATE_REJECTED | QUARANTINED

record observation =
  obs_id :: uuid
  obs_scope :: scope
  obs_kind :: observation_kind
  obs_source :: ustr
  obs_content :: ustr
  obs_idempotency_key :: ustr
  obs_occurred_at :: instant
  obs_ingested_at :: instant
  obs_metadata :: "(ustr \<times> ustr) list"

definition mk_observation ::
  "uuid \<Rightarrow> scope \<Rightarrow> observation_kind \<Rightarrow> ustr \<Rightarrow> ustr \<Rightarrow> ustr \<Rightarrow> py_datetime \<Rightarrow> py_datetime \<Rightarrow>
   (ustr \<times> ustr) list \<Rightarrow> observation res" where
  "mk_observation i sc kind source content key occurred_at ingested_at metadata =
     rbind (require_text source ''source'') (\<lambda>source'.
     rbind (require_text content ''content'') (\<lambda>content'.
     rbind (require_text key ''idempotency_key'') (\<lambda>key'.
     rbind (require_utc occurred_at ''occurred_at'') (\<lambda>occurred.
     rbind (require_utc ingested_at ''ingested_at'') (\<lambda>ingested.
     Inr \<lparr>obs_id = i, obs_scope = sc, obs_kind = kind, obs_source = source',
       obs_content = content', obs_idempotency_key = key', obs_occurred_at = occurred,
       obs_ingested_at = ingested, obs_metadata = sort metadata\<rparr>)))))"

record evidence_span =
  ev_id :: uuid
  ev_observation_id :: uuid
  ev_quote :: ustr
  ev_stance :: evidence_stance
  ev_start_offset :: int
  ev_end_offset :: int

definition mk_evidence_span ::
  "uuid \<Rightarrow> uuid \<Rightarrow> ustr \<Rightarrow> evidence_stance \<Rightarrow> int \<Rightarrow> int option \<Rightarrow> evidence_span res" where
  "mk_evidence_span i observation_id quote stance start_offset end_offset =
     rbind (require_text quote ''quote'') (\<lambda>quote'.
     rbind (raise_if (start_offset < 0) (DomainError ''start_offset must be non-negative'')) (\<lambda>_.
     let e = (case end_offset of None \<Rightarrow> int (length quote') | Some e \<Rightarrow> e) in
     rbind (raise_if (e \<le> start_offset)
       (DomainError ''end_offset must be greater than start_offset'')) (\<lambda>_.
     Inr \<lparr>ev_id = i, ev_observation_id = observation_id, ev_quote = quote', ev_stance = stance,
       ev_start_offset = start_offset, ev_end_offset = e\<rparr>)))"

record candidate =
  cand_id :: uuid
  cand_scope :: scope
  cand_observation_id :: uuid
  cand_key :: ustr
  cand_value :: ustr
  cand_context :: context_sig
  cand_evidence_ids :: "uuid list"
  cand_confidence :: pyfloat
  cand_proposed_at :: instant
  cand_state :: candidate_state
  cand_accepted_record_id :: "uuid option"
  cand_accepted_revision_id :: "uuid option"

definition mk_candidate ::
  "uuid \<Rightarrow> scope \<Rightarrow> uuid \<Rightarrow> ustr \<Rightarrow> ustr \<Rightarrow> context_sig \<Rightarrow> uuid list \<Rightarrow> pyfloat \<Rightarrow> py_datetime \<Rightarrow>
   candidate_state \<Rightarrow> uuid option \<Rightarrow> uuid option \<Rightarrow> candidate res" where
  "mk_candidate i sc observation_id key value ctx evidence_ids confidence proposed_at st
     record_id revision_id =
     rbind (require_text key ''key'') (\<lambda>key'.
     rbind (require_text value ''value'') (\<lambda>value'.
     rbind (require_utc proposed_at ''proposed_at'') (\<lambda>proposed.
     rbind (raise_if (evidence_ids = [])
       (DomainError ''candidate must reference at least one evidence span'')) (\<lambda>_.
     rbind (raise_if (\<not> (0 \<le> confidence \<and> confidence \<le> 1))
       (DomainError ''confidence must be between 0 and 1'')) (\<lambda>_.
     Inr \<lparr>cand_id = i, cand_scope = sc, cand_observation_id = observation_id, cand_key = key',
       cand_value = value', cand_context = ctx, cand_evidence_ids = evidence_ids,
       cand_confidence = confidence, cand_proposed_at = proposed, cand_state = st,
       cand_accepted_record_id = record_id, cand_accepted_revision_id = revision_id\<rparr>)))))"

text \<open>\<open>replace\<close> runs the constructor again on the changed fields.\<close>

definition accept :: "candidate \<Rightarrow> uuid \<Rightarrow> uuid \<Rightarrow> candidate res" where
  "accept c record_id revision_id =
     rbind (raise_if (cand_state c \<noteq> CANDIDATE_PROPOSED)
       (DomainError ''only proposed candidates can be accepted'')) (\<lambda>_.
     mk_candidate (cand_id c) (cand_scope c) (cand_observation_id c) (cand_key c) (cand_value c)
       (cand_context c) (cand_evidence_ids c) (cand_confidence c) (utc (cand_proposed_at c))
       CANDIDATE_ACCEPTED (Some record_id) (Some revision_id))"

definition candidate_ok :: "candidate \<Rightarrow> bool" where
  "candidate_ok c \<longleftrightarrow> stripped (cand_key c) \<and> stripped (cand_value c) \<and> cand_evidence_ids c \<noteq> [] \<and>
     0 \<le> cand_confidence c \<and> cand_confidence c \<le> 1"

lemma mk_observation_Inr [res_simps]:
  "mk_observation i sc kind source content key (utc t) (utc n) metadata = Inr ob \<longleftrightarrow>
     strip source \<noteq> [] \<and> strip content \<noteq> [] \<and> strip key \<noteq> [] \<and>
     ob = \<lparr>obs_id = i, obs_scope = sc, obs_kind = kind, obs_source = strip source,
       obs_content = strip content, obs_idempotency_key = strip key, obs_occurred_at = t,
       obs_ingested_at = n, obs_metadata = sort metadata\<rparr>"
  by (auto simp: mk_observation_def res_simps)

lemma mk_candidate_ok: "mk_candidate i sc ob k v c ev cf t st r q = Inr cd \<Longrightarrow> candidate_ok cd"
  by (auto simp: mk_candidate_def candidate_ok_def res_simps strip_stripped)

lemma accept_proposed:
  assumes "candidate_ok c" "cand_state c = CANDIDATE_PROPOSED"
  shows "accept c r q = Inr (c\<lparr>cand_state := CANDIDATE_ACCEPTED, cand_accepted_record_id := Some r,
     cand_accepted_revision_id := Some q\<rparr>)"
  using assms
  by (cases c) (simp add: accept_def mk_candidate_def candidate_ok_def require_text_stripped)

lemma accept_Inr:
  "accept c r q = Inr d \<Longrightarrow> cand_state c = CANDIDATE_PROPOSED \<and> cand_state d = CANDIDATE_ACCEPTED \<and>
     cand_id d = cand_id c \<and> cand_scope d = cand_scope c \<and>
     cand_observation_id d = cand_observation_id c \<and> cand_context d = cand_context c \<and>
     cand_confidence d = cand_confidence c \<and>
     cand_accepted_record_id d = Some r \<and> cand_accepted_revision_id d = Some q"
  by (auto simp: accept_def mk_candidate_def res_simps)

lemma accept_once: "accept c r q = Inr d \<Longrightarrow>
  accept d r' q' = Inl (DomainError ''only proposed candidates can be accepted'')"
  by (drule accept_Inr) (simp add: accept_def)

end
