(* ===== verification/Memory.thy ===== *)
theory Memory
  imports Evidence
begin

text \<open>
  \<open>domain/memory.py\<close>: the belief plane.  Belief states and their reinforcement, records, immutable
  revisions, the transition log entries, and the snapshot of a record with its current revision.
\<close>

datatype memory_kind = PREFERENCE | EPISODIC | SEMANTIC | PROCEDURAL | PROSPECTIVE

datatype transition_kind = CREATED | SUPERSEDED | RETRACTED | SUPPRESSED | RESTORED

subsection \<open>Belief states\<close>

record belief_state =
  bs_confidence :: pyfloat
  bs_support_count :: int
  bs_contradiction_count :: int
  bs_source_diversity :: int
  bs_last_evidence_at :: instant
  bs_source_keys :: "ustr list"

definition mk_belief_state ::
  "pyfloat \<Rightarrow> int \<Rightarrow> int \<Rightarrow> int \<Rightarrow> py_datetime \<Rightarrow> ustr list \<Rightarrow> belief_state res" where
  "mk_belief_state confidence support contradiction diversity last_evidence_at source_keys =
     rbind (raise_if (\<not> (0 \<le> confidence \<and> confidence \<le> 1))
       (DomainError ''belief confidence must be between 0 and 1'')) (\<lambda>_.
     rbind (raise_if (min (min support contradiction) diversity < 0)
       (DomainError ''belief counts must be non-negative'')) (\<lambda>_.
     rbind (require_utc last_evidence_at ''last_evidence_at'') (\<lambda>last.
     rbind (rmap (\<lambda>source. require_text source ''belief source'') source_keys) (\<lambda>sources.
     let canonical_sources = sort (remdups sources) in
     rbind (raise_if (canonical_sources \<noteq> [] \<and> diversity \<noteq> int (length canonical_sources))
       (DomainError ''source_diversity must match the number of known sources'')) (\<lambda>_.
     Inr \<lparr>bs_confidence = confidence, bs_support_count = support,
       bs_contradiction_count = contradiction, bs_source_diversity = diversity,
       bs_last_evidence_at = last, bs_source_keys = canonical_sources\<rparr>)))))"

definition reinforced ::
  "belief_state \<Rightarrow> pyfloat \<Rightarrow> py_datetime \<Rightarrow> ustr option \<Rightarrow> belief_state res" where
  "reinforced b evidence_confidence at_time source =
     rbind (raise_if (\<not> (0 \<le> evidence_confidence \<and> evidence_confidence \<le> 1))
       (DomainError ''evidence confidence must be between 0 and 1'')) (\<lambda>_.
     rbind (require_utc at_time ''evidence_at'') (\<lambda>evidence_at.
     let combined = fsub 1 (fmul (fsub 1 (bs_confidence b)) (fsub 1 evidence_confidence)) in
     rbind (ropt (\<lambda>s. require_text s ''belief source'') source) (\<lambda>added.
     let sources = bs_source_keys b @ (case added of None \<Rightarrow> [] | Some s \<Rightarrow> [s]);
         canonical_sources = sort (remdups sources);
         diversity = (if bs_source_keys b \<noteq> [] then int (length canonical_sources)
                      else max (bs_source_diversity b) (int (length canonical_sources)))
     in mk_belief_state (min (flit (995/1000)) combined) (bs_support_count b + 1)
          (bs_contradiction_count b) diversity
          (utc (max (bs_last_evidence_at b) evidence_at))
          (if bs_source_keys b \<noteq> [] then canonical_sources else []))))"

definition belief_ok :: "belief_state \<Rightarrow> bool" where
  "belief_ok b \<longleftrightarrow> 0 \<le> bs_confidence b \<and> bs_confidence b \<le> 1 \<and> 0 \<le> bs_support_count b \<and>
     0 \<le> bs_contradiction_count b \<and> 0 \<le> bs_source_diversity b \<and>
     sorted (bs_source_keys b) \<and> distinct (bs_source_keys b) \<and> list_all stripped (bs_source_keys b) \<and>
     (bs_source_keys b \<noteq> [] \<longrightarrow> bs_source_diversity b = int (length (bs_source_keys b)))"

lemma rmap_require_text_Inr:
  "rmap (\<lambda>s. require_text s f) xs = Inr ys \<longleftrightarrow> ys = map strip xs \<and> (\<forall>x \<in> set xs. strip x \<noteq> [])"
  by (induction xs arbitrary: ys) (auto simp: res_simps)

lemma rmap_require_text_stripped:
  "list_all stripped xs \<Longrightarrow> rmap (\<lambda>s. require_text s f) xs = Inr xs"
  by (induction xs) (simp_all add: require_text_stripped)

lemma mk_belief_state_ok: "mk_belief_state c s k d t ss = Inr b \<Longrightarrow> belief_ok b"
  by (auto simp: mk_belief_state_def belief_ok_def Let_def res_simps rmap_require_text_Inr
      list_all_iff strip_stripped min_less_iff_disj)

lemma mk_belief_state_valid:
  assumes "0 \<le> c" "c \<le> 1" "0 \<le> s" "0 \<le> k" "0 \<le> d"
    and ss: "sorted ss" "distinct ss" "list_all stripped ss" "ss \<noteq> [] \<longrightarrow> d = int (length ss)"
  shows "mk_belief_state c s k d (utc t) ss = Inr
     \<lparr>bs_confidence = c, bs_support_count = s, bs_contradiction_count = k,
      bs_source_diversity = d, bs_last_evidence_at = t, bs_source_keys = ss\<rparr>"
proof -
  have "\<not> min (min s k) d < 0" using assms by simp
  then show ?thesis
    using assms rmap_require_text_stripped [OF ss(3)]
    by (auto simp: mk_belief_state_def Let_def raise_if_def distinct_remdups_id sorted_sort_id)
qed

lemma mk_belief_state_id:
  "belief_ok b \<Longrightarrow> mk_belief_state (bs_confidence b) (bs_support_count b) (bs_contradiction_count b)
     (bs_source_diversity b) (utc (bs_last_evidence_at b)) (bs_source_keys b) = Inr b"
  by (simp add: mk_belief_state_valid belief_ok_def)

text \<open>One reinforcement never raises on a valid state, and what it computes.\<close>

lemma combined_unit:
  assumes "0 \<le> c" "c \<le> 1" "0 \<le> e" "e \<le> 1"
  shows "0 \<le> fsub 1 (fmul (fsub 1 c) (fsub 1 e)) \<and> fsub 1 (fmul (fsub 1 c) (fsub 1 e)) \<le> 1"
  unfolding fsub_def fmul_def using assms by (intro fp.unit_compl conjunct1 [OF fp.unit_mul]
    conjunct2 [OF fp.unit_mul] conjunct1 [OF fp.unit_compl] conjunct2 [OF fp.unit_compl])

lemma cap_unit: "0 \<le> flit (995/1000) \<and> flit (995/1000) \<le> 1"
  by (simp add: flit_def fp.rnd_nonneg fp.rnd_le_1)

lemma reinforced_Inr:
  assumes ok: "belief_ok b" and e: "0 \<le> e" "e \<le> 1" and s: "stripped s"
  shows "reinforced b e (utc t) (Some s) = Inr
     \<lparr>bs_confidence = min (flit (995/1000)) (fsub 1 (fmul (fsub 1 (bs_confidence b)) (fsub 1 e))),
      bs_support_count = bs_support_count b + 1,
      bs_contradiction_count = bs_contradiction_count b,
      bs_source_diversity = (if bs_source_keys b \<noteq> []
        then int (length (sort (remdups (bs_source_keys b @ [s])))) else max (bs_source_diversity b) 1),
      bs_last_evidence_at = max (bs_last_evidence_at b) t,
      bs_source_keys = (if bs_source_keys b \<noteq> [] then sort (remdups (bs_source_keys b @ [s])) else [])\<rparr>"
proof -
  let ?c = "min (flit (995/1000)) (fsub 1 (fmul (fsub 1 (bs_confidence b)) (fsub 1 e)))"
  let ?ss = "sort (remdups (bs_source_keys b @ [s]))"
  have c: "0 \<le> ?c" "?c \<le> 1"
    using combined_unit [of "bs_confidence b" e] cap_unit ok e by (auto simp: belief_ok_def)
  have ss: "sorted ?ss" "distinct ?ss" by simp_all
  have st: "list_all stripped ?ss" using ok s by (auto simp: belief_ok_def list_all_iff)
  show ?thesis
  proof (cases "bs_source_keys b = []")
    case True
    have "mk_belief_state ?c (bs_support_count b + 1) (bs_contradiction_count b)
       (max (bs_source_diversity b) 1) (utc (max (bs_last_evidence_at b) t)) [] = Inr
       \<lparr>bs_confidence = ?c, bs_support_count = bs_support_count b + 1,
        bs_contradiction_count = bs_contradiction_count b,
        bs_source_diversity = max (bs_source_diversity b) 1,
        bs_last_evidence_at = max (bs_last_evidence_at b) t, bs_source_keys = []\<rparr>"
      using ok c by (intro mk_belief_state_valid) (simp_all add: belief_ok_def)
    with True e show ?thesis by (simp add: reinforced_def Let_def require_text_stripped [OF s])
  next
    case False
    have "mk_belief_state ?c (bs_support_count b + 1) (bs_contradiction_count b)
       (int (length ?ss)) (utc (max (bs_last_evidence_at b) t)) ?ss = Inr
       \<lparr>bs_confidence = ?c, bs_support_count = bs_support_count b + 1,
        bs_contradiction_count = bs_contradiction_count b, bs_source_diversity = int (length ?ss),
        bs_last_evidence_at = max (bs_last_evidence_at b) t, bs_source_keys = ?ss\<rparr>"
      using ok c ss st by (intro mk_belief_state_valid) (simp_all add: belief_ok_def)
    with False e show ?thesis by (simp add: reinforced_def Let_def require_text_stripped [OF s])
  qed
qed

subsection \<open>Records, revisions, transitions, snapshots\<close>

record memory_record =
  rec_id :: uuid
  rec_scope :: scope
  rec_kind :: memory_kind
  rec_key :: ustr
  rec_context :: context_sig
  rec_created_at :: instant

definition mk_memory_record ::
  "uuid \<Rightarrow> scope \<Rightarrow> memory_kind \<Rightarrow> ustr \<Rightarrow> context_sig \<Rightarrow> py_datetime \<Rightarrow> memory_record res" where
  "mk_memory_record i sc kind key ctx created_at =
     rbind (require_text key ''key'') (\<lambda>key'.
     rbind (require_utc created_at ''created_at'') (\<lambda>created.
     Inr \<lparr>rec_id = i, rec_scope = sc, rec_kind = kind, rec_key = key', rec_context = ctx,
       rec_created_at = created\<rparr>))"

record memory_revision =
  rev_id :: uuid
  rev_record_id :: uuid
  rev_sequence :: int
  rev_value :: ustr
  rev_belief :: belief_state
  rev_evidence_ids :: "uuid list"
  rev_valid_from :: instant
  rev_recorded_at :: instant
  rev_supersedes :: "uuid option"

definition mk_memory_revision ::
  "uuid \<Rightarrow> uuid \<Rightarrow> int \<Rightarrow> ustr \<Rightarrow> belief_state \<Rightarrow> uuid list \<Rightarrow> py_datetime \<Rightarrow> py_datetime \<Rightarrow>
   uuid option \<Rightarrow> memory_revision res" where
  "mk_memory_revision i record_id seqn value belief evidence_ids valid_from recorded_at supersedes =
     rbind (raise_if (seqn < 1) (DomainError ''revision sequence must be positive'')) (\<lambda>_.
     rbind (require_text value ''value'') (\<lambda>value'.
     rbind (raise_if (evidence_ids = []) (DomainError ''revision must reference evidence'')) (\<lambda>_.
     rbind (require_utc valid_from ''valid_from'') (\<lambda>valid.
     rbind (require_utc recorded_at ''recorded_at'') (\<lambda>recorded.
     Inr \<lparr>rev_id = i, rev_record_id = record_id, rev_sequence = seqn, rev_value = value',
       rev_belief = belief, rev_evidence_ids = evidence_ids, rev_valid_from = valid,
       rev_recorded_at = recorded, rev_supersedes = supersedes\<rparr>)))))"

record revision_transition =
  tr_id :: uuid
  tr_record_id :: uuid
  tr_kind :: transition_kind
  tr_occurred_at :: instant
  tr_to_revision_id :: "uuid option"
  tr_from_revision_id :: "uuid option"
  tr_reason :: "ustr option"

definition mk_revision_transition ::
  "uuid \<Rightarrow> uuid \<Rightarrow> transition_kind \<Rightarrow> py_datetime \<Rightarrow> uuid option \<Rightarrow> uuid option \<Rightarrow> ustr option \<Rightarrow>
   revision_transition res" where
  "mk_revision_transition i record_id kind occurred_at to_revision from_revision reason =
     rbind (require_utc occurred_at ''occurred_at'') (\<lambda>occurred.
     rbind (ropt (\<lambda>r. require_text r ''reason'') reason) (\<lambda>reason'.
     Inr \<lparr>tr_id = i, tr_record_id = record_id, tr_kind = kind, tr_occurred_at = occurred,
       tr_to_revision_id = to_revision, tr_from_revision_id = from_revision, tr_reason = reason'\<rparr>))"

record memory_snapshot =
  snap_record :: memory_record
  snap_revision :: memory_revision

definition mk_memory_snapshot :: "memory_record \<Rightarrow> memory_revision \<Rightarrow> memory_snapshot res" where
  "mk_memory_snapshot r v =
     rbind (raise_if (rec_id r \<noteq> rev_record_id v)
       (DomainError ''snapshot record and revision do not match'')) (\<lambda>_.
     Inr \<lparr>snap_record = r, snap_revision = v\<rparr>)"

lemma mk_memory_snapshot_Inr [res_simps]:
  "mk_memory_snapshot r v = Inr s \<longleftrightarrow> rec_id r = rev_record_id v \<and> s = \<lparr>snap_record = r, snap_revision = v\<rparr>"
  by (auto simp: mk_memory_snapshot_def res_simps)

definition revision_ok :: "memory_revision \<Rightarrow> bool" where
  "revision_ok v \<longleftrightarrow> 1 \<le> rev_sequence v \<and> stripped (rev_value v) \<and> rev_evidence_ids v \<noteq> [] \<and>
     belief_ok (rev_belief v)"

lemma mk_memory_revision_ok:
  "belief_ok b \<Longrightarrow> mk_memory_revision i r q v b es t n sp = Inr w \<Longrightarrow> revision_ok w"
  by (auto simp: mk_memory_revision_def revision_ok_def res_simps strip_stripped)

end
