(* ===== verification/ProjectionDomain.thy ===== *)
theory ProjectionDomain
  imports Common
begin

text \<open>
  \<open>domain/projection.py\<close>: the disposable, attributable context built from one recall trace, with
  every check of its constructor, and the digest check the domain modules share.
\<close>

datatype compression_algorithm = RANKED_EXTRACTIVE | EXACT_DEDUPLICATED

fun algorithm_value :: "compression_algorithm \<Rightarrow> ustr" where
  "algorithm_value RANKED_EXTRACTIVE = uc ''ranked-extractive-v1''"
| "algorithm_value EXACT_DEDUPLICATED = uc ''exact-deduplicated-v1''"

definition algorithm_version :: "compression_algorithm \<Rightarrow> int" where
  "algorithm_version a = 1"

definition require_sha256 :: "unidb \<Rightarrow> ustr \<Rightarrow> string \<Rightarrow> ustr res" where
  "require_sha256 db value field =
     rbind (require_text value field) (\<lambda>t.
     let digest = lower db t in
     rbind (raise_if (length digest \<noteq> 64) (DomainError (field @ '' must be a SHA-256 hex digest''))) (\<lambda>_.
     rbind (raise_if (\<not> py_int16_ok db digest)
       (DomainError (field @ '' must be a SHA-256 hex digest''))) (\<lambda>_.
     Inr digest)))"

record projection_source =
  src_record_id :: uuid
  src_revision_id :: uuid
  src_rank :: int
  src_score :: pyfloat

definition mk_projection_source :: "uuid \<Rightarrow> uuid \<Rightarrow> int \<Rightarrow> pyfloat \<Rightarrow> projection_source res" where
  "mk_projection_source record_id revision_id rank score =
     rbind (raise_if (rank < 1) (DomainError ''projection source rank must be positive'')) (\<lambda>_.
     rbind (raise_if (\<not> (0 \<le> score \<and> score \<le> 1))
       (DomainError ''projection source score must be between 0 and 1'')) (\<lambda>_.
     Inr \<lparr>src_record_id = record_id, src_revision_id = revision_id, src_rank = rank, src_score = score\<rparr>))"

record projection_segment =
  seg_content :: ustr
  seg_sources :: "projection_source list"

definition source_order :: "projection_source \<Rightarrow> int \<times> ustr" where
  "source_order s = (src_rank s, uuid_str (src_revision_id s))"

definition mk_projection_segment :: "ustr \<Rightarrow> projection_source list \<Rightarrow> projection_segment res" where
  "mk_projection_segment content sources =
     rbind (require_text content ''segment content'') (\<lambda>content'.
     rbind (raise_if (sources = [])
       (DomainError ''projection segment must reference at least one source'')) (\<lambda>_.
     rbind (raise_if (card (set (map src_revision_id sources)) \<noteq> length sources)
       (DomainError ''projection segment sources must use distinct revisions'')) (\<lambda>_.
     Inr \<lparr>seg_content = content', seg_sources = sort_key source_order sources\<rparr>)))"

record recall_context_projection =
  rcp_scope :: scope
  rcp_trace_id :: uuid
  rcp_policy_id :: uuid
  rcp_policy_version :: int
  rcp_algorithm :: compression_algorithm
  rcp_budget_characters :: int
  rcp_valid_at :: instant
  rcp_known_at :: instant
  rcp_trace_created_at :: instant
  rcp_content :: ustr
  rcp_segments :: "projection_segment list"
  rcp_source_item_count :: int
  rcp_omitted_item_count :: int
  rcp_original_character_count :: int
  rcp_configuration_sha256 :: ustr
  rcp_source_sha256 :: ustr
  rcp_projection_sha256 :: ustr

text \<open>The document a projection prints, also used by the compressor.\<close>

definition document :: "ustr list \<Rightarrow> ustr" where
  "document segments = uc ''{\"memories\":['' @ join (uc '','') segments @ uc '']}''"

definition included_sources :: "projection_segment list \<Rightarrow> projection_source list" where
  "included_sources segments = concat (map seg_sources segments)"

text \<open>
  The constructor: the checks in its order.  The fields are given as a record; the three
  timestamps, which it normalises, are given beside it.
\<close>

definition mk_recall_context_projection ::
  "unidb \<Rightarrow> recall_context_projection \<Rightarrow> py_datetime \<Rightarrow> py_datetime \<Rightarrow> py_datetime \<Rightarrow>
   recall_context_projection res" where
  "mk_recall_context_projection db p valid_at known_at trace_created_at =
     rbind (raise_if (rcp_policy_version p < 1)
       (DomainError ''projection policy version must be positive'')) (\<lambda>_.
     rbind (raise_if (\<not> (64 \<le> rcp_budget_characters p \<and> rcp_budget_characters p \<le> 100000))
       (DomainError ''projection budget must be in [64, 100000] characters'')) (\<lambda>_.
     rbind (require_utc valid_at ''valid_at'') (\<lambda>valid.
     rbind (require_utc known_at ''known_at'') (\<lambda>known.
     rbind (require_utc trace_created_at ''trace_created_at'') (\<lambda>created.
     rbind (raise_if (known > created)
       (DomainError ''projection knowledge time must not follow trace creation'')) (\<lambda>_.
     rbind (raise_if (int (length (rcp_content p)) > rcp_budget_characters p)
       (DomainError ''projection content exceeds its character budget'')) (\<lambda>_.
     rbind (raise_if (min (min (rcp_source_item_count p) (rcp_omitted_item_count p))
         (rcp_original_character_count p) < 0)
       (DomainError ''projection counts must be non-negative'')) (\<lambda>_.
     rbind (raise_if (rcp_content p \<noteq> document (map seg_content (rcp_segments p)))
       (DomainError ''projection content must exactly represent its segments'')) (\<lambda>_.
     rbind (raise_if (rcp_original_character_count p < int (length (rcp_content p)))
       (DomainError ''projection cannot exceed its original source representation'')) (\<lambda>_.
     let included = included_sources (rcp_segments p) in
     rbind (raise_if (card (set (map src_revision_id included)) \<noteq> length included)
       (DomainError ''a revision cannot appear in multiple projection segments'')) (\<lambda>_.
     rbind (raise_if (int (length included) + rcp_omitted_item_count p \<noteq> rcp_source_item_count p)
       (DomainError ''projection included and omitted counts must cover all sources'')) (\<lambda>_.
     rbind (require_sha256 db (rcp_configuration_sha256 p) ''configuration_sha256'') (\<lambda>configuration.
     rbind (require_sha256 db (rcp_source_sha256 p) ''source_sha256'') (\<lambda>source.
     rbind (require_sha256 db (rcp_projection_sha256 p) ''projection_sha256'') (\<lambda>projection.
     Inr (p\<lparr>rcp_valid_at := valid, rcp_known_at := known, rcp_trace_created_at := created,
       rcp_configuration_sha256 := configuration, rcp_source_sha256 := source,
       rcp_projection_sha256 := projection\<rparr>))))))))))))))))"

definition included_item_count :: "recall_context_projection \<Rightarrow> int" where
  "included_item_count p = rcp_source_item_count p - rcp_omitted_item_count p"

definition compression_ratio :: "recall_context_projection \<Rightarrow> pyfloat" where
  "compression_ratio p =
     fdiv (of_nat (length (rcp_content p))) (of_int (rcp_original_character_count p))"

definition source_revision_ids :: "recall_context_projection \<Rightarrow> uuid list" where
  "source_revision_ids p = map src_revision_id (included_sources (rcp_segments p))"

subsection \<open>Digests\<close>

definition sha256_text :: "ustr \<Rightarrow> bool" where
  "sha256_text s \<longleftrightarrow> length s = 64 \<and> list_all (\<lambda>c. (48 \<le> c \<and> c \<le> 57) \<or> (97 \<le> c \<and> c \<le> 102)) s"

lemma sha256_text_char:
  "sha256_text s \<Longrightarrow> c \<in> set s \<Longrightarrow>
     is_hex c \<and> \<not> is_space c \<and> c < 128 \<and> ascii_lower c = c \<and> c \<noteq> 95 \<and> c \<noteq> 43 \<and> c \<noteq> 45 \<and> c \<noteq> 120 \<and> c \<noteq> 88"
  by (auto simp: sha256_text_def list_all_iff is_hex_def is_space_def ascii_lower_def)

lemma sha256_text_stripped: "sha256_text s \<Longrightarrow> stripped s"
proof -
  assume s: "sha256_text s"
  then have ne: "s \<noteq> []" by (auto simp: sha256_text_def)
  then show ?thesis
    using sha256_text_char [OF s, of "hd s"] sha256_text_char [OF s, of "last s"] by (simp add: stripped_def)
qed

lemma drop_sign_other: "\<forall>c \<in> set s. c \<noteq> 43 \<and> c \<noteq> 45 \<Longrightarrow> drop_sign s = s"
  by (cases s) auto

lemma drop_0x_other: "\<forall>c \<in> set s. c \<noteq> 120 \<and> c \<noteq> 88 \<Longrightarrow> drop_0x s = s"
  by (cases s rule: drop_0x.cases) auto

lemma require_sha256_text: "sha256_text s \<Longrightarrow> require_sha256 db s f = Inr s"
proof -
  assume s: "sha256_text s"
  note ch = sha256_text_char [OF s]
  have hd: "hd s \<noteq> 95"
    using ch [of "hd s"] s by (cases s) (auto simp: sha256_text_def)
  have "lower db s = s" using ch by (simp add: lower_def is_ascii_def list_all_iff map_idI)
  moreover have "map (to_ascii_digit db) s = s" using ch by (simp add: to_ascii_digit_def map_idI)
  then have "py_int16_ok db s"
    using ch hd s strip_id [OF sha256_text_stripped [OF s]]
    by (auto simp: py_int16_ok_def drop_sign_other drop_0x_other hex_body_hex list_all_iff sha256_text_def)
  ultimately show ?thesis
    using require_text_stripped [OF sha256_text_stripped [OF s]] s
    by (simp add: require_sha256_def Let_def sha256_text_def)
qed

lemma require_sha256_length: "require_sha256 db s f = Inr d \<Longrightarrow> length d = 64"
  by (auto simp: require_sha256_def Let_def res_simps)

end
