(* ===== verification/Experience.thy ===== *)
theory Experience
  imports ProjectionDomain
begin

text \<open>
  \<open>domain/experience.py\<close>: what a recall returned (scores, items, the immutable trace), the receipt
  that a projection of it was used, the outcome of a use, and the utility estimate the outcomes add
  up to.
\<close>

subsection \<open>Recall traces\<close>

record score_breakdown =
  sb_semantic :: pyfloat
  sb_context :: pyfloat
  sb_belief :: pyfloat
  sb_utility :: pyfloat
  sb_recency :: pyfloat
  sb_lexical :: "pyfloat option"
  sb_vector :: "pyfloat option"

definition in_unit :: "pyfloat \<Rightarrow> bool" where
  "in_unit x \<longleftrightarrow> 0 \<le> x \<and> x \<le> 1"

definition check_unit :: "string \<Rightarrow> pyfloat option \<Rightarrow> unit res" where
  "check_unit name value = raise_if (case value of None \<Rightarrow> False | Some x \<Rightarrow> \<not> in_unit x)
     (DomainError (name @ '' score must be between 0 and 1''))"

definition mk_score_breakdown ::
  "pyfloat \<Rightarrow> pyfloat \<Rightarrow> pyfloat \<Rightarrow> pyfloat \<Rightarrow> pyfloat \<Rightarrow> pyfloat option \<Rightarrow> pyfloat option \<Rightarrow>
   score_breakdown res" where
  "mk_score_breakdown semantic context belief utility recency lexical vector =
     rbind (check_unit ''semantic'' (Some semantic)) (\<lambda>_.
     rbind (check_unit ''context'' (Some context)) (\<lambda>_.
     rbind (check_unit ''belief'' (Some belief)) (\<lambda>_.
     rbind (check_unit ''utility'' (Some utility)) (\<lambda>_.
     rbind (check_unit ''recency'' (Some recency)) (\<lambda>_.
     rbind (check_unit ''lexical'' lexical) (\<lambda>_.
     rbind (check_unit ''vector'' vector) (\<lambda>_.
     Inr \<lparr>sb_semantic = semantic, sb_context = context, sb_belief = belief, sb_utility = utility,
       sb_recency = recency, sb_lexical = lexical, sb_vector = vector\<rparr>)))))))"

record recalled_item =
  it_record_id :: uuid
  it_revision_id :: uuid
  it_key :: ustr
  it_value :: ustr
  it_context :: context_sig
  it_valid_from :: instant
  it_recorded_at :: instant
  it_rank :: int
  it_score :: pyfloat
  it_breakdown :: score_breakdown
  it_evidence_ids :: "uuid list"

definition mk_recalled_item ::
  "uuid \<Rightarrow> uuid \<Rightarrow> ustr \<Rightarrow> ustr \<Rightarrow> context_sig \<Rightarrow> py_datetime \<Rightarrow> py_datetime \<Rightarrow> int \<Rightarrow> pyfloat \<Rightarrow>
   score_breakdown \<Rightarrow> uuid list \<Rightarrow> recalled_item res" where
  "mk_recalled_item record_id revision_id key value ctx valid_from recorded_at rank score
     breakdown evidence_ids =
     rbind (require_utc valid_from ''revision_valid_from'') (\<lambda>valid.
     rbind (require_utc recorded_at ''revision_recorded_at'') (\<lambda>recorded.
     rbind (raise_if (rank < 1) (DomainError ''recall rank must be positive'')) (\<lambda>_.
     rbind (raise_if (\<not> in_unit score) (DomainError ''recall score must be between 0 and 1'')) (\<lambda>_.
     Inr \<lparr>it_record_id = record_id, it_revision_id = revision_id, it_key = key, it_value = value,
       it_context = ctx, it_valid_from = valid, it_recorded_at = recorded, it_rank = rank,
       it_score = score, it_breakdown = breakdown, it_evidence_ids = evidence_ids\<rparr>))))"

record recall_trace =
  rt_id :: uuid
  rt_scope :: scope
  rt_query :: ustr
  rt_context :: context_sig
  rt_policy_id :: uuid
  rt_policy_version :: int
  rt_items :: "recalled_item list"
  rt_valid_at :: instant
  rt_known_at :: instant
  rt_created_at :: instant

definition check_trace_item :: "instant \<Rightarrow> instant \<Rightarrow> recalled_item \<Rightarrow> unit res" where
  "check_trace_item valid known item =
     rbind (raise_if (it_valid_from item > valid)
       (DomainError ''recalled revision was not valid at valid_at'')) (\<lambda>_.
     raise_if (it_recorded_at item > known)
       (DomainError ''recalled revision was not known at known_at''))"

definition mk_recall_trace ::
  "uuid \<Rightarrow> scope \<Rightarrow> ustr \<Rightarrow> context_sig \<Rightarrow> uuid \<Rightarrow> int \<Rightarrow> recalled_item list \<Rightarrow> py_datetime \<Rightarrow>
   py_datetime \<Rightarrow> py_datetime \<Rightarrow> recall_trace res" where
  "mk_recall_trace i sc query ctx policy_id policy_version items valid_at known_at created_at =
     rbind (raise_if (strip query = []) (DomainError ''recall query must not be blank'')) (\<lambda>_.
     rbind (require_utc valid_at ''valid_at'') (\<lambda>valid.
     rbind (require_utc known_at ''known_at'') (\<lambda>known.
     rbind (require_utc created_at ''created_at'') (\<lambda>created.
     rbind (raise_if (known > created)
       (DomainError ''known_at must not be later than trace creation'')) (\<lambda>_.
     rbind (rmap (check_trace_item valid known) items) (\<lambda>_.
     Inr \<lparr>rt_id = i, rt_scope = sc, rt_query = query, rt_context = ctx, rt_policy_id = policy_id,
       rt_policy_version = policy_version, rt_items = items, rt_valid_at = valid,
       rt_known_at = known, rt_created_at = created\<rparr>))))))"

definition trace_ok :: "recall_trace \<Rightarrow> bool" where
  "trace_ok t \<longleftrightarrow> rt_known_at t \<le> rt_created_at t \<and>
     (\<forall>i \<in> set (rt_items t). it_valid_from i \<le> rt_valid_at t \<and> it_recorded_at i \<le> rt_known_at t)"

lemma check_unit_Inr [res_simps]:
  "check_unit n v = Inr u \<longleftrightarrow> (\<forall>x. v = Some x \<longrightarrow> in_unit x)"
  by (auto simp: check_unit_def res_simps split: option.splits)

lemma mk_score_breakdown_Inr:
  "mk_score_breakdown s c b u r l v = Inr d \<longleftrightarrow>
     in_unit s \<and> in_unit c \<and> in_unit b \<and> in_unit u \<and> in_unit r \<and>
     (\<forall>x. l = Some x \<longrightarrow> in_unit x) \<and> (\<forall>x. v = Some x \<longrightarrow> in_unit x) \<and>
     d = \<lparr>sb_semantic = s, sb_context = c, sb_belief = b, sb_utility = u, sb_recency = r,
       sb_lexical = l, sb_vector = v\<rparr>"
  by (auto simp: mk_score_breakdown_def res_simps)

lemma mk_recalled_item_Inr:
  "mk_recalled_item r v k x c (utc t) (utc n) rank score b e = Inr i \<longleftrightarrow> 1 \<le> rank \<and> in_unit score \<and>
     i = \<lparr>it_record_id = r, it_revision_id = v, it_key = k, it_value = x, it_context = c,
       it_valid_from = t, it_recorded_at = n, it_rank = rank, it_score = score, it_breakdown = b,
       it_evidence_ids = e\<rparr>"
  by (auto simp: mk_recalled_item_def res_simps)

lemma check_trace_items_Inr:
  "rmap (check_trace_item valid known) items = Inr us \<Longrightarrow>
     \<forall>i \<in> set items. it_valid_from i \<le> valid \<and> it_recorded_at i \<le> known"
  by (induction items arbitrary: us) (auto simp: check_trace_item_def res_simps)

lemma mk_recall_trace_ok: "mk_recall_trace i sc q c p pv items v k t = Inr tr \<Longrightarrow> trace_ok tr"
  by (auto simp: mk_recall_trace_def trace_ok_def res_simps dest!: check_trace_items_Inr)

subsection \<open>Usage receipts\<close>

record memory_usage =
  us_id :: uuid
  us_scope :: scope
  us_trace_id :: uuid
  us_algorithm :: compression_algorithm
  us_budget_characters :: int
  us_source_projection_sha256 :: ustr
  us_delivered_context_sha256 :: ustr
  us_revision_ids :: "uuid list"
  us_idempotency_key :: ustr
  us_occurred_at :: instant
  us_recorded_at :: instant

definition mk_memory_usage ::
  "unidb \<Rightarrow> uuid \<Rightarrow> scope \<Rightarrow> uuid \<Rightarrow> compression_algorithm \<Rightarrow> int \<Rightarrow> ustr \<Rightarrow> ustr \<Rightarrow> uuid list \<Rightarrow>
   ustr \<Rightarrow> py_datetime \<Rightarrow> py_datetime \<Rightarrow> memory_usage res" where
  "mk_memory_usage db i sc trace algorithm budget source_sha delivered_sha revision_ids key
     occurred_at recorded_at =
     rbind (raise_if (\<not> (64 \<le> budget \<and> budget \<le> 100000))
       (DomainError ''memory usage projection budget must be in [64, 100000]'')) (\<lambda>_.
     rbind (require_sha256 db source_sha ''source_projection_sha256'') (\<lambda>source.
     rbind (require_sha256 db delivered_sha ''delivered_context_sha256'') (\<lambda>delivered.
     rbind (raise_if (revision_ids = [])
       (DomainError ''memory usage must cite at least one revision'')) (\<lambda>_.
     rbind (raise_if (card (set revision_ids) \<noteq> length revision_ids)
       (DomainError ''memory usage revisions must be distinct'')) (\<lambda>_.
     rbind (require_text key ''usage idempotency_key'') (\<lambda>key'.
     rbind (require_utc occurred_at ''occurred_at'') (\<lambda>occurred.
     rbind (require_utc recorded_at ''recorded_at'') (\<lambda>recorded.
     Inr \<lparr>us_id = i, us_scope = sc, us_trace_id = trace, us_algorithm = algorithm,
       us_budget_characters = budget, us_source_projection_sha256 = source,
       us_delivered_context_sha256 = delivered, us_revision_ids = revision_ids,
       us_idempotency_key = key', us_occurred_at = occurred, us_recorded_at = recorded\<rparr>))))))))"

lemma mk_memory_usage_Inr:
  "mk_memory_usage db i sc tr al bu ss ds rs k oc re = Inr us \<Longrightarrow>
     us_id us = i \<and> us_scope us = sc \<and> us_trace_id us = tr \<and> us_revision_ids us = rs \<and> rs \<noteq> [] \<and>
     distinct rs \<and> us_idempotency_key us = strip k"
  by (auto simp: mk_memory_usage_def res_simps card_distinct)

subsection \<open>Outcomes and utility\<close>

datatype outcome_kind = HELPFUL | OC_ACCEPTED | HARMFUL | OC_REJECTED | CORRECTED

fun success_value :: "outcome_kind \<Rightarrow> pyfloat" where
  "success_value HELPFUL = 1"
| "success_value OC_ACCEPTED = 1"
| "success_value HARMFUL = 0"
| "success_value OC_REJECTED = 0"
| "success_value CORRECTED = 0"

record outcome_event =
  oc_id :: uuid
  oc_scope :: scope
  oc_trace_id :: uuid
  oc_revision_id :: uuid
  oc_kind :: outcome_kind
  oc_idempotency_key :: ustr
  oc_occurred_at :: instant
  oc_recorded_at :: instant
  oc_usage_id :: "uuid option"
  oc_weight :: pyfloat
  oc_note :: "ustr option"

text \<open>\<open>note.strip() or None\<close>\<close>

definition normalize_note :: "ustr option \<Rightarrow> ustr option" where
  "normalize_note note = (case note of None \<Rightarrow> None
     | Some n \<Rightarrow> if strip n = [] then None else Some (strip n))"

definition mk_outcome_event ::
  "uuid \<Rightarrow> scope \<Rightarrow> uuid \<Rightarrow> uuid \<Rightarrow> outcome_kind \<Rightarrow> ustr \<Rightarrow> py_datetime \<Rightarrow> py_datetime \<Rightarrow>
   uuid option \<Rightarrow> pyfloat \<Rightarrow> ustr option \<Rightarrow> outcome_event res" where
  "mk_outcome_event i sc trace revision kind key occurred_at recorded_at usage weight note =
     rbind (require_text key ''outcome idempotency_key'') (\<lambda>key'.
     rbind (raise_if (\<not> (0 < weight \<and> weight \<le> 10))
       (DomainError ''outcome weight must be in (0, 10]'')) (\<lambda>_.
     rbind (require_utc occurred_at ''occurred_at'') (\<lambda>occurred.
     rbind (require_utc recorded_at ''recorded_at'') (\<lambda>recorded.
     Inr \<lparr>oc_id = i, oc_scope = sc, oc_trace_id = trace, oc_revision_id = revision, oc_kind = kind,
       oc_idempotency_key = key', oc_occurred_at = occurred, oc_recorded_at = recorded,
       oc_usage_id = usage, oc_weight = weight, oc_note = normalize_note note\<rparr>))))"

lemma mk_outcome_event_Inr:
  "mk_outcome_event i sc tr rv k key (utc t) (utc n) us w note = Inr oc \<longleftrightarrow>
     strip key \<noteq> [] \<and> 0 < w \<and> w \<le> 10 \<and>
     oc = \<lparr>oc_id = i, oc_scope = sc, oc_trace_id = tr, oc_revision_id = rv, oc_kind = k,
       oc_idempotency_key = strip key, oc_occurred_at = t, oc_recorded_at = n,
       oc_usage_id = us, oc_weight = w, oc_note = normalize_note note\<rparr>"
  by (auto simp: mk_outcome_event_def res_simps)

record utility_estimate =
  ut_revision_id :: uuid
  ut_context_fingerprint :: ustr
  ut_positive_weight :: pyfloat
  ut_negative_weight :: pyfloat
  ut_last_outcome_at :: "instant option"

definition mk_utility_estimate ::
  "uuid \<Rightarrow> ustr \<Rightarrow> pyfloat \<Rightarrow> pyfloat \<Rightarrow> py_datetime option \<Rightarrow> utility_estimate res" where
  "mk_utility_estimate revision fp positive negative last_at =
     rbind (raise_if (min positive negative < 0)
       (DomainError ''utility weights must be non-negative'')) (\<lambda>_.
     rbind (ropt (\<lambda>t. require_utc t ''last_outcome_at'') last_at) (\<lambda>last'.
     Inr \<lparr>ut_revision_id = revision, ut_context_fingerprint = fp, ut_positive_weight = positive,
       ut_negative_weight = negative, ut_last_outcome_at = last'\<rparr>))"

definition utility_mean :: "utility_estimate \<Rightarrow> pyfloat" where
  "utility_mean u = fdiv (fadd 1 (ut_positive_weight u))
     (fadd (fadd 2 (ut_positive_weight u)) (ut_negative_weight u))"

definition sample_weight :: "utility_estimate \<Rightarrow> pyfloat" where
  "sample_weight u = fadd (ut_positive_weight u) (ut_negative_weight u)"

definition utility_updated ::
  "utility_estimate \<Rightarrow> pyfloat \<Rightarrow> pyfloat \<Rightarrow> py_datetime \<Rightarrow> utility_estimate res" where
  "utility_updated u success weight at_time =
     rbind (raise_if (\<not> in_unit success) (DomainError ''success must be between 0 and 1'')) (\<lambda>_.
     rbind (raise_if (weight \<le> 0) (DomainError ''utility update weight must be positive'')) (\<lambda>_.
     rbind (require_utc at_time ''utility outcome time'') (\<lambda>outcome_at.
     mk_utility_estimate (ut_revision_id u) (ut_context_fingerprint u)
       (fadd (ut_positive_weight u) (fmul success weight))
       (fadd (ut_negative_weight u) (fmul (fsub 1 success) weight))
       (Some (utc (case ut_last_outcome_at u of None \<Rightarrow> outcome_at
                   | Some t \<Rightarrow> max t outcome_at))))))"

definition utility_ok :: "utility_estimate \<Rightarrow> bool" where
  "utility_ok u \<longleftrightarrow> 0 \<le> ut_positive_weight u \<and> 0 \<le> ut_negative_weight u"

lemma success_value_cases: "success_value k = 1 \<or> success_value k = 0"
  by (cases k) simp_all

lemma mk_utility_estimate_Inr [res_simps]:
  "mk_utility_estimate r f p n None = Inr u \<longleftrightarrow> 0 \<le> p \<and> 0 \<le> n \<and>
     u = \<lparr>ut_revision_id = r, ut_context_fingerprint = f, ut_positive_weight = p,
       ut_negative_weight = n, ut_last_outcome_at = None\<rparr>"
  "mk_utility_estimate r f p n (Some (utc t)) = Inr u \<longleftrightarrow> 0 \<le> p \<and> 0 \<le> n \<and>
     u = \<lparr>ut_revision_id = r, ut_context_fingerprint = f, ut_positive_weight = p,
       ut_negative_weight = n, ut_last_outcome_at = Some t\<rparr>"
  by (auto simp: mk_utility_estimate_def res_simps)

lemma mk_utility_estimate_ok: "mk_utility_estimate r f p n l = Inr u \<Longrightarrow> utility_ok u"
  by (auto simp: mk_utility_estimate_def utility_ok_def res_simps)

lemma utility_mean_unit: "utility_ok u \<Longrightarrow> in_unit (utility_mean u)"
proof -
  assume ok: "utility_ok u"
  then have p: "0 \<le> ut_positive_weight u" and n: "0 \<le> ut_negative_weight u"
    by (simp_all add: utility_ok_def)
  let ?a = "fadd 1 (ut_positive_weight u)" and ?b = "fadd 2 (ut_positive_weight u)"
  have "?a \<le> ?b" unfolding fadd_def by (intro rnd53_mono) simp
  also have "?b = rnd53 ?b" unfolding fadd_def by (simp add: fp.rnd_id fp.rnd_dbl)
  also have "\<dots> \<le> fadd ?b (ut_negative_weight u)" unfolding fadd_def
    using n by (intro rnd53_mono) (simp add: fadd_def)
  finally show ?thesis
    unfolding in_unit_def utility_mean_def fdiv_def
    by (intro fp.unit_div) (simp_all add: fadd_def fp.rnd_nonneg p)
qed

lemma utility_updated_Inr:
  assumes "utility_ok u" "in_unit s" "0 < w"
  shows "utility_updated u s w (utc t) = Inr
     \<lparr>ut_revision_id = ut_revision_id u, ut_context_fingerprint = ut_context_fingerprint u,
      ut_positive_weight = fadd (ut_positive_weight u) (fmul s w),
      ut_negative_weight = fadd (ut_negative_weight u) (fmul (fsub 1 s) w),
      ut_last_outcome_at = Some (case ut_last_outcome_at u of None \<Rightarrow> t | Some l \<Rightarrow> max l t)\<rparr>"
proof -
  have "0 \<le> fmul s w" using assms by (simp add: fmul_def in_unit_def fp.rnd_nonneg)
  moreover have "0 \<le> fsub 1 s" using assms by (simp add: fsub_def in_unit_def fp.rnd_nonneg)
  then have "0 \<le> fmul (fsub 1 s) w" using assms by (simp add: fmul_def fp.rnd_nonneg)
  ultimately have "0 \<le> fadd (ut_positive_weight u) (fmul s w)"
    "0 \<le> fadd (ut_negative_weight u) (fmul (fsub 1 s) w)"
    using assms by (simp_all add: fadd_def utility_ok_def fp.rnd_nonneg)
  then show ?thesis using assms by (simp add: utility_updated_def mk_utility_estimate_def raise_if_def)
qed

end
