(* ===== verification/Evolution.thy ===== *)
theory Evolution
  imports ProjectionDomain
begin

text \<open>
  \<open>domain/evolution.py\<close>: retrieval weights and strategy snapshots, the activation log entries, the
  experiment state machine with its gate receipts and transition evidence, and the bounded proposal
  of a new strategy from a failure diagnosis.
\<close>

subsection \<open>Strategies\<close>

record retrieval_weights =
  w_semantic :: pyfloat
  w_context :: pyfloat
  w_belief :: pyfloat
  w_utility :: pyfloat
  w_recency :: pyfloat

definition weight_values :: "retrieval_weights \<Rightarrow> pyfloat list" where
  "weight_values w = [w_semantic w, w_context w, w_belief w, w_utility w, w_recency w]"

definition mk_weights :: "retrieval_weights \<Rightarrow> retrieval_weights res" where
  "mk_weights w =
     rbind (raise_if (list_ex (\<lambda>value. value < flit (5/100) \<or> value > flit (60/100)) (weight_values w))
       (DomainError ''retrieval weights must each be in [0.05, 0.60]'')) (\<lambda>_.
     rbind (raise_if (\<not> isclose (py_sum (weight_values w)) 1 (flit (1/10^9)) (flit (1/10^9)))
       (DomainError ''retrieval weights must sum to 1'')) (\<lambda>_.
     Inr w))"

definition default_weights :: retrieval_weights where
  "default_weights = \<lparr>w_semantic = flit (35/100), w_context = flit (25/100), w_belief = flit (20/100),
     w_utility = flit (15/100), w_recency = flit (5/100)\<rparr>"

record strategy_snapshot =
  st_id :: uuid
  st_version :: int
  st_weights :: retrieval_weights
  st_min_score :: pyfloat
  st_half_life :: pyfloat
  st_created_at :: instant
  st_parent_id :: "uuid option"

definition mk_strategy ::
  "uuid \<Rightarrow> int \<Rightarrow> retrieval_weights \<Rightarrow> pyfloat \<Rightarrow> pyfloat \<Rightarrow> py_datetime \<Rightarrow> uuid option \<Rightarrow>
   strategy_snapshot res" where
  "mk_strategy i version weights min_score half_life created_at parent =
     rbind (raise_if (version < 1) (DomainError ''strategy version must be positive'')) (\<lambda>_.
     rbind (raise_if (\<not> (0 \<le> min_score \<and> min_score \<le> 1))
       (DomainError ''min_score must be between 0 and 1'')) (\<lambda>_.
     rbind (raise_if (\<not> (1 \<le> half_life \<and> half_life \<le> 3650))
       (DomainError ''recency half-life must be in [1, 3650] days'')) (\<lambda>_.
     rbind (require_utc created_at ''created_at'') (\<lambda>created.
     Inr \<lparr>st_id = i, st_version = version, st_weights = weights, st_min_score = min_score,
       st_half_life = half_life, st_created_at = created, st_parent_id = parent\<rparr>))))"

datatype activation_kind = BOOTSTRAP | PROMOTION | ROLLBACK

record strategy_activation =
  sa_id :: uuid
  sa_strategy_id :: uuid
  sa_kind :: activation_kind
  sa_activated_at :: instant
  sa_reason :: ustr
  sa_previous_id :: "uuid option"
  sa_experiment_id :: "uuid option"

definition mk_activation ::
  "uuid \<Rightarrow> uuid \<Rightarrow> activation_kind \<Rightarrow> py_datetime \<Rightarrow> ustr \<Rightarrow> uuid option \<Rightarrow> uuid option \<Rightarrow>
   strategy_activation res" where
  "mk_activation i strategy kind activated_at reason previous experiment =
     rbind (require_utc activated_at ''activated_at'') (\<lambda>activated.
     rbind (require_text reason ''activation reason'') (\<lambda>reason'.
     rbind (raise_if (previous = Some strategy)
       (DomainError ''strategy activation must change the active strategy'')) (\<lambda>_.
     rbind (if kind = BOOTSTRAP
       then raise_if (previous \<noteq> None \<or> experiment \<noteq> None)
         (DomainError ''bootstrap activation cannot reference prior strategy or experiment'')
       else raise_if (previous = None \<or> experiment = None)
         (DomainError ''promotion and rollback require prior strategy and experiment'')) (\<lambda>_.
     Inr \<lparr>sa_id = i, sa_strategy_id = strategy, sa_kind = kind, sa_activated_at = activated,
       sa_reason = reason', sa_previous_id = previous, sa_experiment_id = experiment\<rparr>))))"

definition weights_ok :: "retrieval_weights \<Rightarrow> bool" where
  "weights_ok w \<longleftrightarrow> list_all (\<lambda>v. flit (5/100) \<le> v \<and> v \<le> flit (60/100)) (weight_values w) \<and>
     isclose (py_sum (weight_values w)) 1 (flit (1/10^9)) (flit (1/10^9))"

definition strategy_ok :: "strategy_snapshot \<Rightarrow> bool" where
  "strategy_ok s \<longleftrightarrow> 1 \<le> st_version s \<and> 0 \<le> st_min_score s \<and> st_min_score s \<le> 1 \<and>
     1 \<le> st_half_life s \<and> st_half_life s \<le> 3650 \<and> weights_ok (st_weights s)"

lemma mk_weights_Inr: "mk_weights w = Inr v \<longleftrightarrow> weights_ok w \<and> v = w"
  by (auto simp: mk_weights_def weights_ok_def res_simps list_all_iff list_ex_iff not_less)

lemma mk_strategy_Inr:
  "mk_strategy i n w m h (utc t) p = Inr s \<longleftrightarrow> 1 \<le> n \<and> 0 \<le> m \<and> m \<le> 1 \<and> 1 \<le> h \<and> h \<le> 3650 \<and>
     s = \<lparr>st_id = i, st_version = n, st_weights = w, st_min_score = m, st_half_life = h,
       st_created_at = t, st_parent_id = p\<rparr>"
  by (auto simp: mk_strategy_def res_simps)

lemma mk_activation_Inr:
  "mk_activation i s k (utc t) r p e = Inr a \<longleftrightarrow> strip r \<noteq> [] \<and> p \<noteq> Some s \<and>
     (if k = BOOTSTRAP then p = None \<and> e = None else p \<noteq> None \<and> e \<noteq> None) \<and>
     a = \<lparr>sa_id = i, sa_strategy_id = s, sa_kind = k, sa_activated_at = t, sa_reason = strip r,
       sa_previous_id = p, sa_experiment_id = e\<rparr>"
  by (auto simp: mk_activation_def res_simps)

lemma flit_near: "\<bar>x\<bar> < 2 \<Longrightarrow> x - ulp1 \<le> flit x \<and> flit x \<le> x + ulp1"
  using flit_error [of x] by linarith

lemma flit_bounds:
  "flit (5/100) \<le> 51/1000" "49/1000 \<le> flit (5/100)" "flit (60/100) \<le> 61/100"
  "59/100 \<le> flit (60/100)" "flit (3/100) \<le> 31/1000" "29/1000 \<le> flit (3/100)"
  using flit_near [of "5/100"] flit_near [of "60/100"] flit_near [of "3/100"] ulp1_small by simp_all

lemma isclose_1:
  assumes "\<bar>s - 1\<bar> \<le> 95 / 100000000000"
  shows "isclose s 1 (flit (1/10^9)) (flit (1/10^9))"
proof -
  have "\<bar>1 - s\<bar> < 2" using assms by linarith
  then have "\<bar>fsub 1 s - (1 - s)\<bar> \<le> ulp1" unfolding fsub_def by (rule ulp1_error)
  then have "\<bar>fsub 1 s\<bar> \<le> 95 / 100000000000 + ulp1" using assms by linarith
  also have "\<dots> \<le> 1/10^9 - ulp1" by (simp add: ulp1_def)
  also have "\<dots> \<le> flit (1/10^9)" using flit_error [of "1/10^9"] by (simp add: abs_le_iff)
  finally show ?thesis by (simp add: isclose_def Let_def)
qed

text \<open>Weights in the interval whose exact sum is near 1 are accepted.\<close>

lemma weights_okI:
  assumes v: "list_all (\<lambda>v. flit (5/100) \<le> v \<and> v \<le> flit (60/100)) (weight_values w)"
    and s: "\<bar>sum_list (weight_values w) - 1\<bar> \<le> 94 / 100000000000"
  shows "weights_ok w"
proof -
  have "0 \<le> flit (5/100)" by (simp add: flit_def fp.rnd_nonneg)
  then have "list_all (\<lambda>x. 0 \<le> x) (weight_values w)" using v by (auto simp: list_all_iff)
  moreover have "sum_list (weight_values w) \<le> 9/8" using s by linarith
  ultimately have "\<bar>py_sum (weight_values w) - sum_list (weight_values w)\<bar> \<le> 26 * ulp1"
    using py_sum_error [of "weight_values w"] by (simp add: weight_values_def)
  moreover have "26 * ulp1 \<le> 1 / 100000000000" by (simp add: ulp1_def)
  ultimately have "\<bar>py_sum (weight_values w) - 1\<bar> \<le> 95 / 100000000000" using s by linarith
  from isclose_1 [OF this] v show ?thesis unfolding weights_ok_def by blast
qed

lemma default_weights_sum: "\<bar>sum_list (weight_values default_weights) - 1\<bar> \<le> 93 / 100000000000"
proof -
  have "\<bar>flit (35/100) + flit (25/100) + flit (20/100) + flit (15/100) + flit (5/100) - 1\<bar>
      \<le> 93 / 100000000000"
    using flit_near [of "35/100"] flit_near [of "25/100"] flit_near [of "20/100"]
      flit_near [of "15/100"] flit_near [of "5/100"] ulp1_small by (intro abs_leI) simp_all
  then show ?thesis
    by (simp only: weight_values_def default_weights_def retrieval_weights.simps sum_list.Cons
        sum_list.Nil add.assoc add_0_right)
qed

lemma default_weights_ok: "weights_ok default_weights"
proof (rule weights_okI)
  show "list_all (\<lambda>v. flit (5/100) \<le> v \<and> v \<le> flit (60/100)) (weight_values default_weights)"
    by (simp add: weight_values_def default_weights_def flit_def rnd53_mono)
  show "\<bar>sum_list (weight_values default_weights) - 1\<bar> \<le> 94 / 100000000000"
    using default_weights_sum by linarith
qed

subsection \<open>Diagnoses\<close>

record failure_diagnosis =
  irrelevant_results :: int
  context_mismatches :: int
  low_belief_results :: int
  harmful_results :: int
  stale_results :: int

definition mk_diagnosis :: "failure_diagnosis \<Rightarrow> failure_diagnosis res" where
  "mk_diagnosis d =
     rbind (raise_if (Min {irrelevant_results d, context_mismatches d, low_belief_results d,
         harmful_results d, stale_results d} < 0)
       (DomainError ''failure counts must be non-negative'')) (\<lambda>_. Inr d)"

text \<open>The five dictionary keys \<open>"semantic"\<close>, \<open>"context"\<close>, \dots\<close>

datatype component = SEMANTIC_W | CONTEXT_W | BELIEF_W | UTILITY_W | RECENCY_W

definition diagnosis_counts :: "failure_diagnosis \<Rightarrow> (component \<times> int) list" where
  "diagnosis_counts d = [(SEMANTIC_W, irrelevant_results d), (CONTEXT_W, context_mismatches d),
     (BELIEF_W, low_belief_results d), (UTILITY_W, harmful_results d), (RECENCY_W, stale_results d)]"

definition dominant_component :: "failure_diagnosis \<Rightarrow> component option" where
  "dominant_component d = (case py_max snd (diagnosis_counts d) of
       None \<Rightarrow> None
     | Some (component, n) \<Rightarrow> if n > 0 then Some component else None)"

lemma dominant_component_max:
  assumes "dominant_component d = Some c"
  shows "\<exists>n. (c, n) \<in> set (diagnosis_counts d) \<and> 0 < n \<and> (\<forall>(c', m) \<in> set (diagnosis_counts d). m \<le> n)"
  using assms by (fastforce simp: dominant_component_def split: option.splits if_splits dest: py_max_Some)

subsection \<open>The experiment state machine\<close>

datatype experiment_stage =
  PROPOSED | OFFLINE_PASSED | SHADOW | CANARY | PROMOTED | REJECTED | ROLLED_BACK

datatype gate_decision = PASS | REJECT | ROLLBACK_DECISION

fun stage_value :: "experiment_stage \<Rightarrow> string" where
  "stage_value PROPOSED = ''proposed''"
| "stage_value OFFLINE_PASSED = ''offline_passed''"
| "stage_value SHADOW = ''shadow''"
| "stage_value CANARY = ''canary''"
| "stage_value PROMOTED = ''promoted''"
| "stage_value REJECTED = ''rejected''"
| "stage_value ROLLED_BACK = ''rolled_back''"

fun decision_value :: "gate_decision \<Rightarrow> string" where
  "decision_value PASS = ''pass''"
| "decision_value REJECT = ''reject''"
| "decision_value ROLLBACK_DECISION = ''rollback''"

fun experiment_transitions :: "experiment_stage \<Rightarrow> experiment_stage list" where
  "experiment_transitions PROPOSED = [OFFLINE_PASSED, REJECTED]"
| "experiment_transitions OFFLINE_PASSED = [SHADOW, REJECTED]"
| "experiment_transitions SHADOW = [CANARY, ROLLED_BACK]"
| "experiment_transitions CANARY = [PROMOTED, ROLLED_BACK]"
| "experiment_transitions PROMOTED = [ROLLED_BACK]"
| "experiment_transitions _ = []"

definition legal_edge :: "experiment_stage \<Rightarrow> experiment_stage \<Rightarrow> bool" where
  "legal_edge s t \<longleftrightarrow> t \<in> set (experiment_transitions s)"

record gate_receipt =
  gr_id :: uuid
  gr_experiment_id :: uuid
  gr_baseline_id :: uuid
  gr_candidate_id :: uuid
  gr_from_stage :: experiment_stage
  gr_to_stage :: experiment_stage
  gr_decision :: gate_decision
  gr_artifact_ref :: ustr
  gr_artifact_sha256 :: ustr
  gr_issuer :: ustr
  gr_key_id :: ustr
  gr_issued_at :: instant
  gr_expires_at :: instant
  gr_hard_gates_passed :: bool
  gr_reason :: ustr
  gr_signature :: ustr

definition mk_gate_receipt ::
  "unidb \<Rightarrow> uuid \<Rightarrow> uuid \<Rightarrow> uuid \<Rightarrow> uuid \<Rightarrow> experiment_stage \<Rightarrow> experiment_stage \<Rightarrow> gate_decision \<Rightarrow>
   ustr \<Rightarrow> ustr \<Rightarrow> ustr \<Rightarrow> ustr \<Rightarrow> py_datetime \<Rightarrow> py_datetime \<Rightarrow> bool \<Rightarrow> ustr \<Rightarrow> ustr \<Rightarrow>
   gate_receipt res" where
  "mk_gate_receipt db i experiment baseline candidate from_stage to_stage decision artifact_ref
     artifact_sha issuer key_id issued_at expires_at hard_gates reason signature =
     rbind (raise_if (baseline = candidate)
       (DomainError ''gate receipt candidate must differ from baseline'')) (\<lambda>_.
     rbind (raise_if (\<not> legal_edge from_stage to_stage)
       (DomainError ''gate receipt must authorize a legal experiment transition'')) (\<lambda>_.
     rbind (require_text artifact_ref ''gate receipt artifact_ref'') (\<lambda>artifact_ref'.
     rbind (require_sha256 db artifact_sha ''gate receipt artifact_sha256'') (\<lambda>artifact_sha'.
     rbind (require_text issuer ''gate receipt issuer'') (\<lambda>issuer'.
     rbind (require_text key_id ''gate receipt key_id'') (\<lambda>key_id'.
     rbind (require_utc issued_at ''gate receipt issued_at'') (\<lambda>issued.
     rbind (require_utc expires_at ''gate receipt expires_at'') (\<lambda>expires.
     rbind (raise_if (expires \<le> issued)
       (DomainError ''gate receipt expires_at must follow issued_at'')) (\<lambda>_.
     rbind (require_text reason ''gate receipt reason'') (\<lambda>reason'.
     rbind (require_sha256 db signature ''gate receipt signature'') (\<lambda>signature'.
     Inr \<lparr>gr_id = i, gr_experiment_id = experiment, gr_baseline_id = baseline,
       gr_candidate_id = candidate, gr_from_stage = from_stage, gr_to_stage = to_stage,
       gr_decision = decision, gr_artifact_ref = artifact_ref', gr_artifact_sha256 = artifact_sha',
       gr_issuer = issuer', gr_key_id = key_id', gr_issued_at = issued, gr_expires_at = expires,
       gr_hard_gates_passed = hard_gates, gr_reason = reason', gr_signature = signature'\<rparr>)))))))))))"

record evolution_experiment =
  ex_id :: uuid
  ex_baseline_id :: uuid
  ex_candidate_id :: uuid
  ex_stage :: experiment_stage
  ex_created_at :: instant
  ex_updated_at :: instant

definition mk_experiment ::
  "uuid \<Rightarrow> uuid \<Rightarrow> uuid \<Rightarrow> experiment_stage \<Rightarrow> py_datetime \<Rightarrow> py_datetime \<Rightarrow>
   evolution_experiment res" where
  "mk_experiment i baseline candidate stage created_at updated_at =
     rbind (raise_if (baseline = candidate)
       (DomainError ''experiment candidate must differ from baseline'')) (\<lambda>_.
     rbind (require_utc created_at ''created_at'') (\<lambda>created.
     rbind (require_utc updated_at ''updated_at'') (\<lambda>updated.
     rbind (raise_if (updated < created)
       (DomainError ''experiment updated_at must not precede created_at'')) (\<lambda>_.
     Inr \<lparr>ex_id = i, ex_baseline_id = baseline, ex_candidate_id = candidate, ex_stage = stage,
       ex_created_at = created, ex_updated_at = updated\<rparr>))))"

definition experiment_transition ::
  "evolution_experiment \<Rightarrow> experiment_stage \<Rightarrow> py_datetime \<Rightarrow> evolution_experiment res" where
  "experiment_transition e target at_time =
     rbind (require_utc at_time ''experiment transition time'') (\<lambda>transitioned_at.
     rbind (raise_if (transitioned_at < ex_updated_at e)
       (DomainError ''experiment transition time must be non-decreasing'')) (\<lambda>_.
     rbind (raise_if (\<not> legal_edge (ex_stage e) target)
       (DomainError (''illegal experiment transition: '' @ stage_value (ex_stage e) @ '' -> '' @
          stage_value target))) (\<lambda>_.
     mk_experiment (ex_id e) (ex_baseline_id e) (ex_candidate_id e) target (utc (ex_created_at e))
       (utc transitioned_at))))"

record experiment_transition_event =
  et_id :: uuid
  et_experiment_id :: uuid
  et_to_stage :: experiment_stage
  et_transitioned_at :: instant
  et_reason :: ustr
  et_evidence_ref :: ustr
  et_idempotency_key :: ustr
  et_request_fingerprint :: ustr
  et_from_stage :: "experiment_stage option"

definition mk_transition_event ::
  "unidb \<Rightarrow> uuid \<Rightarrow> uuid \<Rightarrow> experiment_stage \<Rightarrow> py_datetime \<Rightarrow> ustr \<Rightarrow> ustr \<Rightarrow> ustr \<Rightarrow> ustr \<Rightarrow>
   experiment_stage option \<Rightarrow> experiment_transition_event res" where
  "mk_transition_event db i experiment to_stage transitioned_at reason evidence_ref key
     request_fingerprint from_stage =
     rbind (require_utc transitioned_at ''transitioned_at'') (\<lambda>transitioned.
     rbind (require_text reason ''transition reason'') (\<lambda>reason'.
     rbind (require_text evidence_ref ''transition evidence_ref'') (\<lambda>evidence_ref'.
     rbind (require_text key ''transition idempotency_key'') (\<lambda>key'.
     rbind (require_sha256 db request_fingerprint ''transition request_fingerprint'') (\<lambda>fp.
     rbind (case from_stage of
         None \<Rightarrow> raise_if (to_stage \<noteq> PROPOSED)
           (DomainError ''experiment creation must transition to proposed'')
       | Some from_st \<Rightarrow> raise_if (\<not> legal_edge from_st to_stage)
           (DomainError (''illegal experiment transition evidence: '' @ stage_value from_st @
             '' -> '' @ stage_value to_stage))) (\<lambda>_.
     Inr \<lparr>et_id = i, et_experiment_id = experiment, et_to_stage = to_stage,
       et_transitioned_at = transitioned, et_reason = reason', et_evidence_ref = evidence_ref',
       et_idempotency_key = key', et_request_fingerprint = fp, et_from_stage = from_stage\<rparr>))))))"

definition experiment_ok :: "evolution_experiment \<Rightarrow> bool" where
  "experiment_ok e \<longleftrightarrow> ex_baseline_id e \<noteq> ex_candidate_id e \<and> ex_created_at e \<le> ex_updated_at e"

lemma mk_experiment_Inr [res_simps]:
  "mk_experiment i b c s (utc t) (utc u) = Inr e \<longleftrightarrow> b \<noteq> c \<and> t \<le> u \<and>
     e = \<lparr>ex_id = i, ex_baseline_id = b, ex_candidate_id = c, ex_stage = s, ex_created_at = t,
       ex_updated_at = u\<rparr>"
  by (auto simp: mk_experiment_def res_simps)

lemma experiment_transition_Inr:
  assumes "experiment_ok e"
  shows "experiment_transition e t (utc n) = Inr e' \<longleftrightarrow>
     ex_updated_at e \<le> n \<and> legal_edge (ex_stage e) t \<and> e' = e\<lparr>ex_stage := t, ex_updated_at := n\<rparr>"
  using assms by (cases e) (auto simp: experiment_transition_def res_simps experiment_ok_def)

lemma experiment_transition_ok:
  "experiment_transition e t at_time = Inr e' \<Longrightarrow> experiment_ok e'"
  by (auto simp: experiment_transition_def experiment_ok_def res_simps)

subsection \<open>The stages an experiment goes through\<close>

inductive stage_history :: "experiment_stage list \<Rightarrow> bool" where
  created: "stage_history [PROPOSED]"
| advanced: "stage_history (h @ [s]) \<Longrightarrow> legal_edge s t \<Longrightarrow> stage_history (h @ [s, t])"

inductive_cases stage_history_snoc: "stage_history (h @ [s])"

lemma legal_edge_simps [simp]:
  "legal_edge s PROPOSED \<longleftrightarrow> False"
  "legal_edge s OFFLINE_PASSED \<longleftrightarrow> s = PROPOSED"
  "legal_edge s SHADOW \<longleftrightarrow> s = OFFLINE_PASSED"
  "legal_edge s CANARY \<longleftrightarrow> s = SHADOW"
  "legal_edge s PROMOTED \<longleftrightarrow> s = CANARY"
  "legal_edge s REJECTED \<longleftrightarrow> s = PROPOSED \<or> s = OFFLINE_PASSED"
  "legal_edge s ROLLED_BACK \<longleftrightarrow> s = SHADOW \<or> s = CANARY \<or> s = PROMOTED"
  by (cases s; simp add: legal_edge_def)+

text \<open>The path to each stage before the end is unique.\<close>

fun forward_path :: "experiment_stage \<Rightarrow> experiment_stage list option" where
  "forward_path PROPOSED = Some [PROPOSED]"
| "forward_path OFFLINE_PASSED = Some [PROPOSED, OFFLINE_PASSED]"
| "forward_path SHADOW = Some [PROPOSED, OFFLINE_PASSED, SHADOW]"
| "forward_path CANARY = Some [PROPOSED, OFFLINE_PASSED, SHADOW, CANARY]"
| "forward_path PROMOTED = Some [PROPOSED, OFFLINE_PASSED, SHADOW, CANARY, PROMOTED]"
| "forward_path _ = None"

lemma forward_path_edge:
  "legal_edge s t \<Longrightarrow>
     \<exists>p. forward_path s = Some p \<and> (forward_path t = Some (p @ [t]) \<or> forward_path t = None)"
  by (cases t) auto

lemma stage_history_shape:
  "stage_history h \<Longrightarrow> (case forward_path (last h) of Some p \<Rightarrow> h = p
     | None \<Rightarrow> (\<exists>s p. forward_path s = Some p \<and> legal_edge s (last h) \<and> h = p @ [last h]))"
proof (induction rule: stage_history.induct)
  case (advanced h s t)
  from forward_path_edge [OF advanced.hyps(2)] obtain p where
    p: "forward_path s = Some p" "forward_path t = Some (p @ [t]) \<or> forward_path t = None" by blast
  then have "h @ [s] = p" using advanced.IH by simp
  then have "h @ [s, t] = p @ [t]" by simp
  then show ?case using p advanced.hyps(2) by (cases "forward_path t") auto
qed simp

lemma stage_history_promoted: "stage_history h \<Longrightarrow> last h = PROMOTED \<Longrightarrow>
  h = [PROPOSED, OFFLINE_PASSED, SHADOW, CANARY, PROMOTED]"
  by (drule stage_history_shape) simp

lemma stage_history_length: "stage_history h \<Longrightarrow> length h \<le> 6"
proof -
  assume "stage_history h"
  have path: "length p \<le> 5" if "forward_path s = Some p" for s p using that by (cases s) auto
  from stage_history_shape [OF \<open>stage_history h\<close>]
  have "\<exists>s p. forward_path s = Some p \<and> (h = p \<or> h = p @ [last h])"
    by (cases "forward_path (last h)") auto
  then obtain s p where "forward_path s = Some p" "h = p \<or> h = p @ [last h]" by blast
  then show ?thesis using path [of s p] by (auto dest: arg_cong [of h _ length])
qed

lemma stage_history_ne: "stage_history h \<Longrightarrow> h \<noteq> []"
  by (induction rule: stage_history.induct) auto

lemma stage_history_extend:
  "stage_history h \<Longrightarrow> legal_edge (last h) t \<Longrightarrow> stage_history (h @ [t])"
proof -
  assume h: "stage_history h" and e: "legal_edge (last h) t"
  have "h = butlast h @ [last h]" using stage_history_ne [OF h] by simp
  with h e have "stage_history (butlast h @ [last h, t])" by (metis advanced)
  moreover have "butlast h @ [last h, t] = h @ [t]"
    using stage_history_ne [OF h] append_butlast_last_id [of h] by (metis append_Cons append_assoc append_Nil)
  ultimately show ?thesis by metis
qed

subsection \<open>Bounded proposals\<close>

fun weight_of :: "component \<Rightarrow> retrieval_weights \<Rightarrow> pyfloat" where
  "weight_of SEMANTIC_W w = w_semantic w"
| "weight_of CONTEXT_W w = w_context w"
| "weight_of BELIEF_W w = w_belief w"
| "weight_of UTILITY_W w = w_utility w"
| "weight_of RECENCY_W w = w_recency w"

fun set_weight :: "component \<Rightarrow> pyfloat \<Rightarrow> retrieval_weights \<Rightarrow> retrieval_weights" where
  "set_weight SEMANTIC_W x w = w\<lparr>w_semantic := x\<rparr>"
| "set_weight CONTEXT_W x w = w\<lparr>w_context := x\<rparr>"
| "set_weight BELIEF_W x w = w\<lparr>w_belief := x\<rparr>"
| "set_weight UTILITY_W x w = w\<lparr>w_utility := x\<rparr>"
| "set_weight RECENCY_W x w = w\<lparr>w_recency := x\<rparr>"

definition components :: "component list" where
  "components = [SEMANTIC_W, CONTEXT_W, BELIEF_W, UTILITY_W, RECENCY_W]"

definition max_delta :: pyfloat where
  "max_delta = flit (3/100)"

definition donor_for :: "component \<Rightarrow> retrieval_weights \<Rightarrow> component" where
  "donor_for target w =
     hd (sort_desc (\<lambda>name. weight_of name w) (filter (\<lambda>name. name \<noteq> target) components))"

definition proposal_delta :: "component \<Rightarrow> retrieval_weights \<Rightarrow> pyfloat" where
  "proposal_delta target w =
     min (min max_delta (fsub (flit (60/100)) (weight_of target w)))
       (fsub (weight_of (donor_for target w) w) (flit (5/100)))"

definition shifted :: "component \<Rightarrow> retrieval_weights \<Rightarrow> retrieval_weights" where
  "shifted target w =
     (let delta = proposal_delta target w; donor = donor_for target w in
      set_weight donor (fsub (weight_of donor w) delta)
        (set_weight target (fadd (weight_of target w) delta) w))"

definition propose ::
  "strategy_snapshot \<Rightarrow> failure_diagnosis \<Rightarrow> uuid \<Rightarrow> py_datetime \<Rightarrow> strategy_snapshot option res" where
  "propose parent diagnosis proposal_id at_time =
     (case dominant_component diagnosis of
        None \<Rightarrow> Inr None
      | Some target \<Rightarrow>
          if proposal_delta target (st_weights parent) \<le> 0 then Inr None
          else rbind (mk_weights (shifted target (st_weights parent))) (\<lambda>weights.
               rbind (mk_strategy proposal_id (st_version parent + 1) weights (st_min_score parent)
                 (st_half_life parent) at_time (Some (st_id parent))) (\<lambda>s.
               Inr (Some s))))"

lemma weight_of_set [simp]: "weight_of c (set_weight d x w) = (if c = d then x else weight_of c w)"
  by (cases c; cases d) simp_all

lemma weight_values_components: "weight_values w = map (\<lambda>c. weight_of c w) components"
  by (simp add: weight_values_def components_def)

lemma set_components [simp]: "set components = UNIV"
proof -
  have "c \<in> set components" for c by (cases c) (simp_all add: components_def)
  then show ?thesis by blast
qed

lemma donor_not_target: "donor_for t w \<noteq> t"
proof -
  have "filter (\<lambda>c. c \<noteq> t) components \<noteq> []" by (cases t) (simp_all add: components_def)
  from sort_desc_hd_in [OF this] show ?thesis by (simp add: donor_for_def)
qed

lemma sum_set_weight:
  "sum_list (weight_values (set_weight c x w)) = sum_list (weight_values w) - weight_of c w + x"
  by (cases c) (simp_all add: weight_values_def)

lemma raise_within:
  assumes v: "is_double v" "flit (5/100) \<le> v"
    and d: "0 \<le> d" "d \<le> max_delta" "d \<le> fsub (flit (60/100)) v" and hi: "v \<le> flit (60/100)"
  shows "v \<le> fadd v d \<and> fadd v d \<le> flit (60/100)"
proof
  show "v \<le> fadd v d" unfolding fadd_def using v d by (intro fp.rnd_ge) simp_all
  have "v + d \<le> flit (60/100)"
  proof (cases "flit (60/100) \<le> 2 * v")
    case True
    then have "fsub (flit (60/100)) v = flit (60/100) - v"
      using v(1)
    proof (intro sterbenz is_double_flit)
      show "v \<le> 2 * flit (60/100)" using hi flit_bounds by linarith
    qed
    then show ?thesis using d by simp
  next
    case False
    then show ?thesis
      using d flit_bounds unfolding max_delta_def by linarith
  qed
  then show "fadd v d \<le> flit (60/100)" unfolding fadd_def by (intro fp.rnd_le is_double_flit)
qed

lemma lower_within:
  assumes v: "is_double v" "flit (5/100) \<le> v"
    and d: "0 \<le> d" "d \<le> max_delta" "d \<le> fsub v (flit (5/100))"
  shows "flit (5/100) \<le> fsub v d \<and> fsub v d \<le> v"
proof
  show "fsub v d \<le> v" unfolding fsub_def using v d by (intro fp.rnd_le) simp_all
  have "flit (5/100) \<le> v - d"
  proof (cases "v \<le> 2 * flit (5/100)")
    case True
    then have "fsub v (flit (5/100)) = v - flit (5/100)"
      using v(1)
    proof (intro sterbenz is_double_flit)
      show "flit (5/100) \<le> 2 * v" using v flit_bounds by linarith
    qed
    then show ?thesis using d by simp
  next
    case False
    then show ?thesis
      using d flit_bounds unfolding max_delta_def by linarith
  qed
  then show "flit (5/100) \<le> fsub v d" unfolding fsub_def by (intro fp.rnd_ge is_double_flit)
qed

definition weights_double :: "retrieval_weights \<Rightarrow> bool" where
  "weights_double w \<longleftrightarrow> list_all is_double (weight_values w)"

lemma weights_ok_range:
  "weights_ok w \<Longrightarrow> flit (5/100) \<le> weight_of c w \<and> weight_of c w \<le> flit (60/100)"
  by (cases c) (simp_all add: weights_ok_def weight_values_def)

lemma weights_double_of: "weights_double w \<Longrightarrow> is_double (weight_of c w)"
  by (cases c) (simp_all add: weights_double_def weight_values_def)

lemma shifted_weights:
  assumes ok: "weights_ok w" and dbl: "weights_double w" and pos: "0 < proposal_delta t w"
  obtains u where "u \<noteq> t"
    and "weight_of t w \<le> weight_of t (shifted t w)" "weight_of t (shifted t w) \<le> flit (60/100)"
    and "flit (5/100) \<le> weight_of u (shifted t w)" "weight_of u (shifted t w) \<le> weight_of u w"
    and "\<And>c. c \<noteq> t \<Longrightarrow> c \<noteq> u \<Longrightarrow> weight_of c (shifted t w) = weight_of c w"
    and "\<bar>weight_of t (shifted t w) - weight_of t w\<bar> \<le> max_delta + ulp1"
    and "\<bar>weight_of u (shifted t w) - weight_of u w\<bar> \<le> max_delta + ulp1"
    and "\<bar>sum_list (weight_values (shifted t w)) - sum_list (weight_values w)\<bar> \<le> 2 * ulp1"
proof -
  let ?u = "donor_for t w" and ?d = "proposal_delta t w"
  let ?vt = "weight_of t w" and ?vu = "weight_of (donor_for t w) w"
  have ne: "?u \<noteq> t" by (rule donor_not_target)
  have d: "0 \<le> ?d" "?d \<le> max_delta" "?d \<le> fsub (flit (60/100)) ?vt" "?d \<le> fsub ?vu (flit (5/100))"
    using pos by (simp_all add: proposal_delta_def)
  note rt = weights_ok_range [OF ok, of t] and ru = weights_ok_range [OF ok, of ?u]
  have up: "?vt \<le> fadd ?vt ?d \<and> fadd ?vt ?d \<le> flit (60/100)"
    using rt d by (intro raise_within weights_double_of dbl) simp_all
  have down: "flit (5/100) \<le> fsub ?vu ?d \<and> fsub ?vu ?d \<le> ?vu"
    using ru d by (intro lower_within weights_double_of dbl) simp_all
  have lim: "max_delta \<le> 1/2" "flit (60/100) \<le> 3/4" "0 \<le> flit (5/100)"
    using flit_bounds unfolding max_delta_def by linarith+
  have e: "\<bar>fadd ?vt ?d - (?vt + ?d)\<bar> \<le> ulp1" "\<bar>fsub ?vu ?d - (?vu - ?d)\<bar> \<le> ulp1"
    unfolding fadd_def fsub_def using rt ru d lim by (intro ulp1_error; linarith)+
  have sh: "shifted t w = set_weight ?u (fsub ?vu ?d) (set_weight t (fadd ?vt ?d) w)"
    by (simp add: shifted_def Let_def)
  show thesis
  proof (rule that [OF ne])
    show "\<bar>sum_list (weight_values (shifted t w)) - sum_list (weight_values w)\<bar> \<le> 2 * ulp1"
      using e ne by (simp add: sh sum_set_weight)
    show "\<bar>weight_of t (shifted t w) - weight_of t w\<bar> \<le> max_delta + ulp1"
      using e d ne by (simp add: sh)
    show "\<bar>weight_of ?u (shifted t w) - weight_of ?u w\<bar> \<le> max_delta + ulp1"
      using e d ne by (simp add: sh)
  qed (use up down ne in \<open>simp_all add: sh\<close>)
qed

lemma shifted_ok:
  assumes ok: "weights_ok w" and dbl: "weights_double w" and pos: "0 < proposal_delta t w"
    and s: "\<bar>sum_list (weight_values w) - 1\<bar> \<le> 93 / 100000000000"
  shows "weights_ok (shifted t w)"
proof -
  obtain u where u: "u \<noteq> t"
      "weight_of t w \<le> weight_of t (shifted t w)" "weight_of t (shifted t w) \<le> flit (60/100)"
      "flit (5/100) \<le> weight_of u (shifted t w)" "weight_of u (shifted t w) \<le> weight_of u w"
      "\<And>c. c \<noteq> t \<Longrightarrow> c \<noteq> u \<Longrightarrow> weight_of c (shifted t w) = weight_of c w"
      "\<bar>sum_list (weight_values (shifted t w)) - sum_list (weight_values w)\<bar> \<le> 2 * ulp1"
    using shifted_weights [OF ok dbl pos] by metis
  have "flit (5/100) \<le> weight_of c (shifted t w) \<and> weight_of c (shifted t w) \<le> flit (60/100)" for c
    using u(1-6) weights_ok_range [OF ok, of c] weights_ok_range [OF ok, of t]
      weights_ok_range [OF ok, of u] by (cases "c = t"; cases "c = u") fastforce+
  moreover have "\<bar>sum_list (weight_values (shifted t w)) - 1\<bar> \<le> 94 / 100000000000"
    using u(7) s ulp1_small by linarith
  ultimately show ?thesis by (intro weights_okI) (auto simp: weight_values_components list_all_iff)
qed

text \<open>The proposal is total on a valid parent: it never raises.\<close>

lemma propose_Inr:
  assumes p: "strategy_ok p" and dbl: "weights_double (st_weights p)"
    and s: "\<bar>sum_list (weight_values (st_weights p)) - 1\<bar> \<le> 93 / 100000000000"
  shows "propose p d i (utc n) = Inr (case dominant_component d of None \<Rightarrow> None
     | Some t \<Rightarrow> if proposal_delta t (st_weights p) \<le> 0 then None
         else Some \<lparr>st_id = i, st_version = st_version p + 1, st_weights = shifted t (st_weights p),
           st_min_score = st_min_score p, st_half_life = st_half_life p, st_created_at = n,
           st_parent_id = Some (st_id p)\<rparr>)"
proof -
  have "mk_weights (shifted t (st_weights p)) = Inr (shifted t (st_weights p))"
    if "0 < proposal_delta t (st_weights p)" for t
    using p that by (intro mk_weights_Inr [THEN iffD2] conjI shifted_ok dbl s)
      (simp_all add: strategy_ok_def)
  moreover have "mk_strategy i (st_version p + 1) w (st_min_score p) (st_half_life p) (utc n)
      (Some (st_id p)) = Inr \<lparr>st_id = i, st_version = st_version p + 1, st_weights = w,
        st_min_score = st_min_score p, st_half_life = st_half_life p, st_created_at = n,
        st_parent_id = Some (st_id p)\<rparr>" for w
    using p by (intro mk_strategy_Inr [THEN iffD2]) (simp add: strategy_ok_def)
  ultimately show ?thesis
    by (simp add: propose_def not_le split: option.split)
qed

end
