(* ===== verification/GovernanceDomain.thy ===== *)
theory GovernanceDomain
  imports Common
begin

text \<open>
  \<open>domain/governance.py\<close>: processing grants, suppression fences, the summary and the request of an
  erasure.
\<close>

datatype erasure_status = ES_PENDING | ES_COMPLETED | ES_FAILED

record processing_grant =
  pg_id :: uuid
  pg_tenant_ref :: ustr
  pg_subject_ref :: ustr
  pg_purposes :: "ustr list"
  pg_lawful_basis :: ustr
  pg_policy_version :: ustr
  pg_issued_by_ref :: ustr
  pg_idempotency_key :: ustr
  pg_valid_from :: instant
  pg_valid_until :: "instant option"
  pg_created_at :: instant
  pg_revoked_at :: "instant option"
  pg_revoked_by_ref :: "ustr option"

text \<open>\<open>tuple(sorted({require_text(value, "purposes") for value in purposes}))\<close>\<close>

definition canonical_purposes :: "ustr list \<Rightarrow> ustr list res" where
  "canonical_purposes purposes =
     rbind (rmap (\<lambda>v. require_text v ''purposes'') purposes) (\<lambda>ps. Inr (sort (remdups ps)))"

definition mk_processing_grant ::
  "uuid \<Rightarrow> ustr \<Rightarrow> ustr \<Rightarrow> ustr list \<Rightarrow> ustr \<Rightarrow> ustr \<Rightarrow> ustr \<Rightarrow> ustr \<Rightarrow> py_datetime \<Rightarrow>
   py_datetime option \<Rightarrow> py_datetime \<Rightarrow> py_datetime option \<Rightarrow> ustr option \<Rightarrow> processing_grant res" where
  "mk_processing_grant i tenant subject purposes basis version issued_by key valid_from valid_until
     created_at revoked_at revoked_by =
     rbind (require_text tenant ''tenant_ref'') (\<lambda>tenant'.
     rbind (require_text subject ''subject_ref'') (\<lambda>subject'.
     rbind (require_text basis ''lawful_basis'') (\<lambda>basis'.
     rbind (require_text version ''policy_version'') (\<lambda>version'.
     rbind (require_text issued_by ''issued_by_ref'') (\<lambda>issued_by'.
     rbind (require_text key ''idempotency_key'') (\<lambda>key'.
     rbind (canonical_purposes purposes) (\<lambda>purposes'.
     rbind (raise_if (purposes' = [] \<or> uc ''*'' \<in> set purposes')
       (ValueError ''processing grant purposes must be explicit'')) (\<lambda>_.
     rbind (require_utc valid_from ''valid_from'') (\<lambda>valid_from'.
     rbind (require_utc created_at ''created_at'') (\<lambda>created_at'.
     rbind (case valid_until of None \<Rightarrow> Inr None
       | Some v \<Rightarrow> rbind (require_utc v ''valid_until'') (\<lambda>until.
           rbind (raise_if (until \<le> valid_from')
             (ValueError ''valid_until must be later than valid_from'')) (\<lambda>_. Inr (Some until)))) (\<lambda>valid_until'.
     rbind (case revoked_at of None \<Rightarrow> Inr None
       | Some v \<Rightarrow> rbind (require_utc v ''revoked_at'') (\<lambda>revoked.
           rbind (raise_if (revoked_by = None)
             (ValueError ''revoked_by_ref is required for a revoked grant'')) (\<lambda>_. Inr (Some revoked)))) (\<lambda>revoked_at'.
     rbind (ropt (\<lambda>r. require_text r ''revoked_by_ref'') revoked_by) (\<lambda>revoked_by'.
     Inr \<lparr>pg_id = i, pg_tenant_ref = tenant', pg_subject_ref = subject', pg_purposes = purposes',
       pg_lawful_basis = basis', pg_policy_version = version', pg_issued_by_ref = issued_by',
       pg_idempotency_key = key', pg_valid_from = valid_from', pg_valid_until = valid_until',
       pg_created_at = created_at', pg_revoked_at = revoked_at', pg_revoked_by_ref = revoked_by'\<rparr>)))))))))))))"

record suppression_fence =
  sf_id :: uuid
  sf_tenant_ref :: ustr
  sf_subject_ref :: ustr
  sf_reason_code :: ustr
  sf_policy_version :: ustr
  sf_requested_by_ref :: ustr
  sf_idempotency_key :: ustr
  sf_created_at :: instant

definition mk_suppression_fence ::
  "uuid \<Rightarrow> ustr \<Rightarrow> ustr \<Rightarrow> ustr \<Rightarrow> ustr \<Rightarrow> ustr \<Rightarrow> ustr \<Rightarrow> py_datetime \<Rightarrow> suppression_fence res" where
  "mk_suppression_fence i tenant subject reason version requested_by key created_at =
     rbind (require_text tenant ''tenant_ref'') (\<lambda>tenant'.
     rbind (require_text subject ''subject_ref'') (\<lambda>subject'.
     rbind (require_text reason ''reason_code'') (\<lambda>reason'.
     rbind (require_text version ''policy_version'') (\<lambda>version'.
     rbind (require_text requested_by ''requested_by_ref'') (\<lambda>requested_by'.
     rbind (require_text key ''idempotency_key'') (\<lambda>key'.
     rbind (require_utc created_at ''created_at'') (\<lambda>created.
     Inr \<lparr>sf_id = i, sf_tenant_ref = tenant', sf_subject_ref = subject', sf_reason_code = reason',
       sf_policy_version = version', sf_requested_by_ref = requested_by', sf_idempotency_key = key',
       sf_created_at = created\<rparr>)))))))"

record erasure_summary =
  sum_observations :: int
  sum_evidence_spans :: int
  sum_candidates :: int
  sum_memory_records :: int
  sum_memory_revisions :: int
  sum_revision_transitions :: int
  sum_recall_traces :: int
  sum_recall_trace_items :: int
  sum_memory_usages :: int
  sum_memory_usage_items :: int
  sum_outcomes :: int
  sum_utility_estimates :: int
  sum_outbox_events :: int
  sum_projection_jobs :: int
  sum_projection_documents :: int

definition with_projection_documents :: "erasure_summary \<Rightarrow> int \<Rightarrow> erasure_summary res" where
  "with_projection_documents s n =
     rbind (raise_if (n < 0) (ValueError ''projection deletion count must not be negative'')) (\<lambda>_.
     Inr (s\<lparr>sum_projection_documents := n\<rparr>))"

record erasure_request =
  er_id :: uuid
  er_tenant_ref :: ustr
  er_subject_ref :: ustr
  er_scope_digest :: ustr
  er_reason_code :: ustr
  er_policy_version :: ustr
  er_requested_by_ref :: ustr
  er_idempotency_key :: ustr
  er_status :: erasure_status
  er_created_at :: instant
  er_completed_at :: "instant option"
  er_summary :: "erasure_summary option"
  er_handler_results :: "(ustr \<times> ustr) list"
  er_error_code :: "ustr option"

definition handler_done :: "ustr \<times> ustr \<Rightarrow> bool" where
  "handler_done = (\<lambda>(_, result). result = uc ''completed'' \<or> result = uc ''not_applicable'')"

definition mk_erasure_request ::
  "uuid \<Rightarrow> ustr \<Rightarrow> ustr \<Rightarrow> ustr \<Rightarrow> ustr \<Rightarrow> ustr \<Rightarrow> ustr \<Rightarrow> ustr \<Rightarrow> erasure_status \<Rightarrow> py_datetime \<Rightarrow>
   py_datetime option \<Rightarrow> erasure_summary option \<Rightarrow> (ustr \<times> ustr) list \<Rightarrow> ustr option \<Rightarrow>
   erasure_request res" where
  "mk_erasure_request i tenant subject digest reason version requested_by key status created_at
     completed_at summary handler_results error_code =
     rbind (require_text tenant ''tenant_ref'') (\<lambda>tenant'.
     rbind (require_text subject ''subject_ref'') (\<lambda>subject'.
     rbind (require_text digest ''scope_digest'') (\<lambda>digest'.
     rbind (require_text reason ''reason_code'') (\<lambda>reason'.
     rbind (require_text version ''policy_version'') (\<lambda>version'.
     rbind (require_text requested_by ''requested_by_ref'') (\<lambda>requested_by'.
     rbind (require_text key ''idempotency_key'') (\<lambda>key'.
     rbind (require_utc created_at ''created_at'') (\<lambda>created.
     rbind (ropt (\<lambda>t. require_utc t ''completed_at'') completed_at) (\<lambda>completed.
     rbind (if status = ES_COMPLETED
       then rbind (raise_if (completed = None \<or> summary = None)
              (ValueError ''completed erasure requires completion evidence'')) (\<lambda>_.
            raise_if (list_ex (\<lambda>r. \<not> handler_done r) handler_results)
              (ValueError ''all required erasure handlers must be completed''))
       else Inr ()) (\<lambda>_.
     rbind (ropt (\<lambda>c. require_text c ''error_code'') error_code) (\<lambda>error_code'.
     Inr \<lparr>er_id = i, er_tenant_ref = tenant', er_subject_ref = subject', er_scope_digest = digest',
       er_reason_code = reason', er_policy_version = version', er_requested_by_ref = requested_by',
       er_idempotency_key = key', er_status = status, er_created_at = created,
       er_completed_at = completed, er_summary = summary, er_handler_results = handler_results,
       er_error_code = error_code'\<rparr>)))))))))))"

definition grant_ok :: "processing_grant \<Rightarrow> bool" where
  "grant_ok g \<longleftrightarrow> pg_purposes g \<noteq> [] \<and> uc ''*'' \<notin> set (pg_purposes g) \<and> sorted (pg_purposes g) \<and>
     distinct (pg_purposes g) \<and> (\<forall>u. pg_valid_until g = Some u \<longrightarrow> pg_valid_from g < u) \<and>
     (pg_revoked_at g \<noteq> None \<longrightarrow> pg_revoked_by_ref g \<noteq> None)"

definition erasure_ok :: "erasure_request \<Rightarrow> bool" where
  "erasure_ok r \<longleftrightarrow> (er_status r = ES_COMPLETED \<longrightarrow> er_completed_at r \<noteq> None \<and> er_summary r \<noteq> None \<and>
     list_all handler_done (er_handler_results r))"

lemma mk_processing_grant_ok: "mk_processing_grant i t s p b v ib k vf vu c ra rb = Inr g \<Longrightarrow> grant_ok g"
  by (auto simp: mk_processing_grant_def canonical_purposes_def grant_ok_def res_simps not_le
      split: option.splits)

lemma mk_erasure_request_ok:
  "mk_erasure_request i t s d r v rb k st c co su hr e = Inr q \<Longrightarrow> erasure_ok q"
  by (auto simp: mk_erasure_request_def erasure_ok_def res_simps list_ex_iff list_all_iff split: if_splits)

end
