(* ===== verification/Store.thy ===== *)
theory Store
  imports Memory Experience Evolution GovernanceDomain
begin

text \<open>
  \<open>adapters/in_memory.py\<close>: the authoritative store.  One record field per attribute listed in
  \<open>_TRANSACTIONAL_STATE\<close>, a dictionary as an association list in insertion order; one definition
  per method.  A method that only reads is a function of the store, one that may raise on a missing
  key returns a result; one that writes is a computation on the store.  The definitions are over the
  extensible record, so the application state, which adds the id and clock counters, runs them
  as they are.  Each call holds the store's lock from start to end, so calls do not interleave and
  the lock has no other trace here.
\<close>

record store =
  s_observations :: "(uuid, observation) dict"
  s_observation_keys :: "(scope \<times> ustr, uuid) dict"
  s_evidence :: "(uuid, evidence_span) dict"
  s_candidates :: "(uuid, candidate) dict"
  s_candidate_by_observation :: "(uuid, uuid) dict"
  s_records :: "(uuid, memory_record) dict"
  s_record_identity :: "(scope \<times> ustr \<times> ustr, uuid) dict"
  s_revisions :: "(uuid, memory_revision) dict"
  s_revision_ids_by_record :: "(uuid, uuid list) dict"
  s_active_revision :: "(uuid, uuid) dict"
  s_transitions :: "revision_transition list"
  s_traces :: "(uuid, recall_trace) dict"
  s_usages :: "(uuid, memory_usage) dict"
  s_usage_keys :: "(scope \<times> ustr, uuid) dict"
  s_outcomes :: "(uuid, outcome_event) dict"
  s_outcome_keys :: "(scope \<times> ustr, uuid) dict"
  s_utilities :: "(scope \<times> uuid \<times> ustr, utility_estimate) dict"
  s_strategies :: "(uuid, strategy_snapshot) dict"
  s_strategy_activations :: "strategy_activation list"
  s_experiments :: "(uuid, evolution_experiment) dict"
  s_experiment_transitions :: "(uuid, experiment_transition_event list) dict"
  s_experiment_transition_ids :: "uuid set"
  s_experiment_transition_keys :: "(ustr, experiment_transition_event) dict"

definition empty_store :: store where
  "empty_store = \<lparr>s_observations = [], s_observation_keys = [], s_evidence = [], s_candidates = [],
     s_candidate_by_observation = [], s_records = [], s_record_identity = [], s_revisions = [],
     s_revision_ids_by_record = [], s_active_revision = [], s_transitions = [], s_traces = [],
     s_usages = [], s_usage_keys = [], s_outcomes = [], s_outcome_keys = [], s_utilities = [],
     s_strategies = [], s_strategy_activations = [], s_experiments = [],
     s_experiment_transitions = [], s_experiment_transition_ids = {},
     s_experiment_transition_keys = []\<rparr>"

subsection \<open>Transactions\<close>

text \<open>
  \<open>_LockedTransaction\<close>: entering takes a snapshot of the transactional attributes, leaving by an
  exception puts them back.  What the state has beyond the store is not restored.
\<close>

definition restore_store :: "'z store_scheme \<Rightarrow> 'z store_scheme \<Rightarrow> 'z store_scheme" where
  "restore_store snapshot s = store.extend (store.truncate snapshot) (store.more s)"

definition transaction :: "('z store_scheme, 'a) prog \<Rightarrow> ('z store_scheme, 'a) prog" where
  "transaction m = (\<lambda>s. case m s of
       (Inl e, t) \<Rightarrow> (Inl e, restore_store s t)
     | (Inr x, t) \<Rightarrow> (Inr x, t))"

subsection \<open>Strategies and experiments\<close>

definition save_strategy :: "strategy_snapshot \<Rightarrow> ('z store_scheme, unit) prog" where
  "save_strategy strategy =
     pbind (gets (\<lambda>s. map_of (s_strategies s) (st_id strategy))) (\<lambda>existing.
     case existing of
       Some e \<Rightarrow> lift_res (raise_if (e \<noteq> strategy)
         (ConflictError ''strategy id already belongs to a different snapshot''))
     | None \<Rightarrow>
         pbind (case st_parent_id strategy of
             None \<Rightarrow> lift_res (raise_if (st_version strategy \<noteq> 1)
               (ConflictError ''root strategy version must be 1''))
           | Some parent_id \<Rightarrow>
               pbind (gets (\<lambda>s. map_of (s_strategies s) parent_id)) (\<lambda>parent.
               lift_res (raise_if (case parent of None \<Rightarrow> True
                   | Some p \<Rightarrow> st_version strategy \<noteq> st_version p + 1)
                 (ConflictError ''strategy parent and version are inconsistent'')))) (\<lambda>_.
         modify (s_strategies_update (dict_set (st_id strategy) strategy))))"

definition strategy_by_id :: "'z store_scheme \<Rightarrow> uuid \<Rightarrow> strategy_snapshot option" where
  "strategy_by_id s i = map_of (s_strategies s) i"

definition active_strategy :: "'z store_scheme \<Rightarrow> strategy_snapshot option res" where
  "active_strategy s =
     (if s_strategy_activations s = [] then Inr None
      else rbind (dict_index (s_strategies s) (sa_strategy_id (last (s_strategy_activations s))))
        (\<lambda>st. Inr (Some st)))"

definition ensure_active_strategy ::
  "strategy_snapshot \<Rightarrow> strategy_activation \<Rightarrow> ('z store_scheme, strategy_snapshot) prog" where
  "ensure_active_strategy strategy activation =
     pbind (asks active_strategy) (\<lambda>active.
     case active of
       Some a \<Rightarrow> return a
     | None \<Rightarrow>
         pbind (lift_res (raise_if (sa_kind activation \<noteq> BOOTSTRAP \<or>
             sa_strategy_id activation \<noteq> st_id strategy \<or> st_parent_id strategy \<noteq> None \<or>
             st_version strategy \<noteq> 1)
           (ConflictError ''initial active strategy requires a root bootstrap activation''))) (\<lambda>_.
         pbind (save_strategy strategy) (\<lambda>_.
         pbind (modify (s_strategy_activations_update (\<lambda>as. as @ [activation]))) (\<lambda>_.
         return strategy))))"

definition register_evolution_experiment ::
  "strategy_snapshot \<Rightarrow> evolution_experiment \<Rightarrow> experiment_transition_event \<Rightarrow>
   ('z store_scheme, unit) prog" where
  "register_evolution_experiment candidate experiment transition =
     pbind (asks active_strategy) (\<lambda>active.
     case active of
       None \<Rightarrow> throw (ConflictError ''experiment baseline is not the active strategy'')
     | Some a \<Rightarrow>
         pbind (lift_res (raise_if (st_id a \<noteq> ex_baseline_id experiment)
           (ConflictError ''experiment baseline is not the active strategy''))) (\<lambda>_.
         pbind (lift_res (raise_if (st_id candidate \<noteq> ex_candidate_id experiment \<or>
             st_parent_id candidate \<noteq> Some (st_id a) \<or> st_version candidate \<noteq> st_version a + 1)
           (ConflictError ''experiment candidate does not extend the active baseline''))) (\<lambda>_.
         pbind (gets id) (\<lambda>s.
         pbind (lift_res (raise_if (map_of (s_experiments s) (ex_id experiment) \<noteq> None)
           (ConflictError ''evolution experiment already exists''))) (\<lambda>_.
         pbind (lift_res (raise_if (ex_stage experiment \<noteq> PROPOSED \<or>
             ex_created_at experiment \<noteq> ex_updated_at experiment \<or>
             et_id transition \<in> s_experiment_transition_ids s \<or>
             map_of (s_experiment_transition_keys s) (et_idempotency_key transition) \<noteq> None \<or>
             et_experiment_id transition \<noteq> ex_id experiment \<or> et_from_stage transition \<noteq> None \<or>
             et_to_stage transition \<noteq> PROPOSED \<or>
             et_transitioned_at transition \<noteq> ex_created_at experiment)
           (ConflictError ''experiment creation evidence is inconsistent''))) (\<lambda>_.
         pbind (save_strategy candidate) (\<lambda>_.
         modify (\<lambda>s. s\<lparr>s_experiments := dict_set (ex_id experiment) experiment (s_experiments s),
           s_experiment_transitions :=
             dict_set (ex_id experiment) [transition] (s_experiment_transitions s),
           s_experiment_transition_ids := insert (et_id transition) (s_experiment_transition_ids s),
           s_experiment_transition_keys :=
             dict_set (et_idempotency_key transition) transition
               (s_experiment_transition_keys s)\<rparr>))))))))"

definition evolution_experiment_of :: "'z store_scheme \<Rightarrow> uuid \<Rightarrow> evolution_experiment option" where
  "evolution_experiment_of s i = map_of (s_experiments s) i"

definition experiment_transition_history ::
  "'z store_scheme \<Rightarrow> uuid \<Rightarrow> experiment_transition_event list" where
  "experiment_transition_history s i =
     (case map_of (s_experiment_transitions s) i of None \<Rightarrow> [] | Some ts \<Rightarrow> ts)"

definition experiment_transition_by_idempotency ::
  "'z store_scheme \<Rightarrow> ustr \<Rightarrow> experiment_transition_event option" where
  "experiment_transition_by_idempotency s key = map_of (s_experiment_transition_keys s) (strip key)"

definition validate_activation ::
  "evolution_experiment \<Rightarrow> evolution_experiment \<Rightarrow> experiment_transition_event \<Rightarrow>
   strategy_activation option \<Rightarrow> ('z store_scheme, unit) prog" where
  "validate_activation current updated transition activation =
     (let promotion = (ex_stage current = CANARY \<and> ex_stage updated = PROMOTED);
          rollback = (ex_stage current = PROMOTED \<and> ex_stage updated = ROLLED_BACK)
      in if \<not> promotion \<and> \<not> rollback
         then lift_res (raise_if (activation \<noteq> None)
           (ConflictError ''this experiment transition cannot activate a strategy''))
         else pbind (gets s_strategy_activations) (\<lambda>activations.
           case activation of
             None \<Rightarrow> throw (ConflictError ''strategy activation evidence is missing or duplicated'')
           | Some act \<Rightarrow>
               pbind (lift_res (raise_if (sa_id act \<in> set (map sa_id activations))
                 (ConflictError ''strategy activation evidence is missing or duplicated''))) (\<lambda>_.
               let expected_kind = (if promotion then PROMOTION else ROLLBACK);
                   expected_target =
                     (if promotion then ex_candidate_id current else ex_baseline_id current);
                   expected_previous =
                     (if promotion then ex_baseline_id current else ex_candidate_id current)
               in pbind (asks active_strategy) (\<lambda>active.
                  pbind (gets s_strategies) (\<lambda>strategies.
                  lift_res (raise_if (sa_kind act \<noteq> expected_kind \<or>
                      sa_strategy_id act \<noteq> expected_target \<or>
                      sa_previous_id act \<noteq> Some expected_previous \<or>
                      sa_experiment_id act \<noteq> Some (ex_id current) \<or>
                      sa_activated_at act \<noteq> et_transitioned_at transition \<or>
                      sa_reason act \<noteq> et_reason transition \<or>
                      (case active of None \<Rightarrow> True | Some a \<Rightarrow> st_id a \<noteq> expected_previous) \<or>
                      map_of strategies expected_target = None)
                    (ConflictError ''strategy activation does not match experiment state'')))))))"

definition advance_evolution_experiment ::
  "evolution_experiment \<Rightarrow> experiment_transition_event \<Rightarrow> strategy_activation option \<Rightarrow>
   ('z store_scheme, unit) prog" where
  "advance_evolution_experiment experiment transition activation =
     pbind (gets id) (\<lambda>s.
     case map_of (s_experiments s) (ex_id experiment) of
       None \<Rightarrow> throw (ConflictError ''evolution experiment does not exist'')
     | Some current \<Rightarrow>
         pbind (lift_res (raise_if (ex_baseline_id experiment \<noteq> ex_baseline_id current \<or>
             ex_candidate_id experiment \<noteq> ex_candidate_id current \<or>
             ex_created_at experiment \<noteq> ex_created_at current \<or>
             et_id transition \<in> s_experiment_transition_ids s \<or>
             map_of (s_experiment_transition_keys s) (et_idempotency_key transition) \<noteq> None \<or>
             et_experiment_id transition \<noteq> ex_id current \<or>
             et_from_stage transition \<noteq> Some (ex_stage current) \<or>
             et_to_stage transition \<noteq> ex_stage experiment \<or>
             et_transitioned_at transition \<noteq> ex_updated_at experiment)
           (ConflictError ''experiment transition evidence is inconsistent''))) (\<lambda>_.
         pbind (lift_res (experiment_transition current (ex_stage experiment)
           (utc (et_transitioned_at transition)))) (\<lambda>expected.
         pbind (lift_res (raise_if (experiment \<noteq> expected)
           (ConflictError ''experiment transition does not match current state''))) (\<lambda>_.
         pbind (validate_activation current experiment transition activation) (\<lambda>_.
         pbind (case activation of None \<Rightarrow> return ()
           | Some act \<Rightarrow> modify (s_strategy_activations_update (\<lambda>as. as @ [act]))) (\<lambda>_.
         pbind (modify (s_experiments_update (dict_set (ex_id experiment) experiment))) (\<lambda>_.
         pbind (asks (\<lambda>s. dict_index (s_experiment_transitions s) (ex_id experiment))) (\<lambda>ts.
         modify (\<lambda>s. s\<lparr>
           s_experiment_transitions :=
             dict_set (ex_id experiment) (ts @ [transition]) (s_experiment_transitions s),
           s_experiment_transition_ids := insert (et_id transition) (s_experiment_transition_ids s),
           s_experiment_transition_keys :=
             dict_set (et_idempotency_key transition) transition
               (s_experiment_transition_keys s)\<rparr>)))))))))"

subsection \<open>Evidence\<close>

definition observation_by_idempotency :: "'z store_scheme \<Rightarrow> scope \<Rightarrow> ustr \<Rightarrow> observation option" where
  "observation_by_idempotency s sc key =
     (case map_of (s_observation_keys s) (sc, key) of
        None \<Rightarrow> None | Some i \<Rightarrow> map_of (s_observations s) i)"

definition save_ingestion ::
  "observation \<Rightarrow> evidence_span \<Rightarrow> candidate \<Rightarrow> ('z store_scheme, unit) prog" where
  "save_ingestion ob ev cand =
     (let key = (obs_scope ob, obs_idempotency_key ob) in
      pbind (gets s_observation_keys) (\<lambda>keys.
      pbind (lift_res (raise_if (map_of keys key \<noteq> None)
        (ConflictError ''observation idempotency key already exists''))) (\<lambda>_.
      pbind (lift_res (raise_if (ev_observation_id ev \<noteq> obs_id ob)
        (ConflictError ''evidence does not belong to observation''))) (\<lambda>_.
      pbind (lift_res (raise_if (cand_observation_id cand \<noteq> obs_id ob \<or> cand_scope cand \<noteq> obs_scope ob)
        (ConflictError ''candidate does not belong to observation scope''))) (\<lambda>_.
      modify (\<lambda>s. s\<lparr>s_observations := dict_set (obs_id ob) ob (s_observations s),
        s_observation_keys := dict_set key (obs_id ob) (s_observation_keys s),
        s_evidence := dict_set (ev_id ev) ev (s_evidence s),
        s_candidates := dict_set (cand_id cand) cand (s_candidates s),
        s_candidate_by_observation :=
          dict_set (obs_id ob) (cand_id cand) (s_candidate_by_observation s)\<rparr>))))))"

definition candidate_for_observation :: "'z store_scheme \<Rightarrow> scope \<Rightarrow> uuid \<Rightarrow> candidate option" where
  "candidate_for_observation s sc ob =
     (case map_of (s_candidate_by_observation s) ob of
        None \<Rightarrow> None
      | Some i \<Rightarrow> (case map_of (s_candidates s) i of
            None \<Rightarrow> None
          | Some c \<Rightarrow> if cand_scope c = sc then Some c else None))"

definition update_candidate :: "candidate \<Rightarrow> ('z store_scheme, unit) prog" where
  "update_candidate c =
     pbind (gets s_candidates) (\<lambda>cs.
     pbind (lift_res (raise_if (map_of cs (cand_id c) = None)
       (ConflictError ''candidate does not exist''))) (\<lambda>_.
     modify (s_candidates_update (dict_set (cand_id c) c))))"

subsection \<open>Beliefs\<close>

definition snapshot_of :: "'z store_scheme \<Rightarrow> scope \<Rightarrow> uuid \<Rightarrow> memory_snapshot option res" where
  "snapshot_of s sc record_id =
     (case map_of (s_records s) record_id of
        None \<Rightarrow> Inr None
      | Some r \<Rightarrow>
          if rec_scope r \<noteq> sc then Inr None
          else (case map_of (s_active_revision s) record_id of
             None \<Rightarrow> Inr None
           | Some revision_id \<Rightarrow>
               rbind (dict_index (s_revisions s) revision_id) (\<lambda>v.
               rbind (mk_memory_snapshot r v) (\<lambda>sn. Inr (Some sn)))))"

definition current_by_identity ::
  "(ustr \<Rightarrow> ustr) \<Rightarrow> 'z store_scheme \<Rightarrow> scope \<Rightarrow> ustr \<Rightarrow> context_sig \<Rightarrow> memory_snapshot option res" where
  "current_by_identity sha s sc key ctx =
     (case map_of (s_record_identity s) (sc, key, fingerprint sha ctx) of
        None \<Rightarrow> Inr None | Some record_id \<Rightarrow> snapshot_of s sc record_id)"

definition add_memory ::
  "(ustr \<Rightarrow> ustr) \<Rightarrow> memory_record \<Rightarrow> memory_revision \<Rightarrow> revision_transition \<Rightarrow>
   ('z store_scheme, unit) prog" where
  "add_memory sha r v tr =
     (let identity = (rec_scope r, rec_key r, fingerprint sha (rec_context r)) in
      pbind (gets s_record_identity) (\<lambda>ids.
      pbind (lift_res (raise_if (map_of ids identity \<noteq> None)
        (ConflictError ''memory identity already exists''))) (\<lambda>_.
      pbind (lift_res (raise_if (rev_record_id v \<noteq> rec_id r \<or> tr_record_id tr \<noteq> rec_id r)
        (ConflictError ''initial revision does not belong to record''))) (\<lambda>_.
      modify (\<lambda>s. s\<lparr>s_records := dict_set (rec_id r) r (s_records s),
        s_record_identity := dict_set identity (rec_id r) (s_record_identity s),
        s_revisions := dict_set (rev_id v) v (s_revisions s),
        s_revision_ids_by_record := dict_set (rec_id r) [rev_id v] (s_revision_ids_by_record s),
        s_active_revision := dict_set (rec_id r) (rev_id v) (s_active_revision s),
        s_transitions := s_transitions s @ [tr]\<rparr>)))))"

definition append_revision ::
  "uuid \<Rightarrow> memory_revision \<Rightarrow> revision_transition \<Rightarrow> ('z store_scheme, unit) prog" where
  "append_revision expected v tr =
     pbind (gets (\<lambda>s. map_of (s_active_revision s) (rev_record_id v))) (\<lambda>current_id.
     pbind (lift_res (raise_if (current_id \<noteq> Some expected)
       (ConflictError ''active revision changed concurrently''))) (\<lambda>_.
     pbind (asks (\<lambda>s. dict_index (s_revisions s) expected)) (\<lambda>current.
     pbind (lift_res (raise_if (rev_sequence v \<noteq> rev_sequence current + 1)
       (ConflictError ''revision sequence is not contiguous''))) (\<lambda>_.
     pbind (lift_res (raise_if (rev_supersedes v \<noteq> Some expected)
       (ConflictError ''revision does not supersede active revision''))) (\<lambda>_.
     pbind (lift_res (raise_if (tr_record_id tr \<noteq> rev_record_id v \<or>
         tr_from_revision_id tr \<noteq> Some expected \<or> tr_to_revision_id tr \<noteq> Some (rev_id v))
       (ConflictError ''revision transition is inconsistent''))) (\<lambda>_.
     pbind (modify (s_revisions_update (dict_set (rev_id v) v))) (\<lambda>_.
     pbind (asks (\<lambda>s. dict_index (s_revision_ids_by_record s) (rev_record_id v))) (\<lambda>ids.
     modify (\<lambda>s. s\<lparr>s_revision_ids_by_record :=
           dict_set (rev_record_id v) (ids @ [rev_id v]) (s_revision_ids_by_record s),
         s_active_revision := dict_set (rev_record_id v) (rev_id v) (s_active_revision s),
         s_transitions := s_transitions s @ [tr]\<rparr>)))))))))"

text \<open>\<open>[snapshot for record_id in active if (snapshot := \<dots>) is not None]\<close>\<close>

definition active_memories :: "'z store_scheme \<Rightarrow> scope \<Rightarrow> memory_snapshot list res" where
  "active_memories s sc =
     rbind (rmap (snapshot_of s sc) (dict_keys (s_active_revision s))) (\<lambda>snaps.
     Inr (concat (map (\<lambda>sn. case sn of None \<Rightarrow> [] | Some m \<Rightarrow> [m]) snaps)))"

definition revision_ids_of :: "'z store_scheme \<Rightarrow> uuid \<Rightarrow> uuid list" where
  "revision_ids_of s record_id =
     (case map_of (s_revision_ids_by_record s) record_id of None \<Rightarrow> [] | Some ids \<Rightarrow> ids)"

definition revision_key :: "memory_revision \<Rightarrow> int \<times> int \<times> ustr" where
  "revision_key v = (rev_recorded_at v, rev_sequence v, uuid_str (rev_id v))"

definition record_as_of ::
  "'z store_scheme \<Rightarrow> scope \<Rightarrow> instant \<Rightarrow> instant \<Rightarrow> memory_record \<Rightarrow> memory_snapshot list res" where
  "record_as_of s sc valid_at known_at r =
     (if rec_scope r \<noteq> sc \<or> rec_created_at r > known_at then Inr []
      else rbind (rmap (dict_index (s_revisions s)) (revision_ids_of s (rec_id r))) (\<lambda>vs.
        case py_max revision_key
            (filter (\<lambda>v. rev_recorded_at v \<le> known_at \<and> rev_valid_from v \<le> valid_at) vs) of
          None \<Rightarrow> Inr []
        | Some v \<Rightarrow> rbind (mk_memory_snapshot r v) (\<lambda>sn. Inr [sn])))"

definition snapshot_key :: "(ustr \<Rightarrow> ustr) \<Rightarrow> memory_snapshot \<Rightarrow> ustr \<times> ustr \<times> ustr" where
  "snapshot_key sha sn = (rec_key (snap_record sn), fingerprint sha (rec_context (snap_record sn)),
     uuid_str (rec_id (snap_record sn)))"

definition memories_as_of ::
  "(ustr \<Rightarrow> ustr) \<Rightarrow> 'z store_scheme \<Rightarrow> scope \<Rightarrow> instant \<Rightarrow> instant \<Rightarrow> memory_snapshot list res" where
  "memories_as_of sha s sc valid_at known_at =
     rbind (rmap (record_as_of s sc valid_at known_at) (dict_values (s_records s))) (\<lambda>snaps.
     Inr (sort_key (snapshot_key sha) (concat snaps)))"

definition revision_history :: "'z store_scheme \<Rightarrow> scope \<Rightarrow> uuid \<Rightarrow> memory_revision list res" where
  "revision_history s sc record_id =
     (case map_of (s_records s) record_id of
        None \<Rightarrow> Inr []
      | Some r \<Rightarrow> if rec_scope r \<noteq> sc then Inr []
          else rmap (dict_index (s_revisions s)) (revision_ids_of s record_id))"

subsection \<open>Experience\<close>

definition save_trace :: "recall_trace \<Rightarrow> ('z store_scheme, unit) prog" where
  "save_trace t = modify (s_traces_update (dict_set (rt_id t) t))"

definition trace_of :: "'z store_scheme \<Rightarrow> scope \<Rightarrow> uuid \<Rightarrow> recall_trace option" where
  "trace_of s sc i = (case map_of (s_traces s) i of
       None \<Rightarrow> None | Some t \<Rightarrow> if rt_scope t = sc then Some t else None)"

definition same_usage :: "memory_usage \<Rightarrow> memory_usage \<Rightarrow> bool" where
  "same_usage a b \<longleftrightarrow> us_trace_id a = us_trace_id b \<and> us_algorithm a = us_algorithm b \<and>
     us_budget_characters a = us_budget_characters b \<and>
     us_source_projection_sha256 a = us_source_projection_sha256 b \<and>
     us_delivered_context_sha256 a = us_delivered_context_sha256 b \<and>
     us_revision_ids a = us_revision_ids b"

definition save_usage :: "memory_usage \<Rightarrow> ('z store_scheme, memory_usage \<times> bool) prog" where
  "save_usage us =
     (let key = (us_scope us, us_idempotency_key us) in
      pbind (gets (\<lambda>s. map_of (s_usage_keys s) key)) (\<lambda>existing_id.
      case existing_id of
        Some i \<Rightarrow>
          pbind (asks (\<lambda>s. dict_index (s_usages s) i)) (\<lambda>existing.
          pbind (lift_res (raise_if (\<not> same_usage existing us)
            (ConflictError ''usage idempotency key was reused with different data''))) (\<lambda>_.
          return (existing, False)))
      | None \<Rightarrow>
          pbind (modify (\<lambda>s. s\<lparr>s_usages := dict_set (us_id us) us (s_usages s),
            s_usage_keys := dict_set key (us_id us) (s_usage_keys s)\<rparr>)) (\<lambda>_.
          return (us, True))))"

definition usage_of :: "'z store_scheme \<Rightarrow> scope \<Rightarrow> uuid \<Rightarrow> memory_usage option" where
  "usage_of s sc i = (case map_of (s_usages s) i of
       None \<Rightarrow> None | Some u \<Rightarrow> if us_scope u = sc then Some u else None)"

definition utility_for ::
  "(ustr \<Rightarrow> ustr) \<Rightarrow> 'z store_scheme \<Rightarrow> scope \<Rightarrow> uuid \<Rightarrow> context_sig \<Rightarrow> utility_estimate res" where
  "utility_for sha s sc revision_id ctx =
     rbind (mk_utility_estimate revision_id (fingerprint sha ctx) 0 0 None) (\<lambda>fresh.
     Inr (case map_of (s_utilities s) (sc, revision_id, fingerprint sha ctx) of
       None \<Rightarrow> fresh | Some u \<Rightarrow> u))"

definition outcomes_as_of ::
  "(ustr \<Rightarrow> ustr) \<Rightarrow> 'z store_scheme \<Rightarrow> scope \<Rightarrow> uuid \<Rightarrow> context_sig \<Rightarrow> instant \<Rightarrow>
   outcome_event list" where
  "outcomes_as_of sha s sc revision_id ctx known_at =
     filter (\<lambda>oc. oc_scope oc = sc \<and> oc_revision_id oc = revision_id \<and> oc_recorded_at oc \<le> known_at \<and>
       (case map_of (s_traces s) (oc_trace_id oc) of
          None \<Rightarrow> False
        | Some t \<Rightarrow> rt_scope t = sc \<and> fingerprint sha (rt_context t) = fingerprint sha ctx))
       (dict_values (s_outcomes s))"

definition utility_for_as_of ::
  "(ustr \<Rightarrow> ustr) \<Rightarrow> 'z store_scheme \<Rightarrow> scope \<Rightarrow> uuid \<Rightarrow> context_sig \<Rightarrow> instant \<Rightarrow>
   utility_estimate res" where
  "utility_for_as_of sha s sc revision_id ctx known_at =
     (let outcomes = outcomes_as_of sha s sc revision_id ctx known_at in
      mk_utility_estimate revision_id (fingerprint sha ctx)
        (py_sum (map (\<lambda>oc. fmul (success_value (oc_kind oc)) (oc_weight oc)) outcomes))
        (py_sum (map (\<lambda>oc. fmul (fsub 1 (success_value (oc_kind oc))) (oc_weight oc)) outcomes))
        (map_option utc (py_max id (map oc_occurred_at outcomes))))"

definition same_outcome :: "outcome_event \<Rightarrow> outcome_event \<Rightarrow> bool" where
  "same_outcome a b \<longleftrightarrow> oc_trace_id a = oc_trace_id b \<and> oc_usage_id a = oc_usage_id b \<and>
     oc_revision_id a = oc_revision_id b \<and> oc_kind a = oc_kind b \<and> oc_weight a = oc_weight b \<and>
     oc_note a = oc_note b"

definition apply_outcome ::
  "(ustr \<Rightarrow> ustr) \<Rightarrow> outcome_event \<Rightarrow> context_sig \<Rightarrow>
   ('z store_scheme, outcome_event \<times> utility_estimate \<times> bool) prog" where
  "apply_outcome sha oc ctx =
     (let idempotency = (oc_scope oc, oc_idempotency_key oc) in
      pbind (gets (\<lambda>s. map_of (s_outcome_keys s) idempotency)) (\<lambda>existing_id.
      case existing_id of
        Some i \<Rightarrow>
          pbind (asks (\<lambda>s. dict_index (s_outcomes s) i)) (\<lambda>existing.
          pbind (lift_res (raise_if (\<not> same_outcome existing oc)
            (ConflictError ''outcome idempotency key was reused with different data''))) (\<lambda>_.
          pbind (asks (\<lambda>s. utility_for sha s (oc_scope oc) (oc_revision_id existing) ctx)) (\<lambda>u.
          return (existing, u, False))))
      | None \<Rightarrow>
          pbind (asks (\<lambda>s. utility_for sha s (oc_scope oc) (oc_revision_id oc) ctx)) (\<lambda>current.
          pbind (lift_res (utility_updated current (success_value (oc_kind oc)) (oc_weight oc)
            (utc (oc_occurred_at oc)))) (\<lambda>updated.
          pbind (modify (\<lambda>s. s\<lparr>s_outcomes := dict_set (oc_id oc) oc (s_outcomes s),
            s_outcome_keys := dict_set idempotency (oc_id oc) (s_outcome_keys s),
            s_utilities := dict_set (oc_scope oc, oc_revision_id oc, fingerprint sha ctx) updated
              (s_utilities s)\<rparr>)) (\<lambda>_.
          return (oc, updated, True))))))"

subsection \<open>Erasure\<close>

definition ids_where :: "('v \<Rightarrow> bool) \<Rightarrow> ('v \<Rightarrow> uuid) \<Rightarrow> (uuid, 'v) dict \<Rightarrow> uuid set" where
  "ids_where P ident d = set (map ident (filter P (dict_values d)))"

text \<open>\<open>sum(len(f(d[i])) for i in ids)\<close>: the order of a set does not matter to the sum.\<close>

definition total_over :: "(uuid, 'v) dict \<Rightarrow> ('v \<Rightarrow> nat) \<Rightarrow> uuid list \<Rightarrow> int res" where
  "total_over d f ids = rbind (rmap (dict_index d) ids) (\<lambda>vs. Inr (int (sum_list (map f vs))))"

definition erase_scope :: "scope \<Rightarrow> ('z store_scheme, erasure_summary) prog" where
  "erase_scope sc =
     pbind (gets id) (\<lambda>s.
     let observation_ids = ids_where (\<lambda>v. obs_scope v = sc) obs_id (s_observations s);
         evidence_ids = ids_where (\<lambda>v. ev_observation_id v \<in> observation_ids) ev_id (s_evidence s);
         candidate_ids = ids_where (\<lambda>v. cand_scope v = sc) cand_id (s_candidates s);
         record_ids = ids_where (\<lambda>v. rec_scope v = sc) rec_id (s_records s);
         revision_ids = \<Union> ((\<lambda>r. set (revision_ids_of s r)) ` record_ids);
         trace_list = remdups (map rt_id (filter (\<lambda>v. rt_scope v = sc) (dict_values (s_traces s))));
         usage_list = remdups (map us_id (filter (\<lambda>v. us_scope v = sc) (dict_values (s_usages s))));
         outcome_ids = ids_where (\<lambda>v. oc_scope v = sc) oc_id (s_outcomes s);
         utility_keys = set (filter (\<lambda>k. fst k = sc) (dict_keys (s_utilities s)));
         transition_count =
           length (filter (\<lambda>t. tr_record_id t \<in> record_ids) (s_transitions s))
     in
     pbind (lift_res (total_over (s_traces s) (\<lambda>t. length (rt_items t)) trace_list)) (\<lambda>trace_items.
     pbind (lift_res (total_over (s_usages s) (\<lambda>u. length (us_revision_ids u)) usage_list)) (\<lambda>usage_items.
     pbind (modify (\<lambda>s. s\<lparr>
       s_observations := dict_pop_all observation_ids (s_observations s),
       s_candidate_by_observation := dict_pop_all observation_ids (s_candidate_by_observation s),
       s_observation_keys := dict_filter (\<lambda>k. fst k \<noteq> sc) (s_observation_keys s),
       s_evidence := dict_pop_all evidence_ids (s_evidence s),
       s_candidates := dict_pop_all candidate_ids (s_candidates s),
       s_records := dict_pop_all record_ids (s_records s),
       s_active_revision := dict_pop_all record_ids (s_active_revision s),
       s_revision_ids_by_record := dict_pop_all record_ids (s_revision_ids_by_record s),
       s_record_identity := dict_filter (\<lambda>k. fst k \<noteq> sc) (s_record_identity s),
       s_revisions := dict_pop_all revision_ids (s_revisions s),
       s_transitions := filter (\<lambda>t. tr_record_id t \<notin> record_ids) (s_transitions s),
       s_traces := dict_pop_all (set trace_list) (s_traces s),
       s_usages := dict_pop_all (set usage_list) (s_usages s),
       s_usage_keys := dict_filter (\<lambda>k. fst k \<noteq> sc) (s_usage_keys s),
       s_outcomes := dict_pop_all outcome_ids (s_outcomes s),
       s_outcome_keys := dict_filter (\<lambda>k. fst k \<noteq> sc) (s_outcome_keys s),
       s_utilities := dict_pop_all utility_keys (s_utilities s)\<rparr>)) (\<lambda>_.
     return \<lparr>sum_observations = int (card observation_ids), sum_evidence_spans = int (card evidence_ids),
       sum_candidates = int (card candidate_ids), sum_memory_records = int (card record_ids),
       sum_memory_revisions = int (card revision_ids),
       sum_revision_transitions = int transition_count,
       sum_recall_traces = int (length trace_list), sum_recall_trace_items = trace_items,
       sum_memory_usages = int (length usage_list), sum_memory_usage_items = usage_items,
       sum_outcomes = int (card outcome_ids), sum_utility_estimates = int (card utility_keys),
       sum_outbox_events = 0, sum_projection_jobs = 0, sum_projection_documents = 0\<rparr>))))"

definition observation_count :: "'z store_scheme \<Rightarrow> int" where
  "observation_count s = int (length (s_observations s))"

definition outcome_count :: "'z store_scheme \<Rightarrow> int" where
  "outcome_count s = int (length (s_outcomes s))"

definition transition_count :: "'z store_scheme \<Rightarrow> int" where
  "transition_count s = int (length (s_transitions s))"

end
