(* ===== verification/StoreInv.thy ===== *)
theory StoreInv
  imports Store
begin

text \<open>
  The invariant of the in-memory store, in three groups that follow its planes (evidence, beliefs,
  experience), the explicit effect of each successful write, and that each write keeps the
  invariant.
\<close>

subsection \<open>A table with an index by key\<close>

text \<open>
  Observations, records, usages and outcomes are kept the same way: a dictionary by id and an
  index from the scope-local key to the id, in step with each other.
\<close>

definition keyed ::
  "('v \<Rightarrow> uuid) \<Rightarrow> ('v \<Rightarrow> 'k) \<Rightarrow> (uuid, 'v) dict \<Rightarrow> ('k, uuid) dict \<Rightarrow> bool" where
  "keyed ident kf d ks \<longleftrightarrow> dict_ok d \<and> dict_ok ks \<and>
     (\<forall>i v. map_of d i = Some v \<longrightarrow> ident v = i \<and> map_of ks (kf v) = Some i) \<and>
     (\<forall>k i. map_of ks k = Some i \<longrightarrow> (\<exists>v. map_of d i = Some v \<and> kf v = k))"

lemma keyed_empty: "keyed ident kf [] []"
  by (simp add: keyed_def)

lemma keyedD:
  assumes "keyed ident kf d ks"
  shows "dict_ok d" "dict_ok ks"
    and "map_of d i = Some v \<Longrightarrow> ident v = i" "map_of d i = Some v \<Longrightarrow> map_of ks (kf v) = Some i"
    and "map_of ks k = Some i \<Longrightarrow> \<exists>v. map_of d i = Some v \<and> kf v = k"
  using assms by (auto simp: keyed_def)

lemma keyed_lookup:
  "keyed ident kf d ks \<Longrightarrow> map_of ks k = Some i \<Longrightarrow> map_of d i = Some v \<Longrightarrow> kf v = k \<and> ident v = i"
  unfolding keyed_def by (metis option.inject)

lemma keyed_insert:
  assumes "keyed ident kf d ks" "map_of d i = None" "map_of ks k = None" "ident v = i" "kf v = k"
  shows "keyed ident kf (dict_set i v d) (dict_set k i ks)"
  using assms unfolding keyed_def by (auto split: if_splits) (metis option.distinct(1))+

lemma keyed_erase:
  assumes k: "keyed ident kf d ks" and sc: "\<And>v. scope_of v = fst (kf v)"
  shows "keyed ident kf (dict_pop_all (ids_where (\<lambda>v. scope_of v = sc) ident d) d)
           (dict_filter (\<lambda>k. fst k \<noteq> sc) ks)"
proof -
  let ?X = "ids_where (\<lambda>v. scope_of v = sc) ident d"
  have erased: "i \<in> ?X \<longleftrightarrow> fst (kf v) = sc" if "map_of d i = Some v" for i v
    using k that by (auto simp: ids_where_def sc dict_values_iff keyed_def image_iff)
  have "ident v = i \<and> map_of (dict_filter (\<lambda>k. fst k \<noteq> sc) ks) (kf v) = Some i"
    if "map_of (dict_pop_all ?X d) i = Some v" for i v
    using that erased [of i v] keyedD(3,4) [OF k, of i v] by (simp split: if_splits)
  moreover have "\<exists>v. map_of (dict_pop_all ?X d) i = Some v \<and> kf v = key"
    if "map_of (dict_filter (\<lambda>k. fst k \<noteq> sc) ks) key = Some i" for key i
  proof -
    have key: "fst key \<noteq> sc" "map_of ks key = Some i" using that by (simp_all split: if_splits)
    from keyedD(5) [OF k key(2)] obtain v where "map_of d i = Some v" "kf v = key" by blast
    then show ?thesis using erased [of i v] key by simp
  qed
  ultimately show ?thesis using k unfolding keyed_def by simp
qed

lemma ids_where_iff:
  assumes "dict_ok d" "\<And>i v. map_of d i = Some v \<Longrightarrow> ident v = i"
  shows "i \<in> ids_where P ident d \<longleftrightarrow> (\<exists>v. map_of d i = Some v \<and> P v)"
  using assms by (auto simp: ids_where_def dict_values_iff image_iff)

subsection \<open>The invariant\<close>

definition evidence_ok :: "'z store_scheme \<Rightarrow> bool" where
  "evidence_ok s \<longleftrightarrow>
     keyed obs_id (\<lambda>ob. (obs_scope ob, obs_idempotency_key ob)) (s_observations s) (s_observation_keys s) \<and>
     dict_ok (s_evidence s) \<and> dict_ok (s_candidates s) \<and> dict_ok (s_candidate_by_observation s) \<and>
     (\<forall>i x. map_of (s_evidence s) i = Some x \<longrightarrow>
        ev_id x = i \<and> map_of (s_observations s) (ev_observation_id x) \<noteq> None) \<and>
     (\<forall>i c. map_of (s_candidates s) i = Some c \<longrightarrow> cand_id c = i \<and> candidate_ok c \<and>
        map_of (s_candidate_by_observation s) (cand_observation_id c) = Some i \<and>
        (\<exists>ob. map_of (s_observations s) (cand_observation_id c) = Some ob \<and>
           obs_scope ob = cand_scope c)) \<and>
     (\<forall>j i. map_of (s_candidate_by_observation s) j = Some i \<longrightarrow>
        (\<exists>c. map_of (s_candidates s) i = Some c \<and> cand_observation_id c = j))"

text \<open>The revisions of a record, in the order of their ids: numbered from 1, each superseding the last.\<close>

definition chain_ok :: "'z store_scheme \<Rightarrow> uuid \<Rightarrow> uuid list \<Rightarrow> bool" where
  "chain_ok s r ids \<longleftrightarrow> distinct ids \<and> ids \<noteq> [] \<and>
     (\<forall>n < length ids. \<exists>v. map_of (s_revisions s) (ids ! n) = Some v \<and> rev_id v = ids ! n \<and>
        rev_record_id v = r \<and> rev_sequence v = int n + 1 \<and> revision_ok v \<and>
        rev_supersedes v = (if n = 0 then None else Some (ids ! (n - 1))))"

definition belief_plane_ok :: "(ustr \<Rightarrow> ustr) \<Rightarrow> 'z store_scheme \<Rightarrow> bool" where
  "belief_plane_ok sha s \<longleftrightarrow>
     keyed rec_id (\<lambda>r. (rec_scope r, rec_key r, fingerprint sha (rec_context r)))
       (s_records s) (s_record_identity s) \<and>
     dict_ok (s_revisions s) \<and> dict_ok (s_revision_ids_by_record s) \<and> dict_ok (s_active_revision s) \<and>
     (\<forall>r. map_of (s_records s) r \<noteq> None \<longleftrightarrow> map_of (s_revision_ids_by_record s) r \<noteq> None) \<and>
     (\<forall>r. map_of (s_records s) r \<noteq> None \<longleftrightarrow> map_of (s_active_revision s) r \<noteq> None) \<and>
     (\<forall>r ids. map_of (s_revision_ids_by_record s) r = Some ids \<longrightarrow>
        chain_ok s r ids \<and> map_of (s_active_revision s) r = Some (last ids)) \<and>
     (\<forall>i v. map_of (s_revisions s) i = Some v \<longrightarrow>
        (\<exists>ids. map_of (s_revision_ids_by_record s) (rev_record_id v) = Some ids \<and> i \<in> set ids)) \<and>
     (\<forall>r. map tr_to_revision_id (filter (\<lambda>t. tr_record_id t = r) (s_transitions s)) =
        map Some (revision_ids_of s r))"

text \<open>An outcome is attributed to a recalled item, or to a revision a usage receipt cites.\<close>

definition usage_attributed :: "'z store_scheme \<Rightarrow> memory_usage \<Rightarrow> bool" where
  "usage_attributed s us \<longleftrightarrow> us_revision_ids us \<noteq> [] \<and>
     (\<exists>t. map_of (s_traces s) (us_trace_id us) = Some t \<and> rt_scope t = us_scope us \<and>
        set (us_revision_ids us) \<subseteq> set (map it_revision_id (rt_items t)))"

definition outcome_attributed :: "'z store_scheme \<Rightarrow> outcome_event \<Rightarrow> bool" where
  "outcome_attributed s oc \<longleftrightarrow>
     (\<exists>t. map_of (s_traces s) (oc_trace_id oc) = Some t \<and> rt_scope t = oc_scope oc \<and>
        (case oc_usage_id oc of
           None \<Rightarrow> oc_revision_id oc \<in> set (map it_revision_id (rt_items t))
         | Some u \<Rightarrow> (\<exists>us. map_of (s_usages s) u = Some us \<and> us_scope us = oc_scope oc \<and>
             us_trace_id us = oc_trace_id oc \<and> oc_revision_id oc \<in> set (us_revision_ids us))))"

definition experience_ok :: "'z store_scheme \<Rightarrow> bool" where
  "experience_ok s \<longleftrightarrow>
     dict_ok (s_traces s) \<and> dict_ok (s_utilities s) \<and>
     keyed us_id (\<lambda>u. (us_scope u, us_idempotency_key u)) (s_usages s) (s_usage_keys s) \<and>
     keyed oc_id (\<lambda>u. (oc_scope u, oc_idempotency_key u)) (s_outcomes s) (s_outcome_keys s) \<and>
     (\<forall>i t. map_of (s_traces s) i = Some t \<longrightarrow> rt_id t = i \<and> trace_ok t) \<and>
     (\<forall>i u. map_of (s_usages s) i = Some u \<longrightarrow> usage_attributed s u) \<and>
     (\<forall>i u. map_of (s_outcomes s) i = Some u \<longrightarrow> outcome_attributed s u \<and> 0 < oc_weight u) \<and>
     (\<forall>k u. map_of (s_utilities s) k = Some u \<longrightarrow> utility_ok u)"

definition store_ok :: "(ustr \<Rightarrow> ustr) \<Rightarrow> 'z store_scheme \<Rightarrow> bool" where
  "store_ok sha s \<longleftrightarrow> evidence_ok s \<and> belief_plane_ok sha s \<and> experience_ok s"

lemma empty_store_ok: "store_ok sha empty_store"
  by (simp add: store_ok_def evidence_ok_def belief_plane_ok_def experience_ok_def empty_store_def
      keyed_empty revision_ids_of_def)

text \<open>Each group reads its own fields only.\<close>

lemma evidence_ok_cong:
  assumes "evidence_ok s" "s_observations t = s_observations s" "s_observation_keys t = s_observation_keys s"
    "s_evidence t = s_evidence s" "s_candidates t = s_candidates s"
    "s_candidate_by_observation t = s_candidate_by_observation s"
  shows "evidence_ok t"
  using assms by (simp add: evidence_ok_def)

lemma belief_plane_ok_cong:
  assumes "belief_plane_ok sha s" "s_records t = s_records s" "s_record_identity t = s_record_identity s"
    "s_revisions t = s_revisions s" "s_revision_ids_by_record t = s_revision_ids_by_record s"
    "s_active_revision t = s_active_revision s" "s_transitions t = s_transitions s"
  shows "belief_plane_ok sha t"
  using assms(1) unfolding belief_plane_ok_def chain_ok_def revision_ids_of_def assms(2-7) .

lemma experience_ok_cong:
  assumes "experience_ok s" "s_traces t = s_traces s" "s_usages t = s_usages s"
    "s_usage_keys t = s_usage_keys s" "s_outcomes t = s_outcomes s"
    "s_outcome_keys t = s_outcome_keys s" "s_utilities t = s_utilities s"
  shows "experience_ok t"
proof -
  have "usage_attributed t u = usage_attributed s u" for u
    using assms(2) by (simp add: usage_attributed_def)
  moreover have "outcome_attributed t u = outcome_attributed s u" for u
    unfolding outcome_attributed_def assms(2,3) ..
  ultimately show ?thesis using assms by (simp add: experience_ok_def)
qed

subsection \<open>Ingestion\<close>

definition ingested :: "observation \<Rightarrow> evidence_span \<Rightarrow> candidate \<Rightarrow> 'z store_scheme \<Rightarrow> 'z store_scheme" where
  "ingested ob ev cand s = s\<lparr>s_observations := dict_set (obs_id ob) ob (s_observations s),
     s_observation_keys :=
       dict_set (obs_scope ob, obs_idempotency_key ob) (obs_id ob) (s_observation_keys s),
     s_evidence := dict_set (ev_id ev) ev (s_evidence s),
     s_candidates := dict_set (cand_id cand) cand (s_candidates s),
     s_candidate_by_observation :=
       dict_set (obs_id ob) (cand_id cand) (s_candidate_by_observation s)\<rparr>"

lemma save_ingestion_eval:
  assumes "map_of (s_observation_keys s) (obs_scope ob, obs_idempotency_key ob) = None"
    "ev_observation_id ev = obs_id ob" "cand_observation_id cand = obs_id ob"
    "cand_scope cand = obs_scope ob"
  shows "save_ingestion ob ev cand s = (Inr (), ingested ob ev cand s)"
  using assms by (simp add: save_ingestion_def Let_def ingested_def raise_if_def)

lemma save_ingestion_conflict:
  "map_of (s_observation_keys s) (obs_scope ob, obs_idempotency_key ob) \<noteq> None \<Longrightarrow>
   save_ingestion ob ev cand s =
     (Inl (ConflictError ''observation idempotency key already exists''), s)"
  by (simp add: save_ingestion_def Let_def raise_if_def)

lemma ingested_evidence_ok:
  assumes ok: "evidence_ok s"
    and new: "map_of (s_observations s) (obs_id ob) = None" "map_of (s_candidates s) (cand_id cand) = None"
    and key: "map_of (s_observation_keys s) (obs_scope ob, obs_idempotency_key ob) = None"
    and rel: "ev_observation_id ev = obs_id ob" "cand_observation_id cand = obs_id ob"
      "cand_scope cand = obs_scope ob" and c: "candidate_ok cand"
  shows "evidence_ok (ingested ob ev cand s)"
proof -
  have "keyed obs_id (\<lambda>ob. (obs_scope ob, obs_idempotency_key ob))
      (s_observations (ingested ob ev cand s)) (s_observation_keys (ingested ob ev cand s))"
    using ok new key by (simp add: ingested_def evidence_ok_def keyed_insert)
  moreover have "ev_id x = i \<and> map_of (s_observations (ingested ob ev cand s)) (ev_observation_id x) \<noteq> None"
    if "map_of (s_evidence (ingested ob ev cand s)) i = Some x" for i x
    using that ok rel by (auto simp: ingested_def evidence_ok_def split: if_splits)
  moreover have "\<exists>c. map_of (s_candidates (ingested ob ev cand s)) i = Some c \<and> cand_observation_id c = j"
    if "map_of (s_candidate_by_observation (ingested ob ev cand s)) j = Some i" for i j
  proof (cases "j = obs_id ob")
    case True
    then show ?thesis using that rel by (simp add: ingested_def)
  next
    case False
    then have "map_of (s_candidate_by_observation s) j = Some i" using that by (simp add: ingested_def)
    then obtain c where "map_of (s_candidates s) i = Some c" "cand_observation_id c = j"
      using ok unfolding evidence_ok_def by blast
    then show ?thesis using new(2) by (auto simp: ingested_def)
  qed
  moreover have "cand_id x = i \<and> candidate_ok x \<and>
      map_of (s_candidate_by_observation (ingested ob ev cand s)) (cand_observation_id x) = Some i \<and>
      (\<exists>y. map_of (s_observations (ingested ob ev cand s)) (cand_observation_id x) = Some y \<and>
         obs_scope y = cand_scope x)"
    if "map_of (s_candidates (ingested ob ev cand s)) i = Some x" for i x
  proof (cases "i = cand_id cand")
    case True
    then show ?thesis using that rel c by (simp add: ingested_def)
  next
    case False
    then have x: "map_of (s_candidates s) i = Some x" using that by (simp add: ingested_def)
    with ok have "cand_observation_id x \<noteq> obs_id ob"
      using new(1) unfolding evidence_ok_def by (metis option.distinct(1))
    with x ok show ?thesis unfolding evidence_ok_def by (simp add: ingested_def)
  qed
  moreover have "dict_ok (s_evidence (ingested ob ev cand s)) \<and> dict_ok (s_candidates (ingested ob ev cand s)) \<and>
      dict_ok (s_candidate_by_observation (ingested ob ev cand s))"
    using ok by (simp add: ingested_def evidence_ok_def)
  ultimately show ?thesis unfolding evidence_ok_def by blast
qed

subsection \<open>Beliefs\<close>

definition added ::
  "(ustr \<Rightarrow> ustr) \<Rightarrow> memory_record \<Rightarrow> memory_revision \<Rightarrow> revision_transition \<Rightarrow>
   'z store_scheme \<Rightarrow> 'z store_scheme" where
  "added sha r v tr s = s\<lparr>s_records := dict_set (rec_id r) r (s_records s),
     s_record_identity :=
       dict_set (rec_scope r, rec_key r, fingerprint sha (rec_context r)) (rec_id r) (s_record_identity s),
     s_revisions := dict_set (rev_id v) v (s_revisions s),
     s_revision_ids_by_record := dict_set (rec_id r) [rev_id v] (s_revision_ids_by_record s),
     s_active_revision := dict_set (rec_id r) (rev_id v) (s_active_revision s),
     s_transitions := s_transitions s @ [tr]\<rparr>"

lemma add_memory_eval:
  assumes "map_of (s_record_identity s) (rec_scope r, rec_key r, fingerprint sha (rec_context r)) = None"
    "rev_record_id v = rec_id r" "tr_record_id tr = rec_id r"
  shows "add_memory sha r v tr s = (Inr (), added sha r v tr s)"
  using assms by (simp add: add_memory_def Let_def added_def raise_if_def)

definition appended ::
  "memory_revision \<Rightarrow> revision_transition \<Rightarrow> 'z store_scheme \<Rightarrow> 'z store_scheme" where
  "appended v tr s = s\<lparr>s_revisions := dict_set (rev_id v) v (s_revisions s),
     s_revision_ids_by_record :=
       dict_set (rev_record_id v) (revision_ids_of s (rev_record_id v) @ [rev_id v])
         (s_revision_ids_by_record s),
     s_active_revision := dict_set (rev_record_id v) (rev_id v) (s_active_revision s),
     s_transitions := s_transitions s @ [tr]\<rparr>"

lemma append_revision_eval:
  assumes ok: "belief_plane_ok sha s"
    and cur: "map_of (s_active_revision s) (rev_record_id v) = Some (rev_id cv)"
      "map_of (s_revisions s) (rev_id cv) = Some cv"
    and v: "rev_sequence v = rev_sequence cv + 1" "rev_supersedes v = Some (rev_id cv)"
      "tr_record_id tr = rev_record_id v" "tr_from_revision_id tr = Some (rev_id cv)"
      "tr_to_revision_id tr = Some (rev_id v)"
  shows "append_revision (rev_id cv) v tr s = (Inr (), appended v tr s)"
proof -
  have "map_of (s_revision_ids_by_record s) (rev_record_id v) \<noteq> None"
    using ok cur(1) unfolding belief_plane_ok_def by (metis option.distinct(1))
  then obtain ids where "map_of (s_revision_ids_by_record s) (rev_record_id v) = Some ids" by blast
  then show ?thesis
    using cur v by (simp add: append_revision_def raise_if_def appended_def revision_ids_of_def)
qed

lemma chain_ok_other:
  "chain_ok s r ids \<Longrightarrow> i \<notin> set ids \<Longrightarrow> s_revisions t = dict_set i v (s_revisions s) \<Longrightarrow> chain_ok t r ids"
  unfolding chain_ok_def by (auto simp: nth_mem)

lemma chain_ok_snoc:
  assumes ch: "chain_ok s r ids" and new: "rev_id v \<notin> set ids"
    and t: "s_revisions t = dict_set (rev_id v) v (s_revisions s)"
    and v: "rev_record_id v = r" "rev_sequence v = int (length ids) + 1"
      "rev_supersedes v = Some (last ids)" "revision_ok v"
  shows "chain_ok t r (ids @ [rev_id v])"
proof -
  have old: "chain_ok t r ids" by (rule chain_ok_other [OF ch new t])
  have "ids \<noteq> []" using ch by (simp add: chain_ok_def)
  with old new v show ?thesis
    by (auto simp: chain_ok_def t nth_append less_Suc_eq last_conv_nth)
qed

lemma chain_ok_last:
  assumes "chain_ok s r ids"
  obtains v where "map_of (s_revisions s) (last ids) = Some v" "rev_id v = last ids"
    "rev_record_id v = r" "rev_sequence v = int (length ids)" "revision_ok v"
proof -
  have n: "length ids - 1 < length ids" "ids \<noteq> []" "0 < length ids"
    using assms by (auto simp: chain_ok_def)
  have "\<exists>v. map_of (s_revisions s) (ids ! (length ids - 1)) = Some v \<and> rev_id v = ids ! (length ids - 1) \<and>
      rev_record_id v = r \<and> rev_sequence v = int (length ids - 1) + 1 \<and> revision_ok v"
    using assms n(1) unfolding chain_ok_def by blast
  then show thesis using n that by (auto simp: last_conv_nth)
qed

lemma chain_ok_single:
  "s_revisions t = dict_set (rev_id v) v (s_revisions s) \<Longrightarrow> rev_sequence v = 1 \<Longrightarrow>
   rev_supersedes v = None \<Longrightarrow> revision_ok v \<Longrightarrow> chain_ok t (rev_record_id v) [rev_id v]"
  by (simp add: chain_ok_def)

lemma belief_plane_okD:
  assumes "belief_plane_ok sha s"
  shows "keyed rec_id (\<lambda>r. (rec_scope r, rec_key r, fingerprint sha (rec_context r)))
       (s_records s) (s_record_identity s)"
    and "map_of (s_records s) r \<noteq> None \<longleftrightarrow> map_of (s_revision_ids_by_record s) r \<noteq> None"
    and "map_of (s_records s) r \<noteq> None \<longleftrightarrow> map_of (s_active_revision s) r \<noteq> None"
    and "map_of (s_revision_ids_by_record s) r = Some ids \<Longrightarrow>
       chain_ok s r ids \<and> map_of (s_active_revision s) r = Some (last ids)"
    and "map_of (s_revisions s) i = Some v \<Longrightarrow>
       \<exists>ids. map_of (s_revision_ids_by_record s) (rev_record_id v) = Some ids \<and> i \<in> set ids"
    and "map tr_to_revision_id (filter (\<lambda>t. tr_record_id t = r) (s_transitions s)) =
       map Some (revision_ids_of s r)"
  using assms unfolding belief_plane_ok_def by blast+

lemma chain_ids_exist:
  "chain_ok s r ids \<Longrightarrow> i \<in> set ids \<Longrightarrow> \<exists>v. map_of (s_revisions s) i = Some v \<and> rev_record_id v = r \<and> rev_id v = i"
  by (auto simp: chain_ok_def in_set_conv_nth)

lemma chain_new:
  "belief_plane_ok sha s \<Longrightarrow> map_of (s_revision_ids_by_record s) r = Some ids \<Longrightarrow>
   map_of (s_revisions s) i = None \<Longrightarrow> i \<notin> set ids"
  using chain_ids_exist [of s r ids i] belief_plane_okD(4) [of sha s r ids] by auto

text \<open>Putting one record's revision list in place of another keeps the plane's invariant.\<close>

lemma added_belief_ok:
  assumes ok: "belief_plane_ok sha s"
    and new: "map_of (s_records s) (rec_id r) = None" "map_of (s_revisions s) (rev_id v) = None"
    and key: "map_of (s_record_identity s) (rec_scope r, rec_key r, fingerprint sha (rec_context r)) = None"
    and v: "rev_record_id v = rec_id r" "rev_sequence v = 1" "rev_supersedes v = None" "revision_ok v"
    and tr: "tr_record_id tr = rec_id r" "tr_to_revision_id tr = Some (rev_id v)"
  shows "belief_plane_ok sha (added sha r v tr s)"
proof -
  let ?t = "added sha r v tr s"
  note D = belief_plane_okD [OF ok]
  have revs: "s_revisions ?t = dict_set (rev_id v) v (s_revisions s)" by (simp add: added_def)
  have none: "map_of (s_revision_ids_by_record s) (rec_id r) = None" using D(2) [of "rec_id r"] new by simp
  have "keyed rec_id (\<lambda>r. (rec_scope r, rec_key r, fingerprint sha (rec_context r)))
      (s_records ?t) (s_record_identity ?t)"
    using D(1) new key by (simp add: added_def keyed_insert)
  moreover have "dict_ok (s_revisions ?t) \<and> dict_ok (s_revision_ids_by_record ?t) \<and> dict_ok (s_active_revision ?t)"
    using ok by (simp add: added_def belief_plane_ok_def)
  moreover have "\<forall>q. map_of (s_records ?t) q \<noteq> None \<longleftrightarrow> map_of (s_revision_ids_by_record ?t) q \<noteq> None"
    "\<forall>q. map_of (s_records ?t) q \<noteq> None \<longleftrightarrow> map_of (s_active_revision ?t) q \<noteq> None"
    using D(2,3) by (auto simp: added_def)
  moreover have "chain_ok ?t q ids \<and> map_of (s_active_revision ?t) q = Some (last ids)"
    if q: "map_of (s_revision_ids_by_record ?t) q = Some ids" for q ids
  proof (cases "q = rec_id r")
    case True
    then have "ids = [rev_id v]" using q by (simp add: added_def)
    moreover have "chain_ok ?t (rec_id r) [rev_id v]" using chain_ok_single [OF revs v(2,3,4)] v(1) by simp
    ultimately show ?thesis using True by (simp add: added_def)
  next
    case False
    then have old: "map_of (s_revision_ids_by_record s) q = Some ids" using q by (simp add: added_def)
    then show ?thesis
      using D(4) [OF old] chain_ok_other [OF _ chain_new [OF ok old new(2)] revs] False
      by (simp add: added_def)
  qed
  moreover have "\<exists>ids. map_of (s_revision_ids_by_record ?t) (rev_record_id x) = Some ids \<and> i \<in> set ids"
    if i: "map_of (s_revisions ?t) i = Some x" for i x
  proof (cases "i = rev_id v")
    case True
    then show ?thesis using i v by (simp add: added_def)
  next
    case False
    then have "map_of (s_revisions s) i = Some x" using i by (simp add: added_def)
    from D(5) [OF this] none show ?thesis by (auto simp: added_def)
  qed
  moreover have "map tr_to_revision_id (filter (\<lambda>t. tr_record_id t = q) (s_transitions ?t)) =
      map Some (revision_ids_of ?t q)" for q
    using D(6) [of q] tr none by (auto simp: added_def revision_ids_of_def)
  ultimately show ?thesis unfolding belief_plane_ok_def by blast
qed

lemma appended_belief_ok:
  assumes ok: "belief_plane_ok sha s"
    and ids: "map_of (s_revision_ids_by_record s) (rev_record_id v) = Some ids"
    and new: "map_of (s_revisions s) (rev_id v) = None"
    and v: "rev_sequence v = int (length ids) + 1" "rev_supersedes v = Some (last ids)" "revision_ok v"
    and tr: "tr_record_id tr = rev_record_id v" "tr_to_revision_id tr = Some (rev_id v)"
  shows "belief_plane_ok sha (appended v tr s)"
proof -
  let ?t = "appended v tr s"
  note D = belief_plane_okD [OF ok]
  have revs: "s_revisions ?t = dict_set (rev_id v) v (s_revisions s)" by (simp add: appended_def)
  have r: "map_of (s_records s) (rev_record_id v) \<noteq> None" using D(2) [of "rev_record_id v"] ids by simp
  have "keyed rec_id (\<lambda>r. (rec_scope r, rec_key r, fingerprint sha (rec_context r)))
      (s_records ?t) (s_record_identity ?t)" using D(1) by (simp add: appended_def)
  moreover have "dict_ok (s_revisions ?t) \<and> dict_ok (s_revision_ids_by_record ?t) \<and> dict_ok (s_active_revision ?t)"
    using ok by (simp add: appended_def belief_plane_ok_def)
  moreover have "\<forall>q. map_of (s_records ?t) q \<noteq> None \<longleftrightarrow> map_of (s_revision_ids_by_record ?t) q \<noteq> None"
    "\<forall>q. map_of (s_records ?t) q \<noteq> None \<longleftrightarrow> map_of (s_active_revision ?t) q \<noteq> None"
    using D(2,3) r by (auto simp: appended_def)
  moreover have "chain_ok ?t q js \<and> map_of (s_active_revision ?t) q = Some (last js)"
    if q: "map_of (s_revision_ids_by_record ?t) q = Some js" for q js
  proof (cases "q = rev_record_id v")
    case True
    then have "js = ids @ [rev_id v]" using q ids by (simp add: appended_def revision_ids_of_def)
    moreover have "chain_ok ?t (rev_record_id v) (ids @ [rev_id v])"
      using D(4) [OF ids] chain_new [OF ok ids new] revs v by (intro chain_ok_snoc) simp_all
    ultimately show ?thesis using True by (simp add: appended_def)
  next
    case False
    then have old: "map_of (s_revision_ids_by_record s) q = Some js" using q by (simp add: appended_def)
    then show ?thesis
      using D(4) [OF old] chain_ok_other [OF _ chain_new [OF ok old new] revs] False
      by (simp add: appended_def)
  qed
  moreover have "\<exists>js. map_of (s_revision_ids_by_record ?t) (rev_record_id x) = Some js \<and> i \<in> set js"
    if i: "map_of (s_revisions ?t) i = Some x" for i x
  proof (cases "i = rev_id v")
    case True
    then show ?thesis using i by (simp add: appended_def)
  next
    case False
    then have "map_of (s_revisions s) i = Some x" using i by (simp add: appended_def)
    from D(5) [OF this] ids show ?thesis by (auto simp: appended_def revision_ids_of_def)
  qed
  moreover have "map tr_to_revision_id (filter (\<lambda>t. tr_record_id t = q) (s_transitions ?t)) =
      map Some (revision_ids_of ?t q)" for q
    using D(6) [of q] tr ids by (auto simp: appended_def revision_ids_of_def)
  ultimately show ?thesis unfolding belief_plane_ok_def by blast
qed

end
