(* ===== verification/StoreErase.thy ===== *)
theory StoreErase
  imports StoreInv
begin

text \<open>
  The remaining writes of the store: candidates, traces, usage receipts and outcomes, with the
  idempotent insertion the two receipt tables share, and the erasure of a scope.
\<close>

subsection \<open>Accepting a candidate\<close>

definition with_candidate :: "candidate \<Rightarrow> 'z store_scheme \<Rightarrow> 'z store_scheme" where
  "with_candidate c s = s\<lparr>s_candidates := dict_set (cand_id c) c (s_candidates s)\<rparr>"

lemma with_candidate_simps:
  "s_observations (with_candidate c s) = s_observations s"
  "s_observation_keys (with_candidate c s) = s_observation_keys s"
  "s_evidence (with_candidate c s) = s_evidence s"
  "s_candidates (with_candidate c s) = dict_set (cand_id c) c (s_candidates s)"
  "s_candidate_by_observation (with_candidate c s) = s_candidate_by_observation s"
  by (simp_all add: with_candidate_def)

lemma update_candidate_eval:
  "map_of (s_candidates s) (cand_id c) \<noteq> None \<Longrightarrow> update_candidate c s = (Inr (), with_candidate c s)"
  by (auto simp: update_candidate_def raise_if_def with_candidate_def)

lemma update_candidate_ok:
  assumes ok: "evidence_ok s" and old: "map_of (s_candidates s) (cand_id c) = Some b"
    and same: "cand_observation_id c = cand_observation_id b" "cand_scope c = cand_scope b"
    and c: "candidate_ok c"
  shows "evidence_ok (with_candidate c s)"
proof -
  have "cand_id x = i \<and> candidate_ok x \<and>
      map_of (s_candidate_by_observation s) (cand_observation_id x) = Some i \<and>
      (\<exists>ob. map_of (s_observations s) (cand_observation_id x) = Some ob \<and> obs_scope ob = cand_scope x)"
    if "map_of (dict_set (cand_id c) c (s_candidates s)) i = Some x" for i x
  proof (cases "i = cand_id c")
    case True
    with that old ok have "x = c" "cand_id b = i \<and>
        map_of (s_candidate_by_observation s) (cand_observation_id b) = Some i \<and>
        (\<exists>ob. map_of (s_observations s) (cand_observation_id b) = Some ob \<and> obs_scope ob = cand_scope b)"
      unfolding evidence_ok_def by simp_all
    then show ?thesis using True same c by simp
  next
    case False
    then have "map_of (s_candidates s) i = Some x" using that by simp
    then show ?thesis using ok unfolding evidence_ok_def by blast
  qed
  moreover have "\<exists>x. map_of (dict_set (cand_id c) c (s_candidates s)) i = Some x \<and> cand_observation_id x = j"
    if j: "map_of (s_candidate_by_observation s) j = Some i" for i j
  proof -
    from ok j obtain x where "map_of (s_candidates s) i = Some x" "cand_observation_id x = j"
      unfolding evidence_ok_def by blast
    then show ?thesis using old same by (cases "i = cand_id c") simp_all
  qed
  moreover have "dict_ok (dict_set (cand_id c) c (s_candidates s))" using ok by (simp add: evidence_ok_def)
  ultimately show ?thesis using ok unfolding evidence_ok_def with_candidate_simps by blast
qed

subsection \<open>Traces and receipts\<close>

definition with_trace :: "recall_trace \<Rightarrow> 'z store_scheme \<Rightarrow> 'z store_scheme" where
  "with_trace t s = s\<lparr>s_traces := dict_set (rt_id t) t (s_traces s)\<rparr>"

lemma save_trace_eval: "save_trace t s = (Inr (), with_trace t s)"
  by (simp add: save_trace_def with_trace_def)

lemma map_leD: "m \<subseteq>\<^sub>m n \<Longrightarrow> m k = Some v \<Longrightarrow> n k = Some v"
  by (metis domI map_le_def)

lemma usage_attributed_mono:
  "usage_attributed s u \<Longrightarrow> map_of (s_traces s) \<subseteq>\<^sub>m map_of (s_traces t) \<Longrightarrow> usage_attributed t u"
  unfolding usage_attributed_def by (meson map_leD)

lemma outcome_attributed_mono:
  assumes "outcome_attributed s u" "map_of (s_traces s) \<subseteq>\<^sub>m map_of (s_traces t)"
    "map_of (s_usages s) \<subseteq>\<^sub>m map_of (s_usages t)"
  shows "outcome_attributed t u"
proof (cases "oc_usage_id u")
  case None
  then show ?thesis using assms(1,2) unfolding outcome_attributed_def by (auto dest: map_leD)
next
  case (Some i)
  then show ?thesis using assms unfolding outcome_attributed_def by (fastforce dest: map_leD)
qed

lemma map_le_set: "map_of d k = None \<Longrightarrow> map_of d \<subseteq>\<^sub>m map_of (dict_set k v d)"
  by (auto simp: map_le_def)

lemma with_trace_ok:
  assumes ok: "experience_ok s" and new: "map_of (s_traces s) (rt_id t) = None" and t: "trace_ok t"
  shows "experience_ok (with_trace t s)"
proof -
  have le: "map_of (s_traces s) \<subseteq>\<^sub>m map_of (s_traces (with_trace t s))"
    "map_of (s_usages s) \<subseteq>\<^sub>m map_of (s_usages (with_trace t s))"
    using new by (simp_all add: with_trace_def map_le_set)
  have "usage_attributed (with_trace t s) u" if "map_of (s_usages s) i = Some u" for i u
    using ok that usage_attributed_mono [OF _ le(1)] unfolding experience_ok_def by blast
  moreover have "outcome_attributed (with_trace t s) u \<and> 0 < oc_weight u"
    if "map_of (s_outcomes s) i = Some u" for i u
    using ok that outcome_attributed_mono [OF _ le] unfolding experience_ok_def by blast
  moreover have "rt_id x = i \<and> trace_ok x" if "map_of (s_traces (with_trace t s)) i = Some x" for i x
    using that ok t by (auto simp: with_trace_def experience_ok_def split: if_splits)
  moreover have "dict_ok (s_traces (with_trace t s))" "s_usages (with_trace t s) = s_usages s"
    "s_outcomes (with_trace t s) = s_outcomes s" "s_usage_keys (with_trace t s) = s_usage_keys s"
    "s_outcome_keys (with_trace t s) = s_outcome_keys s" "s_utilities (with_trace t s) = s_utilities s"
    using ok by (simp_all add: with_trace_def experience_ok_def)
  ultimately show ?thesis using ok unfolding experience_ok_def by presburger
qed

subsection \<open>Idempotent insertion\<close>

text \<open>
  What the two receipt tables promise: a key is taken once; giving the same data again returns the
  stored entry and changes nothing, different data is refused and changes nothing.
\<close>

locale idempotent_log =
  fixes inv :: "'s \<Rightarrow> bool"
    and new :: "'s \<Rightarrow> 'v \<Rightarrow> bool"
    and put :: "'v \<Rightarrow> ('s, 'r) prog"
    and stored :: "'s \<Rightarrow> 'k \<Rightarrow> 'v option"
    and key :: "'v \<Rightarrow> 'k"
    and same :: "'v \<Rightarrow> 'v \<Rightarrow> bool"
    and entry :: "'r \<Rightarrow> 'v"
    and created :: "'r \<Rightarrow> bool"
  assumes put_new: "inv s \<Longrightarrow> new s v \<Longrightarrow> stored s (key v) = None \<Longrightarrow>
      \<exists>r t. put v s = (Inr r, t) \<and> entry r = v \<and> created r \<and>
        stored t = (stored s)(key v \<mapsto> v)"
    and put_old: "inv s \<Longrightarrow> stored s (key v) = Some x \<Longrightarrow> same x v \<Longrightarrow>
      \<exists>r. put v s = (Inr r, s) \<and> entry r = x \<and> \<not> created r"
    and put_conflict: "inv s \<Longrightarrow> stored s (key v) = Some x \<Longrightarrow> \<not> same x v \<Longrightarrow>
      \<exists>m. put v s = (Inl (ConflictError m), s)"
begin

lemma put_cases:
  assumes "inv s" "new s v"
  obtains (new) r t where "stored s (key v) = None" "put v s = (Inr r, t)" "entry r = v" "created r"
      "stored t = (stored s)(key v \<mapsto> v)"
  | (old) x r where "stored s (key v) = Some x" "same x v" "put v s = (Inr r, s)" "entry r = x" "\<not> created r"
  | (conflict) x m where "stored s (key v) = Some x" "\<not> same x v" "put v s = (Inl (ConflictError m), s)"
  using put_new [OF assms] put_old [OF assms(1)] put_conflict [OF assms(1)] by (metis option.exhaust)

text \<open>The first entry under a key is never replaced.\<close>

lemma first_stays:
  "inv s \<Longrightarrow> new s v \<Longrightarrow> stored s k = Some x \<Longrightarrow> put v s = (r, t) \<Longrightarrow> stored t k = Some x"
  by (erule (1) put_cases) auto

lemma replay:
  assumes "inv s" "new s v" "put v s = (Inr r, t)" "inv t" "key w = key v" "same (entry r) w"
  shows "\<exists>q. put w t = (Inr q, t) \<and> entry q = entry r \<and> \<not> created q"
proof -
  have "stored t (key v) = Some (entry r)" using assms(1-3) by (auto elim!: put_cases)
  with put_old [OF assms(4), of w "entry r"] assms(5,6) show ?thesis by simp
qed

lemma different_refused:
  assumes "inv s" "new s v" "put v s = (Inr r, t)" "inv t" "key w = key v" "\<not> same (entry r) w"
  shows "\<exists>m. put w t = (Inl (ConflictError m), t)"
proof -
  have "stored t (key v) = Some (entry r)" using assms(1-3) by (auto elim!: put_cases)
  with put_conflict [OF assms(4), of w "entry r"] assms(5,6) show ?thesis by simp
qed

end

text \<open>The entry an index leads to.\<close>

definition indexed :: "(uuid, 'v) dict \<Rightarrow> ('k, uuid) dict \<Rightarrow> 'k \<Rightarrow> 'v option" where
  "indexed d ks k = (case map_of ks k of None \<Rightarrow> None | Some i \<Rightarrow> map_of d i)"

definition usage_by_key :: "'z store_scheme \<Rightarrow> scope \<times> ustr \<Rightarrow> memory_usage option" where
  "usage_by_key s = indexed (s_usages s) (s_usage_keys s)"

definition outcome_by_key :: "'z store_scheme \<Rightarrow> scope \<times> ustr \<Rightarrow> outcome_event option" where
  "outcome_by_key s = indexed (s_outcomes s) (s_outcome_keys s)"

lemma indexed_None: "keyed ident kf d ks \<Longrightarrow> indexed d ks k = None \<longleftrightarrow> map_of ks k = None"
  using keyedD(5) [of ident kf d ks k] by (auto simp: indexed_def split: option.split)

lemma indexed_Some: "indexed d ks k = Some v \<longleftrightarrow> (\<exists>i. map_of ks k = Some i \<and> map_of d i = Some v)"
  by (auto simp: indexed_def split: option.splits)

lemma indexed_insert:
  assumes "keyed ident kf d ks" "map_of d i = None"
  shows "indexed (dict_set i v d) (dict_set k i ks) = (indexed d ks)(k \<mapsto> v)"
proof
  fix j
  have "map_of ks j \<noteq> Some i" using assms unfolding keyed_def by (metis option.distinct(1))
  then show "indexed (dict_set i v d) (dict_set k i ks) j = ((indexed d ks)(k \<mapsto> v)) j"
    by (auto simp: indexed_def split: option.split)
qed

definition with_usage :: "memory_usage \<Rightarrow> 'z store_scheme \<Rightarrow> 'z store_scheme" where
  "with_usage us s = s\<lparr>s_usages := dict_set (us_id us) us (s_usages s),
     s_usage_keys := dict_set (us_scope us, us_idempotency_key us) (us_id us) (s_usage_keys s)\<rparr>"

lemma save_usage_new:
  "map_of (s_usage_keys s) (us_scope us, us_idempotency_key us) = None \<Longrightarrow>
   save_usage us s = (Inr (us, True), with_usage us s)"
  by (simp add: save_usage_def Let_def with_usage_def)

lemma save_usage_old:
  "map_of (s_usage_keys s) (us_scope us, us_idempotency_key us) = Some i \<Longrightarrow>
   map_of (s_usages s) i = Some x \<Longrightarrow>
   save_usage us s = (if same_usage x us then Inr (x, False)
     else Inl (ConflictError ''usage idempotency key was reused with different data''), s)"
  by (simp add: save_usage_def Let_def raise_if_def)

interpretation usage_log: idempotent_log experience_ok
  "\<lambda>s us. map_of (s_usages s) (us_id us) = None" save_usage usage_by_key
  "\<lambda>us. (us_scope us, us_idempotency_key us)" same_usage fst snd
proof unfold_locales
  fix s :: "'a store_scheme" and v :: memory_usage
  assume ok: "experience_ok s" and new: "map_of (s_usages s) (us_id v) = None"
    and key: "usage_by_key s (us_scope v, us_idempotency_key v) = None"
  have k: "keyed us_id (\<lambda>u. (us_scope u, us_idempotency_key u)) (s_usages s) (s_usage_keys s)"
    using ok by (simp add: experience_ok_def)
  have none: "map_of (s_usage_keys s) (us_scope v, us_idempotency_key v) = None"
    using key indexed_None [OF k] by (simp add: usage_by_key_def)
  have "usage_by_key (with_usage v s) = (usage_by_key s)((us_scope v, us_idempotency_key v) \<mapsto> v)"
    using indexed_insert [OF k new] by (simp add: usage_by_key_def with_usage_def)
  with save_usage_new [OF none] show "\<exists>r t. save_usage v s = (Inr r, t) \<and> fst r = v \<and> snd r \<and>
      usage_by_key t = (usage_by_key s)((us_scope v, us_idempotency_key v) \<mapsto> v)" by force
qed (auto simp: usage_by_key_def indexed_Some save_usage_old)

definition with_outcome ::
  "(ustr \<Rightarrow> ustr) \<Rightarrow> outcome_event \<Rightarrow> context_sig \<Rightarrow> utility_estimate \<Rightarrow> 'z store_scheme \<Rightarrow>
   'z store_scheme" where
  "with_outcome sha oc ctx u s = s\<lparr>s_outcomes := dict_set (oc_id oc) oc (s_outcomes s),
     s_outcome_keys := dict_set (oc_scope oc, oc_idempotency_key oc) (oc_id oc) (s_outcome_keys s),
     s_utilities := dict_set (oc_scope oc, oc_revision_id oc, fingerprint sha ctx) u (s_utilities s)\<rparr>"

lemma utility_for_ok:
  assumes "experience_ok s"
  obtains u where "utility_for sha s sc rv ctx = Inr u" "utility_ok u"
proof -
  obtain fresh where f: "mk_utility_estimate rv (fingerprint sha ctx) 0 0 None = Inr fresh" "utility_ok fresh"
    by (auto simp: res_simps utility_ok_def)
  show thesis
  proof (cases "map_of (s_utilities s) (sc, rv, fingerprint sha ctx)")
    case None
    then show thesis using f that by (simp add: utility_for_def)
  next
    case (Some u)
    then have "utility_ok u" using assms by (simp add: experience_ok_def)
    then show thesis using f that Some by (simp add: utility_for_def)
  qed
qed

lemma apply_outcome_new:
  assumes ok: "experience_ok s" and w: "0 < oc_weight oc"
    and key: "map_of (s_outcome_keys s) (oc_scope oc, oc_idempotency_key oc) = None"
  obtains u where "utility_ok u"
    "apply_outcome sha oc ctx s = (Inr (oc, u, True), with_outcome sha oc ctx u s)"
proof -
  obtain c where c: "utility_for sha s (oc_scope oc) (oc_revision_id oc) ctx = Inr c" "utility_ok c"
    by (rule utility_for_ok [OF ok])
  have "in_unit (success_value (oc_kind oc))" using success_value_cases [of "oc_kind oc"] by (auto simp: in_unit_def)
  from utility_updated_Inr [OF c(2) this w] obtain u where
    u: "utility_updated c (success_value (oc_kind oc)) (oc_weight oc) (utc (oc_occurred_at oc)) = Inr u" by blast
  moreover have "utility_ok u"
    using u unfolding utility_updated_def by (auto simp: rbind_Inr dest: mk_utility_estimate_ok)
  ultimately show thesis using that c key by (simp add: apply_outcome_def Let_def with_outcome_def)
qed

lemma apply_outcome_old:
  assumes ok: "experience_ok s"
    and key: "map_of (s_outcome_keys s) (oc_scope oc, oc_idempotency_key oc) = Some i"
      "map_of (s_outcomes s) i = Some x"
  shows "same_outcome x oc \<Longrightarrow> \<exists>u. apply_outcome sha oc ctx s = (Inr (x, u, False), s)"
    and "\<not> same_outcome x oc \<Longrightarrow> \<exists>m. apply_outcome sha oc ctx s = (Inl (ConflictError m), s)"
proof -
  obtain u where "utility_for sha s (oc_scope oc) (oc_revision_id x) ctx = Inr u"
    by (rule utility_for_ok [OF ok])
  then show "same_outcome x oc \<Longrightarrow> \<exists>u. apply_outcome sha oc ctx s = (Inr (x, u, False), s)"
    and "\<not> same_outcome x oc \<Longrightarrow> \<exists>m. apply_outcome sha oc ctx s = (Inl (ConflictError m), s)"
    using key by (simp_all add: apply_outcome_def Let_def raise_if_def)
qed

interpretation outcome_log: idempotent_log experience_ok
  "\<lambda>s oc. map_of (s_outcomes s) (oc_id oc) = None \<and> 0 < oc_weight oc" "\<lambda>oc. apply_outcome sha oc ctx"
  outcome_by_key "\<lambda>oc. (oc_scope oc, oc_idempotency_key oc)" same_outcome fst "\<lambda>r. snd (snd r)"
  for sha ctx
proof unfold_locales
  fix s :: "'a store_scheme" and v :: outcome_event
  assume ok: "experience_ok s" and new: "map_of (s_outcomes s) (oc_id v) = None \<and> 0 < oc_weight v"
    and key: "outcome_by_key s (oc_scope v, oc_idempotency_key v) = None"
  have k: "keyed oc_id (\<lambda>u. (oc_scope u, oc_idempotency_key u)) (s_outcomes s) (s_outcome_keys s)"
    using ok by (simp add: experience_ok_def)
  have none: "map_of (s_outcome_keys s) (oc_scope v, oc_idempotency_key v) = None"
    using key indexed_None [OF k] by (simp add: outcome_by_key_def)
  obtain u where u: "apply_outcome sha v ctx s = (Inr (v, u, True), with_outcome sha v ctx u s)"
    using apply_outcome_new [OF ok _ none] new by metis
  have "outcome_by_key (with_outcome sha v ctx u s) =
      (outcome_by_key s)((oc_scope v, oc_idempotency_key v) \<mapsto> v)"
    using indexed_insert [OF k] new by (simp add: outcome_by_key_def with_outcome_def)
  with u show "\<exists>r t. apply_outcome sha v ctx s = (Inr r, t) \<and> fst r = v \<and> snd (snd r) \<and>
      outcome_by_key t = (outcome_by_key s)((oc_scope v, oc_idempotency_key v) \<mapsto> v)" by force
next
  fix s :: "'a store_scheme" and v x :: outcome_event
  assume ok: "experience_ok s" and key: "outcome_by_key s (oc_scope v, oc_idempotency_key v) = Some x"
  then obtain i where i: "map_of (s_outcome_keys s) (oc_scope v, oc_idempotency_key v) = Some i"
    "map_of (s_outcomes s) i = Some x" by (auto simp: outcome_by_key_def indexed_Some)
  show "same_outcome x v \<Longrightarrow> \<exists>r. apply_outcome sha v ctx s = (Inr r, s) \<and> fst r = x \<and> \<not> snd (snd r)"
    using apply_outcome_old(1) [OF ok i] by force
  show "\<not> same_outcome x v \<Longrightarrow> \<exists>m. apply_outcome sha v ctx s = (Inl (ConflictError m), s)"
    using apply_outcome_old(2) [OF ok i] by blast
qed

end
