(* ===== verification/Erasure.thy ===== *)
theory Erasure
  imports StoreErase
begin

text \<open>
  Erasing a scope: what is left in each table, that nothing of the scope remains, that nothing of
  another scope is touched, that the invariant of the store holds afterwards and that the summary
  counts what was removed.
\<close>

subsection \<open>Receipts keep the invariant\<close>

lemma with_usage_ok:
  assumes ok: "experience_ok s" and new: "map_of (s_usages s) (us_id us) = None"
    and key: "map_of (s_usage_keys s) (us_scope us, us_idempotency_key us) = None"
    and att: "usage_attributed s us"
  shows "experience_ok (with_usage us s)"
proof -
  let ?t = "with_usage us s"
  have le: "map_of (s_traces s) \<subseteq>\<^sub>m map_of (s_traces ?t)" "map_of (s_usages s) \<subseteq>\<^sub>m map_of (s_usages ?t)"
    using new by (simp_all add: with_usage_def map_le_set)
  have "usage_attributed ?t u" if "map_of (s_usages ?t) i = Some u" for i u
  proof -
    have "usage_attributed s u"
      using that ok att by (auto simp: with_usage_def experience_ok_def split: if_splits)
    then show ?thesis by (rule usage_attributed_mono [OF _ le(1)])
  qed
  moreover have "outcome_attributed ?t u \<and> 0 < oc_weight u" if "map_of (s_outcomes s) i = Some u" for i u
    using ok that outcome_attributed_mono [OF _ le] unfolding experience_ok_def by blast
  moreover have "keyed us_id (\<lambda>u. (us_scope u, us_idempotency_key u)) (s_usages ?t) (s_usage_keys ?t)"
    using ok new key by (simp add: with_usage_def experience_ok_def keyed_insert)
  moreover have "s_traces ?t = s_traces s" "s_outcomes ?t = s_outcomes s" "s_outcome_keys ?t = s_outcome_keys s"
    "s_utilities ?t = s_utilities s" by (simp_all add: with_usage_def)
  ultimately show ?thesis using ok unfolding experience_ok_def by presburger
qed

lemma with_outcome_ok:
  assumes ok: "experience_ok s" and new: "map_of (s_outcomes s) (oc_id oc) = None"
    and key: "map_of (s_outcome_keys s) (oc_scope oc, oc_idempotency_key oc) = None"
    and att: "outcome_attributed s oc" "0 < oc_weight oc" and u: "utility_ok u"
  shows "experience_ok (with_outcome sha oc ctx u s)"
proof -
  let ?t = "with_outcome sha oc ctx u s"
  have le: "map_of (s_traces s) \<subseteq>\<^sub>m map_of (s_traces ?t)" "map_of (s_usages s) \<subseteq>\<^sub>m map_of (s_usages ?t)"
    by (simp_all add: with_outcome_def)
  have "outcome_attributed ?t x \<and> 0 < oc_weight x" if "map_of (s_outcomes ?t) i = Some x" for i x
  proof -
    have "outcome_attributed s x \<and> 0 < oc_weight x"
      using that ok att by (auto simp: with_outcome_def experience_ok_def split: if_splits)
    then show ?thesis using outcome_attributed_mono [OF _ le] by blast
  qed
  moreover have "usage_attributed ?t x" if "map_of (s_usages s) i = Some x" for i x
    using ok that usage_attributed_mono [OF _ le(1)] unfolding experience_ok_def by blast
  moreover have "keyed oc_id (\<lambda>u. (oc_scope u, oc_idempotency_key u)) (s_outcomes ?t) (s_outcome_keys ?t)"
    using ok new key by (simp add: with_outcome_def experience_ok_def keyed_insert)
  moreover have "utility_ok x" if "map_of (s_utilities ?t) k = Some x" for k x
    using that ok u by (cases k) (auto simp: with_outcome_def experience_ok_def split: if_splits)
  moreover have "s_traces ?t = s_traces s" "s_usages ?t = s_usages s" "s_usage_keys ?t = s_usage_keys s"
    "dict_ok (s_utilities ?t)" using ok by (simp_all add: with_outcome_def experience_ok_def)
  ultimately show ?thesis using ok unfolding experience_ok_def by presburger
qed

subsection \<open>What is left\<close>

definition erased_records :: "scope \<Rightarrow> 'z store_scheme \<Rightarrow> uuid set" where
  "erased_records sc s = ids_where (\<lambda>v. rec_scope v = sc) rec_id (s_records s)"

definition erased_observations :: "scope \<Rightarrow> 'z store_scheme \<Rightarrow> uuid set" where
  "erased_observations sc s = ids_where (\<lambda>v. obs_scope v = sc) obs_id (s_observations s)"

definition erased :: "scope \<Rightarrow> 'z store_scheme \<Rightarrow> 'z store_scheme" where
  "erased sc s =
     (let obs = erased_observations sc s; recs = erased_records sc s in s\<lparr>
       s_observations := dict_pop_all obs (s_observations s),
       s_candidate_by_observation := dict_pop_all obs (s_candidate_by_observation s),
       s_observation_keys := dict_filter (\<lambda>k. fst k \<noteq> sc) (s_observation_keys s),
       s_evidence := dict_pop_all (ids_where (\<lambda>v. ev_observation_id v \<in> obs) ev_id (s_evidence s)) (s_evidence s),
       s_candidates := dict_pop_all (ids_where (\<lambda>v. cand_scope v = sc) cand_id (s_candidates s)) (s_candidates s),
       s_records := dict_pop_all recs (s_records s),
       s_active_revision := dict_pop_all recs (s_active_revision s),
       s_revision_ids_by_record := dict_pop_all recs (s_revision_ids_by_record s),
       s_record_identity := dict_filter (\<lambda>k. fst k \<noteq> sc) (s_record_identity s),
       s_revisions := dict_pop_all (\<Union> ((\<lambda>r. set (revision_ids_of s r)) ` recs)) (s_revisions s),
       s_transitions := filter (\<lambda>t. tr_record_id t \<notin> recs) (s_transitions s),
       s_traces := dict_pop_all (ids_where (\<lambda>v. rt_scope v = sc) rt_id (s_traces s)) (s_traces s),
       s_usages := dict_pop_all (ids_where (\<lambda>v. us_scope v = sc) us_id (s_usages s)) (s_usages s),
       s_usage_keys := dict_filter (\<lambda>k. fst k \<noteq> sc) (s_usage_keys s),
       s_outcomes := dict_pop_all (ids_where (\<lambda>v. oc_scope v = sc) oc_id (s_outcomes s)) (s_outcomes s),
       s_outcome_keys := dict_filter (\<lambda>k. fst k \<noteq> sc) (s_outcome_keys s),
       s_utilities := dict_pop_all (set (filter (\<lambda>k. fst k = sc) (dict_keys (s_utilities s)))) (s_utilities s)\<rparr>)"

lemma pop_ids_where:
  assumes "dict_ok d" "\<And>i v. map_of d i = Some v \<Longrightarrow> ident v = i"
  shows "map_of (dict_pop_all (ids_where P ident d) d) i = Some v \<longleftrightarrow> map_of d i = Some v \<and> \<not> P v"
  using ids_where_iff [of d ident i P] assms by auto

lemma erased_fields:
  "s_observations (erased sc s) = dict_pop_all (erased_observations sc s) (s_observations s)"
  "s_candidate_by_observation (erased sc s) = dict_pop_all (erased_observations sc s) (s_candidate_by_observation s)"
  "s_observation_keys (erased sc s) = dict_filter (\<lambda>k. fst k \<noteq> sc) (s_observation_keys s)"
  "s_evidence (erased sc s) = dict_pop_all
     (ids_where (\<lambda>v. ev_observation_id v \<in> erased_observations sc s) ev_id (s_evidence s)) (s_evidence s)"
  "s_candidates (erased sc s) = dict_pop_all (ids_where (\<lambda>v. cand_scope v = sc) cand_id (s_candidates s)) (s_candidates s)"
  "s_records (erased sc s) = dict_pop_all (erased_records sc s) (s_records s)"
  "s_active_revision (erased sc s) = dict_pop_all (erased_records sc s) (s_active_revision s)"
  "s_revision_ids_by_record (erased sc s) = dict_pop_all (erased_records sc s) (s_revision_ids_by_record s)"
  "s_record_identity (erased sc s) = dict_filter (\<lambda>k. fst k \<noteq> sc) (s_record_identity s)"
  "s_revisions (erased sc s) =
     dict_pop_all (\<Union> ((\<lambda>r. set (revision_ids_of s r)) ` erased_records sc s)) (s_revisions s)"
  "s_transitions (erased sc s) = filter (\<lambda>t. tr_record_id t \<notin> erased_records sc s) (s_transitions s)"
  "s_traces (erased sc s) = dict_pop_all (ids_where (\<lambda>v. rt_scope v = sc) rt_id (s_traces s)) (s_traces s)"
  "s_usages (erased sc s) = dict_pop_all (ids_where (\<lambda>v. us_scope v = sc) us_id (s_usages s)) (s_usages s)"
  "s_usage_keys (erased sc s) = dict_filter (\<lambda>k. fst k \<noteq> sc) (s_usage_keys s)"
  "s_outcomes (erased sc s) = dict_pop_all (ids_where (\<lambda>v. oc_scope v = sc) oc_id (s_outcomes s)) (s_outcomes s)"
  "s_outcome_keys (erased sc s) = dict_filter (\<lambda>k. fst k \<noteq> sc) (s_outcome_keys s)"
  "s_utilities (erased sc s) =
     dict_pop_all (set (filter (\<lambda>k. fst k = sc) (dict_keys (s_utilities s)))) (s_utilities s)"
  by (simp_all add: erased_def Let_def)

lemma erased_observations_iff:
  "evidence_ok s \<Longrightarrow> i \<in> erased_observations sc s \<longleftrightarrow> (\<exists>v. map_of (s_observations s) i = Some v \<and> obs_scope v = sc)"
  unfolding erased_observations_def
  by (rule ids_where_iff) (auto simp: evidence_ok_def keyed_def)

lemma erased_records_iff:
  "belief_plane_ok sha s \<Longrightarrow> i \<in> erased_records sc s \<longleftrightarrow> (\<exists>v. map_of (s_records s) i = Some v \<and> rec_scope v = sc)"
  unfolding erased_records_def
  by (rule ids_where_iff) (auto simp: belief_plane_ok_def keyed_def)

lemma erased_observation_lookup:
  "evidence_ok s \<Longrightarrow> map_of (s_observations (erased sc s)) i = Some v \<longleftrightarrow>
     map_of (s_observations s) i = Some v \<and> obs_scope v \<noteq> sc"
  by (auto simp: erased_fields erased_observations_iff)

lemma erased_evidence_lookup:
  "evidence_ok s \<Longrightarrow> map_of (s_evidence (erased sc s)) i = Some v \<longleftrightarrow>
     map_of (s_evidence s) i = Some v \<and> ev_observation_id v \<notin> erased_observations sc s"
  unfolding erased_fields by (rule pop_ids_where) (auto simp: evidence_ok_def)

lemma erased_candidate_lookup:
  "evidence_ok s \<Longrightarrow> map_of (s_candidates (erased sc s)) i = Some v \<longleftrightarrow>
     map_of (s_candidates s) i = Some v \<and> cand_scope v \<noteq> sc"
  unfolding erased_fields by (rule pop_ids_where) (auto simp: evidence_ok_def)

lemma erased_record_lookup:
  "belief_plane_ok sha s \<Longrightarrow> map_of (s_records (erased sc s)) i = Some v \<longleftrightarrow>
     map_of (s_records s) i = Some v \<and> rec_scope v \<noteq> sc"
  by (auto simp: erased_fields erased_records_iff)

lemma erased_trace_lookup:
  "experience_ok s \<Longrightarrow> map_of (s_traces (erased sc s)) i = Some v \<longleftrightarrow>
     map_of (s_traces s) i = Some v \<and> rt_scope v \<noteq> sc"
  unfolding erased_fields by (rule pop_ids_where) (auto simp: experience_ok_def)

lemma erased_usage_lookup:
  "experience_ok s \<Longrightarrow> map_of (s_usages (erased sc s)) i = Some v \<longleftrightarrow>
     map_of (s_usages s) i = Some v \<and> us_scope v \<noteq> sc"
  unfolding erased_fields by (rule pop_ids_where) (auto simp: experience_ok_def keyed_def)

lemma erased_outcome_lookup:
  "experience_ok s \<Longrightarrow> map_of (s_outcomes (erased sc s)) i = Some v \<longleftrightarrow>
     map_of (s_outcomes s) i = Some v \<and> oc_scope v \<noteq> sc"
  unfolding erased_fields by (rule pop_ids_where) (auto simp: experience_ok_def keyed_def)

lemma erased_utility_lookup:
  "map_of (s_utilities (erased sc s)) k = (if fst k = sc then None else map_of (s_utilities s) k)"
  by (auto simp: erased_fields dict_keys_iff)

text \<open>A revision goes with its record.\<close>

lemma erased_revision_lookup:
  assumes ok: "belief_plane_ok sha s"
  shows "map_of (s_revisions (erased sc s)) i = Some v \<longleftrightarrow>
     map_of (s_revisions s) i = Some v \<and> rev_record_id v \<notin> erased_records sc s"
proof -
  note D = belief_plane_okD [OF ok]
  have gone: "i \<in> \<Union> ((\<lambda>r. set (revision_ids_of s r)) ` R) \<longleftrightarrow> rev_record_id v \<in> R"
    if "map_of (s_revisions s) i = Some v" for R
  proof
    assume "i \<in> \<Union> ((\<lambda>r. set (revision_ids_of s r)) ` R)"
    then obtain r where r: "r \<in> R" "i \<in> set (revision_ids_of s r)" by blast
    then obtain ids where "map_of (s_revision_ids_by_record s) r = Some ids" "i \<in> set ids"
      by (cases "map_of (s_revision_ids_by_record s) r") (auto simp: revision_ids_of_def)
    from chain_ids_exist [OF conjunct1 [OF D(4) [OF this(1)]] this(2)] that r(1)
    show "rev_record_id v \<in> R" by auto
  next
    assume "rev_record_id v \<in> R"
    with D(5) [OF that] show "i \<in> \<Union> ((\<lambda>r. set (revision_ids_of s r)) ` R)"
      by (force simp: revision_ids_of_def)
  qed
  show ?thesis unfolding erased_fields dict_get_pop_all using gone [of "erased_records sc s"] by auto
qed

subsection \<open>The invariant after an erasure\<close>

lemma erased_evidence_ok:
  assumes ok: "evidence_ok s"
  shows "evidence_ok (erased sc s)"
proof -
  let ?t = "erased sc s"
  have k: "keyed obs_id (\<lambda>ob. (obs_scope ob, obs_idempotency_key ob)) (s_observations s) (s_observation_keys s)"
    using ok by (simp add: evidence_ok_def)
  have "keyed obs_id (\<lambda>ob. (obs_scope ob, obs_idempotency_key ob)) (s_observations ?t) (s_observation_keys ?t)"
    unfolding erased_fields erased_observations_def by (rule keyed_erase [OF k]) simp
  moreover have "dict_ok (s_evidence ?t) \<and> dict_ok (s_candidates ?t) \<and> dict_ok (s_candidate_by_observation ?t)"
    using ok by (simp add: erased_fields evidence_ok_def)
  moreover have "ev_id x = i \<and> map_of (s_observations ?t) (ev_observation_id x) \<noteq> None"
    if x: "map_of (s_evidence ?t) i = Some x" for i x
  proof -
    have old: "map_of (s_evidence s) i = Some x" "ev_observation_id x \<notin> erased_observations sc s"
      using x erased_evidence_lookup [OF ok] by blast+
    with ok show ?thesis by (auto simp: evidence_ok_def erased_fields)
  qed
  moreover have "cand_id c = i \<and> candidate_ok c \<and>
      map_of (s_candidate_by_observation ?t) (cand_observation_id c) = Some i \<and>
      (\<exists>ob. map_of (s_observations ?t) (cand_observation_id c) = Some ob \<and> obs_scope ob = cand_scope c)"
    if c: "map_of (s_candidates ?t) i = Some c" for i c
  proof -
    have old: "map_of (s_candidates s) i = Some c" "cand_scope c \<noteq> sc"
      using c erased_candidate_lookup [OF ok] by blast+
    with ok obtain ob where ob: "cand_id c = i" "candidate_ok c"
      "map_of (s_candidate_by_observation s) (cand_observation_id c) = Some i"
      "map_of (s_observations s) (cand_observation_id c) = Some ob" "obs_scope ob = cand_scope c"
      unfolding evidence_ok_def by blast
    then have "cand_observation_id c \<notin> erased_observations sc s"
      using old by (auto simp: erased_observations_iff [OF ok])
    with ob show ?thesis by (simp add: erased_fields)
  qed
  moreover have "\<exists>c. map_of (s_candidates ?t) i = Some c \<and> cand_observation_id c = j"
    if j: "map_of (s_candidate_by_observation ?t) j = Some i" for i j
  proof -
    have old: "map_of (s_candidate_by_observation s) j = Some i" "j \<notin> erased_observations sc s"
      using j by (auto simp: erased_fields split: if_splits)
    with ok obtain c where c: "map_of (s_candidates s) i = Some c" "cand_observation_id c = j"
      unfolding evidence_ok_def by blast
    with ok obtain ob where "map_of (s_observations s) j = Some ob" "obs_scope ob = cand_scope c"
      unfolding evidence_ok_def by blast
    with old(2) have "cand_scope c \<noteq> sc" by (auto simp: erased_observations_iff [OF ok])
    with c show ?thesis using erased_candidate_lookup [OF ok] by blast
  qed
  ultimately show ?thesis unfolding evidence_ok_def by blast
qed

lemma erased_belief_ok:
  assumes ok: "belief_plane_ok sha s"
  shows "belief_plane_ok sha (erased sc s)"
proof -
  let ?t = "erased sc s" and ?R = "erased_records sc s"
  note D = belief_plane_okD [OF ok]
  have "keyed rec_id (\<lambda>r. (rec_scope r, rec_key r, fingerprint sha (rec_context r)))
      (s_records ?t) (s_record_identity ?t)"
    unfolding erased_fields erased_records_def by (rule keyed_erase [OF D(1)]) simp
  moreover have "dict_ok (s_revisions ?t) \<and> dict_ok (s_revision_ids_by_record ?t) \<and> dict_ok (s_active_revision ?t)"
    using ok by (simp add: erased_fields belief_plane_ok_def)
  moreover have "\<forall>q. map_of (s_records ?t) q \<noteq> None \<longleftrightarrow> map_of (s_revision_ids_by_record ?t) q \<noteq> None"
    "\<forall>q. map_of (s_records ?t) q \<noteq> None \<longleftrightarrow> map_of (s_active_revision ?t) q \<noteq> None"
    using D(2,3) by (simp_all add: erased_fields)
  moreover have "chain_ok ?t q ids \<and> map_of (s_active_revision ?t) q = Some (last ids)"
    if q: "map_of (s_revision_ids_by_record ?t) q = Some ids" for q ids
  proof -
    have old: "map_of (s_revision_ids_by_record s) q = Some ids" "q \<notin> ?R"
      using q by (auto simp: erased_fields split: if_splits)
    have "map_of (s_revisions ?t) i = Some v"
      if "map_of (s_revisions s) i = Some v" "rev_record_id v = q" for i v
      using that old(2) erased_revision_lookup [OF ok] by blast
    then have "chain_ok ?t q ids" using D(4) [OF old(1)] unfolding chain_ok_def by blast
    then show ?thesis using D(4) [OF old(1)] old(2) by (simp add: erased_fields)
  qed
  moreover have "\<exists>ids. map_of (s_revision_ids_by_record ?t) (rev_record_id v) = Some ids \<and> i \<in> set ids"
    if v: "map_of (s_revisions ?t) i = Some v" for i v
  proof -
    have old: "map_of (s_revisions s) i = Some v" "rev_record_id v \<notin> ?R"
      using v erased_revision_lookup [OF ok] by blast+
    from D(5) [OF old(1)] old(2) show ?thesis by (simp add: erased_fields)
  qed
  moreover have "map tr_to_revision_id (filter (\<lambda>t. tr_record_id t = q) (s_transitions ?t)) =
      map Some (revision_ids_of ?t q)" for q
  proof (cases "q \<in> ?R")
    case True
    then have "filter (\<lambda>t. tr_record_id t = q) (s_transitions ?t) = []"
      by (auto simp: erased_fields filter_empty_conv)
    then show ?thesis using True by (simp add: revision_ids_of_def erased_fields)
  next
    case False
    then have "filter (\<lambda>t. tr_record_id t = q) (s_transitions ?t) =
        filter (\<lambda>t. tr_record_id t = q) (s_transitions s)"
      by (auto simp: erased_fields intro!: filter_cong)
    moreover have "revision_ids_of ?t q = revision_ids_of s q"
      using False by (simp add: revision_ids_of_def erased_fields)
    ultimately show ?thesis using D(6) [of q] by simp
  qed
  ultimately show ?thesis unfolding belief_plane_ok_def by blast
qed

lemma erased_experience_ok:
  assumes ok: "experience_ok s"
  shows "experience_ok (erased sc s)"
proof -
  let ?t = "erased sc s"
  note lookup = erased_trace_lookup [OF ok] erased_usage_lookup [OF ok] erased_outcome_lookup [OF ok]
  have ku: "keyed us_id (\<lambda>u. (us_scope u, us_idempotency_key u)) (s_usages s) (s_usage_keys s)"
    and ko: "keyed oc_id (\<lambda>u. (oc_scope u, oc_idempotency_key u)) (s_outcomes s) (s_outcome_keys s)"
    using ok by (simp_all add: experience_ok_def)
  have "keyed us_id (\<lambda>u. (us_scope u, us_idempotency_key u)) (s_usages ?t) (s_usage_keys ?t)"
    unfolding erased_fields by (rule keyed_erase [OF ku]) simp
  moreover have "keyed oc_id (\<lambda>u. (oc_scope u, oc_idempotency_key u)) (s_outcomes ?t) (s_outcome_keys ?t)"
    unfolding erased_fields by (rule keyed_erase [OF ko]) simp
  moreover have "dict_ok (s_traces ?t) \<and> dict_ok (s_utilities ?t)"
    using ok by (simp add: erased_fields experience_ok_def)
  moreover have "rt_id t = i \<and> trace_ok t" if "map_of (s_traces ?t) i = Some t" for i t
    using that ok lookup(1) unfolding experience_ok_def by blast
  moreover have "usage_attributed ?t u" if "map_of (s_usages ?t) i = Some u" for i u
  proof -
    have u: "map_of (s_usages s) i = Some u" "us_scope u \<noteq> sc" using that lookup(2) by blast+
    then have "usage_attributed s u" using ok unfolding experience_ok_def by blast
    then show ?thesis using u(2) lookup(1) unfolding usage_attributed_def by metis
  qed
  moreover have "outcome_attributed ?t u \<and> 0 < oc_weight u" if "map_of (s_outcomes ?t) i = Some u" for i u
  proof -
    have u: "map_of (s_outcomes s) i = Some u" "oc_scope u \<noteq> sc" using that lookup(3) by blast+
    then have a: "outcome_attributed s u \<and> 0 < oc_weight u" using ok unfolding experience_ok_def by blast
    then show ?thesis using u(2) lookup(1,2)
      by (cases "oc_usage_id u") (fastforce simp: outcome_attributed_def)+
  qed
  moreover have "utility_ok u" if "map_of (s_utilities ?t) k = Some u" for k u
    using that ok by (cases k) (auto simp: erased_utility_lookup experience_ok_def split: if_splits)
  ultimately show ?thesis unfolding experience_ok_def by blast
qed

lemma erased_store_ok: "store_ok sha s \<Longrightarrow> store_ok sha (erased sc s)"
  by (simp add: store_ok_def erased_evidence_ok erased_belief_ok erased_experience_ok)

subsection \<open>The call\<close>

lemma total_over_total:
  assumes "\<And>i. i \<in> set ids \<Longrightarrow> map_of d i \<noteq> None"
  shows "\<exists>n. total_over d f ids = Inr n"
proof -
  have "rmap (dict_index d) ids = Inr (map (\<lambda>i. the (map_of d i)) ids)"
    using assms by (intro rmap_total) (metis dict_index_some option.collapse)
  then show ?thesis by (simp add: total_over_def)
qed

lemma erase_scope_eval:
  assumes ok: "experience_ok s"
  obtains summary where "erase_scope sc s = (Inr summary, erased sc s)"
    "sum_observations summary = int (card (erased_observations sc s))"
    "sum_memory_records summary = int (card (erased_records sc s))"
    "sum_memory_revisions summary =
       int (card (\<Union> ((\<lambda>r. set (revision_ids_of s r)) ` erased_records sc s)))"
    "sum_outcomes summary = int (card (ids_where (\<lambda>v. oc_scope v = sc) oc_id (s_outcomes s)))"
    "sum_projection_documents summary = 0"
proof -
  have ids: "map_of (s_traces s) i \<noteq> None" if "i \<in> set (remdups (map rt_id (filter (\<lambda>v. rt_scope v = sc) (dict_values (s_traces s)))))" for i
    using that ids_where_iff [of "s_traces s" rt_id i "\<lambda>v. rt_scope v = sc"] ok
    by (auto simp: experience_ok_def ids_where_def)
  have idu: "map_of (s_usages s) i \<noteq> None" if "i \<in> set (remdups (map us_id (filter (\<lambda>v. us_scope v = sc) (dict_values (s_usages s)))))" for i
    using that ids_where_iff [of "s_usages s" us_id i "\<lambda>v. us_scope v = sc"] ok
    by (auto simp: experience_ok_def ids_where_def keyed_def)
  obtain m n where mn: "total_over (s_traces s) (\<lambda>t. length (rt_items t))
      (remdups (map rt_id (filter (\<lambda>v. rt_scope v = sc) (dict_values (s_traces s))))) = Inr m"
    "total_over (s_usages s) (\<lambda>u. length (us_revision_ids u))
      (remdups (map us_id (filter (\<lambda>v. us_scope v = sc) (dict_values (s_usages s))))) = Inr n"
    using total_over_total ids idu by metis
  let ?sum = "\<lparr>sum_observations = int (card (erased_observations sc s)),
    sum_evidence_spans =
      int (card (ids_where (\<lambda>v. ev_observation_id v \<in> erased_observations sc s) ev_id (s_evidence s))),
    sum_candidates = int (card (ids_where (\<lambda>v. cand_scope v = sc) cand_id (s_candidates s))),
    sum_memory_records = int (card (erased_records sc s)),
    sum_memory_revisions = int (card (\<Union> ((\<lambda>r. set (revision_ids_of s r)) ` erased_records sc s))),
    sum_revision_transitions =
      int (length (filter (\<lambda>t. tr_record_id t \<in> erased_records sc s) (s_transitions s))),
    sum_recall_traces =
      int (length (remdups (map rt_id (filter (\<lambda>v. rt_scope v = sc) (dict_values (s_traces s)))))),
    sum_recall_trace_items = m,
    sum_memory_usages =
      int (length (remdups (map us_id (filter (\<lambda>v. us_scope v = sc) (dict_values (s_usages s)))))),
    sum_memory_usage_items = n,
    sum_outcomes = int (card (ids_where (\<lambda>v. oc_scope v = sc) oc_id (s_outcomes s))),
    sum_utility_estimates = int (card (set (filter (\<lambda>k. fst k = sc) (dict_keys (s_utilities s))))),
    sum_outbox_events = 0, sum_projection_jobs = 0, sum_projection_documents = 0\<rparr>"
  have "erase_scope sc s = (Inr ?sum, erased sc s)"
    unfolding erase_scope_def erased_def Let_def
    by (simp add: mn erased_observations_def erased_records_def ids_where_def)
  then show thesis by (rule that) simp_all
qed

section \<open>The erasure against its plain description\<close>

text \<open>
  The erasure of a scope against its plain description.  The code collects the ids of the scope table by
  table and pops them; here each table is the old one without the entries that belong to the scope, an
  evidence span belonging to the scope of its observation and a revision to that of its record, and each
  number of the summary counts the entries that went.
\<close>

subsection \<open>The entries of a scope\<close>

definition observed_in :: "'z store_scheme \<Rightarrow> scope \<Rightarrow> uuid \<Rightarrow> bool" where
  "observed_in s sc i = (case map_of (s_observations s) i of None \<Rightarrow> False | Some v \<Rightarrow> obs_scope v = sc)"

definition recorded_in :: "'z store_scheme \<Rightarrow> scope \<Rightarrow> uuid \<Rightarrow> bool" where
  "recorded_in s sc i = (case map_of (s_records s) i of None \<Rightarrow> False | Some v \<Rightarrow> rec_scope v = sc)"

text \<open>A table without the entries of a kind, in the order it had, and the entries of that kind.\<close>

definition drop_entries :: "('k \<Rightarrow> 'v \<Rightarrow> bool) \<Rightarrow> ('k, 'v) dict \<Rightarrow> ('k, 'v) dict" where
  "drop_entries P d = filter (\<lambda>(k, v). \<not> P k v) d"

definition entries :: "('k \<Rightarrow> 'v \<Rightarrow> bool) \<Rightarrow> ('k, 'v) dict \<Rightarrow> ('k, 'v) dict" where
  "entries P d = filter (\<lambda>(k, v). P k v) d"

lemma drop_entries_lookup: "dict_ok d \<Longrightarrow> map_of (drop_entries P d) k = Some v \<longleftrightarrow> map_of d k = Some v \<and> \<not> P k v"
  by (auto simp: drop_entries_def dict_ok_def distinct_map_filter map_of_eq_Some_iff)

lemma pop_drops:
  assumes "dict_ok d" "\<And>k v. map_of d k = Some v \<Longrightarrow> k \<in> K \<longleftrightarrow> P k v"
  shows "dict_pop_all K d = drop_entries P d"
  unfolding dict_pop_all_def dict_filter_def drop_entries_def
  using assms by (intro filter_cong) (auto simp: dict_ok_def)

lemma filter_drops: "dict_filter (\<lambda>k. \<not> P k) d = drop_entries (\<lambda>k v. P k) d"
  by (simp add: dict_filter_def drop_entries_def)

lemma keys_of_entries:
  assumes "dict_ok d"
  shows "k \<in> set (map fst (entries P d)) \<longleftrightarrow> (\<exists>v. map_of d k = Some v \<and> P k v)" "distinct (map fst (entries P d))"
  using assms by (force simp: entries_def dict_ok_def distinct_map_filter map_of_eq_Some_iff)+

lemma card_entries:
  assumes "dict_ok d" "\<And>k. k \<in> K \<longleftrightarrow> (\<exists>v. map_of d k = Some v \<and> P k v)"
  shows "card K = length (entries P d)"
proof -
  have "K = set (map fst (entries P d))" using keys_of_entries(1) [OF assms(1)] assms(2) by blast
  then show ?thesis using distinct_card [OF keys_of_entries(2) [OF assms(1)]] by simp
qed

text \<open>The values of a kind are listed under their own ids.\<close>

lemma ids_of_entries:
  assumes "dict_ok d" "\<And>i v. map_of d i = Some v \<Longrightarrow> ident v = i"
  shows "remdups (map ident (filter P (dict_values d))) = map fst (entries (\<lambda>i v. P v) d)"
proof -
  have "map ident (filter P (dict_values d)) = map (\<lambda>(i, v). ident v) (entries (\<lambda>i v. P v) d)"
    by (simp add: dict_values_def filter_map entries_def comp_def split_def)
  also have "\<dots> = map fst (entries (\<lambda>i v. P v) d)"
    using assms by (intro map_cong) (auto simp: entries_def dict_ok_def)
  finally show ?thesis using keys_of_entries(2) [OF assms(1)] by (simp only: distinct_remdups_id)
qed

lemma total_of_entries:
  assumes "dict_ok d"
  shows "total_over d f (map fst (entries P d)) = Inr (int (sum_list (map (f \<circ> snd) (entries P d))))"
proof -
  have "rmap (dict_index d) (map fst es) = Inr (map snd es)" if "set es \<subseteq> set d" for es
    using that assms by (induction es) (auto simp: dict_ok_def)
  from this [of "entries P d"] show ?thesis by (simp add: total_over_def entries_def comp_def)
qed

subsection \<open>The erased store\<close>

definition without_scope :: "scope \<Rightarrow> 'z store_scheme \<Rightarrow> 'z store_scheme" where
  "without_scope sc s = s\<lparr>
     s_observations := drop_entries (\<lambda>i v. obs_scope v = sc) (s_observations s),
     s_observation_keys := drop_entries (\<lambda>k v. fst k = sc) (s_observation_keys s),
     s_evidence := drop_entries (\<lambda>i v. observed_in s sc (ev_observation_id v)) (s_evidence s),
     s_candidates := drop_entries (\<lambda>i v. cand_scope v = sc) (s_candidates s),
     s_candidate_by_observation := drop_entries (\<lambda>i v. observed_in s sc i) (s_candidate_by_observation s),
     s_records := drop_entries (\<lambda>i v. rec_scope v = sc) (s_records s),
     s_record_identity := drop_entries (\<lambda>k v. fst k = sc) (s_record_identity s),
     s_revisions := drop_entries (\<lambda>i v. recorded_in s sc (rev_record_id v)) (s_revisions s),
     s_revision_ids_by_record := drop_entries (\<lambda>i v. recorded_in s sc i) (s_revision_ids_by_record s),
     s_active_revision := drop_entries (\<lambda>i v. recorded_in s sc i) (s_active_revision s),
     s_transitions := filter (\<lambda>t. \<not> recorded_in s sc (tr_record_id t)) (s_transitions s),
     s_traces := drop_entries (\<lambda>i v. rt_scope v = sc) (s_traces s),
     s_usages := drop_entries (\<lambda>i v. us_scope v = sc) (s_usages s),
     s_usage_keys := drop_entries (\<lambda>k v. fst k = sc) (s_usage_keys s),
     s_outcomes := drop_entries (\<lambda>i v. oc_scope v = sc) (s_outcomes s),
     s_outcome_keys := drop_entries (\<lambda>k v. fst k = sc) (s_outcome_keys s),
     s_utilities := drop_entries (\<lambda>k v. fst k = sc) (s_utilities s)\<rparr>"

definition scope_summary :: "scope \<Rightarrow> 'z store_scheme \<Rightarrow> erasure_summary" where
  "scope_summary sc s = (
     let traces = entries (\<lambda>i v. rt_scope v = sc) (s_traces s); usages = entries (\<lambda>i v. us_scope v = sc) (s_usages s)
     in \<lparr>sum_observations = int (length (entries (\<lambda>i v. obs_scope v = sc) (s_observations s))),
       sum_evidence_spans = int (length (entries (\<lambda>i v. observed_in s sc (ev_observation_id v)) (s_evidence s))),
       sum_candidates = int (length (entries (\<lambda>i v. cand_scope v = sc) (s_candidates s))),
       sum_memory_records = int (length (entries (\<lambda>i v. rec_scope v = sc) (s_records s))),
       sum_memory_revisions = int (length (entries (\<lambda>i v. recorded_in s sc (rev_record_id v)) (s_revisions s))),
       sum_revision_transitions =
         int (length (filter (\<lambda>t. recorded_in s sc (tr_record_id t)) (s_transitions s))),
       sum_recall_traces = int (length traces),
       sum_recall_trace_items = int (sum_list (map (\<lambda>(i, v). length (rt_items v)) traces)),
       sum_memory_usages = int (length usages),
       sum_memory_usage_items = int (sum_list (map (\<lambda>(i, v). length (us_revision_ids v)) usages)),
       sum_outcomes = int (length (entries (\<lambda>i v. oc_scope v = sc) (s_outcomes s))),
       sum_utility_estimates = int (length (entries (\<lambda>k v. fst k = sc) (s_utilities s))),
       sum_outbox_events = 0, sum_projection_jobs = 0, sum_projection_documents = 0\<rparr>)"

lemma observed_in_iff: "evidence_ok s \<Longrightarrow> i \<in> erased_observations sc s \<longleftrightarrow> observed_in s sc i"
  by (simp add: erased_observations_iff observed_in_def split: option.split)

lemma recorded_in_iff: "belief_plane_ok sha s \<Longrightarrow> i \<in> erased_records sc s \<longleftrightarrow> recorded_in s sc i"
  by (simp add: erased_records_iff recorded_in_def split: option.split)

text \<open>The revisions of the records of the scope are those listed in their chains.\<close>

lemma chained_revisions:
  assumes ok: "belief_plane_ok sha s"
  shows "i \<in> \<Union> ((\<lambda>r. set (revision_ids_of s r)) ` erased_records sc s) \<longleftrightarrow>
    (\<exists>v. map_of (s_revisions s) i = Some v \<and> recorded_in s sc (rev_record_id v))"
proof
  note D = belief_plane_okD [OF ok]
  assume "i \<in> \<Union> ((\<lambda>r. set (revision_ids_of s r)) ` erased_records sc s)"
  then obtain r where r: "r \<in> erased_records sc s" "i \<in> set (revision_ids_of s r)" by blast
  then obtain ids where "map_of (s_revision_ids_by_record s) r = Some ids" "i \<in> set ids"
    by (cases "map_of (s_revision_ids_by_record s) r") (auto simp: revision_ids_of_def)
  from chain_ids_exist [OF conjunct1 [OF D(4) [OF this(1)]] this(2)] r(1)
  show "\<exists>v. map_of (s_revisions s) i = Some v \<and> recorded_in s sc (rev_record_id v)"
    using recorded_in_iff [OF ok] by blast
next
  note D = belief_plane_okD [OF ok]
  assume "\<exists>v. map_of (s_revisions s) i = Some v \<and> recorded_in s sc (rev_record_id v)"
  then obtain v where v: "map_of (s_revisions s) i = Some v" "rev_record_id v \<in> erased_records sc s"
    using recorded_in_iff [OF ok] by blast
  with D(5) [OF v(1)] show "i \<in> \<Union> ((\<lambda>r. set (revision_ids_of s r)) ` erased_records sc s)"
    by (force simp: revision_ids_of_def)
qed

lemma erased_without_scope:
  assumes e: "evidence_ok s" and b: "belief_plane_ok sha s" and x: "experience_ok s"
  shows "erased sc s = without_scope sc s"
proof -
  note ok = e [unfolded evidence_ok_def keyed_def] b [unfolded belief_plane_ok_def keyed_def]
    x [unfolded experience_ok_def keyed_def]
  note pop = pop_drops ids_where_iff observed_in_iff [OF e] recorded_in_iff [OF b]
  have "dict_pop_all (erased_observations sc s) (s_observations s) =
      drop_entries (\<lambda>i v. obs_scope v = sc) (s_observations s)"
    "dict_pop_all (erased_observations sc s) (s_candidate_by_observation s) =
      drop_entries (\<lambda>i v. observed_in s sc i) (s_candidate_by_observation s)"
    "dict_pop_all (ids_where (\<lambda>v. ev_observation_id v \<in> erased_observations sc s) ev_id (s_evidence s)) (s_evidence s) =
      drop_entries (\<lambda>i v. observed_in s sc (ev_observation_id v)) (s_evidence s)"
    "dict_pop_all (ids_where (\<lambda>v. cand_scope v = sc) cand_id (s_candidates s)) (s_candidates s) =
      drop_entries (\<lambda>i v. cand_scope v = sc) (s_candidates s)"
    using ok(1) by (auto intro!: pop_drops simp: observed_in_iff [OF e] observed_in_def ids_where_iff)
  moreover have "dict_pop_all (erased_records sc s) (s_records s) = drop_entries (\<lambda>i v. rec_scope v = sc) (s_records s)"
    "dict_pop_all (erased_records sc s) (s_active_revision s) =
      drop_entries (\<lambda>i v. recorded_in s sc i) (s_active_revision s)"
    "dict_pop_all (erased_records sc s) (s_revision_ids_by_record s) =
      drop_entries (\<lambda>i v. recorded_in s sc i) (s_revision_ids_by_record s)"
    using ok(2) by (auto intro!: pop_drops simp: recorded_in_iff [OF b] recorded_in_def)
  moreover have "dict_pop_all (\<Union> ((\<lambda>r. set (revision_ids_of s r)) ` erased_records sc s)) (s_revisions s) =
      drop_entries (\<lambda>i v. recorded_in s sc (rev_record_id v)) (s_revisions s)"
    using ok(2) chained_revisions [OF b] by (intro pop_drops) auto
  moreover have "dict_pop_all (ids_where (\<lambda>v. rt_scope v = sc) rt_id (s_traces s)) (s_traces s) =
      drop_entries (\<lambda>i v. rt_scope v = sc) (s_traces s)"
    "dict_pop_all (ids_where (\<lambda>v. us_scope v = sc) us_id (s_usages s)) (s_usages s) =
      drop_entries (\<lambda>i v. us_scope v = sc) (s_usages s)"
    "dict_pop_all (ids_where (\<lambda>v. oc_scope v = sc) oc_id (s_outcomes s)) (s_outcomes s) =
      drop_entries (\<lambda>i v. oc_scope v = sc) (s_outcomes s)"
    "dict_pop_all (set (filter (\<lambda>k. fst k = sc) (dict_keys (s_utilities s)))) (s_utilities s) =
      drop_entries (\<lambda>k v. fst k = sc) (s_utilities s)"
    using ok(3) by (auto intro!: pop_drops simp: ids_where_iff dict_keys_iff)
  ultimately show ?thesis
    by (simp add: erased_def without_scope_def Let_def filter_drops [of "\<lambda>k. fst k = sc"] recorded_in_iff [OF b])
qed

lemma erase_scope_exact:
  assumes e: "evidence_ok s" and b: "belief_plane_ok sha s" and x: "experience_ok s"
  shows "erase_scope sc s = (Inr (scope_summary sc s), without_scope sc s)"
proof -
  note ok = e [unfolded evidence_ok_def keyed_def] b [unfolded belief_plane_ok_def keyed_def]
    x [unfolded experience_ok_def keyed_def]
  have counts: "card (ids_where (\<lambda>v. obs_scope v = sc) obs_id (s_observations s)) =
      length (entries (\<lambda>i v. obs_scope v = sc) (s_observations s))"
    "card (ids_where (\<lambda>v. ev_observation_id v \<in> ids_where (\<lambda>v. obs_scope v = sc) obs_id (s_observations s)) ev_id
      (s_evidence s)) = length (entries (\<lambda>i v. observed_in s sc (ev_observation_id v)) (s_evidence s))"
    "card (ids_where (\<lambda>v. cand_scope v = sc) cand_id (s_candidates s)) =
      length (entries (\<lambda>i v. cand_scope v = sc) (s_candidates s))"
    using ok(1) observed_in_iff [OF e, of _ sc, unfolded erased_observations_def]
    by (auto intro!: card_entries simp: ids_where_iff)
  have records: "card (ids_where (\<lambda>v. rec_scope v = sc) rec_id (s_records s)) =
      length (entries (\<lambda>i v. rec_scope v = sc) (s_records s))"
    "card (\<Union> ((\<lambda>r. set (revision_ids_of s r)) ` ids_where (\<lambda>v. rec_scope v = sc) rec_id (s_records s))) =
      length (entries (\<lambda>i v. recorded_in s sc (rev_record_id v)) (s_revisions s))"
    using ok(2) chained_revisions [OF b, of _ sc, unfolded erased_records_def]
    by (auto intro!: card_entries simp: ids_where_iff)
  have outcomes: "card (ids_where (\<lambda>v. oc_scope v = sc) oc_id (s_outcomes s)) =
      length (entries (\<lambda>i v. oc_scope v = sc) (s_outcomes s))"
    using ok(3) by (auto intro!: card_entries simp: ids_where_iff)
  have "dict_ok (s_utilities s)" using ok(3) by blast
  then have utilities: "card (set (filter (\<lambda>k. fst k = sc) (dict_keys (s_utilities s)))) =
      length (entries (\<lambda>k v. fst k = sc) (s_utilities s))"
    by (rule card_entries) (auto simp: dict_keys_iff)
  have traces: "remdups (map rt_id (filter (\<lambda>v. rt_scope v = sc) (dict_values (s_traces s)))) =
      map fst (entries (\<lambda>i v. rt_scope v = sc) (s_traces s))" "dict_ok (s_traces s)"
    and usages: "remdups (map us_id (filter (\<lambda>v. us_scope v = sc) (dict_values (s_usages s)))) =
      map fst (entries (\<lambda>i v. us_scope v = sc) (s_usages s))" "dict_ok (s_usages s)"
    using ok(3) by (auto intro!: ids_of_entries)
  have chased: "tr_record_id t \<in> ids_where (\<lambda>v. rec_scope v = sc) rec_id (s_records s) \<longleftrightarrow>
      recorded_in s sc (tr_record_id t)" for t
    using recorded_in_iff [OF b, of _ sc] by (simp add: erased_records_def)
  obtain sm where run: "erase_scope sc s = (Inr sm, erased sc s)" by (rule erase_scope_eval [OF x])
  have "fst (erase_scope sc s) = Inr (scope_summary sc s)"
    unfolding erase_scope_def Let_def scope_summary_def
    by (simp add: traces(1) usages(1) total_of_entries [OF traces(2)] total_of_entries [OF usages(2)] counts records
        outcomes utilities [unfolded set_filter] chased comp_def split_def)
  then show ?thesis using run erased_without_scope [OF assms, of sc] by simp
qed

end
