(* ===== verification/Commands.thy ===== *)
theory Commands
  imports Experience
begin

text \<open>
  \<open>application/commands.py\<close>: the commands of the application with the validation of their
  constructors, and its results.
\<close>

record remember_command =
  rm_scope :: scope
  rm_source :: ustr
  rm_key_id :: ustr
  rm_key :: ustr
  rm_value :: ustr
  rm_context :: context_sig
  rm_evidence_text :: ustr
  rm_confidence :: pyfloat
  rm_occurred_at :: instant

definition mk_remember ::
  "scope \<Rightarrow> ustr \<Rightarrow> ustr \<Rightarrow> ustr \<Rightarrow> ustr \<Rightarrow> context_sig \<Rightarrow> ustr \<Rightarrow> pyfloat \<Rightarrow> py_datetime \<Rightarrow>
   remember_command res" where
  "mk_remember sc source idempotency_key key value ctx evidence_text confidence occurred_at =
     rbind (require_text source ''source'') (\<lambda>source'.
     rbind (require_text idempotency_key ''idempotency_key'') (\<lambda>idempotency_key'.
     rbind (require_text key ''key'') (\<lambda>key'.
     rbind (require_text value ''value'') (\<lambda>value'.
     rbind (require_text evidence_text ''evidence_text'') (\<lambda>evidence_text'.
     rbind (require_utc occurred_at ''occurred_at'') (\<lambda>occurred.
     Inr \<lparr>rm_scope = sc, rm_source = source', rm_key_id = idempotency_key', rm_key = key',
       rm_value = value', rm_context = ctx, rm_evidence_text = evidence_text',
       rm_confidence = confidence, rm_occurred_at = occurred\<rparr>))))))"

record correct_command =
  cp_scope :: scope
  cp_record_id :: uuid
  cp_source :: ustr
  cp_key_id :: ustr
  cp_value :: ustr
  cp_evidence_text :: ustr
  cp_reason :: ustr
  cp_occurred_at :: instant
  cp_expected_revision_id :: "uuid option"

definition mk_correct ::
  "scope \<Rightarrow> uuid \<Rightarrow> ustr \<Rightarrow> ustr \<Rightarrow> ustr \<Rightarrow> ustr \<Rightarrow> ustr \<Rightarrow> py_datetime \<Rightarrow> uuid option \<Rightarrow>
   correct_command res" where
  "mk_correct sc record_id source idempotency_key value evidence_text reason occurred_at expected =
     rbind (require_text source ''source'') (\<lambda>source'.
     rbind (require_text idempotency_key ''idempotency_key'') (\<lambda>idempotency_key'.
     rbind (require_text value ''value'') (\<lambda>value'.
     rbind (require_text evidence_text ''evidence_text'') (\<lambda>evidence_text'.
     rbind (require_text reason ''reason'') (\<lambda>reason'.
     rbind (require_utc occurred_at ''occurred_at'') (\<lambda>occurred.
     Inr \<lparr>cp_scope = sc, cp_record_id = record_id, cp_source = source', cp_key_id = idempotency_key',
       cp_value = value', cp_evidence_text = evidence_text', cp_reason = reason',
       cp_occurred_at = occurred, cp_expected_revision_id = expected\<rparr>))))))"

record recall_command =
  rc_scope :: scope
  rc_query :: ustr
  rc_context :: context_sig
  rc_limit :: int
  rc_valid_at :: "instant option"
  rc_known_at :: "instant option"

definition mk_recall ::
  "scope \<Rightarrow> ustr \<Rightarrow> context_sig \<Rightarrow> int \<Rightarrow> py_datetime option \<Rightarrow> py_datetime option \<Rightarrow>
   recall_command res" where
  "mk_recall sc query ctx limit valid_at known_at =
     rbind (require_text query ''query'') (\<lambda>query'.
     rbind (ropt (\<lambda>t. require_utc t ''valid_at'') valid_at) (\<lambda>valid.
     rbind (ropt (\<lambda>t. require_utc t ''known_at'') known_at) (\<lambda>known.
     Inr \<lparr>rc_scope = sc, rc_query = query', rc_context = ctx, rc_limit = limit, rc_valid_at = valid,
       rc_known_at = known\<rparr>)))"

record outcome_command =
  ro_scope :: scope
  ro_trace_id :: uuid
  ro_revision_id :: uuid
  ro_kind :: outcome_kind
  ro_key_id :: ustr
  ro_occurred_at :: instant
  ro_usage_id :: "uuid option"
  ro_weight :: pyfloat
  ro_note :: "ustr option"

definition mk_record_outcome ::
  "scope \<Rightarrow> uuid \<Rightarrow> uuid \<Rightarrow> outcome_kind \<Rightarrow> ustr \<Rightarrow> py_datetime \<Rightarrow> uuid option \<Rightarrow> pyfloat \<Rightarrow>
   ustr option \<Rightarrow> outcome_command res" where
  "mk_record_outcome sc trace_id revision_id kind key occurred_at usage_id weight note =
     rbind (require_text key ''idempotency_key'') (\<lambda>key'.
     rbind (require_utc occurred_at ''occurred_at'') (\<lambda>occurred.
     Inr \<lparr>ro_scope = sc, ro_trace_id = trace_id, ro_revision_id = revision_id, ro_kind = kind,
       ro_key_id = key', ro_occurred_at = occurred, ro_usage_id = usage_id, ro_weight = weight,
       ro_note = normalize_note note\<rparr>))"

record project_command =
  pj_scope :: scope
  pj_trace_id :: uuid
  pj_algorithm :: compression_algorithm
  pj_budget :: int

definition mk_project_context ::
  "scope \<Rightarrow> uuid \<Rightarrow> compression_algorithm \<Rightarrow> int \<Rightarrow> project_command res" where
  "mk_project_context sc trace_id algorithm budget =
     rbind (raise_if (\<not> (64 \<le> budget \<and> budget \<le> 100000))
       (DomainError ''projection budget must be in [64, 100000] characters'')) (\<lambda>_.
     Inr \<lparr>pj_scope = sc, pj_trace_id = trace_id, pj_algorithm = algorithm, pj_budget = budget\<rparr>)"

record usage_command =
  ru_scope :: scope
  ru_trace_id :: uuid
  ru_algorithm :: compression_algorithm
  ru_budget :: int
  ru_source_sha :: ustr
  ru_delivered_sha :: ustr
  ru_revision_ids :: "uuid list"
  ru_key_id :: ustr
  ru_occurred_at :: instant

definition mk_record_usage ::
  "scope \<Rightarrow> uuid \<Rightarrow> compression_algorithm \<Rightarrow> int \<Rightarrow> ustr \<Rightarrow> ustr \<Rightarrow> uuid list \<Rightarrow> ustr \<Rightarrow> py_datetime \<Rightarrow>
   usage_command res" where
  "mk_record_usage sc trace_id algorithm budget source_sha delivered_sha revision_ids key occurred_at =
     rbind (raise_if (\<not> (64 \<le> budget \<and> budget \<le> 100000))
       (DomainError ''projection budget must be in [64, 100000] characters'')) (\<lambda>_.
     rbind (require_text key ''idempotency_key'') (\<lambda>key'.
     rbind (require_utc occurred_at ''occurred_at'') (\<lambda>occurred.
     Inr \<lparr>ru_scope = sc, ru_trace_id = trace_id, ru_algorithm = algorithm, ru_budget = budget,
       ru_source_sha = source_sha, ru_delivered_sha = delivered_sha, ru_revision_ids = revision_ids,
       ru_key_id = key', ru_occurred_at = occurred\<rparr>)))"

subsection \<open>Results\<close>

record preference_result =
  pr_observation_id :: uuid
  pr_candidate_id :: uuid
  pr_record_id :: uuid
  pr_revision_id :: uuid
  pr_sequence :: int
  pr_idempotent_replay :: bool

record outcome_result =
  or_outcome :: outcome_event
  or_utility :: utility_estimate
  or_idempotent_replay :: bool

record usage_result =
  ur_usage :: memory_usage
  ur_idempotent_replay :: bool

text \<open>What a command that was constructed is known to satisfy.\<close>

definition remember_ok :: "remember_command \<Rightarrow> bool" where
  "remember_ok c \<longleftrightarrow> stripped (rm_source c) \<and> stripped (rm_key_id c) \<and> stripped (rm_key c) \<and>
     stripped (rm_value c) \<and> stripped (rm_evidence_text c)"

definition correct_ok :: "correct_command \<Rightarrow> bool" where
  "correct_ok c \<longleftrightarrow> stripped (cp_source c) \<and> stripped (cp_key_id c) \<and> stripped (cp_value c) \<and>
     stripped (cp_evidence_text c) \<and> stripped (cp_reason c)"

lemma mk_remember_ok: "mk_remember sc s i k v c e cf t = Inr cmd \<Longrightarrow> remember_ok cmd"
  by (auto simp: mk_remember_def remember_ok_def res_simps strip_stripped)

lemma mk_correct_ok: "mk_correct sc r s i v e rs t x = Inr cmd \<Longrightarrow> correct_ok cmd"
  by (auto simp: mk_correct_def correct_ok_def res_simps strip_stripped)

end
