(* ===== verification/World.thy ===== *)
theory World
  imports Store
begin

text \<open>
  What the application objects are given and what they change.  The environment holds the
  collaborators that are not code of the repository: the id generator (\<open>uuid4\<close>) as the sequence of
  ids it returns, the clock as the sequence of its readings, the Unicode tables, SHA-256 and
  HMAC-SHA-256 in hexadecimal, \<open>pow(0.5, x)\<close> and \<open>float.__repr__\<close>.  The world is the store with
  the positions reached in the two sequences and the last known availability of the projection.
\<close>

record env =
  e_ids :: "nat \<Rightarrow> uuid"
  e_clock :: "nat \<Rightarrow> instant"
  e_db :: unidb
  e_sha :: "ustr \<Rightarrow> ustr"
  e_pow :: "pyfloat \<Rightarrow> pyfloat"
  e_repr :: "pyfloat \<Rightarrow> ustr"

record world = store +
  w_ids :: nat
  w_ticks :: nat
  w_projection_available :: "bool option"

definition new_id :: "env \<Rightarrow> (world, uuid) prog" where
  "new_id E = (\<lambda>w. (Inr (e_ids E (w_ids w)), w\<lparr>w_ids := Suc (w_ids w)\<rparr>))"

definition now :: "env \<Rightarrow> (world, instant) prog" where
  "now E = (\<lambda>w. (Inr (e_clock E (w_ticks w)), w\<lparr>w_ticks := Suc (w_ticks w)\<rparr>))"

definition world_of :: "store \<Rightarrow> nat \<Rightarrow> nat \<Rightarrow> bool option \<Rightarrow> world" where
  "world_of s i t p = store.extend s \<lparr>w_ids = i, w_ticks = t, w_projection_available = p\<rparr>"

lemma pbind_new_id [simp]: "pbind (new_id E) f w = f (e_ids E (w_ids w)) (w\<lparr>w_ids := Suc (w_ids w)\<rparr>)"
  by (simp add: pbind_def new_id_def)

lemma pbind_now [simp]: "pbind (now E) f w = f (e_clock E (w_ticks w)) (w\<lparr>w_ticks := Suc (w_ticks w)\<rparr>)"
  by (simp add: pbind_def now_def)

end
