(* ===== verification/Compression.thy ===== *)
theory Compression
  imports Experience World
begin

text \<open>
  \<open>application/compression.py\<close>: the projection of a recall trace into a bounded JSON document.  The
  candidates in rank order, exact deduplication when asked for, greedy selection within the budget,
  and the digests that tie the document to its sources and its configuration.
\<close>

record candidate_segment =
  cs_content :: ustr
  cs_sources :: "projection_source list"

definition context_json :: "context_sig \<Rightarrow> json" where
  "context_json c = JObj (map (\<lambda>(k, v). (k, JStr v)) (as_dict c))"

definition item_content :: "env \<Rightarrow> recalled_item \<Rightarrow> ustr" where
  "item_content E i = json_dumps (e_repr E) (JObj [(uc ''context'', context_json (it_context i)),
     (uc ''key'', JStr (it_key i)), (uc ''value'', JStr (it_value i))])"

definition candidate_of :: "env \<Rightarrow> recalled_item \<Rightarrow> candidate_segment res" where
  "candidate_of E i =
     rbind (mk_projection_source (it_record_id i) (it_revision_id i) (it_rank i) (it_score i)) (\<lambda>src.
     Inr \<lparr>cs_content = item_content E i, cs_sources = [src]\<rparr>)"

text \<open>\<open>deduplicated.setdefault(content, []).extend(sources)\<close>\<close>

definition dedup_step ::
  "(ustr, projection_source list) dict \<Rightarrow> candidate_segment \<Rightarrow> (ustr, projection_source list) dict" where
  "dedup_step d c = dict_set (cs_content c)
     ((case map_of d (cs_content c) of None \<Rightarrow> [] | Some ss \<Rightarrow> ss) @ cs_sources c) d"

definition apply_algorithm ::
  "compression_algorithm \<Rightarrow> candidate_segment list \<Rightarrow> candidate_segment list" where
  "apply_algorithm algorithm cs =
     (case algorithm of
        RANKED_EXTRACTIVE \<Rightarrow> cs
      | EXACT_DEDUPLICATED \<Rightarrow>
          map (\<lambda>(content, sources). \<lparr>cs_content = content, cs_sources = sources\<rparr>)
            (foldl dedup_step [] cs))"

fun select_within ::
  "int \<Rightarrow> candidate_segment list \<Rightarrow> candidate_segment list \<Rightarrow> candidate_segment list" where
  "select_within budget selected [] = selected"
| "select_within budget selected (c # cs) =
     (if int (length (document (map cs_content selected @ [cs_content c]))) \<le> budget
      then select_within budget (selected @ [c]) cs
      else select_within budget selected cs)"

definition select_within_budget :: "int \<Rightarrow> candidate_segment list \<Rightarrow> candidate_segment list" where
  "select_within_budget budget cs = select_within budget [] cs"

definition digest :: "env \<Rightarrow> json \<Rightarrow> ustr" where
  "digest E payload = e_sha E (json_dumps (e_repr E) payload)"

definition source_item_json :: "candidate_segment \<Rightarrow> json" where
  "source_item_json c = (let src = hd (cs_sources c) in
     JObj [(uc ''content'', JStr (cs_content c)),
       (uc ''record_id'', JStr (uuid_str (src_record_id src))),
       (uc ''revision_id'', JStr (uuid_str (src_revision_id src))),
       (uc ''rank'', JInt (src_rank src)), (uc ''score'', JFloat (src_score src))])"

definition source_payload :: "recall_trace \<Rightarrow> candidate_segment list \<Rightarrow> json" where
  "source_payload t cs =
     JObj [(uc ''trace_id'', JStr (uuid_str (rt_id t))),
       (uc ''scope'', JObj [(uc ''tenant_id'', JStr (tenant_id (rt_scope t))),
          (uc ''subject_id'', JStr (subject_id (rt_scope t)))]),
       (uc ''query'', JStr (rt_query t)), (uc ''context'', context_json (rt_context t)),
       (uc ''policy_id'', JStr (uuid_str (rt_policy_id t))),
       (uc ''policy_version'', JInt (rt_policy_version t)),
       (uc ''valid_at'', JStr (isoformat (rt_valid_at t))),
       (uc ''known_at'', JStr (isoformat (rt_known_at t))),
       (uc ''created_at'', JStr (isoformat (rt_created_at t))),
       (uc ''items'', JArr (map source_item_json cs))]"

definition configuration_payload :: "compression_algorithm \<Rightarrow> int \<Rightarrow> json" where
  "configuration_payload algorithm budget =
     JObj [(uc ''algorithm'', JStr (algorithm_value algorithm)),
       (uc ''algorithm_version'', JInt (algorithm_version algorithm)),
       (uc ''budget_characters'', JInt budget)]"

definition projection_payload :: "ustr \<Rightarrow> ustr \<Rightarrow> ustr \<Rightarrow> projection_segment list \<Rightarrow> json" where
  "projection_payload configuration source content segments =
     JObj [(uc ''configuration_sha256'', JStr configuration), (uc ''source_sha256'', JStr source),
       (uc ''content'', JStr content),
       (uc ''segments'', JArr (map (\<lambda>seg. JObj [(uc ''content'', JStr (seg_content seg)),
          (uc ''revision_ids'', JArr (map (\<lambda>s. JStr (uuid_str (src_revision_id s))) (seg_sources seg)))])
          segments))]"

definition project ::
  "env \<Rightarrow> recall_trace \<Rightarrow> compression_algorithm \<Rightarrow> int \<Rightarrow> recall_context_projection res" where
  "project E t algorithm budget =
     rbind (raise_if (\<not> (64 \<le> budget \<and> budget \<le> 100000))
       (DomainError ''projection budget must be in [64, 100000] characters'')) (\<lambda>_.
     let ordered = sort_key it_rank (rt_items t) in
     rbind (rmap (candidate_of E) ordered) (\<lambda>raw.
     let selected = select_within_budget budget (apply_algorithm algorithm raw);
         content = document (map cs_content selected)
     in
     rbind (rmap (\<lambda>c. mk_projection_segment (cs_content c) (cs_sources c)) selected) (\<lambda>segments.
     let included = sum_list (map (\<lambda>seg. length (seg_sources seg)) segments);
         original = document (map cs_content raw);
         configuration = digest E (configuration_payload algorithm budget);
         source = digest E (source_payload t raw);
         projection = digest E (projection_payload configuration source content segments)
     in
     mk_recall_context_projection (e_db E)
       \<lparr>rcp_scope = rt_scope t, rcp_trace_id = rt_id t, rcp_policy_id = rt_policy_id t,
        rcp_policy_version = rt_policy_version t, rcp_algorithm = algorithm,
        rcp_budget_characters = budget, rcp_valid_at = rt_valid_at t, rcp_known_at = rt_known_at t,
        rcp_trace_created_at = rt_created_at t, rcp_content = content, rcp_segments = segments,
        rcp_source_item_count = int (length ordered),
        rcp_omitted_item_count = int (length ordered) - int included,
        rcp_original_character_count = int (length original),
        rcp_configuration_sha256 = configuration, rcp_source_sha256 = source,
        rcp_projection_sha256 = projection\<rparr>
       (utc (rt_valid_at t)) (utc (rt_known_at t)) (utc (rt_created_at t)))))"

end
