(* ===== verification/Service.thy ===== *)
theory Service
  imports Commands Compression
begin

text \<open>
  \<open>application/service.py\<close>, with the types of \<open>application/projection_types.py\<close> it receives: the
  memory application over the store.  Remembering and correcting a preference, recalling with a
  score per eligible revision, outcomes, usage receipts, projections, history and erasure.
\<close>

subsection \<open>The recall projection\<close>

record projection_hit =
  ph_revision_id :: uuid
  ph_score :: pyfloat

definition mk_projection_hit :: "uuid \<Rightarrow> pyfloat \<Rightarrow> projection_hit res" where
  "mk_projection_hit revision score =
     rbind (raise_if (\<not> (0 \<le> score \<and> score \<le> 1))
       (ValueError ''projection score must be between 0 and 1'')) (\<lambda>_.
     Inr \<lparr>ph_revision_id = revision, ph_score = score\<rparr>)"

record projection_search_result =
  ps_hits :: "projection_hit list"
  ps_available :: bool
  ps_reason :: "ustr option"

definition mk_projection_search_result ::
  "projection_hit list \<Rightarrow> bool \<Rightarrow> ustr option \<Rightarrow> projection_search_result res" where
  "mk_projection_search_result hits available reason =
     rbind (raise_if (available \<and> reason \<noteq> None)
       (ValueError ''an available projection search cannot have a failure reason'')) (\<lambda>_.
     rbind (raise_if (\<not> available \<and> hits \<noteq> [])
       (ValueError ''an unavailable projection search cannot return hits'')) (\<lambda>_.
     Inr \<lparr>ps_hits = hits, ps_available = available, ps_reason = reason\<rparr>))"

text \<open>
  The port: a vector database behind the network.  Its answers are arguments of the model, indexed
  by the moment of the call (the number of clock readings so far).
\<close>

record recall_projection =
  rp_search :: "nat \<Rightarrow> scope \<Rightarrow> ustr \<Rightarrow> int \<Rightarrow> instant \<Rightarrow> instant \<Rightarrow> projection_search_result res"
  rp_ready :: "nat \<Rightarrow> bool"
  rp_delete_scope :: "nat \<Rightarrow> scope \<Rightarrow> int res"

record service =
  sv_policy :: "strategy_snapshot option"
  sv_projection :: "recall_projection option"
  sv_projection_required :: bool
  sv_oversample :: int

subsection \<open>Construction and state\<close>

definition mk_service ::
  "env \<Rightarrow> strategy_snapshot option \<Rightarrow> recall_projection option \<Rightarrow> bool \<Rightarrow> int \<Rightarrow> (world, service) prog" where
  "mk_service E policy projection required oversample =
     pbind (lift_res (raise_if (required \<and> projection = None)
       (ValueError ''a required recall projection must be configured''))) (\<lambda>_.
     pbind (lift_res (raise_if (\<not> (1 \<le> oversample \<and> oversample \<le> 100))
       (ValueError ''projection_search_oversample must be in [1, 100]''))) (\<lambda>_.
     pbind (modify (w_projection_available_update (\<lambda>_. None))) (\<lambda>_.
     pbind (case policy of
         Some p \<Rightarrow> save_strategy p
       | None \<Rightarrow>
           pbind (asks active_strategy) (\<lambda>active.
           case active of
             Some a \<Rightarrow> return ()
           | None \<Rightarrow>
               pbind (now E) (\<lambda>n.
               pbind (new_id E) (\<lambda>i.
               pbind (lift_res (mk_weights default_weights)) (\<lambda>weights.
               pbind (lift_res (mk_strategy i 1 weights (flit (20/100)) 180 (utc n) None)) (\<lambda>default.
               pbind (new_id E) (\<lambda>j.
               pbind (lift_res (mk_activation j (st_id default) BOOTSTRAP (utc n)
                 (uc ''initial default strategy'') None None)) (\<lambda>bootstrap.
               pbind (ensure_active_strategy default bootstrap) (\<lambda>_. return ()))))))))) (\<lambda>_.
     return \<lparr>sv_policy = policy, sv_projection = projection, sv_projection_required = required,
       sv_oversample = oversample\<rparr>))))"

definition retrieval_policy :: "service \<Rightarrow> (world, strategy_snapshot) prog" where
  "retrieval_policy sv =
     (case sv_policy sv of
        Some p \<Rightarrow> return p
      | None \<Rightarrow> pbind (asks active_strategy) (\<lambda>active.
          case active of
            None \<Rightarrow> throw (DomainError ''active strategy is unavailable'')
          | Some a \<Rightarrow> return a))"

definition is_ready :: "service \<Rightarrow> (world, bool) prog" where
  "is_ready sv =
     (case sv_projection sv of
        None \<Rightarrow> return True
      | Some p \<Rightarrow>
          if \<not> sv_projection_required sv then return True
          else pbind (gets (\<lambda>w. rp_ready p (w_ticks w))) (\<lambda>ready.
               pbind (modify (w_projection_available_update (\<lambda>_. Some ready))) (\<lambda>_.
               return ready)))"

definition projection_status :: "service \<Rightarrow> world \<Rightarrow> string" where
  "projection_status sv w =
     (if sv_projection sv = None then ''disabled''
      else case w_projection_available w of
             None \<Rightarrow> ''enabled''
           | Some b \<Rightarrow> if b then ''ready'' else ''degraded'')"

definition service_erase_scope :: "service \<Rightarrow> scope \<Rightarrow> (world, erasure_summary) prog" where
  "service_erase_scope sv sc =
     pbind (case sv_projection sv of
         None \<Rightarrow> return 0
       | Some p \<Rightarrow> asks (\<lambda>w. rp_delete_scope p (w_ticks w) sc)) (\<lambda>deleted.
     pbind (erase_scope sc) (\<lambda>summary.
     lift_res (with_projection_documents summary deleted)))"

subsection \<open>Remembering and correcting\<close>

definition accept_candidate ::
  "env \<Rightarrow> candidate \<Rightarrow> instant \<Rightarrow> ustr \<Rightarrow> ustr option \<Rightarrow> uuid option \<Rightarrow> (world, preference_result) prog" where
  "accept_candidate E cand valid_from source reason expected_record_id =
     pbind (now E) (\<lambda>n.
     pbind (asks (\<lambda>w. current_by_identity (e_sha E) w (cand_scope cand) (cand_key cand)
       (cand_context cand))) (\<lambda>current.
     pbind (case current of
       None \<Rightarrow>
         pbind (lift_res (raise_if (expected_record_id \<noteq> None)
           (ConflictError ''expected memory record is no longer active''))) (\<lambda>_.
         pbind (new_id E) (\<lambda>record_id.
         pbind (lift_res (mk_memory_record record_id (cand_scope cand) PREFERENCE (cand_key cand)
           (cand_context cand) (utc n))) (\<lambda>r.
         pbind (new_id E) (\<lambda>revision_id.
         pbind (lift_res (mk_belief_state (cand_confidence cand) 1 0 1 (utc valid_from) [source])) (\<lambda>belief.
         pbind (lift_res (mk_memory_revision revision_id (rec_id r) 1 (cand_value cand) belief
           (cand_evidence_ids cand) (utc valid_from) (utc n) None)) (\<lambda>v.
         pbind (new_id E) (\<lambda>transition_id.
         pbind (lift_res (mk_revision_transition transition_id (rec_id r) CREATED (utc n)
           (Some (rev_id v)) None reason)) (\<lambda>tr.
         pbind (add_memory (e_sha E) r v tr) (\<lambda>_.
         return (r, v))))))))))
     | Some sn \<Rightarrow>
         let r = snap_record sn; cv = snap_revision sn in
         pbind (lift_res (raise_if (expected_record_id \<noteq> None \<and> Some (rec_id r) \<noteq> expected_record_id)
           (ConflictError ''correction target does not match active memory identity''))) (\<lambda>_.
         pbind (lift_res (if rev_value cv = cand_value cand
           then rbind (reinforced (rev_belief cv) (cand_confidence cand) (utc valid_from) (Some source))
                  (\<lambda>b. Inr (b, rev_evidence_ids cv @ cand_evidence_ids cand))
           else rbind (mk_belief_state (cand_confidence cand) 1 0 1 (utc valid_from) [source])
                  (\<lambda>b. Inr (b, cand_evidence_ids cand)))) (\<lambda>(belief, evidence_ids).
         pbind (new_id E) (\<lambda>revision_id.
         pbind (lift_res (mk_memory_revision revision_id (rec_id r) (rev_sequence cv + 1)
           (cand_value cand) belief evidence_ids (utc valid_from) (utc n) (Some (rev_id cv)))) (\<lambda>v.
         pbind (new_id E) (\<lambda>transition_id.
         pbind (lift_res (mk_revision_transition transition_id (rec_id r) SUPERSEDED (utc n)
           (Some (rev_id v)) (Some (rev_id cv)) reason)) (\<lambda>tr.
         pbind (append_revision (rev_id cv) v tr) (\<lambda>_.
         return (r, v))))))))) (\<lambda>(r, v).
     pbind (lift_res (accept cand (rec_id r) (rev_id v))) (\<lambda>accepted.
     pbind (update_candidate accepted) (\<lambda>_.
     return \<lparr>pr_observation_id = cand_observation_id cand, pr_candidate_id = cand_id cand,
       pr_record_id = rec_id r, pr_revision_id = rev_id v, pr_sequence = rev_sequence v,
       pr_idempotent_replay = False\<rparr>)))))"

text \<open>The stable, caller-controlled fields that identify a replay; \<open>occurred_at\<close> is not one.\<close>

record replay_key =
  rk_kind :: observation_kind
  rk_source :: ustr
  rk_key :: ustr
  rk_value :: ustr
  rk_fingerprint :: ustr
  rk_evidence_text :: ustr
  rk_confidence :: pyfloat
  rk_record_id :: "uuid option"
  rk_reason :: "ustr option"

definition same_request :: "env \<Rightarrow> replay_key \<Rightarrow> observation \<Rightarrow> candidate \<Rightarrow> bool" where
  "same_request E k ob c \<longleftrightarrow>
     obs_kind ob = rk_kind k \<and> obs_source ob = rk_source k \<and> obs_content ob = rk_evidence_text k \<and>
     cand_key c = rk_key k \<and> cand_value c = rk_value k \<and>
     fingerprint (e_sha E) (cand_context c) = rk_fingerprint k \<and> cand_confidence c = rk_confidence k \<and>
     (rk_record_id k \<noteq> None \<longrightarrow> cand_accepted_record_id c = rk_record_id k) \<and>
     map_of (dict_of (obs_metadata ob)) (uc ''correction_reason'') = rk_reason k"

definition existing_preference_result ::
  "env \<Rightarrow> replay_key \<Rightarrow> observation \<Rightarrow> world \<Rightarrow> preference_result res" where
  "existing_preference_result E k ob w =
     (case candidate_for_observation w (obs_scope ob) (obs_id ob) of
        None \<Rightarrow> Inl (ConflictError ''idempotency key belongs to an incomplete ingestion'')
      | Some c \<Rightarrow>
          (case (cand_accepted_record_id c, cand_accepted_revision_id c) of
             (Some record_id, Some revision_id) \<Rightarrow>
               rbind (raise_if (\<not> same_request E k ob c)
                 (ConflictError ''idempotency key was reused for a different preference request'')) (\<lambda>_.
               rbind (snapshot_of w (cand_scope c) record_id) (\<lambda>snapshot.
               rbind (revision_history w (cand_scope c) record_id) (\<lambda>history.
               case (snapshot, find (\<lambda>v. rev_id v = revision_id) history) of
                 (Some _, Some matching) \<Rightarrow>
                   Inr \<lparr>pr_observation_id = obs_id ob, pr_candidate_id = cand_id c,
                     pr_record_id = record_id, pr_revision_id = revision_id,
                     pr_sequence = rev_sequence matching, pr_idempotent_replay = True\<rparr>
               | _ \<Rightarrow> Inl (ConflictError ''accepted idempotent result is no longer resolvable''))))
           | _ \<Rightarrow> Inl (ConflictError ''idempotency key belongs to an incomplete ingestion'')))"

text \<open>
  The part the two commands share: the ingestion is saved; when its key was taken in the meantime
  the stored request answers, otherwise \<open>next\<close> goes on with the candidate.
\<close>

definition ingest ::
  "env \<Rightarrow> replay_key \<Rightarrow> scope \<Rightarrow> ustr \<Rightarrow> observation \<Rightarrow> evidence_span \<Rightarrow> candidate \<Rightarrow>
   (world, preference_result) prog \<Rightarrow> (world, preference_result) prog" where
  "ingest E k sc key ob ev cand continue =
     pbind (catch (pbind (save_ingestion ob ev cand) (\<lambda>_. return None)) (\<lambda>e.
       case e of
         ConflictError m \<Rightarrow>
           pbind (gets (\<lambda>w. observation_by_idempotency w sc key)) (\<lambda>concurrent.
           case concurrent of
             None \<Rightarrow> throw e
           | Some ob' \<Rightarrow> pbind (asks (existing_preference_result E k ob')) (\<lambda>r. return (Some r)))
       | _ \<Rightarrow> throw e)) (\<lambda>replayed.
     case replayed of Some r \<Rightarrow> return r | None \<Rightarrow> continue)"

definition remember_key :: "env \<Rightarrow> remember_command \<Rightarrow> replay_key" where
  "remember_key E c = \<lparr>rk_kind = MESSAGE, rk_source = rm_source c, rk_key = rm_key c,
     rk_value = rm_value c, rk_fingerprint = fingerprint (e_sha E) (rm_context c),
     rk_evidence_text = rm_evidence_text c, rk_confidence = rm_confidence c, rk_record_id = None,
     rk_reason = None\<rparr>"

definition remember_body :: "env \<Rightarrow> remember_command \<Rightarrow> (world, preference_result) prog" where
  "remember_body E c =
     pbind (gets (\<lambda>w. observation_by_idempotency w (rm_scope c) (rm_key_id c))) (\<lambda>existing.
     case existing of
       Some ob \<Rightarrow> asks (existing_preference_result E (remember_key E c) ob)
     | None \<Rightarrow>
         pbind (now E) (\<lambda>n.
         pbind (new_id E) (\<lambda>i.
         pbind (lift_res (mk_observation i (rm_scope c) MESSAGE (rm_source c) (rm_evidence_text c)
           (rm_key_id c) (utc (rm_occurred_at c)) (utc n) [])) (\<lambda>ob.
         pbind (new_id E) (\<lambda>j.
         pbind (lift_res (mk_evidence_span j (obs_id ob) (rm_evidence_text c) SUPPORTS 0
           (Some (int (length (rm_evidence_text c)))))) (\<lambda>ev.
         pbind (new_id E) (\<lambda>k.
         pbind (lift_res (mk_candidate k (rm_scope c) (obs_id ob) (rm_key c) (rm_value c)
           (rm_context c) [ev_id ev] (rm_confidence c) (utc n) CANDIDATE_PROPOSED None None)) (\<lambda>cand.
         ingest E (remember_key E c) (rm_scope c) (rm_key_id c) ob ev cand
           (accept_candidate E cand (rm_occurred_at c) (rm_source c) None None)))))))))"

definition remember_preference :: "env \<Rightarrow> remember_command \<Rightarrow> (world, preference_result) prog" where
  "remember_preference E c = transaction (remember_body E c)"

definition correct_key :: "env \<Rightarrow> correct_command \<Rightarrow> memory_record \<Rightarrow> replay_key" where
  "correct_key E c r = \<lparr>rk_kind = USER_FEEDBACK, rk_source = cp_source c, rk_key = rec_key r,
     rk_value = cp_value c, rk_fingerprint = fingerprint (e_sha E) (rec_context r),
     rk_evidence_text = cp_evidence_text c, rk_confidence = 1,
     rk_record_id = Some (cp_record_id c), rk_reason = Some (cp_reason c)\<rparr>"

definition correct_body :: "env \<Rightarrow> correct_command \<Rightarrow> (world, preference_result) prog" where
  "correct_body E c =
     pbind (asks (\<lambda>w. snapshot_of w (cp_scope c) (cp_record_id c))) (\<lambda>current.
     case current of
       None \<Rightarrow> throw (NotFoundError ''memory record not found in scope'')
     | Some sn \<Rightarrow>
         let r = snap_record sn in
         pbind (lift_res (raise_if (rec_kind r \<noteq> PREFERENCE)
           (DomainError ''only preference memories can use this correction command''))) (\<lambda>_.
         pbind (gets (\<lambda>w. observation_by_idempotency w (cp_scope c) (cp_key_id c))) (\<lambda>existing.
         case existing of
           Some ob \<Rightarrow> asks (existing_preference_result E (correct_key E c r) ob)
         | None \<Rightarrow>
             pbind (lift_res (raise_if (cp_expected_revision_id c \<noteq> None \<and>
                 Some (rev_id (snap_revision sn)) \<noteq> cp_expected_revision_id c)
               (ConflictError ''expected revision is no longer active''))) (\<lambda>_.
             pbind (now E) (\<lambda>n.
             pbind (new_id E) (\<lambda>i.
             pbind (lift_res (mk_observation i (cp_scope c) USER_FEEDBACK (cp_source c)
               (cp_evidence_text c) (cp_key_id c) (utc (cp_occurred_at c)) (utc n)
               [(uc ''correction_reason'', cp_reason c)])) (\<lambda>ob.
             pbind (new_id E) (\<lambda>j.
             pbind (lift_res (mk_evidence_span j (obs_id ob) (cp_evidence_text c) SUPPORTS 0
               (Some (int (length (cp_evidence_text c)))))) (\<lambda>ev.
             pbind (new_id E) (\<lambda>k.
             pbind (lift_res (mk_candidate k (cp_scope c) (obs_id ob) (rec_key r) (cp_value c)
               (rec_context r) [ev_id ev] 1 (utc n) CANDIDATE_PROPOSED None None)) (\<lambda>cand.
             ingest E (correct_key E c r) (cp_scope c) (cp_key_id c) ob ev cand
               (accept_candidate E cand (cp_occurred_at c) (cp_source c) (Some (cp_reason c))
                 (Some (cp_record_id c))))))))))))))"

definition correct_preference :: "env \<Rightarrow> correct_command \<Rightarrow> (world, preference_result) prog" where
  "correct_preference E c = transaction (correct_body E c)"

subsection \<open>Recall\<close>

text \<open>
  The characters of \<open>[a-z0-9]\<close> under \<open>re.IGNORECASE\<close>: the ASCII letters and digits and the four
  other code points whose case folding is an ASCII letter.
\<close>

definition is_word :: "nat \<Rightarrow> bool" where
  "is_word c \<longleftrightarrow> (97 \<le> c \<and> c \<le> 122) \<or> (65 \<le> c \<and> c \<le> 90) \<or> (48 \<le> c \<and> c \<le> 57) \<or>
     c = 0x130 \<or> c = 0x131 \<or> c = 0x17F \<or> c = 0x212A"

fun word_runs :: "ustr \<Rightarrow> ustr \<Rightarrow> ustr list" where
  "word_runs cur [] = (if cur = [] then [] else [cur])"
| "word_runs cur (c # cs) =
     (if is_word c then word_runs (cur @ [c]) cs
      else (if cur = [] then [] else [cur]) @ word_runs [] cs)"

fun bigrams :: "ustr \<Rightarrow> ustr list" where
  "bigrams (c # d # cs) = [c, d] # bigrams (d # cs)"
| "bigrams _ = []"

definition tokens :: "unidb \<Rightarrow> ustr \<Rightarrow> ustr set" where
  "tokens db text =
     (let lowered = casefold db text;
          cjk = filter (\<lambda>c. 0x3400 \<le> c \<and> c \<le> 0x9fff) lowered
      in set (word_runs [] lowered) \<union> set (map (\<lambda>c. [c]) cjk) \<union> set (bigrams cjk))"

definition lexical_similarity :: "unidb \<Rightarrow> ustr \<Rightarrow> ustr \<Rightarrow> pyfloat" where
  "lexical_similarity db query doc =
     (let q = tokens db query; d = tokens db doc in
      if q = {} \<or> d = {} then 0 else fdiv (of_nat (card (q \<inter> d))) (of_nat (card (q \<union> d))))"

definition passes_relevance_admission ::
  "pyfloat \<Rightarrow> context_sig \<Rightarrow> context_sig \<Rightarrow> pyfloat \<Rightarrow> bool" where
  "passes_relevance_admission semantic stored requested context_score \<longleftrightarrow>
     (if semantic > 0 then True
      else (facets stored \<noteq> [] \<and> facets requested \<noteq> []) \<and> context_score > 0)"

definition weighted_score :: "score_breakdown \<Rightarrow> retrieval_weights \<Rightarrow> pyfloat" where
  "weighted_score b w = min 1
     (fadd (fadd (fadd (fadd (fmul (sb_semantic b) (w_semantic w)) (fmul (sb_context b) (w_context w)))
       (fmul (sb_belief b) (w_belief w))) (fmul (sb_utility b) (w_utility w)))
       (fmul (sb_recency b) (w_recency w)))"

record scored_memory =
  sm_score :: pyfloat
  sm_record :: memory_record
  sm_revision :: memory_revision
  sm_breakdown :: score_breakdown

definition sm_key :: "scored_memory \<Rightarrow> pyfloat \<times> instant \<times> ustr" where
  "sm_key m = (sm_score m, rev_recorded_at (sm_revision m), uuid_str (rev_id (sm_revision m)))"

definition age_days :: "instant \<Rightarrow> instant \<Rightarrow> pyfloat" where
  "age_days valid_at last_evidence =
     max 0 (fdiv (fdiv (of_int (valid_at - last_evidence)) 1000000) 86400)"

text \<open>The body of the loop over the snapshots: nothing when the snapshot is skipped.\<close>

definition score_snapshot ::
  "env \<Rightarrow> world \<Rightarrow> recall_command \<Rightarrow> ustr \<Rightarrow> strategy_snapshot \<Rightarrow> instant \<Rightarrow> instant \<Rightarrow>
   (uuid, pyfloat) dict \<Rightarrow> memory_snapshot \<Rightarrow> scored_memory list res" where
  "score_snapshot E w c query policy valid_at known_at vector_scores sn =
     (let r = snap_record sn; v = snap_revision sn;
          lexical = lexical_similarity (e_db E) query (rec_key r @ [32] @ rev_value v);
          vector = map_of vector_scores (rev_id v);
          semantic = max lexical (case vector of None \<Rightarrow> 0 | Some x \<Rightarrow> x);
          ctx = similarity (rec_context r) (rc_context c);
          belief = bs_confidence (rev_belief v)
      in rbind (utility_for_as_of (e_sha E) w (rc_scope c) (rev_id v) (rc_context c) known_at) (\<lambda>u.
         let utility = utility_mean u;
             recency = e_pow E (fdiv (age_days valid_at (bs_last_evidence_at (rev_belief v)))
               (st_half_life policy))
         in rbind (mk_score_breakdown semantic ctx belief utility recency (Some lexical) vector) (\<lambda>b.
            if \<not> passes_relevance_admission semantic (rec_context r) (rc_context c) ctx then Inr []
            else let score = weighted_score b (st_weights policy) in
              if score \<ge> st_min_score policy
              then Inr [\<lparr>sm_score = score, sm_record = r, sm_revision = v, sm_breakdown = b\<rparr>]
              else Inr [])))"

definition item_of :: "int \<times> scored_memory \<Rightarrow> recalled_item res" where
  "item_of = (\<lambda>(rank, m). mk_recalled_item (rec_id (sm_record m)) (rev_id (sm_revision m))
     (rec_key (sm_record m)) (rev_value (sm_revision m)) (rec_context (sm_record m))
     (utc (rev_valid_from (sm_revision m))) (utc (rev_recorded_at (sm_revision m))) rank
     (sm_score m) (sm_breakdown m) (rev_evidence_ids (sm_revision m)))"

definition rank_items :: "int \<Rightarrow> scored_memory list \<Rightarrow> (int \<times> scored_memory) list" where
  "rank_items limit scored =
     (let top = take (nat limit) (sort_desc sm_key scored) in zip [1..int (length top)] top)"

definition projection_scores ::
  "service \<Rightarrow> recall_command \<Rightarrow> ustr \<Rightarrow> instant \<Rightarrow> instant \<Rightarrow> (world, (uuid, pyfloat) dict) prog" where
  "projection_scores sv c query valid_at known_at =
     (case sv_projection sv of
        None \<Rightarrow> return []
      | Some p \<Rightarrow>
          pbind (asks (\<lambda>w. rp_search p (w_ticks w) (rc_scope c) query (rc_limit c * sv_oversample sv)
            valid_at known_at)) (\<lambda>result.
          pbind (modify (w_projection_available_update (\<lambda>_. Some (ps_available result)))) (\<lambda>_.
          return (dict_of (map (\<lambda>hit. (ph_revision_id hit, ph_score hit)) (ps_hits result))))))"

definition recall :: "env \<Rightarrow> service \<Rightarrow> recall_command \<Rightarrow> (world, recall_trace) prog" where
  "recall E sv c =
     pbind (lift_res (raise_if (\<not> (1 \<le> rc_limit c \<and> rc_limit c \<le> 100))
       (DomainError ''recall limit must be in [1, 100]''))) (\<lambda>_.
     let query = strip (rc_query c) in
     pbind (lift_res (raise_if (query = []) (DomainError ''recall query must not be blank''))) (\<lambda>_.
     pbind (now E) (\<lambda>n.
     pbind (retrieval_policy sv) (\<lambda>policy.
     let valid_at = (case rc_valid_at c of None \<Rightarrow> n | Some t \<Rightarrow> t);
         known_at = (case rc_known_at c of None \<Rightarrow> n | Some t \<Rightarrow> t)
     in
     pbind (lift_res (raise_if (known_at > n) (DomainError ''known_at must not be in the future''))) (\<lambda>_.
     pbind (asks (\<lambda>w. memories_as_of (e_sha E) w (rc_scope c) valid_at known_at)) (\<lambda>snapshots.
     pbind (projection_scores sv c query valid_at known_at) (\<lambda>vector_scores.
     pbind (asks (\<lambda>w. rmap (score_snapshot E w c query policy valid_at known_at vector_scores) snapshots)) (\<lambda>scored.
     pbind (lift_res (rmap item_of (rank_items (rc_limit c) (concat scored)))) (\<lambda>items.
     pbind (new_id E) (\<lambda>i.
     pbind (lift_res (mk_recall_trace i (rc_scope c) query (rc_context c) (st_id policy)
       (st_version policy) items (utc valid_at) (utc known_at) (utc n))) (\<lambda>t.
     pbind (save_trace t) (\<lambda>_.
     return t))))))))))))"

subsection \<open>Outcomes, usage, projections, reads\<close>

definition check_attribution ::
  "outcome_command \<Rightarrow> recall_trace \<Rightarrow> 'z store_scheme \<Rightarrow> unit res" where
  "check_attribution c t s =
     (case ro_usage_id c of
        Some usage_id \<Rightarrow>
          (case usage_of s (ro_scope c) usage_id of
             None \<Rightarrow> Inl (NotFoundError ''memory usage not found in scope'')
           | Some us \<Rightarrow>
               rbind (raise_if (us_trace_id us \<noteq> ro_trace_id c)
                 (AttributionError ''memory usage does not belong to the supplied trace'')) (\<lambda>_.
               raise_if (ro_revision_id c \<notin> set (us_revision_ids us))
                 (AttributionError ''revision was not present in the supplied memory usage'')))
      | None \<Rightarrow> raise_if (\<not> list_ex (\<lambda>i. it_revision_id i = ro_revision_id c) (rt_items t))
          (AttributionError ''revision was not present in the supplied recall trace''))"

definition record_outcome :: "env \<Rightarrow> outcome_command \<Rightarrow> (world, outcome_result) prog" where
  "record_outcome E c = transaction
     (pbind (gets (\<lambda>w. trace_of w (ro_scope c) (ro_trace_id c))) (\<lambda>found.
      case found of
        None \<Rightarrow> throw (NotFoundError ''recall trace not found in scope'')
      | Some t \<Rightarrow>
          pbind (asks (check_attribution c t)) (\<lambda>_.
          pbind (new_id E) (\<lambda>i.
          pbind (now E) (\<lambda>n.
          pbind (lift_res (mk_outcome_event i (ro_scope c) (ro_trace_id c) (ro_revision_id c)
            (ro_kind c) (ro_key_id c) (utc (ro_occurred_at c)) (utc n) (ro_usage_id c) (ro_weight c)
            (ro_note c))) (\<lambda>oc.
          pbind (apply_outcome (e_sha E) oc (rt_context t)) (\<lambda>(stored, utility, created).
          pbind (lift_res (raise_if (\<not> created \<and> oc_note stored \<noteq> oc_note oc)
            (ConflictError ''outcome idempotency key was reused with different data''))) (\<lambda>_.
          return \<lparr>or_outcome = stored, or_utility = utility,
            or_idempotent_replay = (\<not> created)\<rparr>))))))))"

definition record_usage :: "env \<Rightarrow> usage_command \<Rightarrow> (world, usage_result) prog" where
  "record_usage E c = transaction
     (pbind (gets (\<lambda>w. trace_of w (ru_scope c) (ru_trace_id c))) (\<lambda>found.
      case found of
        None \<Rightarrow> throw (NotFoundError ''recall trace not found in scope'')
      | Some t \<Rightarrow>
          pbind (lift_res (project E t (ru_algorithm c) (ru_budget c))) (\<lambda>projection.
          pbind (lift_res (raise_if (rcp_projection_sha256 projection \<noteq> lower (e_db E) (ru_source_sha c))
            (AttributionError ''source projection digest does not match the recall trace''))) (\<lambda>_.
          pbind (lift_res (raise_if (ru_revision_ids c = [] \<or>
              \<not> set (ru_revision_ids c) \<subseteq> set (source_revision_ids projection))
            (AttributionError ''memory usage cited a revision outside the source projection''))) (\<lambda>_.
          pbind (now E) (\<lambda>n.
          pbind (lift_res (raise_if (ru_occurred_at c > n)
            (DomainError ''memory usage occurred_at must not be in the future''))) (\<lambda>_.
          pbind (new_id E) (\<lambda>i.
          pbind (lift_res (mk_memory_usage (e_db E) i (ru_scope c) (ru_trace_id c) (ru_algorithm c)
            (ru_budget c) (ru_source_sha c) (ru_delivered_sha c) (ru_revision_ids c) (ru_key_id c)
            (utc (ru_occurred_at c)) (utc n))) (\<lambda>us.
          pbind (save_usage us) (\<lambda>(stored, created).
          return \<lparr>ur_usage = stored, ur_idempotent_replay = (\<not> created)\<rparr>))))))))))"

definition project_recall_context ::
  "env \<Rightarrow> project_command \<Rightarrow> world \<Rightarrow> recall_context_projection res" where
  "project_recall_context E c w =
     (case trace_of w (pj_scope c) (pj_trace_id c) of
        None \<Rightarrow> Inl (NotFoundError ''recall trace not found in scope'')
      | Some t \<Rightarrow> project E t (pj_algorithm c) (pj_budget c))"

definition history :: "scope \<Rightarrow> uuid \<Rightarrow> world \<Rightarrow> memory_revision list res" where
  "history sc record_id w =
     rbind (snapshot_of w sc record_id) (\<lambda>sn.
     rbind (raise_if (sn = None) (NotFoundError ''memory record not found in scope'')) (\<lambda>_.
     revision_history w sc record_id))"

definition list_preferences :: "env \<Rightarrow> scope \<Rightarrow> (world, memory_snapshot list) prog" where
  "list_preferences E sc =
     pbind (now E) (\<lambda>n.
     pbind (asks (\<lambda>w. memories_as_of (e_sha E) w sc n n)) (\<lambda>snapshots.
     return (sort_key (snapshot_key (e_sha E))
       (filter (\<lambda>sn. rec_kind (snap_record sn) = PREFERENCE) snapshots))))"

end
