(* ===== verification/Acceptance.thy ===== *)
theory Acceptance
  imports Erasure Service
begin

text \<open>
  What the two writing commands compute: the exact world after accepting a candidate, in the two
  cases of a new and a known memory identity, and that the invariant of the world is kept.
\<close>

subsection \<open>The invariant of the world\<close>

definition ids_used :: "'z store_scheme \<Rightarrow> uuid set" where
  "ids_used s = fst ` set (s_observations s) \<union> fst ` set (s_evidence s) \<union> fst ` set (s_candidates s) \<union>
     fst ` set (s_records s) \<union> fst ` set (s_revisions s) \<union> fst ` set (s_traces s) \<union>
     fst ` set (s_usages s) \<union> fst ` set (s_outcomes s)"

definition ids_issued :: "env \<Rightarrow> world \<Rightarrow> bool" where
  "ids_issued E w \<longleftrightarrow> ids_used w \<subseteq> e_ids E ` {..<w_ids w}"

text \<open>Between two commands every candidate is accepted and its revision is in the history.\<close>

definition resolved :: "'z store_scheme \<Rightarrow> candidate \<Rightarrow> bool" where
  "resolved s c \<longleftrightarrow> (\<exists>r v rc. cand_accepted_record_id c = Some r \<and> cand_accepted_revision_id c = Some v \<and>
     map_of (s_records s) r = Some rc \<and> rec_scope rc = cand_scope c \<and> rec_key rc = cand_key c \<and>
     v \<in> set (revision_ids_of s r))"

definition committed :: "'z store_scheme \<Rightarrow> bool" where
  "committed s \<longleftrightarrow> (\<forall>i c. map_of (s_candidates s) i = Some c \<longrightarrow> resolved s c)"

definition world_ok :: "env \<Rightarrow> world \<Rightarrow> bool" where
  "world_ok E w \<longleftrightarrow> store_ok (e_sha E) w \<and> ids_issued E w \<and> committed w"

lemma world_okD:
  assumes "world_ok E w"
  shows "evidence_ok w" "belief_plane_ok (e_sha E) w" "experience_ok w" "ids_issued E w" "committed w"
  using assms by (simp_all add: world_ok_def store_ok_def)

text \<open>
  The generator has not repeated an id so far, nor within the next operation (no command takes more
  than six).  Only finitely many ids of 128 bits exist, so this cannot be asked of all of them.
\<close>

definition ids_fresh :: "env \<Rightarrow> world \<Rightarrow> bool" where
  "ids_fresh E w \<longleftrightarrow> inj_on (e_ids E) {..<w_ids w + 6}"

lemma ids_fresh_mono: "ids_fresh E w' \<Longrightarrow> w_ids w \<le> w_ids w' \<Longrightarrow> ids_fresh E w"
  unfolding ids_fresh_def by (rule inj_on_subset) auto

lemma unissued:
  assumes "ids_issued E w" "ids_fresh E u" "w_ids w \<le> n" "n < w_ids u + 6"
  shows "map_of (s_observations w) (e_ids E n) = None" "map_of (s_evidence w) (e_ids E n) = None"
    "map_of (s_candidates w) (e_ids E n) = None" "map_of (s_records w) (e_ids E n) = None"
    "map_of (s_revisions w) (e_ids E n) = None" "map_of (s_traces w) (e_ids E n) = None"
    "map_of (s_usages w) (e_ids E n) = None" "map_of (s_outcomes w) (e_ids E n) = None"
proof -
  have "e_ids E n \<notin> e_ids E ` {..<w_ids w}" using assms(2-4) by (auto simp: ids_fresh_def dest: inj_onD)
  then have "e_ids E n \<notin> ids_used w" using assms(1) by (auto simp: ids_issued_def)
  then show "map_of (s_observations w) (e_ids E n) = None" "map_of (s_evidence w) (e_ids E n) = None"
    "map_of (s_candidates w) (e_ids E n) = None" "map_of (s_records w) (e_ids E n) = None"
    "map_of (s_revisions w) (e_ids E n) = None" "map_of (s_traces w) (e_ids E n) = None"
    "map_of (s_usages w) (e_ids E n) = None" "map_of (s_outcomes w) (e_ids E n) = None"
    by (simp_all add: ids_used_def map_of_eq_None_iff)
qed

text \<open>Reading ids and the clock.\<close>

definition ticked :: "nat \<Rightarrow> nat \<Rightarrow> world \<Rightarrow> world" where
  "ticked m n w = w\<lparr>w_ids := w_ids w + m, w_ticks := w_ticks w + n\<rparr>"

lemma ticked_fields [simp]:
  "s_observations (ticked m n w) = s_observations w" "s_observation_keys (ticked m n w) = s_observation_keys w"
  "s_evidence (ticked m n w) = s_evidence w" "s_candidates (ticked m n w) = s_candidates w"
  "s_candidate_by_observation (ticked m n w) = s_candidate_by_observation w"
  "s_records (ticked m n w) = s_records w" "s_record_identity (ticked m n w) = s_record_identity w"
  "s_revisions (ticked m n w) = s_revisions w"
  "s_revision_ids_by_record (ticked m n w) = s_revision_ids_by_record w"
  "s_active_revision (ticked m n w) = s_active_revision w" "s_transitions (ticked m n w) = s_transitions w"
  "s_traces (ticked m n w) = s_traces w" "s_usages (ticked m n w) = s_usages w"
  "s_usage_keys (ticked m n w) = s_usage_keys w" "s_outcomes (ticked m n w) = s_outcomes w"
  "s_outcome_keys (ticked m n w) = s_outcome_keys w" "s_utilities (ticked m n w) = s_utilities w"
  "w_ids (ticked m n w) = w_ids w + m" "w_ticks (ticked m n w) = w_ticks w + n"
  by (simp_all add: ticked_def)

lemma ticked_0: "ticked 0 0 w = w"
  by (simp add: ticked_def)

lemma ticked_ticked [simp]: "ticked a b (ticked m n w) = ticked (m + a) (n + b) w"
  by (simp add: ticked_def)

lemma pbind_new_id_ticked: "pbind (new_id E) f w = f (e_ids E (w_ids w)) (ticked 1 0 w)"
  by (simp add: ticked_def)

lemma pbind_now_ticked: "pbind (now E) f w = f (e_clock E (w_ticks w)) (ticked 0 1 w)"
  by (simp add: ticked_def)

declare pbind_new_id [simp del] pbind_now [simp del]
declare pbind_new_id_ticked [simp] pbind_now_ticked [simp]

lemma store_ok_ticked [simp]: "store_ok sha (ticked m n w) = store_ok sha w"
  "evidence_ok (ticked m n w) = evidence_ok w" "belief_plane_ok sha (ticked m n w) = belief_plane_ok sha w"
  "experience_ok (ticked m n w) = experience_ok w"
proof -
  have "evidence_ok a \<Longrightarrow> evidence_ok b" if "a = ticked m n b \<or> b = ticked m n a" for a b
    using that by (elim disjE) (auto elim!: evidence_ok_cong)
  then show "evidence_ok (ticked m n w) = evidence_ok w" by blast
  have "belief_plane_ok sha a \<Longrightarrow> belief_plane_ok sha b" if "a = ticked m n b \<or> b = ticked m n a" for a b
    using that by (elim disjE) (auto elim!: belief_plane_ok_cong)
  then show "belief_plane_ok sha (ticked m n w) = belief_plane_ok sha w" by blast
  have "experience_ok a \<Longrightarrow> experience_ok b" if "a = ticked m n b \<or> b = ticked m n a" for a b
    using that by (elim disjE) (auto elim!: experience_ok_cong)
  then show "experience_ok (ticked m n w) = experience_ok w" by blast
  with \<open>evidence_ok (ticked m n w) = evidence_ok w\<close>
    \<open>belief_plane_ok sha (ticked m n w) = belief_plane_ok sha w\<close>
  show "store_ok sha (ticked m n w) = store_ok sha w" by (simp add: store_ok_def)
qed

lemma revision_ids_of_ticked [simp]: "revision_ids_of (ticked m n w) r = revision_ids_of w r"
  by (simp add: revision_ids_of_def)

lemma snapshot_of_ticked [simp]: "snapshot_of (ticked m n w) sc r = snapshot_of w sc r"
  unfolding snapshot_of_def ticked_fields ..

lemma current_by_identity_ticked [simp]:
  "current_by_identity sha (ticked m n w) sc k ctx = current_by_identity sha w sc k ctx"
  unfolding current_by_identity_def ticked_fields snapshot_of_ticked ..

subsection \<open>Current revisions\<close>

lemma snapshot_total:
  assumes ok: "belief_plane_ok sha s" and r: "map_of (s_records s) i = Some r" "rec_scope r = sc"
  obtains v ids where "snapshot_of s sc i = Inr (Some \<lparr>snap_record = r, snap_revision = v\<rparr>)"
    "map_of (s_revision_ids_by_record s) i = Some ids" "ids \<noteq> []" "rev_id v = last ids" "rec_id r = i"
    "map_of (s_revisions s) (rev_id v) = Some v" "map_of (s_active_revision s) i = Some (rev_id v)"
    "rev_record_id v = i" "rev_sequence v = int (length ids)" "revision_ok v"
proof -
  note D = belief_plane_okD [OF ok]
  have id: "rec_id r = i" using keyedD(3) [OF D(1) r(1)] .
  obtain ids where ids: "map_of (s_revision_ids_by_record s) i = Some ids" using D(2) [of i] r(1) by auto
  from D(4) [OF ids] have ch: "chain_ok s i ids" and act: "map_of (s_active_revision s) i = Some (last ids)"
    by simp_all
  obtain v where v: "map_of (s_revisions s) (last ids) = Some v" "rev_id v = last ids" "rev_record_id v = i"
    "rev_sequence v = int (length ids)" "revision_ok v" by (rule chain_ok_last [OF ch])
  have "snapshot_of s sc i = Inr (Some \<lparr>snap_record = r, snap_revision = v\<rparr>)"
    using r act v id by (simp add: snapshot_of_def mk_memory_snapshot_def)
  then show thesis using that ids act v id ch unfolding chain_ok_def by metis
qed

lemma current_by_identity_none:
  "map_of (s_record_identity s) (sc, k, fingerprint sha ctx) = None \<Longrightarrow>
   current_by_identity sha s sc k ctx = Inr None"
  by (simp add: current_by_identity_def)

lemma current_by_identity_some:
  assumes ok: "belief_plane_ok sha s" and i: "map_of (s_record_identity s) (sc, k, fingerprint sha ctx) = Some i"
  obtains r v ids where "current_by_identity sha s sc k ctx = Inr (Some \<lparr>snap_record = r, snap_revision = v\<rparr>)"
    "map_of (s_records s) i = Some r" "rec_scope r = sc" "rec_key r = k"
    "fingerprint sha (rec_context r) = fingerprint sha ctx" "rec_id r = i"
    "map_of (s_revision_ids_by_record s) i = Some ids" "ids \<noteq> []" "rev_id v = last ids"
    "map_of (s_revisions s) (rev_id v) = Some v" "map_of (s_active_revision s) i = Some (rev_id v)"
    "rev_record_id v = i" "rev_sequence v = int (length ids)" "revision_ok v"
proof -
  from keyedD(5) [OF belief_plane_okD(1) [OF ok] i] obtain r where r: "map_of (s_records s) i = Some r"
    "rec_scope r = sc" "rec_key r = k" "fingerprint sha (rec_context r) = fingerprint sha ctx" by auto
  obtain v ids where "snapshot_of s sc i = Inr (Some \<lparr>snap_record = r, snap_revision = v\<rparr>)"
    "map_of (s_revision_ids_by_record s) i = Some ids" "ids \<noteq> []" "rev_id v = last ids" "rec_id r = i"
    "map_of (s_revisions s) (rev_id v) = Some v" "map_of (s_active_revision s) i = Some (rev_id v)"
    "rev_record_id v = i" "rev_sequence v = int (length ids)" "revision_ok v"
    by (rule snapshot_total [OF ok r(1,2)])
  then show thesis using that r i by (simp add: current_by_identity_def)
qed

subsection \<open>Accepting a candidate\<close>

definition first_belief :: "pyfloat \<Rightarrow> instant \<Rightarrow> ustr \<Rightarrow> belief_state" where
  "first_belief c t source = \<lparr>bs_confidence = c, bs_support_count = 1, bs_contradiction_count = 0,
     bs_source_diversity = 1, bs_last_evidence_at = t, bs_source_keys = [source]\<rparr>"

lemma mk_first_belief:
  "0 \<le> c \<Longrightarrow> c \<le> 1 \<Longrightarrow> stripped source \<Longrightarrow>
   mk_belief_state c 1 0 1 (utc t) [source] = Inr (first_belief c t source)"
  unfolding first_belief_def by (intro mk_belief_state_valid) simp_all

lemma first_belief_ok: "0 \<le> c \<Longrightarrow> c \<le> 1 \<Longrightarrow> stripped source \<Longrightarrow> belief_ok (first_belief c t source)"
  by (simp add: first_belief_def belief_ok_def)

definition accepted :: "candidate \<Rightarrow> uuid \<Rightarrow> uuid \<Rightarrow> candidate" where
  "accepted c r v = c\<lparr>cand_state := CANDIDATE_ACCEPTED, cand_accepted_record_id := Some r,
     cand_accepted_revision_id := Some v\<rparr>"

definition reason_ok :: "ustr option \<Rightarrow> bool" where
  "reason_ok reason \<longleftrightarrow> (\<forall>r. reason = Some r \<longrightarrow> stripped r)"

lemma ropt_reason: "reason_ok reason \<Longrightarrow> ropt (\<lambda>r. require_text r f) reason = Inr reason"
  by (cases reason) (simp_all add: reason_ok_def require_text_stripped)

text \<open>A new identity: a record with its first revision.\<close>

definition new_record :: "env \<Rightarrow> nat \<Rightarrow> instant \<Rightarrow> candidate \<Rightarrow> memory_record" where
  "new_record E n t c = \<lparr>rec_id = e_ids E n, rec_scope = cand_scope c, rec_kind = PREFERENCE,
     rec_key = cand_key c, rec_context = cand_context c, rec_created_at = t\<rparr>"

definition first_revision :: "env \<Rightarrow> nat \<Rightarrow> instant \<Rightarrow> candidate \<Rightarrow> instant \<Rightarrow> ustr \<Rightarrow> memory_revision" where
  "first_revision E n t c valid_from source = \<lparr>rev_id = e_ids E (n + 1), rev_record_id = e_ids E n,
     rev_sequence = 1, rev_value = cand_value c,
     rev_belief = first_belief (cand_confidence c) valid_from source,
     rev_evidence_ids = cand_evidence_ids c, rev_valid_from = valid_from, rev_recorded_at = t,
     rev_supersedes = None\<rparr>"

definition created_transition :: "env \<Rightarrow> nat \<Rightarrow> instant \<Rightarrow> ustr option \<Rightarrow> revision_transition" where
  "created_transition E n t reason = \<lparr>tr_id = e_ids E (n + 2), tr_record_id = e_ids E n, tr_kind = CREATED,
     tr_occurred_at = t, tr_to_revision_id = Some (e_ids E (n + 1)), tr_from_revision_id = None,
     tr_reason = reason\<rparr>"

definition result_of :: "candidate \<Rightarrow> memory_revision \<Rightarrow> preference_result" where
  "result_of c v = \<lparr>pr_observation_id = cand_observation_id c, pr_candidate_id = cand_id c,
     pr_record_id = rev_record_id v, pr_revision_id = rev_id v, pr_sequence = rev_sequence v,
     pr_idempotent_replay = False\<rparr>"

definition after_new :: "env \<Rightarrow> candidate \<Rightarrow> instant \<Rightarrow> ustr \<Rightarrow> ustr option \<Rightarrow> world \<Rightarrow> world" where
  "after_new E c valid_from source reason w =
     (let n = w_ids w; t = e_clock E (w_ticks w) in
      with_candidate (accepted c (e_ids E n) (e_ids E (n + 1)))
        (added (e_sha E) (new_record E n t c) (first_revision E n t c valid_from source)
          (created_transition E n t reason) (ticked 3 1 w)))"

lemma accept_new_eval:
  assumes c: "candidate_ok c" "cand_state c = CANDIDATE_PROPOSED"
    and stored: "map_of (s_candidates w) (cand_id c) \<noteq> None"
    and none: "map_of (s_record_identity w) (cand_scope c, cand_key c, fingerprint (e_sha E) (cand_context c)) = None"
    and src: "stripped source" "reason_ok reason"
  shows "accept_candidate E c valid_from source reason None w =
    (Inr (result_of c (first_revision E (w_ids w) (e_clock E (w_ticks w)) c valid_from source)),
     after_new E c valid_from source reason w)"
proof -
  let ?n = "w_ids w" and ?t = "e_clock E (w_ticks w)"
  have cc: "stripped (cand_key c)" "stripped (cand_value c)" "cand_evidence_ids c \<noteq> []"
    "0 \<le> cand_confidence c" "cand_confidence c \<le> 1" using c by (simp_all add: candidate_ok_def)
  have r: "mk_memory_record i (cand_scope c) PREFERENCE (cand_key c) (cand_context c) (utc t) =
      Inr \<lparr>rec_id = i, rec_scope = cand_scope c, rec_kind = PREFERENCE, rec_key = cand_key c,
        rec_context = cand_context c, rec_created_at = t\<rparr>" for i t
    by (simp add: mk_memory_record_def require_text_stripped cc)
  have v: "mk_memory_revision i j 1 (cand_value c) b (cand_evidence_ids c) (utc s) (utc t) None =
      Inr \<lparr>rev_id = i, rev_record_id = j, rev_sequence = 1, rev_value = cand_value c, rev_belief = b,
        rev_evidence_ids = cand_evidence_ids c, rev_valid_from = s, rev_recorded_at = t,
        rev_supersedes = None\<rparr>" for i j b s t
    by (simp add: mk_memory_revision_def require_text_stripped cc raise_if_def)
  have tr: "mk_revision_transition i j CREATED (utc t) a b reason = Inr \<lparr>tr_id = i, tr_record_id = j,
      tr_kind = CREATED, tr_occurred_at = t, tr_to_revision_id = a, tr_from_revision_id = b,
      tr_reason = reason\<rparr>" for i j t a b
    by (simp add: mk_revision_transition_def ropt_reason src)
  have add: "pbind (add_memory (e_sha E) (new_record E ?n ?t c) (first_revision E ?n ?t c valid_from source)
      (created_transition E ?n ?t reason)) f (ticked 3 1 w) =
      f () (added (e_sha E) (new_record E ?n ?t c) (first_revision E ?n ?t c valid_from source)
         (created_transition E ?n ?t reason) (ticked 3 1 w))" for f :: "unit \<Rightarrow> (world, preference_result) prog"
    by (rule pbind_eval(2) [OF add_memory_eval])
       (simp_all add: none new_record_def first_revision_def created_transition_def)
  have upd: "pbind (update_candidate (accepted c i j)) f (added (e_sha E) r v tr (ticked 3 1 w)) =
      f () (with_candidate (accepted c i j) (added (e_sha E) r v tr (ticked 3 1 w)))"
    for i j r v tr and f :: "unit \<Rightarrow> (world, preference_result) prog"
    by (rule pbind_eval(2) [OF update_candidate_eval]) (use stored in \<open>simp add: accepted_def added_def\<close>)
  show ?thesis
    using add upd cc src
    by (simp add: accept_candidate_def current_by_identity_none none r v tr mk_first_belief pbind_assoc
      accept_proposed [OF c] accepted_def [symmetric] new_record_def first_revision_def
      created_transition_def after_new_def Let_def result_of_def eval_nat_numeral)
qed

text \<open>A known identity: the next revision of its record.\<close>

definition reinforced_belief :: "belief_state \<Rightarrow> pyfloat \<Rightarrow> instant \<Rightarrow> ustr \<Rightarrow> belief_state" where
  "reinforced_belief b e t s =
     \<lparr>bs_confidence = min (flit (995/1000)) (fsub 1 (fmul (fsub 1 (bs_confidence b)) (fsub 1 e))),
      bs_support_count = bs_support_count b + 1, bs_contradiction_count = bs_contradiction_count b,
      bs_source_diversity = (if bs_source_keys b \<noteq> []
        then int (length (sort (remdups (bs_source_keys b @ [s])))) else max (bs_source_diversity b) 1),
      bs_last_evidence_at = max (bs_last_evidence_at b) t,
      bs_source_keys = (if bs_source_keys b \<noteq> [] then sort (remdups (bs_source_keys b @ [s])) else [])\<rparr>"

lemma reinforced_eval:
  "belief_ok b \<Longrightarrow> 0 \<le> e \<Longrightarrow> e \<le> 1 \<Longrightarrow> stripped s \<Longrightarrow>
   reinforced b e (utc t) (Some s) = Inr (reinforced_belief b e t s)"
  unfolding reinforced_belief_def by (rule reinforced_Inr)

lemma reinforced_belief_ok:
  assumes "belief_ok b" "0 \<le> e" "e \<le> 1" "stripped s"
  shows "belief_ok (reinforced_belief b e t s)"
proof -
  have "reinforced b e (utc t) (Some s) = Inr (reinforced_belief b e t s)"
    using assms by (rule reinforced_eval)
  then show ?thesis unfolding reinforced_def Let_def by (auto simp: rbind_Inr intro: mk_belief_state_ok)
qed

definition next_revision ::
  "env \<Rightarrow> nat \<Rightarrow> instant \<Rightarrow> candidate \<Rightarrow> instant \<Rightarrow> ustr \<Rightarrow> memory_revision \<Rightarrow> memory_revision" where
  "next_revision E n t c valid_from source cv = \<lparr>rev_id = e_ids E n, rev_record_id = rev_record_id cv,
     rev_sequence = rev_sequence cv + 1, rev_value = cand_value c,
     rev_belief = (if rev_value cv = cand_value c
       then reinforced_belief (rev_belief cv) (cand_confidence c) valid_from source
       else first_belief (cand_confidence c) valid_from source),
     rev_evidence_ids = (if rev_value cv = cand_value c then rev_evidence_ids cv @ cand_evidence_ids c
       else cand_evidence_ids c),
     rev_valid_from = valid_from, rev_recorded_at = t, rev_supersedes = Some (rev_id cv)\<rparr>"

definition superseded_transition ::
  "env \<Rightarrow> nat \<Rightarrow> instant \<Rightarrow> memory_revision \<Rightarrow> ustr option \<Rightarrow> revision_transition" where
  "superseded_transition E n t cv reason = \<lparr>tr_id = e_ids E (n + 1), tr_record_id = rev_record_id cv,
     tr_kind = SUPERSEDED, tr_occurred_at = t, tr_to_revision_id = Some (e_ids E n),
     tr_from_revision_id = Some (rev_id cv), tr_reason = reason\<rparr>"

definition after_known ::
  "env \<Rightarrow> candidate \<Rightarrow> instant \<Rightarrow> ustr \<Rightarrow> ustr option \<Rightarrow> memory_revision \<Rightarrow> world \<Rightarrow> world" where
  "after_known E c valid_from source reason cv w =
     (let n = w_ids w; t = e_clock E (w_ticks w) in
      with_candidate (accepted c (rev_record_id cv) (e_ids E n))
        (appended (next_revision E n t c valid_from source cv)
          (superseded_transition E n t cv reason) (ticked 2 1 w)))"

lemma accept_known_eval:
  assumes ok: "belief_plane_ok (e_sha E) w"
    and c: "candidate_ok c" "cand_state c = CANDIDATE_PROPOSED"
    and stored: "map_of (s_candidates w) (cand_id c) \<noteq> None"
    and cur: "current_by_identity (e_sha E) w (cand_scope c) (cand_key c) (cand_context c) =
        Inr (Some \<lparr>snap_record = r, snap_revision = cv\<rparr>)"
    and cv: "map_of (s_active_revision w) (rev_record_id cv) = Some (rev_id cv)"
      "map_of (s_revisions w) (rev_id cv) = Some cv" "rec_id r = rev_record_id cv" "revision_ok cv"
    and expected: "expected = None \<or> expected = Some (rec_id r)"
    and src: "stripped source" "reason_ok reason"
  shows "accept_candidate E c valid_from source reason expected w =
    (Inr (result_of c (next_revision E (w_ids w) (e_clock E (w_ticks w)) c valid_from source cv)),
     after_known E c valid_from source reason cv w)"
proof -
  let ?n = "w_ids w" and ?t = "e_clock E (w_ticks w)"
  let ?v = "next_revision E ?n ?t c valid_from source cv"
  let ?tr = "superseded_transition E ?n ?t cv reason"
  have cc: "stripped (cand_value c)" "cand_evidence_ids c \<noteq> []"
    "0 \<le> cand_confidence c" "cand_confidence c \<le> 1" using c by (simp_all add: candidate_ok_def)
  have b: "belief_ok (rev_belief cv)" "1 \<le> rev_sequence cv" using cv(4) by (simp_all add: revision_ok_def)
  have v: "mk_memory_revision i j (rev_sequence cv + 1) (cand_value c) b ev (utc s) (utc t) p =
      Inr \<lparr>rev_id = i, rev_record_id = j, rev_sequence = rev_sequence cv + 1, rev_value = cand_value c,
        rev_belief = b, rev_evidence_ids = ev, rev_valid_from = s, rev_recorded_at = t,
        rev_supersedes = p\<rparr>" if "ev \<noteq> []" for i j b s t p ev
    using that b by (simp add: mk_memory_revision_def require_text_stripped cc raise_if_def)
  have tr: "mk_revision_transition i j SUPERSEDED (utc t) a b reason = Inr \<lparr>tr_id = i, tr_record_id = j,
      tr_kind = SUPERSEDED, tr_occurred_at = t, tr_to_revision_id = a, tr_from_revision_id = b,
      tr_reason = reason\<rparr>" for i j t a b
    by (simp add: mk_revision_transition_def ropt_reason src)
  have app: "pbind (append_revision (rev_id cv) ?v ?tr) f (ticked 2 1 w) = f () (appended ?v ?tr (ticked 2 1 w))"
    for f :: "unit \<Rightarrow> (world, preference_result) prog"
    by (rule pbind_eval(2) [OF append_revision_eval [where sha = "e_sha E"]])
       (simp_all add: ok cv next_revision_def superseded_transition_def)
  have upd: "pbind (update_candidate (accepted c i j)) f (appended v tr (ticked 2 1 w)) =
      f () (with_candidate (accepted c i j) (appended v tr (ticked 2 1 w)))"
    for i j v tr and f :: "unit \<Rightarrow> (world, preference_result) prog"
    by (rule pbind_eval(2) [OF update_candidate_eval]) (use stored in \<open>simp add: accepted_def appended_def\<close>)
  have belief: "(if rev_value cv = cand_value c
      then rbind (reinforced (rev_belief cv) (cand_confidence c) (utc valid_from) (Some source))
         (\<lambda>b. Inr (b, rev_evidence_ids cv @ cand_evidence_ids c))
      else rbind (mk_belief_state (cand_confidence c) 1 0 1 (utc valid_from) [source])
         (\<lambda>b. Inr (b, cand_evidence_ids c))) = Inr (rev_belief ?v, rev_evidence_ids ?v)"
    using cc src b by (simp add: reinforced_eval mk_first_belief next_revision_def)
  have ne: "rev_evidence_ids ?v \<noteq> []" using cc by (simp add: next_revision_def)
  have exp: "raise_if ((\<exists>y. expected = Some y) \<and> Some (rev_record_id cv) \<noteq> expected) e = Inr ()" for e
    using expected cv(3) by (auto simp: raise_if_def)
  have shape: "\<lparr>rev_id = e_ids E ?n, rev_record_id = rev_record_id cv, rev_sequence = rev_sequence cv + 1,
      rev_value = cand_value c, rev_belief = rev_belief ?v, rev_evidence_ids = rev_evidence_ids ?v,
      rev_valid_from = valid_from, rev_recorded_at = ?t, rev_supersedes = Some (rev_id cv)\<rparr> = ?v"
    by (simp add: next_revision_def)
  have trans: "\<lparr>tr_id = e_ids E (Suc ?n), tr_record_id = rev_record_id cv, tr_kind = SUPERSEDED,
      tr_occurred_at = ?t, tr_to_revision_id = Some (e_ids E ?n), tr_from_revision_id = Some (rev_id cv),
      tr_reason = reason\<rparr> = ?tr"
    by (simp add: superseded_transition_def)
  have fields: "rev_id ?v = e_ids E ?n" "rev_record_id ?v = rev_record_id cv"
    by (simp_all add: next_revision_def)
  show ?thesis
    unfolding accept_candidate_def
    by (simp add: cur Let_def pbind_assoc belief exp v [OF ne] shape trans tr cv(3)
      app [unfolded numeral_2_eq_2 One_nat_def] upd [unfolded numeral_2_eq_2 One_nat_def]
      accept_proposed [OF c] accepted_def [symmetric] after_known_def result_of_def fields
      eval_nat_numeral del: if_split)
qed

end
