(* ===== verification/Remembering.thy ===== *)
theory Remembering
  imports Acceptance
begin

text \<open>
  Remembering and correcting a preference as whole commands: the ingestion staged before the
  candidate is accepted, the effect on the history of the record, the invariant of the world, and
  the idempotent replay.
\<close>

subsection \<open>The effect on the history\<close>

text \<open>\<open>t\<close> is \<open>s\<close> with the one revision \<open>v\<close> appended to the history of its record.\<close>

definition extended :: "'z store_scheme \<Rightarrow> 'z store_scheme \<Rightarrow> memory_revision \<Rightarrow> bool" where
  "extended s t v \<longleftrightarrow> map_of (s_revisions s) (rev_id v) = None \<and>
     map_of (s_revisions t) = (map_of (s_revisions s))(rev_id v \<mapsto> v) \<and>
     (\<forall>r. revision_ids_of t r =
        revision_ids_of s r @ (if r = rev_record_id v then [rev_id v] else [])) \<and>
     map_of (s_records s) \<subseteq>\<^sub>m map_of (s_records t) \<and>
     rev_sequence v = int (length (revision_ids_of s (rev_record_id v))) + 1"

lemma resolved_mono:
  assumes "resolved s c" "map_of (s_records s) \<subseteq>\<^sub>m map_of (s_records t)"
    "\<And>r. set (revision_ids_of s r) \<subseteq> set (revision_ids_of t r)"
  shows "resolved t c"
  using assms unfolding resolved_def by (meson map_leD subsetD)

lemma resolved_extended: "resolved s c \<Longrightarrow> extended s t v \<Longrightarrow> resolved t c"
  by (erule resolved_mono) (auto simp: extended_def)

lemma extended_trans_same:
  "extended s t v \<Longrightarrow> s_revisions s = s_revisions r \<Longrightarrow> s_records s = s_records r \<Longrightarrow>
   (\<And>i. revision_ids_of s i = revision_ids_of r i) \<Longrightarrow> extended r t v"
  by (simp add: extended_def)

lemma extended_new:
  assumes ok: "belief_plane_ok sha s" and new: "map_of (s_records s) (rec_id r) = None"
    "map_of (s_revisions s) (rev_id v) = None"
    and v: "rev_record_id v = rec_id r" "rev_sequence v = 1"
  shows "extended s (added sha r v tr s) v"
proof -
  have "map_of (s_revision_ids_by_record s) (rec_id r) = None"
    using belief_plane_okD(2) [OF ok, of "rec_id r"] new by simp
  then have "revision_ids_of s (rec_id r) = []" by (simp add: revision_ids_of_def)
  then show ?thesis using new v
    by (auto simp: extended_def added_def revision_ids_of_def map_le_def dom_def split: if_splits)
qed

lemma extended_appended:
  assumes ids: "map_of (s_revision_ids_by_record s) (rev_record_id v) = Some ids"
    and new: "map_of (s_revisions s) (rev_id v) = None" and v: "rev_sequence v = int (length ids) + 1"
  shows "extended s (appended v tr s) v"
  using assms by (auto simp: extended_def appended_def revision_ids_of_def map_le_def)

lemma with_candidate_fields [simp]:
  "s_revisions (with_candidate c s) = s_revisions s" "s_records (with_candidate c s) = s_records s"
  "s_record_identity (with_candidate c s) = s_record_identity s"
  "s_revision_ids_by_record (with_candidate c s) = s_revision_ids_by_record s"
  "s_active_revision (with_candidate c s) = s_active_revision s"
  "s_transitions (with_candidate c s) = s_transitions s" "s_traces (with_candidate c s) = s_traces s"
  "s_usages (with_candidate c s) = s_usages s" "s_usage_keys (with_candidate c s) = s_usage_keys s"
  "s_outcomes (with_candidate c s) = s_outcomes s" "s_outcome_keys (with_candidate c s) = s_outcome_keys s"
  "s_utilities (with_candidate c s) = s_utilities s" "revision_ids_of (with_candidate c s) r = revision_ids_of s r"
  by (simp_all add: with_candidate_def revision_ids_of_def)

lemma extended_with_candidate [simp]: "extended s (with_candidate c t) v = extended s t v"
  by (simp add: extended_def)

lemma belief_with_candidate [simp]: "belief_plane_ok sha (with_candidate c s) = belief_plane_ok sha s"
proof -
  have "belief_plane_ok sha a \<Longrightarrow> belief_plane_ok sha b" if "a = with_candidate c b \<or> b = with_candidate c a" for a b
    using that by (elim disjE) (auto elim!: belief_plane_ok_cong)
  then show ?thesis by blast
qed

lemma accepted_fields [simp]:
  "cand_id (accepted c r v) = cand_id c" "cand_scope (accepted c r v) = cand_scope c"
  "cand_key (accepted c r v) = cand_key c" "cand_value (accepted c r v) = cand_value c"
  "cand_context (accepted c r v) = cand_context c" "cand_confidence (accepted c r v) = cand_confidence c"
  "cand_observation_id (accepted c r v) = cand_observation_id c"
  "cand_accepted_record_id (accepted c r v) = Some r" "cand_accepted_revision_id (accepted c r v) = Some v"
  "candidate_ok (accepted c r v) = candidate_ok c"
  by (simp_all add: accepted_def candidate_ok_def)

text \<open>The tables accepting does not touch.\<close>

definition same_elsewhere :: "'z store_scheme \<Rightarrow> 'z store_scheme \<Rightarrow> bool" where
  "same_elsewhere s t \<longleftrightarrow> s_observations t = s_observations s \<and> s_observation_keys t = s_observation_keys s \<and>
     s_evidence t = s_evidence s \<and> s_candidate_by_observation t = s_candidate_by_observation s \<and>
     s_traces t = s_traces s \<and> s_usages t = s_usages s \<and> s_usage_keys t = s_usage_keys s \<and>
     s_outcomes t = s_outcomes s \<and> s_outcome_keys t = s_outcome_keys s \<and> s_utilities t = s_utilities s \<and>
     s_strategies t = s_strategies s \<and> s_strategy_activations t = s_strategy_activations s"

subsection \<open>Accepting, once more\<close>

text \<open>
  Both cases at once.  The record named in the result is the one of the candidate's identity, and
  the current revision, when there was one, is the one superseded.
\<close>

definition next_of :: "candidate \<Rightarrow> instant \<Rightarrow> ustr \<Rightarrow> memory_revision option \<Rightarrow> memory_revision \<Rightarrow> bool" where
  "next_of c valid_from source current v \<longleftrightarrow>
     rev_value v = cand_value c \<and> rev_valid_from v = valid_from \<and>
     (case current of
        None \<Rightarrow> rev_sequence v = 1 \<and> rev_supersedes v = None \<and>
          rev_belief v = first_belief (cand_confidence c) valid_from source \<and>
          rev_evidence_ids v = cand_evidence_ids c
      | Some cv \<Rightarrow> rev_record_id v = rev_record_id cv \<and> rev_sequence v = rev_sequence cv + 1 \<and>
          rev_supersedes v = Some (rev_id cv) \<and>
          (if rev_value cv = cand_value c
           then rev_belief v = reinforced_belief (rev_belief cv) (cand_confidence c) valid_from source \<and>
             rev_evidence_ids v = rev_evidence_ids cv @ cand_evidence_ids c
           else rev_belief v = first_belief (cand_confidence c) valid_from source \<and>
             rev_evidence_ids v = cand_evidence_ids c))"

definition identity_of :: "env \<Rightarrow> candidate \<Rightarrow> scope \<times> ustr \<times> ustr" where
  "identity_of E c = (cand_scope c, cand_key c, fingerprint (e_sha E) (cand_context c))"

lemma first_revision_ok:
  "candidate_ok c \<Longrightarrow> stripped source \<Longrightarrow> revision_ok (first_revision E n t c valid_from source)"
  by (simp add: revision_ok_def first_revision_def candidate_ok_def first_belief_ok)

lemma next_revision_ok:
  "candidate_ok c \<Longrightarrow> stripped source \<Longrightarrow> revision_ok cv \<Longrightarrow>
   revision_ok (next_revision E n t c valid_from source cv)"
  by (simp add: revision_ok_def next_revision_def candidate_ok_def first_belief_ok reinforced_belief_ok)

lemma accept_ok:
  assumes ok: "belief_plane_ok (e_sha E) w" and fresh: "\<And>n. w_ids w \<le> n \<Longrightarrow> n < w_ids w + 3 \<Longrightarrow>
      map_of (s_records w) (e_ids E n) = None \<and> map_of (s_revisions w) (e_ids E n) = None"
    and c: "candidate_ok c" "cand_state c = CANDIDATE_PROPOSED"
    and stored: "map_of (s_candidates w) (cand_id c) \<noteq> None"
    and expected: "expected = None \<or> expected = map_of (s_record_identity w) (identity_of E c) \<and> expected \<noteq> None"
    and src: "stripped source" "reason_ok reason"
  obtains v w' current rc where
    "accept_candidate E c valid_from source reason expected w = (Inr (result_of c v), w')"
    "extended w w' v" "next_of c valid_from source current v" "belief_plane_ok (e_sha E) w'"
    "same_elsewhere w w'"
    "s_candidates w' = dict_set (cand_id c) (accepted c (rev_record_id v) (rev_id v)) (s_candidates w)"
    "current = (case map_of (s_record_identity w) (identity_of E c) of None \<Rightarrow> None
       | Some i \<Rightarrow> map_of (s_revisions w) (last (revision_ids_of w i)))"
    "map_of (s_records w') (rev_record_id v) = Some rc" "rec_scope rc = cand_scope c"
    "rec_key rc = cand_key c" "map_of (s_record_identity w') (identity_of E c) = Some (rev_record_id v)"
    "\<exists>n. rev_id v = e_ids E n \<and> w_ids w \<le> n \<and> n < w_ids w'"
    "\<forall>i. map_of (s_records w') i \<noteq> None \<longrightarrow> map_of (s_records w) i \<noteq> None \<or> (\<exists>n < w_ids w'. i = e_ids E n)"
    "w_ids w \<le> w_ids w'" "rev_recorded_at v = e_clock E (w_ticks w)"
proof (cases "map_of (s_record_identity w) (identity_of E c)")
  case None
  let ?n = "w_ids w" and ?t = "e_clock E (w_ticks w)"
  let ?r = "new_record E ?n ?t c" and ?v = "first_revision E ?n ?t c valid_from source"
  let ?tr = "created_transition E ?n ?t reason"
  let ?w = "ticked 3 1 w" and ?w' = "after_new E c valid_from source reason w"
  have none: "expected = None" using expected None by auto
  have ids: "map_of (s_records w) (e_ids E ?n) = None" "map_of (s_revisions w) (e_ids E (?n + 1)) = None"
    using fresh [of ?n] fresh [of "?n + 1"] by simp_all
  have key: "map_of (s_record_identity w) (cand_scope c, cand_key c, fingerprint (e_sha E) (cand_context c)) = None"
    using None by (simp add: identity_of_def)
  have w': "?w' = with_candidate (accepted c (e_ids E ?n) (e_ids E (?n + 1))) (added (e_sha E) ?r ?v ?tr ?w)"
    by (simp add: after_new_def Let_def)
  have ext: "extended w ?w' ?v"
    unfolding w' extended_with_candidate
    by (rule extended_trans_same [OF extended_new]) (use ok ids in \<open>simp_all add: new_record_def first_revision_def\<close>)
  have "belief_plane_ok (e_sha E) (added (e_sha E) ?r ?v ?tr ?w)"
    by (rule added_belief_ok)
       (use ok ids key first_revision_ok [OF c(1) src(1)] in
         \<open>simp_all add: new_record_def first_revision_def created_transition_def\<close>)
  then have bel: "belief_plane_ok (e_sha E) ?w'" unfolding w' by simp
  have issued: "\<exists>k < w_ids w + 3. e_ids E (w_ids w) = e_ids E k" by (rule exI [of _ "w_ids w"]) simp
  show thesis
    by (rule that [OF _ ext _ bel, where current = None and rc = ?r])
       (use accept_new_eval [OF c stored key src] none None issued in
         \<open>auto simp: w' next_of_def first_revision_def new_record_def same_elsewhere_def added_def
            with_candidate_def ticked_def identity_of_def intro: exI [of _ "Suc (w_ids w)"]\<close>)
next
  case (Some i)
  obtain r cv ids where cur: "current_by_identity (e_sha E) w (cand_scope c) (cand_key c) (cand_context c) =
      Inr (Some \<lparr>snap_record = r, snap_revision = cv\<rparr>)"
    and r: "map_of (s_records w) i = Some r" "rec_scope r = cand_scope c" "rec_key r = cand_key c" "rec_id r = i"
    and ids: "map_of (s_revision_ids_by_record w) i = Some ids" "ids \<noteq> []" "rev_id cv = last ids"
    and cv: "map_of (s_revisions w) (rev_id cv) = Some cv" "map_of (s_active_revision w) i = Some (rev_id cv)"
      "rev_record_id cv = i" "rev_sequence cv = int (length ids)" "revision_ok cv"
    using current_by_identity_some [OF ok Some [unfolded identity_of_def]] by metis
  let ?n = "w_ids w" and ?t = "e_clock E (w_ticks w)"
  let ?v = "next_revision E ?n ?t c valid_from source cv" and ?tr = "superseded_transition E ?n ?t cv reason"
  let ?w = "ticked 2 1 w" and ?w' = "after_known E c valid_from source reason cv w"
  have exp: "expected = None \<or> expected = Some (rec_id r)" using expected Some r(4) by auto
  have new: "map_of (s_revisions w) (e_ids E ?n) = None" using fresh [of ?n] by simp
  have w': "?w' = with_candidate (accepted c i (e_ids E ?n)) (appended ?v ?tr ?w)"
    using cv(3) by (simp add: after_known_def Let_def)
  have ext: "extended w ?w' ?v"
    unfolding w' extended_with_candidate
    by (rule extended_trans_same [OF extended_appended [where ids = ids]])
       (use ids new cv in \<open>simp_all add: next_revision_def\<close>)
  have "belief_plane_ok (e_sha E) (appended ?v ?tr ?w)"
    by (rule appended_belief_ok [where ids = ids])
       (use ok ids new cv next_revision_ok [OF c(1) src(1) cv(5)] in
         \<open>simp_all add: next_revision_def superseded_transition_def\<close>)
  then have bel: "belief_plane_ok (e_sha E) ?w'" unfolding w' by simp
  have ev: "accept_candidate E c valid_from source reason expected w = (Inr (result_of c ?v), ?w')"
    using accept_known_eval [OF ok c stored cur _ _ _ cv(5) exp src] cv r(4) by simp
  show thesis
    by (rule that [OF ev ext _ bel, where current = "Some cv" and rc = r])
       (use Some r ids cv in
         \<open>auto simp: w' next_of_def next_revision_def same_elsewhere_def appended_def
            with_candidate_def ticked_def revision_ids_of_def intro: exI [of _ "w_ids w"]\<close>)
qed

subsection \<open>Staging the evidence\<close>

text \<open>What one request asks for, whichever of the two commands it comes from.\<close>

record request =
  rq_scope :: scope
  rq_kind :: observation_kind
  rq_source :: ustr
  rq_text :: ustr
  rq_key_id :: ustr
  rq_occurred_at :: instant
  rq_metadata :: "(ustr \<times> ustr) list"
  rq_key :: ustr
  rq_value :: ustr
  rq_context :: context_sig
  rq_confidence :: pyfloat

definition request_ok :: "request \<Rightarrow> bool" where
  "request_ok q \<longleftrightarrow> stripped (rq_source q) \<and> stripped (rq_text q) \<and> stripped (rq_key_id q) \<and>
     stripped (rq_key q) \<and> stripped (rq_value q) \<and> 0 \<le> rq_confidence q \<and> rq_confidence q \<le> 1"

definition staged_observation :: "env \<Rightarrow> request \<Rightarrow> world \<Rightarrow> observation" where
  "staged_observation E q w = \<lparr>obs_id = e_ids E (w_ids w), obs_scope = rq_scope q, obs_kind = rq_kind q,
     obs_source = rq_source q, obs_content = rq_text q, obs_idempotency_key = rq_key_id q,
     obs_occurred_at = rq_occurred_at q, obs_ingested_at = e_clock E (w_ticks w),
     obs_metadata = sort (rq_metadata q)\<rparr>"

definition staged_evidence :: "env \<Rightarrow> request \<Rightarrow> world \<Rightarrow> evidence_span" where
  "staged_evidence E q w = \<lparr>ev_id = e_ids E (w_ids w + 1), ev_observation_id = e_ids E (w_ids w),
     ev_quote = rq_text q, ev_stance = SUPPORTS, ev_start_offset = 0,
     ev_end_offset = int (length (rq_text q))\<rparr>"

definition staged_candidate :: "env \<Rightarrow> request \<Rightarrow> world \<Rightarrow> candidate" where
  "staged_candidate E q w = \<lparr>cand_id = e_ids E (w_ids w + 2), cand_scope = rq_scope q,
     cand_observation_id = e_ids E (w_ids w), cand_key = rq_key q, cand_value = rq_value q,
     cand_context = rq_context q, cand_evidence_ids = [e_ids E (w_ids w + 1)],
     cand_confidence = rq_confidence q, cand_proposed_at = e_clock E (w_ticks w),
     cand_state = CANDIDATE_PROPOSED, cand_accepted_record_id = None, cand_accepted_revision_id = None\<rparr>"

definition staged :: "env \<Rightarrow> request \<Rightarrow> world \<Rightarrow> world" where
  "staged E q w = ingested (staged_observation E q w) (staged_evidence E q w) (staged_candidate E q w)
     (ticked 3 1 w)"

lemma staged_candidate_ok:
  "request_ok q \<Longrightarrow> candidate_ok (staged_candidate E q w) \<and> cand_state (staged_candidate E q w) = CANDIDATE_PROPOSED"
  by (simp add: staged_candidate_def candidate_ok_def request_ok_def)

lemma mk_observation_eval:
  "stripped source \<Longrightarrow> stripped text \<Longrightarrow> stripped key \<Longrightarrow>
   mk_observation i sc kind source text key (utc t) (utc n) meta = Inr \<lparr>obs_id = i, obs_scope = sc,
     obs_kind = kind, obs_source = source, obs_content = text, obs_idempotency_key = key,
     obs_occurred_at = t, obs_ingested_at = n, obs_metadata = sort meta\<rparr>"
  by (simp add: mk_observation_def require_text_stripped)

lemma mk_evidence_eval:
  "stripped text \<Longrightarrow> mk_evidence_span i ob text SUPPORTS 0 (Some (int (length text))) =
     Inr \<lparr>ev_id = i, ev_observation_id = ob, ev_quote = text, ev_stance = SUPPORTS, ev_start_offset = 0,
       ev_end_offset = int (length text)\<rparr>"
  by (simp add: mk_evidence_span_def require_text_stripped raise_if_def stripped_def Let_def)

lemma mk_candidate_eval:
  "stripped key \<Longrightarrow> stripped value \<Longrightarrow> 0 \<le> conf \<Longrightarrow> conf \<le> 1 \<Longrightarrow> ev \<noteq> [] \<Longrightarrow>
   mk_candidate i sc ob key value ctx ev conf (utc t) CANDIDATE_PROPOSED None None =
     Inr \<lparr>cand_id = i, cand_scope = sc, cand_observation_id = ob, cand_key = key, cand_value = value,
       cand_context = ctx, cand_evidence_ids = ev, cand_confidence = conf, cand_proposed_at = t,
       cand_state = CANDIDATE_PROPOSED, cand_accepted_record_id = None, cand_accepted_revision_id = None\<rparr>"
  by (simp add: mk_candidate_def require_text_stripped raise_if_def)

lemma ingest_eval:
  assumes "map_of (s_observation_keys w) (rq_scope q, rq_key_id q) = None"
  shows "ingest E k sc key (staged_observation E q w) (staged_evidence E q w) (staged_candidate E q w)
    continue (ticked 3 1 w) = continue (staged E q w)"
proof -
  have "save_ingestion (staged_observation E q w) (staged_evidence E q w) (staged_candidate E q w) (ticked 3 1 w) =
      (Inr (), staged E q w)"
    unfolding staged_def
    by (rule save_ingestion_eval)
       (use assms in \<open>simp_all add: staged_observation_def staged_evidence_def staged_candidate_def\<close>)
  then have "catch (pbind (save_ingestion (staged_observation E q w) (staged_evidence E q w)
      (staged_candidate E q w)) (\<lambda>_. return (None :: preference_result option))) h (ticked 3 1 w) =
      (Inr None, staged E q w)" for h
    by (intro catch_eval(2)) (simp add: pbind_eval(2))
  then have "pbind (catch (pbind (save_ingestion (staged_observation E q w) (staged_evidence E q w)
      (staged_candidate E q w)) (\<lambda>_. return (None :: preference_result option))) h) f (ticked 3 1 w) =
      f None (staged E q w)" for h and f :: "preference_result option \<Rightarrow> (world, preference_result) prog"
    by (rule pbind_eval(2))
  then show ?thesis unfolding ingest_def by simp
qed

definition remember_request :: "remember_command \<Rightarrow> request" where
  "remember_request c = \<lparr>rq_scope = rm_scope c, rq_kind = MESSAGE, rq_source = rm_source c,
     rq_text = rm_evidence_text c, rq_key_id = rm_key_id c, rq_occurred_at = rm_occurred_at c,
     rq_metadata = [], rq_key = rm_key c, rq_value = rm_value c, rq_context = rm_context c,
     rq_confidence = rm_confidence c\<rparr>"

definition correct_request :: "correct_command \<Rightarrow> memory_record \<Rightarrow> request" where
  "correct_request c r = \<lparr>rq_scope = cp_scope c, rq_kind = USER_FEEDBACK, rq_source = cp_source c,
     rq_text = cp_evidence_text c, rq_key_id = cp_key_id c, rq_occurred_at = cp_occurred_at c,
     rq_metadata = [(uc ''correction_reason'', cp_reason c)], rq_key = rec_key r, rq_value = cp_value c,
     rq_context = rec_context r, rq_confidence = 1\<rparr>"

lemma remember_body_new:
  assumes q: "request_ok (remember_request c)"
    and key: "map_of (s_observation_keys w) (rm_scope c, rm_key_id c) = None"
  shows "remember_body E c w =
    accept_candidate E (staged_candidate E (remember_request c) w) (rm_occurred_at c) (rm_source c) None None
      (staged E (remember_request c) w)"
proof -
  let ?q = "remember_request c"
  have s: "stripped (rm_source c)" "stripped (rm_evidence_text c)" "stripped (rm_key_id c)"
    "stripped (rm_key c)" "stripped (rm_value c)" "0 \<le> rm_confidence c" "rm_confidence c \<le> 1"
    using q by (simp_all add: request_ok_def remember_request_def)
  have "ingest E k (rm_scope c) (rm_key_id c) (staged_observation E ?q w) (staged_evidence E ?q w)
      (staged_candidate E ?q w) f (ticked 3 1 w) = f (staged E ?q w)" for k f
    by (rule ingest_eval) (simp add: key remember_request_def)
  then show ?thesis
    by (simp add: remember_body_def observation_by_idempotency_def key mk_observation_eval mk_evidence_eval
        mk_candidate_eval s staged_observation_def staged_evidence_def staged_candidate_def
        remember_request_def eval_nat_numeral)
qed

lemma correct_body_new:
  assumes q: "request_ok (correct_request c r)"
    and cur: "snapshot_of w (cp_scope c) (cp_record_id c) = Inr (Some \<lparr>snap_record = r, snap_revision = v\<rparr>)"
    and pref: "rec_kind r = PREFERENCE"
    and expected: "cp_expected_revision_id c = None \<or> cp_expected_revision_id c = Some (rev_id v)"
    and key: "map_of (s_observation_keys w) (cp_scope c, cp_key_id c) = None"
  shows "correct_body E c w =
    accept_candidate E (staged_candidate E (correct_request c r) w) (cp_occurred_at c) (cp_source c)
      (Some (cp_reason c)) (Some (cp_record_id c)) (staged E (correct_request c r) w)"
proof -
  let ?q = "correct_request c r"
  have s: "stripped (cp_source c)" "stripped (cp_evidence_text c)" "stripped (cp_key_id c)"
    "stripped (rec_key r)" "stripped (cp_value c)"
    using q by (simp_all add: request_ok_def correct_request_def)
  have e: "raise_if ((\<exists>y. cp_expected_revision_id c = Some y) \<and> Some (rev_id v) \<noteq> cp_expected_revision_id c) x = Inr ()"
    for x using expected by (auto simp: raise_if_def)
  have "ingest E k (cp_scope c) (cp_key_id c) (staged_observation E ?q w) (staged_evidence E ?q w)
      (staged_candidate E ?q w) f (ticked 3 1 w) = f (staged E ?q w)" for k f
    by (rule ingest_eval) (simp add: key correct_request_def)
  then show ?thesis
    by (simp add: correct_body_def cur Let_def pref e observation_by_idempotency_def key mk_observation_eval
        mk_evidence_eval mk_candidate_eval s staged_observation_def staged_evidence_def
        staged_candidate_def correct_request_def eval_nat_numeral)
qed

end
