(* ===== verification/Commands_Correct.thy ===== *)
theory Commands_Correct
  imports Remembering
begin

text \<open>
  The two writing commands from start to end: on a fresh idempotency key exactly one revision is
  appended to the history of the identity and the invariant of the world is kept; on a used key the
  first result is returned and nothing changes; on any error nothing changes.
\<close>

subsection \<open>A committed request\<close>

lemma ids_used_iff:
  "i \<in> ids_used w \<longleftrightarrow> map_of (s_observations w) i \<noteq> None \<or> map_of (s_evidence w) i \<noteq> None \<or>
     map_of (s_candidates w) i \<noteq> None \<or> map_of (s_records w) i \<noteq> None \<or> map_of (s_revisions w) i \<noteq> None \<or>
     map_of (s_traces w) i \<noteq> None \<or> map_of (s_usages w) i \<noteq> None \<or> map_of (s_outcomes w) i \<noteq> None"
  by (simp add: ids_used_def map_of_eq_None_iff disj_ac)

lemma ids_issued_iff:
  "ids_issued E w \<longleftrightarrow> (\<forall>i. map_of (s_observations w) i \<noteq> None \<or> map_of (s_evidence w) i \<noteq> None \<or>
     map_of (s_candidates w) i \<noteq> None \<or> map_of (s_records w) i \<noteq> None \<or> map_of (s_revisions w) i \<noteq> None \<or>
     map_of (s_traces w) i \<noteq> None \<or> map_of (s_usages w) i \<noteq> None \<or> map_of (s_outcomes w) i \<noteq> None \<longrightarrow>
     (\<exists>n < w_ids w. i = e_ids E n))"
proof -
  have "ids_issued E w \<longleftrightarrow> (\<forall>i. i \<in> ids_used w \<longrightarrow> (\<exists>n < w_ids w. i = e_ids E n))"
    by (auto simp: ids_issued_def)
  then show ?thesis by (simp only: ids_used_iff)
qed

lemma staged_fields:
  "s_revisions (staged E q w) = s_revisions w" "s_records (staged E q w) = s_records w"
  "s_record_identity (staged E q w) = s_record_identity w"
  "s_revision_ids_by_record (staged E q w) = s_revision_ids_by_record w"
  "s_active_revision (staged E q w) = s_active_revision w" "s_transitions (staged E q w) = s_transitions w"
  "s_traces (staged E q w) = s_traces w" "s_usages (staged E q w) = s_usages w"
  "s_usage_keys (staged E q w) = s_usage_keys w" "s_outcomes (staged E q w) = s_outcomes w"
  "s_outcome_keys (staged E q w) = s_outcome_keys w" "s_utilities (staged E q w) = s_utilities w"
  "revision_ids_of (staged E q w) r = revision_ids_of w r" "w_ids (staged E q w) = w_ids w + 3"
  "w_ticks (staged E q w) = w_ticks w + 1"
  "s_observations (staged E q w) =
     dict_set (e_ids E (w_ids w)) (staged_observation E q w) (s_observations w)"
  "s_observation_keys (staged E q w) =
     dict_set (rq_scope q, rq_key_id q) (e_ids E (w_ids w)) (s_observation_keys w)"
  "s_evidence (staged E q w) = dict_set (e_ids E (w_ids w + 1)) (staged_evidence E q w) (s_evidence w)"
  "s_candidates (staged E q w) =
     dict_set (e_ids E (w_ids w + 2)) (staged_candidate E q w) (s_candidates w)"
  "s_candidate_by_observation (staged E q w) =
     dict_set (e_ids E (w_ids w)) (e_ids E (w_ids w + 2)) (s_candidate_by_observation w)"
  "s_strategies (staged E q w) = s_strategies w"
  "s_strategy_activations (staged E q w) = s_strategy_activations w"
  by (simp_all add: staged_def ingested_def revision_ids_of_def staged_observation_def
      staged_evidence_def staged_candidate_def ticked_def)

lemma staged_ok:
  assumes ok: "world_ok E w" and inj: "ids_fresh E w" and q: "request_ok q"
    and key: "map_of (s_observation_keys w) (rq_scope q, rq_key_id q) = None"
  shows "evidence_ok (staged E q w)" "belief_plane_ok (e_sha E) (staged E q w)"
proof -
  note D = world_okD [OF ok]
  note un = unissued [OF D(4) inj]
  show "evidence_ok (staged E q w)"
    unfolding staged_def
    by (rule ingested_evidence_ok)
       (use D(1) un key staged_candidate_ok [OF q, of E w] in
         \<open>simp_all add: staged_observation_def staged_evidence_def staged_candidate_def\<close>)
  show "belief_plane_ok (e_sha E) (staged E q w)"
    by (rule belief_plane_ok_cong [OF D(2)]) (simp_all add: staged_fields)
qed

lemma committed_after:
  assumes com: "committed w" and ext: "extended w w' v"
    and cands: "map_of (s_candidates w') = (map_of (s_candidates w))(i \<mapsto> c)" and new: "resolved w' c"
  shows "committed w'"
  using com resolved_extended [OF _ ext] new unfolding committed_def cands by auto

lemma commit_ok:
  assumes ok: "world_ok E w" and inj: "ids_fresh E w" and q: "request_ok q"
    and key: "map_of (s_observation_keys w) (rq_scope q, rq_key_id q) = None"
    and expected: "expected = None \<or> expected \<noteq> None \<and>
      expected = map_of (s_record_identity w) (rq_scope q, rq_key q, fingerprint (e_sha E) (rq_context q))"
    and reason: "reason_ok reason"
  obtains v w' current c where
    "accept_candidate E (staged_candidate E q w) (rq_occurred_at q) (rq_source q) reason expected (staged E q w) =
       (Inr (result_of (staged_candidate E q w) v), w')"
    "world_ok E w'" "extended w w' v"
    "next_of (staged_candidate E q w) (rq_occurred_at q) (rq_source q) current v"
    "current = (case map_of (s_record_identity w) (rq_scope q, rq_key q, fingerprint (e_sha E) (rq_context q)) of
       None \<Rightarrow> None | Some i \<Rightarrow> map_of (s_revisions w) (last (revision_ids_of w i)))"
    "observation_by_idempotency w' (rq_scope q) (rq_key_id q) = Some (staged_observation E q w)"
    "candidate_for_observation w' (rq_scope q) (e_ids E (w_ids w)) = Some c"
    "c = accepted (staged_candidate E q w) (rev_record_id v) (rev_id v)"
    "map_of (s_record_identity w') (rq_scope q, rq_key q, fingerprint (e_sha E) (rq_context q)) =
       Some (rev_record_id v)"
    "\<exists>rc. map_of (s_records w') (rev_record_id v) = Some rc \<and> rec_scope rc = rq_scope q"
proof -
  let ?c = "staged_candidate E q w" and ?S = "staged E q w"
  note D = world_okD [OF ok]
  note un = unissued [OF D(4) inj]
  note S = staged_ok [OF ok inj q key]
  have c: "candidate_ok ?c" "cand_state ?c = CANDIDATE_PROPOSED" using staged_candidate_ok [OF q, of E w] by simp_all
  have cf: "cand_id ?c = e_ids E (w_ids w + 2)" "cand_scope ?c = rq_scope q" "cand_key ?c = rq_key q"
    "cand_context ?c = rq_context q" "cand_observation_id ?c = e_ids E (w_ids w)"
    by (simp_all add: staged_candidate_def)
  have idn: "identity_of E ?c = (rq_scope q, rq_key q, fingerprint (e_sha E) (rq_context q))"
    by (simp add: identity_of_def cf)
  have fresh: "map_of (s_records ?S) (e_ids E n) = None \<and> map_of (s_revisions ?S) (e_ids E n) = None"
    if "w_ids ?S \<le> n" "n < w_ids ?S + 3" for n
    using un [of n] that by (simp add: staged_fields)
  have stored: "map_of (s_candidates ?S) (cand_id ?c) \<noteq> None" by (simp add: staged_fields cf)
  have exp: "expected = None \<or> expected = map_of (s_record_identity ?S) (identity_of E ?c) \<and> expected \<noteq> None"
    using expected by (auto simp: staged_fields idn)
  have src: "stripped (rq_source q)" using q by (simp add: request_ok_def)
  obtain v w' current rc where
    run: "accept_candidate E ?c (rq_occurred_at q) (rq_source q) reason expected ?S = (Inr (result_of ?c v), w')"
    and ext: "extended ?S w' v" and nxt: "next_of ?c (rq_occurred_at q) (rq_source q) current v"
    and bel: "belief_plane_ok (e_sha E) w'" and same: "same_elsewhere ?S w'"
    and cands: "s_candidates w' = dict_set (cand_id ?c) (accepted ?c (rev_record_id v) (rev_id v)) (s_candidates ?S)"
    and cur: "current = (case map_of (s_record_identity ?S) (identity_of E ?c) of None \<Rightarrow> None
       | Some i \<Rightarrow> map_of (s_revisions ?S) (last (revision_ids_of ?S i)))"
    and rc: "map_of (s_records w') (rev_record_id v) = Some rc" "rec_scope rc = cand_scope ?c" "rec_key rc = cand_key ?c"
    and idt: "map_of (s_record_identity w') (identity_of E ?c) = Some (rev_record_id v)"
    and vid: "\<exists>n. rev_id v = e_ids E n \<and> w_ids ?S \<le> n \<and> n < w_ids w'"
    and recs: "\<forall>i. map_of (s_records w') i \<noteq> None \<longrightarrow> map_of (s_records ?S) i \<noteq> None \<or> (\<exists>n < w_ids w'. i = e_ids E n)"
    and le: "w_ids ?S \<le> w_ids w'" and "rev_recorded_at v = e_clock E (w_ticks ?S)"
    by (rule accept_ok [OF S(2) fresh c stored exp src reason])
  let ?a = "accepted ?c (rev_record_id v) (rev_id v)"
  have ext': "extended w w' v" by (rule extended_trans_same [OF ext]) (simp_all add: staged_fields)
  have mc: "map_of (s_candidates w') = (map_of (s_candidates w))(e_ids E (w_ids w + 2) \<mapsto> ?a)"
    by (simp add: cands cf staged_fields fun_eq_iff)
  have res: "resolved w' ?a"
    using rc ext unfolding resolved_def by (force simp: extended_def)
  have "evidence_ok (with_candidate ?a ?S)"
    by (rule update_candidate_ok [OF S(1), where b = ?c]) (use c in \<open>simp_all add: staged_fields cf\<close>)
  then have ev: "evidence_ok w'"
    by (rule evidence_ok_cong) (use same cands in \<open>simp_all add: same_elsewhere_def with_candidate_simps\<close>)
  have exper: "experience_ok w'"
    by (rule experience_ok_cong [OF D(3)]) (use same in \<open>simp_all add: same_elsewhere_def staged_fields\<close>)
  have com: "committed w'" by (rule committed_after [OF D(5) ext' mc res])
  have "ids_issued E w'"
    unfolding ids_issued_iff
  proof (intro allI impI)
    fix i
    assume i: "map_of (s_observations w') i \<noteq> None \<or> map_of (s_evidence w') i \<noteq> None \<or>
     map_of (s_candidates w') i \<noteq> None \<or> map_of (s_records w') i \<noteq> None \<or> map_of (s_revisions w') i \<noteq> None \<or>
     map_of (s_traces w') i \<noteq> None \<or> map_of (s_usages w') i \<noteq> None \<or> map_of (s_outcomes w') i \<noteq> None"
    have old: "\<exists>n < w_ids w'. i = e_ids E n" if "i \<in> ids_used w"
    proof -
      from D(4) that obtain n where "n < w_ids w" "i = e_ids E n" by (auto simp: ids_issued_def)
      then show ?thesis using le by (auto simp: staged_fields intro!: exI [of _ n])
    qed
    have new: "\<exists>n < w_ids w'. e_ids E (w_ids w + k) = e_ids E n" if "k < 3" for k
      using le that by (intro exI [of _ "w_ids w + k"]) (simp add: staged_fields)
    have mr: "map_of (s_revisions w') = (map_of (s_revisions w))(rev_id v \<mapsto> v)" using ext' by (simp add: extended_def)
    have tab: "i \<in> ids_used w \<or> i = e_ids E (w_ids w + 0) \<or> i = e_ids E (w_ids w + 1) \<or>
        i = e_ids E (w_ids w + 2) \<or> i = rev_id v \<or> (\<exists>n < w_ids w'. i = e_ids E n)"
      using i same recs unfolding same_elsewhere_def mc mr
      by (auto simp: staged_fields ids_used_iff split: if_splits)
    show "\<exists>n < w_ids w'. i = e_ids E n"
      using tab old new [of 0] new [of 1] new [of 2] vid by auto
  qed
  then have wok: "world_ok E w'" using ev bel exper com by (simp add: world_ok_def store_ok_def)
  have obs: "observation_by_idempotency w' (rq_scope q) (rq_key_id q) = Some (staged_observation E q w)"
    using same by (simp add: same_elsewhere_def observation_by_idempotency_def staged_fields)
  have cfo: "candidate_for_observation w' (rq_scope q) (e_ids E (w_ids w)) = Some ?a"
    using same by (simp add: same_elsewhere_def candidate_for_observation_def staged_fields mc cf)
  show thesis
  proof (rule that [OF run wok ext' nxt _ obs cfo refl])
    show "current = (case map_of (s_record_identity w) (rq_scope q, rq_key q, fingerprint (e_sha E) (rq_context q)) of
       None \<Rightarrow> None | Some i \<Rightarrow> map_of (s_revisions w) (last (revision_ids_of w i)))"
      using cur by (simp only: staged_fields idn)
    show "map_of (s_record_identity w') (rq_scope q, rq_key q, fingerprint (e_sha E) (rq_context q)) =
       Some (rev_record_id v)" using idt by (simp only: idn)
    show "\<exists>rc. map_of (s_records w') (rev_record_id v) = Some rc \<and> rec_scope rc = rq_scope q"
      using rc cf by (intro exI [of _ rc]) simp
  qed
qed

subsection \<open>The commands on a fresh key\<close>

lemma transaction_Inr: "m s = (Inr x, t) \<Longrightarrow> transaction m s = (Inr x, t)"
  by (simp add: transaction_def)

lemma remember_fresh:
  assumes ok: "world_ok E w" and inj: "ids_fresh E w" and c: "request_ok (remember_request c)"
    and key: "map_of (s_observation_keys w) (rm_scope c, rm_key_id c) = None"
  obtains v w' current cand where
    "remember_preference E c w = (Inr (result_of (staged_candidate E (remember_request c) w) v), w')"
    "world_ok E w'" "extended w w' v" "rev_value v = rm_value c" "rev_valid_from v = rm_occurred_at c"
    "next_of (staged_candidate E (remember_request c) w) (rm_occurred_at c) (rm_source c) current v"
    "current = (case map_of (s_record_identity w) (rm_scope c, rm_key c, fingerprint (e_sha E) (rm_context c)) of
       None \<Rightarrow> None | Some i \<Rightarrow> map_of (s_revisions w) (last (revision_ids_of w i)))"
    "observation_by_idempotency w' (rm_scope c) (rm_key_id c) = Some (staged_observation E (remember_request c) w)"
    "candidate_for_observation w' (rm_scope c) (e_ids E (w_ids w)) = Some cand"
    "cand = accepted (staged_candidate E (remember_request c) w) (rev_record_id v) (rev_id v)"
    "map_of (s_record_identity w') (rm_scope c, rm_key c, fingerprint (e_sha E) (rm_context c)) =
       Some (rev_record_id v)"
    "\<exists>rc. map_of (s_records w') (rev_record_id v) = Some rc \<and> rec_scope rc = rm_scope c"
proof -
  let ?q = "remember_request c"
  have sel: "rq_scope ?q = rm_scope c" "rq_key_id ?q = rm_key_id c" "rq_key ?q = rm_key c"
    "rq_context ?q = rm_context c" "rq_occurred_at ?q = rm_occurred_at c" "rq_source ?q = rm_source c"
    by (simp_all add: remember_request_def)
  have none: "None = None \<or> None \<noteq> None \<and> None = map_of (s_record_identity w)
      (rq_scope ?q, rq_key ?q, fingerprint (e_sha E) (rq_context ?q))" by simp
  have no_reason: "reason_ok None" by (simp add: reason_ok_def)
  obtain v w' current cand where
    run: "accept_candidate E (staged_candidate E ?q w) (rm_occurred_at c) (rm_source c) None None (staged E ?q w) =
       (Inr (result_of (staged_candidate E ?q w) v), w')"
    and rest: "world_ok E w'" "extended w w' v"
      "next_of (staged_candidate E ?q w) (rm_occurred_at c) (rm_source c) current v"
      "current = (case map_of (s_record_identity w) (rm_scope c, rm_key c, fingerprint (e_sha E) (rm_context c)) of
         None \<Rightarrow> None | Some i \<Rightarrow> map_of (s_revisions w) (last (revision_ids_of w i)))"
      "observation_by_idempotency w' (rm_scope c) (rm_key_id c) = Some (staged_observation E ?q w)"
      "candidate_for_observation w' (rm_scope c) (e_ids E (w_ids w)) = Some cand"
      "cand = accepted (staged_candidate E ?q w) (rev_record_id v) (rev_id v)"
      "map_of (s_record_identity w') (rm_scope c, rm_key c, fingerprint (e_sha E) (rm_context c)) =
         Some (rev_record_id v)"
      "\<exists>rc. map_of (s_records w') (rev_record_id v) = Some rc \<and> rec_scope rc = rm_scope c"
    by (rule commit_ok [OF ok inj c key [folded sel(1,2)] none no_reason, unfolded sel])
  have "remember_preference E c w = (Inr (result_of (staged_candidate E ?q w) v), w')"
    unfolding remember_preference_def
    by (rule transaction_Inr) (simp only: remember_body_new [OF c key] run)
  moreover have "rev_value v = rm_value c" "rev_valid_from v = rm_occurred_at c"
    using rest(3) by (simp_all add: next_of_def staged_candidate_def remember_request_def)
  ultimately show thesis using that rest by blast
qed

subsection \<open>The commands on a used key\<close>

lemma revision_history_total:
  assumes ok: "belief_plane_ok sha s" and r: "map_of (s_records s) i = Some r" "rec_scope r = sc"
  obtains vs where "revision_history s sc i = Inr vs" "map rev_id vs = revision_ids_of s i"
    "\<forall>v \<in> set vs. map_of (s_revisions s) (rev_id v) = Some v"
proof -
  note D = belief_plane_okD [OF ok]
  obtain ids where ids: "map_of (s_revision_ids_by_record s) i = Some ids" using D(2) [of i] r(1) by auto
  have ch: "chain_ok s i ids" using D(4) [OF ids] by simp
  have at: "\<exists>v. map_of (s_revisions s) j = Some v \<and> rev_id v = j" if "j \<in> set ids" for j
    using ch that unfolding chain_ok_def in_set_conv_nth by blast
  let ?vs = "map (\<lambda>j. the (map_of (s_revisions s) j)) ids"
  have "rmap (dict_index (s_revisions s)) ids = Inr ?vs"
    by (rule rmap_total) (use at in \<open>force simp: dict_index_def\<close>)
  moreover have "map rev_id ?vs = ids" unfolding map_map by (rule map_idI) (use at in force)
  moreover have "\<forall>v \<in> set ?vs. map_of (s_revisions s) (rev_id v) = Some v" using at by force
  ultimately show thesis using that [of ?vs] r ids by (simp add: revision_history_def revision_ids_of_def)
qed

text \<open>The answer to a used key: the stored result when the request is the same one, else a conflict.\<close>

lemma existing_eval:
  assumes ok: "world_ok E w" and c: "candidate_for_observation w (obs_scope ob) (obs_id ob) = Some c"
  obtains r v where "cand_accepted_record_id c = Some r" "cand_accepted_revision_id c = Some (rev_id v)"
    "map_of (s_revisions w) (rev_id v) = Some v"
    "existing_preference_result E k ob w = (if same_request E k ob c
       then Inr \<lparr>pr_observation_id = obs_id ob, pr_candidate_id = cand_id c, pr_record_id = r,
         pr_revision_id = rev_id v, pr_sequence = rev_sequence v, pr_idempotent_replay = True\<rparr>
       else Inl (ConflictError ''idempotency key was reused for a different preference request''))"
proof -
  note D = world_okD [OF ok]
  obtain i where "map_of (s_candidates w) i = Some c" and scp: "cand_scope c = obs_scope ob"
    using c by (auto simp: candidate_for_observation_def split: option.splits if_splits)
  with D(5) obtain r j rc where acc: "cand_accepted_record_id c = Some r" "cand_accepted_revision_id c = Some j"
    and rc: "map_of (s_records w) r = Some rc" "rec_scope rc = cand_scope c" and j: "j \<in> set (revision_ids_of w r)"
    unfolding committed_def resolved_def by blast
  obtain sn where sn: "snapshot_of w (cand_scope c) r = Inr (Some sn)" using snapshot_total [OF D(2) rc] by metis
  obtain vs where vs: "revision_history w (cand_scope c) r = Inr vs" "map rev_id vs = revision_ids_of w r"
    "\<forall>v \<in> set vs. map_of (s_revisions w) (rev_id v) = Some v"
    using revision_history_total [OF D(2) rc] by metis
  have "\<exists>v \<in> set vs. rev_id v = j" using j vs(2) by (metis imageE image_set)
  then obtain v where v: "find (\<lambda>v. rev_id v = j) vs = Some v" "v \<in> set vs" "rev_id v = j"
    by (cases "find (\<lambda>v. rev_id v = j) vs") (auto simp: find_None_iff find_Some_iff)
  show thesis
  proof (rule that)
    show "cand_accepted_record_id c = Some r" "cand_accepted_revision_id c = Some (rev_id v)" using acc v by simp_all
    show "map_of (s_revisions w) (rev_id v) = Some v" using vs v by blast
    show "existing_preference_result E k ob w = (if same_request E k ob c
       then Inr \<lparr>pr_observation_id = obs_id ob, pr_candidate_id = cand_id c, pr_record_id = r,
         pr_revision_id = rev_id v, pr_sequence = rev_sequence v, pr_idempotent_replay = True\<rparr>
       else Inl (ConflictError ''idempotency key was reused for a different preference request''))"
      using c acc sn vs(1) v by (simp add: existing_preference_result_def)
  qed
qed

lemma restore_same [simp]: "restore_store s s = s"
  by (cases s) (simp add: restore_store_def store.defs)

lemma remember_used_key:
  assumes ob: "observation_by_idempotency w (rm_scope c) (rm_key_id c) = Some ob"
  shows "remember_preference E c w = (existing_preference_result E (remember_key E c) ob w, w)"
  using ob by (cases "existing_preference_result E (remember_key E c) ob w")
    (simp_all add: remember_preference_def transaction_def remember_body_def)

lemma remember_same_request:
  assumes c: "request_ok (remember_request c)"
  shows "same_request E (remember_key E c) (staged_observation E (remember_request c) w)
    (accepted (staged_candidate E (remember_request c) w) r v)"
  by (simp add: same_request_def remember_key_def staged_observation_def staged_candidate_def
      remember_request_def accepted_def dict_of_def)

lemma remember_twice:
  assumes ok: "world_ok E w" and inj: "ids_fresh E w" and c: "request_ok (remember_request c)"
    and key: "map_of (s_observation_keys w) (rm_scope c, rm_key_id c) = None"
  obtains r w' where "remember_preference E c w = (Inr r, w')" "\<not> pr_idempotent_replay r"
    "remember_preference E c w' = (Inr (r\<lparr>pr_idempotent_replay := True\<rparr>), w')"
proof -
  let ?q = "remember_request c" and ?ob = "staged_observation E (remember_request c) w"
  obtain v w' cand where
    run: "remember_preference E c w = (Inr (result_of (staged_candidate E ?q w) v), w')"
    and ok': "world_ok E w'" and ext: "extended w w' v"
    and ob: "observation_by_idempotency w' (rm_scope c) (rm_key_id c) = Some ?ob"
    and cand: "candidate_for_observation w' (rm_scope c) (e_ids E (w_ids w)) = Some cand"
    and cd: "cand = accepted (staged_candidate E ?q w) (rev_record_id v) (rev_id v)"
    by (rule remember_fresh [OF ok inj c key])
  have obs: "obs_scope ?ob = rm_scope c" "obs_id ?ob = e_ids E (w_ids w)"
    by (simp_all add: staged_observation_def remember_request_def)
  obtain r u where acc: "cand_accepted_record_id cand = Some r" "cand_accepted_revision_id cand = Some (rev_id u)"
    and u: "map_of (s_revisions w') (rev_id u) = Some u"
    and ev: "existing_preference_result E (remember_key E c) ?ob w' =
      (if same_request E (remember_key E c) ?ob cand
       then Inr \<lparr>pr_observation_id = obs_id ?ob, pr_candidate_id = cand_id cand, pr_record_id = r,
         pr_revision_id = rev_id u, pr_sequence = rev_sequence u, pr_idempotent_replay = True\<rparr>
       else Inl (ConflictError ''idempotency key was reused for a different preference request''))"
    by (rule existing_eval [OF ok' cand [folded obs], of "remember_key E c"])
  have "u = v" using acc u ext by (simp add: cd extended_def)
  with acc ev remember_same_request [OF c, of E w] remember_used_key [OF ob, of E]
  have "remember_preference E c w' = (Inr ((result_of (staged_candidate E ?q w) v)\<lparr>pr_idempotent_replay := True\<rparr>), w')"
    by (simp add: cd result_of_def obs(2) staged_candidate_def)
  moreover have "\<not> pr_idempotent_replay (result_of (staged_candidate E ?q w) v)" by (simp add: result_of_def)
  ultimately show thesis using that run by blast
qed

subsection \<open>Correcting\<close>

lemma correct_fresh:
  assumes ok: "world_ok E w" and inj: "ids_fresh E w" and c: "request_ok (correct_request c r)"
    and reason: "stripped (cp_reason c)"
    and r: "map_of (s_records w) (cp_record_id c) = Some r" "rec_scope r = cp_scope c" "rec_kind r = PREFERENCE"
    and active: "map_of (s_active_revision w) (cp_record_id c) = Some (rev_id old)"
      "map_of (s_revisions w) (rev_id old) = Some old"
    and expected: "cp_expected_revision_id c = None \<or> cp_expected_revision_id c = Some (rev_id old)"
    and key: "map_of (s_observation_keys w) (cp_scope c, cp_key_id c) = None"
  obtains v w' where
    "correct_preference E c w = (Inr (result_of (staged_candidate E (correct_request c r) w) v), w')"
    "world_ok E w'" "extended w w' v" "rev_value v = cp_value c" "rev_record_id v = cp_record_id c"
    "rev_supersedes v = Some (rev_id old)" "rev_sequence v = rev_sequence old + 1"
proof -
  let ?q = "correct_request c r"
  note D = world_okD [OF ok]
  have sel: "rq_scope ?q = cp_scope c" "rq_key_id ?q = cp_key_id c" "rq_key ?q = rec_key r"
    "rq_context ?q = rec_context r" "rq_occurred_at ?q = cp_occurred_at c" "rq_source ?q = cp_source c"
    by (simp_all add: correct_request_def)
  obtain v0 ids where cur: "snapshot_of w (cp_scope c) (cp_record_id c) = Inr (Some \<lparr>snap_record = r, snap_revision = v0\<rparr>)"
    and ids: "map_of (s_revision_ids_by_record w) (cp_record_id c) = Some ids" "ids \<noteq> []" "rev_id v0 = last ids"
    and v0: "rec_id r = cp_record_id c" "map_of (s_revisions w) (rev_id v0) = Some v0"
      "map_of (s_active_revision w) (cp_record_id c) = Some (rev_id v0)" "rev_record_id v0 = cp_record_id c"
      "rev_sequence v0 = int (length ids)" "revision_ok v0"
    by (rule snapshot_total [OF D(2) r(1,2)])
  have "rev_id v0 = rev_id old" using v0(3) active(1) by (metis option.inject)
  then have old: "v0 = old" using v0(2) active(2) by (metis option.inject)
  have idn: "map_of (s_record_identity w) (cp_scope c, rec_key r, fingerprint (e_sha E) (rec_context r)) =
      Some (cp_record_id c)"
    using keyedD(4) [OF belief_plane_okD(1) [OF D(2)] r(1)] r(2) by simp
  have exp: "Some (cp_record_id c) = None \<or> Some (cp_record_id c) \<noteq> None \<and>
      Some (cp_record_id c) = map_of (s_record_identity w)
        (rq_scope ?q, rq_key ?q, fingerprint (e_sha E) (rq_context ?q))" by (simp add: sel idn)
  have rsn: "reason_ok (Some (cp_reason c))" using reason by (simp add: reason_ok_def)
  obtain v w' current where
    run: "accept_candidate E (staged_candidate E ?q w) (cp_occurred_at c) (cp_source c) (Some (cp_reason c))
       (Some (cp_record_id c)) (staged E ?q w) = (Inr (result_of (staged_candidate E ?q w) v), w')"
    and rest: "world_ok E w'" "extended w w' v"
      "next_of (staged_candidate E ?q w) (cp_occurred_at c) (cp_source c) current v"
      "current = (case map_of (s_record_identity w) (cp_scope c, rec_key r, fingerprint (e_sha E) (rec_context r)) of
         None \<Rightarrow> None | Some i \<Rightarrow> map_of (s_revisions w) (last (revision_ids_of w i)))"
    by (rule commit_ok [OF ok inj c key [folded sel(1,2)] exp rsn, unfolded sel])
  have "current = Some old" using rest(4) idn ids v0(2) old by (simp add: revision_ids_of_def)
  with rest(3) v0(4) old have nx: "rev_value v = cp_value c" "rev_record_id v = cp_record_id c"
    "rev_supersedes v = Some (rev_id old)" "rev_sequence v = rev_sequence old + 1"
    by (simp_all add: next_of_def staged_candidate_def correct_request_def)
  have "correct_preference E c w = (Inr (result_of (staged_candidate E ?q w) v), w')"
    unfolding correct_preference_def
    by (rule transaction_Inr) (simp only: correct_body_new [OF c cur r(3) expected [folded old] key] run)
  then show thesis using that rest nx by blast
qed

text \<open>A correction of a superseded revision is refused, and nothing changes.\<close>

lemma correct_stale:
  assumes ok: "world_ok E w"
    and r: "map_of (s_records w) (cp_record_id c) = Some r" "rec_scope r = cp_scope c" "rec_kind r = PREFERENCE"
    and stale: "cp_expected_revision_id c = Some i" "map_of (s_active_revision w) (cp_record_id c) \<noteq> Some i"
    and key: "map_of (s_observation_keys w) (cp_scope c, cp_key_id c) = None"
  shows "correct_preference E c w = (Inl (ConflictError ''expected revision is no longer active''), w)"
proof -
  obtain v where "snapshot_of w (cp_scope c) (cp_record_id c) = Inr (Some \<lparr>snap_record = r, snap_revision = v\<rparr>)"
    "map_of (s_active_revision w) (cp_record_id c) = Some (rev_id v)"
    using snapshot_total [OF world_okD(2) [OF ok] r(1,2)] by metis
  then show ?thesis using r(3) stale key
    by (simp add: correct_preference_def transaction_def correct_body_def observation_by_idempotency_def Let_def)
qed

lemma correct_used_key:
  assumes r: "snapshot_of w (cp_scope c) (cp_record_id c) = Inr (Some \<lparr>snap_record = r, snap_revision = v\<rparr>)"
    "rec_kind r = PREFERENCE"
    and ob: "observation_by_idempotency w (cp_scope c) (cp_key_id c) = Some ob"
  shows "correct_preference E c w = (existing_preference_result E (correct_key E c r) ob w, w)"
  using r ob by (cases "existing_preference_result E (correct_key E c r) ob w")
    (simp_all add: correct_preference_def transaction_def correct_body_def Let_def)

subsection \<open>Atomicity\<close>

lemma transaction_Inl: "transaction m s = (Inl e, t) \<Longrightarrow> store.truncate t = store.truncate s"
  by (auto simp: transaction_def restore_store_def store.defs split: prod.splits sum.splits)

end
