(* ===== verification/CompressionCorrect.thy ===== *)
theory CompressionCorrect
  imports Compression "HOL-Library.Sublist"
begin

text \<open>
  The compressor on a valid trace: it never fails for a budget in range, its document stays within
  the budget, every recalled item is either included once or counted as omitted, every included
  source is attributed to the content it produced, and nothing is omitted while everything fits.
\<close>

subsection \<open>Lists\<close>

lemma distinct_mset_subset:
  assumes ys: "distinct ys" and sub: "mset xs \<subseteq># mset ys"
  shows "distinct xs"
  unfolding distinct_count_atmost_1
proof
  fix a
  have "count (mset ys) a \<le> 1"
    using ys [unfolded distinct_count_atmost_1, rule_format, of a] by (simp split: if_splits)
  then have "count (mset xs) a \<le> 1" using mset_subset_eq_count [OF sub, of a] by linarith
  moreover have "a \<in> set xs \<Longrightarrow> 0 < count (mset xs) a" "a \<notin> set xs \<Longrightarrow> count (mset xs) a = 0"
    by (simp_all add: count_eq_zero_iff)
  ultimately show "count (mset xs) a = (if a \<in> set xs then 1 else 0)"
    by presburger
qed

lemma length_join: "length (join [c] xs) = sum_list (map length xs) + (length xs - 1)"
  by (induction xs rule: induct_list012) simp_all

lemma length_document:
  "length (document xs) = 15 + sum_list (map length xs) + (length xs - 1)"
  by (simp add: document_def length_join)

lemma length_document_mono: "mset xs \<subseteq># mset ys \<Longrightarrow> length (document xs) \<le> length (document ys)"
proof -
  assume sub: "mset xs \<subseteq># mset ys"
  then obtain zs where zs: "mset ys = mset (xs @ zs)" by (metis ex_mset mset_append subset_mset.le_iff_add)
  have "sum_list (map length ys) = sum_list (map length (xs @ zs))"
    using zs by (metis mset_map sum_mset_sum_list)
  moreover have "length ys = length (xs @ zs)" using zs by (metis size_mset)
  ultimately show ?thesis by (simp add: length_document)
qed

subsection \<open>Candidates\<close>

definition source_of :: "recalled_item \<Rightarrow> projection_source" where
  "source_of i = \<lparr>src_record_id = it_record_id i, src_revision_id = it_revision_id i,
     src_rank = it_rank i, src_score = it_score i\<rparr>"

definition segment_of :: "env \<Rightarrow> recalled_item \<Rightarrow> candidate_segment" where
  "segment_of E i = \<lparr>cs_content = item_content E i, cs_sources = [source_of i]\<rparr>"

lemma candidate_of_eval:
  "1 \<le> it_rank i \<Longrightarrow> in_unit (it_score i) \<Longrightarrow> candidate_of E i = Inr (segment_of E i)"
  by (simp add: candidate_of_def mk_projection_source_def raise_if_def in_unit_def segment_of_def source_of_def)

lemma stripped_item_content: "stripped (item_content E i)"
  by (simp add: item_content_def stripped_def is_space_def)

subsection \<open>Deduplication\<close>

definition all_sources :: "candidate_segment list \<Rightarrow> projection_source list" where
  "all_sources cs = concat (map cs_sources cs)"

lemma dict_append_sources:
  "dict_ok d \<Longrightarrow> mset (concat (map snd (dict_set k ((case map_of d k of None \<Rightarrow> [] | Some s \<Rightarrow> s) @ n) d))) =
     mset (concat (map snd d)) + mset n"
proof (induction d)
  case (Cons p d)
  then have "dict_ok d" "map_of d (fst p) = None" by (auto simp: dict_ok_def map_of_eq_None_iff)
  with Cons.IH show ?case by (cases p) auto
qed simp

lemma dedup_fold:
  assumes "dict_ok d"
  shows "dict_ok (foldl dedup_step d cs) \<and>
    mset (concat (map snd (foldl dedup_step d cs))) = mset (concat (map snd d)) + mset (all_sources cs) \<and>
    mset (map fst (foldl dedup_step d cs)) \<subseteq># mset (map fst d) + mset (map cs_content cs)"
  using assms
proof (induction cs arbitrary: d)
  case (Cons c cs)
  let ?d = "dedup_step d c"
  have ok: "dict_ok ?d" using Cons.prems by (simp add: dedup_step_def)
  have src: "mset (concat (map snd ?d)) = mset (concat (map snd d)) + mset (cs_sources c)"
    unfolding dedup_step_def by (rule dict_append_sources [OF Cons.prems])
  have keys: "mset (map fst ?d) \<subseteq># mset (map fst d) + {#cs_content c#}"
    by (simp add: dedup_step_def update_keys)
  have "mset (map fst (foldl dedup_step ?d cs)) \<subseteq># mset (map fst ?d) + mset (map cs_content cs)"
    using Cons.IH [OF ok] by blast
  also have "\<dots> \<subseteq># mset (map fst d) + {#cs_content c#} + mset (map cs_content cs)"
    by (rule subset_mset.add_right_mono [OF keys])
  finally show ?case using Cons.IH [OF ok] src by (simp add: all_sources_def ac_simps)
qed (simp add: all_sources_def)

lemma set_dict_set: "set (dict_set k v d) \<subseteq> insert (k, v) (set d)"
  by (induction d) auto

lemma dedup_all:
  assumes "\<forall>(k, ss) \<in> set d. P k ss" "\<forall>c \<in> set cs. P (cs_content c) (cs_sources c)"
    and step: "\<And>k ss ts. P k ss \<Longrightarrow> P k ts \<Longrightarrow> P k (ss @ ts)"
  shows "\<forall>(k, ss) \<in> set (foldl dedup_step d cs). P k ss"
  using assms(1,2)
proof (induction cs arbitrary: d)
  case (Cons c cs)
  have "P (cs_content c) ((case map_of d (cs_content c) of None \<Rightarrow> [] | Some ss \<Rightarrow> ss) @ cs_sources c)"
    using Cons.prems step by (auto split: option.split dest!: map_of_SomeD)
  then have "\<forall>(k, ss) \<in> set (dedup_step d c). P k ss"
    using Cons.prems(1) set_dict_set unfolding dedup_step_def by fastforce
  then show ?case using Cons by simp
qed simp

subsection \<open>The algorithms\<close>

lemma algorithm_sources: "mset (all_sources (apply_algorithm a cs)) = mset (all_sources cs)"
proof (cases a)
  case EXACT_DEDUPLICATED
  have "all_sources (map (\<lambda>(content, sources). \<lparr>cs_content = content, cs_sources = sources\<rparr>) d) = concat (map snd d)"
    for d by (simp add: all_sources_def comp_def case_prod_beta)
  then show ?thesis using dedup_fold [of "[]" cs] by (simp add: apply_algorithm_def EXACT_DEDUPLICATED dict_ok_def)
qed (simp add: apply_algorithm_def)

lemma dedup_contents:
  "map cs_content (map (\<lambda>(content, sources). \<lparr>cs_content = content, cs_sources = sources\<rparr>) d) = map fst d"
  by (simp add: comp_def case_prod_beta)

lemma algorithm_contents: "mset (map cs_content (apply_algorithm a cs)) \<subseteq># mset (map cs_content cs)"
proof (cases a)
  case EXACT_DEDUPLICATED
  show ?thesis
    unfolding apply_algorithm_def EXACT_DEDUPLICATED compression_algorithm.case dedup_contents
    using dedup_fold [of "[]" cs] by (simp add: dict_ok_def)
qed (simp add: apply_algorithm_def)

lemma algorithm_distinct_contents:
  "distinct (map cs_content (apply_algorithm EXACT_DEDUPLICATED cs))"
  unfolding apply_algorithm_def compression_algorithm.case dedup_contents
  using dedup_fold [of "[]" cs] by (simp add: dict_ok_def)

lemma algorithm_all:
  assumes "\<forall>c \<in> set cs. P (cs_content c) (cs_sources c)"
    and "\<And>k ss ts. P k ss \<Longrightarrow> P k ts \<Longrightarrow> P k (ss @ ts)"
  shows "\<forall>c \<in> set (apply_algorithm a cs). P (cs_content c) (cs_sources c)"
proof (cases a)
  case EXACT_DEDUPLICATED
  have "\<forall>(k, ss) \<in> set (foldl dedup_step [] cs). P k ss" by (rule dedup_all) (use assms in simp_all)
  then show ?thesis by (auto simp: apply_algorithm_def EXACT_DEDUPLICATED)
qed (use assms in \<open>simp add: apply_algorithm_def\<close>)

subsection \<open>Selection within the budget\<close>

lemma select_within_split:
  "\<exists>rest. select_within b sel cs = sel @ rest \<and> subseq rest cs"
proof (induction cs arbitrary: sel)
  case (Cons c cs)
  show ?case
  proof (cases "int (length (document (map cs_content sel @ [cs_content c]))) \<le> b")
    case True
    with Cons.IH [of "sel @ [c]"] show ?thesis by (auto intro: subseq_Cons2)
  next
    case False
    with Cons.IH [of sel] show ?thesis by (auto intro: list_emb_Cons)
  qed
qed simp

lemma select_within_fits:
  "int (length (document (map cs_content sel))) \<le> b \<Longrightarrow>
     int (length (document (map cs_content (select_within b sel cs)))) \<le> b"
  by (induction cs arbitrary: sel) simp_all

lemma select_within_everything:
  "int (length (document (map cs_content (sel @ cs)))) \<le> b \<Longrightarrow> select_within b sel cs = sel @ cs"
proof (induction cs arbitrary: sel)
  case (Cons c cs)
  have "length (document (map cs_content sel @ [cs_content c])) \<le> length (document (map cs_content (sel @ c # cs)))"
    by (rule length_document_mono) simp
  with Cons show ?case by simp
qed simp

text \<open>A candidate left out did not fit after those selected before it.\<close>

lemma select_within_append: "select_within b sel (xs @ ys) = select_within b (select_within b sel xs) ys"
  by (induction xs arbitrary: sel) simp_all

subsection \<open>The projection\<close>

text \<open>What a stored trace satisfies: the recall command produced its items.\<close>

definition trace_wf :: "recall_trace \<Rightarrow> bool" where
  "trace_wf t \<longleftrightarrow> trace_ok t \<and> 1 \<le> rt_policy_version t \<and>
     (\<forall>i \<in> set (rt_items t). 1 \<le> it_rank i \<and> in_unit (it_score i)) \<and>
     distinct (map it_revision_id (rt_items t))"

definition ordered_items :: "recall_trace \<Rightarrow> recalled_item list" where
  "ordered_items t = sort_key it_rank (rt_items t)"

definition selected_segments :: "env \<Rightarrow> recall_trace \<Rightarrow> compression_algorithm \<Rightarrow> int \<Rightarrow> candidate_segment list" where
  "selected_segments E t a b =
     select_within_budget b (apply_algorithm a (map (segment_of E) (ordered_items t)))"

lemma selected_subseq:
  "subseq (selected_segments E t a b) (apply_algorithm a (map (segment_of E) (ordered_items t)))"
  using select_within_split [of b "[]"] by (auto simp: selected_segments_def select_within_budget_def)

lemma subseq_mset: "subseq xs ys \<Longrightarrow> mset xs \<subseteq># mset ys"
  by (induction rule: list_emb.induct) (auto simp: subset_mset.add_increasing intro: subset_mset.order_trans)

lemma subseq_sources: "subseq xs ys \<Longrightarrow> mset (all_sources xs) \<subseteq># mset (all_sources ys)"
  unfolding all_sources_def
  by (induction rule: list_emb.induct) (auto simp: subset_mset.add_increasing)

lemma raw_sources: "all_sources (map (segment_of E) is) = map source_of is"
  by (induction "is") (simp_all add: all_sources_def segment_of_def)

lemma selected_sources:
  assumes "distinct (map it_revision_id (rt_items t))"
  shows "distinct (map src_revision_id (all_sources (selected_segments E t a b)))"
    "set (map src_revision_id (all_sources (selected_segments E t a b))) \<subseteq> it_revision_id ` set (rt_items t)"
    "length (all_sources (selected_segments E t a b)) \<le> length (rt_items t)"
proof -
  let ?raw = "map (segment_of E) (ordered_items t)"
  have sub: "mset (all_sources (selected_segments E t a b)) \<subseteq># mset (map source_of (ordered_items t))"
    using subseq_sources [OF selected_subseq [of E t a b]] algorithm_sources [of a ?raw] raw_sources [of E] by metis
  have rev: "map src_revision_id (map source_of is) = map it_revision_id is" for "is"
    by (simp add: source_of_def)
  have mono: "mset (map src_revision_id (all_sources (selected_segments E t a b))) \<subseteq># mset (map it_revision_id (ordered_items t))"
    using image_mset_subseteq_mono [OF sub, of src_revision_id] by (metis rev mset_map)
  show "distinct (map src_revision_id (all_sources (selected_segments E t a b)))"
    by (rule distinct_mset_subset [OF _ mono]) (use assms in \<open>simp add: ordered_items_def\<close>)
  show "set (map src_revision_id (all_sources (selected_segments E t a b))) \<subseteq> it_revision_id ` set (rt_items t)"
    using set_mset_mono [OF mono] by (simp add: ordered_items_def)
  show "length (all_sources (selected_segments E t a b)) \<le> length (rt_items t)"
    using size_mset_mono [OF sub] by (simp add: ordered_items_def)
qed

lemma selected_segment_ok:
  assumes "c \<in> set (selected_segments E t a b)"
  shows "stripped (cs_content c)" "cs_sources c \<noteq> []"
    "\<forall>s \<in> set (cs_sources c). \<exists>i \<in> set (rt_items t). s = source_of i \<and> item_content E i = cs_content c"
proof -
  let ?P = "\<lambda>k ss. stripped k \<and> ss \<noteq> [] \<and>
    (\<forall>s \<in> set ss. \<exists>i \<in> set (rt_items t). s = source_of i \<and> item_content E i = k)"
  have "\<forall>c \<in> set (apply_algorithm a (map (segment_of E) (ordered_items t))). ?P (cs_content c) (cs_sources c)"
    by (rule algorithm_all) (auto simp: segment_of_def ordered_items_def stripped_item_content)
  moreover have "c \<in> set (apply_algorithm a (map (segment_of E) (ordered_items t)))"
    using assms set_mset_mono [OF subseq_mset [OF selected_subseq [of E t a b]]] by auto
  ultimately show "stripped (cs_content c)" "cs_sources c \<noteq> []"
    "\<forall>s \<in> set (cs_sources c). \<exists>i \<in> set (rt_items t). s = source_of i \<and> item_content E i = cs_content c"
    by blast+
qed

definition final_segment :: "candidate_segment \<Rightarrow> projection_segment" where
  "final_segment c = \<lparr>seg_content = cs_content c, seg_sources = sort_key source_order (cs_sources c)\<rparr>"

lemma included_final:
  "mset (map src_revision_id (included_sources (map final_segment cs))) =
     mset (map src_revision_id (all_sources cs))"
  by (induction cs) (simp_all add: included_sources_def all_sources_def final_segment_def)

lemma length_included_final: "length (included_sources (map final_segment cs)) = length (all_sources cs)"
  by (metis included_final length_map size_mset)

text \<open>A budget that holds everything leaves nothing out.\<close>

lemma nothing_omitted:
  assumes "int (length (document (map (item_content E) (ordered_items t)))) \<le> b"
  shows "length (all_sources (selected_segments E t a b)) = length (rt_items t)"
proof -
  let ?raw = "map (segment_of E) (ordered_items t)"
  have rawc: "map cs_content ?raw = map (item_content E) (ordered_items t)" by (simp add: segment_of_def)
  have "length (document (map cs_content (apply_algorithm a ?raw))) \<le> length (document (map cs_content ?raw))"
    by (intro length_document_mono algorithm_contents)
  then have "int (length (document (map cs_content ([] @ apply_algorithm a ?raw)))) \<le> b"
    using assms unfolding rawc by simp
  from select_within_everything [OF this] have "selected_segments E t a b = apply_algorithm a ?raw"
    by (simp add: selected_segments_def select_within_budget_def)
  then have "length (all_sources (selected_segments E t a b)) = length (all_sources ?raw)"
    using mset_eq_length [OF algorithm_sources [of a ?raw]] by simp
  then show ?thesis by (simp add: raw_sources ordered_items_def)
qed

text \<open>The digests are SHA-256 in hexadecimal.\<close>

definition digests_ok :: "env \<Rightarrow> bool" where
  "digests_ok E \<longleftrightarrow> (\<forall>s. sha256_text (e_sha E s))"

lemma project_eval:
  assumes t: "trace_wf t" and b: "64 \<le> b" "b \<le> 100000" and E: "digests_ok E"
  obtains p where "project E t a b = Inr p"
    "rcp_segments p = map final_segment (selected_segments E t a b)"
    "rcp_content p = document (map cs_content (selected_segments E t a b))"
    "rcp_source_item_count p = int (length (rt_items t))"
    "rcp_omitted_item_count p = int (length (rt_items t)) - int (length (all_sources (selected_segments E t a b)))"
    "rcp_scope p = rt_scope t" "rcp_trace_id p = rt_id t" "rcp_budget_characters p = b"
    "int (length (rcp_content p)) \<le> b"
    "int (length (rcp_content p)) \<le> rcp_original_character_count p"
    "rcp_original_character_count p = int (length (document (map (item_content E) (ordered_items t))))"
proof -
  let ?ord = "ordered_items t" and ?sel = "selected_segments E t a b"
  let ?raw = "map (segment_of E) ?ord" and ?segs = "map final_segment (selected_segments E t a b)"
  note S = selected_sources [of t E a b] and G = selected_segment_ok [of _ E t a b]
  have dist: "distinct (map it_revision_id (rt_items t))" using t by (simp add: trace_wf_def)
  have raw: "rmap (candidate_of E) ?ord = Inr ?raw"
    by (rule rmap_total) (use t in \<open>simp add: trace_wf_def ordered_items_def candidate_of_eval\<close>)
  have dseg: "distinct (map src_revision_id (cs_sources c))" if "c \<in> set ?sel" for c
  proof -
    from that obtain xs ys where "?sel = xs @ c # ys" by (metis split_list)
    then show ?thesis using S(1) [OF dist] by (simp add: all_sources_def)
  qed
  have segs: "rmap (\<lambda>c. mk_projection_segment (cs_content c) (cs_sources c)) ?sel = Inr ?segs"
  proof (rule rmap_total)
    fix c assume c: "c \<in> set ?sel"
    have "card (set (map src_revision_id (cs_sources c))) = length (cs_sources c)"
      using distinct_card [OF dseg [OF c]] by simp
    then show "mk_projection_segment (cs_content c) (cs_sources c) = Inr (final_segment c)"
      using G(1,2) [OF c]
      by (simp add: mk_projection_segment_def require_text_stripped final_segment_def del: set_map)
  qed
  have rawc: "map cs_content ?raw = map (item_content E) ?ord" by (simp add: segment_of_def)
  have contents: "map seg_content ?segs = map cs_content ?sel" by (simp add: final_segment_def)
  have fits: "int (length (document (map cs_content ?sel))) \<le> b"
    unfolding selected_segments_def select_within_budget_def
    by (rule select_within_fits) (use b in \<open>simp add: length_document\<close>)
  have "mset (map cs_content ?sel) \<subseteq># mset (map cs_content (apply_algorithm a ?raw))"
    using subseq_mset [OF subseq_map [OF selected_subseq [of E t a b], of cs_content]] .
  then have orig: "length (document (map cs_content ?sel)) \<le> length (document (map cs_content ?raw))"
    using algorithm_contents [of a ?raw] by (intro length_document_mono) (rule subset_mset.order_trans)
  have dinc: "distinct (map src_revision_id (included_sources ?segs))"
    using S(1) [OF dist] mset_eq_imp_distinct_iff [OF included_final [of ?sel]] by blast
  then have card: "card (set (map src_revision_id (included_sources ?segs))) = length (included_sources ?segs)"
    using distinct_card by fastforce
  have inc: "sum_list (map (\<lambda>seg. length (seg_sources seg)) ?segs) = length (all_sources ?sel)"
    using length_included_final [of ?sel] by (simp add: included_sources_def length_concat comp_def)
  have len: "length ?ord = length (rt_items t)" by (simp add: ordered_items_def)
  have sha: "require_sha256 db (e_sha E s) f = Inr (e_sha E s)" for db s f
    using E by (simp add: digests_ok_def require_sha256_text)
  have chk: "rt_known_at t \<le> rt_created_at t" "1 \<le> rt_policy_version t"
    using t by (simp_all add: trace_wf_def trace_ok_def)
  have "\<exists>p. project E t a b = Inr p \<and> rcp_segments p = ?segs \<and> rcp_content p = document (map cs_content ?sel) \<and>
     rcp_source_item_count p = int (length (rt_items t)) \<and>
     rcp_omitted_item_count p = int (length (rt_items t)) - int (length (all_sources ?sel)) \<and>
     rcp_scope p = rt_scope t \<and> rcp_trace_id p = rt_id t \<and> rcp_budget_characters p = b \<and>
     rcp_original_character_count p = int (length (document (map (item_content E) ?ord)))"
    unfolding project_def Let_def ordered_items_def [symmetric] raw rbind_simps
      selected_segments_def [symmetric] segs mk_recall_context_projection_def digest_def
    using b fits orig chk card inc S(3) [OF dist] length_included_final [of ?sel]
    by (simp add: raise_if_def sha len contents rawc del: set_map map_map)
  then show thesis using that fits orig rawc by (metis of_nat_le_iff)
qed

end
