(* ===== verification/JsonText.thy ===== *)
theory JsonText
  imports PyText
begin

text \<open>
  Reading back what the JSON encoder wrote: the text of a string or of a truth value is never a
  proper prefix of another one, so the text of an object determines its values.  This is what makes
  a signature or a digest of a canonical document bind its contents.
\<close>

lemma json_escape_nonempty: "json_escape c \<noteq> []"
  by (simp add: json_escape_def)

lemma json_escape_not_quote: "hd (json_escape c) \<noteq> 34"
  by (simp add: json_escape_def)

text \<open>Reading one escaped character.\<close>

definition hex_value :: "nat \<Rightarrow> nat" where
  "hex_value d = (if d < 58 then d - 48 else d - 87)"

definition unescape :: "ustr \<Rightarrow> nat \<times> ustr" where
  "unescape s =
     (if hd s \<noteq> 92 then (hd s, tl s)
      else if s ! 1 = 117 then (16 * hex_value (s ! 4) + hex_value (s ! 5), drop 6 s)
      else (if s ! 1 = 110 then 10 else if s ! 1 = 114 then 13 else if s ! 1 = 116 then 9
        else if s ! 1 = 102 then 12 else if s ! 1 = 98 then 8 else s ! 1, drop 2 s))"

lemma hex_value_char: "d < 16 \<Longrightarrow> hex_value (hex_char d) = d"
  by (simp add: hex_value_def hex_char_def)

lemma unescape_json_escape: "unescape (json_escape c @ x) = (c, x)"
proof -
  have "unescape ([92, 117, 48, 48] @ hex_digits 2 c @ x) = (c, x)" if "c < 32"
    using that by (simp add: numeral_2_eq_2 hex_value_char unescape_def)
  then show ?thesis by (simp add: json_escape_def unescape_def)
qed

lemma json_escape_cancel:
  assumes "json_escape c @ x = json_escape d @ y"
  shows "c = d \<and> x = y"
  using unescape_json_escape [of c x, unfolded assms] unescape_json_escape [of d y] by simp

lemma json_escapes_cancel:
  "concat (map json_escape s) @ 34 # x = concat (map json_escape t) @ 34 # y \<Longrightarrow> s = t \<and> x = y"
proof (induction s arbitrary: t)
  case Nil
  then show ?case using json_escape_nonempty json_escape_not_quote
    by (cases t) (auto, metis hd_append2 list.sel(1))
next
  case (Cons c s)
  show ?case
  proof (cases t)
    case Nil
    with Cons.prems json_escape_nonempty [of c] json_escape_not_quote [of c] show ?thesis
      by (auto, metis hd_append2 list.sel(1))
  next
    case (Cons d t')
    with Cons.prems Cons.IH [of t'] json_escape_cancel [of c _ d] show ?thesis by simp
  qed
qed

lemma json_string_cancel: "json_string s @ x = json_string t @ y \<Longrightarrow> s = t \<and> x = y"
  using json_escapes_cancel [of s x t y] by (simp add: json_string_def)

fun scalar :: "json \<Rightarrow> bool" where
  "scalar (JStr _) = True"
| "scalar (JBool _) = True"
| "scalar _ = False"

lemma json_scalar_cancel:
  assumes "scalar v" "scalar w" "json_dumps fr v @ x = json_dumps fr w @ y"
  shows "v = w \<and> x = y"
  using assms by (cases v; cases w) (auto simp: uc_def json_string_def dest!: json_escapes_cancel split: if_splits)

subsection \<open>Objects with known keys\<close>

definition member_text :: "ustr \<times> ustr \<Rightarrow> ustr" where
  "member_text = (\<lambda>(k, v). json_string k @ uc '':'' @ v)"

lemma join_members_cancel:
  assumes "list_all2 (\<lambda>(k, v) (l, w). k = l \<and> v \<in> V \<and> w \<in> V) ms ns"
    and "\<And>v w x y. v \<in> V \<Longrightarrow> w \<in> V \<Longrightarrow> v @ x = w @ y \<Longrightarrow> v = w \<and> x = y"
    and "join sep (map member_text ms) @ x = join sep (map member_text ns) @ y"
  shows "ms = ns"
  using assms(1,3)
proof (induction ms arbitrary: ns rule: induct_list012)
  case 1
  then show ?case by simp
next
  case (2 m)
  obtain k v where m: "m = (k, v)" by (cases m)
  from 2(1) m obtain w where ns: "ns = [(k, w)]" and vw: "v \<in> V" "w \<in> V" by (auto simp: list_all2_Cons1)
  with 2(2) m assms(2) [OF vw, of x y] show ?case by (simp add: member_text_def)
next
  case (3 m m' ms)
  obtain k v where m: "m = (k, v)" by (cases m)
  from 3(3) m obtain w n ns' where ns: "ns = (k, w) # n # ns'" and vw: "v \<in> V" "w \<in> V"
    and rest: "list_all2 (\<lambda>(k, v) (l, w). k = l \<and> v \<in> V \<and> w \<in> V) (m' # ms) (n # ns')"
    by (auto simp: list_all2_Cons1)
  from 3(4) have "v @ sep @ join sep (map member_text (m' # ms)) @ x =
      w @ sep @ join sep (map member_text (n # ns')) @ y"
    by (simp add: ns m member_text_def)
  from assms(2) [OF vw this] have "v = w"
    "join sep (map member_text (m' # ms)) @ x = join sep (map member_text (n # ns')) @ y" by simp_all
  with 3(2) [OF rest] show ?case by (simp add: ns m)
qed

lemma sorted_keys_unique:
  assumes "map fst ms = map fst ns" "distinct (map fst ms)"
  shows "map fst (sort_key fst ms) = map fst (sort_key fst ns)"
proof -
  have "map fst (sort_key fst ms) = sort (map fst ms)" for ms :: "('k::linorder \<times> 'v) list"
    by (rule properties_for_sort [symmetric]) simp_all
  from this [of ms] this [of ns] show ?thesis using assms(1) by metis
qed

lemma dict_from_keys:
  "distinct (map fst ms) \<Longrightarrow> map (\<lambda>k. (k, the (map_of ms k))) (map fst ms) = ms"
  by (simp add: comp_def) (rule map_idI, auto)

lemma json_object_cancel:
  assumes keys: "map fst ms = map fst ns" and dist: "distinct (map fst ms)"
    and scalars: "\<forall>v \<in> snd ` set ms. scalar v" "\<forall>v \<in> snd ` set ns. scalar v"
    and eq: "json_dumps fr (JObj ms) = json_dumps fr (JObj ns)"
  shows "ms = ns"
proof -
  let ?d = "\<lambda>(k, v). (k, json_dumps fr v)"
  let ?V = "json_dumps fr ` {v. scalar v}"
  let ?m = "sort_key fst (map ?d ms)" and ?n = "sort_key fst (map ?d ns)"
  have fsts: "map fst (map ?d ms) = map fst ms" for ms :: "(ustr \<times> json) list" by (induction ms) auto
  have k: "map fst ?m = map fst ?n"
    by (rule sorted_keys_unique) (simp_all only: fsts keys dist [unfolded keys])
  have in_V: "set (map ?d ms) \<subseteq> UNIV \<times> ?V" if "\<forall>v \<in> snd ` set ms. scalar v" for ms :: "(ustr \<times> json) list"
    using that by force
  have "list_all2 (\<lambda>(k, v) (l, w). k = l \<and> v \<in> ?V \<and> w \<in> ?V) ?m ?n"
  proof (rule list_all2_all_nthI)
    show "length ?m = length ?n" using arg_cong [OF keys, of length] by simp
  next
    fix i assume i: "i < length ?m"
    have i': "i < length ?n" using i arg_cong [OF keys, of length] by simp
    have "fst (?m ! i) = fst (?n ! i)" using arg_cong [OF k, of "\<lambda>l. l ! i"] i i' by simp
    moreover have "?m ! i \<in> UNIV \<times> ?V" using nth_mem [OF i] in_V [OF scalars(1)] by auto
    moreover have "?n ! i \<in> UNIV \<times> ?V" using nth_mem [OF i'] in_V [OF scalars(2)] by auto
    ultimately show "(\<lambda>(k, v) (l, w). k = l \<and> v \<in> ?V \<and> w \<in> ?V) (?m ! i) (?n ! i)"
      by (cases "?m ! i"; cases "?n ! i") simp
  qed
  moreover have "v = w \<and> x = y" if "v \<in> ?V" "w \<in> ?V" "v @ x = w @ y" for v w x y
    using that json_scalar_cancel by blast
  moreover have "join (uc '','') (map member_text ?m) @ uc ''}'' = join (uc '','') (map member_text ?n) @ uc ''}''"
    using eq by (simp add: member_text_def)
  ultimately have "?m = ?n" by (rule join_members_cancel)
  then have "set (map ?d ms) = set (map ?d ns)" by (metis set_sort)
  have inj: "inj_on ?d (set ms \<union> set ns)"
  proof (rule inj_onI)
    fix p q assume "p \<in> set ms \<union> set ns" "q \<in> set ms \<union> set ns" and eq: "?d p = ?d q"
    then have "scalar (snd p)" "scalar (snd q)" using scalars by auto
    with eq json_scalar_cancel [of "snd p" "snd q" fr "[]" "[]"] show "p = q"
      by (cases p; cases q) simp
  qed
  have "set ms = set ns" using \<open>set (map ?d ms) = set (map ?d ns)\<close> inj
    by (metis inj_on_Un_image_eq_iff list.set_map)
  then have "map_of ms = map_of ns" using dist keys by (metis map_of_inject_set)
  then show ?thesis using keys dist by (metis dict_from_keys)
qed

end
