(* ===== verification/GateReceipts.thy ===== *)
theory GateReceipts
  imports Evolution World JsonText
begin

text \<open>
  \<open>application/gate_receipts.py\<close> and \<open>adapters/gate_receipts.py\<close>: the signed claims of a gate receipt,
  their canonical JSON text, and the HMAC signer and verifier.  HMAC-SHA-256 in hexadecimal is the
  argument \<open>hmac\<close> (secret, then message); a secret is the list of its bytes.
\<close>

subsection \<open>Claims\<close>

definition gate_receipt_claims :: "gate_receipt \<Rightarrow> (ustr \<times> json) list" where
  "gate_receipt_claims r =
     [(uc ''schema'', JStr (uc ''evolvable-memory.gate-receipt.v1'')),
      (uc ''id'', JStr (uuid_str (gr_id r))),
      (uc ''experiment_id'', JStr (uuid_str (gr_experiment_id r))),
      (uc ''baseline_id'', JStr (uuid_str (gr_baseline_id r))),
      (uc ''candidate_id'', JStr (uuid_str (gr_candidate_id r))),
      (uc ''from_stage'', JStr (uc (stage_value (gr_from_stage r)))),
      (uc ''to_stage'', JStr (uc (stage_value (gr_to_stage r)))),
      (uc ''decision'', JStr (uc (decision_value (gr_decision r)))),
      (uc ''artifact_ref'', JStr (gr_artifact_ref r)),
      (uc ''artifact_sha256'', JStr (gr_artifact_sha256 r)),
      (uc ''issuer'', JStr (gr_issuer r)),
      (uc ''key_id'', JStr (gr_key_id r)),
      (uc ''issued_at'', JStr (isoformat (gr_issued_at r))),
      (uc ''expires_at'', JStr (isoformat (gr_expires_at r))),
      (uc ''hard_gates_passed'', JBool (gr_hard_gates_passed r)),
      (uc ''reason'', JStr (gr_reason r))]"

definition canonical_gate_receipt_payload :: "env \<Rightarrow> gate_receipt \<Rightarrow> ustr" where
  "canonical_gate_receipt_payload E r = json_dumps (e_repr E) (JObj (gate_receipt_claims r))"

subsection \<open>Signing\<close>

type_synonym hmac = "nat list \<Rightarrow> ustr \<Rightarrow> ustr"

definition validated_secret :: "nat list \<Rightarrow> nat list res" where
  "validated_secret secret =
     rbind (raise_if (length secret < 32)
       (DomainError ''gate receipt HMAC secret must contain at least 32 bytes'')) (\<lambda>_. Inr secret)"

record receipt_signer =
  sg_issuer :: ustr
  sg_key_id :: ustr
  sg_secret :: "nat list"

definition mk_signer :: "ustr \<Rightarrow> ustr \<Rightarrow> nat list \<Rightarrow> receipt_signer res" where
  "mk_signer issuer key_id secret =
     rbind (require_text issuer ''gate receipt issuer'') (\<lambda>issuer'.
     rbind (require_text key_id ''gate receipt key_id'') (\<lambda>key_id'.
     rbind (validated_secret secret) (\<lambda>secret'.
     Inr \<lparr>sg_issuer = issuer', sg_key_id = key_id', sg_secret = secret'\<rparr>)))"

definition placeholder_signature :: ustr where
  "placeholder_signature = replicate 64 48"

text \<open>\<open>replace(receipt, signature=s)\<close> runs the validation of the class again.\<close>

definition with_signature :: "unidb \<Rightarrow> ustr \<Rightarrow> gate_receipt \<Rightarrow> gate_receipt res" where
  "with_signature db s r = mk_gate_receipt db (gr_id r) (gr_experiment_id r) (gr_baseline_id r)
     (gr_candidate_id r) (gr_from_stage r) (gr_to_stage r) (gr_decision r) (gr_artifact_ref r)
     (gr_artifact_sha256 r) (gr_issuer r) (gr_key_id r) (utc (gr_issued_at r)) (utc (gr_expires_at r))
     (gr_hard_gates_passed r) (gr_reason r) s"

definition issue ::
  "env \<Rightarrow> hmac \<Rightarrow> receipt_signer \<Rightarrow> uuid \<Rightarrow> evolution_experiment \<Rightarrow> experiment_stage \<Rightarrow> gate_decision \<Rightarrow>
   ustr \<Rightarrow> ustr \<Rightarrow> py_datetime \<Rightarrow> py_datetime \<Rightarrow> bool \<Rightarrow> ustr \<Rightarrow> gate_receipt res" where
  "issue E hmac sg receipt_id experiment target decision artifact_ref artifact_sha256 issued_at
     expires_at hard_gates_passed reason =
     rbind (mk_gate_receipt (e_db E) receipt_id (ex_id experiment) (ex_baseline_id experiment)
       (ex_candidate_id experiment) (ex_stage experiment) target decision artifact_ref artifact_sha256
       (sg_issuer sg) (sg_key_id sg) issued_at expires_at hard_gates_passed reason
       placeholder_signature) (\<lambda>unsigned.
     with_signature (e_db E)
       (hmac (sg_secret sg) (canonical_gate_receipt_payload E unsigned)) unsigned)"

subsection \<open>Verification\<close>

type_synonym trusted_keys = "(ustr \<times> ustr, nat list) dict"

definition mk_verifier :: "trusted_keys \<Rightarrow> trusted_keys res" where
  "mk_verifier trusted =
     rbind (raise_if (trusted = [])
       (DomainError ''at least one gate receipt verification key is required'')) (\<lambda>_.
     rbind (rmap (\<lambda>((issuer, key_id), secret).
       rbind (require_text issuer ''gate receipt issuer'') (\<lambda>issuer'.
       rbind (require_text key_id ''gate receipt key_id'') (\<lambda>key_id'.
       rbind (validated_secret secret) (\<lambda>secret'.
       Inr ((issuer', key_id'), secret'))))) trusted) (\<lambda>entries.
     Inr (dict_of entries)))"

text \<open>\<open>hmac.compare_digest\<close> refuses strings with a character outside ASCII.\<close>

definition compare_digest :: "ustr \<Rightarrow> ustr \<Rightarrow> bool res" where
  "compare_digest a b =
     rbind (raise_if (\<not> is_ascii a \<or> \<not> is_ascii b) (ExternalError ''TypeError'')) (\<lambda>_. Inr (a = b))"

definition verify :: "env \<Rightarrow> hmac \<Rightarrow> trusted_keys \<Rightarrow> gate_receipt \<Rightarrow> py_datetime \<Rightarrow> unit res" where
  "verify E hmac trusted r at_time =
     rbind (require_utc at_time ''gate receipt verification time'') (\<lambda>verified_at.
     case map_of trusted (gr_issuer r, gr_key_id r) of
       None \<Rightarrow> Inl (DomainError ''gate receipt signing key is not trusted'')
     | Some secret \<Rightarrow>
         rbind (compare_digest (hmac secret (canonical_gate_receipt_payload E r)) (gr_signature r)) (\<lambda>same.
         rbind (raise_if (\<not> same) (DomainError ''gate receipt signature is invalid'')) (\<lambda>_.
         rbind (raise_if (gr_issued_at r > verified_at)
           (DomainError ''gate receipt is not yet valid'')) (\<lambda>_.
         raise_if (gr_expires_at r \<le> verified_at) (DomainError ''gate receipt has expired'')))))"

subsection \<open>A verified receipt\<close>

lemma verify_Inr:
  "verify E hmac trusted r (utc t) = Inr () \<longleftrightarrow>
     (\<exists>secret. map_of trusted (gr_issuer r, gr_key_id r) = Some secret \<and>
        gr_signature r = hmac secret (canonical_gate_receipt_payload E r) \<and>
        is_ascii (gr_signature r)) \<and>
     gr_issued_at r \<le> t \<and> t < gr_expires_at r"
  by (auto simp: verify_def compare_digest_def res_simps split: option.splits)

lemma claims_signature [simp]: "gate_receipt_claims (r\<lparr>gr_signature := s\<rparr>) = gate_receipt_claims r"
  by (simp add: gate_receipt_claims_def)

lemma payload_signature [simp]:
  "canonical_gate_receipt_payload E (r\<lparr>gr_signature := s\<rparr>) = canonical_gate_receipt_payload E r"
  by (simp add: canonical_gate_receipt_payload_def)

text \<open>The payload binds every claim, the two times up to their ISO text.\<close>

lemma stage_value_inj: "stage_value a = stage_value b \<longleftrightarrow> a = b"
  by (cases a; cases b) simp_all

lemma decision_value_inj: "decision_value a = decision_value b \<longleftrightarrow> a = b"
  by (cases a; cases b) simp_all

lemma uc_inj: "uc a = uc b \<longleftrightarrow> a = b"
  by (simp add: uc_def inj_map_eq_map inj_def)

lemma uuid_str_eq: "uuid_str i = uuid_str j \<longleftrightarrow> i = j"
  using uuid_str_inj by blast

lemma claims_eq_iff:
  "gate_receipt_claims a = gate_receipt_claims b \<longleftrightarrow>
     gr_id a = gr_id b \<and> gr_experiment_id a = gr_experiment_id b \<and> gr_baseline_id a = gr_baseline_id b \<and>
     gr_candidate_id a = gr_candidate_id b \<and> gr_from_stage a = gr_from_stage b \<and>
     gr_to_stage a = gr_to_stage b \<and> gr_decision a = gr_decision b \<and>
     gr_artifact_ref a = gr_artifact_ref b \<and> gr_artifact_sha256 a = gr_artifact_sha256 b \<and>
     gr_issuer a = gr_issuer b \<and> gr_key_id a = gr_key_id b \<and>
     isoformat (gr_issued_at a) = isoformat (gr_issued_at b) \<and>
     isoformat (gr_expires_at a) = isoformat (gr_expires_at b) \<and>
     gr_hard_gates_passed a = gr_hard_gates_passed b \<and> gr_reason a = gr_reason b"
  unfolding gate_receipt_claims_def
  by (simp add: uuid_str_eq uc_inj stage_value_inj decision_value_inj)

lemma payload_eq_iff:
  "canonical_gate_receipt_payload E a = canonical_gate_receipt_payload E b \<longleftrightarrow>
     gate_receipt_claims a = gate_receipt_claims b"
proof
  assume eq: "canonical_gate_receipt_payload E a = canonical_gate_receipt_payload E b"
  show "gate_receipt_claims a = gate_receipt_claims b"
  proof (rule json_object_cancel)
    show "json_dumps (e_repr E) (JObj (gate_receipt_claims a)) = json_dumps (e_repr E) (JObj (gate_receipt_claims b))"
      using eq by (simp only: canonical_gate_receipt_payload_def)
  qed (simp_all add: gate_receipt_claims_def uc_inj)
qed (simp add: canonical_gate_receipt_payload_def)

text \<open>Validating a validated digest changes nothing.\<close>

lemma require_sha256_again:
  assumes "is_ascii a" "require_sha256 db a f = Inr d"
  shows "require_sha256 db d g = Inr d"
proof -
  have strip: "set (strip a) \<subseteq> set a" unfolding strip_def strip_while_def comp_apply
    by (metis set_dropWhileD set_rev subsetI)
  then have asc: "is_ascii (strip a)" using assms(1) by (auto simp: is_ascii_def list_all_iff)
  from assms(2) have d: "d = lower db (strip a)" "strip a \<noteq> []" "length d = 64" "py_int16_ok db d"
    by (auto simp: require_sha256_def Let_def res_simps)
  have d': "d = map ascii_lower (strip a)" using asc d(1) by (simp add: lower_def)
  have low: "ascii_lower (ascii_lower c) = ascii_lower c" for c by (simp add: ascii_lower_def)
  have "is_ascii d" using asc by (auto simp: d' is_ascii_def list_all_iff ascii_lower_def)
  then have lower: "lower db d = d" by (simp add: lower_def d' low comp_def)
  have sp: "is_space (ascii_lower c) = is_space c" for c by (auto simp: ascii_lower_def is_space_def)
  have "stripped d" using strip_stripped [OF d(2)] d(2) by (simp add: d' stripped_def sp hd_map last_map)
  then show ?thesis using d(3,4) lower by (simp add: require_sha256_def require_text_stripped Let_def)
qed

lemma mk_gate_receipt_Inr:
  assumes "mk_gate_receipt db i ex b c s t dec aref asha iss kid issued expires gates why sig = Inr r"
  shows "require_utc issued ''gate receipt issued_at'' = Inr (gr_issued_at r)"
    "require_utc expires ''gate receipt expires_at'' = Inr (gr_expires_at r)"
    "gr_issued_at r < gr_expires_at r" "b \<noteq> c" "legal_edge s t"
    "require_sha256 db asha ''gate receipt artifact_sha256'' = Inr (gr_artifact_sha256 r)"
    "require_sha256 db sig ''gate receipt signature'' = Inr (gr_signature r)"
    "strip aref \<noteq> []" "strip iss \<noteq> []" "strip kid \<noteq> []" "strip why \<noteq> []"
    "gr_id r = i" "gr_experiment_id r = ex" "gr_baseline_id r = b" "gr_candidate_id r = c"
    "gr_from_stage r = s" "gr_to_stage r = t" "gr_decision r = dec" "gr_artifact_ref r = strip aref"
    "gr_issuer r = strip iss" "gr_key_id r = strip kid" "gr_hard_gates_passed r = gates"
    "gr_reason r = strip why"
  using assms by (auto simp: mk_gate_receipt_def res_simps)

text \<open>What the signer issues: the signature is the MAC of the receipt's own payload.\<close>

lemma issue_signed:
  assumes "is_ascii artifact" and mac: "\<And>k m. sha256_text (hmac k m)"
    and issue: "issue E hmac sg i e t dec aref artifact issued expires gates why = Inr r"
  shows "gr_signature r = hmac (sg_secret sg) (canonical_gate_receipt_payload E r) \<and>
    gr_issuer r = strip (sg_issuer sg) \<and> gr_key_id r = strip (sg_key_id sg) \<and>
    require_utc issued ''gate receipt issued_at'' = Inr (gr_issued_at r) \<and>
    require_utc expires ''gate receipt expires_at'' = Inr (gr_expires_at r) \<and>
    gr_experiment_id r = ex_id e \<and> gr_from_stage r = ex_stage e \<and> gr_to_stage r = t"
proof -
  from issue obtain u where u: "mk_gate_receipt (e_db E) i (ex_id e) (ex_baseline_id e) (ex_candidate_id e)
       (ex_stage e) t dec aref artifact (sg_issuer sg) (sg_key_id sg) issued expires gates why
       placeholder_signature = Inr u"
    and r: "with_signature (e_db E) (hmac (sg_secret sg) (canonical_gate_receipt_payload E u)) u = Inr r"
    by (auto simp: issue_def res_simps)
  note U = mk_gate_receipt_Inr [OF u]
  note R = mk_gate_receipt_Inr [OF r [unfolded with_signature_def]]
  have sha: "gr_artifact_sha256 r = gr_artifact_sha256 u"
    using U(6) R(6) require_sha256_again [OF assms(1)] by (metis Inr_inject)
  have sig: "gr_signature r = hmac (sg_secret sg) (canonical_gate_receipt_payload E u)"
    using R(7) mac by (metis Inr_inject require_sha256_text)
  have "r = u\<lparr>gr_signature := gr_signature r\<rparr>"
  proof (rule gate_receipt.equality)
    show "gr_issued_at r = gr_issued_at (u\<lparr>gr_signature := gr_signature r\<rparr>)"
      "gr_expires_at r = gr_expires_at (u\<lparr>gr_signature := gr_signature r\<rparr>)"
      using R(1,2) by simp_all
  qed (use sha in \<open>simp_all add: U(8-) R(12-) strip_idem\<close>)
  then have "canonical_gate_receipt_payload E r = canonical_gate_receipt_payload E u"
    by (metis payload_signature)
  then show ?thesis using sig U(1,2) R(1,2) U(8-11) by (simp add: U(12-) R(12-))
qed

end
