(* ===== verification/EvolutionApp.thy ===== *)
theory EvolutionApp
  imports GateReceipts Store
begin

text \<open>
  \<open>application/evolution.py\<close>: the orchestration of strategy experiments.  A proposal registers a
  candidate strategy next to the active one, a signed gate receipt moves the experiment one stage,
  and promotion or rollback changes the active strategy.  Both operations are idempotent by key.
  The verifier port is the argument \<open>verifier\<close>; the adapter of the program is \<open>verify E hmac keys\<close>.
\<close>

record evolution_proposal =
  ep_candidate :: strategy_snapshot
  ep_experiment :: evolution_experiment
  ep_replay :: bool

record evolution_transition_result =
  er_experiment :: evolution_experiment
  er_replay :: bool

subsection \<open>Request fingerprints\<close>

definition evolution_fingerprint :: "env \<Rightarrow> (ustr \<times> json) list \<Rightarrow> ustr" where
  "evolution_fingerprint E payload = e_sha E (json_dumps (e_repr E) (JObj payload))"

definition proposal_fingerprint :: "env \<Rightarrow> failure_diagnosis \<Rightarrow> ustr \<Rightarrow> ustr \<Rightarrow> ustr" where
  "proposal_fingerprint E d reason evidence_ref = evolution_fingerprint E
     [(uc ''operation'', JStr (uc ''proposal'')),
      (uc ''diagnosis'', JObj [(uc ''irrelevant_results'', JInt (irrelevant_results d)),
         (uc ''context_mismatches'', JInt (context_mismatches d)),
         (uc ''low_belief_results'', JInt (low_belief_results d)),
         (uc ''harmful_results'', JInt (harmful_results d)),
         (uc ''stale_results'', JInt (stale_results d))]),
      (uc ''reason'', JStr reason), (uc ''evidence_ref'', JStr evidence_ref)]"

definition advance_fingerprint :: "env \<Rightarrow> uuid \<Rightarrow> experiment_stage \<Rightarrow> gate_receipt \<Rightarrow> ustr" where
  "advance_fingerprint E experiment_id target receipt = evolution_fingerprint E
     [(uc ''operation'', JStr (uc ''advance'')),
      (uc ''experiment_id'', JStr (uuid_str experiment_id)),
      (uc ''target'', JStr (uc (stage_value target))),
      (uc ''gate_receipt'', JObj (gate_receipt_claims receipt @
         [(uc ''signature'', JStr (gr_signature receipt))]))]"

subsection \<open>Replays\<close>

definition replayed_proposal ::
  "experiment_transition_event \<Rightarrow> ustr \<Rightarrow> 'z store_scheme \<Rightarrow> evolution_proposal res" where
  "replayed_proposal transition request_fingerprint s =
     rbind (raise_if (et_from_stage transition \<noteq> None \<or> et_to_stage transition \<noteq> PROPOSED \<or>
         et_request_fingerprint transition \<noteq> request_fingerprint)
       (ConflictError ''proposal idempotency key was reused with different data'')) (\<lambda>_.
     case evolution_experiment_of s (et_experiment_id transition) of
       None \<Rightarrow> Inl (ConflictError ''proposal idempotency key belongs to incomplete state'')
     | Some current \<Rightarrow>
        (case strategy_by_id s (ex_candidate_id current) of
           None \<Rightarrow> Inl (ConflictError ''proposal candidate is unavailable'')
         | Some candidate \<Rightarrow>
             rbind (mk_experiment (ex_id current) (ex_baseline_id current) (ex_candidate_id current)
               PROPOSED (utc (ex_created_at current)) (utc (et_transitioned_at transition))) (\<lambda>experiment.
             Inr \<lparr>ep_candidate = candidate, ep_experiment = experiment, ep_replay = True\<rparr>)))"

definition replayed_advance ::
  "experiment_transition_event \<Rightarrow> ustr \<Rightarrow> 'z store_scheme \<Rightarrow> evolution_transition_result res" where
  "replayed_advance transition request_fingerprint s =
     rbind (raise_if (et_request_fingerprint transition \<noteq> request_fingerprint)
       (ConflictError ''transition idempotency key was reused with different data'')) (\<lambda>_.
     case evolution_experiment_of s (et_experiment_id transition) of
       None \<Rightarrow> Inl (ConflictError ''transition idempotency key belongs to incomplete state'')
     | Some current \<Rightarrow>
         rbind (mk_experiment (ex_id current) (ex_baseline_id current) (ex_candidate_id current)
           (et_to_stage transition) (utc (ex_created_at current))
           (utc (et_transitioned_at transition))) (\<lambda>historical.
         Inr \<lparr>er_experiment = historical, er_replay = True\<rparr>))"

text \<open>\<open>except ConflictError\<close>: answer from the transition that took the key meanwhile, or raise again.\<close>

definition or_concurrent ::
  "ustr \<Rightarrow> (experiment_transition_event \<Rightarrow> 'z store_scheme \<Rightarrow> 'a res) \<Rightarrow> ('z store_scheme, 'a) prog \<Rightarrow>
   ('z store_scheme, 'a) prog" where
  "or_concurrent key replay m = catch m (\<lambda>e.
     case e of
       ConflictError _ \<Rightarrow> asks (\<lambda>s. case experiment_transition_by_idempotency s key of
           None \<Rightarrow> Inl e | Some concurrent \<Rightarrow> replay concurrent s)
     | _ \<Rightarrow> throw e)"

subsection \<open>Proposing\<close>

definition propose_experiment ::
  "env \<Rightarrow> failure_diagnosis \<Rightarrow> ustr \<Rightarrow> ustr \<Rightarrow> ustr \<Rightarrow> (world, evolution_proposal option) prog" where
  "propose_experiment E diagnosis reason evidence_ref idempotency_key =
     pbind (lift_res (require_text reason ''proposal reason'')) (\<lambda>reason'.
     pbind (lift_res (require_text evidence_ref ''proposal evidence_ref'')) (\<lambda>evidence'.
     pbind (lift_res (require_text idempotency_key ''proposal idempotency_key'')) (\<lambda>key.
     let request_fingerprint = proposal_fingerprint E diagnosis reason' evidence' in
     pbind (gets (\<lambda>s. experiment_transition_by_idempotency s key)) (\<lambda>existing.
     case existing of
       Some transition \<Rightarrow>
         pbind (asks (replayed_proposal transition request_fingerprint)) (\<lambda>p. return (Some p))
     | None \<Rightarrow>
         pbind (asks active_strategy) (\<lambda>active.
         case active of
           None \<Rightarrow> throw (DomainError ''active strategy is unavailable'')
         | Some baseline \<Rightarrow>
             pbind (now E) (\<lambda>t.
             pbind (new_id E) (\<lambda>proposal_id.
             pbind (lift_res (propose baseline diagnosis proposal_id (utc t))) (\<lambda>proposal.
             case proposal of
               None \<Rightarrow> return None
             | Some candidate \<Rightarrow>
                 pbind (new_id E) (\<lambda>experiment_id.
                 pbind (lift_res (mk_experiment experiment_id (st_id baseline) (st_id candidate)
                   PROPOSED (utc t) (utc t))) (\<lambda>experiment.
                 pbind (new_id E) (\<lambda>transition_id.
                 pbind (lift_res (mk_transition_event (e_db E) transition_id (ex_id experiment) PROPOSED
                   (utc t) reason' evidence' key request_fingerprint None)) (\<lambda>transition.
                 or_concurrent key
                   (\<lambda>concurrent s. rbind (replayed_proposal concurrent request_fingerprint s) (\<lambda>p. Inr (Some p)))
                   (pbind (register_evolution_experiment candidate experiment transition) (\<lambda>_.
                    return (Some \<lparr>ep_candidate = candidate, ep_experiment = experiment,
                      ep_replay = False\<rparr>)))))))))))))))"

subsection \<open>Advancing\<close>

definition require_matching_gate_receipt ::
  "evolution_experiment \<Rightarrow> experiment_stage \<Rightarrow> gate_receipt \<Rightarrow> unit res" where
  "require_matching_gate_receipt e target r =
     rbind (raise_if (gr_experiment_id r \<noteq> ex_id e \<or> gr_baseline_id r \<noteq> ex_baseline_id e \<or>
         gr_candidate_id r \<noteq> ex_candidate_id e)
       (DomainError ''gate receipt does not match the evolution experiment'')) (\<lambda>_.
     rbind (raise_if (gr_from_stage r \<noteq> ex_stage e \<or> gr_to_stage r \<noteq> target)
       (DomainError ''gate receipt does not match the requested experiment transition'')) (\<lambda>_.
     let expected_decision = (if target = REJECTED then REJECT
         else if target = ROLLED_BACK then ROLLBACK_DECISION else PASS) in
     rbind (raise_if (gr_decision r \<noteq> expected_decision)
       (DomainError ''gate receipt decision does not authorize the target stage'')) (\<lambda>_.
     raise_if (expected_decision = PASS \<and> \<not> gr_hard_gates_passed r)
       (DomainError ''passing gate receipt must attest that hard gates passed''))))"

definition activation_for ::
  "env \<Rightarrow> evolution_experiment \<Rightarrow> evolution_experiment \<Rightarrow> ustr \<Rightarrow> instant \<Rightarrow>
   (world, strategy_activation option) prog" where
  "activation_for E current updated reason t =
     (if ex_stage current = CANARY \<and> ex_stage updated = PROMOTED then
        pbind (new_id E) (\<lambda>i.
        pbind (lift_res (mk_activation i (ex_candidate_id current) PROMOTION (utc t) reason
          (Some (ex_baseline_id current)) (Some (ex_id current)))) (\<lambda>a.
        return (Some a)))
      else if ex_stage current = PROMOTED \<and> ex_stage updated = ROLLED_BACK then
        pbind (new_id E) (\<lambda>i.
        pbind (lift_res (mk_activation i (ex_baseline_id current) ROLLBACK (utc t) reason
          (Some (ex_candidate_id current)) (Some (ex_id current)))) (\<lambda>a.
        return (Some a)))
      else return None)"

definition advance_experiment ::
  "env \<Rightarrow> (gate_receipt \<Rightarrow> py_datetime \<Rightarrow> unit res) \<Rightarrow> uuid \<Rightarrow> experiment_stage \<Rightarrow> gate_receipt \<Rightarrow> ustr \<Rightarrow>
   (world, evolution_transition_result) prog" where
  "advance_experiment E verifier experiment_id target receipt idempotency_key =
     pbind (lift_res (require_text idempotency_key ''transition idempotency_key'')) (\<lambda>key.
     let request_fingerprint = advance_fingerprint E experiment_id target receipt in
     pbind (gets (\<lambda>s. experiment_transition_by_idempotency s key)) (\<lambda>existing.
     case existing of
       Some transition \<Rightarrow> asks (replayed_advance transition request_fingerprint)
     | None \<Rightarrow>
         pbind (gets (\<lambda>s. evolution_experiment_of s experiment_id)) (\<lambda>found.
         case found of
           None \<Rightarrow> throw (NotFoundError ''evolution experiment not found'')
         | Some current \<Rightarrow>
             pbind (now E) (\<lambda>t.
             pbind (lift_res (verifier receipt (utc t))) (\<lambda>_.
             pbind (lift_res (require_matching_gate_receipt current target receipt)) (\<lambda>_.
             pbind (lift_res (experiment_transition current target (utc t))) (\<lambda>updated.
             pbind (new_id E) (\<lambda>transition_id.
             pbind (lift_res (mk_transition_event (e_db E) transition_id (ex_id current) target (utc t)
               (gr_reason receipt) (gr_artifact_ref receipt) key request_fingerprint
               (Some (ex_stage current)))) (\<lambda>transition.
             pbind (activation_for E current updated (gr_reason receipt) t) (\<lambda>activation.
             or_concurrent key (\<lambda>concurrent s. replayed_advance concurrent request_fingerprint s)
               (pbind (advance_evolution_experiment updated transition activation) (\<lambda>_.
                return \<lparr>er_experiment = updated, er_replay = False\<rparr>))))))))))))"

end
