(* ===== verification/Registry.thy ===== *)
theory Registry
  imports EvolutionApp
begin

text \<open>
  The strategy registry of the store: its invariant, the exact effect of each successful write, and
  that each write keeps the invariant.  The transitions of an experiment are a legal path of the
  state machine ending in its stage, and the activation log is a chain whose promotions belong to
  experiments that reached promotion.
\<close>

subsection \<open>The invariant\<close>

text \<open>The lineage of strategies: a root has version 1, a child one more than its parent.\<close>

definition parent_ok :: "(uuid, strategy_snapshot) dict \<Rightarrow> strategy_snapshot \<Rightarrow> bool" where
  "parent_ok d st \<longleftrightarrow> (case st_parent_id st of None \<Rightarrow> st_version st = 1
     | Some p \<Rightarrow> (\<exists>ps. map_of d p = Some ps \<and> st_version st = st_version ps + 1))"

definition strategies_ok :: "(uuid, strategy_snapshot) dict \<Rightarrow> bool" where
  "strategies_ok d \<longleftrightarrow> dict_ok d \<and>
     (\<forall>i st. map_of d i = Some st \<longrightarrow> st_id st = i \<and> strategy_ok st \<and> parent_ok d st)"

definition activation_chain :: "strategy_activation list \<Rightarrow> bool" where
  "activation_chain as \<longleftrightarrow> (\<forall>n < length as.
     if n = 0 then sa_kind (as ! n) = BOOTSTRAP
     else sa_kind (as ! n) \<noteq> BOOTSTRAP \<and> sa_previous_id (as ! n) = Some (sa_strategy_id (as ! (n - 1))))"

text \<open>The transitions recorded for an experiment, each also found under its idempotency key.\<close>

definition history_ok ::
  "(ustr, experiment_transition_event) dict \<Rightarrow> evolution_experiment \<Rightarrow>
   experiment_transition_event list \<Rightarrow> bool" where
  "history_ok keys e ts \<longleftrightarrow> stage_history (map et_to_stage ts) \<and> et_to_stage (last ts) = ex_stage e \<and>
     et_transitioned_at (hd ts) = ex_created_at e \<and> et_transitioned_at (last ts) = ex_updated_at e \<and>
     sorted (map et_transitioned_at ts) \<and>
     (\<forall>t \<in> set ts. et_experiment_id t = ex_id e \<and> map_of keys (et_idempotency_key t) = Some t)"

definition experiments_ok ::
  "(uuid, strategy_snapshot) dict \<Rightarrow> (uuid, evolution_experiment) dict \<Rightarrow>
   (uuid, experiment_transition_event list) dict \<Rightarrow> (ustr, experiment_transition_event) dict \<Rightarrow> bool" where
  "experiments_ok sts exps hist keys \<longleftrightarrow>
     (\<forall>i e. map_of exps i = Some e \<longrightarrow> ex_id e = i \<and> experiment_ok e \<and>
        (\<exists>c. map_of sts (ex_candidate_id e) = Some c \<and> st_parent_id c = Some (ex_baseline_id e)) \<and>
        (\<exists>ts. map_of hist i = Some ts \<and> history_ok keys e ts)) \<and>
     (\<forall>k t. map_of keys k = Some t \<longrightarrow> et_idempotency_key t = k \<and>
        (\<exists>e ts. map_of exps (et_experiment_id t) = Some e \<and>
           map_of hist (et_experiment_id t) = Some ts \<and> t \<in> set ts))"

text \<open>A promotion in the log belongs to an experiment that reached promotion, and activates its candidate.\<close>

definition promotions_earned ::
  "strategy_activation list \<Rightarrow> (uuid, evolution_experiment) dict \<Rightarrow>
   (uuid, experiment_transition_event list) dict \<Rightarrow> bool" where
  "promotions_earned as exps hist \<longleftrightarrow> (\<forall>a \<in> set as. sa_kind a = PROMOTION \<longrightarrow>
     (\<exists>i e ts. sa_experiment_id a = Some i \<and> map_of exps i = Some e \<and> map_of hist i = Some ts \<and>
        PROMOTED \<in> et_to_stage ` set ts \<and> sa_strategy_id a = ex_candidate_id e))"

definition registry_ok :: "'z store_scheme \<Rightarrow> bool" where
  "registry_ok s \<longleftrightarrow> strategies_ok (s_strategies s) \<and> activation_chain (s_strategy_activations s) \<and>
     (\<forall>a \<in> set (s_strategy_activations s). map_of (s_strategies s) (sa_strategy_id a) \<noteq> None) \<and>
     experiments_ok (s_strategies s) (s_experiments s) (s_experiment_transitions s)
       (s_experiment_transition_keys s) \<and>
     promotions_earned (s_strategy_activations s) (s_experiments s) (s_experiment_transitions s)"

lemma registry_okD:
  assumes "registry_ok s"
  shows "strategies_ok (s_strategies s)" "activation_chain (s_strategy_activations s)"
    "\<And>a. a \<in> set (s_strategy_activations s) \<Longrightarrow> map_of (s_strategies s) (sa_strategy_id a) \<noteq> None"
    "experiments_ok (s_strategies s) (s_experiments s) (s_experiment_transitions s)
       (s_experiment_transition_keys s)"
    "promotions_earned (s_strategy_activations s) (s_experiments s) (s_experiment_transitions s)"
  using assms by (simp_all add: registry_ok_def)

lemma empty_registry_ok: "registry_ok empty_store"
  by (simp add: registry_ok_def strategies_ok_def activation_chain_def experiments_ok_def
      promotions_earned_def empty_store_def)

lemma registry_ok_cong:
  "registry_ok s \<Longrightarrow> s_strategies t = s_strategies s \<Longrightarrow> s_strategy_activations t = s_strategy_activations s \<Longrightarrow>
   s_experiments t = s_experiments s \<Longrightarrow> s_experiment_transitions t = s_experiment_transitions s \<Longrightarrow>
   s_experiment_transition_keys t = s_experiment_transition_keys s \<Longrightarrow> registry_ok t"
  by (simp add: registry_ok_def)

text \<open>The parts are monotone in the dictionaries they only look up.\<close>

lemma map_le_Some: "f \<subseteq>\<^sub>m g \<Longrightarrow> f x = Some y \<Longrightarrow> g x = Some y"
  by (metis domI map_le_def)

lemma parent_ok_mono: "parent_ok d st \<Longrightarrow> map_of d \<subseteq>\<^sub>m map_of d' \<Longrightarrow> parent_ok d' st"
  unfolding parent_ok_def by (cases "st_parent_id st") (auto simp: map_le_def dom_def)

lemma history_ok_mono: "history_ok keys e ts \<Longrightarrow> map_of keys \<subseteq>\<^sub>m map_of keys' \<Longrightarrow> history_ok keys' e ts"
  unfolding history_ok_def by (metis domI map_le_def)

lemma experiments_ok_strategies:
  "experiments_ok sts exps hist keys \<Longrightarrow> map_of sts \<subseteq>\<^sub>m map_of sts' \<Longrightarrow> experiments_ok sts' exps hist keys"
  unfolding experiments_ok_def by (blast dest: map_le_Some)

lemma map_le_dict_set: "map_of d k = None \<Longrightarrow> map_of d \<subseteq>\<^sub>m map_of (dict_set k v d)"
  by (auto simp: map_le_def)

lemma sorted_last_max: "sorted (xs::'a::linorder list) \<Longrightarrow> x \<in> set xs \<Longrightarrow> x \<le> last xs"
  by (induction xs) auto

lemma history_experiment:
  "history_ok keys e ts \<Longrightarrow> ts \<noteq> []"
  using stage_history_ne [of "map et_to_stage ts"] by (auto simp: history_ok_def)

subsection \<open>Reading the active strategy\<close>

lemma active_strategy_total:
  assumes ok: "registry_ok s"
  shows "active_strategy s = Inr (if s_strategy_activations s = [] then None
     else map_of (s_strategies s) (sa_strategy_id (last (s_strategy_activations s))))"
proof (cases "s_strategy_activations s = []")
  case False
  then have "map_of (s_strategies s) (sa_strategy_id (last (s_strategy_activations s))) \<noteq> None"
    by (intro registry_okD(3) [OF ok]) simp
  then show ?thesis using False by (auto simp: active_strategy_def dict_index_def)
qed (simp add: active_strategy_def)

lemma active_strategy_ok:
  "registry_ok s \<Longrightarrow> active_strategy s = Inr (Some a) \<Longrightarrow>
     strategy_ok a \<and> map_of (s_strategies s) (st_id a) = Some a \<and> s_strategy_activations s \<noteq> [] \<and>
     st_id a = sa_strategy_id (last (s_strategy_activations s))"
  using active_strategy_total [of s] registry_okD(1) [of s]
  by (auto simp: strategies_ok_def split: if_splits)

subsection \<open>Saving a strategy\<close>

definition with_strategy :: "strategy_snapshot \<Rightarrow> 'z store_scheme \<Rightarrow> 'z store_scheme" where
  "with_strategy st s = s\<lparr>s_strategies := dict_set (st_id st) st (s_strategies s)\<rparr>"

definition can_save :: "(uuid, strategy_snapshot) dict \<Rightarrow> strategy_snapshot \<Rightarrow> bool" where
  "can_save d st \<longleftrightarrow> map_of d (st_id st) = Some st \<or> map_of d (st_id st) = None \<and> parent_ok d st"

lemma save_strategy_Inr:
  "save_strategy st s = (Inr (), t) \<Longrightarrow> t = with_strategy st s \<and> can_save (s_strategies s) st"
  by (auto simp: save_strategy_def with_strategy_def update_triv raise_if_def pbind_assoc can_save_def
      parent_ok_def split: option.splits if_splits)

lemma save_strategy_Inl: "save_strategy st s = (Inl e, t) \<Longrightarrow> t = s"
  by (auto simp: save_strategy_def raise_if_def pbind_assoc split: option.splits if_splits)

lemma with_strategy_ok:
  assumes d: "strategies_ok d" and st: "strategy_ok st" and new: "can_save d st"
  shows "strategies_ok (dict_set (st_id st) st d) \<and> map_of d \<subseteq>\<^sub>m map_of (dict_set (st_id st) st d)"
proof (cases "map_of d (st_id st)")
  case (Some x)
  with new have "dict_set (st_id st) st d = d" by (simp add: update_triv can_save_def)
  then show ?thesis using d by simp
next
  case None
  let ?d = "dict_set (st_id st) st d"
  have le: "map_of d \<subseteq>\<^sub>m map_of ?d" by (rule map_le_dict_set [OF None])
  have "st_id x = i \<and> strategy_ok x \<and> parent_ok ?d x" if x: "map_of ?d i = Some x" for i x
  proof (cases "i = st_id st")
    case True
    with x have "x = st" by simp
    then show ?thesis using True st new None parent_ok_mono [OF _ le] by (simp add: can_save_def)
  next
    case False
    with x have "map_of d i = Some x" by simp
    then have "st_id x = i \<and> strategy_ok x \<and> parent_ok d x" using d unfolding strategies_ok_def by blast
    then show ?thesis using parent_ok_mono [OF _ le] by blast
  qed
  moreover have "dict_ok ?d" using d by (simp add: strategies_ok_def)
  ultimately show ?thesis using le unfolding strategies_ok_def by blast
qed

subsection \<open>The first activation\<close>

definition bootstrapped ::
  "strategy_snapshot \<Rightarrow> strategy_activation \<Rightarrow> 'z store_scheme \<Rightarrow> 'z store_scheme" where
  "bootstrapped st a s =
     (with_strategy st s)\<lparr>s_strategy_activations := s_strategy_activations s @ [a]\<rparr>"

lemma ensure_active_Inr:
  assumes ok: "registry_ok s" and run: "ensure_active_strategy st a s = (Inr r, t)"
  shows "active_strategy s = Inr (Some r) \<and> t = s \<or>
    s_strategy_activations s = [] \<and> r = st \<and> t = bootstrapped st a s \<and> sa_kind a = BOOTSTRAP \<and>
    sa_strategy_id a = st_id st \<and> can_save (s_strategies s) st"
proof (cases "s_strategy_activations s = []")
  case True
  then show ?thesis using run
    by (auto simp: ensure_active_strategy_def active_strategy_def pbind_Inr raise_if_def bootstrapped_def
        with_strategy_def dest!: save_strategy_Inr split: if_splits)
next
  case False
  then show ?thesis using run active_strategy_total [OF ok] registry_okD(3) [OF ok, of "last (s_strategy_activations s)"]
    by (auto simp: ensure_active_strategy_def)
qed

lemma activation_chain_snoc:
  "activation_chain as \<Longrightarrow> as = [] \<and> sa_kind a = BOOTSTRAP \<or>
     as \<noteq> [] \<and> sa_kind a \<noteq> BOOTSTRAP \<and> sa_previous_id a = Some (sa_strategy_id (last as)) \<Longrightarrow>
   activation_chain (as @ [a])"
  by (auto simp: activation_chain_def nth_append last_conv_nth less_Suc_eq)

lemma bootstrapped_ok:
  assumes ok: "registry_ok s" and st: "strategy_ok st"
    and empty: "s_strategy_activations s = []"
    and a: "sa_kind a = BOOTSTRAP" "sa_strategy_id a = st_id st"
    and new: "can_save (s_strategies s) st"
  shows "registry_ok (bootstrapped st a s)"
proof -
  let ?d = "dict_set (st_id st) st (s_strategies s)"
  have d: "strategies_ok ?d" "map_of (s_strategies s) \<subseteq>\<^sub>m map_of ?d"
    using with_strategy_ok [OF registry_okD(1) [OF ok] st new] by simp_all
  have "experiments_ok ?d (s_experiments s) (s_experiment_transitions s) (s_experiment_transition_keys s)"
    by (rule experiments_ok_strategies [OF registry_okD(4) [OF ok] d(2)])
  then show ?thesis using d(1) a empty
    by (simp add: registry_ok_def bootstrapped_def with_strategy_def activation_chain_def promotions_earned_def)
qed

subsection \<open>Registering an experiment\<close>

definition with_experiment ::
  "evolution_experiment \<Rightarrow> experiment_transition_event list \<Rightarrow> experiment_transition_event \<Rightarrow>
   'z store_scheme \<Rightarrow> 'z store_scheme" where
  "with_experiment e ts t s = s\<lparr>s_experiments := dict_set (ex_id e) e (s_experiments s),
     s_experiment_transitions := dict_set (ex_id e) (ts @ [t]) (s_experiment_transitions s),
     s_experiment_transition_ids := insert (et_id t) (s_experiment_transition_ids s),
     s_experiment_transition_keys := dict_set (et_idempotency_key t) t (s_experiment_transition_keys s)\<rparr>"

lemma register_Inr:
  assumes run: "register_evolution_experiment c e tr s = (Inr (), t)"
  shows "\<exists>a. active_strategy s = Inr (Some a) \<and> st_id a = ex_baseline_id e \<and> st_id c = ex_candidate_id e \<and>
     st_parent_id c = Some (st_id a) \<and> st_version c = st_version a + 1 \<and>
     map_of (s_experiments s) (ex_id e) = None \<and> ex_stage e = PROPOSED \<and> ex_created_at e = ex_updated_at e \<and>
     map_of (s_experiment_transition_keys s) (et_idempotency_key tr) = None \<and>
     et_experiment_id tr = ex_id e \<and> et_from_stage tr = None \<and> et_to_stage tr = PROPOSED \<and>
     et_transitioned_at tr = ex_created_at e \<and> can_save (s_strategies s) c \<and>
     t = with_experiment e [] tr (with_strategy c s)"
  using run unfolding register_evolution_experiment_def pbind_asks
  by (auto simp: pbind_Inr raise_if_Inr with_experiment_def dest!: save_strategy_Inr
      split: sum.splits option.splits)

lemma experiments_ok_add:
  assumes ok: "experiments_ok sts exps hist keys"
    and e: "experiment_ok e" "\<exists>c. map_of sts (ex_candidate_id e) = Some c \<and> st_parent_id c = Some (ex_baseline_id e)"
    and same: "case map_of exps (ex_id e) of None \<Rightarrow> ts = [] | Some _ \<Rightarrow> map_of hist (ex_id e) = Some ts"
    and fresh: "map_of keys (et_idempotency_key t) = None"
    and t: "et_experiment_id t = ex_id e"
    and hist: "history_ok (dict_set (et_idempotency_key t) t keys) e (ts @ [t])"
  shows "experiments_ok sts (dict_set (ex_id e) e exps) (dict_set (ex_id e) (ts @ [t]) hist)
    (dict_set (et_idempotency_key t) t keys)"
proof -
  let ?k = "dict_set (et_idempotency_key t) t keys"
  have le: "map_of keys \<subseteq>\<^sub>m map_of ?k" by (rule map_le_dict_set [OF fresh])
  have old: "ex_id x = i \<and> experiment_ok x \<and>
      (\<exists>c. map_of sts (ex_candidate_id x) = Some c \<and> st_parent_id c = Some (ex_baseline_id x)) \<and>
      (\<exists>us. map_of hist i = Some us \<and> history_ok ?k x us)" if "map_of exps i = Some x" for i x
    using ok that history_ok_mono [OF _ le] unfolding experiments_ok_def by blast
  have part: "u \<in> set (ts @ [t])"
    if u: "map_of keys k = Some u" "et_experiment_id u = ex_id e" for k u
    using ok u same unfolding experiments_ok_def by (fastforce split: option.splits)
  have key: "et_idempotency_key u = k \<and> (\<exists>x us. map_of (dict_set (ex_id e) e exps) (et_experiment_id u) = Some x \<and>
      map_of (dict_set (ex_id e) (ts @ [t]) hist) (et_experiment_id u) = Some us \<and> u \<in> set us)"
    if u: "map_of ?k k = Some u" for k u
  proof (cases "k = et_idempotency_key t")
    case True
    then show ?thesis using u t by simp
  next
    case False
    with u have "map_of keys k = Some u" by simp
    then show ?thesis using ok part [of k u] unfolding experiments_ok_def by auto
  qed
  have "ex_id x = i \<and> experiment_ok x \<and>
      (\<exists>c. map_of sts (ex_candidate_id x) = Some c \<and> st_parent_id c = Some (ex_baseline_id x)) \<and>
      (\<exists>us. map_of (dict_set (ex_id e) (ts @ [t]) hist) i = Some us \<and> history_ok ?k x us)"
    if x: "map_of (dict_set (ex_id e) e exps) i = Some x" for i x
  proof (cases "i = ex_id e")
    case True
    with x show ?thesis using e hist by simp
  next
    case False
    with x show ?thesis using old [of i x] by simp
  qed
  then show ?thesis unfolding experiments_ok_def using key by blast
qed

lemma promotions_earned_add:
  assumes "promotions_earned as exps hist"
    and "case map_of exps (ex_id e) of None \<Rightarrow> ts = []
         | Some x \<Rightarrow> map_of hist (ex_id e) = Some ts \<and> ex_candidate_id x = ex_candidate_id e"
  shows "promotions_earned as (dict_set (ex_id e) e exps) (dict_set (ex_id e) (ts @ [t]) hist)"
  unfolding promotions_earned_def
proof (intro ballI impI)
  fix a assume "a \<in> set as" "sa_kind a = PROMOTION"
  then obtain i x us where "sa_experiment_id a = Some i" "map_of exps i = Some x" "map_of hist i = Some us"
      "PROMOTED \<in> et_to_stage ` set us" "sa_strategy_id a = ex_candidate_id x"
    using assms(1) unfolding promotions_earned_def by blast
  then show "\<exists>i x us. sa_experiment_id a = Some i \<and> map_of (dict_set (ex_id e) e exps) i = Some x \<and>
      map_of (dict_set (ex_id e) (ts @ [t]) hist) i = Some us \<and> PROMOTED \<in> et_to_stage ` set us \<and>
      sa_strategy_id a = ex_candidate_id x"
    using assms(2) by (cases "i = ex_id e") auto
qed

lemma registered_ok:
  assumes ok: "registry_ok s" and c: "strategy_ok c" and e: "experiment_ok e"
    and run: "register_evolution_experiment c e tr s = (Inr (), t)"
  shows "registry_ok t"
proof -
  let ?d = "dict_set (st_id c) c (s_strategies s)"
  from register_Inr [OF run] have
    r: "map_of (s_experiments s) (ex_id e) = None" "ex_stage e = PROPOSED" "ex_created_at e = ex_updated_at e"
      "map_of (s_experiment_transition_keys s) (et_idempotency_key tr) = None"
      "et_experiment_id tr = ex_id e" "et_to_stage tr = PROPOSED" "et_transitioned_at tr = ex_created_at e"
      "can_save (s_strategies s) c" "t = with_experiment e [] tr (with_strategy c s)"
    and cand: "map_of ?d (ex_candidate_id e) = Some c \<and> st_parent_id c = Some (ex_baseline_id e)"
    by auto
  have d: "strategies_ok ?d" "map_of (s_strategies s) \<subseteq>\<^sub>m map_of ?d"
    using with_strategy_ok [OF registry_okD(1) [OF ok] c r(8)] by simp_all
  have "history_ok (dict_set (et_idempotency_key tr) tr (s_experiment_transition_keys s)) e ([] @ [tr])"
    using r by (simp add: history_ok_def created)
  then have "experiments_ok ?d (dict_set (ex_id e) e (s_experiments s))
      (dict_set (ex_id e) ([] @ [tr]) (s_experiment_transitions s))
      (dict_set (et_idempotency_key tr) tr (s_experiment_transition_keys s))"
    using r cand by (intro experiments_ok_add e experiments_ok_strategies [OF registry_okD(4) [OF ok] d(2)]) auto
  moreover have "promotions_earned (s_strategy_activations s) (dict_set (ex_id e) e (s_experiments s))
      (dict_set (ex_id e) ([] @ [tr]) (s_experiment_transitions s))"
    using r(1) by (intro promotions_earned_add registry_okD(5) [OF ok]) simp
  moreover have "map_of ?d (sa_strategy_id a) \<noteq> None" if "a \<in> set (s_strategy_activations s)" for a
    using registry_okD(3) [OF ok that] by simp
  ultimately show ?thesis using d(1) registry_okD(2) [OF ok]
    by (simp add: registry_ok_def r(9) with_experiment_def with_strategy_def)
qed

subsection \<open>Advancing an experiment\<close>

text \<open>The activation a stage change makes: the candidate on promotion, the baseline on rollback.\<close>

definition activation_ok ::
  "strategy_snapshot option \<Rightarrow> evolution_experiment \<Rightarrow> experiment_stage \<Rightarrow> strategy_activation option \<Rightarrow> bool" where
  "activation_ok active current target act \<longleftrightarrow>
     (let promotion = (ex_stage current = CANARY \<and> target = PROMOTED);
          rollback = (ex_stage current = PROMOTED \<and> target = ROLLED_BACK)
      in case act of None \<Rightarrow> \<not> promotion \<and> \<not> rollback
         | Some a \<Rightarrow> (promotion \<or> rollback) \<and> sa_experiment_id a = Some (ex_id current) \<and>
             sa_kind a = (if promotion then PROMOTION else ROLLBACK) \<and>
             sa_strategy_id a = (if promotion then ex_candidate_id current else ex_baseline_id current) \<and>
             sa_previous_id a = Some (if promotion then ex_baseline_id current else ex_candidate_id current) \<and>
             (\<exists>st. active = Some st \<and> sa_previous_id a = Some (st_id st)))"

definition with_activation :: "strategy_activation option \<Rightarrow> 'z store_scheme \<Rightarrow> 'z store_scheme" where
  "with_activation act s = (case act of None \<Rightarrow> s
     | Some a \<Rightarrow> s\<lparr>s_strategy_activations := s_strategy_activations s @ [a]\<rparr>)"

lemma validate_activation_Inr:
  "validate_activation current e tr act s = (Inr (), t) \<Longrightarrow> t = s \<and>
     (act = None \<and> activation_ok None current (ex_stage e) None \<or>
      (\<exists>a active. act = Some a \<and> active_strategy s = Inr active \<and> activation_ok active current (ex_stage e) act \<and>
        map_of (s_strategies s) (sa_strategy_id a) \<noteq> None))"
  by (auto simp: validate_activation_def activation_ok_def Let_def raise_if_def
      split: if_splits option.splits sum.splits)

lemma validate_activation_keeps: "\<exists>r. validate_activation current e tr act s = (r, s)"
  by (auto simp: validate_activation_def Let_def raise_if_def split: option.split sum.split)

lemma advance_Inr:
  assumes ok: "registry_ok s" and run: "advance_evolution_experiment e tr act s = (Inr (), t)"
  shows "\<exists>current ts. map_of (s_experiments s) (ex_id e) = Some current \<and>
     map_of (s_experiment_transitions s) (ex_id e) = Some ts \<and>
     map_of (s_experiment_transition_keys s) (et_idempotency_key tr) = None \<and>
     et_experiment_id tr = ex_id e \<and> et_from_stage tr = Some (ex_stage current) \<and>
     et_to_stage tr = ex_stage e \<and> et_transitioned_at tr = ex_updated_at e \<and>
     ex_updated_at current \<le> ex_updated_at e \<and> legal_edge (ex_stage current) (ex_stage e) \<and>
     e = current\<lparr>ex_stage := ex_stage e, ex_updated_at := ex_updated_at e\<rparr> \<and>
     t = with_experiment e ts tr (with_activation act s) \<and>
     validate_activation current e tr act s = (Inr (), s)"
proof -
  from run obtain current where cur: "map_of (s_experiments s) (ex_id e) = Some current"
    by (auto simp: advance_evolution_experiment_def split: option.splits)
  have cok: "ex_id current = ex_id e \<and> experiment_ok current \<and>
      (\<exists>ts. map_of (s_experiment_transitions s) (ex_id e) = Some ts)"
    using registry_okD(4) [OF ok] cur unfolding experiments_ok_def by blast
  then obtain ts where ts: "map_of (s_experiment_transitions s) (ex_id e) = Some ts" by blast
  obtain r where r: "validate_activation current e tr act s = (r, s)"
    using validate_activation_keeps by blast
  show ?thesis
  proof (cases r)
    case (Inl err)
    then have "fst (advance_evolution_experiment e tr act s) \<noteq> Inr ()"
      by (simp add: advance_evolution_experiment_def cur pbind_eval(1) [where m = "validate_activation current e tr act" and s = s, OF r [unfolded Inl]] raise_if_def
          split: sum.split)
    then show ?thesis using run by simp
  next
    case (Inr u)
    show ?thesis using run cok r Inr
      by (cases act) (auto simp: advance_evolution_experiment_def cur pbind_eval(2) raise_if_def experiment_transition_Inr
          with_experiment_def with_activation_def dict_index_def ts split: if_splits sum.splits)
  qed
qed

lemma history_ok_advance:
  assumes h: "history_ok keys c ts" and edge: "legal_edge (ex_stage c) (ex_stage e)"
    and e: "ex_id e = ex_id c" "ex_created_at e = ex_created_at c" "ex_updated_at c \<le> ex_updated_at e"
    and t: "et_to_stage t = ex_stage e" "et_transitioned_at t = ex_updated_at e" "et_experiment_id t = ex_id e"
      "map_of keys (et_idempotency_key t) = Some t"
  shows "history_ok keys e (ts @ [t])"
proof -
  have ne: "ts \<noteq> []" by (rule history_experiment [OF h])
  have "et_transitioned_at x \<le> ex_updated_at c" if "x \<in> set ts" for x
    using h that sorted_last_max [of "map et_transitioned_at ts" "et_transitioned_at x"] ne
    by (simp add: history_ok_def last_map)
  then have "sorted (map et_transitioned_at (ts @ [t]))"
    using h e(3) t(2) by (fastforce simp: history_ok_def sorted_append)
  moreover have "stage_history (map et_to_stage (ts @ [t]))"
    using h edge t(1) ne by (auto simp: history_ok_def last_map intro!: stage_history_extend)
  ultimately show ?thesis using h e t ne by (simp add: history_ok_def)
qed

lemma advanced_ok:
  assumes ok: "registry_ok s" and run: "advance_evolution_experiment e tr act s = (Inr (), t)"
  shows "registry_ok t"
proof -
  from advance_Inr [OF ok run] obtain current ts where
    cur: "map_of (s_experiments s) (ex_id e) = Some current"
    and ts: "map_of (s_experiment_transitions s) (ex_id e) = Some ts"
    and tr: "map_of (s_experiment_transition_keys s) (et_idempotency_key tr) = None"
      "et_experiment_id tr = ex_id e" "et_to_stage tr = ex_stage e" "et_transitioned_at tr = ex_updated_at e"
    and later: "ex_updated_at current \<le> ex_updated_at e"
    and edge: "legal_edge (ex_stage current) (ex_stage e)"
    and e: "e = current\<lparr>ex_stage := ex_stage e, ex_updated_at := ex_updated_at e\<rparr>"
    and t: "t = with_experiment e ts tr (with_activation act s)"
    and val: "validate_activation current e tr act s = (Inr (), s)"
    by auto
  let ?exps = "dict_set (ex_id e) e (s_experiments s)"
  let ?hist = "dict_set (ex_id e) (ts @ [tr]) (s_experiment_transitions s)"
  let ?keys = "dict_set (et_idempotency_key tr) tr (s_experiment_transition_keys s)"
  have same: "ex_baseline_id e = ex_baseline_id current" "ex_candidate_id e = ex_candidate_id current"
    "ex_created_at e = ex_created_at current" "ex_id e = ex_id current"
    by (subst e; simp)+
  have cok: "experiment_ok current" "history_ok (s_experiment_transition_keys s) current ts"
    "\<exists>c. map_of (s_strategies s) (ex_candidate_id current) = Some c \<and> st_parent_id c = Some (ex_baseline_id current)"
    using registry_okD(4) [OF ok] cur ts unfolding experiments_ok_def by fastforce+
  then have eok: "experiment_ok e" using same later by (simp add: experiment_ok_def)
  have "ts \<noteq> []" using history_experiment cok(2) .
  have "history_ok ?keys current ts"
    by (rule history_ok_mono [OF cok(2)]) (rule map_le_dict_set [OF tr(1)])
  then have hist: "history_ok ?keys e (ts @ [tr])"
    by (rule history_ok_advance) (use tr same later edge in simp_all)
  have exps: "experiments_ok (s_strategies s) ?exps ?hist ?keys"
    using cur ts tr cok(3) same eok hist by (intro experiments_ok_add registry_okD(4) [OF ok]) simp_all
  have old: "promotions_earned (s_strategy_activations s) ?exps ?hist"
    using cur ts same by (intro promotions_earned_add registry_okD(5) [OF ok]) simp
  note base = registry_okD(1,2) [OF ok]
  show ?thesis
  proof (cases act)
    case None
    then show ?thesis using base exps old registry_okD(3) [OF ok]
      by (simp add: registry_ok_def t with_experiment_def with_activation_def)
  next
    case (Some a)
    with validate_activation_Inr [OF val] obtain active where active: "active_strategy s = Inr active"
        "activation_ok active current (ex_stage e) (Some a)" "map_of (s_strategies s) (sa_strategy_id a) \<noteq> None"
      by auto
    then obtain st where st: "active_strategy s = Inr (Some st)" "sa_previous_id a = Some (st_id st)"
      by (auto simp: activation_ok_def Let_def)
    from active_strategy_ok [OF ok st(1)] have last: "s_strategy_activations s \<noteq> []"
      "st_id st = sa_strategy_id (last (s_strategy_activations s))" by simp_all
    have kind: "sa_kind a \<noteq> BOOTSTRAP" using active(2) by (auto simp: activation_ok_def Let_def)
    have chain: "activation_chain (s_strategy_activations s @ [a])"
      using base(2) kind st(2) last by (intro activation_chain_snoc) simp_all
    have "promotions_earned [a] ?exps ?hist"
      using active(2) cok same tr
      by (auto simp: promotions_earned_def activation_ok_def Let_def split: if_splits)
    then have "promotions_earned (s_strategy_activations s @ [a]) ?exps ?hist"
      using old by (auto simp: promotions_earned_def)
    then show ?thesis using base exps chain registry_okD(3) [OF ok] active(3) Some
      by (simp add: registry_ok_def t with_experiment_def with_activation_def)
  qed
qed

subsection \<open>A refused write changes nothing\<close>

lemma register_Inl:
  assumes run: "register_evolution_experiment c e tr s = (Inl err, t)"
  shows "t = s"
proof -
  obtain r u where save: "save_strategy c s = (r, u)" by (cases "save_strategy c s")
  show ?thesis
  proof (cases r)
    case (Inl x)
    with save save_strategy_Inl have "u = s" by blast
    with run save Inl show ?thesis
      by (auto simp: register_evolution_experiment_def pbind_eval(1) raise_if_def
          split: sum.splits option.splits if_splits)
  next
    case (Inr x)
    with run save show ?thesis
      by (auto simp: register_evolution_experiment_def pbind_eval(2) raise_if_def
          split: sum.splits option.splits if_splits)
  qed
qed

lemma advance_Inl:
  assumes ok: "registry_ok s" and run: "advance_evolution_experiment e tr act s = (Inl err, t)"
  shows "t = s"
proof (cases "map_of (s_experiments s) (ex_id e)")
  case None
  with run show ?thesis by (simp add: advance_evolution_experiment_def)
next
  case (Some current)
  obtain ts where ts: "map_of (s_experiment_transitions s) (ex_id e) = Some ts"
    using registry_okD(4) [OF ok] Some unfolding experiments_ok_def by blast
  obtain r where r: "validate_activation current e tr act s = (r, s)"
    using validate_activation_keeps by blast
  show ?thesis using run r Some ts
    by (cases r; cases act) (auto simp: advance_evolution_experiment_def pbind_eval raise_if_def dict_index_def
        split: if_splits sum.splits)
qed

end
