(* ===== verification/Bitemporal.thy ===== *)
theory Bitemporal
  imports Commands_Correct
begin

text \<open>
  Reading the store on its two time axes: what \<open>memories_as_of\<close> returns is exactly the relation
  \<open>effective\<close>, one head per record, and it never fails on a well-formed store.
\<close>

subsection \<open>The revisions of a record\<close>

definition revisions_of :: "'z store_scheme \<Rightarrow> uuid \<Rightarrow> memory_revision list" where
  "revisions_of s r = map (\<lambda>j. the (map_of (s_revisions s) j)) (revision_ids_of s r)"

lemma revision_ids_chain:
  assumes "belief_plane_ok sha s" "j \<in> set (revision_ids_of s r)"
  obtains v where "map_of (s_revisions s) j = Some v" "rev_id v = j" "rev_record_id v = r" "revision_ok v"
proof -
  obtain ids where ids: "map_of (s_revision_ids_by_record s) r = Some ids" "j \<in> set ids"
    using assms(2) unfolding revision_ids_of_def by (cases "map_of (s_revision_ids_by_record s) r") auto
  then obtain n where n: "n < length ids" "ids ! n = j" by (auto simp: in_set_conv_nth)
  have "chain_ok s r ids" using belief_plane_okD(4) [OF assms(1) ids(1)] by simp
  then show thesis using that n unfolding chain_ok_def by blast
qed

lemma revisions_eval:
  assumes ok: "belief_plane_ok sha s"
  shows "rmap (dict_index (s_revisions s)) (revision_ids_of s r) = Inr (revisions_of s r)"
proof -
  have "dict_index (s_revisions s) j = Inr (the (map_of (s_revisions s) j))" if "j \<in> set (revision_ids_of s r)" for j
    by (rule revision_ids_chain [OF ok that]) (simp add: dict_index_def)
  then show ?thesis unfolding revisions_of_def by (rule rmap_total)
qed

lemma revisions_of_iff:
  assumes ok: "belief_plane_ok sha s"
  shows "v \<in> set (revisions_of s r) \<longleftrightarrow> map_of (s_revisions s) (rev_id v) = Some v \<and> rev_record_id v = r"
proof
  assume "v \<in> set (revisions_of s r)"
  then obtain j where j: "j \<in> set (revision_ids_of s r)" "v = the (map_of (s_revisions s) j)"
    by (auto simp: revisions_of_def)
  show "map_of (s_revisions s) (rev_id v) = Some v \<and> rev_record_id v = r"
    by (rule revision_ids_chain [OF ok j(1)]) (simp add: j(2))
next
  assume v: "map_of (s_revisions s) (rev_id v) = Some v \<and> rev_record_id v = r"
  then obtain ids where ids: "map_of (s_revision_ids_by_record s) r = Some ids" "rev_id v \<in> set ids"
    using belief_plane_okD(5) [OF ok] by blast
  have "rev_id v \<in> set (revision_ids_of s r)" using ids by (simp add: revision_ids_of_def)
  then have "the (map_of (s_revisions s) (rev_id v)) \<in> set (revisions_of s r)" by (simp add: revisions_of_def)
  then show "v \<in> set (revisions_of s r)" using v by simp
qed

lemma py_max_Nil [simp]: "py_max k [] = None"
  by (simp add: py_max_def)

subsection \<open>The specification\<close>

definition in_force :: "instant \<Rightarrow> instant \<Rightarrow> memory_revision \<Rightarrow> bool" where
  "in_force valid_at known_at v \<longleftrightarrow> rev_recorded_at v \<le> known_at \<and> rev_valid_from v \<le> valid_at"

text \<open>The revision of a record in force at the two times that was recorded last.\<close>

definition effective ::
  "'z store_scheme \<Rightarrow> scope \<Rightarrow> instant \<Rightarrow> instant \<Rightarrow> memory_record \<Rightarrow> memory_revision \<Rightarrow> bool" where
  "effective s sc valid_at known_at r v \<longleftrightarrow>
     map_of (s_records s) (rec_id r) = Some r \<and> rec_scope r = sc \<and> rec_created_at r \<le> known_at \<and>
     map_of (s_revisions s) (rev_id v) = Some v \<and> rev_record_id v = rec_id r \<and>
     in_force valid_at known_at v \<and>
     (\<forall>u. map_of (s_revisions s) (rev_id u) = Some u \<and> rev_record_id u = rec_id r \<and>
        in_force valid_at known_at u \<longrightarrow> revision_key u \<le> revision_key v)"

definition head_of ::
  "'z store_scheme \<Rightarrow> scope \<Rightarrow> instant \<Rightarrow> instant \<Rightarrow> memory_record \<Rightarrow> memory_snapshot list" where
  "head_of s sc valid_at known_at r =
     (if rec_scope r \<noteq> sc \<or> rec_created_at r > known_at then []
      else case py_max revision_key (filter (in_force valid_at known_at) (revisions_of s (rec_id r))) of
          None \<Rightarrow> []
        | Some v \<Rightarrow> [\<lparr>snap_record = r, snap_revision = v\<rparr>])"

lemma record_as_of_eval:
  assumes ok: "belief_plane_ok sha s"
  shows "record_as_of s sc valid_at known_at r = Inr (head_of s sc valid_at known_at r)"
proof -
  let ?vs = "filter (in_force valid_at known_at) (revisions_of s (rec_id r))"
  have f: "filter (\<lambda>v. rev_recorded_at v \<le> known_at \<and> rev_valid_from v \<le> valid_at) vs =
      filter (in_force valid_at known_at) vs" for vs by (simp add: in_force_def [abs_def])
  have "rev_record_id v = rec_id r" if "py_max revision_key ?vs = Some v" for v
    using py_max_Some [OF that] revisions_of_iff [OF ok] by auto
  then show ?thesis
    by (auto simp: record_as_of_def head_of_def revisions_eval [OF ok] f mk_memory_snapshot_def
        split: option.split)
qed

lemma revision_key_inj: "revision_key u = revision_key v \<Longrightarrow> rev_id u = rev_id v"
  by (simp add: revision_key_def uuid_str_inj)

lemma head_of_iff:
  assumes ok: "belief_plane_ok sha s" and r: "map_of (s_records s) (rec_id r) = Some r"
  shows "head_of s sc valid_at known_at r = (if \<exists>v. effective s sc valid_at known_at r v
    then [\<lparr>snap_record = r, snap_revision = (THE v. effective s sc valid_at known_at r v)\<rparr>] else [])"
proof -
  let ?vs = "filter (in_force valid_at known_at) (revisions_of s (rec_id r))"
  have uniq: "u = v" if "effective s sc valid_at known_at r u" "effective s sc valid_at known_at r v" for u v
  proof -
    have "revision_key u = revision_key v" using that unfolding effective_def by (meson order.antisym)
    then show ?thesis using revision_key_inj that unfolding effective_def by (metis option.inject)
  qed
  show ?thesis
  proof (cases "rec_scope r = sc \<and> rec_created_at r \<le> known_at")
    case False
    then show ?thesis by (auto simp: head_of_def effective_def)
  next
    case True
    show ?thesis
    proof (cases "py_max revision_key ?vs")
      case None
      then have "\<not> in_force valid_at known_at v" if "v \<in> set (revisions_of s (rec_id r))" for v
        using that by (simp add: filter_empty_conv)
      then have "\<not> (\<exists>v. effective s sc valid_at known_at r v)"
        using revisions_of_iff [OF ok] unfolding effective_def by blast
      then show ?thesis using True None by (simp add: head_of_def)
    next
      case (Some v)
      have eff: "effective s sc valid_at known_at r v"
        using py_max_Some [OF Some] True r revisions_of_iff [OF ok] unfolding effective_def by auto
      then have "(THE v. effective s sc valid_at known_at r v) = v" using uniq by blast
      then show ?thesis using True Some eff by (auto simp: head_of_def)
    qed
  qed
qed

text \<open>One snapshot per record that has a revision in force, that revision, in the order of the keys.\<close>

lemma memories_as_of_spec:
  assumes ok: "belief_plane_ok sha s"
  obtains snaps where "memories_as_of sha s sc valid_at known_at = Inr snaps"
    "\<And>sn. sn \<in> set snaps \<longleftrightarrow> effective s sc valid_at known_at (snap_record sn) (snap_revision sn)"
    "distinct (map (\<lambda>sn. rec_id (snap_record sn)) snaps)"
    "sorted_wrt (\<lambda>a b. snapshot_key sha a \<le> snapshot_key sha b) snaps"
proof -
  note D = belief_plane_okD [OF ok]
  have dict: "dict_ok (s_records s)" using keyedD(1) [OF D(1)] .
  have val: "r \<in> set (dict_values (s_records s)) \<longleftrightarrow> map_of (s_records s) (rec_id r) = Some r" for r
    using dict keyedD(3) [OF D(1)] by (auto simp: dict_values_iff)
  let ?raw = "concat (map (head_of s sc valid_at known_at) (dict_values (s_records s)))"
  let ?snaps = "sort_key (snapshot_key sha) ?raw"
  have "memories_as_of sha s sc valid_at known_at = Inr ?snaps"
    unfolding memories_as_of_def by (subst rmap_total [OF record_as_of_eval [OF ok]]) simp_all
  moreover have "sn \<in> set ?snaps \<longleftrightarrow> effective s sc valid_at known_at (snap_record sn) (snap_revision sn)" for sn
  proof -
    have "sn \<in> set (head_of s sc valid_at known_at r) \<longleftrightarrow> snap_record sn = r \<and>
        effective s sc valid_at known_at r (snap_revision sn)" if "map_of (s_records s) (rec_id r) = Some r" for r
    proof -
      have "\<exists>\<^sub>\<le>\<^sub>1 v. effective s sc valid_at known_at r v"
        unfolding Uniq_def effective_def by (metis order.antisym option.inject revision_key_inj)
      then have "effective s sc valid_at known_at r v \<Longrightarrow> (THE v. effective s sc valid_at known_at r v) = v" for v
        by (metis the1_equality')
      then show ?thesis unfolding head_of_iff [OF ok that] by (cases sn) auto
    qed
    then show ?thesis using val by (auto simp: effective_def)
  qed
  moreover have "distinct (map (\<lambda>sn. rec_id (snap_record sn)) ?snaps)"
  proof -
    let ?ids = "\<lambda>rs. map (\<lambda>sn. rec_id (snap_record sn)) (concat (map (head_of s sc valid_at known_at) rs))"
    have one: "map (\<lambda>sn. rec_id (snap_record sn)) (head_of s sc valid_at known_at r) = [] \<or>
        map (\<lambda>sn. rec_id (snap_record sn)) (head_of s sc valid_at known_at r) = [rec_id r]" for r
      by (simp add: head_of_def split: option.split)
    have "distinct (?ids rs) \<and> set (?ids rs) \<subseteq> rec_id ` set rs" if "distinct (map rec_id rs)" for rs
      using that
    proof (induction rs)
      case (Cons r rs)
      then have "distinct (?ids rs)" "set (?ids rs) \<subseteq> rec_id ` set rs" "rec_id r \<notin> rec_id ` set rs" by simp_all
      then show ?case using one [of r] by (auto simp del: set_map)
    qed simp
    moreover have "distinct (map rec_id (dict_values (s_records s)))"
    proof -
      have "map rec_id (dict_values (s_records s)) = map fst (s_records s)"
        using dict keyedD(3) [OF D(1)] unfolding dict_values_def
        by (auto simp: dict_ok_def)
      then show ?thesis using dict by (simp add: dict_ok_def)
    qed
    ultimately have "distinct (?ids (dict_values (s_records s)))" by blast
    then show ?thesis by simp
  qed
  moreover have "sorted_wrt (\<lambda>a b. snapshot_key sha a \<le> snapshot_key sha b) ?snaps"
    using sorted_sort_key [of "snapshot_key sha" ?raw] by (simp add: sorted_map)
  ultimately show thesis using that by blast
qed

end
