(* ===== verification/RecallCorrect.thy ===== *)
theory RecallCorrect
  imports Bitemporal CompressionCorrect
begin

text \<open>
  Recalling: what the items of a trace are, how they are ordered, and that recalling changes nothing
  in the store but the one trace it adds.
\<close>

subsection \<open>Changes of the counters only\<close>

definition same_store :: "world \<Rightarrow> world \<Rightarrow> bool" where
  "same_store w w' \<longleftrightarrow> store.truncate w' = store.truncate w \<and> w_ids w \<le> w_ids w'"

lemma same_store_refl: "same_store w w" by (simp add: same_store_def)

lemma same_store_trans: "same_store w u \<Longrightarrow> same_store u v \<Longrightarrow> same_store w v" by (simp add: same_store_def)

interpretation counters: state_relation same_store
  by unfold_locales (auto intro: same_store_refl same_store_trans)

lemma same_store_updates:
  "same_store w (w\<lparr>w_ids := Suc (w_ids w)\<rparr>)" "same_store w (w\<lparr>w_ticks := n\<rparr>)"
  "same_store w (w_projection_available_update f w)"
  by (simp_all add: same_store_def store.defs)

lemma same_store_fields:
  assumes "same_store w w'"
  shows "s_observations w' = s_observations w" "s_observation_keys w' = s_observation_keys w"
    "s_evidence w' = s_evidence w" "s_candidates w' = s_candidates w"
    "s_candidate_by_observation w' = s_candidate_by_observation w" "s_records w' = s_records w"
    "s_record_identity w' = s_record_identity w" "s_revisions w' = s_revisions w"
    "s_revision_ids_by_record w' = s_revision_ids_by_record w" "s_active_revision w' = s_active_revision w"
    "s_transitions w' = s_transitions w" "s_traces w' = s_traces w" "s_usages w' = s_usages w"
    "s_usage_keys w' = s_usage_keys w" "s_outcomes w' = s_outcomes w" "s_outcome_keys w' = s_outcome_keys w"
    "s_utilities w' = s_utilities w" "s_strategies w' = s_strategies w"
    "s_strategy_activations w' = s_strategy_activations w"
  using assms by (simp_all add: same_store_def store.defs)

lemma obeys_reading:
  "obeys same_store (now E)" "obeys same_store (new_id E)" "obeys same_store (retrieval_policy sv)"
  using same_store_updates
  by (auto simp: obeys_def now_def new_id_def retrieval_policy_def pbind_def same_store_refl
      split: option.split sum.split)

lemma world_ok_same: "world_ok E w \<Longrightarrow> same_store w w' \<Longrightarrow> world_ok E w'"
proof -
  assume ok: "world_ok E w" and same: "same_store w w'"
  note F = same_store_fields [OF same] and D = world_okD [OF ok]
  have "evidence_ok w'" by (rule evidence_ok_cong [OF D(1)]) (simp_all add: F)
  moreover have "belief_plane_ok (e_sha E) w'" by (rule belief_plane_ok_cong [OF D(2)]) (simp_all add: F)
  moreover have "experience_ok w'" by (rule experience_ok_cong [OF D(3)]) (simp_all add: F)
  moreover have "ids_issued E w'"
  proof -
    have "ids_used w' = ids_used w" by (simp add: ids_used_def F)
    then show ?thesis using D(4) same unfolding ids_issued_def same_store_def by fastforce
  qed
  moreover have "committed w'"
    using D(5) by (simp add: committed_def resolved_def revision_ids_of_def F)
  ultimately show "world_ok E w'" by (simp add: world_ok_def store_ok_def)
qed

subsection \<open>The scored candidates\<close>

lemmas prog_case_simps = pbind_lift_res pbind_asks pbind_gets pbind_modify pbind_now pbind_new_id
  pbind_return pbind_throw

lemma score_snapshot_Inr:
  assumes "score_snapshot E w c query policy valid known scores sn = Inr ms" "m \<in> set ms"
  shows "ms = [m]" "sm_record m = snap_record sn" "sm_revision m = snap_revision sn"
    "st_min_score policy \<le> sm_score m" "sm_score m = weighted_score (sm_breakdown m) (st_weights policy)"
    "passes_relevance_admission (sb_semantic (sm_breakdown m)) (rec_context (snap_record sn)) (rc_context c)
       (sb_context (sm_breakdown m))"
  using assms by (auto simp: score_snapshot_def Let_def res_simps mk_score_breakdown_Inr split: if_splits)

lemma rank_items_zip:
  "rank_items limit scored = zip [1..int (length (take (nat limit) (sort_desc sm_key scored)))]
     (take (nat limit) (sort_desc sm_key scored))"
  by (simp add: rank_items_def Let_def)

lemma item_of_Inr:
  "item_of (k, m) = Inr i \<Longrightarrow> it_rank i = k \<and> it_revision_id i = rev_id (sm_revision m) \<and>
     it_record_id i = rec_id (sm_record m) \<and> it_value i = rev_value (sm_revision m) \<and>
     it_score i = sm_score m \<and> 1 \<le> k \<and> in_unit (sm_score m)"
  by (auto simp: item_of_def mk_recalled_item_Inr)

lemma items_ranked:
  assumes run: "rmap item_of (zip ks ms) = Inr items" and len: "length ks = length ms"
  shows "length items = length ms" "map it_rank items = ks"
    "map it_revision_id items = map (\<lambda>m. rev_id (sm_revision m)) ms"
    "map it_record_id items = map (\<lambda>m. rec_id (sm_record m)) ms"
    "map it_value items = map (\<lambda>m. rev_value (sm_revision m)) ms" "map it_score items = map sm_score ms"
    "\<forall>i \<in> set items. 1 \<le> it_rank i \<and> in_unit (it_score i)"
proof -
  from run have l2: "list_all2 (\<lambda>p i. item_of p = Inr i) (zip ks ms) items" by (simp add: rmap_Inr_iff)
  then show n: "length items = length ms" using len by (auto dest: list_all2_lengthD)
  have at: "item_of (ks ! j, ms ! j) = Inr (items ! j)" if "j < length ms" for j
    using list_all2_nthD [OF l2, of j] that len by simp
  note at = item_of_Inr [OF at]
  show "map it_rank items = ks" "map it_revision_id items = map (\<lambda>m. rev_id (sm_revision m)) ms"
    "map it_record_id items = map (\<lambda>m. rec_id (sm_record m)) ms"
    "map it_value items = map (\<lambda>m. rev_value (sm_revision m)) ms" "map it_score items = map sm_score ms"
    using at n len by (auto intro!: nth_equalityI)
  show "\<forall>i \<in> set items. 1 \<le> it_rank i \<and> in_unit (it_score i)"
    using at n len by (fastforce simp: in_set_conv_nth)
qed

subsection \<open>The trace\<close>

text \<open>The policy that scores: the pinned one, or the active strategy of the store.\<close>

definition policy_of :: "service \<Rightarrow> world \<Rightarrow> strategy_snapshot option" where
  "policy_of sv w = (case sv_policy sv of Some p \<Rightarrow> Some p
     | None \<Rightarrow> (case active_strategy w of Inr (Some a) \<Rightarrow> Some a | _ \<Rightarrow> None))"

lemma retrieval_policy_Inr:
  "retrieval_policy sv w = (Inr p, w') \<Longrightarrow> policy_of sv w = Some p \<and> w' = w"
  by (auto simp: retrieval_policy_def policy_of_def split: option.splits sum.splits)

lemma projection_scores_same: "obeys same_store (projection_scores sv c q v k)"
  unfolding projection_scores_def
  by (intro counters.obeys_option counters.obeys_return counters.obeys_pbind counters.obeys_asks
      counters.obeys_modify same_store_updates)

lemma active_strategy_ticks [simp]: "active_strategy (w\<lparr>w_ticks := n\<rparr>) = active_strategy w"
  by (simp add: active_strategy_def)

lemma reading_ticks [simp]:
  "memories_as_of sha (w\<lparr>w_ticks := n\<rparr>) sc v k = memories_as_of sha w sc v k"
  "policy_of sv (w\<lparr>w_ticks := n\<rparr>) = policy_of sv w"
  by (simp_all add: memories_as_of_def record_as_of_def [abs_def] revision_ids_of_def policy_of_def
      cong: if_cong option.case_cong)

lemma mk_recall_trace_fields:
  "mk_recall_trace i sc q ctx p pv items (utc v) (utc k) (utc n) = Inr t \<Longrightarrow>
     rt_id t = i \<and> rt_scope t = sc \<and> rt_query t = q \<and> rt_context t = ctx \<and> rt_policy_id t = p \<and>
     rt_policy_version t = pv \<and> rt_items t = items \<and> rt_valid_at t = v \<and> rt_known_at t = k \<and>
     rt_created_at t = n \<and> k \<le> n"
  by (auto simp: mk_recall_trace_def res_simps)

lemma recall_decompose:
  assumes run: "recall E sv c w = (Inr t, w')"
  obtains policy snaps scores scored w1 where
    "policy_of sv w = Some policy" "1 \<le> rc_limit c" "rc_limit c \<le> 100"
    "memories_as_of (e_sha E) w (rc_scope c) (rt_valid_at t) (rt_known_at t) = Inr snaps"
    "rmap (score_snapshot E w1 c (strip (rc_query c)) policy (rt_valid_at t) (rt_known_at t) scores) snaps = Inr scored"
    "rmap item_of (rank_items (rc_limit c) (concat scored)) = Inr (rt_items t)"
    "trace_ok t" "rt_id t = e_ids E (w_ids w1)" "rt_scope t = rc_scope c" "rt_policy_id t = st_id policy"
    "rt_policy_version t = st_version policy" "rt_created_at t = e_clock E (w_ticks w)"
    "rt_known_at t \<le> rt_created_at t" "same_store w w1"
    "w' = with_trace t (w1\<lparr>w_ids := Suc (w_ids w1)\<rparr>)"
proof -
  let ?w0 = "w\<lparr>w_ticks := Suc (w_ticks w)\<rparr>" and ?n = "e_clock E (w_ticks w)"
  let ?valid = "case rc_valid_at c of None \<Rightarrow> ?n | Some t \<Rightarrow> t" and ?known = "case rc_known_at c of None \<Rightarrow> ?n | Some t \<Rightarrow> t"
  from run obtain policy wp snaps scores w1 scored items where
    lim: "1 \<le> rc_limit c" "rc_limit c \<le> 100" and pol: "retrieval_policy sv ?w0 = (Inr policy, wp)"
    and snaps: "memories_as_of (e_sha E) wp (rc_scope c) ?valid ?known = Inr snaps"
    and scores: "projection_scores sv c (strip (rc_query c)) ?valid ?known wp = (Inr scores, w1)"
    and scored: "rmap (score_snapshot E w1 c (strip (rc_query c)) policy ?valid ?known scores) snaps = Inr scored"
    and items: "rmap item_of (rank_items (rc_limit c) (concat scored)) = Inr items"
    and t: "mk_recall_trace (e_ids E (w_ids w1)) (rc_scope c) (strip (rc_query c)) (rc_context c) (st_id policy)
       (st_version policy) items (utc ?valid) (utc ?known) (utc ?n) = Inr t"
    and w': "w' = with_trace t (w1\<lparr>w_ids := Suc (w_ids w1)\<rparr>)"
    unfolding recall_def Let_def pbind_Inr prog_eval now_def new_id_def raise_if_Inr save_trace_eval
    by (auto simp: raise_if_Inr)
  have wp: "wp = ?w0" "policy_of sv w = Some policy" using retrieval_policy_Inr [OF pol] by simp_all
  have fields: "rt_valid_at t = ?valid" "rt_known_at t = ?known" "rt_items t = items"
    using mk_recall_trace_fields [OF t] by simp_all
  have "same_store ?w0 w1" using projection_scores_same scores [unfolded wp] by (rule obeysD)
  with same_store_updates(2) have same: "same_store w w1" by (rule same_store_trans)
  show thesis
    by (rule that [of policy snaps w1 scores scored])
       (use lim wp snaps scored items mk_recall_trace_fields [OF t]
          mk_recall_trace_ok [OF t] same w' fields in \<open>simp_all\<close>)
qed

lemma scored_all:
  assumes "rmap (score_snapshot E w c q policy v k scores) snaps = Inr scored"
  shows "subseq (map (\<lambda>m. (sm_record m, sm_revision m)) (concat scored))
      (map (\<lambda>sn. (snap_record sn, snap_revision sn)) snaps)"
    "\<forall>m \<in> set (concat scored). st_min_score policy \<le> sm_score m \<and>
       sm_score m = weighted_score (sm_breakdown m) (st_weights policy)"
  using assms
proof (induction snaps arbitrary: scored)
  case Nil
  { case 1 then show ?case by simp next case 2 then show ?case by simp }
next
  case (Cons sn snaps)
  { case 1
    then obtain ms rest where r: "scored = ms # rest" "score_snapshot E w c q policy v k scores sn = Inr ms"
      "rmap (score_snapshot E w c q policy v k scores) snaps = Inr rest" by (auto simp: res_simps)
    show ?case
    proof (cases ms)
      case Nil
      with Cons.IH(1) [OF r(3)] r(1) show ?thesis by (simp add: list_emb_Cons)
    next
      case (Cons m ns)
      with score_snapshot_Inr [OF r(2), of m] have "ms = [m]" "sm_record m = snap_record sn"
        "sm_revision m = snap_revision sn" by simp_all
      with Cons.IH(1) [OF r(3)] r(1) show ?thesis by simp
    qed
  next
    case 2
    then obtain ms rest where r: "scored = ms # rest" "score_snapshot E w c q policy v k scores sn = Inr ms"
      "rmap (score_snapshot E w c q policy v k scores) snaps = Inr rest" by (auto simp: res_simps)
    with Cons.IH(2) [OF r(3)] score_snapshot_Inr(4,5) [OF r(2)] show ?case by auto
  }
qed

definition top_of :: "int \<Rightarrow> scored_memory list \<Rightarrow> scored_memory list" where
  "top_of limit ms = take (nat limit) (sort_desc sm_key ms)"

lemma top_of_sorted: "sorted_wrt (\<lambda>a b. sm_score b \<le> sm_score a) (top_of limit ms)"
proof -
  have "sorted_wrt (\<lambda>a b. sm_key b \<le> sm_key a) (top_of limit ms)"
    unfolding top_of_def using sorted_sort_desc by (rule sorted_wrt_take)
  then show ?thesis by (rule sorted_wrt_mono_rel [rotated]) (auto simp: sm_key_def)
qed

text \<open>Who is left out is behind everyone included, and the limit is reached.\<close>

lemma top_of_best:
  assumes "m \<in> set ms" "m \<notin> set (top_of limit ms)"
  shows "length (top_of limit ms) = nat limit" "\<forall>x \<in> set (top_of limit ms). sm_score m \<le> sm_score x"
proof -
  let ?s = "sort_desc sm_key ms"
  have split: "?s = take (nat limit) ?s @ drop (nat limit) ?s" by simp
  have m: "m \<in> set (drop (nat limit) ?s)"
    using assms unfolding top_of_def by (metis Un_iff append_take_drop_id set_append set_sort_desc)
  then have "nat limit < length ?s" by (metis drop_eq_Nil empty_iff list.set(1) linorder_not_le)
  then show "length (top_of limit ms) = nat limit" by (simp add: top_of_def)
  have "sorted_wrt (\<lambda>a b. sm_key b \<le> sm_key a) (take (nat limit) ?s @ drop (nat limit) ?s)"
    using sorted_sort_desc [of sm_key ms] by simp
  then have "\<forall>x \<in> set (take (nat limit) ?s). sm_key m \<le> sm_key x"
    using m unfolding sorted_wrt_append by blast
  then show "\<forall>x \<in> set (top_of limit ms). sm_score m \<le> sm_score x"
    by (auto simp: top_of_def sm_key_def)
qed

lemma mset_take_subset: "mset (take n xs) \<subseteq># mset xs"
  by (metis append_take_drop_id mset_append mset_subset_eq_add_left)

lemma recall_items:
  assumes ok: "belief_plane_ok (e_sha E) w" and run: "recall E sv c w = (Inr t, w')"
  shows "length (rt_items t) \<le> nat (rc_limit c)"
    "map it_rank (rt_items t) = [1..int (length (rt_items t))]"
    "sorted_wrt (\<lambda>i j. it_score j \<le> it_score i) (rt_items t)"
    "distinct (map it_revision_id (rt_items t))"
    "\<forall>i \<in> set (rt_items t). 1 \<le> it_rank i \<and> in_unit (it_score i)"
    "\<forall>i \<in> set (rt_items t). \<exists>r v. effective w (rc_scope c) (rt_valid_at t) (rt_known_at t) r v \<and>
       it_record_id i = rec_id r \<and> it_revision_id i = rev_id v \<and> it_value i = rev_value v"
    "\<exists>p. policy_of sv w = Some p \<and> rt_policy_id t = st_id p \<and> rt_policy_version t = st_version p \<and>
       (\<forall>i \<in> set (rt_items t). st_min_score p \<le> it_score i)"
proof -
  obtain policy snaps scores scored w1 where
    pol: "policy_of sv w = Some policy" and lim: "1 \<le> rc_limit c" "rc_limit c \<le> 100"
    and snaps: "memories_as_of (e_sha E) w (rc_scope c) (rt_valid_at t) (rt_known_at t) = Inr snaps"
    and scored: "rmap (score_snapshot E w1 c (strip (rc_query c)) policy (rt_valid_at t) (rt_known_at t) scores) snaps = Inr scored"
    and items: "rmap item_of (rank_items (rc_limit c) (concat scored)) = Inr (rt_items t)"
    and rest: "trace_ok t" "rt_id t = e_ids E (w_ids w1)" "rt_scope t = rc_scope c" "rt_policy_id t = st_id policy"
      "rt_policy_version t = st_version policy" "rt_created_at t = e_clock E (w_ticks w)"
      "rt_known_at t \<le> rt_created_at t" "same_store w w1"
      "w' = with_trace t (w1\<lparr>w_ids := Suc (w_ids w1)\<rparr>)"
    by (rule recall_decompose [OF run])
  let ?top = "top_of (rc_limit c) (concat scored)"
  obtain snaps' where S: "memories_as_of (e_sha E) w (rc_scope c) (rt_valid_at t) (rt_known_at t) = Inr snaps'"
    "\<And>sn. sn \<in> set snaps' \<longleftrightarrow> effective w (rc_scope c) (rt_valid_at t) (rt_known_at t) (snap_record sn) (snap_revision sn)"
    "distinct (map (\<lambda>sn. rec_id (snap_record sn)) snaps')"
    using memories_as_of_spec [OF ok, of "rc_scope c" "rt_valid_at t" "rt_known_at t"] by metis
  have [simp]: "snaps' = snaps" using S(1) snaps by simp
  note sub = scored_all(1) [OF scored]
  have run': "rmap item_of (zip [1..int (length ?top)] ?top) = Inr (rt_items t)"
    using items by (simp add: rank_items_zip top_of_def)
  note R = items_ranked [OF run', unfolded length_upto, simplified]
  have top: "m \<in> set (concat scored)" if "m \<in> set ?top" for m
    using that by (auto simp: top_of_def dest: in_set_takeD)
  show "length (rt_items t) \<le> nat (rc_limit c)" using R(1) by (simp add: top_of_def)
  show "map it_rank (rt_items t) = [1..int (length (rt_items t))]" using R(1,2) by simp
  have "sorted_wrt (\<lambda>a b. b \<le> a) (map it_score (rt_items t))"
    unfolding R(6) using top_of_sorted by (simp add: sorted_wrt_map)
  then show "sorted_wrt (\<lambda>i j. it_score j \<le> it_score i) (rt_items t)" by (simp add: sorted_wrt_map)
  show "\<forall>i \<in> set (rt_items t). 1 \<le> it_rank i \<and> in_unit (it_score i)" using R(7) .
  have eff: "effective w (rc_scope c) (rt_valid_at t) (rt_known_at t) (sm_record m) (sm_revision m)" if "m \<in> set ?top" for m
  proof -
    have "(sm_record m, sm_revision m) \<in> set (map (\<lambda>sn. (snap_record sn, snap_revision sn)) snaps)"
      using set_mset_mono [OF subseq_mset [OF sub]] top [OF that] by auto
    then show ?thesis using S(2) by force
  qed
  have "distinct (map (\<lambda>p. rec_id (fst p)) (map (\<lambda>sn. (snap_record sn, snap_revision sn)) snaps))"
    using S(3) by (simp add: comp_def)
  then have "distinct (map (\<lambda>p. rec_id (fst p)) (map (\<lambda>m. (sm_record m, sm_revision m)) (concat scored)))"
    by (rule distinct_mset_subset) (rule subseq_mset [OF subseq_map [OF sub]])
  then have "distinct (map (\<lambda>m. rec_id (sm_record m)) (concat scored))" by (simp add: comp_def)
  then have drec: "distinct (map (\<lambda>m. rec_id (sm_record m)) ?top)"
    by (rule distinct_mset_subset)
       (metis (no_types, lifting) image_mset_subseteq_mono mset_map mset_sort_desc mset_take_subset top_of_def)
  then have "distinct (map (\<lambda>m. rev_id (sm_revision m)) ?top)"
  proof -
    have "inj_on (\<lambda>m. rec_id (sm_record m)) (set ?top)" "distinct ?top" using drec by (simp_all add: distinct_map)
    moreover have "rec_id (sm_record m) = rec_id (sm_record n)"
      if "m \<in> set ?top" "n \<in> set ?top" "rev_id (sm_revision m) = rev_id (sm_revision n)" for m n
      using eff [OF that(1)] eff [OF that(2)] that(3) unfolding effective_def by (metis option.inject)
    ultimately show ?thesis unfolding distinct_map inj_on_def by blast
  qed
  then show "distinct (map it_revision_id (rt_items t))" using R(3) by simp
  have item: "\<exists>m \<in> set ?top. it_record_id i = rec_id (sm_record m) \<and> it_revision_id i = rev_id (sm_revision m) \<and>
      it_value i = rev_value (sm_revision m) \<and> it_score i = sm_score m" if i: "i \<in> set (rt_items t)" for i
  proof -
    from i obtain j where j: "j < length (rt_items t)" "rt_items t ! j = i" by (auto simp: in_set_conv_nth)
    then have "j < length ?top" using R(1) by simp
    then show ?thesis
      using j arg_cong [OF R(3), of "\<lambda>l. l ! j"] arg_cong [OF R(4), of "\<lambda>l. l ! j"]
        arg_cong [OF R(5), of "\<lambda>l. l ! j"] arg_cong [OF R(6), of "\<lambda>l. l ! j"]
      by (intro bexI [of _ "?top ! j"]) simp_all
  qed
  then show "\<forall>i \<in> set (rt_items t). \<exists>r v. effective w (rc_scope c) (rt_valid_at t) (rt_known_at t) r v \<and>
       it_record_id i = rec_id r \<and> it_revision_id i = rev_id v \<and> it_value i = rev_value v"
    using eff by blast
  have "st_min_score policy \<le> it_score i" if i: "i \<in> set (rt_items t)" for i
  proof -
    obtain m where "m \<in> set ?top" "it_score i = sm_score m" using item [OF i] by blast
    then show ?thesis using bspec [OF scored_all(2) [OF scored] top] by metis
  qed
  then show "\<exists>p. policy_of sv w = Some p \<and> rt_policy_id t = st_id p \<and> rt_policy_version t = st_version p \<and>
       (\<forall>i \<in> set (rt_items t). st_min_score p \<le> it_score i)" using pol rest by blast
qed

end
