(* ===== verification/ProgramEnds.thy ===== *)
theory ProgramEnds
  imports World
begin

text \<open>
  \<open>ends P m s\<close>: run from \<open>s\<close>, the program returns or raises with a result and a state that satisfy
  \<open>P\<close>.  One rule per way a program is built, so that a property of every exit of a handler is proved
  exit by exit.
\<close>

definition ends :: "('a res \<Rightarrow> 's \<Rightarrow> bool) \<Rightarrow> ('s, 'a) prog \<Rightarrow> 's \<Rightarrow> bool" where
  "ends P m s \<longleftrightarrow> P (fst (m s)) (snd (m s))"

lemma ends_return: "P (Inr x) s \<Longrightarrow> ends P (return x) s"
  and ends_throw: "P (Inl e) s \<Longrightarrow> ends P (throw e) s"
  by (simp_all add: ends_def)

lemma ends_lift_res:
  "(\<And>e. r = Inl e \<Longrightarrow> P (Inl e) s) \<Longrightarrow> (\<And>x. r = Inr x \<Longrightarrow> ends P (f x) s) \<Longrightarrow> ends P (pbind (lift_res r) f) s"
  and ends_asks:
  "(\<And>e. q s = Inl e \<Longrightarrow> P (Inl e) s) \<Longrightarrow> (\<And>x. q s = Inr x \<Longrightarrow> ends P (f x) s) \<Longrightarrow> ends P (pbind (asks q) f) s"
  by (simp_all add: ends_def split: sum.split)

lemma ends_gets: "(\<And>x. x = g s \<Longrightarrow> ends P (f x) s) \<Longrightarrow> ends P (pbind (gets g) f) s"
  and ends_now: "ends P (h (e_clock E (w_ticks w))) (w\<lparr>w_ticks := Suc (w_ticks w)\<rparr>) \<Longrightarrow> ends P (pbind (now E) h) w"
  and ends_new_id: "ends P (k (e_ids E (w_ids w))) (w\<lparr>w_ids := Suc (w_ids w)\<rparr>) \<Longrightarrow> ends P (pbind (new_id E) k) w"
  by (simp_all add: ends_def)

lemma ends_bind:
  "(\<And>e t. m s = (Inl e, t) \<Longrightarrow> P (Inl e) t) \<Longrightarrow> (\<And>x t. m s = (Inr x, t) \<Longrightarrow> ends P (f x) t) \<Longrightarrow>
   ends P (pbind m f) s"
  by (cases "m s"; cases "fst (m s)") (auto simp: ends_def pbind_def)

lemma ends_option:
  "(v = None \<Longrightarrow> ends P m s) \<Longrightarrow> (\<And>x. v = Some x \<Longrightarrow> ends P (f x) s) \<Longrightarrow>
   ends P (case v of None \<Rightarrow> m | Some x \<Rightarrow> f x) s"
  by (cases v) simp_all

lemmas ends_rules = ends_lift_res ends_asks ends_gets ends_now ends_new_id ends_option ends_return ends_throw

end
