(* ===== verification/EvolutionCorrect.thy ===== *)
theory EvolutionCorrect
  imports Registry RecallCorrect ProgramEnds
begin

text \<open>
  The two operations of \<open>application/evolution.py\<close> on the registry: both keep its invariant whatever
  they return or raise, a strategy becomes active only through a receipt that the verifier accepted
  and that matches the experiment, and a repeated request is answered from the recorded transition.
\<close>

subsection \<open>Reading the registry\<close>

lemma registry_ok_same: "same_store w w' \<Longrightarrow> registry_ok w' = registry_ok w"
  by (simp add: same_store_def store.defs registry_ok_def)

lemma same_store_keys:
  "same_store w w' \<Longrightarrow> s_experiments w' = s_experiments w \<and> s_experiment_transitions w' = s_experiment_transitions w \<and>
     s_experiment_transition_keys w' = s_experiment_transition_keys w"
  by (simp add: same_store_def store.defs)

lemma active_strategy_same: "same_store w w' \<Longrightarrow> active_strategy w' = active_strategy w"
  by (simp add: active_strategy_def same_store_fields cong: if_cong)

lemma propose_candidate_ok:
  assumes "strategy_ok p" "propose p d i (utc t) = Inr (Some c)"
  shows "strategy_ok c \<and> st_id c = i \<and> st_parent_id c = Some (st_id p) \<and> st_version c = st_version p + 1"
  using assms by (auto simp: propose_def res_simps mk_strategy_Inr mk_weights_Inr strategy_ok_def
      split: option.splits if_splits)

subsection \<open>The handler for a concurrent writer\<close>

lemma or_concurrent_same:
  assumes free: "map_of (s_experiment_transition_keys w) (strip key) = None"
    and undone: "\<And>err u. m w = (Inl err, u) \<Longrightarrow> u = w"
  shows "or_concurrent key replay m w = m w"
proof (cases "m w")
  case (Pair r u)
  show ?thesis
  proof (cases r)
    case (Inl err)
    with undone Pair have "u = w" by blast
    with free Pair Inl show ?thesis
      by (cases err) (simp_all add: or_concurrent_def catch_eval(1) experiment_transition_by_idempotency_def)
  qed (simp add: or_concurrent_def catch_eval(2) Pair)
qed

subsection \<open>Advancing\<close>

lemma advance_replayed:
  assumes "map_of (s_experiment_transition_keys w) (strip key) = Some tr" "strip key \<noteq> []"
  shows "advance_experiment E verifier i target r key w =
    (replayed_advance tr (advance_fingerprint E i target r) w, w)"
  using assms by (simp add: advance_experiment_def require_text_def experiment_transition_by_idempotency_def Let_def)

lemma activation_for_same: "obeys same_store (activation_for E c u reason t)"
  using same_store_updates(1)
  by (auto simp: obeys_def activation_for_def same_store_refl split: sum.splits)

lemma advance_fresh:
  assumes ok: "registry_ok w" and free: "map_of (s_experiment_transition_keys w) (strip key) = None"
    and run: "advance_experiment E verifier i target r key w = (Inr res, w')"
  obtains current tr act w1 where
    "strip key \<noteq> []" "map_of (s_experiments w) i = Some current"
    "verifier r (utc (e_clock E (w_ticks w))) = Inr ()"
    "require_matching_gate_receipt current target r = Inr ()"
    "legal_edge (ex_stage current) target"
    "er_experiment res = current\<lparr>ex_stage := target, ex_updated_at := e_clock E (w_ticks w)\<rparr>"
    "\<not> er_replay res" "same_store w w1"
    "advance_evolution_experiment (er_experiment res) tr act w1 = (Inr (), w')"
    "mk_transition_event (e_db E) (e_ids E (w_ids w)) (ex_id current) target (utc (e_clock E (w_ticks w))) (gr_reason r)
       (gr_artifact_ref r) (strip key) (advance_fingerprint E i target r) (Some (ex_stage current)) = Inr tr"
proof -
  let ?n = "e_clock E (w_ticks w)"
  let ?w0 = "w\<lparr>w_ticks := Suc (w_ticks w), w_ids := Suc (w_ids w)\<rparr>"
  have cok: "experiment_ok c" if "map_of (s_experiments w) i = Some c" for c
    using registry_okD(4) [OF ok] that unfolding experiments_ok_def by blast
  have key: "strip key \<noteq> []" and req: "require_text key ''transition idempotency_key'' = Inr (strip key)"
    using run by (cases "strip key = []"; simp add: advance_experiment_def require_text_def Let_def)+
  from run free obtain current updated tr act w1 where
    cur: "map_of (s_experiments w) i = Some current"
    and ver: "verifier r (utc ?n) = Inr ()" and match: "require_matching_gate_receipt current target r = Inr ()"
    and upd: "experiment_transition current target (utc ?n) = Inr updated"
    and tr: "mk_transition_event (e_db E) (e_ids E (w_ids w)) (ex_id current) target (utc ?n) (gr_reason r)
       (gr_artifact_ref r) (strip key) (advance_fingerprint E i target r) (Some (ex_stage current)) = Inr tr"
    and act: "activation_for E current updated (gr_reason r) ?n ?w0 = (Inr act, w1)"
    and adv: "or_concurrent (strip key) (\<lambda>concurrent s. replayed_advance concurrent (advance_fingerprint E i target r) s)
      (pbind (advance_evolution_experiment updated tr act)
         (\<lambda>_. return \<lparr>er_experiment = updated, er_replay = False\<rparr>)) w1 = (Inr res, w')"
    by (auto simp: advance_experiment_def req Let_def experiment_transition_by_idempotency_def
        evolution_experiment_of_def pbind_Inr split: option.splits sum.splits)
  have same: "same_store w w1"
  proof (rule same_store_trans)
    show "same_store w ?w0" by (simp add: same_store_def store.defs)
    show "same_store ?w0 w1" using activation_for_same act by (rule obeysD)
  qed
  then have ok1: "registry_ok w1" using ok registry_ok_same by blast
  have "map_of (s_experiment_transition_keys w1) (strip (strip key)) = None"
    using free same_store_keys [OF same] by simp
  then have adv: "pbind (advance_evolution_experiment updated tr act)
      (\<lambda>_. return \<lparr>er_experiment = updated, er_replay = False\<rparr>) w1 = (Inr res, w')"
    using adv by (subst (asm) or_concurrent_same) (auto simp: pbind_Inl dest: advance_Inl [OF ok1])
  then have res: "res = \<lparr>er_experiment = updated, er_replay = False\<rparr>"
    "advance_evolution_experiment updated tr act w1 = (Inr (), w')"
    by (auto simp: pbind_Inr)
  from upd have "legal_edge (ex_stage current) target" "updated = current\<lparr>ex_stage := target, ex_updated_at := ?n\<rparr>"
    by (simp_all add: experiment_transition_Inr [OF cok [OF cur]])
  then show thesis
    using res by (intro that [of current w1 tr act] key cur ver match same tr) simp_all
qed

definition keeps_registry :: "world \<Rightarrow> world \<Rightarrow> bool" where
  "keeps_registry w w' \<longleftrightarrow> (registry_ok w \<longrightarrow> registry_ok w')"

interpretation reg: state_relation keeps_registry
  by unfold_locales (auto simp: keeps_registry_def)

lemma same_keeps_registry: "obeys same_store m \<Longrightarrow> obeys keeps_registry m"
  unfolding obeys_def keeps_registry_def by (metis registry_ok_same)

lemma advance_evolution_keeps: "obeys keeps_registry (advance_evolution_experiment e tr act)"
  unfolding obeys_def keeps_registry_def
proof (intro allI impI)
  fix s :: world assume ok: "registry_ok s"
  obtain r t where run: "advance_evolution_experiment e tr act s = (r, t)" by force
  then show "registry_ok (snd (advance_evolution_experiment e tr act s))"
    using advanced_ok [OF ok] advance_Inl [OF ok] ok by (cases r) fastforce+
qed

lemma advance_keeps: "obeys keeps_registry (advance_experiment E verifier i target r key)"
  unfolding advance_experiment_def or_concurrent_def Let_def
  by (intro reg.obeys_intros advance_evolution_keeps
      same_keeps_registry [OF activation_for_same] same_keeps_registry [OF obeys_reading(1)]
      same_keeps_registry [OF obeys_reading(2)] | simp split: py_error.split | intro conjI allI impI)+

subsection \<open>Proposing\<close>

lemma or_concurrent_register:
  "map_of (s_experiment_transition_keys w) (strip key) = None \<Longrightarrow>
   or_concurrent key h (pbind (register_evolution_experiment c e tr) (\<lambda>_. return x)) w =
   pbind (register_evolution_experiment c e tr) (\<lambda>_. return x) w"
  by (rule or_concurrent_same) (auto simp: pbind_Inl dest: register_Inl)

lemma propose_outcome:
  assumes ok: "registry_ok w" and run: "propose_experiment E d reason ref key w = (r, w')"
  shows "same_store w w' \<or> (\<exists>c e tr w1 b. same_store w w1 \<and> register_evolution_experiment c e tr w1 = (Inr (), w') \<and>
     strategy_ok c \<and> experiment_ok e \<and> active_strategy w = Inr (Some b) \<and>
     map_of (s_experiment_transition_keys w) (strip key) = None \<and> et_idempotency_key tr = strip key \<and>
     r = Inr (Some \<lparr>ep_candidate = c, ep_experiment = e, ep_replay = False\<rparr>))"
proof (cases "map_of (s_experiment_transition_keys w) (strip key)")
  case (Some tr)
  then show ?thesis using run
    by (cases "strip key = []") (auto simp: propose_experiment_def Let_def experiment_transition_by_idempotency_def
        same_store_refl require_text_Inr dest: sym split: sum.splits)
next
  case None
  have upd: "same_store w (w\<lparr>w_ticks := a, w_ids := w_ids w + b\<rparr>)" "same_store w (w\<lparr>w_ticks := a\<rparr>)"
     "same_store w (w\<lparr>w_ticks := a, w_ids := Suc (w_ids w)\<rparr>)"
     "same_store w (w\<lparr>w_ticks := a, w_ids := Suc (Suc (w_ids w))\<rparr>)"
     "same_store w (w\<lparr>w_ticks := a, w_ids := Suc (Suc (Suc (w_ids w)))\<rparr>)" for a b
    by (simp_all add: same_store_def store.defs)
  let ?P = "\<lambda>r w'. same_store w w' \<or> (\<exists>c e tr w1 b. same_store w w1 \<and>
     register_evolution_experiment c e tr w1 = (Inr (), w') \<and>
     strategy_ok c \<and> experiment_ok e \<and> active_strategy w = Inr (Some b) \<and>
     map_of (s_experiment_transition_keys w) (strip key) = None \<and> et_idempotency_key tr = strip key \<and>
     r = Inr (Some \<lparr>ep_candidate = c, ep_experiment = e, ep_replay = False\<rparr>))"
  have reg: "ends ?P (or_concurrent k h (pbind (register_evolution_experiment c e tr) (\<lambda>_. return (Some
      \<lparr>ep_candidate = c, ep_experiment = e, ep_replay = False\<rparr>)))) u"
    if "same_store w u" "strategy_ok c" "experiment_ok e" "active_strategy w = Inr (Some b)"
      "et_idempotency_key tr = strip key" "k = strip key" for c e tr u h b k
  proof -
    have free: "map_of (s_experiment_transition_keys u) (strip (strip key)) = None"
      using None same_store_keys [OF that(1)] by simp
    obtain q v where q: "register_evolution_experiment c e tr u = (q, v)" by force
    show ?thesis using q that(1-5) None register_Inl [of c e tr u]
      by (cases q) (auto simp: ends_def that(6) or_concurrent_register [OF free] pbind_eval)
  qed
  have key: "et_idempotency_key tr = strip k"
    if "mk_transition_event db i x st t rs ev k fp from = Inr tr" for db i x st t rs ev k fp "from" tr
    using that by (auto simp: mk_transition_event_def res_simps)
  have "ends ?P (propose_experiment E d reason ref key) w"
    unfolding propose_experiment_def Let_def
    by (intro ends_rules; (rule reg)?; (rule disjI1)?)
      (auto simp: same_store_refl upd experiment_transition_by_idempotency_def None require_text_Inr mk_experiment_Inr
        experiment_ok_def dest: key active_strategy_ok [OF ok] propose_candidate_ok)
  then show ?thesis using run by (simp add: ends_def)
qed

lemma propose_keeps: "obeys keeps_registry (propose_experiment E d reason ref key)"
  unfolding obeys_def keeps_registry_def
proof (intro allI impI)
  fix w :: world assume ok: "registry_ok w"
  obtain r w' where run: "propose_experiment E d reason ref key w = (r, w')" by force
  from propose_outcome [OF ok run] have "registry_ok w'"
  proof
    assume "same_store w w'" then show ?thesis using ok registry_ok_same by blast
  next
    assume "\<exists>c e tr w1 b. same_store w w1 \<and> register_evolution_experiment c e tr w1 = (Inr (), w') \<and>
      strategy_ok c \<and> experiment_ok e \<and> active_strategy w = Inr (Some b) \<and>
      map_of (s_experiment_transition_keys w) (strip key) = None \<and> et_idempotency_key tr = strip key \<and>
      r = Inr (Some \<lparr>ep_candidate = c, ep_experiment = e, ep_replay = False\<rparr>)"
    then show ?thesis using ok registry_ok_same registered_ok by blast
  qed
  then show "registry_ok (snd (propose_experiment E d reason ref key w))" using run by simp
qed

subsection \<open>What can become active\<close>

lemma matching_receipt:
  "require_matching_gate_receipt e target r = Inr () \<longleftrightarrow>
     gr_experiment_id r = ex_id e \<and> gr_baseline_id r = ex_baseline_id e \<and> gr_candidate_id r = ex_candidate_id e \<and>
     gr_from_stage r = ex_stage e \<and> gr_to_stage r = target \<and>
     gr_decision r = (if target = REJECTED then REJECT else if target = ROLLED_BACK then ROLLBACK_DECISION else PASS) \<and>
     (gr_decision r = PASS \<longrightarrow> gr_hard_gates_passed r)"
  by (auto simp: require_matching_gate_receipt_def Let_def res_simps split: if_splits)

lemma activation_follows_receipt:
  assumes ok: "registry_ok w" and run: "advance_experiment E verifier i target r key w = (Inr res, w')"
    and changed: "active_strategy w' \<noteq> active_strategy w"
  shows "verifier r (utc (e_clock E (w_ticks w))) = Inr () \<and> gr_experiment_id r = i \<and> gr_to_stage r = target \<and>
    (target = PROMOTED \<and> gr_from_stage r = CANARY \<and> gr_decision r = PASS \<and> gr_hard_gates_passed r \<and>
       active_strategy w' = Inr (map_of (s_strategies w') (gr_candidate_id r)) \<or>
     target = ROLLED_BACK \<and> gr_from_stage r = PROMOTED \<and> gr_decision r = ROLLBACK_DECISION \<and>
       active_strategy w' = Inr (map_of (s_strategies w') (gr_baseline_id r)))"
proof -
  have free: "map_of (s_experiment_transition_keys w) (strip key) = None"
  proof (rule ccontr)
    assume "map_of (s_experiment_transition_keys w) (strip key) \<noteq> None"
    then obtain tr where "map_of (s_experiment_transition_keys w) (strip key) = Some tr" by auto
    moreover have "strip key \<noteq> []"
      using run by (cases "strip key = []"; simp add: advance_experiment_def require_text_def Let_def)+
    ultimately have "w' = w" using run advance_replayed by (metis prod.inject)
    with changed show False by simp
  qed
  from advance_fresh [OF ok free run] obtain current tr act w1 where
    cur: "map_of (s_experiments w) i = Some current"
    and ver: "verifier r (utc (e_clock E (w_ticks w))) = Inr ()"
    and match: "require_matching_gate_receipt current target r = Inr ()"
    and res: "er_experiment res = current\<lparr>ex_stage := target, ex_updated_at := e_clock E (w_ticks w)\<rparr>"
    and same: "same_store w w1"
    and adv: "advance_evolution_experiment (er_experiment res) tr act w1 = (Inr (), w')" by metis
  have ok1: "registry_ok w1" using ok registry_ok_same [OF same] by simp
  have id: "ex_id current = i" using registry_okD(4) [OF ok] cur unfolding experiments_ok_def by blast
  from advance_Inr [OF ok1 adv] obtain c ts where
    c: "map_of (s_experiments w1) (ex_id (er_experiment res)) = Some c"
    and w': "w' = with_experiment (er_experiment res) ts tr (with_activation act w1)"
    and val: "validate_activation c (er_experiment res) tr act w1 = (Inr (), w1)" by blast
  have c: "c = current" using c cur id same_store_keys [OF same] by (simp add: res)
  have act: "active_strategy w' = active_strategy (with_activation act w1)"
    by (simp add: w' with_experiment_def active_strategy_def)
  then have "act \<noteq> None" using changed active_strategy_same [OF same] by (cases act) (auto simp: with_activation_def)
  then obtain a where a: "act = Some a" by blast
  from validate_activation_Inr [OF val] obtain active where
    valid: "activation_ok active current target (Some a)" "map_of (s_strategies w1) (sa_strategy_id a) \<noteq> None"
    by (auto simp: a c res)
  have "active_strategy w' = Inr (map_of (s_strategies w') (sa_strategy_id a))"
    using valid(2) by (auto simp: act a with_activation_def active_strategy_def dict_index_def w' with_experiment_def)
  then show ?thesis using ver match id valid(1)
    by (auto simp: matching_receipt activation_ok_def Let_def split: if_splits)
qed

subsection \<open>Repeating a request\<close>

lemma advance_twice:
  assumes ok: "registry_ok w" and free: "map_of (s_experiment_transition_keys w) (strip key) = None"
    and run: "advance_experiment E verifier i target r key w = (Inr res, w')"
    and sha: "\<And>x. sha256_text (e_sha E x)"
  shows "advance_experiment E verifier' i target r key w' = (Inr \<lparr>er_experiment = er_experiment res, er_replay = True\<rparr>, w')"
proof -
  from advance_fresh [OF ok free run] obtain current tr act w1 where
    key: "strip key \<noteq> []" and cur: "map_of (s_experiments w) i = Some current"
    and res: "er_experiment res = current\<lparr>ex_stage := target, ex_updated_at := e_clock E (w_ticks w)\<rparr>"
    and same: "same_store w w1"
    and adv: "advance_evolution_experiment (er_experiment res) tr act w1 = (Inr (), w')"
    and tr: "mk_transition_event (e_db E) (e_ids E (w_ids w)) (ex_id current) target (utc (e_clock E (w_ticks w)))
       (gr_reason r) (gr_artifact_ref r) (strip key) (advance_fingerprint E i target r) (Some (ex_stage current)) = Inr tr"
    by metis
  have ok1: "registry_ok w1" using ok registry_ok_same [OF same] by simp
  have cok: "experiment_ok current" "ex_id current = i"
    using registry_okD(4) [OF ok] cur unfolding experiments_ok_def by blast+
  have fp: "require_sha256 (e_db E) (advance_fingerprint E i target r) f = Inr (advance_fingerprint E i target r)" for f
    by (rule require_sha256_text) (simp add: advance_fingerprint_def evolution_fingerprint_def sha)
  have t: "et_experiment_id tr = i" "et_to_stage tr = target" "et_transitioned_at tr = e_clock E (w_ticks w)"
    "et_idempotency_key tr = strip key" "et_request_fingerprint tr = advance_fingerprint E i target r"
    using tr cok(2) by (auto simp: mk_transition_event_def res_simps fp)
  from advance_Inr [OF ok1 adv] obtain ts c where
    w': "w' = with_experiment (er_experiment res) ts tr (with_activation act w1)" 
    and later: "ex_updated_at c \<le> ex_updated_at (er_experiment res)" "er_experiment res = c\<lparr>ex_stage := ex_stage (er_experiment res), ex_updated_at := ex_updated_at (er_experiment res)\<rparr>"
    and c: "map_of (s_experiments w1) (ex_id (er_experiment res)) = Some c"
    by blast
  have "map_of (s_experiment_transition_keys w') (strip key) = Some tr"
    "map_of (s_experiments w') i = Some (er_experiment res)"
    using t cok(2) by (simp_all add: w' with_experiment_def res)
  moreover have "experiment_ok (er_experiment res)"
    using advanced_ok [OF ok1 adv] calculation(2) by (auto dest: registry_okD(4) simp: experiments_ok_def)
  then have "mk_experiment i (ex_baseline_id current) (ex_candidate_id current) target (utc (ex_created_at current))
      (utc (e_clock E (w_ticks w))) = Inr (er_experiment res)"
    using cok by (cases current) (simp add: mk_experiment_Inr experiment_ok_def res)
  ultimately have "replayed_advance tr (advance_fingerprint E i target r) w' =
      Inr \<lparr>er_experiment = er_experiment res, er_replay = True\<rparr>"
    using t cok(2) by (simp add: replayed_advance_def evolution_experiment_of_def res)
  then show ?thesis
    using advance_replayed [OF \<open>map_of (s_experiment_transition_keys w') (strip key) = Some tr\<close> key] by simp
qed

end
