(* ===== verification/Operations.thy ===== *)
theory Operations
  imports Commands_Correct CompressionCorrect EvolutionCorrect
begin

text \<open>
  Every operation of the service keeps the invariant of the store, whatever the command holds and
  whether it returns or raises; so the invariant holds in every state reached from the empty store.
\<close>

subsection \<open>What an operation leaves alone\<close>

text \<open>The memory commands touch neither the registry nor the traces.\<close>

definition aside :: "world \<Rightarrow> world \<Rightarrow> bool" where
  "aside w w' \<longleftrightarrow> w_ids w \<le> w_ids w' \<and> s_traces w' = s_traces w \<and> s_strategies w' = s_strategies w \<and>
     s_strategy_activations w' = s_strategy_activations w \<and> s_experiments w' = s_experiments w \<and>
     s_experiment_transitions w' = s_experiment_transitions w \<and>
     s_experiment_transition_ids w' = s_experiment_transition_ids w \<and>
     s_experiment_transition_keys w' = s_experiment_transition_keys w"

interpretation beside: state_relation aside
  by unfold_locales (auto simp: aside_def)

lemma restore_fields:
  "w_ids (restore_store s t) = w_ids t" "s_traces (restore_store s t) = s_traces s"
  "s_strategies (restore_store s t) = s_strategies s"
  "s_strategy_activations (restore_store s t) = s_strategy_activations s"
  "s_experiments (restore_store s t) = s_experiments s"
  "s_experiment_transitions (restore_store s t) = s_experiment_transitions s"
  "s_experiment_transition_ids (restore_store s t) = s_experiment_transition_ids s"
  "s_experiment_transition_keys (restore_store s t) = s_experiment_transition_keys s"
  "store.truncate (restore_store s t) = store.truncate s" "s_records (restore_store s t) = s_records s"
  "s_revisions (restore_store s t) = s_revisions s"
  "s_revision_ids_by_record (restore_store s t) = s_revision_ids_by_record s"
  for s t :: world
  by (cases s; cases t; simp add: restore_store_def store.defs)+

lemma aside_transaction: "obeys aside m \<Longrightarrow> obeys aside (transaction m)"
  unfolding obeys_def transaction_def
proof
  fix s assume "\<forall>s. aside s (snd (m s))"
  then have "aside s (snd (m s))" by blast
  then show "aside s (snd (case m s of (Inl e, t) \<Rightarrow> (Inl e, restore_store s t) | (Inr x, t) \<Rightarrow> (Inr x, t)))"
    by (cases "m s"; cases "fst (m s)") (auto simp: aside_def restore_fields)
qed

lemma aside_reading: "obeys aside (now E)" "obeys aside (new_id E)"
  by (simp_all add: obeys_def now_def new_id_def aside_def)

lemma aside_split: "(\<And>a b. obeys aside (f a b)) \<Longrightarrow> obeys aside (case p of (a, b) \<Rightarrow> f a b)"
  by (cases p) simp

lemma aside_error: "(\<And>m. e = ConflictError m \<Longrightarrow> obeys aside (f m)) \<Longrightarrow> obeys aside d \<Longrightarrow>
    obeys aside (case e of ConflictError m \<Rightarrow> f m | _ \<Rightarrow> d)"
  by (cases e) simp_all

lemmas aside_rules = beside.obeys_intros aside_reading aside_split

lemma aside_store:
  "obeys aside (save_ingestion ob ev c)" "obeys aside (add_memory sha r v t)" "obeys aside (append_revision i v t)"
  "obeys aside (update_candidate c)" "obeys aside (save_usage us)" "obeys aside (apply_outcome sha oc ctx)"
  unfolding save_ingestion_def add_memory_def append_revision_def update_candidate_def save_usage_def
    apply_outcome_def Let_def
  by (intro aside_rules; simp add: aside_def)+

lemma aside_accept: "obeys aside (accept_candidate E c vf src rs ex)"
  unfolding accept_candidate_def Let_def by (intro aside_rules aside_store)

lemma aside_ingest: "obeys aside m \<Longrightarrow> obeys aside (ingest E k sc key ob ev c m)"
  unfolding ingest_def by (intro aside_rules aside_store; (intro aside_error aside_rules)?)

lemma aside_commands:
  "obeys aside (remember_preference E rm)" "obeys aside (correct_preference E cp)"
  "obeys aside (record_usage E ru)" "obeys aside (record_outcome E ro)"
  unfolding remember_preference_def remember_body_def correct_preference_def correct_body_def record_usage_def
    record_outcome_def Let_def
  by (intro aside_transaction aside_rules aside_store aside_ingest aside_accept)+

text \<open>A command that raises is rolled back.\<close>

lemma rolled_back:
  assumes "obeys aside (transaction m)" "transaction m w = (Inl e, w')"
  shows "same_store w w'"
  using obeysD [OF assms] transaction_Inl [OF assms(2)] by (simp add: same_store_def aside_def)

subsection \<open>The evolution operations leave the memory plane alone\<close>

definition same_plane :: "world \<Rightarrow> world \<Rightarrow> bool" where
  "same_plane w w' \<longleftrightarrow> w_ids w \<le> w_ids w' \<and> s_observations w' = s_observations w \<and>
     s_observation_keys w' = s_observation_keys w \<and> s_evidence w' = s_evidence w \<and>
     s_candidates w' = s_candidates w \<and> s_candidate_by_observation w' = s_candidate_by_observation w \<and>
     s_records w' = s_records w \<and> s_record_identity w' = s_record_identity w \<and>
     s_revisions w' = s_revisions w \<and> s_revision_ids_by_record w' = s_revision_ids_by_record w \<and>
     s_active_revision w' = s_active_revision w \<and> s_transitions w' = s_transitions w \<and>
     s_traces w' = s_traces w \<and> s_usages w' = s_usages w \<and> s_usage_keys w' = s_usage_keys w \<and>
     s_outcomes w' = s_outcomes w \<and> s_outcome_keys w' = s_outcome_keys w \<and> s_utilities w' = s_utilities w"

interpretation plane: state_relation same_plane
  by unfold_locales (auto simp: same_plane_def)

lemma same_plane_reading: "obeys same_plane (now E)" "obeys same_plane (new_id E)"
  by (simp_all add: obeys_def now_def new_id_def same_plane_def)

lemma same_plane_concurrent: "obeys same_plane m \<Longrightarrow> obeys same_plane (or_concurrent key h m)"
  unfolding or_concurrent_def
  by (intro plane.obeys_catch) (auto split: py_error.split intro: plane.obeys_asks plane.obeys_throw)

lemma same_plane_store:
  "obeys same_plane (save_strategy st)" "obeys same_plane (ensure_active_strategy st a)"
  "obeys same_plane (register_evolution_experiment c e t)"
  "obeys same_plane (validate_activation e e' t act)"
  "obeys same_plane (advance_evolution_experiment e t act)"
  unfolding save_strategy_def ensure_active_strategy_def register_evolution_experiment_def
    advance_evolution_experiment_def validate_activation_def Let_def
  by (intro plane.obeys_intros conjI allI impI; simp add: same_plane_def)+

lemma same_plane_evolution:
  "obeys same_plane (propose_experiment E d reason ref key)"
  "obeys same_plane (advance_experiment E ver i target r key)"
  unfolding propose_experiment_def advance_experiment_def activation_for_def Let_def
  by (intro plane.obeys_intros same_plane_reading same_plane_concurrent same_plane_store)+

lemma world_ok_plane: "world_ok E w \<Longrightarrow> same_plane w w' \<Longrightarrow> world_ok E w'"
proof -
  assume ok: "world_ok E w" and same: "same_plane w w'"
  note D = world_okD [OF ok]
  have F: "s_observations w' = s_observations w" "s_observation_keys w' = s_observation_keys w"
    "s_evidence w' = s_evidence w" "s_candidates w' = s_candidates w"
    "s_candidate_by_observation w' = s_candidate_by_observation w" "s_records w' = s_records w"
    "s_record_identity w' = s_record_identity w" "s_revisions w' = s_revisions w"
    "s_revision_ids_by_record w' = s_revision_ids_by_record w" "s_active_revision w' = s_active_revision w"
    "s_transitions w' = s_transitions w" "s_traces w' = s_traces w" "s_usages w' = s_usages w"
    "s_usage_keys w' = s_usage_keys w" "s_outcomes w' = s_outcomes w" "s_outcome_keys w' = s_outcome_keys w"
    "s_utilities w' = s_utilities w"
    using same by (simp_all add: same_plane_def)
  have "evidence_ok w'" by (rule evidence_ok_cong [OF D(1)]) (simp_all add: F)
  moreover have "belief_plane_ok (e_sha E) w'" by (rule belief_plane_ok_cong [OF D(2)]) (simp_all add: F)
  moreover have "experience_ok w'" by (rule experience_ok_cong [OF D(3)]) (simp_all add: F)
  moreover have "ids_issued E w'"
  proof -
    have "ids_used w' = ids_used w" by (simp add: ids_used_def F)
    then show ?thesis using D(4) same unfolding ids_issued_def same_plane_def by fastforce
  qed
  moreover have "committed w'"
    using D(5) by (simp add: committed_def resolved_def revision_ids_of_def F)
  ultimately show "world_ok E w'" by (simp add: world_ok_def store_ok_def)
qed

subsection \<open>The invariant of the system\<close>

text \<open>The keys of the records are normalized, and the stored traces are what \<open>recall\<close> produces.\<close>

definition records_text :: "'z store_scheme \<Rightarrow> bool" where
  "records_text s \<longleftrightarrow> (\<forall>i r. map_of (s_records s) i = Some r \<longrightarrow> stripped (rec_key r))"

definition traces_wf :: "'z store_scheme \<Rightarrow> bool" where
  "traces_wf s \<longleftrightarrow> (\<forall>i t. map_of (s_traces s) i = Some t \<longrightarrow> trace_wf t)"

definition system_ok :: "env \<Rightarrow> world \<Rightarrow> bool" where
  "system_ok E w \<longleftrightarrow> world_ok E w \<and> registry_ok w \<and> traces_wf w \<and> records_text w"

lemma system_okD:
  assumes "system_ok E w"
  shows "world_ok E w" "registry_ok w" "traces_wf w" "records_text w"
  using assms by (simp_all add: system_ok_def)

definition keeps_text :: "world \<Rightarrow> world \<Rightarrow> bool" where
  "keeps_text w w' \<longleftrightarrow> (records_text w \<longrightarrow> records_text w')"

interpretation texts: state_relation keeps_text
  by unfold_locales (auto simp: keeps_text_def)

context state_relation
begin

text \<open>What follows a validation may use what it established.\<close>

lemma obeys_checked: "(\<And>x. r = Inr x \<Longrightarrow> obeys R (f x)) \<Longrightarrow> obeys R (pbind (lift_res r) f)"
  by (auto simp: obeys_def R_refl split: sum.split)

end

lemma same_records_text:
  "(\<And>w. s_records (f w) = s_records w) \<Longrightarrow> keeps_text w (f w)"
  by (simp add: keeps_text_def records_text_def)

text \<open>Leaving a transaction by an exception, the store is the one before.\<close>

lemma obeys_transaction:
  fixes m :: "(world, 'a) prog"
  assumes m: "obeys R m" and restored: "\<And>s t. R s t \<Longrightarrow> R s (restore_store s t)"
  shows "obeys R (transaction m)"
  unfolding obeys_def
proof
  fix s
  obtain r t where "m s = (r, t)" by (cases "m s")
  then show "R s (snd (transaction m s))"
    using obeysD [OF m] restored by (cases r) (simp_all add: transaction_def)
qed

lemma texts_transaction: "obeys keeps_text m \<Longrightarrow> obeys keeps_text (transaction m)"
  by (rule obeys_transaction) (simp_all add: keeps_text_def records_text_def restore_fields)

lemma texts_reading: "obeys keeps_text (now E)" "obeys keeps_text (new_id E)"
  by (simp_all add: obeys_def now_def new_id_def keeps_text_def records_text_def)

lemma texts_split: "(\<And>a b. obeys keeps_text (f a b)) \<Longrightarrow> obeys keeps_text (case p of (a, b) \<Rightarrow> f a b)"
  by (cases p) simp

lemma texts_error: "(\<And>m. e = ConflictError m \<Longrightarrow> obeys keeps_text (f m)) \<Longrightarrow> obeys keeps_text d \<Longrightarrow>
    obeys keeps_text (case e of ConflictError m \<Rightarrow> f m | _ \<Rightarrow> d)"
  by (cases e) simp_all

lemmas texts_rules = texts.obeys_checked texts.obeys_intros texts_reading texts_split

lemma texts_store:
  "obeys keeps_text (save_ingestion ob ev c)" "obeys keeps_text (append_revision i v t)"
  "obeys keeps_text (update_candidate c)" "obeys keeps_text (save_usage us)" "obeys keeps_text (apply_outcome sha oc ctx)"
  unfolding save_ingestion_def append_revision_def update_candidate_def save_usage_def apply_outcome_def Let_def
  by (intro texts_rules; simp add: keeps_text_def records_text_def)+

lemma texts_add: "stripped (rec_key r) \<Longrightarrow> obeys keeps_text (add_memory sha r v t)"
  unfolding add_memory_def Let_def
  by (intro texts_rules; simp add: keeps_text_def records_text_def)

lemma mk_memory_record_text: "mk_memory_record i sc k key ctx t = Inr r \<Longrightarrow> stripped (rec_key r)"
  by (auto simp: mk_memory_record_def rbind_Inr dest: require_text_result)

lemma texts_accept: "obeys keeps_text (accept_candidate E c vf src rs ex)"
  unfolding accept_candidate_def Let_def
  by (intro texts_rules texts_store texts_add; (erule mk_memory_record_text)?)

lemma texts_ingest: "obeys keeps_text m \<Longrightarrow> obeys keeps_text (ingest E k sc key ob ev c m)"
  unfolding ingest_def by (intro texts_rules texts_store; (intro texts_error texts_rules)?)

lemma texts_commands: "obeys keeps_text (remember_preference E rm)" "obeys keeps_text (correct_preference E cp)"
  "obeys keeps_text (record_usage E ru)" "obeys keeps_text (record_outcome E ro)"
  unfolding remember_preference_def remember_body_def correct_preference_def correct_body_def record_usage_def
    record_outcome_def Let_def
  by (intro texts_transaction texts_rules texts_store texts_ingest texts_accept)+

subsection \<open>Remembering and correcting\<close>

text \<open>What the constructors of the commands leave: normalized text.\<close>

definition remember_wf :: "remember_command \<Rightarrow> bool" where
  "remember_wf c \<longleftrightarrow> stripped (rm_source c) \<and> stripped (rm_key_id c) \<and> stripped (rm_key c) \<and>
     stripped (rm_value c) \<and> stripped (rm_evidence_text c)"

definition correct_wf :: "correct_command \<Rightarrow> bool" where
  "correct_wf c \<longleftrightarrow> stripped (cp_source c) \<and> stripped (cp_key_id c) \<and> stripped (cp_value c) \<and>
     stripped (cp_evidence_text c) \<and> stripped (cp_reason c)"

lemma mk_remember_wf: "mk_remember sc source k key v ctx ev conf t = Inr c \<Longrightarrow> remember_wf c"
  by (auto simp: mk_remember_def remember_wf_def rbind_Inr dest: require_text_result)

lemma mk_correct_wf: "mk_correct sc i source k v ev rs t x = Inr c \<Longrightarrow> correct_wf c"
  by (auto simp: mk_correct_def correct_wf_def rbind_Inr dest: require_text_result)

lemma observation_key:
  assumes "evidence_ok s"
  shows "observation_by_idempotency s sc k = None \<longleftrightarrow> map_of (s_observation_keys s) (sc, k) = None"
  using assms keyedD(5) [of obs_id "\<lambda>ob. (obs_scope ob, obs_idempotency_key ob)" "s_observations s" "s_observation_keys s" "(sc, k)"]
  by (auto simp: observation_by_idempotency_def evidence_ok_def split: option.splits)

lemma remember_confidence:
  assumes run: "remember_preference E c w = (Inr r, w')"
    and free: "observation_by_idempotency w (rm_scope c) (rm_key_id c) = None"
  shows "0 \<le> rm_confidence c \<and> rm_confidence c \<le> 1"
proof (rule ccontr)
  assume bad: "\<not> ?thesis"
  have no: "mk_candidate k sc ob key v ctx ev (rm_confidence c) t st a b \<noteq> Inr y" for k sc ob key v ctx ev t st a b y
    using bad by (auto simp: mk_candidate_def res_simps)
  have "ends (\<lambda>r w. \<exists>err. r = Inl err) (remember_body E c) w"
    unfolding remember_body_def free
    by (intro ends_rules) (auto simp: free no)
  then show False using run
    by (auto simp: ends_def remember_preference_def transaction_def split: prod.splits sum.splits)
qed

lemma remember_outcome:
  assumes ok: "world_ok E w" and inj: "ids_fresh E w" and c: "remember_wf c"
    and run: "remember_preference E c w = (r, w')"
  shows "world_ok E w' \<and> (same_store w w' \<or> (\<exists>v. extended w w' v))"
proof (cases r)
  case (Inl err)
  have "same_store w w'"
    using aside_commands(1) [of E c] run Inl unfolding remember_preference_def by (intro rolled_back) simp_all
  then show ?thesis using ok world_ok_same by blast
next
  case (Inr x)
  show ?thesis
  proof (cases "observation_by_idempotency w (rm_scope c) (rm_key_id c)")
    case (Some ob)
    then show ?thesis using run ok by (simp add: remember_used_key same_store_refl)
  next
    case None
    then have key: "map_of (s_observation_keys w) (rm_scope c, rm_key_id c) = None"
      using observation_key [OF world_okD(1) [OF ok]] by blast
    have "request_ok (remember_request c)"
      using remember_confidence [OF run [unfolded Inr] None] c
      by (simp add: request_ok_def remember_request_def remember_wf_def)
    then obtain v u where "remember_preference E c w = (Inr (result_of (staged_candidate E (remember_request c) w) v), u)"
        "world_ok E u" "extended w u v"
      using remember_fresh [OF ok inj _ key] by metis
    then show ?thesis using run by auto
  qed
qed

lemma correct_outcome:
  assumes ok: "world_ok E w" "records_text w" and inj: "ids_fresh E w" and c: "correct_wf c"
    and run: "correct_preference E c w = (r, w')"
  shows "world_ok E w' \<and> (same_store w w' \<or> (\<exists>v. extended w w' v))"
proof (cases r)
  case (Inl err)
  have "same_store w w'"
    using aside_commands(2) [of E c] run Inl unfolding correct_preference_def by (intro rolled_back) simp_all
  then show ?thesis using ok(1) world_ok_same by blast
next
  case (Inr x)
  have run: "correct_preference E c w = (Inr x, w')" using run Inr by simp
  note D = world_okD [OF ok(1)]
  obtain rc where rc: "map_of (s_records w) (cp_record_id c) = Some rc" "rec_scope rc = cp_scope c"
    using run by (auto simp: correct_preference_def transaction_def correct_body_def snapshot_of_def
        split: option.splits if_splits)
  obtain v where v: "snapshot_of w (cp_scope c) (cp_record_id c) = Inr (Some \<lparr>snap_record = rc, snap_revision = v\<rparr>)"
    "map_of (s_revisions w) (rev_id v) = Some v" "map_of (s_active_revision w) (cp_record_id c) = Some (rev_id v)"
    using snapshot_total [OF D(2) rc] by metis
  have kind: "rec_kind rc = PREFERENCE"
    using run v(1) by (auto simp: correct_preference_def transaction_def correct_body_def raise_if_def
        split: if_splits)
  show ?thesis
  proof (cases "observation_by_idempotency w (cp_scope c) (cp_key_id c)")
    case (Some ob)
    then show ?thesis using correct_used_key [OF v(1) kind Some] run ok by (simp add: same_store_refl)
  next
    case None
    then have key: "map_of (s_observation_keys w) (cp_scope c, cp_key_id c) = None"
      using observation_key [OF D(1)] by blast
    have expected: "cp_expected_revision_id c = None \<or> cp_expected_revision_id c = Some (rev_id v)"
      using run v(1) kind None
      by (auto simp: correct_preference_def transaction_def correct_body_def raise_if_def split: if_splits)
    have "request_ok (correct_request c rc)"
      using c rc ok(2) by (simp add: request_ok_def correct_request_def correct_wf_def records_text_def)
    moreover have "stripped (cp_reason c)" using c by (simp add: correct_wf_def)
    ultimately obtain u y where "correct_preference E c w = (Inr y, u)" "world_ok E u"
        "\<exists>v. extended w u v"
      using correct_fresh [OF ok(1) inj _ _ rc kind v(3,2) expected key] by metis
    then show ?thesis using run by simp
  qed
qed

lemmas remember_keeps = remember_outcome [THEN conjunct1]
  and correct_keeps = correct_outcome [THEN conjunct1]

subsection \<open>Recalling\<close>

lemma policy_same: "obeys same_store (retrieval_policy sv)"
  by (rule obeys_reading)

lemma same_store_ticks [simp]: "same_store (w\<lparr>w_ticks := n\<rparr>) t \<longleftrightarrow> same_store w t"
  "same_store w (t\<lparr>w_ticks := n\<rparr>) \<longleftrightarrow> same_store w t"
  by (simp_all add: same_store_def store.defs)

lemma same_store_id: "same_store w t \<Longrightarrow> same_store w (t\<lparr>w_ids := Suc (w_ids t)\<rparr>)"
  by (simp add: same_store_def store.defs)

lemma recall_failed:
  assumes run: "recall E sv c w = (Inl err, w')"
  shows "same_store w w'"
proof -
  have "ends (\<lambda>r u. (\<exists>e. r = Inl e) \<longrightarrow> same_store w u) (recall E sv c) w"
    unfolding recall_def Let_def
    by (intro ends_lift_res ends_asks ends_now ends_new_id ends_return
        ends_bind [where m = "retrieval_policy sv"] ends_bind [where m = "projection_scores _ _ _ _ _"]
        ends_bind [where m = "save_trace _"] impI,
      auto simp: save_trace_eval same_store_refl dest!: obeysD [OF policy_same] obeysD [OF projection_scores_same]
        intro: same_store_id same_store_trans)
  then show ?thesis using run by (simp add: ends_def)
qed

text \<open>A pinned policy was validated when it was built.\<close>

definition service_ok :: "service \<Rightarrow> bool" where
  "service_ok sv \<longleftrightarrow> (\<forall>p. sv_policy sv = Some p \<longrightarrow> strategy_ok p)"

lemma policy_of_ok: "service_ok sv \<Longrightarrow> registry_ok w \<Longrightarrow> policy_of sv w = Some p \<Longrightarrow> strategy_ok p"
  using active_strategy_ok [of w p]
  by (auto simp: policy_of_def service_ok_def split: option.splits sum.splits)

text \<open>One more entry, under an id just issued.\<close>

lemma ids_issued_more:
  assumes "ids_issued E w" "ids_used w' = insert (e_ids E n) (ids_used w)" "n < w_ids w'" "w_ids w \<le> w_ids w'"
  shows "ids_issued E w'"
  using assms unfolding ids_issued_def by fastforce

lemma ids_used_added:
  "ids_used (with_trace t w) = insert (rt_id t) (ids_used w)"
  "ids_used (with_usage us w) = insert (us_id us) (ids_used w)"
  "ids_used (with_outcome sha oc ctx u w) = insert (oc_id oc) (ids_used w)"
  by (rule set_eqI; auto simp: ids_used_iff with_trace_def with_usage_def with_outcome_def)+

lemma ids_used_ids [simp]: "ids_used (w\<lparr>w_ids := n\<rparr>) = ids_used w" "ids_used (w\<lparr>w_ticks := n\<rparr>) = ids_used w"
  by (simp_all add: ids_used_def)

lemma with_trace_system:
  assumes ok: "system_ok E w" and t: "trace_wf t" "rt_id t = e_ids E (w_ids w)" and inj: "ids_fresh E w"
  shows "system_ok E (with_trace t (w\<lparr>w_ids := Suc (w_ids w)\<rparr>))" (is "system_ok E ?w")
proof -
  note W = system_okD [OF ok]
  note D = world_okD [OF W(1)]
  have new: "map_of (s_traces w) (rt_id t) = None" using unissued(6) [OF D(4) inj] t(2) by simp
  have "experience_ok ?w"
    by (rule with_trace_ok [OF experience_ok_cong [OF D(3)]]) (use new t(1) in \<open>simp_all add: trace_wf_def\<close>)
  moreover have "evidence_ok ?w" by (rule evidence_ok_cong [OF D(1)]) (simp_all add: with_trace_def)
  moreover have "belief_plane_ok (e_sha E) ?w" by (rule belief_plane_ok_cong [OF D(2)]) (simp_all add: with_trace_def)
  moreover have "ids_issued E ?w"
    by (rule ids_issued_more [OF D(4), of _ "w_ids w"]) (simp_all add: ids_used_added t(2), simp_all add: with_trace_def)
  moreover have "committed ?w" using D(5) by (simp add: committed_def resolved_def revision_ids_of_def with_trace_def)
  ultimately have "world_ok E ?w" by (simp add: world_ok_def store_ok_def)
  moreover have "registry_ok ?w" using W(2) by (simp add: registry_ok_def with_trace_def)
  moreover have "records_text ?w" using W(4) by (simp add: records_text_def with_trace_def)
  moreover have "traces_wf ?w" using W(3) t(1) by (auto simp: traces_wf_def with_trace_def split: if_splits)
  ultimately show ?thesis by (simp add: system_ok_def)
qed

lemma system_ok_same: "system_ok E w \<Longrightarrow> same_store w w' \<Longrightarrow> system_ok E w'"
  using world_ok_same registry_ok_same same_store_fields(6,12)
  by (auto simp: system_ok_def traces_wf_def records_text_def)

lemma recall_keeps:
  assumes ok: "system_ok E w" and inj: "ids_fresh E w'" and sv: "service_ok sv"
    and run: "recall E sv c w = (r, w')"
  shows "system_ok E w'"
proof (cases r)
  case (Inl err)
  then show ?thesis using run recall_failed system_ok_same [OF ok] by blast
next
  case (Inr t)
  note W = system_okD [OF ok]
  note D = world_okD [OF W(1)]
  have run: "recall E sv c w = (Inr t, w')" using run Inr by simp
  obtain w1 where same: "same_store w w1" and w': "w' = with_trace t (w1\<lparr>w_ids := Suc (w_ids w1)\<rparr>)"
    and t: "trace_ok t" "rt_id t = e_ids E (w_ids w1)"
    by (rule recall_decompose [OF run])
  obtain p where p: "policy_of sv w = Some p" "rt_policy_version t = st_version p"
    using recall_items(7) [OF D(2) run] by blast
  have "1 \<le> st_version p" using policy_of_ok [OF sv W(2) p(1)] by (simp add: strategy_ok_def)
  then have "trace_wf t" using recall_items(4,5) [OF D(2) run] t(1) p(2) by (simp add: trace_wf_def)
  moreover have "ids_fresh E w1" by (rule ids_fresh_mono [OF inj]) (simp add: w' with_trace_def)
  ultimately show ?thesis unfolding w' using with_trace_system [OF system_ok_same [OF ok same] _ t(2)] by blast
qed

subsection \<open>Usage receipts\<close>

lemma trace_of_Some: "trace_of s sc i = Some t \<Longrightarrow> map_of (s_traces s) i = Some t \<and> rt_scope t = sc"
  by (auto simp: trace_of_def split: option.splits if_splits)

lemma projected_revisions:
  assumes t: "trace_wf t" and E: "digests_ok E" and p: "project E t a b = Inr p"
  shows "set (source_revision_ids p) \<subseteq> it_revision_id ` set (rt_items t)"
proof -
  have "64 \<le> b \<and> b \<le> 100000" using p by (simp add: project_def rbind_Inr raise_if_Inr)
  then obtain q where "project E t a b = Inr q" "rcp_segments q = map final_segment (selected_segments E t a b)"
    using project_eval [OF t _ _ E] by metis
  then have "mset (source_revision_ids p) = mset (map src_revision_id (all_sources (selected_segments E t a b)))"
    using p included_final by (simp add: source_revision_ids_def)
  then have "set (source_revision_ids p) = set (map src_revision_id (all_sources (selected_segments E t a b)))"
    by (rule mset_eq_setD)
  moreover have "distinct (map it_revision_id (rt_items t))" using t by (simp add: trace_wf_def)
  ultimately show ?thesis using selected_sources(2) by metis
qed

lemma usage_decompose:
  assumes run: "record_usage E c w = (Inr x, w')"
  obtains t p us where "trace_of w (ru_scope c) (ru_trace_id c) = Some t"
    "project E t (ru_algorithm c) (ru_budget c) = Inr p"
    "rcp_projection_sha256 p = lower (e_db E) (ru_source_sha c)"
    "ru_revision_ids c \<noteq> []" "set (ru_revision_ids c) \<subseteq> set (source_revision_ids p)"
    "us_id us = e_ids E (w_ids w)" "us_scope us = ru_scope c" "us_trace_id us = ru_trace_id c"
    "us_revision_ids us = ru_revision_ids c" "distinct (ru_revision_ids c)"
    "us_idempotency_key us = strip (ru_key_id c)"
    "save_usage us (w\<lparr>w_ticks := Suc (w_ticks w), w_ids := Suc (w_ids w)\<rparr>) =
       (Inr (ur_usage x, \<not> ur_idempotent_replay x), w')"
  using run
  by (auto simp: record_usage_def transaction_def pbind_def now_def new_id_def raise_if_def prog_defs
      dest!: mk_memory_usage_Inr split: option.splits sum.splits prod.splits if_splits)

lemma plane_of_experience:
  assumes ok: "world_ok E w" and x: "experience_ok w'"
    and same: "s_observations w' = s_observations w" "s_observation_keys w' = s_observation_keys w"
      "s_evidence w' = s_evidence w" "s_candidates w' = s_candidates w"
      "s_candidate_by_observation w' = s_candidate_by_observation w" "s_records w' = s_records w"
      "s_record_identity w' = s_record_identity w" "s_revisions w' = s_revisions w"
      "s_revision_ids_by_record w' = s_revision_ids_by_record w"
      "s_active_revision w' = s_active_revision w" "s_transitions w' = s_transitions w"
    and ids: "ids_used w' = insert (e_ids E n) (ids_used w)" "n < w_ids w'" "w_ids w \<le> w_ids w'"
  shows "world_ok E w'"
proof -
  note D = world_okD [OF ok]
  have "evidence_ok w'" by (rule evidence_ok_cong [OF D(1)]) (simp_all add: same)
  moreover have "belief_plane_ok (e_sha E) w'" by (rule belief_plane_ok_cong [OF D(2)]) (simp_all add: same)
  moreover have "ids_issued E w'" by (rule ids_issued_more [OF D(4) ids])
  moreover have "committed w'" using D(5) by (simp add: committed_def resolved_def revision_ids_of_def same)
  ultimately show ?thesis using x by (simp add: world_ok_def store_ok_def)
qed

lemma usage_keeps:
  assumes ok: "world_ok E w" "traces_wf w" and inj: "ids_fresh E w" and E: "digests_ok E"
    and run: "record_usage E c w = (r, w')"
  shows "world_ok E w'"
proof (cases r)
  case (Inl err)
  have "same_store w w'"
    using aside_commands(3) [of E c] run Inl unfolding record_usage_def by (intro rolled_back) simp_all
  then show ?thesis using ok(1) world_ok_same by blast
next
  case (Inr x)
  note D = world_okD [OF ok(1)]
  let ?w = "w\<lparr>w_ticks := Suc (w_ticks w), w_ids := Suc (w_ids w)\<rparr>"
  have run: "record_usage E c w = (Inr x, w')" using run Inr by simp
  obtain t p us where t: "trace_of w (ru_scope c) (ru_trace_id c) = Some t"
    and p: "project E t (ru_algorithm c) (ru_budget c) = Inr p"
    and cited: "ru_revision_ids c \<noteq> []" "set (ru_revision_ids c) \<subseteq> set (source_revision_ids p)"
    and us: "us_id us = e_ids E (w_ids w)" "us_scope us = ru_scope c" "us_trace_id us = ru_trace_id c"
      "us_revision_ids us = ru_revision_ids c"
    and save: "save_usage us ?w = (Inr (ur_usage x, \<not> ur_idempotent_replay x), w')"
    by (rule usage_decompose [OF run])
  have same: "same_store w ?w" by (simp add: same_store_def store.defs)
  have ok': "world_ok E ?w" by (rule world_ok_same [OF ok(1) same])
  show ?thesis
  proof (cases "map_of (s_usage_keys w) (us_scope us, us_idempotency_key us)")
    case (Some i)
    have "keyed us_id (\<lambda>u. (us_scope u, us_idempotency_key u)) (s_usages w) (s_usage_keys w)"
      using D(3) by (simp add: experience_ok_def)
    from keyedD(5) [OF this Some] obtain y where "map_of (s_usages w) i = Some y" by blast
    then have "w' = ?w" using save save_usage_old [of ?w us i y] Some by (simp split: if_splits)
    then show ?thesis using ok' by simp
  next
    case None
    then have w': "w' = with_usage us ?w" using save save_usage_new [of ?w us] by auto
    have tr: "map_of (s_traces w) (ru_trace_id c) = Some t" "rt_scope t = ru_scope c"
      using trace_of_Some [OF t] by simp_all
    then have "trace_wf t" using ok(2) unfolding traces_wf_def by blast
    then have "usage_attributed ?w us"
      using projected_revisions [OF _ E p] cited tr us by (auto simp: usage_attributed_def)
    then have "experience_ok w'" unfolding w'
      by (intro with_usage_ok world_okD(3) [OF ok']) (use unissued(7) [OF D(4) inj] None us(1) in simp_all)
    then show ?thesis
      by (rule plane_of_experience [OF ok(1), of _ "w_ids w"])
         (simp_all add: w' ids_used_added us(1), simp_all add: with_usage_def)
  qed
qed

subsection \<open>Outcomes\<close>

lemma mk_outcome_fields:
  "mk_outcome_event i sc tr rv k key (utc t) (utc n) us wt note = Inr oc \<Longrightarrow>
     oc_id oc = i \<and> oc_scope oc = sc \<and> oc_trace_id oc = tr \<and> oc_revision_id oc = rv \<and> oc_usage_id oc = us \<and>
     0 < oc_weight oc \<and> oc_idempotency_key oc = strip key"
  by (simp add: mk_outcome_event_Inr)

lemma outcome_decompose:
  assumes run: "record_outcome E c w = (Inr x, w')"
  obtains t oc where "trace_of w (ro_scope c) (ro_trace_id c) = Some t" "check_attribution c t w = Inr ()"
    "oc_id oc = e_ids E (w_ids w)" "oc_scope oc = ro_scope c" "oc_trace_id oc = ro_trace_id c"
    "oc_revision_id oc = ro_revision_id c" "oc_usage_id oc = ro_usage_id c" "0 < oc_weight oc"
    "oc_idempotency_key oc = strip (ro_key_id c)"
    "apply_outcome (e_sha E) oc (rt_context t) (w\<lparr>w_ids := Suc (w_ids w), w_ticks := Suc (w_ticks w)\<rparr>) =
       (Inr (or_outcome x, or_utility x, \<not> or_idempotent_replay x), w')"
  using run
  by (auto simp: record_outcome_def transaction_def pbind_def now_def new_id_def raise_if_def prog_defs
      dest!: mk_outcome_fields split: option.splits sum.splits prod.splits if_splits)

lemma attributed:
  assumes "trace_of w (ro_scope c) (ro_trace_id c) = Some t" "check_attribution c t w = Inr ()"
    "oc_scope oc = ro_scope c" "oc_trace_id oc = ro_trace_id c" "oc_revision_id oc = ro_revision_id c"
    "oc_usage_id oc = ro_usage_id c"
  shows "outcome_attributed w oc"
  using assms trace_of_Some [OF assms(1)]
  by (auto simp: outcome_attributed_def check_attribution_def usage_of_def rbind_Inr raise_if_Inr list_ex_iff
      intro: rev_image_eqI split: option.splits if_splits)

lemma outcome_keeps:
  assumes ok: "world_ok E w" and inj: "ids_fresh E w" and run: "record_outcome E c w = (r, w')"
  shows "world_ok E w'"
proof (cases r)
  case (Inl err)
  have "same_store w w'"
    using aside_commands(4) [of E c] run Inl unfolding record_outcome_def by (intro rolled_back) simp_all
  then show ?thesis using ok(1) world_ok_same by blast
next
  case (Inr x)
  note D = world_okD [OF ok(1)]
  let ?w = "w\<lparr>w_ids := Suc (w_ids w), w_ticks := Suc (w_ticks w)\<rparr>"
  have run: "record_outcome E c w = (Inr x, w')" using run Inr by simp
  obtain t oc where t: "trace_of w (ro_scope c) (ro_trace_id c) = Some t" "check_attribution c t w = Inr ()"
    and oc: "oc_id oc = e_ids E (w_ids w)" "oc_scope oc = ro_scope c" "oc_trace_id oc = ro_trace_id c"
      "oc_revision_id oc = ro_revision_id c" "oc_usage_id oc = ro_usage_id c" "0 < oc_weight oc"
    and app: "apply_outcome (e_sha E) oc (rt_context t) ?w =
       (Inr (or_outcome x, or_utility x, \<not> or_idempotent_replay x), w')"
    by (rule outcome_decompose [OF run])
  have same: "same_store w ?w" by (simp add: same_store_def store.defs)
  have ok': "world_ok E ?w" by (rule world_ok_same [OF ok same])
  show ?thesis
  proof (cases "map_of (s_outcome_keys w) (oc_scope oc, oc_idempotency_key oc)")
    case (Some i)
    have "keyed oc_id (\<lambda>u. (oc_scope u, oc_idempotency_key u)) (s_outcomes w) (s_outcome_keys w)"
      using D(3) by (simp add: experience_ok_def)
    from keyedD(5) [OF this Some] obtain y where y: "map_of (s_outcomes w) i = Some y" by blast
    have "w' = ?w"
      using app apply_outcome_old [OF world_okD(3) [OF ok'], of oc i y "e_sha E" "rt_context t"] Some y
      by (cases "same_outcome y oc") auto
    then show ?thesis using ok' by simp
  next
    case None
    have none: "map_of (s_outcome_keys ?w) (oc_scope oc, oc_idempotency_key oc) = None" using None by simp
    obtain u where u: "utility_ok u"
      "apply_outcome (e_sha E) oc (rt_context t) ?w = (Inr (oc, u, True), with_outcome (e_sha E) oc (rt_context t) u ?w)"
      by (rule apply_outcome_new [OF world_okD(3) [OF ok'] oc(6) none])
    with app have w': "w' = with_outcome (e_sha E) oc (rt_context t) u ?w" by auto
    have "outcome_attributed ?w oc"
      by (rule outcome_attributed_mono [OF attributed [OF t oc(2-5)]]) simp_all
    then have "experience_ok w'" unfolding w'
      by (intro with_outcome_ok world_okD(3) [OF ok'] u(1) oc(6))
         (use unissued(8) [OF D(4) inj] None oc(1) in simp_all)
    then show ?thesis
      by (rule plane_of_experience [OF ok, of _ "w_ids w"])
         (simp_all add: w' ids_used_added oc(1), simp_all add: with_outcome_def)
  qed
qed

subsection \<open>Erasing a scope\<close>

lemma erased_world_ok:
  assumes ok: "world_ok E w"
  shows "world_ok E (erased sc w)"
proof -
  note D = world_okD [OF ok]
  have "ids_used (erased sc w) \<subseteq> ids_used w"
    by (auto simp: ids_used_iff erased_evidence_lookup [OF D(1)] erased_candidate_lookup [OF D(1)]
        erased_observation_lookup [OF D(1)] erased_record_lookup [OF D(2)] erased_revision_lookup [OF D(2)]
        erased_trace_lookup [OF D(3)] erased_usage_lookup [OF D(3)] erased_outcome_lookup [OF D(3)])
  moreover have "w_ids (erased sc w) = w_ids w" by (simp add: erased_def Let_def)
  ultimately have "ids_issued E (erased sc w)" using D(4) unfolding ids_issued_def by auto
  moreover have "committed (erased sc w)"
    unfolding committed_def
  proof (intro allI impI)
    fix i c assume "map_of (s_candidates (erased sc w)) i = Some c"
    then have c: "map_of (s_candidates w) i = Some c" "cand_scope c \<noteq> sc"
      by (simp_all add: erased_candidate_lookup [OF D(1)])
    then obtain r v rc where r: "cand_accepted_record_id c = Some r" "cand_accepted_revision_id c = Some v"
      "map_of (s_records w) r = Some rc" "rec_scope rc = cand_scope c" "rec_key rc = cand_key c"
      "v \<in> set (revision_ids_of w r)"
      using D(5) unfolding committed_def resolved_def by blast
    have "r \<notin> erased_records sc w" using r(3,4) c(2) by (simp add: erased_records_iff [OF D(2)])
    then have "revision_ids_of (erased sc w) r = revision_ids_of w r"
      by (simp add: revision_ids_of_def erased_fields)
    then show "resolved (erased sc w) c"
      using r c(2) by (simp add: resolved_def erased_record_lookup [OF D(2)])
  qed
  moreover have "store_ok (e_sha E) (erased sc w)" using ok by (intro erased_store_ok) (simp add: world_ok_def)
  ultimately show ?thesis by (simp add: world_ok_def)
qed

lemma erased_system_ok:
  assumes ok: "system_ok E w"
  shows "system_ok E (erased sc w)"
proof -
  note W = system_okD [OF ok]
  note D = world_okD [OF W(1)]
  have "registry_ok (erased sc w)" using W(2) by (simp add: registry_ok_def erased_def Let_def)
  moreover have "traces_wf (erased sc w)"
    using W(3) unfolding traces_wf_def erased_trace_lookup [OF D(3)] by blast
  moreover have "records_text (erased sc w)"
    using W(4) unfolding records_text_def erased_record_lookup [OF D(2)] by blast
  ultimately show ?thesis using erased_world_ok [OF W(1)] by (simp add: system_ok_def)
qed

lemma erase_outcome:
  assumes ok: "experience_ok w" and run: "service_erase_scope sv sc w = (r, w')"
  shows "w' = w \<or> w' = erased sc w"
proof -
  obtain summary where e: "erase_scope sc w = (Inr summary, erased sc w)" by (rule erase_scope_eval [OF ok])
  show ?thesis using run
    by (auto simp: service_erase_scope_def pbind_def prog_defs e split: option.splits sum.splits)
qed

subsection \<open>Reachable states\<close>

lemma aside_system:
  assumes ok: "system_ok E w" and a: "aside w w'" and "world_ok E w'" "records_text w'"
  shows "system_ok E w'"
  using assms by (simp add: system_ok_def aside_def registry_ok_def traces_wf_def)

lemma plane_system:
  assumes ok: "system_ok E w" and p: "same_plane w w'" and r: "registry_ok w'"
  shows "system_ok E w'"
  using ok r world_ok_plane [OF _ p] p
  by (simp add: system_ok_def traces_wf_def records_text_def same_plane_def)

text \<open>
  One call of the service or of the evolution application, with any arguments, whatever it returns or
  raises.  Commands are built by their constructors, which normalize the text they hold.
\<close>

inductive service_step :: "env \<Rightarrow> service \<Rightarrow> (gate_receipt \<Rightarrow> py_datetime \<Rightarrow> unit res) \<Rightarrow> world \<Rightarrow> world \<Rightarrow> bool"
  for E sv verifier where
  remembering: "remember_wf c \<Longrightarrow> remember_preference E c w = (r, w') \<Longrightarrow> service_step E sv verifier w w'"
| correcting: "correct_wf c \<Longrightarrow> correct_preference E c w = (r, w') \<Longrightarrow> service_step E sv verifier w w'"
| recalling: "recall E sv c w = (r, w') \<Longrightarrow> service_step E sv verifier w w'"
| using_context: "record_usage E c w = (r, w') \<Longrightarrow> service_step E sv verifier w w'"
| judging: "record_outcome E c w = (r, w') \<Longrightarrow> service_step E sv verifier w w'"
| erasing: "service_erase_scope sv sc w = (r, w') \<Longrightarrow> service_step E sv verifier w w'"
| proposing: "propose_experiment E d reason ref key w = (r, w') \<Longrightarrow> service_step E sv verifier w w'"
| advancing: "advance_experiment E verifier i target receipt key w = (r, w') \<Longrightarrow> service_step E sv verifier w w'"

inductive_cases service_stepE: "service_step E sv verifier w w'"

lemma erase_ids: "service_erase_scope sv sc w = (r, w') \<Longrightarrow> w_ids w' = w_ids w"
  by (auto simp: service_erase_scope_def erase_scope_def Let_def pbind_def prog_defs
      split: sum.splits option.splits prod.splits)

lemma service_step_ids: "service_step E sv verifier w w' \<Longrightarrow> w_ids w \<le> w_ids w'"
proof (erule service_stepE)
  fix c r assume run: "recall E sv c w = (r, w')"
  show ?thesis
  proof (cases r)
    case (Inl e)
    then show ?thesis using recall_failed run by (simp add: same_store_def)
  next
    case (Inr t)
    obtain w1 where "same_store w w1" "w' = with_trace t (w1\<lparr>w_ids := Suc (w_ids w1)\<rparr>)"
      using run Inr by (auto elim: recall_decompose)
    then show ?thesis by (simp add: same_store_def with_trace_def)
  qed
next
  fix sc r assume "service_erase_scope sv sc w = (r, w')"
  then show ?thesis using erase_ids by simp
qed (auto dest: obeysD [OF aside_commands(1)] obeysD [OF aside_commands(2)] obeysD [OF aside_commands(3)]
    obeysD [OF aside_commands(4)] obeysD [OF same_plane_evolution(1)] obeysD [OF same_plane_evolution(2)]
    simp: aside_def same_plane_def)

lemma service_step_keeps:
  assumes ids: "ids_fresh E w'" and E: "digests_ok E" and sv: "service_ok sv"
    and step: "service_step E sv verifier w w'" and ok: "system_ok E w"
  shows "system_ok E w'"
proof -
  note W = system_okD [OF ok]
  have inj: "ids_fresh E w"
    by (rule ids_fresh_mono [OF ids service_step_ids [OF step]])
  from step show ?thesis
  proof cases
    case (remembering c r)
    then show ?thesis
      using remember_keeps [OF W(1) inj] obeysD [OF aside_commands(1)] obeysD [OF texts_commands(1)] W(4)
      by (intro aside_system [OF ok]) (auto simp: keeps_text_def)
  next
    case (correcting c r)
    then show ?thesis
      using correct_keeps [OF W(1,4) inj] obeysD [OF aside_commands(2)] obeysD [OF texts_commands(2)] W(4)
      by (intro aside_system [OF ok]) (auto simp: keeps_text_def)
  next
    case (recalling c r)
    then show ?thesis by (rule recall_keeps [OF ok ids sv])
  next
    case (using_context c r)
    then show ?thesis
      using usage_keeps [OF W(1,3) inj E] obeysD [OF aside_commands(3)] obeysD [OF texts_commands(3)] W(4)
      by (intro aside_system [OF ok]) (auto simp: keeps_text_def)
  next
    case (judging c r)
    then show ?thesis
      using outcome_keeps [OF W(1) inj] obeysD [OF aside_commands(4)] obeysD [OF texts_commands(4)] W(4)
      by (intro aside_system [OF ok]) (auto simp: keeps_text_def)
  next
    case (erasing sc r)
    then have "w' = w \<or> w' = erased sc w" by (rule erase_outcome [OF world_okD(3) [OF W(1)]])
    then show ?thesis using ok erased_system_ok [OF ok] by auto
  next
    case (proposing d reason ref key r)
    then show ?thesis
      using obeysD [OF propose_keeps] W(2)
      by (intro plane_system [OF ok obeysD [OF same_plane_evolution(1)]]) (auto simp: keeps_registry_def)
  next
    case (advancing i target receipt key r)
    then show ?thesis
      using obeysD [OF advance_keeps] W(2)
      by (intro plane_system [OF ok obeysD [OF same_plane_evolution(2)]]) (auto simp: keeps_registry_def)
  qed
qed

text \<open>Starting the service on a store, empty or not.\<close>

lemma default_strategy_ok:
  "mk_strategy i 1 default_weights (flit (20/100)) 180 (utc n) None = Inr st \<Longrightarrow> strategy_ok st"
  using default_weights_ok by (auto simp: mk_strategy_Inr strategy_ok_def)

definition keeps_both :: "world \<Rightarrow> world \<Rightarrow> bool" where
  "keeps_both w w' \<longleftrightarrow> keeps_registry w w' \<and> same_plane w w'"

interpretation both: state_relation keeps_both
  by unfold_locales (auto simp: keeps_both_def reg.R_refl plane.R_refl intro: reg.R_trans plane.R_trans)

lemma save_strategy_keeps: "strategy_ok st \<Longrightarrow> obeys keeps_both (save_strategy st)"
  unfolding obeys_def
proof
  fix s :: world assume st: "strategy_ok st"
  obtain r t where run: "save_strategy st s = (r, t)" by force
  have "registry_ok t" if ok: "registry_ok s"
  proof (cases r)
    case (Inl e)
    then show ?thesis using save_strategy_Inl run ok by blast
  next
    case (Inr u)
    with run save_strategy_Inr have t: "t = with_strategy st s" "can_save (s_strategies s) st" by auto
    note W = with_strategy_ok [OF registry_okD(1) [OF ok] st t(2)]
    show ?thesis using registry_okD [OF ok] W experiments_ok_strategies [OF registry_okD(4) [OF ok]]
      by (auto simp: registry_ok_def t(1) with_strategy_def)
  qed
  then show "keeps_both s (snd (save_strategy st s))"
    using obeysD [OF same_plane_store(1) run] run by (simp add: keeps_both_def keeps_registry_def)
qed

lemma ensure_active_keeps: "strategy_ok st \<Longrightarrow> obeys keeps_both (ensure_active_strategy st a)"
  unfolding obeys_def
proof
  fix s :: world assume st: "strategy_ok st"
  obtain r t where run: "ensure_active_strategy st a s = (r, t)" by force
  have "registry_ok t" if ok: "registry_ok s"
  proof (cases r)
    case (Inl e)
    have "t = s" using run Inl save_strategy_Inl
      by (auto simp: ensure_active_strategy_def pbind_Inl raise_if_def split: sum.splits option.splits if_splits)
    then show ?thesis using ok by simp
  next
    case (Inr u)
    then show ?thesis using ensure_active_Inr [OF ok] run ok bootstrapped_ok [OF ok st] by blast
  qed
  then show "keeps_both s (snd (ensure_active_strategy st a s))"
    using obeysD [OF same_plane_store(2) run] run by (simp add: keeps_both_def keeps_registry_def)
qed

lemma both_reading:
  "obeys keeps_both (now E)" "obeys keeps_both (new_id E)" "keeps_both w (w\<lparr>w_projection_available := x\<rparr>)"
  by (simp_all add: obeys_def now_def new_id_def keeps_both_def keeps_registry_def registry_ok_def same_plane_def)

lemma starting_keeps:
  assumes "\<And>p. policy = Some p \<Longrightarrow> strategy_ok p"
  shows "obeys keeps_both (mk_service E policy projection required oversample)"
proof (cases policy)
  case None
  show ?thesis unfolding mk_service_def None option.case
    by (intro both.obeys_checked both.obeys_intros both_reading)
       (auto simp: both_reading mk_weights_Inr dest!: default_strategy_ok [simplified] intro: ensure_active_keeps)
next
  case (Some p)
  show ?thesis unfolding mk_service_def Some option.case
    by (intro both.obeys_checked both.obeys_intros both_reading save_strategy_keeps assms [OF Some])
qed

lemma starting_ok:
  assumes policy: "\<And>p. policy = Some p \<Longrightarrow> strategy_ok p" and ok: "system_ok E w"
    and run: "mk_service E policy projection required oversample w = (Inr sv, w')"
  shows "system_ok E w'" "service_ok sv"
proof -
  have "keeps_both w w'" using starting_keeps [OF policy] run by (rule obeysD)
  then show "system_ok E w'"
    using plane_system [OF ok] system_okD(2) [OF ok] by (simp add: keeps_both_def keeps_registry_def)
  have "sv_policy sv = policy"
    using run unfolding mk_service_def pbind_Inr prog_eval by auto
  then show "service_ok sv" using policy by (simp add: service_ok_def)
qed

lemma empty_system_ok: "system_ok E (world_of empty_store n t p)"
proof -
  have "store_ok (e_sha E) (world_of empty_store n t p)"
    by (simp add: store_ok_def evidence_ok_def belief_plane_ok_def experience_ok_def world_of_def empty_store_def
        store.defs keyed_empty revision_ids_of_def)
  then show ?thesis
    by (simp add: system_ok_def world_ok_def ids_issued_def ids_used_def committed_def registry_ok_def
        strategies_ok_def activation_chain_def experiments_ok_def promotions_earned_def traces_wf_def
        records_text_def world_of_def empty_store_def store.defs)
qed

text \<open>The states a service reaches, started on the empty store.\<close>

definition service_reachable ::
  "env \<Rightarrow> service \<Rightarrow> (gate_receipt \<Rightarrow> py_datetime \<Rightarrow> unit res) \<Rightarrow> world \<Rightarrow> world \<Rightarrow> bool" where
  "service_reachable E sv verifier w0 w \<longleftrightarrow> (service_step E sv verifier)\<^sup>*\<^sup>* w0 w"

lemma reachable_system_ok:
  assumes E: "digests_ok E" "service_ok sv" "system_ok E w0"
    and reach: "service_reachable E sv verifier w0 w" and fresh: "ids_fresh E w"
  shows "system_ok E w"
  using reach fresh unfolding service_reachable_def
proof (induction rule: rtranclp_induct)
  case base
  then show ?case using E(3) by simp
next
  case (step u w)
  have "ids_fresh E u" by (rule ids_fresh_mono [OF step.prems service_step_ids [OF step.hyps(2)]])
  then have "system_ok E u" by (rule step.IH)
  then show ?case by (rule service_step_keeps [OF step.prems E(1,2) step.hyps(2)])
qed

end
