(* ===== verification/History.thy ===== *)
theory History
  imports Operations
begin

text \<open>
  The history of a belief only grows: no operation but the erasure of a scope removes, changes or
  reorders a revision.
\<close>

definition history_grows :: "world \<Rightarrow> world \<Rightarrow> bool" where
  "history_grows w w' \<longleftrightarrow> map_of (s_records w) \<subseteq>\<^sub>m map_of (s_records w') \<and>
     map_of (s_revisions w) \<subseteq>\<^sub>m map_of (s_revisions w') \<and>
     (\<forall>r. prefix (revision_ids_of w r) (revision_ids_of w' r))"

interpretation growth: state_relation history_grows
  by unfold_locales (auto simp: history_grows_def intro: map_le_trans prefix_order.trans)

lemma grows_extended: "extended w w' v \<Longrightarrow> history_grows w w'"
  by (auto simp: extended_def history_grows_def map_le_def)

lemma grows_unchanged:
  "s_records w' = s_records w \<Longrightarrow> s_revisions w' = s_revisions w \<Longrightarrow>
   s_revision_ids_by_record w' = s_revision_ids_by_record w \<Longrightarrow> history_grows w w'"
  by (simp add: history_grows_def revision_ids_of_def)

lemma grows_same: "same_store w w' \<Longrightarrow> history_grows w w'" "same_plane w w' \<Longrightarrow> history_grows w w'"
  by (auto intro!: grows_unchanged simp: same_store_fields same_plane_def)

text \<open>Usage and outcomes write into the experience plane only.\<close>

definition same_beliefs :: "world \<Rightarrow> world \<Rightarrow> bool" where
  "same_beliefs w w' \<longleftrightarrow> s_records w' = s_records w \<and> s_revisions w' = s_revisions w \<and>
     s_revision_ids_by_record w' = s_revision_ids_by_record w"

interpretation beliefs: state_relation same_beliefs
  by unfold_locales (auto simp: same_beliefs_def)

lemma beliefs_transaction: "obeys same_beliefs m \<Longrightarrow> obeys same_beliefs (transaction m)"
  by (rule obeys_transaction) (simp_all add: same_beliefs_def restore_fields)

lemma beliefs_experience:
  "obeys same_beliefs (record_usage E ru)" "obeys same_beliefs (record_outcome E ro)"
  "obeys same_beliefs (save_trace t)"
proof -
  have put: "obeys same_beliefs (save_usage us)" "obeys same_beliefs (apply_outcome sha oc ctx)" for us sha oc ctx
    unfolding save_usage_def apply_outcome_def Let_def
    by (intro beliefs.obeys_intros; simp add: same_beliefs_def)+
  have read: "obeys same_beliefs (now E)" "obeys same_beliefs (new_id E)"
    by (simp_all add: obeys_def now_def new_id_def same_beliefs_def)
  have split: "obeys same_beliefs (case p of (a, b) \<Rightarrow> f a b)" if "\<And>a b. obeys same_beliefs (f a b)" for p f
    using that by (cases p) simp
  show "obeys same_beliefs (record_usage E ru)" "obeys same_beliefs (record_outcome E ro)"
    unfolding record_usage_def record_outcome_def
    by (intro beliefs_transaction beliefs.obeys_intros put read split)+
  show "obeys same_beliefs (save_trace t)"
    by (simp add: obeys_def save_trace_def same_beliefs_def)
qed

lemma step_history:
  assumes step: "service_step E sv verifier w w'" and ids: "ids_fresh E w'" and ok: "system_ok E w"
  shows "history_grows w w' \<or> (\<exists>sc. w' = erased sc w)"
proof -
  note W = system_okD [OF ok]
  have inj: "ids_fresh E w" by (rule ids_fresh_mono [OF ids service_step_ids [OF step]])
  from step show ?thesis
  proof cases
    case (remembering c r)
    then show ?thesis using remember_outcome [OF W(1) inj] grows_same grows_extended by blast
  next
    case (correcting c r)
    then show ?thesis using correct_outcome [OF W(1,4) inj] grows_same grows_extended by blast
  next
    case (recalling c r)
    show ?thesis
    proof (cases r)
      case (Inl e)
      then show ?thesis using recall_failed recalling grows_same by blast
    next
      case (Inr t)
      obtain w1 where "same_store w w1" and w': "w' = with_trace t (w1\<lparr>w_ids := Suc (w_ids w1)\<rparr>)"
        using recalling Inr by (auto elim: recall_decompose)
      then have "history_grows w w1" by (simp add: grows_same)
      moreover have "history_grows w1 w'" using w' by (intro grows_unchanged) (simp_all add: with_trace_def)
      ultimately show ?thesis by (blast intro: growth.R_trans)
    qed
  next
    case (using_context c r)
    then show ?thesis using obeysD [OF beliefs_experience(1)] grows_unchanged by (metis same_beliefs_def)
  next
    case (judging c r)
    then show ?thesis using obeysD [OF beliefs_experience(2)] grows_unchanged by (metis same_beliefs_def)
  next
    case (erasing sc r)
    then show ?thesis using erase_outcome [OF world_okD(3) [OF W(1)]] growth.R_refl by metis
  next
    case proposing
    then show ?thesis using obeysD [OF same_plane_evolution(1)] grows_same by blast
  next
    case advancing
    then show ?thesis using obeysD [OF same_plane_evolution(2)] grows_same by blast
  qed
qed

end
