(* ===== verification/Ledger.thy ===== *)
theory Ledger
  imports History
begin

text \<open>
  The abstract specification of the memory service: a ledger that maps an identity (scope, key and
  context fingerprint) to the list of its revisions.  A step leaves the ledger alone, appends one revision to
  one list, or forgets one scope.  The store with its records, revisions and four indexes refines it:
  every step of the service is a step of the ledger, and looking a belief up answers with the last
  entry of its list.
\<close>

type_synonym identity = "scope \<times> ustr \<times> ustr"
type_synonym ledger = "identity \<Rightarrow> memory_revision list"

definition appendable :: "ledger \<Rightarrow> identity \<Rightarrow> memory_revision \<Rightarrow> bool" where
  "appendable l k v \<longleftrightarrow> rev_sequence v = int (length (l k)) + 1 \<and>
     rev_supersedes v = (if l k = [] then None else Some (rev_id (last (l k)))) \<and>
     (\<forall>k'. \<forall>u \<in> set (l k'). rev_id u \<noteq> rev_id v)"

definition forget :: "scope \<Rightarrow> ledger \<Rightarrow> ledger" where
  "forget sc l = (\<lambda>k. if fst k = sc then [] else l k)"

inductive ledger_step :: "ledger \<Rightarrow> ledger \<Rightarrow> bool" where
  ledger_stays: "ledger_step l l"
| ledger_appends: "appendable l k v \<Longrightarrow> ledger_step l (l(k := l k @ [v]))"
| ledger_forgets: "ledger_step l (forget sc l)"

inductive_cases ledger_stepE: "ledger_step l l'"

subsection \<open>The abstraction\<close>

definition chain_of :: "'z store_scheme \<Rightarrow> uuid \<Rightarrow> memory_revision list" where
  "chain_of s r = map (\<lambda>i. the (map_of (s_revisions s) i)) (revision_ids_of s r)"

definition ledger_of :: "'z store_scheme \<Rightarrow> ledger" where
  "ledger_of s k = (case map_of (s_record_identity s) k of None \<Rightarrow> [] | Some r \<Rightarrow> chain_of s r)"

lemma identity_record:
  assumes "belief_plane_ok sha s"
  shows "map_of (s_record_identity s) k = Some r \<longleftrightarrow>
    (\<exists>x. map_of (s_records s) r = Some x \<and> (rec_scope x, rec_key x, fingerprint sha (rec_context x)) = k)"
  using keyedD(4,5) [OF belief_plane_okD(1) [OF assms]] by blast

lemma chain_elements:
  assumes "belief_plane_ok sha s" "i \<in> set (revision_ids_of s r)"
  shows "\<exists>v. map_of (s_revisions s) i = Some v \<and> rev_id v = i \<and> rev_record_id v = r"
proof -
  obtain ids where "map_of (s_revision_ids_by_record s) r = Some ids" "i \<in> set ids"
    using assms(2) by (cases "map_of (s_revision_ids_by_record s) r") (auto simp: revision_ids_of_def)
  moreover from this belief_plane_okD(4) [OF assms(1)] have "chain_ok s r ids" by blast
  ultimately show ?thesis unfolding chain_ok_def by (metis in_set_conv_nth)
qed

lemma chain_of_ids:
  assumes "belief_plane_ok sha s"
  shows "map rev_id (chain_of s r) = revision_ids_of s r"
  unfolding chain_of_def map_map by (rule map_idI) (use chain_elements [OF assms] in fastforce)

lemma ledger_cong:
  "s_record_identity t = s_record_identity s \<Longrightarrow> s_revisions t = s_revisions s \<Longrightarrow>
   s_revision_ids_by_record t = s_revision_ids_by_record s \<Longrightarrow> ledger_of t = ledger_of s"
  by (rule ext) (simp add: ledger_of_def chain_of_def revision_ids_of_def split: option.split)

subsection \<open>Committing a revision appends to the ledger\<close>

lemma revision_record:
  assumes ok: "belief_plane_ok sha s" and v: "map_of (s_revisions s) i = Some v"
  obtains x where "map_of (s_records s) (rev_record_id v) = Some x" "i \<in> set (revision_ids_of s (rev_record_id v))"
  using belief_plane_okD(5) [OF ok v] belief_plane_okD(2) [OF ok, of "rev_record_id v"]
  by (auto simp: revision_ids_of_def)

lemma extended_records: "extended s t v \<Longrightarrow> map_of (s_records s) \<subseteq>\<^sub>m map_of (s_records t)"
  by (simp add: extended_def)

lemma extended_chain:
  assumes ok: "belief_plane_ok sha s" and x: "extended s t v"
  shows "chain_of t r = chain_of s r @ (if r = rev_record_id v then [v] else [])"
proof -
  have "map_of (s_revisions t) i = map_of (s_revisions s) i" if "i \<in> set (revision_ids_of s r)" for i
    using chain_elements [OF ok that] x by (auto simp: extended_def)
  then have "map (\<lambda>i. the (map_of (s_revisions t) i)) (revision_ids_of s r) = chain_of s r"
    unfolding chain_of_def by simp
  then show ?thesis using x by (simp add: chain_of_def extended_def)
qed

lemma extended_identity:
  assumes ok: "belief_plane_ok sha s" "belief_plane_ok sha t" and x: "extended s t v"
    and k: "map_of (s_record_identity t) k = Some r" "r \<noteq> rev_record_id v"
  shows "map_of (s_record_identity s) k = Some r"
proof -
  obtain y where y: "map_of (s_records t) r = Some y" "(rec_scope y, rec_key y, fingerprint sha (rec_context y)) = k"
    using k(1) unfolding identity_record [OF ok(2)] by blast
  then have "map_of (s_revision_ids_by_record t) r \<noteq> None" using belief_plane_okD(2) [OF ok(2), of r] by simp
  then obtain ids where "map_of (s_revision_ids_by_record t) r = Some ids" by blast
  moreover from belief_plane_okD(4) [OF ok(2) this] have "ids \<noteq> []" by (simp add: chain_ok_def)
  ultimately have "revision_ids_of t r \<noteq> []" by (simp add: revision_ids_of_def)
  moreover have "revision_ids_of t r = revision_ids_of s r" using x k(2) by (simp add: extended_def)
  ultimately have "revision_ids_of s r \<noteq> []" by simp
  then have "map_of (s_revision_ids_by_record s) r \<noteq> None"
    by (cases "map_of (s_revision_ids_by_record s) r") (simp_all add: revision_ids_of_def)
  then obtain z where z: "map_of (s_records s) r = Some z" using belief_plane_okD(2) [OF ok(1), of r] by blast
  have "map_of (s_records t) r = Some z" by (rule map_leD [OF extended_records [OF x] z])
  then have "z = y" using y(1) by simp
  then show ?thesis unfolding identity_record [OF ok(1)] using z y(2) by blast
qed

lemma extended_ledger:
  assumes ok: "belief_plane_ok sha s" "belief_plane_ok sha t" and x: "extended s t v"
  obtains k where "ledger_of t = (ledger_of s)(k := ledger_of s k @ [v])" "appendable (ledger_of s) k v"
    "map_of (s_record_identity t) k = Some (rev_record_id v)"
proof -
  let ?r = "rev_record_id v"
  have v: "map_of (s_revisions t) (rev_id v) = Some v" using x by (simp add: extended_def)
  obtain y where y: "map_of (s_records t) ?r = Some y" by (rule revision_record [OF ok(2) v])
  let ?k = "(rec_scope y, rec_key y, fingerprint sha (rec_context y))"
  have k: "map_of (s_record_identity t) ?k = Some ?r" unfolding identity_record [OF ok(2)] using y by blast
  have at_k: "ledger_of s ?k = chain_of s ?r"
  proof (cases "map_of (s_record_identity s) ?k")
    case None
    have "map_of (s_records s) ?r = None"
    proof (rule ccontr)
      assume "map_of (s_records s) ?r \<noteq> None"
      then obtain z where z: "map_of (s_records s) ?r = Some z" by auto
      then have "z = y" using map_leD [OF extended_records [OF x] z] y by simp
      then have "map_of (s_record_identity s) ?k = Some ?r" unfolding identity_record [OF ok(1)] using z by blast
      then show False using None by simp
    qed
    then have "revision_ids_of s ?r = []"
      using belief_plane_okD(2) [OF ok(1), of ?r] by (simp add: revision_ids_of_def split: option.splits)
    then show ?thesis using None by (simp add: ledger_of_def chain_of_def)
  next
    case (Some r)
    then obtain z where z: "map_of (s_records s) r = Some z"
      "(rec_scope z, rec_key z, fingerprint sha (rec_context z)) = ?k" unfolding identity_record [OF ok(1)] by blast
    have "map_of (s_record_identity t) ?k = Some r"
      unfolding identity_record [OF ok(2)] using map_leD [OF extended_records [OF x] z(1)] z(2) by blast
    then show ?thesis using k Some by (simp add: ledger_of_def)
  qed
  have other: "ledger_of t k' = ledger_of s k'" if "k' \<noteq> ?k" for k'
  proof (cases "map_of (s_record_identity t) k'")
    case (Some r)
    have "r \<noteq> ?r" using Some [unfolded identity_record [OF ok(2)]] that y by auto
    then show ?thesis
      using extended_identity [OF ok x Some] extended_chain [OF ok(1) x, of r] Some by (simp add: ledger_of_def)
  next
    case None
    have "map_of (s_record_identity s) k' = None"
    proof (rule ccontr)
      assume "map_of (s_record_identity s) k' \<noteq> None"
      then obtain r where "map_of (s_record_identity s) k' = Some r" by blast
      then obtain z where z: "map_of (s_records s) r = Some z"
        "(rec_scope z, rec_key z, fingerprint sha (rec_context z)) = k'" unfolding identity_record [OF ok(1)] by blast
      have "map_of (s_record_identity t) k' = Some r"
        unfolding identity_record [OF ok(2)] using map_leD [OF extended_records [OF x] z(1)] z(2) by blast
      then show False using None by simp
    qed
    then show ?thesis using None by (simp add: ledger_of_def)
  qed
  have grown: "ledger_of t ?k = ledger_of s ?k @ [v]"
    using k at_k extended_chain [OF ok(1) x, of ?r] by (simp add: ledger_of_def)
  have "appendable (ledger_of s) ?k v"
    unfolding appendable_def
  proof (intro conjI allI ballI)
    have ids: "map rev_id (chain_of s ?r) = revision_ids_of s ?r" by (rule chain_of_ids [OF ok(1)])
    then have n: "length (chain_of s ?r) = length (revision_ids_of s ?r)" by (metis length_map)
    show "rev_sequence v = int (length (ledger_of s ?k)) + 1" using x n at_k by (simp add: extended_def)
    obtain ids' where ids': "map_of (s_revision_ids_by_record t) ?r = Some ids'" "chain_ok t ?r ids'"
      using belief_plane_okD(2,4) [OF ok(2), of ?r] y by fastforce
    have "revision_ids_of t ?r = ids'" using ids'(1) by (simp add: revision_ids_of_def)
    then have e: "ids' = revision_ids_of s ?r @ [rev_id v]" using x by (simp add: extended_def)
    then have "\<exists>u. map_of (s_revisions t) (rev_id v) = Some u \<and>
        rev_supersedes u = (if length (revision_ids_of s ?r) = 0 then None else Some (ids' ! (length (revision_ids_of s ?r) - 1)))"
      using ids'(2) unfolding chain_ok_def by (metis length_append_singleton lessI nth_append_length)
    then have "rev_supersedes v = (if revision_ids_of s ?r = [] then None else Some (last (revision_ids_of s ?r)))"
      using v e by (auto simp: nth_append last_conv_nth)
    then show "rev_supersedes v = (if ledger_of s ?k = [] then None else Some (rev_id (last (ledger_of s ?k))))"
      using ids at_k by (metis last_map map_is_Nil_conv)
    fix k' u assume "u \<in> set (ledger_of s k')"
    then obtain r where "u \<in> set (chain_of s r)" by (auto simp: ledger_of_def split: option.splits)
    then have "rev_id u \<in> set (revision_ids_of s r)" using chain_of_ids [OF ok(1), of r] by (metis image_eqI set_map)
    then show "rev_id u \<noteq> rev_id v" using chain_elements [OF ok(1)] x by (fastforce simp: extended_def)
  qed
  moreover have "ledger_of t = (ledger_of s)(?k := ledger_of s ?k @ [v])" using grown other by auto
  ultimately show thesis using that k by blast
qed

subsection \<open>Forgetting a scope\<close>

lemma erased_ledger:
  assumes ok: "belief_plane_ok sha s"
  shows "ledger_of (erased sc s) = forget sc (ledger_of s)"
proof
  fix k
  show "ledger_of (erased sc s) k = forget sc (ledger_of s) k"
  proof (cases "fst k \<noteq> sc \<and> map_of (s_record_identity s) k \<noteq> None")
    case False
    then show ?thesis by (auto simp: ledger_of_def forget_def erased_fields)
  next
    case True
    then obtain r where r: "map_of (s_record_identity s) k = Some r" by blast
    then obtain x where x: "map_of (s_records s) r = Some x"
      "(rec_scope x, rec_key x, fingerprint sha (rec_context x)) = k" unfolding identity_record [OF ok] by blast
    have kept: "r \<notin> erased_records sc s" unfolding erased_records_iff [OF ok] using x True by auto
    have ids: "revision_ids_of (erased sc s) r = revision_ids_of s r"
      using kept by (simp add: revision_ids_of_def erased_fields)
    have "map_of (s_revisions (erased sc s)) i = map_of (s_revisions s) i" if i: "i \<in> set (revision_ids_of s r)" for i
    proof -
      have "i \<notin> set (revision_ids_of s r')" if "r' \<in> erased_records sc s" for r'
        using chain_elements [OF ok i] chain_elements [OF ok, of i r'] that kept by fastforce
      then show ?thesis by (auto simp: erased_fields)
    qed
    then show ?thesis using r True ids by (simp add: ledger_of_def forget_def chain_of_def erased_fields)
  qed
qed

subsection \<open>The simulation\<close>

lemma option_eqI: "(\<And>r. x = Some r \<longleftrightarrow> y = Some r) \<Longrightarrow> x = y"
  by (cases x; cases y) auto

lemma same_ledger: "same_store w w' \<Longrightarrow> ledger_of w' = ledger_of w"
  by (rule ledger_cong) (auto simp: same_store_fields)

lemma same_beliefs_ledger:
  assumes ok: "belief_plane_ok sha w" "belief_plane_ok sha w'" and same: "same_beliefs w w'"
  shows "ledger_of w' = ledger_of w"
proof
  fix k
  have "map_of (s_record_identity w') k = Some r \<longleftrightarrow> map_of (s_record_identity w) k = Some r" for r
    unfolding identity_record [OF ok(1)] identity_record [OF ok(2)] using same by (simp add: same_beliefs_def)
  then have "map_of (s_record_identity w') k = map_of (s_record_identity w) k" by (rule option_eqI)
  then show "ledger_of w' k = ledger_of w k" using same
    by (simp add: ledger_of_def chain_of_def revision_ids_of_def same_beliefs_def split: option.split)
qed

lemma step_ledger:
  assumes E: "digests_ok E" "service_ok sv" and ids: "ids_fresh E w'" and ok: "system_ok E w"
    and step: "service_step E sv verifier w w'"
  shows "ledger_step (ledger_of w) (ledger_of w')"
proof -
  have ok': "system_ok E w'" by (rule service_step_keeps [OF ids E step ok])
  note B = world_okD(2) [OF system_okD(1) [OF ok]] world_okD(2) [OF system_okD(1) [OF ok']]
  have inj: "ids_fresh E w" by (rule ids_fresh_mono [OF ids service_step_ids [OF step]])
  have same: "ledger_step (ledger_of w) (ledger_of w')" if "ledger_of w' = ledger_of w"
    unfolding that by (rule ledger_stays)
  have committed: "ledger_step (ledger_of w) (ledger_of w')" if "same_store w w' \<or> (\<exists>v. extended w w' v)"
    using that
  proof (elim disjE exE)
    fix v assume "extended w w' v"
    from extended_ledger [OF B this] obtain k where
      k: "ledger_of w' = (ledger_of w)(k := ledger_of w k @ [v])" "appendable (ledger_of w) k v" by blast
    show ?thesis unfolding k(1) by (rule ledger_appends [OF k(2)])
  qed (rule same, rule same_ledger)
  from step show ?thesis
  proof cases
    case (remembering c r)
    then show ?thesis using remember_outcome [OF system_okD(1) [OF ok] inj] committed by blast
  next
    case (correcting c r)
    then show ?thesis using correct_outcome [OF system_okD(1,4) [OF ok] inj] committed by blast
  next
    case (recalling c r)
    show ?thesis
    proof (cases r)
      case (Inl e)
      have "same_store w w'" using recalling unfolding Inl by (rule recall_failed)
      then show ?thesis using committed by blast
    next
      case (Inr t)
      obtain w1 where "same_store w w1" and w': "w' = with_trace t (w1\<lparr>w_ids := Suc (w_ids w1)\<rparr>)"
        using recalling Inr by (auto elim: recall_decompose)
      then have "ledger_of w1 = ledger_of w" by (intro same_ledger)
      moreover have "ledger_of w' = ledger_of w1" using w' by (intro ledger_cong) (simp_all add: with_trace_def)
      ultimately show ?thesis using same by simp
    qed
  next
    case (using_context c r)
    then show ?thesis using same same_beliefs_ledger [OF B] obeysD [OF beliefs_experience(1)] by blast
  next
    case (judging c r)
    then show ?thesis using same same_beliefs_ledger [OF B] obeysD [OF beliefs_experience(2)] by blast
  next
    case (erasing sc r)
    have "w' = w \<or> w' = erased sc w" by (rule erase_outcome [OF world_okD(3) [OF system_okD(1) [OF ok]] erasing])
    then show ?thesis
    proof
      assume "w' = erased sc w"
      then have "ledger_of w' = forget sc (ledger_of w)" using erased_ledger [OF B(1)] by simp
      then show ?thesis using ledger_forgets by simp
    qed (simp add: ledger_stays)
  next
    case proposing
    then have "same_plane w w'" using obeysD [OF same_plane_evolution(1)] by blast
    then show ?thesis by (intro same ledger_cong) (simp_all add: same_plane_def)
  next
    case advancing
    then have "same_plane w w'" using obeysD [OF same_plane_evolution(2)] by blast
    then show ?thesis by (intro same ledger_cong) (simp_all add: same_plane_def)
  qed
qed

text \<open>Reading: the current belief of an identity is the last entry of its list.\<close>

lemma current_is_last:
  assumes ok: "belief_plane_ok sha s"
  shows "\<exists>sn. current_by_identity sha s sc key ctx = Inr sn \<and>
    map_option snap_revision sn =
      (if ledger_of s (sc, key, fingerprint sha ctx) = [] then None
       else Some (last (ledger_of s (sc, key, fingerprint sha ctx))))"
proof (cases "map_of (s_record_identity s) (sc, key, fingerprint sha ctx)")
  case None
  then show ?thesis by (simp add: current_by_identity_def ledger_of_def)
next
  case (Some r)
  from Some [unfolded identity_record [OF ok]] obtain x where x: "map_of (s_records s) r = Some x" "rec_scope x = sc"
    by auto
  have xid: "rec_id x = r" using keyedD(3) [OF belief_plane_okD(1) [OF ok] x(1)] .
  have "map_of (s_revision_ids_by_record s) r \<noteq> None" using belief_plane_okD(2) [OF ok, of r] x(1) by simp
  then obtain ids where ids: "map_of (s_revision_ids_by_record s) r = Some ids" by blast
  note chain = belief_plane_okD(4) [OF ok ids]
  from chain have "chain_ok s r ids" and act: "map_of (s_active_revision s) r = Some (last ids)" by simp_all
  from chain_ok_last [OF this(1)] obtain v where
    v: "map_of (s_revisions s) (last ids) = Some v" "rev_record_id v = r" by blast
  have "ids \<noteq> []" using chain by (simp add: chain_ok_def)
  then have "ledger_of s (sc, key, fingerprint sha ctx) \<noteq> []"
    "last (ledger_of s (sc, key, fingerprint sha ctx)) = v"
    using Some ids v(1) by (simp_all add: ledger_of_def chain_of_def revision_ids_of_def last_map)
  moreover have "current_by_identity sha s sc key ctx = Inr (Some \<lparr>snap_record = x, snap_revision = v\<rparr>)"
    using Some x act v xid by (simp add: current_by_identity_def snapshot_of_def dict_index_def mk_memory_snapshot_def)
  ultimately show ?thesis by simp
qed

end
