(* ===== verification/ExperienceCorrect.thy ===== *)
theory ExperienceCorrect
  imports Operations
begin

text \<open>
  Outcomes and usage receipts are recorded once: the second delivery of a command is answered from the
  store, so no feedback counts twice in the utility of a revision.
\<close>

subsection \<open>Outcomes\<close>

definition event_of :: "env \<Rightarrow> outcome_command \<Rightarrow> world \<Rightarrow> outcome_event" where
  "event_of E c w = \<lparr>oc_id = e_ids E (w_ids w), oc_scope = ro_scope c, oc_trace_id = ro_trace_id c,
     oc_revision_id = ro_revision_id c, oc_kind = ro_kind c, oc_idempotency_key = strip (ro_key_id c),
     oc_occurred_at = ro_occurred_at c, oc_recorded_at = e_clock E (w_ticks w), oc_usage_id = ro_usage_id c,
     oc_weight = ro_weight c, oc_note = normalize_note (ro_note c)\<rparr>"

definition counted :: "world \<Rightarrow> world" where
  "counted w = w\<lparr>w_ids := Suc (w_ids w), w_ticks := Suc (w_ticks w)\<rparr>"

lemma counted_fields:
  "s_outcomes (counted w) = s_outcomes w" "s_outcome_keys (counted w) = s_outcome_keys w"
  "s_usages (counted w) = s_usages w" "s_usage_keys (counted w) = s_usage_keys w"
  "s_traces (counted w) = s_traces w" "same_store w (counted w)"
  by (simp_all add: counted_def same_store_def store.defs)

lemma counted_eq:
  "w\<lparr>w_ids := Suc (w_ids w), w_ticks := Suc (w_ticks w)\<rparr> = counted w"
  "w\<lparr>w_ticks := Suc (w_ticks w), w_ids := Suc (w_ids w)\<rparr> = counted w"
  by (simp_all add: counted_def)

lemma experience_counted: "experience_ok w \<Longrightarrow> experience_ok (counted w)"
  by (erule experience_ok_cong) (simp_all add: counted_def)

lemma record_outcome_iff:
  "record_outcome E c w = (Inr x, w') \<longleftrightarrow> (\<exists>t. trace_of w (ro_scope c) (ro_trace_id c) = Some t \<and>
     check_attribution c t w = Inr () \<and> strip (ro_key_id c) \<noteq> [] \<and> 0 < ro_weight c \<and> ro_weight c \<le> 10 \<and>
     apply_outcome (e_sha E) (event_of E c w) (rt_context t) (counted w) =
       (Inr (or_outcome x, or_utility x, \<not> or_idempotent_replay x), w') \<and>
     (or_idempotent_replay x \<longrightarrow> oc_note (or_outcome x) = normalize_note (ro_note c)))"
  (is "?L \<longleftrightarrow> ?R")
proof
  show "?L \<Longrightarrow> ?R"
    by (auto simp: record_outcome_def transaction_def pbind_def now_def new_id_def raise_if_def prog_defs
        mk_outcome_event_Inr event_of_def counted_eq split: option.splits sum.splits prod.splits if_splits)
  assume ?R
  then obtain t where t: "trace_of w (ro_scope c) (ro_trace_id c) = Some t" "check_attribution c t w = Inr ()"
    and v: "strip (ro_key_id c) \<noteq> []" "0 < ro_weight c" "ro_weight c \<le> 10"
    and app: "apply_outcome (e_sha E) (event_of E c w) (rt_context t) (counted w) =
       (Inr (or_outcome x, or_utility x, \<not> or_idempotent_replay x), w')"
    and nts: "or_idempotent_replay x \<Longrightarrow> oc_note (or_outcome x) = normalize_note (ro_note c)" by blast
  have "mk_outcome_event (e_ids E (w_ids w)) (ro_scope c) (ro_trace_id c) (ro_revision_id c) (ro_kind c)
      (ro_key_id c) (utc (ro_occurred_at c)) (utc (e_clock E (w_ticks w))) (ro_usage_id c) (ro_weight c)
      (ro_note c) = Inr (event_of E c w)"
    using v by (simp add: mk_outcome_event_Inr event_of_def)
  moreover have "oc_note (event_of E c w) = normalize_note (ro_note c)" by (simp add: event_of_def)
  ultimately show ?L
    using t app nts
    by (cases x) (auto simp: record_outcome_def transaction_def pbind_def now_def new_id_def prog_defs counted_eq
        raise_if_def)
qed

lemma outcome_twice:
  assumes ok: "world_ok E w" and inj: "ids_fresh E w" and run: "record_outcome E c w = (Inr x, w')"
  shows "\<exists>u. record_outcome E c w' = (Inr \<lparr>or_outcome = or_outcome x, or_utility = u, or_idempotent_replay = True\<rparr>,
     counted w')"
proof -
  let ?v = "event_of E c w" and ?v' = "event_of E c w'"
  obtain t where t: "trace_of w (ro_scope c) (ro_trace_id c) = Some t" "check_attribution c t w = Inr ()"
    and v: "strip (ro_key_id c) \<noteq> []" "0 < ro_weight c" "ro_weight c \<le> 10"
    and app: "apply_outcome (e_sha E) ?v (rt_context t) (counted w) =
       (Inr (or_outcome x, or_utility x, \<not> or_idempotent_replay x), w')"
    and nts: "or_idempotent_replay x \<Longrightarrow> oc_note (or_outcome x) = normalize_note (ro_note c)"
    using run [unfolded record_outcome_iff] by blast
  have ex: "experience_ok (counted w)" using world_okD(3) [OF ok] by (rule experience_counted)
  have pos: "0 < oc_weight ?v" using v by (simp add: event_of_def)
  have key: "(oc_scope ?v', oc_idempotency_key ?v') = (oc_scope ?v, oc_idempotency_key ?v)"
    by (simp add: event_of_def)
  have stored: "outcome_by_key w' (oc_scope ?v', oc_idempotency_key ?v') = Some (or_outcome x) \<and>
      same_outcome (or_outcome x) ?v' \<and> s_traces w' = s_traces w \<and> s_usages w' = s_usages w"
  proof (cases "outcome_by_key (counted w) (oc_scope ?v, oc_idempotency_key ?v)")
    case None
    then have no: "map_of (s_outcome_keys (counted w)) (oc_scope ?v, oc_idempotency_key ?v) = None"
      using ex indexed_None [of oc_id "\<lambda>u. (oc_scope u, oc_idempotency_key u)"]
      unfolding outcome_by_key_def experience_ok_def by blast
    obtain u where "apply_outcome (e_sha E) ?v (rt_context t) (counted w) =
        (Inr (?v, u, True), with_outcome (e_sha E) ?v (rt_context t) u (counted w))"
      by (rule apply_outcome_new [OF ex pos no]) blast
    then have "or_outcome x = ?v" "w' = with_outcome (e_sha E) ?v (rt_context t) u (counted w)"
      using app by simp_all
    then show ?thesis
      by (simp add: key with_outcome_def outcome_by_key_def indexed_def counted_fields)
         (simp add: same_outcome_def event_of_def)
  next
    case (Some y)
    then obtain i where i: "map_of (s_outcome_keys (counted w)) (oc_scope ?v, oc_idempotency_key ?v) = Some i"
      "map_of (s_outcomes (counted w)) i = Some y" by (auto simp: outcome_by_key_def indexed_Some)
    show ?thesis
    proof (cases "same_outcome y ?v")
      case True
      then have "or_outcome x = y" "w' = counted w"
        using apply_outcome_old(1) [OF ex i, of "e_sha E" "rt_context t"] app by auto
      then show ?thesis using Some True
        by (simp add: key counted_fields) (simp add: same_outcome_def event_of_def)
    next
      case False
      then obtain m where "apply_outcome (e_sha E) ?v (rt_context t) (counted w) = (Inl (ConflictError m), counted w)"
        using apply_outcome_old(2) [OF ex i] by blast
      then show ?thesis using app by simp
    qed
  qed
  have t': "trace_of w' (ro_scope c) (ro_trace_id c) = Some t" "check_attribution c t w' = Inr ()"
  proof -
    show "trace_of w' (ro_scope c) (ro_trace_id c) = Some t" using t stored by (simp add: trace_of_def)
    have "usage_of w' sc u = usage_of w sc u" for sc u using stored by (simp add: usage_of_def)
    then have "check_attribution c t w' = check_attribution c t w" unfolding check_attribution_def by (cases "ro_usage_id c") simp_all
    then show "check_attribution c t w' = Inr ()" using t by simp
  qed
  have "world_ok E w'" by (rule outcome_keeps [OF ok inj run])
  then have ex': "experience_ok (counted w')" by (intro experience_counted world_okD(3))
  obtain i where i: "map_of (s_outcome_keys (counted w')) (oc_scope ?v', oc_idempotency_key ?v') = Some i"
      "map_of (s_outcomes (counted w')) i = Some (or_outcome x)"
    using stored by (auto simp: outcome_by_key_def indexed_Some counted_fields)
  obtain u where "apply_outcome (e_sha E) ?v' (rt_context t) (counted w') = (Inr (or_outcome x, u, False), counted w')"
    using apply_outcome_old(1) [OF ex' i] stored by blast
  then show ?thesis
    using t' v stored by (intro exI [of _ u]) (simp add: record_outcome_iff same_outcome_def event_of_def)
qed

subsection \<open>Usage receipts\<close>

definition receipt_of :: "env \<Rightarrow> usage_command \<Rightarrow> world \<Rightarrow> memory_usage res" where
  "receipt_of E c w = mk_memory_usage (e_db E) (e_ids E (w_ids w)) (ru_scope c) (ru_trace_id c) (ru_algorithm c)
     (ru_budget c) (ru_source_sha c) (ru_delivered_sha c) (ru_revision_ids c) (ru_key_id c)
     (utc (ru_occurred_at c)) (utc (e_clock E (w_ticks w)))"

lemma record_usage_iff:
  "record_usage E c w = (Inr x, w') \<longleftrightarrow> (\<exists>t p us. trace_of w (ru_scope c) (ru_trace_id c) = Some t \<and>
     project E t (ru_algorithm c) (ru_budget c) = Inr p \<and>
     rcp_projection_sha256 p = lower (e_db E) (ru_source_sha c) \<and> ru_revision_ids c \<noteq> [] \<and>
     set (ru_revision_ids c) \<subseteq> set (source_revision_ids p) \<and> ru_occurred_at c \<le> e_clock E (w_ticks w) \<and>
     receipt_of E c w = Inr us \<and> save_usage us (counted w) = (Inr (ur_usage x, \<not> ur_idempotent_replay x), w'))"
  (is "?L \<longleftrightarrow> ?R")
proof
  show "?L \<Longrightarrow> ?R"
    by (auto simp: record_usage_def transaction_def pbind_def now_def new_id_def raise_if_def prog_defs
        receipt_of_def counted_eq split: option.splits sum.splits prod.splits if_splits)
  show "?R \<Longrightarrow> ?L"
    by (cases x) (auto simp: record_usage_def transaction_def pbind_def now_def new_id_def raise_if_def prog_defs
        receipt_of_def counted_eq)
qed

text \<open>A receipt of the same command at another moment differs in its id and recording time only.\<close>

lemma receipt_again:
  assumes "receipt_of E c w = Inr us"
  shows "receipt_of E c w' = Inr (us\<lparr>us_id := e_ids E (w_ids w'), us_recorded_at := e_clock E (w_ticks w')\<rparr>)"
  using assms by (auto simp: receipt_of_def mk_memory_usage_def res_simps)

lemma usage_twice:
  assumes ok: "world_ok E w" "traces_wf w" and inj: "ids_fresh E w" and E: "digests_ok E"
    and run: "record_usage E c w = (Inr x, w')" and clock: "e_clock E (w_ticks w) \<le> e_clock E (w_ticks w')"
  shows "record_usage E c w' = (Inr \<lparr>ur_usage = ur_usage x, ur_idempotent_replay = True\<rparr>, counted w')"
proof -
  obtain t p us where t: "trace_of w (ru_scope c) (ru_trace_id c) = Some t"
    and p: "project E t (ru_algorithm c) (ru_budget c) = Inr p"
      "rcp_projection_sha256 p = lower (e_db E) (ru_source_sha c)" "ru_revision_ids c \<noteq> []"
      "set (ru_revision_ids c) \<subseteq> set (source_revision_ids p)" "ru_occurred_at c \<le> e_clock E (w_ticks w)"
    and us: "receipt_of E c w = Inr us"
    and save: "save_usage us (counted w) = (Inr (ur_usage x, \<not> ur_idempotent_replay x), w')"
    using run [unfolded record_usage_iff] by blast
  let ?us = "us\<lparr>us_id := e_ids E (w_ids w'), us_recorded_at := e_clock E (w_ticks w')\<rparr>"
  have ex: "experience_ok (counted w)" using world_okD(3) [OF ok(1)] by (rule experience_counted)
  have stored: "usage_by_key w' (us_scope us, us_idempotency_key us) = Some (ur_usage x) \<and>
      same_usage (ur_usage x) us \<and> s_traces w' = s_traces w"
  proof (cases "usage_by_key (counted w) (us_scope us, us_idempotency_key us)")
    case None
    then have "map_of (s_usage_keys (counted w)) (us_scope us, us_idempotency_key us) = None"
      using ex indexed_None [of us_id "\<lambda>u. (us_scope u, us_idempotency_key u)"]
      unfolding usage_by_key_def experience_ok_def by blast
    from save_usage_new [OF this] have "ur_usage x = us" "w' = with_usage us (counted w)" using save by simp_all
    then show ?thesis
      by (simp add: with_usage_def usage_by_key_def indexed_def counted_fields same_usage_def)
  next
    case (Some y)
    then obtain i where i: "map_of (s_usage_keys (counted w)) (us_scope us, us_idempotency_key us) = Some i"
      "map_of (s_usages (counted w)) i = Some y" by (auto simp: usage_by_key_def indexed_Some)
    then show ?thesis using save save_usage_old [OF i] Some by (auto simp: counted_fields split: if_splits)
  qed
  have "trace_of w' (ru_scope c) (ru_trace_id c) = Some t" using t stored by (simp add: trace_of_def)
  moreover obtain i where i: "map_of (s_usage_keys (counted w')) (us_scope ?us, us_idempotency_key ?us) = Some i"
      "map_of (s_usages (counted w')) i = Some (ur_usage x)"
    using stored by (auto simp: usage_by_key_def indexed_Some counted_fields)
  have "save_usage ?us (counted w') = (Inr (ur_usage x, False), counted w')"
    using save_usage_old [OF i] stored by (simp add: same_usage_def)
  ultimately show ?thesis
    using p clock receipt_again [OF us, of w'] by (auto simp: record_usage_iff)
qed

subsection \<open>What a fresh outcome does\<close>

definition updated_utility :: "utility_estimate \<Rightarrow> outcome_command \<Rightarrow> utility_estimate" where
  "updated_utility u c = \<lparr>ut_revision_id = ut_revision_id u, ut_context_fingerprint = ut_context_fingerprint u,
     ut_positive_weight = fadd (ut_positive_weight u) (fmul (success_value (ro_kind c)) (ro_weight c)),
     ut_negative_weight = fadd (ut_negative_weight u) (fmul (fsub 1 (success_value (ro_kind c))) (ro_weight c)),
     ut_last_outcome_at = Some (case ut_last_outcome_at u of None \<Rightarrow> ro_occurred_at c
       | Some l \<Rightarrow> max l (ro_occurred_at c))\<rparr>"

lemma counted_lookup:
  "s_utilities (counted w) = s_utilities w"
  "utility_for sha (counted w) sc i ctx = utility_for sha w sc i ctx"
  by (simp_all add: counted_def utility_for_def)

lemma utility_of_stored:
  "map_of (s_utilities s) (sc, i, fingerprint sha ctx) = Some u \<Longrightarrow> utility_for sha s sc i ctx = Inr u"
  by (simp add: utility_for_def res_simps)

lemma outcome_fresh:
  assumes ok: "world_ok E w" and t: "trace_of w (ro_scope c) (ro_trace_id c) = Some t" "check_attribution c t w = Inr ()"
    and c: "strip (ro_key_id c) \<noteq> []" "0 < ro_weight c" "ro_weight c \<le> 10"
    and key: "map_of (s_outcome_keys w) (ro_scope c, strip (ro_key_id c)) = None"
    and u: "utility_for (e_sha E) w (ro_scope c) (ro_revision_id c) (rt_context t) = Inr u"
  shows "record_outcome E c w =
    (Inr \<lparr>or_outcome = event_of E c w, or_utility = updated_utility u c, or_idempotent_replay = False\<rparr>,
     with_outcome (e_sha E) (event_of E c w) (rt_context t) (updated_utility u c) (counted w))"
proof -
  have "utility_ok u" using u utility_for_ok [OF world_okD(3) [OF ok]] by (metis sum.inject(2))
  moreover have "in_unit (success_value (ro_kind c))"
    using success_value_cases [of "ro_kind c"] by (auto simp: in_unit_def)
  ultimately have "utility_updated u (success_value (ro_kind c)) (ro_weight c) (utc (ro_occurred_at c)) =
      Inr (updated_utility u c)"
    using utility_updated_Inr c(2) by (simp add: updated_utility_def)
  then have "apply_outcome (e_sha E) (event_of E c w) (rt_context t) (counted w) =
      (Inr (event_of E c w, updated_utility u c, True),
       with_outcome (e_sha E) (event_of E c w) (rt_context t) (updated_utility u c) (counted w))"
    using key u by (simp add: apply_outcome_def Let_def with_outcome_def counted_fields counted_lookup event_of_def)
  then show ?thesis using t c by (subst record_outcome_iff) auto
qed

end
