(* ===== verification/GovernanceStore.thy ===== *)
theory GovernanceStore
  imports GovernanceDomain World
begin

text \<open>
  \<open>adapters/in_memory_governance.py\<close>: processing grants, suppression fences and erasure requests, kept
  under pseudonyms of the scope.  The HMAC and its key are the configuration; each method holds the
  lock from start to end, and a processing context holds it while its body runs, so a check and the
  work it guards are one step.
\<close>

record governance_conf =
  gc_hmac :: "nat list \<Rightarrow> ustr \<Rightarrow> ustr"
  gc_key :: "nat list"

record governance =
  g_grants :: "(uuid, processing_grant) dict"
  g_grant_keys :: "(ustr \<times> ustr \<times> ustr, uuid) dict"
  g_fences :: "(ustr \<times> ustr, suppression_fence) dict"
  g_erasures :: "(uuid, erasure_request) dict"
  g_erasure_keys :: "(ustr \<times> ustr \<times> ustr, uuid) dict"

definition mk_governance :: "governance_conf \<Rightarrow> governance res" where
  "mk_governance K =
     rbind (raise_if (length (gc_key K) < 16)
       (ValueError ''governance HMAC key must contain at least 16 bytes'')) (\<lambda>_.
     Inr \<lparr>g_grants = [], g_grant_keys = [], g_fences = [], g_erasures = [], g_erasure_keys = []\<rparr>)"

subsection \<open>Pseudonyms\<close>

definition reference :: "governance_conf \<Rightarrow> string \<Rightarrow> ustr \<Rightarrow> ustr" where
  "reference K kind value = gc_hmac K (gc_key K) (uc kind @ uc '':'' @ value)"

definition scope_refs :: "governance_conf \<Rightarrow> scope \<Rightarrow> ustr \<times> ustr" where
  "scope_refs K sc = (reference K ''tenant'' (tenant_id sc),
     reference K ''subject'' (tenant_id sc @ [0] @ subject_id sc))"

definition scope_digest :: "governance_conf \<Rightarrow> scope \<Rightarrow> ustr" where
  "scope_digest K sc = reference K ''scope'' (tenant_id sc @ [0] @ subject_id sc)"

subsection \<open>Processing contexts\<close>

definition grant_permits :: "ustr \<times> ustr \<Rightarrow> ustr \<Rightarrow> instant \<Rightarrow> processing_grant \<Rightarrow> bool" where
  "grant_permits refs purpose t g \<longleftrightarrow> pg_tenant_ref g = fst refs \<and> pg_subject_ref g = snd refs \<and>
     purpose \<in> set (pg_purposes g) \<and> pg_revoked_at g = None \<and> pg_valid_from g \<le> t \<and>
     (case pg_valid_until g of None \<Rightarrow> True | Some u \<Rightarrow> t < u)"

definition fenced :: "governance_conf \<Rightarrow> governance \<Rightarrow> scope \<Rightarrow> bool" where
  "fenced K g sc \<longleftrightarrow> map_of (g_fences g) (scope_refs K sc) \<noteq> None"

definition processing_context ::
  "governance_conf \<Rightarrow> scope \<Rightarrow> ustr \<Rightarrow> instant \<Rightarrow> governance \<Rightarrow> unit res" where
  "processing_context K sc purpose t g =
     rbind (raise_if (fenced K g sc) (ProcessingDeniedError ''processing_suppressed'')) (\<lambda>_.
     raise_if (\<not> list_ex (grant_permits (scope_refs K sc) purpose t) (dict_values (g_grants g)))
       (ProcessingDeniedError ''processing_not_granted''))"

definition projection_context :: "governance_conf \<Rightarrow> scope \<Rightarrow> governance \<Rightarrow> unit res" where
  "projection_context K sc g =
     raise_if (fenced K g sc) (ProcessingDeniedError ''processing_suppressed'')"

text \<open>\<open>DevelopmentBypassPrivacyGovernance\<close> asks for no grant, but a fence still stops it.\<close>

definition bypass_processing_context ::
  "governance_conf \<Rightarrow> scope \<Rightarrow> ustr \<Rightarrow> instant \<Rightarrow> governance \<Rightarrow> unit res" where
  "bypass_processing_context K sc purpose t g =
     raise_if (fenced K g sc) (ProcessingDeniedError ''processing_suppressed'')"

subsection \<open>Grants\<close>

definition grant_business_values ::
  "processing_grant \<Rightarrow> ustr \<times> ustr \<times> ustr list \<times> ustr \<times> ustr \<times> instant \<times> instant option" where
  "grant_business_values g = (pg_tenant_ref g, pg_subject_ref g, pg_purposes g, pg_lawful_basis g,
     pg_policy_version g, pg_valid_from g, pg_valid_until g)"

definition issue_grant ::
  "governance_conf \<Rightarrow> uuid \<Rightarrow> scope \<Rightarrow> ustr list \<Rightarrow> ustr \<Rightarrow> ustr \<Rightarrow> ustr \<Rightarrow> ustr \<Rightarrow> py_datetime \<Rightarrow>
   py_datetime option \<Rightarrow> py_datetime \<Rightarrow> (governance, processing_grant) prog" where
  "issue_grant K grant_id sc purposes basis policy_version issued_by idempotency_key valid_from
     valid_until created_at =
     (let (tenant_ref, subject_ref) = scope_refs K sc in
     pbind (lift_res (mk_processing_grant grant_id tenant_ref subject_ref purposes basis policy_version
       (reference K ''principal'' issued_by) idempotency_key valid_from valid_until created_at None None)) (\<lambda>grant.
     let key = (tenant_ref, subject_ref, pg_idempotency_key grant) in
     pbind (gets (\<lambda>g. map_of (g_grant_keys g) key)) (\<lambda>existing_id.
     case existing_id of
       Some i \<Rightarrow>
         pbind (asks (\<lambda>g. dict_index (g_grants g) i)) (\<lambda>existing.
         pbind (lift_res (raise_if (grant_business_values existing \<noteq> grant_business_values grant)
           (ConflictError ''processing grant idempotency key was reused with different data''))) (\<lambda>_.
         return existing))
     | None \<Rightarrow>
         pbind (modify (\<lambda>g. g\<lparr>g_grants := dict_set (pg_id grant) grant (g_grants g),
           g_grant_keys := dict_set key (pg_id grant) (g_grant_keys g)\<rparr>)) (\<lambda>_.
         return grant))))"

text \<open>\<open>replace(current, revoked_at=..., revoked_by_ref=...)\<close> validates the grant again.\<close>

definition with_revocation :: "py_datetime \<Rightarrow> ustr \<Rightarrow> processing_grant \<Rightarrow> processing_grant res" where
  "with_revocation revoked_at revoked_by g =
     mk_processing_grant (pg_id g) (pg_tenant_ref g) (pg_subject_ref g) (pg_purposes g)
       (pg_lawful_basis g) (pg_policy_version g) (pg_issued_by_ref g) (pg_idempotency_key g)
       (utc (pg_valid_from g)) (map_option utc (pg_valid_until g)) (utc (pg_created_at g))
       (Some revoked_at) (Some revoked_by)"

definition revoke_grant ::
  "governance_conf \<Rightarrow> scope \<Rightarrow> uuid \<Rightarrow> ustr \<Rightarrow> py_datetime \<Rightarrow> (governance, processing_grant) prog" where
  "revoke_grant K sc grant_id revoked_by revoked_at =
     pbind (gets (\<lambda>g. map_of (g_grants g) grant_id)) (\<lambda>current.
     case current of
       None \<Rightarrow> throw (NotFoundError ''processing grant not found in scope'')
     | Some c \<Rightarrow>
         pbind (lift_res (raise_if ((pg_tenant_ref c, pg_subject_ref c) \<noteq> scope_refs K sc)
           (NotFoundError ''processing grant not found in scope''))) (\<lambda>_.
         if pg_revoked_at c \<noteq> None then return c
         else pbind (lift_res (with_revocation revoked_at (reference K ''principal'' revoked_by) c)) (\<lambda>revoked.
           pbind (modify (g_grants_update (dict_set grant_id revoked))) (\<lambda>_.
           return revoked))))"

subsection \<open>Fences\<close>

definition suppress_scope ::
  "governance_conf \<Rightarrow> uuid \<Rightarrow> scope \<Rightarrow> ustr \<Rightarrow> ustr \<Rightarrow> ustr \<Rightarrow> ustr \<Rightarrow> py_datetime \<Rightarrow>
   (governance, suppression_fence) prog" where
  "suppress_scope K fence_id sc reason_code policy_version requested_by idempotency_key created_at =
     (let refs = scope_refs K sc in
     pbind (lift_res (mk_suppression_fence fence_id (fst refs) (snd refs) reason_code policy_version
       (reference K ''principal'' requested_by) idempotency_key created_at)) (\<lambda>fence.
     pbind (gets (\<lambda>g. map_of (g_fences g) refs)) (\<lambda>existing.
     case existing of
       Some e \<Rightarrow> return e
     | None \<Rightarrow> pbind (modify (g_fences_update (dict_set refs fence))) (\<lambda>_. return fence))))"

subsection \<open>Erasure requests\<close>

definition begin_erasure ::
  "governance_conf \<Rightarrow> uuid \<Rightarrow> uuid \<Rightarrow> scope \<Rightarrow> ustr \<Rightarrow> ustr \<Rightarrow> ustr \<Rightarrow> ustr \<Rightarrow> py_datetime \<Rightarrow>
   (governance, erasure_request) prog" where
  "begin_erasure K request_id fence_id sc reason_code policy_version requested_by idempotency_key
     created_at =
     (let refs = scope_refs K sc; key = (fst refs, snd refs, idempotency_key) in
     pbind (gets (\<lambda>g. map_of (g_erasure_keys g) key)) (\<lambda>existing_id.
     case existing_id of
       Some i \<Rightarrow>
         pbind (asks (\<lambda>g. dict_index (g_erasures g) i)) (\<lambda>existing.
         pbind (lift_res (raise_if (er_reason_code existing \<noteq> reason_code \<or>
             er_policy_version existing \<noteq> policy_version)
           (ConflictError ''erasure idempotency key was reused with different data''))) (\<lambda>_.
         return existing))
     | None \<Rightarrow>
         pbind (suppress_scope K fence_id sc reason_code policy_version requested_by
           (uc ''erasure:'' @ idempotency_key) created_at) (\<lambda>_.
         pbind (lift_res (mk_erasure_request request_id (fst refs) (snd refs) (scope_digest K sc)
           reason_code policy_version (reference K ''principal'' requested_by) idempotency_key
           ES_PENDING created_at None None [] None)) (\<lambda>request.
         pbind (modify (\<lambda>g. g\<lparr>g_erasures := dict_set (er_id request) request (g_erasures g),
           g_erasure_keys := dict_set key (er_id request) (g_erasure_keys g)\<rparr>)) (\<lambda>_.
         return request)))))"

definition erasure_of :: "governance_conf \<Rightarrow> scope \<Rightarrow> uuid \<Rightarrow> governance \<Rightarrow> erasure_request option" where
  "erasure_of K sc request_id g =
     (case map_of (g_erasures g) request_id of
        None \<Rightarrow> None
      | Some r \<Rightarrow> if (er_tenant_ref r, er_subject_ref r) = scope_refs K sc then Some r else None)"

definition erasure_in_scope :: "governance_conf \<Rightarrow> scope \<Rightarrow> uuid \<Rightarrow> governance \<Rightarrow> erasure_request res" where
  "erasure_in_scope K sc request_id g =
     (case erasure_of K sc request_id g of
        None \<Rightarrow> Inl (NotFoundError ''erasure request not found in scope'')
      | Some r \<Rightarrow> Inr r)"

definition with_completion ::
  "py_datetime \<Rightarrow> erasure_summary \<Rightarrow> (ustr \<times> ustr) list \<Rightarrow> erasure_request \<Rightarrow> erasure_request res" where
  "with_completion completed_at summary results r =
     mk_erasure_request (er_id r) (er_tenant_ref r) (er_subject_ref r) (er_scope_digest r)
       (er_reason_code r) (er_policy_version r) (er_requested_by_ref r) (er_idempotency_key r)
       ES_COMPLETED (utc (er_created_at r)) (Some completed_at) (Some summary) results None"

definition complete_erasure ::
  "governance_conf \<Rightarrow> scope \<Rightarrow> uuid \<Rightarrow> erasure_summary \<Rightarrow> (ustr \<times> ustr) list \<Rightarrow> py_datetime \<Rightarrow>
   (governance, erasure_request) prog" where
  "complete_erasure K sc request_id summary results completed_at =
     pbind (asks (erasure_in_scope K sc request_id)) (\<lambda>current.
     if er_status current = ES_COMPLETED then return current
     else pbind (lift_res (with_completion completed_at summary results current)) (\<lambda>completed.
       pbind (modify (g_erasures_update (dict_set request_id completed))) (\<lambda>_.
       return completed)))"

definition with_failure :: "ustr \<Rightarrow> erasure_request \<Rightarrow> erasure_request res" where
  "with_failure error_code r =
     mk_erasure_request (er_id r) (er_tenant_ref r) (er_subject_ref r) (er_scope_digest r)
       (er_reason_code r) (er_policy_version r) (er_requested_by_ref r) (er_idempotency_key r)
       ES_PENDING (utc (er_created_at r)) (map_option utc (er_completed_at r)) (er_summary r)
       (er_handler_results r) (Some error_code)"

definition fail_erasure ::
  "governance_conf \<Rightarrow> scope \<Rightarrow> uuid \<Rightarrow> ustr \<Rightarrow> (governance, erasure_request) prog" where
  "fail_erasure K sc request_id error_code =
     pbind (asks (erasure_in_scope K sc request_id)) (\<lambda>current.
     if er_status current = ES_COMPLETED then return current
     else pbind (lift_res (with_failure error_code current)) (\<lambda>pending.
       pbind (modify (g_erasures_update (dict_set request_id pending))) (\<lambda>_.
       return pending)))"

end
