(* ===== verification/GovernanceApp.thy ===== *)
theory GovernanceApp
  imports GovernanceStore Service
begin

text \<open>
  \<open>application/governance.py\<close>: the privacy workflow next to the memory application.  The state of the
  process, a \<open>node\<close>, is the governance store, the world of the memory application (the id generator
  and the clock are shared) and the authorization decisions recorded so far.
\<close>

record node =
  nd_gov :: governance
  nd_world :: world

definition on_gov :: "(governance, 'a) prog \<Rightarrow> ('z node_scheme, 'a) prog" where
  "on_gov m = (\<lambda>s. case m (nd_gov s) of (r, g) \<Rightarrow> (r, s\<lparr>nd_gov := g\<rparr>))"

definition on_world :: "(world, 'a) prog \<Rightarrow> ('z node_scheme, 'a) prog" where
  "on_world m = (\<lambda>s. case m (nd_world s) of (r, w) \<Rightarrow> (r, s\<lparr>nd_world := w\<rparr>))"

lemma on_world_eval: "m (nd_world s) = (r, w) \<Longrightarrow> on_world m s = (r, s\<lparr>nd_world := w\<rparr>)"
  by (simp add: on_world_def)

lemma pbind_on_world_now [simp]:
  "pbind (on_world (now E)) f s =
     f (e_clock E (w_ticks (nd_world s))) (s\<lparr>nd_world := (nd_world s)\<lparr>w_ticks := Suc (w_ticks (nd_world s))\<rparr>\<rparr>)"
  by (simp add: pbind_def on_world_def now_def)

lemma pbind_on_world_new_id [simp]:
  "pbind (on_world (new_id E)) f s =
     f (e_ids E (w_ids (nd_world s))) (s\<lparr>nd_world := (nd_world s)\<lparr>w_ids := Suc (w_ids (nd_world s))\<rparr>\<rparr>)"
  by (simp add: pbind_def on_world_def new_id_def)

subsection \<open>Commands\<close>

record issue_command =
  ig_scope :: scope
  ig_purposes :: "ustr list"
  ig_lawful_basis :: ustr
  ig_idempotency_key :: ustr
  ig_valid_from :: instant
  ig_valid_until :: "instant option"

definition mk_issue_command ::
  "scope \<Rightarrow> ustr list \<Rightarrow> ustr \<Rightarrow> ustr \<Rightarrow> py_datetime \<Rightarrow> py_datetime option \<Rightarrow> issue_command res" where
  "mk_issue_command sc purposes basis key valid_from valid_until =
     rbind (require_text basis ''lawful_basis'') (\<lambda>basis'.
     rbind (require_text key ''idempotency_key'') (\<lambda>key'.
     rbind (require_utc valid_from ''valid_from'') (\<lambda>valid_from'.
     rbind (canonical_purposes purposes) (\<lambda>purposes'.
     rbind (raise_if (purposes' = [] \<or> uc ''*'' \<in> set purposes')
       (DomainError ''processing grant purposes must be explicit'')) (\<lambda>_.
     rbind (case valid_until of None \<Rightarrow> Inr None
       | Some v \<Rightarrow> rbind (require_utc v ''valid_until'') (\<lambda>until.
           rbind (raise_if (until \<le> valid_from')
             (DomainError ''valid_until must be later than valid_from'')) (\<lambda>_. Inr (Some until)))) (\<lambda>until'.
     Inr \<lparr>ig_scope = sc, ig_purposes = purposes', ig_lawful_basis = basis', ig_idempotency_key = key',
       ig_valid_from = valid_from', ig_valid_until = until'\<rparr>))))))"

record revoke_command =
  rg_scope :: scope
  rg_grant_id :: uuid

record suppress_command =
  sp_scope :: scope
  sp_reason_code :: ustr
  sp_idempotency_key :: ustr

definition mk_suppress_command :: "scope \<Rightarrow> ustr \<Rightarrow> ustr \<Rightarrow> suppress_command res" where
  "mk_suppress_command sc reason key =
     rbind (require_text reason ''reason_code'') (\<lambda>reason'.
     rbind (require_text key ''idempotency_key'') (\<lambda>key'.
     Inr \<lparr>sp_scope = sc, sp_reason_code = reason', sp_idempotency_key = key'\<rparr>))"

record erase_command =
  es_scope :: scope
  es_reason_code :: ustr
  es_idempotency_key :: ustr

definition mk_erase_command :: "scope \<Rightarrow> ustr \<Rightarrow> ustr \<Rightarrow> erase_command res" where
  "mk_erase_command sc reason key =
     rbind (require_text reason ''reason_code'') (\<lambda>reason'.
     rbind (require_text key ''idempotency_key'') (\<lambda>key'.
     Inr \<lparr>es_scope = sc, es_reason_code = reason', es_idempotency_key = key'\<rparr>))"

subsection \<open>The privacy application\<close>

record privacy =
  pv_conf :: governance_conf
  pv_service :: service
  pv_policy_version :: ustr

definition mk_privacy :: "governance_conf \<Rightarrow> service \<Rightarrow> ustr \<Rightarrow> privacy res" where
  "mk_privacy K sv policy_version =
     rbind (require_text policy_version ''policy_version'') (\<lambda>version.
     Inr \<lparr>pv_conf = K, pv_service = sv, pv_policy_version = version\<rparr>)"

definition issue_processing_grant ::
  "env \<Rightarrow> privacy \<Rightarrow> issue_command \<Rightarrow> ustr \<Rightarrow> ('z node_scheme, processing_grant) prog" where
  "issue_processing_grant E P c issued_by =
     pbind (on_world (now E)) (\<lambda>n.
     pbind (on_world (new_id E)) (\<lambda>i.
     on_gov (issue_grant (pv_conf P) i (ig_scope c) (ig_purposes c) (ig_lawful_basis c)
       (pv_policy_version P) issued_by (ig_idempotency_key c) (utc (ig_valid_from c))
       (map_option utc (ig_valid_until c)) (utc n))))"

definition revoke_processing_grant ::
  "env \<Rightarrow> privacy \<Rightarrow> revoke_command \<Rightarrow> ustr \<Rightarrow> ('z node_scheme, processing_grant) prog" where
  "revoke_processing_grant E P c revoked_by =
     pbind (on_world (now E)) (\<lambda>n.
     on_gov (revoke_grant (pv_conf P) (rg_scope c) (rg_grant_id c) revoked_by (utc n)))"

definition suppress ::
  "env \<Rightarrow> privacy \<Rightarrow> suppress_command \<Rightarrow> ustr \<Rightarrow> ('z node_scheme, suppression_fence) prog" where
  "suppress E P c requested_by =
     pbind (on_world (new_id E)) (\<lambda>i.
     pbind (on_world (now E)) (\<lambda>n.
     on_gov (suppress_scope (pv_conf P) i (sp_scope c) (sp_reason_code c) (pv_policy_version P)
       requested_by (sp_idempotency_key c) (utc n))))"

definition handler_report :: "string \<Rightarrow> (ustr \<times> ustr) list" where
  "handler_report projection_result =
     [(uc ''authority'', uc ''completed''), (uc ''outbox'', uc ''completed''),
      (uc ''projection'', uc projection_result)]"

definition run_erasure ::
  "env \<Rightarrow> privacy \<Rightarrow> erase_command \<Rightarrow> erasure_request \<Rightarrow> ('z node_scheme, erasure_request) prog" where
  "run_erasure E P c request =
     pbind (on_world (service_erase_scope (pv_service P) (es_scope c))) (\<lambda>summary.
     pbind (gets (\<lambda>s. if projection_status (pv_service P) (nd_world s) = ''disabled''
       then ''not_applicable'' else ''completed'')) (\<lambda>projection_result.
     pbind (on_world (now E)) (\<lambda>n.
     on_gov (complete_erasure (pv_conf P) (es_scope c) (er_id request) summary
       (handler_report projection_result) (utc n)))))"

definition erase ::
  "env \<Rightarrow> privacy \<Rightarrow> erase_command \<Rightarrow> ustr \<Rightarrow> ('z node_scheme, erasure_request) prog" where
  "erase E P c requested_by =
     pbind (on_world (now E)) (\<lambda>n.
     pbind (on_world (new_id E)) (\<lambda>request_id.
     pbind (on_world (new_id E)) (\<lambda>fence_id.
     pbind (on_gov (begin_erasure (pv_conf P) request_id fence_id (es_scope c) (es_reason_code c)
       (pv_policy_version P) requested_by (es_idempotency_key c) (utc n))) (\<lambda>request.
     if er_status request = ES_COMPLETED then return request
     else catch (run_erasure E P c request) (\<lambda>e.
       pbind (on_gov (fail_erasure (pv_conf P) (es_scope c) (er_id request) (uc (error_name e)))) (\<lambda>_.
       throw (GovernanceUnavailableError
         ''erasure remains pending because a required handler failed'')))))))"

definition erasure :: "privacy \<Rightarrow> scope \<Rightarrow> uuid \<Rightarrow> ('z node_scheme, erasure_request) prog" where
  "erasure P sc request_id =
     pbind (gets (\<lambda>s. erasure_of (pv_conf P) sc request_id (nd_gov s))) (\<lambda>found.
     case found of
       None \<Rightarrow> throw (NotFoundError ''erasure request not found in scope'')
     | Some r \<Rightarrow> return r)"

end
