(* ===== verification/Schemas.thy ===== *)
theory Schemas
  imports GovernanceApp
begin

text \<open>
  \<open>api/schemas.py\<close>: the bodies of the HTTP interface.  A request starts from the typed values Pydantic
  read from JSON; the constraints of the fields are applied here, with Pydantic's trimming of white space
  as the argument \<open>trim\<close>.  A violated constraint gives None.  A response is built from a result of the
  application.
\<close>

subsection \<open>Constraints\<close>

definition max_scope_id_length :: nat where "max_scope_id_length = 128"
definition max_source_length :: nat where "max_source_length = 128"
definition max_idempotency_key_length :: nat where "max_idempotency_key_length = 256"
definition max_memory_key_length :: nat where "max_memory_key_length = 256"
definition max_memory_value_length :: nat where "max_memory_value_length = 4096"
definition max_evidence_text_length :: nat where "max_evidence_text_length = 16384"
definition max_context_facets :: nat where "max_context_facets = 32"
definition max_context_key_length :: nat where "max_context_key_length = 128"
definition max_context_value_length :: nat where "max_context_value_length = 512"
definition max_reason_length :: nat where "max_reason_length = 2048"
definition max_query_length :: nat where "max_query_length = 4096"
definition max_note_length :: nat where "max_note_length = 4096"
definition max_purpose_length :: nat where "max_purpose_length = 128"
definition max_policy_code_length :: nat where "max_policy_code_length = 128"

lemmas max_lengths = max_scope_id_length_def max_source_length_def max_idempotency_key_length_def
  max_memory_key_length_def max_memory_value_length_def max_evidence_text_length_def max_context_facets_def
  max_context_key_length_def max_context_value_length_def max_reason_length_def max_query_length_def
  max_note_length_def max_purpose_length_def max_policy_code_length_def

definition sized :: "nat \<Rightarrow> nat \<Rightarrow> ustr \<Rightarrow> ustr option" where
  "sized lo hi s = (if lo \<le> length s \<and> length s \<le> hi then Some s else None)"

definition text_field :: "(ustr \<Rightarrow> ustr) \<Rightarrow> nat \<Rightarrow> ustr \<Rightarrow> ustr option" where
  "text_field trim hi s = sized 1 hi (trim s)"

definition note_field :: "(ustr \<Rightarrow> ustr) \<Rightarrow> ustr option \<Rightarrow> ustr option option" where
  "note_field trim note =
     (case note of None \<Rightarrow> Some None | Some s \<Rightarrow> map_option Some (sized 0 max_note_length (trim s)))"

definition facet_field :: "ustr \<times> ustr \<Rightarrow> bool" where
  "facet_field = (\<lambda>(k, v). sized 1 max_context_key_length k \<noteq> None \<and> sized 1 max_context_value_length v \<noteq> None)"

definition context_field :: "(ustr \<times> ustr) list \<Rightarrow> (ustr \<times> ustr) list option" where
  "context_field fs = (if list_all facet_field fs \<and> length fs \<le> max_context_facets then Some fs else None)"

definition digest_field :: "(ustr \<Rightarrow> ustr) \<Rightarrow> ustr \<Rightarrow> ustr option" where
  "digest_field trim s =
     (let t = trim s in if length t = 64 \<and> list_all is_hex t then Some t else None)"

definition confidence_field :: "pyfloat \<Rightarrow> pyfloat option" where
  "confidence_field x = (if 0 \<le> x \<and> x \<le> 1 then Some x else None)"

definition weight_field :: "pyfloat \<Rightarrow> pyfloat option" where
  "weight_field x = (if 0 < x \<and> x \<le> 10 then Some x else None)"

definition int_field :: "int \<Rightarrow> int \<Rightarrow> int \<Rightarrow> int option" where
  "int_field lo hi n = (if lo \<le> n \<and> n \<le> hi then Some n else None)"

definition list_field :: "nat \<Rightarrow> nat \<Rightarrow> 'a list \<Rightarrow> 'a list option" where
  "list_field lo hi xs = (if lo \<le> length xs \<and> length xs \<le> hi then Some xs else None)"

text \<open>Every item of a list, None when one violates its constraint.\<close>

fun each_item :: "('a \<Rightarrow> 'b option) \<Rightarrow> 'a list \<Rightarrow> 'b list option" where
  "each_item f [] = Some []"
| "each_item f (x # xs) =
     (case f x of None \<Rightarrow> None | Some y \<Rightarrow> map_option (\<lambda>ys. y # ys) (each_item f xs))"

subsection \<open>Requests\<close>

record preference_write =
  pw_tenant_id :: ustr
  pw_subject_id :: ustr
  pw_source :: ustr
  pw_idempotency_key :: ustr
  pw_key :: ustr
  pw_value :: ustr
  pw_context :: "(ustr \<times> ustr) list"
  pw_evidence_text :: ustr
  pw_confidence :: pyfloat
  pw_purpose :: ustr
  pw_occurred_at :: "py_datetime option"

definition valid_preference_write :: "(ustr \<Rightarrow> ustr) \<Rightarrow> preference_write \<Rightarrow> preference_write option" where
  "valid_preference_write trim p =
     Option.bind (text_field trim max_scope_id_length (pw_tenant_id p)) (\<lambda>tenant.
     Option.bind (text_field trim max_scope_id_length (pw_subject_id p)) (\<lambda>subject.
     Option.bind (text_field trim max_source_length (pw_source p)) (\<lambda>source.
     Option.bind (text_field trim max_idempotency_key_length (pw_idempotency_key p)) (\<lambda>idempotency_key.
     Option.bind (text_field trim max_memory_key_length (pw_key p)) (\<lambda>key.
     Option.bind (text_field trim max_memory_value_length (pw_value p)) (\<lambda>value.
     Option.bind (context_field (pw_context p)) (\<lambda>ctx.
     Option.bind (text_field trim max_evidence_text_length (pw_evidence_text p)) (\<lambda>evidence_text.
     Option.bind (confidence_field (pw_confidence p)) (\<lambda>confidence.
     Option.bind (text_field trim max_purpose_length (pw_purpose p)) (\<lambda>purpose.
     Some \<lparr>pw_tenant_id = tenant, pw_subject_id = subject, pw_source = source,
       pw_idempotency_key = idempotency_key, pw_key = key, pw_value = value, pw_context = ctx,
       pw_evidence_text = evidence_text, pw_confidence = confidence, pw_purpose = purpose,
       pw_occurred_at = pw_occurred_at p\<rparr>))))))))))"

record preference_correction =
  pc_tenant_id :: ustr
  pc_subject_id :: ustr
  pc_source :: ustr
  pc_idempotency_key :: ustr
  pc_value :: ustr
  pc_evidence_text :: ustr
  pc_reason :: ustr
  pc_purpose :: ustr
  pc_occurred_at :: "py_datetime option"
  pc_expected_revision_id :: "uuid option"

definition valid_preference_correction ::
  "(ustr \<Rightarrow> ustr) \<Rightarrow> preference_correction \<Rightarrow> preference_correction option" where
  "valid_preference_correction trim p =
     Option.bind (text_field trim max_scope_id_length (pc_tenant_id p)) (\<lambda>tenant.
     Option.bind (text_field trim max_scope_id_length (pc_subject_id p)) (\<lambda>subject.
     Option.bind (text_field trim max_source_length (pc_source p)) (\<lambda>source.
     Option.bind (text_field trim max_idempotency_key_length (pc_idempotency_key p)) (\<lambda>idempotency_key.
     Option.bind (text_field trim max_memory_value_length (pc_value p)) (\<lambda>value.
     Option.bind (text_field trim max_evidence_text_length (pc_evidence_text p)) (\<lambda>evidence_text.
     Option.bind (text_field trim max_reason_length (pc_reason p)) (\<lambda>reason.
     Option.bind (text_field trim max_purpose_length (pc_purpose p)) (\<lambda>purpose.
     Some \<lparr>pc_tenant_id = tenant, pc_subject_id = subject, pc_source = source,
       pc_idempotency_key = idempotency_key, pc_value = value, pc_evidence_text = evidence_text,
       pc_reason = reason, pc_purpose = purpose, pc_occurred_at = pc_occurred_at p,
       pc_expected_revision_id = pc_expected_revision_id p\<rparr>))))))))"

record recall_request =
  rr_tenant_id :: ustr
  rr_subject_id :: ustr
  rr_query :: ustr
  rr_context :: "(ustr \<times> ustr) list"
  rr_limit :: int
  rr_valid_at :: "py_datetime option"
  rr_known_at :: "py_datetime option"
  rr_purpose :: ustr

definition valid_recall_request :: "(ustr \<Rightarrow> ustr) \<Rightarrow> recall_request \<Rightarrow> recall_request option" where
  "valid_recall_request trim p =
     Option.bind (text_field trim max_scope_id_length (rr_tenant_id p)) (\<lambda>tenant.
     Option.bind (text_field trim max_scope_id_length (rr_subject_id p)) (\<lambda>subject.
     Option.bind (text_field trim max_query_length (rr_query p)) (\<lambda>query.
     Option.bind (context_field (rr_context p)) (\<lambda>ctx.
     Option.bind (int_field 1 100 (rr_limit p)) (\<lambda>limit.
     Option.bind (text_field trim max_purpose_length (rr_purpose p)) (\<lambda>purpose.
     Some \<lparr>rr_tenant_id = tenant, rr_subject_id = subject, rr_query = query, rr_context = ctx,
       rr_limit = limit, rr_valid_at = rr_valid_at p, rr_known_at = rr_known_at p, rr_purpose = purpose\<rparr>))))))"

record context_projection_request =
  cq_tenant_id :: ustr
  cq_subject_id :: ustr
  cq_trace_id :: uuid
  cq_algorithm :: compression_algorithm
  cq_max_characters :: int
  cq_purpose :: ustr

definition valid_context_projection_request ::
  "(ustr \<Rightarrow> ustr) \<Rightarrow> context_projection_request \<Rightarrow> context_projection_request option" where
  "valid_context_projection_request trim p =
     Option.bind (text_field trim max_scope_id_length (cq_tenant_id p)) (\<lambda>tenant.
     Option.bind (text_field trim max_scope_id_length (cq_subject_id p)) (\<lambda>subject.
     Option.bind (int_field 64 100000 (cq_max_characters p)) (\<lambda>budget.
     Option.bind (text_field trim max_purpose_length (cq_purpose p)) (\<lambda>purpose.
     Some \<lparr>cq_tenant_id = tenant, cq_subject_id = subject, cq_trace_id = cq_trace_id p,
       cq_algorithm = cq_algorithm p, cq_max_characters = budget, cq_purpose = purpose\<rparr>))))"

record usage_write =
  uw_tenant_id :: ustr
  uw_subject_id :: ustr
  uw_trace_id :: uuid
  uw_algorithm :: compression_algorithm
  uw_max_characters :: int
  uw_source_projection_sha256 :: ustr
  uw_delivered_context_sha256 :: ustr
  uw_revision_ids :: "uuid list"
  uw_idempotency_key :: ustr
  uw_occurred_at :: "py_datetime option"
  uw_purpose :: ustr

definition valid_usage_write :: "(ustr \<Rightarrow> ustr) \<Rightarrow> usage_write \<Rightarrow> usage_write option" where
  "valid_usage_write trim p =
     Option.bind (text_field trim max_scope_id_length (uw_tenant_id p)) (\<lambda>tenant.
     Option.bind (text_field trim max_scope_id_length (uw_subject_id p)) (\<lambda>subject.
     Option.bind (int_field 64 100000 (uw_max_characters p)) (\<lambda>budget.
     Option.bind (digest_field trim (uw_source_projection_sha256 p)) (\<lambda>source_sha.
     Option.bind (digest_field trim (uw_delivered_context_sha256 p)) (\<lambda>delivered_sha.
     Option.bind (list_field 1 100 (uw_revision_ids p)) (\<lambda>revision_ids.
     Option.bind (text_field trim max_idempotency_key_length (uw_idempotency_key p)) (\<lambda>idempotency_key.
     Option.bind (text_field trim max_purpose_length (uw_purpose p)) (\<lambda>purpose.
     Some \<lparr>uw_tenant_id = tenant, uw_subject_id = subject, uw_trace_id = uw_trace_id p,
       uw_algorithm = uw_algorithm p, uw_max_characters = budget, uw_source_projection_sha256 = source_sha,
       uw_delivered_context_sha256 = delivered_sha, uw_revision_ids = revision_ids,
       uw_idempotency_key = idempotency_key, uw_occurred_at = uw_occurred_at p, uw_purpose = purpose\<rparr>))))))))"

record outcome_write =
  ow_tenant_id :: ustr
  ow_subject_id :: ustr
  ow_trace_id :: uuid
  ow_revision_id :: uuid
  ow_usage_id :: "uuid option"
  ow_kind :: outcome_kind
  ow_idempotency_key :: ustr
  ow_occurred_at :: "py_datetime option"
  ow_weight :: pyfloat
  ow_note :: "ustr option"
  ow_purpose :: ustr

definition valid_outcome_write :: "(ustr \<Rightarrow> ustr) \<Rightarrow> outcome_write \<Rightarrow> outcome_write option" where
  "valid_outcome_write trim p =
     Option.bind (text_field trim max_scope_id_length (ow_tenant_id p)) (\<lambda>tenant.
     Option.bind (text_field trim max_scope_id_length (ow_subject_id p)) (\<lambda>subject.
     Option.bind (text_field trim max_idempotency_key_length (ow_idempotency_key p)) (\<lambda>idempotency_key.
     Option.bind (weight_field (ow_weight p)) (\<lambda>weight.
     Option.bind (note_field trim (ow_note p)) (\<lambda>note.
     Option.bind (text_field trim max_purpose_length (ow_purpose p)) (\<lambda>purpose.
     Some \<lparr>ow_tenant_id = tenant, ow_subject_id = subject, ow_trace_id = ow_trace_id p,
       ow_revision_id = ow_revision_id p, ow_usage_id = ow_usage_id p, ow_kind = ow_kind p,
       ow_idempotency_key = idempotency_key, ow_occurred_at = ow_occurred_at p, ow_weight = weight,
       ow_note = note, ow_purpose = purpose\<rparr>))))))"

record grant_write =
  gw_tenant_id :: ustr
  gw_subject_id :: ustr
  gw_purposes :: "ustr list"
  gw_lawful_basis :: ustr
  gw_idempotency_key :: ustr
  gw_valid_from :: py_datetime
  gw_valid_until :: "py_datetime option"
  gw_purpose :: ustr

definition valid_grant_write :: "(ustr \<Rightarrow> ustr) \<Rightarrow> grant_write \<Rightarrow> grant_write option" where
  "valid_grant_write trim p =
     Option.bind (text_field trim max_scope_id_length (gw_tenant_id p)) (\<lambda>tenant.
     Option.bind (text_field trim max_scope_id_length (gw_subject_id p)) (\<lambda>subject.
     Option.bind (list_field 1 16 (gw_purposes p)) (\<lambda>given.
     Option.bind (each_item (text_field trim max_purpose_length) given) (\<lambda>purposes.
     Option.bind (text_field trim max_policy_code_length (gw_lawful_basis p)) (\<lambda>basis.
     Option.bind (text_field trim max_idempotency_key_length (gw_idempotency_key p)) (\<lambda>idempotency_key.
     Option.bind (text_field trim max_purpose_length (gw_purpose p)) (\<lambda>purpose.
     Some \<lparr>gw_tenant_id = tenant, gw_subject_id = subject, gw_purposes = purposes, gw_lawful_basis = basis,
       gw_idempotency_key = idempotency_key, gw_valid_from = gw_valid_from p,
       gw_valid_until = gw_valid_until p, gw_purpose = purpose\<rparr>)))))))"

record grant_revocation =
  gx_tenant_id :: ustr
  gx_subject_id :: ustr
  gx_purpose :: ustr

definition valid_grant_revocation :: "(ustr \<Rightarrow> ustr) \<Rightarrow> grant_revocation \<Rightarrow> grant_revocation option" where
  "valid_grant_revocation trim p =
     Option.bind (text_field trim max_scope_id_length (gx_tenant_id p)) (\<lambda>tenant.
     Option.bind (text_field trim max_scope_id_length (gx_subject_id p)) (\<lambda>subject.
     Option.bind (text_field trim max_purpose_length (gx_purpose p)) (\<lambda>purpose.
     Some \<lparr>gx_tenant_id = tenant, gx_subject_id = subject, gx_purpose = purpose\<rparr>)))"

text \<open>\<open>SuppressionRequest\<close> and \<open>ErasureWriteRequest\<close> have the same fields.\<close>

record closing_write =
  cw_tenant_id :: ustr
  cw_subject_id :: ustr
  cw_reason_code :: ustr
  cw_idempotency_key :: ustr
  cw_purpose :: ustr

definition valid_closing_write :: "(ustr \<Rightarrow> ustr) \<Rightarrow> closing_write \<Rightarrow> closing_write option" where
  "valid_closing_write trim p =
     Option.bind (text_field trim max_scope_id_length (cw_tenant_id p)) (\<lambda>tenant.
     Option.bind (text_field trim max_scope_id_length (cw_subject_id p)) (\<lambda>subject.
     Option.bind (text_field trim max_policy_code_length (cw_reason_code p)) (\<lambda>reason_code.
     Option.bind (text_field trim max_idempotency_key_length (cw_idempotency_key p)) (\<lambda>idempotency_key.
     Option.bind (text_field trim max_purpose_length (cw_purpose p)) (\<lambda>purpose.
     Some \<lparr>cw_tenant_id = tenant, cw_subject_id = subject, cw_reason_code = reason_code,
       cw_idempotency_key = idempotency_key, cw_purpose = purpose\<rparr>)))))"

text \<open>The query parameters of the reading endpoints, \<open>ScopeId\<close> and \<open>PurposeText\<close>.\<close>

record scope_query =
  sq_tenant_id :: ustr
  sq_subject_id :: ustr
  sq_purpose :: ustr

definition valid_scope_query :: "(ustr \<Rightarrow> ustr) \<Rightarrow> scope_query \<Rightarrow> scope_query option" where
  "valid_scope_query trim p =
     Option.bind (text_field trim max_scope_id_length (sq_tenant_id p)) (\<lambda>tenant.
     Option.bind (text_field trim max_scope_id_length (sq_subject_id p)) (\<lambda>subject.
     Option.bind (text_field trim max_purpose_length (sq_purpose p)) (\<lambda>purpose.
     Some \<lparr>sq_tenant_id = tenant, sq_subject_id = subject, sq_purpose = purpose\<rparr>)))"

end
