(* ===== verification/Responses.thy ===== *)
theory Responses
  imports Schemas
begin

text \<open>
  \<open>api/schemas.py\<close>, continued: the bodies of the responses and how they are built from the results of
  the application.
\<close>

record preference_response =
  rp_observation_id :: uuid
  rp_candidate_id :: uuid
  rp_record_id :: uuid
  rp_revision_id :: uuid
  rp_sequence :: int
  rp_replay :: bool

definition preference_response_of :: "preference_result \<Rightarrow> preference_response" where
  "preference_response_of r =
     \<lparr>rp_observation_id = pr_observation_id r, rp_candidate_id = pr_candidate_id r,
      rp_record_id = pr_record_id r, rp_revision_id = pr_revision_id r, rp_sequence = pr_sequence r,
      rp_replay = pr_idempotent_replay r\<rparr>"

record preference_summary =
  ps_record_id :: uuid
  ps_revision_id :: uuid
  ps_sequence :: int
  ps_key :: ustr
  ps_value :: ustr
  ps_context :: "(ustr, ustr) dict"
  ps_confidence :: pyfloat
  ps_support_count :: int
  ps_evidence_count :: int
  ps_valid_from :: instant
  ps_recorded_at :: instant

definition preference_summary_of :: "memory_snapshot \<Rightarrow> preference_summary" where
  "preference_summary_of sn =
     \<lparr>ps_record_id = rec_id (snap_record sn), ps_revision_id = rev_id (snap_revision sn),
      ps_sequence = rev_sequence (snap_revision sn), ps_key = rec_key (snap_record sn),
      ps_value = rev_value (snap_revision sn), ps_context = as_dict (rec_context (snap_record sn)),
      ps_confidence = bs_confidence (rev_belief (snap_revision sn)),
      ps_support_count = bs_support_count (rev_belief (snap_revision sn)),
      ps_evidence_count = int (length (rev_evidence_ids (snap_revision sn))),
      ps_valid_from = rev_valid_from (snap_revision sn), ps_recorded_at = rev_recorded_at (snap_revision sn)\<rparr>"

text \<open>\<open>ScoreResponse\<close> has the fields of a score breakdown.\<close>

record recall_item_response =
  ri_record_id :: uuid
  ri_revision_id :: uuid
  ri_key :: ustr
  ri_value :: ustr
  ri_context :: "(ustr, ustr) dict"
  ri_valid_from :: instant
  ri_recorded_at :: instant
  ri_rank :: int
  ri_score :: pyfloat
  ri_breakdown :: score_breakdown
  ri_evidence_ids :: "uuid list"

definition recall_item_response_of :: "recalled_item \<Rightarrow> recall_item_response" where
  "recall_item_response_of i =
     \<lparr>ri_record_id = it_record_id i, ri_revision_id = it_revision_id i, ri_key = it_key i,
      ri_value = it_value i, ri_context = as_dict (it_context i), ri_valid_from = it_valid_from i,
      ri_recorded_at = it_recorded_at i, ri_rank = it_rank i, ri_score = it_score i,
      ri_breakdown = it_breakdown i, ri_evidence_ids = it_evidence_ids i\<rparr>"

record recall_response =
  rs_trace_id :: uuid
  rs_policy_id :: uuid
  rs_policy_version :: int
  rs_valid_at :: instant
  rs_known_at :: instant
  rs_created_at :: instant
  rs_items :: "recall_item_response list"

definition recall_response_of :: "recall_trace \<Rightarrow> recall_response" where
  "recall_response_of t =
     \<lparr>rs_trace_id = rt_id t, rs_policy_id = rt_policy_id t, rs_policy_version = rt_policy_version t,
      rs_valid_at = rt_valid_at t, rs_known_at = rt_known_at t, rs_created_at = rt_created_at t,
      rs_items = map recall_item_response_of (rt_items t)\<rparr>"

text \<open>The segments of a projection are answered as they are.\<close>

record context_projection_response =
  cx_trace_id :: uuid
  cx_policy_id :: uuid
  cx_policy_version :: int
  cx_algorithm :: compression_algorithm
  cx_algorithm_version :: int
  cx_max_characters :: int
  cx_valid_at :: instant
  cx_known_at :: instant
  cx_trace_created_at :: instant
  cx_content :: ustr
  cx_segments :: "projection_segment list"
  cx_source_revision_ids :: "uuid list"
  cx_source_item_count :: int
  cx_included_item_count :: int
  cx_omitted_item_count :: int
  cx_original_character_count :: int
  cx_projected_character_count :: int
  cx_compression_ratio :: pyfloat
  cx_configuration_sha256 :: ustr
  cx_source_sha256 :: ustr
  cx_projection_sha256 :: ustr

definition context_projection_response_of :: "recall_context_projection \<Rightarrow> context_projection_response" where
  "context_projection_response_of p =
     \<lparr>cx_trace_id = rcp_trace_id p, cx_policy_id = rcp_policy_id p, cx_policy_version = rcp_policy_version p,
      cx_algorithm = rcp_algorithm p, cx_algorithm_version = algorithm_version (rcp_algorithm p),
      cx_max_characters = rcp_budget_characters p, cx_valid_at = rcp_valid_at p, cx_known_at = rcp_known_at p,
      cx_trace_created_at = rcp_trace_created_at p, cx_content = rcp_content p, cx_segments = rcp_segments p,
      cx_source_revision_ids = source_revision_ids p, cx_source_item_count = rcp_source_item_count p,
      cx_included_item_count = included_item_count p, cx_omitted_item_count = rcp_omitted_item_count p,
      cx_original_character_count = rcp_original_character_count p,
      cx_projected_character_count = int (length (rcp_content p)), cx_compression_ratio = compression_ratio p,
      cx_configuration_sha256 = rcp_configuration_sha256 p, cx_source_sha256 = rcp_source_sha256 p,
      cx_projection_sha256 = rcp_projection_sha256 p\<rparr>"

record usage_response =
  uu_usage_id :: uuid
  uu_trace_id :: uuid
  uu_algorithm :: compression_algorithm
  uu_max_characters :: int
  uu_source_projection_sha256 :: ustr
  uu_delivered_context_sha256 :: ustr
  uu_revision_ids :: "uuid list"
  uu_occurred_at :: instant
  uu_recorded_at :: instant
  uu_replay :: bool

definition usage_response_of :: "usage_result \<Rightarrow> usage_response" where
  "usage_response_of r =
     \<lparr>uu_usage_id = us_id (ur_usage r), uu_trace_id = us_trace_id (ur_usage r),
      uu_algorithm = us_algorithm (ur_usage r), uu_max_characters = us_budget_characters (ur_usage r),
      uu_source_projection_sha256 = us_source_projection_sha256 (ur_usage r),
      uu_delivered_context_sha256 = us_delivered_context_sha256 (ur_usage r),
      uu_revision_ids = us_revision_ids (ur_usage r), uu_occurred_at = us_occurred_at (ur_usage r),
      uu_recorded_at = us_recorded_at (ur_usage r), uu_replay = ur_idempotent_replay r\<rparr>"

record utility_response =
  uy_revision_id :: uuid
  uy_context_fingerprint :: ustr
  uy_mean :: pyfloat
  uy_sample_weight :: pyfloat
  uy_positive_weight :: pyfloat
  uy_negative_weight :: pyfloat
  uy_last_outcome_at :: "instant option"

definition utility_response_of :: "utility_estimate \<Rightarrow> utility_response" where
  "utility_response_of u =
     \<lparr>uy_revision_id = ut_revision_id u, uy_context_fingerprint = ut_context_fingerprint u,
      uy_mean = utility_mean u, uy_sample_weight = sample_weight u, uy_positive_weight = ut_positive_weight u,
      uy_negative_weight = ut_negative_weight u, uy_last_outcome_at = ut_last_outcome_at u\<rparr>"

record outcome_response =
  oy_outcome_id :: uuid
  oy_replay :: bool
  oy_utility :: utility_response

definition outcome_response_of :: "outcome_result \<Rightarrow> outcome_response" where
  "outcome_response_of r =
     \<lparr>oy_outcome_id = oc_id (or_outcome r), oy_replay = or_idempotent_replay r,
      oy_utility = utility_response_of (or_utility r)\<rparr>"

record revision_response =
  rx_id :: uuid
  rx_sequence :: int
  rx_value :: ustr
  rx_confidence :: pyfloat
  rx_support_count :: int
  rx_contradiction_count :: int
  rx_evidence_ids :: "uuid list"
  rx_valid_from :: instant
  rx_recorded_at :: instant
  rx_supersedes :: "uuid option"

definition revision_response_of :: "memory_revision \<Rightarrow> revision_response" where
  "revision_response_of v =
     \<lparr>rx_id = rev_id v, rx_sequence = rev_sequence v, rx_value = rev_value v,
      rx_confidence = bs_confidence (rev_belief v), rx_support_count = bs_support_count (rev_belief v),
      rx_contradiction_count = bs_contradiction_count (rev_belief v), rx_evidence_ids = rev_evidence_ids v,
      rx_valid_from = rev_valid_from v, rx_recorded_at = rev_recorded_at v, rx_supersedes = rev_supersedes v\<rparr>"

record grant_response =
  gy_grant_id :: uuid
  gy_purposes :: "ustr list"
  gy_lawful_basis :: ustr
  gy_policy_version :: ustr
  gy_valid_from :: instant
  gy_valid_until :: "instant option"
  gy_created_at :: instant
  gy_revoked_at :: "instant option"

definition grant_response_of :: "processing_grant \<Rightarrow> grant_response" where
  "grant_response_of g =
     \<lparr>gy_grant_id = pg_id g, gy_purposes = pg_purposes g, gy_lawful_basis = pg_lawful_basis g,
      gy_policy_version = pg_policy_version g, gy_valid_from = pg_valid_from g,
      gy_valid_until = pg_valid_until g, gy_created_at = pg_created_at g, gy_revoked_at = pg_revoked_at g\<rparr>"

record suppression_response =
  sy_fence_id :: uuid
  sy_reason_code :: ustr
  sy_policy_version :: ustr
  sy_created_at :: instant

definition suppression_response_of :: "suppression_fence \<Rightarrow> suppression_response" where
  "suppression_response_of f =
     \<lparr>sy_fence_id = sf_id f, sy_reason_code = sf_reason_code f, sy_policy_version = sf_policy_version f,
      sy_created_at = sf_created_at f\<rparr>"

text \<open>The summary of an erasure is answered with its fields by name.\<close>

record erasure_response =
  ey_request_id :: uuid
  ey_scope_digest :: ustr
  ey_policy_version :: ustr
  ey_reason_code :: ustr
  ey_status :: erasure_status
  ey_created_at :: instant
  ey_completed_at :: "instant option"
  ey_summary :: "erasure_summary option"
  ey_handler_results :: "(ustr \<times> ustr) list"
  ey_error_code :: "ustr option"

definition erasure_response_of :: "erasure_request \<Rightarrow> erasure_response" where
  "erasure_response_of r =
     \<lparr>ey_request_id = er_id r, ey_scope_digest = er_scope_digest r, ey_policy_version = er_policy_version r,
      ey_reason_code = er_reason_code r, ey_status = er_status r, ey_created_at = er_created_at r,
      ey_completed_at = er_completed_at r, ey_summary = er_summary r,
      ey_handler_results = er_handler_results r, ey_error_code = er_error_code r\<rparr>"

record error_response =
  ex_error :: ustr
  ex_detail :: ustr
  ex_request_id :: "ustr option"

datatype body =
    PreferenceBody preference_response
  | SummariesBody "preference_summary list"
  | RevisionsBody "revision_response list"
  | RecallBody recall_response
  | ProjectionBody context_projection_response
  | UsageBody usage_response
  | OutcomeBody outcome_response
  | GrantBody grant_response
  | SuppressionBody suppression_response
  | ErasureBody erasure_response
  | ReadinessBody bool
  | ErrorBody error_response
  | ValidationErrors

end
