(* ===== verification/Security.thy ===== *)
theory Security
  imports Common World
begin

text \<open>
  \<open>application/security.py\<close> and the policy decision point of \<open>adapters/authorization.py\<close>: memory
  planes and actions, the grants an authenticated caller carries, requests, decisions and audit
  events, and the default-deny role policy.
\<close>

datatype principal_kind = USER | SERVICE

datatype memory_plane =
  P_EVIDENCE | P_BELIEF | P_EXPERIENCE | P_PROJECTION | P_EVOLUTION | P_GOVERNANCE

datatype memory_action =
    EVIDENCE_INGEST | EVIDENCE_READ_RAW | EVIDENCE_EXPORT
  | BELIEF_READ_CURRENT | BELIEF_READ_HISTORY | BELIEF_CORRECT
  | EXPERIENCE_TRACE_READ | EXPERIENCE_USAGE_WRITE | EXPERIENCE_OUTCOME_WRITE | EXPERIENCE_UTILITY_READ
  | PROJECTION_RECALL | PROJECTION_COMPRESS | PROJECTION_REBUILD
  | EVOLUTION_STRATEGY_PROPOSE | EVOLUTION_STRATEGY_PROMOTE | EVOLUTION_STRATEGY_ROLLBACK
  | GOVERNANCE_ROLE_MANAGE | GOVERNANCE_POLICY_MANAGE | GOVERNANCE_PRIVACY_SUPPRESS
  | GOVERNANCE_ERASURE_APPROVE | GOVERNANCE_AUDIT_READ | GOVERNANCE_OUTBOX_REPLAY

fun action_plane :: "memory_action \<Rightarrow> memory_plane" where
  "action_plane EVIDENCE_INGEST = P_EVIDENCE"
| "action_plane EVIDENCE_READ_RAW = P_EVIDENCE"
| "action_plane EVIDENCE_EXPORT = P_EVIDENCE"
| "action_plane BELIEF_READ_CURRENT = P_BELIEF"
| "action_plane BELIEF_READ_HISTORY = P_BELIEF"
| "action_plane BELIEF_CORRECT = P_BELIEF"
| "action_plane EXPERIENCE_TRACE_READ = P_EXPERIENCE"
| "action_plane EXPERIENCE_USAGE_WRITE = P_EXPERIENCE"
| "action_plane EXPERIENCE_OUTCOME_WRITE = P_EXPERIENCE"
| "action_plane EXPERIENCE_UTILITY_READ = P_EXPERIENCE"
| "action_plane PROJECTION_RECALL = P_PROJECTION"
| "action_plane PROJECTION_COMPRESS = P_PROJECTION"
| "action_plane PROJECTION_REBUILD = P_PROJECTION"
| "action_plane EVOLUTION_STRATEGY_PROPOSE = P_EVOLUTION"
| "action_plane EVOLUTION_STRATEGY_PROMOTE = P_EVOLUTION"
| "action_plane EVOLUTION_STRATEGY_ROLLBACK = P_EVOLUTION"
| "action_plane GOVERNANCE_ROLE_MANAGE = P_GOVERNANCE"
| "action_plane GOVERNANCE_POLICY_MANAGE = P_GOVERNANCE"
| "action_plane GOVERNANCE_PRIVACY_SUPPRESS = P_GOVERNANCE"
| "action_plane GOVERNANCE_ERASURE_APPROVE = P_GOVERNANCE"
| "action_plane GOVERNANCE_AUDIT_READ = P_GOVERNANCE"
| "action_plane GOVERNANCE_OUTBOX_REPLAY = P_GOVERNANCE"

subsection \<open>Callers and their grants\<close>

text \<open>\<open>tuple(sorted({require_text(value, field) for value in values}))\<close>, which must not be empty.\<close>

definition normalized_values :: "ustr list \<Rightarrow> string \<Rightarrow> ustr list res" where
  "normalized_values values field =
     rbind (rmap (\<lambda>v. require_text v field) values) (\<lambda>vs.
     let normalized = sort (remdups vs) in
     rbind (raise_if (normalized = []) (ValueError (field @ '' must not be empty''))) (\<lambda>_.
     Inr normalized))"

record access_grant =
  ag_tenant_id :: ustr
  ag_subject_ids :: "ustr list"
  ag_roles :: "ustr list"
  ag_purposes :: "ustr list"

definition mk_access_grant :: "ustr \<Rightarrow> ustr list \<Rightarrow> ustr list \<Rightarrow> ustr list \<Rightarrow> access_grant res" where
  "mk_access_grant tenant subjects roles purposes =
     rbind (require_text tenant ''tenant_id'') (\<lambda>tenant'.
     rbind (normalized_values subjects ''subject_ids'') (\<lambda>subjects'.
     rbind (normalized_values roles ''roles'') (\<lambda>roles'.
     rbind (normalized_values purposes ''purposes'') (\<lambda>purposes'.
     Inr \<lparr>ag_tenant_id = tenant', ag_subject_ids = subjects', ag_roles = roles',
       ag_purposes = purposes'\<rparr>))))"

definition star :: ustr where "star = uc ''*''"

definition in_tenant :: "scope \<Rightarrow> access_grant \<Rightarrow> bool" where
  "in_tenant sc g \<longleftrightarrow> ag_tenant_id g = star \<or> ag_tenant_id g = tenant_id sc"

definition covers :: "access_grant \<Rightarrow> scope \<Rightarrow> bool" where
  "covers g sc \<longleftrightarrow> (ag_tenant_id g = star \<or> ag_tenant_id g = tenant_id sc) \<and>
     (star \<in> set (ag_subject_ids g) \<or> subject_id sc \<in> set (ag_subject_ids g))"

definition permits_purpose :: "access_grant \<Rightarrow> ustr \<Rightarrow> bool" where
  "permits_purpose g purpose \<longleftrightarrow> star \<in> set (ag_purposes g) \<or> purpose \<in> set (ag_purposes g)"

record actor_context =
  ac_principal_id :: ustr
  ac_kind :: principal_kind
  ac_grants :: "access_grant list"
  ac_authentication_method :: ustr
  ac_client_id :: "ustr option"
  ac_token_id :: "ustr option"

definition mk_actor ::
  "ustr \<Rightarrow> principal_kind \<Rightarrow> access_grant list \<Rightarrow> ustr \<Rightarrow> ustr option \<Rightarrow> ustr option \<Rightarrow> actor_context res" where
  "mk_actor principal_id kind grants method client token =
     rbind (require_text principal_id ''principal_id'') (\<lambda>principal'.
     rbind (require_text method ''authentication_method'') (\<lambda>method'.
     rbind (raise_if (grants = []) (ValueError ''actor must contain at least one access grant'')) (\<lambda>_.
     rbind (ropt (\<lambda>c. require_text c ''client_id'') client) (\<lambda>client'.
     rbind (ropt (\<lambda>t. require_text t ''token_id'') token) (\<lambda>token'.
     Inr \<lparr>ac_principal_id = principal', ac_kind = kind, ac_grants = grants,
       ac_authentication_method = method', ac_client_id = client', ac_token_id = token'\<rparr>)))))"

record invocation_context =
  iv_actor :: actor_context
  iv_purpose :: ustr
  iv_request_id :: ustr

definition mk_invocation :: "actor_context \<Rightarrow> ustr \<Rightarrow> ustr \<Rightarrow> invocation_context res" where
  "mk_invocation actor purpose request_id =
     rbind (require_text purpose ''purpose'') (\<lambda>purpose'.
     rbind (require_text request_id ''request_id'') (\<lambda>request_id'.
     Inr \<lparr>iv_actor = actor, iv_purpose = purpose', iv_request_id = request_id'\<rparr>))"

subsection \<open>Requests, decisions and audit events\<close>

record protected_resource =
  re_scope :: scope
  re_plane :: memory_plane
  re_resource_id :: "ustr option"

definition mk_resource :: "scope \<Rightarrow> memory_plane \<Rightarrow> ustr option \<Rightarrow> protected_resource res" where
  "mk_resource sc plane resource_id =
     rbind (ropt (\<lambda>r. require_text r ''resource_id'') resource_id) (\<lambda>resource_id'.
     Inr \<lparr>re_scope = sc, re_plane = plane, re_resource_id = resource_id'\<rparr>)"

record authorization_request =
  aq_actor :: actor_context
  aq_action :: memory_action
  aq_resource :: protected_resource
  aq_purpose :: ustr

definition mk_authorization_request ::
  "actor_context \<Rightarrow> memory_action \<Rightarrow> protected_resource \<Rightarrow> ustr \<Rightarrow> authorization_request res" where
  "mk_authorization_request actor action resource purpose =
     rbind (require_text purpose ''purpose'') (\<lambda>purpose'.
     rbind (raise_if (action_plane action \<noteq> re_plane resource)
       (ValueError ''authorization action and resource plane do not match'')) (\<lambda>_.
     Inr \<lparr>aq_actor = actor, aq_action = action, aq_resource = resource, aq_purpose = purpose'\<rparr>))"

record authorization_decision =
  de_id :: uuid
  de_allowed :: bool
  de_reason :: ustr
  de_policy_version :: ustr

definition mk_decision :: "uuid \<Rightarrow> bool \<Rightarrow> ustr \<Rightarrow> ustr \<Rightarrow> authorization_decision res" where
  "mk_decision i allowed reason version =
     rbind (require_text reason ''reason'') (\<lambda>reason'.
     rbind (require_text version ''policy_version'') (\<lambda>version'.
     Inr \<lparr>de_id = i, de_allowed = allowed, de_reason = reason', de_policy_version = version'\<rparr>))"

record audit_event =
  au_decision :: authorization_decision
  au_actor :: actor_context
  au_action :: memory_action
  au_resource :: protected_resource
  au_purpose :: ustr
  au_request_id :: ustr
  au_recorded_at :: instant

definition mk_audit_event ::
  "authorization_decision \<Rightarrow> actor_context \<Rightarrow> memory_action \<Rightarrow> protected_resource \<Rightarrow> ustr \<Rightarrow> ustr \<Rightarrow>
   py_datetime \<Rightarrow> audit_event res" where
  "mk_audit_event decision actor action resource purpose request_id recorded_at =
     rbind (require_text purpose ''purpose'') (\<lambda>purpose'.
     rbind (require_text request_id ''request_id'') (\<lambda>request_id'.
     rbind (require_utc recorded_at ''recorded_at'') (\<lambda>recorded.
     Inr \<lparr>au_decision = decision, au_actor = actor, au_action = action, au_resource = resource,
       au_purpose = purpose', au_request_id = request_id', au_recorded_at = recorded\<rparr>)))"

end
