(* ===== verification/Authorization.thy ===== *)
theory Authorization
  imports Security
begin

text \<open>
  \<open>adapters/authorization.py\<close>: the roles of the program and the policy decision point
  \<open>RolePolicyAuthorizer\<close>.  A request is allowed only when a single grant of the caller covers the
  scope, carries a role with the action, and permits the purpose.
\<close>

definition all_actions :: "memory_action list" where
  "all_actions = [EVIDENCE_INGEST, EVIDENCE_READ_RAW, EVIDENCE_EXPORT, BELIEF_READ_CURRENT,
     BELIEF_READ_HISTORY, BELIEF_CORRECT, EXPERIENCE_TRACE_READ, EXPERIENCE_USAGE_WRITE,
     EXPERIENCE_OUTCOME_WRITE, EXPERIENCE_UTILITY_READ, PROJECTION_RECALL, PROJECTION_COMPRESS,
     PROJECTION_REBUILD, EVOLUTION_STRATEGY_PROPOSE, EVOLUTION_STRATEGY_PROMOTE,
     EVOLUTION_STRATEGY_ROLLBACK, GOVERNANCE_ROLE_MANAGE, GOVERNANCE_POLICY_MANAGE,
     GOVERNANCE_PRIVACY_SUPPRESS, GOVERNANCE_ERASURE_APPROVE, GOVERNANCE_AUDIT_READ,
     GOVERNANCE_OUTBOX_REPLAY]"

type_synonym permissions = "(ustr, memory_action list) dict"

definition role_permissions :: permissions where
  "role_permissions =
     [(uc ''subject_self'', [EVIDENCE_INGEST, BELIEF_READ_CURRENT, BELIEF_READ_HISTORY, BELIEF_CORRECT,
         EXPERIENCE_USAGE_WRITE, EXPERIENCE_OUTCOME_WRITE, EXPERIENCE_UTILITY_READ,
         PROJECTION_COMPRESS, PROJECTION_RECALL]),
      (uc ''memory_reader'', [BELIEF_READ_CURRENT, BELIEF_READ_HISTORY, PROJECTION_COMPRESS,
         PROJECTION_RECALL]),
      (uc ''memory_operator'', [EVIDENCE_INGEST, BELIEF_READ_CURRENT, BELIEF_READ_HISTORY,
         BELIEF_CORRECT, EXPERIENCE_USAGE_WRITE, EXPERIENCE_OUTCOME_WRITE, EXPERIENCE_UTILITY_READ,
         PROJECTION_COMPRESS, PROJECTION_RECALL]),
      (uc ''service_agent'', [EVIDENCE_INGEST, BELIEF_READ_CURRENT, EXPERIENCE_USAGE_WRITE,
         EXPERIENCE_OUTCOME_WRITE, PROJECTION_COMPRESS, PROJECTION_RECALL]),
      (uc ''privacy_officer'', [EVIDENCE_READ_RAW, EVIDENCE_EXPORT, GOVERNANCE_PRIVACY_SUPPRESS,
         GOVERNANCE_ERASURE_APPROVE]),
      (uc ''auditor'', [GOVERNANCE_AUDIT_READ]),
      (uc ''tenant_admin'', [GOVERNANCE_ROLE_MANAGE, GOVERNANCE_POLICY_MANAGE]),
      (uc ''strategy_operator'', [EVOLUTION_STRATEGY_PROPOSE, EVOLUTION_STRATEGY_PROMOTE,
         EVOLUTION_STRATEGY_ROLLBACK]),
      (uc ''platform_operator'', [PROJECTION_REBUILD, GOVERNANCE_OUTBOX_REPLAY]),
      (uc ''development_admin'', all_actions)]"

text \<open>\<open>permissions.get(role, frozenset())\<close>\<close>

definition role_allows :: "permissions \<Rightarrow> memory_action \<Rightarrow> ustr \<Rightarrow> bool" where
  "role_allows perms action role =
     (case map_of perms role of None \<Rightarrow> False | Some actions \<Rightarrow> action \<in> set actions)"

definition verdict :: "permissions \<Rightarrow> authorization_request \<Rightarrow> bool \<times> string" where
  "verdict perms r =
     (let tenant_grants = filter (in_tenant (re_scope (aq_resource r))) (ac_grants (aq_actor r));
          subject_grants = filter (\<lambda>g. covers g (re_scope (aq_resource r))) tenant_grants;
          action_grants = filter (\<lambda>g. list_ex (role_allows perms (aq_action r)) (ag_roles g)) subject_grants
      in if tenant_grants = [] then (False, ''scope_not_granted'')
         else if subject_grants = [] then (False, ''scope_not_granted'')
         else if action_grants = [] then (False, ''action_not_granted'')
         else if \<not> list_ex (\<lambda>g. permits_purpose g (aq_purpose r)) action_grants
              then (False, ''purpose_not_granted'')
         else (True, ''explicit_grant''))"

definition decide ::
  "permissions \<Rightarrow> ustr \<Rightarrow> uuid \<Rightarrow> authorization_request \<Rightarrow> authorization_decision res" where
  "decide perms policy_version i r =
     (let (allowed, reason) = verdict perms r in mk_decision i allowed (uc reason) policy_version)"

subsection \<open>Default deny\<close>

lemma covers_in_tenant: "covers g sc \<Longrightarrow> in_tenant sc g"
  by (simp add: covers_def in_tenant_def)

text \<open>Allowed exactly when one grant answers for scope, action and purpose at once.\<close>

lemma verdict_allowed:
  "fst (verdict perms r) \<longleftrightarrow>
     (\<exists>g \<in> set (ac_grants (aq_actor r)). covers g (re_scope (aq_resource r)) \<and>
        (\<exists>role \<in> set (ag_roles g). role_allows perms (aq_action r) role) \<and>
        permits_purpose g (aq_purpose r))"
  by (auto simp: verdict_def Let_def filter_empty_conv list_ex_iff dest: covers_in_tenant)

lemma verdict_concealed:
  "verdict perms r = (False, ''scope_not_granted'') \<longleftrightarrow>
     (\<forall>g \<in> set (ac_grants (aq_actor r)). \<not> covers g (re_scope (aq_resource r)))"
  by (auto simp: verdict_def Let_def filter_empty_conv dest: covers_in_tenant)

lemma decide_total:
  "strip policy_version \<noteq> [] \<Longrightarrow>
     \<exists>d. decide perms policy_version i r = Inr d \<and> de_id d = i \<and> de_allowed d = fst (verdict perms r) \<and>
       (de_reason d = uc ''scope_not_granted'' \<longleftrightarrow> verdict perms r = (False, ''scope_not_granted''))"
proof -
  assume v: "strip policy_version \<noteq> []"
  have r: "snd (verdict perms r) \<in> {''scope_not_granted'', ''action_not_granted'', ''purpose_not_granted'',
      ''explicit_grant''}"
    by (simp add: verdict_def Let_def)
  have s: "stripped (uc s)" if "s \<in> {''scope_not_granted'', ''action_not_granted'', ''purpose_not_granted'',
      ''explicit_grant''}" for s
    using that by (auto simp: stripped_def uc_def is_space_def)
  have a: "fst (verdict perms r) \<longleftrightarrow> snd (verdict perms r) = ''explicit_grant''"
    by (simp add: verdict_def Let_def)
  show ?thesis
    using v r a s [OF r] by (cases "verdict perms r")
      (auto simp: decide_def mk_decision_def res_simps require_text_stripped uc_def)
qed

subsection \<open>What the program's roles may do\<close>

lemma role_allows_role:
  "role_allows role_permissions a role \<longleftrightarrow> (\<exists>as. (role, as) \<in> set role_permissions \<and> a \<in> set as)"
proof -
  have "distinct (map fst role_permissions)" by (simp add: role_permissions_def uc_def)
  then show ?thesis by (auto simp: role_allows_def split: option.split dest: map_of_SomeD eq_key_imp_eq_value)
qed

end
