(* ===== verification/Access.thy ===== *)
theory Access
  imports GovernanceApp Authorization
begin

text \<open>
  \<open>application/access.py\<close>: the enforcement point around the memory use cases.  Every use case asks
  for a decision, records it, stops when it is negative, and runs inside the processing context of
  its scope; the governance use cases are authorized only.  The state adds the recorded audit events
  to the node.  A failing audit sink is the argument \<open>pf_sink\<close>; the in-memory one never fails.
\<close>

record authorized_node = node +
  an_audit :: "audit_event list"

record platform =
  pf_permissions :: permissions
  pf_policy_version :: ustr
  pf_sink :: "audit_event \<Rightarrow> unit res"
  pf_service :: service
  pf_privacy :: "privacy option"
  pf_bypass :: bool

definition record_audit :: "platform \<Rightarrow> audit_event \<Rightarrow> (authorized_node, unit) prog" where
  "record_audit F ev =
     pbind (lift_res (pf_sink F ev)) (\<lambda>_. modify (an_audit_update (\<lambda>evs. evs @ [ev])))"

definition authorize ::
  "env \<Rightarrow> platform \<Rightarrow> invocation_context \<Rightarrow> memory_action \<Rightarrow> scope \<Rightarrow> uuid option \<Rightarrow>
   (authorized_node, unit) prog" where
  "authorize E F iv action sc resource_id =
     pbind (lift_res (mk_resource sc (action_plane action) (map_option uuid_str resource_id))) (\<lambda>resource.
     pbind (lift_res (mk_authorization_request (iv_actor iv) action resource (iv_purpose iv))) (\<lambda>request.
     pbind (on_world (new_id E)) (\<lambda>i.
     pbind (lift_res (decide (pf_permissions F) (pf_policy_version F) i request)) (\<lambda>decision.
     pbind (on_world (now E)) (\<lambda>n.
     pbind (lift_res (mk_audit_event decision (iv_actor iv) action resource (iv_purpose iv)
       (iv_request_id iv) (utc n))) (\<lambda>ev.
     pbind (record_audit F ev) (\<lambda>_.
     lift_res (raise_if (\<not> de_allowed decision)
       (AuthorizationDeniedError (de_reason decision = uc ''scope_not_granted''))))))))))"

text \<open>\<open>with self._processing(invocation, scope): body\<close>\<close>

definition processing ::
  "env \<Rightarrow> platform \<Rightarrow> invocation_context \<Rightarrow> scope \<Rightarrow> (authorized_node, 'a) prog \<Rightarrow>
   (authorized_node, 'a) prog" where
  "processing E F iv sc body =
     (case pf_privacy F of
        None \<Rightarrow> body
      | Some P \<Rightarrow>
          pbind (on_world (now E)) (\<lambda>n.
          pbind (asks (\<lambda>s. if pf_bypass F
              then bypass_processing_context (pv_conf P) sc (iv_purpose iv) n (nd_gov s)
              else processing_context (pv_conf P) sc (iv_purpose iv) n (nd_gov s))) (\<lambda>_.
          body)))"

definition require_privacy :: "platform \<Rightarrow> (authorized_node, privacy) prog" where
  "require_privacy F =
     (case pf_privacy F of
        None \<Rightarrow> throw (RuntimeError ''privacy governance is not configured'')
      | Some P \<Rightarrow> return P)"

subsection \<open>Memory use cases\<close>

definition guarded ::
  "env \<Rightarrow> platform \<Rightarrow> invocation_context \<Rightarrow> memory_action \<Rightarrow> scope \<Rightarrow> uuid option \<Rightarrow>
   (world, 'a) prog \<Rightarrow> (authorized_node, 'a) prog" where
  "guarded E F iv action sc resource_id m =
     pbind (authorize E F iv action sc resource_id) (\<lambda>_. processing E F iv sc (on_world m))"

definition ax_remember_preference ::
  "env \<Rightarrow> platform \<Rightarrow> invocation_context \<Rightarrow> remember_command \<Rightarrow> (authorized_node, preference_result) prog" where
  "ax_remember_preference E F iv c =
     guarded E F iv EVIDENCE_INGEST (rm_scope c) None (remember_preference E c)"

definition ax_correct_preference ::
  "env \<Rightarrow> platform \<Rightarrow> invocation_context \<Rightarrow> correct_command \<Rightarrow> (authorized_node, preference_result) prog" where
  "ax_correct_preference E F iv c =
     guarded E F iv BELIEF_CORRECT (cp_scope c) (Some (cp_record_id c)) (correct_preference E c)"

definition ax_recall ::
  "env \<Rightarrow> platform \<Rightarrow> invocation_context \<Rightarrow> recall_command \<Rightarrow> (authorized_node, recall_trace) prog" where
  "ax_recall E F iv c = guarded E F iv PROJECTION_RECALL (rc_scope c) None (recall E (pf_service F) c)"

definition ax_record_outcome ::
  "env \<Rightarrow> platform \<Rightarrow> invocation_context \<Rightarrow> outcome_command \<Rightarrow> (authorized_node, outcome_result) prog" where
  "ax_record_outcome E F iv c =
     guarded E F iv EXPERIENCE_OUTCOME_WRITE (ro_scope c) (Some (ro_trace_id c)) (record_outcome E c)"

definition ax_record_usage ::
  "env \<Rightarrow> platform \<Rightarrow> invocation_context \<Rightarrow> usage_command \<Rightarrow> (authorized_node, usage_result) prog" where
  "ax_record_usage E F iv c =
     guarded E F iv EXPERIENCE_USAGE_WRITE (ru_scope c) (Some (ru_trace_id c)) (record_usage E c)"

definition ax_project_recall_context ::
  "env \<Rightarrow> platform \<Rightarrow> invocation_context \<Rightarrow> project_command \<Rightarrow>
   (authorized_node, recall_context_projection) prog" where
  "ax_project_recall_context E F iv c =
     guarded E F iv PROJECTION_COMPRESS (pj_scope c) (Some (pj_trace_id c))
       (asks (project_recall_context E c))"

definition ax_history ::
  "env \<Rightarrow> platform \<Rightarrow> invocation_context \<Rightarrow> scope \<Rightarrow> uuid \<Rightarrow> (authorized_node, memory_revision list) prog" where
  "ax_history E F iv sc record_id =
     guarded E F iv BELIEF_READ_HISTORY sc (Some record_id) (asks (history sc record_id))"

definition ax_list_preferences ::
  "env \<Rightarrow> platform \<Rightarrow> invocation_context \<Rightarrow> scope \<Rightarrow> (authorized_node, memory_snapshot list) prog" where
  "ax_list_preferences E F iv sc =
     guarded E F iv BELIEF_READ_CURRENT sc None (list_preferences E sc)"

subsection \<open>Governance use cases\<close>

definition governed ::
  "env \<Rightarrow> platform \<Rightarrow> invocation_context \<Rightarrow> memory_action \<Rightarrow> scope \<Rightarrow> uuid option \<Rightarrow>
   (privacy \<Rightarrow> (authorized_node, 'a) prog) \<Rightarrow> (authorized_node, 'a) prog" where
  "governed E F iv action sc resource_id m =
     pbind (require_privacy F) (\<lambda>P.
     pbind (authorize E F iv action sc resource_id) (\<lambda>_. m P))"

definition ax_issue_processing_grant ::
  "env \<Rightarrow> platform \<Rightarrow> invocation_context \<Rightarrow> issue_command \<Rightarrow> (authorized_node, processing_grant) prog" where
  "ax_issue_processing_grant E F iv c =
     governed E F iv GOVERNANCE_POLICY_MANAGE (ig_scope c) None
       (\<lambda>P. issue_processing_grant E P c (ac_principal_id (iv_actor iv)))"

definition ax_revoke_processing_grant ::
  "env \<Rightarrow> platform \<Rightarrow> invocation_context \<Rightarrow> revoke_command \<Rightarrow> (authorized_node, processing_grant) prog" where
  "ax_revoke_processing_grant E F iv c =
     governed E F iv GOVERNANCE_POLICY_MANAGE (rg_scope c) (Some (rg_grant_id c))
       (\<lambda>P. revoke_processing_grant E P c (ac_principal_id (iv_actor iv)))"

definition ax_suppress ::
  "env \<Rightarrow> platform \<Rightarrow> invocation_context \<Rightarrow> suppress_command \<Rightarrow> (authorized_node, suppression_fence) prog" where
  "ax_suppress E F iv c =
     governed E F iv GOVERNANCE_PRIVACY_SUPPRESS (sp_scope c) None
       (\<lambda>P. suppress E P c (ac_principal_id (iv_actor iv)))"

definition ax_erase ::
  "env \<Rightarrow> platform \<Rightarrow> invocation_context \<Rightarrow> erase_command \<Rightarrow> (authorized_node, erasure_request) prog" where
  "ax_erase E F iv c =
     governed E F iv GOVERNANCE_ERASURE_APPROVE (es_scope c) None
       (\<lambda>P. erase E P c (ac_principal_id (iv_actor iv)))"

definition ax_erasure ::
  "env \<Rightarrow> platform \<Rightarrow> invocation_context \<Rightarrow> scope \<Rightarrow> uuid \<Rightarrow> (authorized_node, erasure_request) prog" where
  "ax_erasure E F iv sc request_id =
     governed E F iv GOVERNANCE_ERASURE_APPROVE sc (Some request_id) (\<lambda>P. erasure P sc request_id)"

end
