(* ===== verification/Raising.thy ===== *)
theory Raising
  imports Prelude
begin

text \<open>Which errors a computation can raise: a judgement with one rule for each way of composing.\<close>

definition raises_in :: "py_error set \<Rightarrow> 'a res \<Rightarrow> bool" where
  "raises_in S r \<longleftrightarrow> (\<forall>e. r = Inl e \<longrightarrow> e \<in> S)"

lemma raises_basic:
  "raises_in S (Inr x)" "e \<in> S \<Longrightarrow> raises_in S (Inl e)" "e \<in> S \<Longrightarrow> raises_in S (raise_if b e)"
  "raises_in S m \<Longrightarrow> (\<And>x. raises_in S (f x)) \<Longrightarrow> raises_in S (rbind m f)"
  "(\<And>x. raises_in S (g x)) \<Longrightarrow> raises_in S (rmap g xs)"
  "(\<And>x. raises_in S (g x)) \<Longrightarrow> raises_in S (ropt g y)"
  by (auto simp: raises_in_def res_simps ropt_def split: option.split dest: rmap_Inl)

lemma raises_cases:
  "raises_in S a \<Longrightarrow> raises_in S b \<Longrightarrow> raises_in S (if p then a else b)"
  "raises_in S a \<Longrightarrow> (\<And>x. raises_in S (f x)) \<Longrightarrow> raises_in S (case v of None \<Rightarrow> a | Some x \<Rightarrow> f x)"
  "(\<And>x y. raises_in S (h x y)) \<Longrightarrow> raises_in S (case q of (x, y) \<Rightarrow> h x y)"
  by (auto split: option.split prod.split)

text \<open>What was computed before may be used.\<close>

lemma raises_after:
  "raises_in S m \<Longrightarrow> (\<And>x. m = Inr x \<Longrightarrow> raises_in S (f x)) \<Longrightarrow> raises_in S (rbind m f)"
  by (auto simp: raises_in_def res_simps)

end
