(* ===== verification/Evaluation.thy ===== *)
theory Evaluation
  imports Commands World
begin

text \<open>
  \<open>application/evaluation.py\<close>, the data: the labelled cases of an offline evaluation, the dataset with
  the validation of its constructor, the results, and the hard gates a strategy must pass.  A message
  that quotes text of the dataset keeps one byte per code point.
\<close>

definition message :: "ustr \<Rightarrow> string" where
  "message s = map char_of s"

subsection \<open>References\<close>

record memory_reference =
  mr_case_id :: "ustr option"
  mr_record_id :: "uuid option"
  mr_revision_id :: "uuid option"

definition mk_memory_reference ::
  "ustr option \<Rightarrow> uuid option \<Rightarrow> uuid option \<Rightarrow> memory_reference res" where
  "mk_memory_reference case_id record_id revision_id =
     (case case_id of
        Some c \<Rightarrow>
          rbind (require_text c ''memory reference case_id'') (\<lambda>normalized.
          rbind (raise_if (record_id \<noteq> None \<or> revision_id \<noteq> None)
            (DomainError ''case memory reference cannot also contain UUIDs'')) (\<lambda>_.
          Inr \<lparr>mr_case_id = Some normalized, mr_record_id = record_id, mr_revision_id = revision_id\<rparr>))
      | None \<Rightarrow>
          rbind (raise_if (record_id = None \<or> revision_id = None)
            (DomainError ''direct memory reference requires record_id and revision_id'')) (\<lambda>_.
          Inr \<lparr>mr_case_id = None, mr_record_id = record_id, mr_revision_id = revision_id\<rparr>))"

definition from_case :: "ustr \<Rightarrow> memory_reference res" where
  "from_case case_id = mk_memory_reference (Some case_id) None None"

definition from_ids :: "uuid \<Rightarrow> uuid \<Rightarrow> memory_reference res" where
  "from_ids record_id revision_id = mk_memory_reference None (Some record_id) (Some revision_id)"

subsection \<open>Cases\<close>

datatype replay_case_kind = WRITE | CORRECTION | RECALL | OUTCOME

fun case_kind_value :: "replay_case_kind \<Rightarrow> ustr" where
  "case_kind_value WRITE = uc ''write''"
| "case_kind_value CORRECTION = uc ''correction''"
| "case_kind_value RECALL = uc ''recall''"
| "case_kind_value OUTCOME = uc ''outcome''"

datatype recall_rejection = FUTURE_KNOWN_AT

fun rejection_value :: "recall_rejection \<Rightarrow> ustr" where
  "rejection_value FUTURE_KNOWN_AT = uc ''future_known_at''"

fun outcome_kind_value :: "outcome_kind \<Rightarrow> ustr" where
  "outcome_kind_value HELPFUL = uc ''helpful''"
| "outcome_kind_value OC_ACCEPTED = uc ''accepted''"
| "outcome_kind_value HARMFUL = uc ''harmful''"
| "outcome_kind_value OC_REJECTED = uc ''rejected''"
| "outcome_kind_value CORRECTED = uc ''corrected''"

definition validate_expected_sequence :: "int option \<Rightarrow> unit res" where
  "validate_expected_sequence expected =
     (case expected of None \<Rightarrow> Inr ()
      | Some n \<Rightarrow> raise_if (n < 1) (DomainError ''expected_sequence must be positive''))"

definition normalize_run_at :: "py_datetime option \<Rightarrow> instant option res" where
  "normalize_run_at = ropt (\<lambda>t. require_utc t ''run_at'')"

record write_case =
  wc_case_id :: ustr
  wc_command :: remember_command
  wc_expected_sequence :: "int option"
  wc_expected_replay :: "bool option"
  wc_run_at :: "instant option"

definition mk_write_case ::
  "ustr \<Rightarrow> remember_command \<Rightarrow> int option \<Rightarrow> bool option \<Rightarrow> py_datetime option \<Rightarrow> write_case res" where
  "mk_write_case case_id command expected_sequence expected_replay run_at =
     rbind (require_text case_id ''case_id'') (\<lambda>case_id'.
     rbind (validate_expected_sequence expected_sequence) (\<lambda>_.
     rbind (normalize_run_at run_at) (\<lambda>run_at'.
     Inr \<lparr>wc_case_id = case_id', wc_command = command, wc_expected_sequence = expected_sequence,
       wc_expected_replay = expected_replay, wc_run_at = run_at'\<rparr>)))"

record correction_case =
  kc_case_id :: ustr
  kc_target :: memory_reference
  kc_scope :: scope
  kc_source :: ustr
  kc_key_id :: ustr
  kc_value :: ustr
  kc_evidence_text :: ustr
  kc_reason :: ustr
  kc_occurred_at :: instant
  kc_enforce_expected :: bool
  kc_expected_sequence :: "int option"
  kc_expected_replay :: "bool option"
  kc_run_at :: "instant option"

definition mk_correction_case ::
  "ustr \<Rightarrow> memory_reference \<Rightarrow> scope \<Rightarrow> ustr \<Rightarrow> ustr \<Rightarrow> ustr \<Rightarrow> ustr \<Rightarrow> ustr \<Rightarrow> py_datetime \<Rightarrow> bool \<Rightarrow>
   int option \<Rightarrow> bool option \<Rightarrow> py_datetime option \<Rightarrow> correction_case res" where
  "mk_correction_case case_id target sc source key value evidence_text reason occurred_at enforce
     expected_sequence expected_replay run_at =
     rbind (require_text case_id ''case_id'') (\<lambda>case_id'.
     rbind (require_text source ''source'') (\<lambda>source'.
     rbind (require_text key ''idempotency_key'') (\<lambda>key'.
     rbind (require_text value ''value'') (\<lambda>value'.
     rbind (require_text evidence_text ''evidence_text'') (\<lambda>evidence_text'.
     rbind (require_text reason ''reason'') (\<lambda>reason'.
     rbind (require_utc occurred_at ''occurred_at'') (\<lambda>occurred.
     rbind (validate_expected_sequence expected_sequence) (\<lambda>_.
     rbind (normalize_run_at run_at) (\<lambda>run_at'.
     Inr \<lparr>kc_case_id = case_id', kc_target = target, kc_scope = sc, kc_source = source', kc_key_id = key',
       kc_value = value', kc_evidence_text = evidence_text', kc_reason = reason', kc_occurred_at = occurred,
       kc_enforce_expected = enforce, kc_expected_sequence = expected_sequence,
       kc_expected_replay = expected_replay, kc_run_at = run_at'\<rparr>)))))))))"

record expected_utility =
  eu_memory :: memory_reference
  eu_mean :: pyfloat

definition mk_expected_utility :: "memory_reference \<Rightarrow> pyfloat \<Rightarrow> expected_utility res" where
  "mk_expected_utility memory mean =
     rbind (raise_if (\<not> (0 \<le> mean \<and> mean \<le> 1))
       (DomainError ''expected utility mean must be between 0 and 1'')) (\<lambda>_.
     Inr \<lparr>eu_memory = memory, eu_mean = mean\<rparr>)"

record recall_case =
  lc_case_id :: ustr
  lc_command :: recall_command
  lc_relevant :: "memory_reference list"
  lc_forbidden :: "memory_reference list"
  lc_expect_abstention :: bool
  lc_expected_utilities :: "expected_utility list"
  lc_expected_error :: "recall_rejection option"
  lc_run_at :: "instant option"

text \<open>The labels of a case that expects the recall to be refused.\<close>

definition check_expected_error :: "recall_case \<Rightarrow> unit res" where
  "check_expected_error c =
     (case lc_expected_error c of
        None \<Rightarrow> Inr ()
      | Some FUTURE_KNOWN_AT \<Rightarrow>
          rbind (raise_if (lc_relevant c \<noteq> [] \<or> lc_forbidden c \<noteq> [] \<or> lc_expect_abstention c \<or>
              lc_expected_utilities c \<noteq> [])
            (DomainError ''an expected-error recall cannot declare result labels'')) (\<lambda>_.
          case rc_known_at (lc_command c) of
            None \<Rightarrow> Inl (DomainError ''future_known_at rejection requires known_at'')
          | Some known_at \<Rightarrow>
              (case lc_run_at c of
                 None \<Rightarrow> Inr ()
               | Some run_at \<Rightarrow> raise_if (known_at \<le> run_at)
                   (DomainError ''future_known_at rejection requires known_at after run_at''))))"

definition mk_recall_case ::
  "ustr \<Rightarrow> recall_command \<Rightarrow> memory_reference list \<Rightarrow> memory_reference list \<Rightarrow> bool \<Rightarrow>
   expected_utility list \<Rightarrow> recall_rejection option \<Rightarrow> py_datetime option \<Rightarrow> recall_case res" where
  "mk_recall_case case_id command relevant forbidden abstention utilities expected_error run_at =
     rbind (require_text case_id ''case_id'') (\<lambda>case_id'.
     rbind (normalize_run_at run_at) (\<lambda>run_at'.
     rbind (raise_if (\<not> distinct relevant) (DomainError ''relevant memory references must be unique'')) (\<lambda>_.
     rbind (raise_if (\<not> distinct forbidden) (DomainError ''forbidden memory references must be unique'')) (\<lambda>_.
     rbind (raise_if (set relevant \<inter> set forbidden \<noteq> {})
       (DomainError ''a memory reference cannot be relevant and forbidden'')) (\<lambda>_.
     rbind (raise_if (\<not> distinct (map eu_memory utilities))
       (DomainError ''expected utility memory references must be unique'')) (\<lambda>_.
     rbind (raise_if (abstention \<and> relevant \<noteq> [])
       (DomainError ''an abstention case cannot declare relevant memories'')) (\<lambda>_.
     let c = \<lparr>lc_case_id = case_id', lc_command = command, lc_relevant = relevant, lc_forbidden = forbidden,
       lc_expect_abstention = abstention, lc_expected_utilities = utilities,
       lc_expected_error = expected_error, lc_run_at = run_at'\<rparr> in
     rbind (check_expected_error c) (\<lambda>_. Inr c))))))))"

record outcome_case =
  jc_case_id :: ustr
  jc_trace_case_id :: ustr
  jc_memory :: memory_reference
  jc_scope :: scope
  jc_kind :: outcome_kind
  jc_key_id :: ustr
  jc_occurred_at :: instant
  jc_weight :: pyfloat
  jc_note :: "ustr option"
  jc_expected_mean :: "pyfloat option"
  jc_expected_replay :: "bool option"
  jc_run_at :: "instant option"

definition mk_outcome_case ::
  "ustr \<Rightarrow> ustr \<Rightarrow> memory_reference \<Rightarrow> scope \<Rightarrow> outcome_kind \<Rightarrow> ustr \<Rightarrow> py_datetime \<Rightarrow> pyfloat \<Rightarrow> ustr option \<Rightarrow>
   pyfloat option \<Rightarrow> bool option \<Rightarrow> py_datetime option \<Rightarrow> outcome_case res" where
  "mk_outcome_case case_id trace_case_id memory sc kind key occurred_at weight note expected_mean
     expected_replay run_at =
     rbind (require_text case_id ''case_id'') (\<lambda>case_id'.
     rbind (require_text trace_case_id ''trace_case_id'') (\<lambda>trace_case_id'.
     rbind (require_text key ''idempotency_key'') (\<lambda>key'.
     rbind (require_utc occurred_at ''occurred_at'') (\<lambda>occurred.
     rbind (raise_if (\<not> (0 < weight \<and> weight \<le> 10))
       (DomainError ''outcome weight must be in (0, 10]'')) (\<lambda>_.
     rbind (case expected_mean of None \<Rightarrow> Inr ()
       | Some m \<Rightarrow> raise_if (\<not> (0 \<le> m \<and> m \<le> 1))
           (DomainError ''expected outcome utility mean must be between 0 and 1'')) (\<lambda>_.
     rbind (normalize_run_at run_at) (\<lambda>run_at'.
     Inr \<lparr>jc_case_id = case_id', jc_trace_case_id = trace_case_id', jc_memory = memory, jc_scope = sc,
       jc_kind = kind, jc_key_id = key', jc_occurred_at = occurred, jc_weight = weight,
       jc_note = normalize_note note, jc_expected_mean = expected_mean,
       jc_expected_replay = expected_replay, jc_run_at = run_at'\<rparr>)))))))"

datatype replay_case =
    WriteCase write_case
  | CorrectionCase correction_case
  | RecallCase recall_case
  | OutcomeCase outcome_case

fun case_id :: "replay_case \<Rightarrow> ustr" where
  "case_id (WriteCase c) = wc_case_id c"
| "case_id (CorrectionCase c) = kc_case_id c"
| "case_id (RecallCase c) = lc_case_id c"
| "case_id (OutcomeCase c) = jc_case_id c"

fun case_run_at :: "replay_case \<Rightarrow> instant option" where
  "case_run_at (WriteCase c) = wc_run_at c"
| "case_run_at (CorrectionCase c) = kc_run_at c"
| "case_run_at (RecallCase c) = lc_run_at c"
| "case_run_at (OutcomeCase c) = jc_run_at c"

subsection \<open>Datasets\<close>

record evaluation_dataset =
  ds_name :: ustr
  ds_version :: ustr
  ds_cases :: "replay_case list"
  ds_recall_k :: int
  ds_schema_version :: int

definition validate_reference_order :: "memory_reference \<Rightarrow> ustr set \<Rightarrow> ustr \<Rightarrow> unit res" where
  "validate_reference_order reference available owner =
     (case mr_case_id reference of
        None \<Rightarrow> Inr ()
      | Some c \<Rightarrow> raise_if (c \<notin> available)
          (DomainError (message (uc ''case '' @ owner @ uc '' references unavailable memory case '' @ c))))"

text \<open>The timeline of a dataset: no times in version 1, non-decreasing ones in version 2.\<close>

definition check_run_at :: "int \<Rightarrow> instant option \<Rightarrow> replay_case \<Rightarrow> unit res" where
  "check_run_at schema previous c =
     (if schema = 1
      then raise_if ((case c of OutcomeCase _ \<Rightarrow> True | _ \<Rightarrow> False) \<or> case_run_at c \<noteq> None)
        (DomainError ''schema v1 cannot contain timeline or outcome cases'')
      else case case_run_at c of
        None \<Rightarrow> Inl (DomainError ''schema v2 requires run_at on every case'')
      | Some t \<Rightarrow> raise_if (case previous of None \<Rightarrow> False | Some p \<Rightarrow> t < p)
          (DomainError ''schema v2 run_at values must be non-decreasing''))"

definition later_run_at :: "instant option \<Rightarrow> replay_case \<Rightarrow> instant option" where
  "later_run_at previous c = (case case_run_at c of None \<Rightarrow> previous | Some t \<Rightarrow> Some t)"

text \<open>What a case may refer to: the memories and the traces of the cases before it.\<close>

fun check_references :: "int \<Rightarrow> ustr set \<Rightarrow> ustr set \<Rightarrow> replay_case \<Rightarrow> unit res" where
  "check_references recall_k memories traces (WriteCase c) = Inr ()"
| "check_references recall_k memories traces (CorrectionCase c) =
     validate_reference_order (kc_target c) memories (kc_case_id c)"
| "check_references recall_k memories traces (RecallCase c) =
     rbind (raise_if (\<not> (recall_k \<le> rc_limit (lc_command c) \<and> rc_limit (lc_command c) \<le> 100))
       (DomainError ''recall command limit must be at least recall_k and at most 100'')) (\<lambda>_.
     rbind (rmap (\<lambda>r. validate_reference_order r memories (lc_case_id c)) (lc_relevant c @ lc_forbidden c)) (\<lambda>_.
     rbind (rmap (\<lambda>u. validate_reference_order (eu_memory u) memories (lc_case_id c)) (lc_expected_utilities c)) (\<lambda>_.
     Inr ())))"
| "check_references recall_k memories traces (OutcomeCase c) =
     rbind (validate_reference_order (jc_memory c) memories (jc_case_id c)) (\<lambda>_.
     raise_if (jc_trace_case_id c \<notin> traces)
       (DomainError (message (uc ''case '' @ jc_case_id c @ uc '' references unavailable recall case '' @
          jc_trace_case_id c))))"

fun adds_memory :: "replay_case \<Rightarrow> bool" where
  "adds_memory (WriteCase c) = True"
| "adds_memory (CorrectionCase c) = True"
| "adds_memory _ = False"

fun adds_trace :: "replay_case \<Rightarrow> bool" where
  "adds_trace (RecallCase c) = (lc_expected_error c = None)"
| "adds_trace _ = False"

fun check_cases :: "int \<Rightarrow> int \<Rightarrow> ustr set \<Rightarrow> ustr set \<Rightarrow> instant option \<Rightarrow> replay_case list \<Rightarrow> unit res" where
  "check_cases schema recall_k memories traces previous [] = Inr ()"
| "check_cases schema recall_k memories traces previous (c # cs) =
     rbind (check_run_at schema previous c) (\<lambda>_.
     rbind (check_references recall_k memories traces c) (\<lambda>_.
     check_cases schema recall_k
       (if adds_memory c then insert (case_id c) memories else memories)
       (if adds_trace c then insert (case_id c) traces else traces)
       (later_run_at previous c) cs))"

definition mk_dataset ::
  "ustr \<Rightarrow> ustr \<Rightarrow> replay_case list \<Rightarrow> int \<Rightarrow> int \<Rightarrow> evaluation_dataset res" where
  "mk_dataset name version cases recall_k schema =
     rbind (require_text name ''dataset name'') (\<lambda>name'.
     rbind (require_text version ''dataset version'') (\<lambda>version'.
     rbind (raise_if (cases = []) (DomainError ''evaluation dataset must contain at least one case'')) (\<lambda>_.
     rbind (raise_if (recall_k < 1) (DomainError ''recall_k must be positive'')) (\<lambda>_.
     rbind (raise_if (schema \<noteq> 1 \<and> schema \<noteq> 2) (DomainError ''unsupported evaluation schema_version'')) (\<lambda>_.
     rbind (raise_if (\<not> distinct (map case_id cases))
       (DomainError ''evaluation case_id values must be unique'')) (\<lambda>_.
     rbind (check_cases schema recall_k {} {} None cases) (\<lambda>_.
     Inr \<lparr>ds_name = name', ds_version = version', ds_cases = cases, ds_recall_k = recall_k,
       ds_schema_version = schema\<rparr>)))))))"

subsection \<open>Results\<close>

record case_result =
  cr_case_id :: ustr
  cr_kind :: replay_case_kind
  cr_passed :: bool
  cr_error :: "ustr option"
  cr_record_id :: "uuid option"
  cr_revision_id :: "uuid option"
  cr_trace_id :: "uuid option"
  cr_retrieved :: "uuid list"
  cr_recall_at_k :: "pyfloat option"
  cr_reciprocal_rank :: "pyfloat option"
  cr_abstention_correct :: "bool option"
  cr_forbidden_hits :: "uuid list"

text \<open>The constructor with its defaults.\<close>

definition plain_result :: "ustr \<Rightarrow> replay_case_kind \<Rightarrow> bool \<Rightarrow> case_result" where
  "plain_result i kind passed = \<lparr>cr_case_id = i, cr_kind = kind, cr_passed = passed, cr_error = None,
     cr_record_id = None, cr_revision_id = None, cr_trace_id = None, cr_retrieved = [], cr_recall_at_k = None,
     cr_reciprocal_rank = None, cr_abstention_correct = None, cr_forbidden_hits = []\<rparr>"

definition failed_case :: "ustr \<Rightarrow> replay_case_kind \<Rightarrow> py_error \<Rightarrow> case_result" where
  "failed_case i kind e = (plain_result i kind False)\<lparr>cr_error := Some (uc (error_name e))\<rparr>"

record evaluation_metrics =
  em_write_cases :: int
  em_correction_cases :: int
  em_recall_cases :: int
  em_outcome_cases :: int
  em_execution_failures :: int
  em_recall_at_k :: "pyfloat option"
  em_mrr_at_k :: "pyfloat option"
  em_update_accuracy :: "pyfloat option"
  em_abstention_accuracy :: "pyfloat option"
  em_forbidden_hits :: int

definition mean_of :: "pyfloat list \<Rightarrow> pyfloat option" where
  "mean_of values = (if values \<noteq> [] then Some (fdiv (py_sum values) (of_nat (length values))) else None)"

definition bool_score :: "bool \<Rightarrow> pyfloat" where
  "bool_score b = (if b then 1 else 0)"

fun update_result :: "replay_case \<times> case_result \<Rightarrow> pyfloat list" where
  "update_result (CorrectionCase c, r) =
     (if kc_expected_sequence c \<noteq> None \<or> kc_expected_replay c \<noteq> None then [bool_score (cr_passed r)] else [])"
| "update_result _ = []"

fun case_kind :: "replay_case \<Rightarrow> replay_case_kind" where
  "case_kind (WriteCase c) = WRITE"
| "case_kind (CorrectionCase c) = CORRECTION"
| "case_kind (RecallCase c) = RECALL"
| "case_kind (OutcomeCase c) = OUTCOME"

definition count_kind :: "replay_case_kind \<Rightarrow> replay_case list \<Rightarrow> int" where
  "count_kind k cases = int (length (filter (\<lambda>c. case_kind c = k) cases))"

text \<open>\<open>zip(cases, results, strict=True)\<close> raises when the lengths differ.\<close>

definition aggregate_metrics :: "replay_case list \<Rightarrow> case_result list \<Rightarrow> evaluation_metrics res" where
  "aggregate_metrics cases results =
     rbind (raise_if (length cases \<noteq> length results)
       (ValueError ''zip() arguments have different lengths'')) (\<lambda>_.
     Inr \<lparr>em_write_cases = count_kind WRITE cases, em_correction_cases = count_kind CORRECTION cases,
       em_recall_cases = count_kind RECALL cases, em_outcome_cases = count_kind OUTCOME cases,
       em_execution_failures = int (length (filter (\<lambda>r. \<not> cr_passed r) results)),
       em_recall_at_k = mean_of (List.map_filter cr_recall_at_k results),
       em_mrr_at_k = mean_of (List.map_filter cr_reciprocal_rank results),
       em_update_accuracy = mean_of (concat (map update_result (zip cases results))),
       em_abstention_accuracy =
         mean_of (map bool_score (List.map_filter cr_abstention_correct results)),
       em_forbidden_hits = int (sum_list (map (\<lambda>r. length (cr_forbidden_hits r)) results))\<rparr>)"

subsection \<open>Hard gates\<close>

text \<open>An observed value or a threshold: a count, a float, or no value.\<close>

datatype gate_value = NoValue | CountValue int | FloatValue pyfloat

record hard_gate_check =
  hc_name :: ustr
  hc_passed :: bool
  hc_observed :: gate_value
  hc_comparator :: ustr
  hc_threshold :: gate_value

type_synonym hard_gate_report = "hard_gate_check list"

definition report_passed :: "hard_gate_report \<Rightarrow> bool" where
  "report_passed checks = list_all hc_passed checks"

definition report_violations :: "hard_gate_report \<Rightarrow> ustr list" where
  "report_violations checks = map hc_name (filter (\<lambda>c. \<not> hc_passed c) checks)"

record hard_gate_policy =
  hp_max_forbidden_hits :: int
  hp_max_execution_failures :: int
  hp_min_recall_at_k :: "pyfloat option"
  hp_min_mrr :: "pyfloat option"
  hp_min_update_accuracy :: "pyfloat option"
  hp_min_abstention_accuracy :: "pyfloat option"

definition check_minimum :: "string \<Rightarrow> pyfloat option \<Rightarrow> unit res" where
  "check_minimum name value =
     (case value of None \<Rightarrow> Inr ()
      | Some v \<Rightarrow> raise_if (\<not> (0 \<le> v \<and> v \<le> 1)) (DomainError (name @ '' must be between 0 and 1'')))"

definition mk_hard_gate_policy :: "hard_gate_policy \<Rightarrow> hard_gate_policy res" where
  "mk_hard_gate_policy p =
     rbind (raise_if (min (hp_max_forbidden_hits p) (hp_max_execution_failures p) < 0)
       (DomainError ''hard-gate maximum values must be non-negative'')) (\<lambda>_.
     rbind (check_minimum ''min_recall_at_k'' (hp_min_recall_at_k p)) (\<lambda>_.
     rbind (check_minimum ''min_mrr'' (hp_min_mrr p)) (\<lambda>_.
     rbind (check_minimum ''min_update_accuracy'' (hp_min_update_accuracy p)) (\<lambda>_.
     rbind (check_minimum ''min_abstention_accuracy'' (hp_min_abstention_accuracy p)) (\<lambda>_.
     Inr p)))))"

definition default_gates :: hard_gate_policy where
  "default_gates = \<lparr>hp_max_forbidden_hits = 0, hp_max_execution_failures = 0, hp_min_recall_at_k = None,
     hp_min_mrr = None, hp_min_update_accuracy = None, hp_min_abstention_accuracy = None\<rparr>"

definition minimum_check :: "string \<Rightarrow> pyfloat option \<Rightarrow> pyfloat option \<Rightarrow> hard_gate_check list" where
  "minimum_check name observed threshold =
     (case threshold of
        None \<Rightarrow> []
      | Some t \<Rightarrow> [\<lparr>hc_name = uc name,
          hc_passed = (case observed of None \<Rightarrow> False | Some v \<Rightarrow> t \<le> v),
          hc_observed = (case observed of None \<Rightarrow> NoValue | Some v \<Rightarrow> FloatValue v),
          hc_comparator = uc ''>='', hc_threshold = FloatValue t\<rparr>])"

definition maximum_check :: "string \<Rightarrow> int \<Rightarrow> int \<Rightarrow> hard_gate_check" where
  "maximum_check name observed threshold = \<lparr>hc_name = uc name, hc_passed = (observed \<le> threshold),
     hc_observed = CountValue observed, hc_comparator = uc ''<='', hc_threshold = CountValue threshold\<rparr>"

definition evaluate_gates :: "hard_gate_policy \<Rightarrow> evaluation_metrics \<Rightarrow> hard_gate_report" where
  "evaluate_gates p m =
     [maximum_check ''forbidden_hits'' (em_forbidden_hits m) (hp_max_forbidden_hits p),
      maximum_check ''execution_failures'' (em_execution_failures m) (hp_max_execution_failures p)] @
     minimum_check ''recall_at_k'' (em_recall_at_k m) (hp_min_recall_at_k p) @
     minimum_check ''mrr_at_k'' (em_mrr_at_k m) (hp_min_mrr p) @
     minimum_check ''update_accuracy'' (em_update_accuracy m) (hp_min_update_accuracy p) @
     minimum_check ''abstention_accuracy'' (em_abstention_accuracy m) (hp_min_abstention_accuracy p)"

end
