(* ===== verification/Loader.thy ===== *)
theory Loader
  imports Evaluation
begin

text \<open>
  \<open>evaluation/loader.py\<close>: a versioned evaluation dataset read from JSON.  The grammar of JSON, the
  file system and the forms \<open>datetime.fromisoformat\<close> accepts belong to the standard library and are
  arguments; the hooks of the decoder, the validation of every field and the construction of the
  dataset are the program's.  An error message quotes the path of the field, as in the code.
\<close>

subsection \<open>The decoded document\<close>

text \<open>
  What the decoder meets in the text, in the order of the text: \<open>PConst\<close> is one of \<open>NaN\<close>, \<open>Infinity\<close> and
  \<open>-Infinity\<close>, \<open>PHuge\<close> a number literal beyond the floats, which decodes to an infinity, and \<open>PFault\<close> the place
  where the decoder itself raises: a \<open>JSONDecodeError\<close>, a \<open>RecursionError\<close> for values nested too deeply, or
  a \<open>ValueError\<close> for an integer of too many digits.  What follows the first fault is never read.
\<close>

datatype parse_tree =
    PNull
  | PBool bool
  | PInt int
  | PFloat pyfloat
  | PHuge
  | PConst
  | PText ustr
  | PArray "parse_tree list"
  | PObject "(ustr \<times> parse_tree) list"
  | PFault py_error

text \<open>The Python values it returns.\<close>

datatype jvalue =
    VNull
  | VBool bool
  | VInt int
  | VFloat pyfloat
  | VInf
  | VText ustr
  | VList "jvalue list"
  | VDict "(ustr \<times> jvalue) list"

text \<open>\<open>_unique_object\<close>: the pairs in order, unless a key comes twice.\<close>

definition unique_object :: "(ustr \<times> jvalue) list \<Rightarrow> jvalue res" where
  "unique_object pairs =
     rbind (raise_if (\<not> distinct (map fst pairs))
       (DatasetValidationError ''dataset JSON contains a duplicate field'')) (\<lambda>_.
     Inr (VDict pairs))"

definition reject_non_finite :: "jvalue res" where
  "reject_non_finite = Inl (DatasetValidationError ''dataset JSON contains a non-finite number'')"

text \<open>\<open>json.loads\<close> with the two hooks, called as the values end in the text.\<close>

fun decode :: "parse_tree \<Rightarrow> jvalue res"
  and decode_items :: "parse_tree list \<Rightarrow> jvalue list res"
  and decode_pairs :: "(ustr \<times> parse_tree) list \<Rightarrow> (ustr \<times> jvalue) list res" where
  "decode PNull = Inr VNull"
| "decode (PBool b) = Inr (VBool b)"
| "decode (PInt i) = Inr (VInt i)"
| "decode (PFloat x) = Inr (VFloat x)"
| "decode PHuge = Inr VInf"
| "decode PConst = reject_non_finite"
| "decode (PText s) = Inr (VText s)"
| "decode (PFault e) = Inl e"
| "decode (PArray xs) = rbind (decode_items xs) (\<lambda>vs. Inr (VList vs))"
| "decode (PObject ps) = rbind (decode_pairs ps) unique_object"
| "decode_items [] = Inr []"
| "decode_items (x # xs) = rbind (decode x) (\<lambda>v. rbind (decode_items xs) (\<lambda>vs. Inr (v # vs)))"
| "decode_pairs [] = Inr []"
| "decode_pairs ((k, x) # ps) = rbind (decode x) (\<lambda>v. rbind (decode_pairs ps) (\<lambda>vs. Inr ((k, v) # vs)))"

subsection \<open>Fields\<close>

type_synonym jdict = "(ustr \<times> jvalue) list"

text \<open>\<open>value.get(name)\<close>, None for a missing field as for a null one.\<close>

definition get_field :: "jdict \<Rightarrow> string \<Rightarrow> jvalue" where
  "get_field d name = (case map_of d (uc name) of None \<Rightarrow> VNull | Some v \<Rightarrow> v)"

definition invalid :: "string \<Rightarrow> string \<Rightarrow> py_error" where
  "invalid path problem = DatasetValidationError (path @ problem)"

definition check_fields :: "jdict \<Rightarrow> string \<Rightarrow> string list \<Rightarrow> string list \<Rightarrow> unit res" where
  "check_fields d path required allowed =
     rbind (raise_if (\<not> set (map uc required) \<subseteq> fst ` set d)
       (invalid path '' is missing required fields'')) (\<lambda>_.
     raise_if (\<not> fst ` set d \<subseteq> set (map uc allowed)) (invalid path '' contains unknown fields''))"

definition as_object :: "jvalue \<Rightarrow> string \<Rightarrow> jdict res" where
  "as_object raw path = (case raw of VDict d \<Rightarrow> Inr d | _ \<Rightarrow> Inl (invalid path '' must be an object''))"

definition as_array :: "jvalue \<Rightarrow> string \<Rightarrow> jvalue list res" where
  "as_array raw path = (case raw of VList vs \<Rightarrow> Inr vs | _ \<Rightarrow> Inl (invalid path '' must be an array''))"

definition as_text :: "jvalue \<Rightarrow> string \<Rightarrow> ustr res" where
  "as_text raw path =
     (case raw of
        VText s \<Rightarrow> if strip s = [] then Inl (invalid path '' must be a non-blank string'') else Inr s
      | _ \<Rightarrow> Inl (invalid path '' must be a non-blank string''))"

definition as_integer :: "jvalue \<Rightarrow> string \<Rightarrow> int res" where
  "as_integer raw path = (case raw of VInt i \<Rightarrow> Inr i | _ \<Rightarrow> Inl (invalid path '' must be an integer''))"

definition as_boolean :: "jvalue \<Rightarrow> string \<Rightarrow> bool res" where
  "as_boolean raw path = (case raw of VBool b \<Rightarrow> Inr b | _ \<Rightarrow> Inl (invalid path '' must be a boolean''))"

text \<open>\<open>float(raw)\<close> of an integer beyond the floats is an \<open>OverflowError\<close>.\<close>

definition float_of_int :: "int \<Rightarrow> pyfloat res" where
  "float_of_int i =
     (let x = flit (of_int i) in if 2 ^ 1024 \<le> \<bar>x\<bar> then Inl OverflowError else Inr x)"

definition as_number :: "jvalue \<Rightarrow> string \<Rightarrow> pyfloat res" where
  "as_number raw path =
     (case raw of
        VInt i \<Rightarrow> float_of_int i
      | VFloat x \<Rightarrow> Inr x
      | VInf \<Rightarrow> Inl (invalid path '' must be finite'')
      | _ \<Rightarrow> Inl (invalid path '' must be a number''))"

text \<open>The text formats of the standard library.\<close>

fun remove_all :: "ustr \<Rightarrow> ustr \<Rightarrow> ustr" where
  "remove_all p [] = []"
| "remove_all p (c # s) =
     (if p \<noteq> [] \<and> take (length p) (c # s) = p then remove_all p (drop (length p - 1) s)
      else c # remove_all p s)"

definition strip_chars :: "nat set \<Rightarrow> ustr \<Rightarrow> ustr" where
  "strip_chars cs s = rev (dropWhile (\<lambda>c. c \<in> cs) (rev (dropWhile (\<lambda>c. c \<in> cs) s)))"

definition hex_digit_value :: "nat \<Rightarrow> nat" where
  "hex_digit_value c = (if c < 58 then c - 48 else if c < 97 then c - 55 else c - 87)"

definition hex_number :: "ustr \<Rightarrow> nat" where
  "hex_number s = foldl (\<lambda>n c. 16 * n + hex_digit_value c) 0 s"

text \<open>\<open>int(s, 16)\<close>\<close>

definition py_int16 :: "unidb \<Rightarrow> ustr \<Rightarrow> int option" where
  "py_int16 db s =
     (if py_int16_ok db s
      then let cs = map (to_ascii_digit db) (strip s);
               n = int (hex_number (filter (\<lambda>c. c \<noteq> 95) (drop_0x (drop_sign cs))))
           in Some (if hd cs = 45 then - n else n)
      else None)"

text \<open>\<open>int(raw)\<close> of a text, at most 4300 digits long.\<close>

fun digit_body :: "bool \<Rightarrow> ustr \<Rightarrow> bool" where
  "digit_body prev [] = (\<not> prev)"
| "digit_body prev (c # cs) =
     (if c = 95 then \<not> prev \<and> digit_body True cs else 48 \<le> c \<and> c \<le> 57 \<and> digit_body False cs)"

definition decimal_number :: "ustr \<Rightarrow> nat" where
  "decimal_number s = foldl (\<lambda>n c. 10 * n + (c - 48)) 0 s"

definition py_int10 :: "unidb \<Rightarrow> ustr \<Rightarrow> int option" where
  "py_int10 db raw =
     (let cs = map (to_ascii_digit db) (strip raw); unsigned = drop_sign cs;
          digits = filter (\<lambda>c. c \<noteq> 95) unsigned
      in if unsigned \<noteq> [] \<and> hd unsigned \<noteq> 95 \<and> digit_body False unsigned \<and> length digits \<le> 4300
         then Some (if hd cs = 45 then - int (decimal_number digits) else int (decimal_number digits))
         else None)"

text \<open>\<open>UUID(value)\<close>\<close>

definition parse_uuid :: "unidb \<Rightarrow> ustr \<Rightarrow> uuid option" where
  "parse_uuid db value =
     (let s = remove_all (uc ''-'') (strip_chars {123, 125}
        (remove_all (uc ''uuid:'') (remove_all (uc ''urn:'') value)))
      in if length s \<noteq> 32 then None
         else case py_int16 db s of
           None \<Rightarrow> None
         | Some n \<Rightarrow> if 0 \<le> n \<and> n < 2 ^ 128 then Some (of_int n) else None)"

definition as_uuid :: "unidb \<Rightarrow> jvalue \<Rightarrow> string \<Rightarrow> uuid res" where
  "as_uuid db raw path =
     rbind (as_text raw path) (\<lambda>value.
     case parse_uuid db value of None \<Rightarrow> Inl (invalid path '' must be a UUID'') | Some i \<Rightarrow> Inr i)"

type_synonym iso_reader = "ustr \<Rightarrow> py_datetime option"

definition zulu_replaced :: "ustr \<Rightarrow> ustr" where
  "zulu_replaced s = concat (map (\<lambda>c. if c = 90 then uc ''+00:00'' else [c]) s)"

definition as_datetime :: "iso_reader \<Rightarrow> jvalue \<Rightarrow> string \<Rightarrow> py_datetime res" where
  "as_datetime read_iso raw path =
     rbind (as_text raw path) (\<lambda>value.
     case read_iso (zulu_replaced value) of
       None \<Rightarrow> Inl (invalid path '' must be an RFC 3339 datetime'')
     | Some t \<Rightarrow>
         rbind (raise_if (offset t = None) (invalid path '' must include a UTC offset'')) (\<lambda>_. Inr t))"

definition as_optional_datetime :: "iso_reader \<Rightarrow> jvalue \<Rightarrow> string \<Rightarrow> py_datetime option res" where
  "as_optional_datetime read_iso raw path =
     (if raw = VNull then Inr None else rbind (as_datetime read_iso raw path) (\<lambda>t. Inr (Some t)))"

text \<open>A comprehension over \<open>enumerate(items)\<close>.\<close>

definition at_index :: "string \<Rightarrow> nat \<Rightarrow> string" where
  "at_index path i = path @ ''['' @ message (int_str (int i)) @ '']''"

definition parse_all :: "(jvalue \<Rightarrow> string \<Rightarrow> 'a res) \<Rightarrow> string \<Rightarrow> jvalue list \<Rightarrow> 'a list res" where
  "parse_all f path vs = rmap (\<lambda>(i, v). f v (at_index path i)) (List.enumerate 0 vs)"

subsection \<open>Parts of a case\<close>

definition parse_reference :: "unidb \<Rightarrow> jvalue \<Rightarrow> string \<Rightarrow> memory_reference res" where
  "parse_reference db raw path =
     rbind (as_object raw path) (\<lambda>value.
     rbind (check_fields value path [] [''case_id'', ''record_id'', ''revision_id'']) (\<lambda>_.
     let c = get_field value ''case_id''; r = get_field value ''record_id'';
         v = get_field value ''revision_id''
     in if c \<noteq> VNull
        then rbind (raise_if (r \<noteq> VNull \<or> v \<noteq> VNull) (invalid path '' must use a case_id or a UUID pair'')) (\<lambda>_.
             rbind (as_text c (path @ ''.case_id'')) from_case)
        else rbind (raise_if (r = VNull \<or> v = VNull)
               (invalid path '' must contain case_id or both UUID fields'')) (\<lambda>_.
             rbind (as_uuid db r (path @ ''.record_id'')) (\<lambda>record_id.
             rbind (as_uuid db v (path @ ''.revision_id'')) (\<lambda>revision_id.
             from_ids record_id revision_id)))))"

definition parse_scope :: "jvalue \<Rightarrow> string \<Rightarrow> scope res" where
  "parse_scope raw path =
     rbind (as_object raw path) (\<lambda>value.
     rbind (check_fields value path [''tenant_id'', ''subject_id''] [''tenant_id'', ''subject_id'']) (\<lambda>_.
     rbind (as_text (get_field value ''tenant_id'') (path @ ''.tenant_id'')) (\<lambda>tenant.
     rbind (as_text (get_field value ''subject_id'') (path @ ''.subject_id'')) (\<lambda>subject.
     mk_scope tenant subject))))"

definition as_facet :: "string \<Rightarrow> ustr \<times> jvalue \<Rightarrow> (ustr \<times> ustr) res" where
  "as_facet path = (\<lambda>(key, item).
     case item of VText s \<Rightarrow> Inr (key, s) | _ \<Rightarrow> Inl (invalid path '' values must be strings''))"

definition parse_context :: "jvalue \<Rightarrow> string \<Rightarrow> context_sig res" where
  "parse_context raw path =
     rbind (as_object raw path) (\<lambda>value.
     rbind (rmap (as_facet path) value) (\<lambda>fs. from_mapping (Some fs)))"

definition parse_expected_utility :: "unidb \<Rightarrow> jvalue \<Rightarrow> string \<Rightarrow> expected_utility res" where
  "parse_expected_utility db raw path =
     rbind (as_object raw path) (\<lambda>value.
     rbind (check_fields value path [''memory'', ''mean''] [''memory'', ''mean'']) (\<lambda>_.
     rbind (parse_reference db (get_field value ''memory'') (path @ ''.memory'')) (\<lambda>memory.
     rbind (as_number (get_field value ''mean'') (path @ ''.mean'')) (\<lambda>mean.
     mk_expected_utility memory mean))))"

definition parse_preference_expectation :: "jvalue \<Rightarrow> string \<Rightarrow> (int option \<times> bool option) res" where
  "parse_preference_expectation raw path =
     (if raw = VNull then Inr (None, None)
      else
        rbind (as_object raw path) (\<lambda>value.
        rbind (check_fields value path [] [''sequence'', ''idempotent_replay'']) (\<lambda>_.
        let sequence = get_field value ''sequence''; idempotent = get_field value ''idempotent_replay''
        in rbind (if sequence = VNull then Inr None
             else rbind (as_integer sequence (path @ ''.sequence'')) (\<lambda>n. Inr (Some n))) (\<lambda>parsed.
           rbind (if idempotent = VNull then Inr None
             else rbind (as_boolean idempotent (path @ ''.idempotent_replay'')) (\<lambda>b. Inr (Some b))) (\<lambda>replay.
           Inr (parsed, replay))))))"

subsection \<open>Cases\<close>

definition timeline_field :: "int \<Rightarrow> string list" where
  "timeline_field schema = (if schema = 2 then [''run_at''] else [])"

definition parse_write :: "unidb \<Rightarrow> iso_reader \<Rightarrow> int \<Rightarrow> jdict \<Rightarrow> string \<Rightarrow> write_case res" where
  "parse_write db read_iso schema raw path =
     (let required = [''type'', ''id'', ''scope'', ''source'', ''idempotency_key'', ''key'', ''value'',
        ''context'', ''evidence_text'', ''confidence'', ''occurred_at''] @ timeline_field schema
      in rbind (check_fields raw path required (''expected'' # required)) (\<lambda>_.
         rbind (parse_preference_expectation (get_field raw ''expected'') (path @ ''.expected'')) (\<lambda>(sequence, idempotent).
         rbind (as_text (get_field raw ''id'') (path @ ''.id'')) (\<lambda>case_id.
         rbind (parse_scope (get_field raw ''scope'') (path @ ''.scope'')) (\<lambda>sc.
         rbind (as_text (get_field raw ''source'') (path @ ''.source'')) (\<lambda>source.
         rbind (as_text (get_field raw ''idempotency_key'') (path @ ''.idempotency_key'')) (\<lambda>idempotency_key.
         rbind (as_text (get_field raw ''key'') (path @ ''.key'')) (\<lambda>key.
         rbind (as_text (get_field raw ''value'') (path @ ''.value'')) (\<lambda>value.
         rbind (parse_context (get_field raw ''context'') (path @ ''.context'')) (\<lambda>ctx.
         rbind (as_text (get_field raw ''evidence_text'') (path @ ''.evidence_text'')) (\<lambda>evidence_text.
         rbind (as_number (get_field raw ''confidence'') (path @ ''.confidence'')) (\<lambda>confidence.
         rbind (as_datetime read_iso (get_field raw ''occurred_at'') (path @ ''.occurred_at'')) (\<lambda>occurred_at.
         rbind (mk_remember sc source idempotency_key key value ctx evidence_text confidence occurred_at) (\<lambda>command.
         rbind (as_optional_datetime read_iso (get_field raw ''run_at'') (path @ ''.run_at'')) (\<lambda>run_at.
         mk_write_case case_id command sequence idempotent run_at)))))))))))))))"

text \<open>\<open>raw.get(name, default)\<close>: the default for a missing field only.\<close>

definition get_default :: "jdict \<Rightarrow> string \<Rightarrow> jvalue \<Rightarrow> jvalue" where
  "get_default d name otherwise = (case map_of d (uc name) of None \<Rightarrow> otherwise | Some v \<Rightarrow> v)"

definition parse_correction :: "unidb \<Rightarrow> iso_reader \<Rightarrow> int \<Rightarrow> jdict \<Rightarrow> string \<Rightarrow> correction_case res" where
  "parse_correction db read_iso schema raw path =
     (let required = [''type'', ''id'', ''target'', ''scope'', ''source'', ''idempotency_key'', ''value'',
        ''evidence_text'', ''reason'', ''occurred_at''] @ timeline_field schema
      in rbind (check_fields raw path required ([''enforce_expected_revision'', ''expected''] @ required)) (\<lambda>_.
         rbind (parse_preference_expectation (get_field raw ''expected'') (path @ ''.expected'')) (\<lambda>(sequence, idempotent).
         rbind (as_boolean (get_default raw ''enforce_expected_revision'' (VBool True))
           (path @ ''.enforce_expected_revision'')) (\<lambda>enforce.
         rbind (as_text (get_field raw ''id'') (path @ ''.id'')) (\<lambda>case_id.
         rbind (parse_reference db (get_field raw ''target'') (path @ ''.target'')) (\<lambda>target.
         rbind (parse_scope (get_field raw ''scope'') (path @ ''.scope'')) (\<lambda>sc.
         rbind (as_text (get_field raw ''source'') (path @ ''.source'')) (\<lambda>source.
         rbind (as_text (get_field raw ''idempotency_key'') (path @ ''.idempotency_key'')) (\<lambda>idempotency_key.
         rbind (as_text (get_field raw ''value'') (path @ ''.value'')) (\<lambda>value.
         rbind (as_text (get_field raw ''evidence_text'') (path @ ''.evidence_text'')) (\<lambda>evidence_text.
         rbind (as_text (get_field raw ''reason'') (path @ ''.reason'')) (\<lambda>reason.
         rbind (as_datetime read_iso (get_field raw ''occurred_at'') (path @ ''.occurred_at'')) (\<lambda>occurred_at.
         rbind (as_optional_datetime read_iso (get_field raw ''run_at'') (path @ ''.run_at'')) (\<lambda>run_at.
         mk_correction_case case_id target sc source idempotency_key value evidence_text reason occurred_at
           enforce sequence idempotent run_at))))))))))))))"

text \<open>The labels of a recall: \<open>expected_error\<close> is the one rejection the evaluator knows.\<close>

definition parse_rejection :: "jvalue \<Rightarrow> string \<Rightarrow> recall_rejection option res" where
  "parse_rejection raw path =
     (if raw = VNull then Inr None
      else
        rbind (as_text raw path) (\<lambda>name.
        if name = rejection_value FUTURE_KNOWN_AT then Inr (Some FUTURE_KNOWN_AT)
        else Inl (invalid path '' is an unsupported recall rejection'')))"

definition parse_recall :: "unidb \<Rightarrow> iso_reader \<Rightarrow> int \<Rightarrow> int \<Rightarrow> jdict \<Rightarrow> string \<Rightarrow> recall_case res" where
  "parse_recall db read_iso schema recall_k raw path =
     (let required = [''type'', ''id'', ''scope'', ''query'', ''context'', ''limit'', ''expected''] @
        timeline_field schema
      in rbind (check_fields raw path required ([''valid_at'', ''known_at''] @ required)) (\<lambda>_.
         rbind (as_integer (get_field raw ''limit'') (path @ ''.limit'')) (\<lambda>limit.
         rbind (raise_if (limit < recall_k) (invalid path ''.limit must be at least dataset.recall_k'')) (\<lambda>_.
         rbind (as_object (get_field raw ''expected'') (path @ ''.expected'')) (\<lambda>expected.
         rbind (check_fields expected (path @ ''.expected'') [''relevant'', ''forbidden'', ''abstain'']
           ([''relevant'', ''forbidden'', ''abstain''] @
            (if schema = 2 then [''utilities'', ''error''] else []))) (\<lambda>_.
         rbind (as_boolean (get_field expected ''abstain'') (path @ ''.expected.abstain'')) (\<lambda>abstain.
         rbind (as_array (get_field expected ''relevant'') (path @ ''.expected.relevant'')) (\<lambda>raw_relevant.
         rbind (parse_all (parse_reference db) (path @ ''.expected.relevant'') raw_relevant) (\<lambda>relevant.
         rbind (as_array (get_field expected ''forbidden'') (path @ ''.expected.forbidden'')) (\<lambda>raw_forbidden.
         rbind (parse_all (parse_reference db) (path @ ''.expected.forbidden'') raw_forbidden) (\<lambda>forbidden.
         rbind (as_array (get_default expected ''utilities'' (VList [])) (path @ ''.expected.utilities'')) (\<lambda>raw_utilities.
         rbind (parse_all (parse_expected_utility db) (path @ ''.expected.utilities'') raw_utilities) (\<lambda>utilities.
         rbind (parse_rejection (get_field expected ''error'') (path @ ''.expected.error'')) (\<lambda>expected_error.
         rbind (raise_if (relevant = [] \<and> forbidden = [] \<and> \<not> abstain \<and> utilities = [] \<and> expected_error = None)
           (invalid path ''.expected must contain an evaluation label'')) (\<lambda>_.
         rbind (as_text (get_field raw ''id'') (path @ ''.id'')) (\<lambda>case_id.
         rbind (parse_scope (get_field raw ''scope'') (path @ ''.scope'')) (\<lambda>sc.
         rbind (as_text (get_field raw ''query'') (path @ ''.query'')) (\<lambda>query.
         rbind (parse_context (get_field raw ''context'') (path @ ''.context'')) (\<lambda>ctx.
         rbind (as_optional_datetime read_iso (get_field raw ''valid_at'') (path @ ''.valid_at'')) (\<lambda>valid_at.
         rbind (as_optional_datetime read_iso (get_field raw ''known_at'') (path @ ''.known_at'')) (\<lambda>known_at.
         rbind (mk_recall sc query ctx limit valid_at known_at) (\<lambda>command.
         rbind (as_optional_datetime read_iso (get_field raw ''run_at'') (path @ ''.run_at'')) (\<lambda>run_at.
         mk_recall_case case_id command relevant forbidden abstain utilities expected_error run_at)))))))))))))))))))))))"

definition outcome_kind_of :: "ustr \<Rightarrow> outcome_kind option" where
  "outcome_kind_of name =
     (case filter (\<lambda>k. outcome_kind_value k = name) [HELPFUL, OC_ACCEPTED, HARMFUL, OC_REJECTED, CORRECTED] of
        [] \<Rightarrow> None | k # _ \<Rightarrow> Some k)"

definition parse_outcome :: "unidb \<Rightarrow> iso_reader \<Rightarrow> jdict \<Rightarrow> string \<Rightarrow> outcome_case res" where
  "parse_outcome db read_iso raw path =
     (let required = [''type'', ''id'', ''trace'', ''memory'', ''scope'', ''kind'', ''idempotency_key'',
        ''occurred_at'', ''run_at'', ''expected'']
      in rbind (check_fields raw path required ([''weight'', ''note''] @ required)) (\<lambda>_.
         rbind (as_object (get_field raw ''expected'') (path @ ''.expected'')) (\<lambda>expected.
         rbind (check_fields expected (path @ ''.expected'') [''utility_mean'', ''idempotent_replay'']
           [''utility_mean'', ''idempotent_replay'']) (\<lambda>_.
         rbind (as_boolean (get_field expected ''idempotent_replay'') (path @ ''.expected.idempotent_replay'')) (\<lambda>idempotent.
         rbind (as_text (get_field raw ''kind'') (path @ ''.kind'')) (\<lambda>kind_raw.
         rbind (case outcome_kind_of kind_raw of None \<Rightarrow> Inl (invalid path ''.kind is unsupported'')
           | Some k \<Rightarrow> Inr k) (\<lambda>kind.
         rbind (as_text (get_field raw ''id'') (path @ ''.id'')) (\<lambda>case_id.
         rbind (as_text (get_field raw ''trace'') (path @ ''.trace'')) (\<lambda>trace_case_id.
         rbind (parse_reference db (get_field raw ''memory'') (path @ ''.memory'')) (\<lambda>memory.
         rbind (parse_scope (get_field raw ''scope'') (path @ ''.scope'')) (\<lambda>sc.
         rbind (as_text (get_field raw ''idempotency_key'') (path @ ''.idempotency_key'')) (\<lambda>idempotency_key.
         rbind (as_datetime read_iso (get_field raw ''occurred_at'') (path @ ''.occurred_at'')) (\<lambda>occurred_at.
         rbind (as_number (get_default raw ''weight'' (VFloat 1)) (path @ ''.weight'')) (\<lambda>weight.
         rbind (if get_field raw ''note'' = VNull then Inr None
           else rbind (as_text (get_field raw ''note'') (path @ ''.note'')) (\<lambda>s. Inr (Some s))) (\<lambda>note.
         rbind (as_number (get_field expected ''utility_mean'') (path @ ''.expected.utility_mean'')) (\<lambda>utility_mean.
         rbind (as_datetime read_iso (get_field raw ''run_at'') (path @ ''.run_at'')) (\<lambda>run_at.
         mk_outcome_case case_id trace_case_id memory sc kind idempotency_key occurred_at weight note
           (Some utility_mean) (Some idempotent) (Some run_at))))))))))))))))))"

definition parse_case :: "unidb \<Rightarrow> iso_reader \<Rightarrow> int \<Rightarrow> int \<Rightarrow> jvalue \<Rightarrow> string \<Rightarrow> replay_case res" where
  "parse_case db read_iso schema recall_k raw path =
     rbind (as_object raw path) (\<lambda>value.
     rbind (as_text (get_field value ''type'') (path @ ''.type'')) (\<lambda>case_type.
     if case_type = uc ''write'' then rbind (parse_write db read_iso schema value path) (\<lambda>c. Inr (WriteCase c))
     else if case_type = uc ''correction''
     then rbind (parse_correction db read_iso schema value path) (\<lambda>c. Inr (CorrectionCase c))
     else if case_type = uc ''recall''
     then rbind (parse_recall db read_iso schema recall_k value path) (\<lambda>c. Inr (RecallCase c))
     else if case_type = uc ''outcome'' \<and> schema = 2
     then rbind (parse_outcome db read_iso value path) (\<lambda>c. Inr (OutcomeCase c))
     else Inl (invalid path ''.type is unsupported'')))"

subsection \<open>Datasets\<close>

definition parse_dataset :: "unidb \<Rightarrow> iso_reader \<Rightarrow> jdict \<Rightarrow> evaluation_dataset res" where
  "parse_dataset db read_iso raw =
     (let required = [''schema_version'', ''name'', ''version'', ''recall_k'', ''cases'']
      in rbind (check_fields raw ''dataset'' required required) (\<lambda>_.
         rbind (as_integer (get_field raw ''schema_version'') ''dataset.schema_version'') (\<lambda>schema.
         rbind (raise_if (schema \<noteq> 1 \<and> schema \<noteq> 2)
           (DatasetValidationError ''unsupported dataset schema_version'')) (\<lambda>_.
         rbind (as_integer (get_field raw ''recall_k'') ''dataset.recall_k'') (\<lambda>recall_k.
         rbind (as_array (get_field raw ''cases'') ''dataset.cases'') (\<lambda>raw_cases.
         rbind (parse_all (parse_case db read_iso schema recall_k) ''dataset.cases'' raw_cases) (\<lambda>cases.
         rbind (as_text (get_field raw ''name'') ''dataset.name'') (\<lambda>name.
         rbind (as_text (get_field raw ''version'') ''dataset.version'') (\<lambda>version.
         mk_dataset name version cases recall_k schema)))))))))"

text \<open>The handlers of \<open>dataset_from_json\<close>: a violation of the domain rules becomes an error of the
  dataset, other exceptions pass.\<close>

fun contract_error :: "py_error \<Rightarrow> py_error" where
  "contract_error (DomainError m) =
     DatasetValidationError (''dataset violates the evaluation contract: '' @ m)"
| "contract_error (NotFoundError m) =
     DatasetValidationError (''dataset violates the evaluation contract: '' @ m)"
| "contract_error (ConflictError m) =
     DatasetValidationError (''dataset violates the evaluation contract: '' @ m)"
| "contract_error (AttributionError m) =
     DatasetValidationError (''dataset violates the evaluation contract: '' @ m)"
| "contract_error e = e"

definition json_decode_error :: py_error where
  "json_decode_error = ExternalError ''JSONDecodeError''"

definition dataset_from_json :: "unidb \<Rightarrow> iso_reader \<Rightarrow> parse_tree \<Rightarrow> evaluation_dataset res" where
  "dataset_from_json db read_iso tree =
     (case decode tree of
        Inl e \<Rightarrow> Inl (if e = json_decode_error then DatasetValidationError ''dataset is not valid JSON'' else e)
      | Inr raw \<Rightarrow>
          (case rbind (as_object raw ''dataset'') (parse_dataset db read_iso) of
             Inl e \<Rightarrow> Inl (contract_error e)
           | Inr d \<Rightarrow> Inr d))"

definition builtin_datasets :: "(ustr \<times> ustr) list" where
  "builtin_datasets = [(uc ''smoke-v1'', uc ''smoke-v1.json''), (uc ''temporal-v1'', uc ''temporal-v1.json'')]"

definition list_builtin_datasets :: "ustr list" where
  "list_builtin_datasets = sort (map (\<lambda>(name, _). uc ''builtin:'' @ name) builtin_datasets)"

text \<open>
  What \<open>read_text\<close> answers: the text, an \<open>OSError\<close>, which the code turns into an error of the dataset, or an error of
  another class: a \<open>UnicodeDecodeError\<close> for bytes that are not UTF-8, a \<open>ValueError\<close> for a path with a NUL.
\<close>

datatype file_text = FileText ustr | FileUnavailable | FileError py_error

definition text_or :: "string \<Rightarrow> file_text \<Rightarrow> ustr res" where
  "text_or problem answer =
     (case answer of
        FileText source \<Rightarrow> Inr source
      | FileUnavailable \<Rightarrow> Inl (DatasetValidationError problem)
      | FileError e \<Rightarrow> Inl e)"

definition load_dataset ::
  "unidb \<Rightarrow> iso_reader \<Rightarrow> (ustr \<Rightarrow> parse_tree) \<Rightarrow> (ustr \<Rightarrow> file_text) \<Rightarrow> (ustr \<Rightarrow> file_text) \<Rightarrow>
   ustr \<Rightarrow> evaluation_dataset res" where
  "load_dataset db read_iso json_read read_resource read_file specifier =
     (let normalized = strip specifier; prefix = uc ''builtin:''
      in rbind (raise_if (normalized = []) (DatasetValidationError ''dataset specifier must not be blank'')) (\<lambda>_.
         rbind (if take (length prefix) normalized = prefix
           then case map_of builtin_datasets (drop (length prefix) normalized) of
               None \<Rightarrow> Inl (DatasetValidationError ''unknown built-in dataset'')
             | Some resource_name \<Rightarrow>
                 text_or ''built-in dataset resource is unavailable'' (read_resource resource_name)
           else text_or ''dataset file cannot be read'' (read_file normalized)) (\<lambda>source.
         dataset_from_json db read_iso (json_read source))))"

end
