(* ===== verification/Identity.thy ===== *)
theory Identity
  imports Raising Loader Authorization
begin

text \<open>
  \<open>api/security.py\<close>: who calls.  A bearer token becomes an actor with the grants its claims carry.  The
  decoded claims are Python values as a JSON decoder gives them (\<open>jvalue\<close>); PyJWT, which reads the header,
  finds the key and checks signature, audience, issuer and expiry, is the argument \<open>jwt_library\<close>.
\<close>

subsection \<open>Claims\<close>

definition required_text_claim :: "jdict \<Rightarrow> string \<Rightarrow> ustr res" where
  "required_text_claim claims name =
     (case get_field claims name of
        VText value \<Rightarrow>
          if strip value = []
          then Inl (AuthenticationError (''access token claim '' @ name @ '' is missing or invalid''))
          else Inr (strip value)
      | _ \<Rightarrow> Inl (AuthenticationError (''access token claim '' @ name @ '' is missing or invalid'')))"

definition optional_text_claim :: "jdict \<Rightarrow> string \<Rightarrow> ustr option res" where
  "optional_text_claim claims name =
     (case get_field claims name of
        VNull \<Rightarrow> Inr None
      | VText value \<Rightarrow>
          if strip value = [] then Inl (AuthenticationError (''access token claim '' @ name @ '' is invalid''))
          else Inr (Some (strip value))
      | _ \<Rightarrow> Inl (AuthenticationError (''access token claim '' @ name @ '' is invalid'')))"

definition text_item :: "string \<Rightarrow> jvalue \<Rightarrow> ustr res" where
  "text_item name item =
     (case item of
        VText value \<Rightarrow>
          if strip value = [] then Inl (AuthenticationError (''access token claim '' @ name @ '' is invalid''))
          else Inr (strip value)
      | _ \<Rightarrow> Inl (AuthenticationError (''access token claim '' @ name @ '' is invalid'')))"

definition text_list_claim :: "jdict \<Rightarrow> string \<Rightarrow> ustr list res" where
  "text_list_claim claims name =
     (case get_field claims name of
        VList items \<Rightarrow>
          if items = []
          then Inl (AuthenticationError (''access token claim '' @ name @ '' is missing or invalid''))
          else rmap (text_item name) items
      | _ \<Rightarrow> Inl (AuthenticationError (''access token claim '' @ name @ '' is missing or invalid'')))"

text \<open>\<open>value.split()\<close>: the words between white space; \<open>cur\<close> is the current word, reversed.\<close>

fun split_words :: "ustr \<Rightarrow> ustr \<Rightarrow> ustr list" where
  "split_words cur [] = (if cur = [] then [] else [rev cur])"
| "split_words cur (c # cs) =
     (if is_space c then (if cur = [] then split_words [] cs else rev cur # split_words [] cs)
      else split_words (c # cur) cs)"

fun as_text_item :: "jvalue \<Rightarrow> ustr option" where
  "as_text_item (VText s) = Some s"
| "as_text_item _ = None"

definition scope_claim :: "jvalue \<Rightarrow> ustr list res" where
  "scope_claim value =
     (case value of
        VText s \<Rightarrow> Inr (split_words [] s)
      | VList items \<Rightarrow>
          if list_all (\<lambda>i. as_text_item i \<noteq> None) items
          then Inr (filter (\<lambda>s. s \<noteq> []) (map (\<lambda>i. strip (the (as_text_item i))) items))
          else Inl (AuthenticationError ''access token scope claim is missing or invalid'')
      | _ \<Rightarrow> Inl (AuthenticationError ''access token scope claim is missing or invalid''))"

text \<open>\<open>except ValueError\<close>: the class with its subclasses.\<close>

fun is_value_error :: "py_error \<Rightarrow> bool" where
  "is_value_error (DomainError _) = True"
| "is_value_error (NotFoundError _) = True"
| "is_value_error (ConflictError _) = True"
| "is_value_error (AttributionError _) = True"
| "is_value_error (ValueError _) = True"
| "is_value_error (DatasetValidationError _) = True"
| "is_value_error _ = False"

definition valid_grant :: "access_grant res \<Rightarrow> access_grant res" where
  "valid_grant m =
     (case m of
        Inl e \<Rightarrow> Inl (if is_value_error e then AuthenticationError ''memory access grant is invalid'' else e)
      | Inr grant \<Rightarrow> Inr grant)"

definition explicit_grant :: "access_grant \<Rightarrow> bool" where
  "explicit_grant g \<longleftrightarrow> \<not> (ag_tenant_id g = star \<or> star \<in> set (ag_subject_ids g) \<or> star \<in> set (ag_purposes g))"

definition access_grant_claim :: "jvalue \<Rightarrow> access_grant res" where
  "access_grant_claim value =
     (case value of
        VDict d \<Rightarrow>
          rbind (required_text_claim d ''tenant_id'') (\<lambda>tenant.
          rbind (text_list_claim d ''subject_ids'') (\<lambda>subjects.
          rbind (text_list_claim d ''roles'') (\<lambda>roles.
          rbind (text_list_claim d ''purposes'') (\<lambda>purposes.
          rbind (valid_grant (mk_access_grant tenant subjects roles purposes)) (\<lambda>grant.
          rbind (raise_if (\<not> explicit_grant grant)
            (AuthenticationError ''JWT memory access grants must use explicit scope'')) (\<lambda>_.
          Inr grant))))))
      | _ \<Rightarrow> Inl (AuthenticationError ''memory access grant must be an object''))"

text \<open>\<open>PrincipalKind(str(raw_kind))\<close>; the text of a value that is no string names no kind.\<close>

definition principal_kind_claim :: "jvalue \<Rightarrow> principal_kind res" where
  "principal_kind_claim raw =
     (if raw = VText (uc ''user'') then Inr USER
      else if raw = VText (uc ''service'') then Inr SERVICE
      else Inl (AuthenticationError ''access token principal type is invalid''))"

definition actor_from_claims :: "jdict \<Rightarrow> ustr \<Rightarrow> actor_context res" where
  "actor_from_claims claims required_scope =
     rbind (required_text_claim claims ''sub'') (\<lambda>principal_id.
     rbind (scope_claim (get_field claims ''scope'')) (\<lambda>token_scopes.
     rbind (raise_if (required_scope \<notin> set token_scopes)
       (AuthenticationError ''access token is missing the required API scope'')) (\<lambda>_.
     rbind (case get_field claims ''memory_access'' of
         VList items \<Rightarrow> if items = [] then Inl (AuthenticationError ''access token has no memory access grants'')
           else Inr items
       | _ \<Rightarrow> Inl (AuthenticationError ''access token has no memory access grants'')) (\<lambda>raw_access.
     rbind (rmap access_grant_claim raw_access) (\<lambda>grants.
     rbind (principal_kind_claim (get_default claims ''principal_type'' (VText (uc ''user'')))) (\<lambda>kind.
     rbind (optional_text_claim claims ''client_id'') (\<lambda>given.
     rbind (if given = None then optional_text_claim claims ''azp'' else Inr given) (\<lambda>client_id.
     rbind (optional_text_claim claims ''jti'') (\<lambda>token_id.
     mk_actor principal_id kind grants (uc ''oauth2_jwt'') client_id token_id)))))))))"

subsection \<open>Resolvers\<close>

text \<open>\<open>DevelopmentIdentityResolver\<close>\<close>

definition development_authenticate :: "ustr option \<Rightarrow> actor_context res" where
  "development_authenticate token =
     rbind (mk_access_grant star [star] [uc ''development_admin''] [star]) (\<lambda>grant.
     mk_actor (uc ''development-console'') USER [grant] (uc ''development'') (Some (uc ''memory-console'')) None)"

text \<open>\<open>JwtIdentityResolver\<close> with PyJWT and the source of its signing keys.\<close>

record 'k jwt_library =
  jl_header :: "ustr \<Rightarrow> jdict res"
  jl_key_for :: "ustr \<Rightarrow> 'k res"
  jl_decode :: "ustr \<Rightarrow> 'k \<Rightarrow> ustr list \<Rightarrow> ustr \<Rightarrow> ustr \<Rightarrow> jdict res"

record jwt_resolver =
  jw_issuer :: ustr
  jw_audience :: ustr
  jw_algorithms :: "ustr list"
  jw_required_scope :: ustr

text \<open>\<open>header.get("typ") not in {...}\<close>: a set membership, so a list or an object raises \<open>TypeError\<close>.\<close>

definition check_token_type :: "jvalue \<Rightarrow> unit res" where
  "check_token_type typ =
     (case typ of
        VList _ \<Rightarrow> Inl (ExternalError ''TypeError'')
      | VDict _ \<Rightarrow> Inl (ExternalError ''TypeError'')
      | _ \<Rightarrow> raise_if (typ \<notin> {VText (uc ''at+jwt''), VText (uc ''application/at+jwt'')})
          (AuthenticationError ''token is not an access token''))"

text \<open>\<open>except AuthenticationError: raise; except Exception: raise AuthenticationError\<close>\<close>

fun validation_error :: "py_error \<Rightarrow> py_error" where
  "validation_error (AuthenticationError m) = AuthenticationError m"
| "validation_error _ = AuthenticationError ''access token validation failed''"

definition jwt_claims :: "'k jwt_library \<Rightarrow> jwt_resolver \<Rightarrow> ustr \<Rightarrow> jdict res" where
  "jwt_claims J R token =
     rbind (jl_header J token) (\<lambda>header.
     rbind (check_token_type (get_field header ''typ'')) (\<lambda>_.
     rbind (jl_key_for J token) (\<lambda>key.
     jl_decode J token key (jw_algorithms R) (jw_audience R) (jw_issuer R))))"

definition jwt_authenticate :: "'k jwt_library \<Rightarrow> jwt_resolver \<Rightarrow> ustr option \<Rightarrow> actor_context res" where
  "jwt_authenticate J R token =
     (case token of
        None \<Rightarrow> Inl (AuthenticationError ''bearer access token is required'')
      | Some t \<Rightarrow>
          (case jwt_claims J R t of
             Inl e \<Rightarrow> Inl (validation_error e)
           | Inr claims \<Rightarrow> actor_from_claims claims (jw_required_scope R)))"

subsection \<open>Grants from a token are explicit\<close>

lemma covers_explicit:
  "explicit_grant g \<Longrightarrow> covers g sc \<longleftrightarrow> ag_tenant_id g = tenant_id sc \<and> subject_id sc \<in> set (ag_subject_ids g)"
  by (auto simp: explicit_grant_def covers_def)

lemma permits_explicit: "explicit_grant g \<Longrightarrow> permits_purpose g p \<longleftrightarrow> p \<in> set (ag_purposes g)"
  by (simp add: explicit_grant_def permits_purpose_def)

lemma access_grant_explicit: "access_grant_claim v = Inr g \<Longrightarrow> explicit_grant g"
  by (auto simp: access_grant_claim_def res_simps split: jvalue.splits)

lemma mk_actor_Inr: "mk_actor i k gs a c t = Inr actor \<Longrightarrow> ac_grants actor = gs \<and> gs \<noteq> []"
  by (auto simp: mk_actor_def res_simps)

lemma claims_actor:
  assumes "actor_from_claims claims required = Inr actor"
  shows "(\<exists>scopes. scope_claim (get_field claims ''scope'') = Inr scopes \<and> required \<in> set scopes) \<and>
    (\<exists>items. get_field claims ''memory_access'' = VList items \<and> rmap access_grant_claim items = Inr (ac_grants actor)) \<and>
    ac_grants actor \<noteq> []"
  using assms unfolding actor_from_claims_def rbind_Inr
  by (auto simp: res_simps split: jvalue.splits if_splits dest!: mk_actor_Inr)

lemma actor_explicit:
  assumes "actor_from_claims claims required = Inr actor" "g \<in> set (ac_grants actor)"
  shows "explicit_grant g"
proof -
  obtain items where "rmap access_grant_claim items = Inr (ac_grants actor)"
    using claims_actor [OF assms(1)] by blast
  then have "list_all2 (\<lambda>x y. access_grant_claim x = Inr y) items (ac_grants actor)" by (simp add: rmap_Inr_iff)
  then obtain v where "access_grant_claim v = Inr g"
    using assms(2) by (auto simp: in_set_conv_nth list_all2_conv_all_nth)
  then show ?thesis by (rule access_grant_explicit)
qed

subsection \<open>Authentication fails with an authentication error only\<close>

definition authentication_errors :: "py_error set" where
  "authentication_errors = range AuthenticationError"

lemma authentication_error [simp]: "AuthenticationError m \<in> authentication_errors"
  by (simp add: authentication_errors_def)

abbreviation authenticates :: "'a res \<Rightarrow> bool" where "authenticates \<equiv> raises_in authentication_errors"

lemma raises_jvalue:
  assumes "raises_in S (f1)" "\<And>x. raises_in S (f2 x)" "\<And>x. raises_in S (f3 x)" "\<And>x. raises_in S (f4 x)" "raises_in S f5"
    "\<And>x. raises_in S (f6 x)" "\<And>x. raises_in S (f7 x)" "\<And>x. raises_in S (f8 x)"
  shows "raises_in S (case v of VNull \<Rightarrow> f1 | VBool b \<Rightarrow> f2 b | VInt i \<Rightarrow> f3 i | VFloat x \<Rightarrow> f4 x | VInf \<Rightarrow> f5
    | VText t \<Rightarrow> f6 t | VList l \<Rightarrow> f7 l | VDict d \<Rightarrow> f8 d)"
  using assms by (cases v) simp_all

lemmas authenticates_intros = raises_basic raises_cases raises_jvalue authentication_error

lemma authenticates_claims:
  "authenticates (required_text_claim d n)" "authenticates (optional_text_claim d n)"
  "authenticates (text_item n v)" "authenticates (scope_claim v)" "authenticates (principal_kind_claim v)"
  unfolding required_text_claim_def optional_text_claim_def text_item_def scope_claim_def principal_kind_claim_def
  by (intro authenticates_intros)+

lemma authenticates_list: "authenticates (text_list_claim d n)"
  unfolding text_list_claim_def by (intro authenticates_intros authenticates_claims)

lemma authenticates_grant: "authenticates (access_grant_claim v)"
proof -
  have "is_value_error e" if "mk_access_grant t ss rs ps = Inl e" for t ss rs ps e
    using that by (auto simp: mk_access_grant_def normalized_values_def require_text_def Let_def res_simps dest!: rmap_Inl)
  then have "authenticates (valid_grant (mk_access_grant t ss rs ps))" for t ss rs ps
    by (auto simp: valid_grant_def raises_in_def split: sum.split)
  then show ?thesis
    unfolding access_grant_claim_def by (intro authenticates_intros authenticates_claims authenticates_list)
qed

lemma claim_stripped:
  "required_text_claim d n = Inr s \<Longrightarrow> stripped s"
  "optional_text_claim d n = Inr (Some s) \<Longrightarrow> stripped s"
  by (auto simp: required_text_claim_def optional_text_claim_def split: jvalue.splits if_splits intro: strip_stripped)

lemma authenticates_actor: "authenticates (actor_from_claims claims required)"
proof -
  have stripped: "stripped (uc ''oauth2_jwt'')" by (simp add: stripped_def is_space_def)
  have actor: "authenticates (mk_actor i k gs (uc ''oauth2_jwt'') c t)"
    if "stripped i" "gs \<noteq> []" "\<And>s. c = Some s \<Longrightarrow> stripped s" "\<And>s. t = Some s \<Longrightarrow> stripped s" for i k gs c t
    using that stripped by (cases c; cases t) (simp_all add: mk_actor_def require_text_stripped raises_basic del: uc_simps)
  show ?thesis
    unfolding actor_from_claims_def
    apply (intro raises_after authenticates_intros authenticates_claims authenticates_grant)
    apply (rule actor)
    apply (auto simp: rmap_Inr_iff claim_stripped split: jvalue.splits if_splits)
    done
qed

lemma authenticates_jwt: "authenticates (jwt_authenticate J R token)"
proof -
  have "validation_error e \<in> authentication_errors" for e by (cases e) simp_all
  then show ?thesis
    using authenticates_actor unfolding jwt_authenticate_def
    by (auto simp: raises_in_def split: option.split sum.split)
qed

end
