(* ===== verification/Http.thy ===== *)
theory Http
  imports Responses Access Identity
begin

text \<open>
  \<open>api/app.py\<close> and \<open>api/middleware.py\<close>: the HTTP interface.  A request meets the middleware, which bounds its
  body and gives it an id; then the caller is authenticated, the fields are validated, and the endpoint builds
  a command and runs it behind the enforcement point.  Every error becomes a response.  Routing, JSON and
  the order in which a request is read, authenticated and validated are FastAPI's, as documented.
\<close>

record http_response =
  hr_status :: int
  hr_headers :: "(ustr, ustr) dict"
  hr_body :: body

subsection \<open>Calls\<close>

text \<open>A call is an endpoint with its path parameters and its body or query, read into typed values.\<close>

datatype api_call =
    WritePreference preference_write
  | CorrectPreference uuid preference_correction
  | ListPreferences scope_query
  | PreferenceHistory uuid scope_query
  | Recall recall_request
  | ProjectContext context_projection_request
  | WriteUsage usage_write
  | WriteOutcome outcome_write
  | IssueGrant grant_write
  | RevokeGrant uuid grant_revocation
  | SuppressScope closing_write
  | EraseSubject closing_write
  | ErasureReceipt uuid scope_query

fun valid_call :: "(ustr \<Rightarrow> ustr) \<Rightarrow> api_call \<Rightarrow> api_call option" where
  "valid_call trim (WritePreference p) = map_option WritePreference (valid_preference_write trim p)"
| "valid_call trim (CorrectPreference i p) = map_option (CorrectPreference i) (valid_preference_correction trim p)"
| "valid_call trim (ListPreferences q) = map_option ListPreferences (valid_scope_query trim q)"
| "valid_call trim (PreferenceHistory i q) = map_option (PreferenceHistory i) (valid_scope_query trim q)"
| "valid_call trim (Recall p) = map_option Recall (valid_recall_request trim p)"
| "valid_call trim (ProjectContext p) = map_option ProjectContext (valid_context_projection_request trim p)"
| "valid_call trim (WriteUsage p) = map_option WriteUsage (valid_usage_write trim p)"
| "valid_call trim (WriteOutcome p) = map_option WriteOutcome (valid_outcome_write trim p)"
| "valid_call trim (IssueGrant p) = map_option IssueGrant (valid_grant_write trim p)"
| "valid_call trim (RevokeGrant i p) = map_option (RevokeGrant i) (valid_grant_revocation trim p)"
| "valid_call trim (SuppressScope p) = map_option SuppressScope (valid_closing_write trim p)"
| "valid_call trim (EraseSubject p) = map_option EraseSubject (valid_closing_write trim p)"
| "valid_call trim (ErasureReceipt i q) = map_option (ErasureReceipt i) (valid_scope_query trim q)"

text \<open>The reading endpoints have no body.\<close>

fun has_body :: "api_call \<Rightarrow> bool" where
  "has_body (ListPreferences _) = False"
| "has_body (PreferenceHistory _ _) = False"
| "has_body (ErasureReceipt _ _) = False"
| "has_body _ = True"

fun success_code :: "api_call \<Rightarrow> int" where
  "success_code (ListPreferences _) = 200"
| "success_code (PreferenceHistory _ _) = 200"
| "success_code (Recall _) = 200"
| "success_code (ProjectContext _) = 200"
| "success_code (RevokeGrant _ _) = 200"
| "success_code (ErasureReceipt _ _) = 200"
| "success_code _ = 201"

subsection \<open>Endpoints\<close>

definition occurred_at :: "env \<Rightarrow> py_datetime option \<Rightarrow> (authorized_node, py_datetime) prog" where
  "occurred_at E value =
     (case value of Some t \<Rightarrow> return t | None \<Rightarrow> pbind (on_world (now E)) (\<lambda>n. return (utc n)))"

definition http_remember_preference ::
  "env \<Rightarrow> platform \<Rightarrow> ustr \<Rightarrow> actor_context \<Rightarrow> preference_write \<Rightarrow> (authorized_node, body) prog" where
  "http_remember_preference E F rid actor p =
     pbind (lift_res (mk_scope (pw_tenant_id p) (pw_subject_id p))) (\<lambda>sc.
     pbind (lift_res (mk_invocation actor (pw_purpose p) rid)) (\<lambda>iv.
     pbind (lift_res (from_mapping (Some (pw_context p)))) (\<lambda>ctx.
     pbind (occurred_at E (pw_occurred_at p)) (\<lambda>occurred.
     pbind (lift_res (mk_remember sc (pw_source p) (pw_idempotency_key p) (pw_key p) (pw_value p) ctx
       (pw_evidence_text p) (pw_confidence p) occurred)) (\<lambda>c.
     pbind (ax_remember_preference E F iv c) (\<lambda>r.
     return (PreferenceBody (preference_response_of r))))))))"

definition http_correct_preference ::
  "env \<Rightarrow> platform \<Rightarrow> ustr \<Rightarrow> actor_context \<Rightarrow> uuid \<Rightarrow> preference_correction \<Rightarrow> (authorized_node, body) prog" where
  "http_correct_preference E F rid actor record_id p =
     pbind (lift_res (mk_scope (pc_tenant_id p) (pc_subject_id p))) (\<lambda>sc.
     pbind (lift_res (mk_invocation actor (pc_purpose p) rid)) (\<lambda>iv.
     pbind (occurred_at E (pc_occurred_at p)) (\<lambda>occurred.
     pbind (lift_res (mk_correct sc record_id (pc_source p) (pc_idempotency_key p) (pc_value p)
       (pc_evidence_text p) (pc_reason p) occurred (pc_expected_revision_id p))) (\<lambda>c.
     pbind (ax_correct_preference E F iv c) (\<lambda>r.
     return (PreferenceBody (preference_response_of r)))))))"

definition http_list_preferences ::
  "env \<Rightarrow> platform \<Rightarrow> ustr \<Rightarrow> actor_context \<Rightarrow> scope_query \<Rightarrow> (authorized_node, body) prog" where
  "http_list_preferences E F rid actor q =
     pbind (lift_res (mk_scope (sq_tenant_id q) (sq_subject_id q))) (\<lambda>sc.
     pbind (lift_res (mk_invocation actor (sq_purpose q) rid)) (\<lambda>iv.
     pbind (ax_list_preferences E F iv sc) (\<lambda>sns.
     return (SummariesBody (map preference_summary_of sns)))))"

definition http_preference_history ::
  "env \<Rightarrow> platform \<Rightarrow> ustr \<Rightarrow> actor_context \<Rightarrow> uuid \<Rightarrow> scope_query \<Rightarrow> (authorized_node, body) prog" where
  "http_preference_history E F rid actor record_id q =
     pbind (lift_res (mk_scope (sq_tenant_id q) (sq_subject_id q))) (\<lambda>sc.
     pbind (lift_res (mk_invocation actor (sq_purpose q) rid)) (\<lambda>iv.
     pbind (ax_history E F iv sc record_id) (\<lambda>vs.
     return (RevisionsBody (map revision_response_of vs)))))"

definition http_recall ::
  "env \<Rightarrow> platform \<Rightarrow> ustr \<Rightarrow> actor_context \<Rightarrow> recall_request \<Rightarrow> (authorized_node, body) prog" where
  "http_recall E F rid actor p =
     pbind (lift_res (mk_scope (rr_tenant_id p) (rr_subject_id p))) (\<lambda>sc.
     pbind (lift_res (mk_invocation actor (rr_purpose p) rid)) (\<lambda>iv.
     pbind (lift_res (from_mapping (Some (rr_context p)))) (\<lambda>ctx.
     pbind (lift_res (mk_recall sc (rr_query p) ctx (rr_limit p) (rr_valid_at p) (rr_known_at p))) (\<lambda>c.
     pbind (ax_recall E F iv c) (\<lambda>t.
     return (RecallBody (recall_response_of t)))))))"

definition http_project_recall_context ::
  "env \<Rightarrow> platform \<Rightarrow> ustr \<Rightarrow> actor_context \<Rightarrow> context_projection_request \<Rightarrow> (authorized_node, body) prog" where
  "http_project_recall_context E F rid actor p =
     pbind (lift_res (mk_invocation actor (cq_purpose p) rid)) (\<lambda>iv.
     pbind (lift_res (mk_scope (cq_tenant_id p) (cq_subject_id p))) (\<lambda>sc.
     pbind (lift_res (mk_project_context sc (cq_trace_id p) (cq_algorithm p) (cq_max_characters p))) (\<lambda>c.
     pbind (ax_project_recall_context E F iv c) (\<lambda>r.
     return (ProjectionBody (context_projection_response_of r))))))"

definition http_record_usage ::
  "env \<Rightarrow> platform \<Rightarrow> ustr \<Rightarrow> actor_context \<Rightarrow> usage_write \<Rightarrow> (authorized_node, body) prog" where
  "http_record_usage E F rid actor p =
     pbind (lift_res (mk_invocation actor (uw_purpose p) rid)) (\<lambda>iv.
     pbind (lift_res (mk_scope (uw_tenant_id p) (uw_subject_id p))) (\<lambda>sc.
     pbind (occurred_at E (uw_occurred_at p)) (\<lambda>occurred.
     pbind (lift_res (mk_record_usage sc (uw_trace_id p) (uw_algorithm p) (uw_max_characters p)
       (uw_source_projection_sha256 p) (uw_delivered_context_sha256 p) (uw_revision_ids p)
       (uw_idempotency_key p) occurred)) (\<lambda>c.
     pbind (ax_record_usage E F iv c) (\<lambda>r.
     return (UsageBody (usage_response_of r)))))))"

definition http_record_outcome ::
  "env \<Rightarrow> platform \<Rightarrow> ustr \<Rightarrow> actor_context \<Rightarrow> outcome_write \<Rightarrow> (authorized_node, body) prog" where
  "http_record_outcome E F rid actor p =
     pbind (lift_res (mk_scope (ow_tenant_id p) (ow_subject_id p))) (\<lambda>sc.
     pbind (lift_res (mk_invocation actor (ow_purpose p) rid)) (\<lambda>iv.
     pbind (occurred_at E (ow_occurred_at p)) (\<lambda>occurred.
     pbind (lift_res (mk_record_outcome sc (ow_trace_id p) (ow_revision_id p) (ow_kind p)
       (ow_idempotency_key p) occurred (ow_usage_id p) (ow_weight p) (ow_note p))) (\<lambda>c.
     pbind (ax_record_outcome E F iv c) (\<lambda>r.
     return (OutcomeBody (outcome_response_of r)))))))"

definition http_issue_grant ::
  "env \<Rightarrow> platform \<Rightarrow> ustr \<Rightarrow> actor_context \<Rightarrow> grant_write \<Rightarrow> (authorized_node, body) prog" where
  "http_issue_grant E F rid actor p =
     pbind (lift_res (mk_invocation actor (gw_purpose p) rid)) (\<lambda>iv.
     pbind (lift_res (mk_scope (gw_tenant_id p) (gw_subject_id p))) (\<lambda>sc.
     pbind (lift_res (mk_issue_command sc (gw_purposes p) (gw_lawful_basis p) (gw_idempotency_key p)
       (gw_valid_from p) (gw_valid_until p))) (\<lambda>c.
     pbind (ax_issue_processing_grant E F iv c) (\<lambda>r.
     return (GrantBody (grant_response_of r))))))"

definition http_revoke_grant ::
  "env \<Rightarrow> platform \<Rightarrow> ustr \<Rightarrow> actor_context \<Rightarrow> uuid \<Rightarrow> grant_revocation \<Rightarrow> (authorized_node, body) prog" where
  "http_revoke_grant E F rid actor grant_id p =
     pbind (lift_res (mk_invocation actor (gx_purpose p) rid)) (\<lambda>iv.
     pbind (lift_res (mk_scope (gx_tenant_id p) (gx_subject_id p))) (\<lambda>sc.
     pbind (ax_revoke_processing_grant E F iv \<lparr>rg_scope = sc, rg_grant_id = grant_id\<rparr>) (\<lambda>r.
     return (GrantBody (grant_response_of r)))))"

definition http_suppress ::
  "env \<Rightarrow> platform \<Rightarrow> ustr \<Rightarrow> actor_context \<Rightarrow> closing_write \<Rightarrow> (authorized_node, body) prog" where
  "http_suppress E F rid actor p =
     pbind (lift_res (mk_invocation actor (cw_purpose p) rid)) (\<lambda>iv.
     pbind (lift_res (mk_scope (cw_tenant_id p) (cw_subject_id p))) (\<lambda>sc.
     pbind (lift_res (mk_suppress_command sc (cw_reason_code p) (cw_idempotency_key p))) (\<lambda>c.
     pbind (ax_suppress E F iv c) (\<lambda>f.
     return (SuppressionBody (suppression_response_of f))))))"

definition http_erase ::
  "env \<Rightarrow> platform \<Rightarrow> ustr \<Rightarrow> actor_context \<Rightarrow> closing_write \<Rightarrow> (authorized_node, body) prog" where
  "http_erase E F rid actor p =
     pbind (lift_res (mk_invocation actor (cw_purpose p) rid)) (\<lambda>iv.
     pbind (lift_res (mk_scope (cw_tenant_id p) (cw_subject_id p))) (\<lambda>sc.
     pbind (lift_res (mk_erase_command sc (cw_reason_code p) (cw_idempotency_key p))) (\<lambda>c.
     pbind (ax_erase E F iv c) (\<lambda>r.
     return (ErasureBody (erasure_response_of r))))))"

definition http_erasure_receipt ::
  "env \<Rightarrow> platform \<Rightarrow> ustr \<Rightarrow> actor_context \<Rightarrow> uuid \<Rightarrow> scope_query \<Rightarrow> (authorized_node, body) prog" where
  "http_erasure_receipt E F rid actor request_id q =
     pbind (lift_res (mk_invocation actor (sq_purpose q) rid)) (\<lambda>iv.
     pbind (lift_res (mk_scope (sq_tenant_id q) (sq_subject_id q))) (\<lambda>sc.
     pbind (ax_erasure E F iv sc request_id) (\<lambda>r.
     return (ErasureBody (erasure_response_of r)))))"

fun endpoint :: "env \<Rightarrow> platform \<Rightarrow> ustr \<Rightarrow> actor_context \<Rightarrow> api_call \<Rightarrow> (authorized_node, body) prog" where
  "endpoint E F rid actor (WritePreference p) = http_remember_preference E F rid actor p"
| "endpoint E F rid actor (CorrectPreference i p) = http_correct_preference E F rid actor i p"
| "endpoint E F rid actor (ListPreferences q) = http_list_preferences E F rid actor q"
| "endpoint E F rid actor (PreferenceHistory i q) = http_preference_history E F rid actor i q"
| "endpoint E F rid actor (Recall p) = http_recall E F rid actor p"
| "endpoint E F rid actor (ProjectContext p) = http_project_recall_context E F rid actor p"
| "endpoint E F rid actor (WriteUsage p) = http_record_usage E F rid actor p"
| "endpoint E F rid actor (WriteOutcome p) = http_record_outcome E F rid actor p"
| "endpoint E F rid actor (IssueGrant p) = http_issue_grant E F rid actor p"
| "endpoint E F rid actor (RevokeGrant i p) = http_revoke_grant E F rid actor i p"
| "endpoint E F rid actor (SuppressScope p) = http_suppress E F rid actor p"
| "endpoint E F rid actor (EraseSubject p) = http_erase E F rid actor p"
| "endpoint E F rid actor (ErasureReceipt i q) = http_erasure_receipt E F rid actor i q"

subsection \<open>Errors become responses\<close>

definition error_body :: "ustr \<Rightarrow> string \<Rightarrow> string \<Rightarrow> body" where
  "error_body rid error detail = ErrorBody \<lparr>ex_error = uc error, ex_detail = uc detail, ex_request_id = Some rid\<rparr>"

definition plain_response :: "int \<Rightarrow> body \<Rightarrow> http_response" where
  "plain_response code b = \<lparr>hr_status = code, hr_headers = [], hr_body = b\<rparr>"

text \<open>The exception handlers; an error of no handled class goes on to the middleware.\<close>

fun handled :: "ustr \<Rightarrow> py_error \<Rightarrow> http_response option" where
  "handled rid (AuthenticationError m) = Some \<lparr>hr_status = 401, hr_headers = [(uc ''www-authenticate'', uc ''Bearer'')],
     hr_body = error_body rid ''AuthenticationError'' ''A valid bearer access token is required.''\<rparr>"
| "handled rid (AuthorizationDeniedError conceal) = Some (
     if conceal then plain_response 404 (error_body rid ''NotFoundError'' ''resource not found'')
     else plain_response 403 (error_body rid ''AuthorizationDeniedError'' ''action is not permitted''))"
| "handled rid (ProcessingDeniedError reason) =
     Some (plain_response 403 (error_body rid ''ProcessingDeniedError'' reason))"
| "handled rid (GovernanceUnavailableError m) =
     Some (plain_response 503 (error_body rid ''GovernanceUnavailableError'' m))"
| "handled rid (NotFoundError m) = Some (plain_response 404 (error_body rid ''NotFoundError'' m))"
| "handled rid (ConflictError m) = Some (plain_response 409 (error_body rid ''ConflictError'' m))"
| "handled rid (AttributionError m) = Some (plain_response 422 (error_body rid ''AttributionError'' m))"
| "handled rid (DomainError m) = Some (plain_response 400 (error_body rid ''DomainError'' m))"
| "handled rid e = None"

text \<open>The answer of the middleware to any other exception.\<close>

definition internal_error :: "ustr \<Rightarrow> http_response" where
  "internal_error rid =
     plain_response 500 (error_body rid ''InternalServerError'' ''An unexpected server error occurred.'')"

definition failure_response :: "ustr \<Rightarrow> py_error \<Rightarrow> http_response" where
  "failure_response rid e = (case handled rid e of Some r \<Rightarrow> r | None \<Rightarrow> internal_error rid)"

record api =
  ap_platform :: platform
  ap_identity :: "ustr option \<Rightarrow> actor_context res"
  ap_trim :: "ustr \<Rightarrow> ustr"
  ap_max_body_bytes :: int

definition respond ::
  "env \<Rightarrow> api \<Rightarrow> ustr \<Rightarrow> ustr option \<Rightarrow> api_call \<Rightarrow> authorized_node \<Rightarrow> http_response \<times> authorized_node" where
  "respond E A rid token call s =
     (case ap_identity A token of
        Inl e \<Rightarrow> (failure_response rid e, s)
      | Inr actor \<Rightarrow>
          (case valid_call (ap_trim A) call of
             None \<Rightarrow> (plain_response 422 ValidationErrors, s)
           | Some valid \<Rightarrow>
               (case endpoint E (ap_platform A) rid actor valid s of
                  (Inl e, t) \<Rightarrow> (failure_response rid e, t)
                | (Inr b, t) \<Rightarrow> (plain_response (success_code valid) b, t))))"

subsection \<open>The middleware\<close>

definition is_alnum :: "nat \<Rightarrow> bool" where
  "is_alnum c \<longleftrightarrow> (65 \<le> c \<and> c \<le> 90) \<or> (97 \<le> c \<and> c \<le> 122) \<or> (48 \<le> c \<and> c \<le> 57)"

text \<open>\<open>[A-Za-z0-9][A-Za-z0-9._:-]{0,63}\<close>\<close>

definition request_id_ok :: "ustr \<Rightarrow> bool" where
  "request_id_ok s \<longleftrightarrow> s \<noteq> [] \<and> length s \<le> 64 \<and> is_alnum (hd s) \<and>
     list_all (\<lambda>c. is_alnum c \<or> c \<in> {46, 95, 58, 45}) (tl s)"

text \<open>\<open>_request_id\<close>; \<open>fresh\<close> is \<open>uuid4().hex\<close>.\<close>

definition request_id :: "ustr option \<Rightarrow> ustr \<Rightarrow> ustr" where
  "request_id candidate fresh =
     (case candidate of Some s \<Rightarrow> if request_id_ok s then s else fresh | None \<Rightarrow> fresh)"

definition content_length :: "unidb \<Rightarrow> ustr option \<Rightarrow> int option" where
  "content_length db raw =
     (case raw of
        None \<Rightarrow> None
      | Some s \<Rightarrow> (case py_int10 db s of None \<Rightarrow> None | Some n \<Rightarrow> if 0 \<le> n then Some n else None))"

text \<open>\<open>limited_receive\<close> over the sizes of the body's messages: whether no prefix exceeds the limit.\<close>

fun body_fits :: "int \<Rightarrow> int \<Rightarrow> nat list \<Rightarrow> bool" where
  "body_fits limit received [] = True"
| "body_fits limit received (n # ns) =
     (\<not> limit < received + int n \<and> body_fits limit (received + int n) ns)"

definition too_large_detail :: "int \<Rightarrow> ustr" where
  "too_large_detail limit = uc ''Request body exceeds the configured limit of '' @ int_str limit @ uc '' bytes.''"

definition too_large_response :: "ustr \<Rightarrow> int \<Rightarrow> http_response" where
  "too_large_response rid limit =
     plain_response 413 (ErrorBody \<lparr>ex_error = uc ''RequestBodyTooLargeError'', ex_detail = too_large_detail limit,
       ex_request_id = Some rid\<rparr>)"

definition security_headers :: "(ustr \<times> ustr) list" where
  "security_headers =
     [(uc ''cache-control'', uc ''no-store''),
      (uc ''permissions-policy'', uc ''camera=(), microphone=(), geolocation=()''),
      (uc ''referrer-policy'', uc ''no-referrer''),
      (uc ''x-content-type-options'', uc ''nosniff''),
      (uc ''x-frame-options'', uc ''DENY''),
      (uc ''x-permitted-cross-domain-policies'', uc ''none'')]"

text \<open>\<open>send_with_runtime_headers\<close>; header names are lower case on the wire.\<close>

definition add_header :: "ustr \<times> ustr \<Rightarrow> (ustr, ustr) dict \<Rightarrow> (ustr, ustr) dict" where
  "add_header = (\<lambda>(name, value) hs. if map_of hs name = None then hs @ [(name, value)] else hs)"

definition runtime_headers :: "ustr \<Rightarrow> (ustr, ustr) dict \<Rightarrow> (ustr, ustr) dict" where
  "runtime_headers rid hs = fold add_header security_headers (dict_set (uc ''x-request-id'') rid hs)"

record http_request =
  hq_request_id :: "ustr option"
  hq_content_length :: "ustr option"
  hq_body_sizes :: "nat list"
  hq_token :: "ustr option"
  hq_call :: api_call

definition handle_http ::
  "env \<Rightarrow> api \<Rightarrow> ustr \<Rightarrow> http_request \<Rightarrow> authorized_node \<Rightarrow> http_response \<times> authorized_node" where
  "handle_http E A fresh q s =
     (let rid = request_id (hq_request_id q) fresh; limit = ap_max_body_bytes A;
          (r, t) =
            (if (\<exists>n. content_length (e_db E) (hq_content_length q) = Some n \<and> limit < n)
             then (too_large_response rid limit, s)
             else if has_body (hq_call q) \<and> \<not> body_fits limit 0 (hq_body_sizes q)
             then (too_large_response rid limit, s)
             else respond E A rid (hq_token q) (hq_call q) s)
      in (r\<lparr>hr_headers := runtime_headers rid (hr_headers r)\<rparr>, t))"

subsection \<open>Readiness\<close>

text \<open>\<open>readyz\<close>, given whether the governance store and the audit sink are ready.\<close>

definition readyz :: "platform \<Rightarrow> bool \<Rightarrow> bool \<Rightarrow> (authorized_node, http_response) prog" where
  "readyz F governance_ready audit_ready =
     pbind (on_world (is_ready (pf_service F))) (\<lambda>service_ready.
     let ready = service_ready \<and> governance_ready \<and> audit_ready
     in return (plain_response (if ready then 200 else 503) (ReadinessBody ready)))"

end
