(* ===== verification/GovernanceCorrect.thy ===== *)
theory GovernanceCorrect
  imports GovernanceApp Operations
begin

text \<open>
  The privacy workflow: a fence is never lifted, so a suppressed scope is refused from then on; a
  grant is issued once per idempotency key; an erasure ends completed, with its evidence, exactly when
  the data of the scope is gone, and otherwise stays pending behind its fence until a retry.
\<close>

subsection \<open>Fences stay\<close>

definition fences_stay :: "governance \<Rightarrow> governance \<Rightarrow> bool" where
  "fences_stay g g' \<longleftrightarrow> map_of (g_fences g) \<subseteq>\<^sub>m map_of (g_fences g')"

interpretation fences: state_relation fences_stay
  by unfold_locales (auto simp: fences_stay_def intro: map_le_trans)

lemma fences_suppress: "obeys fences_stay (suppress_scope K i sc rs pv by key t)"
  by (auto simp: obeys_def suppress_scope_def Let_def fences_stay_def map_le_def dom_def
      split: sum.split option.split)

lemma fences_unchanged: "g_fences (f g) = g_fences g \<Longrightarrow> fences_stay g (f g)"
  by (simp add: fences_stay_def)

lemma fences_governance:
  "obeys fences_stay (issue_grant K i sc ps basis pv by key vf vu t)"
  "obeys fences_stay (revoke_grant K sc i by t)"
  "obeys fences_stay (begin_erasure K i j sc rs pv by key t)"
  "obeys fences_stay (complete_erasure K sc i summary results t)"
  "obeys fences_stay (fail_erasure K sc i code)"
  unfolding issue_grant_def revoke_grant_def begin_erasure_def complete_erasure_def fail_erasure_def Let_def
    prod.case_eq_if
  by (intro fences.obeys_intros fences_suppress fences_unchanged; simp)+

lemma fenced_stays: "fences_stay g g' \<Longrightarrow> fenced K g sc \<Longrightarrow> fenced K g' sc"
  unfolding fences_stay_def fenced_def using map_leD [of "map_of (g_fences g)"] by blast

lemma fenced_refused:
  "fenced K g sc \<Longrightarrow> processing_context K sc purpose t g = Inl (ProcessingDeniedError ''processing_suppressed'')"
  "fenced K g sc \<Longrightarrow> projection_context K sc g = Inl (ProcessingDeniedError ''processing_suppressed'')"
  "fenced K g sc \<Longrightarrow> bypass_processing_context K sc purpose t g = Inl (ProcessingDeniedError ''processing_suppressed'')"
  by (simp_all add: processing_context_def projection_context_def bypass_processing_context_def)

lemma suppress_fences:
  "suppress_scope K i sc rs pv by key t g = (Inr f, g') \<Longrightarrow> fenced K g' sc"
  by (auto simp: suppress_scope_def Let_def fenced_def split: sum.splits option.splits)

subsection \<open>The invariant of the governance store\<close>

text \<open>A stored request: its evidence, when completed, and normalized text.\<close>

definition erasure_stored :: "erasure_request \<Rightarrow> bool" where
  "erasure_stored q \<longleftrightarrow> erasure_ok q \<and> list_all stripped [er_tenant_ref q, er_subject_ref q, er_scope_digest q,
     er_reason_code q, er_policy_version q, er_requested_by_ref q, er_idempotency_key q]"

lemma mk_erasure_request_stored:
  "mk_erasure_request i t s d r v rb k st c co su hr e = Inr q \<Longrightarrow> erasure_stored q"
  unfolding erasure_stored_def
  by (rule conjI, erule mk_erasure_request_ok) (auto simp: mk_erasure_request_def rbind_Inr dest: require_text_result)

lemma with_completion_total:
  assumes "erasure_stored c" "list_all handler_done results"
  shows "\<exists>q. with_completion (utc t) summary results c = Inr q"
  using assms by (simp add: with_completion_def mk_erasure_request_def erasure_stored_def require_text_stripped
      raise_if_def list_ex_iff list_all_iff)

lemma with_failure_total:
  assumes "erasure_stored c" "strip code \<noteq> []"
  shows "\<exists>q. with_failure code c = Inr q"
proof -
  have "require_text code f = Inr (strip code)" for f using assms(2) by (simp add: require_text_def Let_def)
  then show ?thesis using assms(1)
    by (cases "er_completed_at c")
      (simp_all add: with_failure_def mk_erasure_request_def erasure_stored_def require_text_stripped)
qed

definition governance_ok :: "governance_conf \<Rightarrow> governance \<Rightarrow> bool" where
  "governance_ok K g \<longleftrightarrow>
     (\<forall>i x. map_of (g_grants g) i = Some x \<longrightarrow> pg_id x = i \<and> grant_ok x) \<and>
     (\<forall>k i. map_of (g_grant_keys g) k = Some i \<longrightarrow> map_of (g_grants g) i \<noteq> None) \<and>
     (\<forall>i q. map_of (g_erasures g) i = Some q \<longrightarrow> er_id q = i \<and> erasure_stored q \<and>
        map_of (g_fences g) (er_tenant_ref q, er_subject_ref q) \<noteq> None) \<and>
     (\<forall>k i. map_of (g_erasure_keys g) k = Some i \<longrightarrow>
        (\<exists>q. map_of (g_erasures g) i = Some q \<and> er_tenant_ref q = fst k \<and> er_subject_ref q = fst (snd k)))"

lemma governance_okD:
  assumes "governance_ok K g"
  shows "map_of (g_grants g) i = Some x \<Longrightarrow> pg_id x = i \<and> grant_ok x"
    "map_of (g_grant_keys g) gk = Some i \<Longrightarrow> map_of (g_grants g) i \<noteq> None"
    "map_of (g_erasures g) i = Some q \<Longrightarrow> er_id q = i \<and> erasure_stored q \<and>
       map_of (g_fences g) (er_tenant_ref q, er_subject_ref q) \<noteq> None"
    "map_of (g_erasure_keys g) k = Some i \<Longrightarrow>
       \<exists>q. map_of (g_erasures g) i = Some q \<and> er_tenant_ref q = fst k \<and> er_subject_ref q = fst (snd k)"
  using assms unfolding governance_ok_def by (metis, metis, metis, metis)

lemma empty_governance_ok: "mk_governance K = Inr g \<Longrightarrow> governance_ok K g"
  by (auto simp: mk_governance_def governance_ok_def res_simps)

text \<open>The HMAC returns a hexadecimal digest: text without blanks around it.\<close>

definition hmac_ok :: "governance_conf \<Rightarrow> bool" where
  "hmac_ok K \<longleftrightarrow> (\<forall>m. stripped (gc_hmac K (gc_key K) m))"

lemma refs_stripped: "hmac_ok K \<Longrightarrow> stripped (reference K kind v)"
  by (simp add: hmac_ok_def reference_def)

lemma scope_refs_stripped: "hmac_ok K \<Longrightarrow> strip (fst (scope_refs K sc)) = fst (scope_refs K sc) \<and>
    strip (snd (scope_refs K sc)) = snd (scope_refs K sc)"
  by (simp add: scope_refs_def strip_id refs_stripped)

lemma mk_processing_grant_id: "mk_processing_grant i t s p b v ib k vf vu c ra rb = Inr g \<Longrightarrow> pg_id g = i"
  by (auto simp: mk_processing_grant_def res_simps split: option.splits)

lemma mk_processing_grant_revoked:
  "mk_processing_grant i t s p b v ib k vf vu c (Some (utc ra)) rb = Inr g \<Longrightarrow> pg_revoked_at g = Some ra"
  by (auto simp: mk_processing_grant_def res_simps)

lemma mk_erasure_request_fields:
  "mk_erasure_request i t s d rs v rb k st c co su hr e = Inr q \<Longrightarrow>
     er_id q = i \<and> er_tenant_ref q = strip t \<and> er_subject_ref q = strip s \<and> er_status q = st \<and>
     er_reason_code q = strip rs \<and> er_policy_version q = strip v \<and> er_summary q = su \<and>
     er_handler_results q = hr"
  by (auto simp: mk_erasure_request_def res_simps)

subsection \<open>The operations keep it\<close>

definition keeps_governance :: "governance_conf \<Rightarrow> governance \<Rightarrow> governance \<Rightarrow> bool" where
  "keeps_governance K g g' \<longleftrightarrow> (governance_ok K g \<longrightarrow> governance_ok K g')"

interpretation governed: state_relation "keeps_governance K" for K
  by unfold_locales (auto simp: keeps_governance_def)

lemma with_grant_ok:
  "governance_ok K g \<Longrightarrow> pg_id x = i \<Longrightarrow> grant_ok x \<Longrightarrow> governance_ok K (g_grants_update (dict_set i x) g)"
  unfolding governance_ok_def by auto

lemma with_grant_key_ok:
  "governance_ok K g \<Longrightarrow> pg_id x = i \<Longrightarrow> grant_ok x \<Longrightarrow>
   governance_ok K (g\<lparr>g_grants := dict_set i x (g_grants g), g_grant_keys := dict_set k i (g_grant_keys g)\<rparr>)"
  unfolding governance_ok_def by auto

lemma issue_keeps: "obeys (keeps_governance K) (issue_grant K i sc ps basis pv by key vf vu t)"
  unfolding issue_grant_def Let_def prod.case_eq_if
  by (intro governed.obeys_checked governed.obeys_intros)
     (auto simp: keeps_governance_def intro!: with_grant_key_ok dest: mk_processing_grant_ok)

lemma with_revocation_revoked: "with_revocation (utc t) by c = Inr x \<Longrightarrow> pg_revoked_at x = Some t"
  unfolding with_revocation_def by (rule mk_processing_grant_revoked)

lemma revoke_outcome:
  assumes run: "revoke_grant K sc i by (utc t) g = (r, g')"
  shows "g' = g \<or> (\<exists>c x. map_of (g_grants g) i = Some c \<and> pg_revoked_at c = None \<and> r = Inr x \<and>
     with_revocation (utc t) (reference K ''principal'' by) c = Inr x \<and> pg_revoked_at x = Some t \<and>
     g' = g_grants_update (dict_set i x) g)"
  using run
  by (auto simp: revoke_grant_def raise_if_def split: option.splits sum.splits if_splits)
     (metis with_revocation_revoked)

lemma revoke_keeps: "obeys (keeps_governance K) (revoke_grant K sc i by (utc t))"
proof -
  have "governance_ok K g'" if ok: "governance_ok K g" and run: "revoke_grant K sc i by (utc t) g = (r, g')" for g r g'
    using revoke_outcome [OF run]
  proof
    assume "g' = g" with ok show ?thesis by simp
  next
    assume "\<exists>c x. map_of (g_grants g) i = Some c \<and> pg_revoked_at c = None \<and> r = Inr x \<and>
     with_revocation (utc t) (reference K ''principal'' by) c = Inr x \<and> pg_revoked_at x = Some t \<and>
     g' = g_grants_update (dict_set i x) g"
    then obtain c x where c: "map_of (g_grants g) i = Some c"
      and x: "with_revocation (utc t) (reference K ''principal'' by) c = Inr x"
      and g': "g' = g_grants_update (dict_set i x) g" by blast
    have "pg_id c = i" using ok c unfolding governance_ok_def by blast
    then have "pg_id x = i" "grant_ok x"
      using x unfolding with_revocation_def by (auto dest: mk_processing_grant_id mk_processing_grant_ok)
    then show ?thesis unfolding g' by (rule with_grant_ok [OF ok])
  qed
  then show ?thesis by (simp add: obeys_def keeps_governance_def) (metis prod.collapse)
qed

lemma with_fence_ok: "governance_ok K g \<Longrightarrow> governance_ok K (g_fences_update (dict_set k f) g)"
  unfolding governance_ok_def by auto

lemma suppress_keeps: "obeys (keeps_governance K) (suppress_scope K i sc rs pv by key t)"
  unfolding suppress_scope_def Let_def
  by (intro governed.obeys_checked governed.obeys_intros) (auto simp: keeps_governance_def intro!: with_fence_ok)

lemma with_erasure_ok:
  assumes ok: "governance_ok K g" and q: "er_id q = i" "erasure_stored q"
    "map_of (g_fences g) (er_tenant_ref q, er_subject_ref q) \<noteq> None"
    and same: "\<And>p. map_of (g_erasures g) i = Some p \<Longrightarrow> er_tenant_ref p = er_tenant_ref q \<and> er_subject_ref p = er_subject_ref q"
  shows "governance_ok K (g_erasures_update (dict_set i q) g)"
proof -
  have keys: "\<exists>p. map_of (dict_set i q (g_erasures g)) j = Some p \<and> er_tenant_ref p = fst k \<and> er_subject_ref p = fst (snd k)"
    if kj: "map_of (g_erasure_keys g) k = Some j" for k j
  proof -
    obtain p where p: "map_of (g_erasures g) j = Some p" "er_tenant_ref p = fst k" "er_subject_ref p = fst (snd k)"
      using governance_okD(4) [OF ok kj] by blast
    then show ?thesis using same by (cases "j = i") auto
  qed
  have reqs: "er_id p = j \<and> erasure_stored p \<and> map_of (g_fences g) (er_tenant_ref p, er_subject_ref p) \<noteq> None"
    if p: "map_of (dict_set i q (g_erasures g)) j = Some p" for j p
  proof (cases "j = i")
    case True
    with p q show ?thesis by auto
  next
    case False
    with p have "map_of (g_erasures g) j = Some p" by simp
    then show ?thesis by (rule governance_okD(3) [OF ok])
  qed
  have F: "g_grants (g_erasures_update (dict_set i q) g) = g_grants g"
    "g_grant_keys (g_erasures_update (dict_set i q) g) = g_grant_keys g"
    "g_fences (g_erasures_update (dict_set i q) g) = g_fences g"
    "g_erasure_keys (g_erasures_update (dict_set i q) g) = g_erasure_keys g"
    "g_erasures (g_erasures_update (dict_set i q) g) = dict_set i q (g_erasures g)" by simp_all
  show ?thesis unfolding governance_ok_def F
    using governance_okD(1,2) [OF ok] keys reqs by blast
qed

text \<open>A new request, under its key.\<close>

lemma with_new_erasure_ok:
  assumes ok: "governance_ok K g" and q: "er_id q = i" "erasure_stored q"
    "map_of (g_fences g) (er_tenant_ref q, er_subject_ref q) \<noteq> None"
    and k: "fst k = er_tenant_ref q" "fst (snd k) = er_subject_ref q"
    and new: "\<And>p. map_of (g_erasures g) i = Some p \<Longrightarrow> er_tenant_ref p = er_tenant_ref q \<and> er_subject_ref p = er_subject_ref q"
  shows "governance_ok K (g\<lparr>g_erasures := dict_set i q (g_erasures g), g_erasure_keys := dict_set k i (g_erasure_keys g)\<rparr>)"
proof -
  have base: "governance_ok K (g_erasures_update (dict_set i q) g)" by (rule with_erasure_ok [OF ok q new])
  have "\<exists>p. map_of (dict_set i q (g_erasures g)) j = Some p \<and> er_tenant_ref p = fst l \<and> er_subject_ref p = fst (snd l)"
    if l: "map_of (dict_set k i (g_erasure_keys g)) l = Some j" for l j
  proof (cases "l = k")
    case True
    with l k show ?thesis by auto
  next
    case False
    with l have "map_of (g_erasure_keys g) l = Some j" by simp
    with governance_okD(4) [OF base, of l j] show ?thesis by simp
  qed
  moreover have "er_id p = j \<and> erasure_stored p \<and> map_of (g_fences g) (er_tenant_ref p, er_subject_ref p) \<noteq> None"
    if "map_of (dict_set i q (g_erasures g)) j = Some p" for j p
    using governance_okD(3) [OF base, of j p] that by simp
  moreover let ?g = "g\<lparr>g_erasures := dict_set i q (g_erasures g), g_erasure_keys := dict_set k i (g_erasure_keys g)\<rparr>"
  have F: "g_grants ?g = g_grants g" "g_grant_keys ?g = g_grant_keys g" "g_fences ?g = g_fences g"
    "g_erasure_keys ?g = dict_set k i (g_erasure_keys g)" "g_erasures ?g = dict_set i q (g_erasures g)" by simp_all
  ultimately show ?thesis unfolding governance_ok_def F using governance_okD(1,2) [OF ok] by blast
qed

lemma begin_keeps:
  assumes K: "hmac_ok K" and ok: "governance_ok K g" and new: "map_of (g_erasures g) i = None"
    and run: "begin_erasure K i j sc rs pv by key t g = (r, g')"
  shows "governance_ok K g' \<and> (\<forall>q. r = Inr q \<longrightarrow> fenced K g' sc \<and> map_of (g_erasures g') (er_id q) = Some q \<and>
     (er_tenant_ref q, er_subject_ref q) = scope_refs K sc)"
proof (cases "map_of (g_erasure_keys g) (fst (scope_refs K sc), snd (scope_refs K sc), key)")
  case (Some k)
  from governance_okD(4) [OF ok Some] obtain q where
    q: "map_of (g_erasures g) k = Some q" "er_tenant_ref q = fst (scope_refs K sc)" "er_subject_ref q = snd (scope_refs K sc)"
    by auto
  then have "er_id q = k \<and> fenced K g sc" using governance_okD(3) [OF ok q(1)] by (simp add: fenced_def)
  then show ?thesis using run ok q Some
    by (auto simp: begin_erasure_def Let_def dict_index_def raise_if_def split: if_splits)
next
  case None
  obtain s g1 where sup: "suppress_scope K j sc rs pv by (uc ''erasure:'' @ key) t g = (s, g1)" by force
  have ok1: "governance_ok K g1" using obeysD [OF suppress_keeps sup] ok by (simp add: keeps_governance_def)
  have same: "g_erasures g1 = g_erasures g" "g_erasure_keys g1 = g_erasure_keys g"
    using sup by (auto simp: suppress_scope_def Let_def split: sum.splits option.splits)
  show ?thesis
  proof (cases s)
    case (Inl e)
    then show ?thesis using run None sup ok1
      by (auto simp: begin_erasure_def Let_def pbind_def prog_defs)
  next
    case (Inr f)
    have fen: "fenced K g1 sc" using suppress_fences sup Inr by blast
    show ?thesis
    proof (cases "mk_erasure_request i (fst (scope_refs K sc)) (snd (scope_refs K sc)) (scope_digest K sc) rs pv
        (reference K ''principal'' by) key ES_PENDING t None None [] None")
      case (Inl e)
      then show ?thesis using run None sup \<open>s = Inr f\<close> ok1
        by (auto simp: begin_erasure_def Let_def pbind_def prog_defs)
    next
      case (Inr q)
      let ?k = "(fst (scope_refs K sc), snd (scope_refs K sc), key)"
      have q: "er_id q = i" "er_tenant_ref q = fst (scope_refs K sc)" "er_subject_ref q = snd (scope_refs K sc)" "erasure_stored q"
        using mk_erasure_request_fields [OF Inr] mk_erasure_request_stored [OF Inr] scope_refs_stripped [OF K, of sc] by simp_all
      have "governance_ok K (g1\<lparr>g_erasures := dict_set i q (g_erasures g1), g_erasure_keys := dict_set ?k i (g_erasure_keys g1)\<rparr>)"
        by (rule with_new_erasure_ok [OF ok1 q(1,4)]) (use q fen new same in \<open>simp_all add: fenced_def\<close>)
      moreover have "r = Inr q \<and> g' = g1\<lparr>g_erasures := dict_set i q (g_erasures g1), g_erasure_keys := dict_set ?k i (g_erasure_keys g1)\<rparr>"
        using run None sup \<open>s = Inr f\<close> Inr q(1)
        by (auto simp: begin_erasure_def Let_def pbind_def prog_defs)
      ultimately show ?thesis using fen q by (simp add: fenced_def)
    qed
  qed
qed

subsection \<open>Completing and failing\<close>

lemma erasure_of_Some:
  "erasure_of K sc i g = Some q \<longleftrightarrow> map_of (g_erasures g) i = Some q \<and> (er_tenant_ref q, er_subject_ref q) = scope_refs K sc"
  by (auto simp: erasure_of_def split: option.splits if_splits)

lemma complete_outcome:
  assumes run: "complete_erasure K sc i summary results (utc t) g = (r, g')"
  shows "(\<exists>q. erasure_of K sc i g = Some q \<and> er_status q = ES_COMPLETED \<and> r = Inr q \<and> g' = g) \<or>
     (\<exists>e. r = Inl e \<and> g' = g) \<or>
     (\<exists>c q. erasure_of K sc i g = Some c \<and> with_completion (utc t) summary results c = Inr q \<and> r = Inr q \<and>
        g' = g_erasures_update (dict_set i q) g)"
  using run
  by (auto simp: complete_erasure_def erasure_in_scope_def split: option.splits sum.splits if_splits) metis+

lemma fail_outcome:
  assumes run: "fail_erasure K sc i code g = (r, g')"
  shows "(\<exists>q. erasure_of K sc i g = Some q \<and> er_status q = ES_COMPLETED \<and> r = Inr q \<and> g' = g) \<or>
     (\<exists>e. r = Inl e \<and> g' = g) \<or>
     (\<exists>c q. erasure_of K sc i g = Some c \<and> with_failure code c = Inr q \<and> r = Inr q \<and>
        g' = g_erasures_update (dict_set i q) g)"
  using run
  by (auto simp: fail_erasure_def erasure_in_scope_def split: option.splits sum.splits if_splits) metis+

lemma with_completion_fields:
  "with_completion t summary results c = Inr q \<Longrightarrow> er_id q = er_id c \<and> er_tenant_ref q = strip (er_tenant_ref c) \<and>
     er_subject_ref q = strip (er_subject_ref c) \<and> er_status q = ES_COMPLETED \<and> er_summary q = Some summary \<and>
     er_handler_results q = results \<and> erasure_stored q"
  unfolding with_completion_def using mk_erasure_request_fields mk_erasure_request_stored by metis

lemma with_failure_fields:
  "with_failure code c = Inr q \<Longrightarrow> er_id q = er_id c \<and> er_tenant_ref q = strip (er_tenant_ref c) \<and>
     er_subject_ref q = strip (er_subject_ref c) \<and> er_status q = ES_PENDING \<and> erasure_stored q"
  unfolding with_failure_def using mk_erasure_request_fields mk_erasure_request_stored by metis

lemma updated_request_ok:
  assumes K: "hmac_ok K" and ok: "governance_ok K g" and c: "erasure_of K sc i g = Some c"
    and q: "er_id q = er_id c" "er_tenant_ref q = strip (er_tenant_ref c)" "er_subject_ref q = strip (er_subject_ref c)"
      "erasure_stored q"
  shows "governance_ok K (g_erasures_update (dict_set i q) g)"
    "erasure_of K sc i (g_erasures_update (dict_set i q) g) = Some q"
proof -
  have c': "map_of (g_erasures g) i = Some c" "er_tenant_ref c = fst (scope_refs K sc)" "er_subject_ref c = snd (scope_refs K sc)"
    using c by (auto simp: erasure_of_Some) (metis fst_conv snd_conv)+
  have refs: "er_tenant_ref q = er_tenant_ref c" "er_subject_ref q = er_subject_ref c"
    using q c' scope_refs_stripped [OF K, of sc] by simp_all
  show "governance_ok K (g_erasures_update (dict_set i q) g)"
    by (rule with_erasure_ok [OF ok _ q(4)]) (use governance_okD(3) [OF ok c'(1)] c' q(1) refs in simp_all)
  show "erasure_of K sc i (g_erasures_update (dict_set i q) g) = Some q"
    using c' refs by (simp add: erasure_of_Some)
qed

lemma closing_keeps:
  assumes K: "hmac_ok K"
  shows "obeys (keeps_governance K) (complete_erasure K sc i summary results (utc t))"
    "obeys (keeps_governance K) (fail_erasure K sc i code)"
proof -
  have "governance_ok K g'" if ok: "governance_ok K g" and run: "complete_erasure K sc i summary results (utc t) g = (r, g')" for g r g'
    using complete_outcome [OF run] ok updated_request_ok(1) [OF K ok] with_completion_fields by metis
  then show "obeys (keeps_governance K) (complete_erasure K sc i summary results (utc t))"
    by (simp add: obeys_def keeps_governance_def) (metis prod.collapse)
  have "governance_ok K g'" if ok: "governance_ok K g" and run: "fail_erasure K sc i code g = (r, g')" for g r g'
    using fail_outcome [OF run] ok updated_request_ok(1) [OF K ok] with_failure_fields by metis
  then show "obeys (keeps_governance K) (fail_erasure K sc i code)"
    by (simp add: obeys_def keeps_governance_def) (metis prod.collapse)
qed

subsection \<open>The workflow\<close>

definition requests_issued :: "env \<Rightarrow> governance \<Rightarrow> world \<Rightarrow> bool" where
  "requests_issued E g w \<longleftrightarrow> (\<forall>i. map_of (g_erasures g) i \<noteq> None \<longrightarrow> (\<exists>n < w_ids w. i = e_ids E n))"

definition node_ok :: "env \<Rightarrow> governance_conf \<Rightarrow> 'z node_scheme \<Rightarrow> bool" where
  "node_ok E K s \<longleftrightarrow> governance_ok K (nd_gov s) \<and> system_ok E (nd_world s) \<and> requests_issued E (nd_gov s) (nd_world s)"

lemma node_okD:
  assumes "node_ok E K s"
  shows "governance_ok K (nd_gov s)" "system_ok E (nd_world s)" "requests_issued E (nd_gov s) (nd_world s)"
  using assms by (simp_all add: node_ok_def)

lemma on_gov_eval: "m (nd_gov s) = (r, g) \<Longrightarrow> on_gov m s = (r, s\<lparr>nd_gov := g\<rparr>)"
  by (simp add: on_gov_def)

lemma handler_report_done: "result \<in> {''completed'', ''not_applicable''} \<Longrightarrow> list_all handler_done (handler_report result)"
  by (auto simp: handler_report_def handler_done_def)

lemma run_erasure_outcome:
  assumes K: "pv_conf P = K" "hmac_ok K" and ok: "governance_ok K (nd_gov s)" "system_ok E (nd_world s)"
    and q0: "erasure_of K (es_scope c) (er_id q0) (nd_gov s) = Some q0" "er_status q0 \<noteq> ES_COMPLETED"
    and run: "run_erasure E P c q0 s = (r, s')"
  shows "(case r of
     Inr q \<Rightarrow> er_status q = ES_COMPLETED \<and> erasure_stored q \<and> er_id q = er_id q0 \<and>
        erasure_of K (es_scope c) (er_id q) (nd_gov s') = Some q \<and> governance_ok K (nd_gov s') \<and>
        nd_world s' = (erased (es_scope c) (nd_world s))\<lparr>w_ticks := Suc (w_ticks (nd_world s))\<rparr> \<and>
        fences_stay (nd_gov s) (nd_gov s') \<and> g_erasures (nd_gov s') = dict_set (er_id q0) q (g_erasures (nd_gov s))
   | Inl e \<Rightarrow> nd_gov s' = nd_gov s \<and>
        service_erase_scope (pv_service P) (es_scope c) (nd_world s) = (Inl e, nd_world s'))"
proof -
  let ?sc = "es_scope c" and ?w = "nd_world s"
  have ex: "experience_ok ?w" using world_okD(3) [OF system_okD(1) [OF ok(2)]] .
  obtain a w1 where er: "service_erase_scope (pv_service P) ?sc ?w = (a, w1)" by force
  have w1: "w1 = ?w \<or> w1 = erased ?sc ?w" by (rule erase_outcome [OF ex er])
  have ow: "on_world (service_erase_scope (pv_service P) ?sc) s = (a, s\<lparr>nd_world := w1\<rparr>)"
    by (simp add: on_world_def er)
  show ?thesis
  proof (cases a)
    case (Inl e)
    then have "r = Inl e" "s' = s\<lparr>nd_world := w1\<rparr>"
      using run by (simp_all add: run_erasure_def pbind_def ow)
    then show ?thesis using er Inl by simp
  next
    case (Inr summary)
    have gone: "w1 = erased ?sc ?w"
    proof -
      obtain sm where "erase_scope ?sc ?w = (Inr sm, erased ?sc ?w)" by (rule erase_scope_eval [OF ex])
      then show ?thesis using er Inr
        by (auto simp: service_erase_scope_def pbind_def prog_defs split: option.splits sum.splits)
    qed
    let ?s1 = "s\<lparr>nd_world := w1\<rparr>"
    let ?res = "if projection_status (pv_service P) w1 = ''disabled'' then ''not_applicable'' else ''completed''"
    let ?w2 = "w1\<lparr>w_ticks := Suc (w_ticks w1)\<rparr>"
    obtain b g where cp: "complete_erasure K ?sc (er_id q0) summary (handler_report ?res)
        (utc (e_clock E (w_ticks w1))) (nd_gov s) = (b, g)" by force
    have res: "r = b" "s' = s\<lparr>nd_world := ?w2, nd_gov := g\<rparr>"
      using run cp K(1)
      by (simp_all add: run_erasure_def pbind_eval(2) ow Inr on_gov_def)
    have ticks: "w_ticks w1 = w_ticks ?w" by (simp add: gone erased_def Let_def)
    from complete_outcome [OF cp] show ?thesis
    proof (elim disjE exE conjE)
      fix q assume "erasure_of K ?sc (er_id q0) (nd_gov s) = Some q" "er_status q = ES_COMPLETED"
      with q0 show ?thesis by simp
    next
      fix e assume e: "b = Inl e" "g = nd_gov s"
      have "?res \<in> {''completed'', ''not_applicable''}" by simp
      from with_completion_total [OF _ handler_report_done [OF this]] governance_okD(3) [OF ok(1)] q0(1)
      obtain q where "with_completion (utc (e_clock E (w_ticks w1))) summary (handler_report ?res) q0 = Inr q"
        unfolding erasure_of_Some by blast
      then show ?thesis using cp e q0
        by (simp add: complete_erasure_def erasure_in_scope_def)
    next
      fix d q assume d: "erasure_of K ?sc (er_id q0) (nd_gov s) = Some d"
        and q: "with_completion (utc (e_clock E (w_ticks w1))) summary (handler_report ?res) d = Inr q"
        and b: "b = Inr q" and g: "g = g_erasures_update (dict_set (er_id q0) q) (nd_gov s)"
      have "d = q0" using d q0(1) by simp
      then have id: "er_id q = er_id q0" using with_completion_fields [OF q] by simp
      note U = updated_request_ok [OF K(2) ok(1) d, of q]
      have "governance_ok K g" "erasure_of K ?sc (er_id q0) g = Some q"
        using U with_completion_fields [OF q] by (simp_all add: g)
      moreover have "fences_stay (nd_gov s) g" unfolding g by (rule fences_unchanged) simp
      ultimately show ?thesis
        using with_completion_fields [OF q] id ticks by (simp add: res b gone) (simp add: g)
    qed
  qed
qed

lemma begin_issued:
  assumes iss: "requests_issued E g w" and run: "begin_erasure K (e_ids E (w_ids w)) j sc rs pv by key t g = (r, g')"
    and w': "w_ids w' = Suc (Suc (w_ids w))"
  shows "requests_issued E g' w'"
proof -
  have "map_of (g_erasures g) i \<noteq> None \<or> i = e_ids E (w_ids w)" if "map_of (g_erasures g') i \<noteq> None" for i
    using run that
    by (auto simp: begin_erasure_def suppress_scope_def Let_def raise_if_def pbind_def prog_defs dict_index_def
        dest: mk_erasure_request_fields mk_erasure_request_fields [OF sym] split: option.splits sum.splits if_splits)
  then show ?thesis using iss w' unfolding requests_issued_def by (metis less_Suc_eq)
qed

lemma begin_pending:
  "begin_erasure K i j sc rs pv by key t g = (r, g') \<Longrightarrow> map_of (g_erasures g') l = Some q \<Longrightarrow>
   er_status q = ES_COMPLETED \<Longrightarrow> map_of (g_erasures g) l = Some q"
  by (auto simp: begin_erasure_def suppress_scope_def Let_def raise_if_def pbind_def prog_defs
      dest!: mk_erasure_request_fields mk_erasure_request_fields [OF sym]
      split: option.splits sum.splits if_splits prod.splits)

lemma begin_completed:
  "begin_erasure K i j sc rs pv by key t g = (Inr q, g') \<Longrightarrow> er_status q = ES_COMPLETED \<Longrightarrow> g' = g"
  by (auto simp: begin_erasure_def Let_def raise_if_def pbind_def prog_defs
      dest!: mk_erasure_request_fields mk_erasure_request_fields [OF sym]
      split: option.splits sum.splits if_splits prod.splits)

text \<open>The exceptions of the projection port have names.\<close>

definition errors_named :: "service \<Rightarrow> bool" where
  "errors_named sv \<longleftrightarrow> (\<forall>p n sc e. sv_projection sv = Some p \<longrightarrow> rp_delete_scope p n sc = Inl e \<longrightarrow>
     strip (uc (error_name e)) \<noteq> [])"

lemma service_erase_named:
  assumes ok: "experience_ok w" and named: "errors_named sv" and run: "service_erase_scope sv sc w = (Inl e, w')"
  shows "strip (uc (error_name e)) \<noteq> []"
proof -
  obtain sm where sm: "erase_scope sc w = (Inr sm, erased sc w)" by (rule erase_scope_eval [OF ok])
  have v: "strip (uc (error_name (ValueError m))) \<noteq> []" for m by (simp add: strip_def strip_while_def uc_def is_space_def)
  show ?thesis using run named v
    by (auto simp: service_erase_scope_def pbind_def prog_defs sm errors_named_def with_projection_documents_def
        res_simps split: option.splits sum.splits prod.splits)
qed

text \<open>
  The result of an erasure.  It succeeds with a completed request, and then the world is the one without
  the data of the scope; or nothing was begun; or it stays pending behind its fence, and the caller is
  told so.
\<close>

lemma erase_result:
  assumes K: "pv_conf P = K" "hmac_ok K" and inj: "ids_fresh E (nd_world s)" and ok: "node_ok E K s"
    and named: "errors_named (pv_service P)" and run: "erase E P c by s = (r, s')"
  shows "node_ok E K s' \<and> fences_stay (nd_gov s) (nd_gov s') \<and>
    (\<forall>l q. map_of (g_erasures (nd_gov s')) l = Some q \<longrightarrow> er_status q = ES_COMPLETED \<longrightarrow>
       map_of (g_erasures (nd_gov s)) l = Some q \<or> r = Inr q) \<and>
    (case r of
       Inr q \<Rightarrow> er_status q = ES_COMPLETED \<and> erasure_stored q \<and> fenced K (nd_gov s') (es_scope c) \<and>
         erasure_of K (es_scope c) (er_id q) (nd_gov s') = Some q \<and>
         (erasure_of K (es_scope c) (er_id q) (nd_gov s) = Some q \<and> same_store (nd_world s) (nd_world s') \<or>
          same_store (erased (es_scope c) (nd_world s)) (nd_world s'))
     | Inl e \<Rightarrow> same_store (nd_world s) (nd_world s') \<and> (\<exists>i j t. begin_erasure K i j (es_scope c) (es_reason_code c)
            (pv_policy_version P) by (es_idempotency_key c) (utc t) (nd_gov s) = (Inl e, nd_gov s')) \<or>
         e = GovernanceUnavailableError ''erasure remains pending because a required handler failed'' \<and>
         fenced K (nd_gov s') (es_scope c) \<and>
         (\<exists>q. erasure_of K (es_scope c) (er_id q) (nd_gov s') = Some q \<and> er_status q = ES_PENDING) \<and>
         (\<exists>u cause. same_store (nd_world s) u \<and>
            service_erase_scope (pv_service P) (es_scope c) u = (Inl cause, nd_world s')))"
proof -
  let ?sc = "es_scope c" and ?w = "nd_world s" and ?g = "nd_gov s"
  let ?n = "e_clock E (w_ticks ?w)" and ?i = "e_ids E (w_ids ?w)" and ?j = "e_ids E (Suc (w_ids ?w))"
  let ?w1 = "?w\<lparr>w_ticks := Suc (w_ticks ?w), w_ids := Suc (Suc (w_ids ?w))\<rparr>"
  note N = node_okD [OF ok]
  have same1: "same_store ?w ?w1" by (simp add: same_store_def store.defs)
  have sys1: "system_ok E ?w1" by (rule system_ok_same [OF N(2) same1])
  obtain b g1 where bg: "begin_erasure K ?i ?j ?sc (es_reason_code c) (pv_policy_version P) by
      (es_idempotency_key c) (utc ?n) ?g = (b, g1)" by force
  let ?s1 = "s\<lparr>nd_world := ?w1, nd_gov := g1\<rparr>"
  have new: "map_of (g_erasures ?g) ?i = None"
    using N(3) inj unfolding requests_issued_def ids_fresh_def inj_on_def by fastforce
  note B = begin_keeps [OF K(2) N(1) new bg]
  have iss1: "requests_issued E g1 ?w1" by (rule begin_issued [OF N(3) bg]) simp
  have stay1: "fences_stay ?g g1" using fences_governance(3) bg by (rule obeysD)
  note old = begin_pending [OF bg]
  have node1: "node_ok E K ?s1" using B sys1 iss1 by (simp add: node_ok_def)
  have shape: "erase E P c by s = (case b of Inl e \<Rightarrow> (Inl e, ?s1)
     | Inr q \<Rightarrow> (if er_status q = ES_COMPLETED then return q
        else catch (run_erasure E P c q) (\<lambda>e. pbind (on_gov (fail_erasure K ?sc (er_id q) (uc (error_name e)))) (\<lambda>_.
          throw (GovernanceUnavailableError ''erasure remains pending because a required handler failed'')))) ?s1)"
    using bg K(1) by (cases b) (simp_all add: erase_def pbind_def on_gov_def on_world_def now_def new_id_def)
  show ?thesis
  proof (cases b)
    case (Inl e)
    then show ?thesis using run shape node1 stay1 same1 bg old by auto
  next
    case (Inr q0)
    with B have q0: "fenced K g1 ?sc" "erasure_of K ?sc (er_id q0) g1 = Some q0"
      by (simp_all add: erasure_of_Some)
    show ?thesis
    proof (cases "er_status q0 = ES_COMPLETED")
      case True
      then have res: "r = Inr q0" "s' = ?s1" using run shape Inr by auto
      have "erasure_stored q0" using governance_okD(3) [of K g1] q0(2) B by (auto simp: erasure_of_Some)
      moreover have "g1 = ?g" using begin_completed bg Inr True by blast
      then have "erasure_of K ?sc (er_id q0) ?g = Some q0" using q0(2) by simp
      ultimately show ?thesis using res node1 stay1 q0 True same1 old by simp
    next
      case False
      obtain r2 s2 where run2: "run_erasure E P c q0 ?s1 = (r2, s2)" by force
      have R: "case r2 of
         Inr q \<Rightarrow> er_status q = ES_COMPLETED \<and> erasure_stored q \<and> er_id q = er_id q0 \<and>
            erasure_of K ?sc (er_id q) (nd_gov s2) = Some q \<and> governance_ok K (nd_gov s2) \<and>
            nd_world s2 = (erased ?sc ?w1)\<lparr>w_ticks := Suc (w_ticks ?w1)\<rparr> \<and>
            fences_stay g1 (nd_gov s2) \<and> g_erasures (nd_gov s2) = dict_set (er_id q0) q (g_erasures g1)
       | Inl e \<Rightarrow> nd_gov s2 = g1 \<and> service_erase_scope (pv_service P) ?sc ?w1 = (Inl e, nd_world s2)"
        using run_erasure_outcome [OF K _ _ _ _ run2] node1 q0(2) False by (cases r2) (auto simp: node_ok_def)
      have grow: "w_ids (erased ?sc u) = w_ids u" for u by (simp add: erased_def Let_def)
      have er1: "same_store (erased ?sc ?w) (erased ?sc ?w1)"
        by (simp add: same_store_def store.defs erased_def Let_def erased_observations_def erased_records_def revision_ids_of_def)
      have iss: "requests_issued E g u" if "\<And>i. map_of (g_erasures g) i \<noteq> None \<Longrightarrow> map_of (g_erasures g1) i \<noteq> None"
          "w_ids ?w1 \<le> w_ids u" for g u
        using iss1 that unfolding requests_issued_def by (meson order_less_le_trans)
      show ?thesis
      proof (cases r2)
        case (Inr q)
        note Rq = R [unfolded Inr sum.case]
        have res: "r = Inr q" "s' = s2" using run shape \<open>b = Inr q0\<close> False run2 Inr by (simp_all add: catch_eval)
        have "system_ok E (nd_world s2)"
          using system_ok_same [OF erased_system_ok [OF sys1, of ?sc], of "nd_world s2"] Rq
          by (simp add: same_store_refl)
        moreover have "requests_issued E (nd_gov s2) (nd_world s2)"
          by (rule iss) (use Rq q0(2) in \<open>auto simp: grow erasure_of_Some split: if_splits\<close>)
        moreover have "same_store (erased ?sc ?w) (nd_world s2)" using er1 Rq by simp
        ultimately show ?thesis
          using Rq res fenced_stays [OF _ q0(1)] stay1 old
          by (auto simp: node_ok_def intro: fences.R_trans split: if_splits)
      next
        case (Inl e)
        note Rq = R [unfolded Inl sum.case]
        let ?code = "uc (error_name e)"
        have gov2: "nd_gov s2 = g1" using Rq by simp
        have ex1: "experience_ok ?w1" using world_okD(3) [OF system_okD(1) [OF sys1]] .
        have er: "service_erase_scope (pv_service P) ?sc ?w1 = (Inl e, nd_world s2)" using Rq by simp
        have "erasure_stored q0" using governance_okD(3) [of K g1] q0(2) B by (auto simp: erasure_of_Some)
        from with_failure_total [OF this service_erase_named [OF ex1 named er]]
        obtain p where p: "with_failure ?code q0 = Inr p" by blast
        then have fl: "fail_erasure K ?sc (er_id q0) ?code g1 = (Inr p, g_erasures_update (dict_set (er_id q0) p) g1)"
          using q0(2) False by (simp add: fail_erasure_def erasure_in_scope_def)
        let ?g2 = "g_erasures_update (dict_set (er_id q0) p) g1"
        have res: "r = Inl (GovernanceUnavailableError ''erasure remains pending because a required handler failed'')"
          "s' = s2\<lparr>nd_gov := ?g2\<rparr>"
          using run shape \<open>b = Inr q0\<close> False run2 Inl fl gov2
          by (simp_all add: catch_eval pbind_def on_gov_def throw_def)
        note F = with_failure_fields [OF p]
        have U: "governance_ok K ?g2" "erasure_of K ?sc (er_id q0) ?g2 = Some p"
          using updated_request_ok [OF K(2) _ q0(2), of p] B F by simp_all
        have "nd_world s2 = ?w1 \<or> nd_world s2 = erased ?sc ?w1" by (rule erase_outcome [OF ex1 er])
        then have sys2: "system_ok E (nd_world s2)" "w_ids ?w1 \<le> w_ids (nd_world s2)"
          using sys1 erased_system_ok [OF sys1, of ?sc] grow [of ?w1] by auto
        have "requests_issued E ?g2 (nd_world s2)"
          by (rule iss) (use q0(2) sys2(2) in \<open>auto simp: erasure_of_Some split: if_splits\<close>)
        moreover have "fenced K ?g2 ?sc" using q0(1) by (simp add: fenced_def)
        moreover have "fences_stay ?g ?g2" using stay1 by (simp add: fences_stay_def)
        moreover have "map_of (g_erasures ?g) l = Some q"
          if "map_of (g_erasures ?g2) l = Some q" "er_status q = ES_COMPLETED" for l q
          using that F old [of l q] by (auto split: if_splits)
        ultimately show ?thesis using res U sys2 er same1 F by (auto simp: node_ok_def intro!: exI [of _ p])
      qed
    qed
  qed
qed

end
