(* ===== verification/AccessCorrect.thy ===== *)
theory AccessCorrect
  imports Access
begin

text \<open>
  The enforcement point does what it is for: no memory use case runs without a grant that answers
  for its scope, its action and its purpose, none runs in a suppressed scope, a refused one leaves
  the store and the governance records as they were, and each decision is recorded exactly once.
\<close>

definition permitted :: "platform \<Rightarrow> invocation_context \<Rightarrow> memory_action \<Rightarrow> scope \<Rightarrow> bool" where
  "permitted F iv action sc \<longleftrightarrow> (\<exists>g \<in> set (ac_grants (iv_actor iv)). covers g sc \<and>
     (\<exists>role \<in> set (ag_roles g). role_allows (pf_permissions F) action role) \<and>
     permits_purpose g (iv_purpose iv))"

definition visible :: "invocation_context \<Rightarrow> scope \<Rightarrow> bool" where
  "visible iv sc \<longleftrightarrow> (\<exists>g \<in> set (ac_grants (iv_actor iv)). covers g sc)"

text \<open>What \<open>mk_invocation\<close> and the configuration guarantee.\<close>

definition invocation_ok :: "platform \<Rightarrow> invocation_context \<Rightarrow> bool" where
  "invocation_ok F iv \<longleftrightarrow> stripped (iv_purpose iv) \<and> stripped (iv_request_id iv) \<and>
     strip (pf_policy_version F) \<noteq> []"

subsection \<open>Texts of ids\<close>

lemma hex_char_not_space: "d < 16 \<Longrightarrow> \<not> is_space (hex_char d)"
  by (auto simp: hex_char_def is_space_def)

lemma set_hex_digits: "c \<in> set (hex_digits n x) \<Longrightarrow> \<exists>d < 16. c = hex_char d"
proof (induction n arbitrary: x)
  case (Suc n)
  then show ?case by (auto intro: exI [of _ "x mod 16"])
qed simp

lemma stripped_uuid_str: "stripped (uuid_str i)"
proof -
  have "\<not> is_space c" if "c \<in> set (uuid_str i)" for c
  proof -
    have "c = 45 \<or> c \<in> set (hex_digits 32 (unat i))"
      using that unfolding uuid_str_def dashed_def by (auto dest: in_set_takeD in_set_dropD)
    then show ?thesis
    proof
      assume "c \<in> set (hex_digits 32 (unat i))"
      then obtain d where "d < 16" "c = hex_char d" using set_hex_digits by blast
      then show ?thesis by (simp add: hex_char_not_space)
    qed (simp add: is_space_def)
  qed
  moreover have "uuid_str i \<noteq> []" by (simp add: uuid_str_def dashed_def)
  ultimately show ?thesis by (simp add: stripped_def)
qed

subsection \<open>Authorizing\<close>

text \<open>Nothing but the counters and the audit log differs.\<close>

definition untouched :: "authorized_node \<Rightarrow> authorized_node \<Rightarrow> bool" where
  "untouched s t \<longleftrightarrow> nd_gov t = nd_gov s \<and> store.truncate (nd_world t) = store.truncate (nd_world s) \<and>
     w_projection_available (nd_world t) = w_projection_available (nd_world s)"

lemma untouched_refl: "untouched s s" by (simp add: untouched_def)

lemma untouched_trans: "untouched s t \<Longrightarrow> untouched t u \<Longrightarrow> untouched s u" by (simp add: untouched_def)

interpretation unt: state_relation untouched
  by unfold_locales (auto intro: untouched_refl untouched_trans)

lemma untouched_counters:
  "untouched s (s\<lparr>nd_world := (nd_world s)\<lparr>w_ticks := t\<rparr>\<rparr>)"
  "untouched s (s\<lparr>nd_world := (nd_world s)\<lparr>w_ids := i\<rparr>\<rparr>)"
  "untouched s (an_audit_update a s)"
  by (simp_all add: untouched_def store.defs)

lemma obeys_counters: "obeys untouched (on_world (now E))" "obeys untouched (on_world (new_id E))"
  using untouched_counters by (simp_all add: obeys_def on_world_def now_def new_id_def)

lemma authorize_untouched: "obeys untouched (authorize E F iv action sc resource_id)"
  unfolding authorize_def record_audit_def
  by (intro unt.obeys_intros obeys_counters untouched_counters)

definition resource_of :: "memory_action \<Rightarrow> scope \<Rightarrow> uuid option \<Rightarrow> protected_resource" where
  "resource_of action sc resource_id = \<lparr>re_scope = sc, re_plane = action_plane action,
     re_resource_id = map_option uuid_str resource_id\<rparr>"

definition request_of ::
  "invocation_context \<Rightarrow> memory_action \<Rightarrow> scope \<Rightarrow> uuid option \<Rightarrow> authorization_request" where
  "request_of iv action sc resource_id = \<lparr>aq_actor = iv_actor iv, aq_action = action,
     aq_resource = resource_of action sc resource_id, aq_purpose = iv_purpose iv\<rparr>"

lemma request_eval:
  assumes "invocation_ok F iv"
  shows "mk_resource sc (action_plane action) (map_option uuid_str resource_id) =
      Inr (resource_of action sc resource_id)"
    "mk_authorization_request (iv_actor iv) action (resource_of action sc resource_id) (iv_purpose iv) =
      Inr (request_of iv action sc resource_id)"
    "mk_audit_event d (iv_actor iv) action (resource_of action sc resource_id) (iv_purpose iv)
      (iv_request_id iv) (utc n) = Inr \<lparr>au_decision = d, au_actor = iv_actor iv, au_action = action,
        au_resource = resource_of action sc resource_id, au_purpose = iv_purpose iv,
        au_request_id = iv_request_id iv, au_recorded_at = n\<rparr>"
  using assms stripped_uuid_str
  by (cases resource_id; simp add: mk_resource_def resource_of_def mk_authorization_request_def request_of_def
      mk_audit_event_def invocation_ok_def require_text_stripped)+

lemma request_verdict:
  "fst (verdict (pf_permissions F) (request_of iv action sc resource_id)) = permitted F iv action sc"
  "verdict perms (request_of iv action sc resource_id) = (False, ''scope_not_granted'') \<longleftrightarrow> \<not> visible iv sc"
  by (auto simp: verdict_allowed verdict_concealed permitted_def visible_def request_of_def resource_of_def)

text \<open>The whole of \<open>_authorize\<close>: one decision, one event, and the refusal.\<close>

lemma authorize_eval:
  assumes ok: "invocation_ok F iv"
  obtains d ev t where
    "de_allowed d = permitted F iv action sc" "au_decision ev = d" "au_action ev = action"
    "au_actor ev = iv_actor iv" "re_scope (au_resource ev) = sc" "au_purpose ev = iv_purpose iv"
    "untouched s t" "an_audit t = an_audit s"
    "authorize E F iv action sc resource_id s =
      (case pf_sink F ev of Inl e \<Rightarrow> (Inl e, t)
       | Inr _ \<Rightarrow> (if permitted F iv action sc then Inr () else Inl (AuthorizationDeniedError (\<not> visible iv sc)),
           an_audit_update (\<lambda>evs. evs @ [ev]) t))"
proof -
  let ?i = "e_ids E (w_ids (nd_world s))" and ?n = "e_clock E (w_ticks (nd_world s))"
  let ?r = "request_of iv action sc resource_id"
  have v: "strip (pf_policy_version F) \<noteq> []" using ok by (simp add: invocation_ok_def)
  from decide_total [OF this] obtain d where
    d: "decide (pf_permissions F) (pf_policy_version F) ?i ?r = Inr d"
      "de_allowed d = permitted F iv action sc"
      "(de_reason d = uc ''scope_not_granted'') = (\<not> visible iv sc)"
    unfolding request_verdict by (metis request_verdict)
  let ?t = "s\<lparr>nd_world := (nd_world s)\<lparr>w_ids := Suc (w_ids (nd_world s)), w_ticks := Suc (w_ticks (nd_world s))\<rparr>\<rparr>"
  let ?ev = "\<lparr>au_decision = d, au_actor = iv_actor iv, au_action = action,
        au_resource = resource_of action sc resource_id, au_purpose = iv_purpose iv,
        au_request_id = iv_request_id iv, au_recorded_at = ?n\<rparr>"
  have eval: "authorize E F iv action sc resource_id s =
      (case pf_sink F ?ev of Inl e \<Rightarrow> (Inl e, ?t)
       | Inr _ \<Rightarrow> (if permitted F iv action sc then Inr () else Inl (AuthorizationDeniedError (\<not> visible iv sc)),
           an_audit_update (\<lambda>evs. evs @ [?ev]) ?t))"
    unfolding authorize_def record_audit_def
    by (simp add: request_eval [OF ok] pbind_on_world_now pbind_on_world_new_id d(1,2) d(3) [simplified] pbind_assoc
        split: sum.split)
  show thesis
    by (rule that [of d ?ev ?t]) (use d(2) eval in \<open>simp_all add: untouched_def store.defs resource_of_def\<close>)
qed

subsection \<open>Guarded use cases\<close>

lemma guarded_permitted:
  assumes ok: "invocation_ok F iv" and run: "guarded E F iv action sc resource_id m s = (Inr x, t)"
  shows "permitted F iv action sc"
proof -
  from run obtain u s' where "authorize E F iv action sc resource_id s = (Inr u, s')"
    unfolding guarded_def pbind_Inr by blast
  moreover obtain ev w where "authorize E F iv action sc resource_id s =
      (case pf_sink F ev of Inl e \<Rightarrow> (Inl e, w)
       | Inr _ \<Rightarrow> (if permitted F iv action sc then Inr () else Inl (AuthorizationDeniedError (\<not> visible iv sc)),
           an_audit_update (\<lambda>evs. evs @ [ev]) w))"
    by (rule authorize_eval [OF ok, of action sc s E resource_id])
  ultimately show ?thesis by (auto split: sum.splits if_splits)
qed

text \<open>Where processing is refused.\<close>

definition admitted :: "platform \<Rightarrow> invocation_context \<Rightarrow> scope \<Rightarrow> instant \<Rightarrow> governance \<Rightarrow> bool" where
  "admitted F iv sc n g \<longleftrightarrow> (case pf_privacy F of None \<Rightarrow> True
     | Some P \<Rightarrow> \<not> fenced (pv_conf P) g sc \<and>
         (pf_bypass F \<or> list_ex (grant_permits (scope_refs (pv_conf P) sc) (iv_purpose iv) n)
           (dict_values (g_grants g))))"

lemma processing_refused:
  assumes "\<not> (\<exists>n. admitted F iv sc n (nd_gov s))"
  obtains m t where "processing E F iv sc body s = (Inl (ProcessingDeniedError m), t)" "untouched s t"
    "an_audit t = an_audit s"
proof -
  let ?n = "e_clock E (w_ticks (nd_world s))"
  let ?t = "s\<lparr>nd_world := (nd_world s)\<lparr>w_ticks := Suc (w_ticks (nd_world s))\<rparr>\<rparr>"
  from assms have no: "\<not> admitted F iv sc ?n (nd_gov s)" by blast
  then obtain P where P: "pf_privacy F = Some P" by (cases "pf_privacy F") (auto simp: admitted_def)
  with no have "\<exists>m. processing E F iv sc body s = (Inl (ProcessingDeniedError m), ?t)"
    by (auto simp: processing_def pbind_on_world_now admitted_def processing_context_def
        bypass_processing_context_def rbind_def raise_if_def split: sum.splits if_splits)
  moreover have "untouched s ?t" by (rule untouched_counters)
  ultimately show thesis using that by auto
qed

text \<open>The node after a refusal: the audit log may have one more event, nothing else has changed.\<close>

lemma guarded_refused:
  assumes ok: "invocation_ok F iv"
    and no: "\<not> permitted F iv action sc \<or> \<not> (\<exists>n. admitted F iv sc n (nd_gov s))"
  obtains e t where "guarded E F iv action sc resource_id m s = (Inl e, t)" "untouched s t"
proof -
  obtain ev w where w: "untouched s w" and auth: "authorize E F iv action sc resource_id s =
      (case pf_sink F ev of Inl e \<Rightarrow> (Inl e, w)
       | Inr _ \<Rightarrow> (if permitted F iv action sc then Inr () else Inl (AuthorizationDeniedError (\<not> visible iv sc)),
           an_audit_update (\<lambda>evs. evs @ [ev]) w))"
    by (rule authorize_eval [OF ok, of action sc s E resource_id])
  let ?w = "an_audit_update (\<lambda>evs. evs @ [ev]) w"
  have w': "untouched s ?w" using untouched_trans [OF w untouched_counters(3)] .
  show thesis
  proof (cases "(\<exists>u. pf_sink F ev = Inr u) \<and> permitted F iv action sc")
    case True
    with auth have run: "authorize E F iv action sc resource_id s = (Inr (), ?w)" by auto
    from True no have "\<not> (\<exists>n. admitted F iv sc n (nd_gov s))" by blast
    then have "\<not> (\<exists>n. admitted F iv sc n (nd_gov ?w))" using w' by (simp add: untouched_def)
    then obtain msg t where "processing E F iv sc (on_world m) ?w = (Inl (ProcessingDeniedError msg), t)"
      "untouched ?w t" by (rule processing_refused)
    then show thesis
      using that [of "ProcessingDeniedError msg" t] run untouched_trans [OF w'] by (simp add: guarded_def pbind_eval)
  next
    case False
    with auth obtain e t where "authorize E F iv action sc resource_id s = (Inl e, t)" "untouched s t"
      using w w' by (cases "pf_sink F ev") auto
    then show thesis using that [of e t] by (simp add: guarded_def pbind_eval)
  qed
qed

text \<open>One event per use case, whatever comes of it.\<close>

definition same_audit :: "authorized_node \<Rightarrow> authorized_node \<Rightarrow> bool" where
  "same_audit s t \<longleftrightarrow> an_audit t = an_audit s"

interpretation aud: state_relation same_audit
  by unfold_locales (auto simp: same_audit_def)

lemma obeys_on: "obeys same_audit (on_world m)" "obeys same_audit (on_gov g)"
  by (simp_all add: obeys_def same_audit_def on_world_def on_gov_def case_prod_beta)

lemma processing_same_audit: "obeys same_audit (processing E F iv sc (on_world m))"
  unfolding processing_def by (intro aud.obeys_intros obeys_on)

lemma guarded_audited:
  assumes ok: "invocation_ok F iv" and sink: "\<And>ev. pf_sink F ev = Inr ()"
  obtains ev where "an_audit (snd (guarded E F iv action sc resource_id m s)) = an_audit s @ [ev]"
    "au_action ev = action" "re_scope (au_resource ev) = sc" "au_actor ev = iv_actor iv"
    "au_purpose ev = iv_purpose iv" "de_allowed (au_decision ev) = permitted F iv action sc"
proof -
  obtain d ev w where
    d: "de_allowed d = permitted F iv action sc" "au_decision ev = d" "au_action ev = action"
      "au_actor ev = iv_actor iv" "re_scope (au_resource ev) = sc" "au_purpose ev = iv_purpose iv"
    and w: "an_audit w = an_audit s"
    and auth: "authorize E F iv action sc resource_id s =
      (case pf_sink F ev of Inl e \<Rightarrow> (Inl e, w)
       | Inr _ \<Rightarrow> (if permitted F iv action sc then Inr () else Inl (AuthorizationDeniedError (\<not> visible iv sc)),
           an_audit_update (\<lambda>evs. evs @ [ev]) w))"
    by (rule authorize_eval [OF ok, of action sc s E resource_id])
  let ?w = "an_audit_update (\<lambda>evs. evs @ [ev]) w"
  have "an_audit (snd (guarded E F iv action sc resource_id m s)) = an_audit ?w"
    using auth sink processing_same_audit [of E F iv sc m]
    by (cases "permitted F iv action sc") (simp_all add: guarded_def pbind_eval obeys_def same_audit_def)
  then show thesis using that [of ev] d w by simp
qed

end
