(* ===== verification/Sample.thy ===== *)
theory Sample
  imports GovernanceCorrect AccessCorrect
begin

text \<open>
  Concrete collaborators and data: an id generator that counts, a clock that reads one second per
  call, constant digests, one user with a grant, one service and the empty store.  The hypotheses of
  the properties hold for them, and the witnesses of the properties run the operations on them.
\<close>

definition sample_db :: unidb where
  "sample_db = \<lparr>uni_lower = (\<lambda>s. s), uni_casefold = (\<lambda>s. s), uni_decimal = (\<lambda>c. None)\<rparr>"

definition sample_digest :: ustr where
  "sample_digest = replicate 64 48"

definition sample_env :: env where
  "sample_env = \<lparr>e_ids = of_nat, e_clock = (\<lambda>n. int n * 1000000), e_db = sample_db,
     e_sha = (\<lambda>_. sample_digest), e_pow = (\<lambda>_. 1/2), e_repr = (\<lambda>_. uc ''0.5'')\<rparr>"

definition sample_scope :: scope where
  "sample_scope = \<lparr>tenant_id = uc ''t'', subject_id = uc ''s''\<rparr>"

definition other_scope :: scope where
  "other_scope = \<lparr>tenant_id = uc ''t'', subject_id = uc ''o''\<rparr>"

definition sample_context :: context_sig where
  "sample_context = \<lparr>facets = [(uc ''k'', uc ''v'')]\<rparr>"

definition sample_world :: world where
  "sample_world = world_of empty_store 0 0 None"

definition sample_strategy :: strategy_snapshot where
  "sample_strategy = \<lparr>st_id = 77, st_version = 1, st_weights = default_weights, st_min_score = 0,
     st_half_life = 180, st_created_at = 0, st_parent_id = None\<rparr>"

definition sample_service :: service where
  "sample_service = \<lparr>sv_policy = Some sample_strategy, sv_projection = None,
     sv_projection_required = False, sv_oversample = 4\<rparr>"

definition sample_remember :: remember_command where
  "sample_remember = \<lparr>rm_scope = sample_scope, rm_source = uc ''chat'', rm_key_id = uc ''k1'',
     rm_key = uc ''drink'', rm_value = uc ''tea'', rm_context = sample_context,
     rm_evidence_text = uc ''i like tea'', rm_confidence = 1/2, rm_occurred_at = 0\<rparr>"

lemma sample_ids [simp]: "ids_fresh sample_env w \<longleftrightarrow> w_ids w \<le> 2 ^ 128 - 6"
proof -
  have "inj_on (of_nat :: nat \<Rightarrow> uuid) {..<n} \<longleftrightarrow> n \<le> 2 ^ 128" for n
  proof
    assume i: "inj_on (of_nat :: nat \<Rightarrow> uuid) {..<n}"
    have "n = card ((of_nat :: nat \<Rightarrow> uuid) ` {..<n})" using i by (simp add: card_image)
    also have "\<dots> \<le> card (UNIV :: uuid set)" by (rule card_mono) simp_all
    finally show "n \<le> 2 ^ 128" by (simp add: card_word)
  next
    assume n: "n \<le> 2 ^ 128"
    show "inj_on (of_nat :: nat \<Rightarrow> uuid) {..<n}"
    proof (rule inj_onI)
      fix i j assume ij: "i \<in> {..<n}" "j \<in> {..<n}" and e: "(of_nat i :: uuid) = of_nat j"
      have "unat (of_nat i :: uuid) = unat (of_nat j :: uuid)" using e by simp
      then show "i = j" using ij n by (simp add: unat_of_nat take_bit_eq_mod)
    qed
  qed
  then show ?thesis by (simp add: ids_fresh_def sample_env_def)
qed

lemma sample_digest_text: "sha256_text sample_digest"
  by (simp add: sample_digest_def sha256_text_def list_all_iff)

lemma sample_digests: "digests_ok sample_env"
  by (simp add: digests_ok_def sample_env_def sample_digest_text)

lemma sample_world_ok: "system_ok E sample_world" "world_ok E sample_world"
  using empty_system_ok [of E 0 0 None] by (simp_all add: sample_world_def system_ok_def)

lemma sample_remember_ok: "remember_wf sample_remember" "request_ok (remember_request sample_remember)"
  by (simp_all add: remember_wf_def request_ok_def remember_request_def sample_remember_def stripped_def
      uc_def is_space_def)

lemma sample_strategy_ok: "strategy_ok sample_strategy"
  by (simp add: strategy_ok_def sample_strategy_def default_weights_ok)

lemma sample_world_fields:
  "w_ids sample_world = 0" "w_ticks sample_world = 0" "s_observation_keys sample_world = []"
  "s_strategies sample_world = []" "s_records sample_world = []" "s_record_identity sample_world = []"
  "observation_by_idempotency sample_world sc k = None"
  by (simp_all add: sample_world_def world_of_def empty_store_def store.defs observation_by_idempotency_def)

lemma sample_start:
  "\<exists>w. mk_service sample_env (Some sample_strategy) None False 4 sample_world = (Inr sample_service, w) \<and>
     w_ids w = 0 \<and> s_observation_keys w = [] \<and> s_record_identity w = []"
  by (simp add: mk_service_def save_strategy_def sample_service_def sample_world_def world_of_def empty_store_def
      store.defs raise_if_def sample_strategy_def pbind_assoc)

text \<open>The state after the first request for an identity, written out.\<close>

definition first_world :: "env \<Rightarrow> remember_command \<Rightarrow> world \<Rightarrow> world" where
  "first_world E c w = after_new E (staged_candidate E (remember_request c) w) (rm_occurred_at c) (rm_source c)
     None (staged E (remember_request c) w)"

definition first_of :: "env \<Rightarrow> remember_command \<Rightarrow> world \<Rightarrow> memory_revision" where
  "first_of E c w = first_revision E (w_ids w + 3) (e_clock E (w_ticks w + 1))
     (staged_candidate E (remember_request c) w) (rm_occurred_at c) (rm_source c)"

lemma first_remember:
  assumes c: "request_ok (remember_request c)" "remember_wf c"
    and free: "map_of (s_observation_keys w) (rm_scope c, rm_key_id c) = None"
      "map_of (s_record_identity w) (rm_scope c, rm_key c, fingerprint (e_sha E) (rm_context c)) = None"
  shows "remember_preference E c w =
    (Inr (result_of (staged_candidate E (remember_request c) w) (first_of E c w)), first_world E c w)"
proof -
  have "accept_candidate E (staged_candidate E (remember_request c) w) (rm_occurred_at c) (rm_source c) None None
      (staged E (remember_request c) w) =
     (Inr (result_of (staged_candidate E (remember_request c) w) (first_of E c w)), first_world E c w)"
    unfolding first_world_def first_of_def
    by (subst accept_new_eval) (use staged_candidate_ok [OF c(1)] c(2) free in
      \<open>simp_all add: staged_fields staged_candidate_def remember_request_def remember_wf_def reason_ok_def add.commute\<close>)
  then show ?thesis
    unfolding remember_preference_def
    by (intro transaction_Inr) (simp only: remember_body_new [OF c(1) free(1)])
qed

lemma first_world_fields:
  "w_ids (first_world E c w) = w_ids w + 6"
  "s_revisions (first_world E c w) = dict_set (e_ids E (w_ids w + 4)) (first_of E c w) (s_revisions w)"
  by (simp_all add: first_world_def after_new_def Let_def with_candidate_def added_def ticked_def staged_def
      ingested_def first_revision_def first_of_def add.commute)

definition sample_remembered :: world where
  "sample_remembered = first_world sample_env sample_remember sample_world"

lemma sample_remember_run:
  "remember_preference sample_env sample_remember sample_world =
     (Inr (result_of (staged_candidate sample_env (remember_request sample_remember) sample_world)
       (first_of sample_env sample_remember sample_world)), sample_remembered)"
  unfolding sample_remembered_def
  by (rule first_remember [OF sample_remember_ok(2,1)]) (simp_all add: sample_world_fields)

definition sample_record :: memory_record where
  "sample_record = \<lparr>rec_id = 3, rec_scope = sample_scope, rec_kind = PREFERENCE, rec_key = uc ''drink'',
     rec_context = sample_context, rec_created_at = 1000000\<rparr>"

lemma sample_remembered_fields:
  "w_ids sample_remembered = 6" "w_ticks sample_remembered = 2"
  "s_observation_keys sample_remembered = [((sample_scope, uc ''k1''), 0)]"
  "s_active_revision sample_remembered = [(3, 4)]"
  "s_records sample_remembered = [(3, sample_record)]"
  "s_revisions sample_remembered = [(4, first_of sample_env sample_remember sample_world)]"
  "s_revision_ids_by_record sample_remembered = [(3, [4])]"
  by (simp_all add: sample_remembered_def first_world_def after_new_def Let_def with_candidate_def added_def
      ticked_def staged_def ingested_def sample_world_def world_of_def empty_store_def store.defs sample_env_def
      new_record_def first_revision_def staged_candidate_def remember_request_def sample_remember_def
      staged_observation_def first_of_def sample_record_def)

lemma sample_remembered_ok: "world_ok sample_env sample_remembered"
  using remember_keeps [OF sample_world_ok(2) _ sample_remember_ok(1) sample_remember_run]
  by (simp add: sample_world_fields)

definition sample_correct :: correct_command where
  "sample_correct = \<lparr>cp_scope = sample_scope, cp_record_id = 3, cp_source = uc ''chat'', cp_key_id = uc ''k2'',
     cp_value = uc ''mint'', cp_evidence_text = uc ''mint please'', cp_reason = uc ''asked'',
     cp_occurred_at = 1, cp_expected_revision_id = Some 4\<rparr>"

lemma sample_correct_fields:
  "cp_scope sample_correct = sample_scope" "cp_record_id sample_correct = 3" "cp_key_id sample_correct = uc ''k2''"
  "cp_value sample_correct = uc ''mint''" "cp_expected_revision_id sample_correct = Some 4"
  "rec_scope sample_record = sample_scope" "rec_kind sample_record = PREFERENCE" "rec_id sample_record = 3"
  by (simp_all add: sample_correct_def sample_record_def)

lemma sample_correct_ok:
  "correct_wf sample_correct" "request_ok (correct_request sample_correct sample_record)"
  "stripped (cp_reason sample_correct)"
  "observation_by_idempotency sample_remembered sample_scope [107, 50] = None"
  by (simp_all add: correct_wf_def request_ok_def correct_request_def sample_correct_def sample_record_def
      stripped_def uc_def is_space_def observation_by_idempotency_def sample_remembered_fields)

lemma sample_first_fields:
  "rev_id (first_of sample_env sample_remember sample_world) = 4"
  "rev_sequence (first_of sample_env sample_remember sample_world) = 1"
  by (simp_all add: first_of_def first_revision_def sample_env_def sample_world_fields)

end
