(* ===== verification/FloatSums.thy ===== *)
theory FloatSums
  imports PyFloat
begin

text \<open>
  The built-in compensated sum never turns negative: a sum of at most a million non-negative floats is
  non-negative, whatever their size.  The error of one addition is relative (sums are exact in the
  subnormal range), so the compensation stays far below the running sum.
\<close>

lemma in_format_multiple: "in_format x \<Longrightarrow> \<exists>k. x = of_int k * 2 powi (- 1074)"
proof -
  assume "in_format x"
  then obtain m e where "- 1074 \<le> e" "x = of_int m * 2 powi e" by (auto simp: in_format_def)
  moreover then obtain k where "(2::rat) powi e = of_int k * 2 powi (- 1074)" using powi_2_grid by blast
  ultimately have "x = of_int (m * k) * 2 powi (- 1074)" by simp
  then show ?thesis by blast
qed

lemma sum_error:
  assumes "is_double a" "is_double b"
  shows "\<bar>rnd53 (a + b) - (a + b)\<bar> \<le> ulp1 * \<bar>a + b\<bar>"
proof (cases "a + b = 0")
  case False
  let ?s = "a + b"
  show ?thesis
  proof (cases "- 1074 \<le> ilog2 ?s - 52")
    case True
    then have e: "float_exp ?s = ilog2 ?s + (- 52)" by (simp add: float_exp_def)
    have "\<bar>rnd53 ?s - ?s\<bar> \<le> 2 powi float_exp ?s / 2" by (rule rnd53_error)
    also have "\<dots> = ulp1 * 2 powi ilog2 ?s"
      unfolding e power_int_add [OF disjI1, of "2::rat", simplified] ulp1_def by (simp add: power_int_def power_divide)
    also have "\<dots> \<le> ulp1 * \<bar>?s\<bar>" using ilog2_bounds [OF False] ulp1_small by (intro mult_left_mono) simp_all
    finally show ?thesis .
  next
    case small: False
    then have e: "float_exp ?s = - 1074" by (simp add: float_exp_def)
    obtain k l where "a = of_int k * 2 powi (- 1074)" "b = of_int l * 2 powi (- 1074)"
      using in_format_multiple assms unfolding is_double_iff by blast
    then have s: "?s = of_int (k + l) * 2 powi (- 1074)" by (simp add: algebra_simps)
    have "?s / 2 powi (- 1074) = of_int (k + l)" unfolding s by (rule nonzero_mult_div_cancel_right) simp
    then have "rnd53 ?s = ?s" using False unfolding rnd53_def e using s by (simp del: of_int_add)
    then show ?thesis using ulp1_small by simp
  qed
qed simp

lemma diff_error:
  assumes "is_double a" "is_double b"
  shows "\<bar>rnd53 (a - b) - (a - b)\<bar> \<le> ulp1 * \<bar>a - b\<bar>"
  using sum_error [OF assms(1), of "- b"] assms(2) in_format_minus unfolding is_double_iff by simp

lemma step_relative:
  assumes f: "is_double f" "0 \<le> f" and x: "is_double x" "0 \<le> x"
  shows "f \<le> fadd f x"
    and "\<bar>if \<bar>x\<bar> \<le> \<bar>f\<bar> then fadd (fsub f (fadd f x)) x else fadd (fsub x (fadd f x)) f\<bar> \<le> 4 * ulp1 * fadd f x"
proof -
  let ?t = "fadd f x"
  obtain s where s_def: "f + x = s" by simp
  show "f \<le> ?t" unfolding fadd_def using rnd53_mono [of f "f + x"] f x by (simp add: is_double_def)
  have u: "0 < ulp1" "ulp1 \<le> 1/100" using ulp1_small by simp_all
  have t: "\<bar>?t - s\<bar> \<le> ulp1 * s" using sum_error [OF f(1) x(1)] f x unfolding fadd_def s_def [symmetric] by simp
  have s: "0 \<le> s" "0 \<le> ulp1 * s" "ulp1 * s \<le> s / 100"
    using u mult_right_mono [OF u(2), of s] f x by (simp_all add: s_def [symmetric])
  have half: "\<bar>fadd (fsub y ?t) z\<bar> \<le> 4 * ulp1 * ?t"
    if yz: "y + z = s" "is_double y" "0 \<le> y" "is_double z" "0 \<le> z" for y z
  proof -
    let ?w = "fsub y ?t"
    have w: "\<bar>?w - (y - ?t)\<bar> \<le> ulp1 * \<bar>y - ?t\<bar>"
      unfolding fsub_def by (rule diff_error [OF yz(2) is_double_fadd])
    have "\<bar>y - ?t\<bar> \<le> s + ulp1 * s" using t yz by linarith
    then have "\<bar>y - ?t\<bar> \<le> 101/100 * s" using s by linarith
    then have "ulp1 * \<bar>y - ?t\<bar> \<le> ulp1 * (101/100 * s)" using u by (intro mult_left_mono) simp_all
    then have "ulp1 * \<bar>y - ?t\<bar> \<le> 101/100 * (ulp1 * s)" by simp
    then have wz: "\<bar>?w + z\<bar> \<le> 201/100 * (ulp1 * s)" using w t yz(1) by linarith
    obtain r where r: "?w + z = r" by simp
    have "\<bar>fadd ?w z - r\<bar> \<le> ulp1 * \<bar>r\<bar>"
      unfolding fadd_def r [symmetric] by (rule sum_error [OF is_double_fsub yz(4)])
    moreover have "ulp1 * \<bar>r\<bar> \<le> 1/100 * \<bar>r\<bar>" using u by (intro mult_right_mono) simp_all
    ultimately have "\<bar>fadd ?w z\<bar> \<le> 3 * (ulp1 * s)" using wz s(2) unfolding r by linarith
    moreover have "ulp1 * s \<le> ulp1 * (100/99 * ?t)" using t s u by (intro mult_left_mono) linarith+
    ultimately have "\<bar>fadd ?w z\<bar> \<le> 3 * (100/99 * (ulp1 * ?t))" by (simp add: algebra_simps)
    moreover have "0 \<le> ulp1 * ?t" using \<open>f \<le> ?t\<close> f u by simp
    ultimately show ?thesis by linarith
  qed
  show "\<bar>if \<bar>x\<bar> \<le> \<bar>f\<bar> then fadd (fsub f ?t) x else fadd (fsub x ?t) f\<bar> \<le> 4 * ulp1 * ?t"
    using half [of f x] half [of x f] f x s_def by (simp add: add.commute)
qed

lemma py_sum_loop_nonneg:
  assumes "is_double f" "0 \<le> f" "is_double c" "list_all (\<lambda>x. is_double x \<and> 0 \<le> x) xs"
    and "\<bar>c\<bar> \<le> 8 * of_nat k * ulp1 * f" "k + length xs \<le> 1000000"
  shows "0 \<le> py_sum_loop f c xs"
  using assms
proof (induction xs arbitrary: f c k)
  case Nil
  have "8 * of_nat k * ulp1 \<le> 8 * 1000000 * ulp1" using Nil.prems(6) ulp1_small by (intro mult_right_mono) simp_all
  also have "\<dots> \<le> 1" using ulp1_small by linarith
  finally have "8 * of_nat k * ulp1 * f \<le> 1 * f" using Nil.prems(2) by (intro mult_right_mono) simp_all
  then have "0 \<le> f + c" using Nil.prems(5) by linarith
  then show ?case using Nil.prems(2) rnd53_nonneg by (simp add: fadd_def)
next
  case (Cons x xs)
  let ?t = "fadd f x"
  obtain d where d: "d = (if \<bar>x\<bar> \<le> \<bar>f\<bar> then fadd (fsub f ?t) x else fadd (fsub x ?t) f)" by simp
  let ?c = "fadd c d"
  have x: "is_double x" "0 \<le> x" and xs: "list_all (\<lambda>x. is_double x \<and> 0 \<le> x) xs" using Cons.prems by simp_all
  note st = step_relative [OF Cons.prems(1,2) x]
  have t: "0 \<le> ?t" using st(1) Cons.prems(2) by simp
  have dd: "\<bar>d\<bar> \<le> 4 * ulp1 * ?t" using st(2) d by simp
  have "8 * of_nat k * ulp1 * f \<le> 8 * of_nat k * ulp1 * ?t" using st(1) ulp1_small by (intro mult_left_mono) simp_all
  then have cd: "\<bar>c + d\<bar> \<le> (8 * of_nat k + 4) * (ulp1 * ?t)" using Cons.prems(5) dd by (simp add: algebra_simps)
  have "is_double d" unfolding d using is_double_fadd by simp
  then have "\<bar>?c\<bar> \<le> \<bar>c + d\<bar> + ulp1 * \<bar>c + d\<bar>" unfolding fadd_def using sum_error [OF Cons.prems(3), of d] by linarith
  also have "\<dots> = (1 + ulp1) * \<bar>c + d\<bar>" by (simp add: algebra_simps)
  also have "\<dots> \<le> (1 + ulp1) * ((8 * of_nat k + 4) * (ulp1 * ?t))" using cd ulp1_small by (intro mult_left_mono) simp_all
  also have "\<dots> = ((1 + ulp1) * (8 * of_nat k + 4)) * (ulp1 * ?t)" by simp
  also have "\<dots> \<le> (8 * of_nat (Suc k)) * (ulp1 * ?t)"
  proof (intro mult_right_mono)
    have "(8 * of_nat k + 4) * ulp1 \<le> (8 * 1000000 + 4) * ulp1" using Cons.prems(6) ulp1_small by (intro mult_right_mono) simp_all
    also have "\<dots> \<le> 4" by (simp add: ulp1_def)
    finally show "(1 + ulp1) * (8 * of_nat k + 4) \<le> 8 * of_nat (Suc k)" by (simp add: algebra_simps)
  qed (use t ulp1_small in simp)
  finally have "\<bar>?c\<bar> \<le> 8 * of_nat (Suc k) * ulp1 * ?t" by simp
  then have "0 \<le> py_sum_loop ?t ?c xs"
    using Cons.IH [of ?t ?c "Suc k"] t xs is_double_fadd Cons.prems(6) by simp
  then show ?case by (simp add: Let_def d)
qed

lemma py_sum_nonneg:
  assumes "list_all (\<lambda>x. is_double x \<and> 0 \<le> x) xs" "length xs \<le> 1000000"
  shows "0 \<le> py_sum xs"
proof (cases xs)
  case (Cons x ys)
  then show ?thesis
    using py_sum_loop_nonneg [of x 0 ys 0] assms is_double_of_int [of 0] by (simp add: py_sum_def)
qed (simp add: py_sum_def)

end
