(* ===== verification/RecallTotal.thy ===== *)
theory RecallTotal
  imports Operations FloatSums
begin

text \<open>
  A well-formed recall always returns a trace: no score leaves the unit interval, whatever the floats
  round to, and every utility can be read.
\<close>

definition decay_ok :: "env \<Rightarrow> bool" where
  "decay_ok E \<longleftrightarrow> (\<forall>x. 0 \<le> x \<longrightarrow> in_unit (e_pow E x))"

definition searches_answer :: "service \<Rightarrow> bool" where
  "searches_answer sv \<longleftrightarrow> (\<forall>p n sc q k v t. sv_projection sv = Some p \<longrightarrow>
     (\<exists>r. rp_search p n sc q k v t = Inr r \<and> list_all (\<lambda>h. in_unit (ph_score h)) (ps_hits r)))"

text \<open>The index answers searches for \<open>k\<close> hits.\<close>

definition answers_at :: "service \<Rightarrow> int \<Rightarrow> bool" where
  "answers_at sv k \<longleftrightarrow> (\<forall>p n sc q v t. sv_projection sv = Some p \<longrightarrow>
     (\<exists>r. rp_search p n sc q k v t = Inr r \<and> list_all (\<lambda>h. in_unit (ph_score h)) (ps_hits r)))"

lemma searches_answer_at: "searches_answer sv \<Longrightarrow> answers_at sv k"
  by (simp add: searches_answer_def answers_at_def)

lemma lexical_unit: "in_unit (lexical_similarity db q d)"
proof -
  have "card (tokens db q \<inter> tokens db d) \<le> card (tokens db q \<union> tokens db d)"
    by (rule card_mono) (auto simp: tokens_def Let_def)
  then show ?thesis
    using fp.unit_div [of "of_nat (card (tokens db q \<inter> tokens db d))" "of_nat (card (tokens db q \<union> tokens db d))"]
    by (simp add: lexical_similarity_def Let_def in_unit_def fdiv_def)
qed

lemma age_days_nonneg: "0 \<le> age_days a b"
  by (simp add: age_days_def)

lemma fdiv_nonneg: "0 \<le> x \<Longrightarrow> 0 \<le> y \<Longrightarrow> 0 \<le> fdiv x y"
  unfolding fdiv_def by (rule rnd53_nonneg) simp

lemma weighted_unit:
  assumes "weights_ok wt" "in_unit (sb_semantic b)" "in_unit (sb_context b)" "in_unit (sb_belief b)"
    "in_unit (sb_utility b)" "in_unit (sb_recency b)"
  shows "in_unit (weighted_score b wt)"
proof -
  have p: "0 \<le> v" if "v \<in> set (weight_values wt)" for v
  proof -
    have "flit (5/100) \<le> v" using assms(1) that by (simp add: weights_ok_def list_all_iff)
    moreover have "(0::rat) \<le> flit (5/100)" unfolding flit_def by (rule rnd53_nonneg) simp
    ultimately show ?thesis by simp
  qed
  have "0 \<le> fmul x v" if "in_unit x" "v \<in> set (weight_values wt)" for x v
    unfolding fmul_def using that p by (intro rnd53_nonneg) (simp add: in_unit_def)
  moreover have "0 \<le> fadd x y" if "0 \<le> x" "0 \<le> y" for x y
    unfolding fadd_def using that by (intro rnd53_nonneg) simp
  ultimately show ?thesis using assms by (simp add: weighted_score_def in_unit_def weight_values_def)
qed

lemma utility_readable:
  assumes ok: "experience_ok s" and few: "length (s_outcomes s) \<le> 1000000"
  shows "\<exists>u. utility_for_as_of sha s sc i ctx t = Inr u \<and> utility_ok u"
proof -
  let ?os = "outcomes_as_of sha s sc i ctx t"
  have len: "length ?os \<le> 1000000"
    using few order.trans [OF length_filter_le] by (simp add: outcomes_as_of_def dict_values_def)
  have pos: "0 \<le> oc_weight oc" if "oc \<in> set ?os" for oc
    using that ok by (auto simp: outcomes_as_of_def experience_ok_def keyed_def dict_values_iff intro: less_imp_le)
  have sums: "0 \<le> py_sum (map (\<lambda>oc. fmul (g (oc_kind oc)) (oc_weight oc)) ?os)" if "\<And>k. 0 \<le> g k" for g
  proof (rule py_sum_nonneg)
    show "list_all (\<lambda>x. is_double x \<and> 0 \<le> x) (map (\<lambda>oc. fmul (g (oc_kind oc)) (oc_weight oc)) ?os)"
      using pos that is_double_rnd53 by (auto simp: list_all_iff fmul_def intro!: rnd53_nonneg mult_nonneg_nonneg)
  qed (use len in simp)
  have "0 \<le> success_value k" "0 \<le> fsub 1 (success_value k)" for k
    using success_value_cases [of k] rnd53_nonneg [of 1] by (auto simp: fsub_def)
  then have "0 \<le> py_sum (map (\<lambda>oc. fmul (success_value (oc_kind oc)) (oc_weight oc)) ?os)"
    "0 \<le> py_sum (map (\<lambda>oc. fmul (fsub 1 (success_value (oc_kind oc))) (oc_weight oc)) ?os)"
    using sums [of success_value] sums [of "\<lambda>k. fsub 1 (success_value k)"] by simp_all
  then show ?thesis
    by (cases "py_max id (map oc_occurred_at ?os)")
      (auto simp: utility_for_as_of_def Let_def mk_utility_estimate_Inr utility_ok_def)
qed

lemma snapshot_scored:
  assumes ok: "experience_ok w" "length (s_outcomes w) \<le> 1000000" and E: "decay_ok E" and p: "strategy_ok p"
    and v: "revision_ok (snap_revision sn)" and hits: "\<forall>x \<in> ran (map_of scores). in_unit x"
  shows "\<exists>ms. score_snapshot E w c q p va ka scores sn = Inr ms \<and> (\<forall>m \<in> set ms. in_unit (sm_score m))"
proof -
  let ?v = "snap_revision sn"
  obtain u where u: "utility_for_as_of (e_sha E) w (rc_scope c) (rev_id ?v) (rc_context c) ka = Inr u" "utility_ok u"
    using utility_readable [OF ok] by blast
  let ?lex = "lexical_similarity (e_db E) q (rec_key (snap_record sn) @ [32] @ rev_value ?v)"
  let ?vec = "map_of scores (rev_id ?v)"
  have vec: "in_unit x" if "?vec = Some x" for x using hits that by (auto simp: ran_def)
  have sem: "in_unit (max ?lex (case ?vec of None \<Rightarrow> 0 | Some x \<Rightarrow> x))"
    using lexical_unit [of "e_db E" q] vec by (auto simp: in_unit_def max_def split: option.split)
  have bel: "in_unit (bs_confidence (rev_belief ?v))" using v by (simp add: revision_ok_def belief_ok_def in_unit_def)
  have rcy: "in_unit (e_pow E (fdiv (age_days va (bs_last_evidence_at (rev_belief ?v))) (st_half_life p)))"
    using E p fdiv_nonneg [OF age_days_nonneg, of "st_half_life p"] by (simp add: decay_ok_def strategy_ok_def)
  have ctx: "in_unit (similarity (rec_context (snap_record sn)) (rc_context c))"
    using similarity_bounds by (simp add: in_unit_def)
  have w: "weights_ok (st_weights p)" using p by (simp add: strategy_ok_def)
  let ?b = "\<lparr>sb_semantic = max ?lex (case ?vec of None \<Rightarrow> 0 | Some x \<Rightarrow> x),
    sb_context = similarity (rec_context (snap_record sn)) (rc_context c),
    sb_belief = bs_confidence (rev_belief ?v), sb_utility = utility_mean u,
    sb_recency = e_pow E (fdiv (age_days va (bs_last_evidence_at (rev_belief ?v))) (st_half_life p)),
    sb_lexical = Some ?lex, sb_vector = ?vec\<rparr>"
  have b: "mk_score_breakdown (sb_semantic ?b) (sb_context ?b) (sb_belief ?b) (sb_utility ?b) (sb_recency ?b)
      (sb_lexical ?b) (sb_vector ?b) = Inr ?b"
    using sem ctx bel rcy utility_mean_unit [OF u(2)] lexical_unit vec unfolding mk_score_breakdown_Inr by simp
  have sc: "in_unit (weighted_score ?b (st_weights p))"
    by (rule weighted_unit [OF w]) (use sem ctx bel rcy utility_mean_unit [OF u(2)] in simp_all)
  show ?thesis using b sc u(1) by (simp add: score_snapshot_def Let_def)
qed

subsection \<open>The whole command\<close>

lemma items_total:
  assumes "\<And>m. m \<in> set ms \<Longrightarrow> in_unit (sm_score m)"
  shows "\<exists>items. rmap item_of (rank_items limit ms) = Inr items"
proof -
  have "\<exists>i. item_of x = Inr i" if "x \<in> set (rank_items limit ms)" for x
  proof -
    obtain k m where x: "x = (k, m)" by force
    then have "m \<in> set (take (nat limit) (sort_desc sm_key ms))" "1 \<le> k"
      using that unfolding rank_items_zip by (auto dest: set_zip_leftD set_zip_rightD)
    moreover then have "m \<in> set ms" by (meson in_set_takeD set_sort_desc [THEN equalityD1] subsetD)
    ultimately show ?thesis using assms x unfolding item_of_def by (simp add: mk_recalled_item_Inr)
  qed
  then show ?thesis using rmap_total [of "rank_items limit ms" item_of "\<lambda>x. projr (item_of x)"]
    by (metis sum.sel(2))
qed

lemma items_from:
  assumes run: "rmap item_of (rank_items limit ms) = Inr items" and i: "i \<in> set items"
  shows "\<exists>m \<in> set ms. it_valid_from i = rev_valid_from (sm_revision m) \<and>
    it_recorded_at i = rev_recorded_at (sm_revision m)"
proof -
  obtain n where n: "n < length items" "items ! n = i" using i by (auto simp: in_set_conv_nth)
  then obtain x where x: "x \<in> set (rank_items limit ms)" "item_of x = Inr i"
    using run unfolding rmap_Inr_iff list_all2_conv_all_nth by (metis nth_mem)
  obtain k m where km: "x = (k, m)" by force
  then have "m \<in> set (take (nat limit) (sort_desc sm_key ms))"
    using x(1) unfolding rank_items_zip by (blast dest: set_zip_rightD)
  then have "m \<in> set ms" by (meson in_set_takeD set_sort_desc [THEN equalityD1] subsetD)
  then show ?thesis using x(2) km by (auto simp: item_of_def mk_recalled_item_Inr)
qed

lemma effective_ok:
  assumes ok: "belief_plane_ok sha s" and v: "map_of (s_revisions s) (rev_id v) = Some v"
  shows "revision_ok v"
proof -
  obtain ids where "map_of (s_revision_ids_by_record s) (rev_record_id v) = Some ids" "rev_id v \<in> set ids"
    using ok v unfolding belief_plane_ok_def by blast
  then have "rev_id v \<in> set (revision_ids_of s (rev_record_id v))" by (simp add: revision_ids_of_def)
  then show ?thesis by (rule revision_ids_chain [OF ok]) (use v in simp)
qed

lemma scored_total:
  assumes "\<And>sn. sn \<in> set snaps \<Longrightarrow> \<exists>ms. f sn = Inr ms \<and> (\<forall>m \<in> set ms. P m)"
  shows "\<exists>scored. rmap f snaps = Inr scored \<and> (\<forall>m \<in> set (concat scored). P m)"
  using assms by (induction snaps) (simp, fastforce)

lemma trace_items_total:
  assumes "\<And>i. i \<in> set items \<Longrightarrow> it_valid_from i \<le> v \<and> it_recorded_at i \<le> k"
  shows "\<exists>us. rmap (check_trace_item v k) items = Inr us"
  using assms by (induction items) (fastforce simp: check_trace_item_def raise_if_def)+

lemma map_of_dict_of: "map_of (dict_of ps) k = Some v \<Longrightarrow> (k, v) \<in> set ps"
proof -
  have "map_of (foldl (\<lambda>d (k, v). dict_set k v d) d ps) k = Some v \<Longrightarrow> map_of d k = Some v \<or> (k, v) \<in> set ps" for d
  proof (induction ps arbitrary: d)
    case (Cons p ps)
    then show ?case by (cases p) (use Cons.IH [of "dict_set (fst p) (snd p) d"] in \<open>auto split: if_splits\<close>)
  qed simp
  from this [of "[]"] show "map_of (dict_of ps) k = Some v \<Longrightarrow> (k, v) \<in> set ps" by (simp add: dict_of_def)
qed

lemma projection_answers:
  assumes "answers_at sv (rc_limit c * sv_oversample sv)"
  shows "\<exists>scores w'. projection_scores sv c q va ka w = (Inr scores, w') \<and> same_store w w' \<and>
    (\<forall>x \<in> ran (map_of scores). in_unit x)"
proof (cases "sv_projection sv")
  case None
  then show ?thesis by (simp add: projection_scores_def return_def same_store_refl)
next
  case (Some p)
  then obtain r where r: "rp_search p (w_ticks w) (rc_scope c) q (rc_limit c * sv_oversample sv) va ka = Inr r"
    "list_all (\<lambda>h. in_unit (ph_score h)) (ps_hits r)"
    using assms unfolding answers_at_def by blast
  let ?scores = "dict_of (map (\<lambda>h. (ph_revision_id h, ph_score h)) (ps_hits r))"
  have eval: "projection_scores sv c q va ka w =
      (Inr ?scores, w_projection_available_update (\<lambda>_. Some (ps_available r)) w)"
    using Some r(1) by (simp add: projection_scores_def return_def)
  have "\<forall>x \<in> ran (map_of ?scores). in_unit x" using r(2) by (auto simp: ran_def list_all_iff dest!: map_of_dict_of)
  then show ?thesis using eval obeysD [OF projection_scores_same eval] by blast
qed

lemma recall_total:
  assumes ok: "world_ok E w" and few: "length (s_outcomes w) \<le> 1000000"
    and E: "decay_ok E" and sv: "answers_at sv (rc_limit c * sv_oversample sv)" and p: "policy_of sv w = Some p" "strategy_ok p"
    and c: "1 \<le> rc_limit c" "rc_limit c \<le> 100" "strip (rc_query c) \<noteq> []"
    and known: "\<And>k. rc_known_at c = Some k \<Longrightarrow> k \<le> e_clock E (w_ticks w)"
  shows "\<exists>t w'. recall E sv c w = (Inr t, w')"
proof -
  note D = world_okD [OF ok]
  let ?n = "e_clock E (w_ticks w)" and ?w = "w\<lparr>w_ticks := Suc (w_ticks w)\<rparr>"
  let ?q = "strip (rc_query c)"
  let ?va = "case rc_valid_at c of None \<Rightarrow> ?n | Some t \<Rightarrow> t" and ?ka = "case rc_known_at c of None \<Rightarrow> ?n | Some t \<Rightarrow> t"
  have ka: "\<not> ?ka > ?n" using known by (auto split: option.split)
  obtain snaps where snaps: "memories_as_of (e_sha E) w (rc_scope c) ?va ?ka = Inr snaps"
    and eff: "\<And>sn. sn \<in> set snaps \<longleftrightarrow> effective w (rc_scope c) ?va ?ka (snap_record sn) (snap_revision sn)"
    by (rule memories_as_of_spec [OF D(2)]) blast
  obtain scores w1 where sc: "projection_scores sv c ?q ?va ?ka ?w = (Inr scores, w1)"
    and w1: "same_store ?w w1" "\<forall>x \<in> ran (map_of scores). in_unit x"
    using projection_answers [OF sv] by blast
  have same: "same_store w w1" using w1(1) by simp
  have x1: "experience_ok w1" "length (s_outcomes w1) \<le> 1000000"
    using world_okD(3) [OF world_ok_same [OF ok same]] few by (simp_all add: same_store_fields(15) [OF same])
  have "\<exists>scored. rmap (score_snapshot E w1 c ?q p ?va ?ka scores) snaps = Inr scored \<and>
      (\<forall>m \<in> set (concat scored). in_unit (sm_score m) \<and> in_force ?va ?ka (sm_revision m))"
  proof (rule scored_total)
    fix sn assume "sn \<in> set snaps"
    then have e: "effective w (rc_scope c) ?va ?ka (snap_record sn) (snap_revision sn)" using eff by blast
    then have "revision_ok (snap_revision sn)" using effective_ok [OF D(2)] by (simp add: effective_def)
    then show "\<exists>ms. score_snapshot E w1 c ?q p ?va ?ka scores sn = Inr ms \<and>
        (\<forall>m \<in> set ms. in_unit (sm_score m) \<and> in_force ?va ?ka (sm_revision m))"
      using snapshot_scored [OF x1 E p(2) _ w1(2), of sn c ?q ?va ?ka]
        e score_snapshot_Inr(3) unfolding effective_def by metis
  qed
  then obtain scored where scored: "rmap (score_snapshot E w1 c ?q p ?va ?ka scores) snaps = Inr scored"
    "\<And>m. m \<in> set (concat scored) \<Longrightarrow> in_unit (sm_score m)"
    "\<And>m. m \<in> set (concat scored) \<Longrightarrow> in_force ?va ?ka (sm_revision m)" by blast
  obtain items where items: "rmap item_of (rank_items (rc_limit c) (concat scored)) = Inr items"
    using items_total scored(2) by blast
  have "it_valid_from i \<le> ?va \<and> it_recorded_at i \<le> ?ka" if "i \<in> set items" for i
    using items_from [OF items that] scored(3) unfolding in_force_def by metis
  then obtain us where us: "rmap (check_trace_item ?va ?ka) items = Inr us" using trace_items_total by blast
  have rp: "retrieval_policy sv ?w = (Inr p, ?w)"
    using p(1) by (auto simp: policy_of_def retrieval_policy_def split: option.splits sum.splits)
  define w2 where "w2 = w1\<lparr>w_ids := Suc (w_ids w1)\<rparr>"
  obtain t where t: "mk_recall_trace (e_ids E (w_ids w1)) (rc_scope c) ?q (rc_context c) (st_id p) (st_version p)
      items (utc ?va) (utc ?ka) (utc ?n) = Inr t"
    using us ka c(3) by (simp add: mk_recall_trace_def raise_if_def)
  have "recall E sv c w = (Inr t, with_trace t w2)"
    using c snaps ka scored(1) items t sc
    by (simp add: recall_def raise_if_def Let_def pbind_def [of "retrieval_policy sv"] rp
        pbind_def [of "projection_scores sv c ?q ?va ?ka"] pbind_def [of "save_trace t"] save_trace_eval
        return_def w2_def)
  then show ?thesis by blast
qed

end
