(* ===== verification/RecallProperties.thy ===== *)
theory RecallProperties
  imports Sample ExperienceCorrect RecallTotal
begin

text \<open>
  Properties of reading: which revisions a point in time shows, what a recall ranks and that it always
  answers, what a projection keeps within its budget, and how usage receipts and outcomes are attributed.
\<close>

subsection \<open>A recalled world\<close>

definition sample_item :: recalled_item where
  "sample_item = \<lparr>it_record_id = 3, it_revision_id = 4, it_key = uc ''drink'', it_value = uc ''tea'',
     it_context = sample_context, it_valid_from = 0, it_recorded_at = 1000000, it_rank = 1, it_score = 5/8,
     it_breakdown = \<lparr>sb_semantic = 1/2, sb_context = 1, sb_belief = 1/2, sb_utility = 1/2, sb_recency = 1/2,
       sb_lexical = Some (1/2), sb_vector = None\<rparr>, it_evidence_ids = [1]\<rparr>"

definition sample_trace :: recall_trace where
  "sample_trace = \<lparr>rt_id = 6, rt_scope = sample_scope, rt_query = uc ''tea'', rt_context = sample_context,
     rt_policy_id = 77, rt_policy_version = 1, rt_items = [sample_item], rt_valid_at = 2000000,
     rt_known_at = 2000000, rt_created_at = 2000000\<rparr>"

definition sample_traced :: world where
  "sample_traced = with_trace sample_trace (sample_remembered\<lparr>w_ids := 7\<rparr>)"

definition sample_query :: recall_command where
  "sample_query = \<lparr>rc_scope = sample_scope, rc_query = uc ''tea'', rc_context = sample_context, rc_limit = 5,
     rc_valid_at = None, rc_known_at = None\<rparr>"

lemma sample_trace_wf: "trace_wf sample_trace"
  by (simp add: trace_wf_def trace_ok_def sample_trace_def sample_item_def in_unit_def)

lemma sample_service_ok: "service_ok sample_service"
  using sample_strategy_ok by (simp add: service_ok_def sample_service_def)

lemma sample_remembered_system: "system_ok sample_env sample_remembered"
proof -
  have "service_step sample_env sample_service (\<lambda>_ _. Inr ()) sample_world sample_remembered"
    by (rule remembering [OF sample_remember_ok(1) sample_remember_run])
  then show ?thesis
    using service_step_keeps [OF _ sample_digests sample_service_ok _ sample_world_ok(1)]
    by (simp add: sample_remembered_fields)
qed

lemma sample_env_parts:
  "e_ids sample_env n = of_nat n" "e_clock sample_env n = int n * 1000000" "e_pow sample_env x = 1/2"
  "e_sha sample_env t = sample_digest" "e_db sample_env = sample_db"
  by (simp_all add: sample_env_def)

lemma sample_remembered_experience:
  "s_traces sample_remembered = []" "s_outcomes sample_remembered = []" "s_usages sample_remembered = []"
  "s_outcome_keys sample_remembered = []" "s_usage_keys sample_remembered = []"
  by (simp_all add: sample_remembered_def first_world_def after_new_def Let_def with_candidate_def added_def
      ticked_def staged_def ingested_def sample_world_def world_of_def empty_store_def store.defs)

lemma sample_traced_ok: "system_ok sample_env sample_traced"
  unfolding sample_traced_def
  using with_trace_system [OF sample_remembered_system sample_trace_wf]
  by (simp add: sample_remembered_fields sample_env_parts sample_trace_def)

lemma sample_traced_fields:
  "w_ids sample_traced = 7" "w_ticks sample_traced = 2" "ids_fresh sample_env sample_traced"
  "trace_of sample_traced sample_scope 6 = Some sample_trace"
  "s_outcomes sample_traced = []" "s_usages sample_traced = []"
  "s_outcome_keys sample_traced = []" "s_usage_keys sample_traced = []"
  by (simp_all add: sample_traced_def with_trace_def sample_remembered_fields sample_remembered_experience
      trace_of_def) (simp_all add: sample_trace_def)

lemma sample_recall_ok:
  "decay_ok sample_env" "searches_answer sample_service" "policy_of sample_service w = Some sample_strategy"
  by (simp_all add: decay_ok_def in_unit_def sample_env_parts searches_answer_def sample_service_def policy_of_def)

lemma sample_query_fields:
  "rc_limit sample_query = 5" "strip (rc_query sample_query) \<noteq> []" "rc_known_at sample_query = None"
  "rc_scope sample_query = sample_scope"
proof -
  have "stripped (uc ''tea'')" by (simp add: stripped_def uc_def is_space_def)
  then have "strip (uc ''tea'') = uc ''tea''" by (rule strip_id)
  then show "strip (rc_query sample_query) \<noteq> []" by (simp add: sample_query_def)
qed (simp_all add: sample_query_def)

lemma sample_effective:
  "effective sample_remembered sample_scope 5 1000000 r v \<longleftrightarrow>
     r = sample_record \<and> v = first_of sample_env sample_remember sample_world"
proof -
  have v: "rev_record_id (first_of sample_env sample_remember sample_world) = 3"
    "rev_recorded_at (first_of sample_env sample_remember sample_world) = 1000000"
    "rev_valid_from (first_of sample_env sample_remember sample_world) = 0"
    by (simp_all add: first_of_def first_revision_def sample_env_parts sample_world_fields)
      (simp add: sample_remember_def)
  show ?thesis
    by (auto simp: effective_def in_force_def sample_remembered_fields sample_first_fields v sample_correct_fields)
      (auto simp: sample_record_def)
qed

subsection \<open>Reading at a point in time\<close>

text \<open>
  C6: The bitemporal read of a scope equals its definition: it returns exactly one snapshot for each
  record of the scope that was known at the given time and has a revision in force (recorded by then and
  valid by then), with the greatest of these revisions, in the documented order.
\<close>

theorem reads_as_of:
  assumes "belief_plane_ok sha s"
  shows "\<exists>snaps. memories_as_of sha s sc valid_at known_at = Inr snaps \<and>
    (\<forall>sn. sn \<in> set snaps \<longleftrightarrow> effective s sc valid_at known_at (snap_record sn) (snap_revision sn)) \<and>
    distinct (map (\<lambda>sn. rec_id (snap_record sn)) snaps) \<and>
    sorted_wrt (\<lambda>a b. snapshot_key sha a \<le> snapshot_key sha b) snaps"
  by (rule memories_as_of_spec [OF assms]) blast

theorem reads_as_of_witness:
  "\<exists>sn. memories_as_of (e_sha sample_env) sample_remembered sample_scope 5 1000000 = Inr [sn] \<and>
     snap_revision sn = first_of sample_env sample_remember sample_world"
proof -
  obtain snaps where snaps: "memories_as_of (e_sha sample_env) sample_remembered sample_scope 5 1000000 = Inr snaps"
    and iff: "\<And>sn. sn \<in> set snaps \<longleftrightarrow>
      effective sample_remembered sample_scope 5 1000000 (snap_record sn) (snap_revision sn)"
    and dist: "distinct (map (\<lambda>sn. rec_id (snap_record sn)) snaps)"
    using reads_as_of [OF world_okD(2) [OF sample_remembered_ok], of sample_scope 5 1000000] by blast
  let ?sn = "\<lparr>snap_record = sample_record, snap_revision = first_of sample_env sample_remember sample_world\<rparr>"
  have set: "set snaps = {?sn}"
  proof (rule set_eqI)
    fix sn show "sn \<in> set snaps \<longleftrightarrow> sn \<in> {?sn}" unfolding iff sample_effective by (cases sn) simp
  qed
  then have "snaps = [?sn]" using dist
    by (cases snaps; cases "tl snaps") (auto simp: subset_singleton_iff)
  then show ?thesis using snaps by simp
qed

subsection \<open>Recall\<close>

text \<open>
  C10: A recall with a limit in range, a query that is not blank and a known-at time that has passed always
  returns a trace: no score leaves the unit interval whatever the floating point rounds to, the sums of
  at most a million outcomes are never negative, and every candidate can be ranked.
\<close>

theorem recall_answers:
  assumes "system_ok E w" "service_ok sv" "length (s_outcomes w) \<le> 1000000"
    and "decay_ok E" "searches_answer sv" "policy_of sv w \<noteq> None"
    and "1 \<le> rc_limit c" "rc_limit c \<le> 100" "strip (rc_query c) \<noteq> []"
    and "\<And>k. rc_known_at c = Some k \<Longrightarrow> k \<le> e_clock E (w_ticks w)"
  shows "\<exists>t w'. recall E sv c w = (Inr t, w')"
proof -
  note W = system_okD [OF assms(1)]
  obtain p where p: "policy_of sv w = Some p" using assms(6) by blast
  show ?thesis
    by (rule recall_total [OF W(1) assms(3,4) searches_answer_at [OF assms(5)] p policy_of_ok [OF assms(2) W(2) p] assms(7-10)])
qed

theorem recall_answers_witness:
  "\<exists>t w'. recall sample_env sample_service sample_query sample_remembered = (Inr t, w')"
  by (rule recall_answers [OF sample_remembered_system sample_service_ok])
     (simp_all add: sample_recall_ok sample_query_fields sample_remembered_experience)

text \<open>
  C9: What a recall returns is ranked and true: at most the requested number of items, with ranks
  1, 2, ... and falling scores in the unit interval, no revision twice, each one the revision of its
  record in force at the requested times, each scoring at least the minimum of the policy that is named.
\<close>

theorem recall_ranks:
  assumes "belief_plane_ok (e_sha E) w" and "recall E sv c w = (Inr t, w')"
  shows "length (rt_items t) \<le> nat (rc_limit c) \<and> map it_rank (rt_items t) = [1..int (length (rt_items t))] \<and>
    sorted_wrt (\<lambda>i j. it_score j \<le> it_score i) (rt_items t) \<and> distinct (map it_revision_id (rt_items t)) \<and>
    (\<forall>i \<in> set (rt_items t). in_unit (it_score i) \<and>
       (\<exists>r v. effective w (rc_scope c) (rt_valid_at t) (rt_known_at t) r v \<and>
          it_record_id i = rec_id r \<and> it_revision_id i = rev_id v \<and> it_value i = rev_value v)) \<and>
    (\<exists>p. policy_of sv w = Some p \<and> rt_policy_id t = st_id p \<and> rt_policy_version t = st_version p \<and>
       (\<forall>i \<in> set (rt_items t). st_min_score p \<le> it_score i))"
  using recall_items [OF assms] by blast

theorem recall_ranks_witness:
  "\<exists>t w'. recall sample_env sample_service sample_query sample_remembered = (Inr t, w') \<and>
     length (rt_items t) \<le> 5 \<and> rt_policy_id t = 77"
proof -
  obtain t w' where run: "recall sample_env sample_service sample_query sample_remembered = (Inr t, w')"
    using recall_total [OF sample_remembered_ok, where sv = sample_service and p = sample_strategy and c = sample_query] sample_strategy_ok
    by (auto simp: sample_recall_ok sample_query_fields sample_remembered_experience searches_answer_at)
  from recall_ranks [OF world_okD(2) [OF sample_remembered_ok] run]
  have "length (rt_items t) \<le> 5 \<and> rt_policy_id t = st_id sample_strategy"
    by (auto simp: sample_query_fields sample_recall_ok)
  then show ?thesis using run by (simp add: sample_strategy_def)
qed

subsection \<open>Projection of a recall into a context budget\<close>

text \<open>
  C29: Projecting a well-formed trace with a budget in range succeeds and keeps the promises of the
  document: its content is the document of the selected segments and fits the budget, it is never longer
  than the document of all items, every source is an item of the trace with the content of its segment,
  no item appears twice, the omitted items are exactly counted, and none is omitted when all fit.
\<close>

theorem projection_fits:
  assumes "trace_wf t" "64 \<le> b" "b \<le> 100000" "digests_ok E"
  shows "\<exists>p. project E t a b = Inr p \<and> int (length (rcp_content p)) \<le> b \<and>
    int (length (rcp_content p)) \<le> rcp_original_character_count p \<and>
    rcp_content p = document (map seg_content (rcp_segments p)) \<and>
    distinct (source_revision_ids p) \<and> set (source_revision_ids p) \<subseteq> it_revision_id ` set (rt_items t) \<and>
    rcp_omitted_item_count p = int (length (rt_items t)) - int (length (source_revision_ids p)) \<and>
    (rcp_original_character_count p \<le> b \<longrightarrow> rcp_omitted_item_count p = 0) \<and>
    rcp_trace_id p = rt_id t \<and> rcp_scope p = rt_scope t"
proof -
  obtain p where p: "project E t a b = Inr p"
    and seg: "rcp_segments p = map final_segment (selected_segments E t a b)"
    and c: "rcp_content p = document (map cs_content (selected_segments E t a b))"
    and o: "rcp_omitted_item_count p = int (length (rt_items t)) - int (length (all_sources (selected_segments E t a b)))"
    and f: "rcp_scope p = rt_scope t" "rcp_trace_id p = rt_id t" "int (length (rcp_content p)) \<le> b"
      "int (length (rcp_content p)) \<le> rcp_original_character_count p"
      "rcp_original_character_count p = int (length (document (map (item_content E) (ordered_items t))))"
    by (rule project_eval [OF assms])
  have m: "mset (source_revision_ids p) = mset (map src_revision_id (all_sources (selected_segments E t a b)))"
    using included_final by (simp add: source_revision_ids_def seg)
  have "distinct (map it_revision_id (rt_items t))" using assms(1) by (simp add: trace_wf_def)
  note S = selected_sources [OF this, of E a b]
  have "distinct (source_revision_ids p)" using mset_eq_imp_distinct_iff [OF m] S(1) by blast
  moreover have "length (source_revision_ids p) = length (all_sources (selected_segments E t a b))"
    using mset_eq_length [OF m] by simp
  moreover have "set (source_revision_ids p) \<subseteq> it_revision_id ` set (rt_items t)"
    using mset_eq_setD [OF m] S(2) by blast
  moreover have "rcp_content p = document (map seg_content (rcp_segments p))"
    by (simp add: c seg final_segment_def comp_def)
  ultimately show ?thesis using p o f nothing_omitted [of E t b a] by auto
qed

theorem projection_fits_witness:
  "\<exists>p. project sample_env sample_trace EXACT_DEDUPLICATED 100 = Inr p \<and> length (rcp_content p) \<le> 100"
  using projection_fits [OF sample_trace_wf, of 100 sample_env EXACT_DEDUPLICATED] sample_digests by auto

text \<open>
  The selection is greedy in rank order: the segments kept before a candidate are a prefix of the
  result, and a candidate that is left out would have burst the budget together with them.
\<close>

theorem selection_is_greedy:
  assumes "apply_algorithm a (map (segment_of E) (ordered_items t)) = xs @ c # ys"
    and "c \<notin> set (selected_segments E t a b)"
  shows "prefix (select_within_budget b xs) (selected_segments E t a b) \<and>
    b < int (length (document (map cs_content (select_within_budget b xs @ [c]))))"
proof -
  have "selected_segments E t a b = select_within b (select_within_budget b xs) (c # ys)"
    by (simp only: selected_segments_def select_within_budget_def assms(1) select_within_append)
  moreover have "prefix (select_within b sel cs) sel \<or> prefix sel (select_within b sel cs)" for sel cs
    using select_within_split [of b sel cs] by auto
  ultimately show ?thesis using assms(2) select_within_split [of b "select_within_budget b xs @ [c]" ys]
      select_within_split [of b "select_within_budget b xs" ys]
    by (auto split: if_splits)
qed

definition sample_pair :: recall_trace where
  "sample_pair = sample_trace\<lparr>rt_items := [sample_item, sample_item\<lparr>it_revision_id := 5, it_rank := 2\<rparr>]\<rparr>"

lemma sample_pair_candidates:
  "apply_algorithm RANKED_EXTRACTIVE (map (segment_of sample_env) (ordered_items sample_pair)) =
     [segment_of sample_env sample_item, segment_of sample_env (sample_item\<lparr>it_revision_id := 5, it_rank := 2\<rparr>)]"
  by (simp add: apply_algorithm_def ordered_items_def sample_pair_def sample_item_def)

lemma sample_pair_contents:
  "cs_content (segment_of sample_env (sample_item\<lparr>it_revision_id := 5, it_rank := 2\<rparr>)) = item_content sample_env sample_item"
  "cs_content (segment_of sample_env sample_item) = item_content sample_env sample_item"
  "length (item_content sample_env sample_item) = 49"
  by (simp_all add: segment_of_def item_content_def) code_simp

theorem selection_is_greedy_witness:
  "selected_segments sample_env sample_pair RANKED_EXTRACTIVE 64 = [segment_of sample_env sample_item] \<and>
   64 < length (document [item_content sample_env sample_item, item_content sample_env sample_item])"
proof -
  let ?c = "segment_of sample_env sample_item"
  let ?d = "segment_of sample_env (sample_item\<lparr>it_revision_id := 5, it_rank := 2\<rparr>)"
  have first: "select_within_budget 64 [?c] = [?c]"
    by (simp add: select_within_budget_def sample_pair_contents length_document)
  have sel: "selected_segments sample_env sample_pair RANKED_EXTRACTIVE 64 = [?c]"
    by (simp add: selected_segments_def sample_pair_candidates select_within_budget_def sample_pair_contents length_document)
  have "?c \<noteq> ?d" by (simp add: segment_of_def source_of_def sample_item_def)
  then have "?d \<notin> set (selected_segments sample_env sample_pair RANKED_EXTRACTIVE 64)" unfolding sel by simp
  from selection_is_greedy [OF _ this, of "[?c]" "[]"] show ?thesis
    by (simp add: sample_pair_candidates first sel sample_pair_contents)
qed

subsection \<open>Outcomes\<close>

definition sample_outcome :: outcome_command where
  "sample_outcome = \<lparr>ro_scope = sample_scope, ro_trace_id = 6, ro_revision_id = 4, ro_kind = HELPFUL,
     ro_key_id = uc ''o1'', ro_occurred_at = 2000000, ro_usage_id = None, ro_weight = 1, ro_note = None\<rparr>"

lemma sample_outcome_fields:
  "ro_scope sample_outcome = sample_scope" "ro_trace_id sample_outcome = 6" "ro_revision_id sample_outcome = 4"
  "ro_usage_id sample_outcome = None" "ro_weight sample_outcome = 1" "strip (ro_key_id sample_outcome) \<noteq> []"
  "check_attribution sample_outcome sample_trace w = Inr ()"
proof -
  have "stripped (uc ''o1'')" by (simp add: stripped_def uc_def is_space_def)
  then have "strip (uc ''o1'') = uc ''o1''" by (rule strip_id)
  then show "strip (ro_key_id sample_outcome) \<noteq> []" by (simp add: sample_outcome_def)
qed (simp_all add: sample_outcome_def check_attribution_def raise_if_def sample_trace_def sample_item_def)

text \<open>
  C37: A fresh outcome that is attributed to a recalled or used revision is recorded, stays attributed,
  and moves the utility of exactly this revision, scope and context: the weight goes to the positive side
  for a success and to the negative side otherwise; every other utility is as before.
\<close>

theorem outcome_counts:
  assumes "world_ok E w" "trace_of w (ro_scope c) (ro_trace_id c) = Some t" "check_attribution c t w = Inr ()"
    and "strip (ro_key_id c) \<noteq> []" "0 < ro_weight c" "ro_weight c \<le> 10"
    and "map_of (s_outcome_keys w) (ro_scope c, strip (ro_key_id c)) = None"
    and "utility_for (e_sha E) w (ro_scope c) (ro_revision_id c) (rt_context t) = Inr u"
  shows "\<exists>x w'. record_outcome E c w = (Inr x, w') \<and> \<not> or_idempotent_replay x \<and>
    map_of (s_outcomes w') (oc_id (or_outcome x)) = Some (or_outcome x) \<and>
    oc_revision_id (or_outcome x) = ro_revision_id c \<and> outcome_attributed w' (or_outcome x) \<and>
    ut_positive_weight (or_utility x) = fadd (ut_positive_weight u) (fmul (success_value (ro_kind c)) (ro_weight c)) \<and>
    ut_negative_weight (or_utility x) =
      fadd (ut_negative_weight u) (fmul (fsub 1 (success_value (ro_kind c))) (ro_weight c)) \<and>
    utility_for (e_sha E) w' (ro_scope c) (ro_revision_id c) (rt_context t) = Inr (or_utility x) \<and>
    (\<forall>k. k \<noteq> (ro_scope c, ro_revision_id c, fingerprint (e_sha E) (rt_context t)) \<longrightarrow>
       map_of (s_utilities w') k = map_of (s_utilities w) k)"
proof -
  let ?v = "event_of E c w"
  have v: "oc_scope ?v = ro_scope c" "oc_trace_id ?v = ro_trace_id c" "oc_revision_id ?v = ro_revision_id c"
    "oc_usage_id ?v = ro_usage_id c" by (simp_all add: event_of_def)
  let ?w = "with_outcome (e_sha E) ?v (rt_context t) (updated_utility u c) (counted w)"
  have same: "s_traces ?w = s_traces w" "s_usages ?w = s_usages w"
    by (simp_all add: with_outcome_def counted_fields)
  have "outcome_attributed w ?v" by (rule attributed [OF assms(2,3) v])
  then have "outcome_attributed ?w ?v" unfolding outcome_attributed_def same .
  moreover have "map_of (s_utilities ?w) k =
      (if k = (ro_scope c, ro_revision_id c, fingerprint (e_sha E) (rt_context t)) then Some (updated_utility u c)
       else map_of (s_utilities w) k)" for k
    by (simp add: with_outcome_def v counted_lookup)
  moreover have "map_of (s_outcomes ?w) (oc_id ?v) = Some ?v" by (simp add: with_outcome_def)
  ultimately show ?thesis using v(3)
    by (subst outcome_fresh [OF assms]) (simp add: utility_of_stored, simp add: updated_utility_def)
qed

theorem outcome_counts_witness:
  "\<exists>x w'. record_outcome sample_env sample_outcome sample_traced = (Inr x, w') \<and>
     ut_positive_weight (or_utility x) = 1 \<and> outcome_attributed w' (or_outcome x)"
proof -
  let ?u = "\<lparr>ut_revision_id = 4, ut_context_fingerprint = sample_digest, ut_positive_weight = 0,
    ut_negative_weight = 0, ut_last_outcome_at = None\<rparr>"
  have "s_utilities sample_traced = []"
    by (simp add: sample_traced_def with_trace_def sample_remembered_def first_world_def after_new_def Let_def
        with_candidate_def added_def ticked_def staged_def ingested_def sample_world_def world_of_def
        empty_store_def store.defs)
  then have u: "utility_for (e_sha sample_env) sample_traced sample_scope 4 (rt_context sample_trace) = Inr ?u"
    by (simp add: utility_for_def res_simps fingerprint_def sample_env_parts)
  have "fadd 0 (fmul (success_value (ro_kind sample_outcome)) 1) = 1"
    by (simp add: sample_outcome_def fadd_def fmul_def fp.rnd_1)
  then show ?thesis
    using outcome_counts [of sample_env sample_traced sample_outcome sample_trace ?u] system_okD(1) [OF sample_traced_ok] u
    by (auto simp: sample_outcome_fields sample_traced_fields)
qed

text \<open>
  Delivering the same outcome again answers with the stored outcome, marked as a replay, and changes
  no entry of the store: it is counted once.
\<close>

theorem outcome_is_idempotent:
  assumes "world_ok E w" "ids_fresh E w" "record_outcome E c w = (Inr x, w')"
  shows "\<exists>y w''. record_outcome E c w' = (Inr y, w'') \<and> or_outcome y = or_outcome x \<and>
    or_idempotent_replay y \<and> same_store w' w''"
  using outcome_twice [OF assms] counted_fields(6) by fastforce

theorem outcome_is_idempotent_witness:
  "\<exists>x w' y w''. record_outcome sample_env sample_outcome sample_traced = (Inr x, w') \<and>
     record_outcome sample_env sample_outcome w' = (Inr y, w'') \<and> or_idempotent_replay y \<and> same_store w' w''"
proof -
  obtain u where u: "utility_for (e_sha sample_env) sample_traced sample_scope 4 (rt_context sample_trace) = Inr u"
    by (rule utility_for_ok [OF world_okD(3) [OF system_okD(1) [OF sample_traced_ok]]])
  obtain x w' where run: "record_outcome sample_env sample_outcome sample_traced = (Inr x, w')"
    using outcome_fresh [OF system_okD(1) [OF sample_traced_ok], of sample_outcome sample_trace u] u
    by (simp add: sample_outcome_fields sample_traced_fields)
  then show ?thesis
    using outcome_is_idempotent [OF system_okD(1) [OF sample_traced_ok] sample_traced_fields(3) run] by blast
qed

text \<open>
  An outcome for a revision that the trace did not recall is refused and leaves the store alone.
\<close>

theorem unattributed_outcome_refused:
  assumes "trace_of w (ro_scope c) (ro_trace_id c) = Some t" "ro_usage_id c = None"
    and "ro_revision_id c \<notin> it_revision_id ` set (rt_items t)"
  shows "record_outcome E c w =
    (Inl (AttributionError ''revision was not present in the supplied recall trace''), w)"
proof -
  have "check_attribution c t w = Inl (AttributionError ''revision was not present in the supplied recall trace'')"
    using assms(2,3) by (auto simp: check_attribution_def raise_if_def list_ex_iff image_iff)
  then show ?thesis using assms(1) by (simp add: record_outcome_def transaction_def pbind_def prog_defs)
qed

theorem unattributed_outcome_refused_witness:
  "record_outcome sample_env (sample_outcome\<lparr>ro_revision_id := 5\<rparr>) sample_traced =
     (Inl (AttributionError ''revision was not present in the supplied recall trace''), sample_traced)"
  using unattributed_outcome_refused [of sample_traced "sample_outcome\<lparr>ro_revision_id := 5\<rparr>" sample_trace sample_env]
  by (simp add: sample_outcome_fields sample_traced_fields) (simp add: sample_trace_def sample_item_def)

subsection \<open>Usage receipts\<close>

definition sample_usage :: usage_command where
  "sample_usage = \<lparr>ru_scope = sample_scope, ru_trace_id = 6, ru_algorithm = RANKED_EXTRACTIVE, ru_budget = 100,
     ru_source_sha = sample_digest, ru_delivered_sha = sample_digest, ru_revision_ids = [4],
     ru_key_id = uc ''u1'', ru_occurred_at = 2000000\<rparr>"

lemma sample_projection:
  "\<exists>p. project sample_env sample_trace RANKED_EXTRACTIVE 100 = Inr p \<and> rcp_projection_sha256 p = sample_digest \<and>
     set (source_revision_ids p) = {4}"
proof -
  obtain p where p: "project sample_env sample_trace RANKED_EXTRACTIVE 100 = Inr p"
    and seg: "rcp_segments p = map final_segment (selected_segments sample_env sample_trace RANKED_EXTRACTIVE 100)"
    by (rule project_eval [OF sample_trace_wf _ _ sample_digests, of 100 RANKED_EXTRACTIVE]) simp_all
  have "require_sha256 db sample_digest f = Inr sample_digest" for db f
    by (rule require_sha256_text [OF sample_digest_text])
  then have "rcp_projection_sha256 p = sample_digest"
    using p by (auto simp: project_def Let_def rbind_Inr raise_if_Inr mk_recall_context_projection_def
        digest_def sample_env_parts)
  moreover have "selected_segments sample_env sample_trace RANKED_EXTRACTIVE 100 = [segment_of sample_env sample_item]"
    by (simp add: selected_segments_def apply_algorithm_def ordered_items_def sample_trace_def
        select_within_budget_def length_document sample_pair_contents)
  then have "set (source_revision_ids p) = {4}"
    by (simp add: source_revision_ids_def seg included_sources_def final_segment_def segment_of_def source_of_def
        sample_item_def)
  ultimately show ?thesis using p by blast
qed

lemma sample_usage_fields:
  "ru_scope sample_usage = sample_scope" "ru_trace_id sample_usage = 6" "ru_algorithm sample_usage = RANKED_EXTRACTIVE"
  "ru_budget sample_usage = 100" "ru_source_sha sample_usage = sample_digest"
  "ru_delivered_sha sample_usage = sample_digest" "ru_revision_ids sample_usage = [4]"
  "ru_occurred_at sample_usage = 2000000"
  by (simp_all add: sample_usage_def)

lemma sample_usage_run:
  "\<exists>x w'. record_usage sample_env sample_usage sample_traced = (Inr x, w') \<and> w_ticks w' = 3"
proof -
  obtain p where p: "project sample_env sample_trace RANKED_EXTRACTIVE 100 = Inr p"
    "rcp_projection_sha256 p = sample_digest" "set (source_revision_ids p) = {4}"
    using sample_projection by blast
  have "stripped (ru_key_id sample_usage)" by (simp add: sample_usage_def stripped_def is_space_def)
  then have key: "require_text (ru_key_id sample_usage) f = Inr (ru_key_id sample_usage)" for f
    by (rule require_text_stripped)
  have sha: "require_sha256 db sample_digest f = Inr sample_digest" for db f
    by (rule require_sha256_text [OF sample_digest_text])
  obtain us where us: "receipt_of sample_env sample_usage sample_traced = Inr us" "us_scope us = sample_scope"
    unfolding receipt_of_def mk_memory_usage_def
    by (simp add: sample_usage_fields sha raise_if_def key)
  obtain x w' where save: "save_usage us (counted sample_traced) = (Inr (x, True), w')" "w_ticks w' = 3"
    using us(2) by (simp add: save_usage_def Let_def counted_fields sample_traced_fields)
      (simp add: counted_def sample_traced_fields)
  have "record_usage sample_env sample_usage sample_traced =
      (Inr \<lparr>ur_usage = x, ur_idempotent_replay = False\<rparr>, w')"
    unfolding record_usage_iff using p us(1) save(1)
    by (intro exI [of _ sample_trace] exI [of _ p] exI [of _ us])
      (simp add: sample_traced_fields sample_usage_fields sample_env_parts, simp add: sample_digest_def lower_def
        is_ascii_def ascii_lower_def sample_db_def)
  then show ?thesis using save(2) by blast
qed

text \<open>
  A usage receipt is only accepted for what was really delivered: the projection that the command
  names can be rebuilt from a trace of the scope, has the digest the caller cites, and contains every
  cited revision, each of them once.
\<close>

theorem usage_is_attributed:
  assumes "record_usage E c w = (Inr x, w')"
  shows "\<exists>t p. trace_of w (ru_scope c) (ru_trace_id c) = Some t \<and> project E t (ru_algorithm c) (ru_budget c) = Inr p \<and>
    rcp_projection_sha256 p = lower (e_db E) (ru_source_sha c) \<and> ru_revision_ids c \<noteq> [] \<and>
    distinct (ru_revision_ids c) \<and> set (ru_revision_ids c) \<subseteq> set (source_revision_ids p)"
  by (rule usage_decompose [OF assms]) blast

theorem usage_is_attributed_witness:
  "\<exists>p. project sample_env sample_trace RANKED_EXTRACTIVE 100 = Inr p \<and> 4 \<in> set (source_revision_ids p)"
proof -
  obtain x w' where "record_usage sample_env sample_usage sample_traced = (Inr x, w')" using sample_usage_run by blast
  from usage_is_attributed [OF this] show ?thesis by (auto simp: sample_usage_fields sample_traced_fields)
qed

text \<open>
  Reporting the same usage again, later, answers with the stored receipt, marked as a replay, and
  changes no entry of the store.
\<close>

theorem usage_is_idempotent:
  assumes "system_ok E w" "ids_fresh E w" "digests_ok E" "record_usage E c w = (Inr x, w')"
    and "e_clock E (w_ticks w) \<le> e_clock E (w_ticks w')"
  shows "\<exists>w''. record_usage E c w' = (Inr \<lparr>ur_usage = ur_usage x, ur_idempotent_replay = True\<rparr>, w'') \<and>
    same_store w' w''"
  using usage_twice [OF system_okD(1,3) [OF assms(1)] assms(2-5)] counted_fields(6) by blast

theorem usage_is_idempotent_witness:
  "\<exists>x w' w''. record_usage sample_env sample_usage sample_traced = (Inr x, w') \<and>
     record_usage sample_env sample_usage w' = (Inr \<lparr>ur_usage = ur_usage x, ur_idempotent_replay = True\<rparr>, w'') \<and>
     same_store w' w''"
proof -
  obtain x w' where run: "record_usage sample_env sample_usage sample_traced = (Inr x, w')" and "w_ticks w' = 3"
    using sample_usage_run by blast
  then have "e_clock sample_env (w_ticks sample_traced) \<le> e_clock sample_env (w_ticks w')"
    by (simp add: sample_env_parts sample_traced_fields)
  from usage_is_idempotent [OF sample_traced_ok sample_traced_fields(3) sample_digests run this]
  show ?thesis using run by blast
qed

end
