(* ===== verification/Permanence.thy ===== *)
theory Permanence
  imports GovernanceCorrect AccessCorrect
begin

text \<open>
  The platform as a transition system: every use case of the enforcement point, with any arguments.
  What an erasure removed does not come back: in every reachable state no scope with a completed
  erasure has data, because its fence stays and no command for another scope writes into it.
\<close>

subsection \<open>A scope without data\<close>

definition empty_of :: "scope \<Rightarrow> 'z store_scheme \<Rightarrow> bool" where
  "empty_of sc s \<longleftrightarrow>
     (\<forall>i v. map_of (s_observations s) i = Some v \<longrightarrow> obs_scope v \<noteq> sc) \<and>
     (\<forall>i v. map_of (s_candidates s) i = Some v \<longrightarrow> cand_scope v \<noteq> sc) \<and>
     (\<forall>i v. map_of (s_records s) i = Some v \<longrightarrow> rec_scope v \<noteq> sc) \<and>
     (\<forall>i v. map_of (s_traces s) i = Some v \<longrightarrow> rt_scope v \<noteq> sc) \<and>
     (\<forall>i v. map_of (s_usages s) i = Some v \<longrightarrow> us_scope v \<noteq> sc) \<and>
     (\<forall>i v. map_of (s_outcomes s) i = Some v \<longrightarrow> oc_scope v \<noteq> sc) \<and>
     (\<forall>k v. map_of (s_utilities s) k = Some v \<longrightarrow> fst k \<noteq> sc)"

definition keeps_empty :: "scope \<Rightarrow> world \<Rightarrow> world \<Rightarrow> bool" where
  "keeps_empty sc w w' \<longleftrightarrow> (empty_of sc w \<longrightarrow> empty_of sc w')"

interpretation barren: state_relation "keeps_empty sc" for sc
  by unfold_locales (auto simp: keeps_empty_def)

lemma empty_of_same: "same_store w w' \<Longrightarrow> empty_of sc w' = empty_of sc w"
  by (simp add: empty_of_def same_store_fields)

lemma empty_of_erased:
  assumes ok: "world_ok E w"
  shows "empty_of sc (erased sc w)" "empty_of sc' w \<Longrightarrow> empty_of sc' (erased sc w)"
proof -
  note D = world_okD [OF ok]
  show "empty_of sc (erased sc w)" "empty_of sc' w \<Longrightarrow> empty_of sc' (erased sc w)"
    unfolding empty_of_def erased_observation_lookup [OF D(1)] erased_candidate_lookup [OF D(1)]
      erased_record_lookup [OF D(2)] erased_trace_lookup [OF D(3)] erased_usage_lookup [OF D(3)]
      erased_outcome_lookup [OF D(3)] erased_utility_lookup by (auto split: if_splits)
qed

text \<open>
  A scope without any data: no entry of any table belongs to it, no key of it leads anywhere, and what has
  no scope of its own (evidence, revisions, transitions, the indexes of the records) belongs to an observation
  or a record of another scope.
\<close>

definition observed_elsewhere :: "scope \<Rightarrow> 'z store_scheme \<Rightarrow> uuid \<Rightarrow> bool" where
  "observed_elsewhere sc s i \<longleftrightarrow> (\<exists>v. map_of (s_observations s) i = Some v \<and> obs_scope v \<noteq> sc)"

definition recorded_elsewhere :: "scope \<Rightarrow> 'z store_scheme \<Rightarrow> uuid \<Rightarrow> bool" where
  "recorded_elsewhere sc s i \<longleftrightarrow> (\<exists>v. map_of (s_records s) i = Some v \<and> rec_scope v \<noteq> sc)"

definition no_data :: "scope \<Rightarrow> 'z store_scheme \<Rightarrow> bool" where
  "no_data sc s \<longleftrightarrow> empty_of sc s \<and>
     (\<forall>k i. map_of (s_observation_keys s) k = Some i \<longrightarrow> fst k \<noteq> sc) \<and>
     (\<forall>k i. map_of (s_record_identity s) k = Some i \<longrightarrow> fst k \<noteq> sc) \<and>
     (\<forall>k i. map_of (s_usage_keys s) k = Some i \<longrightarrow> fst k \<noteq> sc) \<and>
     (\<forall>k i. map_of (s_outcome_keys s) k = Some i \<longrightarrow> fst k \<noteq> sc) \<and>
     (\<forall>i v. map_of (s_evidence s) i = Some v \<longrightarrow> observed_elsewhere sc s (ev_observation_id v)) \<and>
     (\<forall>i c. map_of (s_candidate_by_observation s) i = Some c \<longrightarrow> observed_elsewhere sc s i) \<and>
     (\<forall>i v. map_of (s_revisions s) i = Some v \<longrightarrow> recorded_elsewhere sc s (rev_record_id v)) \<and>
     (\<forall>r ids. map_of (s_revision_ids_by_record s) r = Some ids \<longrightarrow> recorded_elsewhere sc s r) \<and>
     (\<forall>r i. map_of (s_active_revision s) r = Some i \<longrightarrow> recorded_elsewhere sc s r) \<and>
     (\<forall>t \<in> set (s_transitions s). recorded_elsewhere sc s (tr_record_id t))"

lemma keyed_elsewhere:
  "keyed ident kf d ks \<Longrightarrow> (\<And>i v. map_of d i = Some v \<Longrightarrow> fst (kf v) \<noteq> sc) \<Longrightarrow> map_of ks k = Some i \<Longrightarrow> fst k \<noteq> sc"
  unfolding keyed_def by blast

text \<open>In a consistent store nothing dangles: a scope that owns no entry has no data.\<close>

lemma empty_of_no_data:
  assumes e: "evidence_ok s" and b: "belief_plane_ok sha s" and x: "experience_ok s" and none: "empty_of sc s"
  shows "no_data sc s"
proof -
  note D = belief_plane_okD [OF b]
  note E = e [unfolded evidence_ok_def] and X = x [unfolded experience_ok_def]
  note N = none [unfolded empty_of_def]
  have keys: "map_of (s_observation_keys s) k = Some i \<Longrightarrow> fst k \<noteq> sc" for k i
    by (rule keyed_elsewhere [OF conjunct1 [OF E]]) (use N in simp_all)
  have identities: "map_of (s_record_identity s) k = Some i \<Longrightarrow> fst k \<noteq> sc" for k i
    by (rule keyed_elsewhere [OF D(1)]) (use N in simp_all)
  have "keyed us_id (\<lambda>u. (us_scope u, us_idempotency_key u)) (s_usages s) (s_usage_keys s)"
    "keyed oc_id (\<lambda>u. (oc_scope u, oc_idempotency_key u)) (s_outcomes s) (s_outcome_keys s)" using X by blast+
  note receipts = keyed_elsewhere [OF this(1)] keyed_elsewhere [OF this(2)]
  have uses: "map_of (s_usage_keys s) k = Some i \<Longrightarrow> fst k \<noteq> sc" and results: "map_of (s_outcome_keys s) k = Some i \<Longrightarrow> fst k \<noteq> sc" for k i
    by (rule receipts; use N in simp)+
  have observed: "map_of (s_observations s) i \<noteq> None \<Longrightarrow> observed_elsewhere sc s i"
    and recorded: "map_of (s_records s) i \<noteq> None \<Longrightarrow> recorded_elsewhere sc s i" for i
    using N by (auto simp: observed_elsewhere_def recorded_elsewhere_def)
  have evidence: "map_of (s_evidence s) i = Some v \<Longrightarrow> observed_elsewhere sc s (ev_observation_id v)"
    and candidates: "map_of (s_candidate_by_observation s) i = Some c \<Longrightarrow> observed_elsewhere sc s i" for i v c
  proof -
    show "observed_elsewhere sc s (ev_observation_id v)" if "map_of (s_evidence s) i = Some v"
      by (rule observed) (use E that in blast)
    assume "map_of (s_candidate_by_observation s) i = Some c"
    then obtain a where "map_of (s_candidates s) c = Some a" "cand_observation_id a = i" using E by blast
    moreover from this(1) obtain ob where "map_of (s_observations s) (cand_observation_id a) = Some ob" using E by blast
    ultimately show "observed_elsewhere sc s i" using observed by simp
  qed
  have chains: "map_of (s_revision_ids_by_record s) r = Some ids \<Longrightarrow> recorded_elsewhere sc s r"
    and active: "map_of (s_active_revision s) r = Some i \<Longrightarrow> recorded_elsewhere sc s r" for r ids i
    using D(2,3) [of r] recorded by simp_all
  have revisions: "map_of (s_revisions s) i = Some v \<Longrightarrow> recorded_elsewhere sc s (rev_record_id v)" for i v
    using D(5) chains by blast
  have "recorded_elsewhere sc s (tr_record_id t)" if t: "t \<in> set (s_transitions s)" for t
  proof -
    have "filter (\<lambda>u. tr_record_id u = tr_record_id t) (s_transitions s) \<noteq> []" using t by (auto simp: filter_empty_conv)
    then have "revision_ids_of s (tr_record_id t) \<noteq> []" using D(6) [of "tr_record_id t"] by auto
    then show ?thesis using chains by (auto simp: revision_ids_of_def split: option.splits)
  qed
  with keys identities uses results evidence candidates chains active revisions none show ?thesis unfolding no_data_def by blast
qed

lemma world_no_data: "world_ok E w \<Longrightarrow> empty_of sc w \<Longrightarrow> no_data sc w"
  using empty_of_no_data world_okD by blast

lemma no_data_same: "same_store w w' \<Longrightarrow> no_data sc w' = no_data sc w"
  by (simp add: no_data_def empty_of_def observed_elsewhere_def recorded_elsewhere_def same_store_fields)

lemma no_data_erased: "world_ok E w \<Longrightarrow> no_data sc (erased sc w)"
  by (rule world_no_data [OF erased_world_ok]) (assumption | rule empty_of_erased(1))+

lemma empty_of_restore: "empty_of sc (restore_store s t) = empty_of sc s" for s t :: world
  by (cases s; cases t; simp add: restore_store_def store.defs empty_of_def)

lemma barren_transaction: "obeys (keeps_empty sc) m \<Longrightarrow> obeys (keeps_empty sc) (transaction m)"
  by (rule obeys_transaction) (simp_all add: keeps_empty_def empty_of_restore)

lemma barren_reading: "obeys (keeps_empty sc) (now E)" "obeys (keeps_empty sc) (new_id E)"
  by (simp_all add: obeys_def now_def new_id_def keeps_empty_def empty_of_def)

lemma barren_split: "(\<And>a b. obeys (keeps_empty sc) (f a b)) \<Longrightarrow> obeys (keeps_empty sc) (case p of (a, b) \<Rightarrow> f a b)"
  by (cases p) simp

lemma barren_error: "(\<And>m. e = ConflictError m \<Longrightarrow> obeys (keeps_empty sc) (f m)) \<Longrightarrow> obeys (keeps_empty sc) d \<Longrightarrow>
    obeys (keeps_empty sc) (case e of ConflictError m \<Rightarrow> f m | _ \<Rightarrow> d)"
  by (cases e) simp_all

lemmas barren_rules = barren.obeys_checked barren.obeys_intros barren_reading barren_split

text \<open>The writes of the store, for an entry of another scope.\<close>

lemma empty_of_fields:
  assumes "empty_of sc s" "\<forall>i v. map_of (s_observations t) i = Some v \<longrightarrow> map_of (s_observations s) i = Some v \<or> obs_scope v \<noteq> sc"
    "\<forall>i v. map_of (s_candidates t) i = Some v \<longrightarrow> map_of (s_candidates s) i = Some v \<or> cand_scope v \<noteq> sc"
    "\<forall>i v. map_of (s_records t) i = Some v \<longrightarrow> map_of (s_records s) i = Some v \<or> rec_scope v \<noteq> sc"
    "\<forall>i v. map_of (s_traces t) i = Some v \<longrightarrow> map_of (s_traces s) i = Some v \<or> rt_scope v \<noteq> sc"
    "\<forall>i v. map_of (s_usages t) i = Some v \<longrightarrow> map_of (s_usages s) i = Some v \<or> us_scope v \<noteq> sc"
    "\<forall>i v. map_of (s_outcomes t) i = Some v \<longrightarrow> map_of (s_outcomes s) i = Some v \<or> oc_scope v \<noteq> sc"
    "\<forall>k v. map_of (s_utilities t) k = Some v \<longrightarrow> map_of (s_utilities s) k = Some v \<or> fst k \<noteq> sc"
  shows "empty_of sc t"
  unfolding empty_of_def
proof (intro conjI)
  note O = assms(1) [unfolded empty_of_def]
  show "\<forall>i v. map_of (s_observations t) i = Some v \<longrightarrow> obs_scope v \<noteq> sc" using O assms(2) by blast
  show "\<forall>i v. map_of (s_candidates t) i = Some v \<longrightarrow> cand_scope v \<noteq> sc" using O assms(3) by blast
  show "\<forall>i v. map_of (s_records t) i = Some v \<longrightarrow> rec_scope v \<noteq> sc" using O assms(4) by blast
  show "\<forall>i v. map_of (s_traces t) i = Some v \<longrightarrow> rt_scope v \<noteq> sc" using O assms(5) by blast
  show "\<forall>i v. map_of (s_usages t) i = Some v \<longrightarrow> us_scope v \<noteq> sc" using O assms(6) by blast
  show "\<forall>i v. map_of (s_outcomes t) i = Some v \<longrightarrow> oc_scope v \<noteq> sc" using O assms(7) by blast
  show "\<forall>k v. map_of (s_utilities t) k = Some v \<longrightarrow> fst k \<noteq> sc" using O assms(8) by blast
qed

lemma barren_modify:
  assumes "\<And>s. empty_of sc s \<Longrightarrow> empty_of sc (f s)"
  shows "obeys (keeps_empty sc) (modify f)"
  using assms by (simp add: obeys_def keeps_empty_def prog_defs)

lemma barren_store:
  "obs_scope ob \<noteq> sc \<Longrightarrow> cand_scope c \<noteq> sc \<Longrightarrow> obeys (keeps_empty sc) (save_ingestion ob ev c)"
  "rec_scope r \<noteq> sc \<Longrightarrow> obeys (keeps_empty sc) (add_memory sha r v tr)"
  "obeys (keeps_empty sc) (append_revision i v tr)"
  "cand_scope c \<noteq> sc \<Longrightarrow> obeys (keeps_empty sc) (update_candidate c)"
  "rt_scope t \<noteq> sc \<Longrightarrow> obeys (keeps_empty sc) (save_trace t)"
  "us_scope us \<noteq> sc \<Longrightarrow> obeys (keeps_empty sc) (save_usage us)"
  "oc_scope oc \<noteq> sc \<Longrightarrow> obeys (keeps_empty sc) (apply_outcome sha oc ctx)"
  unfolding save_ingestion_def add_memory_def append_revision_def update_candidate_def save_trace_def
    save_usage_def apply_outcome_def Let_def
  by (intro barren_modify barren.obeys_pbind barren.obeys_return barren.obeys_throw barren.obeys_gets
      barren.obeys_lift_res barren.obeys_asks barren.obeys_option; erule empty_of_fields; simp)+

lemma scopes_of:
  "mk_observation i sc k source text key t n meta = Inr ob \<Longrightarrow> obs_scope ob = sc"
  "mk_candidate i sc obs key v ctx ev conf t' st a b = Inr c \<Longrightarrow> cand_scope c = sc"
  by (auto simp: mk_observation_def mk_candidate_def res_simps)

lemma accept_scope: "accept c r v = Inr a \<Longrightarrow> cand_scope a = cand_scope c"
  by (auto simp: accept_def rbind_Inr dest: scopes_of)

lemma barren_accept:
  assumes "cand_scope c \<noteq> sc"
  shows "obeys (keeps_empty sc) (accept_candidate E c vf src rs ex)"
proof -
  have r: "rec_scope r \<noteq> sc" if "mk_memory_record i (cand_scope c) k key ctx t = Inr r" for i k key ctx t r
    using that assms by (auto simp: mk_memory_record_def res_simps)
  have a: "cand_scope x \<noteq> sc" if "accept c i j = Inr x" for i j x
    using accept_scope [OF that] assms by simp
  show ?thesis
    unfolding accept_candidate_def Let_def
    by (intro barren_rules barren_store; (erule r)?; (erule a)?)
qed

lemma barren_ingest:
  "obs_scope ob \<noteq> sc \<Longrightarrow> cand_scope c \<noteq> sc \<Longrightarrow> obeys (keeps_empty sc) m \<Longrightarrow>
   obeys (keeps_empty sc) (ingest E k sc' key ob ev c m)"
  unfolding ingest_def by (intro barren_rules barren_store; (intro barren_error barren_rules)?)

lemma barren_remember: "rm_scope c \<noteq> sc \<Longrightarrow> obeys (keeps_empty sc) (remember_preference E c)"
  unfolding remember_preference_def remember_body_def
  by (intro barren_transaction barren_rules barren_ingest barren_accept) (auto dest: scopes_of)

lemma barren_correct: "cp_scope c \<noteq> sc \<Longrightarrow> obeys (keeps_empty sc) (correct_preference E c)"
  unfolding correct_preference_def correct_body_def Let_def
  by (intro barren_transaction barren_rules barren_ingest barren_accept) (auto dest: scopes_of)

lemma scopes_of_experience:
  "mk_recall_trace i sc q ctx p pv items v kn cr = Inr tr \<Longrightarrow> rt_scope tr = sc"
  "mk_memory_usage db i sc t al b ss ds rs key oc re = Inr us \<Longrightarrow> us_scope us = sc"
  "mk_outcome_event i sc t rv k key oc re uo wt txt = Inr oe \<Longrightarrow> oc_scope oe = sc"
  by (auto simp: mk_recall_trace_def mk_memory_usage_def mk_outcome_event_def res_simps)

lemma barren_availability: "obeys (keeps_empty sc) (modify (w_projection_available_update f))"
  by (rule barren_modify) (simp add: empty_of_def)

lemma barren_experience:
  "rc_scope rc \<noteq> sc \<Longrightarrow> obeys (keeps_empty sc) (recall E sv rc)"
  "ru_scope ru \<noteq> sc \<Longrightarrow> obeys (keeps_empty sc) (record_usage E ru)"
  "ro_scope ro \<noteq> sc \<Longrightarrow> obeys (keeps_empty sc) (record_outcome E ro)"
proof -
  show "rc_scope rc \<noteq> sc \<Longrightarrow> obeys (keeps_empty sc) (recall E sv rc)"
    unfolding recall_def retrieval_policy_def projection_scores_def Let_def
    by (intro barren_rules barren_store barren_availability) (auto dest: scopes_of_experience)
  show "ru_scope ru \<noteq> sc \<Longrightarrow> obeys (keeps_empty sc) (record_usage E ru)"
    unfolding record_usage_def
    by (intro barren_transaction barren_rules barren_store) (auto dest: scopes_of_experience)
  show "ro_scope ro \<noteq> sc \<Longrightarrow> obeys (keeps_empty sc) (record_outcome E ro)"
    unfolding record_outcome_def
    by (intro barren_transaction barren_rules barren_store) (auto dest: scopes_of_experience)
qed

text \<open>Erasing any scope, and evolving strategies, adds no data.\<close>

lemma barren_others:
  "obeys (keeps_empty sc) (service_erase_scope sv sc')"
  "obeys (keeps_empty sc) (propose_experiment E d reason ref key)"
  "obeys (keeps_empty sc) (advance_experiment E verifier i target receipt key)"
  "obeys (keeps_empty sc) (list_preferences E sc')"
proof -
  have "obeys (keeps_empty sc) (erase_scope sc')"
    unfolding erase_scope_def Let_def
    by (intro barren_modify barren.obeys_pbind barren.obeys_return barren.obeys_gets barren.obeys_lift_res;
        erule empty_of_fields; simp)
  then show "obeys (keeps_empty sc) (service_erase_scope sv sc')"
    unfolding service_erase_scope_def by (intro barren_rules)
  have plane: "keeps_empty sc w w'" if "same_plane w w'" for w w'
    using that by (simp add: keeps_empty_def same_plane_def empty_of_def)
  show "obeys (keeps_empty sc) (propose_experiment E d reason ref key)"
    "obeys (keeps_empty sc) (advance_experiment E verifier i target receipt key)"
    using same_plane_evolution plane unfolding obeys_def by blast+
  show "obeys (keeps_empty sc) (list_preferences E sc')"
    unfolding list_preferences_def by (intro barren_rules)
qed

subsection \<open>Running behind the enforcement point\<close>

text \<open>Only ids, clock readings and audit events are new.\<close>

definition waiting :: "'z node_scheme \<Rightarrow> 'z node_scheme \<Rightarrow> bool" where
  "waiting s t \<longleftrightarrow> nd_gov t = nd_gov s \<and> same_store (nd_world s) (nd_world t)"

interpretation wait: state_relation waiting
  by unfold_locales (auto simp: waiting_def same_store_refl intro: same_store_trans)

lemma waiting_world: "obeys same_store m \<Longrightarrow> obeys waiting (on_world m)"
  by (auto simp: obeys_def waiting_def on_world_def split: prod.split) (metis snd_conv)

lemma waiting_authorize: "obeys waiting (authorize E F iv action sc resource_id)"
  unfolding authorize_def record_audit_def
  by (intro wait.obeys_intros waiting_world obeys_reading) (simp add: waiting_def same_store_refl)

lemma waiting_privacy: "obeys waiting (require_privacy F)"
  unfolding require_privacy_def by (intro wait.obeys_intros)

text \<open>A memory use case did nothing, or ran where no fence stands.\<close>

lemma guarded_node:
  assumes run: "guarded E F iv action sc resource_id m s = (r, t)"
    and privacy: "pf_privacy F = Some P"
  shows "waiting s t \<or> (\<exists>u. waiting s u \<and> \<not> fenced (pv_conf P) (nd_gov s) sc \<and> on_world m u = (r, t))"
proof -
  obtain a s1 where a: "authorize E F iv action sc resource_id s = (a, s1)" by force
  then have w1: "waiting s s1" by (rule obeysD [OF waiting_authorize])
  show ?thesis
  proof (cases a)
    case (Inl e)
    then show ?thesis using run a w1 by (simp add: guarded_def pbind_def)
  next
    case (Inr x)
    let ?s2 = "s1\<lparr>nd_world := (nd_world s1)\<lparr>w_ticks := Suc (w_ticks (nd_world s1))\<rparr>\<rparr>"
    have w2: "waiting s1 ?s2" by (simp add: waiting_def same_store_def store.defs)
    have run2: "processing E F iv sc (on_world m) s1 = (r, t)" using run a Inr by (simp add: guarded_def pbind_def)
    then have "t = ?s2 \<or> \<not> fenced (pv_conf P) (nd_gov s1) sc \<and> on_world m ?s2 = (r, t)"
      by (auto simp: processing_def privacy processing_context_def bypass_processing_context_def raise_if_def
          split: sum.splits if_splits)
    then show ?thesis using wait.R_trans [OF w1 w2] w1 by (auto simp: waiting_def)
  qed
qed

lemma governed_node:
  assumes run: "governed E F iv action sc resource_id m s = (r, t)" and privacy: "pf_privacy F = Some P"
  shows "waiting s t \<or> (\<exists>u. waiting s u \<and> m P u = (r, t))"
proof -
  obtain a s1 where a: "authorize E F iv action sc resource_id s = (a, s1)" by force
  have "waiting s s1" using obeysD [OF waiting_authorize a] .
  then show ?thesis using run a privacy
    by (cases a) (auto simp: governed_def require_privacy_def pbind_def prog_defs)
qed

subsection \<open>A sealed scope\<close>

definition sealed :: "governance_conf \<Rightarrow> scope \<Rightarrow> 'z node_scheme \<Rightarrow> bool" where
  "sealed K sc s \<longleftrightarrow> fenced K (nd_gov s) sc \<and> empty_of sc (nd_world s)"

definition keeps_sealed :: "governance_conf \<Rightarrow> scope \<Rightarrow> 'z node_scheme \<Rightarrow> 'z node_scheme \<Rightarrow> bool" where
  "keeps_sealed K sc s t \<longleftrightarrow> (sealed K sc s \<longrightarrow> sealed K sc t)"

interpretation seal: state_relation "keeps_sealed K sc" for K sc
  by unfold_locales (auto simp: keeps_sealed_def)

lemma waiting_sealed: "waiting s t \<Longrightarrow> sealed K sc t = sealed K sc s"
  using empty_of_same [of "nd_world s" "nd_world t"] by (auto simp: waiting_def sealed_def)

lemma sealed_on:
  "obeys fences_stay g \<Longrightarrow> obeys (keeps_sealed K sc) (on_gov g)"
  "obeys (keeps_empty sc) m \<Longrightarrow> obeys (keeps_sealed K sc) (on_world m)"
proof -
  assume g: "obeys fences_stay g"
  show "obeys (keeps_sealed K sc) (on_gov g)"
    using obeysD [OF g] fenced_stays
    by (auto simp: obeys_def keeps_sealed_def sealed_def on_gov_def split: prod.split) blast
next
  assume m: "obeys (keeps_empty sc) m"
  show "obeys (keeps_sealed K sc) (on_world m)"
    using obeysD [OF m]
    by (auto simp: obeys_def keeps_sealed_def sealed_def keeps_empty_def on_world_def split: prod.split)
qed

lemma guarded_sealed:
  assumes privacy: "pf_privacy F = Some P" and K: "pv_conf P = K"
    and m: "sc' \<noteq> sc \<Longrightarrow> obeys (keeps_empty sc) m"
    and run: "guarded E F iv action sc' resource_id m s = (r, t)"
  shows "keeps_sealed K sc s t"
  unfolding keeps_sealed_def
proof
  assume s: "sealed K sc s"
  from guarded_node [OF run privacy] show "sealed K sc t"
  proof
    assume "waiting s t"
    then show ?thesis using s waiting_sealed by blast
  next
    assume "\<exists>u. waiting s u \<and> \<not> fenced (pv_conf P) (nd_gov s) sc' \<and> on_world m u = (r, t)"
    then obtain u where u: "waiting s u" "\<not> fenced K (nd_gov s) sc'" "on_world m u = (r, t)" using K by blast
    then have "sc' \<noteq> sc" using s by (auto simp: sealed_def)
    then show ?thesis using sealed_on(2) [OF m] u s waiting_sealed [OF u(1)]
      by (metis keeps_sealed_def obeysD)
  qed
qed

lemma governed_sealed:
  assumes privacy: "pf_privacy F = Some P" and m: "obeys (keeps_sealed K sc) (m P)"
    and run: "governed E F iv action sc' resource_id m s = (r, t)"
  shows "keeps_sealed K sc s t"
  using governed_node [OF run privacy] waiting_sealed obeysD [OF m] unfolding keeps_sealed_def by metis

lemma sealed_governance:
  "obeys (keeps_sealed K sc) (issue_processing_grant E P ig by)"
  "obeys (keeps_sealed K sc) (revoke_processing_grant E P rg by)"
  "obeys (keeps_sealed K sc) (suppress E P sp by)"
  "obeys (keeps_sealed K sc) (erase E P es by)"
  "obeys (keeps_sealed K sc) (erasure P sc' i)"
  unfolding issue_processing_grant_def revoke_processing_grant_def suppress_def erase_def run_erasure_def erasure_def
  by (intro seal.obeys_intros sealed_on fences_governance fences_suppress barren_reading barren_others)+

subsection \<open>The platform\<close>

inductive platform_step ::
  "env \<Rightarrow> platform \<Rightarrow> (gate_receipt \<Rightarrow> py_datetime \<Rightarrow> unit res) \<Rightarrow> authorized_node \<Rightarrow> authorized_node \<Rightarrow> bool"
  for E F verifier where
  p_remember: "remember_wf c \<Longrightarrow> ax_remember_preference E F iv c s = (r, t) \<Longrightarrow> platform_step E F verifier s t"
| p_correct: "correct_wf c \<Longrightarrow> ax_correct_preference E F iv c s = (r, t) \<Longrightarrow> platform_step E F verifier s t"
| p_recall: "ax_recall E F iv c s = (r, t) \<Longrightarrow> platform_step E F verifier s t"
| p_outcome: "ax_record_outcome E F iv c s = (r, t) \<Longrightarrow> platform_step E F verifier s t"
| p_usage: "ax_record_usage E F iv c s = (r, t) \<Longrightarrow> platform_step E F verifier s t"
| p_project: "ax_project_recall_context E F iv c s = (r, t) \<Longrightarrow> platform_step E F verifier s t"
| p_history: "ax_history E F iv sc i s = (r, t) \<Longrightarrow> platform_step E F verifier s t"
| p_list: "ax_list_preferences E F iv sc s = (r, t) \<Longrightarrow> platform_step E F verifier s t"
| p_issue: "ax_issue_processing_grant E F iv c s = (r, t) \<Longrightarrow> platform_step E F verifier s t"
| p_revoke: "ax_revoke_processing_grant E F iv c s = (r, t) \<Longrightarrow> platform_step E F verifier s t"
| p_suppress: "ax_suppress E F iv c s = (r, t) \<Longrightarrow> platform_step E F verifier s t"
| p_erase: "ax_erase E F iv c s = (r, t) \<Longrightarrow> platform_step E F verifier s t"
| p_erasure: "ax_erasure E F iv sc i s = (r, t) \<Longrightarrow> platform_step E F verifier s t"
| p_propose: "on_world (propose_experiment E d reason ref key) s = (r, t) \<Longrightarrow> platform_step E F verifier s t"
| p_advance: "on_world (advance_experiment E verifier i target receipt key) s = (r, t) \<Longrightarrow> platform_step E F verifier s t"

inductive_cases platform_stepE: "platform_step E F verifier s t"

lemma barren_asks: "obeys (keeps_empty sc) (asks q)"
  by (rule barren.obeys_asks)

lemma platform_step_sealed:
  assumes privacy: "pf_privacy F = Some P" and K: "pv_conf P = K" and step: "platform_step E F verifier s t"
  shows "keeps_sealed K sc s t"
  using step
  by cases
    (auto simp: ax_remember_preference_def ax_correct_preference_def ax_recall_def ax_record_outcome_def
       ax_record_usage_def ax_project_recall_context_def ax_history_def ax_list_preferences_def
       ax_issue_processing_grant_def ax_revoke_processing_grant_def ax_suppress_def ax_erase_def ax_erasure_def
     elim!: guarded_sealed [OF privacy K, rotated] governed_sealed [OF privacy, rotated]
     intro: barren_remember barren_correct barren_experience barren_asks barren_others sealed_governance
       obeysD [OF sealed_on(2) [OF barren_others(2)]] obeysD [OF sealed_on(2) [OF barren_others(3)]])

lemma platform_sealed:
  assumes "pf_privacy F = Some P" "pv_conf P = K" "(platform_step E F verifier)\<^sup>*\<^sup>* s t" "sealed K sc s"
  shows "sealed K sc t"
  using assms(3,4) platform_step_sealed [OF assms(1,2)] unfolding keeps_sealed_def
  by (induction rule: rtranclp_induct) blast+

end
