(* ===== verification/Platform.thy ===== *)
theory Platform
  imports Permanence
begin

text \<open>
  The invariant of the whole platform, memory service and governance together, kept by every use case
  behind the enforcement point.
\<close>

subsection \<open>Ids are only used up\<close>

definition ids_grow :: "'z node_scheme \<Rightarrow> 'z node_scheme \<Rightarrow> bool" where
  "ids_grow s t \<longleftrightarrow> w_ids (nd_world s) \<le> w_ids (nd_world t)"

interpretation grow: state_relation ids_grow
  by unfold_locales (auto simp: ids_grow_def)

lemma grow_gov: "obeys ids_grow (on_gov g)"
  by (simp add: obeys_def ids_grow_def on_gov_def split: prod.split)

lemma grow_world:
  assumes "\<And>w r w'. m w = (r, w') \<Longrightarrow> w_ids w \<le> w_ids w'"
  shows "obeys ids_grow (on_world m)"
  using assms by (auto simp: obeys_def ids_grow_def on_world_def split: prod.split)

lemma grow_reading: "obeys ids_grow (on_world (now E))" "obeys ids_grow (on_world (new_id E))"
  by (intro grow_world, auto simp: now_def new_id_def)+

lemma grow_governance:
  "obeys ids_grow (issue_processing_grant E P ig by)"
  "obeys ids_grow (revoke_processing_grant E P rg by)"
  "obeys ids_grow (suppress E P sp by)"
  "obeys ids_grow (erase E P es by)"
  "obeys ids_grow (erasure P sc' i)"
  unfolding issue_processing_grant_def revoke_processing_grant_def suppress_def erase_def run_erasure_def erasure_def
  by (intro grow.obeys_intros grow_gov grow_reading; (rule grow_world; simp add: erase_ids)?)+

lemma waiting_grows: "waiting s t \<Longrightarrow> ids_grow s t"
  by (simp add: waiting_def same_store_def ids_grow_def)

subsection \<open>The invariant\<close>

lemma requests_mono:
  "requests_issued E g w \<Longrightarrow> w_ids w \<le> w_ids w' \<Longrightarrow> requests_issued E g w'"
  unfolding requests_issued_def by (meson less_le_trans)

lemma waiting_ok:
  assumes "node_ok E K s" "waiting s t"
  shows "node_ok E K t"
proof -
  note N = node_okD [OF assms(1)]
  have w: "same_store (nd_world s) (nd_world t)" "nd_gov t = nd_gov s" using assms(2) by (simp_all add: waiting_def)
  have "requests_issued E (nd_gov t) (nd_world t)"
    using requests_mono [OF N(3)] w by (simp add: same_store_def)
  then show ?thesis using N(1) system_ok_same [OF N(2) w(1)] w(2) by (simp add: node_ok_def)
qed

text \<open>A step of the memory service on the world of a node.\<close>

lemma world_step_ok:
  assumes ok: "node_ok E K s" and step: "service_step E sv verifier (nd_world s) w'"
    and E: "digests_ok E" "service_ok sv" and ids: "ids_fresh E w'"
  shows "node_ok E K (s\<lparr>nd_world := w'\<rparr>)"
proof -
  note N = node_okD [OF ok]
  have "w_ids (nd_world s) \<le> w_ids w'" by (rule service_step_ids [OF step])
  then have "requests_issued E (nd_gov s) w'"
    by (rule requests_mono [OF N(3)])
  then show ?thesis using N(1) service_step_keeps [OF ids E step N(2)] by (simp add: node_ok_def)
qed

lemma guarded_ok:
  assumes privacy: "pf_privacy F = Some P" and E: "digests_ok E" "service_ok sv"
    and step: "\<And>w x w'. m w = (x, w') \<Longrightarrow> service_step E sv verifier w w' \<or> same_store w w'"
    and run: "guarded E F iv action sc resource_id m s = (r, t)"
    and ok: "node_ok E K s" and ids: "ids_fresh E (nd_world t)"
  shows "node_ok E K t"
  using guarded_node [OF run privacy]
proof
  assume "waiting s t"
  then show ?thesis by (rule waiting_ok [OF ok])
next
  assume "\<exists>u. waiting s u \<and> \<not> fenced (pv_conf P) (nd_gov s) sc \<and> on_world m u = (r, t)"
  then obtain u where u: "waiting s u" "on_world m u = (r, t)" by blast
  obtain x w' where m: "m (nd_world u) = (x, w')" by force
  then have t: "t = u\<lparr>nd_world := w'\<rparr>" using u(2) by (simp add: on_world_def)
  have oku: "node_ok E K u" by (rule waiting_ok [OF ok u(1)])
  from step [OF m] show ?thesis
  proof
    assume st: "service_step E sv verifier (nd_world u) w'"
    then show ?thesis using world_step_ok [OF oku st E] ids t by simp
  next
    assume "same_store (nd_world u) w'"
    then have w: "waiting u t" using t by (simp add: waiting_def)
    show ?thesis by (rule waiting_ok [OF oku w])
  qed
qed

text \<open>The governance operations other than the erasure touch no request.\<close>

definition keeps_node :: "env \<Rightarrow> governance_conf \<Rightarrow> 'z node_scheme \<Rightarrow> 'z node_scheme \<Rightarrow> bool" where
  "keeps_node E K s t \<longleftrightarrow> (node_ok E K s \<longrightarrow> node_ok E K t)"

interpretation nodes: state_relation "keeps_node E K" for E K
  by unfold_locales (auto simp: keeps_node_def)

lemma nodes_waiting: "obeys waiting m \<Longrightarrow> obeys (keeps_node E K) m"
  by (auto simp: obeys_def keeps_node_def intro: waiting_ok)

lemma same_requests:
  "g_erasures (snd (issue_grant K i sc ps basis pv by key vf vu t g)) = g_erasures g"
  "g_erasures (snd (revoke_grant K sc i by t g)) = g_erasures g"
  "g_erasures (snd (suppress_scope K i sc rs pv by key t g)) = g_erasures g"
  by (simp_all add: issue_grant_def revoke_grant_def suppress_scope_def Let_def pbind_def prog_defs dict_index_def
      split: option.split sum.split prod.split)

lemma nodes_on_gov:
  assumes "obeys (keeps_governance K) m" "\<And>g. g_erasures (snd (m g)) = g_erasures g"
  shows "obeys (keeps_node E K) (on_gov m)"
  unfolding obeys_def
proof (intro allI)
  fix s
  obtain r g where m: "m (nd_gov s) = (r, g)" by force
  have "keeps_governance K (nd_gov s) g" by (rule obeysD [OF assms(1) m])
  moreover have "g_erasures g = g_erasures (nd_gov s)" using assms(2) [of "nd_gov s"] m by simp
  ultimately show "keeps_node E K s (snd (on_gov m s))"
    by (simp add: keeps_node_def node_ok_def on_gov_def m keeps_governance_def requests_issued_def)
qed

lemma nodes_reading: "obeys (keeps_node E K) (on_world (now E'))" "obeys (keeps_node E K) (on_world (new_id E'))"
  using obeys_reading waiting_world nodes_waiting by blast+

lemma governance_node:
  assumes "pv_conf P = K"
  shows "obeys (keeps_node E K) (issue_processing_grant E P ig by)"
    "obeys (keeps_node E K) (revoke_processing_grant E P rg by)"
    "obeys (keeps_node E K) (suppress E P sp by)"
    "obeys (keeps_node E K) (erasure P sc i)"
  unfolding issue_processing_grant_def revoke_processing_grant_def suppress_def erasure_def assms
  by (intro nodes.obeys_intros nodes_reading nodes_on_gov issue_keeps revoke_keeps suppress_keeps same_requests)+

lemma governed_ok:
  assumes privacy: "pf_privacy F = Some P" and m: "obeys (keeps_node E K) (m P)"
    and run: "governed E F iv action sc resource_id m s = (r, t)" and ok: "node_ok E K s"
  shows "node_ok E K t"
  using governed_node [OF run privacy]
proof
  assume "waiting s t"
  then show ?thesis by (rule waiting_ok [OF ok])
next
  assume "\<exists>u. waiting s u \<and> m P u = (r, t)"
  then obtain u where u: "waiting s u" "m P u = (r, t)" by blast
  then show ?thesis
    using obeysD [OF m u(2)] waiting_ok [OF ok u(1)] by (simp add: keeps_node_def)
qed

text \<open>The erasure needs a fresh id for its request.\<close>

lemma erase_node:
  assumes privacy: "pf_privacy F = Some P" and K: "pv_conf P = K" "hmac_ok K"
    and named: "errors_named (pv_service P)" and run: "ax_erase E F iv c s = (r, t)"
    and ok: "node_ok E K s" and ids: "ids_fresh E (nd_world t)"
  shows "node_ok E K t"
  using governed_node [OF run [unfolded ax_erase_def] privacy]
proof
  assume "waiting s t"
  then show ?thesis by (rule waiting_ok [OF ok])
next
  assume "\<exists>u. waiting s u \<and> erase E P c (ac_principal_id (iv_actor iv)) u = (r, t)"
  then obtain u where u: "waiting s u" "erase E P c (ac_principal_id (iv_actor iv)) u = (r, t)" by blast
  have g: "ids_grow u t" by (rule obeysD [OF grow_governance(4) u(2)])
  then have "ids_fresh E (nd_world u)" using ids_fresh_mono [OF ids] by (simp add: ids_grow_def)
  then show ?thesis
    using erase_result [OF K _ waiting_ok [OF ok u(1)] named u(2)] by blast
qed

text \<open>A memory use case that writes nothing.\<close>

lemma same_store_list: "obeys same_store (list_preferences E sc)"
  unfolding list_preferences_def by (intro counters.obeys_intros obeys_reading)

lemma guarded_reading:
  assumes privacy: "pf_privacy F = Some P" and m: "obeys same_store m"
    and run: "guarded E F iv action sc resource_id m s = (r, t)" and ok: "node_ok E K s"
  shows "node_ok E K t"
  using guarded_node [OF run privacy]
proof
  assume "waiting s t"
  then show ?thesis by (rule waiting_ok [OF ok])
next
  assume "\<exists>u. waiting s u \<and> \<not> fenced (pv_conf P) (nd_gov s) sc \<and> on_world m u = (r, t)"
  then obtain u where u: "waiting s u" "on_world m u = (r, t)" by blast
  have "waiting s t" using wait.R_trans [OF u(1) obeysD [OF waiting_world [OF m] u(2)]] .
  then show ?thesis by (rule waiting_ok [OF ok])
qed

lemma evolve_ok:
  assumes ok: "node_ok E K s" and E: "digests_ok E" "service_ok sv"
    and run: "on_world m s = (r, t)" and ids: "ids_fresh E (nd_world t)"
    and step: "\<And>w x w'. m w = (x, w') \<Longrightarrow> service_step E sv verifier w w'"
  shows "node_ok E K t"
proof -
  obtain x w' where m: "m (nd_world s) = (x, w')" by force
  then have t: "t = s\<lparr>nd_world := w'\<rparr>" using run by (simp add: on_world_def)
  show ?thesis using world_step_ok [OF ok step [OF m] E] ids t by simp
qed

subsection \<open>Every use case keeps it\<close>

lemma platform_step_keeps:
  assumes privacy: "pf_privacy F = Some P" and K: "pv_conf P = K" "hmac_ok K" "errors_named (pv_service P)"
    and E: "digests_ok E" "service_ok (pf_service F)" and step: "platform_step E F verifier s t"
    and ok: "node_ok E K s" and ids: "ids_fresh E (nd_world t)"
  shows "node_ok E K t"
  using step
proof cases
  case (p_remember c iv r)
  show ?thesis
    by (rule guarded_ok [OF privacy E _ p_remember(2) [unfolded ax_remember_preference_def] ok ids])
       (blast intro: remembering [OF p_remember(1)])
next
  case (p_correct c iv r)
  show ?thesis
    by (rule guarded_ok [OF privacy E _ p_correct(2) [unfolded ax_correct_preference_def] ok ids])
       (blast intro: correcting [OF p_correct(1)])
next
  case (p_recall iv c r)
  show ?thesis
    by (rule guarded_ok [OF privacy E _ p_recall [unfolded ax_recall_def] ok ids]) (blast intro: recalling)
next
  case (p_outcome iv c r)
  show ?thesis
    by (rule guarded_ok [OF privacy E _ p_outcome [unfolded ax_record_outcome_def] ok ids]) (blast intro: judging)
next
  case (p_usage iv c r)
  show ?thesis
    by (rule guarded_ok [OF privacy E _ p_usage [unfolded ax_record_usage_def] ok ids]) (blast intro: using_context)
next
  case (p_project iv c r)
  show ?thesis
    by (rule guarded_reading [OF privacy counters.obeys_asks p_project [unfolded ax_project_recall_context_def] ok])
next
  case (p_history iv sc i r)
  show ?thesis
    by (rule guarded_reading [OF privacy counters.obeys_asks p_history [unfolded ax_history_def] ok])
next
  case (p_list iv sc r)
  show ?thesis
    by (rule guarded_reading [OF privacy same_store_list p_list [unfolded ax_list_preferences_def] ok])
next
  case (p_issue iv c r)
  show ?thesis
    by (rule governed_ok [OF privacy governance_node(1) [OF K(1)]
        p_issue [unfolded ax_issue_processing_grant_def] ok])
next
  case (p_revoke iv c r)
  show ?thesis
    by (rule governed_ok [OF privacy governance_node(2) [OF K(1)]
        p_revoke [unfolded ax_revoke_processing_grant_def] ok])
next
  case (p_suppress iv c r)
  show ?thesis
    by (rule governed_ok [OF privacy governance_node(3) [OF K(1)]
        p_suppress [unfolded ax_suppress_def] ok])
next
  case (p_erase iv c r)
  show ?thesis by (rule erase_node [OF privacy K(1,2,3) p_erase ok ids])
next
  case (p_erasure iv sc i r)
  show ?thesis
    by (rule governed_ok [OF privacy governance_node(4) [OF K(1)]
        p_erasure [unfolded ax_erasure_def] ok])
next
  case (p_propose d reason ref key r)
  show ?thesis by (rule evolve_ok [OF ok E p_propose ids]) (blast intro: proposing)
next
  case (p_advance i target receipt key r)
  show ?thesis by (rule evolve_ok [OF ok E p_advance ids]) (blast intro: advancing)
qed

text \<open>Ids grow with every use case, whatever the state.\<close>

lemma grow_authorized: "obeys ids_grow (authorize E F iv action sc resource_id)"
  using waiting_authorize waiting_grows unfolding obeys_def by blast

lemma grow_guarded: "obeys ids_grow (on_world m :: (authorized_node, 'a) prog) \<Longrightarrow> obeys ids_grow (guarded E F iv action sc resource_id m)"
  unfolding guarded_def processing_def
  by (intro grow.obeys_intros grow_authorized grow_reading)

lemma grow_governed: "(\<And>P. obeys ids_grow (m P)) \<Longrightarrow> obeys ids_grow (governed E F iv action sc resource_id m)"
  unfolding governed_def require_privacy_def
  by (intro grow.obeys_intros grow_authorized)

lemma grow_memory:
  "remember_wf rm \<Longrightarrow> obeys ids_grow (on_world (remember_preference E rm))"
  "correct_wf cp \<Longrightarrow> obeys ids_grow (on_world (correct_preference E cp))"
  "obeys ids_grow (on_world (recall E sv rc))"
  "obeys ids_grow (on_world (record_usage E ru))"
  "obeys ids_grow (on_world (record_outcome E ro))"
  "obeys ids_grow (on_world (asks q))"
  "obeys ids_grow (on_world (list_preferences E sc))"
  using service_step_ids [of E _ verifier]
  by (intro grow_world; blast intro: service_step.intros)+
     (auto simp: prog_defs same_store_def intro!: grow_world dest: obeysD [OF same_store_list])

lemma grow_evolution:
  "obeys ids_grow (on_world (propose_experiment E d reason ref key))"
  "obeys ids_grow (on_world (advance_experiment E verifier i target receipt key))"
  by (intro grow_world; erule service_step_ids [OF proposing] service_step_ids [OF advancing])+

lemma platform_step_ids:
  assumes "platform_step E F verifier s t"
  shows "ids_grow s t"
  using assms
  by cases
    (auto simp: ax_remember_preference_def ax_correct_preference_def ax_recall_def ax_record_outcome_def
       ax_record_usage_def ax_project_recall_context_def ax_history_def ax_list_preferences_def
       ax_issue_processing_grant_def ax_revoke_processing_grant_def ax_suppress_def ax_erase_def ax_erasure_def
     elim!: obeysD [rotated] intro: grow_guarded grow_governed grow_memory grow_evolution grow_governance)

lemma platform_keeps:
  assumes "pf_privacy F = Some P" "pv_conf P = K" "hmac_ok K" "errors_named (pv_service P)"
    and "digests_ok E" "service_ok (pf_service F)" and "node_ok E K s"
    and "(platform_step E F verifier)\<^sup>*\<^sup>* s t" "ids_fresh E (nd_world t)"
  shows "node_ok E K t"
  using assms(8,9)
proof (induction rule: rtranclp_induct)
  case base
  then show ?case using assms(7) by simp
next
  case (step t u)
  have "ids_fresh E (nd_world t)"
    using platform_step_ids [OF step.hyps(2)] ids_fresh_mono [OF step.prems] by (simp add: ids_grow_def)
  then show ?case using platform_step_keeps [OF assms(1-6) step.hyps(2) _ step.prems] step.IH by blast
qed

end
