(* ===== verification/GovernanceProperties.thy ===== *)
theory GovernanceProperties
  imports RecallProperties Platform
begin

text \<open>
  Properties of the platform around the memory service: no use case runs without permission, refusals
  change nothing and are audited, a suppressed scope stays closed, an erased scope stays empty, and the
  whole state stays well-formed.
\<close>

subsection \<open>The use cases behind the enforcement point\<close>

datatype use_case =
    Remembering remember_command | Correcting correct_command | Recalling recall_command
  | Judging outcome_command | Reporting usage_command | Projecting project_command
  | ReadingHistory scope uuid | Listing scope
  | Granting issue_command | Revoking revoke_command | Suppressing suppress_command
  | Erasing erase_command | ReadingErasure scope uuid

fun case_action :: "use_case \<Rightarrow> memory_action" where
  "case_action (Remembering c) = EVIDENCE_INGEST"
| "case_action (Correcting c) = BELIEF_CORRECT"
| "case_action (Recalling c) = PROJECTION_RECALL"
| "case_action (Judging c) = EXPERIENCE_OUTCOME_WRITE"
| "case_action (Reporting c) = EXPERIENCE_USAGE_WRITE"
| "case_action (Projecting c) = PROJECTION_COMPRESS"
| "case_action (ReadingHistory sc i) = BELIEF_READ_HISTORY"
| "case_action (Listing sc) = BELIEF_READ_CURRENT"
| "case_action (Granting c) = GOVERNANCE_POLICY_MANAGE"
| "case_action (Revoking c) = GOVERNANCE_POLICY_MANAGE"
| "case_action (Suppressing c) = GOVERNANCE_PRIVACY_SUPPRESS"
| "case_action (Erasing c) = GOVERNANCE_ERASURE_APPROVE"
| "case_action (ReadingErasure sc i) = GOVERNANCE_ERASURE_APPROVE"

fun case_scope :: "use_case \<Rightarrow> scope" where
  "case_scope (Remembering c) = rm_scope c"
| "case_scope (Correcting c) = cp_scope c"
| "case_scope (Recalling c) = rc_scope c"
| "case_scope (Judging c) = ro_scope c"
| "case_scope (Reporting c) = ru_scope c"
| "case_scope (Projecting c) = pj_scope c"
| "case_scope (ReadingHistory sc i) = sc"
| "case_scope (Listing sc) = sc"
| "case_scope (Granting c) = ig_scope c"
| "case_scope (Revoking c) = rg_scope c"
| "case_scope (Suppressing c) = sp_scope c"
| "case_scope (Erasing c) = es_scope c"
| "case_scope (ReadingErasure sc i) = sc"

definition reads_or_writes_memory :: "use_case \<Rightarrow> bool" where
  "reads_or_writes_memory u \<longleftrightarrow> action_plane (case_action u) \<noteq> P_GOVERNANCE"

text \<open>Running a use case, when its answer does not matter.\<close>

definition forget :: "('s, 'a) prog \<Rightarrow> ('s, unit) prog" where
  "forget m = pbind m (\<lambda>_. return ())"

fun run_case :: "env \<Rightarrow> platform \<Rightarrow> invocation_context \<Rightarrow> use_case \<Rightarrow> (authorized_node, unit) prog" where
  "run_case E F iv (Remembering c) = forget (ax_remember_preference E F iv c)"
| "run_case E F iv (Correcting c) = forget (ax_correct_preference E F iv c)"
| "run_case E F iv (Recalling c) = forget (ax_recall E F iv c)"
| "run_case E F iv (Judging c) = forget (ax_record_outcome E F iv c)"
| "run_case E F iv (Reporting c) = forget (ax_record_usage E F iv c)"
| "run_case E F iv (Projecting c) = forget (ax_project_recall_context E F iv c)"
| "run_case E F iv (ReadingHistory sc i) = forget (ax_history E F iv sc i)"
| "run_case E F iv (Listing sc) = forget (ax_list_preferences E F iv sc)"
| "run_case E F iv (Granting c) = forget (ax_issue_processing_grant E F iv c)"
| "run_case E F iv (Revoking c) = forget (ax_revoke_processing_grant E F iv c)"
| "run_case E F iv (Suppressing c) = forget (ax_suppress E F iv c)"
| "run_case E F iv (Erasing c) = forget (ax_erase E F iv c)"
| "run_case E F iv (ReadingErasure sc i) = forget (ax_erasure E F iv sc i)"

lemma forget_Inr: "forget m s = (Inr x, t) \<longleftrightarrow> (\<exists>y. m s = (Inr y, t))"
  by (auto simp: forget_def pbind_Inr prog_defs)

lemma forget_Inl: "forget m s = (Inl e, t) \<longleftrightarrow> m s = (Inl e, t)"
  by (auto simp: forget_def pbind_def prog_defs split: sum.splits prod.splits)

lemma forget_state: "snd (forget m s) = snd (m s)"
  by (simp add: forget_def pbind_def prog_defs split: sum.split prod.split)

text \<open>Each use case is a guarded call on the world, or a governed call.\<close>

lemma forget_guarded:
  fixes m :: "(world, 'a) prog"
  shows "\<exists>j (n :: (world, unit) prog). forget (guarded E F iv a sc i m) = guarded E F iv a sc j n"
proof -
  have "forget (on_world m) = (on_world (forget m) :: (authorized_node, unit) prog)"
    by (rule ext) (simp add: forget_def on_world_def pbind_def prog_defs split: prod.split sum.split)
  then have "forget (processing E F iv sc (on_world m)) = processing E F iv sc (on_world (forget m))"
    by (simp add: processing_def forget_def pbind_assoc split: option.split)
  then have "forget (guarded E F iv a sc i m) = guarded E F iv a sc i (forget m)"
    by (simp add: guarded_def forget_def pbind_assoc)
  then show ?thesis by blast
qed

lemma run_case_memory:
  assumes "reads_or_writes_memory u"
  shows "\<exists>i (m :: (world, unit) prog). run_case E F iv u = guarded E F iv (case_action u) (case_scope u) i m"
  using assms
  by (cases u) (simp_all add: reads_or_writes_memory_def ax_remember_preference_def ax_correct_preference_def
      ax_recall_def ax_record_outcome_def ax_record_usage_def ax_project_recall_context_def ax_history_def
      ax_list_preferences_def forget_guarded)

lemma run_case_governed:
  assumes "\<not> reads_or_writes_memory u"
  shows "\<exists>i m. run_case E F iv u = governed E F iv (case_action u) (case_scope u) i m \<and>
    (\<forall>P. obeys same_audit (m P))"
proof -
  have f: "\<exists>j n. forget (governed E F iv a sc i m) = governed E F iv a sc j n \<and> (\<forall>P. obeys same_audit (n P))"
    if m: "\<And>P. obeys same_audit (m P)" for a sc i and m :: "privacy \<Rightarrow> (authorized_node, 'b) prog"
  proof -
    have "forget (governed E F iv a sc i m) = governed E F iv a sc i (\<lambda>P. forget (m P))"
      by (simp add: governed_def forget_def pbind_assoc)
    moreover have "obeys same_audit (forget (m P))" for P
      using m [of P] by (simp add: obeys_def forget_state)
    ultimately show ?thesis by blast
  qed
  have audits:
    "obeys same_audit (issue_processing_grant E P ig by)" "obeys same_audit (revoke_processing_grant E P rg by)"
    "obeys same_audit (suppress E P sp by)" "obeys same_audit (erase E P es by)" "obeys same_audit (erasure P sc i)"
    for P ig rg sp es "by" sc i
    unfolding issue_processing_grant_def revoke_processing_grant_def suppress_def erase_def run_erasure_def erasure_def
    by (intro aud.obeys_intros obeys_on)+
  show ?thesis
    by (cases u) (use assms in \<open>simp_all add: reads_or_writes_memory_def ax_issue_processing_grant_def
      ax_revoke_processing_grant_def ax_suppress_def ax_erase_def ax_erasure_def f audits\<close>)
qed

text \<open>Every use case asks for a decision first; what follows leaves the audit log alone.\<close>

lemma run_case_authorized:
  assumes privacy: "pf_privacy F = Some P"
  shows "\<exists>i body. run_case E F iv u = pbind (authorize E F iv (case_action u) (case_scope u) i) (\<lambda>_. body) \<and>
    obeys same_audit body"
proof (cases "reads_or_writes_memory u")
  case True
  then obtain i and m :: "(world, unit) prog"
    where "run_case E F iv u = guarded E F iv (case_action u) (case_scope u) i m"
    using run_case_memory by blast
  then show ?thesis using processing_same_audit unfolding guarded_def by blast
next
  case False
  then obtain i m where m: "run_case E F iv u = governed E F iv (case_action u) (case_scope u) i m"
      "\<And>P. obeys same_audit (m P)"
    using run_case_governed by blast
  have "governed E F iv (case_action u) (case_scope u) i m =
      pbind (authorize E F iv (case_action u) (case_scope u) i) (\<lambda>_. m P)"
    by (rule ext) (simp add: governed_def require_privacy_def privacy)
  then show ?thesis using m by auto
qed

lemma run_case_eval:
  assumes ok: "invocation_ok F iv" and privacy: "pf_privacy F = Some P"
  obtains ev w body where
    "de_allowed (au_decision ev) = permitted F iv (case_action u) (case_scope u)" "au_action ev = case_action u"
    "au_actor ev = iv_actor iv" "re_scope (au_resource ev) = case_scope u" "au_purpose ev = iv_purpose iv"
    "untouched s w" "an_audit w = an_audit s" "obeys same_audit body"
    "run_case E F iv u s = (case pf_sink F ev of Inl e \<Rightarrow> (Inl e, w)
       | Inr _ \<Rightarrow> (if permitted F iv (case_action u) (case_scope u) then body (an_audit_update (\<lambda>evs. evs @ [ev]) w)
           else (Inl (AuthorizationDeniedError (\<not> visible iv (case_scope u))), an_audit_update (\<lambda>evs. evs @ [ev]) w)))"
proof -
  obtain i body where shape: "run_case E F iv u = pbind (authorize E F iv (case_action u) (case_scope u) i) (\<lambda>_. body)"
    and b: "obeys same_audit body" using run_case_authorized [OF privacy] by blast
  obtain d ev w where "de_allowed d = permitted F iv (case_action u) (case_scope u)" "au_decision ev = d"
      "au_action ev = case_action u" "au_actor ev = iv_actor iv" "re_scope (au_resource ev) = case_scope u"
      "au_purpose ev = iv_purpose iv" "untouched s w" "an_audit w = an_audit s"
    and auth: "authorize E F iv (case_action u) (case_scope u) i s = (case pf_sink F ev of Inl e \<Rightarrow> (Inl e, w)
       | Inr _ \<Rightarrow> (if permitted F iv (case_action u) (case_scope u) then Inr ()
           else Inl (AuthorizationDeniedError (\<not> visible iv (case_scope u))), an_audit_update (\<lambda>evs. evs @ [ev]) w))"
    by (rule authorize_eval [OF ok])
  moreover have "run_case E F iv u s = (case pf_sink F ev of Inl e \<Rightarrow> (Inl e, w)
       | Inr _ \<Rightarrow> (if permitted F iv (case_action u) (case_scope u) then body (an_audit_update (\<lambda>evs. evs @ [ev]) w)
           else (Inl (AuthorizationDeniedError (\<not> visible iv (case_scope u))), an_audit_update (\<lambda>evs. evs @ [ev]) w)))"
    by (simp add: shape pbind_def auth split: sum.split)
  ultimately show thesis using that [of ev w body] b by simp
qed

text \<open>Who is permitted and admitted is served: the use case runs on the store as it is.\<close>

lemma authorize_ids: "w_ids (nd_world (snd (authorize E F iv action sc i s))) \<le> Suc (w_ids (nd_world s))"
  by (simp add: authorize_def record_audit_def pbind_def prog_defs on_world_def new_id_def now_def
      split: sum.split prod.split)

lemma guarded_served:
  assumes ok: "invocation_ok F iv" and privacy: "pf_privacy F = Some P" and sink: "\<And>ev. pf_sink F ev = Inr ()"
    and may: "permitted F iv action sc" and adm: "\<And>n. admitted F iv sc (e_clock E n) (nd_gov s)"
  obtains u where "waiting s u" "w_ids (nd_world u) \<le> Suc (w_ids (nd_world s))"
    "guarded E F iv action sc i m s = on_world m u"
proof -
  obtain w where auth: "authorize E F iv action sc i s = (Inr (), w)"
    by (rule authorize_eval [OF ok, of action sc s E i]) (use may sink in auto)
  then have w: "waiting s w" by (rule obeysD [OF waiting_authorize])
  let ?u = "w\<lparr>nd_world := (nd_world w)\<lparr>w_ticks := Suc (w_ticks (nd_world w))\<rparr>\<rparr>"
  have "waiting w ?u" by (simp add: waiting_def same_store_def store.defs)
  moreover have "nd_gov w = nd_gov s" using w by (simp add: waiting_def)
  then have "processing E F iv sc (on_world m) w = on_world m ?u"
    using adm [of "w_ticks (nd_world w)"]
    by (auto simp: processing_def privacy admitted_def processing_context_def bypass_processing_context_def
        raise_if_def rbind_def)
  ultimately show thesis
    using that [of ?u] wait.R_trans [OF w] auth authorize_ids [of E F iv action sc i s]
    by (simp add: guarded_def pbind_eval)
qed

subsection \<open>A sample platform\<close>

definition sample_conf :: governance_conf where
  "sample_conf = \<lparr>gc_hmac = (\<lambda>key m. [49] @ m @ [49]), gc_key = replicate 16 1\<rparr>"

definition sample_privacy :: privacy where
  "sample_privacy = \<lparr>pv_conf = sample_conf, pv_service = sample_service, pv_policy_version = uc ''v1''\<rparr>"

definition sample_platform :: platform where
  "sample_platform = \<lparr>pf_permissions = role_permissions, pf_policy_version = uc ''v1'', pf_sink = (\<lambda>_. Inr ()),
     pf_service = sample_service, pf_privacy = Some sample_privacy, pf_bypass = False\<rparr>"

definition sample_access :: access_grant where
  "sample_access = \<lparr>ag_tenant_id = uc ''t'', ag_subject_ids = [uc ''s''],
     ag_roles = [uc ''memory_operator'', uc ''privacy_officer''], ag_purposes = [uc ''care'']\<rparr>"

definition sample_actor :: actor_context where
  "sample_actor = \<lparr>ac_principal_id = uc ''p'', ac_kind = USER, ac_grants = [sample_access],
     ac_authentication_method = uc ''oidc'', ac_client_id = None, ac_token_id = None\<rparr>"

definition sample_invocation :: invocation_context where
  "sample_invocation = \<lparr>iv_actor = sample_actor, iv_purpose = uc ''care'', iv_request_id = uc ''r''\<rparr>"

definition sample_grant :: processing_grant where
  "sample_grant = \<lparr>pg_id = 90, pg_tenant_ref = fst (scope_refs sample_conf sample_scope),
     pg_subject_ref = snd (scope_refs sample_conf sample_scope), pg_purposes = [uc ''care''],
     pg_lawful_basis = uc ''consent'', pg_policy_version = uc ''v1'', pg_issued_by_ref = uc ''admin'',
     pg_idempotency_key = uc ''g1'', pg_valid_from = 0, pg_valid_until = None, pg_created_at = 0,
     pg_revoked_at = None, pg_revoked_by_ref = None\<rparr>"

definition sample_node :: "world \<Rightarrow> authorized_node" where
  "sample_node w = \<lparr>nd_gov = \<lparr>g_grants = [(90, sample_grant)], g_grant_keys = [], g_fences = [],
     g_erasures = [], g_erasure_keys = []\<rparr>, nd_world = w, an_audit = []\<rparr>"

lemma sample_node_fields [simp]:
  "nd_world (sample_node w) = w" "an_audit (sample_node w) = []" "g_erasures (nd_gov (sample_node w)) = []"
  "g_erasure_keys (nd_gov (sample_node w)) = []" "g_fences (nd_gov (sample_node w)) = []"
  by (simp_all add: sample_node_def)

lemma sample_platform_fields [simp]:
  "pf_privacy sample_platform = Some sample_privacy" "pv_conf sample_privacy = sample_conf"
  "pf_sink sample_platform ev = Inr ()" "pf_service sample_platform = sample_service"
  "pv_service sample_privacy = sample_service"
  by (simp_all add: sample_platform_def sample_privacy_def)

lemma sample_hmac: "hmac_ok sample_conf"
  by (simp add: hmac_ok_def sample_conf_def stripped_def is_space_def)

lemma sample_errors_named: "errors_named sample_service"
  by (simp add: errors_named_def sample_service_def)

lemma sample_invocation_ok: "invocation_ok sample_platform sample_invocation"
proof -
  have "stripped (uc ''care'')" "stripped (uc ''r'')" "stripped (uc ''v1'')"
    by (simp_all add: stripped_def uc_def is_space_def)
  then show ?thesis
    using strip_id [of "uc ''v1''"] by (simp add: invocation_ok_def sample_invocation_def sample_platform_def)
qed

lemma sample_permitted:
  "permitted sample_platform sample_invocation a sample_scope \<longleftrightarrow>
     a \<in> {EVIDENCE_INGEST, BELIEF_READ_CURRENT, BELIEF_READ_HISTORY, BELIEF_CORRECT, EXPERIENCE_USAGE_WRITE,
       EXPERIENCE_OUTCOME_WRITE, EXPERIENCE_UTILITY_READ, PROJECTION_COMPRESS, PROJECTION_RECALL,
       EVIDENCE_READ_RAW, EVIDENCE_EXPORT, GOVERNANCE_PRIVACY_SUPPRESS, GOVERNANCE_ERASURE_APPROVE}"
  by (auto simp: permitted_def sample_invocation_def sample_actor_def sample_access_def covers_def sample_scope_def
      permits_purpose_def role_allows_def sample_platform_def role_permissions_def uc_def star_def)

lemma sample_not_covered: "\<not> permitted sample_platform sample_invocation a other_scope"
  by (simp add: permitted_def sample_invocation_def sample_actor_def sample_access_def covers_def other_scope_def
      uc_def star_def)

lemma sample_admitted: "admitted sample_platform sample_invocation sample_scope n (nd_gov (sample_node w)) \<longleftrightarrow> 0 \<le> n"
  by (simp add: admitted_def fenced_def sample_platform_def sample_privacy_def sample_node_def grant_permits_def
      sample_grant_def sample_invocation_def dict_values_def)

subsection \<open>Permission\<close>

lemma run_case_permission:
  assumes "invocation_ok F iv" "pf_privacy F = Some P" "run_case E F iv u s = (Inr (), t)"
  shows "(\<exists>g \<in> set (ac_grants (iv_actor iv)). covers g (case_scope u) \<and> permits_purpose g (iv_purpose iv) \<and>
      (\<exists>role \<in> set (ag_roles g). role_allows (pf_permissions F) (case_action u) role)) \<and>
    (reads_or_writes_memory u \<longrightarrow> \<not> fenced (pv_conf P) (nd_gov s) (case_scope u) \<and>
      (pf_bypass F \<or> (\<exists>g \<in> set (dict_values (g_grants (nd_gov s))). \<exists>n.
         grant_permits (scope_refs (pv_conf P) (case_scope u)) (iv_purpose iv) n g)))"
proof -
  have "permitted F iv (case_action u) (case_scope u)"
    by (rule run_case_eval [OF assms(1,2), of u s E]) (use assms(3) in \<open>auto split: sum.splits if_splits\<close>)
  moreover have "\<exists>n. admitted F iv (case_scope u) n (nd_gov s)" if memory: "reads_or_writes_memory u"
  proof (rule ccontr)
    assume no: "\<not> (\<exists>n. admitted F iv (case_scope u) n (nd_gov s))"
    obtain i and m :: "(world, unit) prog"
      where shape: "run_case E F iv u = guarded E F iv (case_action u) (case_scope u) i m"
      using run_case_memory [OF memory] by blast
    show False
      by (rule guarded_refused [OF assms(1), of "case_action u" "case_scope u" s E i m])
         (use no assms(3) shape in auto)
  qed
  ultimately show ?thesis using assms(2) by (auto simp: permitted_def admitted_def list_ex_iff)
qed

text \<open>
  C3: No use case succeeds without permission: one single grant of the caller covers the scope, has a role
  with the action and permits the purpose.  A use case on memory moreover ran where no fence stood, and,
  unless the deployment bypasses grants, under a processing grant of this scope for the purpose.
\<close>

theorem no_use_case_without_permission:
  assumes "invocation_ok F iv" "pf_privacy F = Some P" "run_case E F iv u s = (Inr (), t)"
  shows "(\<exists>g \<in> set (ac_grants (iv_actor iv)). covers g (case_scope u) \<and> permits_purpose g (iv_purpose iv) \<and>
      (\<exists>role \<in> set (ag_roles g). role_allows (pf_permissions F) (case_action u) role)) \<and>
    (reads_or_writes_memory u \<longrightarrow> \<not> fenced (pv_conf P) (nd_gov s) (case_scope u) \<and>
      (pf_bypass F \<or> (\<exists>g \<in> set (dict_values (g_grants (nd_gov s))). \<exists>n.
         grant_permits (scope_refs (pv_conf P) (case_scope u)) (iv_purpose iv) n g)))"
  by (rule run_case_permission [OF assms])

lemma sample_served:
  "\<exists>u. waiting (sample_node sample_world) u \<and> w_ids (nd_world u) \<le> 1 \<and>
     ax_remember_preference sample_env sample_platform sample_invocation sample_remember (sample_node sample_world) =
       on_world (remember_preference sample_env sample_remember) u"
proof -
  have sc: "rm_scope sample_remember = sample_scope" by (simp add: sample_remember_def)
  show ?thesis
    unfolding ax_remember_preference_def sc
    by (rule guarded_served [OF sample_invocation_ok, of sample_privacy EVIDENCE_INGEST sample_scope sample_env
        "sample_node sample_world" None "remember_preference sample_env sample_remember"])
       (auto simp: sample_permitted sample_admitted sample_env_def sample_world_fields)
qed

lemma sample_remember_served:
  "\<exists>x t. ax_remember_preference sample_env sample_platform sample_invocation sample_remember
     (sample_node sample_world) = (Inr x, t) \<and> w_ids (nd_world t) \<le> 7 \<and> s_revisions (nd_world t) \<noteq> []"
proof -
  obtain u where u: "waiting (sample_node sample_world) u" "w_ids (nd_world u) \<le> 1"
    and run: "ax_remember_preference sample_env sample_platform sample_invocation sample_remember (sample_node sample_world) =
       on_world (remember_preference sample_env sample_remember) u" using sample_served by blast
  have nonempty: "dict_set i x d \<noteq> []" for i x and d :: "(uuid, memory_revision) dict"
  proof
    assume "dict_set i x d = []"
    then have "map_of (dict_set i x d) i = None" by (simp only: map_of.simps)
    then show False by simp
  qed
  have "same_store sample_world (nd_world u)" using u(1) by (simp add: waiting_def)
  then have "s_observation_keys (nd_world u) = []" "s_record_identity (nd_world u) = []"
    using sample_world_fields by (simp_all add: same_store_fields)
  then show ?thesis
    using first_remember [OF sample_remember_ok(2,1), of "nd_world u" sample_env] run u(2) nonempty
    by (simp add: on_world_def first_world_fields)
qed

theorem no_use_case_without_permission_witness:
  "\<exists>t. run_case sample_env sample_platform sample_invocation (Remembering sample_remember)
      (sample_node sample_world) = (Inr (), t) \<and>
    \<not> fenced sample_conf (nd_gov (sample_node sample_world)) (rm_scope sample_remember)"
proof -
  obtain t where t: "run_case sample_env sample_platform sample_invocation (Remembering sample_remember)
      (sample_node sample_world) = (Inr (), t)"
    using sample_remember_served by (auto simp: forget_Inr)
  show ?thesis
    using no_use_case_without_permission [OF sample_invocation_ok sample_platform_fields(1) t] t
    by (simp add: reads_or_writes_memory_def)
qed

text \<open>
  A refused use case changes nothing: when the caller is not permitted, or no grant admits the
  processing, or the scope is suppressed, it ends in an error, and the governance records, the store and
  the state of the projection are as before (only ids, clock readings and the audit log move on).
\<close>

theorem refusals_change_nothing:
  assumes "invocation_ok F iv" "pf_privacy F = Some P"
    and "\<not> permitted F iv (case_action u) (case_scope u) \<or>
      reads_or_writes_memory u \<and> \<not> (\<exists>n. admitted F iv (case_scope u) n (nd_gov s))"
  shows "\<exists>e t. run_case E F iv u s = (Inl e, t) \<and> untouched s t"
proof (cases "permitted F iv (case_action u) (case_scope u)")
  case False
  show ?thesis
    by (rule run_case_eval [OF assms(1,2), of u s E])
       (use False untouched_trans untouched_counters(3) in \<open>auto split: sum.split\<close>)
next
  case True
  with assms(3) have memory: "reads_or_writes_memory u" and no: "\<not> (\<exists>n. admitted F iv (case_scope u) n (nd_gov s))"
    by blast+
  obtain i and m :: "(world, unit) prog"
    where shape: "run_case E F iv u = guarded E F iv (case_action u) (case_scope u) i m"
    using run_case_memory [OF memory] by blast
  show ?thesis
    by (rule guarded_refused [OF assms(1), of "case_action u" "case_scope u" s E i m]) (use no shape in auto)
qed

theorem refusals_change_nothing_witness:
  "\<exists>e t. run_case sample_env sample_platform sample_invocation (Listing other_scope) (sample_node sample_world) =
      (Inl e, t) \<and> untouched (sample_node sample_world) t"
  by (rule refusals_change_nothing [OF sample_invocation_ok sample_platform_fields(1)])
     (simp add: sample_not_covered)

text \<open>
  Every use case is audited exactly once, whether it is allowed, refused or fails later: one event is
  added at the end of the log, with the caller, the action, the scope, the purpose and the decision taken.
\<close>

theorem every_decision_is_audited:
  assumes "invocation_ok F iv" "pf_privacy F = Some P" "\<And>ev. pf_sink F ev = Inr ()"
  shows "\<exists>ev. an_audit (snd (run_case E F iv u s)) = an_audit s @ [ev] \<and> au_action ev = case_action u \<and>
    re_scope (au_resource ev) = case_scope u \<and> au_actor ev = iv_actor iv \<and> au_purpose ev = iv_purpose iv \<and>
    de_allowed (au_decision ev) = permitted F iv (case_action u) (case_scope u)"
proof -
  obtain ev w body where ev:
    "de_allowed (au_decision ev) = permitted F iv (case_action u) (case_scope u)" "au_action ev = case_action u"
    "au_actor ev = iv_actor iv" "re_scope (au_resource ev) = case_scope u" "au_purpose ev = iv_purpose iv"
    and w: "an_audit w = an_audit s" and body: "obeys same_audit body"
    and run: "run_case E F iv u s = (case pf_sink F ev of Inl e \<Rightarrow> (Inl e, w)
       | Inr _ \<Rightarrow> (if permitted F iv (case_action u) (case_scope u) then body (an_audit_update (\<lambda>evs. evs @ [ev]) w)
           else (Inl (AuthorizationDeniedError (\<not> visible iv (case_scope u))), an_audit_update (\<lambda>evs. evs @ [ev]) w)))"
    by (rule run_case_eval [OF assms(1,2), of u s E]) blast
  have "an_audit (snd (run_case E F iv u s)) = an_audit (an_audit_update (\<lambda>evs. evs @ [ev]) w)"
    unfolding run assms(3) using body by (simp add: obeys_def same_audit_def)
  then show ?thesis using ev w by (intro exI [of _ ev]) simp
qed

theorem every_decision_is_audited_witness:
  "\<exists>ev. an_audit (snd (run_case sample_env sample_platform sample_invocation (Listing other_scope)
      (sample_node sample_world))) = [ev] \<and> \<not> de_allowed (au_decision ev)"
  using every_decision_is_audited [OF sample_invocation_ok sample_platform_fields(1,3), where u = "Listing other_scope"
    and E = sample_env and s = "sample_node sample_world"]
  by (auto simp: sample_not_covered)

subsection \<open>Suppression\<close>

definition fences_kept :: "'z node_scheme \<Rightarrow> 'z node_scheme \<Rightarrow> bool" where
  "fences_kept s t \<longleftrightarrow> fences_stay (nd_gov s) (nd_gov t)"

interpretation kept: state_relation fences_kept
  by unfold_locales (auto simp: fences_kept_def fences_stay_def intro: map_le_trans)

lemma kept_gov: "obeys fences_stay g \<Longrightarrow> obeys fences_kept (on_gov g)"
  by (auto simp: obeys_def fences_kept_def on_gov_def split: prod.split) (metis snd_conv)

lemma kept_world: "obeys fences_kept (on_world m)"
  by (auto simp: obeys_def fences_kept_def fences_stay_def on_world_def split: prod.split)

lemma kept_waiting: "waiting s t \<Longrightarrow> fences_kept s t"
  by (simp add: waiting_def fences_kept_def fences_stay_def)

lemma kept_authorize: "obeys fences_kept (authorize E F iv action sc i)"
  using waiting_authorize kept_waiting unfolding obeys_def by blast

lemma kept_governance:
  "obeys fences_kept (issue_processing_grant E P ig by)"
  "obeys fences_kept (revoke_processing_grant E P rg by)"
  "obeys fences_kept (suppress E P sp by)"
  "obeys fences_kept (erase E P es by)"
  "obeys fences_kept (erasure P sc i)"
  unfolding issue_processing_grant_def revoke_processing_grant_def suppress_def erase_def run_erasure_def erasure_def
  by (intro kept.obeys_intros kept_gov kept_world fences_governance fences_suppress)+

lemma kept_guarded: "obeys fences_kept (guarded E F iv action sc i m)"
  unfolding guarded_def processing_def by (intro kept.obeys_intros kept_authorize kept_world)

lemma kept_governed: "(\<And>P. obeys fences_kept (m P)) \<Longrightarrow> obeys fences_kept (governed E F iv action sc i m)"
  unfolding governed_def require_privacy_def by (intro kept.obeys_intros kept_authorize)

lemma platform_step_fences: "platform_step E F verifier s t \<Longrightarrow> fences_kept s t"
  by (erule platform_stepE)
    (auto simp: ax_remember_preference_def ax_correct_preference_def ax_recall_def ax_record_outcome_def
       ax_record_usage_def ax_project_recall_context_def ax_history_def ax_list_preferences_def
       ax_issue_processing_grant_def ax_revoke_processing_grant_def ax_suppress_def ax_erase_def ax_erasure_def
     elim!: obeysD [rotated] intro: kept_guarded kept_governed kept_governance kept_world)

lemma platform_fences: "(platform_step E F verifier)\<^sup>*\<^sup>* s t \<Longrightarrow> fences_kept s t"
  by (induction rule: rtranclp_induct) (auto intro: kept.R_refl platform_step_fences kept.R_trans)

text \<open>
  C26: A suppressed scope stays closed: once a suppression has succeeded, every later use case that reads
  or writes memory of this scope, by whomever and after whatever else happened on the platform, is
  refused and changes nothing.
\<close>

theorem suppression_is_permanent:
  assumes "pf_privacy F = Some P" "ax_suppress E F iv c s = (Inr f, t)"
    and "(platform_step E F verifier)\<^sup>*\<^sup>* t u"
    and "invocation_ok F iv'" "reads_or_writes_memory later" "case_scope later = sp_scope c"
  shows "\<exists>e v. run_case E F iv' later u = (Inl e, v) \<and> untouched u v"
proof -
  obtain s1 where "suppress E P c (ac_principal_id (iv_actor iv)) s1 = (Inr f, t)"
  proof -
    have "\<exists>s1. suppress E P c (ac_principal_id (iv_actor iv)) s1 = (Inr f, t)"
      using assms(1,2) by (auto simp: ax_suppress_def governed_def require_privacy_def pbind_Inr prog_defs)
    then show thesis using that by blast
  qed
  then have "\<exists>i n g. suppress_scope (pv_conf P) i (sp_scope c) (sp_reason_code c) (pv_policy_version P)
      (ac_principal_id (iv_actor iv)) (sp_idempotency_key c) n g = (Inr f, nd_gov t)"
    by (auto simp: suppress_def on_gov_def split: prod.splits) blast
  then have "fenced (pv_conf P) (nd_gov t) (sp_scope c)" using suppress_fences by blast
  then have "fenced (pv_conf P) (nd_gov u) (sp_scope c)"
    using platform_fences [OF assms(3)] fenced_stays by (auto simp: fences_kept_def)
  then have no: "\<not> (\<exists>n. admitted F iv' (case_scope later) n (nd_gov u))"
    using assms(1,6) by (simp add: admitted_def)
  obtain i and m :: "(world, unit) prog"
    where shape: "run_case E F iv' later = guarded E F iv' (case_action later) (case_scope later) i m"
    using run_case_memory [OF assms(5)] by blast
  show ?thesis
    by (rule guarded_refused [OF assms(4), of "case_action later" "case_scope later" u E i m]) (use no shape in auto)
qed

lemma governed_served:
  assumes ok: "invocation_ok F iv" and privacy: "pf_privacy F = Some P" and sink: "\<And>ev. pf_sink F ev = Inr ()"
    and may: "permitted F iv action sc"
  obtains u where "waiting s u" "w_ids (nd_world u) \<le> Suc (w_ids (nd_world s))"
    "governed E F iv action sc i m s = m P u"
proof -
  obtain w where auth: "authorize E F iv action sc i s = (Inr (), w)"
    by (rule authorize_eval [OF ok, of action sc s E i]) (use may sink in auto)
  then have "waiting s w" by (rule obeysD [OF waiting_authorize])
  then show thesis using that [of w] auth authorize_ids [of E F iv action sc i s]
    by (simp add: governed_def require_privacy_def privacy pbind_eval)
qed

lemma suppress_total:
  assumes "hmac_ok K" "stripped reason" "stripped version" "stripped key"
  shows "\<exists>f g'. suppress_scope K i sc reason version who key (utc t) g = (Inr f, g')"
proof -
  have "\<exists>f. mk_suppression_fence i (fst (scope_refs K sc)) (snd (scope_refs K sc)) reason version
      (reference K ''principal'' who) key (utc t) = Inr f"
    using assms by (simp add: mk_suppression_fence_def scope_refs_def require_text_stripped refs_stripped)
  then show ?thesis
    by (cases "map_of (g_fences g) (scope_refs K sc)") (auto simp: suppress_scope_def Let_def)
qed

definition sample_suppress :: suppress_command where
  "sample_suppress = \<lparr>sp_scope = sample_scope, sp_reason_code = uc ''asked'', sp_idempotency_key = uc ''k''\<rparr>"

lemma sample_stripped: "stripped (uc ''asked'')" "stripped (uc ''k'')" "stripped (uc ''v1'')"
  by (simp_all add: stripped_def uc_def is_space_def)

lemma sample_suppressed:
  "\<exists>f t. ax_suppress sample_env sample_platform sample_invocation sample_suppress s = (Inr f, t)"
proof -
  let ?by = "ac_principal_id (iv_actor sample_invocation)"
  obtain u where "ax_suppress sample_env sample_platform sample_invocation sample_suppress s =
      suppress sample_env sample_privacy sample_suppress ?by u"
    unfolding ax_suppress_def
    by (rule governed_served [OF sample_invocation_ok sample_platform_fields(1), where E = sample_env and s = s
          and action = GOVERNANCE_PRIVACY_SUPPRESS and sc = "sp_scope sample_suppress" and i = None
          and m = "\<lambda>P. suppress sample_env P sample_suppress ?by"])
       (auto simp: sample_suppress_def sample_permitted)
  moreover obtain f g where "suppress_scope sample_conf (e_ids sample_env (w_ids (nd_world u))) sample_scope (uc ''asked'')
      (uc ''v1'') ?by (uc ''k'') (utc (e_clock sample_env (w_ticks (nd_world u)))) (nd_gov u) = (Inr f, g)"
    using suppress_total [OF sample_hmac sample_stripped(1,3,2)] by blast
  ultimately show ?thesis
    by (simp add: suppress_def on_gov_def sample_suppress_def sample_privacy_def)
qed

theorem suppression_is_permanent_witness:
  "\<exists>f t. ax_suppress sample_env sample_platform sample_invocation sample_suppress (sample_node sample_world) = (Inr f, t) \<and>
     (\<exists>e v. run_case sample_env sample_platform sample_invocation (Remembering sample_remember) t = (Inl e, v) \<and>
        untouched t v)"
proof -
  obtain f t where run: "ax_suppress sample_env sample_platform sample_invocation sample_suppress
      (sample_node sample_world) = (Inr f, t)" using sample_suppressed by blast
  show ?thesis
    using suppression_is_permanent [OF sample_platform_fields(1) run rtranclp.rtrancl_refl sample_invocation_ok,
        where later = "Remembering sample_remember"] run
    by (simp add: reads_or_writes_memory_def sample_remember_def sample_suppress_def)
qed

subsection \<open>Erasure\<close>

text \<open>
  C16: Erasing a scope at the store is complete and touches nothing else: the call always answers, and the
  world is the old one in which each of the 17 tables of memory data has lost exactly the entries of the
  scope, every other entry being as and where it was: an evidence span goes with its observation, a revision,
  a transition, a chain and an active revision with their record, an idempotency or identity key with the
  scope it is made of.  The registry of strategies and experiments, which has no scope, is as before.  Each of
  the numbers of the summary counts the entries that went, or the items of the traces and usages that went.
\<close>

theorem erasure_is_exact:
  assumes "world_ok E w"
  shows "\<exists>sm w'. erase_scope sc w = (Inr sm, w') \<and> world_ok E w' \<and>
    w' = w\<lparr>
      s_observations := drop_entries (\<lambda>i v. obs_scope v = sc) (s_observations w),
      s_observation_keys := drop_entries (\<lambda>k i. fst k = sc) (s_observation_keys w),
      s_evidence := drop_entries (\<lambda>i v. observed_in w sc (ev_observation_id v)) (s_evidence w),
      s_candidates := drop_entries (\<lambda>i v. cand_scope v = sc) (s_candidates w),
      s_candidate_by_observation := drop_entries (\<lambda>i c. observed_in w sc i) (s_candidate_by_observation w),
      s_records := drop_entries (\<lambda>i v. rec_scope v = sc) (s_records w),
      s_record_identity := drop_entries (\<lambda>k i. fst k = sc) (s_record_identity w),
      s_revisions := drop_entries (\<lambda>i v. recorded_in w sc (rev_record_id v)) (s_revisions w),
      s_revision_ids_by_record := drop_entries (\<lambda>r ids. recorded_in w sc r) (s_revision_ids_by_record w),
      s_active_revision := drop_entries (\<lambda>r i. recorded_in w sc r) (s_active_revision w),
      s_transitions := filter (\<lambda>t. \<not> recorded_in w sc (tr_record_id t)) (s_transitions w),
      s_traces := drop_entries (\<lambda>i v. rt_scope v = sc) (s_traces w),
      s_usages := drop_entries (\<lambda>i v. us_scope v = sc) (s_usages w),
      s_usage_keys := drop_entries (\<lambda>k i. fst k = sc) (s_usage_keys w),
      s_outcomes := drop_entries (\<lambda>i v. oc_scope v = sc) (s_outcomes w),
      s_outcome_keys := drop_entries (\<lambda>k i. fst k = sc) (s_outcome_keys w),
      s_utilities := drop_entries (\<lambda>k v. fst k = sc) (s_utilities w)\<rparr> \<and>
    sum_observations sm = int (length (entries (\<lambda>i v. obs_scope v = sc) (s_observations w))) \<and>
    sum_evidence_spans sm = int (length (entries (\<lambda>i v. observed_in w sc (ev_observation_id v)) (s_evidence w))) \<and>
    sum_candidates sm = int (length (entries (\<lambda>i v. cand_scope v = sc) (s_candidates w))) \<and>
    sum_memory_records sm = int (length (entries (\<lambda>i v. rec_scope v = sc) (s_records w))) \<and>
    sum_memory_revisions sm = int (length (entries (\<lambda>i v. recorded_in w sc (rev_record_id v)) (s_revisions w))) \<and>
    sum_revision_transitions sm = int (length (filter (\<lambda>t. recorded_in w sc (tr_record_id t)) (s_transitions w))) \<and>
    sum_recall_traces sm = int (length (entries (\<lambda>i v. rt_scope v = sc) (s_traces w))) \<and>
    sum_recall_trace_items sm =
      int (sum_list (map (\<lambda>(i, v). length (rt_items v)) (entries (\<lambda>i v. rt_scope v = sc) (s_traces w)))) \<and>
    sum_memory_usages sm = int (length (entries (\<lambda>i v. us_scope v = sc) (s_usages w))) \<and>
    sum_memory_usage_items sm =
      int (sum_list (map (\<lambda>(i, v). length (us_revision_ids v)) (entries (\<lambda>i v. us_scope v = sc) (s_usages w)))) \<and>
    sum_outcomes sm = int (length (entries (\<lambda>i v. oc_scope v = sc) (s_outcomes w))) \<and>
    sum_utility_estimates sm = int (length (entries (\<lambda>k v. fst k = sc) (s_utilities w))) \<and>
    sum_outbox_events sm = 0 \<and> sum_projection_jobs sm = 0 \<and> sum_projection_documents sm = 0"
proof -
  note D = world_okD [OF assms]
  have "erase_scope sc w = (Inr (scope_summary sc w), without_scope sc w)"
    by (rule erase_scope_exact [OF D(1-3)])
  moreover have "world_ok E (without_scope sc w)"
    using erased_world_ok [OF assms, of sc] erased_without_scope [OF D(1-3), of sc] by simp
  ultimately show ?thesis
    by (intro exI [of _ "scope_summary sc w"] exI [of _ "without_scope sc w"])
       (simp add: scope_summary_def without_scope_def Let_def)
qed

theorem erasure_is_exact_witness:
  "\<exists>sm w'. erase_scope sample_scope sample_remembered = (Inr sm, w') \<and> map_of (s_records w') 3 = None \<and>
     map_of (s_revisions w') 4 = None \<and> sum_memory_records sm = 1 \<and> sum_memory_revisions sm = 1"
proof -
  have rev: "rev_record_id (first_of sample_env sample_remember sample_world) = 3"
    by (simp add: first_of_def first_revision_def sample_env_def sample_world_fields)
  obtain sm w' where "erase_scope sample_scope sample_remembered = (Inr sm, w')"
      "s_records w' = drop_entries (\<lambda>i v. rec_scope v = sample_scope) (s_records sample_remembered)"
      "s_revisions w' = drop_entries (\<lambda>i v. recorded_in sample_remembered sample_scope (rev_record_id v))
         (s_revisions sample_remembered)"
      "sum_memory_records sm = int (length (entries (\<lambda>i v. rec_scope v = sample_scope) (s_records sample_remembered)))"
      "sum_memory_revisions sm = int (length (entries
         (\<lambda>i v. recorded_in sample_remembered sample_scope (rev_record_id v)) (s_revisions sample_remembered)))"
    using erasure_is_exact [OF sample_remembered_ok, of sample_scope] by auto
  then show ?thesis
    by (simp add: drop_entries_def entries_def recorded_in_def sample_remembered_fields sample_correct_fields rev)
qed

text \<open>
  Every erasure settles in one of three ways.  It succeeds with a completed request stored for the
  scope, with the fence up, and the world is the one without the data of the scope, or the request was
  completed before; or it is refused before anything was begun, and the store and the requests are
  as before; or it stays pending behind its fence because a handler failed, and the caller is told so.
\<close>

theorem erasure_settles:
  assumes "pv_conf P = K" "hmac_ok K" "errors_named (pv_service P)" "node_ok E K s" "ids_fresh E (nd_world s)"
    and "erase E P c who s = (r, s')"
  shows "case r of
     Inr q \<Rightarrow> er_status q = ES_COMPLETED \<and> er_completed_at q \<noteq> None \<and> er_summary q \<noteq> None \<and>
       fenced K (nd_gov s') (es_scope c) \<and> erasure_of K (es_scope c) (er_id q) (nd_gov s') = Some q \<and>
       (erasure_of K (es_scope c) (er_id q) (nd_gov s) = Some q \<and> same_store (nd_world s) (nd_world s') \<or>
        same_store (erased (es_scope c) (nd_world s)) (nd_world s'))
   | Inl e \<Rightarrow> same_store (nd_world s) (nd_world s') \<and> g_erasures (nd_gov s') = g_erasures (nd_gov s) \<or>
       e = GovernanceUnavailableError ''erasure remains pending because a required handler failed'' \<and>
       fenced K (nd_gov s') (es_scope c) \<and>
       (\<exists>q. erasure_of K (es_scope c) (er_id q) (nd_gov s') = Some q \<and> er_status q = ES_PENDING)"
proof -
  have none: "g_erasures g' = g_erasures g"
    if "begin_erasure K i j sc rs pv who key t g = (Inl e, g')" for i j sc rs pv key t g g' e
    using that by (auto simp: begin_erasure_def suppress_scope_def Let_def raise_if_def pbind_def prog_defs
        dict_index_def split: option.splits sum.splits if_splits prod.splits)
  note R = erase_result [OF assms(1,2,5,4,3,6)]
  show ?thesis
  proof (cases r)
    case (Inl e)
    with R none show ?thesis by auto
  next
    case (Inr q)
    with R show ?thesis by (auto simp: erasure_stored_def erasure_ok_def)
  qed
qed

lemma begin_total:
  assumes K: "hmac_ok K" and ok: "governance_ok K g" and c: "stripped reason" "stripped version" "stripped key"
    and same: "\<And>l q. map_of (g_erasure_keys g) (fst (scope_refs K sc), snd (scope_refs K sc), key) = Some l \<Longrightarrow>
      map_of (g_erasures g) l = Some q \<Longrightarrow> er_reason_code q = reason \<and> er_policy_version q = version"
  shows "\<exists>q g'. begin_erasure K i j sc reason version who key (utc t) g = (Inr q, g')"
proof (cases "map_of (g_erasure_keys g) (fst (scope_refs K sc), snd (scope_refs K sc), key)")
  case (Some l)
  from governance_okD(4) [OF ok Some] obtain q where "map_of (g_erasures g) l = Some q" by blast
  then show ?thesis
    using Some same [OF Some] by (auto simp: begin_erasure_def Let_def dict_index_def)
next
  case None
  have "stripped (uc ''erasure:'' @ key)" using c(3) by (simp add: stripped_def uc_def is_space_def)
  then obtain f g1 where "suppress_scope K j sc reason version who (uc ''erasure:'' @ key) (utc t) g = (Inr f, g1)"
    using suppress_total [OF K c(1,2)] by blast
  moreover obtain q where "mk_erasure_request i (fst (scope_refs K sc)) (snd (scope_refs K sc)) (scope_digest K sc)
      reason version (reference K ''principal'' who) key ES_PENDING (utc t) None None [] None = Inr q"
    using c by (simp add: mk_erasure_request_def scope_refs_def scope_digest_def require_text_stripped refs_stripped [OF K])
  ultimately show ?thesis using None by (simp add: begin_erasure_def Let_def pbind_eval)
qed

lemma service_erase_total:
  assumes "experience_ok u" "\<And>p n. sv_projection sv = Some p \<Longrightarrow> \<exists>k \<ge> 0. rp_delete_scope p n sc = Inr k"
  shows "\<exists>sm u'. service_erase_scope sv sc u = (Inr sm, u')"
proof -
  obtain sm where e: "erase_scope sc u = (Inr sm, erased sc u)" by (rule erase_scope_eval [OF assms(1)])
  show ?thesis
  proof (cases "sv_projection sv")
    case None
    then show ?thesis using e by (simp add: service_erase_scope_def with_projection_documents_def pbind_eval(2))
  next
    case (Some p)
    then obtain k where "0 \<le> k" "rp_delete_scope p (w_ticks u) sc = Inr k" using assms(2) by blast
    then show ?thesis
      using Some e by (simp add: service_erase_scope_def with_projection_documents_def pbind_eval(2))
  qed
qed

lemma erase_answers:
  assumes "pv_conf P = K" "hmac_ok K" "errors_named (pv_service P)" "node_ok E K s" "ids_fresh E (nd_world s)"
    and "stripped (es_reason_code c)" "stripped (pv_policy_version P)" "stripped (es_idempotency_key c)"
    and "\<And>p n. sv_projection (pv_service P) = Some p \<Longrightarrow> \<exists>k \<ge> 0. rp_delete_scope p n (es_scope c) = Inr k"
    and "\<And>l q. map_of (g_erasure_keys (nd_gov s)) (fst (scope_refs K (es_scope c)), snd (scope_refs K (es_scope c)),
        es_idempotency_key c) = Some l \<Longrightarrow> map_of (g_erasures (nd_gov s)) l = Some q \<Longrightarrow>
        er_reason_code q = es_reason_code c \<and> er_policy_version q = pv_policy_version P"
  shows "\<exists>q s'. erase E P c who s = (Inr q, s') \<and> er_status q = ES_COMPLETED \<and>
    (erasure_of K (es_scope c) (er_id q) (nd_gov s) = Some q \<or>
     same_store (erased (es_scope c) (nd_world s)) (nd_world s'))"
proof -
  obtain r s' where run: "erase E P c who s = (r, s')" by force
  note R = erase_result [OF assms(1,2,5,4,3) run]
  have begun: "begin_erasure K i j (es_scope c) (es_reason_code c) (pv_policy_version P) who (es_idempotency_key c)
      (utc t) (nd_gov s) \<noteq> (Inl e, nd_gov s')" for i j t e
    using begin_total [OF assms(2) node_okD(1) [OF assms(4)] assms(6-8), of "es_scope c" i j who t] assms(10) by auto
  have erases: "service_erase_scope (pv_service P) (es_scope c) u \<noteq> (Inl e, v)"
    if "same_store (nd_world s) u" for u v e
  proof -
    have "system_ok E u" by (rule system_ok_same [OF node_okD(2) [OF assms(4)] that])
    then have "experience_ok u" using world_okD(3) [OF system_okD(1)] by blast
    then show ?thesis using service_erase_total [of u "pv_service P" "es_scope c"] assms(9) by auto
  qed
  show ?thesis
  proof (cases r)
    case (Inl e)
    with R begun erases show ?thesis by auto
  next
    case (Inr q)
    with R run show ?thesis by auto
  qed
qed

text \<open>
  C38: An erasure completes whenever the projection answers: a permitted caller with a well-formed request,
  under an unused key or repeating one that is pending or completed, gets a completed request, and the data
  of the scope is gone unless the request had been completed before.
\<close>

theorem erasure_completes:
  assumes "invocation_ok F iv" "pf_privacy F = Some P" "\<And>ev. pf_sink F ev = Inr ()"
    and "permitted F iv GOVERNANCE_ERASURE_APPROVE (es_scope c)"
    and "pv_conf P = K" "hmac_ok K" "errors_named (pv_service P)" "node_ok E K s"
    and "ids_fresh E ((nd_world s)\<lparr>w_ids := Suc (w_ids (nd_world s))\<rparr>)"
    and "stripped (es_reason_code c)" "stripped (pv_policy_version P)" "stripped (es_idempotency_key c)"
    and "\<And>p n. sv_projection (pv_service P) = Some p \<Longrightarrow> \<exists>k \<ge> 0. rp_delete_scope p n (es_scope c) = Inr k"
    and "\<And>l q. map_of (g_erasure_keys (nd_gov s)) (fst (scope_refs K (es_scope c)), snd (scope_refs K (es_scope c)),
        es_idempotency_key c) = Some l \<Longrightarrow> map_of (g_erasures (nd_gov s)) l = Some q \<Longrightarrow>
        er_reason_code q = es_reason_code c \<and> er_policy_version q = pv_policy_version P"
  shows "\<exists>q t. ax_erase E F iv c s = (Inr q, t) \<and> er_status q = ES_COMPLETED \<and>
    (erasure_of K (es_scope c) (er_id q) (nd_gov s) = Some q \<or> no_data (es_scope c) (nd_world t))"
proof -
  obtain u where u: "waiting s u" "w_ids (nd_world u) \<le> Suc (w_ids (nd_world s))"
    and run: "ax_erase E F iv c s = erase E P c (ac_principal_id (iv_actor iv)) u"
    unfolding ax_erase_def
    by (rule governed_served [OF assms(1-4), where E = E and s = s and i = None
          and m = "\<lambda>P. erase E P c (ac_principal_id (iv_actor iv))"])
  have gov: "nd_gov u = nd_gov s" using u(1) by (simp add: waiting_def)
  have ok: "node_ok E K u" by (rule waiting_ok [OF assms(8) u(1)])
  have ids: "ids_fresh E (nd_world u)" by (rule ids_fresh_mono [OF assms(9)]) (use u(2) in simp)
  obtain q t where q: "erase E P c (ac_principal_id (iv_actor iv)) u = (Inr q, t)" "er_status q = ES_COMPLETED"
      "erasure_of K (es_scope c) (er_id q) (nd_gov u) = Some q \<or>
       same_store (erased (es_scope c) (nd_world u)) (nd_world t)"
    using erase_answers [OF assms(5-7) ok ids assms(10-13)] assms(14) gov by metis
  have "world_ok E (nd_world u)" using node_okD(2) [OF ok] system_okD(1) by blast
  then have "no_data (es_scope c) (nd_world t)" if "same_store (erased (es_scope c) (nd_world u)) (nd_world t)"
    using no_data_same [OF that] no_data_erased by blast
  then show ?thesis using q run gov by auto
qed

definition sample_erase :: erase_command where
  "sample_erase = \<lparr>es_scope = sample_scope, es_reason_code = uc ''asked'', es_idempotency_key = uc ''k''\<rparr>"

lemma sample_node_ok: "node_ok sample_env sample_conf (sample_node sample_remembered)"
proof -
  have "grant_ok sample_grant" by (simp add: grant_ok_def sample_grant_def uc_def)
  then have "governance_ok sample_conf (nd_gov (sample_node sample_remembered))"
    by (simp add: governance_ok_def) (simp add: sample_node_def sample_grant_def)
  then show ?thesis using sample_remembered_system by (simp add: node_ok_def requests_issued_def)
qed

lemma sample_fresh: "ids_fresh sample_env (nd_world (sample_node sample_remembered))"
  by (simp add: sample_remembered_fields)

lemma sample_erase_fields:
  "es_scope sample_erase = sample_scope" "stripped (es_reason_code sample_erase)"
  "stripped (es_idempotency_key sample_erase)" "stripped (pv_policy_version sample_privacy)"
  "errors_named (pv_service sample_privacy)" "sv_projection (pv_service sample_privacy) = None"
  using sample_stripped sample_errors_named
  by (simp_all add: sample_erase_def sample_privacy_def) (simp add: sample_service_def)

theorem erasure_completes_witness:
  "\<exists>q t. ax_erase sample_env sample_platform sample_invocation sample_erase (sample_node sample_remembered) = (Inr q, t) \<and>
     er_status q = ES_COMPLETED \<and> no_data sample_scope (nd_world t)"
  using erasure_completes [OF sample_invocation_ok sample_platform_fields(1,3) _ sample_platform_fields(2) sample_hmac
      sample_erase_fields(5) sample_node_ok _ sample_erase_fields(2,4,3)] sample_erase_fields(1,6)
  by (simp add: erasure_of_def sample_permitted sample_remembered_fields)

theorem erasure_settles_witness:
  "let (r, s') = erase sample_env sample_privacy sample_erase (uc ''p'') (sample_node sample_remembered) in
   case r of
     Inr q \<Rightarrow> er_status q = ES_COMPLETED \<and> fenced sample_conf (nd_gov s') sample_scope
   | Inl e \<Rightarrow> g_erasures (nd_gov s') = [] \<or> fenced sample_conf (nd_gov s') sample_scope"
  using erasure_settles [OF sample_platform_fields(2) sample_hmac sample_erase_fields(5) sample_node_ok sample_fresh
      surjective_pairing, where c = sample_erase and who = "uc ''p''"] sample_erase_fields(1)
  by (auto simp: Let_def case_prod_beta split: sum.splits)

text \<open>
  C7: What was erased stays erased: when an erasure completes a request, then in every state the platform
  reaches from there, whatever it is asked by whomever, the scope is fenced and owns no entry of any table;
  and where the invariant of the platform holds, nothing that has no scope of its own is left of it either:
  no evidence, revision, transition or chain, and no key of an index.
\<close>

theorem erased_stays_erased:
  assumes "pf_privacy F = Some P" "pv_conf P = K" "hmac_ok K" "errors_named (pv_service P)"
    and "node_ok E K s" "ax_erase E F iv c s = (Inr q, t)" "ids_fresh E (nd_world t)"
    and "erasure_of K (es_scope c) (er_id q) (nd_gov s) \<noteq> Some q"
    and "(platform_step E F verifier)\<^sup>*\<^sup>* t u"
  shows "fenced K (nd_gov u) (es_scope c) \<and> empty_of (es_scope c) (nd_world u) \<and>
    (digests_ok E \<and> service_ok (pf_service F) \<and> ids_fresh E (nd_world u) \<longrightarrow> no_data (es_scope c) (nd_world u))"
proof -
  obtain v where v: "waiting s v" and run: "erase E P c (ac_principal_id (iv_actor iv)) v = (Inr q, t)"
    using assms(1,6) obeysD [OF waiting_authorize]
    by (auto simp: ax_erase_def governed_def require_privacy_def pbind_Inr prog_defs) blast
  have ok: "node_ok E K v" by (rule waiting_ok [OF assms(5) v])
  have "ids_grow v t" by (rule obeysD [OF grow_governance(4) run])
  then have ids: "ids_fresh E (nd_world v)" using ids_fresh_mono [OF assms(7)] by (simp add: ids_grow_def)
  have gov: "nd_gov v = nd_gov s" using v by (simp add: waiting_def)
  have R: "fenced K (nd_gov t) (es_scope c)" "same_store (erased (es_scope c) (nd_world v)) (nd_world t)"
    using erase_result [OF assms(2,3) ids ok assms(4) run] assms(8) gov by auto
  have "world_ok E (nd_world v)" using node_okD(2) [OF ok] system_okD(1) by blast
  then have "sealed K (es_scope c) t"
    using R empty_of_same [OF R(2)] empty_of_erased(1) by (simp add: sealed_def)
  then have sealed: "sealed K (es_scope c) u" using platform_sealed [OF assms(1,2,9)] by simp
  have "(platform_step E F verifier)\<^sup>*\<^sup>* s u"
    by (rule converse_rtranclp_into_rtranclp [OF _ assms(9)]) (rule p_erase [OF assms(6)])
  then have "node_ok E K u" if "digests_ok E" "service_ok (pf_service F)" "ids_fresh E (nd_world u)"
    by (rule platform_keeps [OF assms(1-4) that(1,2) assms(5) _ that(3)])
  then have "world_ok E (nd_world u)" if "digests_ok E" "service_ok (pf_service F)" "ids_fresh E (nd_world u)"
    using node_okD(2) system_okD(1) that by blast
  then show ?thesis using sealed world_no_data by (auto simp: sealed_def)
qed

definition ids_kept :: "'z node_scheme \<Rightarrow> 'z node_scheme \<Rightarrow> bool" where
  "ids_kept s t \<longleftrightarrow> w_ids (nd_world t) = w_ids (nd_world s)"

interpretation keeping: state_relation ids_kept
  by unfold_locales (auto simp: ids_kept_def)

lemma kept_ids:
  "obeys ids_kept (on_gov g)" "obeys ids_kept (on_world (now E))" "obeys ids_kept (on_world (service_erase_scope sv sc))"
  by (auto simp: obeys_def ids_kept_def on_gov_def on_world_def now_def erase_ids split: prod.split)

lemma erase_id_use:
  fixes s :: "'z node_scheme"
  shows "w_ids (nd_world (snd (erase E P c who s))) = w_ids (nd_world s) + 2"
proof -
  have "obeys (ids_kept :: 'z node_scheme \<Rightarrow> 'z node_scheme \<Rightarrow> bool) (pbind (on_gov (begin_erasure (pv_conf P) i j (es_scope c) (es_reason_code c)
      (pv_policy_version P) who (es_idempotency_key c) t)) (\<lambda>request.
     if er_status request = ES_COMPLETED then return request
     else catch (run_erasure E P c request) (\<lambda>e.
       pbind (on_gov (fail_erasure (pv_conf P) (es_scope c) (er_id request) (uc (error_name e)))) (\<lambda>_.
       throw (GovernanceUnavailableError
         ''erasure remains pending because a required handler failed'')))))" for i j t
    unfolding run_erasure_def by (intro keeping.obeys_intros kept_ids)
  then show ?thesis by (simp add: erase_def obeys_def ids_kept_def)
qed

lemma sample_erase_run:
  "\<exists>q t. ax_erase sample_env sample_platform sample_invocation sample_erase (sample_node sample_remembered) = (Inr q, t) \<and>
     w_ids (nd_world t) \<le> 9"
proof -
  let ?by = "ac_principal_id (iv_actor sample_invocation)"
  obtain u where u: "waiting (sample_node sample_remembered) u" "w_ids (nd_world u) \<le> 7"
    and run: "ax_erase sample_env sample_platform sample_invocation sample_erase (sample_node sample_remembered) =
      erase sample_env sample_privacy sample_erase ?by u"
    unfolding ax_erase_def
    by (rule governed_served [OF sample_invocation_ok sample_platform_fields(1), where E = sample_env
          and s = "sample_node sample_remembered" and action = GOVERNANCE_ERASURE_APPROVE
          and sc = "es_scope sample_erase" and i = None and m = "\<lambda>P. erase sample_env P sample_erase ?by"])
       (auto simp: sample_erase_fields sample_permitted sample_remembered_fields)
  have gov: "nd_gov u = nd_gov (sample_node sample_remembered)" using u(1) by (simp add: waiting_def)
  have "\<exists>q t. erase sample_env sample_privacy sample_erase ?by u = (Inr q, t)"
    using erase_answers [OF sample_platform_fields(2) sample_hmac sample_erase_fields(5)
        waiting_ok [OF sample_node_ok u(1)] _ sample_erase_fields(2,4,3), of ?by] u(2) gov sample_erase_fields(6)
    by auto
  then show ?thesis using run u(2) erase_id_use [of sample_env sample_privacy sample_erase ?by u] by auto
qed

theorem erased_stays_erased_witness:
  "\<exists>q t. ax_erase sample_env sample_platform sample_invocation sample_erase (sample_node sample_remembered) = (Inr q, t) \<and>
     fenced sample_conf (nd_gov t) sample_scope \<and> no_data sample_scope (nd_world t)"
proof -
  obtain q t where run: "ax_erase sample_env sample_platform sample_invocation sample_erase
      (sample_node sample_remembered) = (Inr q, t)" "w_ids (nd_world t) \<le> 9" using sample_erase_run by blast
  show ?thesis
    using erased_stays_erased [OF sample_platform_fields(1,2) sample_hmac sample_erase_fields(5) sample_node_ok run(1) _ _
        rtranclp.rtrancl_refl] run sample_erase_fields(1) sample_digests sample_service_ok
    by (auto simp: erasure_of_def)
qed

subsection \<open>The invariant of the platform\<close>

text \<open>
  C13: The platform stays well-formed whatever it is asked: with a keyed hash that gives text and fresh
  ids, every state reached by use cases of any callers, successful or not, keeps the invariant of all
  memory planes and of the governance records (grants and requests under their ids, keys that lead to
  them, completed requests with their evidence, a fence for every request).
\<close>

theorem platform_stays_ok:
  assumes "pf_privacy F = Some P" "pv_conf P = K" "hmac_ok K" "errors_named (pv_service P)"
    and "digests_ok E" "service_ok (pf_service F)" "node_ok E K s"
    and "(platform_step E F verifier)\<^sup>*\<^sup>* s t" "ids_fresh E (nd_world t)"
  shows "system_ok E (nd_world t) \<and> governance_ok K (nd_gov t)"
  using platform_keeps [OF assms] by (simp add: node_ok_def)

lemma sample_empty_node_ok: "node_ok sample_env sample_conf (sample_node sample_world)"
  using node_okD(1) [OF sample_node_ok] sample_world_ok(1) by (simp add: node_ok_def requests_issued_def sample_node_def)

theorem platform_stays_ok_witness:
  "\<exists>t. (platform_step sample_env sample_platform (\<lambda>_ _. Inr ()))\<^sup>*\<^sup>* (sample_node sample_world) t \<and>
     s_revisions (nd_world t) \<noteq> [] \<and> system_ok sample_env (nd_world t)"
proof -
  obtain x t where run: "ax_remember_preference sample_env sample_platform sample_invocation sample_remember
      (sample_node sample_world) = (Inr x, t)" "w_ids (nd_world t) \<le> 7" "s_revisions (nd_world t) \<noteq> []"
    using sample_remember_served by blast
  have reach: "(platform_step sample_env sample_platform (\<lambda>_ _. Inr ()))\<^sup>*\<^sup>* (sample_node sample_world) t"
    using p_remember [OF sample_remember_ok(1) run(1)] by (rule r_into_rtranclp)
  show ?thesis
    using platform_stays_ok [OF sample_platform_fields(1,2) sample_hmac sample_erase_fields(5) sample_digests _
        sample_empty_node_ok reach] reach run sample_service_ok by auto
qed

end
