(* ===== verification/HttpCorrect.thy ===== *)
theory HttpCorrect
  imports Http GovernanceProperties
begin

text \<open>
  How a request over HTTP relates to the use cases: an endpoint either fails while it builds its command, or runs
  exactly one use case, on the scope and for the purpose of the request, as the caller that was authenticated.
\<close>

subsection \<open>What a call asks for\<close>

fun call_action :: "api_call \<Rightarrow> memory_action" where
  "call_action (WritePreference _) = EVIDENCE_INGEST"
| "call_action (CorrectPreference _ _) = BELIEF_CORRECT"
| "call_action (ListPreferences _) = BELIEF_READ_CURRENT"
| "call_action (PreferenceHistory _ _) = BELIEF_READ_HISTORY"
| "call_action (Recall _) = PROJECTION_RECALL"
| "call_action (ProjectContext _) = PROJECTION_COMPRESS"
| "call_action (WriteUsage _) = EXPERIENCE_USAGE_WRITE"
| "call_action (WriteOutcome _) = EXPERIENCE_OUTCOME_WRITE"
| "call_action (IssueGrant _) = GOVERNANCE_POLICY_MANAGE"
| "call_action (RevokeGrant _ _) = GOVERNANCE_POLICY_MANAGE"
| "call_action (SuppressScope _) = GOVERNANCE_PRIVACY_SUPPRESS"
| "call_action (EraseSubject _) = GOVERNANCE_ERASURE_APPROVE"
| "call_action (ErasureReceipt _ _) = GOVERNANCE_ERASURE_APPROVE"

text \<open>The tenant, the subject and the purpose a call names.\<close>

fun call_target :: "api_call \<Rightarrow> ustr \<times> ustr \<times> ustr" where
  "call_target (WritePreference p) = (pw_tenant_id p, pw_subject_id p, pw_purpose p)"
| "call_target (CorrectPreference _ p) = (pc_tenant_id p, pc_subject_id p, pc_purpose p)"
| "call_target (ListPreferences q) = (sq_tenant_id q, sq_subject_id q, sq_purpose q)"
| "call_target (PreferenceHistory _ q) = (sq_tenant_id q, sq_subject_id q, sq_purpose q)"
| "call_target (Recall p) = (rr_tenant_id p, rr_subject_id p, rr_purpose p)"
| "call_target (ProjectContext p) = (cq_tenant_id p, cq_subject_id p, cq_purpose p)"
| "call_target (WriteUsage p) = (uw_tenant_id p, uw_subject_id p, uw_purpose p)"
| "call_target (WriteOutcome p) = (ow_tenant_id p, ow_subject_id p, ow_purpose p)"
| "call_target (IssueGrant p) = (gw_tenant_id p, gw_subject_id p, gw_purpose p)"
| "call_target (RevokeGrant _ p) = (gx_tenant_id p, gx_subject_id p, gx_purpose p)"
| "call_target (SuppressScope p) = (cw_tenant_id p, cw_subject_id p, cw_purpose p)"
| "call_target (EraseSubject p) = (cw_tenant_id p, cw_subject_id p, cw_purpose p)"
| "call_target (ErasureReceipt _ q) = (sq_tenant_id q, sq_subject_id q, sq_purpose q)"

text \<open>The use case \<open>u\<close>, invoked by \<open>iv\<close>, is the one the call asks for.\<close>

definition asks_for :: "actor_context \<Rightarrow> ustr \<Rightarrow> api_call \<Rightarrow> invocation_context \<Rightarrow> use_case \<Rightarrow> bool" where
  "asks_for actor rid call iv u \<longleftrightarrow> (case call_target call of (tenant, subject, purpose) \<Rightarrow>
     mk_invocation actor purpose rid = Inr iv \<and> mk_scope tenant subject = Inr (case_scope u)) \<and>
     case_action u = call_action call \<and>
     (\<forall>c. u = Remembering c \<longrightarrow> remember_wf c) \<and> (\<forall>c. u = Correcting c \<longrightarrow> correct_wf c)"

subsection \<open>An endpoint runs its use case\<close>

definition serves ::
  "env \<Rightarrow> platform \<Rightarrow> (invocation_context \<Rightarrow> use_case \<Rightarrow> bool) \<Rightarrow> (authorized_node, body) prog \<Rightarrow> bool" where
  "serves E F Q m \<longleftrightarrow> (\<forall>s r t. m s = (r, t) \<longrightarrow>
     (\<exists>m. r = Inl (DomainError m) \<and> waiting s t) \<or>
     (\<exists>iv u v x. Q iv u \<and> waiting s v \<and> run_case E F iv u v = (x, t) \<and>
        (case r of Inl e \<Rightarrow> x = Inl e | Inr b \<Rightarrow> x = Inr ())))"

lemma servesD:
  assumes "serves E F Q m" "m s = (r, t)"
  obtains m' where "r = Inl (DomainError m')" "waiting s t"
  | iv u v where "Q iv u" "waiting s v" "run_case E F iv u v = (map_sum id (\<lambda>_. ()) r, t)"
proof -
  have "(\<exists>m. r = Inl (DomainError m) \<and> waiting s t) \<or>
     (\<exists>iv u v x. Q iv u \<and> waiting s v \<and> run_case E F iv u v = (x, t) \<and>
        (case r of Inl e \<Rightarrow> x = Inl e | Inr b \<Rightarrow> x = Inr ()))"
    using assms unfolding serves_def by blast
  then show thesis
  proof (elim disjE exE conjE)
    fix iv u v x
    assume case_run: "Q iv u" "waiting s v" "run_case E F iv u v = (x, t)"
      and x: "case r of Inl e \<Rightarrow> x = Inl e | Inr b \<Rightarrow> x = Inr ()"
    from x have "x = map_sum id (\<lambda>_. ()) r" by (cases r) simp_all
    then show thesis using that(2) case_run by blast
  qed (rule that(1))
qed

text \<open>The constructors of the commands refuse with a domain error.\<close>

abbreviation validates :: "'a res \<Rightarrow> bool" where "validates \<equiv> raises_in (range DomainError)"

lemma validates_basic:
  "validates (require_text v f)" "validates (require_utc t f)" "validates (mk_scope a b)" "validates (mk_context fs)"
  unfolding require_text_def require_utc_def mk_scope_def mk_context_def require_facet_def Let_def
  by (intro raises_basic raises_cases rangeI)+

lemma validates_commands:
  "validates (mk_invocation ac pu ri)" "validates (from_mapping mp)" "validates (mk_remember sc a b c d e f g h)"
  "validates (mk_correct sc i j k l m n p q)" "validates (mk_recall sc r s t u v)"
  "validates (mk_record_outcome sc ti vi kd ky oc ui wt nt)" "validates (mk_project_context sc ti al bu)"
  "validates (mk_record_usage sc ti al bu ss ds rs ky oc)" "validates (mk_issue_command sc ps bs ky vf vu)"
  "validates (mk_suppress_command sc rc ky)" "validates (mk_erase_command sc rc ky)"
  unfolding mk_invocation_def from_mapping_def mk_remember_def mk_correct_def mk_recall_def mk_record_outcome_def
    mk_project_context_def mk_record_usage_def mk_issue_command_def mk_suppress_command_def mk_erase_command_def
    canonical_purposes_def
  by (intro raises_basic raises_cases rangeI validates_basic)+

lemma serves_lift:
  assumes "validates m" "\<And>x. m = Inr x \<Longrightarrow> serves E F Q (f x)"
  shows "serves E F Q (pbind (lift_res m) f)"
proof (cases m)
  case (Inl e)
  then obtain c where "e = DomainError c" using assms(1) by (auto simp: raises_in_def)
  then show ?thesis using Inl by (auto simp: serves_def pbind_def wait.R_refl)
next
  case (Inr x)
  then have "pbind (lift_res m) f = f x" by (simp add: fun_eq_iff pbind_def)
  then show ?thesis using assms(2) [OF Inr] by simp
qed

lemma waiting_now: "waiting s (s\<lparr>nd_world := (nd_world s)\<lparr>w_ticks := n\<rparr>\<rparr>)"
  by (simp add: waiting_def same_store_def store.defs)

lemma serves_waiting:
  assumes "waiting s s'" "serves E F Q m" "m s' = (r, t)"
  shows "(\<exists>m. r = Inl (DomainError m) \<and> waiting s t) \<or>
     (\<exists>iv u v x. Q iv u \<and> waiting s v \<and> run_case E F iv u v = (x, t) \<and>
        (case r of Inl e \<Rightarrow> x = Inl e | Inr b \<Rightarrow> x = Inr ()))"
  using assms(2,3) wait.R_trans [OF assms(1)] unfolding serves_def by blast

lemma serves_clock: "(\<And>x. serves E F Q (f x)) \<Longrightarrow> serves E F Q (pbind (occurred_at E' given) f)"
proof -
  assume f: "\<And>x. serves E F Q (f x)"
  show ?thesis
  proof (cases given)
    case None
    have "pbind (occurred_at E' given) f s = f (utc (e_clock E' (w_ticks (nd_world s))))
        (s\<lparr>nd_world := (nd_world s)\<lparr>w_ticks := Suc (w_ticks (nd_world s))\<rparr>\<rparr>)" for s
      by (simp add: occurred_at_def None pbind_assoc)
    then show ?thesis unfolding serves_def using serves_waiting [OF waiting_now f] by metis
  next
    case (Some t)
    then have "pbind (occurred_at E' given) f = f t" by (simp add: occurred_at_def fun_eq_iff pbind_def)
    then show ?thesis using f by simp
  qed
qed

lemma serves_case: "Q iv u \<Longrightarrow> run_case E F iv u = forget m \<Longrightarrow> serves E F Q (pbind m (\<lambda>r. return (g r)))"
  unfolding serves_def
proof (intro allI impI disjI2)
  fix s r t
  assume Q: "Q iv u" and run: "run_case E F iv u = forget m" and eval: "pbind m (\<lambda>r. return (g r)) s = (r, t)"
  obtain y t' where y: "m s = (y, t')" by force
  have "run_case E F iv u s = (map_sum id (\<lambda>_. ()) r, t)"
    using eval unfolding run by (cases y) (auto simp: y pbind_def forget_def)
  moreover have "case r of Inl e \<Rightarrow> map_sum id (\<lambda>_. ()) r = Inl e | Inr b \<Rightarrow> map_sum id (\<lambda>_. ()) r = Inr ()"
    by (cases r) simp_all
  ultimately show "\<exists>iv u v x. Q iv u \<and> waiting s v \<and> run_case E F iv u v = (x, t) \<and>
      (case r of Inl e \<Rightarrow> x = Inl e | Inr b \<Rightarrow> x = Inr ())"
    using Q wait.R_refl by blast
qed

lemmas serves_intros = serves_lift serves_clock validates_basic validates_commands

lemma scopes_of_commands:
  "mk_remember sc a b c d e f g h = Inr rm \<Longrightarrow> rm_scope rm = sc"
  "mk_correct sc i j k l m n p q = Inr cp \<Longrightarrow> cp_scope cp = sc"
  "mk_recall sc r s t u v = Inr rc \<Longrightarrow> rc_scope rc = sc"
  "mk_record_outcome sc ti vi kd ky oc ui wt nt = Inr ro \<Longrightarrow> ro_scope ro = sc"
  "mk_project_context sc ti al bu = Inr pj \<Longrightarrow> pj_scope pj = sc"
  "mk_record_usage sc ti al bu ss ds is ky oc = Inr ru \<Longrightarrow> ru_scope ru = sc"
  "mk_issue_command sc ps bs ky vf vu = Inr ig \<Longrightarrow> ig_scope ig = sc"
  "mk_suppress_command sc rs ky = Inr sp \<Longrightarrow> sp_scope sp = sc"
  "mk_erase_command sc rs ky = Inr es \<Longrightarrow> es_scope es = sc"
  by (auto simp: mk_remember_def mk_correct_def mk_recall_def mk_record_outcome_def mk_project_context_def
      mk_record_usage_def mk_issue_command_def mk_suppress_command_def mk_erase_command_def res_simps)

lemmas asks_simps = asks_for_def scopes_of_commands mk_remember_wf mk_correct_wf

lemma endpoint_serves: "serves E F (asks_for actor rid call) (endpoint E F rid actor call)"
proof (cases call)
  case (WritePreference p)
  show ?thesis unfolding WritePreference endpoint.simps http_remember_preference_def
    by (intro serves_intros, rule serves_case [where u = "Remembering _"]) (simp_all add: asks_simps)
next
  case (CorrectPreference i p)
  show ?thesis unfolding CorrectPreference endpoint.simps http_correct_preference_def
    by (intro serves_intros, rule serves_case [where u = "Correcting _"]) (simp_all add: asks_simps)
next
  case (ListPreferences q)
  show ?thesis unfolding ListPreferences endpoint.simps http_list_preferences_def
    by (intro serves_intros, rule serves_case [where u = "Listing _"]) (simp_all add: asks_simps)
next
  case (PreferenceHistory i q)
  show ?thesis unfolding PreferenceHistory endpoint.simps http_preference_history_def
    by (intro serves_intros, rule serves_case [where u = "ReadingHistory _ _"]) (simp_all add: asks_simps)
next
  case (Recall p)
  show ?thesis unfolding Recall endpoint.simps http_recall_def
    by (intro serves_intros, rule serves_case [where u = "Recalling _"]) (simp_all add: asks_simps)
next
  case (ProjectContext p)
  show ?thesis unfolding ProjectContext endpoint.simps http_project_recall_context_def
    by (intro serves_intros, rule serves_case [where u = "Projecting _"]) (simp_all add: asks_simps)
next
  case (WriteUsage p)
  show ?thesis unfolding WriteUsage endpoint.simps http_record_usage_def
    by (intro serves_intros, rule serves_case [where u = "Reporting _"]) (simp_all add: asks_simps)
next
  case (WriteOutcome p)
  show ?thesis unfolding WriteOutcome endpoint.simps http_record_outcome_def
    by (intro serves_intros, rule serves_case [where u = "Judging _"]) (simp_all add: asks_simps)
next
  case (IssueGrant p)
  show ?thesis unfolding IssueGrant endpoint.simps http_issue_grant_def
    by (intro serves_intros, rule serves_case [where u = "Granting _"]) (simp_all add: asks_simps)
next
  case (RevokeGrant i p)
  show ?thesis unfolding RevokeGrant endpoint.simps http_revoke_grant_def
    by (intro serves_intros, rule serves_case [where u = "Revoking _"]) (simp_all add: asks_simps)
next
  case (SuppressScope p)
  show ?thesis unfolding SuppressScope endpoint.simps http_suppress_def
    by (intro serves_intros, rule serves_case [where u = "Suppressing _"]) (simp_all add: asks_simps)
next
  case (EraseSubject p)
  show ?thesis unfolding EraseSubject endpoint.simps http_erase_def
    by (intro serves_intros, rule serves_case [where u = "Erasing _"]) (simp_all add: asks_simps)
next
  case (ErasureReceipt i q)
  show ?thesis unfolding ErasureReceipt endpoint.simps http_erasure_receipt_def
    by (intro serves_intros, rule serves_case [where u = "ReadingErasure _ _"]) (simp_all add: asks_simps)
qed

subsection \<open>The response\<close>

lemma failure_code: "400 \<le> hr_status (failure_response rid e)"
  by (cases e) (simp_all add: failure_response_def internal_error_def plain_response_def)

lemma success_code_range: "success_code c < 300"
  by (cases c) simp_all

lemma too_large_code [simp]: "hr_status (too_large_response rid limit) = 413"
  by (simp add: too_large_response_def plain_response_def)

text \<open>
  The ways a request ends: refused at the door, refused while the command is built, or served by one use case of
  the authenticated caller.
\<close>

lemma handle_http_cases:
  assumes "handle_http E A fresh q s = (r, t)"
  obtains
    (too_large) "t = s" "hr_status r = 413"
  | (unknown) e where "ap_identity A (hq_token q) = Inl e" "t = s"
      "hr_status r = hr_status (failure_response (request_id (hq_request_id q) fresh) e)"
      "hr_body r = hr_body (failure_response (request_id (hq_request_id q) fresh) e)"
  | (invalid) actor where "ap_identity A (hq_token q) = Inr actor" "valid_call (ap_trim A) (hq_call q) = None"
      "t = s" "hr_status r = 422"
  | (refused) actor call where "ap_identity A (hq_token q) = Inr actor" "valid_call (ap_trim A) (hq_call q) = Some call"
      "waiting s t" "hr_status r = 400"
  | (served) actor call iv u v x where "ap_identity A (hq_token q) = Inr actor"
      "valid_call (ap_trim A) (hq_call q) = Some call" "asks_for actor (request_id (hq_request_id q) fresh) call iv u"
      "waiting s v" "run_case E (ap_platform A) iv u v = (x, t)"
      "case x of Inr _ \<Rightarrow> hr_status r = success_code call
       | Inl e \<Rightarrow> hr_status r = hr_status (failure_response (request_id (hq_request_id q) fresh) e) \<and>
           hr_body r = hr_body (failure_response (request_id (hq_request_id q) fresh) e)"
proof -
  let ?rid = "request_id (hq_request_id q) fresh"
  obtain r0 where r0: "hr_status r = hr_status r0" "hr_body r = hr_body r0"
    and cases: "(r0, t) = (too_large_response ?rid (ap_max_body_bytes A), s) \<or> (r0, t) = respond E A ?rid (hq_token q) (hq_call q) s"
  proof -
    let ?p = "if (\<exists>n. content_length (e_db E) (hq_content_length q) = Some n \<and> ap_max_body_bytes A < n)
       then (too_large_response ?rid (ap_max_body_bytes A), s)
       else if has_body (hq_call q) \<and> \<not> body_fits (ap_max_body_bytes A) 0 (hq_body_sizes q)
       then (too_large_response ?rid (ap_max_body_bytes A), s)
       else respond E A ?rid (hq_token q) (hq_call q) s"
    obtain r0 t0 where p: "?p = (r0, t0)" by force
    have "r = r0\<lparr>hr_headers := runtime_headers ?rid (hr_headers r0)\<rparr>" "t0 = t"
      using assms unfolding handle_http_def Let_def p by simp_all
    moreover have "?p = (too_large_response ?rid (ap_max_body_bytes A), s) \<or> ?p = respond E A ?rid (hq_token q) (hq_call q) s"
      by simp
    ultimately show thesis using that [of r0] p by simp
  qed
  from cases show thesis
  proof
    assume "(r0, t) = (too_large_response ?rid (ap_max_body_bytes A), s)"
    then show thesis using too_large r0 by simp
  next
    assume resp: "(r0, t) = respond E A ?rid (hq_token q) (hq_call q) s"
    show thesis
    proof (cases "ap_identity A (hq_token q)")
      case (Inl e)
      then show thesis using resp r0 unknown [OF Inl] by (simp add: respond_def)
    next
      case (Inr actor)
      note actor = Inr
      show thesis
      proof (cases "valid_call (ap_trim A) (hq_call q)")
        case None
        then show thesis using resp r0 actor invalid [OF actor None] by (simp add: respond_def plain_response_def)
      next
        case (Some call)
        obtain y where y: "endpoint E (ap_platform A) ?rid actor call s = (y, t)"
          and r: "r0 = (case y of Inl e \<Rightarrow> failure_response ?rid e | Inr b \<Rightarrow> plain_response (success_code call) b)"
          using resp actor Some by (auto simp: respond_def split: prod.splits sum.splits)
        from endpoint_serves y show thesis
        proof (cases rule: servesD)
          case (1 m)
          then show thesis
            using refused [OF actor Some] r r0 by (simp add: failure_response_def plain_response_def)
        next
          case (2 iv u v)
          then show thesis
            using served [OF actor Some 2] r r0 by (cases y) (simp_all add: plain_response_def)
        qed
      qed
    qed
  qed
qed

subsection \<open>Who asks for what\<close>

definition target_scope :: "api_call \<Rightarrow> scope" where
  "target_scope call = \<lparr>tenant_id = strip (fst (call_target call)), subject_id = strip (fst (snd (call_target call)))\<rparr>"

definition target_purpose :: "api_call \<Rightarrow> ustr" where
  "target_purpose call = strip (snd (snd (call_target call)))"

lemma asks_forD:
  assumes "asks_for actor rid call iv u"
  shows "iv_actor iv = actor" "iv_purpose iv = target_purpose call" "case_scope u = target_scope call"
    "case_action u = call_action call" "stripped (iv_purpose iv)" "stripped (iv_request_id iv)"
    "u = Remembering rm \<Longrightarrow> remember_wf rm" "u = Correcting cp \<Longrightarrow> correct_wf cp"
  using assms
  by (auto simp: asks_for_def mk_invocation_def mk_scope_def require_text_def Let_def res_simps target_scope_def
      target_purpose_def split: prod.splits intro: strip_stripped)

lemma asks_for_ok:
  "asks_for actor rid call iv u \<Longrightarrow> strip (pf_policy_version F) \<noteq> [] \<Longrightarrow> invocation_ok F iv"
  using asks_forD(5,6) by (auto simp: invocation_ok_def)

lemma asks_for_memory:
  "asks_for actor rid call iv u \<Longrightarrow> reads_or_writes_memory u \<longleftrightarrow> action_plane (call_action call) \<noteq> P_GOVERNANCE"
  by (simp add: reads_or_writes_memory_def asks_forD)

subsection \<open>What stays\<close>

definition data_unchanged :: "'z node_scheme \<Rightarrow> 'z node_scheme \<Rightarrow> bool" where
  "data_unchanged s t \<longleftrightarrow> nd_gov t = nd_gov s \<and> store.truncate (nd_world t) = store.truncate (nd_world s)"

lemma unchanged_refl [simp]: "data_unchanged s s"
  and unchanged_trans: "data_unchanged s t \<Longrightarrow> data_unchanged t u \<Longrightarrow> data_unchanged s u"
  by (simp_all add: data_unchanged_def)

lemma unchanged_waiting: "waiting s t \<Longrightarrow> data_unchanged s t"
  by (simp add: data_unchanged_def waiting_def same_store_def)

text \<open>A use case is a step of the platform.\<close>

lemma run_case_step:
  assumes "run_case E F iv u s = (x, t)" "\<And>c. u = Remembering c \<Longrightarrow> remember_wf c" "\<And>c. u = Correcting c \<Longrightarrow> correct_wf c"
  shows "platform_step E F verifier s t"
proof -
  have ends: "\<exists>y. m s = (y, t)" if "forget m s = (x, t)" for m :: "(authorized_node, 'a) prog"
    using that forget_state [of m s] by (cases "m s") simp
  show ?thesis
    using assms by (cases u) (auto dest!: ends intro: platform_step.intros)
qed

text \<open>A use case on memory that fails changes no data.\<close>

lemma failing_commands:
  "remember_preference E rm w = (Inl e, w') \<Longrightarrow> same_store w w'" "correct_preference E cp w = (Inl e, w') \<Longrightarrow> same_store w w'"
  "record_usage E ru w = (Inl e, w') \<Longrightarrow> same_store w w'" "record_outcome E ro w = (Inl e, w') \<Longrightarrow> same_store w w'"
  "list_preferences E sc w = (Inl e, w') \<Longrightarrow> same_store w w'" "asks q w = (Inl e, w') \<Longrightarrow> same_store w w'"
  using aside_commands [of E] obeysD [OF same_store_list] obeysD [OF counters.obeys_asks]
  unfolding remember_preference_def correct_preference_def record_usage_def record_outcome_def
  by (blast intro: rolled_back)+

lemma guarded_fails:
  assumes "forget (guarded E F iv a sc i m) s = (Inl e, t)" "pf_privacy F = Some P"
    and m: "\<And>w e w'. m w = (Inl e, w') \<Longrightarrow> same_store w w'"
  shows "data_unchanged s t"
  using guarded_node [OF assms(1) [unfolded forget_Inl] assms(2)]
proof
  assume "\<exists>u. waiting s u \<and> \<not> fenced (pv_conf P) (nd_gov s) sc \<and> on_world m u = (Inl e, t)"
  then obtain u where u: "waiting s u" "on_world m u = (Inl e, t)" by blast
  then have "same_store (nd_world u) (nd_world t)" "nd_gov t = nd_gov u"
    using m by (auto simp: on_world_def split: prod.splits)
  then have "data_unchanged u t" by (simp add: data_unchanged_def same_store_def)
  then show ?thesis by (rule unchanged_trans [OF unchanged_waiting [OF u(1)]])
qed (rule unchanged_waiting)

lemma failing_memory_use:
  assumes run: "run_case E F iv u s = (Inl e, t)" and memory: "reads_or_writes_memory u" and privacy: "pf_privacy F = Some P"
  shows "data_unchanged s t"
  using memory run
  by (cases u) (auto simp: reads_or_writes_memory_def ax_remember_preference_def ax_correct_preference_def ax_recall_def
      ax_record_outcome_def ax_record_usage_def ax_project_recall_context_def ax_history_def ax_list_preferences_def
      elim!: guarded_fails [OF _ privacy] intro: failing_commands recall_failed)

end
