(* ===== verification/HttpSample.thy ===== *)
theory HttpSample
  imports HttpCorrect
begin

text \<open>A sample deployment over HTTP: a token library that knows one good token, and requests on two subjects.\<close>

definition sample_claims :: jdict where
  "sample_claims =
     [(uc ''sub'', VText (uc ''p'')), (uc ''scope'', VText (uc ''memory'')),
      (uc ''memory_access'', VList [VDict
        [(uc ''tenant_id'', VText (uc ''t'')), (uc ''subject_ids'', VList [VText (uc ''s'')]),
         (uc ''roles'', VList [VText (uc ''memory_operator'')]), (uc ''purposes'', VList [VText (uc ''care'')])]])]"

definition sample_jwt :: "unit jwt_library" where
  "sample_jwt = \<lparr>jl_header = (\<lambda>_. Inr [(uc ''typ'', VText (uc ''at+jwt''))]), jl_key_for = (\<lambda>_. Inr ()),
     jl_decode = (\<lambda>token _ _ _ _. if token = uc ''good'' then Inr sample_claims
       else Inl (ExternalError ''InvalidSignatureError''))\<rparr>"

definition sample_resolver :: jwt_resolver where
  "sample_resolver = \<lparr>jw_issuer = uc ''i'', jw_audience = uc ''a'', jw_algorithms = [uc ''RS256''],
     jw_required_scope = uc ''memory''\<rparr>"

definition sample_api :: api where
  "sample_api = \<lparr>ap_platform = sample_platform, ap_identity = jwt_authenticate sample_jwt sample_resolver,
     ap_trim = strip, ap_max_body_bytes = 1048576\<rparr>"

definition sample_caller :: actor_context where
  "sample_caller = \<lparr>ac_principal_id = uc ''p'', ac_kind = USER,
     ac_grants = [\<lparr>ag_tenant_id = uc ''t'', ag_subject_ids = [uc ''s''], ag_roles = [uc ''memory_operator''],
       ag_purposes = [uc ''care'']\<rparr>],
     ac_authentication_method = uc ''oauth2_jwt'', ac_client_id = None, ac_token_id = None\<rparr>"

lemmas text_eval = strip_def strip_while_def is_space_def

lemma sample_authenticated: "jwt_authenticate sample_jwt sample_resolver (Some (uc ''good'')) = Inr sample_caller"
  by (simp add: jwt_authenticate_def jwt_claims_def sample_jwt_def check_token_type_def get_field_def raise_if_def
      sample_claims_def sample_resolver_def actor_from_claims_def required_text_claim_def scope_claim_def
      access_grant_claim_def text_list_claim_def text_item_def valid_grant_def mk_access_grant_def normalized_values_def
      require_text_def explicit_grant_def star_def principal_kind_claim_def get_default_def optional_text_claim_def
      mk_actor_def sample_caller_def text_eval)

lemma sample_token_refused: "jwt_authenticate sample_jwt sample_resolver (Some (uc ''bad'')) =
    Inl (AuthenticationError ''access token validation failed'')"
  by (simp add: jwt_authenticate_def jwt_claims_def sample_jwt_def check_token_type_def get_field_def raise_if_def)

definition sample_body :: preference_write where
  "sample_body = \<lparr>pw_tenant_id = uc ''t'', pw_subject_id = uc ''s'', pw_source = uc ''chat'',
     pw_idempotency_key = uc ''k1'', pw_key = uc ''drink'', pw_value = uc ''tea'',
     pw_context = [(uc ''k'', uc ''v'')], pw_evidence_text = uc ''i like tea'', pw_confidence = 1/2,
     pw_purpose = uc ''care'', pw_occurred_at = Some (utc 0)\<rparr>"

definition sample_request :: "string \<Rightarrow> api_call \<Rightarrow> http_request" where
  "sample_request token call = \<lparr>hq_request_id = Some (uc ''r1''), hq_content_length = None, hq_body_sizes = [200],
     hq_token = Some (uc token), hq_call = call\<rparr>"

definition sample_call :: api_call where "sample_call = WritePreference sample_body"

definition foreign_call :: api_call where
  "foreign_call = ListPreferences \<lparr>sq_tenant_id = uc ''t'', sq_subject_id = uc ''o'', sq_purpose = uc ''care''\<rparr>"

lemma sample_valid: "valid_call strip sample_call = Some sample_call" "valid_call strip foreign_call = Some foreign_call"
  by (simp_all add: sample_call_def foreign_call_def valid_preference_write_def valid_scope_query_def sample_body_def
      text_field_def sized_def text_eval max_lengths context_field_def facet_field_def confidence_field_def)

lemma sample_targets:
  "target_scope sample_call = sample_scope" "target_purpose sample_call = uc ''care''"
  "target_scope foreign_call = other_scope"
  by (simp_all add: target_scope_def target_purpose_def sample_call_def foreign_call_def sample_body_def sample_scope_def
      other_scope_def text_eval)

lemma sample_request_id: "request_id (Some (uc ''r1'')) fresh = uc ''r1''"
  by (simp add: request_id_def request_id_ok_def is_alnum_def)

definition caller_invocation :: invocation_context where
  "caller_invocation = \<lparr>iv_actor = sample_caller, iv_purpose = uc ''care'', iv_request_id = uc ''r1''\<rparr>"

lemma sample_command:
  "mk_scope (uc ''t'') (uc ''s'') = Inr sample_scope" "mk_invocation sample_caller (uc ''care'') (uc ''r1'') = Inr caller_invocation"
  "from_mapping (Some [(uc ''k'', uc ''v'')]) = Inr sample_context"
  "mk_remember sample_scope (uc ''chat'') (uc ''k1'') (uc ''drink'') (uc ''tea'') sample_context (uc ''i like tea'') (1/2) (utc 0) =
     Inr sample_remember"
  by (simp_all add: mk_scope_def require_text_def raise_if_def sample_scope_def mk_invocation_def caller_invocation_def
      from_mapping_def mk_context_def require_facet_def sample_context_def mk_remember_def require_utc_def utc_def
      sample_remember_def text_eval Let_def dict_of_def)

lemma caller_invocation_ok: "invocation_ok sample_platform caller_invocation"
  using sample_invocation_ok by (simp add: invocation_ok_def caller_invocation_def sample_invocation_def stripped_def is_space_def)

lemma sample_written:
  obtains r t where "handle_http sample_env sample_api fresh (sample_request ''good'' sample_call) (sample_node sample_world) = (r, t)"
    "hr_status r = 201" "s_revisions (nd_world t) \<noteq> []" "w_ids (nd_world t) \<le> 7"
proof -
  have "permitted sample_platform caller_invocation EVIDENCE_INGEST sample_scope"
    by (simp add: permitted_def caller_invocation_def sample_caller_def covers_def sample_scope_def permits_purpose_def
        role_allows_def sample_platform_def role_permissions_def)
  moreover have "admitted sample_platform caller_invocation sample_scope (e_clock sample_env n) (nd_gov (sample_node sample_world))" for n
    using sample_admitted [of "e_clock sample_env n" sample_world]
    by (simp add: admitted_def caller_invocation_def sample_invocation_def sample_env_def)
  ultimately obtain u where u: "waiting (sample_node sample_world) u" "w_ids (nd_world u) \<le> Suc 0"
    and run: "guarded sample_env sample_platform caller_invocation EVIDENCE_INGEST sample_scope None
      (remember_preference sample_env sample_remember) (sample_node sample_world) =
      on_world (remember_preference sample_env sample_remember) u"
    by (rule guarded_served [OF caller_invocation_ok sample_platform_fields(1,3)]) (auto simp: sample_world_fields)
  have "same_store sample_world (nd_world u)" using u(1) by (simp add: waiting_def)
  then have w: "s_observation_keys (nd_world u) = []" "s_record_identity (nd_world u) = []"
    using sample_world_fields by (simp_all add: same_store_fields)
  have ax: "ax_remember_preference sample_env sample_platform caller_invocation sample_remember (sample_node sample_world) =
      (Inr (result_of (staged_candidate sample_env (remember_request sample_remember) (nd_world u))
        (first_of sample_env sample_remember (nd_world u))), u\<lparr>nd_world := first_world sample_env sample_remember (nd_world u)\<rparr>)"
    using run first_remember [OF sample_remember_ok(2,1), of "nd_world u" sample_env] w
    by (simp add: ax_remember_preference_def sample_remember_def on_world_def)
  have "endpoint sample_env sample_platform (uc ''r1'') sample_caller sample_call (sample_node sample_world) =
      (Inr (PreferenceBody (preference_response_of (result_of
        (staged_candidate sample_env (remember_request sample_remember) (nd_world u))
        (first_of sample_env sample_remember (nd_world u))))), u\<lparr>nd_world := first_world sample_env sample_remember (nd_world u)\<rparr>)"
    by (simp add: sample_call_def http_remember_preference_def sample_body_def sample_command pbind_def occurred_at_def ax
        del: uc_simps)
  then have "handle_http sample_env sample_api fresh (sample_request ''good'' sample_call) (sample_node sample_world) =
      (\<lparr>hr_status = 201, hr_headers = runtime_headers (uc ''r1'') [], hr_body = PreferenceBody (preference_response_of (result_of
        (staged_candidate sample_env (remember_request sample_remember) (nd_world u))
        (first_of sample_env sample_remember (nd_world u))))\<rparr>, u\<lparr>nd_world := first_world sample_env sample_remember (nd_world u)\<rparr>)"
    by (simp add: handle_http_def Let_def sample_request_def sample_api_def content_length_def respond_def sample_authenticated
        sample_valid sample_request_id plain_response_def del: uc_simps) (simp add: sample_call_def)
  moreover have "dict_set i x d \<noteq> []" for i x and d :: "(uuid, memory_revision) dict"
    by (cases d) auto
  ultimately show thesis using that u(2) by (simp add: first_world_fields)
qed

end
