(* ===== verification/HttpProperties.thy ===== *)
theory HttpProperties
  imports HttpSample
begin

text \<open>
  Properties of the service as it is reached over HTTP: a caller gets only what an explicit grant of a verified
  token allows, what lies outside the grants is concealed, requests that fail change nothing, and no
  sequence of requests breaks the platform.
\<close>

text \<open>
  C4: Over HTTP with JWT authentication, a request is only answered with success when its token was verified and
  carries the required API scope, and one grant of the token names the tenant, the subject and the
  purpose of the request explicitly, without wildcards, and has a role with the action; a request on memory was
  moreover not behind a suppression fence.
\<close>

theorem http_access_is_explicit:
  assumes "ap_identity A = jwt_authenticate J R" "pf_privacy (ap_platform A) = Some P"
    and "strip (pf_policy_version (ap_platform A)) \<noteq> []"
    and "handle_http E A fresh q s = (r, t)" "hr_status r < 400"
  shows "\<exists>token claims scopes actor call g. hq_token q = Some token \<and> jwt_claims J R token = Inr claims \<and>
    scope_claim (get_field claims ''scope'') = Inr scopes \<and> jw_required_scope R \<in> set scopes \<and>
    actor_from_claims claims (jw_required_scope R) = Inr actor \<and>
    valid_call (ap_trim A) (hq_call q) = Some call \<and> g \<in> set (ac_grants actor) \<and>
    ag_tenant_id g = tenant_id (target_scope call) \<and> subject_id (target_scope call) \<in> set (ag_subject_ids g) \<and>
    target_purpose call \<in> set (ag_purposes g) \<and>
    (\<exists>role \<in> set (ag_roles g). role_allows (pf_permissions (ap_platform A)) (call_action call) role) \<and>
    (action_plane (call_action call) \<noteq> P_GOVERNANCE \<longrightarrow> \<not> fenced (pv_conf P) (nd_gov s) (target_scope call))"
  using assms(4)
proof (cases rule: handle_http_cases)
  case (unknown e)
  then show ?thesis using assms(5) failure_code [of "request_id (hq_request_id q) fresh" e] by simp
next
  case (served actor call iv u v x)
  have x: "x = Inr ()"
    using served(6) assms(5) failure_code [of "request_id (hq_request_id q) fresh"] by (cases x) (auto simp: not_le [symmetric])
  obtain token claims where token: "hq_token q = Some token" "jwt_claims J R token = Inr claims"
    "actor_from_claims claims (jw_required_scope R) = Inr actor"
    using served(1) assms(1) by (auto simp: jwt_authenticate_def split: option.splits sum.splits)
  obtain scopes where "scope_claim (get_field claims ''scope'') = Inr scopes" "jw_required_scope R \<in> set scopes"
    using claims_actor [OF token(3)] by blast
  moreover obtain g where g: "g \<in> set (ac_grants actor)" "covers g (target_scope call)"
      "permits_purpose g (target_purpose call)"
      "\<exists>role \<in> set (ag_roles g). role_allows (pf_permissions (ap_platform A)) (call_action call) role"
    using run_case_permission [OF asks_for_ok [OF served(3) assms(3)] assms(2) served(5) [unfolded x]]
    by (auto simp: asks_forD [OF served(3)])
  moreover have "explicit_grant g" by (rule actor_explicit [OF token(3) g(1)])
  moreover have "\<not> fenced (pv_conf P) (nd_gov s) (target_scope call)" if "action_plane (call_action call) \<noteq> P_GOVERNANCE"
    using run_case_permission [OF asks_for_ok [OF served(3) assms(3)] assms(2) served(5) [unfolded x]] that served(4)
    by (simp add: asks_for_memory [OF served(3)] asks_forD [OF served(3)] waiting_def)
  ultimately show ?thesis using token served(2) by (auto simp: covers_explicit permits_explicit)
qed (use assms(5) in simp_all)

theorem http_access_is_explicit_witness:
  "\<exists>r t (g :: access_grant). handle_http sample_env sample_api [] (sample_request ''good'' sample_call) (sample_node sample_world) = (r, t) \<and>
     hr_status r = 201 \<and> uc ''s'' \<in> set (ag_subject_ids g) \<and> uc ''care'' \<in> set (ag_purposes g)"
proof -
  obtain r t where run: "handle_http sample_env sample_api [] (sample_request ''good'' sample_call) (sample_node sample_world) = (r, t)"
    "hr_status r = 201" by (rule sample_written)
  have A: "ap_identity sample_api = jwt_authenticate sample_jwt sample_resolver"
    "pf_privacy (ap_platform sample_api) = Some sample_privacy" by (simp_all add: sample_api_def)
  have V: "strip (pf_policy_version (ap_platform sample_api)) \<noteq> []"
    using caller_invocation_ok by (simp add: sample_api_def invocation_ok_def)
  have "hr_status r < 400" using run(2) by simp
  from http_access_is_explicit [OF A V run(1) this]
  obtain call and g :: access_grant where g: "valid_call (ap_trim sample_api) (hq_call (sample_request ''good'' sample_call)) = Some call"
    "subject_id (target_scope call) \<in> set (ag_subject_ids g)" "target_purpose call \<in> set (ag_purposes g)"
    by blast
  then have "call = sample_call" by (simp add: sample_api_def sample_request_def sample_valid)
  then show ?thesis using run g by (auto simp: sample_targets sample_scope_def simp del: uc_simps)
qed

text \<open>
  C15: What lies outside the grants of a caller is concealed: an authenticated request with valid fields, on a
  scope no grant of the caller covers, is answered with one fixed 404 (or refused for its form or size), so the
  answer tells nothing about the data; and it changes nothing.
\<close>

theorem foreign_scopes_are_concealed:
  assumes "ap_identity A (hq_token q) = Inr actor" "valid_call (ap_trim A) (hq_call q) = Some call"
    and "\<forall>g \<in> set (ac_grants actor). \<not> covers g (target_scope call)"
    and "pf_privacy (ap_platform A) = Some P" "strip (pf_policy_version (ap_platform A)) \<noteq> []"
    and "\<And>ev. pf_sink (ap_platform A) ev = Inr ()" and "handle_http E A fresh q s = (r, t)"
  shows "data_unchanged s t \<and> (hr_status r = 400 \<or> hr_status r = 413 \<or>
    hr_status r = 404 \<and> hr_body r =
      error_body (request_id (hq_request_id q) fresh) ''NotFoundError'' ''resource not found'')"
  using assms(7)
proof (cases rule: handle_http_cases)
  case (served actor' call' iv u v x)
  then have [simp]: "actor' = actor" "call' = call" using assms(1,2) by simp_all
  let ?F = "ap_platform A"
  have not_visible: "\<not> visible iv (case_scope u)" "\<not> permitted ?F iv (case_action u) (case_scope u)"
    using assms(3) by (simp_all add: visible_def permitted_def asks_forD [OF served(3)])
  obtain ev w where "untouched v w" and run: "run_case E ?F iv u v =
      (Inl (AuthorizationDeniedError True), an_audit_update (\<lambda>evs. evs @ [ev]) w)"
    by (rule run_case_eval [OF asks_for_ok [OF served(3) assms(5)] assms(4), of u v E])
       (use not_visible assms(6) in auto)
  then have "data_unchanged v t" "x = Inl (AuthorizationDeniedError True)"
    using served(5) by (auto simp: data_unchanged_def untouched_def)
  then show ?thesis
    using unchanged_trans [OF unchanged_waiting [OF served(4)]] served(6)
    by (simp add: failure_response_def plain_response_def)
qed (use assms(1,2) unchanged_waiting in auto)

theorem foreign_scopes_are_concealed_witness:
  "\<exists>r t. handle_http sample_env sample_api [] (sample_request ''good'' foreign_call) (sample_node sample_world) = (r, t) \<and>
     data_unchanged (sample_node sample_world) t \<and> hr_status r \<in> {400, 404, 413}"
proof -
  obtain r t where run: "handle_http sample_env sample_api [] (sample_request ''good'' foreign_call) (sample_node sample_world) = (r, t)"
    by force
  have "ap_identity sample_api (hq_token (sample_request ''good'' foreign_call)) = Inr sample_caller"
    "valid_call (ap_trim sample_api) (hq_call (sample_request ''good'' foreign_call)) = Some foreign_call"
    "pf_privacy (ap_platform sample_api) = Some sample_privacy" "\<And>ev. pf_sink (ap_platform sample_api) ev = Inr ()"
    by (simp_all add: sample_api_def sample_request_def sample_valid sample_authenticated del: uc_simps)
  moreover have "strip (pf_policy_version (ap_platform sample_api)) \<noteq> []"
    using caller_invocation_ok by (simp add: sample_api_def invocation_ok_def)
  moreover have "\<forall>g \<in> set (ac_grants sample_caller). \<not> covers g (target_scope foreign_call)"
    by (simp add: sample_targets sample_caller_def covers_def other_scope_def star_def)
  ultimately show ?thesis using foreign_scopes_are_concealed [OF _ _ _ _ _ _ run] run by blast
qed

text \<open>
  Without a valid token there is no service: a request whose token the resolver refuses, for whatever reason
  and with whatever error of the token library, is answered with the same 401 (or refused for its size)
  and changes nothing.
\<close>

theorem unauthenticated_requests_are_refused:
  assumes "ap_identity A = jwt_authenticate J R" "\<forall>actor. jwt_authenticate J R (hq_token q) \<noteq> Inr actor"
    and "handle_http E A fresh q s = (r, t)"
  shows "t = s \<and> (hr_status r = 413 \<or> hr_status r = 401 \<and> hr_body r =
    error_body (request_id (hq_request_id q) fresh) ''AuthenticationError'' ''A valid bearer access token is required.'')"
  using assms(3)
proof (cases rule: handle_http_cases)
  case (unknown e)
  then have "jwt_authenticate J R (hq_token q) = Inl e" using assms(1) by simp
  then obtain m where "e = AuthenticationError m"
    using authenticates_jwt [of J R "hq_token q"] by (auto simp: raises_in_def authentication_errors_def)
  then show ?thesis using unknown by (simp add: failure_response_def)
qed (use assms(1,2) in simp_all)

theorem unauthenticated_requests_are_refused_witness:
  "\<exists>r. handle_http sample_env sample_api [] (sample_request ''bad'' sample_call) (sample_node sample_world) =
     (r, sample_node sample_world) \<and> hr_status r \<in> {401, 413}"
proof -
  obtain r t where run: "handle_http sample_env sample_api [] (sample_request ''bad'' sample_call) (sample_node sample_world) = (r, t)"
    by force
  have "ap_identity sample_api = jwt_authenticate sample_jwt sample_resolver" by (simp add: sample_api_def)
  moreover have "\<forall>actor. jwt_authenticate sample_jwt sample_resolver (hq_token (sample_request ''bad'' sample_call)) \<noteq> Inr actor"
    by (simp add: sample_request_def sample_token_refused del: uc_simps)
  ultimately show ?thesis using unauthenticated_requests_are_refused [OF _ _ run] run by blast
qed

text \<open>
  C32: A request on memory that is answered with an error changed no data: whatever went wrong, at the door, in
  the fields, in the authorization or in the middle of the command, the stored memory and the governance
  records are as before.
\<close>

theorem failed_requests_change_nothing:
  assumes "handle_http E A fresh q s = (r, t)" "400 \<le> hr_status r"
    and "pf_privacy (ap_platform A) = Some P"
    and "\<And>call. valid_call (ap_trim A) (hq_call q) = Some call \<Longrightarrow> action_plane (call_action call) \<noteq> P_GOVERNANCE"
  shows "data_unchanged s t"
  using assms(1)
proof (cases rule: handle_http_cases)
  case (served actor call iv u v x)
  obtain e where "x = Inl e"
    using served(6) assms(2) success_code_range [of call] by (cases x) auto
  then have "data_unchanged v t"
    using failing_memory_use [OF _ _ assms(3)] served(5) asks_for_memory [OF served(3)] assms(4) [OF served(2)] by blast
  then show ?thesis by (rule unchanged_trans [OF unchanged_waiting [OF served(4)]])
qed (simp_all add: unchanged_waiting)

theorem failed_requests_change_nothing_witness:
  "\<exists>r t. handle_http sample_env sample_api [] (sample_request ''bad'' sample_call) (sample_node sample_world) = (r, t) \<and>
     400 \<le> hr_status r \<and> data_unchanged (sample_node sample_world) t"
proof -
  obtain r t where run: "handle_http sample_env sample_api [] (sample_request ''bad'' sample_call) (sample_node sample_world) = (r, t)"
    by force
  have "400 \<le> hr_status r"
    using run by (cases rule: handle_http_cases)
      (auto simp: sample_api_def sample_request_def sample_token_refused failure_code simp del: uc_simps)
  moreover have "pf_privacy (ap_platform sample_api) = Some sample_privacy" by (simp add: sample_api_def)
  moreover have "action_plane (call_action call) \<noteq> P_GOVERNANCE"
    if "valid_call (ap_trim sample_api) (hq_call (sample_request ''bad'' sample_call)) = Some call" for call
    using that by (auto simp: sample_api_def sample_request_def sample_valid sample_call_def)
  ultimately show ?thesis using failed_requests_change_nothing [OF run] run by blast
qed

subsection \<open>Sequences of requests\<close>

definition http_step :: "env \<Rightarrow> api \<Rightarrow> authorized_node \<Rightarrow> authorized_node \<Rightarrow> bool" where
  "http_step E A s t \<longleftrightarrow> (\<exists>fresh q r. handle_http E A fresh q s = (r, t))"

lemma http_step_cases:
  assumes "http_step E A s t"
  shows "waiting s t \<or> (\<exists>v. waiting s v \<and> platform_step E (ap_platform A) verifier v t)"
proof -
  obtain fresh q r where "handle_http E A fresh q s = (r, t)" using assms by (auto simp: http_step_def)
  then show ?thesis
  proof (cases rule: handle_http_cases)
    case (served actor call iv u v x)
    then show ?thesis using run_case_step [OF served(5)] asks_forD(7,8) [OF served(3)] by blast
  qed (simp_all add: wait.R_refl)
qed

lemma http_keeps:
  assumes "pf_privacy (ap_platform A) = Some P" "pv_conf P = K" "hmac_ok K" "errors_named (pv_service P)"
    and "digests_ok E" "service_ok (pf_service (ap_platform A))" "node_ok E K s"
    and "(http_step E A)\<^sup>*\<^sup>* s t" "ids_fresh E (nd_world t)"
  shows "node_ok E K t"
  using assms(8,9)
proof (induction rule: rtranclp_induct)
  case base
  then show ?case using assms(7) by simp
next
  case (step t u)
  have grow: "ids_grow t u"
    using http_step_cases [OF step.hyps(2), of "\<lambda>_ _. Inr ()"] platform_step_ids waiting_grows grow.R_trans by blast
  then have "ids_fresh E (nd_world t)" using ids_fresh_mono [OF step.prems] by (simp add: ids_grow_def)
  then have ok: "node_ok E K t" by (rule step.IH)
  from http_step_cases [OF step.hyps(2), of "\<lambda>_ _. Inr ()"] show ?case
  proof
    assume "waiting t u"
    then show ?thesis by (rule waiting_ok [OF ok])
  next
    assume "\<exists>v. waiting t v \<and> platform_step E (ap_platform A) (\<lambda>_ _. Inr ()) v u"
    then obtain v where v: "waiting t v" "platform_step E (ap_platform A) (\<lambda>_ _. Inr ()) v u" by blast
    show ?thesis by (rule platform_step_keeps [OF assms(1-6) v(2) waiting_ok [OF ok v(1)] step.prems])
  qed
qed

text \<open>
  C14: No sequence of HTTP requests breaks the platform: from a well-formed state, whatever is requested by whomever,
  with valid tokens or not, the invariant of all memory planes and of the governance records holds.
\<close>

theorem requests_keep_the_platform_ok:
  assumes "pf_privacy (ap_platform A) = Some P" "pv_conf P = K" "hmac_ok K" "errors_named (pv_service P)"
    and "digests_ok E" "service_ok (pf_service (ap_platform A))" "node_ok E K s"
    and "(http_step E A)\<^sup>*\<^sup>* s t" "ids_fresh E (nd_world t)"
  shows "system_ok E (nd_world t) \<and> governance_ok K (nd_gov t)"
  using http_keeps [OF assms] by (simp add: node_ok_def)

theorem requests_keep_the_platform_ok_witness:
  "\<exists>t. (http_step sample_env sample_api)\<^sup>*\<^sup>* (sample_node sample_world) t \<and> s_revisions (nd_world t) \<noteq> [] \<and>
     system_ok sample_env (nd_world t)"
proof -
  obtain r t where run: "handle_http sample_env sample_api [] (sample_request ''good'' sample_call) (sample_node sample_world) = (r, t)"
    "s_revisions (nd_world t) \<noteq> []" "w_ids (nd_world t) \<le> 7" by (rule sample_written)
  have reach: "(http_step sample_env sample_api)\<^sup>*\<^sup>* (sample_node sample_world) t"
    by (rule r_into_rtranclp) (use run(1) in \<open>auto simp: http_step_def\<close>)
  have "pf_privacy (ap_platform sample_api) = Some sample_privacy" "service_ok (pf_service (ap_platform sample_api))"
    using sample_service_ok by (simp_all add: sample_api_def)
  then show ?thesis
    using requests_keep_the_platform_ok [OF _ sample_platform_fields(2) sample_hmac sample_erase_fields(5) sample_digests _
        sample_empty_node_ok reach] reach run by auto
qed

end
