(* ===== verification/Config.thy ===== *)
theory Config
  imports Http
begin

text \<open>
  \<open>config.py\<close> and \<open>api/contract.py\<close>: the settings of a process, read from environment variables and checked
  before anything is built, and the blockers the service reports before it may be used in production.
  \<open>urlsplit\<close> and the reading of a float are the standard library's and are arguments.
\<close>

subsection \<open>Settings\<close>

record storage_settings =
  se_environment :: ustr
  se_host :: ustr
  se_port :: int
  se_log_level :: ustr
  se_store :: ustr
  se_database_url :: "ustr option"
  se_database_pool_min_size :: int
  se_database_pool_max_size :: int
  se_database_readiness_timeout_seconds :: pyfloat

record index_settings = storage_settings +
  se_projection_mode :: ustr
  se_projection_required :: bool
  se_projection_name :: ustr
  se_projection_search_oversample :: int
  se_milvus_uri :: ustr
  se_milvus_token :: "ustr option"
  se_milvus_collection :: ustr
  se_milvus_consistency_level :: ustr
  se_milvus_timeout_seconds :: pyfloat
  se_milvus_min_similarity :: pyfloat
  se_embedding_provider :: ustr
  se_embedding_model :: ustr
  se_embedding_dimensions :: int
  se_embedding_base_url :: ustr
  se_embedding_api_key :: "ustr option"
  se_embedding_timeout_seconds :: pyfloat

record process_settings = index_settings +
  se_worker_batch_size :: int
  se_worker_lease_seconds :: pyfloat
  se_worker_poll_seconds :: pyfloat
  se_worker_retry_base_seconds :: pyfloat
  se_worker_retry_max_seconds :: pyfloat
  se_worker_max_attempts :: int
  se_max_request_body_bytes :: int

record settings = process_settings +
  se_auth_mode :: ustr
  se_auth_jwt_issuer :: "ustr option"
  se_auth_jwt_audience :: "ustr option"
  se_auth_jwt_jwks_url :: "ustr option"
  se_auth_jwt_algorithms :: "ustr list"
  se_auth_required_scope :: ustr
  se_auth_audit_hmac_key :: "ustr option"
  se_auth_audit_sink :: ustr
  se_governance_mode :: ustr
  se_governance_hmac_key :: "ustr option"
  se_governance_pseudonym_key_id :: ustr
  se_privacy_policy_version :: ustr
  se_frontend_url :: ustr
  se_public_api_url :: ustr
  se_cors_origins :: "ustr list"

subsection \<open>URLs\<close>

text \<open>What \<open>urlsplit\<close> gives; \<open>up_port\<close> is None when reading the port raises.\<close>

record url_parts =
  up_scheme :: ustr
  up_netloc :: ustr
  up_path :: ustr
  up_query :: ustr
  up_fragment :: ustr
  up_hostname :: "ustr option"
  up_username :: "ustr option"
  up_password :: "ustr option"
  up_port :: "int option option"

type_synonym url_splitter = "ustr \<Rightarrow> url_parts option"

definition url_error :: "string \<Rightarrow> py_error" where
  "url_error name = DomainError (name @ '' must be a valid HTTP(S) URL'')"

definition url_parts_ok :: "url_parts \<Rightarrow> bool" where
  "url_parts_ok u \<longleftrightarrow> up_scheme u \<in> {uc ''http'', uc ''https''} \<and> up_hostname u \<noteq> None \<and>
     up_username u = None \<and> up_password u = None \<and> up_query u = [] \<and> up_fragment u = [] \<and>
     (\<forall>p. up_port u = Some (Some p) \<longrightarrow> 1 \<le> p \<and> p \<le> 65535)"

definition validate_http_url :: "url_splitter \<Rightarrow> ustr \<Rightarrow> string \<Rightarrow> bool \<Rightarrow> unit res" where
  "validate_http_url split url name origin_only =
     rbind (raise_if (url = [] \<or> url \<noteq> strip url \<or> list_ex (\<lambda>c. c < 32 \<or> c = 127) url) (url_error name)) (\<lambda>_.
     case split url of
       None \<Rightarrow> Inl (url_error name)
     | Some parsed \<Rightarrow>
         rbind (raise_if (up_port parsed = None \<or> \<not> is_ascii (up_netloc parsed)) (url_error name)) (\<lambda>_.
         rbind (raise_if (\<not> url_parts_ok parsed) (url_error name)) (\<lambda>_.
         raise_if (origin_only \<and> up_path parsed \<noteq> [])
           (DomainError (name @ '' must contain origins without paths'')))))"

subsection \<open>The checks\<close>

definition collection_name_ok :: "ustr \<Rightarrow> bool" where
  "collection_name_ok s \<longleftrightarrow> s \<noteq> [] \<and> length s \<le> 255 \<and> (is_alnum (hd s) \<and> \<not> (48 \<le> hd s \<and> hd s \<le> 57) \<or> hd s = 95) \<and>
     list_all (\<lambda>c. is_alnum c \<or> c = 95) (tl s)"

text \<open>Checks in a row: the first that fails raises.\<close>

definition check_all :: "unit res list \<Rightarrow> unit res" where
  "check_all cs = rbind (rmap (\<lambda>c. c) cs) (\<lambda>_. Inr ())"

definition require :: "bool \<Rightarrow> string \<Rightarrow> unit res" where
  "require ok m = raise_if (\<not> ok) (DomainError m)"

text \<open>A message that names two values in quotation marks.\<close>

definition one_of :: "string \<Rightarrow> string \<Rightarrow> string \<Rightarrow> string" where
  "one_of prefix a b = prefix @ [CHR 0x27] @ a @ [CHR 0x27] @ '' or '' @ [CHR 0x27] @ b @ [CHR 0x27]"

definition key_ok :: "ustr option \<Rightarrow> bool" where
  "key_ok key = (case key of None \<Rightarrow> False | Some k \<Rightarrow> 32 \<le> length k)"

definition asymmetric_algorithms :: "ustr set" where
  "asymmetric_algorithms = {uc ''RS256'', uc ''RS384'', uc ''RS512'', uc ''ES256'', uc ''ES384'', uc ''ES512'', uc ''EdDSA''}"

definition is_https :: "ustr \<Rightarrow> bool" where
  "is_https s \<longleftrightarrow> take (length (uc ''https://'')) s = uc ''https://''"

definition deployed :: "'z storage_settings_scheme \<Rightarrow> bool" where
  "deployed S \<longleftrightarrow> se_environment S \<in> {uc ''staging'', uc ''production''}"

definition storage_checks :: "'z storage_settings_scheme \<Rightarrow> unit res list" where
  "storage_checks S =
     [require (se_environment S \<in> {uc ''development'', uc ''test'', uc ''staging'', uc ''production''})
        ''environment must be development, test, staging, or production'',
      require (1 \<le> se_port S \<and> se_port S \<le> 65535) ''port must be in [1, 65535]'',
      require (se_store S \<in> {uc ''memory'', uc ''postgres''}) (one_of ''store must be either '' ''memory'' ''postgres''),
      require (\<not> (se_store S = uc ''postgres'' \<and> (se_database_url S = None \<or> se_database_url S = Some [])))
        ''EMF_DATABASE_URL is required when EMF_STORE=postgres'',
      require (\<not> se_database_pool_min_size S < 1) ''database_pool_min_size must be positive'',
      require (\<not> se_database_pool_max_size S < se_database_pool_min_size S)
        ''database_pool_max_size must be >= database_pool_min_size'',
      require (flit (5/100) \<le> se_database_readiness_timeout_seconds S \<and> se_database_readiness_timeout_seconds S \<le> 30)
        ''database_readiness_timeout_seconds must be in [0.05, 30]'']"

definition index_checks :: "url_splitter \<Rightarrow> 'z index_settings_scheme \<Rightarrow> unit res list" where
  "index_checks split S =
     [require (se_projection_mode S \<in> {uc ''disabled'', uc ''milvus''})
        (one_of ''projection_mode must be either '' ''disabled'' ''milvus''),
      require (\<not> (se_projection_mode S = uc ''milvus'' \<and> se_store S \<noteq> uc ''postgres''))
        ''Milvus projection requires EMF_STORE=postgres'',
      require (\<not> (se_projection_required S \<and> se_projection_mode S = uc ''disabled''))
        ''a disabled projection cannot be required'',
      require (strip (se_projection_name S) \<noteq> []) ''projection_name must not be blank'',
      require (1 \<le> se_projection_search_oversample S \<and> se_projection_search_oversample S \<le> 100)
        ''projection_search_oversample must be in [1, 100]'',
      validate_http_url split (se_milvus_uri S) ''milvus_uri'' False,
      require (collection_name_ok (se_milvus_collection S)) ''milvus_collection must be a valid Milvus collection name'',
      require (se_milvus_consistency_level S \<in> {uc ''Strong'', uc ''Bounded'', uc ''Eventually'', uc ''Session''})
        ''milvus_consistency_level is unsupported'',
      require (flit (5/100) \<le> se_milvus_timeout_seconds S \<and> se_milvus_timeout_seconds S \<le> 120)
        ''milvus_timeout_seconds must be in [0.05, 120]'',
      require (0 \<le> se_milvus_min_similarity S \<and> se_milvus_min_similarity S \<le> 1)
        ''milvus_min_similarity must be between 0 and 1'',
      require (se_embedding_provider S \<in> {uc ''hash'', uc ''openai_compatible''})
        (one_of ''embedding_provider must be '' ''hash'' ''openai_compatible''),
      require (strip (se_embedding_model S) \<noteq> []) ''embedding_model must not be blank'',
      require (32 \<le> se_embedding_dimensions S \<and> se_embedding_dimensions S \<le> 32768)
        ''embedding_dimensions must be in [32, 32768]'',
      validate_http_url split (se_embedding_base_url S) ''embedding_base_url'' False,
      require (flit (5/100) \<le> se_embedding_timeout_seconds S \<and> se_embedding_timeout_seconds S \<le> 300)
        ''embedding_timeout_seconds must be in [0.05, 300]'']"

definition process_checks :: "'z process_settings_scheme \<Rightarrow> unit res list" where
  "process_checks S =
     [require (1 \<le> se_worker_batch_size S \<and> se_worker_batch_size S \<le> 1000)
        ''projection_worker_batch_size must be in [1, 1000]'',
      require (1 \<le> se_worker_lease_seconds S \<and> se_worker_lease_seconds S \<le> 3600)
        ''projection_worker_lease_seconds must be in [1, 3600]'',
      require (flit (5/100) \<le> se_worker_poll_seconds S \<and> se_worker_poll_seconds S \<le> 60)
        ''projection_worker_poll_seconds must be in [0.05, 60]'',
      require (flit (5/100) \<le> se_worker_retry_base_seconds S \<and> se_worker_retry_base_seconds S \<le> 3600)
        ''projection_worker_retry_base_seconds must be in [0.05, 3600]'',
      require (se_worker_retry_base_seconds S \<le> se_worker_retry_max_seconds S \<and> se_worker_retry_max_seconds S \<le> 86400)
        ''projection retry max must be >= base and <= 86400'',
      require (1 \<le> se_worker_max_attempts S \<and> se_worker_max_attempts S \<le> 100)
        ''projection_worker_max_attempts must be in [1, 100]'',
      require (\<not> se_max_request_body_bytes S < 1) ''max_request_body_bytes must be positive'']"

definition jwt_checks :: "url_splitter \<Rightarrow> settings \<Rightarrow> unit res" where
  "jwt_checks split S =
     (case (se_auth_jwt_issuer S, se_auth_jwt_audience S, se_auth_jwt_jwks_url S) of
        (Some issuer, Some audience, Some jwks_url) \<Rightarrow> check_all
          [validate_http_url split issuer ''auth_jwt_issuer'' False,
           validate_http_url split jwks_url ''auth_jwt_jwks_url'' False,
           require (strip audience \<noteq> [] \<and> audience = strip audience) ''JWT authentication requires a valid audience'',
           require (se_auth_jwt_algorithms S \<noteq> [] \<and> set (se_auth_jwt_algorithms S) \<subseteq> asymmetric_algorithms)
             ''JWT authentication requires asymmetric algorithms'',
           require (key_ok (se_auth_audit_hmac_key S)) ''JWT authentication requires a 32-character audit HMAC key'',
           require (\<not> (deployed S \<and> \<not> is_https issuer)) ''production JWT issuer must use HTTPS'',
           require (\<not> (deployed S \<and> \<not> is_https jwks_url)) ''production JWT JWKS URL must use HTTPS'']
      | _ \<Rightarrow> Inl (DomainError ''JWT authentication requires issuer, audience, and JWKS URL''))"

definition auth_checks :: "url_splitter \<Rightarrow> settings \<Rightarrow> unit res list" where
  "auth_checks split S =
     [require (se_auth_mode S \<in> {uc ''development'', uc ''jwt''}) (one_of ''auth_mode must be either '' ''development'' ''jwt''),
      require (\<not> (se_environment S \<notin> {uc ''development'', uc ''test''} \<and> se_auth_mode S = uc ''development''))
        ''development authentication is forbidden outside development/test'',
      if se_auth_mode S = uc ''jwt'' then jwt_checks split S else Inr (),
      require (strip (se_auth_required_scope S) \<noteq> []) ''auth_required_scope must not be blank'',
      require (se_auth_audit_sink S \<in> {uc ''log'', uc ''postgres''}) (one_of ''auth_audit_sink must be either '' ''log'' ''postgres''),
      require (\<not> (se_auth_audit_sink S = uc ''postgres'' \<and> se_store S \<noteq> uc ''postgres''))
        ''persistent authorization audit requires EMF_STORE=postgres'',
      require (\<not> (se_auth_audit_sink S = uc ''postgres'' \<and> \<not> key_ok (se_auth_audit_hmac_key S)))
        ''persistent authorization audit requires a 32-character HMAC key'']"

definition governance_checks :: "url_splitter \<Rightarrow> settings \<Rightarrow> unit res list" where
  "governance_checks split S =
     [require (se_governance_mode S \<in> {uc ''development'', uc ''postgres''})
        (one_of ''governance_mode must be either '' ''development'' ''postgres''),
      require (\<not> (se_governance_mode S = uc ''postgres'' \<and> se_store S \<noteq> uc ''postgres''))
        ''persistent privacy governance requires EMF_STORE=postgres'',
      require (\<not> (se_governance_mode S = uc ''postgres'' \<and> \<not> key_ok (se_governance_hmac_key S)))
        ''persistent privacy governance requires a 32-character HMAC key'',
      require (strip (se_governance_pseudonym_key_id S) \<noteq> []) ''governance_pseudonym_key_id must not be blank'',
      require (strip (se_privacy_policy_version S) \<noteq> []) ''privacy_policy_version must not be blank'',
      require (\<not> (deployed S \<and> se_auth_audit_sink S \<noteq> uc ''postgres''))
        ''persistent authorization audit is required in production'',
      require (\<not> (deployed S \<and> se_governance_mode S \<noteq> uc ''postgres''))
        ''persistent privacy governance is required in production'',
      validate_http_url split (se_frontend_url S) ''frontend_url'' False,
      validate_http_url split (se_public_api_url S) ''public_api_url'' False,
      require (se_cors_origins S \<noteq> []) ''at least one CORS origin must be configured'',
      check_all (map (\<lambda>origin. validate_http_url split origin ''cors_origins'' True) (se_cors_origins S))]"

text \<open>\<open>Settings.__post_init__\<close>\<close>

definition mk_settings :: "url_splitter \<Rightarrow> settings \<Rightarrow> settings res" where
  "mk_settings split S =
     rbind (check_all (storage_checks S @ index_checks split S @ process_checks S @ auth_checks split S @
       governance_checks split S)) (\<lambda>_. Inr S)"

subsection \<open>The contract of the API\<close>

text \<open>\<open>production_blockers\<close>\<close>

definition production_blockers :: "settings \<Rightarrow> bool \<Rightarrow> bool \<Rightarrow> ustr list" where
  "production_blockers S governance_ready audit_ready =
     (if se_governance_mode S \<noteq> uc ''postgres'' then [uc ''configuration.persistent-governance'']
      else if \<not> governance_ready then [uc ''privacy.processing-grants'', uc ''privacy.suppression-erasure'']
      else []) @
     (if se_auth_audit_sink S \<noteq> uc ''postgres'' then [uc ''configuration.durable-audit'']
      else if \<not> audit_ready then [uc ''audit.durable-sink''] else []) @
     (if se_store S \<noteq> uc ''postgres'' then [uc ''authority.durable-storage''] else []) @
     (if se_auth_mode S \<noteq> uc ''jwt'' then [uc ''configuration.trusted-jwt''] else []) @
     (if \<not> deployed S then [uc ''runtime.production-profile''] else [])"

subsection \<open>The environment\<close>

text \<open>\<open>os.getenv\<close>, and what reads a number or changes the case of a text.\<close>

record process_environment =
  pe_get :: "ustr \<Rightarrow> ustr option"
  pe_db :: unidb
  pe_upper :: "ustr \<Rightarrow> ustr"
  pe_float :: "ustr \<Rightarrow> pyfloat option"

definition env_text :: "process_environment \<Rightarrow> string \<Rightarrow> string \<Rightarrow> ustr" where
  "env_text P name otherwise = (case pe_get P (uc name) of None \<Rightarrow> uc otherwise | Some s \<Rightarrow> s)"

definition env_lower :: "process_environment \<Rightarrow> string \<Rightarrow> string \<Rightarrow> ustr" where
  "env_lower P name otherwise = lower (pe_db P) (env_text P name otherwise)"

definition env_int :: "process_environment \<Rightarrow> string \<Rightarrow> string \<Rightarrow> int res" where
  "env_int P name otherwise =
     (case py_int10 (pe_db P) (env_text P name otherwise) of
        None \<Rightarrow> Inl (ValueError ''invalid literal for int() with base 10'') | Some n \<Rightarrow> Inr n)"

definition env_float :: "process_environment \<Rightarrow> string \<Rightarrow> string \<Rightarrow> pyfloat res" where
  "env_float P name otherwise =
     (case pe_float P (env_text P name otherwise) of
        None \<Rightarrow> Inl (ValueError ''could not convert string to float'') | Some x \<Rightarrow> Inr x)"

definition environment_bool :: "process_environment \<Rightarrow> string \<Rightarrow> bool \<Rightarrow> bool res" where
  "environment_bool P name otherwise =
     (case pe_get P (uc name) of
        None \<Rightarrow> Inr otherwise
      | Some v \<Rightarrow>
          let normalized = lower (pe_db P) (strip v) in
          if normalized \<in> {uc ''1'', uc ''true'', uc ''yes'', uc ''on''} then Inr True
          else if normalized \<in> {uc ''0'', uc ''false'', uc ''no'', uc ''off''} then Inr False
          else Inl (DomainError (name @ '' must be a boolean'')))"

text \<open>\<open>tuple(part.strip() for part in value.split(",") if part.strip())\<close>\<close>

fun split_commas :: "ustr \<Rightarrow> ustr list" where
  "split_commas [] = [[]]"
| "split_commas (c # cs) =
     (if c = 44 then [] # split_commas cs
      else case split_commas cs of [] \<Rightarrow> [[c]] | p # ps \<Rightarrow> (c # p) # ps)"

definition env_list :: "process_environment \<Rightarrow> string \<Rightarrow> string \<Rightarrow> ustr list" where
  "env_list P name otherwise =
     map strip (filter (\<lambda>part. strip part \<noteq> []) (split_commas (env_text P name otherwise)))"

definition settings_from_environment :: "url_splitter \<Rightarrow> process_environment \<Rightarrow> settings res" where
  "settings_from_environment split P =
     rbind (env_int P ''EMF_PORT'' ''38089'') (\<lambda>port.
     rbind (env_int P ''EMF_DATABASE_POOL_MIN_SIZE'' ''1'') (\<lambda>pool_min.
     rbind (env_int P ''EMF_DATABASE_POOL_MAX_SIZE'' ''10'') (\<lambda>pool_max.
     rbind (env_float P ''EMF_DATABASE_READINESS_TIMEOUT_SECONDS'' ''1.0'') (\<lambda>readiness_timeout.
     rbind (environment_bool P ''EMF_PROJECTION_REQUIRED'' False) (\<lambda>projection_required.
     rbind (env_int P ''EMF_PROJECTION_SEARCH_OVERSAMPLE'' ''10'') (\<lambda>oversample.
     rbind (env_float P ''EMF_MILVUS_TIMEOUT_SECONDS'' ''5.0'') (\<lambda>milvus_timeout.
     rbind (env_float P ''EMF_MILVUS_MIN_SIMILARITY'' ''0.15'') (\<lambda>min_similarity.
     rbind (env_int P ''EMF_EMBEDDING_DIMENSIONS'' ''384'') (\<lambda>dimensions.
     rbind (env_float P ''EMF_EMBEDDING_TIMEOUT_SECONDS'' ''15.0'') (\<lambda>embedding_timeout.
     rbind (env_int P ''EMF_PROJECTION_WORKER_BATCH_SIZE'' ''64'') (\<lambda>batch_size.
     rbind (env_float P ''EMF_PROJECTION_WORKER_LEASE_SECONDS'' ''60.0'') (\<lambda>lease.
     rbind (env_float P ''EMF_PROJECTION_WORKER_POLL_SECONDS'' ''1.0'') (\<lambda>poll.
     rbind (env_float P ''EMF_PROJECTION_WORKER_RETRY_BASE_SECONDS'' ''2.0'') (\<lambda>retry_base.
     rbind (env_float P ''EMF_PROJECTION_WORKER_RETRY_MAX_SECONDS'' ''300.0'') (\<lambda>retry_max.
     rbind (env_int P ''EMF_PROJECTION_WORKER_MAX_ATTEMPTS'' ''8'') (\<lambda>max_attempts.
     rbind (env_int P ''EMF_MAX_REQUEST_BODY_BYTES'' ''1048576'') (\<lambda>max_body.
     mk_settings split
       \<lparr>se_environment = env_lower P ''EMF_ENVIRONMENT'' ''development'', se_host = env_text P ''EMF_HOST'' ''127.0.0.1'',
        se_port = port, se_log_level = pe_upper P (env_text P ''EMF_LOG_LEVEL'' ''INFO''),
        se_store = env_text P ''EMF_STORE'' ''memory'', se_database_url = pe_get P (uc ''EMF_DATABASE_URL''),
        se_database_pool_min_size = pool_min, se_database_pool_max_size = pool_max,
        se_database_readiness_timeout_seconds = readiness_timeout,
        se_projection_mode = env_lower P ''EMF_PROJECTION_MODE'' ''disabled'',
        se_projection_required = projection_required,
        se_projection_name = env_text P ''EMF_PROJECTION_NAME'' ''milvus-memory-v1'',
        se_projection_search_oversample = oversample,
        se_milvus_uri = env_text P ''EMF_MILVUS_URI'' ''http://127.0.0.1:19530'',
        se_milvus_token = pe_get P (uc ''EMF_MILVUS_TOKEN''),
        se_milvus_collection = env_text P ''EMF_MILVUS_COLLECTION'' ''evolvable_memory_v1'',
        se_milvus_consistency_level = env_text P ''EMF_MILVUS_CONSISTENCY_LEVEL'' ''Bounded'',
        se_milvus_timeout_seconds = milvus_timeout, se_milvus_min_similarity = min_similarity,
        se_embedding_provider = env_lower P ''EMF_EMBEDDING_PROVIDER'' ''hash'',
        se_embedding_model = env_text P ''EMF_EMBEDDING_MODEL'' ''hash-blake2b-v1'',
        se_embedding_dimensions = dimensions,
        se_embedding_base_url = env_text P ''EMF_EMBEDDING_BASE_URL'' ''http://127.0.0.1:11434/v1'',
        se_embedding_api_key = pe_get P (uc ''EMF_EMBEDDING_API_KEY''),
        se_embedding_timeout_seconds = embedding_timeout,
        se_worker_batch_size = batch_size, se_worker_lease_seconds = lease, se_worker_poll_seconds = poll,
        se_worker_retry_base_seconds = retry_base, se_worker_retry_max_seconds = retry_max,
        se_worker_max_attempts = max_attempts, se_max_request_body_bytes = max_body,
        se_auth_mode = env_lower P ''EMF_AUTH_MODE'' ''development'',
        se_auth_jwt_issuer = pe_get P (uc ''EMF_AUTH_JWT_ISSUER''),
        se_auth_jwt_audience = pe_get P (uc ''EMF_AUTH_JWT_AUDIENCE''),
        se_auth_jwt_jwks_url = pe_get P (uc ''EMF_AUTH_JWT_JWKS_URL''),
        se_auth_jwt_algorithms = env_list P ''EMF_AUTH_JWT_ALGORITHMS'' ''RS256'',
        se_auth_required_scope = env_text P ''EMF_AUTH_REQUIRED_SCOPE'' ''memory'',
        se_auth_audit_hmac_key = pe_get P (uc ''EMF_AUTH_AUDIT_HMAC_KEY''),
        se_auth_audit_sink = env_lower P ''EMF_AUTH_AUDIT_SINK'' ''log'',
        se_governance_mode = env_lower P ''EMF_GOVERNANCE_MODE'' ''development'',
        se_governance_hmac_key = pe_get P (uc ''EMF_GOVERNANCE_HMAC_KEY''),
        se_governance_pseudonym_key_id = env_text P ''EMF_GOVERNANCE_PSEUDONYM_KEY_ID'' ''governance-v1'',
        se_privacy_policy_version = env_text P ''EMF_PRIVACY_POLICY_VERSION'' ''privacy-v1'',
        se_frontend_url = env_text P ''EMF_FRONTEND_URL'' ''http://127.0.0.1:33009'',
        se_public_api_url = env_text P ''EMF_PUBLIC_API_URL'' ''http://127.0.0.1:38089'',
        se_cors_origins = env_list P ''EMF_CORS_ORIGINS'' ''http://127.0.0.1:33009,http://localhost:33009''\<rparr>)))))))))))))))))"

record frontend_settings =
  fs_host :: ustr
  fs_port :: int
  fs_public_api_url :: ustr

definition mk_frontend_settings :: "url_splitter \<Rightarrow> frontend_settings \<Rightarrow> frontend_settings res" where
  "mk_frontend_settings split S =
     rbind (require (1 \<le> fs_port S \<and> fs_port S \<le> 65535) ''frontend port must be in [1, 65535]'') (\<lambda>_.
     rbind (validate_http_url split (fs_public_api_url S) ''public_api_url'' False) (\<lambda>_. Inr S))"

definition frontend_from_environment :: "url_splitter \<Rightarrow> process_environment \<Rightarrow> frontend_settings res" where
  "frontend_from_environment split P =
     rbind (env_int P ''EMF_FRONTEND_PORT'' ''33009'') (\<lambda>port.
     mk_frontend_settings split \<lparr>fs_host = env_text P ''EMF_FRONTEND_HOST'' ''127.0.0.1'', fs_port = port,
       fs_public_api_url = env_text P ''EMF_PUBLIC_API_URL'' ''http://127.0.0.1:38089''\<rparr>)"

subsection \<open>From the settings to the application\<close>

text \<open>\<open>_build_identity_resolver\<close>\<close>

definition build_identity_resolver ::
  "'k jwt_library \<Rightarrow> settings \<Rightarrow> (ustr option \<Rightarrow> actor_context res) res" where
  "build_identity_resolver J S =
     (if se_auth_mode S = uc ''development'' then Inr development_authenticate
      else case (se_auth_jwt_issuer S, se_auth_jwt_audience S, se_auth_jwt_jwks_url S) of
        (Some issuer, Some audience, Some jwks_url) \<Rightarrow>
          Inr (jwt_authenticate J \<lparr>jw_issuer = issuer, jw_audience = audience, jw_algorithms = se_auth_jwt_algorithms S,
            jw_required_scope = se_auth_required_scope S\<rparr>)
      | _ \<Rightarrow> Inl (RuntimeError ''JWT identity settings were not validated''))"

text \<open>The part of \<open>service_info\<close> that reports whether the deployment may be used in production.\<close>

record service_info =
  si_storage :: ustr
  si_auth_mode :: ustr
  si_scope_source :: ustr
  si_frontend_url :: ustr
  si_documentation_url :: ustr
  si_production_ready :: bool
  si_production_blockers :: "ustr list"
  si_notice :: ustr

definition service_info_of :: "settings \<Rightarrow> bool \<Rightarrow> bool \<Rightarrow> service_info" where
  "service_info_of S governance_ready audit_ready =
     (let blockers = production_blockers S governance_ready audit_ready in
      \<lparr>si_storage = se_store S, si_auth_mode = se_auth_mode S,
       si_scope_source = (if se_auth_mode S = uc ''development'' then uc ''request'' else uc ''access_token''),
       si_frontend_url = se_frontend_url S,
       si_documentation_url = strip_while (\<lambda>c. c = 47) (se_public_api_url S) @ uc ''/docs'',
       si_production_ready = (blockers = []), si_production_blockers = blockers,
       si_notice = (if se_store S = uc ''memory''
         then uc ''Development contract: data is cleared when the backend restarts.''
         else uc ''PostgreSQL authority enabled; production readiness is derived from '' @
           uc ''trusted JWT, persistent governance, erasure, and audit readiness.'')\<rparr>)"

end
