(* ===== verification/ConfigProperties.thy ===== *)
theory ConfigProperties
  imports Config
begin

text \<open>
  What the settings promise: a process of a deployed environment that starts at all stores durably, authenticates
  by verified tokens and audits durably, and the service reports no blocker but missing readiness.
\<close>

lemma check_all_Inr: "check_all cs = Inr u \<longleftrightarrow> (\<forall>c \<in> set cs. c = Inr ())"
proof -
  have "(\<exists>us. rmap (\<lambda>c. c) cs = Inr us) \<longleftrightarrow> (\<forall>c \<in> set cs. c = Inr ())"
    by (induction cs) (auto simp: res_simps)
  then show ?thesis by (auto simp: check_all_def res_simps)
qed

lemma require_Inr [simp]: "require ok m = Inr u \<longleftrightarrow> ok"
  by (simp add: require_def res_simps)

lemma settings_checked:
  assumes "mk_settings split S = Inr T" "c \<in> set (auth_checks split S @ governance_checks split S)"
  shows "c = Inr ()"
  using assms by (auto simp: mk_settings_def res_simps check_all_Inr)

text \<open>
  C33: A deployed process is locked down: when the settings of a staging or production environment are accepted,
  every request will be authenticated by a verified token, signed with an asymmetric algorithm by an issuer
  reached over HTTPS, memory, governance and audit are stored durably under keys of at least 32 characters,
  and the service calls itself ready for production exactly when governance and audit answer as ready.
\<close>

theorem deployed_settings_are_locked_down:
  assumes "mk_settings split S = Inr T" "deployed S"
  shows "\<exists>issuer audience jwks_url. se_auth_jwt_issuer S = Some issuer \<and> se_auth_jwt_audience S = Some audience \<and>
    se_auth_jwt_jwks_url S = Some jwks_url \<and> is_https issuer \<and> is_https jwks_url \<and>
    build_identity_resolver J S = Inr (jwt_authenticate J \<lparr>jw_issuer = issuer, jw_audience = audience,
      jw_algorithms = se_auth_jwt_algorithms S, jw_required_scope = se_auth_required_scope S\<rparr>) \<and>
    se_auth_jwt_algorithms S \<noteq> [] \<and> set (se_auth_jwt_algorithms S) \<subseteq> asymmetric_algorithms \<and>
    se_store S = uc ''postgres'' \<and> se_governance_mode S = uc ''postgres'' \<and> se_auth_audit_sink S = uc ''postgres'' \<and>
    key_ok (se_auth_audit_hmac_key S) \<and> key_ok (se_governance_hmac_key S) \<and>
    (si_production_ready (service_info_of S governance_ready audit_ready) \<longleftrightarrow> governance_ready \<and> audit_ready)"
proof -
  note checks = settings_checked [OF assms(1)]
  have auth: "\<forall>c \<in> set (auth_checks split S). c = Inr ()" and gov: "\<forall>c \<in> set (governance_checks split S). c = Inr ()"
    using checks by auto
  have "se_environment S \<notin> {uc ''development'', uc ''test''}" using assms(2) by (auto simp: deployed_def)
  then have mode: "se_auth_mode S = uc ''jwt''" "jwt_checks split S = Inr ()"
    using auth by (auto simp: auth_checks_def simp del: uc_simps)
  have stores: "se_auth_audit_sink S = uc ''postgres''" "se_governance_mode S = uc ''postgres''" "se_store S = uc ''postgres''"
    "key_ok (se_auth_audit_hmac_key S)" "key_ok (se_governance_hmac_key S)"
    using auth gov assms(2) by (auto simp: auth_checks_def governance_checks_def simp del: uc_simps)
  obtain issuer audience jwks_url where given: "se_auth_jwt_issuer S = Some issuer" "se_auth_jwt_audience S = Some audience"
      "se_auth_jwt_jwks_url S = Some jwks_url"
    using mode(2) by (auto simp: jwt_checks_def split: option.splits)
  then have "is_https issuer" "is_https jwks_url" "se_auth_jwt_algorithms S \<noteq> []"
      "set (se_auth_jwt_algorithms S) \<subseteq> asymmetric_algorithms"
    using mode(2) assms(2) by (simp_all add: jwt_checks_def check_all_Inr)
  moreover have "build_identity_resolver J S = Inr (jwt_authenticate J \<lparr>jw_issuer = issuer, jw_audience = audience,
      jw_algorithms = se_auth_jwt_algorithms S, jw_required_scope = se_auth_required_scope S\<rparr>)"
    by (simp add: build_identity_resolver_def mode(1) given)
  moreover have "production_blockers S governance_ready audit_ready = [] \<longleftrightarrow> governance_ready \<and> audit_ready"
    using stores mode(1) assms(2) by (simp add: production_blockers_def del: uc_simps)
  ultimately show ?thesis using given stores by (simp add: service_info_of_def Let_def)
qed

subsection \<open>A sample deployment\<close>

definition sample_split :: url_splitter where
  "sample_split url = Some \<lparr>up_scheme = uc ''https'', up_netloc = uc ''host'', up_path = [], up_query = [], up_fragment = [],
     up_hostname = Some (uc ''host''), up_username = None, up_password = None, up_port = Some None\<rparr>"

definition sample_deployment :: settings where
  "sample_deployment =
     \<lparr>se_environment = uc ''production'', se_host = uc ''h'', se_port = 38089, se_log_level = uc ''INFO'',
      se_store = uc ''postgres'', se_database_url = Some (uc ''db''), se_database_pool_min_size = 1,
      se_database_pool_max_size = 10, se_database_readiness_timeout_seconds = 1,
      se_projection_mode = uc ''milvus'', se_projection_required = False, se_projection_name = uc ''p'',
      se_projection_search_oversample = 10, se_milvus_uri = uc ''https://host'', se_milvus_token = None,
      se_milvus_collection = uc ''memory_v1'', se_milvus_consistency_level = uc ''Bounded'',
      se_milvus_timeout_seconds = 5, se_milvus_min_similarity = 0, se_embedding_provider = uc ''hash'',
      se_embedding_model = uc ''m'', se_embedding_dimensions = 384, se_embedding_base_url = uc ''https://host'',
      se_embedding_api_key = None, se_embedding_timeout_seconds = 15, se_worker_batch_size = 64,
      se_worker_lease_seconds = 60, se_worker_poll_seconds = 1, se_worker_retry_base_seconds = 2,
      se_worker_retry_max_seconds = 300, se_worker_max_attempts = 8, se_max_request_body_bytes = 1048576,
      se_auth_mode = uc ''jwt'', se_auth_jwt_issuer = Some (uc ''https://i''), se_auth_jwt_audience = Some (uc ''a''),
      se_auth_jwt_jwks_url = Some (uc ''https://k''), se_auth_jwt_algorithms = [uc ''RS256''],
      se_auth_required_scope = uc ''memory'', se_auth_audit_hmac_key = Some (replicate 32 65),
      se_auth_audit_sink = uc ''postgres'', se_governance_mode = uc ''postgres'',
      se_governance_hmac_key = Some (replicate 32 66), se_governance_pseudonym_key_id = uc ''g1'',
      se_privacy_policy_version = uc ''v1'', se_frontend_url = uc ''https://host'', se_public_api_url = uc ''https://host'',
      se_cors_origins = [uc ''https://host'']\<rparr>"

lemma sample_url: "validate_http_url sample_split (uc ''https://host'') name b = Inr ()"
    "validate_http_url sample_split (uc ''https://i'') name b = Inr ()" "validate_http_url sample_split (uc ''https://k'') name b = Inr ()"
  by (simp_all add: validate_http_url_def sample_split_def url_parts_ok_def raise_if_def is_ascii_def strip_def strip_while_def is_space_def)

lemma small_float: "flit (5/100) \<le> 1"
  unfolding flit_def by (rule fp.rnd_le [OF fp.dbl_1]) simp

lemma sample_deployment_ok: "mk_settings sample_split sample_deployment = Inr sample_deployment"
proof -
  have f: "flit (5/100) \<le> 1" "flit (5/100) \<le> 2" "flit (5/100) \<le> 5" "flit (5/100) \<le> 15" using small_float by linarith+
  have jwt: "jwt_checks sample_split sample_deployment = Inr ()"
    by (simp add: jwt_checks_def sample_deployment_def check_all_Inr sample_url key_ok_def is_https_def asymmetric_algorithms_def
        strip_def strip_while_def is_space_def del: uc_simps) (simp add: strip_def strip_while_def is_space_def)
  have "\<forall>c \<in> set (storage_checks sample_deployment). c = Inr ()"
    using f by (simp add: storage_checks_def sample_deployment_def)
  moreover have "\<forall>c \<in> set (index_checks sample_split sample_deployment). c = Inr ()"
    using f by (simp add: index_checks_def sample_deployment_def sample_url del: uc_simps)
       (simp add: strip_def strip_while_def is_space_def collection_name_ok_def is_alnum_def)
  moreover have "\<forall>c \<in> set (process_checks sample_deployment). c = Inr ()"
    using f by (simp add: process_checks_def sample_deployment_def)
  moreover have "\<forall>c \<in> set (auth_checks sample_split sample_deployment). c = Inr ()"
    by (simp add: auth_checks_def jwt) (simp add: sample_deployment_def strip_def strip_while_def is_space_def key_ok_def)
  moreover have "\<forall>c \<in> set (governance_checks sample_split sample_deployment). c = Inr ()"
    by (simp add: governance_checks_def sample_deployment_def sample_url check_all_Inr key_ok_def del: uc_simps)
       (simp add: strip_def strip_while_def is_space_def)
  ultimately have "check_all (storage_checks sample_deployment @ index_checks sample_split sample_deployment @
      process_checks sample_deployment @ auth_checks sample_split sample_deployment @ governance_checks sample_split sample_deployment) =
      Inr ()"
    unfolding check_all_Inr by auto
  then show ?thesis by (simp add: mk_settings_def)
qed

theorem deployed_settings_are_locked_down_witness:
  "mk_settings sample_split sample_deployment = Inr sample_deployment \<and>
   (\<exists>issuer. se_auth_jwt_issuer sample_deployment = Some issuer \<and> is_https issuer) \<and>
   si_production_ready (service_info_of sample_deployment True True)"
proof -
  have "deployed sample_deployment" by (simp add: deployed_def sample_deployment_def)
  from deployed_settings_are_locked_down [OF sample_deployment_ok this, of undefined True True]
  show ?thesis using sample_deployment_ok by blast
qed

end
