(* ===== verification/Replay.thy ===== *)
theory Replay
  imports Evaluation Service
begin

text \<open>
  \<open>application/evaluation.py\<close>, the evaluator: a dataset is replayed in order against a memory
  application, every case in a \<open>try\<close> of its own, the later cases referring to the revisions and traces
  the earlier ones produced.  The application and the controllable clock are ports.
\<close>

record 's replay_port =
  rp_remember :: "remember_command \<Rightarrow> ('s, preference_result) prog"
  rp_correct :: "correct_command \<Rightarrow> ('s, preference_result) prog"
  rp_recall :: "recall_command \<Rightarrow> ('s, recall_trace) prog"
  rp_outcome :: "outcome_command \<Rightarrow> ('s, outcome_result) prog"
  rp_set_clock :: "(instant \<Rightarrow> ('s, unit) prog) option"

type_synonym resolved_memory = "uuid \<times> uuid"

definition resolve_reference ::
  "memory_reference \<Rightarrow> (ustr, resolved_memory) dict \<Rightarrow> resolved_memory res" where
  "resolve_reference reference resolved =
     (case mr_case_id reference of
        Some c \<Rightarrow>
          (case map_of resolved c of
             None \<Rightarrow> Inl (DomainError (message (uc ''memory case '' @ c @ uc '' did not produce a revision'')))
           | Some m \<Rightarrow> Inr m)
      | None \<Rightarrow>
          (case (mr_record_id reference, mr_revision_id reference) of
             (Some r, Some v) \<Rightarrow> Inr (r, v)
           | _ \<Rightarrow> Inl (DomainError ''direct memory reference is incomplete'')))"

subsection \<open>Expectations\<close>

definition bool_text :: "bool \<Rightarrow> ustr" where
  "bool_text b = (if b then uc ''True'' else uc ''False'')"

definition replay_error :: "bool option \<Rightarrow> bool \<Rightarrow> ustr option" where
  "replay_error expected received =
     (case expected of
        None \<Rightarrow> None
      | Some e \<Rightarrow> if received \<noteq> e
          then Some (uc ''expected idempotent_replay '' @ bool_text e @ uc '', received '' @ bool_text received)
          else None)"

definition preference_expectation_error ::
  "preference_result \<Rightarrow> int option \<Rightarrow> bool option \<Rightarrow> ustr option" where
  "preference_expectation_error result expected_sequence expected_replay =
     (if (case expected_sequence of None \<Rightarrow> False | Some n \<Rightarrow> pr_sequence result \<noteq> n)
      then Some (uc ''expected sequence '' @ int_str (the expected_sequence) @ uc '', received '' @
        int_str (pr_sequence result))
      else replay_error expected_replay (pr_idempotent_replay result))"

definition close_to :: "pyfloat \<Rightarrow> pyfloat \<Rightarrow> bool" where
  "close_to a b = isclose a b 0 (flit (1 / 1000000000))"

fun first_utility_error ::
  "(resolved_memory, pyfloat) dict \<Rightarrow> (resolved_memory \<times> pyfloat) list \<Rightarrow> ustr option" where
  "first_utility_error actual [] = None"
| "first_utility_error actual ((memory, expected_mean) # rest) =
     (case map_of actual memory of
        None \<Rightarrow> Some (uc ''expected utility memory was not recalled'')
      | Some actual_mean \<Rightarrow>
          if \<not> close_to actual_mean expected_mean
          then Some (uc ''recalled utility did not match expectation'')
          else first_utility_error actual rest)"

definition utility_expectation_error ::
  "recall_trace \<Rightarrow> (resolved_memory, pyfloat) dict \<Rightarrow> ustr option" where
  "utility_expectation_error trace expected =
     first_utility_error (dict_of (map (\<lambda>i. ((it_record_id i, it_revision_id i), sb_utility (it_breakdown i)))
       (rt_items trace))) expected"

definition matches_expected_rejection :: "recall_rejection option \<Rightarrow> py_error \<Rightarrow> bool" where
  "matches_expected_rejection expected e =
     (case expected of None \<Rightarrow> False
      | Some FUTURE_KNOWN_AT \<Rightarrow> e = DomainError ''known_at must not be in the future'')"

definition outcome_expectation_error :: "outcome_case \<Rightarrow> outcome_result \<Rightarrow> ustr option" where
  "outcome_expectation_error c result =
     (case replay_error (jc_expected_replay c) (or_idempotent_replay result) of
        Some e \<Rightarrow> Some e
      | None \<Rightarrow>
          (case jc_expected_mean c of
             None \<Rightarrow> None
           | Some m \<Rightarrow> if \<not> close_to (utility_mean (or_utility result)) m
               then Some (uc ''outcome utility did not match expectation'') else None))"

subsection \<open>Running one case\<close>

definition preference_case_result ::
  "ustr \<Rightarrow> replay_case_kind \<Rightarrow> preference_result \<Rightarrow> ustr option \<Rightarrow> case_result" where
  "preference_case_result i kind result e = (plain_result i kind (e = None))\<lparr>cr_error := e,
     cr_record_id := Some (pr_record_id result), cr_revision_id := Some (pr_revision_id result)\<rparr>"

definition run_write :: "'s replay_port \<Rightarrow> write_case \<Rightarrow> ('s, case_result) prog" where
  "run_write P c =
     catch
       (pbind (rp_remember P (wc_command c)) (\<lambda>result.
        return (preference_case_result (wc_case_id c) WRITE result
          (preference_expectation_error result (wc_expected_sequence c) (wc_expected_replay c)))))
       (\<lambda>e. return (failed_case (wc_case_id c) WRITE e))"

definition run_correction ::
  "'s replay_port \<Rightarrow> correction_case \<Rightarrow> (ustr, resolved_memory) dict \<Rightarrow> ('s, case_result) prog" where
  "run_correction P c resolved =
     catch
       (pbind (lift_res (resolve_reference (kc_target c) resolved)) (\<lambda>(record_id, revision_id).
        pbind (lift_res (mk_correct (kc_scope c) record_id (kc_source c) (kc_key_id c) (kc_value c)
          (kc_evidence_text c) (kc_reason c) (utc (kc_occurred_at c))
          (if kc_enforce_expected c then Some revision_id else None))) (\<lambda>command.
        pbind (rp_correct P command) (\<lambda>result.
        return (preference_case_result (kc_case_id c) CORRECTION result
          (preference_expectation_error result (kc_expected_sequence c) (kc_expected_replay c)))))))
       (\<lambda>e. return (failed_case (kc_case_id c) CORRECTION e))"

text \<open>The reciprocal of the rank of the first relevant memory, 0 without one.\<close>

fun reciprocal_rank :: "resolved_memory set \<Rightarrow> int \<Rightarrow> resolved_memory list \<Rightarrow> pyfloat" where
  "reciprocal_rank relevant rank [] = 0"
| "reciprocal_rank relevant rank (m # ms) =
     (if m \<in> relevant then fdiv 1 (of_int rank) else reciprocal_rank relevant (rank + 1) ms)"

definition recall_score :: "resolved_memory list \<Rightarrow> resolved_memory list \<Rightarrow> pyfloat" where
  "recall_score relevant top_k = fdiv (of_nat (card (set relevant \<inter> set top_k))) (of_nat (card (set relevant)))"

definition recall_case_result ::
  "int \<Rightarrow> recall_case \<Rightarrow> resolved_memory list \<Rightarrow> resolved_memory set \<Rightarrow> (resolved_memory, pyfloat) dict \<Rightarrow>
   recall_trace \<Rightarrow> case_result" where
  "recall_case_result recall_k c relevant forbidden expected_utilities trace =
     (if lc_expected_error c \<noteq> None
      then (plain_result (lc_case_id c) RECALL False)\<lparr>
        cr_error := Some (uc ''expected '' @ rejection_value (the (lc_expected_error c))),
        cr_trace_id := Some (rt_id trace)\<rparr>
      else
        let ranked = map (\<lambda>i. (it_record_id i, it_revision_id i)) (rt_items trace);
            top_k = take (nat recall_k) ranked;
            utility_error = utility_expectation_error trace expected_utilities
        in (plain_result (lc_case_id c) RECALL (utility_error = None))\<lparr>
          cr_error := utility_error, cr_trace_id := Some (rt_id trace), cr_retrieved := map snd ranked,
          cr_recall_at_k := (if relevant \<noteq> [] then Some (recall_score relevant top_k) else None),
          cr_reciprocal_rank := (if relevant \<noteq> [] then Some (reciprocal_rank (set relevant) 1 top_k) else None),
          cr_abstention_correct := (if lc_expect_abstention c then Some (ranked = []) else None),
          cr_forbidden_hits := map snd (filter (\<lambda>m. m \<in> forbidden) ranked)\<rparr>)"

definition failed_recall :: "recall_case \<Rightarrow> py_error \<Rightarrow> case_result" where
  "failed_recall c e =
     (if matches_expected_rejection (lc_expected_error c) e
      then plain_result (lc_case_id c) RECALL True
      else (plain_result (lc_case_id c) RECALL False)\<lparr>cr_error := Some (uc (error_name e)),
        cr_recall_at_k := (if lc_relevant c \<noteq> [] then Some 0 else None),
        cr_reciprocal_rank := (if lc_relevant c \<noteq> [] then Some 0 else None),
        cr_abstention_correct := (if lc_expect_abstention c then Some False else None)\<rparr>)"

definition run_recall ::
  "'s replay_port \<Rightarrow> int \<Rightarrow> recall_case \<Rightarrow> (ustr, resolved_memory) dict \<Rightarrow> ('s, case_result) prog" where
  "run_recall P recall_k c resolved =
     catch
       (pbind (lift_res (rmap (\<lambda>r. resolve_reference r resolved) (lc_relevant c))) (\<lambda>relevant.
        pbind (lift_res (rmap (\<lambda>r. resolve_reference r resolved) (lc_forbidden c))) (\<lambda>forbidden.
        pbind (lift_res (rmap (\<lambda>u. rbind (resolve_reference (eu_memory u) resolved) (\<lambda>m. Inr (m, eu_mean u)))
          (lc_expected_utilities c))) (\<lambda>expected.
        pbind (rp_recall P (lc_command c)) (\<lambda>trace.
        return (recall_case_result recall_k c relevant (set forbidden) (dict_of expected) trace))))))
       (\<lambda>e. return (failed_recall c e))"

definition run_outcome ::
  "'s replay_port \<Rightarrow> outcome_case \<Rightarrow> (ustr, resolved_memory) dict \<Rightarrow> (ustr, uuid) dict \<Rightarrow>
   ('s, case_result) prog" where
  "run_outcome P c resolved traces =
     catch
       (pbind (lift_res (resolve_reference (jc_memory c) resolved)) (\<lambda>(record_id, revision_id).
        pbind (lift_res (case map_of traces (jc_trace_case_id c) of
            None \<Rightarrow> Inl (DomainError (message (uc ''recall case '' @ jc_trace_case_id c @
              uc '' did not produce a trace'')))
          | Some t \<Rightarrow> Inr t)) (\<lambda>trace_id.
        pbind (lift_res (mk_record_outcome (jc_scope c) trace_id revision_id (jc_kind c) (jc_key_id c)
          (utc (jc_occurred_at c)) None (jc_weight c) (jc_note c))) (\<lambda>command.
        pbind (rp_outcome P command) (\<lambda>result.
        let e = outcome_expectation_error c result in
        return ((plain_result (jc_case_id c) OUTCOME (e = None))\<lparr>cr_error := e,
          cr_record_id := Some record_id, cr_revision_id := Some revision_id,
          cr_trace_id := Some trace_id\<rparr>))))))
       (\<lambda>e. return (failed_case (jc_case_id c) OUTCOME e))"

fun run_replay_case ::
  "'s replay_port \<Rightarrow> int \<Rightarrow> (ustr, resolved_memory) dict \<Rightarrow> (ustr, uuid) dict \<Rightarrow> replay_case \<Rightarrow>
   ('s, case_result) prog" where
  "run_replay_case P recall_k resolved traces (WriteCase c) = run_write P c"
| "run_replay_case P recall_k resolved traces (CorrectionCase c) = run_correction P c resolved"
| "run_replay_case P recall_k resolved traces (RecallCase c) = run_recall P recall_k c resolved"
| "run_replay_case P recall_k resolved traces (OutcomeCase c) = run_outcome P c resolved traces"

subsection \<open>Running a dataset\<close>

definition set_replay_clock :: "'s replay_port \<Rightarrow> instant option \<Rightarrow> ('s, unit) prog" where
  "set_replay_clock P run_at =
     (case run_at of
        None \<Rightarrow> return ()
      | Some t \<Rightarrow>
          (case rp_set_clock P of
             None \<Rightarrow> throw (DomainError ''timeline replay requires a controllable clock'')
           | Some set_clock \<Rightarrow> set_clock t))"

definition remember_resolved ::
  "replay_case \<Rightarrow> case_result \<Rightarrow> (ustr, resolved_memory) dict \<Rightarrow> (ustr, resolved_memory) dict" where
  "remember_resolved c r resolved =
     (if adds_memory c
      then case (cr_record_id r, cr_revision_id r) of
          (Some i, Some v) \<Rightarrow> dict_set (case_id c) (i, v) resolved
        | _ \<Rightarrow> resolved
      else resolved)"

definition remember_trace ::
  "replay_case \<Rightarrow> case_result \<Rightarrow> (ustr, uuid) dict \<Rightarrow> (ustr, uuid) dict" where
  "remember_trace c r traces =
     (case (c, cr_trace_id r) of
        (RecallCase _, Some t) \<Rightarrow> dict_set (case_id c) t traces
      | _ \<Rightarrow> traces)"

fun run_cases ::
  "'s replay_port \<Rightarrow> int \<Rightarrow> (ustr, resolved_memory) dict \<Rightarrow> (ustr, uuid) dict \<Rightarrow> replay_case list \<Rightarrow>
   ('s, case_result list) prog" where
  "run_cases P recall_k resolved traces [] = return []"
| "run_cases P recall_k resolved traces (c # cs) =
     pbind (set_replay_clock P (case_run_at c)) (\<lambda>_.
     pbind (run_replay_case P recall_k resolved traces c) (\<lambda>r.
     pbind (run_cases P recall_k (remember_resolved c r resolved) (remember_trace c r traces) cs) (\<lambda>rs.
     return (r # rs))))"

subsection \<open>The snapshot hash\<close>

definition optional_uuid_text :: "uuid option \<Rightarrow> ustr" where
  "optional_uuid_text x = (case x of None \<Rightarrow> uc ''None'' | Some i \<Rightarrow> uuid_str i)"

definition reference_payload :: "memory_reference \<Rightarrow> json" where
  "reference_payload r =
     (case mr_case_id r of
        Some c \<Rightarrow> JObj [(uc ''case_id'', JStr c)]
      | None \<Rightarrow> JObj [(uc ''record_id'', JStr (optional_uuid_text (mr_record_id r))),
          (uc ''revision_id'', JStr (optional_uuid_text (mr_revision_id r)))])"

definition scope_payload :: "scope \<Rightarrow> json" where
  "scope_payload sc = JObj [(uc ''tenant_id'', JStr (tenant_id sc)), (uc ''subject_id'', JStr (subject_id sc))]"

definition context_payload :: "context_sig \<Rightarrow> json" where
  "context_payload c = JArr (map (\<lambda>(k, v). JArr [JStr k, JStr v]) (facets c))"

definition json_option :: "('a \<Rightarrow> json) \<Rightarrow> 'a option \<Rightarrow> json" where
  "json_option f x = (case x of None \<Rightarrow> JNull | Some y \<Rightarrow> f y)"

definition json_time :: "instant \<Rightarrow> json" where
  "json_time t = JStr (isoformat t)"

definition remember_payload :: "remember_command \<Rightarrow> json" where
  "remember_payload c = JObj [(uc ''scope'', scope_payload (rm_scope c)), (uc ''source'', JStr (rm_source c)),
     (uc ''idempotency_key'', JStr (rm_key_id c)), (uc ''key'', JStr (rm_key c)), (uc ''value'', JStr (rm_value c)),
     (uc ''context'', context_payload (rm_context c)), (uc ''evidence_text'', JStr (rm_evidence_text c)),
     (uc ''confidence'', JFloat (rm_confidence c)), (uc ''occurred_at'', json_time (rm_occurred_at c))]"

definition recall_payload :: "recall_command \<Rightarrow> json" where
  "recall_payload c = JObj [(uc ''scope'', scope_payload (rc_scope c)), (uc ''query'', JStr (rc_query c)),
     (uc ''context'', context_payload (rc_context c)), (uc ''limit'', JInt (rc_limit c)),
     (uc ''valid_at'', json_option json_time (rc_valid_at c)),
     (uc ''known_at'', json_option json_time (rc_known_at c))]"

definition with_run_at :: "(ustr \<times> json) list \<Rightarrow> instant option \<Rightarrow> json" where
  "with_run_at payload run_at =
     JObj (payload @ (case run_at of None \<Rightarrow> [] | Some t \<Rightarrow> [(uc ''run_at'', json_time t)]))"

fun case_payload :: "replay_case \<Rightarrow> json" where
  "case_payload (WriteCase c) = with_run_at
     [(uc ''type'', JStr (case_kind_value WRITE)), (uc ''case_id'', JStr (wc_case_id c)),
      (uc ''command'', remember_payload (wc_command c)),
      (uc ''expected_sequence'', json_option JInt (wc_expected_sequence c)),
      (uc ''expected_idempotent_replay'', json_option JBool (wc_expected_replay c))] (wc_run_at c)"
| "case_payload (CorrectionCase c) = with_run_at
     [(uc ''type'', JStr (case_kind_value CORRECTION)), (uc ''case_id'', JStr (kc_case_id c)),
      (uc ''target'', reference_payload (kc_target c)), (uc ''scope'', scope_payload (kc_scope c)),
      (uc ''source'', JStr (kc_source c)), (uc ''idempotency_key'', JStr (kc_key_id c)),
      (uc ''value'', JStr (kc_value c)), (uc ''evidence_text'', JStr (kc_evidence_text c)),
      (uc ''reason'', JStr (kc_reason c)), (uc ''occurred_at'', json_time (kc_occurred_at c)),
      (uc ''enforce_expected_revision'', JBool (kc_enforce_expected c)),
      (uc ''expected_sequence'', json_option JInt (kc_expected_sequence c)),
      (uc ''expected_idempotent_replay'', json_option JBool (kc_expected_replay c))] (kc_run_at c)"
| "case_payload (RecallCase c) = with_run_at
     ([(uc ''type'', JStr (case_kind_value RECALL)), (uc ''case_id'', JStr (lc_case_id c)),
       (uc ''command'', recall_payload (lc_command c)),
       (uc ''relevant'', JArr (map reference_payload (lc_relevant c))),
       (uc ''forbidden'', JArr (map reference_payload (lc_forbidden c))),
       (uc ''expect_abstention'', JBool (lc_expect_abstention c))] @
      (if lc_expected_utilities c \<noteq> []
       then [(uc ''expected_utilities'', JArr (map (\<lambda>u. JObj [(uc ''memory'', reference_payload (eu_memory u)),
          (uc ''mean'', JFloat (eu_mean u))]) (lc_expected_utilities c)))]
       else []) @
      (case lc_expected_error c of None \<Rightarrow> []
       | Some e \<Rightarrow> [(uc ''expected_error'', JStr (rejection_value e))])) (lc_run_at c)"
| "case_payload (OutcomeCase c) = JObj
     [(uc ''type'', JStr (case_kind_value OUTCOME)), (uc ''case_id'', JStr (jc_case_id c)),
      (uc ''trace_case_id'', JStr (jc_trace_case_id c)), (uc ''memory'', reference_payload (jc_memory c)),
      (uc ''scope'', scope_payload (jc_scope c)), (uc ''kind'', JStr (outcome_kind_value (jc_kind c))),
      (uc ''idempotency_key'', JStr (jc_key_id c)), (uc ''occurred_at'', json_time (jc_occurred_at c)),
      (uc ''weight'', JFloat (jc_weight c)), (uc ''note'', json_option JStr (jc_note c)),
      (uc ''expected_utility_mean'', json_option JFloat (jc_expected_mean c)),
      (uc ''expected_idempotent_replay'', json_option JBool (jc_expected_replay c)),
      (uc ''run_at'', json_option json_time (jc_run_at c))]"

definition dataset_payload :: "evaluation_dataset \<Rightarrow> json" where
  "dataset_payload d = JObj
     [(uc ''schema'', JStr (uc ''evolvable-memory-evaluation/v'' @ int_str (ds_schema_version d))),
      (uc ''name'', JStr (ds_name d)), (uc ''version'', JStr (ds_version d)),
      (uc ''recall_k'', JInt (ds_recall_k d)), (uc ''cases'', JArr (map case_payload (ds_cases d)))]"

definition snapshot_hash :: "env \<Rightarrow> evaluation_dataset \<Rightarrow> ustr res" where
  "snapshot_hash E d =
     rbind (encode_utf8 (json_dumps (e_repr E) (dataset_payload d))) (\<lambda>encoded. Inr (e_sha E encoded))"

subsection \<open>The evaluation\<close>

record evaluation_report =
  rep_schema_version :: int
  rep_name :: ustr
  rep_version :: ustr
  rep_snapshot_hash :: ustr
  rep_recall_k :: int
  rep_cases :: "case_result list"
  rep_metrics :: evaluation_metrics
  rep_gates :: hard_gate_report

definition evaluate ::
  "env \<Rightarrow> 's replay_port \<Rightarrow> evaluation_dataset \<Rightarrow> hard_gate_policy option \<Rightarrow> ('s, evaluation_report) prog" where
  "evaluate E P d gate_policy =
     pbind (lift_res (raise_if (ds_schema_version d = 2 \<and> rp_set_clock P = None)
       (DomainError ''schema v2 replay requires a controllable clock''))) (\<lambda>_.
     pbind (run_cases P (ds_recall_k d) [] [] (ds_cases d)) (\<lambda>results.
     pbind (lift_res (aggregate_metrics (ds_cases d) results)) (\<lambda>metrics.
     pbind (lift_res (snapshot_hash E d)) (\<lambda>snapshot.
     let policy = (case gate_policy of None \<Rightarrow> default_gates | Some p \<Rightarrow> p) in
     return \<lparr>rep_schema_version = ds_schema_version d, rep_name = ds_name d, rep_version = ds_version d,
       rep_snapshot_hash = snapshot, rep_recall_k = ds_recall_k d, rep_cases = results,
       rep_metrics = metrics, rep_gates = evaluate_gates policy metrics\<rparr>))))"

text \<open>The memory service behind the port; its clock is the sequence of readings of the environment.\<close>

definition service_port :: "env \<Rightarrow> service \<Rightarrow> (instant \<Rightarrow> (world, unit) prog) option \<Rightarrow> world replay_port" where
  "service_port E sv set_clock = \<lparr>rp_remember = remember_preference E, rp_correct = correct_preference E,
     rp_recall = recall E sv, rp_outcome = record_outcome E, rp_set_clock = set_clock\<rparr>"

end
