(* ===== verification/EvaluationRun.thy ===== *)
theory EvaluationRun
  imports Replay Loader
begin

text \<open>
  \<open>evaluation/cli.py\<close>: the command line of the evaluation.  A run builds an in-memory application with
  a clock the evaluator sets and ids that count from 1, replays the dataset, and answers with the exit
  code, the texts printed and the report offered to a file.  The argument parser is \<open>argparse\<close>; the
  commands start here from its result.
\<close>

subsection \<open>The collaborators of a run\<close>

text \<open>\<open>_EvaluationClock\<close>: the state of a run is the world with the time the clock was set to, which every
  reading returns until it is set again.\<close>

type_synonym run_state = "world \<times> instant"

definition at_time :: "env \<Rightarrow> instant \<Rightarrow> env" where
  "at_time E t = E\<lparr>e_clock := (\<lambda>_. t)\<rparr>"

definition clocked :: "env \<Rightarrow> (env \<Rightarrow> (world, 'a) prog) \<Rightarrow> (run_state, 'a) prog" where
  "clocked E m = (\<lambda>(w, t). case m (at_time E t) w of (r, w') \<Rightarrow> (r, (w', t)))"

definition set_clock :: "instant \<Rightarrow> (run_state, unit) prog" where
  "set_clock t = modify (\<lambda>(w, _). (w, t))"

text \<open>\<open>_SequentialIds\<close>\<close>

definition sequential_ids :: "env \<Rightarrow> env" where
  "sequential_ids E = E\<lparr>e_ids := (\<lambda>n. of_nat (Suc n))\<rparr>"

definition evaluation_port :: "env \<Rightarrow> service \<Rightarrow> run_state replay_port" where
  "evaluation_port E sv = \<lparr>
     rp_remember = (\<lambda>c. clocked E (\<lambda>E'. remember_preference E' c)),
     rp_correct = (\<lambda>c. clocked E (\<lambda>E'. correct_preference E' c)),
     rp_recall = (\<lambda>c. clocked E (\<lambda>E'. recall E' sv c)),
     rp_outcome = (\<lambda>c. clocked E (\<lambda>E'. record_outcome E' c)),
     rp_set_clock = Some set_clock\<rparr>"

text \<open>\<open>_evaluation_time\<close>: the time the clock starts at.\<close>

definition write_time :: "replay_case \<Rightarrow> instant list" where
  "write_time c = (case c of WriteCase wc \<Rightarrow> [rm_occurred_at (wc_command wc)] | _ \<Rightarrow> [])"

definition correction_time :: "replay_case \<Rightarrow> instant list" where
  "correction_time c = (case c of CorrectionCase kc \<Rightarrow> [kc_occurred_at kc] | _ \<Rightarrow> [])"

text \<open>2026-01-01T00:00:00Z\<close>

definition default_time :: instant where "default_time = 1767225600000000"

definition evaluation_time :: "evaluation_dataset \<Rightarrow> instant res" where
  "evaluation_time d =
     (if ds_schema_version d = 2
      then case case_run_at (hd (ds_cases d)) of
          None \<Rightarrow> Inl (DomainError ''schema v2 replay is missing its initial run_at'')
        | Some t \<Rightarrow> Inr t
      else
        let timestamps = concat (map write_time (ds_cases d)) @ concat (map correction_time (ds_cases d))
        in Inr (if timestamps = [] then default_time else Max (set timestamps)))"

subsection \<open>Reports\<close>

fun gate_value_json :: "gate_value \<Rightarrow> json" where
  "gate_value_json NoValue = JNull"
| "gate_value_json (CountValue n) = JInt n"
| "gate_value_json (FloatValue x) = JFloat x"

definition metrics_payload :: "evaluation_metrics \<Rightarrow> json" where
  "metrics_payload m = JObj
     [(uc ''write_case_count'', JInt (em_write_cases m)),
      (uc ''correction_case_count'', JInt (em_correction_cases m)),
      (uc ''recall_case_count'', JInt (em_recall_cases m)),
      (uc ''outcome_case_count'', JInt (em_outcome_cases m)),
      (uc ''execution_failure_count'', JInt (em_execution_failures m)),
      (uc ''recall_at_k'', json_option JFloat (em_recall_at_k m)),
      (uc ''mrr_at_k'', json_option JFloat (em_mrr_at_k m)),
      (uc ''update_accuracy'', json_option JFloat (em_update_accuracy m)),
      (uc ''abstention_accuracy'', json_option JFloat (em_abstention_accuracy m)),
      (uc ''forbidden_hit_count'', JInt (em_forbidden_hits m))]"

definition gate_payload :: "hard_gate_check \<Rightarrow> json" where
  "gate_payload c = JObj
     [(uc ''name'', JStr (hc_name c)), (uc ''passed'', JBool (hc_passed c)),
      (uc ''observed'', gate_value_json (hc_observed c)), (uc ''comparator'', JStr (hc_comparator c)),
      (uc ''threshold'', gate_value_json (hc_threshold c))]"

definition result_payload :: "case_result \<Rightarrow> json" where
  "result_payload r = JObj
     [(uc ''id'', JStr (cr_case_id r)), (uc ''kind'', JStr (case_kind_value (cr_kind r))),
      (uc ''execution_passed'', JBool (cr_passed r)), (uc ''error'', json_option JStr (cr_error r)),
      (uc ''retrieved_count'', JInt (int (length (cr_retrieved r)))),
      (uc ''recall_at_k'', json_option JFloat (cr_recall_at_k r)),
      (uc ''reciprocal_rank'', json_option JFloat (cr_reciprocal_rank r)),
      (uc ''abstention_correct'', json_option JBool (cr_abstention_correct r)),
      (uc ''forbidden_hit_count'', JInt (int (length (cr_forbidden_hits r))))]"

definition report_payload :: "evaluation_report \<Rightarrow> json" where
  "report_payload rep = JObj
     [(uc ''schema_version'', JInt 1),
      (uc ''dataset'', JObj
        [(uc ''schema_version'', JInt (rep_schema_version rep)), (uc ''name'', JStr (rep_name rep)),
         (uc ''version'', JStr (rep_version rep)), (uc ''snapshot_sha256'', JStr (rep_snapshot_hash rep)),
         (uc ''recall_k'', JInt (rep_recall_k rep))]),
      (uc ''status'', JStr (if report_passed (rep_gates rep) then uc ''passed'' else uc ''failed'')),
      (uc ''metrics'', metrics_payload (rep_metrics rep)),
      (uc ''gates'', JArr (map gate_payload (rep_gates rep))),
      (uc ''cases'', JArr (map result_payload (rep_cases rep)))]"

text \<open>\<open>json.dumps(x, ensure_ascii=False, indent=2, sort_keys=True)\<close> at an indentation.\<close>

definition line_break :: "nat \<Rightarrow> ustr" where
  "line_break n = 10 # replicate (2 * n) 32"

fun json_pretty :: "(pyfloat \<Rightarrow> ustr) \<Rightarrow> nat \<Rightarrow> json \<Rightarrow> ustr" where
  "json_pretty fr n (JArr xs) =
     (if xs = [] then uc ''[]''
      else uc ''['' @ line_break (Suc n) @
        join (uc '','' @ line_break (Suc n)) (map (json_pretty fr (Suc n)) xs) @ line_break n @ uc '']'')"
| "json_pretty fr n (JObj kvs) =
     (if kvs = [] then uc ''{}''
      else uc ''{'' @ line_break (Suc n) @
        join (uc '','' @ line_break (Suc n)) (map (\<lambda>(k, v). json_string k @ uc '': '' @ v)
          (sort_key fst (map (\<lambda>(k, v). (k, json_pretty fr (Suc n) v)) kvs))) @ line_break n @ uc ''}'')"
| "json_pretty fr n v = json_dumps fr v"

text \<open>\<open>f"{value:.3f}"\<close>, of the exact value of the float.\<close>

definition fixed3 :: "pyfloat \<Rightarrow> ustr" where
  "fixed3 x = (let n = round_even (\<bar>x\<bar> * 1000)
     in (if x < 0 then uc ''-'' else []) @ int_str (n div 1000) @ uc ''.'' @ zero_pad 3 (n mod 1000))"

definition metric_text :: "pyfloat option \<Rightarrow> ustr" where
  "metric_text value = (case value of None \<Rightarrow> uc ''n/a'' | Some x \<Rightarrow> fixed3 x)"

definition text_report :: "evaluation_report \<Rightarrow> ustr" where
  "text_report rep =
     (let m = rep_metrics rep; k = int_str (rep_recall_k rep);
          violations = join (uc '', '') (report_violations (rep_gates rep))
      in join [10]
        [uc ''Memory evaluation: '' @ (if report_passed (rep_gates rep) then uc ''PASS'' else uc ''FAIL''),
         uc ''Dataset: '' @ rep_name rep @ uc ''@'' @ rep_version rep,
         uc ''Snapshot: sha256:'' @ rep_snapshot_hash rep,
         uc ''Recall@'' @ k @ uc '': '' @ metric_text (em_recall_at_k m),
         uc ''MRR@'' @ k @ uc '': '' @ metric_text (em_mrr_at_k m),
         uc ''Update accuracy: '' @ metric_text (em_update_accuracy m),
         uc ''Abstention accuracy: '' @ metric_text (em_abstention_accuracy m),
         uc ''Forbidden hits: '' @ int_str (em_forbidden_hits m),
         uc ''Execution failures: '' @ int_str (em_execution_failures m),
         uc ''Failed gates: '' @ (if violations = [] then uc ''none'' else violations)])"

subsection \<open>Commands\<close>

text \<open>The arguments of a run: whether the output is JSON, the file of the report, and the gates.\<close>

record run_arguments =
  ra_json :: bool
  ra_report :: "ustr option"
  ra_gates :: hard_gate_policy

text \<open>The defaults of the options \<open>--min-\<dots>\<close> and \<open>--max-\<dots>\<close>.\<close>

definition strict_gates :: hard_gate_policy where
  "strict_gates = \<lparr>hp_max_forbidden_hits = 0, hp_max_execution_failures = 0, hp_min_recall_at_k = Some 1,
     hp_min_mrr = Some 1, hp_min_update_accuracy = Some 1, hp_min_abstention_accuracy = Some 1\<rparr>"

datatype eval_command =
    ListDatasets
  | ValidateDataset ustr
  | RunDataset ustr run_arguments

record cli_result =
  cl_exit :: int
  cl_out :: "ustr list"
  cl_err :: "ustr list"
  cl_file :: "(ustr \<times> ustr) option"

definition failed_command :: "int \<Rightarrow> ustr \<Rightarrow> cli_result" where
  "failed_command code problem = \<lparr>cl_exit = code, cl_out = [], cl_err = [problem], cl_file = None\<rparr>"

definition start_application :: "env \<Rightarrow> instant \<Rightarrow> (service \<times> run_state) res" where
  "start_application E t =
     (case mk_service (at_time (sequential_ids E) t) None None False 10 (world_of empty_store 0 0 None) of
        (Inl e, w) \<Rightarrow> Inl e
      | (Inr sv, w) \<Rightarrow> Inr (sv, (w, t)))"

text \<open>\<open>_run_evaluation\<close>; \<open>writable path text\<close> says whether the report can be written.\<close>

definition finish_run ::
  "env \<Rightarrow> (ustr \<Rightarrow> ustr \<Rightarrow> bool) \<Rightarrow> run_arguments \<Rightarrow> evaluation_report \<Rightarrow> cli_result" where
  "finish_run E writable args rep =
     (let json_report = json_pretty (e_repr E) 0 (report_payload rep);
          written = map_option (\<lambda>path. (path, json_report @ [10])) (ra_report args)
      in case written of
          Some (path, text) \<Rightarrow>
            if \<not> writable path text
            then failed_command 3 (uc ''evaluation error: report could not be written'')
            else \<lparr>cl_exit = (if report_passed (rep_gates rep) then 0 else 1),
              cl_out = [if ra_json args then json_report else text_report rep], cl_err = [], cl_file = written\<rparr>
        | None \<Rightarrow> \<lparr>cl_exit = (if report_passed (rep_gates rep) then 0 else 1),
            cl_out = [if ra_json args then json_report else text_report rep], cl_err = [], cl_file = None\<rparr>)"

definition run_evaluation ::
  "env \<Rightarrow> (ustr \<Rightarrow> ustr \<Rightarrow> bool) \<Rightarrow> run_arguments \<Rightarrow> evaluation_dataset \<Rightarrow> cli_result res" where
  "run_evaluation E writable args d =
     rbind (mk_hard_gate_policy (ra_gates args)) (\<lambda>policy.
     rbind (evaluation_time d) (\<lambda>t.
     rbind (start_application E t) (\<lambda>(sv, s).
     case evaluate E (evaluation_port (sequential_ids E) sv) d (Some policy) s of
       (Inl e, s') \<Rightarrow> Inr (failed_command 3 (uc ''evaluation error: '' @ uc (error_name e)))
     | (Inr rep, s') \<Rightarrow> Inr (finish_run E writable args rep))))"

text \<open>\<open>main\<close>, given what loading a specifier answers.\<close>

definition eval_main ::
  "env \<Rightarrow> (ustr \<Rightarrow> evaluation_dataset res) \<Rightarrow> (ustr \<Rightarrow> ustr \<Rightarrow> bool) \<Rightarrow> eval_command \<Rightarrow> cli_result res" where
  "eval_main E load writable command =
     (case command of
        ListDatasets \<Rightarrow> Inr \<lparr>cl_exit = 0, cl_out = list_builtin_datasets, cl_err = [], cl_file = None\<rparr>
      | ValidateDataset specifier \<Rightarrow>
          (case load specifier of
             Inl (DatasetValidationError m) \<Rightarrow> Inr (failed_command 2 (uc ''dataset error: '' @ uc m))
           | Inl e \<Rightarrow> Inl e
           | Inr d \<Rightarrow>
               rbind (snapshot_hash E d) (\<lambda>snapshot.
               Inr \<lparr>cl_exit = 0, cl_out = [uc ''valid dataset '' @ ds_name d @ uc ''@'' @ ds_version d @
               uc '' ('' @ int_str (int (length (ds_cases d))) @ uc '' cases, sha256:'' @ snapshot @
               uc '')''], cl_err = [], cl_file = None\<rparr>))
      | RunDataset specifier args \<Rightarrow>
          (case load specifier of
             Inl (DatasetValidationError m) \<Rightarrow> Inr (failed_command 2 (uc ''dataset error: '' @ uc m))
           | Inl e \<Rightarrow> Inl e
           | Inr d \<Rightarrow> run_evaluation E writable args d))"

end
