(* ===== verification/EvaluationCorrect.thy ===== *)
theory EvaluationCorrect
  imports EvaluationRun Operations
begin

text \<open>
  The evaluation is correct: a dataset that was constructed refers only to what came before, a replay
  answers every case in order and never stops at a failing one, the scores lie in the unit interval and
  reach 1 exactly when nothing is missing, and the service under evaluation obeys its own invariant
  because it meets the contract of the replay port.
\<close>

subsection \<open>Datasets that were constructed\<close>

text \<open>The memories a case refers to.\<close>

fun memory_references :: "replay_case \<Rightarrow> memory_reference list" where
  "memory_references (WriteCase c) = []"
| "memory_references (CorrectionCase c) = [kc_target c]"
| "memory_references (RecallCase c) = lc_relevant c @ lc_forbidden c @ map eu_memory (lc_expected_utilities c)"
| "memory_references (OutcomeCase c) = [jc_memory c]"

fun trace_reference :: "replay_case \<Rightarrow> ustr option" where
  "trace_reference (OutcomeCase c) = Some (jc_trace_case_id c)"
| "trace_reference _ = None"

text \<open>A case in its place: what it refers to is among the cases before it, and it does not run earlier.\<close>

definition in_place :: "int \<Rightarrow> replay_case list \<Rightarrow> replay_case \<Rightarrow> bool" where
  "in_place schema before c \<longleftrightarrow>
     (\<forall>r \<in> set (memory_references c). \<forall>i. mr_case_id r = Some i \<longrightarrow>
        (\<exists>b \<in> set before. adds_memory b \<and> case_id b = i)) \<and>
     (\<forall>i. trace_reference c = Some i \<longrightarrow> (\<exists>b \<in> set before. adds_trace b \<and> case_id b = i)) \<and>
     (if schema = 1 then case_run_at c = None \<and> trace_reference c = None
      else \<exists>t. case_run_at c = Some t \<and> (\<forall>b \<in> set before. \<forall>u. case_run_at b = Some u \<longrightarrow> u \<le> t))"

definition well_ordered :: "int \<Rightarrow> replay_case list \<Rightarrow> bool" where
  "well_ordered schema cases \<longleftrightarrow> (\<forall>before c later. cases = before @ c # later \<longrightarrow> in_place schema before c)"

definition dataset_wf :: "evaluation_dataset \<Rightarrow> bool" where
  "dataset_wf d \<longleftrightarrow> stripped (ds_name d) \<and> stripped (ds_version d) \<and> ds_cases d \<noteq> [] \<and> 1 \<le> ds_recall_k d \<and>
     (ds_schema_version d = 1 \<or> ds_schema_version d = 2) \<and> distinct (map case_id (ds_cases d)) \<and>
     well_ordered (ds_schema_version d) (ds_cases d)"

lemma reference_order:
  "validate_reference_order r available i = Inr u \<longleftrightarrow> (\<forall>c. mr_case_id r = Some c \<longrightarrow> c \<in> available)"
  by (auto simp: validate_reference_order_def res_simps split: option.split)

lemma rmap_reference_order:
  "rmap (\<lambda>x. validate_reference_order (f x) available i) xs = Inr ys \<Longrightarrow>
   \<forall>x \<in> set xs. \<forall>c. mr_case_id (f x) = Some c \<longrightarrow> c \<in> available"
  by (induction xs arbitrary: ys) (auto simp: res_simps reference_order)

lemma checked_recall:
  assumes "check_references k memories traces (RecallCase c) = Inr u"
  shows "\<forall>r \<in> set (memory_references (RecallCase c)). \<forall>i. mr_case_id r = Some i \<longrightarrow> i \<in> memories"
proof -
  from assms obtain ys zs where
    "rmap (\<lambda>r. validate_reference_order r memories (lc_case_id c)) (lc_relevant c @ lc_forbidden c) = Inr ys"
    "rmap (\<lambda>u. validate_reference_order (eu_memory u) memories (lc_case_id c)) (lc_expected_utilities c) = Inr zs"
    by (auto simp: res_simps)
  from this(1) [THEN rmap_reference_order [where f = "\<lambda>r. r"]] this(2) [THEN rmap_reference_order]
  show ?thesis by auto
qed

lemma checked_references:
  assumes "check_references k memories traces c = Inr u"
  shows "\<forall>r \<in> set (memory_references c). \<forall>i. mr_case_id r = Some i \<longrightarrow> i \<in> memories"
    and "trace_reference c = Some i \<Longrightarrow> i \<in> traces"
proof -
  show "\<forall>r \<in> set (memory_references c). \<forall>i. mr_case_id r = Some i \<longrightarrow> i \<in> memories"
  proof (cases c)
    case (RecallCase l)
    then show ?thesis using checked_recall assms by simp
  qed (use assms in \<open>auto simp: res_simps reference_order\<close>)
  show "i \<in> traces" if "trace_reference c = Some i"
    using assms that by (cases c) (auto simp: res_simps)
qed

text \<open>What the loop of the constructor has collected from the cases before.\<close>

definition collected :: "replay_case list \<Rightarrow> ustr set \<Rightarrow> ustr set \<Rightarrow> instant option \<Rightarrow> bool" where
  "collected before memories traces previous \<longleftrightarrow>
     memories = case_id ` {b \<in> set before. adds_memory b} \<and> traces = case_id ` {b \<in> set before. adds_trace b} \<and>
     (\<forall>b \<in> set before. \<forall>u. case_run_at b = Some u \<longrightarrow> (\<exists>p. previous = Some p \<and> u \<le> p))"

lemma collected_step:
  assumes "collected before memories traces previous" "check_run_at schema previous c = Inr u" "schema = 1 \<or> schema = 2"
  shows "collected (before @ [c]) (if adds_memory c then insert (case_id c) memories else memories)
     (if adds_trace c then insert (case_id c) traces else traces) (later_run_at previous c)"
  using assms
  by (fastforce simp: collected_def later_run_at_def check_run_at_def res_simps split: option.splits if_splits)

lemma check_cases_in_place:
  assumes "check_cases schema k memories traces previous cs = Inr u" "collected before memories traces previous"
    and "schema = 1 \<or> schema = 2" "cs = mid @ c # later"
  shows "in_place schema (before @ mid) c"
  using assms
proof (induction cs arbitrary: before memories traces previous mid)
  case (Cons x cs)
  from Cons.prems(1) have run: "check_run_at schema previous x = Inr ()"
    and refs: "check_references k memories traces x = Inr ()"
    and rest: "check_cases schema k (if adds_memory x then insert (case_id x) memories else memories)
      (if adds_trace x then insert (case_id x) traces else traces) (later_run_at previous x) cs = Inr u"
    by (auto simp: res_simps)
  show ?case
  proof (cases mid)
    case Nil
    then have x: "x = c" using Cons.prems(4) by simp
    have time: "if schema = 1 then case_run_at c = None \<and> trace_reference c = None
      else \<exists>t. case_run_at c = Some t \<and> (\<forall>b \<in> set before. \<forall>u. case_run_at b = Some u \<longrightarrow> u \<le> t)"
      using run Cons.prems(2) unfolding x
      by (cases c) (fastforce simp: check_run_at_def collected_def res_simps split: option.splits if_splits)+
    show ?thesis
      using checked_references [OF refs] Cons.prems(2) time unfolding in_place_def x Nil collected_def by fastforce
  next
    case (Cons y mid')
    with Cons.prems(4) have y: "y = x" "cs = mid' @ c # later" by simp_all
    show ?thesis
      using Cons.IH [OF rest collected_step [OF Cons.prems(2) run Cons.prems(3)] Cons.prems(3) y(2)] Cons y by simp
  qed
qed simp

lemma mk_dataset_wf:
  assumes "mk_dataset name version cases k schema = Inr d"
  shows "dataset_wf d" "ds_cases d = cases"
proof -
  from assms have c: "check_cases schema k {} {} None cases = Inr ()" "schema = 1 \<or> schema = 2"
    and d: "d = \<lparr>ds_name = strip name, ds_version = strip version, ds_cases = cases, ds_recall_k = k,
       ds_schema_version = schema\<rparr>"
    and r: "cases \<noteq> []" "1 \<le> k" "distinct (map case_id cases)" "strip name \<noteq> []" "strip version \<noteq> []"
    by (auto simp: mk_dataset_def res_simps)
  have "well_ordered schema cases"
    unfolding well_ordered_def
    using check_cases_in_place [OF c(1) _ c(2), of "[]"] by (simp add: collected_def)
  then show "dataset_wf d" "ds_cases d = cases"
    using r c(2) by (simp_all add: d dataset_wf_def strip_stripped)
qed

subsection \<open>A replay answers every case\<close>

definition answers :: "replay_case \<Rightarrow> ('s, case_result) prog \<Rightarrow> bool" where
  "answers c m \<longleftrightarrow> (\<forall>s. \<exists>r t. m s = (Inr r, t) \<and> cr_case_id r = case_id c \<and> cr_kind r = case_kind c)"

text \<open>What a computation returns when it returns, and an attempt whose handler returns a result.\<close>

definition yields :: "('a \<Rightarrow> bool) \<Rightarrow> ('s, 'a) prog \<Rightarrow> bool" where
  "yields Q m \<longleftrightarrow> (\<forall>s r t. m s = (Inr r, t) \<longrightarrow> Q r)"

lemma yields_intros:
  "Q x \<Longrightarrow> yields Q (return x)"
  "(\<And>x. yields Q (f x)) \<Longrightarrow> yields Q (pbind m f)"
  "(\<And>a b. yields Q (g a b)) \<Longrightarrow> yields Q (case p of (a, b) \<Rightarrow> g a b)"
  by (simp_all add: yields_def res_simps split: prod.split) blast+

abbreviation labelled :: "replay_case \<Rightarrow> case_result \<Rightarrow> bool" where
  "labelled c r \<equiv> cr_case_id r = case_id c \<and> cr_kind r = case_kind c"

lemma answers_catch:
  assumes "yields (labelled c) m" "\<And>e. labelled c (h e)"
  shows "answers c (catch m (\<lambda>e. return (h e)))"
  unfolding answers_def
proof
  fix s
  obtain r t where m: "m s = (r, t)" by force
  then show "\<exists>r t. catch m (\<lambda>e. return (h e)) s = (Inr r, t) \<and> labelled c r"
    using assms by (cases r) (auto simp: catch_eval yields_def)
qed

lemma result_labels [simp]:
  "cr_case_id (plain_result i k p) = i" "cr_kind (plain_result i k p) = k"
  "cr_case_id (failed_case i k e) = i" "cr_kind (failed_case i k e) = k"
  "cr_case_id (preference_case_result i k x e') = i" "cr_kind (preference_case_result i k x e') = k"
  "cr_case_id (recall_case_result n c a b u t) = lc_case_id c" "cr_kind (recall_case_result n c a b u t) = RECALL"
  "cr_case_id (failed_recall c e) = lc_case_id c" "cr_kind (failed_recall c e) = RECALL"
  by (simp_all add: plain_result_def failed_case_def preference_case_result_def recall_case_result_def
      failed_recall_def Let_def)

lemma run_replay_case_answers: "answers c (run_replay_case P k found traces c)"
proof (cases c)
  case (WriteCase x)
  show ?thesis unfolding WriteCase run_replay_case.simps run_write_def
    by (intro answers_catch yields_intros; simp)
next
  case (CorrectionCase x)
  show ?thesis unfolding CorrectionCase run_replay_case.simps run_correction_def
    by (intro answers_catch yields_intros; simp)
next
  case (RecallCase x)
  show ?thesis unfolding RecallCase run_replay_case.simps run_recall_def
    by (intro answers_catch yields_intros; simp)
next
  case (OutcomeCase x)
  show ?thesis unfolding OutcomeCase run_replay_case.simps run_outcome_def Let_def
    by (intro answers_catch yields_intros; simp add: plain_result_def)
qed

text \<open>The clock of a port can be set to the times of a dataset.\<close>

definition clock_settable :: "'s replay_port \<Rightarrow> bool" where
  "clock_settable P \<longleftrightarrow> (\<exists>set_clock. rp_set_clock P = Some set_clock \<and> (\<forall>t s. \<exists>s'. set_clock t s = (Inr (), s')))"

lemma set_replay_clock_runs:
  assumes "run_at = None \<or> clock_settable P"
  shows "\<exists>s'. set_replay_clock P run_at s = (Inr (), s')"
  using assms by (auto simp: set_replay_clock_def clock_settable_def split: option.split)

lemma run_cases_answer:
  assumes "\<forall>c \<in> set cs. case_run_at c = None \<or> clock_settable P"
  shows "\<exists>rs t. run_cases P k found traces cs s = (Inr rs, t) \<and>
    map cr_case_id rs = map case_id cs \<and> map cr_kind rs = map case_kind cs"
  using assms
proof (induction cs arbitrary: found traces s)
  case (Cons c cs)
  have "case_run_at c = None \<or> clock_settable P" using Cons.prems by auto
  then obtain s1 where clock: "set_replay_clock P (case_run_at c) s = (Inr (), s1)"
    using set_replay_clock_runs [of "case_run_at c" P s] by blast
  obtain r s2 where r: "run_replay_case P k found traces c s1 = (Inr r, s2)"
    "cr_case_id r = case_id c" "cr_kind r = case_kind c"
    using run_replay_case_answers [of c P k found traces, unfolded answers_def, rule_format, of s1] by blast
  obtain rs t where rs: "run_cases P k (remember_resolved c r found) (remember_trace c r traces) cs s2 = (Inr rs, t)"
    "map cr_case_id rs = map case_id cs" "map cr_kind rs = map case_kind cs"
    using Cons.IH [of "remember_resolved c r found" "remember_trace c r traces" s2] Cons.prems by auto
  show ?case
    by (simp add: pbind_def clock r rs)
qed simp

lemma aggregate_total: "length cases = length results \<Longrightarrow> \<exists>m. aggregate_metrics cases results = Inr m"
  by (simp add: aggregate_metrics_def)

text \<open>The dataset holds no lone surrogate, so that its snapshot can be hashed.\<close>

definition dataset_encodable :: "evaluation_dataset \<Rightarrow> bool" where
  "dataset_encodable d \<longleftrightarrow> json_encodable (dataset_payload d)"

lemma snapshot_hash_eval:
  assumes "reprs_encodable (e_repr E)"
  shows "snapshot_hash E d = (if dataset_encodable d then Inr (e_sha E (json_dumps (e_repr E) (dataset_payload d)))
    else Inl unicode_encode_error)"
  using json_dumps_encodable [OF assms, of "dataset_payload d"] by (simp add: snapshot_hash_def dataset_encodable_def)

lemma evaluate_answers:
  assumes d: "dataset_wf d" and clock: "ds_schema_version d = 1 \<or> clock_settable P"
    and fr: "reprs_encodable (e_repr E)"
  shows "if dataset_encodable d
    then \<exists>rep t. evaluate E P d gates s = (Inr rep, t) \<and>
      map cr_case_id (rep_cases rep) = map case_id (ds_cases d) \<and>
      map cr_kind (rep_cases rep) = map case_kind (ds_cases d) \<and>
      aggregate_metrics (ds_cases d) (rep_cases rep) = Inr (rep_metrics rep) \<and>
      rep_gates rep = evaluate_gates (case gates of None \<Rightarrow> default_gates | Some p \<Rightarrow> p) (rep_metrics rep) \<and>
      snapshot_hash E d = Inr (rep_snapshot_hash rep)
    else \<exists>t. evaluate E P d gates s = (Inl unicode_encode_error, t)"
proof -
  have start: "\<not> (ds_schema_version d = 2 \<and> rp_set_clock P = None)"
    using clock by (auto simp: clock_settable_def)
  have "case_run_at c = None" if c: "c \<in> set (ds_cases d)" and v: "ds_schema_version d = 1" for c
  proof -
    obtain before later where "ds_cases d = before @ c # later" using split_list [OF c] by blast
    then have "in_place 1 before c" using d v by (simp add: dataset_wf_def well_ordered_def)
    then show ?thesis by (simp add: in_place_def)
  qed
  then have "\<forall>c \<in> set (ds_cases d). case_run_at c = None \<or> clock_settable P" using clock by blast
  from run_cases_answer [OF this, of "ds_recall_k d" "[]" "[]" s] obtain rs t where
    rs: "run_cases P (ds_recall_k d) [] [] (ds_cases d) s = (Inr rs, t)"
    "map cr_case_id rs = map case_id (ds_cases d)" "map cr_kind rs = map case_kind (ds_cases d)" by blast
  then have "length (ds_cases d) = length rs" by (metis length_map)
  then obtain m where m: "aggregate_metrics (ds_cases d) rs = Inr m" using aggregate_total by blast
  show ?thesis using start rs(2,3) m snapshot_hash_eval [OF fr, of d]
    by (auto simp: evaluate_def pbind_def [of "run_cases P (ds_recall_k d) [] [] (ds_cases d)"] rs(1) raise_if_def Let_def)
qed

subsection \<open>The contract of a replay port\<close>

text \<open>The cases a dataset is built from carry commands that were constructed.\<close>

fun case_wf :: "replay_case \<Rightarrow> bool" where
  "case_wf (WriteCase c) = remember_wf (wc_command c)"
| "case_wf _ = True"

locale replay_contract = state_relation R for R :: "'s \<Rightarrow> 's \<Rightarrow> bool" +
  fixes P :: "'s replay_port"
  assumes keeps_remember: "remember_wf rm \<Longrightarrow> obeys R (rp_remember P rm)"
    and keeps_correct: "correct_wf cp \<Longrightarrow> obeys R (rp_correct P cp)"
    and keeps_recall: "obeys R (rp_recall P rc)"
    and keeps_outcome: "obeys R (rp_outcome P ro)"
    and keeps_clock: "rp_set_clock P = Some f \<Longrightarrow> obeys R (f t)"
begin

lemma obeys_pair: "(\<And>a b. obeys R (g a b)) \<Longrightarrow> obeys R (case p of (a, b) \<Rightarrow> g a b)"
  by (cases p) simp

lemma obeys_case: "case_wf c \<Longrightarrow> obeys R (run_replay_case P k found traces c)"
proof (cases c)
  case (WriteCase x)
  moreover assume "case_wf c"
  ultimately show ?thesis
    by (auto simp: run_write_def intro!: obeys_intros keeps_remember)
next
  case (CorrectionCase x)
  then show ?thesis
    by (auto simp: run_correction_def intro!: obeys_catch obeys_checked obeys_pbind keeps_correct mk_correct_wf
        obeys_return split: prod.splits)
next
  case (RecallCase x)
  then show ?thesis
    by (auto simp: run_recall_def intro!: obeys_catch obeys_pbind keeps_recall obeys_return obeys_lift_res)
next
  case (OutcomeCase x)
  then show ?thesis
    by (auto simp: run_outcome_def Let_def intro!: obeys_catch obeys_pbind keeps_outcome obeys_return
        obeys_lift_res obeys_pair)
qed

lemma obeys_set_clock: "obeys R (set_replay_clock P run_at)"
  by (auto simp: set_replay_clock_def intro!: obeys_return obeys_throw keeps_clock split: option.split)

lemma obeys_run_cases: "\<forall>c \<in> set cs. case_wf c \<Longrightarrow> obeys R (run_cases P k found traces cs)"
  by (induction cs arbitrary: found traces) (auto intro!: obeys_pbind obeys_return obeys_set_clock obeys_case)

lemma obeys_evaluate: "\<forall>c \<in> set (ds_cases d). case_wf c \<Longrightarrow> obeys R (evaluate E P d gates)"
  unfolding evaluate_def Let_def by (intro obeys_pbind obeys_lift_res obeys_return obeys_run_cases)

end

text \<open>The memory service meets the contract for its own invariant.\<close>

definition keeps_run :: "env \<Rightarrow> service \<Rightarrow> run_state \<Rightarrow> run_state \<Rightarrow> bool" where
  "keeps_run E sv s s' \<longleftrightarrow> w_ids (fst s) \<le> w_ids (fst s') \<and>
     (digests_ok E \<longrightarrow> service_ok sv \<longrightarrow> ids_fresh E (fst s') \<longrightarrow> system_ok E (fst s) \<longrightarrow> system_ok E (fst s'))"

lemma at_time_simps [simp]:
  "e_ids (at_time E t) = e_ids E" "e_sha (at_time E t) = e_sha E" "digests_ok (at_time E t) = digests_ok E"
  "ids_fresh (at_time E t) w = ids_fresh E w" "system_ok (at_time E t) w = system_ok E w"
  by (simp_all add: at_time_def digests_ok_def ids_fresh_def system_ok_def world_ok_def ids_issued_def)

lemma keeps_step:
  assumes "\<And>E w r w'. m E w = (r, w') \<Longrightarrow> service_step E sv (\<lambda>_ _. Inr ()) w w'"
  shows "obeys (keeps_run E sv) (clocked E m)"
  unfolding obeys_def
proof
  fix s :: run_state
  obtain w t where s: "s = (w, t)" by force
  obtain r w' where m: "m (at_time E t) w = (r, w')" by force
  note step = assms [OF m]
  show "keeps_run E sv s (snd (clocked E m s))"
    using service_step_ids [OF step] service_step_keeps [OF _ _ _ step]
    by (simp add: s clocked_def m keeps_run_def)
qed

interpretation evaluated: replay_contract "keeps_run E sv" "evaluation_port E sv" for E sv
proof unfold_locales
  fix s t u :: run_state
  show "keeps_run E sv s s" by (simp add: keeps_run_def)
  show "keeps_run E sv s t \<Longrightarrow> keeps_run E sv t u \<Longrightarrow> keeps_run E sv s u"
    unfolding keeps_run_def using ids_fresh_mono [of E "fst u" "fst t"] by (meson le_trans)
next
  fix rm assume "remember_wf rm"
  then show "obeys (keeps_run E sv) (rp_remember (evaluation_port E sv) rm)"
    unfolding evaluation_port_def by (auto intro!: keeps_step remembering)
next
  fix cp assume "correct_wf cp"
  then show "obeys (keeps_run E sv) (rp_correct (evaluation_port E sv) cp)"
    unfolding evaluation_port_def by (auto intro!: keeps_step correcting)
next
  fix rc show "obeys (keeps_run E sv) (rp_recall (evaluation_port E sv) rc)"
    unfolding evaluation_port_def by (auto intro!: keeps_step recalling)
next
  fix ro show "obeys (keeps_run E sv) (rp_outcome (evaluation_port E sv) ro)"
    unfolding evaluation_port_def by (auto intro!: keeps_step judging)
next
  fix f t assume "rp_set_clock (evaluation_port E sv) = Some f"
  then have "f = set_clock" by (simp add: evaluation_port_def)
  then show "obeys (keeps_run E sv) (f t)"
    by (auto simp: obeys_def keeps_run_def set_clock_def)
qed

lemma evaluation_clock_settable: "clock_settable (evaluation_port E sv)"
  by (auto simp: clock_settable_def evaluation_port_def set_clock_def)

lemma application_starts:
  "\<exists>sv w. start_application E t = Inr (sv, (w, t)) \<and> w_ids w = 2 \<and> s_observation_keys w = [] \<and>
     s_record_identity w = []"
  by (auto simp: start_application_def mk_service_def active_strategy_def world_of_def empty_store_def store.defs
      raise_if_def mk_weights_Inr [THEN iffD2, OF conjI, OF default_weights_ok refl] mk_strategy_def flit_def
      mk_activation_def require_text_def strip_def is_space_def ensure_active_strategy_def save_strategy_def
      fp.rnd_nonneg fp.rnd_le_1 pbind_assoc split: prod.split sum.split)

lemma started_application:
  assumes "start_application E t = Inr (sv, s)"
  shows "system_ok (sequential_ids E) (fst s)" "service_ok sv"
proof -
  let ?E = "at_time (sequential_ids E) t"
  from assms obtain w where run: "mk_service ?E None None False 10 (world_of empty_store 0 0 None) = (Inr sv, w)"
    and s: "s = (w, t)"
    by (auto simp: start_application_def split: prod.splits sum.splits)
  show "system_ok (sequential_ids E) (fst s)" "service_ok sv"
    using starting_ok [OF _ empty_system_ok run] s by simp_all
qed

subsection \<open>Scores\<close>

text \<open>A proper fraction with a denominator below \<open>2 ^ 53\<close> is not rounded up to 1.\<close>

lemma fraction_below_1:
  assumes "m < n" "n \<le> 2 ^ 53"
  shows "fdiv (of_nat m) (of_nat n) < 1"
proof -
  let ?b = "of_int (2 ^ 53 - 1) * 2 powi (- 53) :: rat"
  have "is_double ?b" by (rule is_doubleI) simp_all
  moreover have "of_nat m / of_nat n \<le> ?b"
  proof -
    have "(of_nat m :: rat) \<le> of_nat n - 1" using assms(1) by (simp add: of_nat_diff [symmetric] Suc_leI)
    then have "of_nat m / of_nat n \<le> (of_nat n - 1) / (of_nat n :: rat)" by (rule divide_right_mono) simp
    also have "\<dots> = 1 - 1 / of_nat n" using assms(1) by (simp add: field_simps)
    also have "\<dots> \<le> 1 - 1 / 2 ^ 53"
      using assms of_nat_mono [OF assms(2), where 'a = rat] by (simp add: field_simps)
    also have "\<dots> = ?b" by (simp add: power_int_minus field_simps)
    finally show ?thesis .
  qed
  ultimately have "fdiv (of_nat m) (of_nat n) \<le> ?b" unfolding fdiv_def by (rule fp.rnd_le)
  also have "\<dots> < 1" by (simp add: power_int_minus field_simps)
  finally show ?thesis .
qed

lemma fdiv_self: "0 < n \<Longrightarrow> fdiv (of_nat n) (of_nat n) = 1"
  by (simp add: fdiv_def fp.rnd_1)

lemma recall_score_bounds: "0 \<le> recall_score relevant found \<and> recall_score relevant found \<le> 1"
proof -
  have "card (set relevant \<inter> set found) \<le> card (set relevant)" by (intro card_mono) auto
  then show ?thesis unfolding recall_score_def fdiv_def by (intro fp.unit_div) simp_all
qed

lemma recall_score_1:
  assumes "relevant \<noteq> []" "length relevant \<le> 2 ^ 53"
  shows "recall_score relevant found = 1 \<longleftrightarrow> set relevant \<subseteq> set found"
proof -
  have n: "0 < card (set relevant)" "card (set relevant) \<le> 2 ^ 53"
    using assms card_length [of relevant] by (auto simp: card_gt_0_iff)
  show ?thesis
  proof
    assume "set relevant \<subseteq> set found"
    then have "set relevant \<inter> set found = set relevant" by blast
    then show "recall_score relevant found = 1" using n fdiv_self by (simp add: recall_score_def)
  next
    assume one: "recall_score relevant found = 1"
    show "set relevant \<subseteq> set found"
    proof (rule ccontr)
      assume "\<not> set relevant \<subseteq> set found"
      then have "card (set relevant \<inter> set found) < card (set relevant)"
        by (intro psubset_card_mono) auto
      from fraction_below_1 [OF this n(2)] one show False by (simp add: recall_score_def)
    qed
  qed
qed

lemma reciprocal_bounds:
  assumes "1 \<le> k"
  shows "0 \<le> reciprocal_rank relevant k ms \<and> reciprocal_rank relevant k ms \<le> 1"
  using assms
proof (induction ms arbitrary: k)
  case (Cons m ms)
  have "0 \<le> fdiv 1 (of_int k) \<and> fdiv 1 (of_int k) \<le> 1"
    unfolding fdiv_def using Cons.prems by (intro fp.unit_div) simp_all
  then show ?case using Cons.IH [of "k + 1"] Cons.prems by simp
qed simp

lemma fdiv_le_half: "2 \<le> k \<Longrightarrow> fdiv 1 (of_int k) \<le> 1 / 2"
  unfolding fdiv_def
proof (rule fp.rnd_le)
  have "is_double (of_int 1 * 2 powi (- 1))" by (rule is_doubleI) simp_all
  then show "is_double (1 / 2)" by (simp add: power_int_minus)
  assume "2 \<le> k"
  then have "(2 :: rat) \<le> of_int k" by linarith
  then show "1 / rat_of_int k \<le> 1 / 2" by (simp add: field_simps)
qed

lemma reciprocal_below_1: "2 \<le> k \<Longrightarrow> reciprocal_rank relevant k ms \<le> 1 / 2"
proof (induction ms arbitrary: k)
  case (Cons m ms)
  then show ?case using fdiv_le_half [of k] Cons.IH [of "k + 1"] by simp
qed simp

lemma reciprocal_1:
  "reciprocal_rank relevant 1 ms = 1 \<longleftrightarrow> ms \<noteq> [] \<and> hd ms \<in> relevant"
proof (cases ms)
  case (Cons m rest)
  have "reciprocal_rank relevant 2 rest \<noteq> 1" using reciprocal_below_1 [of 2 relevant rest] by auto
  then show ?thesis using fdiv_self [of 1] Cons by simp
qed simp

subsection \<open>Gates\<close>

definition at_least :: "pyfloat option \<Rightarrow> pyfloat option \<Rightarrow> bool" where
  "at_least observed threshold \<longleftrightarrow>
     (\<forall>t. threshold = Some t \<longrightarrow> (\<exists>v. observed = Some v \<and> t \<le> v))"

lemma passed_minimum: "report_passed (minimum_check name observed threshold) \<longleftrightarrow> at_least observed threshold"
  by (auto simp: report_passed_def minimum_check_def at_least_def split: option.splits)

lemma gates_passed:
  "report_passed (evaluate_gates p m) \<longleftrightarrow>
     em_forbidden_hits m \<le> hp_max_forbidden_hits p \<and> em_execution_failures m \<le> hp_max_execution_failures p \<and>
     at_least (em_recall_at_k m) (hp_min_recall_at_k p) \<and> at_least (em_mrr_at_k m) (hp_min_mrr p) \<and>
     at_least (em_update_accuracy m) (hp_min_update_accuracy p) \<and>
     at_least (em_abstention_accuracy m) (hp_min_abstention_accuracy p)"
  using passed_minimum
  by (simp add: report_passed_def evaluate_gates_def maximum_check_def)

lemma no_failures:
  assumes "aggregate_metrics cases results = Inr m"
  shows "em_execution_failures m \<le> 0 \<longleftrightarrow> (\<forall>r \<in> set results. cr_passed r)"
    and "em_forbidden_hits m \<le> 0 \<longleftrightarrow> (\<forall>r \<in> set results. cr_forbidden_hits r = [])"
  using assms by (auto simp: aggregate_metrics_def res_simps filter_empty_conv)

lemma evaluation_time_total:
  assumes "dataset_wf d"
  shows "\<exists>t. evaluation_time d = Inr t"
proof (cases "ds_schema_version d = 2")
  case True
  obtain c cs where "ds_cases d = [] @ c # cs" using assms by (cases "ds_cases d") (auto simp: dataset_wf_def)
  moreover from this have "in_place 2 [] c" using assms True by (simp add: dataset_wf_def well_ordered_def)
  ultimately show ?thesis using True by (auto simp: evaluation_time_def in_place_def)
qed (simp add: evaluation_time_def Let_def)

end
