(* ===== verification/LoaderCorrect.thy ===== *)
theory LoaderCorrect
  imports Raising Loader EvaluationCorrect
begin

text \<open>
  What the loader promises: its only errors are the errors of a dataset, apart from the overflow of a
  number, and what it returns was built by the constructors.
\<close>

subsection \<open>Errors\<close>

definition contract_errors :: "py_error set" where
  "contract_errors = insert OverflowError (range DomainError \<union> range DatasetValidationError)"

lemma contract_error_members [simp]:
  "DomainError m \<in> contract_errors" "DatasetValidationError m \<in> contract_errors" "OverflowError \<in> contract_errors"
  "invalid path problem \<in> contract_errors"
  by (simp_all add: contract_errors_def invalid_def)

abbreviation loads :: "'a res \<Rightarrow> bool" where "loads \<equiv> raises_in contract_errors"

lemma loads_domain:
  "loads (require_text v f)" "loads (require_utc t f)" "loads (mk_scope a b)" "loads (mk_context fs)"
  unfolding require_text_def require_utc_def mk_scope_def mk_context_def require_facet_def Let_def
  by (intro raises_basic raises_cases contract_error_members)+

lemma loads_constructors:
  "loads (from_mapping m)" "loads (mk_memory_reference c r i)" "loads (validate_expected_sequence n)"
  "loads (normalize_run_at t)" "loads (mk_remember sc s k key v ctx ev cf occ)"
  "loads (mk_recall sc q ctx l va ka)" "loads (mk_expected_utility mem x)"
  unfolding from_mapping_def mk_memory_reference_def validate_expected_sequence_def normalize_run_at_def
    mk_remember_def mk_recall_def mk_expected_utility_def Let_def
  by (intro raises_basic raises_cases contract_error_members loads_domain)+

lemma loads_rejection: "loads (check_expected_error c)"
proof (cases "lc_expected_error c")
  case (Some e)
  then show ?thesis unfolding check_expected_error_def
    by (cases e) (simp, intro raises_basic raises_cases contract_error_members)
qed (simp add: check_expected_error_def raises_basic)

lemma loads_cases:
  "loads (mk_write_case i c n b t)" "loads (mk_recall_case i lc rel forb abst ut er t)"
  "loads (mk_correction_case i tg sc s k v ev rs occ enf n b t)"
  "loads (mk_outcome_case i ti mem sc kd k occ wt nt em b t)"
  unfolding mk_write_case_def mk_correction_case_def mk_recall_case_def mk_outcome_case_def Let_def
  by (intro raises_basic raises_cases contract_error_members loads_domain loads_constructors loads_rejection)+

lemma loads_dataset: "loads (mk_dataset name version cases k schema)"
proof -
  have order: "loads (validate_reference_order r a i)" for r a i
    unfolding validate_reference_order_def by (intro raises_basic raises_cases contract_error_members)
  have time: "loads (check_run_at schema previous c)" for schema previous c
    unfolding check_run_at_def by (intro raises_basic raises_cases contract_error_members)
  have refs: "loads (check_references k memories traces c)" for memories traces c
    by (cases c; simp only: check_references.simps; intro raises_basic raises_cases contract_error_members order)
  have "loads (check_cases schema k memories traces previous cs)" for memories traces previous cs
    by (induction cs arbitrary: memories traces previous)
       (simp_all only: check_cases.simps, (intro raises_basic raises_cases contract_error_members time refs; assumption)+)
  then show ?thesis unfolding mk_dataset_def
    by (intro raises_basic raises_cases contract_error_members loads_domain)
qed

lemma loads_fields:
  "loads (check_fields d path req al)" "loads (as_object raw path)" "loads (as_array raw path)"
  "loads (as_text raw path)" "loads (as_integer raw path)" "loads (as_boolean raw path)"
  "loads (as_number raw path)"
  unfolding check_fields_def as_object_def as_array_def as_text_def as_integer_def as_boolean_def as_number_def
    float_of_int_def Let_def
  by (intro raises_basic contract_error_members |
      (cases raw; simp only: jvalue.case; intro raises_basic raises_cases contract_error_members))+

lemma loads_formats:
  "loads (as_uuid db raw path)" "loads (as_datetime read_iso raw path)"
  "loads (as_optional_datetime read_iso raw path)"
  unfolding as_uuid_def as_optional_datetime_def as_datetime_def
  by (intro raises_basic raises_cases contract_error_members loads_fields)+

lemmas loads_rules = raises_basic raises_cases contract_error_members loads_fields loads_formats

lemma loads_references: "loads (parse_reference db raw path)"
  unfolding parse_reference_def from_case_def from_ids_def Let_def
  by (intro loads_rules loads_constructors)

lemma loads_parts:
  "loads (parse_scope raw path)" "loads (parse_context raw path)" "loads (parse_expected_utility db raw path)"
  "loads (parse_preference_expectation raw path)" "loads (parse_rejection raw path)"
proof -
  show "loads (parse_scope raw path)" unfolding parse_scope_def by (intro loads_rules loads_domain)
  have "loads (as_facet path f)" for f
    unfolding as_facet_def by (cases "snd f") (simp_all add: case_prod_beta loads_rules)
  then show "loads (parse_context raw path)"
    unfolding parse_context_def by (intro loads_rules loads_constructors)
  show "loads (parse_expected_utility db raw path)" unfolding parse_expected_utility_def
    by (intro loads_rules loads_references loads_constructors)
  show "loads (parse_preference_expectation raw path)" unfolding parse_preference_expectation_def Let_def
    by (intro loads_rules)
  show "loads (parse_rejection raw path)" unfolding parse_rejection_def by (intro loads_rules)
qed

lemma loads_all: "(\<And>v p. loads (f v p)) \<Longrightarrow> loads (parse_all f path vs)"
  unfolding parse_all_def by (intro loads_rules)

lemma loads_bodies:
  "loads (parse_write db read_iso schema raw path)" "loads (parse_correction db read_iso schema raw path)"
  "loads (parse_recall db read_iso schema k raw path)" "loads (parse_outcome db read_iso raw path)"
  unfolding parse_write_def parse_correction_def parse_recall_def parse_outcome_def Let_def
  by (intro loads_rules loads_parts loads_references loads_constructors loads_cases loads_all)+

lemma loads_document: "loads (parse_dataset db read_iso raw)"
proof -
  have "loads (parse_case db read_iso schema k v p)" for schema k v p
    unfolding parse_case_def by (intro loads_rules loads_bodies)
  then show ?thesis unfolding parse_dataset_def Let_def
    by (intro loads_rules loads_all loads_dataset)
qed

text \<open>The errors the decoder itself raises somewhere in a text.\<close>

fun faults :: "parse_tree \<Rightarrow> py_error set"
  and faults_items :: "parse_tree list \<Rightarrow> py_error set"
  and faults_pairs :: "(ustr \<times> parse_tree) list \<Rightarrow> py_error set" where
  "faults (PFault e) = {e}"
| "faults (PArray xs) = faults_items xs"
| "faults (PObject ps) = faults_pairs ps"
| "faults _ = {}"
| "faults_items [] = {}"
| "faults_items (x # xs) = faults x \<union> faults_items xs"
| "faults_pairs [] = {}"
| "faults_pairs ((k, x) # ps) = faults x \<union> faults_pairs ps"

lemma decode_errors: "decode t = Inl e \<Longrightarrow> e \<in> range DatasetValidationError \<union> faults t"
  and "decode_items ts = Inl e \<Longrightarrow> e \<in> range DatasetValidationError \<union> faults_items ts"
  and "decode_pairs ps = Inl e \<Longrightarrow> e \<in> range DatasetValidationError \<union> faults_pairs ps"
  by (induction t and ts and ps rule: decode_decode_items_decode_pairs.induct)
     (auto simp: res_simps unique_object_def reject_non_finite_def)

text \<open>What leaves the loader: errors of the dataset, an overflow, and what the text could not be decoded for.\<close>

definition dataset_errors :: "py_error set" where
  "dataset_errors = insert OverflowError (range DatasetValidationError)"

lemma contract_error_mapped: "e \<in> contract_errors \<Longrightarrow> contract_error e \<in> dataset_errors"
  by (auto simp: contract_errors_def dataset_errors_def)

lemma handled:
  "loads r \<Longrightarrow> raises_in dataset_errors (case r of Inl e \<Rightarrow> Inl (contract_error e) | Inr d \<Rightarrow> Inr d)"
  "(case r of Inl e \<Rightarrow> Inl (contract_error e) | Inr d \<Rightarrow> Inr d) = Inr x \<longleftrightarrow> r = Inr x"
  using contract_error_mapped by (cases r; simp add: raises_in_def)+

lemma from_json_errors:
  "raises_in (dataset_errors \<union> (faults tree - {json_decode_error})) (dataset_from_json db read_iso tree)"
proof (cases "decode tree")
  case (Inl e)
  then show ?thesis using decode_errors(1) [of tree e]
    by (auto simp: dataset_from_json_def raises_in_def dataset_errors_def)
next
  case (Inr raw)
  have "loads (rbind (as_object raw ''dataset'') (parse_dataset db read_iso))"
    by (intro loads_rules loads_document)
  from handled(1) [OF this] show ?thesis using Inr by (auto simp: dataset_from_json_def raises_in_def)
qed

text \<open>The text a specifier leads to, when there is one.\<close>

definition document_text :: "(ustr \<Rightarrow> file_text) \<Rightarrow> (ustr \<Rightarrow> file_text) \<Rightarrow> ustr \<Rightarrow> file_text \<Rightarrow> bool" where
  "document_text read_resource read_file specifier answer \<longleftrightarrow>
     answer = read_file (strip specifier) \<or>
     (\<exists>name resource. strip specifier = uc ''builtin:'' @ name \<and> map_of builtin_datasets name = Some resource \<and>
        answer = read_resource resource)"

lemma load_errors:
  assumes "load_dataset db read_iso json_read read_resource read_file specifier = Inl e"
  shows "e \<in> dataset_errors \<or> document_text read_resource read_file specifier (FileError e) \<or>
    (\<exists>source. document_text read_resource read_file specifier (FileText source) \<and>
       e \<in> faults (json_read source) - {json_decode_error})"
proof -
  let ?n = "strip specifier" and ?p = "uc ''builtin:''"
  let ?source = "if take (length ?p) ?n = ?p
           then case map_of builtin_datasets (drop (length ?p) ?n) of
               None \<Rightarrow> Inl (DatasetValidationError ''unknown built-in dataset'')
             | Some resource \<Rightarrow> text_or ''built-in dataset resource is unavailable'' (read_resource resource)
           else text_or ''dataset file cannot be read'' (read_file ?n)"
  have parts: "\<exists>problem. ?source = Inl (DatasetValidationError problem) \<or>
      (\<exists>answer. document_text read_resource read_file specifier answer \<and> ?source = text_or problem answer)"
  proof (cases "take (length ?p) ?n = ?p")
    case True
    then have n: "?n = ?p @ drop (length ?p) ?n" by (metis append_take_drop_id)
    show ?thesis
    proof (cases "map_of builtin_datasets (drop (length ?p) ?n)")
      case (Some resource)
      then have "document_text read_resource read_file specifier (read_resource resource)"
        unfolding document_text_def using n by blast
      then show ?thesis using True Some by auto
    qed (use True in auto)
  next
    case False
    have "document_text read_resource read_file specifier (read_file ?n)" by (simp add: document_text_def)
    then show ?thesis using False by auto
  qed
  have source: "?n = [] \<and> e \<in> range DatasetValidationError \<or> ?source = Inl e \<or>
      (\<exists>source. ?source = Inr source \<and> dataset_from_json db read_iso (json_read source) = Inl e)"
    using assms unfolding load_dataset_def Let_def by (auto simp: res_simps split: if_splits)
  obtain found where found: "?source = found" by blast
  consider "e \<in> dataset_errors"
    | answer problem where "document_text read_resource read_file specifier answer" "text_or problem answer = Inl e"
    | source answer problem where "document_text read_resource read_file specifier answer" "text_or problem answer = Inr source"
      "dataset_from_json db read_iso (json_read source) = Inl e"
    using parts source unfolding found by (elim exE disjE conjE) (simp add: dataset_errors_def; metis)+
  then show ?thesis
  proof cases
    case (2 answer problem)
    then show ?thesis by (cases answer) (auto simp: text_or_def dataset_errors_def)
  next
    case (3 source answer problem)
    then have "document_text read_resource read_file specifier (FileText source)" by (cases answer) (auto simp: text_or_def)
    then show ?thesis using from_json_errors [of "json_read source" db read_iso] 3(3) by (auto simp: raises_in_def)
  qed simp
qed

subsection \<open>What is loaded\<close>

lemma parse_case_wf: "parse_case db read_iso schema k v path = Inr c \<Longrightarrow> case_wf c"
  by (auto simp: parse_case_def parse_write_def mk_write_case_def Let_def res_simps split: if_splits
      dest!: mk_remember_wf)

lemma rmap_all: "rmap f xs = Inr ys \<Longrightarrow> (\<And>x y. f x = Inr y \<Longrightarrow> Q y) \<Longrightarrow> \<forall>y \<in> set ys. Q y"
  by (induction xs arbitrary: ys) (auto simp: res_simps)

lemma parsed_dataset_wf:
  assumes "parse_dataset db read_iso raw = Inr d"
  shows "dataset_wf d \<and> (\<forall>c \<in> set (ds_cases d). case_wf c)"
proof -
  from assms obtain schema k vs cases name version where
    cases: "parse_all (parse_case db read_iso schema k) ''dataset.cases'' vs = Inr cases"
    and d: "mk_dataset name version cases k schema = Inr d"
    by (auto simp: parse_dataset_def Let_def res_simps)
  have "\<forall>c \<in> set cases. case_wf c"
    using cases unfolding parse_all_def by (rule rmap_all) (auto dest: parse_case_wf)
  then show ?thesis using mk_dataset_wf [OF d] by simp
qed

lemma loaded_dataset_wf:
  assumes "load_dataset db read_iso json_read read_resource read_file specifier = Inr d"
  shows "dataset_wf d \<and> (\<forall>c \<in> set (ds_cases d). case_wf c)"
proof -
  from assms obtain parsed where "dataset_from_json db read_iso parsed = Inr d"
    by (auto simp: load_dataset_def Let_def res_simps split: if_splits option.splits)
  then obtain raw where "parse_dataset db read_iso raw = Inr d"
    by (auto simp: dataset_from_json_def res_simps handled split: sum.splits)
  then show ?thesis by (rule parsed_dataset_wf)
qed

end
