(* ===== verification/EvaluationSample.thy ===== *)
theory EvaluationSample
  imports LoaderCorrect RecallProperties
begin

text \<open>
  A small evaluation on the sample collaborators: a document with one labelled write, the dataset it
  is read into, and the application it runs on.  The witnesses of the evaluation properties use them.
\<close>

definition sample_write_document :: "parse_tree \<Rightarrow> parse_tree" where
  "sample_write_document confidence = PObject
     [(uc ''type'', PText (uc ''write'')), (uc ''id'', PText (uc ''w1'')),
      (uc ''scope'', PObject [(uc ''tenant_id'', PText (uc ''t'')), (uc ''subject_id'', PText (uc ''s''))]),
      (uc ''source'', PText (uc ''chat'')), (uc ''idempotency_key'', PText (uc ''k1'')),
      (uc ''key'', PText (uc ''drink'')), (uc ''value'', PText (uc ''tea'')),
      (uc ''context'', PObject [(uc ''k'', PText (uc ''v''))]),
      (uc ''evidence_text'', PText (uc ''i like tea'')), (uc ''confidence'', confidence),
      (uc ''occurred_at'', PText (uc ''1970-01-01T00:00:00Z''))]"

definition sample_document :: "parse_tree \<Rightarrow> parse_tree" where
  "sample_document confidence = PObject
     [(uc ''schema_version'', PInt 1), (uc ''name'', PText (uc ''n'')), (uc ''version'', PText (uc ''1'')),
      (uc ''recall_k'', PInt 1), (uc ''cases'', PArray [sample_write_document confidence])]"

definition sample_write :: write_case where
  "sample_write = \<lparr>wc_case_id = uc ''w1'', wc_command = sample_remember, wc_expected_sequence = None,
     wc_expected_replay = None, wc_run_at = None\<rparr>"

definition sample_dataset :: evaluation_dataset where
  "sample_dataset = \<lparr>ds_name = uc ''n'', ds_version = uc ''1'', ds_cases = [WriteCase sample_write],
     ds_recall_k = 1, ds_schema_version = 1\<rparr>"

text \<open>The document as Python values.\<close>

definition sample_case_fields :: "jvalue \<Rightarrow> jdict" where
  "sample_case_fields confidence =
     [(uc ''type'', VText (uc ''write'')), (uc ''id'', VText (uc ''w1'')),
      (uc ''scope'', VDict [(uc ''tenant_id'', VText (uc ''t'')), (uc ''subject_id'', VText (uc ''s''))]),
      (uc ''source'', VText (uc ''chat'')), (uc ''idempotency_key'', VText (uc ''k1'')),
      (uc ''key'', VText (uc ''drink'')), (uc ''value'', VText (uc ''tea'')),
      (uc ''context'', VDict [(uc ''k'', VText (uc ''v''))]),
      (uc ''evidence_text'', VText (uc ''i like tea'')), (uc ''confidence'', confidence),
      (uc ''occurred_at'', VText (uc ''1970-01-01T00:00:00Z''))]"

definition sample_fields :: "jvalue \<Rightarrow> jdict" where
  "sample_fields confidence =
     [(uc ''schema_version'', VInt 1), (uc ''name'', VText (uc ''n'')), (uc ''version'', VText (uc ''1'')),
      (uc ''recall_k'', VInt 1), (uc ''cases'', VList [VDict (sample_case_fields confidence)])]"

lemma sample_decoded:
  "decode confidence = Inr v \<Longrightarrow> decode (sample_document confidence) = Inr (VDict (sample_fields v))"
  by (simp add: sample_document_def sample_write_document_def unique_object_def sample_fields_def
      sample_case_fields_def)

lemmas field_rules = as_object_def as_array_def as_text_def as_integer_def as_boolean_def as_number_def
  get_field_def get_default_def check_fields_def invalid_def raise_if_def

lemma sample_parts:
  "parse_scope (VDict [(uc ''tenant_id'', VText (uc ''t'')), (uc ''subject_id'', VText (uc ''s''))]) path = Inr sample_scope"
  "parse_context (VDict [(uc ''k'', VText (uc ''v''))]) path = Inr sample_context"
  by (simp_all add: parse_scope_def parse_context_def field_rules mk_scope_def require_text_def strip_def is_space_def
      sample_scope_def sample_context_def as_facet_def from_mapping_def mk_context_def require_facet_def dict_of_def)

lemma sample_parsed_write:
  "parse_write sample_db (\<lambda>_. Some (utc 0)) 1 (sample_case_fields (VFloat (1/2))) path = Inr sample_write"
  by (simp add: parse_write_def sample_case_fields_def timeline_field_def field_rules strip_def is_space_def
      parse_preference_expectation_def sample_parts [simplified] as_datetime_def as_optional_datetime_def mk_remember_def
      mk_write_case_def require_text_def validate_expected_sequence_def normalize_run_at_def sample_write_def
      sample_remember_def utc_def require_utc_def)

lemma sample_parsed_case:
  "parse_case sample_db (\<lambda>_. Some (utc 0)) 1 1 (VDict (sample_case_fields (VFloat (1/2)))) path =
     Inr (WriteCase sample_write)"
proof -
  have "get_field (sample_case_fields (VFloat (1/2))) ''type'' = VText (uc ''write'')"
    by (simp add: get_field_def sample_case_fields_def)
  then show ?thesis
    by (simp add: parse_case_def as_object_def as_text_def sample_parsed_write strip_def is_space_def)
qed

lemma sample_parsed:
  "parse_dataset sample_db (\<lambda>_. Some (utc 0)) (sample_fields (VFloat (1/2))) = Inr sample_dataset"
  by (simp add: parse_dataset_def sample_fields_def field_rules parse_all_def sample_parsed_case strip_def is_space_def
      mk_dataset_def require_text_def check_run_at_def sample_dataset_def sample_write_def)

definition sample_load :: "parse_tree \<Rightarrow> evaluation_dataset res" where
  "sample_load confidence = load_dataset sample_db (\<lambda>_. Some (utc 0)) (\<lambda>_. sample_document confidence)
     (\<lambda>_. FileUnavailable) (\<lambda>_. FileText []) (uc ''file'')"

lemma sample_load_eval:
  "decode confidence = Inr v \<Longrightarrow> sample_load confidence =
     (case parse_dataset sample_db (\<lambda>_. Some (utc 0)) (sample_fields v) of
        Inl e \<Rightarrow> Inl (contract_error e) | Inr d \<Rightarrow> Inr d)"
  by (simp add: sample_load_def load_dataset_def strip_def is_space_def dataset_from_json_def sample_decoded
      as_object_def text_or_def)

lemma sample_loaded: "sample_load (PFloat (1/2)) = Inr sample_dataset"
  by (simp add: sample_load_eval sample_parsed)

lemma huge_integer: "float_of_int (2 ^ 1024) = Inl OverflowError"
proof -
  have "rnd53 (2 ^ 1024) = 2 ^ 1024"
    by (rule fp.rnd_id) (use is_doubleI [of 1 1024] in simp)
  then show ?thesis by (simp add: float_of_int_def flit_def)
qed

lemma sample_overflowing:
  assumes "float_of_int n = Inl OverflowError"
  shows "parse_dataset sample_db (\<lambda>_. Some (utc 0)) (sample_fields (VInt n)) = Inl OverflowError"
proof -
  have "parse_write sample_db (\<lambda>_. Some (utc 0)) 1 (sample_case_fields (VInt n)) path = Inl OverflowError" for path
    by (simp add: parse_write_def sample_case_fields_def timeline_field_def field_rules strip_def is_space_def
      parse_preference_expectation_def sample_parts [simplified] assms)
  moreover have "get_field (sample_case_fields (VInt n)) ''type'' = VText (uc ''write'')"
    by (simp add: get_field_def sample_case_fields_def)
  ultimately have "parse_case sample_db (\<lambda>_. Some (utc 0)) 1 1 (VDict (sample_case_fields (VInt n))) path =
     Inl OverflowError" for path
    by (simp add: parse_case_def as_object_def as_text_def strip_def is_space_def)
  then show ?thesis
    by (simp add: parse_dataset_def sample_fields_def field_rules parse_all_def strip_def is_space_def)
qed

lemma sample_overflow: "sample_load (PInt (2 ^ 1024)) = Inl OverflowError"
  by (simp only: sample_load_eval [OF decode.simps(3)] sample_overflowing [OF huge_integer] sum.case contract_error.simps)

lemma sample_refused:
  "sample_load PConst = Inl (DatasetValidationError ''dataset JSON contains a non-finite number'')"
  by (simp add: sample_load_def load_dataset_def strip_def is_space_def dataset_from_json_def sample_document_def
      sample_write_document_def reject_non_finite_def unique_object_def text_or_def json_decode_error_def)

text \<open>A file that is not UTF-8.\<close>

definition undecodable :: py_error where
  "undecodable = ExternalError ''UnicodeDecodeError''"

lemma sample_undecodable:
  "load_dataset sample_db (\<lambda>_. Some (utc 0)) (\<lambda>_. sample_document (PFloat (1/2)))
     (\<lambda>_. FileUnavailable) (\<lambda>_. FileError undecodable) (uc ''file'') = Inl undecodable"
  by (simp add: load_dataset_def strip_def is_space_def text_or_def undecodable_def)

lemma sample_dataset_wf: "dataset_wf sample_dataset \<and> (\<forall>c \<in> set (ds_cases sample_dataset). case_wf c)"
  using loaded_dataset_wf [OF sample_loaded [unfolded sample_load_def]] .

text \<open>The same dataset under a name that is a lone surrogate.\<close>

lemma sample_broken_wf: "dataset_wf (sample_dataset\<lparr>ds_name := [0xd800]\<rparr>)"
  using sample_dataset_wf by (simp add: dataset_wf_def stripped_def strip_def is_space_def)

definition sample_recall_case :: recall_case where
  "sample_recall_case = \<lparr>lc_case_id = uc ''r1'', lc_command = \<lparr>rc_scope = sample_scope, rc_query = uc ''tea'',
     rc_context = sample_context, rc_limit = 1, rc_valid_at = None, rc_known_at = None\<rparr>,
     lc_relevant = [], lc_forbidden = [], lc_expect_abstention = False, lc_expected_utilities = [],
     lc_expected_error = None, lc_run_at = None\<rparr>"

text \<open>All texts of the dataset can be encoded; with a lone surrogate in its name they cannot.\<close>

lemma sample_reprs: "reprs_encodable (e_repr sample_env)"
  by (simp add: reprs_encodable_def sample_env_def surrogate_def)

lemma sample_dataset_encodable: "dataset_encodable sample_dataset"
  by (simp add: dataset_encodable_def dataset_payload_def sample_dataset_def sample_write_def with_run_at_def
      remember_payload_def sample_remember_def scope_payload_def context_payload_def json_option_def json_time_def
      sample_scope_def sample_context_def surrogate_def)

lemma sample_broken_dataset: "\<not> dataset_encodable (sample_dataset\<lparr>ds_name := [0xd800]\<rparr>)"
  by (simp add: dataset_encodable_def dataset_payload_def surrogate_def)

text \<open>The run of this dataset on a started application: the write is committed and passes.\<close>

lemma sample_sequential:
  "ids_fresh (sequential_ids sample_env) w" if "w_ids w = 8"
proof -
  have "inj_on (of_nat :: nat \<Rightarrow> uuid) {..<15}"
    using sample_ids [of "sample_world\<lparr>w_ids := 9\<rparr>"] by (simp add: ids_fresh_def sample_env_def)
  then have "inj_on (of_nat :: nat \<Rightarrow> uuid) (Suc ` {..<14})" by (rule inj_on_subset) auto
  then have "inj_on (\<lambda>n. of_nat (Suc n) :: uuid) {..<14}"
    using comp_inj_on [of Suc "{..<14}" "of_nat :: nat \<Rightarrow> uuid"] by (simp add: comp_def)
  then show ?thesis using that by (simp add: ids_fresh_def sequential_ids_def)
qed

lemma sample_evaluation:
  obtains sv s rep s' where "start_application sample_env t = Inr (sv, s)"
    "evaluate sample_env (evaluation_port (sequential_ids sample_env) sv) sample_dataset gates s =
       (Inr rep, s')"
    "w_ids (fst s') = 8" "s_revisions (fst s') \<noteq> []"
    "em_forbidden_hits (rep_metrics rep) = 0" "em_execution_failures (rep_metrics rep) = 0"
    "rep_gates rep = evaluate_gates (case gates of None \<Rightarrow> default_gates | Some p \<Rightarrow> p) (rep_metrics rep)"
proof -
  let ?E = "at_time (sequential_ids sample_env) t"
  obtain sv w where start: "start_application sample_env t = Inr (sv, (w, t))"
    and w: "w_ids w = 2" "s_observation_keys w = []" "s_record_identity w = []"
    using application_starts by blast
  have run: "remember_preference ?E sample_remember w =
      (Inr (result_of (staged_candidate ?E (remember_request sample_remember) w) (first_of ?E sample_remember w)),
       first_world ?E sample_remember w)"
    by (rule first_remember [OF sample_remember_ok(2,1)]) (simp_all add: w)
  let ?P = "evaluation_port (sequential_ids sample_env) sv"
  obtain x w' where remembered: "rp_remember ?P sample_remember (w, t) = (Inr x, (w', t))"
    and w': "w_ids w' = 8" "s_revisions w' \<noteq> []"
    by (simp add: evaluation_port_def clocked_def run first_world_fields w)
  let ?r = "preference_case_result (uc ''w1'') WRITE x None"
  have "run_write ?P sample_write (w, t) = (Inr ?r, (w', t))"
    by (simp add: run_write_def sample_write_def catch_def pbind_def remembered preference_expectation_error_def
        replay_error_def)
  then have cases: "run_cases ?P 1 [] [] [WriteCase sample_write] (w, t) = (Inr [?r], (w', t))"
    by (simp add: pbind_def set_replay_clock_def sample_write_def)
  obtain m where m: "aggregate_metrics [WriteCase sample_write] [?r] = Inr m" "em_forbidden_hits m = 0"
      "em_execution_failures m = 0"
    by (simp add: aggregate_metrics_def raise_if_def preference_case_result_def plain_result_def)
  obtain rep where "evaluate sample_env ?P sample_dataset gates (w, t) = (Inr rep, (w', t))"
    and "rep_metrics rep = m"
      "rep_gates rep = evaluate_gates (case gates of None \<Rightarrow> default_gates | Some p \<Rightarrow> p) m"
    using snapshot_hash_eval [OF sample_reprs, of sample_dataset] sample_dataset_encodable
    by (simp add: evaluate_def sample_dataset_def pbind_def cases m [simplified] raise_if_def Let_def del: run_cases.simps)
  then show thesis using that [OF start] w' m by simp
qed

end
