(* ===== verification/EvaluationProperties.thy ===== *)
theory EvaluationProperties
  imports EvaluationSample
begin

text \<open>
  The properties of the offline evaluation: what is loaded is a dataset in order, replaying it always
  answers, the scores mean what they say, the gates decide the exit code, and the application under
  evaluation stays well-formed.
\<close>

text \<open>
  C23: A loaded dataset is well-formed: it has cases with distinct ids, a case refers only to memories of
  earlier writes and corrections and to traces of earlier recalls, in version 2 every case has a time and
  no case runs before an earlier one, and the commands of its writes are stripped of blanks.
\<close>

theorem loaded_datasets_are_well_formed:
  assumes "load_dataset db read_iso json_read read_resource read_file specifier = Inr d"
  shows "dataset_wf d \<and> (\<forall>c \<in> set (ds_cases d). case_wf c)"
  by (rule loaded_dataset_wf [OF assms])

theorem loaded_datasets_are_well_formed_witness:
  "sample_load (PFloat (1/2)) = Inr sample_dataset \<and> dataset_wf sample_dataset"
  using loaded_datasets_are_well_formed [OF sample_loaded [unfolded sample_load_def]] sample_loaded by blast

text \<open>
  C25: Loading fails only in three ways, whatever the document holds: with an error of the dataset, with the
  overflow error of an integer literal too large for a float, or with an error the code does not catch.  The
  last kind is either what reading the file or the resource raised other than an OSError (a
  UnicodeDecodeError when it is not UTF-8), or what parsing the JSON text that was read raised other than a
  JSONDecodeError (a ValueError for an integer literal of too many digits, a RecursionError
  for a document nested too deeply); a file that is missing and a text that is not JSON are errors of the dataset.
\<close>

theorem loading_fails_with_dataset_errors:
  assumes "load_dataset db read_iso json_read read_resource read_file specifier = Inl e"
  shows "(\<exists>m. e = DatasetValidationError m) \<or> e = OverflowError \<or>
    document_text read_resource read_file specifier (FileError e) \<or>
    (\<exists>source. document_text read_resource read_file specifier (FileText source) \<and>
       e \<in> faults (json_read source) \<and> e \<noteq> json_decode_error)"
  using load_errors [OF assms] unfolding dataset_errors_def by blast

theorem loading_fails_with_dataset_errors_witness:
  "(\<exists>e m. sample_load PConst = Inl e \<and> e = DatasetValidationError m) \<and>
   (\<exists>e. load_dataset sample_db (\<lambda>_. Some (utc 0)) (\<lambda>_. sample_document (PFloat (1/2))) (\<lambda>_. FileUnavailable)
     (\<lambda>_. FileError undecodable) (uc ''file'') = Inl e \<and>
     document_text (\<lambda>_. FileUnavailable) (\<lambda>_. FileError undecodable) (uc ''file'') (FileError e))"
  using loading_fails_with_dataset_errors [OF sample_undecodable] sample_undecodable sample_refused
  by (auto simp: undecodable_def sample_document_def sample_write_document_def document_text_def)

text \<open>
  C22: Replaying a well-formed dataset on any application, failing or not, ends with a report: one result
  per case, in the order and of the kind of the cases, the metrics of these results, the checks of the
  gates, and the digest of the dataset; unless a text of the dataset holds a lone surrogate, which the
  digest cannot encode: then the replay ends with a UnicodeEncodeError and no report.
\<close>

theorem evaluation_answers_every_case:
  assumes "dataset_wf d" "ds_schema_version d = 1 \<or> clock_settable P" "reprs_encodable (e_repr E)"
  shows "if dataset_encodable d
    then \<exists>rep t. evaluate E P d gates s = (Inr rep, t) \<and>
      map cr_case_id (rep_cases rep) = map case_id (ds_cases d) \<and>
      map cr_kind (rep_cases rep) = map case_kind (ds_cases d) \<and>
      aggregate_metrics (ds_cases d) (rep_cases rep) = Inr (rep_metrics rep) \<and>
      rep_gates rep = evaluate_gates (case gates of None \<Rightarrow> default_gates | Some p \<Rightarrow> p) (rep_metrics rep) \<and>
      snapshot_hash E d = Inr (rep_snapshot_hash rep)
    else \<exists>t. evaluate E P d gates s = (Inl unicode_encode_error, t)"
  by (rule evaluate_answers [OF assms])

theorem evaluation_answers_every_case_witness:
  "(\<exists>rep t. evaluate sample_env (service_port sample_env sample_service None) sample_dataset None sample_world =
     (Inr rep, t) \<and> map cr_case_id (rep_cases rep) = [uc ''w1'']) \<and>
   (\<exists>t. evaluate sample_env (service_port sample_env sample_service None) (sample_dataset\<lparr>ds_name := [0xd800]\<rparr>) None
     sample_world = (Inl unicode_encode_error, t))"
proof -
  show ?thesis
    using sample_broken_wf evaluation_answers_every_case [of sample_dataset "service_port sample_env sample_service None" sample_env
        None sample_world] sample_dataset_wf sample_dataset_encodable sample_broken_dataset sample_reprs
      evaluation_answers_every_case [of "sample_dataset\<lparr>ds_name := [0xd800]\<rparr>"
        "service_port sample_env sample_service None" sample_env None sample_world]
    by (auto simp: sample_dataset_def sample_write_def)
qed

text \<open>
  The application under evaluation stays well-formed: from a started in-memory application, whatever
  the dataset makes it do at whatever times, its state satisfies the invariant of the memory service.
\<close>

theorem evaluated_application_stays_ok:
  assumes "start_application E t = Inr (sv, s)" "digests_ok E" "\<forall>c \<in> set (ds_cases d). case_wf c"
    and "evaluate E (evaluation_port (sequential_ids E) sv) d gates s = (r, s')"
    and "ids_fresh (sequential_ids E) (fst s')"
  shows "system_ok (sequential_ids E) (fst s')"
proof -
  have "keeps_run (sequential_ids E) sv s s'"
    by (rule obeysD [OF evaluated.obeys_evaluate [OF assms(3)] assms(4)])
  then show ?thesis
    using started_application [OF assms(1)] assms(2,5) by (simp add: keeps_run_def digests_ok_def sequential_ids_def)
qed

theorem evaluated_application_stays_ok_witness:
  "\<exists>sv s rep s'. evaluate sample_env (evaluation_port (sequential_ids sample_env) sv)
     sample_dataset None s = (Inr rep, s') \<and> s_revisions (fst s') \<noteq> [] \<and>
     system_ok (sequential_ids sample_env) (fst s')"
proof -
  obtain sv s rep s' where start: "start_application sample_env 0 = Inr (sv, s)"
    and run: "evaluate sample_env (evaluation_port (sequential_ids sample_env) sv) sample_dataset None s =
       (Inr rep, s')"
    and s': "w_ids (fst s') = 8" "s_revisions (fst s') \<noteq> []"
    by (rule sample_evaluation [of 0 None]) (rule that; assumption)
  have "\<forall>c \<in> set (ds_cases sample_dataset). case_wf c" using sample_dataset_wf by blast
  from evaluated_application_stays_ok [OF start sample_digests this run sample_sequential [OF s'(1)]]
  show ?thesis using run s' by blast
qed

text \<open>
  The scores of a recall case: recall at k and the reciprocal rank lie in the unit interval, the
  first is 1 exactly when every relevant memory is among the first k results, the second exactly when the
  very first result is relevant, and the forbidden hits are exactly the forbidden memories retrieved.
\<close>

theorem recall_scores_are_exact:
  assumes "lc_expected_error c = None" "relevant \<noteq> []" "length relevant \<le> 2 ^ 53"
  shows "\<exists>x y. cr_recall_at_k (recall_case_result k c relevant forbidden utilities trace) = Some x \<and>
    cr_reciprocal_rank (recall_case_result k c relevant forbidden utilities trace) = Some y \<and>
    0 \<le> x \<and> x \<le> 1 \<and> 0 \<le> y \<and> y \<le> 1 \<and>
    (x = 1 \<longleftrightarrow> (\<forall>m \<in> set relevant. m \<in> set (take (nat k)
       (map (\<lambda>i. (it_record_id i, it_revision_id i)) (rt_items trace))))) \<and>
    (y = 1 \<longleftrightarrow> 0 < nat k \<and> rt_items trace \<noteq> [] \<and>
       (it_record_id (hd (rt_items trace)), it_revision_id (hd (rt_items trace))) \<in> set relevant) \<and>
    (cr_forbidden_hits (recall_case_result k c relevant forbidden utilities trace) = [] \<longleftrightarrow>
       (\<forall>i \<in> set (rt_items trace). (it_record_id i, it_revision_id i) \<notin> forbidden))"
proof -
  let ?ms = "map (\<lambda>i. (it_record_id i, it_revision_id i)) (rt_items trace)"
  have "take (nat k) ?ms \<noteq> [] \<and> hd (take (nat k) ?ms) \<in> set relevant \<longleftrightarrow> 0 < nat k \<and> rt_items trace \<noteq> [] \<and>
      (it_record_id (hd (rt_items trace)), it_revision_id (hd (rt_items trace))) \<in> set relevant"
    by (cases "rt_items trace"; cases "nat k") simp_all
  then show ?thesis
    using assms recall_score_bounds [of relevant "take (nat k) ?ms"] recall_score_1 [OF assms(2,3), of "take (nat k) ?ms"]
      reciprocal_bounds [of 1 "set relevant" "take (nat k) ?ms"] reciprocal_1 [of "set relevant" "take (nat k) ?ms"]
    by (simp add: recall_case_result_def plain_result_def Let_def filter_empty_conv subset_eq)
qed

text \<open>The exit code of a run that ended with a report.\<close>

definition gates_met :: "hard_gate_policy \<Rightarrow> evaluation_metrics \<Rightarrow> bool" where
  "gates_met p m \<longleftrightarrow>
     em_forbidden_hits m \<le> hp_max_forbidden_hits p \<and>
     em_execution_failures m \<le> hp_max_execution_failures p \<and>
     at_least (em_recall_at_k m) (hp_min_recall_at_k p) \<and>
     at_least (em_mrr_at_k m) (hp_min_mrr p) \<and>
     at_least (em_update_accuracy m) (hp_min_update_accuracy p) \<and>
     at_least (em_abstention_accuracy m) (hp_min_abstention_accuracy p)"

lemma finished_run:
  assumes "mk_hard_gate_policy (ra_gates args) = Inr p" "\<forall>path content. writable path content"
    and "evaluation_time d = Inr t" "start_application E t = Inr (sv, s)"
    and rep: "evaluate E (evaluation_port (sequential_ids E) sv) d (Some p) s = (Inr rep, s')"
      "aggregate_metrics (ds_cases d) (rep_cases rep) = Inr (rep_metrics rep)"
      "rep_gates rep = evaluate_gates p (rep_metrics rep)"
  shows "\<exists>r. run_evaluation E writable args d = Inr r \<and> (cl_exit r = 0 \<or> cl_exit r = 1) \<and>
    (cl_exit r = 0 \<longleftrightarrow> gates_met p (rep_metrics rep)) \<and>
    (cl_exit r = 0 \<and> hp_max_forbidden_hits p = 0 \<and> hp_max_execution_failures p = 0 \<longrightarrow>
       (\<forall>x \<in> set (rep_cases rep). cr_passed x \<and> cr_forbidden_hits x = []))"
proof -
  let ?r = "finish_run E writable args rep"
  have "run_evaluation E writable args d = Inr ?r"
    using assms(1,3,4) rep(1) by (simp add: run_evaluation_def)
  moreover have code: "cl_exit ?r = (if report_passed (rep_gates rep) then 0 else 1)"
    using assms(2) by (simp add: finish_run_def Let_def split: option.split)
  moreover have "cl_exit ?r = 0 \<longleftrightarrow> gates_met p (rep_metrics rep)"
    by (simp add: code rep(3) gates_passed gates_met_def)
  moreover have "\<forall>x \<in> set (rep_cases rep). cr_passed x \<and> cr_forbidden_hits x = []"
    if "report_passed (rep_gates rep)" "hp_max_forbidden_hits p = 0" "hp_max_execution_failures p = 0"
    using that no_failures [OF rep(2)] unfolding rep(3) gates_passed by simp
  ultimately show ?thesis by (intro exI [of _ ?r]) (auto split: if_splits)
qed

text \<open>
  C24: The exit code of a run on a well-formed dataset is 0 exactly when every gate is met, 1 when the replay
  ended with a gate that is not: in particular with no tolerance for failures a run that exits with 0 had no
  failing case and retrieved no forbidden memory.  It is 3, with no report, when a text of the dataset holds a
  lone surrogate.
\<close>

theorem exit_code_reports_the_gates:
  assumes "dataset_wf d" "mk_hard_gate_policy (ra_gates args) = Inr p" "\<forall>path content. writable path content"
    and "reprs_encodable (e_repr E)"
  shows "if dataset_encodable d
    then \<exists>t sv s rep s' r. evaluation_time d = Inr t \<and> start_application E t = Inr (sv, s) \<and>
      evaluate E (evaluation_port (sequential_ids E) sv) d (Some p) s = (Inr rep, s') \<and>
      run_evaluation E writable args d = Inr r \<and> (cl_exit r = 0 \<or> cl_exit r = 1) \<and>
      (cl_exit r = 0 \<longleftrightarrow>
         em_forbidden_hits (rep_metrics rep) \<le> hp_max_forbidden_hits p \<and>
         em_execution_failures (rep_metrics rep) \<le> hp_max_execution_failures p \<and>
         at_least (em_recall_at_k (rep_metrics rep)) (hp_min_recall_at_k p) \<and>
         at_least (em_mrr_at_k (rep_metrics rep)) (hp_min_mrr p) \<and>
         at_least (em_update_accuracy (rep_metrics rep)) (hp_min_update_accuracy p) \<and>
         at_least (em_abstention_accuracy (rep_metrics rep)) (hp_min_abstention_accuracy p)) \<and>
      (cl_exit r = 0 \<and> hp_max_forbidden_hits p = 0 \<and> hp_max_execution_failures p = 0 \<longrightarrow>
         (\<forall>x \<in> set (rep_cases rep). cr_passed x \<and> cr_forbidden_hits x = []))
    else \<exists>r. run_evaluation E writable args d = Inr r \<and> cl_exit r = 3 \<and> cl_out r = [] \<and> cl_file r = None"
proof -
  obtain t where t: "evaluation_time d = Inr t" using evaluation_time_total [OF assms(1)] by blast
  obtain sv s where start: "start_application E t = Inr (sv, s)" using application_starts by blast
  note answers = evaluate_answers [OF assms(1), of "evaluation_port (sequential_ids E) sv" E "Some p" s]
  show ?thesis
  proof (cases "dataset_encodable d")
    case False
    then obtain s' where "evaluate E (evaluation_port (sequential_ids E) sv) d (Some p) s = (Inl unicode_encode_error, s')"
      using answers evaluation_clock_settable assms(4) by auto
    then have "run_evaluation E writable args d =
        Inr (failed_command 3 (uc ''evaluation error: '' @ uc (error_name unicode_encode_error)))"
      using assms(2) t start by (simp add: run_evaluation_def)
    then show ?thesis using False by (simp add: failed_command_def)
  next
    case True
    show ?thesis unfolding if_P [OF True]
    proof -
      obtain rep s' where rep: "evaluate E (evaluation_port (sequential_ids E) sv) d (Some p) s = (Inr rep, s')"
        "aggregate_metrics (ds_cases d) (rep_cases rep) = Inr (rep_metrics rep)"
        "rep_gates rep = evaluate_gates p (rep_metrics rep)"
        using answers evaluation_clock_settable assms(4) True by auto
      show "\<exists>t sv s rep s' r. evaluation_time d = Inr t \<and> start_application E t = Inr (sv, s) \<and>
        evaluate E (evaluation_port (sequential_ids E) sv) d (Some p) s = (Inr rep, s') \<and>
        run_evaluation E writable args d = Inr r \<and> (cl_exit r = 0 \<or> cl_exit r = 1) \<and>
        (cl_exit r = 0 \<longleftrightarrow>
           em_forbidden_hits (rep_metrics rep) \<le> hp_max_forbidden_hits p \<and>
           em_execution_failures (rep_metrics rep) \<le> hp_max_execution_failures p \<and>
           at_least (em_recall_at_k (rep_metrics rep)) (hp_min_recall_at_k p) \<and>
           at_least (em_mrr_at_k (rep_metrics rep)) (hp_min_mrr p) \<and>
           at_least (em_update_accuracy (rep_metrics rep)) (hp_min_update_accuracy p) \<and>
           at_least (em_abstention_accuracy (rep_metrics rep)) (hp_min_abstention_accuracy p)) \<and>
        (cl_exit r = 0 \<and> hp_max_forbidden_hits p = 0 \<and> hp_max_execution_failures p = 0 \<longrightarrow>
           (\<forall>x \<in> set (rep_cases rep). cr_passed x \<and> cr_forbidden_hits x = []))"
        using finished_run [OF assms(2,3) t start rep, unfolded gates_met_def] t start rep(1) by blast
    qed
  qed
qed

theorem exit_code_reports_the_gates_witness:
  "(\<exists>r. run_evaluation sample_env (\<lambda>_ _. True) \<lparr>ra_json = False, ra_report = None, ra_gates = default_gates\<rparr>
     sample_dataset = Inr r \<and> cl_exit r \<in> {0, 1}) \<and>
   (\<exists>r. run_evaluation sample_env (\<lambda>_ _. True) \<lparr>ra_json = False, ra_report = None, ra_gates = default_gates\<rparr>
     (sample_dataset\<lparr>ds_name := [0xd800]\<rparr>) = Inr r \<and> cl_exit r = 3)"
proof -
  have "dataset_wf sample_dataset" "dataset_wf (sample_dataset\<lparr>ds_name := [0xd800]\<rparr>)"
    using sample_dataset_wf sample_broken_wf by simp_all
  moreover have "mk_hard_gate_policy default_gates = Inr default_gates"
    by (simp add: mk_hard_gate_policy_def default_gates_def check_minimum_def raise_if_def)
  ultimately show ?thesis
    using exit_code_reports_the_gates [of sample_dataset
        "\<lparr>ra_json = False, ra_report = None, ra_gates = default_gates\<rparr>" default_gates "\<lambda>_ _. True" sample_env]
      exit_code_reports_the_gates [of "sample_dataset\<lparr>ds_name := [0xd800]\<rparr>"
        "\<lparr>ra_json = False, ra_report = None, ra_gates = default_gates\<rparr>" default_gates "\<lambda>_ _. True" sample_env]
      sample_dataset_encodable sample_broken_dataset sample_reprs
    by auto
qed

theorem recall_scores_are_exact_witness:
  "\<exists>x. cr_recall_at_k (recall_case_result 1 sample_recall_case [(3, 4)] {} [] sample_trace) = Some x \<and> x = 1"
proof -
  have "lc_expected_error sample_recall_case = None" "[(3 :: uuid, 4 :: uuid)] \<noteq> []" "length [(3 :: uuid, 4 :: uuid)] \<le> 2 ^ 53"
    by (simp_all add: sample_recall_case_def)
  from recall_scores_are_exact [OF this, of 1 "{}" "[]" sample_trace] show ?thesis
    by (auto simp: sample_trace_def sample_item_def)
qed

end
