(* ===== verification/DomainProperties.thy ===== *)
theory DomainProperties
  imports Sample
begin

text \<open>
  Properties of the domain values: contexts are canonical and identified by their fingerprint text (as
  long as no facet uses the separators), and reinforcing a belief keeps it well-formed and never weakens
  it below the cap.
\<close>

subsection \<open>Contexts\<close>

text \<open>
  A context is canonical: it does not depend on the order in which the facets are given, building it
  again from its own facets changes nothing, and reading it as a dictionary gives exactly its facets.
\<close>

theorem context_is_canonical:
  assumes "mk_context fs = Inr c" "mset gs = mset fs"
  shows "mk_context gs = Inr c \<and> mk_context (facets c) = Inr c \<and> as_dict c = facets c \<and>
    sorted (facets c) \<and> distinct (map fst (facets c))"
  using mk_context_perm [OF assms(2) [symmetric] assms(1)] mk_context_ok [OF assms(1)] mk_context_idem as_dict_facets
  by (simp add: context_ok_def)

theorem context_is_canonical_witness:
  "mk_context [(uc ''b'', uc ''2''), (uc ''a'', uc ''1'')] = Inr \<lparr>facets = [(uc ''a'', uc ''1''), (uc ''b'', uc ''2'')]\<rparr>"
proof -
  let ?fs = "[(uc ''a'', uc ''1''), (uc ''b'', uc ''2'')]"
  have "context_ok \<lparr>facets = ?fs\<rparr>" by (simp add: context_ok_def stripped_def is_space_def)
  then have "mk_context ?fs = Inr \<lparr>facets = ?fs\<rparr>" using mk_context_idem by fastforce
  from context_is_canonical [OF this, of "rev ?fs"] show ?thesis by simp
qed

text \<open>
  Two contexts whose facets are free of the two separator characters have the same fingerprint text
  only if they are the same context, so records of different contexts never share an identity (up to
  collisions of the digest itself).
\<close>

theorem fingerprint_identifies:
  assumes "separator_free a" "separator_free b"
  shows "fingerprint_text a = fingerprint_text b \<longleftrightarrow> a = b"
  using fingerprint_text_inj [OF assms] by blast

theorem fingerprint_identifies_witness:
  "fingerprint_text sample_context \<noteq> fingerprint_text \<lparr>facets = [(uc ''k'', uc ''w'')]\<rparr>"
  using fingerprint_identifies [of sample_context "\<lparr>facets = [(uc ''k'', uc ''w'')]\<rparr>"]
  by (simp add: separator_free_def sample_context_def)

text \<open>The separators are allowed inside facets, and then two contexts can share a fingerprint.\<close>

lemma fingerprint_collision:
  "\<exists>a b. context_ok a \<and> context_ok b \<and> a \<noteq> b \<and> fingerprint sha a = fingerprint sha b"
proof (intro exI conjI)
  let ?a = "\<lparr>facets = [(uc ''a'', uc ''1'' @ [0x1f] @ uc ''b'' @ [0x1e] @ uc ''2'')]\<rparr>"
  let ?b = "\<lparr>facets = [(uc ''a'', uc ''1''), (uc ''b'', uc ''2'')]\<rparr>"
  show "context_ok ?a" "context_ok ?b" by (simp_all add: context_ok_def stripped_def is_space_def)
  show "?a \<noteq> ?b" by simp
  show "fingerprint sha ?a = fingerprint sha ?b" by (simp add: fingerprint_def fingerprint_text_def)
qed

text \<open>
  Reinforcing a well-formed belief with an evidence confidence in range succeeds, gives a well-formed
  belief with one more support and no more contradictions, dated by the later evidence, whose confidence
  stays under the cap and never falls below the smaller of the old confidence and the cap, up to the
  rounding of two floating point operations.
\<close>

theorem reinforcement_strengthens:
  assumes "belief_ok b" "0 \<le> e" "e \<le> 1" "stripped s"
  shows "\<exists>b'. reinforced b e (utc t) (Some s) = Inr b' \<and> belief_ok b' \<and>
    bs_support_count b' = bs_support_count b + 1 \<and> bs_contradiction_count b' = bs_contradiction_count b \<and>
    bs_last_evidence_at b' = max (bs_last_evidence_at b) t \<and> bs_confidence b' \<le> flit (995/1000) \<and>
    min (flit (995/1000)) (bs_confidence b - 2 / 2 ^ 53) \<le> bs_confidence b'"
proof -
  let ?c = "bs_confidence b"
  let ?x = "fmul (fsub 1 ?c) (fsub 1 e)"
  have c: "0 \<le> ?c" "?c \<le> 1" using assms(1) by (simp_all add: belief_ok_def)
  have u: "0 \<le> fsub 1 ?c" "fsub 1 ?c \<le> 1" "0 \<le> fsub 1 e" "fsub 1 e \<le> 1"
    using fp.unit_compl [of ?c] fp.unit_compl [of e] c assms(2,3) by (simp_all add: fsub_def)
  have "fsub 1 ?c * fsub 1 e \<le> fsub 1 ?c" using mult_left_mono [OF u(4,1)] by simp
  then have x: "?x \<le> fsub 1 ?c" unfolding fmul_def by (rule fp.rnd_le [OF is_double_fsub])
  have "\<bar>fsub 1 ?c - (1 - ?c)\<bar> \<le> 1 / 2 ^ 53" unfolding fsub_def by (rule rnd53_error_unit) (use c in simp)
  moreover have "0 \<le> ?x" unfolding fmul_def using u by (intro rnd53_nonneg) simp
  then have "\<bar>fsub 1 ?x - (1 - ?x)\<bar> \<le> 1 / 2 ^ 53"
    unfolding fsub_def [of 1 ?x] by (intro rnd53_error_unit) (use x u in linarith)
  ultimately have low: "?c - 2 / 2 ^ 53 \<le> fsub 1 ?x" using x by linarith
  have "\<exists>b'. reinforced b e (utc t) (Some s) = Inr b'" using reinforced_Inr [OF assms] by blast
  moreover have "belief_ok (reinforced_belief b e t s)" by (rule reinforced_belief_ok [OF assms])
  ultimately show ?thesis
    using low by (auto simp: reinforced_eval [OF assms] reinforced_belief_def)
qed

definition sample_belief :: belief_state where
  "sample_belief = \<lparr>bs_confidence = 1/2, bs_support_count = 1, bs_contradiction_count = 0,
     bs_source_diversity = 1, bs_last_evidence_at = 5, bs_source_keys = [uc ''chat'']\<rparr>"

lemma sample_belief_ok: "belief_ok sample_belief" "stripped (uc ''chat'')"
  by (simp_all add: belief_ok_def sample_belief_def stripped_def is_space_def)

theorem reinforcement_strengthens_witness:
  "\<exists>b'. reinforced sample_belief (1/2) (utc 9) (Some (uc ''chat'')) = Inr b' \<and> belief_ok b' \<and>
     bs_support_count b' = 2 \<and> bs_last_evidence_at b' = 9"
  using reinforcement_strengthens [OF sample_belief_ok(1), of "1/2" "uc ''chat''" 9] sample_belief_ok(2)
  by (auto simp: sample_belief_def)

text \<open>A belief that was certain is weakened by any further evidence: the cap is below 1.\<close>

lemma reinforcement_lowers_certainty:
  assumes "belief_ok b" "bs_confidence b = 1" "0 \<le> e" "e \<le> 1" "stripped s"
  shows "\<exists>b'. reinforced b e (utc t) (Some s) = Inr b' \<and> bs_confidence b' < bs_confidence b"
proof -
  have "flit (995/1000) < 1" using flit_near [of "995/1000"] ulp1_small by linarith
  then show ?thesis using assms(2) by (simp add: reinforced_Inr [OF assms(1,3,4,5)])
qed

end
