(* ===== verification/EvolutionTotal.thy ===== *)
theory EvolutionTotal
  imports EvolutionCorrect
begin

text \<open>
  Advancing an experiment with a receipt that verifies and matches succeeds: nothing else can refuse it
  once its ids are unused and, for an activation, the active strategy is the one the experiment expects.
\<close>

definition activates :: "evolution_experiment \<Rightarrow> experiment_stage \<Rightarrow> bool" where
  "activates e target \<longleftrightarrow> ex_stage e = CANARY \<and> target = PROMOTED \<or> ex_stage e = PROMOTED \<and> target = ROLLED_BACK"

text \<open>The strategy an activating transition replaces, and the one it puts in its place.\<close>

definition outgoing :: "evolution_experiment \<Rightarrow> experiment_stage \<Rightarrow> uuid" where
  "outgoing e target = (if target = PROMOTED then ex_baseline_id e else ex_candidate_id e)"

definition incoming :: "evolution_experiment \<Rightarrow> experiment_stage \<Rightarrow> uuid" where
  "incoming e target = (if target = PROMOTED then ex_candidate_id e else ex_baseline_id e)"

definition activation_of :: "env \<Rightarrow> evolution_experiment \<Rightarrow> experiment_stage \<Rightarrow> ustr \<Rightarrow> world \<Rightarrow> strategy_activation" where
  "activation_of E e target reason w = \<lparr>sa_id = e_ids E (Suc (w_ids w)), sa_strategy_id = incoming e target,
     sa_kind = (if target = PROMOTED then PROMOTION else ROLLBACK), sa_activated_at = e_clock E (w_ticks w),
     sa_reason = strip reason, sa_previous_id = Some (outgoing e target), sa_experiment_id = Some (ex_id e)\<rparr>"

definition transition_of :: "env \<Rightarrow> evolution_experiment \<Rightarrow> experiment_stage \<Rightarrow> gate_receipt \<Rightarrow> ustr \<Rightarrow> world \<Rightarrow>
    experiment_transition_event" where
  "transition_of E e target r key w = \<lparr>et_id = e_ids E (w_ids w), et_experiment_id = ex_id e, et_to_stage = target,
     et_transitioned_at = e_clock E (w_ticks w), et_reason = strip (gr_reason r),
     et_evidence_ref = strip (gr_artifact_ref r), et_idempotency_key = strip key,
     et_request_fingerprint = advance_fingerprint E (ex_id e) target r, et_from_stage = Some (ex_stage e)\<rparr>"

definition ticking :: "nat \<Rightarrow> world \<Rightarrow> world" where
  "ticking n w = w\<lparr>w_ticks := Suc (w_ticks w), w_ids := n + w_ids w\<rparr>"

lemma ticking_store:
  "s_strategies (ticking n w) = s_strategies w" "s_strategy_activations (ticking n w) = s_strategy_activations w"
  "s_experiments (ticking n w) = s_experiments w"
  "s_experiment_transitions (ticking n w) = s_experiment_transitions w"
  "s_experiment_transition_ids (ticking n w) = s_experiment_transition_ids w"
  "s_experiment_transition_keys (ticking n w) = s_experiment_transition_keys w"
  "active_strategy (ticking n w) = active_strategy w"
  by (simp_all add: ticking_def active_strategy_def)

lemma registered_strategies:
  assumes ok: "registry_ok s" and e: "map_of (s_experiments s) i = Some e"
  shows "ex_id e = i" "experiment_ok e" "map_of (s_strategies s) (ex_candidate_id e) \<noteq> None"
    "map_of (s_strategies s) (ex_baseline_id e) \<noteq> None" "map_of (s_experiment_transitions s) i \<noteq> None"
proof -
  note X = registry_okD(4) [OF ok, unfolded experiments_ok_def]
  then show "ex_id e = i" "experiment_ok e" "map_of (s_experiment_transitions s) i \<noteq> None" using e by blast+
  obtain c where c: "map_of (s_strategies s) (ex_candidate_id e) = Some c" "st_parent_id c = Some (ex_baseline_id e)"
    using X e by blast
  then show "map_of (s_strategies s) (ex_candidate_id e) \<noteq> None" by simp
  have "parent_ok (s_strategies s) c" using registry_okD(1) [OF ok] c(1) unfolding strategies_ok_def by blast
  then show "map_of (s_strategies s) (ex_baseline_id e) \<noteq> None" using c(2) by (auto simp: parent_ok_def)
qed

definition advanced :: "env \<Rightarrow> evolution_experiment \<Rightarrow> experiment_stage \<Rightarrow> world \<Rightarrow> evolution_experiment" where
  "advanced E e target w = e\<lparr>ex_stage := target, ex_updated_at := e_clock E (w_ticks w)\<rparr>"

lemma advanced_fields [simp]:
  "ex_id (advanced E e target w) = ex_id e" "ex_baseline_id (advanced E e target w) = ex_baseline_id e"
  "ex_candidate_id (advanced E e target w) = ex_candidate_id e" "ex_created_at (advanced E e target w) = ex_created_at e"
  "ex_stage (advanced E e target w) = target" "ex_updated_at (advanced E e target w) = e_clock E (w_ticks w)"
  by (simp_all add: advanced_def)

lemma transition_of_fields [simp]:
  "et_id (transition_of E e target r key w) = e_ids E (w_ids w)"
  "et_experiment_id (transition_of E e target r key w) = ex_id e"
  "et_from_stage (transition_of E e target r key w) = Some (ex_stage e)"
  "et_to_stage (transition_of E e target r key w) = target"
  "et_transitioned_at (transition_of E e target r key w) = e_clock E (w_ticks w)"
  "et_idempotency_key (transition_of E e target r key w) = strip key"
  "et_reason (transition_of E e target r key w) = strip (gr_reason r)"
  by (simp_all add: transition_of_def)

lemma advance_result:
  assumes ok: "registry_ok w" and cur: "map_of (s_experiments w) i = Some e"
    and ver: "verifier r (utc (e_clock E (w_ticks w))) = Inr ()" and match: "require_matching_gate_receipt e target r = Inr ()"
    and edge: "legal_edge (ex_stage e) target" and clock: "ex_updated_at e \<le> e_clock E (w_ticks w)"
    and worded: "strip (gr_reason r) \<noteq> []" "strip (gr_artifact_ref r) \<noteq> []" "strip key \<noteq> []"
    and free: "map_of (s_experiment_transition_keys w) (strip key) = None" and E: "digests_ok E"
    and new: "e_ids E (w_ids w) \<notin> s_experiment_transition_ids w"
    and act: "activates e target \<Longrightarrow> e_ids E (Suc (w_ids w)) \<notin> sa_id ` set (s_strategy_activations w) \<and>
      (\<exists>a. active_strategy w = Inr (Some a) \<and> st_id a = outgoing e target)"
  shows "\<exists>ts. map_of (s_experiment_transitions w) i = Some ts \<and> advance_experiment E verifier i target r key w =
      (Inr \<lparr>er_experiment = advanced E e target w, er_replay = False\<rparr>,
       with_experiment (advanced E e target w) ts (transition_of E e target r key w)
         (with_activation (if activates e target then Some (activation_of E e target (gr_reason r) w) else None)
           (ticking (if activates e target then 2 else 1) w)))"
proof -
  let ?n = "e_clock E (w_ticks w)" and ?e = "advanced E e target w" and ?tr = "transition_of E e target r key w"
  note R = registered_strategies [OF ok cur]
  have upd: "experiment_transition e target (utc ?n) = Inr ?e"
    using edge clock by (simp add: experiment_transition_Inr [OF R(2)] advanced_def)
  have key: "require_text key f = Inr (strip key)" for f using worded(3) by (simp add: require_text_def Let_def raise_if_def)
  have fp: "require_sha256 (e_db E) (advance_fingerprint E i target r) f = Inr (advance_fingerprint E i target r)" for f
    by (rule require_sha256_text) (use E in \<open>simp add: advance_fingerprint_def evolution_fingerprint_def digests_ok_def\<close>)
  have "strip (strip key) = strip key" using worded(3) by (rule strip_id [OF strip_stripped])
  then have tr: "mk_transition_event (e_db E) (e_ids E (w_ids w)) (ex_id e) target (utc ?n) (gr_reason r) (gr_artifact_ref r)
      (strip key) (advance_fingerprint E i target r) (Some (ex_stage e)) = Inr ?tr"
    using edge worded R(1) by (simp add: mk_transition_event_def require_text_def Let_def raise_if_def fp transition_of_def)
  define a where "a = (if activates e target then Some (activation_of E e target (gr_reason r) w) else None)"
  define w1 where "w1 = ticking (if activates e target then 2 else 1) w"
  have bc: "ex_baseline_id e \<noteq> ex_candidate_id e" using R(2) by (simp add: experiment_ok_def)
  have acts: "activation_for E e ?e (gr_reason r) ?n (ticking 1 w) = (Inr a, w1)"
    using bc worded(1) edge
    by (auto simp: activation_for_def a_def w1_def activates_def advanced_def activation_of_def incoming_def outgoing_def
        mk_activation_def require_text_def Let_def raise_if_def return_def ticking_def)
  have val: "validate_activation e ?e ?tr a w1 = (Inr (), w1)"
    using act R(3,4) 
    by (auto simp: validate_activation_def Let_def a_def w1_def ticking_store raise_if_def activates_def advanced_def
        activation_of_def transition_of_def incoming_def outgoing_def image_iff split: if_splits)
  obtain ts where ts: "map_of (s_experiment_transitions w) i = Some ts" using R(5) by blast
  define w' where "w' = with_experiment ?e ts ?tr (with_activation a w1)"
  have S1: "s_experiments w1 = s_experiments w" "s_experiment_transitions w1 = s_experiment_transitions w"
    "s_experiment_transition_ids w1 = s_experiment_transition_ids w"
    "s_experiment_transition_keys w1 = s_experiment_transition_keys w" "s_strategies w1 = s_strategies w"
    "active_strategy w1 = active_strategy w" "s_strategy_activations w1 = s_strategy_activations w"
    by (simp_all add: w1_def ticking_store)
  have adv: "advance_evolution_experiment ?e ?tr a w1 = (Inr (), w')"
    using cur R(1) new free ts upd val
    by (cases a) (simp_all add: advance_evolution_experiment_def S1 w'_def with_experiment_def with_activation_def
        raise_if_def dict_index_def pbind_def [of "validate_activation e ?e ?tr a" for a])
  have run: "advance_experiment E verifier i target r key w = (Inr \<lparr>er_experiment = ?e, er_replay = False\<rparr>, w')"
    using cur ver match upd tr acts adv free
    by (simp add: advance_experiment_def key Let_def experiment_transition_by_idempotency_def \<open>strip (strip key) = strip key\<close>
        evolution_experiment_of_def pbind_def [of "activation_for E e ?e (gr_reason r) ?n"] or_concurrent_def catch_eval
        pbind_def [of "advance_evolution_experiment ?e ?tr a"] ticking_def return_def)
  then show ?thesis using ts unfolding w'_def a_def w1_def by blast
qed

lemma advance_accepts:
  assumes ok: "registry_ok w" and cur: "map_of (s_experiments w) i = Some e"
    and ver: "verifier r (utc (e_clock E (w_ticks w))) = Inr ()" and match: "require_matching_gate_receipt e target r = Inr ()"
    and edge: "legal_edge (ex_stage e) target" and clock: "ex_updated_at e \<le> e_clock E (w_ticks w)"
    and worded: "strip (gr_reason r) \<noteq> []" "strip (gr_artifact_ref r) \<noteq> []" "strip key \<noteq> []"
    and free: "map_of (s_experiment_transition_keys w) (strip key) = None" and E: "digests_ok E"
    and new: "e_ids E (w_ids w) \<notin> s_experiment_transition_ids w"
    and act: "activates e target \<Longrightarrow> e_ids E (Suc (w_ids w)) \<notin> sa_id ` set (s_strategy_activations w) \<and>
      (\<exists>a. active_strategy w = Inr (Some a) \<and> st_id a = outgoing e target)"
  shows "\<exists>w'. advance_experiment E verifier i target r key w =
      (Inr \<lparr>er_experiment = advanced E e target w, er_replay = False\<rparr>, w') \<and>
    active_strategy w' = (if activates e target then Inr (map_of (s_strategies w') (incoming e target))
      else active_strategy w) \<and>
    s_strategies w' = s_strategies w \<and> s_strategy_activations w' = s_strategy_activations w @
      (if activates e target then [activation_of E e target (gr_reason r) w] else []) \<and>
    s_experiments w' = dict_set (ex_id e) (advanced E e target w) (s_experiments w) \<and>
    s_experiment_transition_ids w' = insert (e_ids E (w_ids w)) (s_experiment_transition_ids w) \<and>
    s_experiment_transition_keys w' =
      dict_set (strip key) (transition_of E e target r key w) (s_experiment_transition_keys w) \<and>
    w_ids w' = w_ids w + (if activates e target then 2 else 1) \<and> w_ticks w' = Suc (w_ticks w)"
proof -
  let ?a = "if activates e target then Some (activation_of E e target (gr_reason r) w) else None"
  let ?w1 = "ticking (if activates e target then 2 else 1) w"
  note R = registered_strategies [OF ok cur]
  obtain ts where "map_of (s_experiment_transitions w) i = Some ts"
    and run: "advance_experiment E verifier i target r key w =
      (Inr \<lparr>er_experiment = advanced E e target w, er_replay = False\<rparr>,
       with_experiment (advanced E e target w) ts (transition_of E e target r key w) (with_activation ?a ?w1))"
    using advance_result [where verifier = verifier and E = E and w = w and r = r, OF assms(1-12)] act by blast
  let ?w' = "with_experiment (advanced E e target w) ts (transition_of E e target r key w) (with_activation ?a ?w1)"
  have "active_strategy ?w' = active_strategy (with_activation ?a ?w1)"
    by (simp add: with_experiment_def active_strategy_def)
  also have "\<dots> = (if activates e target then Inr (map_of (s_strategies ?w') (incoming e target)) else active_strategy w)"
  proof (cases "activates e target")
    case True
    then show ?thesis
      using R(3,4) by (auto simp: with_activation_def ticking_store active_strategy_def dict_index_def
          with_experiment_def activation_of_def incoming_def)
  qed (simp add: with_activation_def ticking_store)
  finally have active: "active_strategy ?w' =
      (if activates e target then Inr (map_of (s_strategies ?w') (incoming e target)) else active_strategy w)" .
  show ?thesis
    by (intro exI [of _ ?w'] conjI run active)
       (simp_all add: with_experiment_def with_activation_def ticking_store, simp_all add: ticking_def)
qed

end
