(* ===== verification/EvolutionProperties.thy ===== *)
theory EvolutionProperties
  imports Sample EvolutionTotal
begin

text \<open>
  Properties of strategy evolution: bounded proposals, experiments that pass every gate in order, signed
  receipts that bind what they authorize, and an active strategy that only a matching receipt changes.
\<close>

section \<open>An experiment from start to end\<close>

text \<open>
  A whole experiment on a started service: the default strategy is bootstrapped, a candidate is proposed, and the
  experiment goes through its gates one by one until the candidate is promoted.  The witness of the property of
  promotions is the state this run ends in.
\<close>

definition trial_receipt :: "evolution_experiment \<Rightarrow> experiment_stage \<Rightarrow> gate_receipt" where
  "trial_receipt e target = \<lparr>gr_id = 70, gr_experiment_id = ex_id e, gr_baseline_id = ex_baseline_id e,
     gr_candidate_id = ex_candidate_id e, gr_from_stage = ex_stage e, gr_to_stage = target, gr_decision = PASS,
     gr_artifact_ref = uc ''run'', gr_artifact_sha256 = sample_digest, gr_issuer = uc ''ci'', gr_key_id = uc ''k'',
     gr_issued_at = 0, gr_expires_at = 9000000, gr_hard_gates_passed = True, gr_reason = uc ''gate'',
     gr_signature = sample_digest\<rparr>"

definition trial_key :: "nat \<Rightarrow> ustr" where
  "trial_key n = replicate (Suc n) 97"

lemma trial_key_strip: "strip (trial_key n) = trial_key n" "trial_key n \<noteq> []" "length (trial_key n) = Suc n"
proof -
  have "stripped (trial_key n)"
    by (simp add: stripped_def trial_key_def is_space_def del: replicate_Suc)
  then show "strip (trial_key n) = trial_key n" by (rule strip_id)
qed (simp_all add: trial_key_def)

lemma trial_texts: "strip (gr_reason (trial_receipt e target)) \<noteq> []" "strip (gr_artifact_ref (trial_receipt e target)) \<noteq> []"
proof -
  have st: "stripped (gr_reason (trial_receipt e target))" "stripped (gr_artifact_ref (trial_receipt e target))"
    by (simp_all add: stripped_def is_space_def trial_receipt_def)
  show "strip (gr_reason (trial_receipt e target)) \<noteq> []" "strip (gr_artifact_ref (trial_receipt e target)) \<noteq> []"
    unfolding strip_id [OF st(1)] strip_id [OF st(2)] by (simp_all add: trial_receipt_def)
qed

text \<open>An experiment under way: the ids in the registry were issued before, and keys up to a length are used.\<close>

definition on_trial :: "service \<Rightarrow> world \<Rightarrow> world \<Rightarrow> evolution_experiment \<Rightarrow> nat \<Rightarrow> bool" where
  "on_trial sv w0 w e n \<longleftrightarrow> service_reachable sample_env sv (\<lambda>_ _. Inr ()) w0 w \<and> registry_ok w \<and>
     map_of (s_experiments w) (ex_id e) = Some e \<and> (\<exists>a. active_strategy w = Inr (Some a) \<and> st_id a = ex_baseline_id e) \<and>
     s_experiment_transition_ids w \<subseteq> of_nat ` {..<w_ids w} \<and>
     sa_id ` set (s_strategy_activations w) \<subseteq> of_nat ` {..<w_ids w} \<and>
     (\<forall>k. map_of (s_experiment_transition_keys w) k \<noteq> None \<longrightarrow> length k \<le> n) \<and>
     w_ids w \<le> n + 5 \<and> ex_updated_at e \<le> int (w_ticks w) * 1000000"

lemma new_sample_id:
  assumes "n \<le> m" "m \<le> 1000"
  shows "(of_nat m :: uuid) \<notin> of_nat ` {..<n}"
proof
  assume "(of_nat m :: uuid) \<in> of_nat ` {..<n}"
  then obtain k where k: "k < n" "(of_nat k :: uuid) = of_nat m" by auto
  have "inj_on (of_nat :: nat \<Rightarrow> uuid) {..<1001 + 6}"
    using sample_ids [of "sample_world\<lparr>w_ids := 1001\<rparr>"] by (simp add: ids_fresh_def sample_env_def)
  then show False using k assms by (auto dest: inj_onD)
qed

lemma trial_run:
  assumes trial: "on_trial sv w0 w e n" and edge: "legal_edge (ex_stage e) target" and n: "n \<le> 100"
    and gate: "target \<noteq> REJECTED" "target \<noteq> ROLLED_BACK" and w': "w' = snd (advance_experiment sample_env (\<lambda>_ _. Inr ())
      (ex_id e) target (trial_receipt e target) (trial_key n) w)"
  shows "service_reachable sample_env sv (\<lambda>_ _. Inr ()) w0 w'" "registry_ok w'"
    "active_strategy w' = (if activates e target then Inr (map_of (s_strategies w') (incoming e target)) else active_strategy w)"
    "s_strategy_activations w' = s_strategy_activations w @ (if activates e target
       then [activation_of sample_env e target (gr_reason (trial_receipt e target)) w] else [])"
    "s_experiments w' = dict_set (ex_id e) (advanced sample_env e target w) (s_experiments w)"
    "s_experiment_transition_ids w' = insert (of_nat (w_ids w)) (s_experiment_transition_ids w)"
    "s_experiment_transition_keys w' = dict_set (trial_key n)
       (transition_of sample_env e target (trial_receipt e target) (trial_key n) w) (s_experiment_transition_keys w)"
    "w_ids w' = w_ids w + (if activates e target then 2 else 1)" "w_ticks w' = Suc (w_ticks w)"
proof -
  note T = trial [unfolded on_trial_def]
  let ?r = "trial_receipt e target"
  have match: "require_matching_gate_receipt e target ?r = Inr ()"
    using gate by (simp add: matching_receipt trial_receipt_def)
  have free: "map_of (s_experiment_transition_keys w) (strip (trial_key n)) = None"
    using T trial_key_strip(1,3) [of n] by (metis Suc_n_not_le_n)
  have issued: "e_ids sample_env (w_ids w) \<notin> s_experiment_transition_ids w"
    using T new_sample_id [of "w_ids w" "w_ids w"] n by (auto simp: sample_env_def)
  have act: "e_ids sample_env (Suc (w_ids w)) \<notin> sa_id ` set (s_strategy_activations w) \<and>
      (\<exists>a. active_strategy w = Inr (Some a) \<and> st_id a = outgoing e target)" if "activates e target"
    using T new_sample_id [of "w_ids w" "Suc (w_ids w)"] n that gate
    by (auto simp: sample_env_def outgoing_def activates_def)
  have clock: "ex_updated_at e \<le> e_clock sample_env (w_ticks w)" using T by (simp add: sample_env_def)
  have reg: "registry_ok w" and cur: "map_of (s_experiments w) (ex_id e) = Some e" using T by blast+
  obtain u where run: "advance_experiment sample_env (\<lambda>_ _. Inr ()) (ex_id e) target ?r (trial_key n) w =
      (Inr \<lparr>er_experiment = advanced sample_env e target w, er_replay = False\<rparr>, u)"
    "active_strategy u = (if activates e target then Inr (map_of (s_strategies u) (incoming e target)) else active_strategy w)"
    "s_strategy_activations u = s_strategy_activations w @
      (if activates e target then [activation_of sample_env e target (gr_reason ?r) w] else [])"
    "s_experiments u = dict_set (ex_id e) (advanced sample_env e target w) (s_experiments w)"
    "s_experiment_transition_ids u = insert (e_ids sample_env (w_ids w)) (s_experiment_transition_ids w)"
    "s_experiment_transition_keys u = dict_set (strip (trial_key n))
      (transition_of sample_env e target ?r (trial_key n) w) (s_experiment_transition_keys w)"
    "w_ids u = w_ids w + (if activates e target then 2 else 1)" "w_ticks u = Suc (w_ticks w)"
    using advance_accepts [where verifier = "\<lambda>_ _. Inr ()" and key = "trial_key n",
        OF reg cur refl match edge clock trial_texts _ free sample_digests issued act] trial_key_strip(1,2) [of n] by auto
  have u: "w' = u" using w' run(1) by simp
  show "service_reachable sample_env sv (\<lambda>_ _. Inr ()) w0 w'"
    using T advancing [OF run(1), of sv] unfolding u service_reachable_def by (meson rtranclp.rtrancl_into_rtrancl)
  show "registry_ok w'" using obeysD [OF advance_keeps run(1)] reg by (simp add: u keeps_registry_def)
  have id: "e_ids sample_env (w_ids w) = of_nat (w_ids w)" by (simp add: sample_env_def)
  show "active_strategy w' = (if activates e target then Inr (map_of (s_strategies w') (incoming e target)) else active_strategy w)"
    "s_strategy_activations w' = s_strategy_activations w @ (if activates e target
       then [activation_of sample_env e target (gr_reason (trial_receipt e target)) w] else [])"
    "s_experiments w' = dict_set (ex_id e) (advanced sample_env e target w) (s_experiments w)"
    "s_experiment_transition_ids w' = insert (of_nat (w_ids w)) (s_experiment_transition_ids w)"
    "s_experiment_transition_keys w' = dict_set (trial_key n)
       (transition_of sample_env e target (trial_receipt e target) (trial_key n) w) (s_experiment_transition_keys w)"
    "w_ids w' = w_ids w + (if activates e target then 2 else 1)" "w_ticks w' = Suc (w_ticks w)"
    using run(2-8) by (simp_all only: u id trial_key_strip(1))
qed

lemma trial_advances:
  assumes trial: "on_trial sv w0 w e n" and edge: "legal_edge (ex_stage e) target" and n: "n \<le> 100"
    and gate: "target \<noteq> REJECTED" "target \<noteq> ROLLED_BACK" "target \<noteq> PROMOTED"
  shows "\<exists>w'. on_trial sv w0 w' (advanced sample_env e target w) (Suc n)"
proof -
  note T = trial [unfolded on_trial_def]
  obtain w' where w': "w' = snd (advance_experiment sample_env (\<lambda>_ _. Inr ()) (ex_id e) target (trial_receipt e target) (trial_key n) w)"
    by blast
  note R = trial_run [OF trial edge n gate(1,2) w']
  have clock: "e_clock sample_env k = int k * 1000000" for k by (simp add: sample_env_def)
  have inert: "\<not> activates e target" using gate by (simp add: activates_def)
  have grown: "(of_nat ` {..<w_ids w} :: uuid set) \<subseteq> of_nat ` {..<w_ids w'}" "of_nat (w_ids w) \<in> (of_nat ` {..<w_ids w'} :: uuid set)"
    using R(8) inert by auto
  have "length k \<le> Suc n" if "map_of (s_experiment_transition_keys w') k \<noteq> None" for k
    using that T trial_key_strip(3) [of n] by (auto simp: R(7) split: if_splits)
  moreover have "s_experiment_transition_ids w' \<subseteq> of_nat ` {..<w_ids w'}" unfolding R(6) using T grown by blast
  moreover have "sa_id ` set (s_strategy_activations w') \<subseteq> of_nat ` {..<w_ids w'}" using T grown(1) inert by (simp add: R(4)) blast
  ultimately have "on_trial sv w0 w' (advanced sample_env e target w) (Suc n)"
    unfolding on_trial_def using T R(1,2) inert by (simp add: R(3,5,8,9) clock)
  then show ?thesis by blast
qed

lemma trial_ends:
  assumes trial: "on_trial sv w0 w e n" and n: "n \<le> 100" and stage: "ex_stage e = CANARY"
  shows "\<exists>w' a. service_reachable sample_env sv (\<lambda>_ _. Inr ()) w0 w' \<and> w_ids w' \<le> 200 \<and>
    a \<in> set (s_strategy_activations w') \<and> sa_kind a = PROMOTION \<and>
    active_strategy w' = Inr (map_of (s_strategies w') (sa_strategy_id a))"
proof -
  let ?w = "snd (advance_experiment sample_env (\<lambda>_ _. Inr ()) (ex_id e) PROMOTED (trial_receipt e PROMOTED) (trial_key n) w)"
  have "legal_edge (ex_stage e) PROMOTED" using stage by simp
  note R = trial_run [OF trial this n _ _ refl, simplified]
  have "activates e PROMOTED" using stage by (simp add: activates_def)
  then show ?thesis using R(1,3,4,8) trial n
    by (intro exI [of _ ?w] exI [of _ "activation_of sample_env e PROMOTED (gr_reason (trial_receipt e PROMOTED)) w"])
       (simp add: activation_of_def incoming_def on_trial_def)
qed

text \<open>From the proposal to the promotion.\<close>

lemma trial_completes:
  assumes trial: "on_trial sv w0 w e 1" and stage: "ex_stage e = PROPOSED"
  shows "\<exists>w' a. service_reachable sample_env sv (\<lambda>_ _. Inr ()) w0 w' \<and> w_ids w' \<le> 200 \<and>
    a \<in> set (s_strategy_activations w') \<and> sa_kind a = PROMOTION \<and>
    active_strategy w' = Inr (map_of (s_strategies w') (sa_strategy_id a))"
proof -
  obtain w1 where "on_trial sv w0 w1 (advanced sample_env e OFFLINE_PASSED w) 2"
    using trial_advances [OF trial, of OFFLINE_PASSED] stage by (auto simp: numeral_2_eq_2)
  from trial_advances [OF this, of SHADOW] obtain e2 w2 where "on_trial sv w0 w2 e2 3" "ex_stage e2 = SHADOW"
    by (auto simp: numeral_3_eq_3 numeral_2_eq_2)
  from trial_advances [OF this(1), of CANARY] this(2) obtain e3 w3 where "on_trial sv w0 w3 e3 4" "ex_stage e3 = CANARY"
    by auto
  from trial_ends [OF this(1) _ this(2)] show ?thesis by simp
qed

subsection \<open>The start and the proposal\<close>

definition first_strategy :: strategy_snapshot where
  "first_strategy = \<lparr>st_id = 0, st_version = 1, st_weights = default_weights, st_min_score = flit (20/100),
     st_half_life = 180, st_created_at = 0, st_parent_id = None\<rparr>"

definition first_activation :: strategy_activation where
  "first_activation = \<lparr>sa_id = 1, sa_strategy_id = 0, sa_kind = BOOTSTRAP, sa_activated_at = 0,
     sa_reason = uc ''initial default strategy'', sa_previous_id = None, sa_experiment_id = None\<rparr>"

definition started_world :: world where
  "started_world = (world_of empty_store 2 1 None)\<lparr>s_strategies := [(0, first_strategy)],
     s_strategy_activations := [first_activation]\<rparr>"

lemma default_service_starts:
  "\<exists>sv. mk_service sample_env None None False 10 (world_of empty_store 0 0 None) = (Inr sv, started_world)"
  by (simp add: mk_service_def active_strategy_def world_of_def empty_store_def store.defs raise_if_def
      mk_weights_Inr [THEN iffD2, OF conjI, OF default_weights_ok refl] mk_strategy_def flit_def mk_activation_def
      require_text_def strip_def is_space_def ensure_active_strategy_def save_strategy_def fp.rnd_nonneg fp.rnd_le_1
      pbind_assoc started_world_def first_strategy_def first_activation_def sample_env_def)

definition sample_diagnosis :: failure_diagnosis where
  "sample_diagnosis = \<lparr>irrelevant_results = 3, context_mismatches = 0, low_belief_results = 0, harmful_results = 1,
     stale_results = 0\<rparr>"

definition first_candidate :: strategy_snapshot where
  "first_candidate = \<lparr>st_id = 2, st_version = 2, st_weights = shifted SEMANTIC_W default_weights,
     st_min_score = flit (20/100), st_half_life = 180, st_created_at = 1000000, st_parent_id = Some 0\<rparr>"

definition first_experiment :: evolution_experiment where
  "first_experiment = \<lparr>ex_id = 3, ex_baseline_id = 0, ex_candidate_id = 2, ex_stage = PROPOSED,
     ex_created_at = 1000000, ex_updated_at = 1000000\<rparr>"

lemma first_proposal: "propose first_strategy sample_diagnosis 2 (utc 1000000) = Inr (Some first_candidate)"
proof -
  have "strategy_ok first_strategy" using default_weights_ok
    by (simp add: strategy_ok_def first_strategy_def flit_def fp.rnd_nonneg fp.rnd_le_1)
  moreover have "weights_double (st_weights first_strategy)"
    by (simp add: weights_double_def weight_values_def default_weights_def is_double_flit first_strategy_def)
  moreover have "\<bar>sum_list (weight_values (st_weights first_strategy)) - 1\<bar> \<le> 93 / 100000000000"
    using default_weights_sum by (simp add: first_strategy_def)
  moreover have "dominant_component sample_diagnosis = Some SEMANTIC_W" by code_simp
  moreover have "0 < proposal_delta SEMANTIC_W default_weights" by code_simp
  ultimately show ?thesis
    by (simp add: propose_Inr) (simp add: first_strategy_def first_candidate_def)
qed

definition first_transition :: experiment_transition_event where
  "first_transition = \<lparr>et_id = 4, et_experiment_id = 3, et_to_stage = PROPOSED, et_transitioned_at = 1000000,
     et_reason = uc ''better'', et_evidence_ref = uc ''run'', et_idempotency_key = uc ''e'',
     et_request_fingerprint = proposal_fingerprint sample_env sample_diagnosis (uc ''better'') (uc ''run''),
     et_from_stage = None\<rparr>"

definition proposed_world :: world where
  "proposed_world = started_world\<lparr>w_ids := 5, w_ticks := 2,
     s_strategies := [(0, first_strategy), (2, first_candidate)], s_experiments := [(3, first_experiment)],
     s_experiment_transitions := [(3, [first_transition])], s_experiment_transition_ids := {4},
     s_experiment_transition_keys := [(uc ''e'', first_transition)]\<rparr>"

lemma first_proposed:
  "\<exists>p. propose_experiment sample_env sample_diagnosis (uc ''better'') (uc ''run'') (uc ''e'') started_world =
     (Inr p, proposed_world)"
proof -
  let ?fp = "proposal_fingerprint sample_env sample_diagnosis (uc ''better'') (uc ''run'')"
  have texts: "require_text (uc ''better'') f = Inr (uc ''better'')" "require_text (uc ''run'') f = Inr (uc ''run'')"
    "require_text (uc ''e'') f = Inr (uc ''e'')" for f
    by (simp_all add: require_text_def strip_def is_space_def)
  have fp: "require_sha256 (e_db sample_env) ?fp f = Inr ?fp" for f
    by (rule require_sha256_text)
       (use sample_digests in \<open>simp add: proposal_fingerprint_def evolution_fingerprint_def digests_ok_def\<close>)
  have active: "active_strategy started_world = Inr (Some first_strategy)"
    by (simp add: active_strategy_def started_world_def first_activation_def dict_index_def)
  have ids: "e_ids sample_env n = of_nat n" "e_clock sample_env n = int n * 1000000" for n by (simp_all add: sample_env_def)
  have mk: "mk_experiment 3 0 2 PROPOSED (utc 1000000) (utc 1000000) = Inr first_experiment"
    by (simp add: mk_experiment_Inr first_experiment_def)
  have tr: "mk_transition_event (e_db sample_env) 4 3 PROPOSED (utc 1000000) (uc ''better'') (uc ''run'') (uc ''e'') ?fp None =
      Inr first_transition"
    unfolding mk_transition_event_def texts by (simp add: fp [simplified] first_transition_def raise_if_def)
  let ?w = "started_world\<lparr>w_ticks := Suc (Suc 0), w_ids := 5\<rparr>"
  have free: "s_experiment_transition_keys started_world = []" "s_experiments started_world = []"
    "s_experiment_transition_ids started_world = {}" "s_experiment_transitions started_world = []"
    "s_strategies started_world = [(0, first_strategy)]" "w_ids started_world = 2" "w_ticks started_world = 1"
    by (simp_all add: started_world_def world_of_def empty_store_def store.defs)
  have active': "active_strategy ?w = Inr (Some first_strategy)" 
    by (simp add: active_strategy_def started_world_def first_activation_def dict_index_def)
  have reg: "register_evolution_experiment first_candidate first_experiment first_transition ?w = (Inr (), proposed_world)"
    by (simp add: register_evolution_experiment_def active' save_strategy_def raise_if_def free pbind_assoc
        first_candidate_def first_experiment_def first_transition_def first_strategy_def proposed_world_def)
  have conc: "or_concurrent (uc ''e'') h (pbind (register_evolution_experiment first_candidate first_experiment first_transition)
      (\<lambda>_. return x)) ?w = (Inr x, proposed_world)" for h and x :: "evolution_proposal option"
    by (subst or_concurrent_register) (simp_all add: free pbind_def reg)
  have st: "st_id first_strategy = 0" "st_id first_candidate = 2" "ex_id first_experiment = 3"
    by (simp_all add: first_strategy_def first_candidate_def first_experiment_def)
  show ?thesis unfolding propose_experiment_def texts
    by (simp add: Let_def strip_def is_space_def experiment_transition_by_idempotency_def free active ids first_proposal st mk tr [simplified] conc [simplified])
qed

text \<open>The run as a whole: a reachable state with a promotion in its log.\<close>

lemma promotion_reached:
  "\<exists>sv w a. mk_service sample_env None None False 10 (world_of empty_store 0 0 None) = (Inr sv, started_world) \<and>
    service_reachable sample_env sv (\<lambda>_ _. Inr ()) started_world w \<and> ids_fresh sample_env w \<and>
    a \<in> set (s_strategy_activations w) \<and> sa_kind a = PROMOTION \<and>
    active_strategy w = Inr (map_of (s_strategies w) (sa_strategy_id a))"
proof -
  obtain sv where start: "mk_service sample_env None None False 10 (world_of empty_store 0 0 None) = (Inr sv, started_world)"
    using default_service_starts by blast
  then have "registry_ok started_world"
    using starting_ok(1) [OF _ empty_system_ok start] by (simp add: system_okD)
  moreover obtain p where run: "propose_experiment sample_env sample_diagnosis (uc ''better'') (uc ''run'') (uc ''e'')
      started_world = (Inr p, proposed_world)" using first_proposed by blast
  ultimately have ok: "registry_ok proposed_world" using obeysD [OF propose_keeps run] by (simp add: keeps_registry_def)
  have reach: "service_reachable sample_env sv (\<lambda>_ _. Inr ()) started_world proposed_world"
    unfolding service_reachable_def by (rule r_into_rtranclp, rule proposing [OF run])
  have fields: "s_experiments proposed_world = [(3, first_experiment)]" "s_experiment_transition_ids proposed_world = {4}"
    "s_experiment_transition_keys proposed_world = [(uc ''e'', first_transition)]" "w_ids proposed_world = 5"
    "s_strategy_activations proposed_world = [first_activation]" "w_ticks proposed_world = 2"
    "s_strategies proposed_world = [(0, first_strategy), (2, first_candidate)]"
    by (simp_all add: proposed_world_def started_world_def)
  have "(4 :: uuid) \<in> of_nat ` {..<5 :: nat}" "(1 :: uuid) \<in> of_nat ` {..<5 :: nat}"
    using imageI [of 4 "{..<5}" "of_nat :: nat \<Rightarrow> uuid"] imageI [of 1 "{..<5}" "of_nat :: nat \<Rightarrow> uuid"] by simp_all
  then have "on_trial sv started_world proposed_world first_experiment 1"
    unfolding on_trial_def fields active_strategy_def using ok reach
    by (auto simp: fields first_experiment_def first_activation_def first_strategy_def dict_index_def)
  from trial_completes [OF this] obtain w a where "service_reachable sample_env sv (\<lambda>_ _. Inr ()) started_world w"
    "w_ids w \<le> 200" "a \<in> set (s_strategy_activations w)" "sa_kind a = PROMOTION"
    "active_strategy w = Inr (map_of (s_strategies w) (sa_strategy_id a))" by (auto simp: first_experiment_def)
  then show ?thesis using start by (intro exI [of _ sv] exI [of _ w] exI [of _ a]) simp
qed

section \<open>Properties\<close>

subsection \<open>Proposals\<close>

text \<open>
  C36: A proposal for a valid parent never raises: it either has nothing to offer, or gives a valid
  strategy, the child of its parent with the next version, in which exactly two weights moved, each by at
  most the maximal delta and in opposite directions, with the rest of the weights and the other
  parameters unchanged.
\<close>

theorem proposal_is_bounded:
  assumes "strategy_ok p" "weights_double (st_weights p)" "\<bar>sum_list (weight_values (st_weights p)) - 1\<bar> \<le> 93 / 100000000000"
    and "dominant_component d = Some target" "0 < proposal_delta target (st_weights p)"
  shows "\<exists>c donor. propose p d i (utc t) = Inr (Some c) \<and> strategy_ok c \<and> st_id c = i \<and>
    st_version c = st_version p + 1 \<and> st_parent_id c = Some (st_id p) \<and> st_min_score c = st_min_score p \<and>
    donor \<noteq> target \<and> weight_of target (st_weights p) \<le> weight_of target (st_weights c) \<and>
    weight_of donor (st_weights c) \<le> weight_of donor (st_weights p) \<and>
    (\<forall>x. \<bar>weight_of x (st_weights c) - weight_of x (st_weights p)\<bar> \<le>
       (if x = target \<or> x = donor then max_delta + ulp1 else 0))"
proof -
  have w: "weights_ok (st_weights p)" using assms(1) by (simp add: strategy_ok_def)
  obtain u where u: "u \<noteq> target"
    "weight_of target (st_weights p) \<le> weight_of target (shifted target (st_weights p))"
    "weight_of u (shifted target (st_weights p)) \<le> weight_of u (st_weights p)"
    "\<And>c. c \<noteq> target \<Longrightarrow> c \<noteq> u \<Longrightarrow> weight_of c (shifted target (st_weights p)) = weight_of c (st_weights p)"
    "\<bar>weight_of target (shifted target (st_weights p)) - weight_of target (st_weights p)\<bar> \<le> max_delta + ulp1"
    "\<bar>weight_of u (shifted target (st_weights p)) - weight_of u (st_weights p)\<bar> \<le> max_delta + ulp1"
    using shifted_weights [OF w assms(2,5)] by metis
  let ?c = "\<lparr>st_id = i, st_version = st_version p + 1, st_weights = shifted target (st_weights p),
    st_min_score = st_min_score p, st_half_life = st_half_life p, st_created_at = t, st_parent_id = Some (st_id p)\<rparr>"
  have p: "propose p d i (utc t) = Inr (Some ?c)"
    using propose_Inr [OF assms(1-3), of d i t] assms(4,5) by simp
  have "strategy_ok ?c" using assms(1) shifted_ok [OF w assms(2,5,3)] by (simp add: strategy_ok_def)
  then show ?thesis using p u by (intro exI [of _ ?c] exI [of _ u]) auto
qed

theorem proposal_is_bounded_witness:
  "\<exists>c. propose sample_strategy \<lparr>irrelevant_results = 3, context_mismatches = 0, low_belief_results = 0,
      harmful_results = 1, stale_results = 0\<rparr> 78 (utc 5) = Inr (Some c) \<and> strategy_ok c \<and> st_version c = 2"
proof -
  let ?d = "\<lparr>irrelevant_results = 3, context_mismatches = 0, low_belief_results = 0, harmful_results = 1, stale_results = 0\<rparr>"
  have "weights_double default_weights"
    by (simp add: weights_double_def weight_values_def default_weights_def is_double_flit)
  moreover note default_weights_sum
  moreover have "dominant_component ?d = Some SEMANTIC_W" by code_simp
  moreover have "0 < proposal_delta SEMANTIC_W default_weights" by code_simp
  ultimately show ?thesis
    using proposal_is_bounded [OF sample_strategy_ok, of ?d SEMANTIC_W 78 5] by (auto simp: sample_strategy_def)
qed

subsection \<open>A registry with an experiment in its canary stage\<close>

definition sample_candidate_strategy :: strategy_snapshot where
  "sample_candidate_strategy = \<lparr>st_id = 78, st_version = 2, st_weights = default_weights, st_min_score = 0,
     st_half_life = 180, st_created_at = 1, st_parent_id = Some 77\<rparr>"

definition sample_experiment :: evolution_experiment where
  "sample_experiment = \<lparr>ex_id = 90, ex_baseline_id = 77, ex_candidate_id = 78, ex_stage = CANARY,
     ex_created_at = 1, ex_updated_at = 4\<rparr>"

definition sample_event :: "uuid \<Rightarrow> experiment_stage \<Rightarrow> instant \<Rightarrow> ustr \<Rightarrow> experiment_stage option \<Rightarrow>
    experiment_transition_event" where
  "sample_event i target t key source = \<lparr>et_id = i, et_experiment_id = 90, et_to_stage = target,
     et_transitioned_at = t, et_reason = uc ''gate'', et_evidence_ref = uc ''run'', et_idempotency_key = key,
     et_request_fingerprint = sample_digest, et_from_stage = source\<rparr>"

definition sample_events :: "experiment_transition_event list" where
  "sample_events = [sample_event 101 PROPOSED 1 (uc ''e1'') None,
     sample_event 102 OFFLINE_PASSED 2 (uc ''e2'') (Some PROPOSED),
     sample_event 103 SHADOW 3 (uc ''e3'') (Some OFFLINE_PASSED), sample_event 104 CANARY 4 (uc ''e4'') (Some SHADOW)]"

definition sample_keys :: "(ustr, experiment_transition_event) dict" where
  "sample_keys = map (\<lambda>t. (et_idempotency_key t, t)) sample_events"

definition sample_bootstrap :: strategy_activation where
  "sample_bootstrap = \<lparr>sa_id = 60, sa_strategy_id = 77, sa_kind = BOOTSTRAP, sa_activated_at = 0,
     sa_reason = uc ''start'', sa_previous_id = None, sa_experiment_id = None\<rparr>"

definition sample_registry :: world where
  "sample_registry = sample_world\<lparr>w_ids := 200, w_ticks := 5,
     s_strategies := [(77, sample_strategy), (78, sample_candidate_strategy)],
     s_strategy_activations := [sample_bootstrap], s_experiments := [(90, sample_experiment)],
     s_experiment_transitions := [(90, sample_events)],
     s_experiment_transition_ids := {101, 102, 103, 104},
     s_experiment_transition_keys := sample_keys\<rparr>"

lemma sample_events_history: "stage_history (map et_to_stage sample_events)"
proof -
  have "stage_history ([PROPOSED] @ [OFFLINE_PASSED])"
    using advanced [of "[]" PROPOSED OFFLINE_PASSED] created by simp
  then have "stage_history ([PROPOSED] @ [OFFLINE_PASSED, SHADOW])" by (rule advanced) simp
  then have "stage_history ([PROPOSED, OFFLINE_PASSED] @ [SHADOW])" by simp
  then have "stage_history ([PROPOSED, OFFLINE_PASSED] @ [SHADOW, CANARY])" by (rule advanced) simp
  then show ?thesis by (simp add: sample_events_def sample_event_def)
qed

lemma sample_registry_fields:
  "s_strategies sample_registry = [(77, sample_strategy), (78, sample_candidate_strategy)]"
  "s_strategy_activations sample_registry = [sample_bootstrap]"
  "s_experiments sample_registry = [(90, sample_experiment)]"
  "s_experiment_transitions sample_registry = [(90, sample_events)]"
  "s_experiment_transition_ids sample_registry = {101, 102, 103, 104}"
  "s_experiment_transition_keys sample_registry = sample_keys" "w_ids sample_registry = 200" "w_ticks sample_registry = 5"
  by (simp_all add: sample_registry_def)

lemma sample_experiments_ok:
  "experiments_ok [(77, sample_strategy), (78, sample_candidate_strategy)] [(90, sample_experiment)] [(90, sample_events)]
     sample_keys"
proof -
  have ev: "et_experiment_id t = 90 \<and> map_of sample_keys (et_idempotency_key t) = Some t" if "t \<in> set sample_events" for t
    using that by (auto simp: sample_events_def sample_event_def sample_keys_def)
  have hist: "history_ok sample_keys sample_experiment sample_events"
    using sample_events_history ev
    by (simp add: history_ok_def sample_experiment_def) (simp add: sample_events_def sample_event_def)
  have keys: "et_idempotency_key t = k \<and> t \<in> set sample_events" if "map_of sample_keys k = Some t" for k t
    using map_of_SomeD [OF that] by (auto simp: sample_keys_def)
  have x: "ex_id sample_experiment = 90" "experiment_ok sample_experiment" "ex_candidate_id sample_experiment = 78"
    "ex_baseline_id sample_experiment = 77" "st_parent_id sample_candidate_strategy = Some 77"
    by (simp_all add: sample_experiment_def experiment_ok_def sample_candidate_strategy_def)
  show ?thesis unfolding experiments_ok_def
  proof (intro conjI allI impI)
    fix k t assume "map_of sample_keys k = Some t"
    note kt = keys [OF this]
    then show "et_idempotency_key t = k" by simp
    show "\<exists>e ts. map_of [(90, sample_experiment)] (et_experiment_id t) = Some e \<and>
        map_of [(90, sample_events)] (et_experiment_id t) = Some ts \<and> t \<in> set ts"
      using kt ev [of t] by simp
  qed (use hist x in \<open>auto split: if_splits\<close>)
qed

lemma sample_registry_ok: "registry_ok sample_registry"
proof -
  have "strategy_ok sample_candidate_strategy" using default_weights_ok
    by (simp add: strategy_ok_def sample_candidate_strategy_def)
  then have "strategies_ok [(77, sample_strategy), (78, sample_candidate_strategy)]"
    using sample_strategy_ok
    by (auto simp: strategies_ok_def dict_ok_def parent_ok_def split: if_splits)
      (simp_all add: sample_strategy_def sample_candidate_strategy_def)
  moreover have "activation_chain [sample_bootstrap]" by (simp add: activation_chain_def sample_bootstrap_def)
  moreover have "promotions_earned [sample_bootstrap] [(90, sample_experiment)] [(90, sample_events)]"
    by (simp add: promotions_earned_def sample_bootstrap_def)
  ultimately show ?thesis using sample_experiments_ok
    by (simp add: registry_ok_def sample_registry_fields) (simp add: sample_bootstrap_def)
qed

definition sample_receipt :: gate_receipt where
  "sample_receipt = \<lparr>gr_id = 70, gr_experiment_id = 90, gr_baseline_id = 77, gr_candidate_id = 78,
     gr_from_stage = CANARY, gr_to_stage = PROMOTED, gr_decision = PASS, gr_artifact_ref = uc ''run'',
     gr_artifact_sha256 = sample_digest, gr_issuer = uc ''ci'', gr_key_id = uc ''k'', gr_issued_at = 0,
     gr_expires_at = 9000000, gr_hard_gates_passed = True, gr_reason = uc ''gate'', gr_signature = sample_digest\<rparr>"

definition sample_key :: ustr where
  "sample_key = uc ''e5''"

lemma sample_texts:
  "strip (gr_reason sample_receipt) \<noteq> []" "strip (gr_artifact_ref sample_receipt) \<noteq> []"
  "strip sample_key = sample_key" "sample_key \<noteq> []"
proof -
  have st: "stripped (gr_reason sample_receipt)" "stripped (gr_artifact_ref sample_receipt)" "stripped sample_key"
    by (simp_all add: stripped_def is_space_def sample_key_def sample_receipt_def)
  show "strip (gr_reason sample_receipt) \<noteq> []" "strip (gr_artifact_ref sample_receipt) \<noteq> []"
    unfolding strip_id [OF st(1)] strip_id [OF st(2)] by (simp_all add: sample_receipt_def)
  show "strip sample_key = sample_key" by (rule strip_id [OF st(3)])
qed (simp add: sample_key_def)

lemma sample_matching: "require_matching_gate_receipt sample_experiment PROMOTED sample_receipt = Inr ()"
  by (simp add: matching_receipt sample_experiment_def sample_receipt_def)

lemma sample_key_free: "map_of (s_experiment_transition_keys sample_registry) (strip sample_key) = None"
  by (simp add: sample_registry_fields sample_texts)
    (simp add: sample_keys_def sample_events_def sample_event_def sample_key_def)

lemma sample_active: "active_strategy sample_registry = Inr (Some sample_strategy)"
  by (simp add: active_strategy_def sample_registry_fields sample_bootstrap_def dict_index_def)

subsection \<open>Advancing\<close>

text \<open>
  C35: Advancing works whenever it is authorized: with a receipt that verifies and matches the experiment,
  a legal stage, texts that are not blank, unused ids and key and a clock that has not gone back, the
  experiment moves to the stage; a promotion or rollback makes the strategy it names the active one, and
  any other transition leaves the active strategy alone.
\<close>

theorem advance_succeeds:
  assumes "registry_ok w" "map_of (s_experiments w) i = Some e"
    and "verifier r (utc (e_clock E (w_ticks w))) = Inr ()" "require_matching_gate_receipt e target r = Inr ()"
    and "legal_edge (ex_stage e) target" "ex_updated_at e \<le> e_clock E (w_ticks w)"
    and "strip (gr_reason r) \<noteq> []" "strip (gr_artifact_ref r) \<noteq> []" "strip key \<noteq> []"
    and "map_of (s_experiment_transition_keys w) (strip key) = None" "digests_ok E"
    and "e_ids E (w_ids w) \<notin> s_experiment_transition_ids w"
    and "activates e target \<Longrightarrow> e_ids E (Suc (w_ids w)) \<notin> sa_id ` set (s_strategy_activations w) \<and>
      (\<exists>a. active_strategy w = Inr (Some a) \<and> st_id a = outgoing e target)"
  shows "\<exists>res w'. advance_experiment E verifier i target r key w = (Inr res, w') \<and>
    ex_stage (er_experiment res) = target \<and> ex_id (er_experiment res) = ex_id e \<and> \<not> er_replay res \<and>
    active_strategy w' =
      (if activates e target then Inr (map_of (s_strategies w') (incoming e target)) else active_strategy w)"
  using advance_accepts [where verifier = verifier and E = E and w = w and r = r, OF assms(1-12)] assms(13)
  by (metis advanced_fields(1,5) evolution_transition_result.select_convs)

lemma sample_advance_hyps:
  "map_of (s_experiments sample_registry) 90 = Some sample_experiment"
  "legal_edge (ex_stage sample_experiment) PROMOTED"
  "ex_updated_at sample_experiment \<le> e_clock sample_env (w_ticks sample_registry)"
  "e_ids sample_env (w_ids sample_registry) \<notin> s_experiment_transition_ids sample_registry"
  "e_ids sample_env (Suc (w_ids sample_registry)) \<notin> sa_id ` set (s_strategy_activations sample_registry) \<and>
    (\<exists>a. active_strategy sample_registry = Inr (Some a) \<and> st_id a = outgoing sample_experiment PROMOTED)"
  by (simp_all add: sample_registry_fields sample_active outgoing_def)
    (simp_all add: sample_experiment_def sample_env_def sample_bootstrap_def sample_strategy_def)

lemma sample_advance:
  "\<exists>res w'. advance_experiment sample_env (\<lambda>_ _. Inr ()) 90 PROMOTED sample_receipt sample_key sample_registry =
     (Inr res, w') \<and> active_strategy w' = Inr (Some sample_candidate_strategy) \<and>
     (\<exists>a. s_strategy_activations w' = [sample_bootstrap, a] \<and> sa_kind a = PROMOTION)"
proof -
  have st: "activates sample_experiment PROMOTED" "incoming sample_experiment PROMOTED = 78"
    by (simp_all add: sample_experiment_def activates_def incoming_def)
  obtain w' where w': "advance_experiment sample_env (\<lambda>_ _. Inr ()) 90 PROMOTED sample_receipt sample_key sample_registry =
      (Inr \<lparr>er_experiment = advanced sample_env sample_experiment PROMOTED sample_registry, er_replay = False\<rparr>, w')"
    "active_strategy w' = (if activates sample_experiment PROMOTED
      then Inr (map_of (s_strategies w') (incoming sample_experiment PROMOTED)) else active_strategy sample_registry)"
    "s_strategies w' = s_strategies sample_registry" "s_strategy_activations w' = [sample_bootstrap] @
      (if activates sample_experiment PROMOTED
       then [activation_of sample_env sample_experiment PROMOTED (gr_reason sample_receipt) sample_registry] else [])"
    using advance_accepts [OF sample_registry_ok sample_advance_hyps(1) _ sample_matching sample_advance_hyps(2,3)
        sample_texts(1,2) _ sample_key_free sample_digests sample_advance_hyps(4,5), of "\<lambda>_ _. Inr ()"]
      sample_texts(3,4) by (auto simp: sample_registry_fields(2))
  then show ?thesis using st by (auto simp: sample_registry_fields activation_of_def)
qed

theorem advance_succeeds_witness:
  "\<exists>res w'. advance_experiment sample_env (\<lambda>_ _. Inr ()) 90 PROMOTED sample_receipt sample_key sample_registry =
     (Inr res, w') \<and> ex_stage (er_experiment res) = PROMOTED"
  using advance_succeeds [OF sample_registry_ok sample_advance_hyps(1) _ sample_matching sample_advance_hyps(2,3)
        sample_texts(1,2) _ sample_key_free sample_digests sample_advance_hyps(4,5), of "\<lambda>_ _. Inr ()"]
      sample_texts(3,4) by auto

text \<open>
  C21: Only a receipt changes the active strategy: when advancing an experiment leaves another strategy
  active than before, the receipt was verified at that moment, names this experiment and this
  transition, and either promotes its candidate from the canary stage with the hard gates passed, or rolls
  its baseline back from the promoted stage.
\<close>

theorem only_receipts_activate:
  assumes "registry_ok w" "advance_experiment E verifier i target r key w = (Inr res, w')"
    and "active_strategy w' \<noteq> active_strategy w"
  shows "verifier r (utc (e_clock E (w_ticks w))) = Inr () \<and> gr_experiment_id r = i \<and> gr_to_stage r = target \<and>
    (target = PROMOTED \<and> gr_from_stage r = CANARY \<and> gr_decision r = PASS \<and> gr_hard_gates_passed r \<and>
       active_strategy w' = Inr (map_of (s_strategies w') (gr_candidate_id r)) \<or>
     target = ROLLED_BACK \<and> gr_from_stage r = PROMOTED \<and> gr_decision r = ROLLBACK_DECISION \<and>
       active_strategy w' = Inr (map_of (s_strategies w') (gr_baseline_id r)))"
  by (rule activation_follows_receipt [OF assms])

theorem only_receipts_activate_witness:
  "\<exists>res w'. advance_experiment sample_env (\<lambda>_ _. Inr ()) 90 PROMOTED sample_receipt sample_key sample_registry =
     (Inr res, w') \<and> active_strategy w' = Inr (map_of (s_strategies w') (gr_candidate_id sample_receipt))"
proof -
  obtain res w' where run: "advance_experiment sample_env (\<lambda>_ _. Inr ()) 90 PROMOTED sample_receipt sample_key
      sample_registry = (Inr res, w')" and act: "active_strategy w' = Inr (Some sample_candidate_strategy)"
    using sample_advance by blast
  have "sample_candidate_strategy \<noteq> sample_strategy" by (simp add: sample_candidate_strategy_def sample_strategy_def)
  then show ?thesis using only_receipts_activate [OF sample_registry_ok run] act run by (simp add: sample_active)
qed

text \<open>
  Advancing with the same key again answers with the same experiment, marked as a replay, and changes
  nothing, even when the receipt would no longer verify.
\<close>

theorem advance_is_idempotent:
  assumes "registry_ok w" "map_of (s_experiment_transition_keys w) (strip key) = None"
    and "advance_experiment E verifier i target r key w = (Inr res, w')" "digests_ok E"
  shows "advance_experiment E verifier' i target r key w' =
    (Inr \<lparr>er_experiment = er_experiment res, er_replay = True\<rparr>, w')"
  using advance_twice [OF assms(1-3)] assms(4) by (simp add: digests_ok_def)

theorem advance_is_idempotent_witness:
  "\<exists>e w'. advance_experiment sample_env (\<lambda>_ _. Inl KeyError) 90 PROMOTED sample_receipt sample_key w' =
     (Inr \<lparr>er_experiment = e, er_replay = True\<rparr>, w') \<and>
     active_strategy w' = Inr (Some sample_candidate_strategy)"
proof -
  obtain res w' where run: "advance_experiment sample_env (\<lambda>_ _. Inr ()) 90 PROMOTED sample_receipt sample_key
      sample_registry = (Inr res, w')" and act: "active_strategy w' = Inr (Some sample_candidate_strategy)"
    using sample_advance by blast
  from advance_is_idempotent [OF sample_registry_ok sample_key_free run sample_digests,
      where verifier' = "\<lambda>_ _. Inl KeyError"] act show ?thesis by blast
qed

subsection \<open>Experiments pass every gate\<close>

lemma promoted_history:
  assumes "stage_history h" "PROMOTED \<in> set h"
  shows "prefix [PROPOSED, OFFLINE_PASSED, SHADOW, CANARY, PROMOTED] h"
proof -
  have fp: "forward_path s = Some p \<Longrightarrow> PROMOTED \<in> set p \<Longrightarrow> p = [PROPOSED, OFFLINE_PASSED, SHADOW, CANARY, PROMOTED]"
    for s p by (cases s) auto
  show ?thesis
  proof (cases "forward_path (last h)")
    case (Some p)
    then show ?thesis using stage_history_shape [OF assms(1)] assms(2) fp by fastforce
  next
    case None
    then obtain s p where p: "forward_path s = Some p" "h = p @ [last h]"
      using stage_history_shape [OF assms(1)] by auto
    have "last h \<noteq> PROMOTED" using None by auto
    then have "PROMOTED \<in> set p" using assms(2) p(2) by (metis Un_iff empty_iff empty_set insert_iff list.simps(15) set_append)
    then show ?thesis using fp [OF p(1)] p(2) by (metis prefixI)
  qed
qed

lemma promoted_through_gates:
  assumes "registry_ok s" "a \<in> set (s_strategy_activations s)" "sa_kind a = PROMOTION"
  shows "\<exists>e ts. map_of (s_experiments s) (ex_id e) = Some e \<and> sa_experiment_id a = Some (ex_id e) \<and>
    sa_strategy_id a = ex_candidate_id e \<and> map_of (s_experiment_transitions s) (ex_id e) = Some ts \<and>
    prefix [PROPOSED, OFFLINE_PASSED, SHADOW, CANARY, PROMOTED] (map et_to_stage ts)"
proof -
  note R = registry_okD [OF assms(1)]
  obtain i e ts where a: "sa_experiment_id a = Some i" "map_of (s_experiments s) i = Some e"
    "map_of (s_experiment_transitions s) i = Some ts" "PROMOTED \<in> et_to_stage ` set ts"
    "sa_strategy_id a = ex_candidate_id e"
    using R(5) assms(2,3) unfolding promotions_earned_def by blast
  have "ex_id e = i" "history_ok (s_experiment_transition_keys s) e ts"
    using R(4) a(2,3) unfolding experiments_ok_def by (metis option.inject)+
  moreover then have "prefix [PROPOSED, OFFLINE_PASSED, SHADOW, CANARY, PROMOTED] (map et_to_stage ts)"
    using a(4) by (intro promoted_history) (simp_all add: history_ok_def)
  ultimately show ?thesis using a by blast
qed

text \<open>
  C8: A strategy is only ever promoted through all gates: in every state that requests to a started service lead
  to, whatever they propose, advance or fail at and whatever receipts the verifier lets pass, each promotion in the
  log of activations belongs to an experiment of this strategy whose recorded history starts with all five
  stages in order: proposed, passed offline, shadow, canary, promoted.
\<close>

theorem promotions_pass_every_gate:
  assumes "digests_ok E" and "\<And>p. policy = Some p \<Longrightarrow> strategy_ok p"
    and "mk_service E policy projection required oversample (world_of empty_store n t b) = (Inr sv, w0)"
    and "service_reachable E sv verifier w0 w" and "ids_fresh E w"
    and "a \<in> set (s_strategy_activations w)" "sa_kind a = PROMOTION"
  shows "\<exists>e ts. map_of (s_experiments w) (ex_id e) = Some e \<and> sa_experiment_id a = Some (ex_id e) \<and>
    sa_strategy_id a = ex_candidate_id e \<and> map_of (s_experiment_transitions w) (ex_id e) = Some ts \<and>
    prefix [PROPOSED, OFFLINE_PASSED, SHADOW, CANARY, PROMOTED] (map et_to_stage ts)"
proof -
  have "system_ok E w"
    by (rule reachable_system_ok [OF assms(1) _ _ assms(4,5)])
       (use starting_ok [OF assms(2) empty_system_ok assms(3)] in blast)+
  then show ?thesis using promoted_through_gates [OF _ assms(6,7)] system_okD(2) by blast
qed

theorem promotions_pass_every_gate_witness:
  "\<exists>sv w a (e :: evolution_experiment) ts. service_reachable sample_env sv (\<lambda>_ _. Inr ()) started_world w \<and> a \<in> set (s_strategy_activations w) \<and>
     sa_kind a = PROMOTION \<and> active_strategy w = Inr (map_of (s_strategies w) (sa_strategy_id a)) \<and>
     sa_strategy_id a = ex_candidate_id e \<and> map_of (s_experiment_transitions w) (ex_id e) = Some ts \<and>
     prefix [PROPOSED, OFFLINE_PASSED, SHADOW, CANARY, PROMOTED] (map et_to_stage ts)"
proof -
  obtain sv w a where start: "mk_service sample_env None None False 10 (world_of empty_store 0 0 None) = (Inr sv, started_world)"
    and run: "service_reachable sample_env sv (\<lambda>_ _. Inr ()) started_world w" "ids_fresh sample_env w"
      "a \<in> set (s_strategy_activations w)" "sa_kind a = PROMOTION"
      "active_strategy w = Inr (map_of (s_strategies w) (sa_strategy_id a))"
    using promotion_reached by blast
  have "\<exists>e ts. map_of (s_experiments w) (ex_id e) = Some e \<and> sa_experiment_id a = Some (ex_id e) \<and>
      sa_strategy_id a = ex_candidate_id e \<and> map_of (s_experiment_transitions w) (ex_id e) = Some ts \<and>
      prefix [PROPOSED, OFFLINE_PASSED, SHADOW, CANARY, PROMOTED] (map et_to_stage ts)"
    by (rule promotions_pass_every_gate [OF sample_digests _ start run(1-4)]) simp
  then show ?thesis using run by blast
qed

text \<open>
  An experiment cannot be advanced for ever: its history is recorded in full, in time order, ends in
  its current stage and has at most six entries, because every transition moves forward along the gates or
  ends the experiment.
\<close>

theorem experiments_end:
  assumes "registry_ok s" "map_of (s_experiments s) i = Some e"
  shows "\<exists>ts. map_of (s_experiment_transitions s) i = Some ts \<and> 1 \<le> length ts \<and> length ts \<le> 6 \<and>
    sorted (map et_transitioned_at ts) \<and> et_to_stage (last ts) = ex_stage e \<and>
    (experiment_transitions (ex_stage e) = [] \<or> length ts \<le> 5)"
proof -
  obtain ts where ts: "map_of (s_experiment_transitions s) i = Some ts" "history_ok (s_experiment_transition_keys s) e ts"
    using registry_okD(4) [OF assms(1)] assms(2) unfolding experiments_ok_def by blast
  then have h: "stage_history (map et_to_stage ts)" "et_to_stage (last ts) = ex_stage e" "sorted (map et_transitioned_at ts)"
    by (simp_all add: history_ok_def)
  have len: "length ts \<le> 6" "ts \<noteq> []" using stage_history_length [OF h(1)] stage_history_ne [OF h(1)] by simp_all
  have "length ts \<le> 5 \<or> experiment_transitions (ex_stage e) = []"
  proof (cases "forward_path (ex_stage e)")
    case None
    then show ?thesis by (cases "ex_stage e") simp_all
  next
    case (Some p)
    then have "map et_to_stage ts = p" using stage_history_shape [OF h(1)] h(2) len(2) by (simp add: last_map)
    moreover have "length p \<le> 5" using Some by (cases "ex_stage e") auto
    ultimately show ?thesis by (metis length_map)
  qed
  then show ?thesis using ts(1) h len by (cases ts) auto
qed

theorem experiments_end_witness:
  "length sample_events = 4 \<and> et_to_stage (last sample_events) = CANARY"
  using experiments_end [OF sample_registry_ok, of 90 sample_experiment]
  by (simp add: sample_registry_fields) (simp add: sample_events_def sample_experiment_def)

subsection \<open>Gate receipts\<close>

text \<open>
  Verification accepts a receipt at a time exactly when its issuer and key are trusted, its signature
  is the keyed digest of its canonical payload under that key, and the time lies in its window of validity
  (the issue time included, the expiry excluded).
\<close>

theorem verify_accepts_exactly:
  "verify E hmac trusted r (utc t) = Inr () \<longleftrightarrow>
     (\<exists>secret. map_of trusted (gr_issuer r, gr_key_id r) = Some secret \<and>
        gr_signature r = hmac secret (canonical_gate_receipt_payload E r) \<and> is_ascii (gr_signature r)) \<and>
     gr_issued_at r \<le> t \<and> t < gr_expires_at r"
  by (rule verify_Inr)

text \<open>
  C34: The payload that is signed binds the whole claim: two receipts with the same canonical payload
  agree on the experiment, both strategies, the transition, the decision, the artifact, the key, the
  gates and the reason, so a signature cannot be moved to another transition.
\<close>

theorem payload_binds_claims:
  "canonical_gate_receipt_payload E a = canonical_gate_receipt_payload E b \<longleftrightarrow>
     gr_id a = gr_id b \<and> gr_experiment_id a = gr_experiment_id b \<and> gr_baseline_id a = gr_baseline_id b \<and>
     gr_candidate_id a = gr_candidate_id b \<and> gr_from_stage a = gr_from_stage b \<and>
     gr_to_stage a = gr_to_stage b \<and> gr_decision a = gr_decision b \<and>
     gr_artifact_ref a = gr_artifact_ref b \<and> gr_artifact_sha256 a = gr_artifact_sha256 b \<and>
     gr_issuer a = gr_issuer b \<and> gr_key_id a = gr_key_id b \<and>
     isoformat (gr_issued_at a) = isoformat (gr_issued_at b) \<and>
     isoformat (gr_expires_at a) = isoformat (gr_expires_at b) \<and>
     gr_hard_gates_passed a = gr_hard_gates_passed b \<and> gr_reason a = gr_reason b"
  unfolding payload_eq_iff by (rule claims_eq_iff)

text \<open>
  C31: A receipt that was issued verifies: whoever trusts the secret of the signer accepts it at any time of
  its window, for the experiment, stage and target it was issued for.
\<close>

theorem issued_receipts_verify:
  assumes "is_ascii artifact" "\<And>k m. sha256_text (hmac k m)"
    and "issue E hmac sg i e target dec aref artifact (utc issued) (utc expires) gates why = Inr r"
    and "map_of trusted (strip (sg_issuer sg), strip (sg_key_id sg)) = Some (sg_secret sg)"
    and "issued \<le> t" "t < expires"
  shows "verify E hmac trusted r (utc t) = Inr () \<and> gr_experiment_id r = ex_id e \<and>
    gr_from_stage r = ex_stage e \<and> gr_to_stage r = target"
proof -
  note S = issue_signed [OF assms(1,2,3)]
  have "gr_issued_at r = issued" "gr_expires_at r = expires" using S by simp_all
  moreover have "is_ascii (gr_signature r)"
    using S assms(2) [of "sg_secret sg" "canonical_gate_receipt_payload E r"]
    by (auto simp: sha256_text_def is_ascii_def elim!: list.pred_mono_strong)
  ultimately show ?thesis using S assms(4-6) by (simp add: verify_Inr)
qed

definition sample_signer :: receipt_signer where
  "sample_signer = \<lparr>sg_issuer = uc ''ci'', sg_key_id = uc ''k'', sg_secret = replicate 32 7\<rparr>"

lemma sample_signer_texts:
  "stripped (sg_issuer sample_signer)" "stripped (sg_key_id sample_signer)"
  "stripped (gr_artifact_ref sample_receipt)" "stripped (gr_reason sample_receipt)"
  by (simp_all add: stripped_def is_space_def sample_signer_def sample_receipt_def)

theorem issued_receipts_verify_witness:
  "\<exists>r. issue sample_env (\<lambda>_ _. sample_digest) sample_signer 70 sample_experiment PROMOTED PASS
      (gr_artifact_ref sample_receipt) sample_digest (utc 0) (utc 9) True (gr_reason sample_receipt) = Inr r \<and>
     verify sample_env (\<lambda>_ _. sample_digest)
       [((sg_issuer sample_signer, sg_key_id sample_signer), sg_secret sample_signer)] r (utc 5) = Inr ()"
proof -
  have sha: "require_sha256 db sample_digest f = Inr sample_digest" for db f
    by (rule require_sha256_text [OF sample_digest_text])
  have "placeholder_signature = sample_digest" by (simp add: placeholder_signature_def sample_digest_def)
  moreover have "ex_baseline_id sample_experiment \<noteq> ex_candidate_id sample_experiment" "ex_stage sample_experiment = CANARY"
    by (simp_all add: sample_experiment_def)
  ultimately have "\<exists>r. issue sample_env (\<lambda>_ _. sample_digest) sample_signer 70 sample_experiment PROMOTED PASS
      (gr_artifact_ref sample_receipt) sample_digest (utc 0) (utc 9) True (gr_reason sample_receipt) = Inr r"
    by (simp add: issue_def mk_gate_receipt_def with_signature_def sha raise_if_def
        require_text_stripped [OF sample_signer_texts(1)] require_text_stripped [OF sample_signer_texts(2)]
        require_text_stripped [OF sample_signer_texts(3)] require_text_stripped [OF sample_signer_texts(4)])
  then obtain r where r: "issue sample_env (\<lambda>_ _. sample_digest) sample_signer 70 sample_experiment PROMOTED PASS
      (gr_artifact_ref sample_receipt) sample_digest (utc 0) (utc 9) True (gr_reason sample_receipt) = Inr r" by blast
  have "is_ascii sample_digest" by (simp add: sample_digest_def is_ascii_def list_all_iff)
  from issued_receipts_verify [OF this sample_digest_text r] r show ?thesis
    by (simp add: strip_id [OF sample_signer_texts(1)] strip_id [OF sample_signer_texts(2)])
qed

end
