(* ===== verification/ProjectionWorker.thy ===== *)
theory ProjectionWorker
  imports GovernanceStore Loader
begin

text \<open>
  \<open>application/projection.py\<close> and the types of \<open>application/projection_types.py\<close> it exchanges: the
  worker that keeps the vector index in step with the store.  The job table and the index are
  collaborators behind ports, programs on a state of their own.  An item that fails is rescheduled with exponential backoff or dead-lettered.
\<close>

subsection \<open>Documents and work items\<close>

record projection_document =
  pd_source_event_id :: uuid
  pd_scope :: scope
  pd_record_id :: uuid
  pd_revision_id :: uuid
  pd_key :: ustr
  pd_value :: ustr
  pd_context :: context_sig
  pd_valid_from :: instant
  pd_recorded_at :: instant

definition mk_projection_document ::
  "uuid \<Rightarrow> scope \<Rightarrow> uuid \<Rightarrow> uuid \<Rightarrow> ustr \<Rightarrow> ustr \<Rightarrow> context_sig \<Rightarrow> py_datetime \<Rightarrow> py_datetime \<Rightarrow>
   projection_document res" where
  "mk_projection_document event sc r v key value ctx valid_from recorded_at =
     rbind (require_text key ''projection key'') (\<lambda>key'.
     rbind (require_text value ''projection value'') (\<lambda>value'.
     rbind (require_utc valid_from ''valid_from'') (\<lambda>valid.
     rbind (require_utc recorded_at ''recorded_at'') (\<lambda>recorded.
     Inr \<lparr>pd_source_event_id = event, pd_scope = sc, pd_record_id = r, pd_revision_id = v,
       pd_key = key', pd_value = value', pd_context = ctx, pd_valid_from = valid,
       pd_recorded_at = recorded\<rparr>))))"

definition search_text :: "projection_document \<Rightarrow> ustr" where
  "search_text d =
     (let ctx = join [32] (map (\<lambda>(k, v). k @ [32] @ v) (facets (pd_context d)))
      in join [32] (filter (\<lambda>part. part \<noteq> []) [pd_key d, pd_value d, ctx]))"

record work_item =
  wi_event_id :: uuid
  wi_event_type :: ustr
  wi_scope :: scope
  wi_record_id :: uuid
  wi_revision_id :: uuid
  wi_occurred_at :: instant
  wi_attempts :: int

definition mk_work_item ::
  "uuid \<Rightarrow> ustr \<Rightarrow> scope \<Rightarrow> uuid \<Rightarrow> uuid \<Rightarrow> py_datetime \<Rightarrow> int \<Rightarrow> work_item res" where
  "mk_work_item event event_type sc r v occurred_at attempts =
     rbind (require_text event_type ''event_type'') (\<lambda>event_type'.
     rbind (require_utc occurred_at ''occurred_at'') (\<lambda>occurred.
     rbind (raise_if (attempts < 1) (ValueError ''projection work attempts must be positive'')) (\<lambda>_.
     Inr \<lparr>wi_event_id = event, wi_event_type = event_type', wi_scope = sc, wi_record_id = r,
       wi_revision_id = v, wi_occurred_at = occurred, wi_attempts = attempts\<rparr>)))"

record run_result =
  rr_claimed :: int
  rr_succeeded :: int
  rr_failed :: int
  rr_dead_lettered :: int

definition idle :: "run_result \<Rightarrow> bool" where
  "idle r \<longleftrightarrow> rr_claimed r = 0"

subsection \<open>Settings\<close>

record worker_settings =
  ws_projection_name :: ustr
  ws_batch_size :: int
  ws_lease_seconds :: pyfloat
  ws_retry_base :: pyfloat
  ws_retry_max :: pyfloat
  ws_max_attempts :: int

definition mk_worker_settings :: "worker_settings \<Rightarrow> worker_settings res" where
  "mk_worker_settings s =
     rbind (raise_if (strip (ws_projection_name s) = [])
       (ValueError ''projection_name must not be blank'')) (\<lambda>_.
     rbind (raise_if (ws_batch_size s < 1) (ValueError ''batch_size must be positive'')) (\<lambda>_.
     rbind (raise_if (ws_lease_seconds s \<le> 0) (ValueError ''lease_seconds must be positive'')) (\<lambda>_.
     rbind (raise_if (ws_retry_base s \<le> 0) (ValueError ''retry_base_seconds must be positive'')) (\<lambda>_.
     rbind (raise_if (ws_retry_max s < ws_retry_base s)
       (ValueError ''retry_max_seconds must be >= retry_base_seconds'')) (\<lambda>_.
     rbind (raise_if (ws_max_attempts s < 1) (ValueError ''max_attempts must be positive'')) (\<lambda>_.
     Inr s))))))"

text \<open>
  \<open>timedelta(seconds=x)\<close> in microseconds: the whole seconds, then the rest to nearest, ties to even.  More
  than 999999999 days either way are an \<open>OverflowError\<close>.
\<close>

definition microseconds_of :: "pyfloat \<Rightarrow> int" where
  "microseconds_of x =
     (let whole = (if x < 0 then \<lceil>x\<rceil> else \<lfloor>x\<rfloor>)
      in round_even (of_int (whole * 1000000) + fmul 1000000 (x - of_int whole)))"

definition timedelta_seconds :: "pyfloat \<Rightarrow> int res" where
  "timedelta_seconds x =
     (let n = microseconds_of x
      in rbind (raise_if (\<bar>n div 86400000000\<bar> > 999999999) OverflowError) (\<lambda>_. Inr n))"

text \<open>
  The delay of a retry in seconds.  The power of two is an integer that is converted to a float before it is
  multiplied: from 1025 attempts on the conversion raises an \<open>OverflowError\<close>.
\<close>

definition retry_delay :: "worker_settings \<Rightarrow> int \<Rightarrow> pyfloat res" where
  "retry_delay s attempts =
     rbind (float_of_int (2 ^ nat (attempts - 1))) (\<lambda>factor.
     Inr (min (ws_retry_max s) (fmul (ws_retry_base s) factor)))"

definition retry_pause :: "worker_settings \<Rightarrow> int \<Rightarrow> int res" where
  "retry_pause s attempts = rbind (retry_delay s attempts) timedelta_seconds"

subsection \<open>The ports and the log\<close>

datatype worker_event =
    Discovered
  | Upserted projection_document
  | Completed work_item instant
  | Failed work_item instant instant ustr bool
  | IndexReset
  | Requeued instant
  | Closed string

text \<open>
  The run has a log of what the collaborators did, beside the state of the collaborators, on which their
  operations are programs.
\<close>

record 'd worker_state =
  wk_ticks :: nat
  wk_log :: "worker_event list"
  wk_backend :: 'd

record 'd worker_ports =
  wp_discover :: "ustr \<Rightarrow> ('d, int) prog"
  wp_claim :: "ustr \<Rightarrow> ustr \<Rightarrow> int \<Rightarrow> instant \<Rightarrow> ('d, work_item list) prog"
  wp_load :: "work_item \<Rightarrow> ('d, projection_document) prog"
  wp_upsert :: "projection_document \<Rightarrow> ('d, unit) prog"
  wp_complete :: "ustr \<Rightarrow> work_item \<Rightarrow> ustr \<Rightarrow> instant \<Rightarrow> ('d, unit) prog"
  wp_fail :: "ustr \<Rightarrow> work_item \<Rightarrow> ustr \<Rightarrow> instant \<Rightarrow> instant \<Rightarrow> ustr \<Rightarrow> bool \<Rightarrow> ('d, unit) prog"
  wp_admit :: "(scope \<Rightarrow> instant \<Rightarrow> ('d, unit) prog) option"

definition wk_now :: "env \<Rightarrow> ('d worker_state, instant) prog" where
  "wk_now E = (\<lambda>s. (Inr (e_clock E (wk_ticks s)), s\<lparr>wk_ticks := Suc (wk_ticks s)\<rparr>))"

definition on_backend :: "('d, 'a) prog \<Rightarrow> ('d worker_state, 'a) prog" where
  "on_backend m = (\<lambda>s. case m (wk_backend s) of (r, d) \<Rightarrow> (r, s\<lparr>wk_backend := d\<rparr>))"

text \<open>A call of a collaborator: its answer, and the event in the log when it did not raise.\<close>

definition port_call :: "('d, 'a) prog \<Rightarrow> worker_event \<Rightarrow> ('d worker_state, 'a) prog" where
  "port_call call ev =
     pbind (on_backend call) (\<lambda>x. pbind (modify (wk_log_update (\<lambda>l. l @ [ev]))) (\<lambda>_. return x))"

subsection \<open>One run\<close>

definition deliver :: "env \<Rightarrow> 'd worker_ports \<Rightarrow> projection_document \<Rightarrow> ('d worker_state, unit) prog" where
  "deliver E P d =
     (case wp_admit P of
        None \<Rightarrow> port_call (wp_upsert P d) (Upserted d)
      | Some admit \<Rightarrow>
          pbind (wk_now E) (\<lambda>t.
          pbind (on_backend (admit (pd_scope d) t)) (\<lambda>_.
          port_call (wp_upsert P d) (Upserted d))))"

definition handle_item ::
  "env \<Rightarrow> 'd worker_ports \<Rightarrow> worker_settings \<Rightarrow> ustr \<Rightarrow> work_item \<Rightarrow> run_result \<Rightarrow> ('d worker_state, run_result) prog" where
  "handle_item E P S worker_id item r =
     catch
       (pbind (on_backend (wp_load P item)) (\<lambda>d.
        pbind (deliver E P d) (\<lambda>_.
        pbind (wk_now E) (\<lambda>t.
        pbind (port_call (wp_complete P (ws_projection_name S) item worker_id t) (Completed item t)) (\<lambda>_.
        return (r\<lparr>rr_succeeded := rr_succeeded r + 1\<rparr>))))))
       (\<lambda>e.
        pbind (wk_now E) (\<lambda>failed_at.
        pbind (lift_res (retry_pause S (wi_attempts item))) (\<lambda>pause.
        let dead_letter = (ws_max_attempts S \<le> wi_attempts item);
            retry_at = failed_at + pause;
            name = uc (error_name e)
        in pbind (port_call (wp_fail P (ws_projection_name S) item worker_id failed_at retry_at name dead_letter)
             (Failed item failed_at retry_at name dead_letter)) (\<lambda>_.
        return (r\<lparr>rr_failed := rr_failed r + 1,
          rr_dead_lettered := rr_dead_lettered r + (if dead_letter then 1 else 0)\<rparr>)))))"

fun handle_items ::
  "env \<Rightarrow> 'd worker_ports \<Rightarrow> worker_settings \<Rightarrow> ustr \<Rightarrow> work_item list \<Rightarrow> run_result \<Rightarrow> ('d worker_state, run_result) prog" where
  "handle_items E P S worker_id [] r = return r"
| "handle_items E P S worker_id (item # items) r =
     pbind (handle_item E P S worker_id item r) (\<lambda>r'. handle_items E P S worker_id items r')"

definition run_once ::
  "env \<Rightarrow> 'd worker_ports \<Rightarrow> worker_settings \<Rightarrow> ustr \<Rightarrow> ('d worker_state, run_result) prog" where
  "run_once E P S worker_id =
     pbind (wk_now E) (\<lambda>n.
     pbind (port_call (wp_discover P (ws_projection_name S)) Discovered) (\<lambda>_.
     pbind (lift_res (timedelta_seconds (ws_lease_seconds S))) (\<lambda>lease.
     pbind (on_backend (wp_claim P (ws_projection_name S) worker_id (ws_batch_size S) (n + lease))) (\<lambda>items.
     pbind (handle_items E P S worker_id items
       \<lparr>rr_claimed = 0, rr_succeeded = 0, rr_failed = 0, rr_dead_lettered = 0\<rparr>) (\<lambda>r.
     return (r\<lparr>rr_claimed := int (length items)\<rparr>))))))"

subsection \<open>Readiness, rebuilding and closing\<close>

text \<open>The other operations of the worker's collaborators.\<close>

record 'd maintenance_ports =
  mp_worker :: "'d worker_ports"
  mp_source_ready :: "('d, bool) prog"
  mp_sink_ready :: "('d, bool) prog"
  mp_reset :: "('d, unit) prog"
  mp_requeue_all :: "ustr \<Rightarrow> instant \<Rightarrow> ('d, int) prog"
  mp_close_governance :: "('d, unit) prog option"
  mp_close_source :: "('d, unit) prog"
  mp_close_sink :: "('d, unit) prog"

definition worker_ready :: "'d maintenance_ports \<Rightarrow> ('d worker_state, bool) prog" where
  "worker_ready M =
     pbind (on_backend (mp_source_ready M)) (\<lambda>source.
     if source then on_backend (mp_sink_ready M) else return False)"

definition rebuild :: "env \<Rightarrow> 'd maintenance_ports \<Rightarrow> worker_settings \<Rightarrow> ('d worker_state, int) prog" where
  "rebuild E M S =
     pbind (wk_now E) (\<lambda>n.
     pbind (port_call (mp_reset M) IndexReset) (\<lambda>_.
     pbind (port_call (wp_discover (mp_worker M) (ws_projection_name S)) Discovered) (\<lambda>_.
     port_call (mp_requeue_all M (ws_projection_name S) n) (Requeued n))))"

text \<open>\<open>try: m finally: f\<close>: \<open>f\<close> always runs, and its own error wins.\<close>

definition finally_do :: "('s, 'a) prog \<Rightarrow> ('s, unit) prog \<Rightarrow> ('s, 'a) prog" where
  "finally_do m f = (\<lambda>s. case m s of (r, t) \<Rightarrow>
     (case f t of (Inl e, u) \<Rightarrow> (Inl e, u) | (Inr _, u) \<Rightarrow> (r, u)))"

definition close_worker :: "'d maintenance_ports \<Rightarrow> ('d worker_state, unit) prog" where
  "close_worker M =
     finally_do
       (case mp_close_governance M of None \<Rightarrow> return () | Some close \<Rightarrow> port_call close (Closed ''governance''))
       (pbind (port_call (mp_close_source M) (Closed ''source'')) (\<lambda>_.
        port_call (mp_close_sink M) (Closed ''sink'')))"

end
