(* ===== verification/JobQueue.thy ===== *)
theory JobQueue
  imports ProjectionWorker Loader
begin

text \<open>
  \<open>adapters/projection_outbox.py\<close>: the table of projection jobs, one per projection and outbox event.  Each SQL
  statement is a function on the tables it names, a transaction applies all of its statements or none, and
  \<open>CURRENT_TIMESTAMP\<close> is the moment its transaction began.  What the server decides is an argument: whether a
  connection can be had, which rows other transactions have locked, the order of the rows an
  \<open>UPDATE ... RETURNING\<close> answers with, and the text of a JSON value that is not a string (\<open>str\<close> and \<open>->>\<close>).
\<close>

subsection \<open>The tables\<close>

record outbox_event =
  oe_aggregate_type :: ustr
  oe_event_type :: ustr
  oe_payload :: jvalue
  oe_occurred_at :: instant

datatype job_status = JOB_PENDING | JOB_PROCESSING | JOB_FAILED | JOB_SUCCEEDED | JOB_DEAD_LETTER

record job =
  jb_status :: job_status
  jb_attempts :: int
  jb_available_at :: instant
  jb_lease_owner :: "ustr option"
  jb_lease_until :: "instant option"
  jb_last_error :: "ustr option"
  jb_processed_at :: "instant option"
  jb_created_at :: instant
  jb_updated_at :: instant

type_synonym job_key = "ustr \<times> uuid"

text \<open>The check constraints of the table; \<open>attempts\<close> is a 32-bit integer.\<close>

definition job_checked :: "job \<Rightarrow> bool" where
  "job_checked j \<longleftrightarrow> 0 \<le> jb_attempts j \<and>
     (jb_status j = JOB_PROCESSING \<longleftrightarrow> jb_lease_owner j \<noteq> None) \<and>
     (jb_status j = JOB_PROCESSING \<longleftrightarrow> jb_lease_until j \<noteq> None) \<and>
     (jb_status j = JOB_SUCCEEDED \<longleftrightarrow> jb_processed_at j \<noteq> None)"

definition max_attempts_value :: int where
  "max_attempts_value = 2 ^ 31 - 1"

record cursor =
  cu_last_event :: "uuid option"
  cu_last_occurred_at :: "instant option"
  cu_updated_at :: instant

text \<open>The columns of records and revisions that a projection reads.\<close>

record record_row =
  rw_tenant :: ustr
  rw_subject :: ustr
  rw_key :: ustr
  rw_context :: "(ustr, ustr) dict"

record revision_row =
  vw_record_id :: uuid
  vw_tenant :: ustr
  vw_subject :: ustr
  vw_value :: ustr
  vw_valid_from :: instant
  vw_recorded_at :: instant

record job_db =
  jd_transactions :: nat
  jd_events :: "(uuid, outbox_event) dict"
  jd_jobs :: "(job_key, job) dict"
  jd_cursors :: "(ustr, cursor) dict"
  jd_records :: "(uuid, record_row) dict"
  jd_revisions :: "(uuid, revision_row) dict"

text \<open>One row of \<open>UPDATE ... RETURNING\<close>: the event with its job's attempts.\<close>

type_synonym work_row = "uuid \<times> outbox_event \<times> int"

record job_server =
  js_connect :: "nat \<Rightarrow> unit res"
  js_clock :: "nat \<Rightarrow> instant"
  js_locked :: "nat \<Rightarrow> job_key list"
  js_returning :: "nat \<Rightarrow> work_row list \<Rightarrow> work_row list"
  js_str :: "jvalue \<Rightarrow> ustr"
  js_json :: "jvalue \<Rightarrow> ustr"
  js_db :: unidb

subsection \<open>Statements\<close>

text \<open>\<open>UPDATE t SET f WHERE p\<close> and its row count.\<close>

definition update_where :: "('k \<Rightarrow> 'v \<Rightarrow> bool) \<Rightarrow> ('v \<Rightarrow> 'v) \<Rightarrow> ('k, 'v) dict \<Rightarrow> ('k, 'v) dict" where
  "update_where p f t = map (\<lambda>(k, v). (k, if p k v then f v else v)) t"

definition rows_where :: "('k \<Rightarrow> 'v \<Rightarrow> bool) \<Rightarrow> ('k, 'v) dict \<Rightarrow> ('k, 'v) dict" where
  "rows_where p t = filter (\<lambda>(k, v). p k v) t"

text \<open>\<open>with pool.connection()\<close>: all of the statements, or an exception and none.\<close>

definition sql_transaction ::
  "job_server \<Rightarrow> (nat \<Rightarrow> (job_db, 'a) prog) \<Rightarrow> (job_db, 'a) prog" where
  "sql_transaction C body = (\<lambda>d.
     let n = jd_transactions d; begun = d\<lparr>jd_transactions := Suc n\<rparr> in
     case js_connect C n of
       Inl e \<Rightarrow> (Inl e, begun)
     | Inr _ \<Rightarrow> (case body n begun of (Inl e, _) \<Rightarrow> (Inl e, begun) | (Inr x, t) \<Rightarrow> (Inr x, t)))"

definition source_ready :: "job_server \<Rightarrow> job_db \<Rightarrow> bool" where
  "source_ready C d \<longleftrightarrow> (case js_connect C (jd_transactions d) of Inl _ \<Rightarrow> False | Inr _ \<Rightarrow> True)"

subsection \<open>Discovering\<close>

definition revision_event :: "outbox_event \<Rightarrow> bool" where
  "revision_event e \<longleftrightarrow> oe_aggregate_type e = uc ''memory_revision'' \<and>
     oe_event_type e \<in> {uc ''memory.revision.created'', uc ''memory.revision.appended''}"

definition new_job :: "instant \<Rightarrow> instant \<Rightarrow> job" where
  "new_job available t = \<lparr>jb_status = JOB_PENDING, jb_attempts = 0, jb_available_at = available,
     jb_lease_owner = None, jb_lease_until = None, jb_last_error = None, jb_processed_at = None,
     jb_created_at = t, jb_updated_at = t\<rparr>"

definition discovered :: "ustr \<Rightarrow> instant \<Rightarrow> job_db \<Rightarrow> (job_key, job) dict" where
  "discovered name t d =
     map (\<lambda>(i, e). ((name, i), new_job (oe_occurred_at e) t))
       (rows_where (\<lambda>i e. revision_event e \<and> (name, i) \<notin> fst ` set (jd_jobs d)) (jd_events d))"

definition discover :: "job_server \<Rightarrow> ustr \<Rightarrow> (job_db, int) prog" where
  "discover C name = sql_transaction C (\<lambda>n.
     pbind (gets (discovered name (js_clock C n))) (\<lambda>rows.
     pbind (modify (jd_jobs_update (\<lambda>jobs. jobs @ rows))) (\<lambda>_.
     return (int (length rows)))))"

subsection \<open>Claiming\<close>

definition claimable :: "instant \<Rightarrow> job \<Rightarrow> bool" where
  "claimable t j \<longleftrightarrow>
     (jb_status j \<in> {JOB_PENDING, JOB_FAILED} \<and> jb_available_at j \<le> t) \<or>
     (jb_status j = JOB_PROCESSING \<and> (case jb_lease_until j of None \<Rightarrow> False | Some u \<Rightarrow> u \<le> t))"

text \<open>The jobs of the projection with their events, oldest first; locked rows are skipped.\<close>

definition claim_rows :: "job_db \<Rightarrow> ustr \<Rightarrow> instant \<Rightarrow> job_key list \<Rightarrow> int \<Rightarrow> (uuid \<times> outbox_event) list" where
  "claim_rows d name t locked limit =
     take (nat limit) (sort_key (\<lambda>(i, e). (oe_occurred_at e, i))
       (filter (\<lambda>(i, e). (name, i) \<notin> set locked \<and>
          (case map_of (jd_jobs d) (name, i) of None \<Rightarrow> False | Some j \<Rightarrow> claimable t j)) (jd_events d)))"

definition leased :: "ustr \<Rightarrow> instant \<Rightarrow> instant \<Rightarrow> job \<Rightarrow> job" where
  "leased worker lease_until t j = j\<lparr>jb_status := JOB_PROCESSING, jb_attempts := jb_attempts j + 1,
     jb_lease_owner := Some worker, jb_lease_until := Some lease_until, jb_last_error := None,
     jb_processed_at := None, jb_updated_at := t\<rparr>"

definition attempts_of :: "job_db \<Rightarrow> job_key \<Rightarrow> int" where
  "attempts_of d k = (case map_of (jd_jobs d) k of None \<Rightarrow> 0 | Some j \<Rightarrow> jb_attempts j)"

definition claim_statement ::
  "job_server \<Rightarrow> ustr \<Rightarrow> ustr \<Rightarrow> int \<Rightarrow> instant \<Rightarrow> nat \<Rightarrow> (job_db, work_row list) prog" where
  "claim_statement C name worker limit lease_until n =
     pbind (lift_res (raise_if (limit < 0) (ExternalError ''InvalidRowCountInLimitClause''))) (\<lambda>_.
     pbind (gets (\<lambda>d. claim_rows d name (js_clock C n) (js_locked C n) limit)) (\<lambda>rows.
     pbind (asks (\<lambda>d. raise_if (\<exists>r \<in> set rows. max_attempts_value \<le> attempts_of d (name, fst r))
       (ExternalError ''NumericValueOutOfRange''))) (\<lambda>_.
     pbind (modify (jd_jobs_update (update_where (\<lambda>k j. fst k = name \<and> snd k \<in> fst ` set rows)
       (leased worker lease_until (js_clock C n))))) (\<lambda>_.
     gets (\<lambda>d. js_returning C n (map (\<lambda>(i, e). (i, e, attempts_of d (name, i))) rows))))))"

definition text_at :: "job_server \<Rightarrow> jdict \<Rightarrow> string \<Rightarrow> ustr res" where
  "text_at C d k =
     (case map_of d (uc k) of
        None \<Rightarrow> Inl KeyError
      | Some v \<Rightarrow> (case v of VText s \<Rightarrow> Inr s | _ \<Rightarrow> Inr (js_str C v)))"

definition uuid_at :: "job_server \<Rightarrow> jdict \<Rightarrow> string \<Rightarrow> uuid res" where
  "uuid_at C d k =
     rbind (text_at C d k) (\<lambda>s.
     case parse_uuid (js_db C) s of
       None \<Rightarrow> Inl (ValueError ''badly formed hexadecimal UUID string'')
     | Some i \<Rightarrow> Inr i)"

definition payload_mapping :: "jvalue \<Rightarrow> jdict res" where
  "payload_mapping v =
     (case v of VDict d \<Rightarrow> Inr d | _ \<Rightarrow> Inl (ValueError ''projection event payload must be an object''))"

definition work_item_of :: "job_server \<Rightarrow> work_row \<Rightarrow> work_item res" where
  "work_item_of C row =
     (case row of (i, e, attempts) \<Rightarrow>
        rbind (payload_mapping (oe_payload e)) (\<lambda>payload.
        rbind (text_at C payload ''tenant_id'') (\<lambda>tenant.
        rbind (text_at C payload ''subject_id'') (\<lambda>subject.
        rbind (mk_scope tenant subject) (\<lambda>sc.
        rbind (uuid_at C payload ''record_id'') (\<lambda>r.
        rbind (uuid_at C payload ''revision_id'') (\<lambda>v.
        mk_work_item i (oe_event_type e) sc r v (utc (oe_occurred_at e)) attempts)))))))"

text \<open>The rows are read after the transaction has committed.\<close>

definition claim :: "job_server \<Rightarrow> ustr \<Rightarrow> ustr \<Rightarrow> int \<Rightarrow> instant \<Rightarrow> (job_db, work_item list) prog" where
  "claim C name worker limit lease_until =
     pbind (sql_transaction C (claim_statement C name worker limit lease_until)) (\<lambda>rows.
     lift_res (rmap (work_item_of C) rows))"

subsection \<open>Loading the document\<close>

definition source_row :: "work_item \<Rightarrow> job_db \<Rightarrow> (record_row \<times> revision_row) option" where
  "source_row item d =
     (case map_of (jd_revisions d) (wi_revision_id item) of
        None \<Rightarrow> None
      | Some v \<Rightarrow>
          if vw_record_id v = wi_record_id item \<and> vw_tenant v = tenant_id (wi_scope item) \<and>
             vw_subject v = subject_id (wi_scope item)
          then (case map_of (jd_records d) (vw_record_id v) of
                  None \<Rightarrow> None
                | Some r \<Rightarrow> if rw_tenant r = vw_tenant v \<and> rw_subject r = vw_subject v then Some (r, v) else None)
          else None)"

definition load_document :: "job_server \<Rightarrow> work_item \<Rightarrow> (job_db, projection_document) prog" where
  "load_document C item =
     pbind (sql_transaction C (\<lambda>n. gets (source_row item))) (\<lambda>row.
     lift_res (case row of
       None \<Rightarrow> Inl (ExternalError ''LookupError'')
     | Some (r, v) \<Rightarrow>
         rbind (from_mapping (Some (rw_context r))) (\<lambda>ctx.
         mk_projection_document (wi_event_id item) (wi_scope item) (wi_record_id item) (wi_revision_id item)
           (rw_key r) (vw_value v) ctx (utc (vw_valid_from v)) (utc (vw_recorded_at v)))))"

subsection \<open>Completing and failing\<close>

definition holds_lease :: "ustr \<Rightarrow> uuid \<Rightarrow> ustr \<Rightarrow> job_key \<Rightarrow> job \<Rightarrow> bool" where
  "holds_lease name i worker k j \<longleftrightarrow>
     k = (name, i) \<and> jb_status j = JOB_PROCESSING \<and> jb_lease_owner j = Some worker"

definition completed_job :: "instant \<Rightarrow> job \<Rightarrow> job" where
  "completed_job t j = j\<lparr>jb_status := JOB_SUCCEEDED, jb_lease_owner := None, jb_lease_until := None,
     jb_processed_at := Some t, jb_updated_at := t\<rparr>"

definition failed_job :: "instant \<Rightarrow> instant \<Rightarrow> ustr \<Rightarrow> bool \<Rightarrow> job \<Rightarrow> job" where
  "failed_job failed_at retry_at error dead j =
     j\<lparr>jb_status := (if dead then JOB_DEAD_LETTER else JOB_FAILED), jb_available_at := retry_at,
       jb_lease_owner := None, jb_lease_until := None, jb_last_error := Some (take 200 error),
       jb_processed_at := None, jb_updated_at := failed_at\<rparr>"

text \<open>The cursor moves to the event unless it is ahead of it.\<close>

definition moved_cursor :: "work_item \<Rightarrow> instant \<Rightarrow> cursor option \<Rightarrow> cursor" where
  "moved_cursor item t old =
     (let moved = \<lparr>cu_last_event = Some (wi_event_id item), cu_last_occurred_at = Some (wi_occurred_at item),
            cu_updated_at = t\<rparr>
      in case old of
           None \<Rightarrow> moved
         | Some c \<Rightarrow>
             (case cu_last_occurred_at c of
                None \<Rightarrow> moved
              | Some u \<Rightarrow> if u \<le> wi_occurred_at item then moved else c))"

definition update_lease :: "ustr \<Rightarrow> uuid \<Rightarrow> ustr \<Rightarrow> (job \<Rightarrow> job) \<Rightarrow> (job_db, nat) prog" where
  "update_lease name i worker f =
     pbind (gets (\<lambda>d. length (rows_where (holds_lease name i worker) (jd_jobs d)))) (\<lambda>rowcount.
     pbind (modify (jd_jobs_update (update_where (holds_lease name i worker) f))) (\<lambda>_.
     return rowcount))"

definition complete :: "job_server \<Rightarrow> ustr \<Rightarrow> work_item \<Rightarrow> ustr \<Rightarrow> instant \<Rightarrow> (job_db, unit) prog" where
  "complete C name item worker completed_at = sql_transaction C (\<lambda>n.
     pbind (update_lease name (wi_event_id item) worker (completed_job completed_at)) (\<lambda>rowcount.
     pbind (lift_res (raise_if (rowcount \<noteq> 1)
       (RuntimeError ''projection job lease was lost before completion''))) (\<lambda>_.
     modify (\<lambda>d. d\<lparr>jd_cursors :=
       dict_set name (moved_cursor item completed_at (map_of (jd_cursors d) name)) (jd_cursors d)\<rparr>))))"

definition fail_job ::
  "job_server \<Rightarrow> ustr \<Rightarrow> work_item \<Rightarrow> ustr \<Rightarrow> instant \<Rightarrow> instant \<Rightarrow> ustr \<Rightarrow> bool \<Rightarrow> (job_db, unit) prog" where
  "fail_job C name item worker failed_at retry_at error dead =
     pbind (sql_transaction C (\<lambda>n.
       update_lease name (wi_event_id item) worker (failed_job failed_at retry_at error dead))) (\<lambda>rowcount.
     lift_res (raise_if (rowcount \<noteq> 1)
       (RuntimeError ''projection job lease was lost before failure recording'')))"

subsection \<open>Requeueing, and what the store does to the outbox\<close>

definition requeued_job :: "instant \<Rightarrow> job \<Rightarrow> job" where
  "requeued_job t j = j\<lparr>jb_status := JOB_PENDING, jb_attempts := 0, jb_available_at := t, jb_lease_owner := None,
     jb_lease_until := None, jb_last_error := None, jb_processed_at := None, jb_updated_at := t\<rparr>"

definition requeue_all :: "job_server \<Rightarrow> ustr \<Rightarrow> instant \<Rightarrow> (job_db, int) prog" where
  "requeue_all C name t = sql_transaction C (\<lambda>n.
     pbind (gets (\<lambda>d. length (rows_where (\<lambda>k j. fst k = name) (jd_jobs d)))) (\<lambda>rowcount.
     pbind (modify (\<lambda>d. d\<lparr>jd_jobs := update_where (\<lambda>k j. fst k = name) (requeued_job t) (jd_jobs d),
       jd_cursors := rows_where (\<lambda>k c. k \<noteq> name) (jd_cursors d)\<rparr>)) (\<lambda>_.
     return (int rowcount))))"

text \<open>
  Two statements of \<open>adapters/postgres.py\<close> write the outbox: a committed revision appends an event, and
  the erasure of a scope deletes its events, which deletes their jobs and clears the cursors on them.
\<close>

definition revision_payload :: "scope \<Rightarrow> uuid \<Rightarrow> uuid \<Rightarrow> int \<Rightarrow> jvalue" where
  "revision_payload sc r v sequence = VDict
     [(uc ''tenant_id'', VText (tenant_id sc)), (uc ''subject_id'', VText (subject_id sc)),
      (uc ''record_id'', VText (uuid_str r)), (uc ''revision_id'', VText (uuid_str v)),
      (uc ''sequence'', VInt sequence)]"

definition append_outbox :: "uuid \<Rightarrow> outbox_event \<Rightarrow> (job_db, unit) prog" where
  "append_outbox i e =
     pbind (asks (\<lambda>d. raise_if (i \<in> fst ` set (jd_events d)) (ExternalError ''UniqueViolation''))) (\<lambda>_.
     modify (jd_events_update (\<lambda>events. events @ [(i, e)])))"

definition revision_outbox ::
  "uuid \<Rightarrow> scope \<Rightarrow> uuid \<Rightarrow> uuid \<Rightarrow> int \<Rightarrow> instant \<Rightarrow> ustr \<Rightarrow> (job_db, unit) prog" where
  "revision_outbox i sc r v sequence recorded_at event_type =
     append_outbox i \<lparr>oe_aggregate_type = uc ''memory_revision'', oe_event_type = event_type,
       oe_payload = revision_payload sc r v sequence, oe_occurred_at = recorded_at\<rparr>"

text \<open>\<open>payload ->> 'key'\<close>\<close>

definition payload_text :: "job_server \<Rightarrow> jvalue \<Rightarrow> string \<Rightarrow> ustr option" where
  "payload_text C v k =
     (case v of
        VDict d \<Rightarrow> (case get_field d k of VNull \<Rightarrow> None | VText s \<Rightarrow> Some s | w \<Rightarrow> Some (js_json C w))
      | _ \<Rightarrow> None)"

definition event_in_scope :: "job_server \<Rightarrow> scope \<Rightarrow> outbox_event \<Rightarrow> bool" where
  "event_in_scope C sc e \<longleftrightarrow>
     payload_text C (oe_payload e) ''tenant_id'' = Some (tenant_id sc) \<and>
     payload_text C (oe_payload e) ''subject_id'' = Some (subject_id sc)"

definition erase_outbox :: "job_server \<Rightarrow> scope \<Rightarrow> (job_db, unit) prog" where
  "erase_outbox C sc = modify (\<lambda>d.
     let gone = fst ` set (rows_where (\<lambda>i e. event_in_scope C sc e) (jd_events d)) in
     d\<lparr>jd_events := rows_where (\<lambda>i e. i \<notin> gone) (jd_events d),
       jd_jobs := rows_where (\<lambda>k j. snd k \<notin> gone) (jd_jobs d),
       jd_cursors := update_where (\<lambda>k c. \<exists>i \<in> gone. cu_last_event c = Some i)
         (\<lambda>c. c\<lparr>cu_last_event := None\<rparr>) (jd_cursors d)\<rparr>)"

subsection \<open>The ports of the worker over this table\<close>

text \<open>The worker's collaborators share nothing: the tables on one side, the vector index on the other.\<close>

definition on_queue :: "(job_db, 'a) prog \<Rightarrow> (job_db \<times> 'x, 'a) prog" where
  "on_queue m = (\<lambda>s. case m (fst s) of (r, d) \<Rightarrow> (r, (d, snd s)))"

definition on_index :: "('x, 'a) prog \<Rightarrow> (job_db \<times> 'x, 'a) prog" where
  "on_index m = (\<lambda>s. case m (snd s) of (r, x) \<Rightarrow> (r, (fst s, x)))"

definition outbox_ports ::
  "job_server \<Rightarrow> (projection_document \<Rightarrow> ('x, unit) prog) \<Rightarrow> (scope \<Rightarrow> instant \<Rightarrow> ('x, unit) prog) option \<Rightarrow>
   (job_db \<times> 'x) worker_ports" where
  "outbox_ports C put admit =
     \<lparr>wp_discover = (\<lambda>name. on_queue (discover C name)),
      wp_claim = (\<lambda>name w n u. on_queue (claim C name w n u)),
      wp_load = (\<lambda>item. on_queue (load_document C item)),
      wp_upsert = (\<lambda>d. on_index (put d)),
      wp_complete = (\<lambda>name item w t. on_queue (complete C name item w t)),
      wp_fail = (\<lambda>name item w t u e dead. on_queue (fail_job C name item w t u e dead)),
      wp_admit = map_option (\<lambda>f sc t. on_index (f sc t)) admit\<rparr>"

end
