(* ===== verification/WorkerCorrect.thy ===== *)
theory WorkerCorrect
  imports ProjectionWorker "HOL-Library.Sublist"
begin

text \<open>
  The worker settles every item it claimed, exactly once and in order: with a completion, or with a
  failure that is rescheduled until the attempts are used up.  What the admission refuses is never
  written into the index, and the delay of a retry is bounded.
\<close>

subsection \<open>The settling events of a run\<close>

fun settled :: "worker_event \<Rightarrow> work_item option" where
  "settled (Completed item t) = Some item"
| "settled (Failed item t u name dead) = Some item"
| "settled _ = None"

fun completion :: "worker_event \<Rightarrow> bool" where
  "completion (Completed item t) = True"
| "completion _ = False"

fun dead_letter :: "worker_event \<Rightarrow> bool" where
  "dead_letter (Failed item t u name dead) = dead"
| "dead_letter _ = False"

text \<open>A failure is a dead letter when the attempts are used up, and otherwise retried after the delay.\<close>

fun failure_ok :: "worker_settings \<Rightarrow> worker_event \<Rightarrow> bool" where
  "failure_ok S (Failed item t u name dead) \<longleftrightarrow>
     retry_pause S (wi_attempts item) = Inr (u - t) \<and> dead = (ws_max_attempts S \<le> wi_attempts item)"
| "failure_ok S _ \<longleftrightarrow> True"

definition settling :: "worker_event list \<Rightarrow> work_item list" where
  "settling l = List.map_filter settled l"

definition admitted_only :: "'d worker_ports \<Rightarrow> worker_event list \<Rightarrow> bool" where
  "admitted_only P l \<longleftrightarrow> (\<forall>d. Upserted d \<in> set l \<longrightarrow>
     (case wp_admit P of None \<Rightarrow> True | Some admit \<Rightarrow> \<exists>t u. fst (admit (pd_scope d) t u) = Inr ()))"

text \<open>The events \<open>l\<close> a part of the run adds, and how it counts them.\<close>

definition accounts ::
  "'d worker_ports \<Rightarrow> worker_settings \<Rightarrow> work_item list \<Rightarrow> run_result \<Rightarrow> run_result \<Rightarrow> worker_event list \<Rightarrow> bool" where
  "accounts P S items r r' l \<longleftrightarrow> settling l = items \<and> admitted_only P l \<and> list_all (failure_ok S) l \<and>
     rr_claimed r' = rr_claimed r \<and>
     rr_succeeded r' = rr_succeeded r + int (length (filter completion l)) \<and>
     rr_failed r' = rr_failed r + (int (length items) - int (length (filter completion l))) \<and>
     rr_dead_lettered r' = rr_dead_lettered r + int (length (filter dead_letter l))"

lemma settling_append: "settling (l @ m) = settling l @ settling m"
  by (simp add: settling_def List.map_filter_def)

lemma accounts_append:
  "accounts P S is r r' l \<Longrightarrow> accounts P S js r' r'' m \<Longrightarrow> accounts P S (is @ js) r r'' (l @ m)"
  by (auto simp: accounts_def settling_append admitted_only_def)

lemma port_call_eval:
  "port_call call ev s = (case call (wk_backend s) of
     (Inl e, d) \<Rightarrow> (Inl e, s\<lparr>wk_backend := d\<rparr>)
   | (Inr x, d) \<Rightarrow> (Inr x, s\<lparr>wk_backend := d, wk_log := wk_log s @ [ev]\<rparr>))"
  by (simp add: port_call_def on_backend_def pbind_def prog_defs split: sum.split prod.split)

lemma wk_now_eval: "wk_now E s = (Inr (e_clock E (wk_ticks s)), s\<lparr>wk_ticks := Suc (wk_ticks s)\<rparr>)"
  by (simp add: wk_now_def)

text \<open>Delivering writes at most the document, and only when it is admitted.\<close>

lemma deliver_log:
  assumes "deliver E P d s = (r, s')"
  shows "\<exists>l. wk_log s' = wk_log s @ l \<and> (l = [] \<or> l = [Upserted d]) \<and> admitted_only P l"
  using assms
  apply (auto simp: deliver_def admitted_only_def port_call_eval on_backend_def pbind_def wk_now_eval
      split: option.splits sum.splits prod.splits)
  apply (metis fst_conv)+
  done

lemma handle_item_accounts:
  assumes run: "handle_item E P S worker_id item r s = (Inr r', s')"
  shows "\<exists>l. wk_log s' = wk_log s @ l \<and> accounts P S [item] r r' l"
proof -
  have settle: "\<exists>l'. wk_log s @ l @ [ev] = wk_log s @ l' \<and> accounts P S [item] r r' l'"
    if l: "l = [] \<or> l = [Upserted d]" "admitted_only P l"
      and ev: "(\<exists>t. ev = Completed item t) \<and> r' = r\<lparr>rr_succeeded := rr_succeeded r + 1\<rparr> \<or>
        (\<exists>t u name dead. ev = Failed item t u name dead \<and> failure_ok S ev \<and>
          r' = r\<lparr>rr_failed := rr_failed r + 1, rr_dead_lettered := rr_dead_lettered r + (if dead then 1 else 0)\<rparr>)"
    for l d ev
    by (rule exI [of _ "l @ [ev]"])
       (use l ev in \<open>auto simp: accounts_def settling_def List.map_filter_def admitted_only_def\<close>)
  note step = handle_item_def catch_def pbind_def port_call_eval on_backend_def wk_now_eval return_def Let_def
  obtain load b where load: "wp_load P item (wk_backend s) = (load, b)" by (cases "wp_load P item (wk_backend s)")
  show ?thesis
  proof (cases load)
    case (Inl e)
    then show ?thesis using run load settle [of "[]"]
      by (auto simp: step admitted_only_def split: sum.splits prod.splits)
  next
    case (Inr d)
    let ?s = "s\<lparr>wk_backend := b\<rparr>"
    obtain a s1 where d: "deliver E P d ?s = (a, s1)" by (cases "deliver E P d ?s")
    obtain l where l: "wk_log s1 = wk_log s @ l" "l = [] \<or> l = [Upserted d]" "admitted_only P l"
      using deliver_log [OF d] by auto
    show ?thesis using run load Inr d l(1) settle [OF l(2,3)]
      by (cases a) (auto simp: step split: sum.splits prod.splits)
  qed
qed

lemma handle_items_accounts:
  assumes "handle_items E P S worker_id items r s = (Inr r', s')"
  shows "\<exists>l. wk_log s' = wk_log s @ l \<and> accounts P S items r r' l"
  using assms
proof (induction items arbitrary: r s)
  case Nil
  then show ?case by (auto simp: return_def accounts_def settling_def List.map_filter_def admitted_only_def)
next
  case (Cons item items)
  from Cons.prems obtain q t where q: "handle_item E P S worker_id item r s = (Inr q, t)"
    and rest: "handle_items E P S worker_id items q t = (Inr r', s')"
    by (auto simp: pbind_Inr)
  obtain l where l: "wk_log t = wk_log s @ l" "accounts P S [item] r q l" using handle_item_accounts [OF q] by blast
  obtain m where m: "wk_log s' = wk_log t @ m" "accounts P S items q r' m" using Cons.IH [OF rest] by blast
  show ?case using l m accounts_append [OF l(2) m(2)] by (intro exI [of _ "l @ m"]) simp
qed

lemma run_once_accounts:
  assumes run: "run_once E P S worker_id s = (Inr r, s')"
  obtains lease u u' items l q where "timedelta_seconds (ws_lease_seconds S) = Inr lease"
    "wp_claim P (ws_projection_name S) worker_id (ws_batch_size S) (e_clock E (wk_ticks s) + lease) u = (Inr items, u')"
    "wk_log s' = wk_log s @ Discovered # l" "rr_claimed r = int (length items)"
    "accounts P S items \<lparr>rr_claimed = 0, rr_succeeded = 0, rr_failed = 0, rr_dead_lettered = 0\<rparr> q l"
    "r = q\<lparr>rr_claimed := int (length items)\<rparr>"
proof -
  let ?z = "\<lparr>rr_claimed = 0, rr_succeeded = 0, rr_failed = 0, rr_dead_lettered = 0\<rparr>"
  obtain lease u u' n t items q where lease: "timedelta_seconds (ws_lease_seconds S) = Inr lease"
    and claim: "wp_claim P (ws_projection_name S) worker_id (ws_batch_size S)
       (e_clock E (wk_ticks s) + lease) u = (Inr items, u')"
    and items: "handle_items E P S worker_id items ?z t = (Inr q, s')" and t: "wk_log t = wk_log s @ [Discovered]"
    and r: "r = q\<lparr>rr_claimed := int (length items)\<rparr>"
    using run
    by (auto simp: run_once_def pbind_def wk_now_eval port_call_eval on_backend_def prog_defs
        split: sum.splits prod.splits)
  obtain l where "wk_log s' = wk_log t @ l" "accounts P S items ?z q l"
    using handle_items_accounts [OF items] by blast
  then show thesis using that [OF lease claim] r t by simp
qed

lemma filter_le: "(\<And>x. x \<in> set xs \<Longrightarrow> P x \<Longrightarrow> Q x) \<Longrightarrow> length (filter P xs) \<le> length (filter Q xs)"
  by (induction xs) auto

text \<open>Every settling event is a completion or a failure.\<close>

lemma settling_length:
  "length (settling l) = length (filter completion l) + length (filter (\<lambda>e. settled e \<noteq> None \<and> \<not> completion e) l)"
  unfolding settling_def
proof (induction l)
  case (Cons e l)
  then show ?case by (cases e) (simp_all add: List.map_filter_simps)
qed (simp add: List.map_filter_simps)

lemma run_once_totals:
  assumes run: "run_once E P S worker_id s = (Inr r, s')"
  shows "rr_claimed r = rr_succeeded r + rr_failed r \<and> 0 \<le> rr_succeeded r \<and>
    0 \<le> rr_dead_lettered r \<and> rr_dead_lettered r \<le> rr_failed r"
proof -
  obtain u u' items l q where c: "rr_claimed r = int (length items)"
    and a: "accounts P S items \<lparr>rr_claimed = 0, rr_succeeded = 0, rr_failed = 0, rr_dead_lettered = 0\<rparr> q l"
    and q: "r = q\<lparr>rr_claimed := int (length items)\<rparr>"
    by (rule run_once_accounts [OF run])
  have "length (filter dead_letter l) \<le> length (filter (\<lambda>e. settled e \<noteq> None \<and> \<not> completion e) l)"
  proof (rule filter_le)
    fix e assume "dead_letter e"
    then show "settled e \<noteq> None \<and> \<not> completion e" by (cases e) simp_all
  qed
  then show ?thesis using a c q settling_length [of l] by (simp add: accounts_def)
qed

subsection \<open>The delay of a retry\<close>

lemma settings_Inr:
  "mk_worker_settings s = Inr S \<longleftrightarrow> S = s \<and> strip (ws_projection_name s) \<noteq> [] \<and> 1 \<le> ws_batch_size s \<and>
     0 < ws_lease_seconds s \<and> 0 < ws_retry_base s \<and> ws_retry_base s \<le> ws_retry_max s \<and> 1 \<le> ws_max_attempts s"
  by (auto simp: mk_worker_settings_def res_simps not_less not_le)

lemma float_of_power:
  assumes "n \<le> 1023"
  shows "float_of_int (2 ^ n) = Inr (2 ^ n)"
proof -
  have "is_double (of_int 1 * 2 powi int n)" by (rule is_doubleI) simp_all
  then have x: "flit (2 ^ n) = 2 ^ n" by (simp add: flit_def is_double_def)
  have "(2 :: rat) ^ n < 2 ^ 1024" using assms by (intro power_strict_increasing) simp_all
  then have "\<not> 2 ^ 1024 \<le> \<bar>(2 :: rat) ^ n\<bar>" by simp
  then show ?thesis by (simp add: float_of_int_def Let_def x)
qed

lemma retry_delay_eval:
  "n \<le> 1024 \<Longrightarrow> retry_delay S n = Inr (min (ws_retry_max S) (fmul (ws_retry_base S) (2 ^ nat (n - 1))))"
  by (simp add: retry_delay_def float_of_power nat_le_iff)

lemma retry_delay_mono:
  assumes "0 < ws_retry_base S" "m \<le> n" "n \<le> 1024"
  shows "\<exists>x y. retry_delay S m = Inr x \<and> retry_delay S n = Inr y \<and> x \<le> y"
proof -
  have "(2 ^ nat (m - 1) :: rat) \<le> 2 ^ nat (n - 1)" using assms(2) by (intro power_increasing) simp_all
  then have "ws_retry_base S * 2 ^ nat (m - 1) \<le> ws_retry_base S * 2 ^ nat (n - 1)"
    using assms(1) by (intro mult_left_mono) auto
  then have "min (ws_retry_max S) (fmul (ws_retry_base S) (2 ^ nat (m - 1))) \<le>
      min (ws_retry_max S) (fmul (ws_retry_base S) (2 ^ nat (n - 1)))"
    unfolding fmul_def using rnd53_mono by (intro min.mono) auto
  then show ?thesis using assms(2,3) by (simp add: retry_delay_eval)
qed

lemma retry_delay_bounds:
  assumes "0 < ws_retry_base S" "ws_retry_base S \<le> ws_retry_max S" "is_double (ws_retry_base S)" "n \<le> 1024"
  shows "\<exists>x. retry_delay S n = Inr x \<and> ws_retry_base S \<le> x \<and> x \<le> ws_retry_max S"
proof -
  have "ws_retry_base S * 1 \<le> ws_retry_base S * 2 ^ nat (n - 1)"
    using assms(1) by (intro mult_left_mono) auto
  then have "rnd53 (ws_retry_base S) \<le> fmul (ws_retry_base S) (2 ^ nat (n - 1))"
    unfolding fmul_def using rnd53_mono by simp
  then show ?thesis using assms(2,3,4) by (simp add: retry_delay_eval is_double_def)
qed

lemma timedelta_day:
  assumes "0 \<le> x" "x \<le> 86400"
  shows "\<exists>n \<ge> 0. timedelta_seconds x = Inr n"
proof -
  let ?w = "\<lfloor>x\<rfloor>"
  have w: "0 \<le> ?w" "?w \<le> 86400" using assms by (simp_all add: le_floor_iff floor_le_iff)
  have "0 \<le> x - of_int ?w" "x - of_int ?w \<le> 1" by linarith+
  then have "0 \<le> fmul 1000000 (x - of_int ?w)" "fmul 1000000 (x - of_int ?w) \<le> fmul 1000000 1"
    unfolding fmul_def by (intro rnd53_nonneg rnd53_mono mult_left_mono; simp)+
  moreover have "fmul 1000000 1 = 1000000"
    using is_doubleI [of 1000000 0] by (simp add: fmul_def is_double_def)
  ultimately have frac: "0 \<le> fmul 1000000 (x - of_int ?w)" "fmul 1000000 (x - of_int ?w) \<le> 1000000" by simp_all
  have "of_int ?w \<le> (of_int 86400 :: rat)" using w(2) by (subst of_int_le_iff)
  then have "of_int (?w * 1000000) + fmul 1000000 (x - of_int ?w) \<le> of_int 86401000000"
    using frac(2) unfolding of_int_mult of_int_numeral by linarith
  then have "round_even (of_int (?w * 1000000) + fmul 1000000 (x - of_int ?w)) \<le> 86401000000"
    by (rule round_even_le)
  moreover have "0 \<le> round_even (of_int (?w * 1000000) + fmul 1000000 (x - of_int ?w))"
    using frac(1) w(1) by (intro round_even_ge) simp
  moreover have "microseconds_of x = round_even (of_int (?w * 1000000) + fmul 1000000 (x - of_int ?w))"
    using assms(1) by (simp add: microseconds_of_def Let_def)
  ultimately have n: "0 \<le> microseconds_of x" "microseconds_of x \<le> 86401000000" by simp_all
  then have "0 \<le> microseconds_of x div 86400000000" "microseconds_of x div 86400000000 \<le> 86401000000 div 86400000000"
    by (simp add: pos_imp_zdiv_nonneg_iff, intro zdiv_mono1) simp_all
  then have "\<not> \<bar>microseconds_of x div 86400000000\<bar> > 999999999" by simp
  then show ?thesis using n(1) by (simp add: timedelta_seconds_def Let_def raise_if_def)
qed

lemma retry_pause_total:
  assumes "0 < ws_retry_base S" "ws_retry_base S \<le> ws_retry_max S" "ws_retry_max S \<le> 86400" "n \<le> 1024"
  shows "\<exists>p. retry_pause S n = Inr p"
proof -
  let ?d = "min (ws_retry_max S) (fmul (ws_retry_base S) (2 ^ nat (n - 1)))"
  have "0 \<le> fmul (ws_retry_base S) (2 ^ nat (n - 1))"
    unfolding fmul_def using assms(1) by (intro rnd53_nonneg) simp
  then have "0 \<le> ?d" "?d \<le> 86400" using assms by simp_all
  from timedelta_day [OF this] show ?thesis using assms(4) by (auto simp: retry_pause_def retry_delay_eval)
qed

text \<open>The attempt that is one too many: the delay cannot be computed.\<close>

lemma retry_delay_overflows: "1025 \<le> n \<Longrightarrow> retry_delay S n = Inl OverflowError"
proof -
  assume n: "1025 \<le> n"
  have "is_double (of_int 1 * 2 powi 1024)" by (rule is_doubleI) simp_all
  then have "flit (2 ^ 1024) = 2 ^ 1024" by (simp add: flit_def is_double_def power_int_def)
  moreover have "(2 :: rat) ^ 1024 \<le> 2 ^ nat (n - 1)" using n by (intro power_increasing) simp_all
  then have "flit (2 ^ 1024) \<le> flit (2 ^ nat (n - 1))" unfolding flit_def by (rule rnd53_mono)
  ultimately have "2 ^ 1024 \<le> \<bar>flit (2 ^ nat (n - 1))\<bar>" by (metis abs_ge_self order_trans)
  then show ?thesis by (simp add: retry_delay_def float_of_int_def Let_def)
qed

subsection \<open>Rebuilding\<close>

text \<open>
  A rebuild empties the index before it queues everything again; when emptying or discovering fails, nothing is
  queued.
\<close>

lemma rebuild_order:
  assumes "rebuild E M S s = (r, t)"
  shows "case r of
      Inr queued \<Rightarrow> wk_log t = wk_log s @ [IndexReset, Discovered, Requeued (e_clock E (wk_ticks s))]
    | Inl e \<Rightarrow> \<exists>l. wk_log t = wk_log s @ l \<and> prefix l [IndexReset, Discovered]"
  using assms
  by (auto simp: rebuild_def pbind_def wk_now_eval port_call_eval split: sum.splits prod.splits)

text \<open>Closing always closes the source, and the sink unless the source failed to close.\<close>

lemma close_worker_closes:
  assumes "close_worker M s = (r, t)" "\<And>u e v. mp_close_source M u \<noteq> (Inl e, v)" "\<And>u e v. mp_close_sink M u \<noteq> (Inl e, v)"
  shows "suffix [Closed ''source'', Closed ''sink''] (wk_log t)"
  using assms
  by (auto simp: close_worker_def finally_do_def pbind_def port_call_eval prog_defs suffix_def
      split: sum.splits prod.splits option.splits)

end
