(* ===== verification/JobQueueCorrect.thy ===== *)
theory JobQueueCorrect
  imports JobQueue WorkerCorrect
begin

text \<open>
  The job table keeps its constraints whatever is done to it and in whatever order; a job moves along the
  edges of its state machine only, a lease belongs to one worker, and a run of the worker leaves none of the
  jobs it claimed behind.
\<close>

subsection \<open>Statements on tables\<close>

lemma map_of_update_where:
  "map_of (update_where p f t) k = map_option (\<lambda>v. if p k v then f v else v) (map_of t k)"
  by (induction t) (auto simp: update_where_def)

lemma keys_update_where [simp]: "map fst (update_where p f t) = map fst t"
  by (induction t) (auto simp: update_where_def)

lemma set_update_where: "set (update_where p f t) = (\<lambda>(k, v). (k, if p k v then f v else v)) ` set t"
  by (simp add: update_where_def)

lemma set_rows_where: "set (rows_where p t) = {(k, v). (k, v) \<in> set t \<and> p k v}"
  by (auto simp: rows_where_def)

lemma distinct_rows_where: "distinct (map fst t) \<Longrightarrow> distinct (map fst (rows_where p t))"
  by (simp add: rows_where_def distinct_map_filter)

lemma map_of_rows_where:
  assumes "distinct (map fst t)"
  shows "map_of (rows_where p t) k = (case map_of t k of None \<Rightarrow> None | Some v \<Rightarrow> if p k v then Some v else None)"
  using assms
proof (induction t)
  case (Cons x t)
  obtain l v where x: "x = (l, v)" by (cases x)
  have "map_of t l = None" using Cons.prems by (simp add: x map_of_eq_None_iff)
  then show ?case using Cons by (auto simp: x rows_where_def split: option.splits)
qed (simp add: rows_where_def)

lemma rowcount_key:
  assumes "distinct (map fst t)" and "\<And>k v. p k v \<Longrightarrow> k = l"
  shows "length (rows_where p t) = (case map_of t l of None \<Rightarrow> 0 | Some v \<Rightarrow> if p l v then 1 else 0)"
  using assms(1)
proof (induction t)
  case (Cons x t)
  obtain k v where x: "x = (k, v)" by (cases x)
  have rest: "map_of t k = None" using Cons.prems by (simp add: x map_of_eq_None_iff)
  show ?case
  proof (cases "k = l")
    case True
    then show ?thesis using Cons rest by (simp add: x rows_where_def)
  next
    case False
    then have "\<not> p k v" using assms(2) by blast
    then show ?thesis using Cons False by (simp add: x rows_where_def)
  qed
qed (simp add: rows_where_def)

subsection \<open>The invariant of the tables\<close>

definition job_ok :: "job \<Rightarrow> bool" where
  "job_ok j \<longleftrightarrow> job_checked j \<and> jb_attempts j \<le> max_attempts_value \<and>
     (jb_status j = JOB_PROCESSING \<longrightarrow> 1 \<le> jb_attempts j)"

definition queue_ok :: "job_db \<Rightarrow> bool" where
  "queue_ok d \<longleftrightarrow> distinct (map fst (jd_events d)) \<and> distinct (map fst (jd_jobs d)) \<and>
     distinct (map fst (jd_cursors d)) \<and>
     (\<forall>(k, j) \<in> set (jd_jobs d). job_ok j \<and> (\<exists>e. (snd k, e) \<in> set (jd_events d) \<and> revision_event e)) \<and>
     (\<forall>(n, c) \<in> set (jd_cursors d). \<forall>i. cu_last_event c = Some i \<longrightarrow> i \<in> fst ` set (jd_events d))"

lemma queue_okD:
  assumes "queue_ok d"
  shows "distinct (map fst (jd_events d))" "distinct (map fst (jd_jobs d))" "distinct (map fst (jd_cursors d))"
    and "map_of (jd_jobs d) k = Some j \<Longrightarrow> job_ok j \<and> (\<exists>e. (snd k, e) \<in> set (jd_events d) \<and> revision_event e)"
    and "map_of (jd_cursors d) n = Some c \<Longrightarrow> cu_last_event c = Some i \<Longrightarrow> i \<in> fst ` set (jd_events d)"
  using assms by (auto simp: queue_ok_def dest!: map_of_SomeD)

lemma queue_okI:
  assumes "distinct (map fst (jd_events d))" "distinct (map fst (jd_jobs d))" "distinct (map fst (jd_cursors d))"
    and "\<And>k j. map_of (jd_jobs d) k = Some j \<Longrightarrow>
      job_ok j \<and> (\<exists>e. (snd k, e) \<in> set (jd_events d) \<and> revision_event e)"
    and "\<And>n c i. map_of (jd_cursors d) n = Some c \<Longrightarrow> cu_last_event c = Some i \<Longrightarrow> i \<in> fst ` set (jd_events d)"
  shows "queue_ok d"
  unfolding queue_ok_def using assms by (auto simp: map_of_eq_Some_iff)

lemma lease_row:
  assumes "queue_ok d"
  shows "length (rows_where (holds_lease name i w) (jd_jobs d)) = 1 \<longleftrightarrow>
    (\<exists>j. map_of (jd_jobs d) (name, i) = Some j \<and> holds_lease name i w (name, i) j)"
  using rowcount_key [OF queue_okD(2) [OF assms], of "holds_lease name i w" "(name, i)"]
  by (auto simp: holds_lease_def split: option.splits if_splits)

lemma job_ok_changes:
  "job_ok (new_job a t)" "job_ok j \<Longrightarrow> job_ok (completed_job t j)" "job_ok j \<Longrightarrow> job_ok (failed_job t u e dead j)"
  "job_ok j \<Longrightarrow> job_ok (requeued_job t j)"
  "job_ok j \<Longrightarrow> jb_attempts j < max_attempts_value \<Longrightarrow> job_ok (leased w u t j)"
  by (auto simp: job_ok_def job_checked_def new_job_def completed_job_def failed_job_def requeued_job_def leased_def
      max_attempts_value_def)

subsection \<open>The table as a transition system\<close>

text \<open>
  What can happen to the tables: the operations of any worker, a committed revision, the erasure of a scope,
  changes of the source rows, and transactions elsewhere.
\<close>

datatype queue_action =
    Discovering ustr
  | Claiming ustr ustr int instant
  | Loading work_item
  | Completing ustr work_item ustr instant
  | Failing ustr work_item ustr instant instant ustr bool
  | Requeueing ustr instant
  | Appending uuid outbox_event
  | Erasing scope
  | Changing "(uuid, record_row) dict" "(uuid, revision_row) dict"

fun perform :: "job_server \<Rightarrow> queue_action \<Rightarrow> job_db \<Rightarrow> job_db" where
  "perform C (Discovering name) d = snd (discover C name d)"
| "perform C (Claiming name w n u) d = snd (claim C name w n u d)"
| "perform C (Loading item) d = snd (load_document C item d)"
| "perform C (Completing name item w t) d = snd (complete C name item w t d)"
| "perform C (Failing name item w t u e dead) d = snd (fail_job C name item w t u e dead d)"
| "perform C (Requeueing name t) d = snd (requeue_all C name t d)"
| "perform C (Appending i e) d = snd (append_outbox i e d)"
| "perform C (Erasing sc) d = snd (erase_outbox C sc d)"
| "perform C (Changing rs vs) d =
     d\<lparr>jd_records := rs, jd_revisions := vs, jd_transactions := Suc (jd_transactions d)\<rparr>"

definition queue_runs :: "job_server \<Rightarrow> (queue_action \<Rightarrow> bool) \<Rightarrow> job_db \<Rightarrow> job_db \<Rightarrow> bool" where
  "queue_runs C A = rtranclp (\<lambda>d d'. \<exists>a. A a \<and> d' = perform C a d)"

abbreviation begun :: "job_db \<Rightarrow> job_db" where
  "begun d \<equiv> d\<lparr>jd_transactions := Suc (jd_transactions d)\<rparr>"

lemma queue_ok_begun [simp]: "queue_ok (begun d) = queue_ok d"
  by (simp add: queue_ok_def)

lemma transaction_eval:
  "sql_transaction C body d = (case js_connect C (jd_transactions d) of
     Inl e \<Rightarrow> (Inl e, begun d)
   | Inr _ \<Rightarrow> (case body (jd_transactions d) (begun d) of (Inl e, _) \<Rightarrow> (Inl e, begun d) | (Inr x, t) \<Rightarrow> (Inr x, t)))"
  by (simp add: sql_transaction_def Let_def)

text \<open>Each operation in one equation.\<close>

lemma discover_eval:
  "discover C name d = (case js_connect C (jd_transactions d) of
     Inl e \<Rightarrow> (Inl e, begun d)
   | Inr _ \<Rightarrow> (Inr (int (length (discovered name (js_clock C (jd_transactions d)) d))),
       (begun d)\<lparr>jd_jobs := jd_jobs d @ discovered name (js_clock C (jd_transactions d)) d\<rparr>))"
  by (simp add: discover_def transaction_eval discovered_def pbind_def prog_defs split: sum.split)

lemma complete_eval:
  "complete C name item w t d = (case js_connect C (jd_transactions d) of
     Inl e \<Rightarrow> (Inl e, begun d)
   | Inr _ \<Rightarrow> if length (rows_where (holds_lease name (wi_event_id item) w) (jd_jobs d)) = 1
       then (Inr (), (begun d)\<lparr>
         jd_jobs := update_where (holds_lease name (wi_event_id item) w) (completed_job t) (jd_jobs d),
         jd_cursors := dict_set name (moved_cursor item t (map_of (jd_cursors d) name)) (jd_cursors d)\<rparr>)
       else (Inl (RuntimeError ''projection job lease was lost before completion''), begun d))"
  by (simp add: complete_def transaction_eval update_lease_def pbind_def prog_defs raise_if_def split: sum.split)

lemma fail_eval:
  "fail_job C name item w t u e dead d = (case js_connect C (jd_transactions d) of
     Inl er \<Rightarrow> (Inl er, begun d)
   | Inr _ \<Rightarrow> (if length (rows_where (holds_lease name (wi_event_id item) w) (jd_jobs d)) = 1 then Inr ()
         else Inl (RuntimeError ''projection job lease was lost before failure recording''),
       (begun d)\<lparr>jd_jobs := update_where (holds_lease name (wi_event_id item) w) (failed_job t u e dead) (jd_jobs d)\<rparr>))"
  by (simp add: fail_job_def transaction_eval update_lease_def pbind_def prog_defs raise_if_def split: sum.split)

lemma requeue_eval:
  "requeue_all C name t d = (case js_connect C (jd_transactions d) of
     Inl e \<Rightarrow> (Inl e, begun d)
   | Inr _ \<Rightarrow> (Inr (int (length (rows_where (\<lambda>k j. fst k = name) (jd_jobs d)))), (begun d)\<lparr>
       jd_jobs := update_where (\<lambda>k j. fst k = name) (requeued_job t) (jd_jobs d),
       jd_cursors := rows_where (\<lambda>k c. k \<noteq> name) (jd_cursors d)\<rparr>))"
  by (simp add: requeue_all_def transaction_eval pbind_def prog_defs split: sum.split)

lemma load_perform: "perform C (Loading item) d = begun d"
  by (simp add: load_document_def transaction_eval pbind_def prog_defs split: sum.split prod.split)

lemma claim_cases:
  obtains "perform C (Claiming name w n u) d = begun d"
  | rows where "rows = claim_rows d name (js_clock C (jd_transactions d)) (js_locked C (jd_transactions d)) n"
    "\<And>r. r \<in> set rows \<Longrightarrow> attempts_of d (name, fst r) < max_attempts_value"
    "perform C (Claiming name w n u) d = (begun d)\<lparr>jd_jobs :=
       update_where (\<lambda>k j. fst k = name \<and> snd k \<in> fst ` set rows) (leased w u (js_clock C (jd_transactions d))) (jd_jobs d)\<rparr>"
proof (cases "js_connect C (jd_transactions d)")
  case Inl
  then show thesis using that(1) by (simp add: claim_def transaction_eval pbind_def)
next
  case (Inr x)
  let ?rows = "claim_rows d name (js_clock C (jd_transactions d)) (js_locked C (jd_transactions d)) n"
  have same: "claim_rows (begun d) = claim_rows d" "attempts_of (begun d) = attempts_of d"
    by (intro ext, simp add: claim_rows_def attempts_of_def)+
  show thesis
  proof (cases "n < 0 \<or> (\<exists>r \<in> set ?rows. max_attempts_value \<le> attempts_of d (name, fst r))")
    case True
    then have "perform C (Claiming name w n u) d = begun d" using Inr
      by (auto simp: claim_def transaction_eval pbind_def claim_statement_def same prog_defs raise_if_def)
    then show thesis by (rule that(1))
  next
    case False
    then show thesis using Inr
      by (intro that(2) [OF refl]) (auto simp: claim_def transaction_eval pbind_def claim_statement_def same prog_defs
          raise_if_def not_le)
  qed
qed

lemma perform_eval:
  "perform C (Discovering name) d = (case js_connect C (jd_transactions d) of Inl e \<Rightarrow> begun d
   | Inr _ \<Rightarrow> (begun d)\<lparr>jd_jobs := jd_jobs d @ discovered name (js_clock C (jd_transactions d)) d\<rparr>)"
  "perform C (Completing name item w t) d = (case js_connect C (jd_transactions d) of Inl e \<Rightarrow> begun d
   | Inr _ \<Rightarrow> if length (rows_where (holds_lease name (wi_event_id item) w) (jd_jobs d)) = 1
       then (begun d)\<lparr>
         jd_jobs := update_where (holds_lease name (wi_event_id item) w) (completed_job t) (jd_jobs d),
         jd_cursors := dict_set name (moved_cursor item t (map_of (jd_cursors d) name)) (jd_cursors d)\<rparr>
       else begun d)"
  "perform C (Failing name item w t u e dead) d = (case js_connect C (jd_transactions d) of Inl e \<Rightarrow> begun d
   | Inr _ \<Rightarrow> (begun d)\<lparr>
       jd_jobs := update_where (holds_lease name (wi_event_id item) w) (failed_job t u e dead) (jd_jobs d)\<rparr>)"
  "perform C (Requeueing name t) d = (case js_connect C (jd_transactions d) of Inl e \<Rightarrow> begun d
   | Inr _ \<Rightarrow> (begun d)\<lparr>
       jd_jobs := update_where (\<lambda>k j. fst k = name) (requeued_job t) (jd_jobs d),
       jd_cursors := rows_where (\<lambda>k c. k \<noteq> name) (jd_cursors d)\<rparr>)"
  "perform C (Appending i ev) d = (if i \<in> fst ` set (jd_events d) then d else jd_events_update (\<lambda>l. l @ [(i, ev)]) d)"
  by (simp_all add: discover_eval complete_eval fail_eval requeue_eval append_outbox_def split: sum.split)

definition erased_events :: "job_server \<Rightarrow> scope \<Rightarrow> job_db \<Rightarrow> uuid set" where
  "erased_events C sc d = {i. \<exists>e. (i, e) \<in> set (jd_events d) \<and> event_in_scope C sc e}"

lemma erase_effect:
  fixes C sc d
  defines "d' \<equiv> perform C (Erasing sc) d" and "gone \<equiv> erased_events C sc d"
  shows "set (jd_events d') = {(i, e) \<in> set (jd_events d). i \<notin> gone}"
    "distinct (map fst (jd_jobs d)) \<Longrightarrow>
       map_of (jd_jobs d') k = (if snd k \<in> gone then None else map_of (jd_jobs d) k)"
    "map_of (jd_cursors d') n = map_option (\<lambda>c. if \<exists>i \<in> gone. cu_last_event c = Some i
       then c\<lparr>cu_last_event := None\<rparr> else c) (map_of (jd_cursors d) n)"
proof -
  have gone: "fst ` set (rows_where (\<lambda>i e. event_in_scope C sc e) (jd_events d)) = gone"
    by (force simp: gone_def erased_events_def set_rows_where)
  have d': "d' = d\<lparr>jd_events := rows_where (\<lambda>i e. i \<notin> gone) (jd_events d),
      jd_jobs := rows_where (\<lambda>k j. snd k \<notin> gone) (jd_jobs d),
      jd_cursors := update_where (\<lambda>k c. \<exists>i \<in> gone. cu_last_event c = Some i)
        (\<lambda>c. c\<lparr>cu_last_event := None\<rparr>) (jd_cursors d)\<rparr>"
    unfolding d'_def perform.simps erase_outbox_def Let_def prog_eval snd_conv gone by (rule refl)
  show "set (jd_events d') = {(i, e) \<in> set (jd_events d). i \<notin> gone}"
    by (auto simp: d' set_rows_where)
  show "map_of (jd_jobs d') k = (if snd k \<in> gone then None else map_of (jd_jobs d) k)"
    if "distinct (map fst (jd_jobs d))"
    using that by (simp add: d' map_of_rows_where split: option.split)
  show "map_of (jd_cursors d') n = map_option (\<lambda>c. if \<exists>i \<in> gone. cu_last_event c = Some i
      then c\<lparr>cu_last_event := None\<rparr> else c) (map_of (jd_cursors d) n)"
    by (simp add: d' map_of_update_where)
qed

text \<open>How an action may change a job.\<close>

fun lawful :: "job_server \<Rightarrow> job_db \<Rightarrow> queue_action \<Rightarrow> job_key \<Rightarrow> job \<Rightarrow> job \<Rightarrow> bool" where
  "lawful C d (Claiming name w n u) k j j' \<longleftrightarrow>
     fst k = name \<and> k \<notin> set (js_locked C (jd_transactions d)) \<and> claimable (js_clock C (jd_transactions d)) j \<and>
     jb_attempts j < max_attempts_value \<and> j' = leased w u (js_clock C (jd_transactions d)) j"
| "lawful C d (Completing name item w t) k j j' \<longleftrightarrow>
     holds_lease name (wi_event_id item) w k j \<and> j' = completed_job t j"
| "lawful C d (Failing name item w t u e dead) k j j' \<longleftrightarrow>
     holds_lease name (wi_event_id item) w k j \<and> j' = failed_job t u e dead j"
| "lawful C d (Requeueing name t) k j j' \<longleftrightarrow> fst k = name \<and> j' = requeued_job t j"
| "lawful C d _ k j j' \<longleftrightarrow> False"

lemma lawful_ok: "lawful C d a k j j' \<Longrightarrow> job_ok j \<Longrightarrow> job_ok j'"
  by (cases a) (auto intro: job_ok_changes)

lemma discovered_job:
  assumes "(k, j) \<in> set (discovered name t d)"
  shows "fst k = name \<and> k \<notin> fst ` set (jd_jobs d) \<and> snd k \<in> fst ` set (jd_events d) \<and>
    (\<exists>e. (snd k, e) \<in> set (jd_events d) \<and> revision_event e \<and> j = new_job (oe_occurred_at e) t)"
  using assms by (force simp: discovered_def set_rows_where)

lemma distinct_discovered:
  assumes "distinct (map fst (jd_events d))"
  shows "distinct (map fst (discovered name t d))"
proof -
  have "map fst (discovered name t d) = map (Pair name) (map fst (rows_where
      (\<lambda>i e. revision_event e \<and> (name, i) \<notin> fst ` set (jd_jobs d)) (jd_events d)))"
    by (simp add: discovered_def case_prod_beta comp_def)
  then show ?thesis using distinct_rows_where [OF assms] by (simp add: distinct_map inj_on_def)
qed

lemma claim_rows_sound:
  assumes "queue_ok d" and "r \<in> set (claim_rows d name t locked n)"
  shows "r \<in> set (jd_events d) \<and> (name, fst r) \<notin> set locked \<and>
    (\<exists>j. map_of (jd_jobs d) (name, fst r) = Some j \<and> claimable t j)"
  using assms(2) by (auto simp: claim_rows_def dest!: in_set_takeD split: option.splits)

text \<open>Every job after an action was there before, unchanged or lawfully changed, or is newly discovered.\<close>

lemma perform_job:
  assumes ok: "queue_ok d" and job: "map_of (jd_jobs (perform C a d)) k = Some j'"
  shows "(\<exists>j. map_of (jd_jobs d) k = Some j \<and> (j' = j \<or> lawful C d a k j j')) \<or>
    (map_of (jd_jobs d) k = None \<and> (\<exists>e. (snd k, e) \<in> set (jd_events d) \<and> revision_event e) \<and>
     (\<exists>t u. j' = new_job t u))"
proof (cases a)
  case (Discovering name)
  then consider "jd_jobs (perform C a d) = jd_jobs d"
    | t where "jd_jobs (perform C a d) = jd_jobs d @ discovered name t d"
    by (cases "js_connect C (jd_transactions d)") (simp_all add: perform_eval del: perform.simps)
  then show ?thesis
  proof cases
    case 2
    show ?thesis
    proof (cases "map_of (jd_jobs d) k")
      case None
      then have "(k, j') \<in> set (discovered name t d)" using job 2 by (simp add: map_add_def map_of_SomeD)
      then show ?thesis using discovered_job None by blast
    qed (use job 2 discovered_job ok in \<open>auto simp: map_add_def dest!: map_of_SomeD split: option.splits\<close>)
  qed (use job in simp)
next
  case (Claiming name w n u)
  let ?t = "js_clock C (jd_transactions d)"
  show ?thesis
  proof (rule claim_cases [of C name w n u d])
    fix rows
    assume rows: "rows = claim_rows d name ?t (js_locked C (jd_transactions d)) n"
      "\<And>r. r \<in> set rows \<Longrightarrow> attempts_of d (name, fst r) < max_attempts_value"
      "perform C (Claiming name w n u) d = (begun d)\<lparr>jd_jobs :=
         update_where (\<lambda>k j. fst k = name \<and> snd k \<in> fst ` set rows) (leased w u ?t) (jd_jobs d)\<rparr>"
    then obtain j where j: "map_of (jd_jobs d) k = Some j"
      "j' = (if fst k = name \<and> snd k \<in> fst ` set rows then leased w u ?t j else j)"
      using job Claiming by (auto simp: map_of_update_where simp del: perform.simps)
    show ?thesis
    proof (cases "fst k = name \<and> snd k \<in> fst ` set rows")
      case True
      then obtain r where r: "r \<in> set rows" "k = (name, fst r)" by (cases k) auto
      then have "k \<notin> set (js_locked C (jd_transactions d)) \<and> claimable ?t j"
        using claim_rows_sound [OF ok r(1) [unfolded rows(1)]] r(2) j(1) by simp
      moreover have "jb_attempts j < max_attempts_value" using rows(2) [OF r(1)] r(2) j(1) by (simp add: attempts_of_def)
      ultimately show ?thesis using j True Claiming by auto
    qed (use j in auto)
  qed (use job Claiming in \<open>simp del: perform.simps\<close>)
next
  case (Completing name item w t)
  then show ?thesis using job
    by (auto simp: perform_eval map_of_update_where simp del: perform.simps split: sum.splits if_splits)
next
  case (Failing name item w t u e dead)
  then show ?thesis using job
    by (auto simp: perform_eval map_of_update_where simp del: perform.simps split: sum.splits if_splits)
next
  case (Requeueing name t)
  then show ?thesis using job
    by (auto simp: perform_eval map_of_update_where simp del: perform.simps split: sum.splits if_splits)
next
  case (Loading item)
  then show ?thesis using job by (simp add: load_perform del: perform.simps)
next
  case (Appending i e)
  then show ?thesis using job by (auto simp: perform_eval simp del: perform.simps split: if_splits)
next
  case (Erasing sc)
  then show ?thesis using job ok
    by (auto simp: erase_outbox_def Let_def map_of_rows_where queue_ok_def split: option.splits if_splits)
next
  case (Changing rs vs)
  then show ?thesis using job by simp
qed

lemma perform_keys:
  assumes ok: "queue_ok d"
  shows "distinct (map fst (jd_events (perform C a d)))" "distinct (map fst (jd_jobs (perform C a d)))"
    "distinct (map fst (jd_cursors (perform C a d)))"
proof -
  note distinct = queue_okD(1-3) [OF ok]
  have "distinct (map fst (jd_events (perform C a d))) \<and> distinct (map fst (jd_jobs (perform C a d))) \<and>
    distinct (map fst (jd_cursors (perform C a d)))"
  proof (cases a)
    case (Discovering name)
    have "distinct (map fst (jd_jobs d @ discovered name t d))" for t
      using distinct(1,2) discovered_job distinct_discovered [OF distinct(1)] by (fastforce simp: image_iff)
    then show ?thesis using distinct Discovering
      by (auto simp: perform_eval simp del: perform.simps map_append split: sum.split)
  next
    case (Claiming name w n u)
    show ?thesis
      by (rule claim_cases [of C name w n u d]) (use distinct Claiming in \<open>simp_all del: perform.simps\<close>)
  next
    case (Completing name item w t)
    then show ?thesis using distinct
      by (auto simp: perform_eval distinct_update simp del: perform.simps split: sum.split)
  next
    case (Failing name item w t u e dead)
    then show ?thesis using distinct by (auto simp: perform_eval simp del: perform.simps split: sum.split)
  next
    case (Requeueing name t)
    then show ?thesis using distinct
      by (auto simp: perform_eval distinct_rows_where simp del: perform.simps split: sum.split)
  next
    case (Loading item)
    then show ?thesis using distinct by (simp add: load_perform del: perform.simps)
  next
    case (Appending i e)
    then show ?thesis using distinct by (auto simp: perform_eval image_iff simp del: perform.simps)
  next
    case (Erasing sc)
    then show ?thesis using distinct by (simp add: erase_outbox_def Let_def distinct_rows_where)
  next
    case (Changing rs vs)
    then show ?thesis using distinct by simp
  qed
  then show "distinct (map fst (jd_events (perform C a d)))" "distinct (map fst (jd_jobs (perform C a d)))"
    "distinct (map fst (jd_cursors (perform C a d)))" by blast+
qed

text \<open>Events stay unless an erasure deletes them, and with them their jobs and the cursors on them.\<close>

lemma perform_events:
  assumes "\<And>sc. a \<noteq> Erasing sc"
  shows "set (jd_events d) \<subseteq> set (jd_events (perform C a d))"
proof (cases a)
  case (Claiming name w n u)
  show ?thesis by (rule claim_cases [of C name w n u d]) (use Claiming in \<open>simp_all del: perform.simps\<close>)
next
  case (Changing rs vs)
  then show ?thesis by simp
qed (use assms in \<open>auto simp: perform_eval load_perform simp del: perform.simps split: sum.split\<close>)

lemma perform_cursor:
  assumes ok: "queue_ok d" and c: "map_of (jd_cursors (perform C a d)) n = Some c" "cu_last_event c = Some i"
  shows "i \<in> fst ` set (jd_events (perform C a d))"
proof (cases "\<exists>sc. a = Erasing sc")
  case True
  then obtain sc where a: "a = Erasing sc" by blast
  obtain c0 where c0: "map_of (jd_cursors d) n = Some c0"
    "c = (if \<exists>i \<in> erased_events C sc d. cu_last_event c0 = Some i then c0\<lparr>cu_last_event := None\<rparr> else c0)"
    using c(1) unfolding a erase_effect(3) by auto
  then have "c = c0" "i \<notin> erased_events C sc d" using c(2) by (auto split: if_splits)
  then show ?thesis using queue_okD(5) [OF ok c0(1)] c(2) by (force simp: a erase_effect(1) simp del: perform.simps)
next
  case False
  have "i \<in> fst ` set (jd_events d)"
  proof (cases a)
    case (Completing name item w t)
    have event: "wi_event_id item \<in> fst ` set (jd_events d)"
      if one: "length (rows_where (holds_lease name (wi_event_id item) w) (jd_jobs d)) = 1"
    proof -
      obtain j where "map_of (jd_jobs d) (name, wi_event_id item) = Some j"
        using iffD1 [OF lease_row [OF ok] one] by blast
      then show ?thesis using queue_okD(4) [OF ok] by force
    qed
    then show ?thesis using c queue_okD(5) [OF ok] Completing
      by (auto simp: perform_eval moved_cursor_def Let_def simp del: perform.simps intro: rev_image_eqI split: sum.splits if_splits option.splits)
  next
    case (Claiming name w n u)
    show ?thesis
      by (rule claim_cases [of C name w n u d])
         (use c queue_okD(5) [OF ok] Claiming in \<open>simp_all del: perform.simps\<close>)
  next
    case (Requeueing name t)
    then show ?thesis using c queue_okD(5) [OF ok]
      by (auto simp: perform_eval map_of_rows_where queue_okD(3) [OF ok] simp del: perform.simps
          split: sum.splits if_splits option.splits)
  next
    case (Changing rs vs)
    then show ?thesis using c queue_okD(5) [OF ok] by simp
  qed (use c queue_okD(5) [OF ok] False in
      \<open>auto simp: perform_eval load_perform simp del: perform.simps split: sum.splits if_splits\<close>)
  then show ?thesis using perform_events [of a d C] False by blast
qed

lemma perform_ok:
  assumes ok: "queue_ok d"
  shows "queue_ok (perform C a d)"
proof (rule queue_okI [OF perform_keys [OF ok]])
  fix k j' assume job: "map_of (jd_jobs (perform C a d)) k = Some j'"
  from perform_job [OF ok this] have "job_ok j'"
    using queue_okD(4) [OF ok] lawful_ok job_ok_changes(1) by blast
  moreover have "\<exists>e. (snd k, e) \<in> set (jd_events (perform C a d)) \<and> revision_event e"
  proof (cases "\<exists>sc. a = Erasing sc")
    case True
    then obtain sc where a: "a = Erasing sc" by blast
    then have "map_of (jd_jobs d) k = Some j'" "snd k \<notin> erased_events C sc d"
      using job queue_okD(2) [OF ok] by (simp_all add: erase_effect(2) del: perform.simps split: if_splits)
    moreover obtain e where "(snd k, e) \<in> set (jd_events d)" "revision_event e"
      using queue_okD(4) [OF ok calculation(1)] by blast
    ultimately show ?thesis by (auto simp: a erase_effect(1) simp del: perform.simps)
  next
    case False
    have "\<exists>e. (snd k, e) \<in> set (jd_events d) \<and> revision_event e"
      using perform_job [OF ok job] queue_okD(4) [OF ok] by blast
    then show ?thesis using perform_events [of a d C] False by blast
  qed
  ultimately show "job_ok j' \<and> (\<exists>e. (snd k, e) \<in> set (jd_events (perform C a d)) \<and> revision_event e)" by blast
qed (rule perform_cursor [OF ok])

lemma runs_ok: "queue_runs C A d d' \<Longrightarrow> queue_ok d \<Longrightarrow> queue_ok d'"
  unfolding queue_runs_def by (induction rule: rtranclp_induct) (auto intro: perform_ok)

subsection \<open>A job nobody may change stays as it is\<close>

lemma perform_transactions: "jd_transactions d \<le> jd_transactions (perform C a d)"
proof (cases a)
  case (Claiming name w n u)
  show ?thesis by (rule claim_cases [of C name w n u d]) (use Claiming in \<open>simp_all del: perform.simps\<close>)
next
  case (Erasing sc)
  then show ?thesis by (simp add: erase_outbox_def Let_def)
next
  case (Changing rs vs)
  then show ?thesis by simp
qed (auto simp: perform_eval load_perform simp del: perform.simps split: sum.split)

lemma perform_keeps_job:
  assumes "\<And>sc. a \<noteq> Erasing sc" and "map_of (jd_jobs d) k = Some j"
  shows "\<exists>j'. map_of (jd_jobs (perform C a d)) k = Some j'"
proof (cases a)
  case (Claiming name w n u)
  show ?thesis
    by (rule claim_cases [of C name w n u d])
       (use assms Claiming in \<open>simp_all add: map_of_update_where del: perform.simps\<close>)
next
  case (Changing rs vs)
  then show ?thesis using assms by simp
qed (use assms in \<open>auto simp: perform_eval load_perform map_of_update_where map_add_def
      simp del: perform.simps split: sum.split option.split\<close>)

lemma perform_no_event:
  assumes "i \<notin> fst ` set (jd_events d)" and "\<And>e. a \<noteq> Appending i e"
  shows "i \<notin> fst ` set (jd_events (perform C a d))"
proof (cases a)
  case (Claiming name w n u)
  show ?thesis by (rule claim_cases [of C name w n u d]) (use assms Claiming in \<open>simp_all del: perform.simps\<close>)
next
  case (Erasing sc)
  then show ?thesis using assms by (force simp: erase_effect(1) simp del: perform.simps)
next
  case (Changing rs vs)
  then show ?thesis using assms by simp
qed (use assms in \<open>auto simp: perform_eval load_perform simp del: perform.simps split: sum.split\<close>)

lemma untouched_job:
  assumes ok: "queue_ok d" and j: "map_of (jd_jobs d) k = Some j" and free: "\<And>j'. \<not> lawful C d a k j j'"
  shows "map_of (jd_jobs (perform C a d)) k = Some j \<or> snd k \<notin> fst ` set (jd_events (perform C a d))"
proof (cases "\<exists>sc. a = Erasing sc")
  case True
  then obtain sc where "a = Erasing sc" by blast
  then show ?thesis using j queue_okD(2) [OF ok] by (auto simp: erase_effect(1,2) simp del: perform.simps)
next
  case False
  then obtain j' where "map_of (jd_jobs (perform C a d)) k = Some j'" using perform_keeps_job j by blast
  then show ?thesis using perform_job [OF ok] j free by fastforce
qed

text \<open>Over a run: unchanged, or gone with its event.\<close>

lemma untouched_along:
  assumes run: "queue_runs C A d d'" and ok: "queue_ok d" and j: "map_of (jd_jobs d) k = Some j"
    and fresh: "\<And>e. \<not> A (Appending (snd k) e)"
    and free: "\<And>x a j'. A a \<Longrightarrow> jd_transactions (perform C a x) \<le> jd_transactions d' \<Longrightarrow> \<not> lawful C x a k j j'"
  shows "map_of (jd_jobs d') k = Some j \<or> snd k \<notin> fst ` set (jd_events d')"
  using run free unfolding queue_runs_def
proof (induction rule: rtranclp_induct)
  case base
  then show ?case using j by blast
next
  case (step y z)
  then obtain a where a: "A a" "z = perform C a y" by blast
  have y: "queue_ok y" using step.hyps(1) ok runs_ok unfolding queue_runs_def by blast
  have before: "map_of (jd_jobs y) k = Some j \<or> snd k \<notin> fst ` set (jd_events y)"
  proof (rule step.IH)
    fix x b j' assume "A b" "jd_transactions (perform C b x) \<le> jd_transactions y"
    then show "\<not> lawful C x b k j j'"
      using step.prems perform_transactions [of y C a] a(2) by (meson order_trans)
  qed
  show ?case
  proof (cases "map_of (jd_jobs y) k = Some j")
    case True
    have "\<not> lawful C y a k j j'" for j' using step.prems [OF a(1), of y] a(2) by blast
    then show ?thesis using untouched_job [OF y True, of C a] a(2) by blast
  next
    case False
    then show ?thesis using perform_no_event [of "snd k" y a C] before a fresh by blast
  qed
qed

text \<open>An action on a settled job is a requeueing of its projection; one on a leased job is its owner's, or late.\<close>

lemma lawful_settled:
  "lawful C d a k j j' \<Longrightarrow> jb_status j \<in> {JOB_SUCCEEDED, JOB_DEAD_LETTER} \<Longrightarrow> \<exists>t. a = Requeueing (fst k) t"
  by (cases a) (auto simp: claimable_def holds_lease_def)

lemma lawful_leased:
  assumes "lawful C d a k j j'" and "jb_status j = JOB_PROCESSING" "jb_lease_owner j = Some w" "jb_lease_until j = Some u"
  shows "(\<exists>t. a = Requeueing (fst k) t) \<or> (\<exists>name x n v. a = Claiming name x n v \<and> u \<le> js_clock C (jd_transactions d)) \<or>
    (\<exists>item t. a = Completing (fst k) item w t \<and> wi_event_id item = snd k) \<or>
    (\<exists>item t v e dead. a = Failing (fst k) item w t v e dead \<and> wi_event_id item = snd k)"
  using assms by (cases a) (auto simp: claimable_def holds_lease_def)

lemma lawful_claim_counts:
  "lawful C d (Claiming name w n u) k j j' \<Longrightarrow> jd_transactions d < jd_transactions (perform C (Claiming name w n u) d)"
  by (rule claim_cases [of C name w n u d]) (simp_all del: perform.simps)

end
