(* ===== verification/WorkerDelivery.thy ===== *)
theory WorkerDelivery
  imports JobQueueCorrect
begin

text \<open>
  The worker on the job table, with any vector index: a run that has the database always returns, and every
  job it claimed ends succeeded, rescheduled, or as a dead letter; none is left under its lease.
\<close>

subsection \<open>One item\<close>

definition always_up :: "job_server \<Rightarrow> bool" where
  "always_up C \<longleftrightarrow> (\<forall>n. js_connect C n = Inr ())"

text \<open>The job of a claimed item, and what handling the item makes of it.\<close>

definition leased_for :: "ustr \<Rightarrow> work_item \<Rightarrow> job \<Rightarrow> bool" where
  "leased_for w item j \<longleftrightarrow> jb_status j = JOB_PROCESSING \<and> jb_lease_owner j = Some w \<and> wi_attempts item = jb_attempts j"

definition settled_as :: "env \<Rightarrow> nat \<Rightarrow> worker_settings \<Rightarrow> job \<Rightarrow> job \<Rightarrow> bool" where
  "settled_as E n S j j' \<longleftrightarrow> (\<exists>m \<ge> n. j' = completed_job (e_clock E m) j \<or>
     (\<exists>e p. retry_pause S (jb_attempts j) = Inr p \<and>
        j' = failed_job (e_clock E m) (e_clock E m + p) e (ws_max_attempts S \<le> jb_attempts j) j))"

lemma settled_as_earlier: "settled_as E n S j j' \<Longrightarrow> m \<le> n \<Longrightarrow> settled_as E m S j j'"
  unfolding settled_as_def by (elim exE conjE) (rule exI, erule conjI [rotated], rule order_trans)

definition succeeded :: "job_db \<Rightarrow> job_key \<Rightarrow> bool" where
  "succeeded d k \<longleftrightarrow> (case map_of (jd_jobs d) k of None \<Rightarrow> False | Some j \<Rightarrow> jb_status j = JOB_SUCCEEDED)"

definition same_tables :: "job_db \<Rightarrow> job_db \<Rightarrow> bool" where
  "same_tables d d' \<longleftrightarrow> (\<exists>n. d' = d\<lparr>jd_transactions := n\<rparr>)"

lemma same_tablesD:
  assumes "same_tables d d'"
  shows "jd_jobs d' = jd_jobs d" "jd_events d' = jd_events d" "queue_ok d' = queue_ok d"
proof -
  obtain n where "d' = d\<lparr>jd_transactions := n\<rparr>" using assms unfolding same_tables_def by blast
  then show "jd_jobs d' = jd_jobs d" "jd_events d' = jd_events d" "queue_ok d' = queue_ok d"
    by (simp_all add: queue_ok_def)
qed

lemma same_tables_basic [simp]: "same_tables d d" "same_tables d (begun d)"
  unfolding same_tables_def by (metis job_db.surjective job_db.update_convs(1)) (rule exI, rule refl)

lemma same_tables_trans: "same_tables a b \<Longrightarrow> same_tables b c \<Longrightarrow> same_tables a c"
  by (auto simp: same_tables_def)

lemma load_tables:
  assumes "on_backend (on_queue (load_document C item)) s = (r, s')"
  shows "same_tables (fst (wk_backend s)) (fst (wk_backend s'))" "wk_ticks s' = wk_ticks s"
proof -
  have "snd (load_document C item d) = begun d" for d using load_perform [of C item d] by simp
  then show "same_tables (fst (wk_backend s)) (fst (wk_backend s'))" "wk_ticks s' = wk_ticks s"
    using assms by (auto simp: on_backend_def on_queue_def split: prod.splits dest: sndI)
qed

lemma deliver_tables:
  assumes "deliver E (outbox_ports C put admit) d s = (r, s')"
  shows "fst (wk_backend s') = fst (wk_backend s)" "wk_ticks s \<le> wk_ticks s'"
  using assms
  by (auto simp: deliver_def outbox_ports_def port_call_eval on_backend_def on_index_def pbind_def wk_now_eval
      split: option.splits prod.splits sum.splits)

text \<open>Both ways of settling succeed while the worker holds the lease.\<close>

lemma settling_calls:
  assumes up: "always_up C" and ok: "queue_ok d" and j: "map_of (jd_jobs d) (name, wi_event_id item) = Some j"
    and lease: "leased_for w item j"
  shows "\<exists>d'. complete C name item w t d = (Inr (), d') \<and> queue_ok d' \<and> jd_events d' = jd_events d \<and>
      map_of (jd_jobs d') = (map_of (jd_jobs d))((name, wi_event_id item) \<mapsto> completed_job t j)"
    and "\<exists>d'. fail_job C name item w t u e dead d = (Inr (), d') \<and> queue_ok d' \<and> jd_events d' = jd_events d \<and>
      map_of (jd_jobs d') = (map_of (jd_jobs d))((name, wi_event_id item) \<mapsto> failed_job t u e dead j)"
proof -
  have connect: "js_connect C n = Inr ()" for n using up by (simp add: always_up_def)
  have one: "length (rows_where (holds_lease name (wi_event_id item) w) (jd_jobs d)) = 1"
    using lease_row [OF ok] j lease by (auto simp: holds_lease_def leased_for_def)
  have update: "map_of (update_where (holds_lease name (wi_event_id item) w) f (jd_jobs d)) =
      (map_of (jd_jobs d))((name, wi_event_id item) \<mapsto> f j)" for f
    using j lease by (auto simp: map_of_update_where holds_lease_def leased_for_def fun_eq_iff option.map_ident split: option.split)
  show "\<exists>d'. complete C name item w t d = (Inr (), d') \<and> queue_ok d' \<and> jd_events d' = jd_events d \<and>
      map_of (jd_jobs d') = (map_of (jd_jobs d))((name, wi_event_id item) \<mapsto> completed_job t j)"
    using perform_ok [OF ok, of C "Completing name item w t"] connect one update
    by (simp add: complete_eval)
  show "\<exists>d'. fail_job C name item w t u e dead d = (Inr (), d') \<and> queue_ok d' \<and> jd_events d' = jd_events d \<and>
      map_of (jd_jobs d') = (map_of (jd_jobs d))((name, wi_event_id item) \<mapsto> failed_job t u e dead j)"
    using perform_ok [OF ok, of C "Failing name item w t u e dead"] connect one update
    by (simp add: fail_eval)
qed

lemma pbind_wk_now [simp]: "pbind (wk_now E) f s = f (e_clock E (wk_ticks s)) (s\<lparr>wk_ticks := Suc (wk_ticks s)\<rparr>)"
  by (simp add: pbind_def wk_now_eval)

lemma pbind_port_call:
  "pbind (port_call call ev) f s = (case call (wk_backend s) of
     (Inl e, d) \<Rightarrow> (Inl e, s\<lparr>wk_backend := d\<rparr>)
   | (Inr x, d) \<Rightarrow> f x (s\<lparr>wk_backend := d, wk_log := wk_log s @ [ev]\<rparr>))"
  by (simp add: pbind_def port_call_eval split: sum.split prod.split)

lemma pbind_on_backend:
  "pbind (on_backend m) f s = (case m (wk_backend s) of
     (Inl e, d) \<Rightarrow> (Inl e, s\<lparr>wk_backend := d\<rparr>) | (Inr x, d) \<Rightarrow> f x (s\<lparr>wk_backend := d\<rparr>))"
  by (simp add: pbind_def on_backend_def split: sum.split prod.split)

lemma queue_ports:
  "wp_discover (outbox_ports C put admit) n = on_queue (discover C n)"
  "wp_claim (outbox_ports C put admit) n w l u = on_queue (claim C n w l u)"
  by (simp_all add: outbox_ports_def)

lemma on_queue_eval: "m (fst b) = (r, d) \<Longrightarrow> on_queue m b = (r, (d, snd b))"
  by (simp add: on_queue_def)

lemma handle_item_settles:
  fixes s :: "(job_db \<times> 'x) worker_state"
  assumes up: "always_up C" and ok: "queue_ok (fst (wk_backend s))"
    and j: "map_of (jd_jobs (fst (wk_backend s))) (ws_projection_name S, wi_event_id item) = Some j"
    and lease: "leased_for w item j" and pause: "retry_pause S (jb_attempts j) = Inr p"
  obtains r' s' j' where "handle_item E (outbox_ports C put admit) S w item r s = (Inr r', s')"
    "queue_ok (fst (wk_backend s'))" "jd_events (fst (wk_backend s')) = jd_events (fst (wk_backend s))"
    "map_of (jd_jobs (fst (wk_backend s'))) =
       (map_of (jd_jobs (fst (wk_backend s))))((ws_projection_name S, wi_event_id item) \<mapsto> j')"
    "settled_as E (wk_ticks s) S j j'" "wk_ticks s \<le> wk_ticks s'"
    "rr_succeeded r' = rr_succeeded r + (if jb_status j' = JOB_SUCCEEDED then 1 else 0)"
proof -
  let ?P = "outbox_ports C put admit" and ?n = "ws_projection_name S" and ?d = "fst (wk_backend s)"
  let ?body = "pbind (on_backend (wp_load ?P item)) (\<lambda>d. deliver E ?P d)"
  obtain a s1 where body: "?body s = (a, s1)" by (cases "?body s")
  have "same_tables ?d (fst (wk_backend s1)) \<and> wk_ticks s \<le> wk_ticks s1"
  proof -
    obtain l s0 where l: "on_backend (wp_load ?P item) s = (l, s0)" by (cases "on_backend (wp_load ?P item) s")
    then have "same_tables ?d (fst (wk_backend s0))" "wk_ticks s0 = wk_ticks s"
      using load_tables [of C item s l s0] by (simp_all add: outbox_ports_def)
    then show ?thesis using body l by (cases l) (auto simp: pbind_def dest: deliver_tables)
  qed
  then have tables: "same_tables ?d (fst (wk_backend s1))" and ticks: "wk_ticks s \<le> wk_ticks s1" by blast+
  note same = same_tablesD [OF tables]
  have ok1: "queue_ok (fst (wk_backend s1))" and j1: "map_of (jd_jobs (fst (wk_backend s1))) (?n, wi_event_id item) = Some j"
    using ok j same by simp_all
  have split: "handle_item E ?P S w item r s = catch
      (pbind ?body (\<lambda>_. pbind (wk_now E) (\<lambda>t.
        pbind (port_call (wp_complete ?P ?n item w t) (Completed item t)) (\<lambda>_.
        return (r\<lparr>rr_succeeded := rr_succeeded r + 1\<rparr>)))))
      (\<lambda>e. pbind (wk_now E) (\<lambda>failed_at. pbind (lift_res (retry_pause S (wi_attempts item))) (\<lambda>pause.
        let dead_letter = (ws_max_attempts S \<le> wi_attempts item);
            retry_at = failed_at + pause;
            name = uc (error_name e)
        in pbind (port_call (wp_fail ?P ?n item w failed_at retry_at name dead_letter)
             (Failed item failed_at retry_at name dead_letter)) (\<lambda>_.
        return (r\<lparr>rr_failed := rr_failed r + 1,
          rr_dead_lettered := rr_dead_lettered r + (if dead_letter then 1 else 0)\<rparr>))))) s"
    by (simp add: handle_item_def pbind_assoc)
  have attempts: "wi_attempts item = jb_attempts j" using lease by (simp add: leased_for_def)
  then have paused: "retry_pause S (wi_attempts item) = Inr p" using pause by simp
  show thesis
  proof (cases a)
    case (Inr u)
    let ?t = "e_clock E (wk_ticks s1)"
    obtain d' where d': "complete C ?n item w ?t (fst (wk_backend s1)) = (Inr (), d')" "queue_ok d'"
      "jd_events d' = jd_events (fst (wk_backend s1))"
      "map_of (jd_jobs d') = (map_of (jd_jobs (fst (wk_backend s1))))((?n, wi_event_id item) \<mapsto> completed_job ?t j)"
      using settling_calls(1) [OF up ok1 j1 lease] by blast
    let ?s' = "s1\<lparr>wk_ticks := Suc (wk_ticks s1), wk_backend := (d', snd (wk_backend s1)),
      wk_log := wk_log s1 @ [Completed item ?t]\<rparr>"
    have call: "wp_complete ?P ?n item w ?t (wk_backend s1) =
        (Inr (), (d', snd (wk_backend s1)))"
      using d'(1) by (simp add: outbox_ports_def on_queue_eval)
    have settled: "settled_as E (wk_ticks s) S j (completed_job ?t j)" unfolding settled_as_def using ticks by blast
    have status: "jb_status (completed_job ?t j) = JOB_SUCCEEDED" by (simp add: completed_job_def)
    have "handle_item E ?P S w item r s = (Inr (r\<lparr>rr_succeeded := rr_succeeded r + 1\<rparr>), ?s')"
      unfolding split
      by (rule catch_eval(2)) (simp add: pbind_eval(2) [where m = ?body and s = s, OF body [unfolded Inr]] pbind_port_call call)
    then show thesis
      by (rule that [where j' = "completed_job ?t j"]) (use d' same settled status ticks in simp_all)
  next
    case (Inl e)
    let ?t = "e_clock E (wk_ticks s1)"
    let ?u = "?t + p"
    let ?dead = "ws_max_attempts S \<le> wi_attempts item"
    let ?j' = "failed_job ?t ?u (uc (error_name e)) ?dead j"
    obtain d' where d': "fail_job C ?n item w ?t ?u (uc (error_name e)) ?dead (fst (wk_backend s1)) = (Inr (), d')"
      "queue_ok d'" "jd_events d' = jd_events (fst (wk_backend s1))"
      "map_of (jd_jobs d') = (map_of (jd_jobs (fst (wk_backend s1))))((?n, wi_event_id item) \<mapsto> ?j')"
      using settling_calls(2) [OF up ok1 j1 lease] by blast
    have status: "jb_status ?j' \<noteq> JOB_SUCCEEDED" by (simp add: failed_job_def)
    have settled: "settled_as E (wk_ticks s) S j ?j'" unfolding settled_as_def attempts using ticks pause by blast
    let ?s' = "s1\<lparr>wk_ticks := Suc (wk_ticks s1), wk_backend := (d', snd (wk_backend s1)),
      wk_log := wk_log s1 @ [Failed item ?t ?u (uc (error_name e)) ?dead]\<rparr>"
    let ?r' = "r\<lparr>rr_failed := rr_failed r + 1, rr_dead_lettered := rr_dead_lettered r + (if ?dead then 1 else 0)\<rparr>"
    have call: "wp_fail ?P ?n item w ?t ?u (uc (error_name e)) ?dead (wk_backend s1) =
        (Inr (), (d', snd (wk_backend s1)))"
      using d'(1) by (simp add: outbox_ports_def on_queue_eval)
    have "handle_item E ?P S w item r s = (Inr ?r', ?s')"
      unfolding split
      by (rule catch_eval(1) [THEN trans])
         (rule pbind_eval(1) [where m = ?body and s = s, OF body [unfolded Inl]], simp add: Let_def pbind_port_call call paused)
    then show thesis
      by (rule that [where j' = ?j']) (use d' same settled status ticks in simp_all)
  qed
qed

subsection \<open>A batch of items\<close>

abbreviation job_of :: "job_db \<Rightarrow> ustr \<Rightarrow> work_item \<Rightarrow> job option" where
  "job_of d name item \<equiv> map_of (jd_jobs d) (name, wi_event_id item)"

lemma handle_items_settle:
  fixes s :: "(job_db \<times> 'x) worker_state"
  assumes up: "always_up C" and pause: "\<forall>n \<le> 1024. \<exists>p. retry_pause S n = Inr p"
    and "queue_ok (fst (wk_backend s))" and "distinct (map wi_event_id items)"
    and "\<And>item. item \<in> set items \<Longrightarrow> \<exists>j. job_of (fst (wk_backend s)) (ws_projection_name S) item = Some j \<and>
      leased_for w item j \<and> jb_attempts j \<le> 1024"
  shows "\<exists>r' s'. handle_items E (outbox_ports C put admit) S w items r s = (Inr r', s') \<and> queue_ok (fst (wk_backend s')) \<and>
    jd_events (fst (wk_backend s')) = jd_events (fst (wk_backend s)) \<and>
    (\<forall>k. k \<notin> Pair (ws_projection_name S) ` wi_event_id ` set items \<longrightarrow>
       map_of (jd_jobs (fst (wk_backend s'))) k = map_of (jd_jobs (fst (wk_backend s))) k) \<and>
    (\<forall>item \<in> set items. \<exists>j j'. job_of (fst (wk_backend s)) (ws_projection_name S) item = Some j \<and>
       job_of (fst (wk_backend s')) (ws_projection_name S) item = Some j' \<and> settled_as E (wk_ticks s) S j j') \<and>
    wk_ticks s \<le> wk_ticks s' \<and>
    rr_succeeded r' = rr_succeeded r +
      int (length (filter (\<lambda>item. succeeded (fst (wk_backend s')) (ws_projection_name S, wi_event_id item)) items))"
  using assms(3-)
proof (induction items arbitrary: r s)
  case Nil
  then show ?case by (simp add: return_def)
next
  case (Cons item items)
  let ?n = "ws_projection_name S" and ?P = "outbox_ports C put admit"
  obtain j where j: "job_of (fst (wk_backend s)) ?n item = Some j" "leased_for w item j" "jb_attempts j \<le> 1024"
    using Cons.prems(3) [of item] by auto
  obtain p where p: "retry_pause S (jb_attempts j) = Inr p" using pause j(3) by blast
  obtain q t j' where q: "handle_item E ?P S w item r s = (Inr q, t)" "queue_ok (fst (wk_backend t))"
    "jd_events (fst (wk_backend t)) = jd_events (fst (wk_backend s))"
    "map_of (jd_jobs (fst (wk_backend t))) = (map_of (jd_jobs (fst (wk_backend s))))((?n, wi_event_id item) \<mapsto> j')"
    "settled_as E (wk_ticks s) S j j'" "wk_ticks s \<le> wk_ticks t" "rr_succeeded q = rr_succeeded r + (if jb_status j' = JOB_SUCCEEDED then 1 else 0)"
    by (rule handle_item_settles [where E = E and put = put and admit = admit and r = r,
          OF up Cons.prems(1) j(1,2) p])
  have leased: "\<exists>j. job_of (fst (wk_backend t)) ?n i = Some j \<and> leased_for w i j \<and> jb_attempts j \<le> 1024" if "i \<in> set items" for i
  proof -
    have "wi_event_id i \<in> wi_event_id ` set items" using that by (rule imageI)
    then have "wi_event_id i \<noteq> wi_event_id item" using Cons.prems(2) by auto
    then show ?thesis using Cons.prems(3) [of i] that by (simp add: q(4))
  qed
  obtain r' s' where rest: "handle_items E ?P S w items q t = (Inr r', s')" "queue_ok (fst (wk_backend s'))"
    "jd_events (fst (wk_backend s')) = jd_events (fst (wk_backend t))"
    "\<And>k. k \<notin> Pair ?n ` wi_event_id ` set items \<Longrightarrow>
       map_of (jd_jobs (fst (wk_backend s'))) k = map_of (jd_jobs (fst (wk_backend t))) k"
    "\<And>i. i \<in> set items \<Longrightarrow> \<exists>j j'. job_of (fst (wk_backend t)) ?n i = Some j \<and>
       job_of (fst (wk_backend s')) ?n i = Some j' \<and> settled_as E (wk_ticks t) S j j'" "wk_ticks t \<le> wk_ticks s'"
    "rr_succeeded r' = rr_succeeded q +
       int (length (filter (\<lambda>i. succeeded (fst (wk_backend s')) (?n, wi_event_id i)) items))"
    using Cons.IH [OF q(2) _ leased, of q] Cons.prems(2) by auto
  have new: "(?n, wi_event_id item) \<notin> Pair ?n ` wi_event_id ` set items" using Cons.prems(2) by auto
  then have mine: "job_of (fst (wk_backend s')) ?n item = Some j'" using rest(4) q(4) by simp
  have "handle_items E ?P S w (item # items) r s = (Inr r', s')" using q(1) rest(1) by (simp add: pbind_eval(2))
  moreover have "\<exists>j j'. job_of (fst (wk_backend s)) ?n i = Some j \<and>
      job_of (fst (wk_backend s')) ?n i = Some j' \<and> settled_as E (wk_ticks s) S j j'" if "i \<in> set (item # items)" for i
  proof (cases "i = item")
    case False
    then have i: "i \<in> set items" using that by simp
    then have "wi_event_id i \<in> wi_event_id ` set items" by (rule imageI)
    then have "wi_event_id i \<noteq> wi_event_id item" using Cons.prems(2) by auto
    then show ?thesis using rest(5) [OF i] q(4) settled_as_earlier [OF _ q(6)] by auto
  qed (use j mine q(5) in auto)
  moreover have "rr_succeeded r' = rr_succeeded r + int (length (filter
      (\<lambda>i. succeeded (fst (wk_backend s')) (?n, wi_event_id i)) (item # items)))"
    using q(7) rest(7) mine by (simp add: succeeded_def)
  ultimately show ?case using q(3,4,6) rest(2,3,4,6) by (intro exI [of _ r'] exI [of _ s']) auto
qed

subsection \<open>Claiming the batch\<close>

text \<open>An event whose row can be read back as a work item, and a server that answers with all rows it updated.\<close>

definition readable :: "job_server \<Rightarrow> uuid \<times> outbox_event \<Rightarrow> bool" where
  "readable C row \<longleftrightarrow> (\<forall>n \<ge> 1. \<exists>item. work_item_of C (fst row, snd row, n) = Inr item)"

definition returns_all :: "job_server \<Rightarrow> bool" where
  "returns_all C \<longleftrightarrow> (\<forall>n rows. mset (js_returning C n rows) = mset rows)"

lemma work_item_fields:
  "work_item_of C (i, e, n) = Inr item \<Longrightarrow> wi_event_id item = i \<and> wi_attempts item = n"
  by (auto simp: work_item_of_def mk_work_item_def res_simps)

lemma distinct_claim_rows:
  assumes "queue_ok d"
  shows "distinct (map fst (claim_rows d name t locked n))"
proof -
  have "distinct (map fst (sort_key k (filter P (jd_events d))))" for k :: "_ \<Rightarrow> instant \<times> uuid" and P
    using queue_okD(1) [OF assms] by (simp add: distinct_map_filter)
  then show ?thesis by (simp add: claim_rows_def take_map [symmetric] del: distinct_map_sort_key)
qed

lemma rows_read:
  assumes "\<And>row. row \<in> set rows \<Longrightarrow> \<exists>item. work_item_of C row = Inr item" and "distinct (map fst rows)"
  shows "\<exists>items. rmap (work_item_of C) rows = Inr items \<and> distinct (map wi_event_id items) \<and>
    length items = length rows \<and> wi_event_id ` set items = fst ` set rows \<and>
    (\<forall>item \<in> set items. \<exists>e. (wi_event_id item, e, wi_attempts item) \<in> set rows)"
  using assms
proof (induction rows)
  case (Cons row rows)
  obtain i e n where row: "row = (i, e, n)" by (cases row)
  have "\<exists>item. work_item_of C row = Inr item" by (rule Cons.prems(1)) simp
  then obtain item where item: "work_item_of C row = Inr item" by blast
  have fields: "wi_event_id item = i" "wi_attempts item = n" using work_item_fields item row by auto
  obtain items where items: "rmap (work_item_of C) rows = Inr items" "distinct (map wi_event_id items)"
    "length items = length rows" "wi_event_id ` set items = fst ` set rows"
    "\<And>item. item \<in> set items \<Longrightarrow> \<exists>e. (wi_event_id item, e, wi_attempts item) \<in> set rows"
    using Cons.IH Cons.prems by auto
  have new: "i \<notin> wi_event_id ` set items" unfolding items(4) using Cons.prems(2) row by simp
  have "\<exists>e. (wi_event_id x, e, wi_attempts x) \<in> set (row # rows)" if "x \<in> set (item # items)" for x
    using that items(5) [of x] fields row by (cases "x = item") auto
  then show ?case
    by (intro exI [of _ "item # items"]) (use item items(1-4) fields new row in auto)
qed simp

lemma claim_leases:
  fixes name :: ustr and w :: ustr and u :: instant
  assumes up: "always_up C" and all: "returns_all C" and ok: "queue_ok d" and n: "0 \<le> n"
    and few: "\<forall>k j. map_of (jd_jobs d) k = Some j \<longrightarrow> jb_attempts j < max_attempts_value"
    and read: "\<forall>row \<in> set (jd_events d). revision_event (snd row) \<longrightarrow> readable C row"
  defines "t \<equiv> js_clock C (jd_transactions d)"
  defines "rows \<equiv> claim_rows d name t (js_locked C (jd_transactions d)) n"
  shows "\<exists>items d'. claim C name w n u d = (Inr items, d') \<and> queue_ok d' \<and> jd_events d' = jd_events d \<and>
    distinct (map wi_event_id items) \<and> length items = length rows \<and> wi_event_id ` set items = fst ` set rows \<and>
    (\<forall>k. map_of (jd_jobs d') k = map_option
       (\<lambda>j. if fst k = name \<and> snd k \<in> fst ` set rows then leased w u t j else j) (map_of (jd_jobs d) k)) \<and>
    (\<forall>item \<in> set items. \<exists>j. job_of d' name item = Some j \<and> leased_for w item j)"
proof -
  have connect: "js_connect C m = Inr ()" for m using up by (simp add: always_up_def)
  have row: "(i, e) \<in> set (jd_events d) \<and> (\<exists>j. map_of (jd_jobs d) (name, i) = Some j)" if "(i, e) \<in> set rows" for i e
    using claim_rows_sound [OF ok that [unfolded rows_def]] by auto
  have fits: "\<not> max_attempts_value \<le> attempts_of d (name, i)" if "(i, e) \<in> set rows" for i e
    using row [OF that] few by (fastforce simp: attempts_of_def not_le)
  let ?d = "jd_jobs_update (update_where (\<lambda>k j. fst k = name \<and> snd k \<in> fst ` set rows) (leased w u t)) (begun d)"
  let ?out = "js_returning C (jd_transactions d) (map (\<lambda>(i, e). (i, e, attempts_of ?d (name, i))) rows)"
  have same: "claim_rows (begun d) = claim_rows d" "attempts_of (begun d) = attempts_of d"
    by (intro ext, simp add: claim_rows_def attempts_of_def)+
  have run: "claim C name w n u d = (rmap (work_item_of C) ?out, ?d)"
    using fits n by (auto simp: claim_def transaction_eval connect pbind_def claim_statement_def same prog_defs raise_if_def
        rows_def t_def)
  have jobs: "map_of (jd_jobs ?d) k = map_option
       (\<lambda>j. if fst k = name \<and> snd k \<in> fst ` set rows then leased w u t j else j) (map_of (jd_jobs d) k)" for k
    by (simp add: map_of_update_where)
  have attempts: "\<exists>j. map_of (jd_jobs ?d) (name, i) = Some j \<and> jb_status j = JOB_PROCESSING \<and>
      jb_lease_owner j = Some w \<and> attempts_of ?d (name, i) = jb_attempts j \<and> 1 \<le> jb_attempts j" if r: "(i, e) \<in> set rows" for i e
  proof -
    obtain j where j: "map_of (jd_jobs d) (name, i) = Some j" using row [OF r] by blast
    have "i \<in> fst ` set rows" using r by force
    then have "map_of (jd_jobs ?d) (name, i) = Some (leased w u t j)" unfolding jobs using j by simp
    moreover have "0 \<le> jb_attempts j" using queue_okD(4) [OF ok j] by (simp add: job_ok_def job_checked_def)
    ultimately show ?thesis by (simp add: attempts_of_def leased_def)
  qed
  have out: "mset ?out = mset (map (\<lambda>(i, e). (i, e, attempts_of ?d (name, i))) rows)"
    using all by (simp add: returns_all_def)
  from mset_eq_setD [OF this] have set_out: "set ?out = (\<lambda>(i, e). (i, e, attempts_of ?d (name, i))) ` set rows"
    by (simp only: list.set_map)
  have "mset (map fst ?out) = image_mset fst (mset (map (\<lambda>(i, e). (i, e, attempts_of ?d (name, i))) rows))"
    unfolding out [symmetric] by (rule mset_map)
  also have "\<dots> = mset (map fst rows)" by (simp add: multiset.map_comp comp_def case_prod_beta)
  finally have "mset (map fst ?out) = mset (map fst rows)" .
  then have distinct: "distinct (map fst ?out)"
    using distinct_claim_rows [OF ok, of name t "js_locked C (jd_transactions d)" n] mset_eq_imp_distinct_iff
    unfolding rows_def by blast
  have good: "\<exists>item. work_item_of C r = Inr item" if "r \<in> set ?out" for r
  proof -
    obtain i e where r: "r = (i, e, attempts_of ?d (name, i))" "(i, e) \<in> set rows" using \<open>r \<in> set ?out\<close> set_out by auto
    obtain j e' where j: "map_of (jd_jobs d) (name, i) = Some j" "(i, e') \<in> set (jd_events d)" "revision_event e'"
      using row [OF r(2)] queue_okD(4) [OF ok] by fastforce
    have "e' = e" using j(2) row [OF r(2)] queue_okD(1) [OF ok] by (metis eq_key_imp_eq_value)
    then have "readable C (i, e)" using bspec [OF read, of "(i, e)"] j by simp
    then show ?thesis using attempts [OF r(2)] r(1) by (auto simp: readable_def)
  qed
  obtain items where items: "rmap (work_item_of C) ?out = Inr items" "distinct (map wi_event_id items)"
    "length items = length ?out" "wi_event_id ` set items = fst ` set ?out"
    "\<And>item. item \<in> set items \<Longrightarrow> \<exists>e. (wi_event_id item, e, wi_attempts item) \<in> set ?out"
    using rows_read [OF good distinct] by blast
  have "length ?out = length rows" using mset_eq_length [OF out] by simp
  moreover have "fst ` set ?out = fst ` set rows" unfolding set_out by (simp add: image_image case_prod_beta)
  moreover have "\<exists>j. job_of ?d name item = Some j \<and> leased_for w item j" if i: "item \<in> set items" for item
  proof -
    obtain e where "(wi_event_id item, e) \<in> set rows" "wi_attempts item = attempts_of ?d (name, wi_event_id item)"
      using items(5) [OF i] set_out by auto
    then show ?thesis using attempts [of "wi_event_id item" e] by (auto simp: leased_for_def)
  qed
  moreover have "queue_ok ?d" using perform_ok [OF ok, of C "Claiming name w n u"] run by simp
  ultimately show ?thesis using items jobs run by (intro exI [of _ items] exI [of _ ?d]) simp
qed

subsection \<open>A UUID is read back from its text\<close>

lemma remove_all_absent: "p \<noteq> [] \<Longrightarrow> hd p \<notin> set s \<Longrightarrow> remove_all p s = s"
  by (induction s) (auto simp: take_Cons' hd_conv_nth neq_Nil_conv)

lemma remove_all_single: "remove_all [c] s = filter (\<lambda>d. d \<noteq> c) s"
  by (induction s) auto

lemma strip_chars_absent: "set s \<inter> cs = {} \<Longrightarrow> strip_chars cs s = s"
proof -
  assume none: "set s \<inter> cs = {}"
  have "dropWhile (\<lambda>c. c \<in> cs) xs = xs" if "set xs \<inter> cs = {}" for xs :: "nat list"
    using that by (cases xs) auto
  from this [of s] this [of "rev s"] show ?thesis using none by (simp add: strip_chars_def)
qed

lemma hex_char_value: "d < 16 \<Longrightarrow> hex_digit_value (hex_char d) = d \<and> is_hex (hex_char d)"
  by (auto simp: hex_digit_value_def hex_char_def is_hex_def)

lemma hex_digits_hex: "c \<in> set (hex_digits n x) \<Longrightarrow> is_hex c"
  by (induction n arbitrary: x) (auto simp: hex_char_value)

lemma hex_number_digits: "hex_number (hex_digits n x) = x mod 16 ^ n"
proof (induction n arbitrary: x)
  case (Suc n)
  have "hex_number (hex_digits (Suc n) x) = 16 * hex_number (hex_digits n (x div 16)) + x mod 16"
    by (simp add: hex_number_def hex_char_value)
  then show ?case by (simp add: Suc.IH mod_mult2_eq)
qed (simp add: hex_number_def)

lemma is_hex_char: "is_hex c \<Longrightarrow> c < 128 \<and> \<not> is_space c \<and> c \<notin> {43, 45, 95, 88, 117, 120, 123, 125}"
  by (auto simp: is_hex_def is_space_def)

lemma set_dashed: "length h = 32 \<Longrightarrow> set (dashed h) \<subseteq> insert 45 (set h)"
  by (auto simp: dashed_def dest: in_set_takeD in_set_dropD)

lemma dashes_removed: "length h = 32 \<Longrightarrow> 45 \<notin> set h \<Longrightarrow> filter (\<lambda>d. d \<noteq> 45) (dashed h) = h"
proof -
  assume h: "length h = 32" "45 \<notin> set h"
  have part: "filter (\<lambda>d. d \<noteq> 45) (take n (drop m h)) = take n (drop m h)"
    "filter (\<lambda>d. d \<noteq> 45) (take n h) = take n h" "filter (\<lambda>d. d \<noteq> 45) (drop m h) = drop m h" for n m
    using h(2) by (auto intro!: filter_True dest: in_set_takeD in_set_dropD)
  have "filter (\<lambda>d. d \<noteq> 45) (dashed h) =
      take 8 h @ take 4 (drop 8 h) @ take 4 (drop 12 h) @ take 4 (drop 16 h) @ drop 20 h"
    by (simp add: dashed_def part)
  also have "\<dots> = h"
    using append_take_drop_id [of 8 h] append_take_drop_id [of 4 "drop 8 h"]
      append_take_drop_id [of 4 "drop 12 h"] append_take_drop_id [of 4 "drop 16 h"] by simp
  finally show ?thesis .
qed

lemma py_int16_hex:
  assumes "h \<noteq> []" and hex: "\<And>c. c \<in> set h \<Longrightarrow> is_hex c"
  shows "py_int16 db h = Some (int (hex_number h))"
proof -
  note plain = is_hex_char [OF hex]
  have "strip h = h" using assms(1) plain by (intro strip_id) (auto simp: stripped_def)
  moreover have "map (to_ascii_digit db) h = h" using plain by (intro map_idI) (simp add: to_ascii_digit_def)
  moreover have "drop_sign h = h" using assms(1) plain by (cases h) auto
  moreover have "drop_0x h = h"
  proof (cases h rule: drop_0x.cases)
    case (1 c d cs)
    then show ?thesis using plain [of d] by auto
  qed simp_all
  moreover have "hd h \<noteq> 95" "hd h \<noteq> 45" using assms(1) plain [of "hd h"] by auto
  moreover have "hex_body False h" using hex by (intro hex_body_hex) (simp add: list_all_iff)
  moreover have "filter (\<lambda>c. c \<noteq> 95) h = h" using plain by (auto intro: filter_True)
  ultimately show ?thesis using assms(1) by (simp add: py_int16_def py_int16_ok_def Let_def)
qed

lemma parse_uuid_str: "parse_uuid db (uuid_str i) = Some i"
proof -
  let ?h = "hex_digits 32 (unat i)"
  have h: "length ?h = 32" by (rule length_hex_digits)
  have hex: "c \<in> set ?h \<Longrightarrow> is_hex c" for c by (rule hex_digits_hex)
  have chars: "c \<notin> set (dashed ?h)" if "c \<in> {117, 123, 125}" for c
    using set_dashed [OF h] is_hex_char [OF hex, of c] that by auto
  have "remove_all (uc ''uuid:'') (remove_all (uc ''urn:'') (uuid_str i)) = dashed ?h"
    using chars [of 117] by (simp add: uuid_str_def remove_all_absent)
  moreover have "strip_chars {123, 125} (dashed ?h) = dashed ?h" using chars by (intro strip_chars_absent) auto
  moreover have "remove_all (uc ''-'') (dashed ?h) = ?h"
    using dashes_removed [OF h] is_hex_char [OF hex, of 45] by (auto simp: remove_all_single)
  moreover have "?h \<noteq> []" using h by (metis list.size(3) zero_neq_numeral)
  then have "py_int16 db ?h = Some (int (hex_number ?h))" using hex by (rule py_int16_hex)
  moreover have "unat i < 16 ^ 32" using unsigned_less [of i] by simp
  then have "hex_number ?h = unat i" by (simp only: hex_number_digits mod_less)
  moreover have "uint i < 2 ^ 128" using uint_lt2p [of i] by simp
  ultimately show ?thesis using h by (simp add: parse_uuid_def Let_def)
qed

text \<open>So the events the store writes can be claimed.\<close>

definition written_by_store :: "outbox_event \<Rightarrow> bool" where
  "written_by_store e \<longleftrightarrow> (\<exists>sc r v n. scope_ok sc \<and> oe_payload e = revision_payload sc r v n)"

lemma written_readable:
  assumes "revision_event e" "written_by_store e"
  shows "readable C (i, e)"
proof -
  obtain sc r v q where sc: "scope_ok sc" and payload: "oe_payload e = revision_payload sc r v q"
    using assms(2) unfolding written_by_store_def by blast
  have event_type: "require_text (oe_event_type e) ''event_type'' = Inr (oe_event_type e)"
    using assms(1) by (auto simp: revision_event_def require_text_def strip_id stripped_def is_space_def)
  have "mk_scope (tenant_id sc) (subject_id sc) = Inr sc" by (rule mk_scope_idem [OF sc])
  then show ?thesis
    by (simp add: readable_def work_item_of_def payload revision_payload_def payload_mapping_def text_at_def uuid_at_def
        mk_work_item_def parse_uuid_str event_type require_utc_utc raise_if_def)
qed

subsection \<open>Counting by id\<close>

lemma count_by_id:
  assumes "distinct (map f xs)"
  shows "length (filter (\<lambda>x. P (f x)) xs) = card {i \<in> f ` set xs. P i}"
proof -
  have "length (filter (\<lambda>x. P (f x)) xs) = length (filter P (map f xs))" by (simp add: filter_map comp_def)
  also have "\<dots> = card (set (filter P (map f xs)))" using distinct_card [OF distinct_filter [OF assms]] by simp
  finally show ?thesis by (simp add: Collect_conj_eq Int_commute set_filter)
qed

lemma count_same_ids:
  assumes "distinct (map f xs)" "distinct (map g ys)" "f ` set xs = g ` set ys"
  shows "length (filter (\<lambda>x. P (f x)) xs) = length (filter (\<lambda>y. P (g y)) ys)"
  using assms by (simp add: count_by_id)

text \<open>The tables after discovering, and the batch a run claims from them.\<close>

definition after_discovery :: "job_server \<Rightarrow> ustr \<Rightarrow> job_db \<Rightarrow> job_db" where
  "after_discovery C name d = perform C (Discovering name) d"

definition batch_of :: "job_server \<Rightarrow> worker_settings \<Rightarrow> job_db \<Rightarrow> (uuid \<times> outbox_event) list" where
  "batch_of C S d = claim_rows d (ws_projection_name S) (js_clock C (jd_transactions d))
     (js_locked C (jd_transactions d)) (ws_batch_size S)"

lemma after_discovery_keeps:
  assumes "queue_ok d"
  shows "queue_ok (after_discovery C name d)" "jd_events (after_discovery C name d) = jd_events d"
    "\<forall>k j. map_of (jd_jobs d) k = Some j \<longrightarrow> jb_attempts j < 1024 \<Longrightarrow>
       map_of (jd_jobs (after_discovery C name d)) k = Some j \<Longrightarrow> jb_attempts j < 1024"
proof -
  show "queue_ok (after_discovery C name d)" using perform_ok [OF assms] by (simp add: after_discovery_def del: perform.simps)
  show "jd_events (after_discovery C name d) = jd_events d"
    by (simp add: after_discovery_def perform_eval del: perform.simps split: sum.split)
  show "jb_attempts j < 1024" if "\<forall>k j. map_of (jd_jobs d) k = Some j \<longrightarrow> jb_attempts j < 1024"
    and "map_of (jd_jobs (after_discovery C name d)) k = Some j"
  proof -
    have "map_of (jd_jobs d) k = Some j \<or> (\<exists>t u. j = new_job t u)"
      using perform_job [OF assms that(2) [unfolded after_discovery_def]] by auto
    then show ?thesis using that(1) by (elim disjE exE) (blast, simp add: new_job_def)
  qed
qed

lemma run_once_settles:
  fixes s :: "(job_db \<times> 'x) worker_state" and E :: env
  assumes up: "always_up C" and all: "returns_all C" and ok: "queue_ok (fst (wk_backend s))" and n: "0 \<le> ws_batch_size S"
    and pause: "\<forall>n \<le> 1024. \<exists>p. retry_pause S n = Inr p" and lease: "timedelta_seconds (ws_lease_seconds S) = Inr lease"
    and few: "\<forall>k j. map_of (jd_jobs (fst (wk_backend s))) k = Some j \<longrightarrow> jb_attempts j < 1024"
    and read: "\<forall>(i, e) \<in> set (jd_events (fst (wk_backend s))). revision_event e \<longrightarrow> written_by_store e"
  defines "d \<equiv> after_discovery C (ws_projection_name S) (fst (wk_backend s))"
  defines "until \<equiv> e_clock E (wk_ticks s) + lease"
  shows "\<exists>r s'. run_once E (outbox_ports C put admit) S w s = (Inr r, s') \<and> queue_ok (fst (wk_backend s')) \<and>
    rr_claimed r = int (length (batch_of C S d)) \<and>
    rr_succeeded r = int (length (filter (\<lambda>row. succeeded (fst (wk_backend s')) (ws_projection_name S, fst row)) (batch_of C S d))) \<and>
    (\<forall>(i, e) \<in> set (batch_of C S d). \<exists>j j'. map_of (jd_jobs d) (ws_projection_name S, i) = Some j \<and>
       map_of (jd_jobs (fst (wk_backend s'))) (ws_projection_name S, i) = Some j' \<and>
       settled_as E (wk_ticks s) S (leased w until (js_clock C (jd_transactions d)) j) j') \<and>
    (\<forall>k. k \<notin> Pair (ws_projection_name S) ` fst ` set (batch_of C S d) \<longrightarrow>
       map_of (jd_jobs (fst (wk_backend s'))) k = map_of (jd_jobs d) k)"
proof -
  let ?n = "ws_projection_name S" and ?P = "outbox_ports C put admit" and ?rows = "batch_of C S d"
  let ?z = "\<lparr>rr_claimed = 0, rr_succeeded = 0, rr_failed = 0, rr_dead_lettered = 0\<rparr>"
  have connect: "js_connect C m = Inr ()" for m using up by (simp add: always_up_def)
  note keeps = after_discovery_keeps [OF ok, of C ?n, folded d_def]
  have bound: "jb_attempts j < 1024" if "map_of (jd_jobs d) k = Some j" for k j using keeps(3) [OF few that] .
  then have few': "\<forall>k j. map_of (jd_jobs d) k = Some j \<longrightarrow> jb_attempts j < max_attempts_value"
    by (fastforce simp: max_attempts_value_def)
  have readable: "\<forall>row \<in> set (jd_events d). revision_event (snd row) \<longrightarrow> readable C row"
  proof (intro ballI impI)
    fix row assume row: "row \<in> set (jd_events d)" "revision_event (snd row)"
    then have "row \<in> set (jd_events (fst (wk_backend s)))" using keeps(2) by simp
    from bspec [OF read this] have "written_by_store (snd row)" using row(2) by (simp add: case_prod_beta)
    then show "readable C row" using written_readable [OF row(2), of C "fst row"] by simp
  qed
  obtain items d' where claim: "claim C ?n w (ws_batch_size S) until d = (Inr items, d')" "queue_ok d'" "jd_events d' = jd_events d"
    and ids: "distinct (map wi_event_id items)" "length items = length ?rows" "wi_event_id ` set items = fst ` set ?rows"
    and jobs: "\<And>k. map_of (jd_jobs d') k = map_option (\<lambda>j. if fst k = ?n \<and> snd k \<in> fst ` set ?rows
       then leased w until (js_clock C (jd_transactions d)) j else j) (map_of (jd_jobs d) k)"
    and leases: "\<And>item. item \<in> set items \<Longrightarrow> \<exists>j. job_of d' ?n item = Some j \<and> leased_for w item j"
    using claim_leases [where name = ?n and w = w and u = "until", OF up all keeps(1) n few' readable]
    unfolding batch_of_def by blast
  have limited: "jb_attempts j \<le> 1024" if "map_of (jd_jobs d') k = Some j" for k j
    using that bound unfolding jobs by (fastforce simp: leased_def split: if_splits)
  let ?t = "s\<lparr>wk_ticks := Suc (wk_ticks s), wk_log := wk_log s @ [Discovered], wk_backend := (d', snd (wk_backend s))\<rparr>"
  obtain q s' where handled: "handle_items E ?P S w items ?z ?t = (Inr q, s')" "queue_ok (fst (wk_backend s'))"
    "\<And>k. k \<notin> Pair ?n ` wi_event_id ` set items \<Longrightarrow> map_of (jd_jobs (fst (wk_backend s'))) k = map_of (jd_jobs d') k"
    "\<And>item. item \<in> set items \<Longrightarrow> \<exists>j j'. job_of d' ?n item = Some j \<and>
       job_of (fst (wk_backend s')) ?n item = Some j' \<and> settled_as E (Suc (wk_ticks s)) S j j'"
    "rr_succeeded q = int (length (filter (\<lambda>item. succeeded (fst (wk_backend s')) (?n, wi_event_id item)) items))"
    using handle_items_settle [OF up pause, of ?t items w E put admit ?z] claim(2) ids(1) leases limited by fastforce
  have discovered: "discover C ?n (fst (wk_backend s)) = (Inr (int (length (discovered ?n
      (js_clock C (jd_transactions (fst (wk_backend s)))) (fst (wk_backend s))))), d)"
    by (simp add: d_def after_discovery_def discover_eval connect)
  have run: "run_once E ?P S w s = (Inr (q\<lparr>rr_claimed := int (length items)\<rparr>), s')"
    using claim(1) handled(1) discovered
    by (simp add: run_once_def lease pbind_port_call pbind_on_backend queue_ports on_queue_def until_def
        pbind_def [of "handle_items _ _ _ _ _ _"] return_def)
  have settled: "\<exists>j j'. map_of (jd_jobs d) (?n, i) = Some j \<and> map_of (jd_jobs (fst (wk_backend s'))) (?n, i) = Some j' \<and>
      settled_as E (wk_ticks s) S (leased w until (js_clock C (jd_transactions d)) j) j'" if i: "(i, e) \<in> set ?rows" for i e
  proof -
    have "i \<in> fst ` set ?rows" using i by force
    then obtain item where item: "item \<in> set items" "wi_event_id item = i" unfolding ids(3) [symmetric] by blast
    obtain j j' where j: "map_of (jd_jobs d') (?n, i) = Some j" "map_of (jd_jobs (fst (wk_backend s'))) (?n, i) = Some j'"
      "settled_as E (Suc (wk_ticks s)) S j j'" using handled(4) [OF item(1)] item(2) by blast
    then obtain j0 where "map_of (jd_jobs d) (?n, i) = Some j0" "j = leased w until (js_clock C (jd_transactions d)) j0"
      using \<open>i \<in> fst ` set ?rows\<close> unfolding jobs by auto
    then show ?thesis using j settled_as_earlier [OF j(3)] by auto
  qed
  have rest: "map_of (jd_jobs (fst (wk_backend s'))) k = map_of (jd_jobs d) k"
    if "k \<notin> Pair ?n ` fst ` set ?rows" for k
  proof -
    have "\<not> (fst k = ?n \<and> snd k \<in> fst ` set ?rows)" using that by (metis image_eqI prod.collapse)
    then have "map_of (jd_jobs d') k = map_of (jd_jobs d) k" unfolding jobs by (cases "map_of (jd_jobs d) k") auto
    then show ?thesis using handled(3) [of k] that unfolding ids(3) by simp
  qed
  have "distinct (map fst ?rows)" unfolding batch_of_def by (rule distinct_claim_rows [OF keeps(1)])
  from count_same_ids [OF ids(1) this ids(3), of "\<lambda>i. succeeded (fst (wk_backend s')) (?n, i)"]
  have "rr_succeeded q = int (length (filter (\<lambda>row. succeeded (fst (wk_backend s')) (?n, fst row)) ?rows))"
    unfolding handled(5) by simp
  then show ?thesis using run handled(2) ids(2) settled rest
    by (intro exI [of _ "q\<lparr>rr_claimed := int (length items)\<rparr>"] exI [of _ s']) auto
qed

end
