(* ===== verification/WorkerProperties.thy ===== *)
theory WorkerProperties
  imports Sample WorkerDelivery
begin

text \<open>
  Properties of the way from the outbox to the vector index: the run of the worker and the job table it works
  on.
\<close>

subsection \<open>The projection worker\<close>

text \<open>
  C39: A run of the projection worker settles every item it claimed, in order and exactly once: with a
  completion, or with a failure that is a dead letter exactly when the attempts are used up and is
  otherwise retried after the backoff.  Only admitted documents reach the index, and the counters of the
  result are those of the log, claimed being succeeded plus failed.
\<close>

theorem worker_settles_every_item:
  assumes "run_once E P S worker_id s = (Inr r, s')"
  shows "\<exists>lease u u' items l. timedelta_seconds (ws_lease_seconds S) = Inr lease \<and>
    wp_claim P (ws_projection_name S) worker_id (ws_batch_size S) (e_clock E (wk_ticks s) + lease) u = (Inr items, u') \<and>
    wk_log s' = wk_log s @ Discovered # l \<and> settling l = items \<and> list_all (failure_ok S) l \<and> admitted_only P l \<and>
    rr_claimed r = int (length items) \<and> rr_succeeded r = int (length (filter completion l)) \<and>
    rr_dead_lettered r = int (length (filter dead_letter l)) \<and> rr_claimed r = rr_succeeded r + rr_failed r"
proof -
  obtain lease u u' items l q where "timedelta_seconds (ws_lease_seconds S) = Inr lease"
    "wp_claim P (ws_projection_name S) worker_id (ws_batch_size S) (e_clock E (wk_ticks s) + lease) u = (Inr items, u')"
    "wk_log s' = wk_log s @ Discovered # l"
    "accounts P S items \<lparr>rr_claimed = 0, rr_succeeded = 0, rr_failed = 0, rr_dead_lettered = 0\<rparr> q l"
    "r = q\<lparr>rr_claimed := int (length items)\<rparr>"
    by (rule run_once_accounts [OF assms])
  then show ?thesis
    using run_once_totals [OF assms]
    by (intro exI [of _ lease] exI [of _ u] exI [of _ u'] exI [of _ items] exI [of _ l]) (simp add: accounts_def)
qed

definition sample_settings :: worker_settings where
  "sample_settings = \<lparr>ws_projection_name = uc ''idx'', ws_batch_size = 10, ws_lease_seconds = 30, ws_retry_base = 2,
     ws_retry_max = 300, ws_max_attempts = 3\<rparr>"

definition sample_work :: "uuid \<Rightarrow> int \<Rightarrow> work_item" where
  "sample_work i n = \<lparr>wi_event_id = i, wi_event_type = uc ''changed'', wi_scope = sample_scope, wi_record_id = 3,
     wi_revision_id = 4, wi_occurred_at = 0, wi_attempts = n\<rparr>"

definition sample_pd :: projection_document where
  "sample_pd = \<lparr>pd_source_event_id = 1, pd_scope = sample_scope, pd_record_id = 3, pd_revision_id = 4,
     pd_key = uc ''drink'', pd_value = uc ''tea'', pd_context = sample_context, pd_valid_from = 0,
     pd_recorded_at = 0\<rparr>"

text \<open>A table with two items, of which the second cannot be loaded.\<close>

definition sample_ports :: "unit worker_ports" where
  "sample_ports = \<lparr>wp_discover = (\<lambda>_. return 2), wp_claim = (\<lambda>_ _ _ _. return [sample_work 1 1, sample_work 2 3]),
     wp_load = (\<lambda>i. if wi_event_id i = 1 then return sample_pd else throw (NotFoundError ''gone'')),
     wp_upsert = (\<lambda>_. return ()), wp_complete = (\<lambda>_ _ _ _. return ()), wp_fail = (\<lambda>_ _ _ _ _ _ _. return ()),
     wp_admit = None\<rparr>"

lemma sample_pauses:
  "n \<le> 1024 \<Longrightarrow> \<exists>p. retry_pause sample_settings n = Inr p"
  "\<exists>lease. timedelta_seconds (ws_lease_seconds sample_settings) = Inr lease"
  by (rule retry_pause_total; simp add: sample_settings_def)
     (use timedelta_day [of 30] in \<open>auto simp: sample_settings_def\<close>)

theorem worker_settles_every_item_witness:
  "\<exists>r s' l. run_once sample_env sample_ports sample_settings (uc ''w'') \<lparr>wk_ticks = 0, wk_log = [], wk_backend = ()\<rparr> = (Inr r, s') \<and>
     wk_log s' = Discovered # l \<and> settling l = [sample_work 1 1, sample_work 2 3] \<and> rr_succeeded r + rr_failed r = 2"
proof -
  obtain p where p: "retry_pause sample_settings 3 = Inr p" using sample_pauses(1) [of 3] by auto
  obtain lease where lease: "timedelta_seconds (ws_lease_seconds sample_settings) = Inr lease" using sample_pauses(2) by blast
  obtain r s' where run:
      "run_once sample_env sample_ports sample_settings (uc ''w'') \<lparr>wk_ticks = 0, wk_log = [], wk_backend = ()\<rparr> = (Inr r, s')"
    by (simp add: run_once_def handle_item_def deliver_def pbind_def catch_def wk_now_eval port_call_eval on_backend_def prog_defs
        Let_def sample_ports_def sample_work_def p lease)
  show ?thesis
    using worker_settles_every_item [OF run] run by (auto simp: sample_ports_def prog_defs)
qed

subsection \<open>The job table\<close>

text \<open>A server with a database that is always there, and an outbox of two revisions, one of which is gone.\<close>

definition sample_server :: job_server where
  "sample_server = \<lparr>js_connect = (\<lambda>_. Inr ()), js_clock = (\<lambda>n. 100 + int n), js_locked = (\<lambda>_. []),
     js_returning = (\<lambda>_. rev), js_str = (\<lambda>_. []), js_json = (\<lambda>_. []), js_db = sample_db\<rparr>"

definition sample_event :: "uuid \<Rightarrow> outbox_event" where
  "sample_event v = \<lparr>oe_aggregate_type = uc ''memory_revision'', oe_event_type = uc ''memory.revision.created'',
     oe_payload = revision_payload sample_scope 3 v 1, oe_occurred_at = 10\<rparr>"

definition sample_tables :: job_db where
  "sample_tables = \<lparr>jd_transactions = 0, jd_events = [(1, sample_event 4), (2, sample_event 5)], jd_jobs = [],
     jd_cursors = [], jd_records = [(3, \<lparr>rw_tenant = tenant_id sample_scope, rw_subject = subject_id sample_scope,
       rw_key = uc ''drink'', rw_context = []\<rparr>)],
     jd_revisions = [(4, \<lparr>vw_record_id = 3, vw_tenant = tenant_id sample_scope, vw_subject = subject_id sample_scope,
       vw_value = uc ''tea'', vw_valid_from = 5, vw_recorded_at = 6\<rparr>)]\<rparr>"

definition sample_job :: "job_status \<Rightarrow> job" where
  "sample_job st = \<lparr>jb_status = st, jb_attempts = 1, jb_available_at = 10,
     jb_lease_owner = (if st = JOB_PROCESSING then Some (uc ''w'') else None),
     jb_lease_until = (if st = JOB_PROCESSING then Some 500 else None), jb_last_error = None,
     jb_processed_at = (if st = JOB_SUCCEEDED then Some 20 else None), jb_created_at = 10, jb_updated_at = 20\<rparr>"

definition sample_queue :: "job_status \<Rightarrow> job_db" where
  "sample_queue st = sample_tables\<lparr>jd_jobs := [((uc ''idx'', 1), sample_job st)]\<rparr>"

lemma sample_server_fields:
  "js_connect sample_server n = Inr ()" "js_clock sample_server n = 100 + int n" "js_locked sample_server n = []"
  "js_returning sample_server n rows = rev rows"
  by (simp_all add: sample_server_def)

lemma sample_revision_event: "revision_event (sample_event v)"
  by (simp add: revision_event_def sample_event_def)

lemma sample_tables_ok: "queue_ok sample_tables"
  by (simp add: queue_ok_def sample_tables_def)

lemma sample_queue_ok: "queue_ok (sample_queue st)"
  by (cases st) (auto simp: queue_ok_def sample_queue_def sample_tables_def sample_revision_event sample_job_def
      job_ok_def job_checked_def max_attempts_value_def)

text \<open>
  C28: The job table stays consistent whatever happens to it, in any order and from any number of workers: keys
  are unique, every job belongs to an event about a revision, the check constraints of the schema hold (a job is
  leased exactly while it is processing, and has a processing time exactly when it succeeded), and a cursor
  that names an event names one that exists.
\<close>

theorem job_table_stays_consistent:
  assumes "queue_ok d" and "queue_runs C A d d'"
  shows "queue_ok d'"
  by (rule runs_ok [OF assms(2,1)])

theorem job_table_stays_consistent_witness:
  "\<exists>d'. queue_runs sample_server (\<lambda>_. True) sample_tables d' \<and> length (jd_jobs d') = 2 \<and> queue_ok d'"
proof -
  let ?d = "perform sample_server (Discovering (uc ''idx'')) sample_tables"
  have run: "queue_runs sample_server (\<lambda>_. True) sample_tables ?d" unfolding queue_runs_def by blast
  have "length (jd_jobs ?d) = 2"
    by (simp add: perform_eval discovered_def rows_where_def sample_server_def sample_tables_def sample_revision_event
        del: perform.simps uc_simps)
  then show ?thesis using run job_table_stays_consistent [OF sample_tables_ok run] by blast
qed

text \<open>
  C20: A job that succeeded or became a dead letter is never claimed, retried or changed again, whatever any worker
  does, until its projection is requeued: it stays as it is, or disappears with its event when the scope is erased.
\<close>

theorem settled_jobs_stay_settled:
  assumes "queue_ok d" "map_of (jd_jobs d) k = Some j" "jb_status j \<in> {JOB_SUCCEEDED, JOB_DEAD_LETTER}"
    and "queue_runs C A d d'" "\<And>t. \<not> A (Requeueing (fst k) t)" "\<And>e. \<not> A (Appending (snd k) e)"
  shows "map_of (jd_jobs d') k = Some j \<or> snd k \<notin> fst ` set (jd_events d')"
  by (rule untouched_along [OF assms(4,1,2,6)]) (use assms(5) lawful_settled [OF _ assms(3)] in blast)

theorem settled_jobs_stay_settled_witness:
  "map_of (jd_jobs (perform sample_server (Claiming (uc ''idx'') (uc ''v'') 10 900) (sample_queue JOB_SUCCEEDED)))
     (uc ''idx'', 1) = Some (sample_job JOB_SUCCEEDED)"
proof -
  let ?a = "Claiming (uc ''idx'') (uc ''v'') 10 900" and ?d = "sample_queue JOB_SUCCEEDED"
  have run: "queue_runs sample_server (\<lambda>a. a = ?a) ?d (perform sample_server ?a ?d)" unfolding queue_runs_def by blast
  have "map_of (jd_jobs (perform sample_server ?a ?d)) (uc ''idx'', 1) = Some (sample_job JOB_SUCCEEDED) \<or>
      snd (uc ''idx'', 1) \<notin> fst ` set (jd_events (perform sample_server ?a ?d))"
    by (rule settled_jobs_stay_settled [OF sample_queue_ok _ _ run])
       (simp_all add: sample_queue_def sample_job_def del: uc_simps)
  moreover have "1 \<in> fst ` set (jd_events ?d)" by (simp add: sample_queue_def sample_tables_def)
  then have "1 \<in> fst ` set (jd_events (perform sample_server ?a ?d))"
    using perform_events [of ?a ?d sample_server] by blast
  ultimately show ?thesis by simp
qed

text \<open>
  C18: While a lease lasts, the job is its owner's: as long as the database clock has not reached the end of the
  lease and the owner neither completes nor fails the job, no other worker's claim, completion or failure changes
  it (only a requeueing or the erasure of its event does).
\<close>

theorem leases_are_exclusive:
  assumes "queue_ok d" "map_of (jd_jobs d) k = Some j" "jb_status j = JOB_PROCESSING"
    and "jb_lease_owner j = Some w" "jb_lease_until j = Some u"
    and "queue_runs C A d d'" "\<And>t. \<not> A (Requeueing (fst k) t)" "\<And>e. \<not> A (Appending (snd k) e)"
    and "\<And>item t. A (Completing (fst k) item w t) \<Longrightarrow> wi_event_id item \<noteq> snd k"
    and "\<And>item t v e dead. A (Failing (fst k) item w t v e dead) \<Longrightarrow> wi_event_id item \<noteq> snd k"
    and "\<And>n. n < jd_transactions d' \<Longrightarrow> js_clock C n < u"
  shows "map_of (jd_jobs d') k = Some j \<or> snd k \<notin> fst ` set (jd_events d')"
proof (rule untouched_along [OF assms(6,1,2,8)], rule notI)
  fix x a j' assume a: "A a" "jd_transactions (perform C a x) \<le> jd_transactions d'" and change: "lawful C x a k j j'"
  from lawful_leased [OF change assms(3-5)] show False
  proof (elim disjE exE conjE)
    fix name v n b assume claim: "a = Claiming name v n b" and late: "u \<le> js_clock C (jd_transactions x)"
    have "jd_transactions x < jd_transactions d'"
      using lawful_claim_counts [OF change [unfolded claim]] a(2) unfolding claim by (rule less_le_trans)
    then show False using assms(11) late by fastforce
  qed (use a(1) assms(7,9,10) in auto)
qed

theorem leases_are_exclusive_witness:
  "map_of (jd_jobs (perform sample_server (Completing (uc ''idx'') (sample_work 1 1) (uc ''v'') 90) (sample_queue JOB_PROCESSING)))
     (uc ''idx'', 1) = Some (sample_job JOB_PROCESSING)"
proof -
  let ?a = "Completing (uc ''idx'') (sample_work 1 1) (uc ''v'') 90" and ?d = "sample_queue JOB_PROCESSING"
  have run: "queue_runs sample_server (\<lambda>a. a = ?a) ?d (perform sample_server ?a ?d)" unfolding queue_runs_def by blast
  have other: "uc ''v'' \<noteq> uc ''w''" by simp
  have "jd_transactions (perform sample_server ?a ?d) \<le> 1"
    by (simp add: perform_eval sample_server_def sample_queue_def sample_tables_def del: perform.simps uc_simps)
  then have "map_of (jd_jobs (perform sample_server ?a ?d)) (uc ''idx'', 1) = Some (sample_job JOB_PROCESSING) \<or>
      snd (uc ''idx'', 1) \<notin> fst ` set (jd_events (perform sample_server ?a ?d))"
    by (intro leases_are_exclusive [OF sample_queue_ok _ _ _ _ run, where w = "uc ''w''" and u = 500])
       (use other in \<open>auto simp: sample_queue_def sample_job_def sample_server_def simp del: uc_simps\<close>)
  moreover have "1 \<in> fst ` set (jd_events ?d)" by (simp add: sample_queue_def sample_tables_def)
  then have "1 \<in> fst ` set (jd_events (perform sample_server ?a ?d))"
    using perform_events [of ?a ?d sample_server] by blast
  ultimately show ?thesis by simp
qed

text \<open>
  C17: As long as the database answers, and nothing else works on the tables during the run (no erasure and no other
  worker in between), a run of the worker on the job table always returns, whatever the index, the admission and the
  source rows do: every job it claimed (the oldest claimable ones, up to the batch size) ends succeeded, rescheduled
  after its backoff, or as a dead letter once its attempts are used up, each with one more attempt and no lease; every
  other job is as it was after discovering, and the counters of the run are those of the table.  The lease and the
  longest delay are at most a day, as accepted settings have them, and no job was attempted 1024 times before: the
  delay of a later attempt cannot be computed (retry_delay_overflows).
\<close>

theorem run_leaves_no_claim_behind:
  fixes s :: "(job_db \<times> 'x) worker_state" and E :: env
  assumes "always_up C" "returns_all C" "queue_ok (fst (wk_backend s))" "mk_worker_settings S = Inr S"
    and "ws_lease_seconds S \<le> 86400" "ws_retry_max S \<le> 86400"
    and "\<forall>k j. map_of (jd_jobs (fst (wk_backend s))) k = Some j \<longrightarrow> jb_attempts j < 1024"
    and "\<forall>(i, e) \<in> set (jd_events (fst (wk_backend s))). revision_event e \<longrightarrow> written_by_store e"
    and d: "d = after_discovery C (ws_projection_name S) (fst (wk_backend s))"
  shows "\<exists>lease r s'. timedelta_seconds (ws_lease_seconds S) = Inr lease \<and>
    run_once E (outbox_ports C put admit) S w s = (Inr r, s') \<and> queue_ok (fst (wk_backend s')) \<and>
    rr_claimed r = int (length (batch_of C S d)) \<and>
    rr_succeeded r = int (length (filter (\<lambda>row. succeeded (fst (wk_backend s')) (ws_projection_name S, fst row)) (batch_of C S d))) \<and>
    (\<forall>(i, e) \<in> set (batch_of C S d). \<exists>j j'. map_of (jd_jobs d) (ws_projection_name S, i) = Some j \<and>
       map_of (jd_jobs (fst (wk_backend s'))) (ws_projection_name S, i) = Some j' \<and>
       settled_as E (wk_ticks s) S
         (leased w (e_clock E (wk_ticks s) + lease) (js_clock C (jd_transactions d)) j) j') \<and>
    (\<forall>k. k \<notin> Pair (ws_projection_name S) ` fst ` set (batch_of C S d) \<longrightarrow>
       map_of (jd_jobs (fst (wk_backend s'))) k = map_of (jd_jobs d) k)"
proof -
  have S: "0 < ws_lease_seconds S" "0 < ws_retry_base S" "ws_retry_base S \<le> ws_retry_max S" "0 \<le> ws_batch_size S"
    using assms(4) by (simp_all add: settings_Inr)
  obtain lease where lease: "timedelta_seconds (ws_lease_seconds S) = Inr lease"
    using timedelta_day [of "ws_lease_seconds S"] S(1) assms(5) by auto
  have pause: "\<forall>n \<le> 1024. \<exists>p. retry_pause S n = Inr p" using retry_pause_total [OF S(2,3) assms(6)] by blast
  show ?thesis unfolding d
    using run_once_settles [OF assms(1-3) S(4) pause lease assms(7,8), of E put admit w] lease by blast
qed

theorem run_leaves_no_claim_behind_witness:
  "\<exists>r s'. run_once sample_env (outbox_ports sample_server (\<lambda>_. return ()) None) sample_settings (uc ''w'')
       \<lparr>wk_ticks = 0, wk_log = [], wk_backend = (sample_tables, ())\<rparr> = (Inr r, s') \<and>
     queue_ok (fst (wk_backend s')) \<and> rr_claimed r = 2"
proof -
  let ?s = "\<lparr>wk_ticks = 0, wk_log = [], wk_backend = (sample_tables, ())\<rparr>"
  let ?d = "after_discovery sample_server (uc ''idx'') sample_tables"
  have settings: "mk_worker_settings sample_settings = Inr sample_settings"
    by (simp add: settings_Inr sample_settings_def strip_def is_space_def)
  have written: "written_by_store (sample_event v)" for v
  proof -
    have "scope_ok sample_scope" by (simp add: scope_ok_def sample_scope_def stripped_def is_space_def)
    then show ?thesis unfolding written_by_store_def sample_event_def by auto
  qed
  have tables: "jd_events ?d = [(1, sample_event 4), (2, sample_event 5)]" "jd_transactions ?d = 1"
    "jd_jobs ?d = [((uc ''idx'', 1), new_job 10 100), ((uc ''idx'', 2), new_job 10 100)]"
    by (simp_all add: after_discovery_def perform_eval discovered_def rows_where_def sample_server_fields sample_tables_def
        sample_revision_event sample_event_def del: perform.simps uc_simps)
       (simp_all add: sample_event_def sample_revision_event [unfolded sample_event_def] del: uc_simps)
  have batch: "length (batch_of sample_server sample_settings ?d) = 2"
    by (simp add: batch_of_def claim_rows_def tables sample_server_fields sample_settings_def sample_event_def
        claimable_def new_job_def del: uc_simps)
  have "\<exists>r s'. run_once sample_env (outbox_ports sample_server (\<lambda>_. return ()) None) sample_settings (uc ''w'') ?s = (Inr r, s') \<and>
      queue_ok (fst (wk_backend s')) \<and> rr_claimed r = int (length (batch_of sample_server sample_settings ?d))"
    using run_leaves_no_claim_behind [where s = ?s and C = sample_server and S = sample_settings and E = sample_env and w = "uc ''w''"
        and put = "\<lambda>_. return ()" and admit = None, OF _ _ _ settings _ _ _ _ refl] written sample_tables_ok
    by (fastforce simp: always_up_def returns_all_def sample_server_fields sample_tables_def sample_settings_def simp del: uc_simps)
  then show ?thesis unfolding batch by simp
qed

end
