(* ===== verification/VectorIndex.thy ===== *)
theory VectorIndex
  imports Service ProjectionWorker Loader
begin

text \<open>
  \<open>adapters/embeddings.py\<close> and \<open>adapters/milvus.py\<close>: texts become vectors, and the vector index holds one row
  for each revision, without its text.  The client library of the database is a record of programs on a
  state of its own; its answers are untyped Python values.  BLAKE2b, the square root, the word characters of
  Unicode and \<open>float(text)\<close> are arguments.
\<close>

subsection \<open>Untyped answers\<close>

datatype xfloat = Finite pyfloat | Infinite bool | NotANumber

datatype cvalue =
    CNone
  | CBool bool
  | CInt int
  | CFloat xfloat
  | CText ustr
  | CList "cvalue list"
  | CDict "(ustr \<times> cvalue) list"
  | CObject "(ustr \<times> cvalue) list"

type_synonym cdict = "(ustr \<times> cvalue) list"

definition cget :: "cdict \<Rightarrow> string \<Rightarrow> cvalue" where
  "cget d k = (case map_of d (uc k) of None \<Rightarrow> CNone | Some v \<Rightarrow> v)"

definition cget_or :: "cdict \<Rightarrow> string \<Rightarrow> cvalue \<Rightarrow> cvalue" where
  "cget_or d k otherwise = (case map_of d (uc k) of None \<Rightarrow> otherwise | Some v \<Rightarrow> v)"

fun truthy :: "cvalue \<Rightarrow> bool" where
  "truthy CNone = False"
| "truthy (CBool b) = b"
| "truthy (CInt i) = (i \<noteq> 0)"
| "truthy (CFloat x) = (x \<noteq> Finite 0)"
| "truthy (CText s) = (s \<noteq> [])"
| "truthy (CList vs) = (vs \<noteq> [])"
| "truthy (CDict d) = (d \<noteq> [])"
| "truthy (CObject d) = True"

definition type_error :: py_error where
  "type_error = ExternalError ''TypeError''"

text \<open>\<open>float(v)\<close> and \<open>int(v)\<close>\<close>

definition cfloat :: "(ustr \<Rightarrow> xfloat option) \<Rightarrow> cvalue \<Rightarrow> xfloat res" where
  "cfloat read v =
     (case v of
        CFloat x \<Rightarrow> Inr x
      | CInt i \<Rightarrow> rbind (float_of_int i) (\<lambda>x. Inr (Finite x))
      | CBool b \<Rightarrow> Inr (Finite (if b then 1 else 0))
      | CText s \<Rightarrow> (case read s of
          None \<Rightarrow> Inl (ValueError ''could not convert string to float'') | Some x \<Rightarrow> Inr x)
      | _ \<Rightarrow> Inl type_error)"

definition truncated :: "xfloat \<Rightarrow> int res" where
  "truncated x =
     (case x of
        Finite y \<Rightarrow> Inr (if y < 0 then \<lceil>y\<rceil> else \<lfloor>y\<rfloor>)
      | Infinite _ \<Rightarrow> Inl OverflowError
      | NotANumber \<Rightarrow> Inl (ValueError ''cannot convert float NaN to integer''))"

definition cint :: "unidb \<Rightarrow> cvalue \<Rightarrow> int res" where
  "cint db v =
     (case v of
        CInt i \<Rightarrow> Inr i
      | CBool b \<Rightarrow> Inr (if b then 1 else 0)
      | CFloat x \<Rightarrow> truncated x
      | CText s \<Rightarrow> (case py_int10 db s of
          None \<Rightarrow> Inl (ValueError ''invalid literal for int() with base 10'') | Some i \<Rightarrow> Inr i)
      | _ \<Rightarrow> Inl type_error)"

subsection \<open>Embeddings\<close>

fun finite_values :: "xfloat list \<Rightarrow> pyfloat list option" where
  "finite_values [] = Some []"
| "finite_values (Finite x # xs) = (case finite_values xs of None \<Rightarrow> None | Some ys \<Rightarrow> Some (x # ys))"
| "finite_values (_ # xs) = None"

definition unit_vector :: "(pyfloat \<Rightarrow> pyfloat) \<Rightarrow> xfloat list \<Rightarrow> int \<Rightarrow> pyfloat list res" where
  "unit_vector square_root values dimensions =
     rbind (raise_if (int (length values) \<noteq> dimensions)
       (ValueError ''embedding provider returned unexpected dimensions'')) (\<lambda>_.
     case finite_values values of
       None \<Rightarrow> Inl (ValueError ''embedding provider returned a non-finite value'')
     | Some xs \<Rightarrow>
         let magnitude = square_root (py_sum (map (\<lambda>x. fmul x x) xs))
         in Inr (if magnitude = 0 then map (\<lambda>_. 0) xs else map (\<lambda>x. fdiv x magnitude) xs))"

record 'd embedder =
  em_model_id :: ustr
  em_dimensions :: int
  em_embed :: "ustr \<Rightarrow> ('d, pyfloat list) prog"

record hash_tables =
  ht_db :: unidb
  ht_word :: "nat \<Rightarrow> bool"
  ht_blake :: "ustr \<Rightarrow> nat list"
  ht_root :: "pyfloat \<Rightarrow> pyfloat"

definition check_dimensions :: "int \<Rightarrow> unit res" where
  "check_dimensions n =
     raise_if (\<not> (32 \<le> n \<and> n \<le> 32768)) (ValueError ''embedding dimensions must be in [32, 32768]'')"

text \<open>The maximal runs of word characters, and the other characters of the range one by one.\<close>

fun token_runs :: "(nat \<Rightarrow> bool) \<Rightarrow> ustr \<Rightarrow> ustr \<Rightarrow> ustr list" where
  "token_runs w cur [] = (if cur = [] then [] else [cur])"
| "token_runs w cur (c # cs) =
     (if w c then token_runs w (cur @ [c]) cs
      else (if cur = [] then [] else [cur]) @ (if 0x3400 \<le> c \<and> c \<le> 0x9fff then [[c]] else []) @
        token_runs w [] cs)"

fun adjacent_pairs :: "ustr list \<Rightarrow> ustr list" where
  "adjacent_pairs (x # y # ys) = (x @ [0x1f] @ y) # adjacent_pairs (y # ys)"
| "adjacent_pairs _ = []"

definition hash_features :: "hash_tables \<Rightarrow> ustr \<Rightarrow> ustr list" where
  "hash_features T normalized =
     (let toks = token_runs (ht_word T) [] normalized; features = toks @ adjacent_pairs toks
      in if features = [] then [normalized] else features)"

definition add_feature :: "hash_tables \<Rightarrow> int \<Rightarrow> ustr \<Rightarrow> pyfloat list \<Rightarrow> pyfloat list" where
  "add_feature T n feature vector =
     (let digest = ht_blake T feature;
          bucket = foldl (\<lambda>m b. 256 * m + b) 0 (take 8 digest) mod nat n;
          sgn = (if odd (digest ! 8) then 1 else - 1)
      in vector[bucket := fadd (vector ! bucket) sgn])"

definition hash_vector :: "hash_tables \<Rightarrow> int \<Rightarrow> ustr \<Rightarrow> pyfloat list" where
  "hash_vector T n normalized = fold (add_feature T n) (hash_features T normalized) (replicate (nat n) 0)"

definition hash_embed :: "hash_tables \<Rightarrow> int \<Rightarrow> ustr \<Rightarrow> pyfloat list res" where
  "hash_embed T n s =
     rbind (require_text s ''embedding text'') (\<lambda>stripped.
     unit_vector (ht_root T) (map Finite (hash_vector T n (lower (ht_db T) stripped))) n)"

definition hashing_embedder :: "hash_tables \<Rightarrow> int \<Rightarrow> 'd embedder res" where
  "hashing_embedder T n =
     rbind (check_dimensions n) (\<lambda>_.
     Inr \<lparr>em_model_id = uc ''hash-blake2b-v1-'' @ int_str n, em_dimensions = n,
       em_embed = (\<lambda>s. lift_res (hash_embed T n s))\<rparr>)"

text \<open>
  The service behind the other embedder answers a request (the text, the model and the dimensions) with a decoded
  document; its failures and documents of another form are runtime errors.
\<close>

definition provider_failures :: "string set" where
  "provider_failures = {''HTTPError'', ''URLError'', ''TimeoutError'', ''JSONDecodeError''}"

definition provider_values :: "(ustr \<Rightarrow> xfloat option) \<Rightarrow> cvalue \<Rightarrow> xfloat list res" where
  "provider_values read body =
     (let invalid = RuntimeError ''embedding provider response is invalid'' in
      case body of
        CDict d \<Rightarrow>
          (case map_of d (uc ''data'') of
             Some (CList (CDict first # _)) \<Rightarrow>
               (case map_of first (uc ''embedding'') of
                  Some (CList vs) \<Rightarrow>
                    (case rmap (cfloat read) vs of
                       Inl OverflowError \<Rightarrow> Inl OverflowError
                     | Inl _ \<Rightarrow> Inl invalid
                     | Inr xs \<Rightarrow> Inr xs)
                | Some (CDict e) \<Rightarrow>
                    (case rmap (cfloat read) (map (CText \<circ> fst) e) of Inl _ \<Rightarrow> Inl invalid | Inr xs \<Rightarrow> Inr xs)
                | Some (CText s) \<Rightarrow>
                    (case rmap (cfloat read) (map (\<lambda>c. CText [c]) s) of Inl _ \<Rightarrow> Inl invalid | Inr xs \<Rightarrow> Inr xs)
                | _ \<Rightarrow> Inl invalid)
           | _ \<Rightarrow> Inl invalid)
      | _ \<Rightarrow> Inl invalid)"

definition provider_embed ::
  "(ustr \<Rightarrow> xfloat option) \<Rightarrow> (pyfloat \<Rightarrow> pyfloat) \<Rightarrow> (ustr \<Rightarrow> ustr \<Rightarrow> int \<Rightarrow> ('d, cvalue) prog) \<Rightarrow> ustr \<Rightarrow> int \<Rightarrow> ustr \<Rightarrow>
   ('d, pyfloat list) prog" where
  "provider_embed read square_root post model n s =
     pbind (lift_res (require_text s ''embedding text'')) (\<lambda>input.
     pbind (catch (post input model n) (\<lambda>e.
       throw (if error_name e \<in> provider_failures then RuntimeError ''embedding provider request failed'' else e))) (\<lambda>body.
     lift_res (rbind (provider_values read body) (\<lambda>xs. unit_vector square_root xs n))))"

definition provider_embedder ::
  "(ustr \<Rightarrow> xfloat option) \<Rightarrow> (pyfloat \<Rightarrow> pyfloat) \<Rightarrow> (ustr \<Rightarrow> ustr \<Rightarrow> int \<Rightarrow> ('d, cvalue) prog) \<Rightarrow> ustr \<Rightarrow> int \<Rightarrow> pyfloat \<Rightarrow>
   'd embedder res" where
  "provider_embedder read square_root post model n timeout =
     rbind (check_dimensions n) (\<lambda>_.
     rbind (raise_if (timeout \<le> 0) (ValueError ''embedding timeout must be positive'')) (\<lambda>_.
     rbind (require_text model ''embedding model'') (\<lambda>model'.
     Inr \<lparr>em_model_id = model', em_dimensions = n, em_embed = provider_embed read square_root post model' n\<rparr>)))"

subsection \<open>The rows and the collection\<close>

record index_row =
  ix_projection_id :: ustr
  ix_tenant_hash :: ustr
  ix_subject_hash :: ustr
  ix_record_id :: ustr
  ix_revision_id :: ustr
  ix_source_event_id :: ustr
  ix_valid_from_us :: int
  ix_recorded_at_us :: int
  ix_model_hash :: ustr
  ix_source_hash :: ustr
  ix_dense_vector :: "pyfloat list"

datatype milvus_type = VARCHAR | INT64 | FLOAT_VECTOR

record field_schema =
  fs_name :: ustr
  fs_type :: milvus_type
  fs_primary :: bool
  fs_max_length :: "int option"
  fs_dim :: "int option"

definition varchar :: "string \<Rightarrow> bool \<Rightarrow> int \<Rightarrow> field_schema" where
  "varchar name primary n = \<lparr>fs_name = uc name, fs_type = VARCHAR, fs_primary = primary, fs_max_length = Some n,
     fs_dim = None\<rparr>"

definition int64_field :: "string \<Rightarrow> field_schema" where
  "int64_field name = \<lparr>fs_name = uc name, fs_type = INT64, fs_primary = False, fs_max_length = None, fs_dim = None\<rparr>"

definition collection_fields :: "int \<Rightarrow> field_schema list" where
  "collection_fields dimensions =
     [varchar ''projection_id'' True 64, varchar ''tenant_hash'' False 64, varchar ''subject_hash'' False 64] @
     map (\<lambda>name. varchar name False 36) [''record_id'', ''revision_id'', ''source_event_id''] @
     map int64_field [''valid_from_us'', ''recorded_at_us''] @
     map (\<lambda>name. varchar name False 64) [''model_hash'', ''source_hash''] @
     [\<lparr>fs_name = uc ''dense_vector'', fs_type = FLOAT_VECTOR, fs_primary = False, fs_max_length = None,
        fs_dim = Some dimensions\<rparr>]"

definition expected_types :: "(string \<times> milvus_type) list" where
  "expected_types =
     [(''projection_id'', VARCHAR), (''tenant_hash'', VARCHAR), (''subject_hash'', VARCHAR), (''record_id'', VARCHAR),
      (''revision_id'', VARCHAR), (''source_event_id'', VARCHAR), (''valid_from_us'', INT64),
      (''recorded_at_us'', INT64), (''model_hash'', VARCHAR), (''source_hash'', VARCHAR),
      (''dense_vector'', FLOAT_VECTOR)]"

subsection \<open>The client and the projection\<close>

text \<open>
  The methods of the client that are called.  \<open>cl_has_type v t\<close> is \<open>v == DataType.t\<close>.  A collection is created with
  its partition key, its fields, and a cosine index on the vectors.
\<close>

record 'd milvus_client =
  cl_connect :: "('d, unit) prog"
  cl_data_types :: "('d, unit) prog"
  cl_has_type :: "cvalue \<Rightarrow> milvus_type \<Rightarrow> bool"
  cl_has_collection :: "ustr \<Rightarrow> ('d, bool) prog"
  cl_describe_collection :: "ustr \<Rightarrow> ('d, cdict) prog"
  cl_create_collection :: "ustr \<Rightarrow> string \<Rightarrow> field_schema list \<Rightarrow> ustr \<Rightarrow> ('d, unit) prog"
  cl_load_collection :: "ustr \<Rightarrow> ('d, unit) prog"
  cl_drop_collection :: "ustr \<Rightarrow> ('d, unit) prog"
  cl_list_collections :: "('d, unit) prog"
  cl_upsert :: "ustr \<Rightarrow> index_row \<Rightarrow> ('d, unit) prog"
  cl_search :: "ustr \<Rightarrow> pyfloat list \<Rightarrow> ustr \<Rightarrow> int \<Rightarrow> ustr \<Rightarrow> ('d, cvalue) prog"
  cl_delete :: "ustr \<Rightarrow> ustr \<Rightarrow> ('d, cvalue) prog"
  cl_close :: "('d, unit) prog"

record 'd milvus =
  mx_collection :: ustr
  mx_embedder :: "'d embedder"
  mx_consistency :: ustr
  mx_min_similarity :: pyfloat
  mx_client :: "'d milvus_client"
  mx_float :: "ustr \<Rightarrow> xfloat option"
  mx_sha :: "ustr \<Rightarrow> ustr"
  mx_db :: unidb

definition mk_milvus :: "pyfloat \<Rightarrow> 'd milvus \<Rightarrow> 'd milvus res" where
  "mk_milvus timeout M =
     rbind (raise_if (timeout \<le> 0) (ValueError ''Milvus timeout must be positive'')) (\<lambda>_.
     rbind (raise_if (\<not> (0 \<le> mx_min_similarity M \<and> mx_min_similarity M \<le> 1))
       (ValueError ''Milvus minimum similarity must be between 0 and 1'')) (\<lambda>_.
     rbind (raise_if (mx_consistency M \<notin> {uc ''Strong'', uc ''Bounded'', uc ''Eventually'', uc ''Session''})
       (ValueError ''unsupported Milvus consistency level'')) (\<lambda>_.
     Inr M)))"

record 'd milvus_state =
  ms_connected :: bool
  ms_ready :: bool
  ms_backend :: 'd

definition on_client :: "('d, 'a) prog \<Rightarrow> ('d milvus_state, 'a) prog" where
  "on_client m = (\<lambda>s. case m (ms_backend s) of (r, d) \<Rightarrow> (r, s\<lparr>ms_backend := d\<rparr>))"

definition connect :: "'d milvus \<Rightarrow> ('d milvus_state, unit) prog" where
  "connect M =
     pbind (gets ms_connected) (\<lambda>connected.
     if connected then return ()
     else pbind (on_client (cl_connect (mx_client M))) (\<lambda>_. modify (ms_connected_update (\<lambda>_. True))))"

definition close_milvus :: "'d milvus \<Rightarrow> ('d milvus_state, unit) prog" where
  "close_milvus M =
     pbind (gets ms_connected) (\<lambda>connected.
     pbind (modify (\<lambda>s. s\<lparr>ms_connected := False, ms_ready := False\<rparr>)) (\<lambda>_.
     if connected then on_client (cl_close (mx_client M)) else return ()))"

text \<open>The fields of the description by name, the last one of a name.\<close>

definition described_fields :: "cvalue list \<Rightarrow> (ustr, cdict) dict" where
  "described_fields raw = dict_of (List.map_filter (\<lambda>v. case v of
     CDict f \<Rightarrow> (case cget f ''name'' of CText name \<Rightarrow> Some (name, f) | _ \<Rightarrow> None) | _ \<Rightarrow> None) raw)"

definition field_named :: "(ustr, cdict) dict \<Rightarrow> string \<Rightarrow> cdict res" where
  "field_named fs name = (case map_of fs (uc name) of None \<Rightarrow> Inl KeyError | Some f \<Rightarrow> Inr f)"

definition has_expected_type :: "(cvalue \<Rightarrow> milvus_type \<Rightarrow> bool) \<Rightarrow> (ustr, cdict) dict \<Rightarrow> string \<times> milvus_type \<Rightarrow> bool" where
  "has_expected_type has_type fs expected =
     (case expected of (name, t) \<Rightarrow>
        has_type (cget (case map_of fs (uc name) of None \<Rightarrow> [] | Some f \<Rightarrow> f) ''type'') t)"

definition check_description :: "'d milvus \<Rightarrow> cdict \<Rightarrow> unit res" where
  "check_description M description =
     (case cget description ''fields'' of
        CList raw \<Rightarrow>
          let fs = described_fields raw in
          rbind (raise_if (\<not> list_all (has_expected_type (cl_has_type (mx_client M)) fs) expected_types)
            (RuntimeError ''Milvus collection schema is incompatible'')) (\<lambda>_.
          rbind (field_named fs ''dense_vector'') (\<lambda>vector.
          rbind (case cget vector ''params'' of
              CDict params \<Rightarrow> rbind (cint (mx_db M) (cget_or params ''dim'' (CInt 0))) (\<lambda>dim.
                raise_if (dim \<noteq> em_dimensions (mx_embedder M))
                  (RuntimeError ''Milvus collection dimensions are incompatible''))
            | _ \<Rightarrow> Inl (RuntimeError ''Milvus collection dimensions are incompatible'')) (\<lambda>_.
          rbind (field_named fs ''projection_id'') (\<lambda>primary.
          rbind (field_named fs ''tenant_hash'') (\<lambda>tenant.
          raise_if (\<not> truthy (cget primary ''is_primary'') \<or> \<not> truthy (cget tenant ''is_partition_key''))
            (RuntimeError ''Milvus collection key schema is incompatible''))))))
      | _ \<Rightarrow> Inl (RuntimeError ''Milvus collection schema is unavailable''))"

definition validate_collection :: "'d milvus \<Rightarrow> ('d milvus_state, unit) prog" where
  "validate_collection M =
     pbind (on_client (cl_data_types (mx_client M))) (\<lambda>_.
     pbind (on_client (cl_describe_collection (mx_client M) (mx_collection M))) (\<lambda>description.
     lift_res (check_description M description)))"

definition create_collection :: "'d milvus \<Rightarrow> ('d milvus_state, unit) prog" where
  "create_collection M =
     pbind (on_client (cl_data_types (mx_client M))) (\<lambda>_.
     on_client (cl_create_collection (mx_client M) (mx_collection M) ''tenant_hash''
       (collection_fields (em_dimensions (mx_embedder M))) (mx_consistency M)))"

definition ensure_collection :: "'d milvus \<Rightarrow> ('d milvus_state, unit) prog" where
  "ensure_collection M =
     pbind (gets ms_ready) (\<lambda>ready.
     if ready then return ()
     else
       pbind (on_client (cl_has_collection (mx_client M) (mx_collection M))) (\<lambda>present.
       pbind (if present then validate_collection M else create_collection M) (\<lambda>_.
       pbind (on_client (cl_load_collection (mx_client M) (mx_collection M))) (\<lambda>_.
       modify (ms_ready_update (\<lambda>_. True))))))"

definition milvus_ready :: "'d milvus \<Rightarrow> ('d milvus_state, bool) prog" where
  "milvus_ready M =
     catch
       (pbind (connect M) (\<lambda>_.
        pbind (ensure_collection M) (\<lambda>_.
        pbind (on_client (cl_list_collections (mx_client M))) (\<lambda>_.
        return True))))
       (\<lambda>e. return False)"

definition reset_milvus :: "'d milvus \<Rightarrow> ('d milvus_state, unit) prog" where
  "reset_milvus M =
     pbind (connect M) (\<lambda>_.
     pbind (on_client (cl_has_collection (mx_client M) (mx_collection M))) (\<lambda>present.
     pbind (if present then on_client (cl_drop_collection (mx_client M) (mx_collection M)) else return ()) (\<lambda>_.
     pbind (modify (ms_ready_update (\<lambda>_. False))) (\<lambda>_.
     ensure_collection M))))"

subsection \<open>Upserting\<close>

definition scope_hash :: "(ustr \<Rightarrow> ustr) \<Rightarrow> ustr \<Rightarrow> ustr" where
  "scope_hash sha s = sha s"

text \<open>\<open>t.timestamp()\<close> in seconds, back in microseconds.\<close>

definition timestamp :: "instant \<Rightarrow> pyfloat" where
  "timestamp t = rnd53 (of_int t / 1000000)"

definition epoch_microseconds :: "pyfloat \<Rightarrow> int" where
  "epoch_microseconds x = round_even (fmul x 1000000)"

definition model_hash :: "'d milvus \<Rightarrow> ustr" where
  "model_hash M = mx_sha M (em_model_id (mx_embedder M) @ uc '':'' @ int_str (em_dimensions (mx_embedder M)))"

definition projection_id :: "'d milvus \<Rightarrow> uuid \<Rightarrow> ustr" where
  "projection_id M revision = mx_sha M (uuid_str revision @ uc '':'' @ model_hash M)"

definition row_of :: "'d milvus \<Rightarrow> projection_document \<Rightarrow> pyfloat list \<Rightarrow> index_row" where
  "row_of M d vector =
     \<lparr>ix_projection_id = projection_id M (pd_revision_id d),
      ix_tenant_hash = scope_hash (mx_sha M) (tenant_id (pd_scope d)),
      ix_subject_hash = scope_hash (mx_sha M) (subject_id (pd_scope d)),
      ix_record_id = uuid_str (pd_record_id d), ix_revision_id = uuid_str (pd_revision_id d),
      ix_source_event_id = uuid_str (pd_source_event_id d),
      ix_valid_from_us = epoch_microseconds (timestamp (pd_valid_from d)),
      ix_recorded_at_us = epoch_microseconds (timestamp (pd_recorded_at d)),
      ix_model_hash = model_hash M, ix_source_hash = mx_sha M (search_text d), ix_dense_vector = vector\<rparr>"

definition upsert :: "'d milvus \<Rightarrow> projection_document \<Rightarrow> ('d milvus_state, unit) prog" where
  "upsert M d =
     pbind (connect M) (\<lambda>_.
     pbind (ensure_collection M) (\<lambda>_.
     pbind (on_client (em_embed (mx_embedder M) (search_text d))) (\<lambda>vector.
     on_client (cl_upsert (mx_client M) (mx_collection M) (row_of M d vector)))))"

subsection \<open>Searching and deleting\<close>

record search_filter =
  sf_tenant :: ustr
  sf_subject :: ustr
  sf_model :: ustr
  sf_valid_us :: int
  sf_known_us :: int

definition filter_for :: "'d milvus \<Rightarrow> scope \<Rightarrow> instant \<Rightarrow> instant \<Rightarrow> search_filter" where
  "filter_for M sc valid_at known_at =
     \<lparr>sf_tenant = scope_hash (mx_sha M) (tenant_id sc), sf_subject = scope_hash (mx_sha M) (subject_id sc),
      sf_model = model_hash M, sf_valid_us = epoch_microseconds (timestamp valid_at),
      sf_known_us = epoch_microseconds (timestamp known_at)\<rparr>"

definition quoted_equal :: "string \<Rightarrow> ustr \<Rightarrow> ustr" where
  "quoted_equal field v = uc field @ uc '' == '' @ [34] @ v @ [34]"

definition filter_text :: "search_filter \<Rightarrow> ustr" where
  "filter_text f =
     quoted_equal ''tenant_hash'' (sf_tenant f) @ uc '' and '' @ quoted_equal ''subject_hash'' (sf_subject f) @
     uc '' and '' @ quoted_equal ''model_hash'' (sf_model f) @ uc '' and valid_from_us <= '' @ int_str (sf_valid_us f) @
     uc '' and recorded_at_us <= '' @ int_str (sf_known_us f)"

text \<open>\<open>max(0.0, min(1.0, x))\<close>; every comparison with a NaN is false.\<close>

definition clamp_score :: "xfloat \<Rightarrow> pyfloat" where
  "clamp_score x =
     (case x of
        Finite y \<Rightarrow> max 0 (min 1 y)
      | Infinite positive \<Rightarrow> if positive then 1 else 0
      | NotANumber \<Rightarrow> 1)"

text \<open>One hit: a revision and a score, nothing for one of another form, or an error the loop does not handle.\<close>

definition read_hit :: "'d milvus \<Rightarrow> cvalue \<Rightarrow> (uuid \<times> pyfloat) option res" where
  "read_hit M raw =
     (case raw of
        CDict hit \<Rightarrow>
          (case cget hit ''entity'' of
             CDict entity \<Rightarrow>
               (case cget entity ''revision_id'' of
                  CText s \<Rightarrow>
                    (case parse_uuid (mx_db M) s of
                       None \<Rightarrow> Inr None
                     | Some i \<Rightarrow>
                         (case cfloat (mx_float M) (cget_or hit ''distance'' (CFloat (Finite 0))) of
                            Inr x \<Rightarrow> Inr (Some (i, clamp_score x))
                          | Inl OverflowError \<Rightarrow> Inl OverflowError
                          | Inl _ \<Rightarrow> Inr None))
                | _ \<Rightarrow> Inr None)
           | _ \<Rightarrow> Inr None)
      | _ \<Rightarrow> Inr None)"

fun hits_from :: "'d milvus \<Rightarrow> uuid list \<Rightarrow> cvalue list \<Rightarrow> projection_hit list res" where
  "hits_from M seen [] = Inr []"
| "hits_from M seen (raw # raws) =
     rbind (read_hit M raw) (\<lambda>hit.
     case hit of
       None \<Rightarrow> hits_from M seen raws
     | Some (i, score) \<Rightarrow>
         if score < mx_min_similarity M \<or> i \<in> set seen then hits_from M seen raws
         else
           rbind (mk_projection_hit i score) (\<lambda>h.
           rbind (hits_from M (i # seen) raws) (\<lambda>hs.
           Inr (h # hs))))"

definition search_hits :: "'d milvus \<Rightarrow> cvalue \<Rightarrow> projection_hit list res" where
  "search_hits M result =
     (case result of CList (CList raws # _) \<Rightarrow> hits_from M [] raws | _ \<Rightarrow> Inr [])"

definition search ::
  "'d milvus \<Rightarrow> scope \<Rightarrow> ustr \<Rightarrow> int \<Rightarrow> instant \<Rightarrow> instant \<Rightarrow> ('d milvus_state, projection_search_result) prog" where
  "search M sc query limit valid_at known_at =
     pbind (lift_res (raise_if (limit < 1) (ValueError ''projection search limit must be positive''))) (\<lambda>_.
     catch
       (pbind (connect M) (\<lambda>_.
        pbind (ensure_collection M) (\<lambda>_.
        pbind (on_client (em_embed (mx_embedder M) query)) (\<lambda>vector.
        pbind (on_client (cl_search (mx_client M) (mx_collection M) vector
          (filter_text (filter_for M sc valid_at known_at)) limit (mx_consistency M))) (\<lambda>result.
        pbind (lift_res (search_hits M result)) (\<lambda>hits.
        lift_res (mk_projection_search_result hits True None)))))))
       (\<lambda>e. lift_res (mk_projection_search_result [] False (Some (uc (error_name e))))))"

definition delete_count :: "cdict \<Rightarrow> int res" where
  "delete_count d =
     (case cget_or d ''delete_count'' (CInt 0) of
        CInt i \<Rightarrow> Inr i
      | CBool b \<Rightarrow> Inr (if b then 1 else 0)
      | CFloat x \<Rightarrow> truncated x
      | _ \<Rightarrow> Inr 0)"

definition deletion_text :: "'d milvus \<Rightarrow> scope \<Rightarrow> ustr" where
  "deletion_text M sc =
     quoted_equal ''tenant_hash'' (scope_hash (mx_sha M) (tenant_id sc)) @ uc '' and '' @
     quoted_equal ''subject_hash'' (scope_hash (mx_sha M) (subject_id sc))"

definition delete_scope :: "'d milvus \<Rightarrow> scope \<Rightarrow> ('d milvus_state, int) prog" where
  "delete_scope M sc =
     pbind (connect M) (\<lambda>_.
     pbind (ensure_collection M) (\<lambda>_.
     pbind (on_client (cl_delete (mx_client M) (mx_collection M) (deletion_text M sc))) (\<lambda>result.
     lift_res (case result of CDict d \<Rightarrow> delete_count d | CObject d \<Rightarrow> delete_count d | _ \<Rightarrow> Inr 0))))"

end
