(* ===== verification/VectorCorrect.thy ===== *)
theory VectorCorrect
  imports VectorIndex RecallTotal
begin

text \<open>
  What the vector index promises, whatever the database behind it answers: hits are distinct and scored in the unit
  interval, a search always returns, and the filter of a search selects the rows of the scope by their instants.
\<close>

section \<open>Filter expressions\<close>

text \<open>
  The filter expressions of the vector database, as far as the adapter uses them: comparisons of a field with a
  quoted text or an integer, joined by \<open>and\<close>.  The evaluator of the database is a parameter; what is relied
  on is its documented reading of these expressions (\<open>understands\<close>).  A small evaluator at the end shows that
  there is one that reads them so.
\<close>

subsection \<open>Expressions\<close>

datatype clause = TextEq ustr ustr | IntLe ustr int

fun clause_text :: "clause \<Rightarrow> ustr" where
  "clause_text (TextEq field v) = field @ [32, 61, 61, 32, 34] @ v @ [34]"
| "clause_text (IntLe field n) = field @ [32, 60, 61, 32] @ int_str n"

text \<open>The expression of several clauses, which \<open>and\<close> separates.\<close>

definition expression :: "clause list \<Rightarrow> ustr" where
  "expression cs = join (uc '' and '') (map clause_text cs)"

definition text_field :: "index_row \<Rightarrow> ustr \<Rightarrow> ustr option" where
  "text_field row = map_of [(uc ''tenant_hash'', ix_tenant_hash row), (uc ''subject_hash'', ix_subject_hash row),
     (uc ''model_hash'', ix_model_hash row)]"

definition int_field :: "index_row \<Rightarrow> ustr \<Rightarrow> int option" where
  "int_field row = map_of [(uc ''valid_from_us'', ix_valid_from_us row), (uc ''recorded_at_us'', ix_recorded_at_us row)]"

fun clause_holds :: "index_row \<Rightarrow> clause \<Rightarrow> bool" where
  "clause_holds row (TextEq field v) \<longleftrightarrow> text_field row field = Some v"
| "clause_holds row (IntLe field n) \<longleftrightarrow> (case int_field row field of None \<Rightarrow> False | Some m \<Rightarrow> m \<le> n)"

text \<open>A text between quotes stands for itself when it has neither quotes nor escapes, as a hex digest.\<close>

definition hex_digest :: "ustr \<Rightarrow> bool" where
  "hex_digest v \<longleftrightarrow> list_all (\<lambda>c. (48 \<le> c \<and> c \<le> 57) \<or> (97 \<le> c \<and> c \<le> 102)) v"

fun clause_ok :: "clause \<Rightarrow> bool" where
  "clause_ok (TextEq field v) \<longleftrightarrow>
     field \<in> {uc ''tenant_hash'', uc ''subject_hash'', uc ''model_hash''} \<and> hex_digest v"
| "clause_ok (IntLe field n) \<longleftrightarrow> field \<in> {uc ''valid_from_us'', uc ''recorded_at_us''}"

text \<open>
  The documented meaning of a filter: \<open>field == "text"\<close> and \<open>field <= integer\<close> compare the field of the row,
  and \<open>and\<close> is conjunction.
\<close>

definition understands :: "(ustr \<Rightarrow> index_row \<Rightarrow> bool) \<Rightarrow> bool" where
  "understands admits \<longleftrightarrow> (\<forall>cs row. cs \<noteq> [] \<and> list_all clause_ok cs \<longrightarrow>
     (admits (expression cs) row \<longleftrightarrow> list_all (clause_holds row) cs))"

text \<open>What the adapter writes is such an expression.\<close>

lemma filter_text_expression:
  "filter_text f = expression [TextEq (uc ''tenant_hash'') (sf_tenant f), TextEq (uc ''subject_hash'') (sf_subject f),
     TextEq (uc ''model_hash'') (sf_model f), IntLe (uc ''valid_from_us'') (sf_valid_us f),
     IntLe (uc ''recorded_at_us'') (sf_known_us f)]"
  by (simp add: filter_text_def expression_def quoted_equal_def)

lemma deletion_text_expression:
  "deletion_text M sc = expression [TextEq (uc ''tenant_hash'') (scope_hash (mx_sha M) (tenant_id sc)),
     TextEq (uc ''subject_hash'') (scope_hash (mx_sha M) (subject_id sc))]"
  by (simp add: deletion_text_def expression_def quoted_equal_def)

lemma filter_understood:
  assumes "understands admits" "\<forall>x. hex_digest (mx_sha M x)"
  shows "admits (filter_text (filter_for M sc va ka)) row \<longleftrightarrow>
      ix_tenant_hash row = scope_hash (mx_sha M) (tenant_id sc) \<and>
      ix_subject_hash row = scope_hash (mx_sha M) (subject_id sc) \<and> ix_model_hash row = model_hash M \<and>
      ix_valid_from_us row \<le> epoch_microseconds (timestamp va) \<and>
      ix_recorded_at_us row \<le> epoch_microseconds (timestamp ka)"
    and "admits (deletion_text M sc) row \<longleftrightarrow>
      ix_tenant_hash row = scope_hash (mx_sha M) (tenant_id sc) \<and>
      ix_subject_hash row = scope_hash (mx_sha M) (subject_id sc)"
proof -
  have read: "admits (expression cs) row \<longleftrightarrow> list_all (clause_holds row) cs" if "cs \<noteq> []" "list_all clause_ok cs" for cs
    using assms(1) that unfolding understands_def by blast
  show "admits (filter_text (filter_for M sc va ka)) row \<longleftrightarrow>
      ix_tenant_hash row = scope_hash (mx_sha M) (tenant_id sc) \<and>
      ix_subject_hash row = scope_hash (mx_sha M) (subject_id sc) \<and> ix_model_hash row = model_hash M \<and>
      ix_valid_from_us row \<le> epoch_microseconds (timestamp va) \<and>
      ix_recorded_at_us row \<le> epoch_microseconds (timestamp ka)"
    unfolding filter_text_expression
    by (subst read)
       (use assms(2) in \<open>simp_all add: filter_for_def scope_hash_def model_hash_def text_field_def int_field_def\<close>)
  show "admits (deletion_text M sc) row \<longleftrightarrow>
      ix_tenant_hash row = scope_hash (mx_sha M) (tenant_id sc) \<and>
      ix_subject_hash row = scope_hash (mx_sha M) (subject_id sc)"
    unfolding deletion_text_expression
    by (subst read) (use assms(2) in \<open>simp_all add: scope_hash_def text_field_def\<close>)
qed

subsection \<open>An evaluator\<close>

text \<open>A decimal number read back.\<close>

definition read_digits :: "ustr \<Rightarrow> nat" where
  "read_digits s = foldl (\<lambda>n c. 10 * n + (c - 48)) 0 s"

definition read_int :: "ustr \<Rightarrow> int" where
  "read_int s = (case s of c # r \<Rightarrow> if c = 45 then - int (read_digits r) else int (read_digits s) | [] \<Rightarrow> 0)"

definition up_to :: "nat \<Rightarrow> ustr \<Rightarrow> ustr \<times> ustr" where
  "up_to c s = (takeWhile (\<lambda>x. x \<noteq> c) s, dropWhile (\<lambda>x. x \<noteq> c) s)"

definition read_clause :: "ustr \<Rightarrow> (clause \<times> ustr) option" where
  "read_clause s =
     (case up_to 32 s of (field, r) \<Rightarrow>
       if take 5 r = [32, 61, 61, 32, 34]
       then (case up_to 34 (drop 5 r) of (v, r') \<Rightarrow> Some (TextEq field v, drop 1 r'))
       else if take 4 r = [32, 60, 61, 32]
       then (case up_to 32 (drop 4 r) of (n, r') \<Rightarrow> Some (IntLe field (read_int n), r'))
       else None)"

fun read_clauses :: "nat \<Rightarrow> ustr \<Rightarrow> clause list option" where
  "read_clauses 0 s = None"
| "read_clauses (Suc n) s =
     (case read_clause s of
        None \<Rightarrow> None
      | Some (c, r) \<Rightarrow>
          if r = [] then Some [c]
          else if take 5 r = uc '' and '' then map_option (Cons c) (read_clauses n (drop 5 r))
          else None)"

definition evaluate_filter :: "ustr \<Rightarrow> index_row \<Rightarrow> bool" where
  "evaluate_filter s row =
     (case read_clauses (length s) s of None \<Rightarrow> False | Some cs \<Rightarrow> list_all (clause_holds row) cs)"

lemma read_digits_dec: "read_digits (dec_digits n) = n"
proof (induction n rule: dec_digits.induct)
  case (1 n)
  then show ?case by (subst dec_digits.simps) (simp add: read_digits_def)
qed

lemma dec_digits_range: "c \<in> set (dec_digits n) \<Longrightarrow> 48 \<le> c \<and> c \<le> 57"
proof (induction n rule: dec_digits.induct)
  case (1 n)
  have "48 + n mod 10 \<le> 57" using mod_less_divisor [of 10 n] by linarith
  then show ?case using 1 by (subst (asm) (2) dec_digits.simps) (auto split: if_splits)
qed

lemma dec_digits_hd: "dec_digits n = c # r \<Longrightarrow> c \<noteq> 45"
  using dec_digits_range [of c n] by auto

lemma dec_digits_nonempty: "dec_digits n \<noteq> []"
  by (subst dec_digits.simps) simp

lemma read_int_str: "read_int (int_str i) = i"
proof (cases "i < 0")
  case False
  obtain c r where d: "dec_digits (nat i) = c # r" using dec_digits_nonempty by (cases "dec_digits (nat i)") auto
  then show ?thesis
    using False dec_digits_hd [OF d] read_digits_dec [of "nat i"] by (simp add: int_str_def read_int_def)
qed (simp add: int_str_def read_int_def read_digits_dec)

lemma up_to_append: "\<forall>x \<in> set s. x \<noteq> c \<Longrightarrow> r = [] \<or> hd r = c \<Longrightarrow> up_to c (s @ r) = (s, r)"
  by (cases r) (auto simp: up_to_def takeWhile_append dropWhile_append)

lemma int_str_spaceless: "\<forall>x \<in> set (int_str n). x \<noteq> 32"
  by (auto simp: int_str_def dest: dec_digits_range)

lemma read_clause_text:
  assumes "clause_ok c" "r = [] \<or> hd r = 32"
  shows "read_clause (clause_text c @ r) = Some (c, r)"
proof (cases c)
  case (TextEq field v)
  have "\<forall>x \<in> set field. x \<noteq> 32" using assms(1) TextEq by auto
  moreover have "\<forall>x \<in> set v. x \<noteq> 34" using assms(1) TextEq by (auto simp: hex_digest_def list_all_iff)
  ultimately show ?thesis
    using up_to_append [of field 32 "[32, 61, 61, 32, 34] @ v @ [34] @ r"] up_to_append [of v 34 "34 # r"]
    by (simp add: read_clause_def TextEq)
next
  case (IntLe field n)
  have "\<forall>x \<in> set field. x \<noteq> 32" using assms(1) IntLe by auto
  then show ?thesis
    using up_to_append [of field 32 "[32, 60, 61, 32] @ int_str n @ r"] up_to_append [OF int_str_spaceless assms(2), of n]
    by (simp add: read_clause_def IntLe read_int_str)
qed

lemma read_expression:
  "cs \<noteq> [] \<Longrightarrow> list_all clause_ok cs \<Longrightarrow> length cs \<le> n \<Longrightarrow> read_clauses n (expression cs) = Some cs"
proof (induction cs arbitrary: n)
  case (Cons c cs)
  then obtain m where n: "n = Suc m" by (cases n) auto
  show ?case
  proof (cases cs)
    case Nil
    then show ?thesis using read_clause_text [of c "[]"] Cons.prems(2) n by (simp add: expression_def)
  next
    case (Cons d ds)
    have "expression (c # cs) = clause_text c @ uc '' and '' @ expression cs" by (simp add: expression_def Cons)
    then show ?thesis
      using read_clause_text [of c "uc '' and '' @ expression cs"] Cons.IH [of m] Cons.prems n Cons by simp
  qed
qed simp

lemma expression_length: "length cs \<le> length (expression cs)"
proof (induction cs rule: induct_list012)
  case (2 c)
  then show ?case by (cases c) (simp_all add: expression_def)
next
  case (3 c d cs)
  then show ?case by (simp add: expression_def)
qed simp

lemma evaluator_understands: "understands evaluate_filter"
  unfolding understands_def evaluate_filter_def
  by (auto simp: read_expression expression_length)

section \<open>The index\<close>

subsection \<open>Hits\<close>

definition hits_ok :: "'d milvus \<Rightarrow> projection_hit list \<Rightarrow> bool" where
  "hits_ok M hs \<longleftrightarrow> distinct (map ph_revision_id hs) \<and>
     list_all (\<lambda>h. in_unit (ph_score h) \<and> mx_min_similarity M \<le> ph_score h) hs"

lemma clamp_unit: "in_unit (clamp_score x)"
  by (cases x) (auto simp: clamp_score_def in_unit_def)

lemma read_hit_unit: "read_hit M raw = Inr (Some (i, x)) \<Longrightarrow> in_unit x"
  by (auto simp: read_hit_def clamp_unit split: cvalue.splits option.splits sum.splits py_error.splits)

lemma hits_from_ok:
  "hits_from M seen raws = Inr hs \<Longrightarrow> hits_ok M hs \<and> ph_revision_id ` set hs \<inter> set seen = {}"
proof (induction raws arbitrary: seen hs)
  case Nil
  then show ?case by (simp add: hits_ok_def)
next
  case (Cons raw raws)
  obtain hit where hit: "read_hit M raw = Inr hit" using Cons.prems by (auto simp: res_simps)
  show ?case
  proof (cases hit)
    case None
    then show ?thesis using Cons hit by simp
  next
    case (Some p)
    obtain i x where p: "p = (i, x)" by force
    show ?thesis
    proof (cases "x < mx_min_similarity M \<or> i \<in> set seen")
      case True
      then show ?thesis using Cons hit Some p by simp
    next
      case False
      then obtain hs' where "hs = \<lparr>ph_revision_id = i, ph_score = x\<rparr> # hs'" "hits_from M (i # seen) raws = Inr hs'"
        using Cons.prems hit Some p by (auto simp: res_simps mk_projection_hit_def)
      moreover have "in_unit x" using hit Some p by (auto intro: read_hit_unit)
      ultimately show ?thesis using Cons.IH [of "i # seen" hs'] False by (auto simp: hits_ok_def)
    qed
  qed
qed

lemma search_hits_ok: "search_hits M result = Inr hs \<Longrightarrow> hits_ok M hs"
  by (auto simp: search_hits_def hits_ok_def dest: hits_from_ok [unfolded hits_ok_def] split: cvalue.splits list.splits)

subsection \<open>Searching\<close>

lemma search_returns:
  assumes "1 \<le> limit"
  shows "\<exists>r s'. search M sc q limit va ka s = (Inr r, s') \<and> hits_ok M (ps_hits r) \<and>
    (ps_available r \<longleftrightarrow> ps_reason r = None) \<and> (ps_available r \<or> ps_hits r = [])"
proof -
  let ?body = "pbind (connect M) (\<lambda>_. pbind (ensure_collection M) (\<lambda>_.
        pbind (on_client (em_embed (mx_embedder M) q)) (\<lambda>vector.
        pbind (on_client (cl_search (mx_client M) (mx_collection M) vector
          (filter_text (filter_for M sc va ka)) limit (mx_consistency M))) (\<lambda>result.
        pbind (lift_res (search_hits M result)) (\<lambda>hits.
        lift_res (mk_projection_search_result hits True None))))))"
  have run: "search M sc q limit va ka s = catch ?body
      (\<lambda>e. lift_res (mk_projection_search_result [] False (Some (uc (error_name e))))) s"
    using assms by (simp add: search_def raise_if_def)
  show ?thesis
  proof (cases "?body s")
    case (Pair x t)
    show ?thesis
    proof (cases x)
      case (Inl e)
      then show ?thesis unfolding run catch_def Pair
        by (simp add: mk_projection_search_result_def raise_if_def hits_ok_def)
    next
      case (Inr r)
      then obtain result hs where "search_hits M result = Inr hs" "r = \<lparr>ps_hits = hs, ps_available = True, ps_reason = None\<rparr>"
        using Pair by (auto simp: pbind_def mk_projection_search_result_def raise_if_def split: prod.splits sum.splits)
      then show ?thesis unfolding run catch_def Pair Inr using search_hits_ok by simp
    qed
  qed
qed

lemma milvus_ready_answers: "\<exists>b s'. milvus_ready M s = (Inr b, s')"
  by (auto simp: milvus_ready_def catch_def split: prod.split sum.split)

text \<open>
  The index behind the port of the service: the operations run on the state of the client and its database at
  the moment of the call, which anything may have changed since the last one.
\<close>

definition index_projection :: "'d milvus \<Rightarrow> (nat \<Rightarrow> 'd milvus_state) \<Rightarrow> recall_projection" where
  "index_projection M st =
     \<lparr>rp_search = (\<lambda>n sc q k v t. fst (search M sc q k v t (st n))),
      rp_ready = (\<lambda>n. fst (milvus_ready M (st n)) = Inr True),
      rp_delete_scope = (\<lambda>n sc. fst (delete_scope M sc (st n)))\<rparr>"

lemma index_answers:
  assumes "sv_projection sv = Some (index_projection M st)" "1 \<le> k"
  shows "answers_at sv k"
  unfolding answers_at_def
proof (intro allI impI)
  fix p n sc q v t assume "sv_projection sv = Some p"
  then have p: "p = index_projection M st" using assms(1) by simp
  obtain r s' where "search M sc q k v t (st n) = (Inr r, s')" "hits_ok M (ps_hits r)"
    using search_returns [OF assms(2)] by blast
  then show "\<exists>r. rp_search p n sc q k v t = Inr r \<and> list_all (\<lambda>h. in_unit (ph_score h)) (ps_hits r)"
    unfolding p by (auto simp: index_projection_def hits_ok_def list_all_iff)
qed

subsection \<open>Instants in the index\<close>

lemma rnd53_error_below:
  assumes "\<bar>x\<bar> < 2 powi k" "- 1000 \<le> k"
  shows "\<bar>rnd53 x - x\<bar> \<le> 2 powi (k - 54)"
proof (cases "x = 0")
  case False
  have "(2::rat) powi ilog2 x < 2 powi k" using ilog2_bounds [OF False] assms(1) by simp
  then have "float_exp x \<le> k - 53" using assms(2) unfolding powi_2_less by (simp add: float_exp_def)
  then have "(2::rat) powi float_exp x \<le> 2 powi (k - 53)" by (rule powi_2_mono)
  moreover have "(2::rat) powi (k - 53) = 2 * 2 powi (k - 54)" using power_int_add [of "2::rat" 1 "k - 54"] by simp
  ultimately show ?thesis using rnd53_error [of x] by simp
qed simp

lemma round_even_nearest: "\<bar>x - of_int n\<bar> < 1/2 \<Longrightarrow> round_even x = n"
proof -
  assume "\<bar>x - of_int n\<bar> < 1/2"
  with round_even_near [of x] have "\<bar>of_int (round_even x) - of_int n\<bar> < (1::rat)" by linarith
  then have "\<bar>round_even x - n\<bar> < 1" by linarith
  then show ?thesis by simp
qed

text \<open>The instants before February 2106 (and after November 1833) survive the way through seconds in a float.\<close>

definition indexable :: "instant \<Rightarrow> bool" where
  "indexable t \<longleftrightarrow> \<bar>t\<bar> < 2 ^ 32 * 1000000"

lemma epoch_microseconds_exact:
  assumes "indexable t"
  shows "epoch_microseconds (timestamp t) = t"
proof -
  let ?y = "of_int t / 1000000 :: rat" and ?z = "timestamp t * 1000000"
  have t: "\<bar>of_int t\<bar> < (2 ^ 32 * 1000000 :: rat)" 
  proof -
    have "of_int \<bar>t\<bar> < (of_int (2 ^ 32 * 1000000) :: rat)" using assms unfolding indexable_def of_int_less_iff .
    then show ?thesis by simp
  qed
  then have "\<bar>?y\<bar> < 2 powi 32" by (simp add: abs_divide field_simps)
  then have "\<bar>timestamp t - ?y\<bar> \<le> 2 powi (32 - 54)" unfolding timestamp_def by (rule rnd53_error_below) simp
  then have y: "\<bar>timestamp t - ?y\<bar> \<le> 1 / 4194304" by (simp add: power_int_def inverse_eq_divide power_divide)
  then have z: "\<bar>?z - of_int t\<bar> \<le> 1000000 / 4194304" by (simp add: abs_le_iff field_simps)
  have "\<bar>of_int t\<bar> < (4294967296000000 :: rat)" using t by simp
  with z have "\<bar>?z\<bar> < 4503599627370496" by linarith
  then have "\<bar>?z\<bar> < 2 powi 52" by simp
  then have "\<bar>rnd53 ?z - ?z\<bar> \<le> 2 powi (52 - 54)" by (rule rnd53_error_below) simp
  then have "\<bar>rnd53 ?z - ?z\<bar> \<le> 1/4" by (simp add: power_int_def inverse_eq_divide power_divide)
  with z have "\<bar>fmul (timestamp t) 1000000 - of_int t\<bar> < 1/2" unfolding fmul_def by linarith
  then show ?thesis unfolding epoch_microseconds_def by (rule round_even_nearest)
qed

lemma epoch_microseconds_mono: "s \<le> t \<Longrightarrow> epoch_microseconds (timestamp s) \<le> epoch_microseconds (timestamp t)"
  unfolding epoch_microseconds_def timestamp_def fmul_def
  by (intro round_even_mono rnd53_mono mult_right_mono divide_right_mono) simp_all

subsection \<open>The filter\<close>

lemma filter_rows:
  assumes lang: "understands admits" "\<forall>x. hex_digest (mx_sha M x)"
    and times: "indexable (pd_valid_from d)" "indexable (pd_recorded_at d)" "indexable va" "indexable ka"
    and sha: "inj_on (mx_sha M) {tenant_id sc, subject_id sc, tenant_id (pd_scope d), subject_id (pd_scope d)}"
  shows "admits (filter_text (filter_for M sc va ka)) (row_of M d v) \<longleftrightarrow>
      pd_scope d = sc \<and> pd_valid_from d \<le> va \<and> pd_recorded_at d \<le> ka"
    and "admits (deletion_text M sc) (row_of M d v) \<longleftrightarrow> pd_scope d = sc"
proof -
  have "mx_sha M (tenant_id (pd_scope d)) = mx_sha M (tenant_id sc) \<longleftrightarrow> tenant_id (pd_scope d) = tenant_id sc"
    "mx_sha M (subject_id (pd_scope d)) = mx_sha M (subject_id sc) \<longleftrightarrow> subject_id (pd_scope d) = subject_id sc"
    by (rule inj_on_eq_iff [OF sha]; blast)+
  then have scope: "scope_hash (mx_sha M) (tenant_id (pd_scope d)) = scope_hash (mx_sha M) (tenant_id sc) \<and>
      scope_hash (mx_sha M) (subject_id (pd_scope d)) = scope_hash (mx_sha M) (subject_id sc) \<longleftrightarrow> pd_scope d = sc"
    by (auto simp: scope_hash_def intro: scope.equality)
  show "admits (filter_text (filter_for M sc va ka)) (row_of M d v) \<longleftrightarrow>
      pd_scope d = sc \<and> pd_valid_from d \<le> va \<and> pd_recorded_at d \<le> ka"
    using scope times by (auto simp: filter_understood(1) [OF lang] row_of_def epoch_microseconds_exact)
  show "admits (deletion_text M sc) (row_of M d v) \<longleftrightarrow> pd_scope d = sc"
    using scope by (simp add: filter_understood(2) [OF lang] row_of_def)
qed

text \<open>A search with an answer asked the database with this filter, and a deletion with its own.\<close>

lemma on_client_Inr:
  "on_client m s = (Inr x, t) \<longleftrightarrow> (\<exists>d. m (ms_backend s) = (Inr x, d) \<and> t = s\<lparr>ms_backend := d\<rparr>)"
  by (auto simp: on_client_def split: prod.split)

lemma search_asks:
  assumes "search M sc query limit va ka s = (Inr r, t)" "ps_available r"
  shows "\<exists>vector answer b b'. cl_search (mx_client M) (mx_collection M) vector (filter_text (filter_for M sc va ka)) limit
    (mx_consistency M) b = (Inr answer, b')"
  using assms by (auto simp: search_def pbind_Inr catch_Inr on_client_Inr lift_res_def res_simps mk_projection_search_result_def)

lemma deletion_asks:
  assumes "delete_scope M sc s = (Inr n, t)"
  shows "\<exists>answer b b'. cl_delete (mx_client M) (mx_collection M) (deletion_text M sc) b = (Inr answer, b')"
  using assms by (auto simp: delete_scope_def pbind_Inr on_client_Inr)

end
