(* ===== verification/Composition.thy ===== *)
theory Composition
  imports Config VectorIndex
begin

text \<open>
  \<open>composition.py\<close> and \<open>projector.py\<close>: from the settings of a process to its embedder, its vector index and its
  projection worker, and the commands of the worker process.  The clients behind the network, the connection
  pools and the signals are arguments.
\<close>

subsection \<open>The vector index of a process\<close>

text \<open>
  How the clients are made: a request to the embedding service takes the address, the authorization header and
  the timeout; the client of the vector database its address, token and timeout; a pool its connection and sizes.
\<close>

record 'd parts =
  pa_tables :: hash_tables
  pa_float :: "ustr \<Rightarrow> xfloat option"
  pa_sha :: "ustr \<Rightarrow> ustr"
  pa_post :: "ustr \<Rightarrow> ustr option \<Rightarrow> pyfloat \<Rightarrow> ustr \<Rightarrow> ustr \<Rightarrow> int \<Rightarrow> ('d, cvalue) prog"
  pa_client :: "ustr \<Rightarrow> ustr \<Rightarrow> pyfloat \<Rightarrow> 'd milvus_client"
  pa_pool :: "ustr \<Rightarrow> int \<Rightarrow> int \<Rightarrow> unit res"
  pa_host :: ustr
  pa_pid :: int
  pa_token_hex :: ustr

definition embeddings_url :: "ustr \<Rightarrow> ustr" where
  "embeddings_url base_url = rev (dropWhile (\<lambda>c. c = 47) (rev base_url)) @ uc ''/embeddings''"

definition authorization_header :: "ustr option \<Rightarrow> ustr option" where
  "authorization_header api_key =
     (case api_key of None \<Rightarrow> None | Some key \<Rightarrow> if key = [] then None else Some (uc ''Bearer '' @ key))"

definition build_embedder :: "'d parts \<Rightarrow> 'z index_settings_scheme \<Rightarrow> 'd embedder res" where
  "build_embedder Q S =
     (if se_embedding_provider S = uc ''openai_compatible'' then
        provider_embedder (pa_float Q) (ht_root (pa_tables Q))
          (pa_post Q (embeddings_url (se_embedding_base_url S)) (authorization_header (se_embedding_api_key S))
            (se_embedding_timeout_seconds S))
          (se_embedding_model S) (se_embedding_dimensions S) (se_embedding_timeout_seconds S)
      else hashing_embedder (pa_tables Q) (se_embedding_dimensions S))"

definition build_recall_projection :: "'d parts \<Rightarrow> 'z index_settings_scheme \<Rightarrow> 'd milvus option res" where
  "build_recall_projection Q S =
     (if se_projection_mode S = uc ''disabled'' then Inr None
      else
        rbind (build_embedder Q S) (\<lambda>embedder.
        rbind (mk_milvus (se_milvus_timeout_seconds S)
          \<lparr>mx_collection = se_milvus_collection S, mx_embedder = embedder, mx_consistency = se_milvus_consistency_level S,
           mx_min_similarity = se_milvus_min_similarity S,
           mx_client = pa_client Q (se_milvus_uri S) (case se_milvus_token S of None \<Rightarrow> [] | Some token \<Rightarrow> token)
             (se_milvus_timeout_seconds S),
           mx_float = pa_float Q, mx_sha = pa_sha Q, mx_db = ht_db (pa_tables Q)\<rparr>) (\<lambda>M.
        Inr (Some M))))"

subsection \<open>The worker of a process\<close>

text \<open>\<open>text.replace(old, new, 1)\<close> for a text \<open>old\<close> that is not empty\<close>

fun replace_first :: "ustr \<Rightarrow> ustr \<Rightarrow> ustr \<Rightarrow> ustr" where
  "replace_first old new [] = []"
| "replace_first old new (c # cs) =
     (if take (length old) (c # cs) = old then new @ drop (length old) (c # cs)
      else c # replace_first old new cs)"

definition conninfo :: "ustr \<Rightarrow> ustr" where
  "conninfo url = replace_first (uc ''postgresql+psycopg://'') (uc ''postgresql://'') url"

text \<open>\<open>len(text.encode())\<close>\<close>

definition utf8_width :: "nat \<Rightarrow> nat" where
  "utf8_width c = (if c < 0x80 then 1 else if c < 0x800 then 2 else if c < 0x10000 then 3 else 4)"

definition encoded_length :: "ustr \<Rightarrow> nat res" where
  "encoded_length s =
     rbind (encode_utf8 s) (\<lambda>encoded. Inr (sum_list (map utf8_width encoded)))"

definition open_source :: "'d parts \<Rightarrow> ustr \<Rightarrow> int \<Rightarrow> unit res" where
  "open_source Q url max_size = pa_pool Q (conninfo url) 1 max_size"

definition open_governance :: "'d parts \<Rightarrow> ustr \<Rightarrow> ustr \<Rightarrow> ustr \<Rightarrow> int \<Rightarrow> unit res" where
  "open_governance Q url hmac_key pseudonym_key_id max_size =
     rbind (encoded_length hmac_key) (\<lambda>n.
     rbind (raise_if (n < 32) (ValueError ''persistent governance HMAC key must contain at least 32 bytes'')) (\<lambda>_.
     rbind (raise_if (strip pseudonym_key_id = []) (ValueError ''pseudonym_key_id must not be blank'')) (\<lambda>_.
     pa_pool Q (conninfo url) 1 max_size)))"

record 'd projector =
  pj_index :: "'d milvus"
  pj_persistent_governance :: bool
  pj_worker_id :: ustr
  pj_settings :: worker_settings

definition worker_settings_of :: "'z process_settings_scheme \<Rightarrow> worker_settings" where
  "worker_settings_of S =
     \<lparr>ws_projection_name = se_projection_name S, ws_batch_size = se_worker_batch_size S,
      ws_lease_seconds = se_worker_lease_seconds S, ws_retry_base = se_worker_retry_base_seconds S,
      ws_retry_max = se_worker_retry_max_seconds S, ws_max_attempts = se_worker_max_attempts S\<rparr>"

definition build_worker :: "'d parts \<Rightarrow> settings \<Rightarrow> 'd projector res" where
  "build_worker Q S =
     (case se_database_url S of
        None \<Rightarrow> Inl (DomainError ''EMF_DATABASE_URL is required by the projection worker'')
      | Some url \<Rightarrow>
          let max_size = min 4 (se_database_pool_max_size S);
              worker_id = pa_host Q @ uc '':'' @ int_str (pa_pid Q) @ uc '':'' @ pa_token_hex Q
          in
          rbind (build_recall_projection Q S) (\<lambda>projection.
          case projection of
            None \<Rightarrow> Inl (DomainError ''EMF_PROJECTION_MODE=milvus is required by the projection worker'')
          | Some M \<Rightarrow>
              rbind (open_source Q url max_size) (\<lambda>_.
              rbind (if se_governance_mode S = uc ''postgres'' then
                  (case se_governance_hmac_key S of
                     None \<Rightarrow> Inl (DomainError ''EMF_GOVERNANCE_HMAC_KEY is required by the projection worker'')
                   | Some key \<Rightarrow> open_governance Q url key (se_governance_pseudonym_key_id S) max_size)
                else Inr ()) (\<lambda>_.
              rbind (mk_worker_settings (worker_settings_of S)) (\<lambda>W.
              rbind (raise_if (strip worker_id = []) (ValueError ''worker_id must not be blank'')) (\<lambda>_.
              Inr \<lparr>pj_index = M, pj_persistent_governance = (se_governance_mode S = uc ''postgres''),
                pj_worker_id = worker_id, pj_settings = W\<rparr>))))))"

subsection \<open>The commands\<close>

datatype worker_command = RunForever | RunOnce | Rebuild | Check

datatype command_end =
    Finished
  | ExitStatus int
  | PrintedRequeued int
  | PrintedResult run_result

text \<open>
  \<open>_run_forever\<close>: runs until a signal was seen, \<open>stopped n\<close> at the \<open>n\<close>-th test, or a run raises.  A loop that
  is never stopped has no result.
\<close>

partial_function (option) run_forever ::
  "env \<Rightarrow> 'd worker_ports \<Rightarrow> worker_settings \<Rightarrow> ustr \<Rightarrow> (nat \<Rightarrow> bool) \<Rightarrow> nat \<Rightarrow> 'd worker_state \<Rightarrow>
   (unit res \<times> 'd worker_state) option" where
  "run_forever E P S worker_id stopped n s =
     (if stopped n then Some (Inr (), s)
      else
        case run_once E P S worker_id s of
          (Inl e, t) \<Rightarrow> Some (Inl e, t)
        | (Inr r, t) \<Rightarrow> run_forever E P S worker_id stopped (Suc n) t)"

definition command_body ::
  "env \<Rightarrow> 'd maintenance_ports \<Rightarrow> worker_settings \<Rightarrow> ustr \<Rightarrow> (nat \<Rightarrow> bool) \<Rightarrow> worker_command \<Rightarrow> 'd worker_state \<Rightarrow>
   (command_end res \<times> 'd worker_state) option" where
  "command_body E M S worker_id stopped cmd s =
     (case cmd of
        Check \<Rightarrow> Some (pbind (worker_ready M) (\<lambda>ready. return (if ready then Finished else ExitStatus 1)) s)
      | Rebuild \<Rightarrow> Some (pbind (rebuild E M S) (\<lambda>n. return (PrintedRequeued n)) s)
      | RunOnce \<Rightarrow> Some (pbind (run_once E (mp_worker M) S worker_id) (\<lambda>r. return (PrintedResult r)) s)
      | RunForever \<Rightarrow>
          map_option (\<lambda>(r, t). (case r of Inl e \<Rightarrow> Inl e | Inr _ \<Rightarrow> Inr Finished, t))
            (run_forever E (mp_worker M) S worker_id stopped 0 s))"

definition run_command ::
  "env \<Rightarrow> 'd maintenance_ports \<Rightarrow> worker_settings \<Rightarrow> ustr \<Rightarrow> (nat \<Rightarrow> bool) \<Rightarrow> worker_command \<Rightarrow> 'd worker_state \<Rightarrow>
   (command_end res \<times> 'd worker_state) option" where
  "run_command E M S worker_id stopped cmd s =
     (case command_body E M S worker_id stopped cmd s of
        None \<Rightarrow> None
      | Some (r, t) \<Rightarrow> Some (finally_do (\<lambda>_. (r, t)) (close_worker M) t))"

text \<open>\<open>n\<close> runs, one after the other\<close>

fun rounds :: "env \<Rightarrow> 'd worker_ports \<Rightarrow> worker_settings \<Rightarrow> ustr \<Rightarrow> nat \<Rightarrow> ('d worker_state, unit) prog" where
  "rounds E P S worker_id 0 = return ()"
| "rounds E P S worker_id (Suc n) = pbind (run_once E P S worker_id) (\<lambda>_. rounds E P S worker_id n)"

lemma run_forever_rounds:
  "stopped (n + k) \<Longrightarrow> (\<And>i. i < k \<Longrightarrow> \<not> stopped (n + i)) \<Longrightarrow>
   run_forever E P S worker_id stopped n s = Some (rounds E P S worker_id k s)"
proof (induction k arbitrary: n s)
  case 0
  then show ?case by (simp add: run_forever.simps)
next
  case (Suc k)
  have "\<not> stopped n" using Suc.prems(2) [of 0] by simp
  moreover have "run_forever E P S worker_id stopped (Suc n) t = Some (rounds E P S worker_id k t)" for t
    by (rule Suc.IH) (use Suc.prems(1) Suc.prems(2) [of "Suc i" for i] in simp_all)
  ultimately show ?case
    by (simp add: run_forever.simps [of _ _ _ _ _ n] pbind_def split: prod.split sum.split)
qed

end
