(* ===== verification/IndexProperties.thy ===== *)
theory IndexProperties
  imports RecallProperties ConfigProperties VectorCorrect Composition WorkerCorrect
begin

text \<open>
  Properties of the vector index and of the processes that use it: a recall does not depend on the index to
  answer, the index is filtered by scope and time as the store is, and accepted settings are enough to build the
  worker.
\<close>

subsection \<open>A recall over an index\<close>

text \<open>
  C19: No vector index can break a recall: whatever the embedder, the client and the database behind it raise or
  answer (hits of another form, foreign or repeated identifiers, scores that are no numbers), a recall with valid
  arguments returns a trace.
\<close>

theorem recall_survives_the_index:
  assumes "system_ok E w" "service_ok sv" "length (s_outcomes w) \<le> 1000000"
    and "decay_ok E" "sv_projection sv = Some (index_projection M st)" "1 \<le> sv_oversample sv" "policy_of sv w \<noteq> None"
    and "1 \<le> rc_limit c" "rc_limit c \<le> 100" "strip (rc_query c) \<noteq> []"
    and "\<And>k. rc_known_at c = Some k \<Longrightarrow> k \<le> e_clock E (w_ticks w)"
  shows "\<exists>t w'. recall E sv c w = (Inr t, w')"
proof -
  note W = system_okD [OF assms(1)]
  obtain p where p: "policy_of sv w = Some p" using assms(7) by blast
  have "1 * 1 \<le> rc_limit c * sv_oversample sv" using assms(6,8) by (intro mult_mono) simp_all
  then have "answers_at sv (rc_limit c * sv_oversample sv)" by (intro index_answers [OF assms(5)]) simp
  then show ?thesis
    by (rule recall_total [OF W(1) assms(3,4) _ p policy_of_ok [OF assms(2) W(2) p] assms(8-11)])
qed

text \<open>An index whose database answers a search with what is no hit, and with a hit that has no number.\<close>

definition sample_tables_of_hashes :: hash_tables where
  "sample_tables_of_hashes = \<lparr>ht_db = sample_db, ht_word = (\<lambda>_. True), ht_blake = (\<lambda>_. replicate 9 0), ht_root = (\<lambda>x. x)\<rparr>"

definition sample_client :: "unit milvus_client" where
  "sample_client = \<lparr>cl_connect = return (), cl_data_types = return (), cl_has_type = (\<lambda>_ _. False),
     cl_has_collection = (\<lambda>_. return False), cl_describe_collection = (\<lambda>_. return []),
     cl_create_collection = (\<lambda>_ _ _ _. return ()), cl_load_collection = (\<lambda>_. return ()),
     cl_drop_collection = (\<lambda>_. return ()), cl_list_collections = return (), cl_upsert = (\<lambda>_ _. return ()),
     cl_search = (\<lambda>_ _ _ _ _. return (CList [CList [CNone, CDict [(uc ''entity'',
       CDict [(uc ''revision_id'', CText (uuid_str 4))]), (uc ''distance'', CFloat NotANumber)]]])),
     cl_delete = (\<lambda>_ _. return CNone), cl_close = return ()\<rparr>"

text \<open>Texts in hexadecimal, in place of a digest.\<close>

definition sample_hex :: "ustr \<Rightarrow> ustr" where
  "sample_hex s = concat (map (hex_digits 2) s)"

lemma sample_hex_digest: "hex_digest (sample_hex s)"
proof -
  have char: "hex_digest [hex_char (x mod 16)]" for x
    using mod_less_divisor [of 16 x] by (simp add: hex_digest_def hex_char_def) linarith
  have append: "hex_digest (s @ t) \<longleftrightarrow> hex_digest s \<and> hex_digest t" for s t by (simp add: hex_digest_def)
  have "hex_digest (hex_digits n x)" for n x
  proof (induction n arbitrary: x)
    case (Suc n)
    then show ?case using char append by simp
  qed (simp add: hex_digest_def)
  then show ?thesis by (induction s) (simp_all add: sample_hex_def append, simp add: hex_digest_def)
qed

definition sample_index :: "unit milvus" where
  "sample_index = \<lparr>mx_collection = uc ''m'', mx_embedder = \<lparr>em_model_id = uc ''e'', em_dimensions = 32,
     em_embed = (\<lambda>_. return [])\<rparr>, mx_consistency = uc ''Strong'', mx_min_similarity = 0, mx_client = sample_client,
     mx_float = (\<lambda>_. None), mx_sha = sample_hex, mx_db = sample_db\<rparr>"

definition sample_indexed_service :: service where
  "sample_indexed_service =
     sample_service\<lparr>sv_projection := Some (index_projection sample_index (\<lambda>_. \<lparr>ms_connected = False, ms_ready = False, ms_backend = ()\<rparr>))\<rparr>"

theorem recall_survives_the_index_witness:
  "\<exists>t w'. recall sample_env sample_indexed_service sample_query sample_remembered = (Inr t, w')"
proof (rule recall_survives_the_index [OF sample_remembered_system])
  show "service_ok sample_indexed_service" using sample_service_ok by (simp add: service_ok_def sample_indexed_service_def)
  show "sv_projection sample_indexed_service =
      Some (index_projection sample_index (\<lambda>_. \<lparr>ms_connected = False, ms_ready = False, ms_backend = ()\<rparr>))"
    by (simp add: sample_indexed_service_def)
  show "1 \<le> sv_oversample sample_indexed_service" by (simp add: sample_indexed_service_def sample_service_def)
  show "policy_of sample_indexed_service sample_remembered \<noteq> None"
    using sample_recall_ok(3) by (simp add: sample_indexed_service_def policy_of_def split: option.splits)
qed (simp_all add: sample_recall_ok sample_query_fields sample_remembered_experience)

text \<open>
  C27: The index is asked for the right rows.  Take a database that reads filter expressions as documented
  (== and <= on the fields of a row, and for conjunction) and digests in hexadecimal that do not
  collide on the scopes at hand, and instants before February 2106.  Then the expression a search sends admits
  the row of a document exactly when the document belongs to the scope, is valid by the valid-at time and was
  recorded by the known-at time: what the bitemporal read would consider, although the index stores hashes and
  instants went through floats of seconds.  The expression a deletion sends admits exactly the rows of the scope.
  A search with an answer sent the first, and a deletion that returns sent the second.
\<close>

theorem index_filter_is_exact:
  assumes "understands admits" "\<forall>x. hex_digest (mx_sha M x)"
    and "indexable (pd_valid_from d)" "indexable (pd_recorded_at d)" "indexable valid_at" "indexable known_at"
    and "inj_on (mx_sha M) {tenant_id sc, subject_id sc, tenant_id (pd_scope d), subject_id (pd_scope d)}"
  shows "(admits (filter_text (filter_for M sc valid_at known_at)) (row_of M d vector) \<longleftrightarrow>
      pd_scope d = sc \<and> pd_valid_from d \<le> valid_at \<and> pd_recorded_at d \<le> known_at) \<and>
    (admits (deletion_text M sc) (row_of M d vector) \<longleftrightarrow> pd_scope d = sc) \<and>
    (\<forall>query limit s r t. search M sc query limit valid_at known_at s = (Inr r, t) \<and> ps_available r \<longrightarrow>
      (\<exists>v answer b b'. cl_search (mx_client M) (mx_collection M) v (filter_text (filter_for M sc valid_at known_at))
        limit (mx_consistency M) b = (Inr answer, b'))) \<and>
    (\<forall>s n t. delete_scope M sc s = (Inr n, t) \<longrightarrow>
      (\<exists>answer b b'. cl_delete (mx_client M) (mx_collection M) (deletion_text M sc) b = (Inr answer, b')))"
  by (intro conjI allI impI) (rule filter_rows [OF assms] deletion_asks, assumption? | elim conjE, rule search_asks, assumption+)+

definition sample_document :: projection_document where
  "sample_document = \<lparr>pd_source_event_id = 1, pd_scope = sample_scope, pd_record_id = 3, pd_revision_id = 4,
     pd_key = uc ''drink'', pd_value = uc ''tea'', pd_context = sample_context, pd_valid_from = 1753315200000001,
     pd_recorded_at = 1753315200000003\<rparr>"

theorem index_filter_is_exact_witness:
  "evaluate_filter (filter_text (filter_for sample_index sample_scope 1753315200000001 1753315200000003))
     (row_of sample_index sample_document []) \<and>
   \<not> evaluate_filter (filter_text (filter_for sample_index sample_scope 1753315200000001 1753315200000002))
     (row_of sample_index sample_document []) \<and>
   \<not> evaluate_filter (filter_text (filter_for sample_index other_scope 1753315200000001 1753315200000003))
     (row_of sample_index sample_document []) \<and>
   \<not> evaluate_filter (deletion_text sample_index other_scope) (row_of sample_index sample_document [])"
proof -
  have d: "indexable (pd_valid_from sample_document)" "indexable (pd_recorded_at sample_document)"
    "pd_scope sample_document = sample_scope" "pd_valid_from sample_document = 1753315200000001"
    "pd_recorded_at sample_document = 1753315200000003"
    by (simp_all add: sample_document_def indexable_def)
  have hex: "\<forall>x. hex_digest (mx_sha sample_index x)" by (simp add: sample_index_def sample_hex_digest)
  have sha: "inj_on (mx_sha sample_index)
      {tenant_id sc, subject_id sc, tenant_id (pd_scope sample_document), subject_id (pd_scope sample_document)}"
    if "sc = sample_scope \<or> sc = other_scope" for sc
    using that by (auto simp: sample_index_def sample_document_def sample_scope_def other_scope_def sample_hex_def
      inj_on_def hex_char_def numeral_2_eq_2)
  have t: "indexable 1753315200000001" "indexable 1753315200000002" "indexable 1753315200000003"
    by (simp_all add: indexable_def)
  have other: "sample_scope \<noteq> other_scope" by (simp add: sample_scope_def other_scope_def)
  show ?thesis
    using index_filter_is_exact [OF evaluator_understands hex d(1,2) t(1,3) sha [of sample_scope], where vector = "[]"]
      index_filter_is_exact [OF evaluator_understands hex d(1,2) t(1,2) sha [of sample_scope], where vector = "[]"]
      index_filter_is_exact [OF evaluator_understands hex d(1,2) t(1,3) sha [of other_scope], where vector = "[]"] d(3-5) other
    by simp
qed

subsection \<open>Building the worker\<close>

lemma strip_keeps:
  assumes "c \<in> set s" "\<not> is_space c"
  shows "strip s \<noteq> []"
proof
  assume "strip s = []"
  then have "\<forall>x \<in> set (dropWhile is_space s). is_space x"
    by (simp add: strip_def strip_while_def dropWhile_eq_Nil_conv)
  moreover have "c \<in> set (dropWhile is_space s)"
    using assms by (metis Un_iff set_append set_takeWhileD takeWhile_dropWhile_id)
  ultimately show False using assms(2) by blast
qed

lemma flit_twentieth_pos: "0 < flit (5/100)"
proof -
  have "is_double (1/32)" using is_doubleI [of 1 "- 5"] by (simp add: power_int_def power_divide)
  then have "1/32 \<le> flit (5/100)" using rnd53_mono [of "1/32" "5/100"] unfolding flit_def is_double_def by simp
  then show ?thesis by simp
qed

lemma embedder_builds:
  assumes "\<forall>c \<in> set (index_checks split S). c = Inr ()"
  shows "\<exists>e. build_embedder Q S = Inr e \<and> em_dimensions e = se_embedding_dimensions S"
proof -
  have "32 \<le> se_embedding_dimensions S" "se_embedding_dimensions S \<le> 32768" "strip (se_embedding_model S) \<noteq> []"
    "flit (5/100) \<le> se_embedding_timeout_seconds S"
    using assms by (simp_all add: index_checks_def del: uc_simps)
  then show ?thesis using flit_twentieth_pos
    by (auto simp: build_embedder_def provider_embedder_def hashing_embedder_def check_dimensions_def require_text_def
        raise_if_def Let_def)
qed

lemma projection_builds:
  assumes "\<forall>c \<in> set (index_checks split S). c = Inr ()" "se_projection_mode S = uc ''milvus''"
  shows "\<exists>M. build_recall_projection Q S = Inr (Some M) \<and> em_dimensions (mx_embedder M) = se_embedding_dimensions S \<and>
    in_unit (mx_min_similarity M)"
proof -
  have "flit (5/100) \<le> se_milvus_timeout_seconds S" "in_unit (se_milvus_min_similarity S)"
    "se_milvus_consistency_level S \<in> {uc ''Strong'', uc ''Bounded'', uc ''Eventually'', uc ''Session''}"
    using assms(1) by (simp_all add: index_checks_def in_unit_def del: uc_simps)
  moreover have "uc ''milvus'' \<noteq> uc ''disabled''" by simp
  ultimately show ?thesis using embedder_builds [OF assms(1), of Q] flit_twentieth_pos assms(2)
    by (auto simp: build_recall_projection_def mk_milvus_def raise_if_def in_unit_def simp del: uc_simps)
qed

lemma worker_settings_accepted:
  assumes "\<forall>c \<in> set (index_checks split S @ process_checks S). c = Inr ()"
  shows "mk_worker_settings (worker_settings_of S) = Inr (worker_settings_of S)"
  using assms flit_twentieth_pos
  by (simp add: settings_Inr worker_settings_of_def index_checks_def process_checks_def del: uc_simps)

lemma utf8_length: "length s \<le> sum_list (map utf8_width s)"
  by (induction s) (auto simp: utf8_width_def)

lemma governance_opens:
  assumes "\<And>c m n. pa_pool Q c m n = Inr ()" "32 \<le> length key" "encodable key" "strip pseudonym \<noteq> []"
  shows "open_governance Q url key pseudonym m = Inr ()"
  using assms utf8_length [of key] by (simp add: open_governance_def encoded_length_def raise_if_def)

text \<open>
  C40: Accepted settings are enough: when the settings of a process are accepted and ask for a vector index, the
  index of the API process is built without an error, and so is the worker with the same index, provided its pools
  open and its key can be encoded; the worker's own checks of index, embedder, governance and retries never fail.
\<close>

theorem accepted_settings_build_the_worker:
  assumes "mk_settings split S = Inr T" "se_projection_mode S = uc ''milvus''"
    and "\<And>c m n. pa_pool Q c m n = Inr ()"
    and "\<And>key. se_governance_hmac_key S = Some key \<Longrightarrow> encodable key"
  shows "\<exists>W. build_worker Q S = Inr W \<and> build_recall_projection Q S = Inr (Some (pj_index W)) \<and>
    mk_worker_settings (pj_settings W) = Inr (worker_settings_of S) \<and>
    em_dimensions (mx_embedder (pj_index W)) = se_embedding_dimensions S \<and> in_unit (mx_min_similarity (pj_index W)) \<and>
    (pj_persistent_governance W \<longleftrightarrow> se_governance_mode S = uc ''postgres'')"
proof -
  have checks: "\<forall>c \<in> set (storage_checks S @ index_checks split S @ process_checks S @ governance_checks split S). c = Inr ()"
    using assms(1) by (auto simp: mk_settings_def res_simps check_all_Inr)
  then have index: "\<forall>c \<in> set (index_checks split S). c = Inr ()" by simp
  have "se_store S = uc ''postgres''" using index assms(2) by (simp add: index_checks_def del: uc_simps)
  then obtain url where url: "se_database_url S = Some url"
    using checks by (auto simp: storage_checks_def simp del: uc_simps)
  have pseudonym: "strip (se_governance_pseudonym_key_id S) \<noteq> []"
    using checks by (simp add: governance_checks_def del: uc_simps)
  have key: "\<exists>key. se_governance_hmac_key S = Some key \<and> 32 \<le> length key" if "se_governance_mode S = uc ''postgres''"
    using checks that by (auto simp: governance_checks_def key_ok_def simp del: uc_simps split: option.splits)
  have worker_id: "strip (pa_host Q @ uc '':'' @ int_str (pa_pid Q) @ uc '':'' @ pa_token_hex Q) \<noteq> []"
    by (rule strip_keeps [of 58]) (simp_all add: is_space_def)
  obtain M where M: "build_recall_projection Q S = Inr (Some M)" "em_dimensions (mx_embedder M) = se_embedding_dimensions S"
      "in_unit (mx_min_similarity M)"
    using projection_builds [OF index assms(2)] by blast
  have W: "mk_worker_settings (worker_settings_of S) = Inr (worker_settings_of S)"
    by (rule worker_settings_accepted [where split = split]) (use checks in \<open>simp add: ball_Un\<close>)
  have "(if se_governance_mode S = uc ''postgres'' then
      (case se_governance_hmac_key S of
         None \<Rightarrow> Inl (DomainError ''EMF_GOVERNANCE_HMAC_KEY is required by the projection worker'')
       | Some key \<Rightarrow> open_governance Q url key (se_governance_pseudonym_key_id S) (min 4 (se_database_pool_max_size S)))
      else Inr ()) = Inr ()"
    using key assms(4) governance_opens [OF assms(3) _ _ pseudonym] by (auto simp del: uc_simps)
  then show ?thesis using url M W worker_id assms(3)
    by (simp add: build_worker_def Let_def open_source_def raise_if_def del: uc_simps)
qed

definition sample_parts :: "unit parts" where
  "sample_parts = \<lparr>pa_tables = sample_tables_of_hashes, pa_float = (\<lambda>_. None), pa_sha = (\<lambda>s. s),
     pa_post = (\<lambda>_ _ _ _ _ _. return CNone), pa_client = (\<lambda>_ _ _. sample_client), pa_pool = (\<lambda>_ _ _. Inr ()),
     pa_host = uc ''h'', pa_pid = 7, pa_token_hex = uc ''00000000''\<rparr>"

theorem accepted_settings_build_the_worker_witness:
  "\<exists>W. build_worker sample_parts sample_deployment = Inr W \<and> pj_persistent_governance W"
proof -
  have "se_projection_mode sample_deployment = uc ''milvus''" "se_governance_mode sample_deployment = uc ''postgres''"
    "se_governance_hmac_key sample_deployment = Some (replicate 32 66)" "pa_pool sample_parts c m n = Inr ()" for c m n
    by (simp_all add: sample_deployment_def sample_parts_def)
  moreover have "encodable (replicate 32 66)" by (simp add: encodable_def surrogate_def list_ex_iff)
  ultimately show ?thesis
    using accepted_settings_build_the_worker [OF sample_deployment_ok, of sample_parts] by (auto simp del: uc_simps)
qed

end
