(* ===== verification/Spec2Isabelle.thy ===== *)
theory Spec2Isabelle
  imports Ledger ExperienceCorrect HttpProperties ConfigProperties EvaluationProperties RecallProperties DomainProperties EvolutionProperties GovernanceProperties WorkerProperties IndexProperties
begin

text \<open>
  A verification development for the evolvable user memory service, a Python program that keeps what a
  user prefers as a bitemporal, append-only history of beliefs, recalls it, learns from the outcomes of
  its use, evolves its own retrieval strategy through gated experiments, and forgets a person on request.
  All sources below are relative to \<open>src/src/evolvable_memory\<close>.

  \<^bold>\<open>The parts and how they interact.\<close>  A request over HTTP (\<open>api\<close>) is bounded by the middleware,
  authenticated from its bearer token, validated by a schema and turned into a command; the enforcement
  point (\<open>application/access.py\<close>) asks the policy decision point for permission, records the decision in
  the audit trail and opens a processing context of the governance (grants and suppression fences);
  inside it one use case of the memory application runs on the store in one transaction.  Evidence is
  observed, proposed as a candidate and accepted as a revision of a record; recalls rank the revisions in
  force with the weights of the active strategy and are kept as traces; usage receipts and outcomes refer
  to traces and change the utility of revisions, hence later rankings.  Experiments move a candidate
  strategy through five gates, each authorized by a signed receipt.  An erasure puts up a fence, deletes
  the scope from the store and the vector index and is completed with evidence, or stays pending behind
  its fence.  A worker copies committed revisions into the vector index.  The offline evaluation replays a
  labelled dataset on an in-memory application and applies hard gates to the metrics.

  \<^bold>\<open>Theories and sources.\<close>
  \<^item> \<open>Prelude\<close>, \<open>Raising\<close>, \<open>ProgramEnds\<close>: exceptions as one datatype (\<open>err\<close>), computations that may raise
    (\<open>'a res\<close>), programs on a state (\<open>('s, 'a) prog\<close>, explicit state passing, where an error keeps the state
    reached unless a transaction rolls it back), association lists for the ordered dicts, and the rules for
    reasoning about them.  \<open>PyText\<close>, \<open>JsonText\<close>, \<open>PyFloat\<close>, \<open>FloatSums\<close>: what the code uses of the language:
    strings as lists of code points, \<open>str.strip\<close>, \<open>int(text, 16)\<close>, the JSON encoder, binary64 arithmetic with
    round-half-even, the compensated \<open>sum\<close>.  \<open>encode("utf-8")\<close> fails on a lone surrogate.
  \<^item> \<open>Common\<close>, \<open>Evidence\<close>, \<open>Memory\<close>, \<open>Experience\<close>, \<open>ProjectionDomain\<close>, \<open>Evolution\<close>, \<open>GovernanceDomain\<close>: the
    modules of \<open>domain\<close>.  A frozen dataclass is a record, its \<open>__post_init__\<close> a constructor \<open>mk_...\<close> that raises
    or returns the normalized value; each has a predicate for what it accepts.
  \<^item> \<open>Store\<close>: \<open>adapters/in_memory.py\<close>, one record field per dictionary of the class, every operation with its
    checks and index updates.  \<open>World\<close> adds the collaborators (ids, clock, digests) and how often they were asked.
    \<open>StoreInv\<close>, \<open>StoreErase\<close>, \<open>Erasure\<close>, \<open>Registry\<close>: the invariant, by planes, and that each write keeps it;
    the end of \<open>Erasure\<close> sets the erasure of a scope against a plain description, table by table and count by count.
  \<^item> \<open>Commands\<close>, \<open>Compression\<close>, \<open>Service\<close>: \<open>application/commands.py\<close>, \<open>compression.py\<close> and \<open>service.py\<close>.
    \<open>Acceptance\<close>, \<open>Remembering\<close>, \<open>Commands_Correct\<close>: the writing commands from start to end.  \<open>Bitemporal\<close>,
    \<open>RecallCorrect\<close>, \<open>RecallTotal\<close>, \<open>CompressionCorrect\<close>, \<open>ExperienceCorrect\<close>: reads, recalls, projections,
    receipts.  \<open>Operations\<close>: every operation keeps the invariant, reachability of the service.  \<open>History\<close>,
    \<open>Ledger\<close>: histories only grow, and the service refines an abstract ledger.
  \<^item> \<open>EvolutionApp\<close>, \<open>GateReceipts\<close>: \<open>application/evolution.py\<close>, \<open>gate_receipts.py\<close> and its adapter.
    \<open>EvolutionCorrect\<close>, \<open>EvolutionTotal\<close>: the experiment state machine and its exact effects; a whole experiment on
    a started service, up to the promotion, begins \<open>EvolutionProperties\<close>.
  \<^item> \<open>Security\<close>, \<open>Authorization\<close>, \<open>GovernanceStore\<close>, \<open>GovernanceApp\<close>, \<open>Access\<close>: \<open>application/security.py\<close>,
    \<open>adapters/authorization.py\<close>, \<open>adapters/in_memory_governance.py\<close>, \<open>application/governance.py\<close>,
    \<open>application/access.py\<close>.  \<open>GovernanceCorrect\<close>, \<open>AccessCorrect\<close>, \<open>Permanence\<close>, \<open>Platform\<close>: fences, erasures,
    permissions, and the invariant of the platform as a transition system.
  \<^item> \<open>ProjectionWorker\<close>, \<open>WorkerCorrect\<close>: \<open>application/projection.py\<close>.  \<open>JobQueue\<close>:
    \<open>adapters/projection_outbox.py\<close>, the statements on the outbox of \<open>adapters/postgres.py\<close> and the tables of the
    migrations 0001 and 0006, each statement a function on the tables.  \<open>JobQueueCorrect\<close>: the invariant of the job
    table and what each action may change; \<open>WorkerDelivery\<close>: a run of the worker on the job table.
  \<^item> \<open>VectorIndex\<close>, \<open>VectorCorrect\<close>: \<open>adapters/embeddings.py\<close>, \<open>adapters/milvus.py\<close>;
    the second begins with the filter expressions and what they mean to the database.  \<open>Composition\<close>: \<open>composition.py\<close>,
    \<open>projector.py\<close>.
  \<^item> \<open>Identity\<close>, \<open>Schemas\<close>, \<open>Responses\<close>, \<open>Http\<close>, \<open>HttpCorrect\<close>: \<open>api/security.py\<close>, \<open>api/schemas.py\<close>,
    \<open>api/app.py\<close>, \<open>api/middleware.py\<close>.  \<open>Config\<close>: \<open>config.py\<close>, \<open>api/contract.py\<close>.
  \<^item> \<open>Evaluation\<close>, \<open>Replay\<close>, \<open>Loader\<close>, \<open>EvaluationRun\<close>, \<open>EvaluationCorrect\<close>, \<open>LoaderCorrect\<close>:
    \<open>application/evaluation.py\<close>, \<open>evaluation/loader.py\<close>, \<open>evaluation/cli.py\<close>.
  \<^item> The properties (\<open>C\<close> and a number) stand in the theories whose names end in \<open>Properties\<close> and in this one; \<open>Sample\<close>,
    \<open>HttpSample\<close> and \<open>EvaluationSample\<close> hold the concrete collaborators and inputs of their witnesses.

  \<^bold>\<open>What the lemmas show.\<close>  The invariant \<open>system_ok\<close> (indexes agree with tables, revisions form unbroken chains
  with one active end, evidence and outcomes are attributed, strategies are valid, promotions went
  through all gates) is proved operation by operation and then for every reachable state, of the
  service, of the platform behind the enforcement point and of the HTTP interface.  The functional lemmas
  give the exact state after each writing command and the exact result of each read.  The safety
  properties are about reachable states too: what is erased stays erased, a fence is never lifted, the
  active strategy changes by receipts only.  The contracts between components are locales, each
  interpreted on the definitions of the component that provides it: \<open>state_relation\<close> for a relation every
  step respects, \<open>rounding\<close> for the laws of floats, \<open>idempotent_log\<close> for the two receipt tables of the store,
  \<open>replay_contract\<close> for what the evaluator needs of the application it replays on.

  \<^bold>\<open>Bounds and termination.\<close>  No definition uses fuel: the loops of the program run over lists, so they are
  structural recursions, but for the loop of the worker process (\<open>run_forever\<close>, a partial function whose result
  is None while no signal stops it).  Floats are finite binary64 values, kept as the rational numbers they denote, so
  infinities and NaN appear only where the code checks for them; instants are unbounded integers of
  microseconds, so the overflow of \<open>datetime\<close> at the year 9999 is outside the model.  A million is the
  bound on the number of summands for which a compensated sum is shown to stay non-negative.  \<open>indexable\<close> instants
  (before February 2106) are those the index stores without loss.  The column of attempts has 32 bits; from 1025
  attempts on the delay of a retry overflows, and so does a \<open>timedelta\<close> of a billion days: both are errors of the
  model, and the property of a worker run has \<open>attempts < 1024\<close> (before the claim) as a hypothesis, with settings
  of at most a day.  It is about a run no erasure interferes with: an event erased under the worker is one of the
  findings.

  \<^bold>\<open>Parameters and hypotheses.\<close>  Code that is not in the repository is a parameter: \<open>uuid4\<close>, the clock, SHA-256, HMAC,
  \<open>pow\<close>, \<open>float.__repr__\<close>, the Unicode tables (record \<open>env\<close>), PyJWT and its key set, Pydantic's reading of typed
  values, the grammar of JSON, \<open>datetime.fromisoformat\<close>, \<open>urlsplit\<close>, the file system; of the database server the
  connections, the clock, the rows locked by others and the order of returned rows (record \<open>job_server\<close>); the client of
  the vector database and the embedding service, whose answers are untyped values (\<open>milvus_client\<close>, \<open>cvalue\<close>);
  BLAKE2b and the square root (\<open>hash_tables\<close>), the connection pools.  The named hypotheses
  state their documented behaviour: \<open>ids_fresh\<close> (\<open>uuid4\<close> does not repeat among the ids drawn so far and by the next
  operation), \<open>digests_ok\<close> (SHA-256 prints as 64 hexadecimal digits), \<open>hmac_ok\<close> (an HMAC prints without
  blanks), \<open>decay_ok\<close> (\<open>pow(0.5, x)\<close> of a non-negative \<open>x\<close> lies in the unit interval), \<open>searches_answer\<close> (a vector
  search answers, with scores in the unit interval; shown for the index of \<open>VectorIndex\<close>), \<open>errors_named\<close> (the class
  of an error has a name), \<open>always_up\<close> and \<open>returns_all\<close> (the database answers, and an update returns the rows it
  changed in some order), \<open>written_by_store\<close> (the payloads of the outbox are those the store writes),
  \<open>reprs_encodable\<close> (a float prints without lone surrogates), \<open>understands\<close> (the vector database reads a filter
  expression as documented), \<open>hex_digest\<close>.  Reading a file or parsing a text may raise any error (\<open>file_text\<close>,
  \<open>parse_tree\<close>).
  The witnesses instantiate them with concrete functions.

  \<^bold>\<open>Not modelled.\<close>  The PostgreSQL adapters of memory, governance, audit and evolution and their migrations, but for
  the outbox: their logic is SQL text that a database server executes; the in-memory adapters model the contract of
  the same ports.  \<open>application/ports.py\<close> holds
  protocol classes without bodies (the model's port records).  Of \<open>api/app.py\<close> the wiring in
  \<open>create_app\<close> (routing, CORS, documentation switches), of the middleware the access log, of the command lines
  \<open>argparse\<close> and printing, and the other process entry points.  A lock is the atomicity of a program.  The texts
  of error messages carry one byte per code point.  A digest of the memory service is defined on all texts, while
  \<open>encode("utf-8")\<close> raises on a lone surrogate: the commands are taken to hold none, as Pydantic ensures for requests;
  the datasets of the evaluation and the key of the governance, which it does not read, are checked in the model.  FastAPI is taken to read the body first, then to
  resolve the dependencies (the caller), then to validate.
\<close>

section \<open>The memory service\<close>

text \<open>
  C1: Whatever a started service is asked to do, in any order and with any arguments (remembering,
  correcting, recalling, using, judging, erasing, proposing and advancing experiments, failing
  requests included), its state stays well-formed: the indexes of every plane agree with their
  entries, each belief is an unbroken chain of revisions whose last one is active, every candidate is
  accepted, every usage and outcome is attributed to a trace of its own scope, every trace is ranked,
  the strategies have valid weights and a parent, and every promotion went through all gates.
\<close>

theorem reachable_states_ok:
  assumes "digests_ok E" and "\<And>p. policy = Some p \<Longrightarrow> strategy_ok p"
    and "mk_service E policy projection required oversample (world_of empty_store n t a) = (Inr sv, w0)"
    and "service_reachable E sv verifier w0 w" and "ids_fresh E w"
  shows "system_ok E w"
  by (rule reachable_system_ok [OF assms(1) _ _ assms(4,5)])
     (use starting_ok [OF assms(2) empty_system_ok assms(3)] in blast)+

theorem reachable_states_ok_witness:
  "\<exists>w0 w. service_reachable sample_env sample_service (\<lambda>_ _. Inr ()) w0 w \<and> s_revisions w \<noteq> [] \<and>
     system_ok sample_env w"
proof -
  obtain w0 where start: "mk_service sample_env (Some sample_strategy) None False 4 (world_of empty_store 0 0 None) =
      (Inr sample_service, w0)" and w0: "w_ids w0 = 0" "s_observation_keys w0 = []" "s_record_identity w0 = []"
    using sample_start by (auto simp: sample_world_def)
  have ok: "world_ok sample_env w0"
    using starting_ok [OF _ empty_system_ok start] sample_strategy_ok by (auto dest: system_okD)
  let ?w = "first_world sample_env sample_remember w0"
  have run: "remember_preference sample_env sample_remember w0 =
      (Inr (result_of (staged_candidate sample_env (remember_request sample_remember) w0)
        (first_of sample_env sample_remember w0)), ?w)"
    by (rule first_remember [OF sample_remember_ok(2,1)]) (simp_all add: w0)
  have reach: "service_reachable sample_env sample_service (\<lambda>_ _. Inr ()) w0 ?w"
    unfolding service_reachable_def by (rule r_into_rtranclp, rule remembering [OF sample_remember_ok(1) run])
  have "s_revisions ?w \<noteq> []" "w_ids ?w = 6"
    by (simp_all add: first_world_fields w0)
  moreover have "ids_fresh sample_env ?w" by (simp add: first_world_fields w0)
  ultimately show ?thesis
    using reachable_states_ok [OF sample_digests _ start reach] sample_strategy_ok reach by (intro exI conjI) auto
qed

text \<open>
  C11: Remembering a preference under an unused idempotency key succeeds and commits exactly one new
  revision: the successor of the active revision of its identity (scope, key, context), reinforced when
  the value is the same and replaced otherwise, or the first one of a new record; every other
  revision, record and chain is as before.
\<close>

theorem remember_commits:
  assumes "world_ok E w" "ids_fresh E w" "remember_wf c" "0 \<le> rm_confidence c" "rm_confidence c \<le> 1"
    and "observation_by_idempotency w (rm_scope c) (rm_key_id c) = None"
  shows "\<exists>r v w'. remember_preference E c w = (Inr r, w') \<and> world_ok E w' \<and> extended w w' v \<and>
    pr_record_id r = rev_record_id v \<and> pr_revision_id r = rev_id v \<and> pr_sequence r = rev_sequence v \<and>
    \<not> pr_idempotent_replay r \<and> rev_value v = rm_value c \<and> rev_valid_from v = rm_occurred_at c \<and>
    next_of (staged_candidate E (remember_request c) w) (rm_occurred_at c) (rm_source c)
      (case map_of (s_record_identity w) (rm_scope c, rm_key c, fingerprint (e_sha E) (rm_context c)) of
         None \<Rightarrow> None | Some i \<Rightarrow> map_of (s_revisions w) (last (revision_ids_of w i))) v \<and>
    map_of (s_record_identity w') (rm_scope c, rm_key c, fingerprint (e_sha E) (rm_context c)) =
      Some (rev_record_id v)"
proof -
  have q: "request_ok (remember_request c)"
    using assms(3-5) by (simp add: request_ok_def remember_request_def remember_wf_def)
  have key: "map_of (s_observation_keys w) (rm_scope c, rm_key_id c) = None"
    using observation_key [OF world_okD(1) [OF assms(1)]] assms(6) by blast
  show ?thesis
    by (rule remember_fresh [OF assms(1,2) q key]) (auto simp: result_of_def)
qed

theorem remember_commits_witness:
  "\<exists>r v w'. remember_preference sample_env sample_remember sample_world = (Inr r, w') \<and>
     extended sample_world w' v \<and> rev_value v = uc ''tea''"
  using remember_commits [OF sample_world_ok(2), of sample_env sample_remember] sample_remember_ok(1)
  by (auto simp: sample_world_fields) (auto simp: sample_remember_def)

text \<open>
  C30: Sending the same remember command again answers with the first result, marked as a replay, and
  changes nothing.
\<close>

theorem remember_is_idempotent:
  assumes "world_ok E w" "ids_fresh E w" "request_ok (remember_request c)"
    and "observation_by_idempotency w (rm_scope c) (rm_key_id c) = None"
  shows "\<exists>r w'. remember_preference E c w = (Inr r, w') \<and> \<not> pr_idempotent_replay r \<and>
    remember_preference E c w' = (Inr (r\<lparr>pr_idempotent_replay := True\<rparr>), w')"
proof -
  have "map_of (s_observation_keys w) (rm_scope c, rm_key_id c) = None"
    using observation_key [OF world_okD(1) [OF assms(1)]] assms(4) by blast
  then show ?thesis by (rule remember_twice [OF assms(1-3)]) blast
qed

theorem remember_is_idempotent_witness:
  "\<exists>r. remember_preference sample_env sample_remember sample_remembered =
     (Inr (r\<lparr>pr_idempotent_replay := True\<rparr>), sample_remembered)"
  using remember_is_idempotent [OF sample_world_ok(2), of sample_env sample_remember] sample_remember_ok(2)
    sample_remember_run by (auto simp: sample_world_fields)

text \<open>
  An idempotency key stays bound to its request: using it again in the same scope for another value is
  refused with a conflict, and nothing is stored.
\<close>

theorem reused_key_refused:
  assumes "world_ok E w" "ids_fresh E w" "request_ok (remember_request c)"
    and "observation_by_idempotency w (rm_scope c) (rm_key_id c) = None"
    and "remember_preference E c w = (r, w')"
    and "rm_scope c' = rm_scope c" "rm_key_id c' = rm_key_id c" "rm_value c' \<noteq> rm_value c"
  shows "remember_preference E c' w' =
    (Inl (ConflictError ''idempotency key was reused for a different preference request''), w')"
proof -
  have key: "map_of (s_observation_keys w) (rm_scope c, rm_key_id c) = None"
    using observation_key [OF world_okD(1) [OF assms(1)]] assms(4) by blast
  let ?ob = "staged_observation E (remember_request c) w"
  have "\<exists>cand a b. world_ok E w' \<and> observation_by_idempotency w' (rm_scope c) (rm_key_id c) = Some ?ob \<and>
      candidate_for_observation w' (rm_scope c) (e_ids E (w_ids w)) = Some cand \<and>
      cand = accepted (staged_candidate E (remember_request c) w) a b"
    by (rule remember_fresh [OF assms(1-3) key]) (use assms(5) in auto)
  then obtain cand a b where ok: "world_ok E w'"
    and ob: "observation_by_idempotency w' (rm_scope c) (rm_key_id c) = Some ?ob"
    and cand: "candidate_for_observation w' (rm_scope c) (e_ids E (w_ids w)) = Some cand"
      "cand = accepted (staged_candidate E (remember_request c) w) a b" by blast
  have found: "candidate_for_observation w' (obs_scope ?ob) (obs_id ?ob) = Some cand"
    using cand(1) by (simp add: staged_observation_def remember_request_def)
  have other: "\<not> same_request E (remember_key E c') ?ob cand"
    using assms(8) by (simp add: same_request_def remember_key_def cand(2) staged_candidate_def remember_request_def)
  have "existing_preference_result E (remember_key E c') ?ob w' =
      Inl (ConflictError ''idempotency key was reused for a different preference request'')"
    by (rule existing_eval [OF ok found, where k = "remember_key E c'"]) (simp add: other)
  then show ?thesis using remember_used_key [of w' c' ?ob E] ob assms(6,7) by simp
qed

theorem reused_key_refused_witness:
  "remember_preference sample_env (sample_remember\<lparr>rm_value := uc ''coffee''\<rparr>) sample_remembered =
     (Inl (ConflictError ''idempotency key was reused for a different preference request''), sample_remembered)"
  by (rule reused_key_refused [OF sample_world_ok(2) _ sample_remember_ok(2) _ sample_remember_run])
     (simp_all add: sample_world_fields sample_remember_def uc_def)

text \<open>
  C2: Correcting the active revision of a preference appends its successor: the next sequence number, the
  new value, and a link to the revision it supersedes; nothing else of any history changes.
\<close>

theorem correct_supersedes:
  assumes "world_ok E w" "ids_fresh E w" "request_ok (correct_request c r)" "stripped (cp_reason c)"
    and "map_of (s_records w) (cp_record_id c) = Some r" "rec_scope r = cp_scope c" "rec_kind r = PREFERENCE"
    and "map_of (s_active_revision w) (cp_record_id c) = Some (rev_id old)"
      "map_of (s_revisions w) (rev_id old) = Some old"
    and "cp_expected_revision_id c = None \<or> cp_expected_revision_id c = Some (rev_id old)"
    and "observation_by_idempotency w (cp_scope c) (cp_key_id c) = None"
  shows "\<exists>res v w'. correct_preference E c w = (Inr res, w') \<and> world_ok E w' \<and> extended w w' v \<and>
    pr_revision_id res = rev_id v \<and> pr_sequence res = rev_sequence old + 1 \<and> rev_value v = cp_value c \<and>
    rev_record_id v = cp_record_id c \<and> rev_supersedes v = Some (rev_id old)"
proof -
  have key: "map_of (s_observation_keys w) (cp_scope c, cp_key_id c) = None"
    using observation_key [OF world_okD(1) [OF assms(1)]] assms(11) by blast
  show ?thesis
    by (rule correct_fresh [OF assms(1-10) key]) (auto simp: result_of_def)
qed

theorem correct_supersedes_witness:
  "\<exists>res v w'. correct_preference sample_env sample_correct sample_remembered = (Inr res, w') \<and>
     pr_sequence res = 2 \<and> extended sample_remembered w' v \<and> rev_value v = uc ''mint''"
proof -
  let ?old = "first_of sample_env sample_remember sample_world"
  have "\<exists>res v w'. correct_preference sample_env sample_correct sample_remembered = (Inr res, w') \<and>
      world_ok sample_env w' \<and> extended sample_remembered w' v \<and>
      pr_revision_id res = rev_id v \<and> pr_sequence res = rev_sequence ?old + 1 \<and> rev_value v = cp_value sample_correct \<and>
      rev_record_id v = cp_record_id sample_correct \<and> rev_supersedes v = Some (rev_id ?old)"
    by (rule correct_supersedes [OF sample_remembered_ok, where r = sample_record])
       (simp_all add: sample_correct_ok sample_correct_fields sample_remembered_fields sample_first_fields)
  then show ?thesis by (auto simp: sample_correct_fields sample_first_fields)
qed

text \<open>
  A correction made against a revision that is no longer the active one is refused with a conflict and
  changes nothing: two concurrent corrections cannot both succeed.
\<close>

theorem stale_correction_refused:
  assumes "world_ok E w"
    and "map_of (s_records w) (cp_record_id c) = Some r" "rec_scope r = cp_scope c" "rec_kind r = PREFERENCE"
    and "cp_expected_revision_id c = Some i" "map_of (s_active_revision w) (cp_record_id c) \<noteq> Some i"
    and "observation_by_idempotency w (cp_scope c) (cp_key_id c) = None"
  shows "correct_preference E c w = (Inl (ConflictError ''expected revision is no longer active''), w)"
proof -
  have key: "map_of (s_observation_keys w) (cp_scope c, cp_key_id c) = None"
    using observation_key [OF world_okD(1) [OF assms(1)]] assms(7) by blast
  show ?thesis by (rule correct_stale [OF assms(1-6) key])
qed

theorem stale_correction_refused_witness:
  "correct_preference sample_env (sample_correct\<lparr>cp_expected_revision_id := Some 99\<rparr>) sample_remembered =
     (Inl (ConflictError ''expected revision is no longer active''), sample_remembered)"
  by (rule stale_correction_refused [OF sample_remembered_ok, where r = sample_record and i = 99])
     (simp_all add: sample_remembered_fields sample_correct_fields sample_correct_ok)

text \<open>
  The write commands are atomic: one that fails, at whatever point and for whatever reason, leaves the
  store as it was (only ids and clock readings are used up).
\<close>

theorem failed_commands_leave_the_store:
  "(case remember_preference E rm w of (Inl e, w') \<Rightarrow> same_store w w' | (Inr r, w') \<Rightarrow> True) \<and>
   (case correct_preference E cp w of (Inl e, w') \<Rightarrow> same_store w w' | (Inr r, w') \<Rightarrow> True) \<and>
   (case record_usage E ru w of (Inl e, w') \<Rightarrow> same_store w w' | (Inr r, w') \<Rightarrow> True) \<and>
   (case record_outcome E ro w of (Inl e, w') \<Rightarrow> same_store w w' | (Inr r, w') \<Rightarrow> True)"
proof -
  have "same_store w u" if "remember_preference E rm w = (Inl e, u)" for e u
    using that aside_commands(1) [of E rm] unfolding remember_preference_def by (intro rolled_back)
  moreover have "same_store w u" if "correct_preference E cp w = (Inl e, u)" for e u
    using that aside_commands(2) [of E cp] unfolding correct_preference_def by (intro rolled_back)
  moreover have "same_store w u" if "record_usage E ru w = (Inl e, u)" for e u
    using that aside_commands(3) [of E ru] unfolding record_usage_def by (intro rolled_back)
  moreover have "same_store w u" if "record_outcome E ro w = (Inl e, u)" for e u
    using that aside_commands(4) [of E ro] unfolding record_outcome_def by (intro rolled_back)
  ultimately show ?thesis by (auto split: prod.split sum.split)
qed

text \<open>
  C5: History is append-only: a step of the service removes no record or revision and extends each chain of
  revisions at its end, unless it is the erasure of a scope.
\<close>

theorem history_append_only:
  assumes "service_step E sv verifier w w'" "ids_fresh E w'" "system_ok E w"
  shows "map_of (s_records w) \<subseteq>\<^sub>m map_of (s_records w') \<and> map_of (s_revisions w) \<subseteq>\<^sub>m map_of (s_revisions w') \<and>
      (\<forall>r. prefix (revision_ids_of w r) (revision_ids_of w' r)) \<or>
    (\<exists>sc. w' = erased sc w)"
  using step_history [OF assms] unfolding history_grows_def .

theorem history_append_only_witness:
  "(map_of (s_records sample_world) \<subseteq>\<^sub>m map_of (s_records sample_remembered) \<and>
    map_of (s_revisions sample_world) \<subseteq>\<^sub>m map_of (s_revisions sample_remembered) \<and>
    (\<forall>r. prefix (revision_ids_of sample_world r) (revision_ids_of sample_remembered r))) \<or>
   (\<exists>sc. sample_remembered = erased sc sample_world)"
  by (rule history_append_only [OF remembering [OF sample_remember_ok(1) sample_remember_run,
        of sample_service "\<lambda>_ _. Inr ()"]])
     (simp_all add: sample_world_ok sample_remembered_fields)

text \<open>
  C12: The memory service refines the append-only ledger: seen as a map from identities (scope, key,
  context fingerprint) to lists of revisions, every step of the service leaves the map alone, appends one
  revision that follows the last one of its list, or forgets one scope; and the current belief of an identity
  is always the last entry of its list.
\<close>

theorem service_refines_ledger:
  assumes "digests_ok E" "service_ok sv" "ids_fresh E w'" "system_ok E w" "service_step E sv verifier w w'"
  shows "ledger_step (ledger_of w) (ledger_of w') \<and>
    (\<exists>sn. current_by_identity (e_sha E) w' sc key ctx = Inr sn \<and>
      map_option snap_revision sn =
        (if ledger_of w' (sc, key, fingerprint (e_sha E) ctx) = [] then None
         else Some (last (ledger_of w' (sc, key, fingerprint (e_sha E) ctx)))))"
proof
  show "ledger_step (ledger_of w) (ledger_of w')" by (rule step_ledger [OF assms])
  have "system_ok E w'" by (rule service_step_keeps [OF assms(3,1,2,5,4)])
  then have "belief_plane_ok (e_sha E) w'" by (intro world_okD(2) system_okD(1))
  then show "\<exists>sn. current_by_identity (e_sha E) w' sc key ctx = Inr sn \<and>
      map_option snap_revision sn =
        (if ledger_of w' (sc, key, fingerprint (e_sha E) ctx) = [] then None
         else Some (last (ledger_of w' (sc, key, fingerprint (e_sha E) ctx))))"
    by (rule current_is_last)
qed

theorem service_refines_ledger_witness:
  "ledger_step (ledger_of sample_world) (ledger_of sample_remembered) \<and> chain_of sample_remembered 3 \<noteq> []"
proof -
  have "service_ok sample_service" using sample_strategy_ok by (simp add: service_ok_def sample_service_def)
  moreover have "ids_fresh sample_env sample_remembered" by (simp add: sample_remembered_fields)
  ultimately show ?thesis
    using service_refines_ledger [OF sample_digests _ _ sample_world_ok(1)
      remembering [OF sample_remember_ok(1) sample_remember_run, of sample_service "\<lambda>_ _. Inr ()"]]
    by (simp add: chain_of_def revision_ids_of_def sample_remembered_fields)
qed

end
